(* ===== verification/Prelude.thy ===== *)
theory Prelude
  imports Main "HOL-Library.Word" "HOL-Library.State_Monad"
begin

text \<open>
  What every component of the development shares: the C integer types as fixed-width words,
  byte pointers, the state monad in which the C functions are written, byte copies and the
  in-place reversal loop that the radio driver repeats in many functions, and the lemma
  collections used by the component proofs.

  A C function that works on global state is a value of type \<open>('s, 'a) state\<close> of
  HOL-Library.State_Monad, written with \<open>do\<close>. Its early returns are the branches of
  \<open>if\<close> expressions, in the order of the source.
\<close>

unbundle bit_operations_syntax

type_synonym u8 = "8 word"
type_synonym u16 = "16 word"
type_synonym u32 = "32 word"

text \<open>
  A pointer to bytes: \<open>None\<close> is \<open>NULL\<close>, \<open>Some bs\<close> is a pointer to a region whose bytes are
  \<open>bs\<close> (so \<open>length bs\<close> is the capacity of the region).
\<close>

type_synonym cptr = "u8 list option"

named_theorems run_simps \<open>evaluation of the state monad\<close>
named_theorems driver_defs \<open>definitions of the register setters and getters\<close>

abbreviation ret :: "'a \<Rightarrow> ('s, 'a) state" where
  "ret \<equiv> State_Monad.return"

abbreviation getst :: "('s, 's) state" where
  "getst \<equiv> State_Monad.get"

definition modify :: "('s \<Rightarrow> 's) \<Rightarrow> ('s, unit) state" where
  "modify f = State (\<lambda>s. ((), f s))"

lemma run_modify [simp]: "run_state (modify f) s = ((), f s)"
  by (simp add: modify_def)

subsection \<open>Reasoning about runs\<close>

text \<open>
  A run of a sequence succeeds step by step: the elimination rule used to take a run of a
  \<open>do\<close> block apart without unfolding its operations.
\<close>

lemma run_bindE:
  assumes "run_state (State_Monad.bind m f) s = (r, t)"
  obtains a u where "run_state m s = (a, u)" and "run_state (f a) u = (r, t)"
  using assms by (auto split: prod.splits)

lemma run_bindI:
  "run_state m s = (a, u) \<Longrightarrow> run_state (State_Monad.bind m f) s = run_state (f a) u"
  by simp

subsection \<open>Words\<close>

lemma unat_ucast_u8_u16 [simp]: "unat (ucast (x :: u8) :: u16) = unat x"
proof -
  have "unat x < 2 ^ 8" using unsigned_less [of x] by simp
  then show ?thesis by (simp add: unsigned_ucast_eq take_bit_nat_eq_self_iff)
qed

lemma minus_256_u8 [simp]: "(- 256 :: u8) = 0"
  by simp

subsection \<open>Bytes in memory\<close>

text \<open>
  \<open>mem_write off bs m\<close> overwrites the bytes of \<open>m\<close> from offset \<open>off\<close> with \<open>bs\<close>, as
  \<open>memcpy(m + off, bs, n)\<close> does when the region is large enough.
\<close>

definition mem_write :: "nat \<Rightarrow> 'a list \<Rightarrow> 'a list \<Rightarrow> 'a list" where
  "mem_write off bs m = take off m @ bs @ drop (off + length bs) m"

lemma length_mem_write [simp]:
  "off + length bs \<le> length m \<Longrightarrow> length (mem_write off bs m) = length m"
  by (simp add: mem_write_def)

lemma mem_write_0 [simp]: "mem_write 0 bs m = bs @ drop (length bs) m"
  by (simp add: mem_write_def)

lemma mem_write_Nil [simp]: "mem_write off [] m = m"
  by (simp add: mem_write_def)

lemma nth_mem_write:
  assumes "off + length bs \<le> length m" and "i < length m"
  shows "mem_write off bs m ! i = (if off \<le> i \<and> i < off + length bs then bs ! (i - off) else m ! i)"
  using assms by (auto simp: mem_write_def nth_append min_def)

subsection \<open>The in-place reversal loop\<close>

text \<open>
  The loop \<open>for (i = 0; i < k; i++) { tmp = b[i]; b[i] = b[len-1-i]; b[len-1-i] = tmp; }\<close>
  with \<open>k = len / 2\<close>, started at index \<open>i\<close> with \<open>n = k - i\<close> iterations left.
\<close>

fun swap_loop :: "nat \<Rightarrow> nat \<Rightarrow> nat \<Rightarrow> 'a list \<Rightarrow> 'a list" where
  "swap_loop 0 i len b = b"
| "swap_loop (Suc n) i len b =
     (let tmp = b ! i;
          b = b[i := b ! (len - 1 - i)];
          b = b[len - 1 - i := tmp]
      in swap_loop n (Suc i) len b)"

definition reverse_buffer :: "nat \<Rightarrow> 'a list \<Rightarrow> 'a list" where
  "reverse_buffer len b = swap_loop (len div 2) 0 len b"

lemma length_swap_loop [simp]: "length (swap_loop n i len b) = length b"
  by (induction n i len b rule: swap_loop.induct) (simp_all add: Let_def)

lemma length_reverse_buffer [simp]: "length (reverse_buffer len b) = length b"
  by (simp add: reverse_buffer_def)

lemma nth_swap_loop:
  assumes "len \<le> length b" and "i + n = len div 2" and "j < length b"
  shows "swap_loop n i len b ! j =
    (if i \<le> j \<and> j < len - i then b ! (len - 1 - j) else b ! j)"
  using assms
proof (induction n arbitrary: i b)
  case 0
  have "len - 1 - j = j" if "i \<le> j" "j < len - i"
    using 0 that by linarith
  then show ?case by auto
next
  case (Suc n)
  let ?b = "(b[i := b ! (len - 1 - i)])[len - 1 - i := b ! i]"
  have i: "Suc i \<le> len - 1 - i" and il: "i < length b" "len - 1 - i < length b"
    using Suc.prems by linarith+
  have "swap_loop (Suc n) i len b ! j = swap_loop n (Suc i) len ?b ! j"
    by (simp add: Let_def)
  also have "\<dots> = (if Suc i \<le> j \<and> j < len - Suc i then ?b ! (len - 1 - j) else ?b ! j)"
    using Suc.prems by (intro Suc.IH) simp_all
  also have "\<dots> = (if i \<le> j \<and> j < len - i then b ! (len - 1 - j) else b ! j)"
  proof -
    consider "j = i" | "j = len - 1 - i" | "j < i \<or> len - i \<le> j"
      | "Suc i \<le> j" "j < len - Suc i" by linarith
    then show ?thesis
    proof cases
      case 1
      moreover have "i < len - i" using i by linarith
      ultimately show ?thesis using i il by simp
    next
      case 2
      moreover have "\<not> j < len - Suc i" "i \<le> j" "j < len - i" "len - 1 - j = i" "len - 1 - i \<noteq> i"
        using i 2 by linarith+
      ultimately show ?thesis using il by simp
    next
      case 3
      then have "j \<noteq> i" "j \<noteq> len - 1 - i" "\<not> (Suc i \<le> j \<and> j < len - Suc i)"
        "\<not> (i \<le> j \<and> j < len - i)"
        using i by linarith+
      then show ?thesis by (simp only: if_False nth_list_update_neq)
    next
      case 4
      then have "len - 1 - j \<noteq> i" "len - 1 - j \<noteq> len - 1 - i" "i \<le> j" "j < len - i"
        using i by linarith+
      with 4 show ?thesis by simp
    qed
  qed
  finally show ?case .
qed

text \<open>The loop reverses the first \<open>len\<close> bytes and leaves the rest of the buffer alone.\<close>

lemma reverse_buffer_eq:
  assumes "len \<le> length b"
  shows "reverse_buffer len b = rev (take len b) @ drop len b"
proof (rule nth_equalityI)
  show "length (reverse_buffer len b) = length (rev (take len b) @ drop len b)"
    using assms by simp
  fix j assume "j < length (reverse_buffer len b)"
  then have j: "j < length b" by simp
  have "reverse_buffer len b ! j = (if j < len then b ! (len - 1 - j) else b ! j)"
    using nth_swap_loop [of len b 0 "len div 2" j] assms j by (simp add: reverse_buffer_def)
  also have "\<dots> = (rev (take len b) @ drop len b) ! j"
    using assms j by (simp add: nth_append rev_nth)
  finally show "reverse_buffer len b ! j = (rev (take len b) @ drop len b) ! j" .
qed

subsection \<open>Little-endian integers\<close>

definition le16 :: "u16 \<Rightarrow> u8 list" where
  "le16 w = [ucast w, ucast (drop_bit 8 w)]"

definition un_le16 :: "u8 list \<Rightarrow> u16" where
  "un_le16 bs = ucast (bs ! 0) OR push_bit 8 (ucast (bs ! 1))"

definition le32 :: "u32 \<Rightarrow> u8 list" where
  "le32 w = [ucast w, ucast (drop_bit 8 w), ucast (drop_bit 16 w), ucast (drop_bit 24 w)]"

definition un_le32 :: "u8 list \<Rightarrow> u32" where
  "un_le32 bs = ucast (bs ! 0) OR push_bit 8 (ucast (bs ! 1)) OR push_bit 16 (ucast (bs ! 2)) OR
     push_bit 24 (ucast (bs ! 3))"

lemma length_le [simp]: "length (le16 w) = 2" "length (le32 v) = 4"
  by (simp_all add: le16_def le32_def)

lemma un_le16_le16 [simp]: "un_le16 (le16 w) = w"
  unfolding le16_def un_le16_def by (rule bit_word_eqI) (auto simp: bit_simps not_less)

lemma un_le32_le32 [simp]: "un_le32 (le32 w) = w"
  unfolding le32_def un_le32_def
proof (rule bit_word_eqI)
  fix n :: nat
  assume "n < LENGTH(32)"
  then consider "n < 8" | "8 \<le> n" "n < 16" | "16 \<le> n" "n < 24" | "24 \<le> n" "n < 32" by simp linarith
  then show "bit (ucast ([ucast w :: u8, ucast (drop_bit 8 w), ucast (drop_bit 16 w), ucast (drop_bit 24 w)] ! 0) OR
      push_bit 8 (ucast ([ucast w :: u8, ucast (drop_bit 8 w), ucast (drop_bit 16 w), ucast (drop_bit 24 w)] ! 1)) OR
      push_bit 16 (ucast ([ucast w :: u8, ucast (drop_bit 8 w), ucast (drop_bit 16 w), ucast (drop_bit 24 w)] ! 2)) OR
      push_bit 24 (ucast ([ucast w :: u8, ucast (drop_bit 8 w), ucast (drop_bit 16 w), ucast (drop_bit 24 w)] ! 3)) :: u32) n
    = bit w n"
    by cases (auto simp: bit_simps)
qed

lemma bit_u8_ge: "8 \<le> n \<Longrightarrow> \<not> bit (x :: u8) n"
  using bit_imp_le_length [of x n] by auto

lemma le16_un_le16: 
  assumes "length bs = 2"
  shows "le16 (un_le16 bs) = bs"
proof -
  obtain x y where "bs = [x, y]" using assms by (auto simp: length_Suc_conv numeral_2_eq_2)
  then show ?thesis
    by (simp add: le16_def un_le16_def) (intro conjI; rule bit_word_eqI; auto simp: bit_simps bit_u8_ge)
qed

lemma le32_un_le32: 
  assumes "length bs = 4"
  shows "le32 (un_le32 bs) = bs"
proof -
  obtain x y z u where "bs = [x, y, z, u]" using assms by (auto simp: length_Suc_conv eval_nat_numeral)
  then show ?thesis
    by (simp add: le32_def un_le32_def) (intro conjI; rule bit_word_eqI; auto simp: bit_simps bit_u8_ge)
qed

end
