(* ===== verification/Nrf24_Base.thy ===== *)
theory Nrf24_Base
  imports Prelude
begin

text \<open>
  The data model of the nRF24L01 driver (src/src/nrf24l01/nrf24l01.h, nrf24l01.c): the command
  and register numbers, the enumerations, the handle with its linked functions, the guarded
  calls through the handle, and the functions that open, close and activate the chip.

  The handle \<open>nrf24l01_handle_t\<close> is split in two: the linked function pointers are the record
  \<open>nrf24l01_handle\<close>, the fields the driver writes (\<open>inited\<close>, \<open>finished\<close>) are in the state
  \<open>nrf_state\<close>, next to \<open>env\<close>, everything outside the driver (bus, chip, other threads), whose
  type is a parameter. The ghost field \<open>fault\<close> records undefined behaviour: a call through a
  \<open>NULL\<close> function pointer, or a copy beyond the end of a buffer.
\<close>

subsection \<open>Commands and registers\<close>

abbreviation (input) NRF24L01_COMMAND_R_REGISTER :: u8 where "NRF24L01_COMMAND_R_REGISTER \<equiv> 0x00"
abbreviation (input) NRF24L01_COMMAND_W_REGISTER :: u8 where "NRF24L01_COMMAND_W_REGISTER \<equiv> 0x20"
abbreviation (input) NRF24L01_COMMAND_R_RX_PAYLOAD :: u8 where "NRF24L01_COMMAND_R_RX_PAYLOAD \<equiv> 0x61"
abbreviation (input) NRF24L01_COMMAND_W_TX_PAYLOAD :: u8 where "NRF24L01_COMMAND_W_TX_PAYLOAD \<equiv> 0xA0"
abbreviation (input) NRF24L01_COMMAND_FLUSH_TX :: u8 where "NRF24L01_COMMAND_FLUSH_TX \<equiv> 0xE1"
abbreviation (input) NRF24L01_COMMAND_FLUSH_RX :: u8 where "NRF24L01_COMMAND_FLUSH_RX \<equiv> 0xE2"
abbreviation (input) NRF24L01_COMMAND_REUSE_TX_PL :: u8 where "NRF24L01_COMMAND_REUSE_TX_PL \<equiv> 0xE3"
abbreviation (input) NRF24L01_COMMAND_R_RX_PL_WID :: u8 where "NRF24L01_COMMAND_R_RX_PL_WID \<equiv> 0x60"
abbreviation (input) NRF24L01_COMMAND_W_ACK_PAYLOAD :: u8 where "NRF24L01_COMMAND_W_ACK_PAYLOAD \<equiv> 0xA8"
abbreviation (input) NRF24L01_COMMAND_W_TX_PAYLOAD_NO_ACK :: u8 where
  "NRF24L01_COMMAND_W_TX_PAYLOAD_NO_ACK \<equiv> 0xB0"
abbreviation (input) NRF24L01_COMMAND_NOP :: u8 where "NRF24L01_COMMAND_NOP \<equiv> 0xFF"

abbreviation (input) NRF24L01_REG_CONFIG :: u8 where "NRF24L01_REG_CONFIG \<equiv> 0x00"
abbreviation (input) NRF24L01_REG_EN_AA :: u8 where "NRF24L01_REG_EN_AA \<equiv> 0x01"
abbreviation (input) NRF24L01_REG_EN_RXADDR :: u8 where "NRF24L01_REG_EN_RXADDR \<equiv> 0x02"
abbreviation (input) NRF24L01_REG_SETUP_AW :: u8 where "NRF24L01_REG_SETUP_AW \<equiv> 0x03"
abbreviation (input) NRF24L01_REG_SETUP_RETR :: u8 where "NRF24L01_REG_SETUP_RETR \<equiv> 0x04"
abbreviation (input) NRF24L01_REG_RF_CH :: u8 where "NRF24L01_REG_RF_CH \<equiv> 0x05"
abbreviation (input) NRF24L01_REG_RF_SETUP :: u8 where "NRF24L01_REG_RF_SETUP \<equiv> 0x06"
abbreviation (input) NRF24L01_REG_STATUS :: u8 where "NRF24L01_REG_STATUS \<equiv> 0x07"
abbreviation (input) NRF24L01_REG_OBSERVE_TX :: u8 where "NRF24L01_REG_OBSERVE_TX \<equiv> 0x08"
abbreviation (input) NRF24L01_REG_RPD :: u8 where "NRF24L01_REG_RPD \<equiv> 0x09"
abbreviation (input) NRF24L01_REG_RX_ADDR_P0 :: u8 where "NRF24L01_REG_RX_ADDR_P0 \<equiv> 0x0A"
abbreviation (input) NRF24L01_REG_RX_ADDR_P1 :: u8 where "NRF24L01_REG_RX_ADDR_P1 \<equiv> 0x0B"
abbreviation (input) NRF24L01_REG_RX_ADDR_P2 :: u8 where "NRF24L01_REG_RX_ADDR_P2 \<equiv> 0x0C"
abbreviation (input) NRF24L01_REG_RX_ADDR_P3 :: u8 where "NRF24L01_REG_RX_ADDR_P3 \<equiv> 0x0D"
abbreviation (input) NRF24L01_REG_RX_ADDR_P4 :: u8 where "NRF24L01_REG_RX_ADDR_P4 \<equiv> 0x0E"
abbreviation (input) NRF24L01_REG_RX_ADDR_P5 :: u8 where "NRF24L01_REG_RX_ADDR_P5 \<equiv> 0x0F"
abbreviation (input) NRF24L01_REG_TX_ADDR :: u8 where "NRF24L01_REG_TX_ADDR \<equiv> 0x10"
abbreviation (input) NRF24L01_REG_RX_PW_P0 :: u8 where "NRF24L01_REG_RX_PW_P0 \<equiv> 0x11"
abbreviation (input) NRF24L01_REG_RX_PW_P1 :: u8 where "NRF24L01_REG_RX_PW_P1 \<equiv> 0x12"
abbreviation (input) NRF24L01_REG_RX_PW_P2 :: u8 where "NRF24L01_REG_RX_PW_P2 \<equiv> 0x13"
abbreviation (input) NRF24L01_REG_RX_PW_P3 :: u8 where "NRF24L01_REG_RX_PW_P3 \<equiv> 0x14"
abbreviation (input) NRF24L01_REG_RX_PW_P4 :: u8 where "NRF24L01_REG_RX_PW_P4 \<equiv> 0x15"
abbreviation (input) NRF24L01_REG_RX_PW_P5 :: u8 where "NRF24L01_REG_RX_PW_P5 \<equiv> 0x16"
abbreviation (input) NRF24L01_REG_FIFO_STATUS :: u8 where "NRF24L01_REG_FIFO_STATUS \<equiv> 0x17"
abbreviation (input) NRF24L01_REG_DYNPD :: u8 where "NRF24L01_REG_DYNPD \<equiv> 0x1C"
abbreviation (input) NRF24L01_REG_FEATURE :: u8 where "NRF24L01_REG_FEATURE \<equiv> 0x1D"

subsection \<open>Enumerations\<close>

text \<open>
  An enumeration of the header is a datatype with its constants; \<open>*_val\<close> gives the integer
  value the header assigns. Values the driver reads back from the chip are kept as bytes, since
  a C enumeration variable can hold a value that has no constant.
\<close>

datatype nrf24l01_bool = NRF24L01_BOOL_FALSE | NRF24L01_BOOL_TRUE

fun bool_val :: "nrf24l01_bool \<Rightarrow> u8" where
  "bool_val NRF24L01_BOOL_FALSE = 0"
| "bool_val NRF24L01_BOOL_TRUE = 1"

datatype nrf24l01_config = NRF24L01_CONFIG_MASK_RX_DR | NRF24L01_CONFIG_MASK_TX_DS
  | NRF24L01_CONFIG_MASK_MAX_RT | NRF24L01_CONFIG_EN_CRC | NRF24L01_CONFIG_CRCO
  | NRF24L01_CONFIG_PWR_UP

fun config_val :: "nrf24l01_config \<Rightarrow> nat" where
  "config_val NRF24L01_CONFIG_MASK_RX_DR = 6"
| "config_val NRF24L01_CONFIG_MASK_TX_DS = 5"
| "config_val NRF24L01_CONFIG_MASK_MAX_RT = 4"
| "config_val NRF24L01_CONFIG_EN_CRC = 3"
| "config_val NRF24L01_CONFIG_CRCO = 2"
| "config_val NRF24L01_CONFIG_PWR_UP = 1"

datatype nrf24l01_mode = NRF24L01_MODE_TX | NRF24L01_MODE_RX

fun mode_val :: "nrf24l01_mode \<Rightarrow> u8" where
  "mode_val NRF24L01_MODE_TX = 0"
| "mode_val NRF24L01_MODE_RX = 1"

datatype nrf24l01_pipe = NRF24L01_PIPE_0 | NRF24L01_PIPE_1 | NRF24L01_PIPE_2
  | NRF24L01_PIPE_3 | NRF24L01_PIPE_4 | NRF24L01_PIPE_5

fun pipe_val :: "nrf24l01_pipe \<Rightarrow> nat" where
  "pipe_val NRF24L01_PIPE_0 = 0"
| "pipe_val NRF24L01_PIPE_1 = 1"
| "pipe_val NRF24L01_PIPE_2 = 2"
| "pipe_val NRF24L01_PIPE_3 = 3"
| "pipe_val NRF24L01_PIPE_4 = 4"
| "pipe_val NRF24L01_PIPE_5 = 5"

datatype nrf24l01_address_width = NRF24L01_ADDRESS_WIDTH_ILLEGAL
  | NRF24L01_ADDRESS_WIDTH_3_BYTES | NRF24L01_ADDRESS_WIDTH_4_BYTES
  | NRF24L01_ADDRESS_WIDTH_5_BYTES

fun address_width_val :: "nrf24l01_address_width \<Rightarrow> u8" where
  "address_width_val NRF24L01_ADDRESS_WIDTH_ILLEGAL = 0"
| "address_width_val NRF24L01_ADDRESS_WIDTH_3_BYTES = 1"
| "address_width_val NRF24L01_ADDRESS_WIDTH_4_BYTES = 2"
| "address_width_val NRF24L01_ADDRESS_WIDTH_5_BYTES = 3"

datatype nrf24l01_data_rate = NRF24L01_DATA_RATE_1M | NRF24L01_DATA_RATE_2M
  | NRF24L01_DATA_RATE_250K

fun data_rate_val :: "nrf24l01_data_rate \<Rightarrow> u8" where
  "data_rate_val NRF24L01_DATA_RATE_1M = 0"
| "data_rate_val NRF24L01_DATA_RATE_2M = 1"
| "data_rate_val NRF24L01_DATA_RATE_250K = 2"

datatype nrf24l01_output_power = NRF24L01_OUTPUT_POWER_NEGATIVE_18_DBM
  | NRF24L01_OUTPUT_POWER_NEGATIVE_12_DBM | NRF24L01_OUTPUT_POWER_NEGATIVE_6_DBM
  | NRF24L01_OUTPUT_POWER_0_DBM

fun output_power_val :: "nrf24l01_output_power \<Rightarrow> u8" where
  "output_power_val NRF24L01_OUTPUT_POWER_NEGATIVE_18_DBM = 0"
| "output_power_val NRF24L01_OUTPUT_POWER_NEGATIVE_12_DBM = 1"
| "output_power_val NRF24L01_OUTPUT_POWER_NEGATIVE_6_DBM = 2"
| "output_power_val NRF24L01_OUTPUT_POWER_0_DBM = 3"

datatype nrf24l01_interrupt = NRF24L01_INTERRUPT_RX_DR | NRF24L01_INTERRUPT_TX_DS
  | NRF24L01_INTERRUPT_MAX_RT | NRF24L01_INTERRUPT_TX_FULL

fun interrupt_val :: "nrf24l01_interrupt \<Rightarrow> nat" where
  "interrupt_val NRF24L01_INTERRUPT_RX_DR = 6"
| "interrupt_val NRF24L01_INTERRUPT_TX_DS = 5"
| "interrupt_val NRF24L01_INTERRUPT_MAX_RT = 4"
| "interrupt_val NRF24L01_INTERRUPT_TX_FULL = 0"

subsection \<open>The handle and the state\<close>

record 'e nrf_state =
  inited :: u8
  finished :: u8
  fault :: bool
  env :: 'e

record 'e nrf24l01_handle =
  gpio_init :: "('e nrf_state, u8) state option"
  gpio_deinit :: "('e nrf_state, u8) state option"
  gpio_write :: "(u8 \<Rightarrow> ('e nrf_state, u8) state) option"
  spi_init :: "('e nrf_state, u8) state option"
  spi_deinit :: "('e nrf_state, u8) state option"
  spi_read :: "(u8 \<Rightarrow> cptr \<Rightarrow> u16 \<Rightarrow> ('e nrf_state, u8 \<times> cptr) state) option"
  spi_write :: "(u8 \<Rightarrow> cptr \<Rightarrow> u16 \<Rightarrow> ('e nrf_state, u8) state) option"
  delay_ms :: "(u32 \<Rightarrow> ('e nrf_state, unit) state) option"
  debug_print :: "(string \<Rightarrow> u8 list \<Rightarrow> ('e nrf_state, unit) state) option"
  receive_callback :: "(u8 \<Rightarrow> u8 \<Rightarrow> cptr \<Rightarrow> u8 \<Rightarrow> ('e nrf_state, unit) state) option"

text \<open>Undefined behaviour is recorded and the run goes on with a made-up result \<open>r\<close>.\<close>

definition ub :: "'r \<Rightarrow> ('e nrf_state, 'r) state" where
  "ub r = do { modify (\<lambda>s. s\<lparr>fault := True\<rparr>); ret r }"

definition call_gpio_init :: "'e nrf24l01_handle \<Rightarrow> ('e nrf_state, u8) state" where
  "call_gpio_init h = (case gpio_init h of None \<Rightarrow> ub 0 | Some f \<Rightarrow> f)"

definition call_gpio_deinit :: "'e nrf24l01_handle \<Rightarrow> ('e nrf_state, u8) state" where
  "call_gpio_deinit h = (case gpio_deinit h of None \<Rightarrow> ub 0 | Some f \<Rightarrow> f)"

definition call_gpio_write :: "'e nrf24l01_handle \<Rightarrow> u8 \<Rightarrow> ('e nrf_state, u8) state" where
  "call_gpio_write h v = (case gpio_write h of None \<Rightarrow> ub 0 | Some f \<Rightarrow> f v)"

definition call_spi_init :: "'e nrf24l01_handle \<Rightarrow> ('e nrf_state, u8) state" where
  "call_spi_init h = (case spi_init h of None \<Rightarrow> ub 0 | Some f \<Rightarrow> f)"

definition call_spi_deinit :: "'e nrf24l01_handle \<Rightarrow> ('e nrf_state, u8) state" where
  "call_spi_deinit h = (case spi_deinit h of None \<Rightarrow> ub 0 | Some f \<Rightarrow> f)"

definition call_spi_read ::
  "'e nrf24l01_handle \<Rightarrow> u8 \<Rightarrow> cptr \<Rightarrow> u16 \<Rightarrow> ('e nrf_state, u8 \<times> cptr) state" where
  "call_spi_read h reg buf len =
     (case spi_read h of None \<Rightarrow> ub (0, buf) | Some f \<Rightarrow> f reg buf len)"

definition call_spi_write ::
  "'e nrf24l01_handle \<Rightarrow> u8 \<Rightarrow> cptr \<Rightarrow> u16 \<Rightarrow> ('e nrf_state, u8) state" where
  "call_spi_write h reg buf len =
     (case spi_write h of None \<Rightarrow> ub 0 | Some f \<Rightarrow> f reg buf len)"

definition call_delay_ms :: "'e nrf24l01_handle \<Rightarrow> u32 \<Rightarrow> ('e nrf_state, unit) state" where
  "call_delay_ms h ms = (case delay_ms h of None \<Rightarrow> ub () | Some f \<Rightarrow> f ms)"

definition call_debug_print ::
  "'e nrf24l01_handle \<Rightarrow> string \<Rightarrow> u8 list \<Rightarrow> ('e nrf_state, unit) state" where
  "call_debug_print h fmt args = (case debug_print h of None \<Rightarrow> ub () | Some f \<Rightarrow> f fmt args)"

text \<open>The error exit of nearly every function: a diagnostic, then the status code.\<close>

definition fail_print :: "'e nrf24l01_handle \<Rightarrow> string \<Rightarrow> 'r \<Rightarrow> ('e nrf_state, 'r) state" where
  "fail_print h msg r = do { call_debug_print h msg []; ret r }"

text \<open>
  The two checks every function of the driver starts with: status 2 for a \<open>NULL\<close> handle, 3 for
  a handle that is not initialised. \<open>err\<close> builds the function's result from the status.
\<close>

definition checked :: "'e nrf24l01_handle option \<Rightarrow> (u8 \<Rightarrow> 'r) \<Rightarrow>
    ('e nrf24l01_handle \<Rightarrow> ('e nrf_state, 'r) state) \<Rightarrow> ('e nrf_state, 'r) state" where
  "checked handle err body =
     (case handle of
        None \<Rightarrow> ret (err 2)
      | Some h \<Rightarrow> do { s \<leftarrow> getst; if inited s \<noteq> 1 then ret (err 3) else body h })"

lemma run_checked [run_simps]:
  "run_state (checked None err body) s = (err 2, s)"
  "inited s \<noteq> 1 \<Longrightarrow> run_state (checked (Some h) err body) s = (err 3, s)"
  "inited s = 1 \<Longrightarrow> run_state (checked (Some h) err body) s = run_state (body h) s"
  by (simp_all add: checked_def)

subsection \<open>Register access\<close>

definition a_nrf24l01_spi_read ::
  "'e nrf24l01_handle \<Rightarrow> u8 \<Rightarrow> cptr \<Rightarrow> u16 \<Rightarrow> ('e nrf_state, u8 \<times> cptr) state" where
  "a_nrf24l01_spi_read h reg buf len = do {
     (res, buf) \<leftarrow> call_spi_read h (NRF24L01_COMMAND_R_REGISTER OR reg) buf len;
     if res \<noteq> 0 then ret (1, buf) else ret (0, buf) }"

definition a_nrf24l01_spi_write ::
  "'e nrf24l01_handle \<Rightarrow> u8 \<Rightarrow> cptr \<Rightarrow> u16 \<Rightarrow> ('e nrf_state, u8) state" where
  "a_nrf24l01_spi_write h reg buf len = do {
     res \<leftarrow> call_spi_write h (NRF24L01_COMMAND_W_REGISTER OR reg) buf len;
     if res \<noteq> 0 then ret 1 else ret 0 }"

text \<open>
  Reading one register byte into a local variable \<open>uint8_t prev\<close>: the variable's address is
  passed, its content before the read is irrelevant and taken to be 0.
\<close>

definition read_byte :: "'e nrf24l01_handle \<Rightarrow> u8 \<Rightarrow> ('e nrf_state, u8 \<times> u8) state" where
  "read_byte h reg = do {
     (res, buf) \<leftarrow> a_nrf24l01_spi_read h reg (Some [0]) 1;
     ret (res, case buf of Some (b # _) \<Rightarrow> b | _ \<Rightarrow> 0) }"

definition write_byte :: "'e nrf24l01_handle \<Rightarrow> u8 \<Rightarrow> u8 \<Rightarrow> ('e nrf_state, u8) state" where
  "write_byte h reg v = a_nrf24l01_spi_write h reg (Some [v]) 1"

text \<open>
  Copies between the caller's memory and a local array of \<open>cap\<close> bytes (\<open>memcpy\<close>, or the
  element loop of the payload functions): reading beyond the region the caller passed, or
  writing beyond the local array, is undefined behaviour. The rest of the local array is
  uninitialised and never used; it is taken to be 0.
\<close>

definition copy_in :: "nat \<Rightarrow> cptr \<Rightarrow> nat \<Rightarrow> ('e nrf_state, u8 list) state" where
  "copy_in cap src n =
     (if n = 0 then ret (replicate cap 0)
      else case src of
        None \<Rightarrow> ub (replicate cap 0)
      | Some bs \<Rightarrow> if n \<le> length bs \<and> n \<le> cap then ret (take n bs @ replicate (cap - n) 0)
                   else ub (replicate cap 0))"

text \<open>The reversal loop on memory of the caller.\<close>

definition reverse_in_place :: "cptr \<Rightarrow> nat \<Rightarrow> ('e nrf_state, cptr) state" where
  "reverse_in_place p n =
     (if n div 2 = 0 then ret p
      else case p of
        None \<Rightarrow> ub p
      | Some bs \<Rightarrow> if n \<le> length bs then ret (Some (reverse_buffer n bs)) else ub p)"

text \<open>\<open>*num = ( *num) & mask\<close> on memory of the caller, then return status 0.\<close>

definition mask_target :: "cptr \<Rightarrow> u8 \<Rightarrow> ('e nrf_state, u8 \<times> cptr) state" where
  "mask_target p m =
     (case p of Some (b # bs) \<Rightarrow> ret (0, Some ((b AND m) # bs)) | _ \<Rightarrow> ub (0, p))"

subsection \<open>Opening, closing and activating the chip\<close>

definition nrf24l01_init :: "'e nrf24l01_handle option \<Rightarrow> ('e nrf_state, u8) state" where
  "nrf24l01_init handle =
     (case handle of None \<Rightarrow> ret 2
      | Some h \<Rightarrow>
        if debug_print h = None then ret 3
        else if spi_init h = None then fail_print h ''nrf24l01: spi_init is null.'' 3
        else if spi_deinit h = None then fail_print h ''nrf24l01: spi_deinit is null.'' 3
        else if spi_read h = None then fail_print h ''nrf24l01: spi_read is null.'' 3
        else if spi_write h = None then fail_print h ''nrf24l01: spi_write is null.'' 3
        else if gpio_init h = None then fail_print h ''nrf24l01: gpio_init is null.'' 3
        else if gpio_deinit h = None then fail_print h ''nrf24l01: gpio_deinit is null.'' 3
        else if gpio_write h = None then fail_print h ''nrf24l01: gpio_write is null.'' 3
        else if delay_ms h = None then fail_print h ''nrf24l01: delay_ms is null.'' 3
        else if receive_callback h = None then
          fail_print h ''nrf24l01: receive_callback is null.'' 3
        else do {
          res \<leftarrow> call_gpio_init h;
          if res \<noteq> 0 then fail_print h ''nrf24l01: gpio init failed.'' 4
          else do {
            res \<leftarrow> call_spi_init h;
            if res \<noteq> 0 then do {
              call_debug_print h ''nrf24l01: spi init failed.'' [];
              _ \<leftarrow> call_gpio_deinit h;
              ret 1 }
            else do {
              modify (\<lambda>s. s\<lparr>inited := 1\<rparr>);
              ret 0 } } })"

definition nrf24l01_deinit :: "'e nrf24l01_handle option \<Rightarrow> ('e nrf_state, u8) state" where
  "nrf24l01_deinit handle = checked handle id (\<lambda>h. do {
     res \<leftarrow> call_spi_write h NRF24L01_COMMAND_NOP None 0;
     if res \<noteq> 0 then fail_print h ''nrf24l01: nop failed.'' 1
     else do {
       (res, prev) \<leftarrow> read_byte h NRF24L01_REG_CONFIG;
       if res \<noteq> 0 then fail_print h ''nrf24l01: get config failed.'' 1
       else do {
         let prev = prev AND NOT (push_bit 1 1);
         res \<leftarrow> write_byte h NRF24L01_REG_CONFIG prev;
         if res \<noteq> 0 then fail_print h ''nrf24l01: set config failed.'' 1
         else do {
           res \<leftarrow> call_gpio_deinit h;
           if res \<noteq> 0 then fail_print h ''nrf24l01: gpio deinit failed.'' 4
           else do {
             res \<leftarrow> call_spi_deinit h;
             if res \<noteq> 0 then fail_print h ''nrf24l01: spi deinit failed.'' 5
             else do {
               modify (\<lambda>s. s\<lparr>inited := 0\<rparr>);
               ret 0 } } } } } })"

definition nrf24l01_set_active ::
  "'e nrf24l01_handle option \<Rightarrow> nrf24l01_bool \<Rightarrow> ('e nrf_state, u8) state" where
  "nrf24l01_set_active handle enable = checked handle id (\<lambda>h. do {
     res \<leftarrow> call_gpio_write h (bool_val enable);
     if res \<noteq> 0 then fail_print h ''nrf24l01: gpio write failed.'' 1
     else ret 0 })"

end
