(* ===== verification/Nrf24_Config.thy ===== *)
theory Nrf24_Config
  imports Nrf24_Base
begin

text \<open>
  The register setters and getters of src/src/nrf24l01/nrf24l01.c that work on one register
  byte: CONFIG, EN_AA, EN_RXADDR, SETUP_AW, SETUP_RETR, RF_CH, RF_SETUP, STATUS, OBSERVE_TX,
  RPD, DYNPD, FEATURE, the payload widths RX_PW_P0 to RX_PW_P5 and FIFO_STATUS, one definition
  per function. A getter returns the status and the value stored through its pointer argument,
  \<open>None\<close> when it stores nothing; a getter that lets the bus write into the caller's byte takes
  the pointer and returns what it points to afterwards. Diagnostics are given without their
  final newline.
\<close>

subsection \<open>CONFIG: interrupt masks, CRC, power and mode\<close>

definition nrf24l01_set_config ::
  "'e nrf24l01_handle option \<Rightarrow> nrf24l01_config \<Rightarrow>
    nrf24l01_bool \<Rightarrow> ('e nrf_state, u8) state" where [driver_defs]:
  "nrf24l01_set_config handle config enable = checked handle id (\<lambda>h. do {
     (res, prev) \<leftarrow> read_byte h NRF24L01_REG_CONFIG;
     if res \<noteq> 0 then fail_print h ''nrf24l01: get config failed.'' 1
     else do {
       let prev = prev AND NOT (push_bit (config_val config) 1);
       let prev = prev OR push_bit (config_val config) (bool_val enable);
       res \<leftarrow> write_byte h NRF24L01_REG_CONFIG prev;
       if res \<noteq> 0 then fail_print h ''nrf24l01: set config failed.'' 1
       else ret 0 } })"

definition nrf24l01_get_config ::
  "'e nrf24l01_handle option \<Rightarrow> nrf24l01_config \<Rightarrow>
    ('e nrf_state, u8 \<times> u8 option) state" where [driver_defs]:
  "nrf24l01_get_config handle config = checked handle (\<lambda>c. (c, None)) (\<lambda>h. do {
     (res, prev) \<leftarrow> read_byte h NRF24L01_REG_CONFIG;
     if res \<noteq> 0 then fail_print h ''nrf24l01: get config failed.'' (1, None)
     else ret (0, Some (drop_bit (config_val config) prev AND 0x01)) })"

definition nrf24l01_set_mode ::
  "'e nrf24l01_handle option \<Rightarrow> nrf24l01_mode \<Rightarrow> ('e nrf_state, u8) state"
  where [driver_defs]:
  "nrf24l01_set_mode handle mode = checked handle id (\<lambda>h. do {
     (res, prev) \<leftarrow> read_byte h NRF24L01_REG_CONFIG;
     if res \<noteq> 0 then fail_print h ''nrf24l01: get config failed.'' 1
     else do {
       let prev = prev AND NOT (push_bit 0 1);
       let prev = prev OR push_bit 0 (mode_val mode);
       res \<leftarrow> write_byte h NRF24L01_REG_CONFIG prev;
       if res \<noteq> 0 then fail_print h ''nrf24l01: set config failed.'' 1
       else ret 0 } })"

definition nrf24l01_get_mode ::
  "'e nrf24l01_handle option \<Rightarrow> ('e nrf_state, u8 \<times> u8 option) state"
  where [driver_defs]:
  "nrf24l01_get_mode handle = checked handle (\<lambda>c. (c, None)) (\<lambda>h. do {
     (res, prev) \<leftarrow> read_byte h NRF24L01_REG_CONFIG;
     if res \<noteq> 0 then fail_print h ''nrf24l01: get config failed.'' (1, None)
     else ret (0, Some (prev AND 0x01)) })"

subsection \<open>EN_AA, EN_RXADDR and SETUP_AW\<close>

definition nrf24l01_set_auto_acknowledgment ::
  "'e nrf24l01_handle option \<Rightarrow> nrf24l01_pipe \<Rightarrow>
    nrf24l01_bool \<Rightarrow> ('e nrf_state, u8) state" where [driver_defs]:
  "nrf24l01_set_auto_acknowledgment handle pipe enable = checked handle id (\<lambda>h. do {
     (res, prev) \<leftarrow> read_byte h NRF24L01_REG_EN_AA;
     if res \<noteq> 0 then fail_print h ''nrf24l01: get auto acknowledgment failed.'' 1
     else do {
       let prev = prev AND NOT (push_bit (pipe_val pipe) 1);
       let prev = prev OR push_bit (pipe_val pipe) (bool_val enable);
       res \<leftarrow> write_byte h NRF24L01_REG_EN_AA prev;
       if res \<noteq> 0 then fail_print h ''nrf24l01: set auto acknowledgment failed.'' 1
       else ret 0 } })"

definition nrf24l01_get_auto_acknowledgment ::
  "'e nrf24l01_handle option \<Rightarrow> nrf24l01_pipe \<Rightarrow>
    ('e nrf_state, u8 \<times> u8 option) state" where [driver_defs]:
  "nrf24l01_get_auto_acknowledgment handle pipe = checked handle (\<lambda>c. (c, None)) (\<lambda>h. do {
     (res, prev) \<leftarrow> read_byte h NRF24L01_REG_EN_AA;
     if res \<noteq> 0 then fail_print h ''nrf24l01: get auto acknowledgment failed.'' (1, None)
     else ret (0, Some (drop_bit (pipe_val pipe) prev AND 0x01)) })"

definition nrf24l01_set_rx_pipe ::
  "'e nrf24l01_handle option \<Rightarrow> nrf24l01_pipe \<Rightarrow>
    nrf24l01_bool \<Rightarrow> ('e nrf_state, u8) state" where [driver_defs]:
  "nrf24l01_set_rx_pipe handle pipe enable = checked handle id (\<lambda>h. do {
     (res, prev) \<leftarrow> read_byte h NRF24L01_REG_EN_RXADDR;
     if res \<noteq> 0 then fail_print h ''nrf24l01: get rx address failed.'' 1
     else do {
       let prev = prev AND NOT (push_bit (pipe_val pipe) 1);
       let prev = prev OR push_bit (pipe_val pipe) (bool_val enable);
       res \<leftarrow> write_byte h NRF24L01_REG_EN_RXADDR prev;
       if res \<noteq> 0 then fail_print h ''nrf24l01: set rx address failed.'' 1
       else ret 0 } })"

definition nrf24l01_get_rx_pipe ::
  "'e nrf24l01_handle option \<Rightarrow> nrf24l01_pipe \<Rightarrow>
    ('e nrf_state, u8 \<times> u8 option) state" where [driver_defs]:
  "nrf24l01_get_rx_pipe handle pipe = checked handle (\<lambda>c. (c, None)) (\<lambda>h. do {
     (res, prev) \<leftarrow> read_byte h NRF24L01_REG_EN_RXADDR;
     if res \<noteq> 0 then fail_print h ''nrf24l01: get rx address failed.'' (1, None)
     else ret (0, Some (drop_bit (pipe_val pipe) prev AND 0x01)) })"

definition nrf24l01_set_address_width ::
  "'e nrf24l01_handle option \<Rightarrow> nrf24l01_address_width \<Rightarrow>
    ('e nrf_state, u8) state" where [driver_defs]:
  "nrf24l01_set_address_width handle width = checked handle id (\<lambda>h. do {
     (res, prev) \<leftarrow> read_byte h NRF24L01_REG_SETUP_AW;
     if res \<noteq> 0 then fail_print h ''nrf24l01: get setup of address widths failed.'' 1
     else do {
       let prev = prev AND NOT (push_bit 0 3);
       let prev = prev OR push_bit 0 (address_width_val width);
       res \<leftarrow> write_byte h NRF24L01_REG_SETUP_AW prev;
       if res \<noteq> 0 then fail_print h ''nrf24l01: set setup of address widths failed.'' 1
       else ret 0 } })"

definition nrf24l01_get_address_width ::
  "'e nrf24l01_handle option \<Rightarrow> ('e nrf_state, u8 \<times> u8 option) state"
  where [driver_defs]:
  "nrf24l01_get_address_width handle = checked handle (\<lambda>c. (c, None)) (\<lambda>h. do {
     (res, prev) \<leftarrow> read_byte h NRF24L01_REG_SETUP_AW;
     if res \<noteq> 0 then fail_print h ''nrf24l01: get setup of address widths failed.'' (1, None)
     else ret (0, Some (drop_bit 0 prev AND 0x3)) })"

subsection \<open>SETUP_RETR: automatic retransmission\<close>

definition nrf24l01_set_auto_retransmit_delay ::
  "'e nrf24l01_handle option \<Rightarrow> u8 \<Rightarrow> ('e nrf_state, u8) state"
  where [driver_defs]:
  "nrf24l01_set_auto_retransmit_delay handle delay = checked handle id (\<lambda>h. 
     if delay > 0xF then fail_print h ''nrf24l01: delay is over 0xF.'' 4
     else do {
       (res, prev) \<leftarrow> read_byte h NRF24L01_REG_SETUP_RETR;
       if res \<noteq> 0 then fail_print h ''nrf24l01: get setup of automatic retransmission failed.'' 1
       else do {
         let prev = prev AND NOT (push_bit 4 0xF);
         let prev = prev OR push_bit 4 (delay);
         res \<leftarrow> write_byte h NRF24L01_REG_SETUP_RETR prev;
         if res \<noteq> 0 then fail_print h ''nrf24l01: set setup of automatic retransmission failed.'' 1
         else ret 0 } })"

definition nrf24l01_get_auto_retransmit_delay ::
  "'e nrf24l01_handle option \<Rightarrow> ('e nrf_state, u8 \<times> u8 option) state"
  where [driver_defs]:
  "nrf24l01_get_auto_retransmit_delay handle = checked handle (\<lambda>c. (c, None)) (\<lambda>h. do {
     (res, prev) \<leftarrow> read_byte h NRF24L01_REG_SETUP_RETR;
     if res \<noteq> 0 then fail_print h ''nrf24l01: get setup of automatic retransmission failed.'' (1, None)
     else ret (0, Some (drop_bit 4 prev AND 0xF)) })"

definition nrf24l01_auto_retransmit_delay_convert_to_register ::
  "'e nrf24l01_handle option \<Rightarrow> u32 \<Rightarrow> ('e nrf_state, u8 \<times> u8 option) state" where
  "nrf24l01_auto_retransmit_delay_convert_to_register handle us =
     checked handle (\<lambda>c. (c, None)) (\<lambda>h. ret (0, Some (ucast (us div 250))))"

definition nrf24l01_auto_retransmit_delay_convert_to_data ::
  "'e nrf24l01_handle option \<Rightarrow> u8 \<Rightarrow> ('e nrf_state, u8 \<times> u32 option) state" where
  "nrf24l01_auto_retransmit_delay_convert_to_data handle reg =
     checked handle (\<lambda>c. (c, None)) (\<lambda>h. ret (0, Some (ucast reg * 250)))"

definition nrf24l01_set_auto_retransmit_count ::
  "'e nrf24l01_handle option \<Rightarrow> u8 \<Rightarrow> ('e nrf_state, u8) state"
  where [driver_defs]:
  "nrf24l01_set_auto_retransmit_count handle count = checked handle id (\<lambda>h. 
     if count > 0xF then fail_print h ''nrf24l01: count is over 0xF.'' 4
     else do {
       (res, prev) \<leftarrow> read_byte h NRF24L01_REG_SETUP_RETR;
       if res \<noteq> 0 then fail_print h ''nrf24l01: get setup of automatic retransmission failed.'' 1
       else do {
         let prev = prev AND NOT (push_bit 0 0xF);
         let prev = prev OR push_bit 0 (count);
         res \<leftarrow> write_byte h NRF24L01_REG_SETUP_RETR prev;
         if res \<noteq> 0 then fail_print h ''nrf24l01: set setup of automatic retransmission failed.'' 1
         else ret 0 } })"

definition nrf24l01_get_auto_retransmit_count ::
  "'e nrf24l01_handle option \<Rightarrow> ('e nrf_state, u8 \<times> u8 option) state"
  where [driver_defs]:
  "nrf24l01_get_auto_retransmit_count handle = checked handle (\<lambda>c. (c, None)) (\<lambda>h. do {
     (res, prev) \<leftarrow> read_byte h NRF24L01_REG_SETUP_RETR;
     if res \<noteq> 0 then fail_print h ''nrf24l01: get setup of automatic retransmission failed.'' (1, None)
     else ret (0, Some (drop_bit 0 prev AND 0xF)) })"

subsection \<open>RF_CH and RF_SETUP\<close>

definition nrf24l01_set_channel_frequency ::
  "'e nrf24l01_handle option \<Rightarrow> u8 \<Rightarrow> ('e nrf_state, u8) state"
  where [driver_defs]:
  "nrf24l01_set_channel_frequency handle freq = checked handle id (\<lambda>h. 
     if freq > 0x7F then fail_print h ''nrf24l01: freq is over 0x7F.'' 4
     else do {
       (res, prev) \<leftarrow> read_byte h NRF24L01_REG_RF_CH;
       if res \<noteq> 0 then fail_print h ''nrf24l01: get rf channel failed.'' 1
       else do {
         let prev = prev AND NOT (push_bit 0 0x7F);
         let prev = prev OR push_bit 0 (freq);
         res \<leftarrow> write_byte h NRF24L01_REG_RF_CH prev;
         if res \<noteq> 0 then fail_print h ''nrf24l01: set rf channel failed.'' 1
         else ret 0 } })"

definition nrf24l01_get_channel_frequency ::
  "'e nrf24l01_handle option \<Rightarrow> ('e nrf_state, u8 \<times> u8 option) state"
  where [driver_defs]:
  "nrf24l01_get_channel_frequency handle = checked handle (\<lambda>c. (c, None)) (\<lambda>h. do {
     (res, prev) \<leftarrow> read_byte h NRF24L01_REG_RF_CH;
     if res \<noteq> 0 then fail_print h ''nrf24l01: get rf channel failed.'' (1, None)
     else ret (0, Some (prev AND 0x7F)) })"

definition nrf24l01_set_continuous_carrier_transmit ::
  "'e nrf24l01_handle option \<Rightarrow> nrf24l01_bool \<Rightarrow> ('e nrf_state, u8) state"
  where [driver_defs]:
  "nrf24l01_set_continuous_carrier_transmit handle enable = checked handle id (\<lambda>h. do {
     (res, prev) \<leftarrow> read_byte h NRF24L01_REG_RF_SETUP;
     if res \<noteq> 0 then fail_print h ''nrf24l01: get rf setup register failed.'' 1
     else do {
       let prev = prev AND NOT (push_bit 7 1);
       let prev = prev OR push_bit 7 (bool_val enable);
       res \<leftarrow> write_byte h NRF24L01_REG_RF_SETUP prev;
       if res \<noteq> 0 then fail_print h ''nrf24l01: set rf setup register failed.'' 1
       else ret 0 } })"

definition nrf24l01_get_continuous_carrier_transmit ::
  "'e nrf24l01_handle option \<Rightarrow> ('e nrf_state, u8 \<times> u8 option) state"
  where [driver_defs]:
  "nrf24l01_get_continuous_carrier_transmit handle = checked handle (\<lambda>c. (c, None)) (\<lambda>h. do {
     (res, prev) \<leftarrow> read_byte h NRF24L01_REG_RF_SETUP;
     if res \<noteq> 0 then fail_print h ''nrf24l01: get rf setup register failed.'' (1, None)
     else ret (0, Some (drop_bit 7 prev AND 0x01)) })"

definition nrf24l01_set_force_pll_lock_signal ::
  "'e nrf24l01_handle option \<Rightarrow> nrf24l01_bool \<Rightarrow> ('e nrf_state, u8) state"
  where [driver_defs]:
  "nrf24l01_set_force_pll_lock_signal handle enable = checked handle id (\<lambda>h. do {
     (res, prev) \<leftarrow> read_byte h NRF24L01_REG_RF_SETUP;
     if res \<noteq> 0 then fail_print h ''nrf24l01: get rf setup register failed.'' 1
     else do {
       let prev = prev AND NOT (push_bit 4 1);
       let prev = prev OR push_bit 4 (bool_val enable);
       res \<leftarrow> write_byte h NRF24L01_REG_RF_SETUP prev;
       if res \<noteq> 0 then fail_print h ''nrf24l01: set rf setup register failed.'' 1
       else ret 0 } })"

definition nrf24l01_get_force_pll_lock_signal ::
  "'e nrf24l01_handle option \<Rightarrow> ('e nrf_state, u8 \<times> u8 option) state"
  where [driver_defs]:
  "nrf24l01_get_force_pll_lock_signal handle = checked handle (\<lambda>c. (c, None)) (\<lambda>h. do {
     (res, prev) \<leftarrow> read_byte h NRF24L01_REG_RF_SETUP;
     if res \<noteq> 0 then fail_print h ''nrf24l01: get rf setup register failed.'' (1, None)
     else ret (0, Some (drop_bit 4 prev AND 0x01)) })"

definition nrf24l01_set_data_rate ::
  "'e nrf24l01_handle option \<Rightarrow> nrf24l01_data_rate \<Rightarrow>
    ('e nrf_state, u8) state" where [driver_defs]:
  "nrf24l01_set_data_rate handle rate = checked handle id (\<lambda>h. do {
     (res, prev) \<leftarrow> read_byte h NRF24L01_REG_RF_SETUP;
     if res \<noteq> 0 then fail_print h ''nrf24l01: get rf setup register failed.'' 1
     else do {
       let prev = prev AND NOT (push_bit 5 1);
       let prev = prev AND NOT (push_bit 3 1);
       let prev = prev OR push_bit 3 (drop_bit 0 (data_rate_val rate) AND 0x1);
       let prev = prev OR push_bit 5 (drop_bit 1 (data_rate_val rate) AND 0x1);
       res \<leftarrow> write_byte h NRF24L01_REG_RF_SETUP prev;
       if res \<noteq> 0 then fail_print h ''nrf24l01: set rf setup register failed.'' 1
       else ret 0 } })"

definition nrf24l01_get_data_rate ::
  "'e nrf24l01_handle option \<Rightarrow> ('e nrf_state, u8 \<times> u8 option) state"
  where [driver_defs]:
  "nrf24l01_get_data_rate handle = checked handle (\<lambda>c. (c, None)) (\<lambda>h. do {
     (res, prev) \<leftarrow> read_byte h NRF24L01_REG_RF_SETUP;
     if res \<noteq> 0 then fail_print h ''nrf24l01: get rf setup register failed.'' (1, None)
     else ret (0, Some ((drop_bit 3 prev AND 0x01) OR push_bit 1 (drop_bit 5 prev AND 0x01))) })"

definition nrf24l01_set_output_power ::
  "'e nrf24l01_handle option \<Rightarrow> nrf24l01_output_power \<Rightarrow>
    ('e nrf_state, u8) state" where [driver_defs]:
  "nrf24l01_set_output_power handle pwr = checked handle id (\<lambda>h. do {
     (res, prev) \<leftarrow> read_byte h NRF24L01_REG_RF_SETUP;
     if res \<noteq> 0 then fail_print h ''nrf24l01: get rf setup register failed.'' 1
     else do {
       let prev = prev AND NOT (push_bit 1 3);
       let prev = prev OR push_bit 1 (output_power_val pwr);
       res \<leftarrow> write_byte h NRF24L01_REG_RF_SETUP prev;
       if res \<noteq> 0 then fail_print h ''nrf24l01: set rf setup register failed.'' 1
       else ret 0 } })"

definition nrf24l01_get_output_power ::
  "'e nrf24l01_handle option \<Rightarrow> ('e nrf_state, u8 \<times> u8 option) state"
  where [driver_defs]:
  "nrf24l01_get_output_power handle = checked handle (\<lambda>c. (c, None)) (\<lambda>h. do {
     (res, prev) \<leftarrow> read_byte h NRF24L01_REG_RF_SETUP;
     if res \<noteq> 0 then fail_print h ''nrf24l01: get rf setup register failed.'' (1, None)
     else ret (0, Some (drop_bit 1 prev AND 0x03)) })"

subsection \<open>STATUS, OBSERVE_TX and RPD\<close>

definition nrf24l01_get_interrupt ::
  "'e nrf24l01_handle option \<Rightarrow> nrf24l01_interrupt \<Rightarrow>
    ('e nrf_state, u8 \<times> u8 option) state" where [driver_defs]:
  "nrf24l01_get_interrupt handle type = checked handle (\<lambda>c. (c, None)) (\<lambda>h. do {
     (res, prev) \<leftarrow> read_byte h NRF24L01_REG_STATUS;
     if res \<noteq> 0 then fail_print h ''nrf24l01: get status register failed.'' (1, None)
     else ret (0, Some (drop_bit (interrupt_val type) prev AND 0x01)) })"

definition nrf24l01_clear_interrupt ::
  "'e nrf24l01_handle option \<Rightarrow> nrf24l01_interrupt \<Rightarrow>
    ('e nrf_state, u8) state" where [driver_defs]:
  "nrf24l01_clear_interrupt handle type = checked handle id (\<lambda>h. do {
     (res, prev) \<leftarrow> read_byte h NRF24L01_REG_STATUS;
     if res \<noteq> 0 then fail_print h ''nrf24l01: get status register failed.'' 1
     else do {
       let prev = prev AND NOT (push_bit (interrupt_val type) 1);
       let prev = prev OR push_bit (interrupt_val type) (1);
       res \<leftarrow> write_byte h NRF24L01_REG_STATUS prev;
       if res \<noteq> 0 then fail_print h ''nrf24l01: set status register failed.'' 1
       else ret 0 } })"

definition nrf24l01_get_data_pipe_number ::
  "'e nrf24l01_handle option \<Rightarrow> ('e nrf_state, u8 \<times> u8 option) state"
  where [driver_defs]:
  "nrf24l01_get_data_pipe_number handle = checked handle (\<lambda>c. (c, None)) (\<lambda>h. do {
     (res, prev) \<leftarrow> read_byte h NRF24L01_REG_STATUS;
     if res \<noteq> 0 then fail_print h ''nrf24l01: get status register failed.'' (1, None)
     else ret (0, Some (drop_bit 1 prev AND 0x7)) })"

definition nrf24l01_get_lost_packet_count ::
  "'e nrf24l01_handle option \<Rightarrow> ('e nrf_state, u8 \<times> u8 option) state"
  where [driver_defs]:
  "nrf24l01_get_lost_packet_count handle = checked handle (\<lambda>c. (c, None)) (\<lambda>h. do {
     (res, prev) \<leftarrow> read_byte h NRF24L01_REG_OBSERVE_TX;
     if res \<noteq> 0 then fail_print h ''nrf24l01: get transmit observe register failed.'' (1, None)
     else ret (0, Some (drop_bit 4 prev AND 0xF)) })"

definition nrf24l01_get_retransmitted_packet_count ::
  "'e nrf24l01_handle option \<Rightarrow> ('e nrf_state, u8 \<times> u8 option) state"
  where [driver_defs]:
  "nrf24l01_get_retransmitted_packet_count handle = checked handle (\<lambda>c. (c, None)) (\<lambda>h. do {
     (res, prev) \<leftarrow> read_byte h NRF24L01_REG_OBSERVE_TX;
     if res \<noteq> 0 then fail_print h ''nrf24l01: get transmit observe register failed.'' (1, None)
     else ret (0, Some (drop_bit 0 prev AND 0xF)) })"

definition nrf24l01_get_received_power_detector ::
  "'e nrf24l01_handle option \<Rightarrow> ('e nrf_state, u8 \<times> u8 option) state"
  where [driver_defs]:
  "nrf24l01_get_received_power_detector handle = checked handle (\<lambda>c. (c, None)) (\<lambda>h. do {
     (res, prev) \<leftarrow> read_byte h NRF24L01_REG_RPD;
     if res \<noteq> 0 then fail_print h ''nrf24l01: get rpd failed.'' (1, None)
     else ret (0, Some (drop_bit 0 prev AND 0x01)) })"

subsection \<open>DYNPD and FEATURE\<close>

definition nrf24l01_set_pipe_dynamic_payload ::
  "'e nrf24l01_handle option \<Rightarrow> nrf24l01_pipe \<Rightarrow>
    nrf24l01_bool \<Rightarrow> ('e nrf_state, u8) state" where [driver_defs]:
  "nrf24l01_set_pipe_dynamic_payload handle pipe enable = checked handle id (\<lambda>h. do {
     (res, prev) \<leftarrow> read_byte h NRF24L01_REG_DYNPD;
     if res \<noteq> 0 then fail_print h ''nrf24l01: get dynamic payload length register failed.'' 1
     else do {
       let prev = prev AND NOT (push_bit (pipe_val pipe) 1);
       let prev = prev OR push_bit (pipe_val pipe) (bool_val enable);
       res \<leftarrow> write_byte h NRF24L01_REG_DYNPD prev;
       if res \<noteq> 0 then fail_print h ''nrf24l01: set dynamic payload length register failed.'' 1
       else ret 0 } })"

definition nrf24l01_get_pipe_dynamic_payload ::
  "'e nrf24l01_handle option \<Rightarrow> nrf24l01_pipe \<Rightarrow>
    ('e nrf_state, u8 \<times> u8 option) state" where [driver_defs]:
  "nrf24l01_get_pipe_dynamic_payload handle pipe = checked handle (\<lambda>c. (c, None)) (\<lambda>h. do {
     (res, prev) \<leftarrow> read_byte h NRF24L01_REG_DYNPD;
     if res \<noteq> 0 then fail_print h ''nrf24l01: get dynamic payload length register failed.'' (1, None)
     else ret (0, Some (drop_bit (pipe_val pipe) prev AND 0x01)) })"

definition nrf24l01_set_dynamic_payload ::
  "'e nrf24l01_handle option \<Rightarrow> nrf24l01_bool \<Rightarrow> ('e nrf_state, u8) state"
  where [driver_defs]:
  "nrf24l01_set_dynamic_payload handle enable = checked handle id (\<lambda>h. do {
     (res, prev) \<leftarrow> read_byte h NRF24L01_REG_FEATURE;
     if res \<noteq> 0 then fail_print h ''nrf24l01: get feature register failed.'' 1
     else do {
       let prev = prev AND NOT (push_bit 2 1);
       let prev = prev OR push_bit 2 (bool_val enable);
       res \<leftarrow> write_byte h NRF24L01_REG_FEATURE prev;
       if res \<noteq> 0 then fail_print h ''nrf24l01: set feature register failed.'' 1
       else ret 0 } })"

definition nrf24l01_get_dynamic_payload ::
  "'e nrf24l01_handle option \<Rightarrow> ('e nrf_state, u8 \<times> u8 option) state"
  where [driver_defs]:
  "nrf24l01_get_dynamic_payload handle = checked handle (\<lambda>c. (c, None)) (\<lambda>h. do {
     (res, prev) \<leftarrow> read_byte h NRF24L01_REG_FEATURE;
     if res \<noteq> 0 then fail_print h ''nrf24l01: get feature register failed.'' (1, None)
     else ret (0, Some (drop_bit 2 prev AND 0x01)) })"

definition nrf24l01_set_payload_with_ack ::
  "'e nrf24l01_handle option \<Rightarrow> nrf24l01_bool \<Rightarrow> ('e nrf_state, u8) state"
  where [driver_defs]:
  "nrf24l01_set_payload_with_ack handle enable = checked handle id (\<lambda>h. do {
     (res, prev) \<leftarrow> read_byte h NRF24L01_REG_FEATURE;
     if res \<noteq> 0 then fail_print h ''nrf24l01: get feature register failed.'' 1
     else do {
       let prev = prev AND NOT (push_bit 1 1);
       let prev = prev OR push_bit 1 (bool_val enable);
       res \<leftarrow> write_byte h NRF24L01_REG_FEATURE prev;
       if res \<noteq> 0 then fail_print h ''nrf24l01: set feature register failed.'' 1
       else ret 0 } })"

definition nrf24l01_get_payload_with_ack ::
  "'e nrf24l01_handle option \<Rightarrow> ('e nrf_state, u8 \<times> u8 option) state"
  where [driver_defs]:
  "nrf24l01_get_payload_with_ack handle = checked handle (\<lambda>c. (c, None)) (\<lambda>h. do {
     (res, prev) \<leftarrow> read_byte h NRF24L01_REG_FEATURE;
     if res \<noteq> 0 then fail_print h ''nrf24l01: get feature register failed.'' (1, None)
     else ret (0, Some (drop_bit 1 prev AND 0x01)) })"

definition nrf24l01_set_tx_payload_with_no_ack ::
  "'e nrf24l01_handle option \<Rightarrow> nrf24l01_bool \<Rightarrow> ('e nrf_state, u8) state"
  where [driver_defs]:
  "nrf24l01_set_tx_payload_with_no_ack handle enable = checked handle id (\<lambda>h. do {
     (res, prev) \<leftarrow> read_byte h NRF24L01_REG_FEATURE;
     if res \<noteq> 0 then fail_print h ''nrf24l01: get feature register failed.'' 1
     else do {
       let prev = prev AND NOT (push_bit 0 1);
       let prev = prev OR push_bit 0 (bool_val enable);
       res \<leftarrow> write_byte h NRF24L01_REG_FEATURE prev;
       if res \<noteq> 0 then fail_print h ''nrf24l01: set feature register failed.'' 1
       else ret 0 } })"

definition nrf24l01_get_tx_payload_with_no_ack ::
  "'e nrf24l01_handle option \<Rightarrow> ('e nrf_state, u8 \<times> u8 option) state"
  where [driver_defs]:
  "nrf24l01_get_tx_payload_with_no_ack handle = checked handle (\<lambda>c. (c, None)) (\<lambda>h. do {
     (res, prev) \<leftarrow> read_byte h NRF24L01_REG_FEATURE;
     if res \<noteq> 0 then fail_print h ''nrf24l01: get feature register failed.'' (1, None)
     else ret (0, Some (drop_bit 0 prev AND 0x01)) })"

subsection \<open>Payload widths and FIFO status\<close>

definition nrf24l01_set_pipe_0_payload_number ::
  "'e nrf24l01_handle option \<Rightarrow> u8 \<Rightarrow> ('e nrf_state, u8) state"
  where [driver_defs]:
  "nrf24l01_set_pipe_0_payload_number handle num = checked handle id (\<lambda>h.
     if num > 0x3F then fail_print h ''nrf24l01: num is over 0x3F.'' 4
     else do {
       res \<leftarrow> write_byte h NRF24L01_REG_RX_PW_P0 num;
       if res \<noteq> 0 then fail_print h ''nrf24l01: set pipe 0 payload number failed.'' 1
       else ret 0 })"

definition nrf24l01_get_pipe_0_payload_number ::
  "'e nrf24l01_handle option \<Rightarrow> cptr \<Rightarrow>
    ('e nrf_state, u8 \<times> cptr) state" where [driver_defs]:
  "nrf24l01_get_pipe_0_payload_number handle num = checked handle (\<lambda>c. (c, num)) (\<lambda>h. do {
     (res, num) \<leftarrow> a_nrf24l01_spi_read h NRF24L01_REG_RX_PW_P0 num 1;
     if res \<noteq> 0 then fail_print h ''nrf24l01: get pipe 0 payload number failed.'' (1, num)
     else mask_target num 0x3F })"

definition nrf24l01_set_pipe_1_payload_number ::
  "'e nrf24l01_handle option \<Rightarrow> u8 \<Rightarrow> ('e nrf_state, u8) state"
  where [driver_defs]:
  "nrf24l01_set_pipe_1_payload_number handle num = checked handle id (\<lambda>h.
     if num > 0x3F then fail_print h ''nrf24l01: num is over 0x3F.'' 4
     else do {
       res \<leftarrow> write_byte h NRF24L01_REG_RX_PW_P1 num;
       if res \<noteq> 0 then fail_print h ''nrf24l01: set pipe 1 payload number failed.'' 1
       else ret 0 })"

definition nrf24l01_get_pipe_1_payload_number ::
  "'e nrf24l01_handle option \<Rightarrow> cptr \<Rightarrow>
    ('e nrf_state, u8 \<times> cptr) state" where [driver_defs]:
  "nrf24l01_get_pipe_1_payload_number handle num = checked handle (\<lambda>c. (c, num)) (\<lambda>h. do {
     (res, num) \<leftarrow> a_nrf24l01_spi_read h NRF24L01_REG_RX_PW_P1 num 1;
     if res \<noteq> 0 then fail_print h ''nrf24l01: get pipe 1 payload number failed.'' (1, num)
     else mask_target num 0x3F })"

definition nrf24l01_set_pipe_2_payload_number ::
  "'e nrf24l01_handle option \<Rightarrow> u8 \<Rightarrow> ('e nrf_state, u8) state"
  where [driver_defs]:
  "nrf24l01_set_pipe_2_payload_number handle num = checked handle id (\<lambda>h.
     if num > 0x3F then fail_print h ''nrf24l01: num is over 0x3F.'' 4
     else do {
       res \<leftarrow> write_byte h NRF24L01_REG_RX_PW_P2 num;
       if res \<noteq> 0 then fail_print h ''nrf24l01: set pipe 2 payload number failed.'' 1
       else ret 0 })"

definition nrf24l01_get_pipe_2_payload_number ::
  "'e nrf24l01_handle option \<Rightarrow> cptr \<Rightarrow>
    ('e nrf_state, u8 \<times> cptr) state" where [driver_defs]:
  "nrf24l01_get_pipe_2_payload_number handle num = checked handle (\<lambda>c. (c, num)) (\<lambda>h. do {
     (res, num) \<leftarrow> a_nrf24l01_spi_read h NRF24L01_REG_RX_PW_P2 num 1;
     if res \<noteq> 0 then fail_print h ''nrf24l01: get pipe 2 payload number failed.'' (1, num)
     else mask_target num 0x3F })"

definition nrf24l01_set_pipe_3_payload_number ::
  "'e nrf24l01_handle option \<Rightarrow> u8 \<Rightarrow> ('e nrf_state, u8) state"
  where [driver_defs]:
  "nrf24l01_set_pipe_3_payload_number handle num = checked handle id (\<lambda>h.
     if num > 0x3F then fail_print h ''nrf24l01: num is over 0x3F.'' 4
     else do {
       res \<leftarrow> write_byte h NRF24L01_REG_RX_PW_P3 num;
       if res \<noteq> 0 then fail_print h ''nrf24l01: set pipe 3 payload number failed.'' 1
       else ret 0 })"

definition nrf24l01_get_pipe_3_payload_number ::
  "'e nrf24l01_handle option \<Rightarrow> cptr \<Rightarrow>
    ('e nrf_state, u8 \<times> cptr) state" where [driver_defs]:
  "nrf24l01_get_pipe_3_payload_number handle num = checked handle (\<lambda>c. (c, num)) (\<lambda>h. do {
     (res, num) \<leftarrow> a_nrf24l01_spi_read h NRF24L01_REG_RX_PW_P3 num 1;
     if res \<noteq> 0 then fail_print h ''nrf24l01: get pipe 3 payload number failed.'' (1, num)
     else mask_target num 0x3F })"

definition nrf24l01_set_pipe_4_payload_number ::
  "'e nrf24l01_handle option \<Rightarrow> u8 \<Rightarrow> ('e nrf_state, u8) state"
  where [driver_defs]:
  "nrf24l01_set_pipe_4_payload_number handle num = checked handle id (\<lambda>h.
     if num > 0x3F then fail_print h ''nrf24l01: num is over 0x3F.'' 4
     else do {
       res \<leftarrow> write_byte h NRF24L01_REG_RX_PW_P4 num;
       if res \<noteq> 0 then fail_print h ''nrf24l01: set pipe 4 payload number failed.'' 1
       else ret 0 })"

definition nrf24l01_get_pipe_4_payload_number ::
  "'e nrf24l01_handle option \<Rightarrow> cptr \<Rightarrow>
    ('e nrf_state, u8 \<times> cptr) state" where [driver_defs]:
  "nrf24l01_get_pipe_4_payload_number handle num = checked handle (\<lambda>c. (c, num)) (\<lambda>h. do {
     (res, num) \<leftarrow> a_nrf24l01_spi_read h NRF24L01_REG_RX_PW_P4 num 1;
     if res \<noteq> 0 then fail_print h ''nrf24l01: get pipe 4 payload number failed.'' (1, num)
     else mask_target num 0x3F })"

definition nrf24l01_set_pipe_5_payload_number ::
  "'e nrf24l01_handle option \<Rightarrow> u8 \<Rightarrow> ('e nrf_state, u8) state"
  where [driver_defs]:
  "nrf24l01_set_pipe_5_payload_number handle num = checked handle id (\<lambda>h.
     if num > 0x3F then fail_print h ''nrf24l01: num is over 0x3F.'' 4
     else do {
       res \<leftarrow> write_byte h NRF24L01_REG_RX_PW_P5 num;
       if res \<noteq> 0 then fail_print h ''nrf24l01: set pipe 5 payload number failed.'' 1
       else ret 0 })"

definition nrf24l01_get_pipe_5_payload_number ::
  "'e nrf24l01_handle option \<Rightarrow> cptr \<Rightarrow>
    ('e nrf_state, u8 \<times> cptr) state" where [driver_defs]:
  "nrf24l01_get_pipe_5_payload_number handle num = checked handle (\<lambda>c. (c, num)) (\<lambda>h. do {
     (res, num) \<leftarrow> a_nrf24l01_spi_read h NRF24L01_REG_RX_PW_P5 num 1;
     if res \<noteq> 0 then fail_print h ''nrf24l01: get pipe 5 payload number failed.'' (1, num)
     else mask_target num 0x3F })"

definition nrf24l01_get_fifo_status ::
  "'e nrf24l01_handle option \<Rightarrow> cptr \<Rightarrow>
    ('e nrf_state, u8 \<times> cptr) state" where [driver_defs]:
  "nrf24l01_get_fifo_status handle status = checked handle (\<lambda>c. (c, status)) (\<lambda>h. do {
     (res, status) \<leftarrow> a_nrf24l01_spi_read h NRF24L01_REG_FIFO_STATUS status 1;
     if res \<noteq> 0 then fail_print h ''nrf24l01: get fifo status failed.'' (1, status)
     else ret (0, status) })"

end
