(* ===== verification/Nrf24_Address.thy ===== *)
theory Nrf24_Address
  imports Nrf24_Base
begin

text \<open>
  The address functions of src/src/nrf24l01/nrf24l01.c. The addresses of pipes 0 and 1 and the
  transmit address have the width set in SETUP_AW, and the driver reverses their bytes, since
  the chip takes the least significant byte first; pipes 2 to 5 have one byte of their own.
\<close>

subsection \<open>Pipes 0 and 1 and the transmit address: several bytes\<close>

definition nrf24l01_set_rx_pipe_0_address ::
  "'e nrf24l01_handle option \<Rightarrow> cptr \<Rightarrow> u8 \<Rightarrow>
    ('e nrf_state, u8) state" where [driver_defs]:
  "nrf24l01_set_rx_pipe_0_address handle addr len = checked handle id (\<lambda>h. do {
     (res, prev) \<leftarrow> read_byte h NRF24L01_REG_SETUP_AW;
     if res \<noteq> 0 then fail_print h ''nrf24l01: get setup of address widths failed.'' 1
     else do {
       let width = drop_bit 0 prev AND 0x3;
       if width = 0 then do { call_debug_print h ''nrf24l01: len is too long with %d.'' [0]; ret 4 }
       else do {
         let width = width + 2;
         if len > width then do { call_debug_print h ''nrf24l01: len is too long with %d.'' [width]; ret 4 }
         else do {
           buffer \<leftarrow> copy_in 8 addr (unat len);
           let buffer = reverse_buffer (unat len) buffer;
           res \<leftarrow> a_nrf24l01_spi_write h NRF24L01_REG_RX_ADDR_P0 (Some buffer) (ucast len);
           if res \<noteq> 0 then fail_print h ''nrf24l01: set receive address data pipe p0 register failed.'' 1
           else ret 0 } } } })"

definition nrf24l01_get_rx_pipe_0_address ::
  "'e nrf24l01_handle option \<Rightarrow> cptr \<Rightarrow> u8 \<Rightarrow>
    ('e nrf_state, u8 \<times> cptr \<times> u8) state" where [driver_defs]:
  "nrf24l01_get_rx_pipe_0_address handle addr len = checked handle (\<lambda>c. (c, addr, len)) (\<lambda>h. do {
     (res, prev) \<leftarrow> read_byte h NRF24L01_REG_SETUP_AW;
     if res \<noteq> 0 then fail_print h ''nrf24l01: get setup of address widths failed.'' (1, addr, len)
     else do {
       let width = drop_bit 0 prev AND 0x3;
       if width = 0 then do { call_debug_print h ''nrf24l01: len is too long with %d.'' [0]; ret (4, addr, len) }
       else do {
         let width = width + 2;
         if len < width then do {
           call_debug_print h ''nrf24l01: len is too short with %d.'' [width];
           ret (4, addr, len) }
         else do {
           let len = width;
           (res, addr) \<leftarrow> a_nrf24l01_spi_read h NRF24L01_REG_RX_ADDR_P0 addr (ucast width);
           if res \<noteq> 0 then fail_print h ''nrf24l01: get receive address data pipe p0 register failed.'' (1, addr, len)
           else do {
             addr \<leftarrow> reverse_in_place addr (unat len);
             ret (0, addr, len) } } } } })"

definition nrf24l01_set_rx_pipe_1_address ::
  "'e nrf24l01_handle option \<Rightarrow> cptr \<Rightarrow> u8 \<Rightarrow>
    ('e nrf_state, u8) state" where [driver_defs]:
  "nrf24l01_set_rx_pipe_1_address handle addr len = checked handle id (\<lambda>h. do {
     (res, prev) \<leftarrow> read_byte h NRF24L01_REG_SETUP_AW;
     if res \<noteq> 0 then fail_print h ''nrf24l01: get setup of address widths failed.'' 1
     else do {
       let width = drop_bit 0 prev AND 0x3;
       if width = 0 then do { call_debug_print h ''nrf24l01: len is too long with %d.'' [0]; ret 4 }
       else do {
         let width = width + 2;
         if len > width then do { call_debug_print h ''nrf24l01: len is too long with %d.'' [width]; ret 4 }
         else do {
           buffer \<leftarrow> copy_in 8 addr (unat len);
           let buffer = reverse_buffer (unat len) buffer;
           res \<leftarrow> a_nrf24l01_spi_write h NRF24L01_REG_RX_ADDR_P1 (Some buffer) (ucast len);
           if res \<noteq> 0 then fail_print h ''nrf24l01: set receive address data pipe p1 register failed.'' 1
           else ret 0 } } } })"

definition nrf24l01_get_rx_pipe_1_address ::
  "'e nrf24l01_handle option \<Rightarrow> cptr \<Rightarrow> u8 \<Rightarrow>
    ('e nrf_state, u8 \<times> cptr \<times> u8) state" where [driver_defs]:
  "nrf24l01_get_rx_pipe_1_address handle addr len = checked handle (\<lambda>c. (c, addr, len)) (\<lambda>h. do {
     (res, prev) \<leftarrow> read_byte h NRF24L01_REG_SETUP_AW;
     if res \<noteq> 0 then fail_print h ''nrf24l01: get setup of address widths failed.'' (1, addr, len)
     else do {
       let width = drop_bit 0 prev AND 0x3;
       if width = 0 then do { call_debug_print h ''nrf24l01: len is too long with %d.'' [0]; ret (4, addr, len) }
       else do {
         let width = width + 2;
         if len < width then do {
           call_debug_print h ''nrf24l01: len is too short with %d.'' [width];
           ret (4, addr, len) }
         else do {
           let len = width;
           (res, addr) \<leftarrow> a_nrf24l01_spi_read h NRF24L01_REG_RX_ADDR_P1 addr (ucast width);
           if res \<noteq> 0 then fail_print h ''nrf24l01: get receive address data pipe p1 register failed.'' (1, addr, len)
           else do {
             addr \<leftarrow> reverse_in_place addr (unat len);
             ret (0, addr, len) } } } } })"

definition nrf24l01_set_tx_address ::
  "'e nrf24l01_handle option \<Rightarrow> cptr \<Rightarrow> u8 \<Rightarrow>
    ('e nrf_state, u8) state" where [driver_defs]:
  "nrf24l01_set_tx_address handle addr len = checked handle id (\<lambda>h. do {
     (res, prev) \<leftarrow> read_byte h NRF24L01_REG_SETUP_AW;
     if res \<noteq> 0 then fail_print h ''nrf24l01: get setup of address widths failed.'' 1
     else do {
       let width = drop_bit 0 prev AND 0x3;
       if width = 0 then do { call_debug_print h ''nrf24l01: len is too long with %d.'' [0]; ret 4 }
       else do {
         let width = width + 2;
         if len > width then do { call_debug_print h ''nrf24l01: len is too long with %d.'' [width]; ret 4 }
         else do {
           buffer \<leftarrow> copy_in 8 addr (unat len);
           let buffer = reverse_buffer (unat len) buffer;
           res \<leftarrow> a_nrf24l01_spi_write h NRF24L01_REG_TX_ADDR (Some buffer) (ucast len);
           if res \<noteq> 0 then fail_print h ''nrf24l01: set tx address failed.'' 1
           else ret 0 } } } })"

definition nrf24l01_get_tx_address ::
  "'e nrf24l01_handle option \<Rightarrow> cptr \<Rightarrow> u8 \<Rightarrow>
    ('e nrf_state, u8 \<times> cptr \<times> u8) state" where [driver_defs]:
  "nrf24l01_get_tx_address handle addr len = checked handle (\<lambda>c. (c, addr, len)) (\<lambda>h. do {
     (res, prev) \<leftarrow> read_byte h NRF24L01_REG_SETUP_AW;
     if res \<noteq> 0 then fail_print h ''nrf24l01: get setup of address widths failed.'' (1, addr, len)
     else do {
       let width = drop_bit 0 prev AND 0x3;
       if width = 0 then do { call_debug_print h ''nrf24l01: len is too long with %d.'' [0]; ret (4, addr, len) }
       else do {
         let width = width + 2;
         if len < width then do {
           call_debug_print h ''nrf24l01: len is too short with %d.'' [width];
           ret (4, addr, len) }
         else do {
           let len = width;
           (res, addr) \<leftarrow> a_nrf24l01_spi_read h NRF24L01_REG_TX_ADDR addr (ucast width);
           if res \<noteq> 0 then fail_print h ''nrf24l01: get tx address failed.'' (1, addr, len)
           else do {
             addr \<leftarrow> reverse_in_place addr (unat len);
             ret (0, addr, len) } } } } })"

subsection \<open>Pipes 2 to 5: one byte\<close>

definition nrf24l01_set_rx_pipe_2_address ::
  "'e nrf24l01_handle option \<Rightarrow> u8 \<Rightarrow> ('e nrf_state, u8) state"
  where [driver_defs]:
  "nrf24l01_set_rx_pipe_2_address handle addr = checked handle id (\<lambda>h. do {
     res \<leftarrow> write_byte h NRF24L01_REG_RX_ADDR_P2 addr;
     if res \<noteq> 0 then fail_print h ''nrf24l01: set receive address data pipe p2 register failed.'' 1
     else ret 0 })"

definition nrf24l01_get_rx_pipe_2_address ::
  "'e nrf24l01_handle option \<Rightarrow> cptr \<Rightarrow>
    ('e nrf_state, u8 \<times> cptr) state" where [driver_defs]:
  "nrf24l01_get_rx_pipe_2_address handle addr = checked handle (\<lambda>c. (c, addr)) (\<lambda>h. do {
     (res, addr) \<leftarrow> a_nrf24l01_spi_read h NRF24L01_REG_RX_ADDR_P2 addr 1;
     if res \<noteq> 0 then fail_print h ''nrf24l01: get receive address data pipe p2 register failed.'' (1, addr)
     else ret (0, addr) })"

definition nrf24l01_set_rx_pipe_3_address ::
  "'e nrf24l01_handle option \<Rightarrow> u8 \<Rightarrow> ('e nrf_state, u8) state"
  where [driver_defs]:
  "nrf24l01_set_rx_pipe_3_address handle addr = checked handle id (\<lambda>h. do {
     res \<leftarrow> write_byte h NRF24L01_REG_RX_ADDR_P3 addr;
     if res \<noteq> 0 then fail_print h ''nrf24l01: set receive address data pipe p3 register failed.'' 1
     else ret 0 })"

definition nrf24l01_get_rx_pipe_3_address ::
  "'e nrf24l01_handle option \<Rightarrow> cptr \<Rightarrow>
    ('e nrf_state, u8 \<times> cptr) state" where [driver_defs]:
  "nrf24l01_get_rx_pipe_3_address handle addr = checked handle (\<lambda>c. (c, addr)) (\<lambda>h. do {
     (res, addr) \<leftarrow> a_nrf24l01_spi_read h NRF24L01_REG_RX_ADDR_P3 addr 1;
     if res \<noteq> 0 then fail_print h ''nrf24l01: get receive address data pipe p3 register failed.'' (1, addr)
     else ret (0, addr) })"

definition nrf24l01_set_rx_pipe_4_address ::
  "'e nrf24l01_handle option \<Rightarrow> u8 \<Rightarrow> ('e nrf_state, u8) state"
  where [driver_defs]:
  "nrf24l01_set_rx_pipe_4_address handle addr = checked handle id (\<lambda>h. do {
     res \<leftarrow> write_byte h NRF24L01_REG_RX_ADDR_P4 addr;
     if res \<noteq> 0 then fail_print h ''nrf24l01: set receive address data pipe p4 register failed.'' 1
     else ret 0 })"

definition nrf24l01_get_rx_pipe_4_address ::
  "'e nrf24l01_handle option \<Rightarrow> cptr \<Rightarrow>
    ('e nrf_state, u8 \<times> cptr) state" where [driver_defs]:
  "nrf24l01_get_rx_pipe_4_address handle addr = checked handle (\<lambda>c. (c, addr)) (\<lambda>h. do {
     (res, addr) \<leftarrow> a_nrf24l01_spi_read h NRF24L01_REG_RX_ADDR_P4 addr 1;
     if res \<noteq> 0 then fail_print h ''nrf24l01: get receive address data pipe p4 register failed.'' (1, addr)
     else ret (0, addr) })"

definition nrf24l01_set_rx_pipe_5_address ::
  "'e nrf24l01_handle option \<Rightarrow> u8 \<Rightarrow> ('e nrf_state, u8) state"
  where [driver_defs]:
  "nrf24l01_set_rx_pipe_5_address handle addr = checked handle id (\<lambda>h. do {
     res \<leftarrow> write_byte h NRF24L01_REG_RX_ADDR_P5 addr;
     if res \<noteq> 0 then fail_print h ''nrf24l01: set receive address data pipe p5 register failed.'' 1
     else ret 0 })"

definition nrf24l01_get_rx_pipe_5_address ::
  "'e nrf24l01_handle option \<Rightarrow> cptr \<Rightarrow>
    ('e nrf_state, u8 \<times> cptr) state" where [driver_defs]:
  "nrf24l01_get_rx_pipe_5_address handle addr = checked handle (\<lambda>c. (c, addr)) (\<lambda>h. do {
     (res, addr) \<leftarrow> a_nrf24l01_spi_read h NRF24L01_REG_RX_ADDR_P5 addr 1;
     if res \<noteq> 0 then fail_print h ''nrf24l01: get receive address data pipe p5 register failed.'' (1, addr)
     else ret (0, addr) })"

end
