(* ===== verification/Nrf24_Payload.thy ===== *)
theory Nrf24_Payload
  imports Nrf24_Base
begin

text \<open>
  The data path of src/src/nrf24l01/nrf24l01.c: sending a payload with its bounded wait for the
  interrupt handler, the interrupt handler itself, the FIFO commands and raw register access.

  The driver's local arrays (\<open>buffer[32]\<close>, \<open>buffer[33]\<close>) are byte lists of that length, so a
  read that stores more than the array holds is visible as \<open>fault\<close>.
\<close>

subsection \<open>Sending\<close>

text \<open>
  \<open>while ((timeout != 0) && (handle->finished == 0)) { handle->delay_ms(1); timeout--; }\<close>,
  returning the timeout that is left. \<open>delay_ms\<close> lets the other threads run: it is a function
  of the whole state and may change \<open>finished\<close>.
\<close>

fun send_wait :: "'e nrf24l01_handle \<Rightarrow> nat \<Rightarrow> ('e nrf_state, nat) state" where
  "send_wait h 0 = ret 0"
| "send_wait h (Suc timeout) = do {
     s \<leftarrow> getst;
     if finished s = 0 then do { call_delay_ms h 1; send_wait h timeout }
     else ret (Suc timeout) }"

definition send_timeout :: nat where
  "send_timeout = 5000"

definition nrf24l01_send ::
  "'e nrf24l01_handle option \<Rightarrow> cptr \<Rightarrow> u8 \<Rightarrow> nrf24l01_bool \<Rightarrow> ('e nrf_state, u8) state" where
  "nrf24l01_send handle buf len use_ack = checked handle id (\<lambda>h.
     if len > 32 then fail_print h ''nrf24l01: len is over 32.'' 4
     else do {
       buffer \<leftarrow> copy_in 32 buf (unat len);
       let buffer = reverse_buffer (unat len) buffer;
       let command = (if use_ack = NRF24L01_BOOL_TRUE then NRF24L01_COMMAND_W_TX_PAYLOAD
                      else NRF24L01_COMMAND_W_TX_PAYLOAD_NO_ACK);
       modify (\<lambda>s. s\<lparr>finished := 0\<rparr>);
       res \<leftarrow> call_gpio_write h 0;
       if res \<noteq> 0 then fail_print h ''nrf24l01: gpio write failed.'' 1
       else do {
         res \<leftarrow> call_spi_write h command (Some buffer) (ucast len);
         if res \<noteq> 0 then fail_print h ''nrf24l01: set tx payload failed.'' 1
         else do {
           res \<leftarrow> call_gpio_write h 1;
           if res \<noteq> 0 then fail_print h ''nrf24l01: gpio write failed.'' 1
           else do {
             (res, feature) \<leftarrow> read_byte h NRF24L01_REG_FEATURE;
             if use_ack = NRF24L01_BOOL_TRUE then do {
               timeout \<leftarrow> send_wait h send_timeout;
               if timeout = 0 then do {
                 (res, status) \<leftarrow> read_byte h NRF24L01_REG_STATUS;
                 call_debug_print h ''nrf24l01: status: %d'' [status];
                 (res, config) \<leftarrow> read_byte h NRF24L01_REG_CONFIG;
                 call_debug_print h ''nrf24l01: config: %d'' [config];
                 fail_print h ''nrf24l01: send timeout.'' 5 }
               else do {
                 s \<leftarrow> getst;
                 if finished s = 1 then ret 0
                 else fail_print h ''nrf24l01: send failed.'' 1 } }
             else ret 0 } } } })"

subsection \<open>The interrupt handler\<close>

definition call_receive_callback ::
  "'e nrf24l01_handle \<Rightarrow> nrf24l01_interrupt \<Rightarrow> u8 \<Rightarrow> cptr \<Rightarrow> u8 \<Rightarrow> ('e nrf_state, unit) state" where
  "call_receive_callback h type num buf len =
     (case receive_callback h of
        None \<Rightarrow> ret ()
      | Some f \<Rightarrow> f (of_nat (interrupt_val type)) num buf len)"

text \<open>The error exit of the handler: a diagnostic, chip enable back to 1, status 1.\<close>

definition irq_fail :: "'e nrf24l01_handle \<Rightarrow> string \<Rightarrow> ('e nrf_state, u8) state" where
  "irq_fail h msg = do {
     call_debug_print h msg [];
     _ \<leftarrow> call_gpio_write h 1;
     ret 1 }"

text \<open>The four blocks of the handler, by status bit; a result other than 0 leaves the handler.\<close>

definition irq_tx_full :: "'e nrf24l01_handle \<Rightarrow> u8 \<Rightarrow> ('e nrf_state, unit) state" where
  "irq_tx_full h prev =
     (if drop_bit 0 prev AND 0x01 \<noteq> 0
      then call_receive_callback h NRF24L01_INTERRUPT_TX_FULL 0 None 0
      else ret ())"

definition irq_max_rt :: "'e nrf24l01_handle \<Rightarrow> u8 \<Rightarrow> ('e nrf_state, u8) state" where
  "irq_max_rt h prev =
     (if drop_bit 4 prev AND 0x01 \<noteq> 0
      then do {
        res \<leftarrow> call_spi_write h NRF24L01_COMMAND_FLUSH_TX None 0;
        if res \<noteq> 0 then irq_fail h ''nrf24l01: flush tx failed.''
        else do {
          modify (\<lambda>s. s\<lparr>finished := 2\<rparr>);
          call_receive_callback h NRF24L01_INTERRUPT_MAX_RT 0 None 0;
          ret 0 } }
      else ret 0)"

definition irq_tx_ds :: "'e nrf24l01_handle \<Rightarrow> u8 \<Rightarrow> ('e nrf_state, unit) state" where
  "irq_tx_ds h prev =
     (if drop_bit 5 prev AND 0x01 \<noteq> 0
      then do {
        modify (\<lambda>s. s\<lparr>finished := 1\<rparr>);
        call_receive_callback h NRF24L01_INTERRUPT_TX_DS 0 None 0 }
      else ret ())"

definition irq_rx_dr :: "'e nrf24l01_handle \<Rightarrow> u8 \<Rightarrow> ('e nrf_state, u8) state" where
  "irq_rx_dr h prev =
     (if drop_bit 6 prev AND 0x01 \<noteq> 0
      then do {
        (res, wbuf) \<leftarrow> call_spi_read h NRF24L01_COMMAND_R_RX_PL_WID (Some [0]) 1;
        let width = (case wbuf of Some (w # _) \<Rightarrow> w | _ \<Rightarrow> 0);
        if res \<noteq> 0 then irq_fail h ''nrf24l01: get payload width failed.''
        else do {
          res \<leftarrow> (if width > 32 then call_spi_write h NRF24L01_COMMAND_FLUSH_RX None 0 else ret 0);
          if res \<noteq> 0 then irq_fail h ''nrf24l01: flush rx failed.''
          else do {
            (res, buffer) \<leftarrow>
              call_spi_read h NRF24L01_COMMAND_R_RX_PAYLOAD (Some (replicate 33 0)) (ucast width);
            if res \<noteq> 0 then irq_fail h ''nrf24l01: get rx payload failed.''
            else do {
              buffer \<leftarrow> reverse_in_place buffer (unat width);
              let num = drop_bit 1 prev AND 0x7;
              call_receive_callback h NRF24L01_INTERRUPT_RX_DR num buffer width;
              ret 0 } } } }
      else ret 0)"

definition nrf24l01_irq_handler :: "'e nrf24l01_handle option \<Rightarrow> ('e nrf_state, u8) state" where
  "nrf24l01_irq_handler handle = checked handle id (\<lambda>h. do {
     res \<leftarrow> call_gpio_write h 0;
     if res \<noteq> 0 then fail_print h ''nrf24l01: gpio write failed.'' 1
     else do {
       (res, prev) \<leftarrow> read_byte h NRF24L01_REG_STATUS;
       if res \<noteq> 0 then irq_fail h ''nrf24l01: get status register failed.''
       else do {
         res \<leftarrow> write_byte h NRF24L01_REG_STATUS prev;
         if res \<noteq> 0 then irq_fail h ''nrf24l01: set status register failed.''
         else do {
           irq_tx_full h prev;
           r \<leftarrow> irq_max_rt h prev;
           if r \<noteq> 0 then ret r
           else do {
             irq_tx_ds h prev;
             r \<leftarrow> irq_rx_dr h prev;
             if r \<noteq> 0 then ret r
             else do {
               res \<leftarrow> call_gpio_write h 1;
               if res \<noteq> 0 then fail_print h ''nrf24l01: gpio write failed.'' 1
               else ret 0 } } } } } })"

subsection \<open>FIFO commands\<close>

definition nrf24l01_read_rx_payload ::
  "'e nrf24l01_handle option \<Rightarrow> cptr \<Rightarrow> u8 \<Rightarrow> ('e nrf_state, u8 \<times> cptr) state" where
  "nrf24l01_read_rx_payload handle buf len = checked handle (\<lambda>c. (c, buf)) (\<lambda>h.
     if len > 32 then fail_print h ''nrf24l01: len is over 32.'' (4, buf)
     else do {
       (res, buf) \<leftarrow> call_spi_read h NRF24L01_COMMAND_R_RX_PAYLOAD buf (ucast len);
       if res \<noteq> 0 then fail_print h ''nrf24l01: get rx payload failed.'' (1, buf)
       else do {
         buf \<leftarrow> reverse_in_place buf (unat len);
         ret (0, buf) } })"

definition nrf24l01_write_tx_payload ::
  "'e nrf24l01_handle option \<Rightarrow> cptr \<Rightarrow> u8 \<Rightarrow> ('e nrf_state, u8) state" where
  "nrf24l01_write_tx_payload handle buf len = checked handle id (\<lambda>h.
     if len > 32 then fail_print h ''nrf24l01: len is over 32.'' 4
     else do {
       buffer \<leftarrow> copy_in 32 buf (unat len);
       let buffer = reverse_buffer (unat len) buffer;
       res \<leftarrow> call_spi_write h NRF24L01_COMMAND_W_TX_PAYLOAD (Some buffer) (ucast len);
       if res \<noteq> 0 then fail_print h ''nrf24l01: set tx payload failed.'' 1
       else ret 0 })"

definition nrf24l01_flush_tx :: "'e nrf24l01_handle option \<Rightarrow> ('e nrf_state, u8) state" where
  "nrf24l01_flush_tx handle = checked handle id (\<lambda>h. do {
     res \<leftarrow> call_spi_write h NRF24L01_COMMAND_FLUSH_TX None 0;
     if res \<noteq> 0 then fail_print h ''nrf24l01: flush tx failed.'' 1
     else ret 0 })"

definition nrf24l01_flush_rx :: "'e nrf24l01_handle option \<Rightarrow> ('e nrf_state, u8) state" where
  "nrf24l01_flush_rx handle = checked handle id (\<lambda>h. do {
     res \<leftarrow> call_spi_write h NRF24L01_COMMAND_FLUSH_RX None 0;
     if res \<noteq> 0 then fail_print h ''nrf24l01: flush rx failed.'' 1
     else ret 0 })"

definition nrf24l01_reuse_tx_payload ::
  "'e nrf24l01_handle option \<Rightarrow> ('e nrf_state, u8) state" where
  "nrf24l01_reuse_tx_payload handle = checked handle id (\<lambda>h. do {
     res \<leftarrow> call_spi_write h NRF24L01_COMMAND_REUSE_TX_PL None 0;
     if res \<noteq> 0 then fail_print h ''nrf24l01: reuse tx payload failed.'' 1
     else ret 0 })"

definition nrf24l01_get_rx_payload_width ::
  "'e nrf24l01_handle option \<Rightarrow> cptr \<Rightarrow> ('e nrf_state, u8 \<times> cptr) state" where
  "nrf24l01_get_rx_payload_width handle width = checked handle (\<lambda>c. (c, width)) (\<lambda>h. do {
     (res, width) \<leftarrow> call_spi_read h NRF24L01_COMMAND_R_RX_PL_WID width 1;
     if res \<noteq> 0 then fail_print h ''nrf24l01: get payload width failed.'' (1, width)
     else ret (0, width) })"

definition nrf24l01_write_payload_with_ack ::
  "'e nrf24l01_handle option \<Rightarrow> nrf24l01_pipe \<Rightarrow> cptr \<Rightarrow> u8 \<Rightarrow> ('e nrf_state, u8) state" where
  "nrf24l01_write_payload_with_ack handle pipe buf len = checked handle id (\<lambda>h.
     if len > 32 then fail_print h ''nrf24l01: len is over 32.'' 4
     else do {
       buffer \<leftarrow> copy_in 32 buf (unat len);
       let buffer = reverse_buffer (unat len) buffer;
       res \<leftarrow> call_spi_write h (NRF24L01_COMMAND_W_ACK_PAYLOAD OR of_nat (pipe_val pipe))
                (Some buffer) (ucast len);
       if res \<noteq> 0 then fail_print h ''nrf24l01: set payload with ack failed.'' 1
       else ret 0 })"

definition nrf24l01_write_payload_with_no_ack ::
  "'e nrf24l01_handle option \<Rightarrow> cptr \<Rightarrow> u8 \<Rightarrow> ('e nrf_state, u8) state" where
  "nrf24l01_write_payload_with_no_ack handle buf len = checked handle id (\<lambda>h.
     if len > 32 then fail_print h ''nrf24l01: len is over 32.'' 4
     else do {
       buffer \<leftarrow> copy_in 32 buf (unat len);
       let buffer = reverse_buffer (unat len) buffer;
       res \<leftarrow> call_spi_write h NRF24L01_COMMAND_W_TX_PAYLOAD_NO_ACK (Some buffer) (ucast len);
       if res \<noteq> 0 then fail_print h ''nrf24l01: set payload with no ack failed.'' 1
       else ret 0 })"

definition nrf24l01_nop :: "'e nrf24l01_handle option \<Rightarrow> ('e nrf_state, u8) state" where
  "nrf24l01_nop handle = checked handle id (\<lambda>h. do {
     res \<leftarrow> call_spi_write h NRF24L01_COMMAND_NOP None 0;
     if res \<noteq> 0 then fail_print h ''nrf24l01: nop failed.'' 1
     else ret 0 })"

subsection \<open>Raw register access\<close>

definition nrf24l01_set_reg ::
  "'e nrf24l01_handle option \<Rightarrow> u8 \<Rightarrow> cptr \<Rightarrow> u16 \<Rightarrow> ('e nrf_state, u8) state" where
  "nrf24l01_set_reg handle reg buf len =
     checked handle id (\<lambda>h. a_nrf24l01_spi_write h reg buf len)"

definition nrf24l01_get_reg ::
  "'e nrf24l01_handle option \<Rightarrow> u8 \<Rightarrow> cptr \<Rightarrow> u16 \<Rightarrow> ('e nrf_state, u8 \<times> cptr) state" where
  "nrf24l01_get_reg handle reg buf len =
     checked handle (\<lambda>c. (c, buf)) (\<lambda>h. a_nrf24l01_spi_read h reg buf len)"

end
