(* ===== verification/Nrf24_Spec.thy ===== *)
theory Nrf24_Spec
  imports Nrf24_Config Nrf24_Address Nrf24_Payload
begin

text \<open>
  What the driver promises about the chip. The configuration registers are observed as a map
  \<open>cfg\<close> from register numbers to bytes, the payloads ever handed to the transmit FIFO as a list
  \<open>loaded\<close>. The locale \<open>nrf_bus\<close> is the contract of the functions linked into the handle; its
  lemmas lift the contract to the driver's operations. The abstract specification of the
  setters is a datatype \<open>setting\<close>: each one is an update of a field of one register.
\<close>

subsection \<open>The register file\<close>

definition byte_regs :: "u8 set" where
  "byte_regs = {0x00, 0x01, 0x02, 0x03, 0x04, 0x05, 0x06, 0x0C, 0x0D, 0x0E, 0x0F,
     0x11, 0x12, 0x13, 0x14, 0x15, 0x16, 0x1C, 0x1D}"

definition addr_regs :: "u8 set" where
  "addr_regs = {0x0A, 0x0B, 0x10}"

definition cfg_regs :: "u8 set" where
  "cfg_regs = byte_regs \<union> addr_regs"

definition reg_width :: "u8 \<Rightarrow> nat" where
  "reg_width r = (if r \<in> addr_regs then 5 else 1)"

text \<open>The implemented bits of each register; the others are reserved and must be written 0.\<close>

definition reg_mask :: "u8 \<Rightarrow> u8" where
  "reg_mask r =
     (if r = 0x00 \<or> r = 0x05 then 0x7F
      else if r = 0x01 \<or> r = 0x02 \<or> r = 0x1C then 0x3F
      else if r = 0x03 then 0x03
      else if r = 0x06 then 0xBE
      else if 0x11 \<le> r \<and> r \<le> 0x16 then 0x3F
      else if r = 0x1D then 0x07
      else 0xFF)"

definition legal :: "u8 \<Rightarrow> u8 list \<Rightarrow> bool" where
  "legal r bs \<longleftrightarrow> (\<forall>b\<in>set bs. b AND NOT (reg_mask r) = 0)"

lemma legal_single [simp]: "legal r [b] \<longleftrightarrow> b AND NOT (reg_mask r) = 0"
  by (simp add: legal_def)

lemma cfg_regs_small: "r \<in> cfg_regs \<Longrightarrow> r < 0x20"
  by (auto simp: cfg_regs_def byte_regs_def addr_regs_def)

text \<open>The bits of field \<open>m\<close> in \<open>v\<close> replaced by \<open>b\<close>.\<close>

definition put_field :: "u8 \<Rightarrow> u8 \<Rightarrow> u8 \<Rightarrow> u8" where
  "put_field m b v = (v AND NOT m) OR b"

lemma put_field_legal:
  assumes "v AND NOT w = 0" and "b AND NOT m = 0" and "m AND NOT w = 0"
  shows "put_field m b v AND NOT w = 0"
proof (rule bit_word_eqI)
  fix n :: nat
  assume "n < LENGTH(8)"
  moreover have "bit (v AND NOT w) n = bit 0 n" "bit (b AND NOT m) n = bit 0 n" "bit (m AND NOT w) n = bit 0 n"
    using assms by simp_all
  ultimately show "bit (put_field m b v AND NOT w) n = bit 0 n"
    by (auto simp: put_field_def bit_simps)
qed

lemma put_field_get [simp]:
  assumes "b AND NOT m = 0"
  shows "put_field m b v AND m = b"
proof (rule bit_word_eqI)
  fix n :: nat
  assume "n < LENGTH(8)"
  moreover have "bit (b AND NOT m) n = bit 0 n" using assms by simp
  ultimately show "bit (put_field m b v AND m) n = bit b n"
    by (auto simp: put_field_def bit_simps)
qed

lemma put_field_other: "put_field m b v AND NOT m = (v AND NOT m) OR (b AND NOT m)"
  by (rule bit_word_eqI) (auto simp: put_field_def bit_simps)

subsection \<open>The settings of the chip\<close>

datatype setting =
    SetConfig nrf24l01_config nrf24l01_bool
  | SetMode nrf24l01_mode
  | SetAutoAcknowledgment nrf24l01_pipe nrf24l01_bool
  | SetRxPipe nrf24l01_pipe nrf24l01_bool
  | SetAddressWidth nrf24l01_address_width
  | SetRetransmitDelay u8
  | SetRetransmitCount u8
  | SetChannelFrequency u8
  | SetContinuousCarrier nrf24l01_bool
  | SetForcePllLock nrf24l01_bool
  | SetDataRate nrf24l01_data_rate
  | SetOutputPower nrf24l01_output_power
  | SetPipeDynamicPayload nrf24l01_pipe nrf24l01_bool
  | SetDynamicPayload nrf24l01_bool
  | SetPayloadWithAck nrf24l01_bool
  | SetTxPayloadWithNoAck nrf24l01_bool

text \<open>The driver call that makes a setting, and the one that reads it back.\<close>

fun set_call :: "'e nrf24l01_handle option \<Rightarrow> setting \<Rightarrow> ('e nrf_state, u8) state" where
  "set_call h (SetConfig c b) = nrf24l01_set_config h c b"
| "set_call h (SetMode m) = nrf24l01_set_mode h m"
| "set_call h (SetAutoAcknowledgment p b) = nrf24l01_set_auto_acknowledgment h p b"
| "set_call h (SetRxPipe p b) = nrf24l01_set_rx_pipe h p b"
| "set_call h (SetAddressWidth w) = nrf24l01_set_address_width h w"
| "set_call h (SetRetransmitDelay d) = nrf24l01_set_auto_retransmit_delay h d"
| "set_call h (SetRetransmitCount c) = nrf24l01_set_auto_retransmit_count h c"
| "set_call h (SetChannelFrequency f) = nrf24l01_set_channel_frequency h f"
| "set_call h (SetContinuousCarrier b) = nrf24l01_set_continuous_carrier_transmit h b"
| "set_call h (SetForcePllLock b) = nrf24l01_set_force_pll_lock_signal h b"
| "set_call h (SetDataRate r) = nrf24l01_set_data_rate h r"
| "set_call h (SetOutputPower p) = nrf24l01_set_output_power h p"
| "set_call h (SetPipeDynamicPayload p b) = nrf24l01_set_pipe_dynamic_payload h p b"
| "set_call h (SetDynamicPayload b) = nrf24l01_set_dynamic_payload h b"
| "set_call h (SetPayloadWithAck b) = nrf24l01_set_payload_with_ack h b"
| "set_call h (SetTxPayloadWithNoAck b) = nrf24l01_set_tx_payload_with_no_ack h b"

fun get_call :: "'e nrf24l01_handle option \<Rightarrow> setting \<Rightarrow> ('e nrf_state, u8 \<times> u8 option) state" where
  "get_call h (SetConfig c b) = nrf24l01_get_config h c"
| "get_call h (SetMode m) = nrf24l01_get_mode h"
| "get_call h (SetAutoAcknowledgment p b) = nrf24l01_get_auto_acknowledgment h p"
| "get_call h (SetRxPipe p b) = nrf24l01_get_rx_pipe h p"
| "get_call h (SetAddressWidth w) = nrf24l01_get_address_width h"
| "get_call h (SetRetransmitDelay d) = nrf24l01_get_auto_retransmit_delay h"
| "get_call h (SetRetransmitCount c) = nrf24l01_get_auto_retransmit_count h"
| "get_call h (SetChannelFrequency f) = nrf24l01_get_channel_frequency h"
| "get_call h (SetContinuousCarrier b) = nrf24l01_get_continuous_carrier_transmit h"
| "get_call h (SetForcePllLock b) = nrf24l01_get_force_pll_lock_signal h"
| "get_call h (SetDataRate r) = nrf24l01_get_data_rate h"
| "get_call h (SetOutputPower p) = nrf24l01_get_output_power h"
| "get_call h (SetPipeDynamicPayload p b) = nrf24l01_get_pipe_dynamic_payload h p"
| "get_call h (SetDynamicPayload b) = nrf24l01_get_dynamic_payload h"
| "get_call h (SetPayloadWithAck b) = nrf24l01_get_payload_with_ack h"
| "get_call h (SetTxPayloadWithNoAck b) = nrf24l01_get_tx_payload_with_no_ack h"

text \<open>
  The abstract specification: the register, the field and the bits of a setting, the value its
  getter reports, and the range check of the setter.
\<close>

fun set_reg :: "setting \<Rightarrow> u8" where
  "set_reg (SetConfig c b) = 0x00"
| "set_reg (SetMode m) = 0x00"
| "set_reg (SetAutoAcknowledgment p b) = 0x01"
| "set_reg (SetRxPipe p b) = 0x02"
| "set_reg (SetAddressWidth w) = 0x03"
| "set_reg (SetRetransmitDelay d) = 0x04"
| "set_reg (SetRetransmitCount c) = 0x04"
| "set_reg (SetChannelFrequency f) = 0x05"
| "set_reg (SetContinuousCarrier b) = 0x06"
| "set_reg (SetForcePllLock b) = 0x06"
| "set_reg (SetDataRate r) = 0x06"
| "set_reg (SetOutputPower p) = 0x06"
| "set_reg (SetPipeDynamicPayload p b) = 0x1C"
| "set_reg (SetDynamicPayload b) = 0x1D"
| "set_reg (SetPayloadWithAck b) = 0x1D"
| "set_reg (SetTxPayloadWithNoAck b) = 0x1D"

fun set_field :: "setting \<Rightarrow> u8" where
  "set_field (SetConfig c b) = push_bit (config_val c) 1"
| "set_field (SetMode m) = 0x01"
| "set_field (SetAutoAcknowledgment p b) = push_bit (pipe_val p) 1"
| "set_field (SetRxPipe p b) = push_bit (pipe_val p) 1"
| "set_field (SetAddressWidth w) = 0x03"
| "set_field (SetRetransmitDelay d) = 0xF0"
| "set_field (SetRetransmitCount c) = 0x0F"
| "set_field (SetChannelFrequency f) = 0x7F"
| "set_field (SetContinuousCarrier b) = 0x80"
| "set_field (SetForcePllLock b) = 0x10"
| "set_field (SetDataRate r) = 0x28"
| "set_field (SetOutputPower p) = 0x06"
| "set_field (SetPipeDynamicPayload p b) = push_bit (pipe_val p) 1"
| "set_field (SetDynamicPayload b) = 0x04"
| "set_field (SetPayloadWithAck b) = 0x02"
| "set_field (SetTxPayloadWithNoAck b) = 0x01"

fun set_value :: "setting \<Rightarrow> u8" where
  "set_value (SetConfig c b) = bool_val b"
| "set_value (SetMode m) = mode_val m"
| "set_value (SetAutoAcknowledgment p b) = bool_val b"
| "set_value (SetRxPipe p b) = bool_val b"
| "set_value (SetAddressWidth w) = address_width_val w"
| "set_value (SetRetransmitDelay d) = d"
| "set_value (SetRetransmitCount c) = c"
| "set_value (SetChannelFrequency f) = f"
| "set_value (SetContinuousCarrier b) = bool_val b"
| "set_value (SetForcePllLock b) = bool_val b"
| "set_value (SetDataRate r) = data_rate_val r"
| "set_value (SetOutputPower p) = output_power_val p"
| "set_value (SetPipeDynamicPayload p b) = bool_val b"
| "set_value (SetDynamicPayload b) = bool_val b"
| "set_value (SetPayloadWithAck b) = bool_val b"
| "set_value (SetTxPayloadWithNoAck b) = bool_val b"

fun set_bits :: "setting \<Rightarrow> u8" where
  "set_bits (SetConfig c b) = push_bit (config_val c) (bool_val b)"
| "set_bits (SetMode m) = mode_val m"
| "set_bits (SetAutoAcknowledgment p b) = push_bit (pipe_val p) (bool_val b)"
| "set_bits (SetRxPipe p b) = push_bit (pipe_val p) (bool_val b)"
| "set_bits (SetAddressWidth w) = address_width_val w"
| "set_bits (SetRetransmitDelay d) = push_bit 4 d"
| "set_bits (SetRetransmitCount c) = c"
| "set_bits (SetChannelFrequency f) = f"
| "set_bits (SetContinuousCarrier b) = push_bit 7 (bool_val b)"
| "set_bits (SetForcePllLock b) = push_bit 4 (bool_val b)"
| "set_bits (SetDataRate r) =
     (case r of NRF24L01_DATA_RATE_1M \<Rightarrow> 0 | NRF24L01_DATA_RATE_2M \<Rightarrow> 0x08
      | NRF24L01_DATA_RATE_250K \<Rightarrow> 0x20)"
| "set_bits (SetOutputPower p) = push_bit 1 (output_power_val p)"
| "set_bits (SetPipeDynamicPayload p b) = push_bit (pipe_val p) (bool_val b)"
| "set_bits (SetDynamicPayload b) = push_bit 2 (bool_val b)"
| "set_bits (SetPayloadWithAck b) = push_bit 1 (bool_val b)"
| "set_bits (SetTxPayloadWithNoAck b) = bool_val b"

fun set_in_range :: "setting \<Rightarrow> bool" where
  "set_in_range (SetRetransmitDelay d) = (d \<le> 0xF)"
| "set_in_range (SetRetransmitCount c) = (c \<le> 0xF)"
| "set_in_range (SetChannelFrequency f) = (f \<le> 0x7F)"
| "set_in_range _ = True"

text \<open>What the getter of a setting computes from the register byte.\<close>

fun get_value :: "setting \<Rightarrow> u8 \<Rightarrow> u8" where
  "get_value (SetConfig c b) v = drop_bit (config_val c) v AND 1"
| "get_value (SetMode m) v = v AND 1"
| "get_value (SetAutoAcknowledgment p b) v = drop_bit (pipe_val p) v AND 1"
| "get_value (SetRxPipe p b) v = drop_bit (pipe_val p) v AND 1"
| "get_value (SetAddressWidth w) v = v AND 3"
| "get_value (SetRetransmitDelay d) v = drop_bit 4 v AND 0xF"
| "get_value (SetRetransmitCount c) v = v AND 0xF"
| "get_value (SetChannelFrequency f) v = v AND 0x7F"
| "get_value (SetContinuousCarrier b) v = drop_bit 7 v AND 1"
| "get_value (SetForcePllLock b) v = drop_bit 4 v AND 1"
| "get_value (SetDataRate r) v = (drop_bit 3 v AND 1) OR push_bit 1 (drop_bit 5 v AND 1)"
| "get_value (SetOutputPower p) v = drop_bit 1 v AND 3"
| "get_value (SetPipeDynamicPayload p b) v = drop_bit (pipe_val p) v AND 1"
| "get_value (SetDynamicPayload b) v = drop_bit 2 v AND 1"
| "get_value (SetPayloadWithAck b) v = drop_bit 1 v AND 1"
| "get_value (SetTxPayloadWithNoAck b) v = v AND 1"

subsection \<open>Setters are field updates\<close>

text \<open>The shape shared by the setters: read the register, change it, write it back.\<close>

definition rmw :: "'e nrf24l01_handle \<Rightarrow> u8 \<Rightarrow> (u8 \<Rightarrow> u8) \<Rightarrow> string \<Rightarrow> string \<Rightarrow> ('e nrf_state, u8) state" where
  "rmw h reg f m1 m2 = do {
     (res, prev) \<leftarrow> read_byte h reg;
     if res \<noteq> 0 then fail_print h m1 1
     else do {
       res \<leftarrow> write_byte h reg (f prev);
       if res \<noteq> 0 then fail_print h m2 1
       else ret 0 } }"

lemma set_call_rmw:
  assumes "set_in_range x"
  shows "\<exists>m1 m2. set_call (Some h) x =
    checked (Some h) id (\<lambda>h. rmw h (set_reg x) (put_field (set_field x) (set_bits x)) m1 m2)"
  using assms
proof (cases x)
  case (SetDataRate r)
  then show ?thesis
    by (cases r) (auto simp: driver_defs rmw_def put_field_def Let_def and.assoc or.assoc intro!: exI cong del: if_weak_cong)
qed (auto simp: driver_defs rmw_def put_field_def Let_def not_less [symmetric] intro!: exI cong del: if_weak_cong)

lemma small_bits:
  assumes "d < 2 ^ n" and "bit (d :: u8) k"
  shows "k < n"
proof -
  have "take_bit n d = d" using assms(1) by (simp add: take_bit_word_eq_self word_less_nat_alt take_bit_eq_mod unat_mod word_arith_nat_defs)
  then have "bit (take_bit n d) k" using assms(2) by simp
  then show ?thesis by (simp add: bit_take_bit_iff)
qed

lemma small_mask:
  assumes "d < 2 ^ n"
  shows "(d :: u8) AND NOT (mask n) = 0"
  by (rule bit_word_eqI) (auto simp: bit_simps dest: small_bits [OF assms])

lemma set_bits_in_field:
  assumes "set_in_range x"
  shows "set_bits x AND NOT (set_field x) = 0"
  using assms
proof (cases x)
  case (SetConfig c b)
  then show ?thesis by (cases c; cases b) simp_all
next
  case (SetAutoAcknowledgment p b)
  then show ?thesis by (cases p; cases b) simp_all
next
  case (SetRxPipe p b)
  then show ?thesis by (cases p; cases b) simp_all
next
  case (SetPipeDynamicPayload p b)
  then show ?thesis by (cases p; cases b) simp_all
next
  case (SetMode m)
  then show ?thesis by (cases m) simp_all
next
  case (SetAddressWidth w)
  then show ?thesis by (cases w) simp_all
next
  case (SetDataRate r)
  then show ?thesis by (cases r) simp_all
next
  case (SetOutputPower p)
  then show ?thesis by (cases p) simp_all
next
  case (SetContinuousCarrier b)
  then show ?thesis by (cases b) simp_all
next
  case (SetForcePllLock b)
  then show ?thesis by (cases b) simp_all
next
  case (SetDynamicPayload b)
  then show ?thesis by (cases b) simp_all
next
  case (SetPayloadWithAck b)
  then show ?thesis by (cases b) simp_all
next
  case (SetTxPayloadWithNoAck b)
  then show ?thesis by (cases b) simp_all
next
  case (SetRetransmitDelay d)
  with assms have d: "d < 2 ^ 4" by (simp add: word_le_nat_alt word_less_nat_alt)
  have "push_bit 4 d AND NOT (push_bit 4 (mask 4)) = (0 :: u8)"
    by (rule bit_word_eqI) (auto simp: bit_simps dest: small_bits [OF d])
  with SetRetransmitDelay show ?thesis by (simp add: mask_eq_exp_minus_1)
next
  case (SetRetransmitCount d)
  with assms have d: "d < 2 ^ 4" by (simp add: word_le_nat_alt word_less_nat_alt)
  with SetRetransmitCount small_mask [OF d] show ?thesis by (simp add: mask_eq_exp_minus_1)
next
  case (SetChannelFrequency d)
  with assms have d: "d < 2 ^ 7" by (simp add: word_le_nat_alt word_less_nat_alt)
  with SetChannelFrequency small_mask [OF d] show ?thesis by (simp add: mask_eq_exp_minus_1)
qed
lemma drop_put_field:
  assumes "b AND NOT m = 0" and "drop_bit n (push_bit n m) = m"
  shows "drop_bit n (put_field (push_bit n m) (push_bit n b) v) AND m = (b :: u8)"
proof (rule bit_word_eqI)
  fix k :: nat
  assume k: "k < LENGTH(8)"
  have b: "bit (b AND NOT m) k = bit 0 k" using assms(1) by simp
  have "bit (drop_bit n (push_bit n m)) k = bit m k" using assms(2) by simp
  then have m: "bit m k \<Longrightarrow> n + k < 8" by (auto simp: bit_simps)
  show "bit (drop_bit n (put_field (push_bit n m) (push_bit n b) v) AND m) k = bit b k"
    using k b m by (auto simp: put_field_def bit_simps)
qed

lemma drop_put_bit:
  assumes "n < 8"
  shows "drop_bit n (put_field (push_bit n 1) (push_bit n (bool_val b)) v) AND 1 = bool_val b"
proof (rule drop_put_field)
  show "bool_val b AND NOT 1 = 0" by (cases b) simp_all
  show "drop_bit n (push_bit n 1) = (1 :: u8)"
    using assms by (intro bit_word_eqI) (auto simp: bit_simps)
qed

lemma drop_put_exp [simp]:
  "n < 8 \<Longrightarrow> drop_bit n (put_field (2 ^ n) (push_bit n (bool_val b)) v) AND 1 = bool_val b"
  using drop_put_bit [of n b v] by simp

lemma config_val_less [simp]: "config_val c < 8" by (cases c) simp_all
lemma pipe_val_less [simp]: "pipe_val p < 8" by (cases p) simp_all

lemma get_value_put:
  assumes "set_in_range x"
  shows "get_value x (put_field (set_field x) (set_bits x) v) = set_value x"
proof -
  note f = set_bits_in_field [OF assms]
  show ?thesis
  proof (cases x)
    case (SetRetransmitDelay d)
    have "drop_bit 4 (push_bit 4 (0xF :: u8)) = 0xF" by simp
    moreover have "d AND NOT 0xF = 0"
      using small_mask [of d 4] assms SetRetransmitDelay
      by (simp add: word_le_nat_alt word_less_nat_alt mask_eq_exp_minus_1)
    ultimately show ?thesis using SetRetransmitDelay drop_put_field [of d "0xF" 4 v] by simp
  next
    case (SetDataRate r)
    have "drop_bit 3 ((v AND NOT 0x28) OR 0x08) AND 1 = 1" 
       "drop_bit 3 ((v AND NOT 0x28) OR 0x20) AND 1 = 0"
       "drop_bit 3 (v AND NOT 0x28) AND 1 = 0"
       "drop_bit 5 ((v AND NOT 0x28) OR 0x08) AND 1 = 0" 
       "drop_bit 5 ((v AND NOT 0x28) OR 0x20) AND 1 = 1"
       "drop_bit 5 (v AND NOT 0x28) AND 1 = 0"
      by (rule bit_word_eqI; auto simp: bit_simps less_Suc_eq numeral_eq_Suc)+
    with SetDataRate show ?thesis by (cases r) (simp_all add: put_field_def)
  next
    case (SetOutputPower p)
    have "output_power_val p AND NOT 3 = 0" by (cases p) simp_all
    with SetOutputPower drop_put_field [of "output_power_val p" 3 1 v] show ?thesis by simp
  next
    case (SetContinuousCarrier b)
    with drop_put_bit [of 7 b v] show ?thesis by simp
  next
    case (SetForcePllLock b)
    with drop_put_bit [of 4 b v] show ?thesis by simp
  next
    case (SetDynamicPayload b)
    with drop_put_bit [of 2 b v] show ?thesis by simp
  next
    case (SetPayloadWithAck b)
    with drop_put_bit [of 1 b v] show ?thesis by simp
  qed (use f in \<open>simp_all\<close>)
qed

lemma set_reg_byte: "set_reg x \<in> byte_regs"
  by (cases x) (simp_all add: byte_regs_def)

lemma set_field_mask: "set_field x AND NOT (reg_mask (set_reg x)) = 0"
proof (cases x)
  case (SetConfig c b)
  then show ?thesis by (cases c) (simp_all add: reg_mask_def)
next
  case (SetAutoAcknowledgment p b)
  then show ?thesis by (cases p) (simp_all add: reg_mask_def)
next
  case (SetRxPipe p b)
  then show ?thesis by (cases p) (simp_all add: reg_mask_def)
next
  case (SetPipeDynamicPayload p b)
  then show ?thesis by (cases p) (simp_all add: reg_mask_def)
qed (simp_all add: reg_mask_def)

subsection \<open>Independent settings\<close>

text \<open>Fields of one register that do not overlap, or different registers.\<close>

definition independent :: "setting \<Rightarrow> setting \<Rightarrow> bool" where
  "independent x y \<longleftrightarrow> set_reg x \<noteq> set_reg y \<or> set_field x AND set_field y = 0"

lemma drop_and_push: "drop_bit n (v AND push_bit n m) AND m = drop_bit n v AND (m :: u8)"
  by (rule bit_word_eqI) (auto simp: bit_simps dest: bit_imp_le_length)

lemma get_value_masked: "get_value y (v AND set_field y) = get_value y v"
proof (cases y)
  case (SetDataRate r)
  have "drop_bit 3 (v AND 0x28) AND 1 = drop_bit 3 v AND 1" "drop_bit 5 (v AND 0x28) AND 1 = drop_bit 5 v AND 1"
    by (rule bit_word_eqI; auto simp: bit_simps less_Suc_eq numeral_eq_Suc)+
  with SetDataRate show ?thesis by simp
qed (use drop_and_push [of _ v 1] drop_and_push [of 4 v "0xF"] drop_and_push [of 1 v 3]
    drop_and_push [of 7 v 1] drop_and_push [of 4 v 1] drop_and_push [of 2 v 1] drop_and_push [of 1 v 1]
    in \<open>simp_all add: and.assoc\<close>)

lemma put_field_disjoint: "m AND k = 0 \<Longrightarrow> b AND NOT m = 0 \<Longrightarrow> put_field m b v AND k = v AND (k :: u8)"
proof (rule bit_word_eqI)
  fix n :: nat
  assume a: "m AND k = 0" "b AND NOT m = 0" and n: "n < LENGTH(8)"
  have "bit (m AND k) n = bit 0 n" "bit (b AND NOT m) n = bit 0 n" using a by simp_all
  with n show "bit (put_field m b v AND k) n = bit (v AND k) n"
    by (auto simp: put_field_def bit_simps)
qed

lemma get_value_independent:
  assumes "set_field x AND set_field y = 0" and "set_in_range x"
  shows "get_value y (put_field (set_field x) (set_bits x) v) = get_value y v"
proof -
  have "put_field (set_field x) (set_bits x) v AND set_field y = v AND set_field y"
    using assms set_bits_in_field by (intro put_field_disjoint) simp_all
  then show ?thesis using get_value_masked by metis
qed

end
