(* ===== verification/Nrf24_Bus.thy ===== *)
theory Nrf24_Bus
  imports Nrf24_Spec
begin

text \<open>
  The contract of the functions linked into the handle, as the locale \<open>nrf_bus\<close>, and the lemmas
  the driver's operations satisfy under it. A successful register write stores the bytes
  written; a read returns them; nothing else changes the configuration registers or the list
  of loaded payloads. Nothing is assumed about \<open>finished\<close>, which other threads may change
  during any bus operation, nor about the registers after a failed write.
\<close>

definition payload_cmds :: "u8 set" where
  "payload_cmds = {0xA0, 0xA8, 0xA9, 0xAA, 0xAB, 0xAC, 0xAD, 0xB0}"

definition same_obs :: "('e \<Rightarrow> u8 \<Rightarrow> u8 list) \<Rightarrow> ('e \<Rightarrow> (u8 \<times> u8 list) list) \<Rightarrow>
    'e nrf_state \<Rightarrow> 'e nrf_state \<Rightarrow> bool" where
  "same_obs cfg loaded s s' \<longleftrightarrow>
     inited s' = inited s \<and> fault s' = fault s \<and> cfg (env s') = cfg (env s) \<and>
     loaded (env s') = loaded (env s)"

lemma same_obs_refl [simp]: "same_obs cfg loaded s s"
  by (simp add: same_obs_def)

lemma same_obs_trans [trans]:
  "same_obs cfg loaded s t \<Longrightarrow> same_obs cfg loaded t u \<Longrightarrow> same_obs cfg loaded s u"
  by (simp add: same_obs_def)

text \<open>The observations after a successful write of register \<open>r\<close>.\<close>

definition reg_written :: "('e \<Rightarrow> u8 \<Rightarrow> u8 list) \<Rightarrow> ('e \<Rightarrow> (u8 \<times> u8 list) list) \<Rightarrow>
    u8 \<Rightarrow> u8 list \<Rightarrow> 'e nrf_state \<Rightarrow> 'e nrf_state \<Rightarrow> bool" where
  "reg_written cfg loaded r bs s s' \<longleftrightarrow>
     inited s' = inited s \<and> fault s' = fault s \<and> cfg (env s') = (cfg (env s))(r := bs) \<and>
     loaded (env s') = loaded (env s)"

locale nrf_bus =
  fixes h :: "'e nrf24l01_handle"
    and cfg :: "'e \<Rightarrow> u8 \<Rightarrow> u8 list"
    and loaded :: "'e \<Rightarrow> (u8 \<times> u8 list) list"
  assumes cfg_width: "r \<in> cfg_regs \<Longrightarrow> length (cfg e r) = reg_width r"
    and cfg_legal: "r \<in> cfg_regs \<Longrightarrow> legal r (cfg e r)"
    and read_frame: "run_state (call_spi_read h c (Some b) len) s = ((res, b'), s') \<Longrightarrow>
      c < 0x20 \<or> c = 0x60 \<or> c = 0x61 \<Longrightarrow> unat len \<le> length b \<or> unat len > 33 \<Longrightarrow>
      same_obs cfg loaded s s' \<and> (\<exists>b2. b' = Some b2 \<and> length b2 = length b)"
    and read_long: "run_state (call_spi_read h c (Some b) len) s = ((res, b'), s') \<Longrightarrow>
      unat len > 33 \<Longrightarrow> res \<noteq> 0"
    and read_value: "run_state (call_spi_read h r (Some b) len) s = ((0, b'), s') \<Longrightarrow>
      r \<in> cfg_regs \<Longrightarrow> 0 < unat len \<Longrightarrow> unat len \<le> reg_width r \<Longrightarrow> unat len \<le> length b \<Longrightarrow>
      b' = Some (take (unat len) (cfg (env s) r) @ drop (unat len) b)"
    and write_frame: "run_state (call_spi_write h c (Some b) len) s = (res, s') \<Longrightarrow>
      unat len \<le> length b \<Longrightarrow> inited s' = inited s \<and> fault s' = fault s"
    and write_reg: "run_state (call_spi_write h (0x20 OR r) (Some b) len) s = (0, s') \<Longrightarrow>
      r \<in> cfg_regs \<Longrightarrow> 0 < unat len \<Longrightarrow> unat len \<le> reg_width r \<Longrightarrow> unat len \<le> length b \<Longrightarrow>
      legal r (take (unat len) b) \<Longrightarrow>
      reg_written cfg loaded r (take (unat len) b @ drop (unat len) (cfg (env s) r)) s s'"
    and write_payload: "run_state (call_spi_write h c (Some b) len) s = (0, s') \<Longrightarrow>
      c \<in> payload_cmds \<Longrightarrow> unat len \<le> 32 \<Longrightarrow> unat len \<le> length b \<Longrightarrow>
      cfg (env s') = cfg (env s) \<and> loaded (env s') = loaded (env s) @ [(c, take (unat len) b)]"
    and write_status: "run_state (call_spi_write h 0x27 (Some [v]) 1) s = (res, s') \<Longrightarrow>
      same_obs cfg loaded s s'"
    and write_command: "run_state (call_spi_write h c None 0) s = (res, s') \<Longrightarrow>
      c = 0xE1 \<or> c = 0xE2 \<or> c = 0xE3 \<or> c = 0xFF \<Longrightarrow> same_obs cfg loaded s s'"
    and gpio_frame: "run_state (call_gpio_write h v) s = (res, s') \<Longrightarrow> same_obs cfg loaded s s'"
    and delay_frame: "run_state (call_delay_ms h ms) s = (u, s') \<Longrightarrow> same_obs cfg loaded s s'"
    and print_frame: "run_state (call_debug_print h fmt args) s = (u, s') \<Longrightarrow>
      same_obs cfg loaded s s'"
begin

lemma fail_print_frame:
  "run_state (fail_print h msg r) s = (r', s') \<Longrightarrow> r' = r \<and> same_obs cfg loaded s s'"
  by (auto simp: fail_print_def dest: print_frame split: prod.splits)

lemma read_byte_spec:
  assumes run: "run_state (read_byte h r) s = ((res, v), s')" and "r < 0x20"
  shows "same_obs cfg loaded s s'" and "res = 0 \<or> res = 1"
    and "res = 0 \<Longrightarrow> r \<in> byte_regs \<Longrightarrow> cfg (env s) r = [v]"
proof -
  from run obtain res0 b' where
    rd: "run_state (call_spi_read h r (Some [0]) 1) s = ((res0, b'), s')"
    and res: "res = (if res0 \<noteq> 0 then 1 else 0)"
    and v: "v = (case b' of Some (b # _) \<Rightarrow> b | _ \<Rightarrow> 0)"
    by (auto simp: read_byte_def a_nrf24l01_spi_read_def split: prod.splits if_splits)
  show "same_obs cfg loaded s s'" using read_frame [OF rd] assms(2) by simp
  show "res = 0 \<or> res = 1" using res by simp
  assume "res = 0" and r: "r \<in> byte_regs"
  then have rd0: "run_state (call_spi_read h r (Some [0]) 1) s = ((0, b'), s')"
    using rd res by (simp split: if_splits)
  have "r \<in> cfg_regs" using r by (simp add: cfg_regs_def)
  moreover have w: "length (cfg (env s) r) = 1"
    using cfg_width [of r "env s"] r by (auto simp: cfg_regs_def reg_width_def byte_regs_def addr_regs_def)
  ultimately have "b' = Some (cfg (env s) r)"
    using read_value [OF rd0] r by (simp add: reg_width_def)
  with v w show "cfg (env s) r = [v]" by (cases "cfg (env s) r") auto
qed

lemma write_byte_spec:
  assumes run: "run_state (write_byte h r v) s = (res, s')" and r: "r \<in> byte_regs"
    and legal: "v AND NOT (reg_mask r) = 0"
  shows "inited s' = inited s" and "fault s' = fault s" and "res = 0 \<or> res = 1"
    and "res = 0 \<Longrightarrow> reg_written cfg loaded r [v] s s'"
proof -
  from run obtain res0 where
    wr: "run_state (call_spi_write h (0x20 OR r) (Some [v]) 1) s = (res0, s')"
    and res: "res = (if res0 \<noteq> 0 then 1 else 0)"
    by (auto simp: write_byte_def a_nrf24l01_spi_write_def split: prod.splits if_splits)
  show "inited s' = inited s" "fault s' = fault s" using write_frame [OF wr] by simp_all
  show "res = 0 \<or> res = 1" using res by simp
  assume "res = 0"
  then have wr0: "run_state (call_spi_write h (0x20 OR r) (Some [v]) 1) s = (0, s')"
    using wr res by (simp split: if_splits)
  have "r \<in> cfg_regs" using r by (simp add: cfg_regs_def)
  moreover have "length (cfg (env s) r) = 1"
    using cfg_width [of r "env s"] r by (auto simp: cfg_regs_def reg_width_def byte_regs_def addr_regs_def)
  ultimately show "reg_written cfg loaded r [v] s s'"
    using write_reg [OF wr0] legal by (simp add: reg_width_def)
qed

lemma rmw_spec:
  assumes run: "run_state (rmw h r f m1 m2) s = (res, s')" and r: "r \<in> byte_regs"
    and legal: "\<And>v. cfg (env s) r = [v] \<Longrightarrow> f v AND NOT (reg_mask r) = 0"
  shows "inited s' = inited s" and "fault s' = fault s" and "res = 0 \<or> res = 1"
    and "res = 0 \<Longrightarrow> \<exists>v. cfg (env s) r = [v] \<and> reg_written cfg loaded r [f v] s s'"
proof -
  have small: "r < 0x20" using r by (intro cfg_regs_small) (simp add: cfg_regs_def)
  obtain res1 v s1 where rd: "run_state (read_byte h r) s = ((res1, v), s1)"
    by (metis prod.exhaust)
  note rdb = read_byte_spec [OF rd small]
  have "inited s' = inited s \<and> fault s' = fault s \<and> (res = 0 \<or> res = 1) \<and>
    (res = 0 \<longrightarrow> (\<exists>v. cfg (env s) r = [v] \<and> reg_written cfg loaded r [f v] s s'))"
  proof (cases "res1 = 0")
    case False
    with run rd have "run_state (fail_print h m1 1) s1 = (res, s')"
      by (simp add: rmw_def)
    from fail_print_frame [OF this] rdb(1) show ?thesis by (auto simp: same_obs_def)
  next
    case True
    with rdb r have v: "cfg (env s) r = [v]" by simp
    obtain res2 s2 where wr: "run_state (write_byte h r (f v)) s1 = (res2, s2)"
      by (metis prod.exhaust)
    note wrb = write_byte_spec [OF wr r legal [OF v]]
    show ?thesis
    proof (cases "res2 = 0")
      case False
      with run rd wr True have "run_state (fail_print h m2 1) s2 = (res, s')"
        by (simp add: rmw_def)
      from fail_print_frame [OF this] rdb(1) wrb show ?thesis by (auto simp: same_obs_def)
    next
      case z: True
      with run rd wr True have "res = 0" "s' = s2" by (simp_all add: rmw_def)
      with wrb z rdb(1) v show ?thesis by (auto simp: same_obs_def reg_written_def)
    qed
  qed
  then show "inited s' = inited s" and "fault s' = fault s" and "res = 0 \<or> res = 1"
    and "res = 0 \<Longrightarrow> \<exists>v. cfg (env s) r = [v] \<and> reg_written cfg loaded r [f v] s s'"
    by blast+
qed

lemma set_call_spec:
  assumes run: "run_state (set_call (Some h) x) s = (res, s')"
    and i: "inited s = 1" and range: "set_in_range x"
  shows "inited s' = 1" and "fault s' = fault s" and "res = 0 \<or> res = 1"
    and "res = 0 \<Longrightarrow> \<exists>v. cfg (env s) (set_reg x) = [v] \<and>
      reg_written cfg loaded (set_reg x) [put_field (set_field x) (set_bits x) v] s s'"
proof -
  obtain m1 m2 where "set_call (Some h) x =
    checked (Some h) id (\<lambda>h. rmw h (set_reg x) (put_field (set_field x) (set_bits x)) m1 m2)"
    using set_call_rmw [OF range] by blast
  with run i have rmw: "run_state (rmw h (set_reg x) (put_field (set_field x) (set_bits x)) m1 m2) s = (res, s')"
    by (simp add: run_checked)
  have legal: "put_field (set_field x) (set_bits x) v AND NOT (reg_mask (set_reg x)) = 0"
    if "cfg (env s) (set_reg x) = [v]" for v
  proof (rule put_field_legal)
    show "v AND NOT (reg_mask (set_reg x)) = 0"
      using cfg_legal [of "set_reg x" "env s"] set_reg_byte [of x] that by (simp add: cfg_regs_def)
  qed (simp_all add: set_bits_in_field [OF range] set_field_mask)
  show "inited s' = 1" "fault s' = fault s" "res = 0 \<or> res = 1"
    using rmw_spec [OF rmw set_reg_byte legal] i by simp_all
  show "res = 0 \<Longrightarrow> \<exists>v. cfg (env s) (set_reg x) = [v] \<and>
      reg_written cfg loaded (set_reg x) [put_field (set_field x) (set_bits x) v] s s'"
    using rmw_spec(4) [OF rmw set_reg_byte legal] by blast
qed

lemma get_call_read:
  "\<exists>m. get_call (Some h) x = checked (Some h) (\<lambda>c. (c, None)) (\<lambda>h. do {
     (res, prev) \<leftarrow> read_byte h (set_reg x);
     if res \<noteq> 0 then fail_print h m (1, None)
     else ret (0, Some (get_value x prev)) })"
  by (cases x) (auto simp: driver_defs intro!: exI cong del: if_weak_cong)

lemma get_call_spec:
  assumes run: "run_state (get_call (Some h) x) s = ((res, out), s')" and i: "inited s = 1"
  shows "same_obs cfg loaded s s'" and "res = 0 \<or> res = 1"
    and "res = 0 \<Longrightarrow> \<exists>v. cfg (env s) (set_reg x) = [v] \<and> out = Some (get_value x v)"
proof -
  have small: "set_reg x < 0x20"
    using set_reg_byte by (intro cfg_regs_small) (simp add: cfg_regs_def)
  obtain m where "get_call (Some h) x = checked (Some h) (\<lambda>c. (c, None)) (\<lambda>h. do {
     (res, prev) \<leftarrow> read_byte h (set_reg x);
     if res \<noteq> 0 then fail_print h m (1, None)
     else ret (0, Some (get_value x prev)) })"
    using get_call_read by blast
  moreover obtain res1 v s1 where rd: "run_state (read_byte h (set_reg x)) s = ((res1, v), s1)"
    by (metis prod.exhaust)
  ultimately have rest: "(if res1 \<noteq> 0 then run_state (fail_print h m (1, None)) s1
      else ((0, Some (get_value x v)), s1)) = ((res, out), s')"
    using run i by (simp add: run_checked if_distrib [of "\<lambda>m. run_state m _"] cong: if_cong)
  note rdb = read_byte_spec [OF rd small]
  show "same_obs cfg loaded s s'" "res = 0 \<or> res = 1"
    using rest rdb(1) by (auto dest!: fail_print_frame intro: same_obs_trans split: if_splits)
  show "res = 0 \<Longrightarrow> \<exists>v. cfg (env s) (set_reg x) = [v] \<and> out = Some (get_value x v)"
    using rest rdb(3) set_reg_byte fail_print_frame by (fastforce split: if_splits)
qed
end

end
