(* ===== verification/Nrf24_Address_Bus.thy ===== *)
theory Nrf24_Address_Bus
  imports Nrf24_Bus
begin

text \<open>
  The address functions under the bus contract. The three setters and the three getters of
  multi-byte addresses have one body each, up to the register and a message; a setter stores
  the reversed address in the register, a getter reads it back in the caller's order.
\<close>

definition set_address :: "'e nrf24l01_handle \<Rightarrow> u8 \<Rightarrow> string \<Rightarrow> cptr \<Rightarrow> u8 \<Rightarrow> ('e nrf_state, u8) state" where
  "set_address h reg msg addr len = do {
     (res, prev) \<leftarrow> read_byte h NRF24L01_REG_SETUP_AW;
     if res \<noteq> 0 then fail_print h ''nrf24l01: get setup of address widths failed.'' 1
     else do {
       let width = drop_bit 0 prev AND 0x3;
       if width = 0 then do { call_debug_print h ''nrf24l01: len is too long with %d.'' [0]; ret 4 }
       else do {
         let width = width + 2;
         if len > width then do { call_debug_print h ''nrf24l01: len is too long with %d.'' [width]; ret 4 }
         else do {
           buffer \<leftarrow> copy_in 8 addr (unat len);
           let buffer = reverse_buffer (unat len) buffer;
           res \<leftarrow> a_nrf24l01_spi_write h reg (Some buffer) (ucast len);
           if res \<noteq> 0 then fail_print h msg 1
           else ret 0 } } } }"

definition get_address :: "'e nrf24l01_handle \<Rightarrow> u8 \<Rightarrow> string \<Rightarrow> cptr \<Rightarrow> u8 \<Rightarrow>
    ('e nrf_state, u8 \<times> cptr \<times> u8) state" where
  "get_address h reg msg addr len = do {
     (res, prev) \<leftarrow> read_byte h NRF24L01_REG_SETUP_AW;
     if res \<noteq> 0 then fail_print h ''nrf24l01: get setup of address widths failed.'' (1, addr, len)
     else do {
       let width = drop_bit 0 prev AND 0x3;
       if width = 0 then do { call_debug_print h ''nrf24l01: len is too long with %d.'' [0]; ret (4, addr, len) }
       else do {
         let width = width + 2;
         if len < width then do {
           call_debug_print h ''nrf24l01: len is too short with %d.'' [width];
           ret (4, addr, len) }
         else do {
           let len = width;
           (res, addr) \<leftarrow> a_nrf24l01_spi_read h reg addr (ucast width);
           if res \<noteq> 0 then fail_print h msg (1, addr, len)
           else do {
             addr \<leftarrow> reverse_in_place addr (unat len);
             ret (0, addr, len) } } } } }"

lemmas address_bodies = driver_defs set_address_def get_address_def

lemma set_address_calls:
  "nrf24l01_set_tx_address (Some h) a l = checked (Some h) id
     (\<lambda>h. set_address h 0x10 ''nrf24l01: set tx address failed.'' a l)"
  "nrf24l01_set_rx_pipe_0_address (Some h) a l = checked (Some h) id
     (\<lambda>h. set_address h 0x0A ''nrf24l01: set receive address data pipe p0 register failed.'' a l)"
  "nrf24l01_set_rx_pipe_1_address (Some h) a l = checked (Some h) id
     (\<lambda>h. set_address h 0x0B ''nrf24l01: set receive address data pipe p1 register failed.'' a l)"
  by (simp_all only: address_bodies)

lemma get_address_calls:
  "nrf24l01_get_tx_address (Some h) a l = checked (Some h) (\<lambda>c. (c, a, l))
     (\<lambda>h. get_address h 0x10 ''nrf24l01: get tx address failed.'' a l)"
  "nrf24l01_get_rx_pipe_0_address (Some h) a l = checked (Some h) (\<lambda>c. (c, a, l))
     (\<lambda>h. get_address h 0x0A ''nrf24l01: get receive address data pipe p0 register failed.'' a l)"
  "nrf24l01_get_rx_pipe_1_address (Some h) a l = checked (Some h) (\<lambda>c. (c, a, l))
     (\<lambda>h. get_address h 0x0B ''nrf24l01: get receive address data pipe p1 register failed.'' a l)"
  by (simp_all only: address_bodies)

text \<open>The three multi-byte addresses with their registers.\<close>

datatype address_slot = Tx_Address | Rx_Pipe_0 | Rx_Pipe_1

fun slot_reg :: "address_slot \<Rightarrow> u8" where
  "slot_reg Tx_Address = 0x10"
| "slot_reg Rx_Pipe_0 = 0x0A"
| "slot_reg Rx_Pipe_1 = 0x0B"

fun set_slot :: "'e nrf24l01_handle option \<Rightarrow> address_slot \<Rightarrow> cptr \<Rightarrow> u8 \<Rightarrow> ('e nrf_state, u8) state" where
  "set_slot h Tx_Address a len = nrf24l01_set_tx_address h a len"
| "set_slot h Rx_Pipe_0 a len = nrf24l01_set_rx_pipe_0_address h a len"
| "set_slot h Rx_Pipe_1 a len = nrf24l01_set_rx_pipe_1_address h a len"

fun get_slot :: "'e nrf24l01_handle option \<Rightarrow> address_slot \<Rightarrow> cptr \<Rightarrow> u8 \<Rightarrow>
    ('e nrf_state, u8 \<times> cptr \<times> u8) state" where
  "get_slot h Tx_Address a len = nrf24l01_get_tx_address h a len"
| "get_slot h Rx_Pipe_0 a len = nrf24l01_get_rx_pipe_0_address h a len"
| "get_slot h Rx_Pipe_1 a len = nrf24l01_get_rx_pipe_1_address h a len"

lemma set_slot_body: "\<exists>m. set_slot (Some h) k a len = checked (Some h) id (\<lambda>h. set_address h (slot_reg k) m a len)"
  by (cases k) (auto simp: set_address_calls)

lemma get_slot_body: "\<exists>m. get_slot (Some h) k a len =
    checked (Some h) (\<lambda>c. (c, a, len)) (\<lambda>h. get_address h (slot_reg k) m a len)"
  by (cases k) (auto simp: get_address_calls)

lemma slot_reg_addr: "slot_reg k \<in> addr_regs"
  by (cases k) (simp_all add: addr_regs_def)

text \<open>The address width in bytes encoded in SETUP_AW.\<close>

definition addr_bytes :: "u8 \<Rightarrow> nat" where
  "addr_bytes w = unat (w AND 3) + 2"

lemma addr_width_word:
  "unat ((w AND 3) + 2 :: u8) = addr_bytes w" and addr_bytes_le: "addr_bytes w \<le> 5"
proof -
  have "unat (w AND 3) \<le> unat (3 :: u8)"
    by (rule word_and_le1 [THEN word_le_nat_alt [THEN iffD1]])
  then have "unat (w AND 3) \<le> 3" by simp
  then show "unat ((w AND 3) + 2 :: u8) = addr_bytes w" "addr_bytes w \<le> 5"
    by (simp_all add: addr_bytes_def unat_word_ariths)
qed

lemma copy_in_Some [run_simps]:
  "n \<le> length a \<Longrightarrow> n \<le> cap \<Longrightarrow> run_state (copy_in cap (Some a) n) s = (take n a @ replicate (cap - n) 0, s)"
  by (simp add: copy_in_def)

lemma reverse_in_place_Some [run_simps]:
  "n \<le> length b \<Longrightarrow> run_state (reverse_in_place (Some b) n) s = (Some (rev (take n b) @ drop n b), s)"
proof (cases "n div 2 = 0")
  case True
  assume n: "n \<le> length b"
  from True have "n = 0 \<or> n = 1" by linarith
  then have "rev (take n b) = take n b" by (cases b) auto
  with True show ?thesis by (simp add: reverse_in_place_def)
qed (simp add: reverse_in_place_def reverse_buffer_eq)

context nrf_bus
begin

lemma print_ret_frame:
  "run_state (do { call_debug_print h m as; ret r }) s = (r', s') \<Longrightarrow> r' = r \<and> same_obs cfg loaded s s'"
  by (auto dest: print_frame split: prod.splits)

lemma spi_write_addr_spec:
  assumes run: "run_state (a_nrf24l01_spi_write h r (Some b) (ucast len)) s = (res, s')"
    and r: "r \<in> addr_regs" and len: "0 < unat (len :: u8)" "unat len \<le> 5" "unat len \<le> length b"
  shows "inited s' = inited s" "fault s' = fault s" "res = 0 \<or> res = 1"
    "res = 0 \<Longrightarrow> reg_written cfg loaded r (take (unat len) b @ drop (unat len) (cfg (env s) r)) s s'"
proof -
  from run obtain res0 where
    wr: "run_state (call_spi_write h (0x20 OR r) (Some b) (ucast len)) s = (res0, s')"
    and res: "res = (if res0 \<noteq> 0 then 1 else 0)"
    by (auto simp: a_nrf24l01_spi_write_def split: prod.splits if_splits)
  show "inited s' = inited s" "fault s' = fault s" using write_frame [OF wr] len by simp_all
  show "res = 0 \<or> res = 1" using res by simp
  assume "res = 0"
  then have wr0: "run_state (call_spi_write h (0x20 OR r) (Some b) (ucast len)) s = (0, s')"
    using wr res by (simp split: if_splits)
  have "legal r (take (unat len) b)"
    using r by (auto simp: legal_def reg_mask_def addr_regs_def)
  then show "reg_written cfg loaded r (take (unat len) b @ drop (unat len) (cfg (env s) r)) s s'"
    using write_reg [OF wr0] r len by (simp add: reg_width_def cfg_regs_def)
qed

lemma spi_read_addr_spec:
  assumes run: "run_state (a_nrf24l01_spi_read h r (Some b) (ucast len)) s = ((res, b'), s')"
    and r: "r \<in> addr_regs" and len: "0 < unat (len :: u8)" "unat len \<le> 5" "unat len \<le> length b"
  shows "same_obs cfg loaded s s'" "res = 0 \<or> res = 1"
    "res = 0 \<Longrightarrow> b' = Some (take (unat len) (cfg (env s) r) @ drop (unat len) b)"
proof -
  have c: "r \<in> cfg_regs" "r < 0x20" "reg_width r = 5"
    using r by (auto simp: cfg_regs_def addr_regs_def reg_width_def)
  from run obtain res0 where
    rd: "run_state (call_spi_read h r (Some b) (ucast len)) s = ((res0, b'), s')"
    and res: "res = (if res0 \<noteq> 0 then 1 else 0)"
    by (auto simp: a_nrf24l01_spi_read_def split: prod.splits if_splits)
  show "same_obs cfg loaded s s'" using read_frame [OF rd] c len by simp
  show "res = 0 \<or> res = 1" using res by simp
  assume "res = 0"
  then have rd0: "run_state (call_spi_read h r (Some b) (ucast len)) s = ((0, b'), s')"
    using rd res by (simp split: if_splits)
  then show "b' = Some (take (unat len) (cfg (env s) r) @ drop (unat len) b)"
    using read_value [OF rd0] c len by simp
qed

lemma set_address_spec:
  assumes run: "run_state (set_address h r msg (Some a) len) s = (res, s')"
    and r: "r \<in> addr_regs" and len: "0 < len" "unat len \<le> length a"
  shows "inited s' = inited s \<and> fault s' = fault s \<and> res \<in> {0, 1, 4} \<and>
    (res = 0 \<longrightarrow> (\<exists>w. cfg (env s) 0x03 = [w] \<and> w AND 3 \<noteq> 0 \<and> unat len \<le> addr_bytes w \<and>
       reg_written cfg loaded r
         (rev (take (unat len) a) @ drop (unat len) (cfg (env s) r)) s s'))"
proof -
  obtain res1 w s1 where rd: "run_state (read_byte h 0x03) s = ((res1, w), s1)"
    by (metis prod.exhaust)
  have o1: "same_obs cfg loaded s s1" and w: "res1 = 0 \<Longrightarrow> cfg (env s) 0x03 = [w]"
    using read_byte_spec [OF rd] by (simp_all add: byte_regs_def)
  show ?thesis
  proof (cases "res1 = 0 \<and> w AND 3 \<noteq> 0 \<and> \<not> len > (w AND 3) + 2")
    case False
    then show ?thesis
      using run rd o1
      by (auto simp: set_address_def fail_print_def Let_def same_obs_def dest!: print_frame
          split: if_splits prod.splits)
  next
    case True
    then have le: "unat len \<le> addr_bytes w"
      by (simp add: not_less word_le_nat_alt flip: addr_width_word)
    then have le5: "unat len \<le> 5" using addr_bytes_le [of w] by simp
    let ?b = "reverse_buffer (unat len) (take (unat len) a @ replicate (8 - unat len) 0)"
    have b: "take (unat len) ?b = rev (take (unat len) a)" "length ?b = 8"
      using le5 len by (simp_all add: reverse_buffer_eq)
    obtain res2 s2 where wr:
      "run_state (a_nrf24l01_spi_write h r (Some ?b) (ucast len)) s1 = (res2, s2)"
      by (metis prod.exhaust)
    have pos: "0 < unat len" using len(1) by (simp add: word_less_nat_alt)
    note wrb = spi_write_addr_spec [OF wr r pos le5, unfolded b]
    have "(if res2 \<noteq> 0 then run_state (fail_print h msg 1) s2 else (0, s2)) = (res, s')"
      using run rd True wr len le5
      by (simp add: set_address_def Let_def copy_in_Some split: if_splits)
    then show ?thesis
      using wrb o1 w True le le5
      by (auto dest!: fail_print_frame simp: same_obs_def reg_written_def split: if_splits)
  qed
qed

lemma get_address_spec:
  assumes run: "run_state (get_address h r msg (Some b) len) s = ((res, b', len'), s')"
    and r: "r \<in> addr_regs" and len: "unat len \<le> length b"
  shows "same_obs cfg loaded s s' \<and> res \<in> {0, 1, 4} \<and>
    (res = 0 \<longrightarrow> (\<exists>w. cfg (env s) 0x03 = [w] \<and> addr_bytes w \<le> unat len \<and> unat len' = addr_bytes w \<and>
       b' = Some (rev (take (addr_bytes w) (cfg (env s) r)) @ drop (addr_bytes w) b)))"
proof -
  obtain res1 w s1 where rd: "run_state (read_byte h 0x03) s = ((res1, w), s1)"
    by (metis prod.exhaust)
  have o1: "same_obs cfg loaded s s1" and w: "res1 = 0 \<Longrightarrow> cfg (env s) 0x03 = [w]"
    using read_byte_spec [OF rd] by (simp_all add: byte_regs_def)
  show ?thesis
  proof (cases "res1 = 0 \<and> w AND 3 \<noteq> 0 \<and> \<not> len < (w AND 3) + 2")
    case False
    then show ?thesis
      using run rd o1
      by (auto simp: get_address_def fail_print_def Let_def dest!: print_frame
          intro: same_obs_trans split: if_splits prod.splits)
  next
    case True
    let ?w = "(w AND 3) + 2 :: u8"
    have le: "addr_bytes w \<le> unat len"
      using True by (simp add: word_less_nat_alt not_less flip: addr_width_word)
    obtain res2 b2 s2 where rda:
      "run_state (a_nrf24l01_spi_read h r (Some b) (ucast ?w)) s1 = ((res2, b2), s2)"
      by (metis prod.exhaust)
    have "0 < unat ?w" "unat ?w \<le> 5" "unat ?w \<le> length b"
      using le len addr_bytes_le [of w] by (simp_all add: addr_width_word) (simp add: addr_bytes_def)
    note rdb = spi_read_addr_spec [OF rda r this, unfolded addr_width_word]
    have c: "length (cfg (env s) r) = 5"
      using cfg_width [of r "env s"] r by (simp add: cfg_regs_def reg_width_def)
    have "(if res2 \<noteq> 0 then run_state (fail_print h msg (1, b2, ?w)) s2
        else ((0, Some (rev (take (addr_bytes w) (cfg (env s) r)) @ drop (addr_bytes w) b), ?w), s2))
      = ((res, b', len'), s')"
      using run rd True rda rdb(3) len le o1 c addr_bytes_le [of w]
      by (auto simp: get_address_def Let_def addr_width_word reverse_in_place_Some same_obs_def
          min_def split: if_splits)
    then show ?thesis
      using rdb o1 w True le
      by (auto dest!: fail_print_frame intro: same_obs_trans simp: addr_width_word split: if_splits)
  qed
qed
end

end
