(* ===== verification/Nrf24_Send_Bus.thy ===== *)
theory Nrf24_Send_Bus
  imports Nrf24_Address_Bus
begin

text \<open>
  \<open>nrf24l01_send\<close> under the bus contract: the payload handed to the chip is the caller's,
  reversed; the wait for the interrupt handler is bounded; the status tells what happened.
\<close>

definition payload_cmd :: "nrf24l01_bool \<Rightarrow> u8" where
  "payload_cmd use_ack = (if use_ack = NRF24L01_BOOL_TRUE then NRF24L01_COMMAND_W_TX_PAYLOAD
     else NRF24L01_COMMAND_W_TX_PAYLOAD_NO_ACK)"

text \<open>The end of \<open>nrf24l01_send\<close>, after the payload is loaded, and its report of a timeout.\<close>

definition send_report :: "'e nrf24l01_handle \<Rightarrow> ('e nrf_state, u8) state" where
  "send_report h = do {
     (res, status) \<leftarrow> read_byte h NRF24L01_REG_STATUS;
     call_debug_print h ''nrf24l01: status: %d'' [status];
     (res, config) \<leftarrow> read_byte h NRF24L01_REG_CONFIG;
     call_debug_print h ''nrf24l01: config: %d'' [config];
     fail_print h ''nrf24l01: send timeout.'' 5 }"

definition send_finish :: "'e nrf24l01_handle \<Rightarrow> nrf24l01_bool \<Rightarrow> ('e nrf_state, u8) state" where
  "send_finish h use_ack =
     (if use_ack = NRF24L01_BOOL_TRUE then do {
        timeout \<leftarrow> send_wait h send_timeout;
        if timeout = 0 then send_report h
        else do {
          s \<leftarrow> getst;
          if finished s = 1 then ret 0
          else fail_print h ''nrf24l01: send failed.'' 1 } }
      else ret 0)"

lemma nrf24l01_send_alt:
  "nrf24l01_send handle buf len use_ack = checked handle id (\<lambda>h.
     if len > 32 then fail_print h ''nrf24l01: len is over 32.'' 4
     else do {
       buffer \<leftarrow> copy_in 32 buf (unat len);
       modify (\<lambda>s. s\<lparr>finished := 0\<rparr>);
       res \<leftarrow> call_gpio_write h 0;
       if res \<noteq> 0 then fail_print h ''nrf24l01: gpio write failed.'' 1
       else do {
         res \<leftarrow> call_spi_write h (payload_cmd use_ack)
           (Some (reverse_buffer (unat len) buffer)) (ucast len);
         if res \<noteq> 0 then fail_print h ''nrf24l01: set tx payload failed.'' 1
         else do {
           res \<leftarrow> call_gpio_write h 1;
           if res \<noteq> 0 then fail_print h ''nrf24l01: gpio write failed.'' 1
           else do {
             (res, feature) \<leftarrow> read_byte h NRF24L01_REG_FEATURE;
             send_finish h use_ack } } } })"
  by (simp only: nrf24l01_send_def send_finish_def send_report_def payload_cmd_def Let_def)

context nrf_bus
begin

lemma send_report_spec:
  assumes run: "run_state (send_report h) s = (res, s')"
  shows "same_obs cfg loaded s s' \<and> res = 5"
proof -
  obtain r1 v1 s1 where rd1: "run_state (read_byte h 0x07) s = ((r1, v1), s1)"
    by (metis prod.exhaust)
  obtain u1 s2 where p1: "run_state (call_debug_print h ''nrf24l01: status: %d'' [v1]) s1 = (u1, s2)"
    by (metis prod.exhaust)
  obtain r2 v2 s3 where rd2: "run_state (read_byte h 0x00) s2 = ((r2, v2), s3)"
    by (metis prod.exhaust)
  obtain u2 s4 where p2: "run_state (call_debug_print h ''nrf24l01: config: %d'' [v2]) s3 = (u2, s4)"
    by (metis prod.exhaust)
  have "run_state (fail_print h ''nrf24l01: send timeout.'' 5) s4 = (res, s')"
    using run rd1 p1 rd2 p2 by (simp add: send_report_def)
  from fail_print_frame [OF this] read_byte_spec(1) [OF rd1] read_byte_spec(1) [OF rd2]
    print_frame [OF p1] print_frame [OF p2]
  show ?thesis by (simp add: same_obs_def)
qed

lemma write_byte_result:
  assumes run: "run_state (do { res \<leftarrow> write_byte h r v; if res \<noteq> 0 then fail_print h m 1 else ret 0 }) s = (res :: u8, s')"
    and r: "r \<in> byte_regs" and legal: "v AND NOT (reg_mask r) = 0"
  shows "inited s' = inited s \<and> fault s' = fault s \<and> (res = 0 \<or> res = 1) \<and>
    (res = 0 \<longrightarrow> reg_written cfg loaded r [v] s s')"
proof -
  obtain res1 s1 where wr: "run_state (write_byte h r v) s = (res1, s1)"
    by (metis prod.exhaust)
  note wrb = write_byte_spec [OF wr r legal]
  show ?thesis
    using run wr wrb
    by (auto dest!: fail_print_frame simp: same_obs_def reg_written_def split: if_splits)
qed

lemma command_result:
  assumes run: "run_state (do { res \<leftarrow> call_spi_write h c None 0; if res \<noteq> 0 then fail_print h m 1 else ret 0 }) s = (res :: u8, s')"
    and c: "c = 0xE1 \<or> c = 0xE2 \<or> c = 0xE3 \<or> c = 0xFF"
  shows "same_obs cfg loaded s s' \<and> (res = 0 \<or> res = 1)"
proof -
  obtain res1 s1 where wr: "run_state (call_spi_write h c None 0) s = (res1, s1)"
    by (metis prod.exhaust)
  show ?thesis
    using run wr write_command [OF wr c]
    by (auto dest!: fail_print_frame intro: same_obs_trans split: if_splits)
qed

lemma send_wait_spec:
  "run_state (send_wait h n) s = (t, s') \<Longrightarrow>
     same_obs cfg loaded s s' \<and> t \<le> n \<and> (0 < t \<longrightarrow> finished s' \<noteq> 0)"
proof (induction n arbitrary: s t s')
  case 0
  then show ?case by simp
next
  case (Suc n)
  show ?case
  proof (cases "finished s = 0")
    case True
    obtain u s1 where d: "run_state (call_delay_ms h 1) s = (u, s1)"
      by (metis prod.exhaust)
    with Suc.prems True have "run_state (send_wait h n) s1 = (t, s')" by simp
    from Suc.IH [OF this] delay_frame [OF d] show ?thesis
      by (auto intro: same_obs_trans)
  next
    case False
    with Suc.prems show ?thesis by simp
  qed
qed

lemma send_finish_spec:
  assumes run: "run_state (send_finish h use_ack) s = (res, s')"
  shows "same_obs cfg loaded s s' \<and> res \<in> {0, 1, 5} \<and>
    (use_ack = NRF24L01_BOOL_FALSE \<longrightarrow> res = 0) \<and>
    (use_ack = NRF24L01_BOOL_TRUE \<longrightarrow> res = 0 \<longrightarrow> finished s' = 1)"
proof (cases use_ack)
  case NRF24L01_BOOL_FALSE
  with run show ?thesis by (simp add: send_finish_def)
next
  case NRF24L01_BOOL_TRUE
  obtain t s1 where w: "run_state (send_wait h send_timeout) s = (t, s1)"
    by (metis prod.exhaust)
  note wt = send_wait_spec [OF w]
  show ?thesis
  proof (cases "t = 0")
    case True
    with run w NRF24L01_BOOL_TRUE have "run_state (send_report h) s1 = (res, s')"
      by (simp add: send_finish_def send_report_def)
    from send_report_spec [OF this] wt NRF24L01_BOOL_TRUE show ?thesis
      by (auto intro: same_obs_trans)
  next
    case False
    with run w NRF24L01_BOOL_TRUE
    have "(if finished s1 = 1 then (0, s1)
      else run_state (fail_print h ''nrf24l01: send failed.'' 1) s1) = (res, s')"
      by (simp add: send_finish_def split: if_splits)
    then show ?thesis using wt NRF24L01_BOOL_TRUE
      by (auto dest!: fail_print_frame intro: same_obs_trans split: if_splits)
  qed
qed

lemma send_spec:
  assumes run: "run_state (nrf24l01_send (Some h) (Some buf) len use_ack) s = (res, s')"
    and i: "inited s = 1" and len: "len \<le> 32" "unat len \<le> length buf"
  shows "inited s' = 1 \<and> fault s' = fault s \<and> res \<in> {0, 1, 5} \<and>
    (res \<noteq> 1 \<longrightarrow> cfg (env s') = cfg (env s) \<and>
       loaded (env s') = loaded (env s) @ [(payload_cmd use_ack, rev (take (unat len) buf))]) \<and>
    (use_ack = NRF24L01_BOOL_FALSE \<longrightarrow> res \<noteq> 5) \<and>
    (use_ack = NRF24L01_BOOL_TRUE \<longrightarrow> res = 0 \<longrightarrow> finished s' = 1)"
    (is "?goal")
proof -
  have l32: "unat len \<le> 32" using len(1) by (simp add: word_le_nat_alt)
  let ?b = "reverse_buffer (unat len) (take (unat len) buf @ replicate (32 - unat len) 0)"
  have b: "take (unat len) ?b = rev (take (unat len) buf)" "length ?b = 32"
    using l32 len by (simp_all add: reverse_buffer_eq)
  let ?s0 = "s\<lparr>finished := 0\<rparr>"
  have o0: "same_obs cfg loaded s ?s0" by (simp add: same_obs_def)
  obtain r1 s1 where g0: "run_state (call_gpio_write h 0) ?s0 = (r1, s1)"
    by (metis prod.exhaust)
  obtain r2 s2 where wr: "run_state (call_spi_write h (payload_cmd use_ack) (Some ?b) (ucast len)) s1 = (r2, s2)"
    by (metis prod.exhaust)
  obtain r3 s3 where g1: "run_state (call_gpio_write h 1) s2 = (r3, s3)"
    by (metis prod.exhaust)
  obtain r4 f4 s4 where rf: "run_state (read_byte h 0x1D) s3 = ((r4, f4), s4)"
    by (metis prod.exhaust)
  note o1 = same_obs_trans [OF o0 gpio_frame [OF g0]]
  have w2: "inited s2 = inited s1" "fault s2 = fault s1"
    using write_frame [OF wr] b l32 by simp_all
  have p2: "cfg (env s2) = cfg (env s1)"
    "loaded (env s2) = loaded (env s1) @ [(payload_cmd use_ack, rev (take (unat len) buf))]" if "r2 = 0"
    using write_payload [OF wr [unfolded that]] b l32
    by (simp_all add: payload_cmd_def payload_cmds_def)
  have o4: "same_obs cfg loaded s2 s4"
    using gpio_frame [OF g1] read_byte_spec(1) [OF rf] same_obs_trans by fastforce
  have "(if r1 \<noteq> 0 then run_state (fail_print h ''nrf24l01: gpio write failed.'' 1) s1
      else if r2 \<noteq> 0 then run_state (fail_print h ''nrf24l01: set tx payload failed.'' 1) s2
      else if r3 \<noteq> 0 then run_state (fail_print h ''nrf24l01: gpio write failed.'' 1) s3
      else run_state (send_finish h use_ack) s4) = (res, s')"
    using run i len(1) len(2) l32 g0 wr g1 rf
    by (simp add: nrf24l01_send_alt run_checked not_less copy_in_Some split: if_splits)
  note eq = this
  note obs = o1 [unfolded same_obs_def] w2 i
  consider "r1 \<noteq> 0" | "r1 = 0" "r2 \<noteq> 0" | "r1 = 0" "r2 = 0" "r3 \<noteq> 0" | "r1 = 0" "r2 = 0" "r3 = 0"
    by blast
  then show ?thesis
  proof cases
    case 1
    with eq fail_print_frame [of "''nrf24l01: gpio write failed.''" 1 s1 res s'] obs
    show ?thesis by (simp add: same_obs_def)
  next
    case 2
    with eq fail_print_frame [of "''nrf24l01: set tx payload failed.''" 1 s2 res s'] obs
    show ?thesis by (simp add: same_obs_def)
  next
    case 3
    with eq fail_print_frame [of "''nrf24l01: gpio write failed.''" 1 s3 res s'] obs gpio_frame [OF g1]
    show ?thesis by (simp add: same_obs_def)
  next
    case 4
    with eq have "run_state (send_finish h use_ack) s4 = (res, s')" by simp
    from send_finish_spec [OF this] p2 4 obs o4 show ?thesis
      by (auto simp: same_obs_def)
  qed
qed
end

end
