(* ===== verification/Nrf24_Interface.thy ===== *)
theory Nrf24_Interface
  imports Nrf24_Send_Bus
begin

text \<open>
  The board's side of the driver, src/src/nrf24l01/nrf24l01_interface.c: the functions linked
  into the handle, on top of the ChibiOS HAL calls they make (the SPI peripheral, the chip
  enable line, the sleep of the thread and the console), which reach the hardware and are the
  record \<open>hal\<close>. The static transfer buffers of 34 bytes are cleared on every call before they
  are used, so they are local values here; the cache maintenance calls around the DMA transfer
  do not change memory contents as the program sees them and are not modelled.

  The locale \<open>nrf_chip\<close> is what the HAL and the chip promise about single bus transfers; from
  it the interface functions are shown to satisfy the contract \<open>nrf_bus\<close> the driver needs.
\<close>

record 'e hal =
  spiStart :: "('e nrf_state, int) state"
  spiAcquireBus :: "('e nrf_state, unit) state"
  spiSelect :: "('e nrf_state, unit) state"
  spiExchange :: "nat \<Rightarrow> u8 list \<Rightarrow> u8 list \<Rightarrow> ('e nrf_state, int \<times> u8 list) state"
  spiSend :: "nat \<Rightarrow> u8 list \<Rightarrow> ('e nrf_state, int) state"
  spiUnselect :: "('e nrf_state, unit) state"
  spiReleaseBus :: "('e nrf_state, unit) state"
  palSetLine_CE :: "('e nrf_state, unit) state"
  palClearLine_CE :: "('e nrf_state, unit) state"
  chThdSleepMilliseconds :: "u32 \<Rightarrow> ('e nrf_state, unit) state"
  chvprintf :: "string \<Rightarrow> u8 list \<Rightarrow> ('e nrf_state, unit) state"

abbreviation (input) HAL_RET_SUCCESS :: int where "HAL_RET_SUCCESS \<equiv> 0"

definition SPI_BUFFER_SIZE :: nat where
  "SPI_BUFFER_SIZE = 34"

subsection \<open>The linked functions\<close>

definition nrf24l01_interface_spi_init :: "'e hal \<Rightarrow> ('e nrf_state, u8) state" where
  "nrf24l01_interface_spi_init H = do {
     msg \<leftarrow> spiStart H;
     if msg \<noteq> HAL_RET_SUCCESS then ret 1 else ret 0 }"

definition nrf24l01_interface_gpio_init :: "'e hal \<Rightarrow> ('e nrf_state, u8) state" where
  "nrf24l01_interface_gpio_init H = ret 0"

definition nrf24l01_interface_spi_deinit :: "'e hal \<Rightarrow> ('e nrf_state, u8) state" where
  "nrf24l01_interface_spi_deinit H = ret 0"

text \<open>\<open>memcpy\<close> of the received bytes into the caller's region.\<close>

definition copy_out :: "u8 list \<Rightarrow> u8 list \<Rightarrow> ('e nrf_state, cptr) state" where
  "copy_out bs b =
     (if length bs \<le> length b then ret (Some (mem_write 0 bs b)) else ub (Some b))"

definition nrf24l01_interface_spi_read ::
  "'e hal \<Rightarrow> u8 \<Rightarrow> cptr \<Rightarrow> u16 \<Rightarrow> ('e nrf_state, u8 \<times> cptr) state" where
  "nrf24l01_interface_spi_read H reg buf len =
     (case buf of
        None \<Rightarrow> ret (1, buf)
      | Some b \<Rightarrow>
          if len = 0 \<or> unat len + 1 > SPI_BUFFER_SIZE then ret (1, buf)
          else do {
            let spi_tx_buffer = (replicate SPI_BUFFER_SIZE 0)[0 := reg];
            let spi_rx_buffer = replicate SPI_BUFFER_SIZE 0;
            spiAcquireBus H;
            spiSelect H;
            (msg, spi_rx_buffer) \<leftarrow> spiExchange H (unat len + 1) spi_tx_buffer spi_rx_buffer;
            spiUnselect H;
            spiReleaseBus H;
            buf \<leftarrow> copy_out (take (unat len) (drop 1 spi_rx_buffer)) b;
            if msg = HAL_RET_SUCCESS then ret (0, buf) else ret (1, buf) })"

definition nrf24l01_interface_spi_write ::
  "'e hal \<Rightarrow> u8 \<Rightarrow> cptr \<Rightarrow> u16 \<Rightarrow> ('e nrf_state, u8) state" where
  "nrf24l01_interface_spi_write H reg buf len =
     (if unat len \<ge> SPI_BUFFER_SIZE then ret 1
      else do {
        let spi_tx_buffer = (replicate SPI_BUFFER_SIZE 0)[0 := reg];
        spi_tx_buffer \<leftarrow>
          (case buf of
             None \<Rightarrow> ret spi_tx_buffer
           | Some b \<Rightarrow>
               if len > 0 then
                 if unat len \<le> length b then ret (mem_write 1 (take (unat len) b) spi_tx_buffer)
                 else ub spi_tx_buffer
               else ret spi_tx_buffer);
        spiAcquireBus H;
        spiSelect H;
        msg \<leftarrow> spiSend H (unat len + 1) spi_tx_buffer;
        spiUnselect H;
        spiReleaseBus H;
        if msg = HAL_RET_SUCCESS then ret 0 else ret 1 })"

definition nrf24l01_interface_gpio_deinit :: "'e hal \<Rightarrow> ('e nrf_state, u8) state" where
  "nrf24l01_interface_gpio_deinit H = ret 0"

definition nrf24l01_interface_gpio_write :: "'e hal \<Rightarrow> u8 \<Rightarrow> ('e nrf_state, u8) state" where
  "nrf24l01_interface_gpio_write H data = do {
     (if data \<noteq> 0 then palSetLine_CE H else palClearLine_CE H);
     ret 0 }"

definition nrf24l01_interface_delay_ms :: "'e hal \<Rightarrow> u32 \<Rightarrow> ('e nrf_state, unit) state" where
  "nrf24l01_interface_delay_ms H ms = chThdSleepMilliseconds H ms"

definition nrf24l01_interface_receive_callback ::
  "u8 \<Rightarrow> u8 \<Rightarrow> cptr \<Rightarrow> u8 \<Rightarrow> ('e nrf_state, unit) state" where
  "nrf24l01_interface_receive_callback type num buf len =
     (if buf = None then ret () else if len = 0 then ret () else ret ())"

definition nrf24l01_interface_debug_print ::
  "'e hal \<Rightarrow> string \<Rightarrow> u8 list \<Rightarrow> ('e nrf_state, unit) state" where
  "nrf24l01_interface_debug_print H fmt args = chvprintf H fmt args"

text \<open>The handle as the \<open>DRIVER_NRF24L01_LINK\<close> macros fill it in \<open>nrf24l01_basic_init\<close>.\<close>

definition link_handle :: "'e hal \<Rightarrow> (u8 \<Rightarrow> u8 \<Rightarrow> cptr \<Rightarrow> u8 \<Rightarrow> ('e nrf_state, unit) state) option \<Rightarrow>
    'e nrf24l01_handle" where
  "link_handle H callback =
     \<lparr>gpio_init = Some (nrf24l01_interface_gpio_init H),
      gpio_deinit = Some (nrf24l01_interface_gpio_deinit H),
      gpio_write = Some (nrf24l01_interface_gpio_write H),
      spi_init = Some (nrf24l01_interface_spi_init H),
      spi_deinit = Some (nrf24l01_interface_spi_deinit H),
      spi_read = Some (nrf24l01_interface_spi_read H),
      spi_write = Some (nrf24l01_interface_spi_write H),
      delay_ms = Some (nrf24l01_interface_delay_ms H),
      debug_print = Some (nrf24l01_interface_debug_print H),
      receive_callback = callback\<rparr>"

subsection \<open>Bus transfers\<close>

text \<open>The transmit buffer after \<open>memset\<close> and the store of the command byte.\<close>

lemma spi_buffer [simp]: "(replicate 34 0)[0 := c] = (c :: u8) # replicate 33 0"
  using replicate_Suc [of 33 "0 :: u8"] by simp

text \<open>A bus transfer: \<open>op\<close> between taking and releasing the bus.\<close>

definition spi_transfer :: "'e hal \<Rightarrow> ('e nrf_state, 'a) state \<Rightarrow> ('e nrf_state, 'a) state" where
  "spi_transfer H op = do {
     spiAcquireBus H; spiSelect H; x \<leftarrow> op; spiUnselect H; spiReleaseBus H; ret x }"

lemma interface_spi_read_alt:
  assumes "0 < unat len" and "unat len \<le> 33"
  shows "nrf24l01_interface_spi_read H c (Some b) len = do {
    (msg, rx) \<leftarrow> spi_transfer H (spiExchange H (unat len + 1) (c # replicate 33 0) (replicate 34 0));
    buf \<leftarrow> copy_out (take (unat len) (drop 1 rx)) b;
    if msg = 0 then ret (0, buf) else ret (1, buf) }"
proof -
  have "len \<noteq> 0" using assms(1) by auto
  with assms(2) show ?thesis
    by (simp add: nrf24l01_interface_spi_read_def spi_transfer_def SPI_BUFFER_SIZE_def Let_def case_prod_unfold)
qed

lemma interface_spi_write_alt:
  assumes "unat len \<le> 33" and "unat len \<le> length b"
  shows "nrf24l01_interface_spi_write H c (Some b) len = do {
    msg \<leftarrow> spi_transfer H (spiSend H (unat len + 1) (c # take (unat len) b @ replicate (33 - unat len) 0));
    if msg = 0 then ret 0 else ret 1 }"
proof -
  have "len = 0 \<or> 0 < len" using word_neq_0_conv by blast
  with assms show ?thesis
    by (auto simp: nrf24l01_interface_spi_write_def spi_transfer_def SPI_BUFFER_SIZE_def Let_def mem_write_def)
qed

lemma interface_spi_command_alt:
  "nrf24l01_interface_spi_write H c None 0 = do {
    msg \<leftarrow> spi_transfer H (spiSend H 1 (c # replicate 33 0));
    if msg = 0 then ret 0 else ret 1 }"
  by (simp add: nrf24l01_interface_spi_write_def spi_transfer_def SPI_BUFFER_SIZE_def Let_def)

lemma interface_spi_read_steps:
  assumes run: "run_state (nrf24l01_interface_spi_read H c (Some b) len) s = ((res, b'), s')"
    and len: "0 < unat len" "unat len \<le> 33"
  obtains m rx t where
    "run_state (spi_transfer H
       (spiExchange H (unat len + 1) (c # replicate 33 0) (replicate 34 0))) s = ((m, rx), t)"
    "res = (if m = 0 then 0 else 1)"
    "unat len \<le> length b \<Longrightarrow> length rx = 34 \<Longrightarrow>
       b' = Some (take (unat len) (drop 1 rx) @ drop (unat len) b) \<and> s' = t"
proof -
  obtain m rx t where x: "run_state (spi_transfer H
      (spiExchange H (unat len + 1) (c # replicate 33 0) (replicate 34 0))) s = ((m, rx), t)"
    by (metis prod.exhaust)
  have split: "run_state (do { buf \<leftarrow> copy_out (take (unat len) (drop 1 rx)) b;
      if m = 0 then ret (0, buf) else ret (1, buf) }) t = ((res, b'), s')"
    using run x by (simp add: interface_spi_read_alt [OF len])
  show thesis
  proof (rule that [OF x])
    show "res = (if m = 0 then 0 else 1)"
      using split by (auto split: prod.splits if_splits)
    assume "unat len \<le> length b" and "length rx = 34"
    with split show "b' = Some (take (unat len) (drop 1 rx) @ drop (unat len) b) \<and> s' = t"
      using len by (auto simp: copy_out_def min_def split: if_splits)
  qed
qed

lemma interface_spi_write_steps:
  assumes run: "run_state (nrf24l01_interface_spi_write H c buf len) s = (res, s')"
    and len: "unat len \<le> 33"
    and buf: "buf = Some b \<and> unat len \<le> length b \<or> buf = None \<and> len = 0 \<and> b = []"
  obtains m tx where
    "run_state (spi_transfer H (spiSend H (unat len + 1) tx)) s = (m, s')"
    "res = (if m = 0 then 0 else 1)"
    "tx ! 0 = c" "length tx = 34" "take (unat len) (drop 1 tx) = take (unat len) b"
proof -
  let ?tx = "c # take (unat len) b @ replicate (33 - unat len) 0"
  have tx: "?tx ! 0 = c" "length ?tx = 34" "take (unat len) (drop 1 ?tx) = take (unat len) b"
    using len buf by (auto simp: min_def)
  obtain m t where x: "run_state (spi_transfer H (spiSend H (unat len + 1) ?tx)) s = (m, t)"
    by (metis prod.exhaust)
  have "nrf24l01_interface_spi_write H c buf len = do {
      msg \<leftarrow> spi_transfer H (spiSend H (unat len + 1) ?tx); if msg = 0 then ret 0 else ret 1 }"
    using buf interface_spi_write_alt [OF len] interface_spi_command_alt by auto
  with run x have "res = (if m = 0 then 0 else 1)" "s' = t" by (simp_all split: if_splits)
  with x that [OF _ _ tx] show thesis by metis
qed

end
