(* ===== verification/Nrf24_Chip.thy ===== *)
theory Nrf24_Chip
  imports Nrf24_Interface
begin

text \<open>
  The locale \<open>nrf_chip\<close>: what the HAL and the chip promise about single bus transfers. A
  successful transfer that starts with a register write command stores the bytes that follow;
  one that starts with a register number returns the bytes of that register after the status
  byte; payload commands append to the transmit history; everything else leaves the observed
  registers alone. No promise is made about failed writes, about \<open>finished\<close>, or that transfers
  succeed. While one call of the driver runs, no other thread reconfigures the chip.

  The sublocale at the end shows that the interface functions, linked into a handle over such
  a HAL, satisfy the bus contract \<open>nrf_bus\<close> of the driver.
\<close>

locale nrf_chip =
  fixes H :: "'e hal"
    and cfg :: "'e \<Rightarrow> u8 \<Rightarrow> u8 list"
    and loaded :: "'e \<Rightarrow> (u8 \<times> u8 list) list"
  assumes chip_width: "r \<in> cfg_regs \<Longrightarrow> length (cfg e r) = reg_width r"
    and chip_legal: "r \<in> cfg_regs \<Longrightarrow> legal r (cfg e r)"
    and start_frame: "run_state (spiStart H) s = (m, s') \<Longrightarrow> same_obs cfg loaded s s'"
    and acquire_frame: "run_state (spiAcquireBus H) s = (u, s') \<Longrightarrow> same_obs cfg loaded s s'"
    and select_frame: "run_state (spiSelect H) s = (u, s') \<Longrightarrow> same_obs cfg loaded s s'"
    and unselect_frame: "run_state (spiUnselect H) s = (u, s') \<Longrightarrow> same_obs cfg loaded s s'"
    and release_frame: "run_state (spiReleaseBus H) s = (u, s') \<Longrightarrow> same_obs cfg loaded s s'"
    and ce_set_frame: "run_state (palSetLine_CE H) s = (u, s') \<Longrightarrow> same_obs cfg loaded s s'"
    and ce_clear_frame: "run_state (palClearLine_CE H) s = (u, s') \<Longrightarrow> same_obs cfg loaded s s'"
    and sleep_frame: "run_state (chThdSleepMilliseconds H ms) s = (u, s') \<Longrightarrow>
      same_obs cfg loaded s s'"
    and printf_frame: "run_state (chvprintf H fmt args) s = (u, s') \<Longrightarrow> same_obs cfg loaded s s'"
    and exchange_frame: "run_state (spiExchange H n tx rx) s = ((m, rx'), s') \<Longrightarrow>
      0 < n \<Longrightarrow> n \<le> length tx \<Longrightarrow> n \<le> length rx \<Longrightarrow>
      tx ! 0 < 0x20 \<or> tx ! 0 = 0x60 \<or> tx ! 0 = 0x61 \<Longrightarrow>
      same_obs cfg loaded s s' \<and> length rx' = length rx"
    and exchange_value: "run_state (spiExchange H n tx rx) s = ((0, rx'), s') \<Longrightarrow>
      1 < n \<Longrightarrow> n \<le> length tx \<Longrightarrow> n \<le> length rx \<Longrightarrow> tx ! 0 \<in> cfg_regs \<Longrightarrow>
      n - 1 \<le> reg_width (tx ! 0) \<Longrightarrow>
      take (n - 1) (drop 1 rx') = take (n - 1) (cfg (env s) (tx ! 0))"
    and send_frame: "run_state (spiSend H n tx) s = (m, s') \<Longrightarrow> 0 < n \<Longrightarrow> n \<le> length tx \<Longrightarrow>
      inited s' = inited s \<and> fault s' = fault s"
    and send_register: "run_state (spiSend H n tx) s = (0, s') \<Longrightarrow> 1 < n \<Longrightarrow> n \<le> length tx \<Longrightarrow>
      tx ! 0 = 0x20 OR r \<Longrightarrow> r \<in> cfg_regs \<Longrightarrow> n - 1 \<le> reg_width r \<Longrightarrow>
      legal r (take (n - 1) (drop 1 tx)) \<Longrightarrow>
      reg_written cfg loaded r (take (n - 1) (drop 1 tx) @ drop (n - 1) (cfg (env s) r)) s s'"
    and send_payload: "run_state (spiSend H n tx) s = (0, s') \<Longrightarrow> 0 < n \<Longrightarrow> n \<le> length tx \<Longrightarrow>
      tx ! 0 \<in> payload_cmds \<Longrightarrow> n \<le> 33 \<Longrightarrow>
      cfg (env s') = cfg (env s) \<and>
      loaded (env s') = loaded (env s) @ [(tx ! 0, take (n - 1) (drop 1 tx))]"
    and send_status: "run_state (spiSend H 2 tx) s = (m, s') \<Longrightarrow> 2 \<le> length tx \<Longrightarrow>
      tx ! 0 = 0x27 \<Longrightarrow> same_obs cfg loaded s s'"
    and send_command: "run_state (spiSend H 1 tx) s = (m, s') \<Longrightarrow> 1 \<le> length tx \<Longrightarrow>
      tx ! 0 = 0xE1 \<or> tx ! 0 = 0xE2 \<or> tx ! 0 = 0xE3 \<or> tx ! 0 = 0xFF \<Longrightarrow>
      same_obs cfg loaded s s'"
begin

lemma transfer_run:
  assumes "run_state (spi_transfer H op) s = (x, s')"
  obtains s1 s2 where "same_obs cfg loaded s s1" "run_state op s1 = (x, s2)"
    "same_obs cfg loaded s2 s'"
proof -
  obtain u1 t1 where a: "run_state (spiAcquireBus H) s = (u1, t1)" by (metis prod.exhaust)
  obtain u2 s1 where b: "run_state (spiSelect H) t1 = (u2, s1)" by (metis prod.exhaust)
  obtain y s2 where c: "run_state op s1 = (y, s2)" by (metis prod.exhaust)
  obtain u3 t3 where d: "run_state (spiUnselect H) s2 = (u3, t3)" by (metis prod.exhaust)
  obtain u4 t4 where e: "run_state (spiReleaseBus H) t3 = (u4, t4)" by (metis prod.exhaust)
  have "x = y" "s' = t4" using assms a b c d e by (simp_all add: spi_transfer_def)
  with c same_obs_trans [OF acquire_frame [OF a] select_frame [OF b]]
    same_obs_trans [OF unselect_frame [OF d] release_frame [OF e]]
  show thesis by (intro that [of s1 s2]) simp_all
qed

lemma interface_spi_read_run:
  assumes run: "run_state (nrf24l01_interface_spi_read H c (Some b) len) s = ((res, b'), s')"
    and len: "0 < unat len" "unat len \<le> 33"
  obtains s1 m rx s2 where
    "same_obs cfg loaded s s1"
    "run_state (spiExchange H (unat len + 1) (c # replicate 33 0) (replicate 34 0)) s1 = ((m, rx), s2)"
    "res = (if m = 0 then 0 else 1)"
    "unat len \<le> length b \<Longrightarrow> length rx = 34 \<Longrightarrow>
       b' = Some (take (unat len) (drop 1 rx) @ drop (unat len) b) \<and> same_obs cfg loaded s2 s'"
  by (rule interface_spi_read_steps [OF run len], erule transfer_run) (auto intro: that)

lemma interface_spi_write_run:
  assumes run: "run_state (nrf24l01_interface_spi_write H c buf len) s = (res, s')"
    and len: "unat len \<le> 33"
    and buf: "buf = Some b \<and> unat len \<le> length b \<or> buf = None \<and> len = 0 \<and> b = []"
  obtains s1 m tx s2 where
    "same_obs cfg loaded s s1" "tx ! 0 = c" "length tx = 34"
    "take (unat len) (drop 1 tx) = take (unat len) b"
    "run_state (spiSend H (unat len + 1) tx) s1 = (m, s2)"
    "res = (if m = 0 then 0 else 1)" "same_obs cfg loaded s2 s'"
  by (rule interface_spi_write_steps [OF run len buf], erule transfer_run) (auto intro: that)

end

lemma call_linked [simp]:
  "call_spi_read (link_handle H cb) = nrf24l01_interface_spi_read H"
  "call_spi_write (link_handle H cb) = nrf24l01_interface_spi_write H"
  "call_gpio_write (link_handle H cb) = nrf24l01_interface_gpio_write H"
  "call_delay_ms (link_handle H cb) = chThdSleepMilliseconds H"
  "call_debug_print (link_handle H cb) = chvprintf H"
  "call_gpio_init (link_handle H cb) = ret 0"
  "call_gpio_deinit (link_handle H cb) = ret 0"
  "call_spi_init (link_handle H cb) = nrf24l01_interface_spi_init H"
  "call_spi_deinit (link_handle H cb) = ret 0"
  by (simp_all add: fun_eq_iff link_handle_def call_spi_read_def call_spi_write_def call_gpio_write_def
      call_delay_ms_def call_debug_print_def nrf24l01_interface_delay_ms_def
      nrf24l01_interface_debug_print_def call_gpio_init_def call_gpio_deinit_def call_spi_init_def
      call_spi_deinit_def nrf24l01_interface_gpio_init_def nrf24l01_interface_gpio_deinit_def
      nrf24l01_interface_spi_deinit_def)

subsection \<open>The interface satisfies the bus contract\<close>

context nrf_chip
begin

lemma interface_read_frame:
  assumes run: "run_state (nrf24l01_interface_spi_read H c (Some b) len) s = ((res, b'), s')"
    and c: "c < 0x20 \<or> c = 0x60 \<or> c = 0x61" and len: "unat len \<le> length b \<or> unat len > 33"
  shows "same_obs cfg loaded s s' \<and> (\<exists>b2. b' = Some b2 \<and> length b2 = length b)"
proof (cases "0 < unat len \<and> unat len \<le> 33")
  case False
  then have "len = 0 \<or> 33 < unat len" by (auto simp: unat_eq_zero not_le)
  then have "b' = Some b \<and> s' = s"
    using run by (simp add: nrf24l01_interface_spi_read_def SPI_BUFFER_SIZE_def split: if_splits)
  then show ?thesis by simp
next
  case True
  then obtain s1 m rx s2 where 1: "same_obs cfg loaded s s1"
    and x: "run_state (spiExchange H (unat len + 1) (c # replicate 33 0) (replicate 34 0)) s1 = ((m, rx), s2)"
    and 2: "unat len \<le> length b \<Longrightarrow> length rx = 34 \<Longrightarrow>
       b' = Some (take (unat len) (drop 1 rx) @ drop (unat len) b) \<and> same_obs cfg loaded s2 s'"
    using interface_spi_read_run [OF run] by metis
  have "same_obs cfg loaded s1 s2 \<and> length rx = 34"
    using exchange_frame [OF x] True c by simp
  then show ?thesis using 1 2 len True by (auto intro: same_obs_trans)
qed

lemma interface_read_value:
  assumes run: "run_state (nrf24l01_interface_spi_read H r (Some b) len) s = ((0, b'), s')"
    and r: "r \<in> cfg_regs" and len: "0 < unat len" "unat len \<le> reg_width r" "unat len \<le> length b"
  shows "b' = Some (take (unat len) (cfg (env s) r) @ drop (unat len) b)"
proof -
  have l5: "unat len \<le> 33" using len(2) by (simp add: reg_width_def split: if_splits)
  obtain s1 m rx s2 where 1: "same_obs cfg loaded s s1"
    and x: "run_state (spiExchange H (unat len + 1) (r # replicate 33 0) (replicate 34 0)) s1 = ((m, rx), s2)"
    and m: "0 = (if m = 0 then 0 else 1 :: u8)"
    and 2: "unat len \<le> length b \<Longrightarrow> length rx = 34 \<Longrightarrow>
       b' = Some (take (unat len) (drop 1 rx) @ drop (unat len) b) \<and> same_obs cfg loaded s2 s'"
    using interface_spi_read_run [OF run len(1) l5] by metis
  have m0: "m = 0" using m by (simp split: if_splits)
  have "length rx = 34" using exchange_frame [OF x] cfg_regs_small [OF r] l5 by simp
  moreover have "take (unat len) (drop 1 rx) = take (unat len) (cfg (env s) r)"
    using exchange_value [OF x [unfolded m0]] r len l5 1 by (simp add: same_obs_def)
  ultimately show ?thesis using 2 len by simp
qed

lemma interface_write_frame:
  assumes run: "run_state (nrf24l01_interface_spi_write H c (Some b) len) s = (res, s')"
    and len: "unat len \<le> length b"
  shows "inited s' = inited s \<and> fault s' = fault s"
proof (cases "unat len \<le> 33")
  case False
  then show ?thesis using run by (simp add: nrf24l01_interface_spi_write_def SPI_BUFFER_SIZE_def)
next
  case True
  obtain s1 m tx s2 where 1: "same_obs cfg loaded s s1" "length tx = 34"
    and x: "run_state (spiSend H (unat len + 1) tx) s1 = (m, s2)" "same_obs cfg loaded s2 s'"
    using interface_spi_write_run [OF run True] len by metis
  with send_frame [OF x(1)] True show ?thesis by (simp add: same_obs_def)
qed

lemma interface_write_reg:
  assumes run: "run_state (nrf24l01_interface_spi_write H (0x20 OR r) (Some b) len) s = (0, s')"
    and r: "r \<in> cfg_regs" and len: "0 < unat len" "unat len \<le> reg_width r" "unat len \<le> length b"
    and legal: "legal r (take (unat len) b)"
  shows "reg_written cfg loaded r (take (unat len) b @ drop (unat len) (cfg (env s) r)) s s'"
proof -
  have l5: "unat len \<le> 33" using len(2) by (simp add: reg_width_def split: if_splits)
  obtain s1 m tx s2 where 1: "same_obs cfg loaded s s1" "tx ! 0 = 0x20 OR r" "length tx = 34"
      "take (unat len) (drop 1 tx) = take (unat len) b"
    and x: "run_state (spiSend H (unat len + 1) tx) s1 = (m, s2)"
    and m: "0 = (if m = 0 then 0 else 1 :: u8)" and 2: "same_obs cfg loaded s2 s'"
    using interface_spi_write_run [OF run l5] len by metis
  have m0: "m = 0" using m by (simp split: if_splits)
  have "reg_written cfg loaded r (take (unat len) b @ drop (unat len) (cfg (env s1) r)) s1 s2"
    using send_register [OF x [unfolded m0], of r] 1 r len l5 legal by simp
  with 1(1) 2 show ?thesis by (simp add: same_obs_def reg_written_def)
qed

lemma interface_write_payload:
  assumes run: "run_state (nrf24l01_interface_spi_write H c (Some b) len) s = (0, s')"
    and c: "c \<in> payload_cmds" and len: "unat len \<le> 32" "unat len \<le> length b"
  shows "cfg (env s') = cfg (env s) \<and> loaded (env s') = loaded (env s) @ [(c, take (unat len) b)]"
proof -
  have l5: "unat len \<le> 33" using len(1) by simp
  obtain s1 m tx s2 where 1: "same_obs cfg loaded s s1" "tx ! 0 = c" "length tx = 34"
      "take (unat len) (drop 1 tx) = take (unat len) b"
    and x: "run_state (spiSend H (unat len + 1) tx) s1 = (m, s2)"
    and m: "0 = (if m = 0 then 0 else 1 :: u8)" and 2: "same_obs cfg loaded s2 s'"
    using interface_spi_write_run [OF run l5] len by metis
  have m0: "m = 0" using m by (simp split: if_splits)
  show ?thesis
    using send_payload [OF x [unfolded m0]] 1 2 c len by (simp add: same_obs_def)
qed

lemma interface_write_status:
  assumes run: "run_state (nrf24l01_interface_spi_write H 0x27 (Some [v]) 1) s = (res, s')"
  shows "same_obs cfg loaded s s'"
proof -
  obtain s1 m tx s2 where 1: "same_obs cfg loaded s s1" "tx ! 0 = 0x27" "length tx = 34"
    and x: "run_state (spiSend H 2 tx) s1 = (m, s2)" and 2: "same_obs cfg loaded s2 s'"
    by (rule interface_spi_write_run [OF run, of "[v]"]) (simp_all add: numeral_2_eq_2)
  with send_status [OF x] show ?thesis by (auto intro: same_obs_trans)
qed

lemma interface_write_command:
  assumes run: "run_state (nrf24l01_interface_spi_write H c None 0) s = (res, s')"
    and c: "c = 0xE1 \<or> c = 0xE2 \<or> c = 0xE3 \<or> c = 0xFF"
  shows "same_obs cfg loaded s s'"
proof -
  obtain s1 m tx s2 where 1: "same_obs cfg loaded s s1" "tx ! 0 = c" "length tx = 34"
    and x: "run_state (spiSend H 1 tx) s1 = (m, s2)" and 2: "same_obs cfg loaded s2 s'"
    by (rule interface_spi_write_run [OF run, of "[]"]) simp_all
  with send_command [OF x] c show ?thesis by (auto intro: same_obs_trans)
qed

lemma interface_bus: "nrf_bus (link_handle H cb) cfg loaded"
proof (unfold_locales, unfold call_linked)
  fix c b len s res b' s'
  assume "run_state (nrf24l01_interface_spi_read H c (Some b) len) s = ((res, b'), s')" "33 < unat len"
  then show "res \<noteq> 0" by (simp add: nrf24l01_interface_spi_read_def SPI_BUFFER_SIZE_def split: if_splits)
next
  fix v s res s'
  assume "run_state (nrf24l01_interface_gpio_write H v) s = (res, s')"
  then show "same_obs cfg loaded s s'"
    by (auto simp: nrf24l01_interface_gpio_write_def dest: ce_set_frame ce_clear_frame split: if_splits prod.splits)
qed (fact chip_width chip_legal interface_read_frame interface_read_value interface_write_frame
    interface_write_reg interface_write_payload interface_write_status interface_write_command
    sleep_frame printf_frame)+
end
sublocale nrf_chip \<subseteq> bus: nrf_bus "link_handle H cb" cfg loaded for cb
  by (rule interface_bus)

end
