(* ===== verification/Nrf24_Irq.thy ===== *)
theory Nrf24_Irq
  imports Nrf24_Chip
begin

text \<open>
  The interrupt handler of the driver over the linked interface. The locale \<open>nrf_irq_chip\<close>
  extends \<open>nrf_chip\<close> with what the handler can observe: the chip enable line, the STATUS
  register with its write-one-to-clear flags, the receive FIFO, and the calls of the receive
  callback, which is taken to be one that records its calls. While the handler runs, no other
  thread writes \<open>finished\<close> or drives the chip enable line.
\<close>

text \<open>Nothing the handler observes changes.\<close>

definition quiet :: "('e \<Rightarrow> bool) \<Rightarrow> ('e \<Rightarrow> u8) \<Rightarrow> ('e \<Rightarrow> u8 list list) \<Rightarrow>
    ('e \<Rightarrow> (u8 \<times> u8 \<times> cptr \<times> u8) list) \<Rightarrow> 'e nrf_state \<Rightarrow> 'e nrf_state \<Rightarrow> bool" where
  "quiet ce status rx calls s s' \<longleftrightarrow>
     finished s' = finished s \<and> ce (env s') = ce (env s) \<and> status (env s') = status (env s) \<and>
     rx (env s') = rx (env s) \<and> calls (env s') = calls (env s)"

lemma quiet_refl [simp]: "quiet ce status rx calls s s"
  by (simp add: quiet_def)

lemma quiet_trans [trans]:
  "quiet ce status rx calls s t \<Longrightarrow> quiet ce status rx calls t u \<Longrightarrow> quiet ce status rx calls s u"
  by (simp add: quiet_def)

locale nrf_irq_chip = nrf_chip H cfg loaded
  for H :: "'e hal" and cfg :: "'e \<Rightarrow> u8 \<Rightarrow> u8 list" and loaded :: "'e \<Rightarrow> (u8 \<times> u8 list) list" +
  fixes ce :: "'e \<Rightarrow> bool"
    and status :: "'e \<Rightarrow> u8"
    and rx :: "'e \<Rightarrow> u8 list list"
    and calls :: "'e \<Rightarrow> (u8 \<times> u8 \<times> cptr \<times> u8) list"
    and cb :: "u8 \<Rightarrow> u8 \<Rightarrow> cptr \<Rightarrow> u8 \<Rightarrow> ('e nrf_state, unit) state"
  assumes acquire_quiet: "run_state (spiAcquireBus H) s = (u, s') \<Longrightarrow> quiet ce status rx calls s s'"
    and select_quiet: "run_state (spiSelect H) s = (u, s') \<Longrightarrow> quiet ce status rx calls s s'"
    and unselect_quiet: "run_state (spiUnselect H) s = (u, s') \<Longrightarrow> quiet ce status rx calls s s'"
    and release_quiet: "run_state (spiReleaseBus H) s = (u, s') \<Longrightarrow> quiet ce status rx calls s s'"
    and printf_quiet: "run_state (chvprintf H fmt args) s = (u, s') \<Longrightarrow> quiet ce status rx calls s s'"
    and ce_set: "run_state (palSetLine_CE H) s = (u, s') \<Longrightarrow>
      finished s' = finished s \<and> ce (env s') \<and> status (env s') = status (env s) \<and>
      rx (env s') = rx (env s) \<and> calls (env s') = calls (env s)"
    and ce_clear: "run_state (palClearLine_CE H) s = (u, s') \<Longrightarrow>
      finished s' = finished s \<and> \<not> ce (env s') \<and> status (env s') = status (env s) \<and>
      rx (env s') = rx (env s) \<and> calls (env s') = calls (env s)"
    and exchange_keeps: "run_state (spiExchange H n tx b) s = ((m, b'), s') \<Longrightarrow>
      finished s' = finished s \<and> ce (env s') = ce (env s) \<and> calls (env s') = calls (env s)"
    and exchange_quiet: "run_state (spiExchange H n tx b) s = ((m, b'), s') \<Longrightarrow> tx ! 0 \<noteq> 0x61 \<Longrightarrow>
      quiet ce status rx calls s s'"
    and exchange_status: "run_state (spiExchange H 2 tx b) s = ((0, b'), s') \<Longrightarrow>
      2 \<le> length tx \<Longrightarrow> 2 \<le> length b \<Longrightarrow> tx ! 0 = 0x07 \<Longrightarrow> b' ! 1 = status (env s)"
    and exchange_width: "run_state (spiExchange H 2 tx b) s = ((0, b'), s') \<Longrightarrow>
      2 \<le> length tx \<Longrightarrow> 2 \<le> length b \<Longrightarrow> tx ! 0 = 0x60 \<Longrightarrow> rx (env s) = p # ps \<Longrightarrow>
      b' ! 1 = of_nat (length p)"
    and exchange_payload: "run_state (spiExchange H (length p + 1) tx b) s = ((0, b'), s') \<Longrightarrow>
      length p < length tx \<Longrightarrow> length p < length b \<Longrightarrow> tx ! 0 = 0x61 \<Longrightarrow> rx (env s) = p # ps \<Longrightarrow>
      take (length p) (drop 1 b') = p \<and> rx (env s') = ps"
    and send_keeps: "run_state (spiSend H n tx) s = (m, s') \<Longrightarrow>
      finished s' = finished s \<and> ce (env s') = ce (env s) \<and> calls (env s') = calls (env s)"
    and send_clears: "run_state (spiSend H 2 tx) s = (0, s') \<Longrightarrow> 2 \<le> length tx \<Longrightarrow> tx ! 0 = 0x27 \<Longrightarrow>
      status (env s') = status (env s) AND NOT (tx ! 1 AND 0x70) \<and> rx (env s') = rx (env s)"
    and send_flush: "run_state (spiSend H n tx) s = (m, s') \<Longrightarrow> tx ! 0 = 0xE1 \<Longrightarrow>
      rx (env s') = rx (env s)"
    and callback_frame: "run_state (cb t k buf len) s = (u, s') \<Longrightarrow>
      same_obs cfg loaded s s' \<and> finished s' = finished s \<and> ce (env s') = ce (env s) \<and>
      rx (env s') = rx (env s) \<and> calls (env s') = calls (env s) @ [(t, k, buf, len)]"
begin

abbreviation "dev \<equiv> link_handle H (Some cb)"

lemma transfer_quiet:
  assumes "run_state (spi_transfer H op) s = (x, s')"
  obtains s1 s2 where "same_obs cfg loaded s s1" "quiet ce status rx calls s s1" "run_state op s1 = (x, s2)"
    "same_obs cfg loaded s2 s'" "quiet ce status rx calls s2 s'"
proof -
  obtain u1 t1 where a: "run_state (spiAcquireBus H) s = (u1, t1)" by (metis prod.exhaust)
  obtain u2 s1 where b: "run_state (spiSelect H) t1 = (u2, s1)" by (metis prod.exhaust)
  obtain y s2 where c: "run_state op s1 = (y, s2)" by (metis prod.exhaust)
  obtain u3 t3 where d: "run_state (spiUnselect H) s2 = (u3, t3)" by (metis prod.exhaust)
  obtain u4 t4 where e: "run_state (spiReleaseBus H) t3 = (u4, t4)" by (metis prod.exhaust)
  have "x = y" "s' = t4" using assms a b c d e by (simp_all add: spi_transfer_def)
  with c same_obs_trans [OF acquire_frame [OF a] select_frame [OF b]]
    same_obs_trans [OF unselect_frame [OF d] release_frame [OF e]]
    quiet_trans [OF acquire_quiet [OF a] select_quiet [OF b]]
    quiet_trans [OF unselect_quiet [OF d] release_quiet [OF e]]
  show thesis by (intro that [of s1 s2]) simp_all
qed

lemma irq_read_run:
  assumes run: "run_state (nrf24l01_interface_spi_read H c (Some b) len) s = ((res, b'), s')"
    and c: "c < 0x20 \<or> c = 0x60 \<or> c = 0x61" and len: "0 < unat len" "unat len \<le> 33" "unat len \<le> length b"
  obtains s1 m r s2 where
    "quiet ce status rx calls s s1" "quiet ce status rx calls s2 s'" "res = (if m = 0 then 0 else 1)"
    "run_state (spiExchange H (unat len + 1) (c # replicate 33 0) (replicate 34 0)) s1 = ((m, r), s2)"
    "b' = Some (take (unat len) (drop 1 r) @ drop (unat len) b)" "length r = 34"
proof -
  obtain m r t where x: "run_state (spi_transfer H
       (spiExchange H (unat len + 1) (c # replicate 33 0) (replicate 34 0))) s = ((m, r), t)"
    and m: "res = (if m = 0 then 0 else 1)"
    and b: "unat len \<le> length b \<Longrightarrow> length r = 34 \<Longrightarrow>
       b' = Some (take (unat len) (drop 1 r) @ drop (unat len) b) \<and> s' = t"
    using interface_spi_read_steps [OF run len(1) len(2)] by metis
  obtain s1 s2 where q: "quiet ce status rx calls s s1" "quiet ce status rx calls s2 t"
    and e: "run_state (spiExchange H (unat len + 1) (c # replicate 33 0) (replicate 34 0)) s1 = ((m, r), s2)"
    using transfer_quiet [OF x] by metis
  have "length r = 34" using exchange_frame [OF e] c len by simp
  with b len q e m show thesis by (intro that [of s1 s2 m r]) simp_all
qed

lemma irq_read_keeps:
  assumes run: "run_state (nrf24l01_interface_spi_read H c (Some b) len) s = ((res, b'), s')"
    and c: "c < 0x20 \<or> c = 0x60 \<or> c = 0x61" and len: "unat len \<le> length b \<or> unat len > 33"
  shows "same_obs cfg loaded s s' \<and> finished s' = finished s \<and> ce (env s') = ce (env s) \<and>
    calls (env s') = calls (env s) \<and> (c \<noteq> 0x61 \<longrightarrow> quiet ce status rx calls s s') \<and> (\<exists>b2. b' = Some b2 \<and> length b2 = length b)"
proof (cases "0 < unat len \<and> unat len \<le> 33")
  case False
  then have "len = 0 \<or> 33 < unat len" by (auto simp: unat_eq_zero not_le)
  then have "b' = Some b \<and> s' = s"
    using run by (simp add: nrf24l01_interface_spi_read_def SPI_BUFFER_SIZE_def split: if_splits)
  then show ?thesis by simp
next
  case True
  then obtain s1 m r s2 where q: "quiet ce status rx calls s s1" "quiet ce status rx calls s2 s'"
    and e: "run_state (spiExchange H (unat len + 1) (c # replicate 33 0) (replicate 34 0)) s1 = ((m, r), s2)"
    using irq_read_run [OF run c] len by (metis not_le)
  show ?thesis
    using exchange_keeps [OF e] exchange_quiet [OF e] q interface_read_frame [OF run c len]
    by (auto simp: quiet_def)
qed

lemma irq_read_status:
  assumes run: "run_state (read_byte dev 0x07) s = ((res, v), s')"
  shows "same_obs cfg loaded s s' \<and> quiet ce status rx calls s s' \<and> (res = 0 \<or> res = 1) \<and>
    (res = 0 \<longrightarrow> v = status (env s))"
proof -
  obtain r0 b' where rd: "run_state (nrf24l01_interface_spi_read H 0x07 (Some [0]) 1) s = ((r0, b'), s')"
    and r0: "res = (if r0 = 0 then 0 else 1)" and v: "v = (case b' of Some (b # _) \<Rightarrow> b | _ \<Rightarrow> 0)"
    using run by (auto simp: read_byte_def a_nrf24l01_spi_read_def split: prod.splits if_splits)
  obtain s1 m r s2 where q: "quiet ce status rx calls s s1" and m: "r0 = (if m = 0 then 0 else 1)"
    and e: "run_state (spiExchange H 2 (0x07 # replicate 33 0) (replicate 34 0)) s1 = ((m, r), s2)"
    and b: "b' = Some (take 1 (drop 1 r))" "length r = 34"
    by (rule irq_read_run [OF rd]) (simp_all flip: numeral_2_eq_2)
  have "v = status (env s)" if "res = 0"
  proof -
    have "m = 0" using that r0 m by (simp split: if_splits)
    then have "r ! 1 = status (env s)"
      using exchange_status [OF e [unfolded \<open>m = 0\<close>]] q by (simp add: quiet_def)
    with b v show ?thesis by (cases "drop 1 r") (auto simp: nth_via_drop)
  qed
  with irq_read_keeps [OF rd] r0 show ?thesis by simp
qed

lemma irq_read_width:
  assumes run: "run_state (nrf24l01_interface_spi_read H 0x60 (Some [0]) 1) s = ((0, b'), s')"
    and rx: "rx (env s) = p # ps"
  shows "b' = Some [of_nat (length p)]"
proof -
  obtain s1 m r s2 where q: "quiet ce status rx calls s s1" and m: "0 = (if m = 0 then 0 else 1 :: u8)"
    and e: "run_state (spiExchange H 2 (0x60 # replicate 33 0) (replicate 34 0)) s1 = ((m, r), s2)"
    and b: "b' = Some (take 1 (drop 1 r))" "length r = 34"
    by (rule irq_read_run [OF run]) (simp_all flip: numeral_2_eq_2)
  have m0: "m = 0" using m by (simp split: if_splits)
  have "r ! 1 = of_nat (length p)"
    using exchange_width [OF e [unfolded m0]] q rx by (simp add: quiet_def)
  with b show ?thesis by (cases "drop 1 r") (auto simp: nth_via_drop)
qed

lemma irq_read_payload:
  assumes run: "run_state (nrf24l01_interface_spi_read H 0x61 (Some b) len) s = ((0, b'), s')"
    and rx: "rx (env s) = p # ps" and len: "unat len = length p" "length p \<le> length b"
  shows "b' = Some (p @ drop (length p) b) \<and> rx (env s') = ps"
proof -
  have pos: "0 < unat len" and le: "unat len \<le> 33"
    using run by (auto simp: nrf24l01_interface_spi_read_def SPI_BUFFER_SIZE_def unat_gt_0 split: if_splits)
  obtain s1 m r s2 where q: "quiet ce status rx calls s s1" "quiet ce status rx calls s2 s'"
    and m: "0 = (if m = 0 then 0 else 1 :: u8)"
    and e: "run_state (spiExchange H (unat len + 1) (0x61 # replicate 33 0) (replicate 34 0)) s1 = ((m, r), s2)"
    and b: "b' = Some (take (unat len) (drop 1 r) @ drop (unat len) b)" "length r = 34"
    by (rule irq_read_run [OF run _ pos le]) (use len in simp_all)
  have m0: "m = 0" using m by (simp split: if_splits)
  show ?thesis
    using exchange_payload [OF e [unfolded m0 len(1)]] q rx b le len by (simp add: quiet_def)
qed

lemma irq_write_status:
  assumes run: "run_state (write_byte dev 0x07 v) s = (res, s')"
  shows "same_obs cfg loaded s s' \<and> finished s' = finished s \<and> ce (env s') = ce (env s) \<and>
    calls (env s') = calls (env s) \<and>
    (res = 0 \<or> res = 1) \<and>
    (res = 0 \<longrightarrow> status (env s') = status (env s) AND NOT (v AND 0x70) \<and> rx (env s') = rx (env s))"
proof -
  obtain r0 where wr: "run_state (nrf24l01_interface_spi_write H 0x27 (Some [v]) 1) s = (r0, s')"
    and r0: "res = (if r0 = 0 then 0 else 1)"
    using run by (auto simp: write_byte_def a_nrf24l01_spi_write_def split: prod.splits if_splits)
  obtain m tx where t: "run_state (spi_transfer H (spiSend H 2 tx)) s = (m, s')"
    and m: "r0 = (if m = 0 then 0 else 1)" and tx: "tx ! 0 = 0x27" "length tx = 34" "take 1 (drop 1 tx) = [v]"
    by (rule interface_spi_write_steps [OF wr, of "[v]"]) (simp_all flip: numeral_2_eq_2)
  obtain s1 s2 where q: "quiet ce status rx calls s s1" "quiet ce status rx calls s2 s'"
    and e: "run_state (spiSend H 2 tx) s1 = (m, s2)"
    using transfer_quiet [OF t] by metis
  have v: "tx ! 1 = v" using tx(2,3) by (cases "drop 1 tx") (auto simp: nth_via_drop)
  have "status (env s2) = status (env s1) AND NOT (v AND 0x70) \<and> rx (env s2) = rx (env s1)" if "res = 0"
  proof -
    have "m = 0" using that r0 m by (simp split: if_splits)
    with send_clears [OF e [unfolded this]] tx v show ?thesis by simp
  qed
  with send_keeps [OF e] q r0 interface_write_status [OF wr] show ?thesis
    by (auto simp: quiet_def)
qed

lemma irq_command:
  assumes run: "run_state (nrf24l01_interface_spi_write H c None 0) s = (res, s')"
    and c: "c = 0xE1 \<or> c = 0xE2"
  shows "same_obs cfg loaded s s' \<and> finished s' = finished s \<and> ce (env s') = ce (env s) \<and>
    calls (env s') = calls (env s) \<and>
    (c = 0xE1 \<longrightarrow> rx (env s') = rx (env s))"
proof -
  obtain m tx where t: "run_state (spi_transfer H (spiSend H 1 tx)) s = (m, s')"
    and tx: "tx ! 0 = c"
    by (rule interface_spi_write_steps [OF run, of "[]"]) simp_all
  obtain s1 s2 where q: "quiet ce status rx calls s s1" "quiet ce status rx calls s2 s'"
    and e: "run_state (spiSend H 1 tx) s1 = (m, s2)"
    using transfer_quiet [OF t] by metis
  from send_keeps [OF e] send_flush [OF e] q tx interface_write_command [OF run] c show ?thesis
    by (auto simp: quiet_def)
qed

lemma irq_gpio:
  assumes run: "run_state (nrf24l01_interface_gpio_write H v) s = (res, s')"
  shows "res = 0 \<and> same_obs cfg loaded s s' \<and> finished s' = finished s \<and>
    ce (env s') = (v \<noteq> 0) \<and> status (env s') = status (env s) \<and> rx (env s') = rx (env s) \<and>
    calls (env s') = calls (env s)"
  using assms
  by (auto simp: nrf24l01_interface_gpio_write_def dest: ce_set_frame ce_clear_frame ce_set ce_clear
      split: if_splits prod.splits)

end

subsection \<open>The blocks of the handler\<close>

text \<open>The value of \<open>finished\<close> after a status byte: sent wins over retransmissions exhausted.\<close>

definition irq_outcome :: "u8 \<Rightarrow> u8 \<Rightarrow> u8" where
  "irq_outcome st f =
     (if drop_bit 5 st AND 1 \<noteq> 0 then 1 else if drop_bit 4 st AND 1 \<noteq> 0 then 2 else f)"

text \<open>
  The calls of the receive callback the handler makes for a status byte: transmit FIFO full,
  retransmissions exhausted, packet sent, packet received, in this order. A received payload
  \<open>p\<close> is delivered with its bytes reversed, in the driver's 33-byte buffer, with the pipe
  number of the status byte.
\<close>

definition irq_calls :: "u8 \<Rightarrow> u8 list \<Rightarrow> (u8 \<times> u8 \<times> cptr \<times> u8) list" where
  "irq_calls st p =
     (if st AND 1 \<noteq> 0 then [(0, 0, None, 0)] else []) @
     (if drop_bit 4 st AND 1 \<noteq> 0 then [(4, 0, None, 0)] else []) @
     (if drop_bit 5 st AND 1 \<noteq> 0 then [(5, 0, None, 0)] else []) @
     (if drop_bit 6 st AND 1 \<noteq> 0
      then [(6, drop_bit 1 st AND 7, Some (rev p @ replicate (33 - length p) 0), of_nat (length p))]
      else [])"

text \<open>The last part of the handler's receive block, once the width is known.\<close>

definition irq_rx_payload :: "'e nrf24l01_handle \<Rightarrow> u8 \<Rightarrow> u8 \<Rightarrow> ('e nrf_state, u8) state" where
  "irq_rx_payload h prev width = do {
     (res, buffer) \<leftarrow>
       call_spi_read h NRF24L01_COMMAND_R_RX_PAYLOAD (Some (replicate 33 0)) (ucast width);
     if res \<noteq> 0 then irq_fail h ''nrf24l01: get rx payload failed.''
     else do {
       buffer \<leftarrow> reverse_in_place buffer (unat width);
       call_receive_callback h NRF24L01_INTERRUPT_RX_DR (drop_bit 1 prev AND 0x7) buffer width;
       ret 0 } }"

definition irq_rx_flush :: "'e nrf24l01_handle \<Rightarrow> u8 \<Rightarrow> u8 \<Rightarrow> ('e nrf_state, u8) state" where
  "irq_rx_flush h prev width = do {
     res \<leftarrow> (if width > 32 then call_spi_write h NRF24L01_COMMAND_FLUSH_RX None 0 else ret 0);
     if res \<noteq> 0 then irq_fail h ''nrf24l01: flush rx failed.''
     else irq_rx_payload h prev width }"

lemma irq_rx_dr_alt:
  "irq_rx_dr h prev =
     (if drop_bit 6 prev AND 0x01 \<noteq> 0
      then do {
        (res, wbuf) \<leftarrow> call_spi_read h NRF24L01_COMMAND_R_RX_PL_WID (Some [0]) 1;
        if res \<noteq> 0 then irq_fail h ''nrf24l01: get payload width failed.''
        else irq_rx_flush h prev (case wbuf of Some (w # _) \<Rightarrow> w | _ \<Rightarrow> 0) }
      else ret 0)"
  by (simp only: irq_rx_dr_def irq_rx_flush_def irq_rx_payload_def Let_def)

context nrf_irq_chip
begin

lemma call_cb [simp]: "call_receive_callback dev ty k buf len = cb (of_nat (interrupt_val ty)) k buf len"
  by (simp add: call_receive_callback_def link_handle_def)

lemma irq_fail_spec:
  assumes run: "run_state (irq_fail dev msg) s = (r, s')"
  shows "r = 1 \<and> same_obs cfg loaded s s' \<and> finished s' = finished s \<and> ce (env s')"
proof -
  obtain u s1 where p: "run_state (chvprintf H msg []) s = (u, s1)" by (metis prod.exhaust)
  obtain r2 s2 where g: "run_state (nrf24l01_interface_gpio_write H 1) s1 = (r2, s2)" by (metis prod.exhaust)
  have "r = 1" "s' = s2" using run p g by (simp_all add: irq_fail_def)
  with printf_frame [OF p] printf_quiet [OF p] irq_gpio [OF g] show ?thesis
    by (auto simp: quiet_def intro: same_obs_trans)
qed

lemma irq_tx_full_spec:
  assumes run: "run_state (irq_tx_full dev st) s = (u, s')"
  shows "same_obs cfg loaded s s' \<and> finished s' = finished s \<and> rx (env s') = rx (env s) \<and>
    calls (env s') = calls (env s) @ (if st AND 1 \<noteq> 0 then [(0, 0, None, 0)] else [])"
  using run by (auto simp: irq_tx_full_def dest: callback_frame split: if_splits)

lemma irq_max_rt_spec:
  assumes run: "run_state (irq_max_rt dev st) s = (r, s')"
  shows "same_obs cfg loaded s s' \<and> (r = 0 \<or> r = 1) \<and> (r = 1 \<longrightarrow> ce (env s')) \<and>
    (r = 0 \<longrightarrow> rx (env s') = rx (env s) \<and>
       finished s' = (if drop_bit 4 st AND 1 \<noteq> 0 then 2 else finished s) \<and>
       calls (env s') = calls (env s) @ (if drop_bit 4 st AND 1 \<noteq> 0 then [(4, 0, None, 0)] else []))"
proof (cases "drop_bit 4 st AND 1 \<noteq> 0")
  case False
  with run show ?thesis by (simp add: irq_max_rt_def)
next
  case True
  obtain r1 s1 where c: "run_state (nrf24l01_interface_spi_write H 0xE1 None 0) s = (r1, s1)"
    by (metis prod.exhaust)
  note cmd = irq_command [OF c]
  show ?thesis
  proof (cases "r1 = 0")
    case False
    with run c True have "run_state (irq_fail dev ''nrf24l01: flush tx failed.'') s1 = (r, s')"
      by (simp add: irq_max_rt_def)
    with irq_fail_spec [OF this] cmd show ?thesis by (auto intro: same_obs_trans)
  next
    case z: True
    obtain u s2 where k: "run_state (cb 4 0 None 0) (s1\<lparr>finished := 2\<rparr>) = (u, s2)" by (metis prod.exhaust)
    have "r = 0" "s' = s2" using run c k True z by (simp_all add: irq_max_rt_def)
    with callback_frame [OF k] cmd True show ?thesis by (auto simp: same_obs_def)
  qed
qed

lemma irq_tx_ds_spec:
  assumes run: "run_state (irq_tx_ds dev st) s = (u, s')"
  shows "same_obs cfg loaded s s' \<and> rx (env s') = rx (env s) \<and>
    finished s' = (if drop_bit 5 st AND 1 \<noteq> 0 then 1 else finished s) \<and>
    calls (env s') = calls (env s) @ (if drop_bit 5 st AND 1 \<noteq> 0 then [(5, 0, None, 0)] else [])"
  using run by (auto simp: irq_tx_ds_def same_obs_def dest!: callback_frame split: if_splits)

lemma irq_rx_payload_spec:
  assumes run: "run_state (irq_rx_payload dev st w) s = (r, s')"
  shows "same_obs cfg loaded s s' \<and> (r = 0 \<or> r = 1) \<and> finished s' = finished s \<and> (r = 1 \<longrightarrow> ce (env s'))"
    and "r = 0 \<Longrightarrow> rx (env s) = p # ps \<Longrightarrow> unat w = length p \<Longrightarrow> rx (env s') = ps \<and>
      calls (env s') = calls (env s) @
        [(6, drop_bit 1 st AND 7, Some (rev p @ replicate (33 - length p) 0), w)]"
proof -
  obtain r1 b s1 where rd: "run_state (nrf24l01_interface_spi_read H 0x61 (Some (replicate 33 0)) (ucast w)) s = ((r1, b), s1)"
    by (metis prod.exhaust)
  obtain bs where k: "same_obs cfg loaded s s1" "finished s1 = finished s" "calls (env s1) = calls (env s)"
    and b: "b = Some bs" "length bs = 33"
    using irq_read_keeps [OF rd] le_less_linear [of "unat w" 33] by auto
  have "run_state (irq_rx_payload dev st w) s =
      (if r1 \<noteq> 0 then run_state (irq_fail dev ''nrf24l01: get rx payload failed.'') s1
       else run_state (do { buffer \<leftarrow> reverse_in_place b (unat w);
          cb 6 (drop_bit 1 st AND 7) buffer w; ret 0 }) s1)"
    using rd by (simp add: irq_rx_payload_def)
  note split = this [unfolded run]
  have le: "unat w \<le> 33" if "r1 = 0"
    using rd that by (auto simp: nrf24l01_interface_spi_read_def SPI_BUFFER_SIZE_def split: if_splits)
  have ok: "r = 0 \<and> run_state (cb 6 (drop_bit 1 st AND 7)
      (Some (rev (take (unat w) bs) @ drop (unat w) bs)) w) s1 = ((), s')" if "r1 = 0"
    using split that le b by (auto simp: reverse_in_place_Some split: prod.splits)
  show "same_obs cfg loaded s s' \<and> (r = 0 \<or> r = 1) \<and> finished s' = finished s \<and> (r = 1 \<longrightarrow> ce (env s'))"
  proof (cases "r1 = 0")
    case True
    with ok k show ?thesis
      by (auto dest!: callback_frame simp: quiet_def intro: same_obs_trans)
  next
    case False
    with split irq_fail_spec [of _ s1 r s'] k show ?thesis by (auto intro: same_obs_trans)
  qed
  assume "r = 0" and rx: "rx (env s) = p # ps" and w: "unat w = length p"
  then have z: "r1 = 0" using split irq_fail_spec [of _ s1 r s'] by (auto split: if_splits)
  from irq_read_payload [OF rd [unfolded z] rx] w le [OF z] b
  have "bs = p @ replicate (33 - length p) 0" and "rx (env s1) = ps" by simp_all
  with ok [OF z] w show "rx (env s') = ps \<and>
      calls (env s') = calls (env s) @
        [(6, drop_bit 1 st AND 7, Some (rev p @ replicate (33 - length p) 0), w)]"
    using callback_frame [of 6 _ _ w s1 "()" s'] k by auto
qed

lemma irq_rx_flush_spec:
  assumes run: "run_state (irq_rx_flush dev st w) s = (r, s')"
  shows "same_obs cfg loaded s s' \<and> (r = 0 \<or> r = 1) \<and> finished s' = finished s \<and> (r = 1 \<longrightarrow> ce (env s'))"
    and "\<not> w > 32 \<Longrightarrow> run_state (irq_rx_payload dev st w) s = (r, s')"
proof -
  obtain r1 s1 where f: "run_state (if w > 32 then nrf24l01_interface_spi_write H 0xE2 None 0 else ret 0) s = (r1, s1)"
    by (metis prod.exhaust)
  have k: "same_obs cfg loaded s s1 \<and> finished s1 = finished s"
    using f irq_command [of "0xE2" s r1 s1] by (auto split: if_splits)
  have "run_state (irq_rx_flush dev st w) s =
    (if r1 \<noteq> 0 then run_state (irq_fail dev ''nrf24l01: flush rx failed.'') s1
     else run_state (irq_rx_payload dev st w) s1)"
    using f by (cases "w > 32") (auto simp: irq_rx_flush_def)
  note split = this [unfolded run]
  then show "same_obs cfg loaded s s' \<and> (r = 0 \<or> r = 1) \<and> finished s' = finished s \<and> (r = 1 \<longrightarrow> ce (env s'))"
    using irq_fail_spec [of _ s1 r s'] irq_rx_payload_spec(1) [of st w s1 r s'] k
    by (cases "r1 = 0") (auto intro: same_obs_trans)
  show "\<not> w > 32 \<Longrightarrow> run_state (irq_rx_payload dev st w) s = (r, s')"
    using run by (simp add: irq_rx_flush_def)
qed

lemma irq_rx_dr_spec:
  assumes run: "run_state (irq_rx_dr dev st) s = (r, s')"
  shows "same_obs cfg loaded s s' \<and> (r = 0 \<or> r = 1) \<and> finished s' = finished s \<and> (r = 1 \<longrightarrow> ce (env s'))"
    and "r = 0 \<Longrightarrow> drop_bit 6 st AND 1 = 0 \<Longrightarrow> s' = s"
    and "r = 0 \<Longrightarrow> drop_bit 6 st AND 1 \<noteq> 0 \<Longrightarrow> rx (env s) = p # ps \<Longrightarrow> length p \<le> 32 \<Longrightarrow>
       rx (env s') = ps \<and> calls (env s') = calls (env s) @
         [(6, drop_bit 1 st AND 7, Some (rev p @ replicate (33 - length p) 0), of_nat (length p))]"
proof -
  obtain r1 wb s1 where w: "run_state (nrf24l01_interface_spi_read H 0x60 (Some [0]) 1) s = ((r1, wb), s1)"
    by (metis prod.exhaust)
  have k: "same_obs cfg loaded s s1" "finished s1 = finished s" "quiet ce status rx calls s s1"
    using irq_read_keeps [OF w] by simp_all
  let ?w = "case wb of Some (w # _) \<Rightarrow> w | _ \<Rightarrow> 0"
  have "run_state (irq_rx_dr dev st) s =
    (if drop_bit 6 st AND 1 = 0 then (0, s)
     else if r1 \<noteq> 0 then run_state (irq_fail dev ''nrf24l01: get payload width failed.'') s1
     else run_state (irq_rx_flush dev st ?w) s1)"
    using w by (simp add: irq_rx_dr_alt)
  note split = this [unfolded run]
  show "same_obs cfg loaded s s' \<and> (r = 0 \<or> r = 1) \<and> finished s' = finished s \<and> (r = 1 \<longrightarrow> ce (env s'))"
  proof (cases "drop_bit 6 st AND 1 = 0")
    case True
    with split show ?thesis by simp
  next
    case False
    with split irq_fail_spec [of _ s1 r s'] irq_rx_flush_spec(1) [of st ?w s1 r s']
    have "same_obs cfg loaded s1 s' \<and> (r = 0 \<or> r = 1) \<and> finished s' = finished s1 \<and> (r = 1 \<longrightarrow> ce (env s'))"
      by (cases "r1 = 0") simp_all
    with k show ?thesis using same_obs_trans by metis
  qed
  show "r = 0 \<Longrightarrow> drop_bit 6 st AND 1 = 0 \<Longrightarrow> s' = s" using split by simp
  assume r: "r = 0" "drop_bit 6 st AND 1 \<noteq> 0" and rx: "rx (env s) = p # ps" and p: "length p \<le> 32"
  then have z: "r1 = 0" using split irq_fail_spec [of _ s1 r s'] by (auto split: if_splits)
  have u: "unat (of_nat (length p) :: u8) = length p" using p by (simp add: unat_of_nat)
  have ww: "?w = of_nat (length p)" using irq_read_width [OF w [unfolded z] rx] by simp
  have "run_state (irq_rx_payload dev st (of_nat (length p))) s1 = (r, s')"
    using irq_rx_flush_spec(2) [of st "of_nat (length p)" s1 r s'] split r z u p
    unfolding ww by (simp add: word_less_nat_alt)
  from irq_rx_payload_spec(2) [OF this r(1) _ u] rx k(3)
  show "rx (env s') = ps \<and> calls (env s') = calls (env s) @
         [(6, drop_bit 1 st AND 7, Some (rev p @ replicate (33 - length p) 0), of_nat (length p))]"
    by (simp add: quiet_def)
qed
end

subsection \<open>The handler\<close>

text \<open>The part of the handler after the flags are cleared.\<close>

definition irq_dispatch :: "'e nrf24l01_handle \<Rightarrow> u8 \<Rightarrow> ('e nrf_state, u8) state" where
  "irq_dispatch h prev = do {
     irq_tx_full h prev;
     r \<leftarrow> irq_max_rt h prev;
     if r \<noteq> 0 then ret r
     else do {
       irq_tx_ds h prev;
       r \<leftarrow> irq_rx_dr h prev;
       if r \<noteq> 0 then ret r
       else do {
         res \<leftarrow> call_gpio_write h 1;
         if res \<noteq> 0 then fail_print h ''nrf24l01: gpio write failed.'' 1
         else ret 0 } } }"

lemma nrf24l01_irq_handler_alt:
  "nrf24l01_irq_handler handle = checked handle id (\<lambda>h. do {
     res \<leftarrow> call_gpio_write h 0;
     if res \<noteq> 0 then fail_print h ''nrf24l01: gpio write failed.'' 1
     else do {
       (res, prev) \<leftarrow> read_byte h NRF24L01_REG_STATUS;
       if res \<noteq> 0 then irq_fail h ''nrf24l01: get status register failed.''
       else do {
         res \<leftarrow> write_byte h NRF24L01_REG_STATUS prev;
         if res \<noteq> 0 then irq_fail h ''nrf24l01: set status register failed.''
         else irq_dispatch h prev } } })"
  by (simp only: nrf24l01_irq_handler_def irq_dispatch_def)

context nrf_irq_chip
begin

lemma irq_dispatch_spec:
  assumes run: "run_state (irq_dispatch dev st) s = (r, s')"
  shows "same_obs cfg loaded s s' \<and> (r = 0 \<or> r = 1) \<and> ce (env s') \<and>
      (r = 0 \<longrightarrow> finished s' = irq_outcome st (finished s))"
    and "r = 0 \<Longrightarrow> drop_bit 6 st AND 1 = 0 \<or> rx (env s) = p # ps \<and> length p \<le> 32 \<Longrightarrow>
      calls (env s') = calls (env s) @ irq_calls st p"
proof -
  obtain u1 s1 where a: "run_state (irq_tx_full dev st) s = (u1, s1)" by (metis prod.exhaust)
  obtain r2 s2 where b: "run_state (irq_max_rt dev st) s1 = (r2, s2)" by (metis prod.exhaust)
  obtain u3 s3 where c: "run_state (irq_tx_ds dev st) s2 = (u3, s3)" by (metis prod.exhaust)
  obtain r4 s4 where d: "run_state (irq_rx_dr dev st) s3 = (r4, s4)" by (metis prod.exhaust)
  obtain r5 s5 where e: "run_state (nrf24l01_interface_gpio_write H 1) s4 = (r5, s5)" by (metis prod.exhaust)
  note A = irq_tx_full_spec [OF a] and B = irq_max_rt_spec [OF b] and C = irq_tx_ds_spec [OF c]
    and D = irq_rx_dr_spec [OF d] and E = irq_gpio [OF e]
  have "(r, s') = (if r2 \<noteq> 0 then (r2, s2) else if r4 \<noteq> 0 then (r4, s4) else (0, s5))"
    using run a b c d e E by (simp add: irq_dispatch_def split: if_splits)
  then consider "r2 = 1" "r = 1" "s' = s2" | "r2 = 0" "r4 = 1" "r = 1" "s' = s4"
    | "r2 = 0" "r4 = 0" "r = 0" "s' = s5"
    using B D(1) by (auto split: if_splits)
  note cases = this
  show "same_obs cfg loaded s s' \<and> (r = 0 \<or> r = 1) \<and> ce (env s') \<and>
      (r = 0 \<longrightarrow> finished s' = irq_outcome st (finished s))"
    using A B C D(1) E by (cases rule: cases) (simp_all add: same_obs_def quiet_def irq_outcome_def)
  assume "r = 0" and p: "drop_bit 6 st AND 1 = 0 \<or> rx (env s) = p # ps \<and> length p \<le> 32"
  then have r: "r2 = 0" "r4 = 0" "s' = s5" by (cases rule: cases; simp)+
  have "calls (env s4) = calls (env s3) @ (if drop_bit 6 st AND 1 \<noteq> 0
      then [(6, drop_bit 1 st AND 7, Some (rev p @ replicate (33 - length p) 0), of_nat (length p))]
      else [])"
    using p r A B C D(2) D(3) [of p ps] by (cases "drop_bit 6 st AND 1 = 0") auto
  then show "calls (env s') = calls (env s) @ irq_calls st p"
    using r A B C E by (simp add: irq_calls_def)
qed

lemma irq_handler_spec:
  assumes run: "run_state (nrf24l01_irq_handler (Some dev)) s = (r, s')" and i: "inited s = 1"
  shows "same_obs cfg loaded s s' \<and> (r = 0 \<or> r = 1) \<and> ce (env s') \<and>
      (r = 0 \<longrightarrow> finished s' = irq_outcome (status (env s)) (finished s))"
    and "r = 0 \<Longrightarrow> drop_bit 6 (status (env s)) AND 1 = 0 \<or> rx (env s) = p # ps \<and> length p \<le> 32 \<Longrightarrow>
      calls (env s') = calls (env s) @ irq_calls (status (env s)) p"
proof -
  obtain r1 s1 where a: "run_state (nrf24l01_interface_gpio_write H 0) s = (r1, s1)" by (metis prod.exhaust)
  obtain r2 st s2 where b: "run_state (read_byte dev 0x07) s1 = ((r2, st), s2)" by (metis prod.exhaust)
  obtain r3 s3 where c: "run_state (write_byte dev 0x07 st) s2 = (r3, s3)" by (metis prod.exhaust)
  note A = irq_gpio [OF a] and B = irq_read_status [OF b] and C = irq_write_status [OF c]
  have eq: "(r, s') = (if r2 \<noteq> 0 then run_state (irq_fail dev ''nrf24l01: get status register failed.'') s2
      else if r3 \<noteq> 0 then run_state (irq_fail dev ''nrf24l01: set status register failed.'') s3
      else run_state (irq_dispatch dev st) s3)"
    using run i a b c A by (simp add: nrf24l01_irq_handler_alt run_checked split: if_splits)
  have ok: "run_state (irq_dispatch dev st) s3 = (r, s') \<and> st = status (env s) \<and> rx (env s3) = rx (env s) \<and>
      calls (env s3) = calls (env s) \<and>
      finished s3 = finished s \<and> same_obs cfg loaded s s3" if "r2 = 0" "r3 = 0"
    using eq that A B C by (simp add: same_obs_def quiet_def)
  have bad: "r = 1 \<and> ce (env s') \<and> same_obs cfg loaded s s'" if "\<not> (r2 = 0 \<and> r3 = 0)"
    using eq that A B C irq_fail_spec [of _ s2 r s'] irq_fail_spec [of _ s3 r s']
    by (auto simp: same_obs_def split: if_splits)
  show "same_obs cfg loaded s s' \<and> (r = 0 \<or> r = 1) \<and> ce (env s') \<and>
      (r = 0 \<longrightarrow> finished s' = irq_outcome (status (env s)) (finished s))"
    using ok bad irq_dispatch_spec(1) [of st s3 r s'] by (cases "r2 = 0 \<and> r3 = 0") (auto intro: same_obs_trans)
  assume "r = 0" "drop_bit 6 (status (env s)) AND 1 = 0 \<or> rx (env s) = p # ps \<and> length p \<le> 32"
  then show "calls (env s') = calls (env s) @ irq_calls (status (env s)) p"
    using ok bad irq_dispatch_spec(2) [of st s3 r s' p ps] by (cases "r2 = 0 \<and> r3 = 0") auto
qed
end

end
