(* ===== verification/Nrf24_Basic.thy ===== *)
theory Nrf24_Basic
  imports Nrf24_Irq
begin

text \<open>
  The application layer of the radio, src/src/nrf24l01/nrf24l01_basic.c: one static handle, the
  saved transmit address, the start-up sequence that configures the chip, and sending to an
  address. The record \<open>basic_state\<close> has the file's static variables; the part of the handle the
  driver writes and everything behind the driver is the field \<open>nrf\<close>.
\<close>

record 'e basic_state =
  nrf :: "'e nrf_state"
  gs_handle :: "'e nrf24l01_handle"
  gs_tx_addr :: "u8 list"
  gs_tx_addr_set :: u8

datatype nrf24l01_type = NRF24L01_TYPE_TX | NRF24L01_TYPE_RX

type_synonym 'e callback = "u8 \<Rightarrow> u8 \<Rightarrow> cptr \<Rightarrow> u8 \<Rightarrow> ('e nrf_state, unit) state"

text \<open>A call into the driver works on the field \<open>nrf\<close> only.\<close>

definition lift_nrf :: "('e nrf_state, 'a) state \<Rightarrow> ('e basic_state, 'a) state" where
  "lift_nrf m = State (\<lambda>s. let (a, n) = run_state m (nrf s) in (a, s\<lparr>nrf := n\<rparr>))"

definition the_handle :: "('e basic_state, 'e nrf24l01_handle option) state" where
  "the_handle = do { s \<leftarrow> getst; ret (Some (gs_handle s)) }"

definition call_driver ::
  "('e nrf24l01_handle option \<Rightarrow> ('e nrf_state, 'a) state) \<Rightarrow> ('e basic_state, 'a) state" where
  "call_driver f = do { h \<leftarrow> the_handle; lift_nrf (f h) }"

definition basic_print :: "'e hal \<Rightarrow> string \<Rightarrow> u8 list \<Rightarrow> ('e basic_state, unit) state" where
  "basic_print H fmt args = lift_nrf (nrf24l01_interface_debug_print H fmt args)"

definition nrf24l01_interrupt_irq_handler :: "('e basic_state, u8) state" where
  "nrf24l01_interrupt_irq_handler = do {
     res \<leftarrow> call_driver nrf24l01_irq_handler;
     if res \<noteq> 0 then ret 1 else ret 0 }"

subsection \<open>The defaults of the header\<close>

abbreviation (input) NRF24L01_BASIC_DEFAULT_CRCO :: nrf24l01_bool where
  "NRF24L01_BASIC_DEFAULT_CRCO \<equiv> NRF24L01_BOOL_TRUE"
abbreviation (input) NRF24L01_BASIC_DEFAULT_ENABLE_CRC :: nrf24l01_bool where
  "NRF24L01_BASIC_DEFAULT_ENABLE_CRC \<equiv> NRF24L01_BOOL_TRUE"
abbreviation (input) NRF24L01_BASIC_DEFAULT_ADDRESS_WIDTH :: nrf24l01_address_width where
  "NRF24L01_BASIC_DEFAULT_ADDRESS_WIDTH \<equiv> NRF24L01_ADDRESS_WIDTH_5_BYTES"
abbreviation (input) NRF24L01_BASIC_DEFAULT_RETRANSMIT_DELAY :: u32 where
  "NRF24L01_BASIC_DEFAULT_RETRANSMIT_DELAY \<equiv> 750"
abbreviation (input) NRF24L01_BASIC_DEFAULT_RETRANSMIT_COUNT :: u8 where
  "NRF24L01_BASIC_DEFAULT_RETRANSMIT_COUNT \<equiv> 10"
abbreviation (input) NRF24L01_BASIC_DEFAULT_CHANNEL_FREQUENCY :: u8 where
  "NRF24L01_BASIC_DEFAULT_CHANNEL_FREQUENCY \<equiv> 94"
abbreviation (input) NRF24L01_BASIC_DEFAULT_DATA_RATE :: nrf24l01_data_rate where
  "NRF24L01_BASIC_DEFAULT_DATA_RATE \<equiv> NRF24L01_DATA_RATE_2M"
abbreviation (input) NRF24L01_BASIC_DEFAULT_OUTPUT_POWER :: nrf24l01_output_power where
  "NRF24L01_BASIC_DEFAULT_OUTPUT_POWER \<equiv> NRF24L01_OUTPUT_POWER_0_DBM"
abbreviation (input) NRF24L01_BASIC_DEFAULT_RX_ADDR_0 :: "u8 list" where
  "NRF24L01_BASIC_DEFAULT_RX_ADDR_0 \<equiv> [0x1A, 0x01, 0x02, 0x03, 0x00]"
abbreviation (input) NRF24L01_BASIC_DEFAULT_RX_ADDR_1 :: "u8 list" where
  "NRF24L01_BASIC_DEFAULT_RX_ADDR_1 \<equiv> [0x1B, 0x01, 0x02, 0x03, 0x01]"
abbreviation (input) NRF24L01_BASIC_DEFAULT_RX_ADDR_2 :: "u8 list" where
  "NRF24L01_BASIC_DEFAULT_RX_ADDR_2 \<equiv> [0x1B, 0x01, 0x02, 0x03, 0x02]"
abbreviation (input) NRF24L01_BASIC_DEFAULT_RX_ADDR_3 :: "u8 list" where
  "NRF24L01_BASIC_DEFAULT_RX_ADDR_3 \<equiv> [0x1B, 0x01, 0x02, 0x03, 0x03]"
abbreviation (input) NRF24L01_BASIC_DEFAULT_RX_ADDR_4 :: "u8 list" where
  "NRF24L01_BASIC_DEFAULT_RX_ADDR_4 \<equiv> [0x1B, 0x01, 0x02, 0x03, 0x04]"
abbreviation (input) NRF24L01_BASIC_DEFAULT_RX_ADDR_5 :: "u8 list" where
  "NRF24L01_BASIC_DEFAULT_RX_ADDR_5 \<equiv> [0x1B, 0x01, 0x02, 0x03, 0x05]"

subsection \<open>The start-up sequence\<close>

text \<open>
  \<open>nrf24l01_basic_init\<close> is a sequence of driver calls with the same error handling: print a
  message, close the driver, return 1. A step is the call and its message, and the sequence is
  given in the groups of the source.
\<close>

type_synonym 'e step = "('e nrf24l01_handle option \<Rightarrow> ('e nrf_state, u8) state) \<times> string"

fun run_steps :: "'e hal \<Rightarrow> 'e step list \<Rightarrow> ('e basic_state, u8) state" where
  "run_steps H [] = ret 0"
| "run_steps H ((call, msg) # steps) = do {
     res \<leftarrow> call_driver call;
     if res \<noteq> 0 then do {
       basic_print H msg [];
       _ \<leftarrow> call_driver nrf24l01_deinit;
       ret 1 }
     else run_steps H steps }"

definition steps_config :: "'e step list" where
  "steps_config =
     [(\<lambda>h. nrf24l01_set_active h NRF24L01_BOOL_FALSE, ''nrf24l01: set active failed.''),
      (\<lambda>h. nrf24l01_set_config h NRF24L01_CONFIG_PWR_UP NRF24L01_BOOL_TRUE,
         ''nrf24l01: set config failed.''),
      (\<lambda>h. nrf24l01_set_config h NRF24L01_CONFIG_CRCO NRF24L01_BASIC_DEFAULT_CRCO,
         ''nrf24l01: set config failed.''),
      (\<lambda>h. nrf24l01_set_config h NRF24L01_CONFIG_EN_CRC NRF24L01_BASIC_DEFAULT_ENABLE_CRC,
         ''nrf24l01: set config failed.''),
      (\<lambda>h. nrf24l01_set_config h NRF24L01_CONFIG_MASK_MAX_RT NRF24L01_BOOL_TRUE,
         ''nrf24l01: set config failed.''),
      (\<lambda>h. nrf24l01_set_config h NRF24L01_CONFIG_MASK_TX_DS NRF24L01_BOOL_TRUE,
         ''nrf24l01: set config failed.''),
      (\<lambda>h. nrf24l01_set_config h NRF24L01_CONFIG_MASK_RX_DR NRF24L01_BOOL_TRUE,
         ''nrf24l01: set config failed.'')]"

definition steps_mode :: "nrf24l01_type \<Rightarrow> 'e step list" where
  "steps_mode type =
     (if type = NRF24L01_TYPE_TX
      then [(\<lambda>h. nrf24l01_set_mode h NRF24L01_MODE_TX, ''nrf24l01: set mode failed.'')]
      else [(\<lambda>h. nrf24l01_set_mode h NRF24L01_MODE_RX, ''nrf24l01: set mode failed.'')])"

definition steps_pipes :: "'e step list" where
  "steps_pipes =
     map (\<lambda>p. (\<lambda>h. nrf24l01_set_auto_acknowledgment h p NRF24L01_BOOL_TRUE,
                ''nrf24l01: set auto acknowledgment failed.''))
       [NRF24L01_PIPE_0, NRF24L01_PIPE_1, NRF24L01_PIPE_2, NRF24L01_PIPE_3, NRF24L01_PIPE_4,
        NRF24L01_PIPE_5] @
     map (\<lambda>p. (\<lambda>h. nrf24l01_set_rx_pipe h p NRF24L01_BOOL_TRUE, ''nrf24l01: set rx pipe failed.''))
       [NRF24L01_PIPE_0, NRF24L01_PIPE_1, NRF24L01_PIPE_2, NRF24L01_PIPE_3, NRF24L01_PIPE_4,
        NRF24L01_PIPE_5]"

text \<open>
  The delay is converted first; both calls have the same message, so they are one step.
\<close>

definition set_retransmit_delay :: "'e nrf24l01_handle option \<Rightarrow> ('e nrf_state, u8) state" where
  "set_retransmit_delay h = do {
     (res, reg) \<leftarrow> nrf24l01_auto_retransmit_delay_convert_to_register h
       NRF24L01_BASIC_DEFAULT_RETRANSMIT_DELAY;
     if res \<noteq> 0 then ret res
     else nrf24l01_set_auto_retransmit_delay h (case reg of Some r \<Rightarrow> r | None \<Rightarrow> 0) }"

definition steps_rf :: "'e step list" where
  "steps_rf =
     [(\<lambda>h. nrf24l01_set_address_width h NRF24L01_BASIC_DEFAULT_ADDRESS_WIDTH,
         ''nrf24l01: set address width failed.''),
      (set_retransmit_delay, ''nrf24l01: auto retransmit delay failed.''),
      (\<lambda>h. nrf24l01_set_auto_retransmit_count h NRF24L01_BASIC_DEFAULT_RETRANSMIT_COUNT,
         ''nrf24l01: auto retransmit count failed.''),
      (\<lambda>h. nrf24l01_set_channel_frequency h NRF24L01_BASIC_DEFAULT_CHANNEL_FREQUENCY,
         ''nrf24l01: set channel frequency failed.''),
      (\<lambda>h. nrf24l01_set_continuous_carrier_transmit h NRF24L01_BOOL_FALSE,
         ''nrf24l01: set continuous carrier transmit failed.''),
      (\<lambda>h. nrf24l01_set_force_pll_lock_signal h NRF24L01_BOOL_FALSE,
         ''nrf24l01: set force pll lock signal failed.''),
      (\<lambda>h. nrf24l01_set_data_rate h NRF24L01_BASIC_DEFAULT_DATA_RATE,
         ''nrf24l01: set data rate 2M failed.''),
      (\<lambda>h. nrf24l01_set_output_power h NRF24L01_BASIC_DEFAULT_OUTPUT_POWER,
         ''nrf24l01: set output power failed.'')]"

definition steps_interrupts :: "'e step list" where
  "steps_interrupts =
     map (\<lambda>t. (\<lambda>h. nrf24l01_clear_interrupt h t, ''nrf24l01: clear interrupt failed.''))
       [NRF24L01_INTERRUPT_RX_DR, NRF24L01_INTERRUPT_TX_DS, NRF24L01_INTERRUPT_MAX_RT,
        NRF24L01_INTERRUPT_TX_FULL]"

definition steps_payload :: "'e step list" where
  "steps_payload =
     [(\<lambda>h. nrf24l01_set_pipe_0_payload_number h 32, ''nrf24l01: set pipe 0 payload number failed.''),
      (\<lambda>h. nrf24l01_set_pipe_1_payload_number h 32, ''nrf24l01: set pipe 1 payload number failed.''),
      (\<lambda>h. nrf24l01_set_pipe_2_payload_number h 32, ''nrf24l01: set pipe 2 payload number failed.''),
      (\<lambda>h. nrf24l01_set_pipe_3_payload_number h 32, ''nrf24l01: set pipe 3 payload number failed.''),
      (\<lambda>h. nrf24l01_set_pipe_4_payload_number h 32, ''nrf24l01: set pipe 4 payload number failed.''),
      (\<lambda>h. nrf24l01_set_pipe_5_payload_number h 32, ''nrf24l01: set pipe 5 payload number failed.'')]"

definition steps_dynamic :: "'e step list" where
  "steps_dynamic =
     map (\<lambda>p. (\<lambda>h. nrf24l01_set_pipe_dynamic_payload h p NRF24L01_BOOL_TRUE,
                ''nrf24l01: set pipe dynamic payload failed.''))
       [NRF24L01_PIPE_0, NRF24L01_PIPE_1, NRF24L01_PIPE_2, NRF24L01_PIPE_3, NRF24L01_PIPE_4,
        NRF24L01_PIPE_5] @
     [(\<lambda>h. nrf24l01_set_dynamic_payload h NRF24L01_BOOL_TRUE,
         ''nrf24l01: set dynamic payload failed.''),
      (\<lambda>h. nrf24l01_set_payload_with_ack h NRF24L01_BOOL_TRUE,
         ''nrf24l01: set payload with ack failed.''),
      (\<lambda>h. nrf24l01_set_tx_payload_with_no_ack h NRF24L01_BOOL_TRUE,
         ''nrf24l01: set tx payload with no ack failed.'')]"

definition steps_address :: "'e step list" where
  "steps_address =
     [(\<lambda>h. nrf24l01_set_rx_pipe_0_address h (Some NRF24L01_BASIC_DEFAULT_RX_ADDR_0)
          (address_width_val NRF24L01_BASIC_DEFAULT_ADDRESS_WIDTH + 2),
         ''nrf24l01: set rx pipe 0 address failed.''),
      (\<lambda>h. nrf24l01_set_rx_pipe_1_address h (Some NRF24L01_BASIC_DEFAULT_RX_ADDR_1)
          (address_width_val NRF24L01_BASIC_DEFAULT_ADDRESS_WIDTH + 2),
         ''nrf24l01: set rx pipe 1 address failed.''),
      (\<lambda>h. nrf24l01_set_rx_pipe_2_address h (NRF24L01_BASIC_DEFAULT_RX_ADDR_2 ! 4),
         ''nrf24l01: set rx pipe 2 address failed.''),
      (\<lambda>h. nrf24l01_set_rx_pipe_3_address h (NRF24L01_BASIC_DEFAULT_RX_ADDR_3 ! 4),
         ''nrf24l01: set rx pipe 3 address failed.''),
      (\<lambda>h. nrf24l01_set_rx_pipe_4_address h (NRF24L01_BASIC_DEFAULT_RX_ADDR_4 ! 4),
         ''nrf24l01: set rx pipe 4 address failed.''),
      (\<lambda>h. nrf24l01_set_rx_pipe_5_address h (NRF24L01_BASIC_DEFAULT_RX_ADDR_5 ! 4),
         ''nrf24l01: set rx pipe 5 address failed.'')]"

definition steps_activate :: "'e step list" where
  "steps_activate =
     [(nrf24l01_flush_tx, ''nrf24l01: flush tx failed.''),
      (nrf24l01_flush_rx, ''nrf24l01: flush rx failed.''),
      (\<lambda>h. nrf24l01_set_active h NRF24L01_BOOL_TRUE, ''nrf24l01: set active failed.'')]"

definition init_steps :: "nrf24l01_type \<Rightarrow> 'e step list" where
  "init_steps type = steps_config @ steps_mode type @ steps_pipes @ steps_rf @ steps_interrupts @
     steps_payload @ steps_dynamic @ steps_address @ steps_activate"

text \<open>
  The \<open>DRIVER_NRF24L01_LINK_INIT\<close> macro clears the whole handle; the others store the functions.
\<close>

definition link_all :: "'e hal \<Rightarrow> 'e callback option \<Rightarrow> ('e basic_state, unit) state" where
  "link_all H callback = do {
     modify (\<lambda>s. s\<lparr>nrf := (nrf s)\<lparr>inited := 0, finished := 0\<rparr>\<rparr>);
     modify (\<lambda>s. s\<lparr>gs_handle := link_handle H callback\<rparr>) }"

definition nrf24l01_basic_init ::
  "'e hal \<Rightarrow> nrf24l01_type \<Rightarrow> 'e callback option \<Rightarrow> ('e basic_state, u8) state" where
  "nrf24l01_basic_init H type callback = do {
     link_all H callback;
     res \<leftarrow> call_driver nrf24l01_init;
     if res \<noteq> 0 then do { basic_print H ''nrf24l01: init failed.'' []; ret 1 }
     else run_steps H (init_steps type) }"

definition nrf24l01_basic_deinit :: "('e basic_state, u8) state" where
  "nrf24l01_basic_deinit = do {
     res \<leftarrow> call_driver nrf24l01_deinit;
     if res \<noteq> 0 then ret 1 else ret 0 }"

subsection \<open>Sending\<close>

definition basic_width :: u8 where
  "basic_width = address_width_val NRF24L01_BASIC_DEFAULT_ADDRESS_WIDTH + 2"

definition nrf24l01_basic_send ::
  "'e hal \<Rightarrow> cptr \<Rightarrow> cptr \<Rightarrow> u8 \<Rightarrow> nrf24l01_bool \<Rightarrow> ('e basic_state, u8) state" where
  "nrf24l01_basic_send H addr buf len use_ack = do {
     res \<leftarrow> call_driver (\<lambda>h. nrf24l01_set_active h NRF24L01_BOOL_FALSE);
     if res \<noteq> 0 then do { basic_print H ''nrf24l01: set active failed. with %d'' [res]; ret 1 }
     else do {
       res \<leftarrow> call_driver (\<lambda>h. nrf24l01_set_tx_address h addr basic_width);
       if res \<noteq> 0 then do { basic_print H ''nrf24l01: set tx address failed. with %d'' [res]; ret 2 }
       else do {
         res \<leftarrow> call_driver (\<lambda>h. nrf24l01_set_rx_pipe_0_address h addr basic_width);
         if res \<noteq> 0 then do {
           basic_print H ''nrf24l01: set rx pipe 0 address failed. with %d'' [res]; ret 3 }
         else do {
           res \<leftarrow> call_driver (\<lambda>h. nrf24l01_send h buf len use_ack);
           if res \<noteq> 0 then ret 1 else ret 0 } } } }"

definition nrf24l01_basic_set_frequency :: "'e hal \<Rightarrow> u8 \<Rightarrow> ('e basic_state, u8) state" where
  "nrf24l01_basic_set_frequency H freq = do {
     res \<leftarrow> call_driver (\<lambda>h. nrf24l01_set_channel_frequency h freq);
     if res \<noteq> 0 then do { basic_print H ''nrf24l01: set channel frequency failed.'' []; ret 1 }
     else ret 0 }"

definition nrf24l01_basic_get_frequency :: "'e hal \<Rightarrow> ('e basic_state, u8 \<times> u8 option) state" where
  "nrf24l01_basic_get_frequency H = do {
     (res, freq) \<leftarrow> call_driver nrf24l01_get_channel_frequency;
     if res \<noteq> 0 then do { basic_print H ''nrf24l01: get channel frequency failed.'' []; ret (1, freq) }
     else ret (0, freq) }"

text \<open>\<open>memcpy(gs_tx_addr, addr, 5)\<close>; the address has been read by the driver before.\<close>

definition nrf24l01_basic_set_tx_address :: "'e hal \<Rightarrow> cptr \<Rightarrow> ('e basic_state, u8) state" where
  "nrf24l01_basic_set_tx_address H addr =
     (case addr of
        None \<Rightarrow> ret 1
      | Some a \<Rightarrow> do {
          res \<leftarrow> call_driver (\<lambda>h. nrf24l01_set_tx_address h addr basic_width);
          if res \<noteq> 0 then do { basic_print H ''nrf24l01: set tx address failed. with %d'' [res]; ret 1 }
          else do {
            res \<leftarrow> call_driver (\<lambda>h. nrf24l01_set_rx_pipe_0_address h addr basic_width);
            if res \<noteq> 0 then do {
              basic_print H ''nrf24l01: set rx pipe 0 address failed. with %d'' [res]; ret 1 }
            else do {
              a \<leftarrow> lift_nrf (copy_in 5 addr 5);
              modify (\<lambda>s. s\<lparr>gs_tx_addr := a\<rparr>);
              modify (\<lambda>s. s\<lparr>gs_tx_addr_set := 1\<rparr>);
              ret 0 } } })"

definition nrf24l01_basic_sent ::
  "'e hal \<Rightarrow> cptr \<Rightarrow> u8 \<Rightarrow> nrf24l01_bool \<Rightarrow> ('e basic_state, u8) state" where
  "nrf24l01_basic_sent H buf len use_ack = do {
     s \<leftarrow> getst;
     if gs_tx_addr_set s = 0 then do {
       basic_print H
         ''nrf24l01: tx address not set. call nrf24l01_basic_set_tx_address() first.'' [];
       ret 1 }
     else do {
       res \<leftarrow> call_driver (\<lambda>h. nrf24l01_send h buf len use_ack);
       if res \<noteq> 0 then ret 1 else ret 0 } }"

text \<open>
  The output pointers are the caller's regions for the address and the flag; the result gives
  what they hold afterwards.
\<close>

definition nrf24l01_basic_get_tx_address ::
  "cptr \<Rightarrow> cptr \<Rightarrow> ('e basic_state, u8 \<times> cptr \<times> cptr) state" where
  "nrf24l01_basic_get_tx_address addr is_set =
     (case (addr, is_set) of
        (Some a, Some f) \<Rightarrow> do {
          s \<leftarrow> getst;
          addr \<leftarrow> lift_nrf (copy_out (gs_tx_addr s) a);
          is_set \<leftarrow> lift_nrf (copy_out [gs_tx_addr_set s] f);
          ret (0, addr, is_set) }
      | _ \<Rightarrow> ret (1, addr, is_set))"

end
