(* ===== verification/Nrf24_Basic_Bus.thy ===== *)
theory Nrf24_Basic_Bus
  imports Nrf24_Basic
begin

text \<open>
  The application layer of the radio over a HAL and chip that keep the contract \<open>nrf_chip\<close>. Every
  step of the start-up sequence is shown to achieve its change of the register file; the whole
  sequence leaves the explicit register file \<open>init_value\<close>, and sending to an address programs the
  address, loads the reversed payload and reports the outcome.
\<close>

lemma run_lift [simp]: "run_state (lift_nrf m) s = (fst (run_state m (nrf s)), s\<lparr>nrf := snd (run_state m (nrf s))\<rparr>)"
  by (simp add: lift_nrf_def split_beta)

lemma run_call_driver [simp]:
  "run_state (call_driver f) s =
     (fst (run_state (f (Some (gs_handle s))) (nrf s)), s\<lparr>nrf := snd (run_state (f (Some (gs_handle s))) (nrf s))\<rparr>)"
  by (simp add: call_driver_def the_handle_def)

lemma run_basic_print [simp]:
  "run_state (basic_print H m as) s = (fst (run_state (chvprintf H m as) (nrf s)), s\<lparr>nrf := snd (run_state (chvprintf H m as) (nrf s))\<rparr>)"
  by (simp add: basic_print_def nrf24l01_interface_debug_print_def)

text \<open>
  A driver call on an open handle keeps it open, is memory safe, and when it returns 0 changes
  the registers by \<open>eff\<close> and loads no payload.
\<close>

definition achieves :: "('e \<Rightarrow> u8 \<Rightarrow> u8 list) \<Rightarrow> ('e \<Rightarrow> (u8 \<times> u8 list) list) \<Rightarrow> 'e nrf24l01_handle \<Rightarrow>
    ('e nrf24l01_handle option \<Rightarrow> ('e nrf_state, u8) state) \<Rightarrow>
    ((u8 \<Rightarrow> u8 list) \<Rightarrow> u8 \<Rightarrow> u8 list) \<Rightarrow> bool" where
  "achieves cfg loaded h call eff \<longleftrightarrow>
     (\<forall>s res s'. run_state (call (Some h)) s = (res, s') \<longrightarrow> inited s = 1 \<longrightarrow>
        inited s' = 1 \<and> fault s' = fault s \<and>
        (res = 0 \<longrightarrow> cfg (env s') = eff (cfg (env s)) \<and> loaded (env s') = loaded (env s)))"

definition upd_field :: "setting \<Rightarrow> (u8 \<Rightarrow> u8 list) \<Rightarrow> u8 \<Rightarrow> u8 list" where
  "upd_field x c = c(set_reg x := map (put_field (set_field x) (set_bits x)) (c (set_reg x)))"

definition upd_reg :: "u8 \<Rightarrow> u8 list \<Rightarrow> (u8 \<Rightarrow> u8 list) \<Rightarrow> u8 \<Rightarrow> u8 list" where
  "upd_reg r bs c = c(r := bs)"

lemma byte_setter_alt:
  "nrf24l01_set_rx_pipe_2_address (Some h) a = checked (Some h) id (\<lambda>h. do {
     res \<leftarrow> write_byte h 0x0C a; if res \<noteq> 0 then fail_print h ''nrf24l01: set receive address data pipe p2 register failed.'' 1 else ret 0 })"
  "nrf24l01_set_rx_pipe_3_address (Some h) a = checked (Some h) id (\<lambda>h. do {
     res \<leftarrow> write_byte h 0x0D a; if res \<noteq> 0 then fail_print h ''nrf24l01: set receive address data pipe p3 register failed.'' 1 else ret 0 })"
  "nrf24l01_set_rx_pipe_4_address (Some h) a = checked (Some h) id (\<lambda>h. do {
     res \<leftarrow> write_byte h 0x0E a; if res \<noteq> 0 then fail_print h ''nrf24l01: set receive address data pipe p4 register failed.'' 1 else ret 0 })"
  "nrf24l01_set_rx_pipe_5_address (Some h) a = checked (Some h) id (\<lambda>h. do {
     res \<leftarrow> write_byte h 0x0F a; if res \<noteq> 0 then fail_print h ''nrf24l01: set receive address data pipe p5 register failed.'' 1 else ret 0 })"
  by (simp_all only: driver_defs)

context nrf_bus
begin

lemma achieves_setting:
  assumes "set_in_range x"
  shows "achieves cfg loaded h (\<lambda>h. set_call h x) (upd_field x)"
proof (unfold achieves_def, intro allI impI)
  fix s res s'
  assume run: "run_state (set_call (Some h) x) s = (res, s')" and i: "inited s = 1"
  note sp = set_call_spec [OF run i assms]
  then show "inited s' = 1 \<and> fault s' = fault s \<and>
    (res = 0 \<longrightarrow> cfg (env s') = upd_field x (cfg (env s)) \<and> loaded (env s') = loaded (env s))"
    by (auto simp: upd_field_def reg_written_def)
qed

lemma achieves_write_byte:
  assumes "\<And>h. call (Some h) = checked (Some h) id (\<lambda>h. do { res \<leftarrow> write_byte h r v; if res \<noteq> 0 then fail_print h m 1 else ret 0 })"
    and r: "r \<in> byte_regs" and v: "v AND NOT (reg_mask r) = 0"
  shows "achieves cfg loaded h call (upd_reg r [v])"
proof (unfold achieves_def, intro allI impI)
  fix s res s'
  assume run: "run_state (call (Some h)) s = (res, s')" and i: "inited s = 1"
  from run i have "run_state (do { res \<leftarrow> write_byte h r v; if res \<noteq> 0 then fail_print h m 1 else ret 0 }) s = (res, s')"
    by (simp add: assms(1) run_checked)
  from write_byte_result [OF this r v] i
  show "inited s' = 1 \<and> fault s' = fault s \<and>
    (res = 0 \<longrightarrow> cfg (env s') = upd_reg r [v] (cfg (env s)) \<and> loaded (env s') = loaded (env s))"
    by (auto simp: upd_reg_def reg_written_def)
qed

lemma achieves_address:
  assumes "\<And>h. call (Some h) = checked (Some h) id (\<lambda>h. set_address h r m (Some a) 5)"
    and r: "r \<in> addr_regs" and a: "5 \<le> length a"
  shows "achieves cfg loaded h call (upd_reg r (rev (take 5 a)))"
proof (unfold achieves_def, intro allI impI)
  fix s res s'
  assume run: "run_state (call (Some h)) s = (res, s')" and i: "inited s = 1"
  from run i have "run_state (set_address h r m (Some a) 5) s = (res, s')"
    by (simp add: assms(1) run_checked)
  from set_address_spec [OF this r] a i cfg_width [of r "env s"] r
  show "inited s' = 1 \<and> fault s' = fault s \<and>
    (res = 0 \<longrightarrow> cfg (env s') = upd_reg r (rev (take 5 a)) (cfg (env s)) \<and> loaded (env s') = loaded (env s))"
    by (auto simp: upd_reg_def reg_written_def cfg_regs_def reg_width_def)
qed

lemma achieves_command:
  assumes "\<And>h. call (Some h) = checked (Some h) id (\<lambda>h. do { res \<leftarrow> call_spi_write h c None 0; if res \<noteq> 0 then fail_print h m 1 else ret 0 })"
    and c: "c = 0xE1 \<or> c = 0xE2 \<or> c = 0xE3 \<or> c = 0xFF"
  shows "achieves cfg loaded h call (\<lambda>c. c)"
proof (unfold achieves_def, intro allI impI)
  fix s res s'
  assume run: "run_state (call (Some h)) s = (res, s')" and i: "inited s = 1"
  from run i have "run_state (do { res \<leftarrow> call_spi_write h c None 0; if res \<noteq> 0 then fail_print h m 1 else ret 0 }) s = (res, s')"
    by (simp add: assms(1) run_checked)
  from command_result [OF this c] i
  show "inited s' = 1 \<and> fault s' = fault s \<and>
    (res = 0 \<longrightarrow> cfg (env s') = cfg (env s) \<and> loaded (env s') = loaded (env s))"
    by (auto simp: same_obs_def)
qed

lemma achieves_active: "achieves cfg loaded h (\<lambda>h. nrf24l01_set_active h b) (\<lambda>c. c)"
proof (unfold achieves_def, intro allI impI)
  fix s res s'
  assume run: "run_state (nrf24l01_set_active (Some h) b) s = (res, s')" and i: "inited s = 1"
  obtain r1 s1 where g: "run_state (call_gpio_write h (bool_val b)) s = (r1, s1)" by (metis prod.exhaust)
  from run i g have "(if r1 \<noteq> 0 then run_state (fail_print h ''nrf24l01: gpio write failed.'' 1) s1 else (0, s1)) = (res, s')"
    by (simp add: nrf24l01_set_active_def run_checked split: if_splits)
  with gpio_frame [OF g] fail_print_frame [of _ "1 :: u8" s1 res s'] i
  show "inited s' = 1 \<and> fault s' = fault s \<and> (res = 0 \<longrightarrow> cfg (env s') = cfg (env s) \<and> loaded (env s') = loaded (env s))"
    by (auto simp: same_obs_def split: if_splits)
qed

lemma achieves_clear_interrupt: "achieves cfg loaded h (\<lambda>h. nrf24l01_clear_interrupt h t) (\<lambda>c. c)"
proof (unfold achieves_def, intro allI impI)
  fix s res s'
  assume run: "run_state (nrf24l01_clear_interrupt (Some h) t) s = (res, s')" and i: "inited s = 1"
  obtain r1 v s1 where rd: "run_state (read_byte h 0x07) s = ((r1, v), s1)" by (metis prod.exhaust)
  let ?v = "(v AND NOT (push_bit (interrupt_val t) 1)) OR push_bit (interrupt_val t) 1"
  obtain r2 s2 where wr: "run_state (write_byte h 0x07 ?v) s1 = (r2, s2)" by (metis prod.exhaust)
  have 1: "same_obs cfg loaded s s1" using read_byte_spec(1) [OF rd] by simp
  have 2: "same_obs cfg loaded s1 s2"
    using wr by (auto simp: write_byte_def a_nrf24l01_spi_write_def dest!: write_status split: prod.splits if_splits)
  have "(if r1 \<noteq> 0 then run_state (fail_print h ''nrf24l01: get status register failed.'' 1) s1
     else if r2 \<noteq> 0 then run_state (fail_print h ''nrf24l01: set status register failed.'' 1) s2
     else (0, s2)) = (res, s')"
    using run i rd wr by (simp add: nrf24l01_clear_interrupt_def run_checked Let_def split: if_splits)
  with 1 2 i fail_print_frame [of _ "1 :: u8" s1 res s'] fail_print_frame [of _ "1 :: u8" s2 res s']
  show "inited s' = 1 \<and> fault s' = fault s \<and> (res = 0 \<longrightarrow> cfg (env s') = cfg (env s) \<and> loaded (env s') = loaded (env s))"
    by (auto simp: same_obs_def split: if_splits)
qed
end

subsection \<open>The effects of the start-up sequence\<close>

lemma payload_number_alt:
  "nrf24l01_set_pipe_0_payload_number (Some h) 32 = checked (Some h) id (\<lambda>h. do {
     res \<leftarrow> write_byte h 0x11 32; if res \<noteq> 0 then fail_print h ''nrf24l01: set pipe 0 payload number failed.'' 1 else ret 0 })"
  "nrf24l01_set_pipe_1_payload_number (Some h) 32 = checked (Some h) id (\<lambda>h. do {
     res \<leftarrow> write_byte h 0x12 32; if res \<noteq> 0 then fail_print h ''nrf24l01: set pipe 1 payload number failed.'' 1 else ret 0 })"
  "nrf24l01_set_pipe_2_payload_number (Some h) 32 = checked (Some h) id (\<lambda>h. do {
     res \<leftarrow> write_byte h 0x13 32; if res \<noteq> 0 then fail_print h ''nrf24l01: set pipe 2 payload number failed.'' 1 else ret 0 })"
  "nrf24l01_set_pipe_3_payload_number (Some h) 32 = checked (Some h) id (\<lambda>h. do {
     res \<leftarrow> write_byte h 0x14 32; if res \<noteq> 0 then fail_print h ''nrf24l01: set pipe 3 payload number failed.'' 1 else ret 0 })"
  "nrf24l01_set_pipe_4_payload_number (Some h) 32 = checked (Some h) id (\<lambda>h. do {
     res \<leftarrow> write_byte h 0x15 32; if res \<noteq> 0 then fail_print h ''nrf24l01: set pipe 4 payload number failed.'' 1 else ret 0 })"
  "nrf24l01_set_pipe_5_payload_number (Some h) 32 = checked (Some h) id (\<lambda>h. do {
     res \<leftarrow> write_byte h 0x16 32; if res \<noteq> 0 then fail_print h ''nrf24l01: set pipe 5 payload number failed.'' 1 else ret 0 })"
  by (simp_all add: driver_defs)

lemma set_retransmit_delay_alt:
  "set_retransmit_delay (Some h) = nrf24l01_set_auto_retransmit_delay (Some h) 3"
proof (rule state.expand, rule ext)
  fix s
  show "run_state (set_retransmit_delay (Some h)) s = run_state (nrf24l01_set_auto_retransmit_delay (Some h) 3) s"
  proof (cases "inited s = 1")
    case True
    then show ?thesis
      by (simp add: set_retransmit_delay_def nrf24l01_auto_retransmit_delay_convert_to_register_def run_checked)
  next
    case False
    then show ?thesis
      by (simp add: set_retransmit_delay_def nrf24l01_auto_retransmit_delay_convert_to_register_def
        nrf24l01_set_auto_retransmit_delay_def run_checked)
  qed
qed

text \<open>The register changes of the start-up sequence, step by step.\<close>

definition all_pipes :: "nrf24l01_pipe list" where
  "all_pipes = [NRF24L01_PIPE_0, NRF24L01_PIPE_1, NRF24L01_PIPE_2, NRF24L01_PIPE_3, NRF24L01_PIPE_4, NRF24L01_PIPE_5]"

definition effs_config :: "((u8 \<Rightarrow> u8 list) \<Rightarrow> u8 \<Rightarrow> u8 list) list" where
  "effs_config = (\<lambda>c. c) # map (\<lambda>f. upd_field (SetConfig f NRF24L01_BOOL_TRUE))
     [NRF24L01_CONFIG_PWR_UP, NRF24L01_CONFIG_CRCO, NRF24L01_CONFIG_EN_CRC,
      NRF24L01_CONFIG_MASK_MAX_RT, NRF24L01_CONFIG_MASK_TX_DS, NRF24L01_CONFIG_MASK_RX_DR]"

definition effs_mode :: "nrf24l01_type \<Rightarrow> ((u8 \<Rightarrow> u8 list) \<Rightarrow> u8 \<Rightarrow> u8 list) list" where
  "effs_mode type = [upd_field (SetMode (case type of NRF24L01_TYPE_TX \<Rightarrow> NRF24L01_MODE_TX | NRF24L01_TYPE_RX \<Rightarrow> NRF24L01_MODE_RX))]"

definition effs_pipes :: "((u8 \<Rightarrow> u8 list) \<Rightarrow> u8 \<Rightarrow> u8 list) list" where
  "effs_pipes = map (\<lambda>p. upd_field (SetAutoAcknowledgment p NRF24L01_BOOL_TRUE)) all_pipes @
     map (\<lambda>p. upd_field (SetRxPipe p NRF24L01_BOOL_TRUE)) all_pipes"

definition effs_rf :: "((u8 \<Rightarrow> u8 list) \<Rightarrow> u8 \<Rightarrow> u8 list) list" where
  "effs_rf = map upd_field
     [SetAddressWidth NRF24L01_ADDRESS_WIDTH_5_BYTES, SetRetransmitDelay 3, SetRetransmitCount 10,
      SetChannelFrequency 94, SetContinuousCarrier NRF24L01_BOOL_FALSE,
      SetForcePllLock NRF24L01_BOOL_FALSE, SetDataRate NRF24L01_DATA_RATE_2M,
      SetOutputPower NRF24L01_OUTPUT_POWER_0_DBM]"

definition effs_payload :: "((u8 \<Rightarrow> u8 list) \<Rightarrow> u8 \<Rightarrow> u8 list) list" where
  "effs_payload = map (\<lambda>r. upd_reg r [32]) [0x11, 0x12, 0x13, 0x14, 0x15, 0x16]"

definition effs_dynamic :: "((u8 \<Rightarrow> u8 list) \<Rightarrow> u8 \<Rightarrow> u8 list) list" where
  "effs_dynamic = map (\<lambda>p. upd_field (SetPipeDynamicPayload p NRF24L01_BOOL_TRUE)) all_pipes @
     map upd_field [SetDynamicPayload NRF24L01_BOOL_TRUE, SetPayloadWithAck NRF24L01_BOOL_TRUE,
       SetTxPayloadWithNoAck NRF24L01_BOOL_TRUE]"

definition effs_address :: "((u8 \<Rightarrow> u8 list) \<Rightarrow> u8 \<Rightarrow> u8 list) list" where
  "effs_address = [upd_reg 0x0A [0x00, 0x03, 0x02, 0x01, 0x1A], upd_reg 0x0B [0x01, 0x03, 0x02, 0x01, 0x1B],
     upd_reg 0x0C [2], upd_reg 0x0D [3], upd_reg 0x0E [4], upd_reg 0x0F [5]]"

definition init_effs :: "nrf24l01_type \<Rightarrow> ((u8 \<Rightarrow> u8 list) \<Rightarrow> u8 \<Rightarrow> u8 list) list" where
  "init_effs type = effs_config @ effs_mode type @ effs_pipes @ effs_rf @ replicate 4 (\<lambda>c. c) @
     effs_payload @ effs_dynamic @ effs_address @ replicate 3 (\<lambda>c. c)"

definition achieves_steps :: "('e \<Rightarrow> u8 \<Rightarrow> u8 list) \<Rightarrow> ('e \<Rightarrow> (u8 \<times> u8 list) list) \<Rightarrow> 'e nrf24l01_handle \<Rightarrow>
    'e step list \<Rightarrow> ((u8 \<Rightarrow> u8 list) \<Rightarrow> u8 \<Rightarrow> u8 list) list \<Rightarrow> bool" where
  "achieves_steps cfg loaded h steps effs \<longleftrightarrow>
     list_all2 (\<lambda>st eff. achieves cfg loaded h (fst st) eff) steps effs"

context nrf_bus
begin

lemma achieves_set_calls:
  "set_in_range x \<Longrightarrow> (\<And>h. call h = set_call h x) \<Longrightarrow> achieves cfg loaded h call (upd_field x)"
  using achieves_setting [of x] by (simp add: achieves_def)

lemma achieves_config: "achieves_steps cfg loaded h steps_config effs_config"
  unfolding achieves_steps_def steps_config_def effs_config_def
  by (simp add: achieves_active achieves_set_calls)

lemma achieves_mode: "achieves_steps cfg loaded h (steps_mode t) (effs_mode t)"
  unfolding achieves_steps_def steps_mode_def effs_mode_def
  by (cases t) (simp_all add: achieves_set_calls)

lemma achieves_pipes: "achieves_steps cfg loaded h steps_pipes effs_pipes"
  unfolding achieves_steps_def steps_pipes_def effs_pipes_def all_pipes_def
  by (simp add: achieves_set_calls)

lemma achieves_rf: "achieves_steps cfg loaded h steps_rf effs_rf"
proof -
  have "achieves cfg loaded h set_retransmit_delay (upd_field (SetRetransmitDelay 3))"
    using achieves_setting [of "SetRetransmitDelay 3"] by (simp add: achieves_def set_retransmit_delay_alt)
  then show ?thesis
    unfolding achieves_steps_def steps_rf_def effs_rf_def by (simp add: achieves_set_calls)
qed

lemma achieves_interrupts: "achieves_steps cfg loaded h steps_interrupts (replicate 4 (\<lambda>c. c))"
  unfolding achieves_steps_def steps_interrupts_def
  by (simp add: achieves_clear_interrupt numeral_eq_Suc)

lemma achieves_payload: "achieves_steps cfg loaded h steps_payload effs_payload"
  unfolding achieves_steps_def steps_payload_def effs_payload_def
  by (simp add: achieves_write_byte [OF payload_number_alt(1)] achieves_write_byte [OF payload_number_alt(2)]
     achieves_write_byte [OF payload_number_alt(3)] achieves_write_byte [OF payload_number_alt(4)]
     achieves_write_byte [OF payload_number_alt(5)] achieves_write_byte [OF payload_number_alt(6)]
     byte_regs_def reg_mask_def)

lemma achieves_dynamic: "achieves_steps cfg loaded h steps_dynamic effs_dynamic"
  unfolding achieves_steps_def steps_dynamic_def effs_dynamic_def all_pipes_def
  by (simp add: achieves_set_calls)

lemma achieves_addresses: "achieves_steps cfg loaded h steps_address effs_address"
proof -
  have "achieves cfg loaded h (\<lambda>h. nrf24l01_set_rx_pipe_0_address h (Some [0x1A, 0x01, 0x02, 0x03, 0x00]) 5)
      (upd_reg 0x0A (rev (take 5 [0x1A, 0x01, 0x02, 0x03, 0x00])))"
    by (rule achieves_address [OF set_address_calls(2)]) (simp_all add: addr_regs_def)
  moreover have "achieves cfg loaded h (\<lambda>h. nrf24l01_set_rx_pipe_1_address h (Some [0x1B, 0x01, 0x02, 0x03, 0x01]) 5)
      (upd_reg 0x0B (rev (take 5 [0x1B, 0x01, 0x02, 0x03, 0x01])))"
    by (rule achieves_address [OF set_address_calls(3)]) (simp_all add: addr_regs_def)
  ultimately show ?thesis
    unfolding achieves_steps_def steps_address_def effs_address_def
    by (simp add: achieves_write_byte [OF byte_setter_alt(1)] achieves_write_byte [OF byte_setter_alt(2)]
      achieves_write_byte [OF byte_setter_alt(3)] achieves_write_byte [OF byte_setter_alt(4)]
      byte_regs_def reg_mask_def)
qed

lemma achieves_activate: "achieves_steps cfg loaded h steps_activate (replicate 3 (\<lambda>c. c))"
proof -
  have "achieves cfg loaded h nrf24l01_flush_tx (\<lambda>c. c)"
    by (rule achieves_command [where c = "0xE1"]) (simp_all add: nrf24l01_flush_tx_def)
  moreover have "achieves cfg loaded h nrf24l01_flush_rx (\<lambda>c. c)"
    by (rule achieves_command [where c = "0xE2"]) (simp_all add: nrf24l01_flush_rx_def)
  ultimately show ?thesis
    unfolding achieves_steps_def steps_activate_def by (simp add: achieves_active numeral_eq_Suc)
qed

lemma achieves_init: "achieves_steps cfg loaded h (init_steps type) (init_effs type)"
  unfolding achieves_steps_def init_steps_def init_effs_def
  using achieves_config achieves_mode achieves_pipes achieves_rf achieves_interrupts achieves_payload
    achieves_dynamic achieves_addresses achieves_activate
  unfolding achieves_steps_def by (intro list_all2_appendI) 
end

subsection \<open>Opening, closing and running the steps\<close>

text \<open>Closing the driver clears the power bit of CONFIG.\<close>

definition power_down :: "(u8 \<Rightarrow> u8 list) \<Rightarrow> u8 \<Rightarrow> u8 list" where
  "power_down = upd_field (SetConfig NRF24L01_CONFIG_PWR_UP NRF24L01_BOOL_FALSE)"

lemma linked_functions [simp]:
  "debug_print (link_handle H cb) = Some (nrf24l01_interface_debug_print H)"
  "spi_init (link_handle H cb) = Some (nrf24l01_interface_spi_init H)"
  "spi_deinit (link_handle H cb) = Some (nrf24l01_interface_spi_deinit H)"
  "spi_read (link_handle H cb) = Some (nrf24l01_interface_spi_read H)"
  "spi_write (link_handle H cb) = Some (nrf24l01_interface_spi_write H)"
  "gpio_init (link_handle H cb) = Some (nrf24l01_interface_gpio_init H)"
  "gpio_deinit (link_handle H cb) = Some (nrf24l01_interface_gpio_deinit H)"
  "gpio_write (link_handle H cb) = Some (nrf24l01_interface_gpio_write H)"
  "delay_ms (link_handle H cb) = Some (nrf24l01_interface_delay_ms H)"
  "receive_callback (link_handle H cb) = cb"
  by (simp_all add: link_handle_def)

lemma nrf24l01_init_linked:
  "nrf24l01_init (Some (link_handle H (Some cb))) = do {
     m \<leftarrow> spiStart H;
     if m \<noteq> 0 then do { chvprintf H ''nrf24l01: spi init failed.'' []; ret 1 }
     else do { modify (\<lambda>s. s\<lparr>inited := 1\<rparr>); ret 0 } }"
  by (rule state.expand, rule ext)
    (simp add: nrf24l01_init_def nrf24l01_interface_spi_init_def split: prod.split)

context nrf_chip
begin

lemma deinit_spec:
  assumes run: "run_state (nrf24l01_deinit (Some (link_handle H cb))) s = (res, s')" and i: "inited s = 1"
  shows "fault s' = fault s \<and> (res = 0 \<or> res = 1) \<and> inited s' = (if res = 0 then 0 else 1) \<and>
    (res = 0 \<longrightarrow> cfg (env s') = power_down (cfg (env s)) \<and> loaded (env s') = loaded (env s))"
proof -
  let ?h = "link_handle H cb"
  obtain r1 s1 where n: "run_state (call_spi_write ?h 0xFF None 0) s = (r1, s1)" by (metis prod.exhaust)
  obtain r2 v s2 where rd: "run_state (read_byte ?h 0x00) s1 = ((r2, v), s2)" by (metis prod.exhaust)
  obtain r3 s3 where wr: "run_state (write_byte ?h 0x00 (v AND NOT 2)) s2 = (r3, s3)" by (metis prod.exhaust)
  have N: "same_obs cfg loaded s s1" using bus.write_command [OF n] by simp
  have R: "same_obs cfg loaded s1 s2" "r2 = 0 \<Longrightarrow> cfg (env s1) 0x00 = [v]"
    using bus.read_byte_spec [OF rd] by (simp_all add: byte_regs_def)
  have eq: "(if r1 \<noteq> 0 then run_state (fail_print ?h ''nrf24l01: nop failed.'' 1) s1
     else if r2 \<noteq> 0 then run_state (fail_print ?h ''nrf24l01: get config failed.'' 1) s2
     else if r3 \<noteq> 0 then run_state (fail_print ?h ''nrf24l01: set config failed.'' 1) s3
     else (0, s3\<lparr>inited := 0\<rparr>)) = (res, s')"
    using run i n rd wr by (simp add: nrf24l01_deinit_def run_checked Let_def split: if_splits)
  have W: "inited s3 = inited s2 \<and> fault s3 = fault s2 \<and> (r3 = 0 \<longrightarrow> reg_written cfg loaded 0x00 [v AND NOT 2] s2 s3)" if "r2 = 0"
  proof -
    have c: "cfg (env s1) 0x00 = [v]" using that R by simp
    have "v AND NOT 0x7F = 0"
      using chip_legal [of "0x00" "env s1"] c by (simp add: cfg_regs_def byte_regs_def reg_mask_def)
    then have "(v AND NOT 2) AND NOT (reg_mask 0x00) = 0"
      using put_field_legal [of v "0x7F" 0 2] by (simp add: put_field_def reg_mask_def)
    from bus.write_byte_spec [OF wr _ this] show ?thesis by (simp add: byte_regs_def)
  qed
  have P: "cfg (env s) 0x00 = [v] \<Longrightarrow> power_down (cfg (env s)) = (cfg (env s))(0x00 := [v AND NOT 2])"
    by (simp add: power_down_def upd_field_def put_field_def)
  show ?thesis
  proof (cases "r1 = 0 \<and> r2 = 0 \<and> r3 = 0")
    case True
    with eq have "res = 0" "s' = s3\<lparr>inited := 0\<rparr>" by auto
    then show ?thesis using True N R W P by (simp add: same_obs_def reg_written_def)
  next
    case False
    have "\<exists>t m. inited t = 1 \<and> fault t = fault s \<and> run_state (fail_print ?h m (1 :: u8)) t = (res, s')"
    proof -
      consider "r1 \<noteq> 0" | "r1 = 0" "r2 \<noteq> 0" | "r1 = 0" "r2 = 0" "r3 \<noteq> 0" using False by blast
      then show ?thesis
        using eq N R(1) W i by cases (auto simp: same_obs_def)
    qed
    then obtain t m where t: "inited t = 1" "fault t = fault s"
      and f: "run_state (fail_print ?h m (1 :: u8)) t = (res, s')" by blast
    from bus.fail_print_frame [OF f] t show ?thesis by (simp add: same_obs_def)
  qed
qed

text \<open>A sequence of steps: memory safe on every path, and on success all effects in order.\<close>

lemma run_steps_spec:
  assumes "achieves_steps cfg loaded (link_handle H cb) steps effs"
    and "run_state (run_steps H steps) s = (res, s')"
    and "gs_handle s = link_handle H cb" and "inited (nrf s) = 1"
  shows "(\<exists>n. s' = s\<lparr>nrf := n\<rparr>) \<and> fault (nrf s') = fault (nrf s) \<and> (res = 0 \<or> res = 1) \<and>
    (res = 0 \<longrightarrow> inited (nrf s') = 1 \<and> cfg (env (nrf s')) = fold (\<lambda>f. f) effs (cfg (env (nrf s))) \<and>
      loaded (env (nrf s')) = loaded (env (nrf s)))"
  using assms
proof (induction steps arbitrary: effs s)
  case Nil
  then show ?case by (auto simp: achieves_steps_def intro: exI [of _ "nrf s"])
next
  case (Cons st steps)
  obtain call msg where st: "st = (call, msg)" by (metis prod.exhaust)
  obtain eff effs' where effs: "effs = eff # effs'" and hd: "achieves cfg loaded (link_handle H cb) call eff"
    and tl: "achieves_steps cfg loaded (link_handle H cb) steps effs'"
    using Cons.prems(1) st by (auto simp: achieves_steps_def list_all2_Cons1)
  obtain r1 n1 where c: "run_state (call (Some (link_handle H cb))) (nrf s) = (r1, n1)" by (metis prod.exhaust)
  have A: "inited n1 = 1 \<and> fault n1 = fault (nrf s) \<and>
      (r1 = 0 \<longrightarrow> cfg (env n1) = eff (cfg (env (nrf s))) \<and> loaded (env n1) = loaded (env (nrf s)))"
    using hd c Cons.prems(4) by (simp add: achieves_def)
  show ?case
  proof (cases "r1 = 0")
    case True
    then have "run_state (run_steps H steps) (s\<lparr>nrf := n1\<rparr>) = (res, s')"
      using Cons.prems(2,3) c st by simp
    from Cons.IH [OF tl this] Cons.prems(3) A True effs show ?thesis by auto
  next
    case False
    obtain u n2 where p: "run_state (chvprintf H msg []) n1 = (u, n2)" by (metis prod.exhaust)
    obtain r3 n3 where d: "run_state (nrf24l01_deinit (Some (link_handle H cb))) n2 = (r3, n3)" by (metis prod.exhaust)
    have "res = 1" "s' = s\<lparr>nrf := n3\<rparr>"
      using Cons.prems(2,3) c st p d False by simp_all
    with printf_frame [OF p] deinit_spec [OF d] A show ?thesis by (auto simp: same_obs_def)
  qed
qed

lemma nrf24l01_init_spec:
  assumes run: "run_state (nrf24l01_init (Some (link_handle H (Some cb)))) s = (res, s')"
  shows "fault s' = fault s \<and> cfg (env s') = cfg (env s) \<and> loaded (env s') = loaded (env s) \<and>
    (res = 0 \<or> res = 1) \<and> (res = 0 \<longrightarrow> inited s' = 1) \<and> (res = 1 \<longrightarrow> inited s' = inited s)"
proof -
  obtain m s1 where st: "run_state (spiStart H) s = (m, s1)" by (metis prod.exhaust)
  obtain u s2 where p: "run_state (chvprintf H ''nrf24l01: spi init failed.'' []) s1 = (u, s2)" by (metis prod.exhaust)
  have "(res, s') = (if m \<noteq> 0 then (1, s2) else (0, s1\<lparr>inited := 1\<rparr>))"
    using run st p by (simp add: nrf24l01_init_linked split: if_splits)
  with start_frame [OF st] printf_frame [OF p] show ?thesis by (auto simp: same_obs_def split: if_splits)
qed
end

subsection \<open>The register file after start-up\<close>

lemma put_field_comp: "put_field m2 b2 (put_field m1 b1 v) = put_field (m1 OR m2) ((b1 AND NOT m2) OR b2) v"
  by (rule bit_word_eqI) (auto simp: put_field_def bit_simps)

lemma map_put_field: "map (put_field m2 b2) (map (put_field m1 b1) bs) =
    map (put_field (m1 OR m2) ((b1 AND NOT m2) OR b2)) bs"
  by (simp add: put_field_comp)

lemma put_field_full: "v AND NOT m = 0 \<Longrightarrow> put_field m b v = b"
  by (simp add: put_field_def)

definition init_config :: "nrf24l01_type \<Rightarrow> u8" where
  "init_config type = (case type of NRF24L01_TYPE_TX \<Rightarrow> 0x7E | NRF24L01_TYPE_RX \<Rightarrow> 0x7F)"

lemma fold_config_mode: "fold (\<lambda>f. f) (effs_mode type) (fold (\<lambda>f. f) effs_config c) =
    c(0 := map (put_field 0x7F (init_config type)) (c 0))"
  by (cases type) (simp_all add: effs_config_def effs_mode_def upd_field_def put_field_comp init_config_def o_def)

lemma fold_pipes: "fold (\<lambda>f. f) effs_pipes c =
    c(1 := map (put_field 0x3F 0x3F) (c 1), 2 := map (put_field 0x3F 0x3F) (c 2))"
  by (simp add: effs_pipes_def all_pipes_def upd_field_def put_field_comp o_def)

lemma fold_rf: "fold (\<lambda>f. f) effs_rf c =
    c(3 := map (put_field 3 3) (c 3), 4 := map (put_field 0xFF 0x3A) (c 4),
      5 := map (put_field 0x7F 94) (c 5), 6 := map (put_field 0xBE 0x0E) (c 6))"
  by (simp add: effs_rf_def upd_field_def put_field_comp o_def)

lemma fold_payload: "fold (\<lambda>f. f) effs_payload c =
    c(0x11 := [32], 0x12 := [32], 0x13 := [32], 0x14 := [32], 0x15 := [32], 0x16 := [32])"
  by (simp add: effs_payload_def upd_reg_def)

lemma fold_dynamic: "fold (\<lambda>f. f) effs_dynamic c =
    c(0x1C := map (put_field 0x3F 0x3F) (c 0x1C), 0x1D := map (put_field 7 7) (c 0x1D))"
  by (simp add: effs_dynamic_def all_pipes_def upd_field_def put_field_comp o_def)

lemma fold_address: "fold (\<lambda>f. f) effs_address c =
    c(0x0A := [0x00, 0x03, 0x02, 0x01, 0x1A], 0x0B := [0x01, 0x03, 0x02, 0x01, 0x1B],
      0x0C := [2], 0x0D := [3], 0x0E := [4], 0x0F := [5])"
  by (simp add: effs_address_def upd_reg_def)

lemma fold_ids: "fold (\<lambda>f. f) (replicate n (\<lambda>c. c)) c = c"
  by (induction n) simp_all

lemmas fold_stages = fold_pipes fold_rf fold_payload fold_dynamic fold_address fold_ids

text \<open>The registers the start-up sequence writes; the transmit address is not among them.\<close>

definition init_value :: "nrf24l01_type \<Rightarrow> u8 \<Rightarrow> u8 list" where
  "init_value type r =
     (if r = 0x00 then [init_config type]
      else if r = 0x01 \<or> r = 0x02 \<or> r = 0x1C then [0x3F]
      else if r = 0x03 then [0x03]
      else if r = 0x04 then [0x3A]
      else if r = 0x05 then [94]
      else if r = 0x06 then [0x0E]
      else if r = 0x0A then rev [0x1A, 0x01, 0x02, 0x03, 0x00]
      else if r = 0x0B then rev [0x1B, 0x01, 0x02, 0x03, 0x01]
      else if r = 0x0C then [0x02]
      else if r = 0x0D then [0x03]
      else if r = 0x0E then [0x04]
      else if r = 0x0F then [0x05]
      else if r = 0x1D then [0x07]
      else [32])"

lemma fold_init:
  "fold (\<lambda>f. f) (init_effs type) c = c(
     0 := map (put_field 0x7F (init_config type)) (c 0),
     1 := map (put_field 0x3F 0x3F) (c 1), 2 := map (put_field 0x3F 0x3F) (c 2),
     3 := map (put_field 3 3) (c 3), 4 := map (put_field 0xFF 0x3A) (c 4),
     5 := map (put_field 0x7F 94) (c 5), 6 := map (put_field 0xBE 0x0E) (c 6),
     0x11 := [32], 0x12 := [32], 0x13 := [32], 0x14 := [32], 0x15 := [32], 0x16 := [32],
     0x1C := map (put_field 0x3F 0x3F) (c 0x1C), 0x1D := map (put_field 7 7) (c 0x1D),
     0x0A := [0x00, 0x03, 0x02, 0x01, 0x1A], 0x0B := [0x01, 0x03, 0x02, 0x01, 0x1B],
     0x0C := [2], 0x0D := [3], 0x0E := [4], 0x0F := [5])"
  by (simp only: init_effs_def fold_append comp_def fold_config_mode fold_stages) simp

lemma init_table:
  assumes w: "\<And>r. r \<in> cfg_regs \<Longrightarrow> length (c r) = reg_width r" and l: "\<And>r. r \<in> cfg_regs \<Longrightarrow> legal r (c r)"
    and r: "r \<in> cfg_regs" "r \<noteq> 0x10"
  shows "fold (\<lambda>f. f) (init_effs type) c r = init_value type r"
proof -
  have full: "map (put_field (reg_mask q) b) (c q) = [b]" if "q \<in> byte_regs" for q b
  proof -
    have "length (c q) = 1" using w [of q] that by (auto simp: cfg_regs_def reg_width_def byte_regs_def addr_regs_def)
    then obtain v where "c q = [v]" by (cases "c q") auto
    with l [of q] that show ?thesis by (simp add: cfg_regs_def put_field_full)
  qed
  show ?thesis
    using r unfolding fold_init cfg_regs_def byte_regs_def addr_regs_def
    using full [of 0] full [of 1] full [of 2] full [of 3] full [of 4] full [of 5] full [of 6] full [of "0x1C"] full [of "0x1D"]
    by (auto simp: init_value_def reg_mask_def byte_regs_def)
qed

subsection \<open>Start-up and sending\<close>

lemma basic_width [simp]: "basic_width = 5"
  by (simp add: basic_width_def)

context nrf_chip
begin

lemma printf_snd: "same_obs cfg loaded s (snd (run_state (chvprintf H m as) s))"
  by (rule printf_frame [of m as s "()"]) (simp add: prod_eq_iff)

lemma basic_init_spec:
  assumes run: "run_state (nrf24l01_basic_init H type (Some cb)) s = (res, s')"
  shows "fault (nrf s') = fault (nrf s)" "res = 0 \<or> res = 1"
    "gs_handle s' = link_handle H (Some cb)" "gs_tx_addr s' = gs_tx_addr s" "gs_tx_addr_set s' = gs_tx_addr_set s"
    "res = 0 \<Longrightarrow> inited (nrf s') = 1 \<and> loaded (env (nrf s')) = loaded (env (nrf s)) \<and>
      cfg (env (nrf s')) = fold (\<lambda>f. f) (init_effs type) (cfg (env (nrf s)))"
proof -
  let ?h = "link_handle H (Some cb)"
  define s0 where "s0 = s\<lparr>nrf := (nrf s)\<lparr>inited := 0, finished := 0\<rparr>, gs_handle := ?h\<rparr>"
  have l: "run_state (link_all H (Some cb)) s = ((), s0)" "gs_handle s0 = ?h"
    by (simp_all add: link_all_def s0_def)
  obtain r1 n1 where i: "run_state (nrf24l01_init (Some ?h)) (nrf s0) = (r1, n1)" by (metis prod.exhaust)
  note I = nrf24l01_init_spec [OF i]
  have eq: "(if r1 \<noteq> 0 then run_state (do { basic_print H ''nrf24l01: init failed.'' []; ret 1 }) (s0\<lparr>nrf := n1\<rparr>)
      else run_state (run_steps H (init_steps type)) (s0\<lparr>nrf := n1\<rparr>)) = (res, s')"
    using run i l by (simp add: nrf24l01_basic_init_def split: if_splits)
  have "(\<exists>n. s' = s0\<lparr>nrf := n\<rparr>) \<and> fault (nrf s') = fault (nrf s0) \<and> (res = 0 \<or> res = 1) \<and>
    (res = 0 \<longrightarrow> inited (nrf s') = 1 \<and> cfg (env (nrf s')) = fold (\<lambda>f. f) (init_effs type) (cfg (env (nrf s0))) \<and>
      loaded (env (nrf s')) = loaded (env (nrf s0)))"
  proof (cases "r1 = 0")
    case True
    with eq have rs: "run_state (run_steps H (init_steps type)) (s0\<lparr>nrf := n1\<rparr>) = (res, s')" by simp
    have "gs_handle (s0\<lparr>nrf := n1\<rparr>) = ?h" "inited (nrf (s0\<lparr>nrf := n1\<rparr>)) = 1"
      using I True by (simp_all add: s0_def)
    from run_steps_spec [OF bus.achieves_init rs this] I show ?thesis by auto
  next
    case False
    obtain u n2 where p: "run_state (chvprintf H ''nrf24l01: init failed.'' []) n1 = (u, n2)" by (metis prod.exhaust)
    from eq False p have "res = 1" "s' = s0\<lparr>nrf := n2\<rparr>" by simp_all
    with printf_frame [OF p] I show ?thesis by (auto simp: same_obs_def)
  qed
  then show "fault (nrf s') = fault (nrf s)" "res = 0 \<or> res = 1"
    "gs_handle s' = ?h" "gs_tx_addr s' = gs_tx_addr s" "gs_tx_addr_set s' = gs_tx_addr_set s"
    "res = 0 \<Longrightarrow> inited (nrf s') = 1 \<and> loaded (env (nrf s')) = loaded (env (nrf s)) \<and>
      cfg (env (nrf s')) = fold (\<lambda>f. f) (init_effs type) (cfg (env (nrf s)))"
    by (auto simp: s0_def)
qed

lemma set_addresses:
  assumes "5 \<le> length a"
  shows "achieves cfg loaded (link_handle H cb) (\<lambda>h. nrf24l01_set_tx_address h (Some a) 5) (upd_reg 0x10 (rev (take 5 a)))"
    and "achieves cfg loaded (link_handle H cb) (\<lambda>h. nrf24l01_set_rx_pipe_0_address h (Some a) 5) (upd_reg 0x0A (rev (take 5 a)))"
  by (rule bus.achieves_address [OF set_address_calls(1)], use assms in \<open>simp_all add: addr_regs_def\<close>)
    (rule bus.achieves_address [OF set_address_calls(2)], use assms in \<open>simp_all add: addr_regs_def\<close>)

lemma basic_send_spec:
  assumes run: "run_state (nrf24l01_basic_send H (Some a) (Some buf) len use_ack) s = (res, s')"
    and h: "gs_handle s = link_handle H cb" and i: "inited (nrf s) = 1"
    and a: "5 \<le> length a" and len: "len \<le> 32" "unat len \<le> length buf"
  shows "fault (nrf s') = fault (nrf s) \<and> inited (nrf s') = 1 \<and> res \<in> {0, 1, 2, 3} \<and> (\<exists>n. s' = s\<lparr>nrf := n\<rparr>) \<and>
    (res = 0 \<longrightarrow>
       cfg (env (nrf s')) = (cfg (env (nrf s)))(0x10 := rev (take 5 a), 0x0A := rev (take 5 a)) \<and>
       loaded (env (nrf s')) = loaded (env (nrf s)) @ [(payload_cmd use_ack, rev (take (unat len) buf))] \<and>
       (use_ack = NRF24L01_BOOL_TRUE \<longrightarrow> finished (nrf s') = 1))"
proof -
  let ?h = "Some (link_handle H cb)"
  obtain r1 n1 where x1: "run_state (nrf24l01_set_active ?h NRF24L01_BOOL_FALSE) (nrf s) = (r1, n1)" by (metis prod.exhaust)
  obtain r2 n2 where x2: "run_state (nrf24l01_set_tx_address ?h (Some a) 5) n1 = (r2, n2)" by (metis prod.exhaust)
  obtain r3 n3 where x3: "run_state (nrf24l01_set_rx_pipe_0_address ?h (Some a) 5) n2 = (r3, n3)" by (metis prod.exhaust)
  obtain r4 n4 where x4: "run_state (nrf24l01_send ?h (Some buf) len use_ack) n3 = (r4, n4)" by (metis prod.exhaust)
  note a1 = bus.achieves_active [unfolded achieves_def, rule_format, OF x1 i]
  note a2 = set_addresses(1) [OF a, unfolded achieves_def, rule_format, OF x2]
  note a3 = set_addresses(2) [OF a, unfolded achieves_def, rule_format, OF x3]
  note a4 = bus.send_spec [OF x4 _ len]
  have ini: "inited n1 = 1" "inited n2 = 1" "inited n3 = 1" using a1 a2 a3 by simp_all
  let ?p = "\<lambda>m r n. snd (run_state (chvprintf H m [r]) n)"
  have eq: "(res, s') = (if r1 \<noteq> 0 then (1, s\<lparr>nrf := ?p ''nrf24l01: set active failed. with %d'' r1 n1\<rparr>)
      else if r2 \<noteq> 0 then (2, s\<lparr>nrf := ?p ''nrf24l01: set tx address failed. with %d'' r2 n2\<rparr>)
      else if r3 \<noteq> 0 then (3, s\<lparr>nrf := ?p ''nrf24l01: set rx pipe 0 address failed. with %d'' r3 n3\<rparr>)
      else (if r4 \<noteq> 0 then 1 else 0, s\<lparr>nrf := n4\<rparr>))"
    using run h x1 x2 x3 x4 by (simp add: nrf24l01_basic_send_def split: if_splits)
  consider "r1 \<noteq> 0" | "r1 = 0" "r2 \<noteq> 0" | "r1 = 0" "r2 = 0" "r3 \<noteq> 0" | "r1 = 0" "r2 = 0" "r3 = 0"
    by blast
  then show ?thesis
  proof cases
    case 1
    with eq a1 printf_snd [of n1] show ?thesis by (auto simp: same_obs_def)
  next
    case 2
    with eq a1 a2 printf_snd [of n2] show ?thesis by (auto simp: same_obs_def)
  next
    case 3
    with eq a1 a2 a3 printf_snd [of n3] show ?thesis by (auto simp: same_obs_def)
  next
    case 4
    with eq have "s' = s\<lparr>nrf := n4\<rparr>" "res = (if r4 \<noteq> 0 then 1 else 0)" by simp_all
    with 4 a1 a2 a3 a4 ini show ?thesis by (auto simp: upd_reg_def)
  qed
qed

lemma basic_set_tx_address_spec:
  assumes run: "run_state (nrf24l01_basic_set_tx_address H (Some a)) s = (res, s')"
    and h: "gs_handle s = link_handle H cb" and i: "inited (nrf s) = 1" and a: "5 \<le> length a"
  shows "fault (nrf s') = fault (nrf s) \<and> inited (nrf s') = 1 \<and> (res = 0 \<or> res = 1) \<and>
    (res = 0 \<longrightarrow> gs_tx_addr s' = take 5 a \<and> gs_tx_addr_set s' = 1 \<and>
       cfg (env (nrf s')) = (cfg (env (nrf s)))(0x10 := rev (take 5 a), 0x0A := rev (take 5 a)))"
proof -
  let ?h = "Some (link_handle H cb)"
  obtain r2 n2 where x2: "run_state (nrf24l01_set_tx_address ?h (Some a) 5) (nrf s) = (r2, n2)" by (metis prod.exhaust)
  obtain r3 n3 where x3: "run_state (nrf24l01_set_rx_pipe_0_address ?h (Some a) 5) n2 = (r3, n3)" by (metis prod.exhaust)
  note a2 = set_addresses(1) [OF a, unfolded achieves_def, rule_format, OF x2 i]
  note a3 = set_addresses(2) [OF a, unfolded achieves_def, rule_format, OF x3]
  let ?p = "\<lambda>m r n. snd (run_state (chvprintf H m [r]) n)"
  have eq: "(res, s') = (if r2 \<noteq> 0 then (1, s\<lparr>nrf := ?p ''nrf24l01: set tx address failed. with %d'' r2 n2\<rparr>)
      else if r3 \<noteq> 0 then (1, s\<lparr>nrf := ?p ''nrf24l01: set rx pipe 0 address failed. with %d'' r3 n3\<rparr>)
      else (0, s\<lparr>nrf := n3, gs_tx_addr := take 5 a, gs_tx_addr_set := 1\<rparr>))"
    using run h x2 x3 a
    by (simp add: nrf24l01_basic_set_tx_address_def copy_in_Some split: if_splits)
  consider "r2 \<noteq> 0" | "r2 = 0" "r3 \<noteq> 0" | "r2 = 0" "r3 = 0" by blast
  then show ?thesis
  proof cases
    case 1
    with eq a2 printf_snd [of n2] show ?thesis by (auto simp: same_obs_def)
  next
    case 2
    with eq a2 a3 printf_snd [of n3] show ?thesis by (auto simp: same_obs_def)
  next
    case 3
    with eq a2 a3 show ?thesis by (simp add: upd_reg_def)
  qed
qed
end

end
