(* ===== verification/Nrf24_Setters.thy ===== *)
theory Nrf24_Setters
  imports Nrf24_Basic_Bus
begin

text \<open>
  All functions of the driver that write registers, as one datatype \<open>setter\<close>: the field settings of
  \<open>Nrf24_Spec\<close>, the payload widths of the pipes, the addresses, the raw write of a one-byte register and
  the reset of an interrupt flag. Each has a specification of its effect on the register file.
\<close>

datatype byte_slot = Rx_Pipe_2 | Rx_Pipe_3 | Rx_Pipe_4 | Rx_Pipe_5

datatype setter =
    Field setting
  | PayloadNumber nrf24l01_pipe u8
  | ByteAddress byte_slot u8
  | Address address_slot "u8 list"
  | RawRegister u8 u8
  | ClearInterrupt nrf24l01_interrupt

fun set_payload_number :: "'e nrf24l01_handle option \<Rightarrow> nrf24l01_pipe \<Rightarrow> u8 \<Rightarrow> ('e nrf_state, u8) state" where
  "set_payload_number h NRF24L01_PIPE_0 n = nrf24l01_set_pipe_0_payload_number h n"
| "set_payload_number h NRF24L01_PIPE_1 n = nrf24l01_set_pipe_1_payload_number h n"
| "set_payload_number h NRF24L01_PIPE_2 n = nrf24l01_set_pipe_2_payload_number h n"
| "set_payload_number h NRF24L01_PIPE_3 n = nrf24l01_set_pipe_3_payload_number h n"
| "set_payload_number h NRF24L01_PIPE_4 n = nrf24l01_set_pipe_4_payload_number h n"
| "set_payload_number h NRF24L01_PIPE_5 n = nrf24l01_set_pipe_5_payload_number h n"

fun set_byte_address :: "'e nrf24l01_handle option \<Rightarrow> byte_slot \<Rightarrow> u8 \<Rightarrow> ('e nrf_state, u8) state" where
  "set_byte_address h Rx_Pipe_2 a = nrf24l01_set_rx_pipe_2_address h a"
| "set_byte_address h Rx_Pipe_3 a = nrf24l01_set_rx_pipe_3_address h a"
| "set_byte_address h Rx_Pipe_4 a = nrf24l01_set_rx_pipe_4_address h a"
| "set_byte_address h Rx_Pipe_5 a = nrf24l01_set_rx_pipe_5_address h a"

fun setter_call :: "'e nrf24l01_handle option \<Rightarrow> setter \<Rightarrow> ('e nrf_state, u8) state" where
  "setter_call h (Field x) = set_call h x"
| "setter_call h (PayloadNumber p n) = set_payload_number h p n"
| "setter_call h (ByteAddress k a) = set_byte_address h k a"
| "setter_call h (Address k a) = set_slot h k (Some a) (of_nat (length a))"
| "setter_call h (RawRegister r v) = nrf24l01_set_reg h r (Some [v]) 1"
| "setter_call h (ClearInterrupt t) = nrf24l01_clear_interrupt h t"

text \<open>The arguments that a setter accepts; an address has at least one byte.\<close>

fun setter_in_range :: "setter \<Rightarrow> bool" where
  "setter_in_range (Field x) = set_in_range x"
| "setter_in_range (PayloadNumber p n) = (n \<le> 0x3F)"
| "setter_in_range (Address k a) = (0 < length a \<and> length a < 256)"
| "setter_in_range (RawRegister r v) = (r \<in> byte_regs \<and> v AND NOT (reg_mask r) = 0)"
| "setter_in_range _ = True"

fun payload_number_reg :: "nrf24l01_pipe \<Rightarrow> u8" where
  "payload_number_reg NRF24L01_PIPE_0 = 0x11"
| "payload_number_reg NRF24L01_PIPE_1 = 0x12"
| "payload_number_reg NRF24L01_PIPE_2 = 0x13"
| "payload_number_reg NRF24L01_PIPE_3 = 0x14"
| "payload_number_reg NRF24L01_PIPE_4 = 0x15"
| "payload_number_reg NRF24L01_PIPE_5 = 0x16"

fun byte_slot_reg :: "byte_slot \<Rightarrow> u8" where
  "byte_slot_reg Rx_Pipe_2 = 0x0C"
| "byte_slot_reg Rx_Pipe_3 = 0x0D"
| "byte_slot_reg Rx_Pipe_4 = 0x0E"
| "byte_slot_reg Rx_Pipe_5 = 0x0F"

text \<open>The effect on the register file; an address is stored from its last byte on.\<close>

fun setter_effect :: "setter \<Rightarrow> (u8 \<Rightarrow> u8 list) \<Rightarrow> u8 \<Rightarrow> u8 list" where
  "setter_effect (Field x) c = c(set_reg x := map (put_field (set_field x) (set_bits x)) (c (set_reg x)))"
| "setter_effect (PayloadNumber p n) c = c(payload_number_reg p := [n])"
| "setter_effect (ByteAddress k a) c = c(byte_slot_reg k := [a])"
| "setter_effect (Address k a) c = c(slot_reg k := rev a @ drop (length a) (c (slot_reg k)))"
| "setter_effect (RawRegister r v) c = c(r := [v])"
| "setter_effect (ClearInterrupt t) c = c"

lemma payload_number_body:
  "n \<le> 0x3F \<Longrightarrow> \<exists>m. set_payload_number (Some h) p n =
     checked (Some h) id (\<lambda>h. do { res \<leftarrow> write_byte h (payload_number_reg p) n; if res \<noteq> 0 then fail_print h m 1 else ret 0 })"
  by (cases p) (auto simp: driver_defs not_less [symmetric] intro!: exI cong del: if_weak_cong)

lemma byte_address_body:
  "\<exists>m. set_byte_address (Some h) k a =
     checked (Some h) id (\<lambda>h. do { res \<leftarrow> write_byte h (byte_slot_reg k) a; if res \<noteq> 0 then fail_print h m 1 else ret 0 })"
  by (cases k) (auto simp: driver_defs intro!: exI)

lemma byte_slots_legal:
  "payload_number_reg p \<in> byte_regs" "n \<le> 0x3F \<Longrightarrow> n AND NOT (reg_mask (payload_number_reg p)) = 0"
  "byte_slot_reg k \<in> byte_regs" "a AND NOT (reg_mask (byte_slot_reg k)) = 0"
proof -
  show "payload_number_reg p \<in> byte_regs" by (cases p) (simp_all add: byte_regs_def)
  show "byte_slot_reg k \<in> byte_regs" by (cases k) (simp_all add: byte_regs_def)
  show "a AND NOT (reg_mask (byte_slot_reg k)) = 0" by (cases k) (simp_all add: reg_mask_def)
  assume "n \<le> 0x3F"
  then have "n < 2 ^ 6" by (simp add: word_le_nat_alt word_less_nat_alt)
  from small_mask [OF this] show "n AND NOT (reg_mask (payload_number_reg p)) = 0"
    by (cases p) (simp_all add: reg_mask_def mask_eq_exp_minus_1)
qed

context nrf_bus
begin

text \<open>A setter of one byte, behind the check of the handle.\<close>

lemma byte_setter_spec:
  assumes "run_state (checked (Some h) id (\<lambda>h. do { res \<leftarrow> write_byte h r v; if res \<noteq> 0 then fail_print h m 1 else ret 0 })) s = (res, s')"
    and "inited s = 1" and "r \<in> byte_regs" and "v AND NOT (reg_mask r) = 0"
  shows "inited s' = 1 \<and> fault s' = fault s \<and> (res = 0 \<or> res = 1) \<and>
    (res = 0 \<longrightarrow> cfg (env s') = (cfg (env s))(r := [v]) \<and> loaded (env s') = loaded (env s))"
proof -
  have "run_state (do { res \<leftarrow> write_byte h r v; if res \<noteq> 0 then fail_print h m 1 else ret 0 }) s = (res, s')"
    using assms(1,2) by (simp add: run_checked)
  from write_byte_result [OF this assms(3,4)] assms(2) show ?thesis by (auto simp: reg_written_def)
qed

lemma clear_interrupt_result:
  assumes "run_state (nrf24l01_clear_interrupt (Some h) t) s = (res, s')" and "inited s = 1"
  shows "res = 0 \<or> res = 1"
  using assms fail_print_frame [of _ "1 :: u8"]
  by (auto simp: nrf24l01_clear_interrupt_def run_checked Let_def split: prod.splits if_splits)

lemma setter_spec:
  assumes run: "run_state (setter_call (Some h) x) s = (res, s')" and i: "inited s = 1" and range: "setter_in_range x"
  shows "inited s' = 1 \<and> fault s' = fault s \<and> (res = 0 \<or> res = 1 \<or> res = 4 \<and> (\<exists>k a. x = Address k a)) \<and>
    (res = 0 \<longrightarrow> cfg (env s') = setter_effect x (cfg (env s)) \<and> loaded (env s') = loaded (env s))"
proof (cases x)
  case (Field y)
  from set_call_spec [of y s res s'] run i range Field show ?thesis by (auto simp: reg_written_def)
next
  case (PayloadNumber p n)
  then obtain m where "set_payload_number (Some h) p n =
      checked (Some h) id (\<lambda>h. do { res \<leftarrow> write_byte h (payload_number_reg p) n; if res \<noteq> 0 then fail_print h m 1 else ret 0 })"
    using payload_number_body range by fastforce
  from byte_setter_spec [of _ n m s res s', OF _ i byte_slots_legal(1,2)] this run range PayloadNumber show ?thesis by auto
next
  case (ByteAddress k a)
  obtain m where "set_byte_address (Some h) k a =
      checked (Some h) id (\<lambda>h. do { res \<leftarrow> write_byte h (byte_slot_reg k) a; if res \<noteq> 0 then fail_print h m 1 else ret 0 })"
    using byte_address_body by blast
  from byte_setter_spec [of _ a m s res s', OF _ i byte_slots_legal(3,4)] this run ByteAddress show ?thesis by auto
next
  case (Address k a)
  obtain m where "run_state (set_address h (slot_reg k) m (Some a) (of_nat (length a))) s = (res, s')"
    using set_slot_body [of h k] run i Address by (metis run_checked(3) setter_call.simps(4))
  moreover have "unat (of_nat (length a) :: u8) = length a" "(0 :: u8) < of_nat (length a)"
    using range Address by (simp_all add: unat_of_nat word_less_nat_alt)
  ultimately show ?thesis
    using set_address_spec [OF _ slot_reg_addr, of k m a "of_nat (length a)" s res s'] i Address by (auto simp: reg_written_def)
next
  case (RawRegister r v)
  then have "run_state (write_byte h r v) s = (res, s')"
    using run i by (simp add: nrf24l01_set_reg_def run_checked write_byte_def)
  from write_byte_spec [OF this] range i RawRegister show ?thesis by (auto simp: reg_written_def)
next
  case (ClearInterrupt t)
  then show ?thesis
    using achieves_clear_interrupt [of t] clear_interrupt_result [of t s res s'] run i by (auto simp: achieves_def)
qed

end

end
