(* ===== verification/Nrf24_Sim.thy ===== *)
theory Nrf24_Sim
  imports Nrf24_Irq "HOL-Library.AList"
begin

text \<open>
  A reference model of the radio behind the HAL: a register file with the reserved bits tied
  to 0, the STATUS register with its write-one-to-clear flags, the receive FIFO, the history of
  transmit payloads, the chip enable line and the console. It is not part of the program: it
  shows that the contract \<open>nrf_chip\<close> can be met, and the concrete runs of the driver are
  evaluated on it. \<open>interrupt_sets\<close> is the value the interrupt thread stores in \<open>finished\<close>
  while the sender sleeps, 0 when no interrupt arrives.
\<close>

record chip =
  regs :: "(u8 \<times> u8 list) list"
  sent :: "(u8 \<times> u8 list) list"
  status_reg :: u8
  rx_fifo :: "u8 list list"
  chip_enable :: bool
  console :: "(string \<times> u8 list) list"
  interrupt_sets :: u8
  callback_log :: "(u8 \<times> u8 \<times> cptr \<times> u8) list"

definition reg_bytes :: "(u8 \<times> u8 list) list \<Rightarrow> u8 \<Rightarrow> u8 list" where
  "reg_bytes rs r = (case map_of rs r of Some bs \<Rightarrow> bs | None \<Rightarrow> [])"

definition chip_cfg :: "chip \<Rightarrow> u8 \<Rightarrow> u8 list" where
  "chip_cfg e r = map (\<lambda>b. b AND reg_mask r) (take (reg_width r) (reg_bytes (regs e) r @ replicate (reg_width r) 0))"

definition chip_reply :: "chip \<Rightarrow> u8 \<Rightarrow> u8 list" where
  "chip_reply e c =
     (if c = 0x07 then [status_reg e]
      else if c < 0x20 then chip_cfg e c
      else if c = 0x60 then (case rx_fifo e of p # _ \<Rightarrow> [of_nat (length p)] | [] \<Rightarrow> [0])
      else if c = 0x61 then (case rx_fifo e of p # _ \<Rightarrow> p | [] \<Rightarrow> [])
      else [])"

definition chip_read_effect :: "u8 \<Rightarrow> chip \<Rightarrow> chip" where
  "chip_read_effect c e = (if c = 0x61 then e\<lparr>rx_fifo := tl (rx_fifo e)\<rparr> else e)"

definition chip_write_effect :: "u8 \<Rightarrow> u8 list \<Rightarrow> chip \<Rightarrow> chip" where
  "chip_write_effect c data e =
     (if c = 0x27 then
        (case data of [v] \<Rightarrow> e\<lparr>status_reg := status_reg e AND NOT (v AND 0x70)\<rparr> | _ \<Rightarrow> e)
      else if 0x20 \<le> c \<and> c < 0x40 then
        (let r = c AND 0x1F in
         e\<lparr>regs := AList.update r (data @ drop (length data) (chip_cfg e r)) (regs e)\<rparr>)
      else if c \<in> payload_cmds then e\<lparr>sent := sent e @ [(c, data)]\<rparr>
      else if c = 0xE2 then e\<lparr>rx_fifo := []\<rparr>
      else e)"

abbreviation on_env :: "('e \<Rightarrow> 'e) \<Rightarrow> 'e nrf_state \<Rightarrow> 'e nrf_state" where
  "on_env f s \<equiv> s\<lparr>env := f (env s)\<rparr>"

definition chip_hal :: "chip hal" where
  "chip_hal =
     \<lparr>spiStart = ret 0,
      spiAcquireBus = ret (),
      spiSelect = ret (),
      spiExchange = (\<lambda>n tx rx. do {
        s \<leftarrow> getst;
        modify (on_env (chip_read_effect (tx ! 0)));
        ret (0, mem_write 0 (take n (status_reg (env s) # chip_reply (env s) (tx ! 0) @ replicate n 0)) rx) }),
      spiSend = (\<lambda>n tx. do {
        modify (on_env (chip_write_effect (tx ! 0) (take (n - 1) (drop 1 tx))));
        ret 0 }),
      spiUnselect = ret (),
      spiReleaseBus = ret (),
      palSetLine_CE = modify (on_env (\<lambda>e. e\<lparr>chip_enable := True\<rparr>)),
      palClearLine_CE = modify (on_env (\<lambda>e. e\<lparr>chip_enable := False\<rparr>)),
      chThdSleepMilliseconds = (\<lambda>ms. modify (\<lambda>s.
        if interrupt_sets (env s) = 0 then s else s\<lparr>finished := interrupt_sets (env s)\<rparr>)),
      chvprintf = (\<lambda>fmt args. modify (on_env (\<lambda>e. e\<lparr>console := console e @ [(fmt, args)]\<rparr>)))\<rparr>"

text \<open>A receive callback that records its calls.\<close>

definition chip_callback :: "u8 \<Rightarrow> u8 \<Rightarrow> cptr \<Rightarrow> u8 \<Rightarrow> (chip nrf_state, unit) state" where
  "chip_callback t k buf len =
     modify (on_env (\<lambda>e. e\<lparr>callback_log := callback_log e @ [(t, k, buf, len)]\<rparr>))"

lemma chip_cfg_update [simp]:
  "chip_cfg (e\<lparr>rx_fifo := x1\<rparr>) = chip_cfg e" "chip_cfg (e\<lparr>chip_enable := x2\<rparr>) = chip_cfg e"
  "chip_cfg (e\<lparr>console := x3\<rparr>) = chip_cfg e" "chip_cfg (e\<lparr>sent := x4\<rparr>) = chip_cfg e"
  "chip_cfg (e\<lparr>status_reg := x5\<rparr>) = chip_cfg e" "chip_cfg (e\<lparr>callback_log := x6\<rparr>) = chip_cfg e"
  by (simp_all add: fun_eq_iff chip_cfg_def)

lemma length_chip_cfg [simp]: "length (chip_cfg e r) = reg_width r"
  by (simp add: chip_cfg_def)

lemma and_mask_absorb: "(b :: u8) AND NOT m = 0 \<Longrightarrow> b AND m = b"
proof (rule bit_word_eqI)
  fix n :: nat
  assume "b AND NOT m = 0" and n: "n < LENGTH(8)"
  then have "bit (b AND NOT m) n = bit 0 n" by simp
  with n show "bit (b AND m) n = bit b n" by (auto simp: bit_simps)
qed

lemma chip_cfg_legal [simp]: "legal r (chip_cfg e r)"
  by (auto simp: legal_def chip_cfg_def and.assoc)

lemma map_mask_legal: "legal r bs \<Longrightarrow> map (\<lambda>b. b AND reg_mask r) bs = bs"
  by (rule map_idI) (simp add: legal_def and_mask_absorb)

lemma chip_cfg_write:
  assumes "length data \<le> reg_width r" and "legal r data"
  shows "chip_cfg (e\<lparr>regs := AList.update r (data @ drop (length data) (chip_cfg e r)) (regs e)\<rparr>) =
    (chip_cfg e)(r := data @ drop (length data) (chip_cfg e r))"
proof
  fix q
  have "legal r (data @ drop (length data) (chip_cfg e r))"
    using assms(2) chip_cfg_legal [of r e] by (auto simp: legal_def dest: in_set_dropD)
  note m = map_mask_legal [OF this]
  show "chip_cfg (e\<lparr>regs := AList.update r (data @ drop (length data) (chip_cfg e r)) (regs e)\<rparr>) q =
    ((chip_cfg e)(r := data @ drop (length data) (chip_cfg e r))) q"
    using m assms(1) by (cases "q = r") (simp_all add: chip_cfg_def [of "_\<lparr>regs := _\<rparr>"] chip_cfg_def [of e q] reg_bytes_def update_conv')
qed

lemma write_command_reg:
  assumes "r \<in> cfg_regs"
  shows "(0x20 OR r) AND 0x1F = r" "0x20 \<le> 0x20 OR r" "0x20 OR r < 0x40" "0x20 OR r \<noteq> 0x27"
  using assms by (auto simp: cfg_regs_def byte_regs_def addr_regs_def)

interpretation sim: nrf_chip chip_hal chip_cfg sent
proof
  fix n tx s s' r
  assume run: "run_state (spiSend chip_hal n tx) s = (0, s')" and n: "1 < n" "n \<le> length tx"
    and c: "tx ! 0 = 0x20 OR r" "r \<in> cfg_regs" and w: "n - 1 \<le> reg_width r"
    and l: "legal r (take (n - 1) (drop 1 tx))"
  have len: "length (take (n - 1) (drop 1 tx)) = n - 1" "min (length tx - Suc 0) (n - Suc 0) = n - Suc 0"
    using n by simp_all
  show "reg_written chip_cfg sent r (take (n - 1) (drop 1 tx) @ drop (n - 1) (chip_cfg (env s) r)) s s'"
    using run c write_command_reg [OF c(2)] chip_cfg_write [of "take (n - 1) (drop 1 tx)" r "env s"] l w
    unfolding len by (auto simp: chip_hal_def chip_write_effect_def reg_written_def Let_def len(2))
next
  fix n tx rx s rx' s'
  assume run: "run_state (spiExchange chip_hal n tx rx) s = ((0, rx'), s')" and n: "1 < n" "n \<le> length tx"
   "n \<le> length rx" and c: "tx ! 0 \<in> cfg_regs" and w: "n - 1 \<le> reg_width (tx ! 0)"
  have "tx ! 0 \<noteq> 7" "tx ! 0 < 0x20" using c by (auto simp: cfg_regs_def byte_regs_def addr_regs_def)
  with run n w show "take (n - 1) (drop 1 rx') = take (n - 1) (chip_cfg (env s) (tx ! 0))"
    by (cases n) (auto simp: chip_hal_def chip_reply_def min_def)
qed (auto simp: chip_hal_def same_obs_def chip_read_effect_def chip_write_effect_def payload_cmds_def
    cfg_regs_def byte_regs_def addr_regs_def Let_def min_def split: if_splits list.splits)

interpretation sim_irq: nrf_irq_chip chip_hal chip_cfg sent chip_enable status_reg rx_fifo
  callback_log chip_callback
proof
  fix p ps tx b s b' s'
  assume "run_state (spiExchange chip_hal (length p + 1) tx b) s = ((0, b'), s')"
    and "length p < length b" "tx ! 0 = 0x61" "rx_fifo (env s) = p # ps"
  then show "take (length p) (drop 1 b') = p \<and> rx_fifo (env s') = ps"
    by (auto simp: chip_hal_def chip_reply_def chip_read_effect_def)
next
  fix tx s s'
  assume "run_state (spiSend chip_hal 2 tx) s = (0, s')" "2 \<le> length tx" "tx ! 0 = 0x27"
  moreover from \<open>2 \<le> length tx\<close> have "take 1 (drop 1 tx) = [tx ! 1]"
    by (simp add: take_Suc_conv_app_nth)
  ultimately show "status_reg (env s') = status_reg (env s) AND NOT (tx ! 1 AND 0x70) \<and>
      rx_fifo (env s') = rx_fifo (env s)"
    by (auto simp: chip_hal_def chip_write_effect_def)
qed (auto simp: chip_hal_def quiet_def same_obs_def chip_read_effect_def chip_write_effect_def
    chip_callback_def chip_reply_def Let_def split: if_splits list.splits)

subsection \<open>A concrete chip and driver state\<close>

definition chip0 :: chip where
  "chip0 = \<lparr>regs = [(0x00, [0x08]), (0x03, [0x03])], sent = [], status_reg = 0x0E, rx_fifo = [],
     chip_enable = False, console = [], interrupt_sets = 1, callback_log = []\<rparr>"

definition nrf0 :: "chip nrf_state" where
  "nrf0 = \<lparr>inited = 1, finished = 0, fault = False, env = chip0\<rparr>"

abbreviation dev0 :: "chip nrf24l01_handle" where
  "dev0 \<equiv> link_handle chip_hal (Some chip_callback)"

lemma run_eq: "run_state m s = (fst (run_state m s), snd (run_state m s))"
  by simp

end
