(* ===== verification/Nrf24_Properties.thy ===== *)
theory Nrf24_Properties
  imports Nrf24_Setters Nrf24_Sim
begin

text \<open>
  The properties of the radio stack: driver, board interface and application layer together,
  over any HAL and chip that keep the contract \<open>nrf_chip\<close> (or \<open>nrf_irq_chip\<close> for the interrupt
  handler). Each property with hypotheses is followed by its use on the reference chip.
\<close>

definition basic0 :: "chip basic_state" where
  "basic0 = \<lparr>nrf = nrf0, gs_handle = link_handle chip_hal (Some chip_callback),
     gs_tx_addr = [0, 0, 0, 0, 0], gs_tx_addr_set = 0\<rparr>"

text \<open>C7. Whatever the chip held before, nrf24l01_basic_init is memory safe and returns 0 or 1; when
  it returns 0 the handle is open, every configuration register except the transmit address
  encodes the macros NRF24L01_BASIC_DEFAULT_* of nrf24l01_basic.h, the mode of the call and
  three masked interrupts (table init_value; some comments of that header say otherwise), the
  transmit address is untouched and no payload has been loaded.\<close>

theorem basic_init_configures:
  assumes "nrf_chip H cfg loaded"
    and "run_state (nrf24l01_basic_init H type (Some cb)) s = (res, s')"
  shows "fault (nrf s') = fault (nrf s) \<and> (res = 0 \<or> res = 1) \<and>
    (res = 0 \<longrightarrow> inited (nrf s') = 1 \<and> loaded (env (nrf s')) = loaded (env (nrf s)) \<and>
       cfg (env (nrf s')) 0x10 = cfg (env (nrf s)) 0x10 \<and>
       (\<forall>r\<in>cfg_regs - {0x10}. cfg (env (nrf s')) r = init_value type r))"
proof -
  note B = nrf_chip.basic_init_spec [OF assms]
  have "cfg (env (nrf s')) r = init_value type r" if "res = 0" "r \<in> cfg_regs - {0x10}" for r
    using B(6) that init_table [of "cfg (env (nrf s))"] nrf_chip.chip_width [OF assms(1)]
      nrf_chip.chip_legal [OF assms(1)] by simp
  then show ?thesis using B(1,2,6) by (auto simp: fold_init)
qed

theorem basic_init_configures_witness:
  "cfg_regs - {0x10} \<noteq> {} \<and>
   fst (run_state (nrf24l01_basic_init chip_hal NRF24L01_TYPE_TX (Some chip_callback)) basic0) = 0 \<and>
   chip_cfg (env (nrf (snd (run_state (nrf24l01_basic_init chip_hal NRF24L01_TYPE_TX
     (Some chip_callback)) basic0)))) 0x05 = [94]"
proof -
  have "fst (run_state (nrf24l01_basic_init chip_hal NRF24L01_TYPE_TX (Some chip_callback)) basic0) = 0"
    by code_simp
  moreover have "(0x05 :: u8) \<in> cfg_regs - {0x10}" by (simp add: cfg_regs_def byte_regs_def)
  ultimately show ?thesis
    using basic_init_configures [OF sim.nrf_chip_axioms run_eq, of NRF24L01_TYPE_TX chip_callback basic0]
    by (auto simp: init_value_def)
qed

text \<open>C8. nrf24l01_basic_send is memory safe and returns one of 0, 1, 2, 3; when it returns 0 the
  transmit address and the pipe 0 address hold the reversed five address bytes, all other
  registers are unchanged, exactly one payload, the reversed buffer, has been handed to the chip
  with the command for the chosen acknowledgment, and with acknowledgment the interrupt handler
  has reported success.\<close>

theorem basic_send_delivers:
  assumes "nrf_chip H cfg loaded"
    and "run_state (nrf24l01_basic_send H (Some a) (Some buf) len use_ack) s = (res, s')"
    and "gs_handle s = link_handle H cb" and "inited (nrf s) = 1"
    and "5 \<le> length a" and "len \<le> 32" and "unat len \<le> length buf"
  shows "fault (nrf s') = fault (nrf s) \<and> res \<in> {0, 1, 2, 3} \<and>
    (res = 0 \<longrightarrow>
       cfg (env (nrf s')) = (cfg (env (nrf s)))(0x10 := rev (take 5 a), 0x0A := rev (take 5 a)) \<and>
       loaded (env (nrf s')) =
         loaded (env (nrf s)) @ [(payload_cmd use_ack, rev (take (unat len) buf))] \<and>
       (use_ack = NRF24L01_BOOL_TRUE \<longrightarrow> finished (nrf s') = 1))"
  using nrf_chip.basic_send_spec [OF assms] by blast

theorem basic_send_delivers_witness:
  "fst (run_state (nrf24l01_basic_send chip_hal (Some [1, 2, 3, 4, 5]) (Some [7, 8, 9]) 3
     NRF24L01_BOOL_TRUE) basic0) = 0 \<and>
   sent (env (nrf (snd (run_state (nrf24l01_basic_send chip_hal (Some [1, 2, 3, 4, 5])
     (Some [7, 8, 9]) 3 NRF24L01_BOOL_TRUE) basic0)))) = [(0xA0, [9, 8, 7])]"
proof -
  let ?m = "nrf24l01_basic_send chip_hal (Some [1, 2, 3, 4, 5]) (Some [7, 8, 9]) 3 NRF24L01_BOOL_TRUE"
  have z: "fst (run_state ?m basic0) = 0" by code_simp
  have "gs_handle basic0 = dev0" "inited (nrf basic0) = 1" "sent (env (nrf basic0)) = []"
    by (simp_all add: basic0_def nrf0_def chip0_def)
  with basic_send_delivers [OF sim.nrf_chip_axioms run_eq [of ?m basic0], of "Some chip_callback"] z
  show ?thesis by (simp add: payload_cmd_def)
qed

text \<open>C9. The interrupt handler, for every STATUS byte and every payload width the chip reports (0
  to 255), stays within its 33-byte buffer, leaves the configuration registers and the transmit
  history alone, drives the chip enable line high again on every path, and on success sets
  finished to 1 for a sent packet, 2 for exhausted retransmissions, and leaves it otherwise.\<close>

theorem irq_handler_outcome:
  assumes "nrf_irq_chip H cfg loaded ce status rx calls cb"
    and "run_state (nrf24l01_irq_handler (Some (link_handle H (Some cb)))) s = (res, s')"
    and "inited s = 1"
  shows "fault s' = fault s \<and> cfg (env s') = cfg (env s) \<and> loaded (env s') = loaded (env s) \<and>
    ce (env s') \<and> (res = 0 \<or> res = 1) \<and>
    (res = 0 \<longrightarrow> finished s' = irq_outcome (status (env s)) (finished s))"
  using nrf_irq_chip.irq_handler_spec(1) [OF assms] by (simp add: same_obs_def)

theorem irq_handler_outcome_witness:
  "finished (snd (run_state (nrf24l01_irq_handler (Some dev0))
     (nrf0\<lparr>env := chip0\<lparr>status_reg := 0x2E\<rparr>\<rparr>))) = 1 \<and>
   chip_enable (env (snd (run_state (nrf24l01_irq_handler (Some dev0))
     (nrf0\<lparr>env := chip0\<lparr>status_reg := 0x2E\<rparr>\<rparr>))))"
proof -
  let ?s = "nrf0\<lparr>env := chip0\<lparr>status_reg := 0x2E\<rparr>\<rparr>"
  have z: "fst (run_state (nrf24l01_irq_handler (Some dev0)) ?s) = 0" by code_simp
  have "irq_outcome 0x2E 0 = 1" by code_simp
  with z irq_handler_outcome [OF sim_irq.nrf_irq_chip_axioms run_eq, of ?s]
  show ?thesis by (simp add: nrf0_def chip0_def)
qed

text \<open>C10. A successful run of the interrupt handler calls the receive callback exactly for the
  flags set in STATUS, in the order TX_FULL, MAX_RT, TX_DS, RX_DR, and hands it the head of the
  receive FIFO with its bytes reversed, its length and the pipe number.\<close>

theorem irq_handler_calls:
  assumes "nrf_irq_chip H cfg loaded ce status rx calls cb"
    and "run_state (nrf24l01_irq_handler (Some (link_handle H (Some cb)))) s = (0, s')"
    and "inited s = 1"
    and "drop_bit 6 (status (env s)) AND 1 = 0 \<or> rx (env s) = p # ps \<and> length p \<le> 32"
  shows "calls (env s') = calls (env s) @ irq_calls (status (env s)) p"
  using nrf_irq_chip.irq_handler_spec(2) [OF assms(1) assms(2) assms(3) refl assms(4)] .

theorem irq_handler_calls_witness:
  "callback_log (env (snd (run_state (nrf24l01_irq_handler (Some dev0))
     (nrf0\<lparr>env := chip0\<lparr>status_reg := 0x42, rx_fifo := [[1, 2, 3]]\<rparr>\<rparr>)))) =
   [(6, 1, Some ([3, 2, 1] @ replicate 30 0), 3)]"
proof -
  let ?s = "nrf0\<lparr>env := chip0\<lparr>status_reg := 0x42, rx_fifo := [[1, 2, 3]]\<rparr>\<rparr>"
  have z: "fst (run_state (nrf24l01_irq_handler (Some dev0)) ?s) = 0" by code_simp
  have r: "run_state (nrf24l01_irq_handler (Some dev0)) ?s = (0, snd (run_state (nrf24l01_irq_handler (Some dev0)) ?s))"
    using run_eq [of "nrf24l01_irq_handler (Some dev0)" ?s] unfolding z .
  have "irq_calls 0x42 [1, 2, 3] = [(6, 1, Some ([3, 2, 1] @ replicate 30 0), 3)]" by code_simp
  with irq_handler_calls [OF sim_irq.nrf_irq_chip_axioms r, of "[1, 2, 3]" "[]"]
  show ?thesis by (simp add: nrf0_def chip0_def)
qed



text \<open>Reading a setting back after a successful set returns the value that was set, for each of
  the sixteen setter and getter pairs.\<close>

theorem setting_round_trip:
  assumes "nrf_chip H cfg loaded" and "inited s = 1" and "set_in_range x"
    and "run_state (set_call (Some (link_handle H cb)) x) s = (0, s1)"
    and "run_state (get_call (Some (link_handle H cb)) x) s1 = ((0, out), s2)"
  shows "out = Some (set_value x)"
proof -
  note B = nrf_chip.interface_bus [OF assms(1)]
  note S = nrf_bus.set_call_spec [OF B assms(4) assms(2) assms(3)]
  from nrf_bus.get_call_spec(3) [OF B assms(5) S(1) refl] S(4) get_value_put [OF assms(3)]
  show ?thesis by (auto simp: reg_written_def)
qed

theorem setting_round_trip_witness:
  "snd (fst (run_state (get_call (Some dev0) (SetChannelFrequency 76))
     (snd (run_state (set_call (Some dev0) (SetChannelFrequency 76)) nrf0)))) = Some 76"
proof -
  let ?x = "SetChannelFrequency 76"
  let ?s = "run_state (set_call (Some dev0) ?x) nrf0"
  let ?g = "run_state (get_call (Some dev0) ?x) (snd ?s)"
  have z: "fst ?s = 0" "fst (fst ?g) = 0" by code_simp+
  have 1: "?s = (0, snd ?s)" and 2: "?g = ((0, snd (fst ?g)), snd ?g)" using z by (simp_all add: prod_eq_iff)
  from setting_round_trip [OF sim.nrf_chip_axioms _ _ 1 2] show ?thesis by (simp add: nrf0_def)
qed

text \<open>A successful set of one setting does not change what the getter of an independent setting
  (another register, or another field of the same register) reports.\<close>

theorem settings_independent:
  assumes "nrf_chip H cfg loaded" and "inited s = 1" and "set_in_range x" and "independent x y"
    and "run_state (get_call (Some (link_handle H cb)) y) s = ((0, before), s1)"
    and "run_state (set_call (Some (link_handle H cb)) x) s1 = (0, s2)"
    and "run_state (get_call (Some (link_handle H cb)) y) s2 = ((0, after), s3)"
  shows "after = before"
proof -
  note B = nrf_chip.interface_bus [OF assms(1)]
  note G1 = nrf_bus.get_call_spec [OF B assms(5) assms(2)]
  have i1: "inited s1 = 1" using G1(1) assms(2) by (simp add: same_obs_def)
  note S = nrf_bus.set_call_spec [OF B assms(6) i1 assms(3)]
  note G2 = nrf_bus.get_call_spec [OF B assms(7) S(1)]
  obtain v where v: "cfg (env s) (set_reg x) = [v]"
    "cfg (env s2) = (cfg (env s))(set_reg x := [put_field (set_field x) (set_bits x) v])"
    using S(4) G1(1) by (auto simp: reg_written_def same_obs_def)
  obtain w where w: "cfg (env s) (set_reg y) = [w]" "before = Some (get_value y w)" using G1(3) by auto
  show ?thesis
  proof (cases "set_reg x = set_reg y")
    case True
    with assms(4) have "set_field x AND set_field y = 0" by (simp add: independent_def)
    with True v w G2(3) get_value_independent [OF _ assms(3)] show ?thesis by auto
  next
    case False
    with v w G2(3) show ?thesis by auto
  qed
qed

theorem settings_independent_witness:
  "snd (fst (run_state (get_call (Some dev0) (SetMode NRF24L01_MODE_TX))
     (snd (run_state (set_call (Some dev0) (SetConfig NRF24L01_CONFIG_PWR_UP NRF24L01_BOOL_TRUE))
       (snd (run_state (get_call (Some dev0) (SetMode NRF24L01_MODE_TX)) nrf0)))))) =
   snd (fst (run_state (get_call (Some dev0) (SetMode NRF24L01_MODE_TX)) nrf0))"
proof -
  let ?x = "SetConfig NRF24L01_CONFIG_PWR_UP NRF24L01_BOOL_TRUE" and ?y = "SetMode NRF24L01_MODE_TX"
  let ?g = "run_state (get_call (Some dev0) ?y) nrf0"
  let ?s = "run_state (set_call (Some dev0) ?x) (snd ?g)"
  let ?k = "run_state (get_call (Some dev0) ?y) (snd ?s)"
  have z: "fst (fst ?g) = 0" "fst ?s = 0" "fst (fst ?k) = 0" by code_simp+
  have 1: "?g = ((0, snd (fst ?g)), snd ?g)" "?s = (0, snd ?s)" "?k = ((0, snd (fst ?k)), snd ?k)"
    using z by (simp_all add: prod_eq_iff)
  show ?thesis
    by (rule settings_independent [OF sim.nrf_chip_axioms _ _ _ 1])
      (simp_all add: nrf0_def independent_def)
qed

text \<open>A setter whose argument is out of range only prints a diagnostic and returns 4: it does
  not touch the bus.\<close>

theorem setter_range_check:
  assumes "\<not> set_in_range x" and "inited s = 1"
  shows "\<exists>msg. run_state (set_call (Some h) x) s = run_state (fail_print h msg 4) s"
  using assms by (cases x) (auto simp: driver_defs run_checked not_le)

theorem setter_range_check_witness:
  "\<exists>msg. run_state (set_call (Some dev0) (SetChannelFrequency 128)) nrf0 = run_state (fail_print dev0 msg 4) nrf0"
  by (rule setter_range_check) (simp_all add: nrf0_def)

text \<open>An address of the configured width, written to the transmit address or to pipe 0 or 1, is
  read back in the same byte order with the same length, although the chip stores it reversed.\<close>

theorem address_round_trip:
  assumes chip: "nrf_chip H cfg loaded" and i: "inited s = 1"
    and set: "run_state (set_slot (Some (link_handle H cb)) k (Some a) (of_nat (length a))) s = (0, s1)"
    and get: "run_state (get_slot (Some (link_handle H cb)) k (Some b) (of_nat (length b))) s1 = ((0, out, n), s2)"
    and a: "0 < length a" "length a < 256" and b: "length b < 256"
    and w: "\<And>v. cfg (env s) 0x03 = [v] \<Longrightarrow> length a = addr_bytes v"
  shows "fault s2 = fault s \<and> unat n = length a \<and> out = Some (a @ drop (length a) b)"
proof -
  note B = nrf_chip.interface_bus [OF chip, of cb]
  have la: "unat (of_nat (length a) :: u8) = length a" using a by (simp add: unat_of_nat)
  have lb: "unat (of_nat (length b) :: u8) = length b" using b by (simp add: unat_of_nat)
  obtain m where "run_state (set_address (link_handle H cb) (slot_reg k) m (Some a) (of_nat (length a))) s = (0, s1)"
    using set_slot_body [of "link_handle H cb" k] set i by (metis run_checked(3))
  from nrf_bus.set_address_spec [OF B this slot_reg_addr] la a
  obtain v where v: "cfg (env s) 0x03 = [v]" "length a \<le> addr_bytes v" "inited s1 = 1" "fault s1 = fault s"
    and c: "cfg (env s1) = (cfg (env s))(slot_reg k := rev a @ drop (length a) (cfg (env s) (slot_reg k)))"
    using i by (auto simp: reg_written_def word_less_nat_alt)
  obtain m' where "run_state (get_address (link_handle H cb) (slot_reg k) m' (Some b) (of_nat (length b))) s1 = ((0, out, n), s2)"
    using get_slot_body [of "link_handle H cb" k] get v(3) by (metis run_checked(3))
  from nrf_bus.get_address_spec [OF B this slot_reg_addr] lb
  obtain v' where g: "cfg (env s1) 0x03 = [v']" "unat n = addr_bytes v'" "same_obs cfg loaded s1 s2"
    "out = Some (rev (take (addr_bytes v') (cfg (env s1) (slot_reg k))) @ drop (addr_bytes v') b)"
    by auto
  have "v' = v" using g(1) c v(1) by (cases k) auto
  with w [OF v(1)] g c v show ?thesis by (simp add: same_obs_def)
qed

theorem address_round_trip_witness:
  "fst (snd (fst (run_state (get_slot (Some dev0) Tx_Address (Some [0, 0, 0, 0, 0]) 5)
     (snd (run_state (set_slot (Some dev0) Tx_Address (Some [1, 2, 3, 4, 5]) 5) nrf0))))) =
   Some [1, 2, 3, 4, 5]"
proof -
  let ?s = "run_state (set_slot (Some dev0) Tx_Address (Some [1, 2, 3, 4, 5]) 5) nrf0"
  let ?g = "run_state (get_slot (Some dev0) Tx_Address (Some [0, 0, 0, 0, 0]) 5) (snd ?s)"
  have z: "fst ?s = 0" "fst (fst ?g) = 0" "chip_cfg (env nrf0) 3 = [3]" "addr_bytes 3 = 5" by code_simp+
  have 1: "?s = (0, snd ?s)" "?g = ((0, fst (snd (fst ?g)), snd (snd (fst ?g))), snd ?g)"
    using z by (simp_all add: prod_eq_iff)
  have i: "inited nrf0 = 1" by (simp add: nrf0_def)
  show ?thesis
    using address_round_trip [OF sim.nrf_chip_axioms i, of "Some chip_callback" Tx_Address "[1, 2, 3, 4, 5]" "snd ?s"
      "[0, 0, 0, 0, 0]" "fst (snd (fst ?g))" "snd (snd (fst ?g))" "snd ?g"] 1 z by simp
qed

text \<open>C13. nrf24l01_send on a payload of at most 32 bytes is memory safe and returns 0, 1 or 5;
  unless it returns 1 it has loaded exactly the reversed payload and changed no register;
  without acknowledgment it never times out, with acknowledgment it returns 0 only when finished
  is 1.\<close>

theorem send_spec_linked:
  assumes "nrf_chip H cfg loaded"
    and "run_state (nrf24l01_send (Some (link_handle H cb)) (Some buf) len use_ack) s = (res, s')"
    and "inited s = 1" and "len \<le> 32" and "unat len \<le> length buf"
  shows "fault s' = fault s \<and> res \<in> {0, 1, 5} \<and>
    (res \<noteq> 1 \<longrightarrow> cfg (env s') = cfg (env s) \<and>
       loaded (env s') = loaded (env s) @ [(payload_cmd use_ack, rev (take (unat len) buf))]) \<and>
    (use_ack = NRF24L01_BOOL_FALSE \<longrightarrow> res \<noteq> 5) \<and>
    (use_ack = NRF24L01_BOOL_TRUE \<longrightarrow> res = 0 \<longrightarrow> finished s' = 1)"
  using nrf_bus.send_spec [OF nrf_chip.interface_bus [OF assms(1)] assms(2-5)] by blast

theorem send_spec_linked_witness:
  "sent (env (snd (run_state (nrf24l01_send (Some dev0) (Some [1, 2, 3, 4]) 3 NRF24L01_BOOL_FALSE) nrf0)))
   = [(0xB0, [3, 2, 1])]"
proof -
  let ?m = "nrf24l01_send (Some dev0) (Some [1, 2, 3, 4]) 3 NRF24L01_BOOL_FALSE"
  have z: "fst (run_state ?m nrf0) = 0" "sent (env nrf0) = []" "inited nrf0 = 1"
    "payload_cmd NRF24L01_BOOL_FALSE = 0xB0" by code_simp+
  with send_spec_linked [OF sim.nrf_chip_axioms run_eq [of ?m nrf0]] show ?thesis by simp
qed

text \<open>
  The wait, when sleeping lets the other threads change the state by \<open>tick\<close>: it stops at the
  first state with \<open>finished\<close> set, or after \<open>n\<close> sleeps.
\<close>

text \<open>The wait loop of nrf24l01_send sleeps exactly until the first state in which another
  thread has set finished, and never more than its timeout.\<close>

theorem send_wait_steps:
  assumes "delay_ms h = Some (\<lambda>ms. modify tick)"
  shows "\<exists>k\<le>n. run_state (send_wait h n) s = (n - k, (tick ^^ k) s) \<and>
    (\<forall>j<k. finished ((tick ^^ j) s) = 0) \<and> (k < n \<longrightarrow> finished ((tick ^^ k) s) \<noteq> 0)"
proof (induction n arbitrary: s)
  case 0
  then show ?case by simp
next
  case (Suc n)
  show ?case
  proof (cases "finished s = 0")
    case False
    then show ?thesis by (intro exI [of _ 0]) simp
  next
    case True
    obtain k where k: "k \<le> n" "run_state (send_wait h n) (tick s) = (n - k, (tick ^^ k) (tick s))"
      "\<forall>j<k. finished ((tick ^^ j) (tick s)) = 0" "k < n \<longrightarrow> finished ((tick ^^ k) (tick s)) \<noteq> 0"
      using Suc.IH by blast
    have sh: "(tick ^^ j) (tick s) = (tick ^^ Suc j) s" for j by (simp add: funpow_swap1)
    have "\<forall>j<Suc k. finished ((tick ^^ j) s) = 0"
      using k(3) True by (auto simp: less_Suc_eq_0_disj sh simp del: funpow.simps(2))
    with k True assms show ?thesis
      by (intro exI [of _ "Suc k"]) (simp add: call_delay_ms_def sh del: funpow.simps(2))
  qed
qed

theorem send_wait_steps_witness:
  "\<exists>k\<le>3. run_state (send_wait ((link_handle chip_hal None)\<lparr>delay_ms := Some (\<lambda>ms. modify (finished_update (\<lambda>f. f + 1)))\<rparr>) 3) nrf0
     = (3 - k, ((finished_update (\<lambda>f. f + 1)) ^^ k) nrf0) \<and>
    (\<forall>j<k. finished (((finished_update (\<lambda>f. f + 1)) ^^ j) nrf0) = 0) \<and>
    (k < 3 \<longrightarrow> finished (((finished_update (\<lambda>f. f + 1)) ^^ k) nrf0) \<noteq> 0)"
  by (rule send_wait_steps) simp

text \<open>nrf24l01_deinit is memory safe; it returns 0 exactly when the handle is closed, and then
  only the power bit of CONFIG has been cleared.\<close>

theorem deinit_powers_down:
  assumes "nrf_chip H cfg loaded"
    and "run_state (nrf24l01_deinit (Some (link_handle H cb))) s = (res, s')" and "inited s = 1"
  shows "fault s' = fault s \<and> (res = 0 \<or> res = 1) \<and> inited s' = (if res = 0 then 0 else 1) \<and>
    (res = 0 \<longrightarrow> cfg (env s') = power_down (cfg (env s)))"
  using nrf_chip.deinit_spec [OF assms] by blast

theorem deinit_powers_down_witness:
  "inited (snd (run_state (nrf24l01_deinit (Some dev0)) nrf0)) = 0"
proof -
  have "fst (run_state (nrf24l01_deinit (Some dev0)) nrf0) = 0" "inited nrf0 = 1" by code_simp+
  with deinit_powers_down [OF sim.nrf_chip_axioms run_eq [of "nrf24l01_deinit (Some dev0)" nrf0]]
  show ?thesis by simp
qed

lemma set_call_closed: "inited s \<noteq> 1 \<Longrightarrow> run_state (set_call (Some h) x) s = (3, s)"
  "run_state (set_call None x) s = (2, s)"
  by (cases x; simp add: driver_defs run_checked)+

lemma get_call_closed: "inited s \<noteq> 1 \<Longrightarrow> run_state (get_call (Some h) x) s = ((3, None), s)"
  "run_state (get_call None x) s = ((2, None), s)"
  by (cases x; simp add: driver_defs run_checked)+

lemma slot_closed: "inited s \<noteq> 1 \<Longrightarrow> run_state (set_slot (Some h) k a len) s = (3, s)"
  "run_state (set_slot None k a len) s = (2, s)"
  "inited s \<noteq> 1 \<Longrightarrow> run_state (get_slot (Some h) k a len) s = ((3, a, len), s)"
  "run_state (get_slot None k a len) s = ((2, a, len), s)"
  by (cases k; simp add: driver_defs run_checked)+

text \<open>On a handle that is not initialised the operations of the driver return 3 and change
  nothing.\<close>

theorem closed_handle_rejected:
  assumes "inited s \<noteq> 1"
  shows "run_state (set_call (Some h) x) s = (3, s) \<and> run_state (get_call (Some h) x) s = ((3, None), s) \<and>
    run_state (set_slot (Some h) k a len) s = (3, s) \<and>
    run_state (get_slot (Some h) k a len) s = ((3, a, len), s) \<and>
    run_state (nrf24l01_send (Some h) a len use_ack) s = (3, s) \<and>
    run_state (nrf24l01_irq_handler (Some h)) s = (3, s) \<and>
    run_state (nrf24l01_deinit (Some h)) s = (3, s) \<and>
    run_state (nrf24l01_set_active (Some h) b) s = (3, s) \<and>
    run_state (nrf24l01_read_rx_payload (Some h) a len) s = ((3, a), s) \<and>
    run_state (nrf24l01_write_tx_payload (Some h) a len) s = (3, s)"
  using assms
  by (simp add: set_call_closed get_call_closed slot_closed nrf24l01_send_def nrf24l01_irq_handler_def nrf24l01_deinit_def nrf24l01_set_active_def
      nrf24l01_read_rx_payload_def nrf24l01_write_tx_payload_def run_checked)

theorem closed_handle_rejected_witness:
  "run_state (nrf24l01_irq_handler (Some dev0)) (nrf0\<lparr>inited := 0\<rparr>) = (3, nrf0\<lparr>inited := 0\<rparr>)"
proof -
  have "inited (nrf0\<lparr>inited := 0\<rparr>) \<noteq> 1" by simp
  from closed_handle_rejected [OF this] show ?thesis by blast
qed

text \<open>After nrf24l01_basic_set_tx_address succeeds, nrf24l01_basic_get_tx_address returns the
  same five bytes with the flag set, and the chip has them reversed in the transmit address and
  the pipe 0 address.\<close>

theorem basic_tx_address_round_trip:
  assumes "nrf_chip H cfg loaded"
    and "run_state (nrf24l01_basic_set_tx_address H (Some a)) s = (0, s')"
    and "gs_handle s = link_handle H cb" and "inited (nrf s) = 1" and "5 \<le> length a"
    and "length b = 5"
  shows "run_state (nrf24l01_basic_get_tx_address (Some b) (Some [f])) s' =
      ((0, Some (take 5 a), Some [1]), s') \<and>
    cfg (env (nrf s')) = (cfg (env (nrf s)))(0x10 := rev (take 5 a), 0x0A := rev (take 5 a))"
proof -
  from nrf_chip.basic_set_tx_address_spec [OF assms(1-5)]
  have "gs_tx_addr s' = take 5 a" "gs_tx_addr_set s' = 1"
    "cfg (env (nrf s')) = (cfg (env (nrf s)))(0x10 := rev (take 5 a), 0x0A := rev (take 5 a))" by simp_all
  then show ?thesis
    using assms(5,6) by (simp add: nrf24l01_basic_get_tx_address_def copy_out_def)
qed

theorem basic_tx_address_round_trip_witness:
  "fst (run_state (nrf24l01_basic_get_tx_address (Some [0, 0, 0, 0, 0]) (Some [0]))
     (snd (run_state (nrf24l01_basic_set_tx_address chip_hal (Some [1, 2, 3, 4, 5])) basic0))) =
   (0, Some [1, 2, 3, 4, 5], Some [1])"
proof -
  let ?r = "run_state (nrf24l01_basic_set_tx_address chip_hal (Some [1, 2, 3, 4, 5])) basic0"
  have z: "fst ?r = 0" by code_simp
  then have r: "?r = (0, snd ?r)" by (simp add: prod_eq_iff)
  have "gs_handle basic0 = dev0" "inited (nrf basic0) = 1" by (simp_all add: basic0_def nrf0_def)
  with basic_tx_address_round_trip [OF sim.nrf_chip_axioms r, of "Some chip_callback" "[0, 0, 0, 0, 0]" 0]
  show ?thesis by simp
qed

end
