(* ===== verification/App_Ps5.thy ===== *)
theory App_Ps5
  imports Prelude
begin

text \<open>
  The controller data of src/main.c: the packed structures \<open>PS5Buttons\<close>, \<open>PS5TouchpadXY\<close>,
  \<open>PS5DataFull\<close> (40 bytes, as the controller reports it over USB) and \<open>PS5Data\<close> (its first 31
  bytes, as it is transmitted), their byte layout on the little-endian target (bit-fields are
  allocated from the least significant bit), and the helpers that parse a HID report, trim it
  and print it. The full structure extends the trimmed one, as the struct does. A function that
  would read or write outside the memory it is given returns \<open>None\<close>.
\<close>

subsection \<open>Buttons\<close>

record PS5Buttons =
  dpad :: "4 word"
  square :: "1 word"
  cross :: "1 word"
  circle :: "1 word"
  triangle :: "1 word"
  l1 :: "1 word"
  r1 :: "1 word"
  l2 :: "1 word"
  r2 :: "1 word"
  create :: "1 word"
  options :: "1 word"
  l3 :: "1 word"
  r3 :: "1 word"
  ps :: "1 word"
  touchpad :: "1 word"
  mic :: "1 word"
  btn_reserved :: "5 word"

definition encode_buttons :: "PS5Buttons \<Rightarrow> u8 list" where
  "encode_buttons b =
     [ucast (dpad b) OR push_bit 4 (ucast (square b)) OR push_bit 5 (ucast (cross b)) OR
        push_bit 6 (ucast (circle b)) OR push_bit 7 (ucast (triangle b)),
      ucast (l1 b) OR push_bit 1 (ucast (r1 b)) OR push_bit 2 (ucast (l2 b)) OR push_bit 3 (ucast (r2 b)) OR
        push_bit 4 (ucast (create b)) OR push_bit 5 (ucast (options b)) OR push_bit 6 (ucast (l3 b)) OR
        push_bit 7 (ucast (r3 b)),
      ucast (ps b) OR push_bit 1 (ucast (touchpad b)) OR push_bit 2 (ucast (mic b)) OR
        push_bit 3 (ucast (btn_reserved b))]"

definition decode_buttons :: "u8 list \<Rightarrow> PS5Buttons" where
  "decode_buttons bs =
     \<lparr>dpad = ucast (bs ! 0), square = ucast (drop_bit 4 (bs ! 0)), cross = ucast (drop_bit 5 (bs ! 0)),
      circle = ucast (drop_bit 6 (bs ! 0)), triangle = ucast (drop_bit 7 (bs ! 0)),
      l1 = ucast (bs ! 1), r1 = ucast (drop_bit 1 (bs ! 1)), l2 = ucast (drop_bit 2 (bs ! 1)),
      r2 = ucast (drop_bit 3 (bs ! 1)), create = ucast (drop_bit 4 (bs ! 1)),
      options = ucast (drop_bit 5 (bs ! 1)), l3 = ucast (drop_bit 6 (bs ! 1)), r3 = ucast (drop_bit 7 (bs ! 1)),
      ps = ucast (bs ! 2), touchpad = ucast (drop_bit 1 (bs ! 2)), mic = ucast (drop_bit 2 (bs ! 2)),
      btn_reserved = ucast (drop_bit 3 (bs ! 2))\<rparr>"

lemma u8_eqI:
  fixes x y :: u8
  assumes "bit x 0 = bit y 0" "bit x 1 = bit y 1" "bit x 2 = bit y 2" "bit x 3 = bit y 3"
    "bit x 4 = bit y 4" "bit x 5 = bit y 5" "bit x 6 = bit y 6" "bit x 7 = bit y 7"
  shows "x = y"
proof (rule bit_word_eqI)
  fix n :: nat
  assume "n < LENGTH(8)"
  then consider "n = 0" | "n = 1" | "n = 2" | "n = 3" | "n = 4" | "n = 5" | "n = 6" | "n = 7"
    by simp linarith
  then show "bit x n = bit y n" using assms by cases simp_all
qed

lemma decode_encode_buttons: "decode_buttons (encode_buttons b) = b"
proof (cases b)
  case (fields a1 a2 a3 a4 a5 a6 a7 a8 a9 a10 a11 a12 a13 a14 a15 a16 a17)
  then show ?thesis
    by (simp add: decode_buttons_def encode_buttons_def del: push_bit_Suc drop_bit_Suc One_nat_def)
     (intro conjI; rule bit_word_eqI;
       auto simp: bit_simps simp del: push_bit_Suc drop_bit_Suc One_nat_def dest: bit_imp_le_length)
qed

lemma byte_of_fields:
  "ucast (ucast x :: 4 word) OR push_bit 4 (ucast (ucast (drop_bit 4 x) :: 1 word)) OR
     push_bit 5 (ucast (ucast (drop_bit 5 x) :: 1 word)) OR push_bit 6 (ucast (ucast (drop_bit 6 x) :: 1 word)) OR
     push_bit 7 (ucast (ucast (drop_bit 7 x) :: 1 word)) = (x :: u8)" (is ?A)
  "ucast (ucast x :: 1 word) OR push_bit 1 (ucast (ucast (drop_bit 1 x) :: 1 word)) OR
     push_bit 2 (ucast (ucast (drop_bit 2 x) :: 1 word)) OR push_bit 3 (ucast (ucast (drop_bit 3 x) :: 1 word)) OR
     push_bit 4 (ucast (ucast (drop_bit 4 x) :: 1 word)) OR push_bit 5 (ucast (ucast (drop_bit 5 x) :: 1 word)) OR
     push_bit 6 (ucast (ucast (drop_bit 6 x) :: 1 word)) OR push_bit 7 (ucast (ucast (drop_bit 7 x) :: 1 word)) = x" (is ?B)
  "ucast (ucast x :: 1 word) OR push_bit 1 (ucast (ucast (drop_bit 1 x) :: 1 word)) OR
     push_bit 2 (ucast (ucast (drop_bit 2 x) :: 1 word)) OR push_bit 3 (ucast (ucast (drop_bit 3 x) :: 5 word)) = x" (is ?C)
proof -
  show ?A by (rule u8_eqI; simp add: bit_simps del: push_bit_Suc drop_bit_Suc One_nat_def)
  show ?B by (rule u8_eqI; simp add: bit_simps del: push_bit_Suc drop_bit_Suc One_nat_def)
  show ?C by (rule u8_eqI; simp add: bit_simps del: push_bit_Suc drop_bit_Suc One_nat_def)
qed

lemma encode_decode_buttons:
  assumes "length bs = 3"
  shows "encode_buttons (decode_buttons bs) = bs"
proof -
  obtain x y z where "bs = [x, y, z]" using assms by (auto simp: length_Suc_conv numeral_3_eq_3)
  then show ?thesis
    by (simp add: decode_buttons_def encode_buttons_def byte_of_fields del: push_bit_Suc drop_bit_Suc One_nat_def)
qed

declare bit_u8_ge [simp]

subsection \<open>Touchpad\<close>

record PS5Finger =
  counter :: "7 word"
  touching :: "1 word"
  tp_x :: "12 word"
  tp_y :: "12 word"

definition encode_finger :: "PS5Finger \<Rightarrow> u8 list" where
  "encode_finger f =
     [ucast (counter f) OR push_bit 7 (ucast (touching f)),
      ucast (tp_x f),
      ucast (drop_bit 8 (tp_x f)) OR push_bit 4 (ucast (tp_y f)),
      ucast (drop_bit 4 (tp_y f))]"

definition decode_finger :: "u8 list \<Rightarrow> PS5Finger" where
  "decode_finger bs =
     \<lparr>counter = ucast (bs ! 0), touching = ucast (drop_bit 7 (bs ! 0)),
      tp_x = ucast (bs ! 1) OR push_bit 8 (ucast (bs ! 2)),
      tp_y = ucast (drop_bit 4 (bs ! 2)) OR push_bit 4 (ucast (bs ! 3))\<rparr>"

lemma decode_encode_finger [simp]: "decode_finger (encode_finger f) = f"
proof (cases f)
  case (fields a b c d)
  then show ?thesis
    by (simp add: decode_finger_def encode_finger_def)
      (intro conjI; rule bit_word_eqI; auto simp: bit_simps not_less dest: bit_imp_le_length)
qed

lemma encode_decode_finger:
  assumes "length bs = 4"
  shows "encode_finger (decode_finger bs) = bs"
proof -
  obtain x y z u where "bs = [x, y, z, u]" using assms by (auto simp: length_Suc_conv eval_nat_numeral)
  then show ?thesis
    by (simp add: decode_finger_def encode_finger_def)
      (intro conjI; rule u8_eqI; simp add: bit_simps del: push_bit_Suc drop_bit_Suc)
qed

subsection \<open>The data structures\<close>

record PS5Data =
  hatValue :: "u8 list"
  trigger :: "u8 list"
  sequence_number :: u8
  btn :: PS5Buttons
  reserved :: "u8 list"
  gyroX :: u16
  gyroZ :: u16
  gyroY :: u16
  accX :: u16
  accZ :: u16
  accY :: u16
  sensor_timestamp :: u32

record PS5DataFull = PS5Data +
  reserved2 :: u8
  finger0 :: PS5Finger
  finger1 :: PS5Finger

abbreviation (input) sizeof_PS5Data :: nat where "sizeof_PS5Data \<equiv> 31"
abbreviation (input) sizeof_PS5DataFull :: nat where "sizeof_PS5DataFull \<equiv> 40"

definition encode_PS5Data :: "'a PS5Data_scheme \<Rightarrow> u8 list" where
  "encode_PS5Data d = hatValue d @ trigger d @ [sequence_number d] @ encode_buttons (btn d) @ reserved d @
     le16 (gyroX d) @ le16 (gyroZ d) @ le16 (gyroY d) @ le16 (accX d) @ le16 (accZ d) @ le16 (accY d) @
     le32 (sensor_timestamp d)"

definition encode_PS5DataFull :: "PS5DataFull \<Rightarrow> u8 list" where
  "encode_PS5DataFull d = encode_PS5Data d @ [reserved2 d] @ encode_finger (finger0 d) @ encode_finger (finger1 d)"

text \<open>The bytes from offset \<open>o\<close>, \<open>n\<close> of them.\<close>

definition byte_range :: "nat \<Rightarrow> nat \<Rightarrow> 'a list \<Rightarrow> 'a list" where
  "byte_range ofs n bs = take n (drop ofs bs)"

definition decode_PS5Data :: "u8 list \<Rightarrow> PS5Data" where
  "decode_PS5Data bs =
     \<lparr>hatValue = byte_range 0 4 bs, trigger = byte_range 4 2 bs, sequence_number = bs ! 6,
      btn = decode_buttons (byte_range 7 3 bs), reserved = byte_range 10 5 bs,
      gyroX = un_le16 (byte_range 15 2 bs), gyroZ = un_le16 (byte_range 17 2 bs), gyroY = un_le16 (byte_range 19 2 bs),
      accX = un_le16 (byte_range 21 2 bs), accZ = un_le16 (byte_range 23 2 bs), accY = un_le16 (byte_range 25 2 bs),
      sensor_timestamp = un_le32 (byte_range 27 4 bs)\<rparr>"

definition decode_PS5DataFull :: "u8 list \<Rightarrow> PS5DataFull" where
  "decode_PS5DataFull bs = PS5Data.extend (decode_PS5Data bs)
     (PS5DataFull.fields (bs ! 31) (decode_finger (byte_range 32 4 bs)) (decode_finger (byte_range 36 4 bs)))"

definition wf_PS5Data :: "'a PS5Data_scheme \<Rightarrow> bool" where
  "wf_PS5Data d \<longleftrightarrow> length (hatValue d) = 4 \<and> length (trigger d) = 2 \<and> length (reserved d) = 5"

lemma length_encode_buttons [simp]: "length (encode_buttons b) = 3"
  by (simp add: encode_buttons_def)

lemma length_encode_finger [simp]: "length (encode_finger b) = 4"
  by (simp add: encode_finger_def)

lemma length_encode [simp]: "wf_PS5Data d \<Longrightarrow> length (encode_PS5Data d) = 31"
  "wf_PS5Data e \<Longrightarrow> length (encode_PS5DataFull e) = 40"
  by (simp_all add: encode_PS5Data_def encode_PS5DataFull_def wf_PS5Data_def)

lemma decode_encode_PS5Data:
  assumes "wf_PS5Data d"
  shows "decode_PS5Data (encode_PS5Data d) = PS5Data.truncate d"
  using assms
  by (simp add: decode_PS5Data_def encode_PS5Data_def wf_PS5Data_def byte_range_def nth_append PS5Data.truncate_def decode_encode_buttons)

lemma byte_range_append: "a + n = b \<Longrightarrow> byte_range a n bs @ byte_range b m bs = byte_range a (n + m) bs"
  by (auto simp: byte_range_def take_add) (simp add: add.commute)

lemma length_byte_range [simp]: "ofs + n \<le> length bs \<Longrightarrow> length (byte_range ofs n bs) = n"
  by (simp add: byte_range_def)

lemma byte_range_single: "ofs < length bs \<Longrightarrow> [bs ! ofs] = byte_range ofs 1 bs"
  by (simp add: byte_range_def take_Suc_conv_app_nth)

lemma encode_decode_PS5Data:
  assumes "31 \<le> length bs"
  shows "encode_PS5Data (decode_PS5Data bs) = byte_range 0 31 bs"
proof -
  have "encode_PS5Data (decode_PS5Data bs) = byte_range 0 4 bs @ byte_range 4 2 bs @ byte_range 6 1 bs @ byte_range 7 3 bs @ byte_range 10 5 bs @
    byte_range 15 2 bs @ byte_range 17 2 bs @ byte_range 19 2 bs @ byte_range 21 2 bs @ byte_range 23 2 bs @ byte_range 25 2 bs @ byte_range 27 4 bs"
    using assms byte_range_single [of 6 bs]
    by (simp add: encode_PS5Data_def decode_PS5Data_def encode_decode_buttons le16_un_le16 le32_un_le32)
  also have "\<dots> = byte_range 0 31 bs" by (simp add: byte_range_append)
  finally show ?thesis .
qed

lemma encode_decode_PS5DataFull:
  assumes "length bs = 40"
  shows "encode_PS5DataFull (decode_PS5DataFull bs) = bs"
proof -
  have "encode_PS5Data (decode_PS5DataFull bs) = encode_PS5Data (decode_PS5Data bs)"
    by (simp add: encode_PS5Data_def decode_PS5DataFull_def PS5Data.extend_def)
  then have "encode_PS5DataFull (decode_PS5DataFull bs) = byte_range 0 31 bs @ byte_range 31 1 bs @ byte_range 32 4 bs @ byte_range 36 4 bs"
    using assms byte_range_single [of 31 bs] encode_decode_PS5Data [of bs]
    by (simp add: encode_PS5DataFull_def decode_PS5DataFull_def PS5Data.extend_def PS5DataFull.fields_def encode_decode_finger)
  also have "\<dots> = byte_range 0 40 bs" by (simp add: byte_range_append)
  finally show ?thesis using assms by (simp add: byte_range_def)
qed

lemma decode_encode_PS5DataFull:
  assumes "wf_PS5Data d"
  shows "decode_PS5DataFull (encode_PS5DataFull d) = d"
proof -
  have l: "length (encode_PS5Data d) = 31" using assms by simp
  have "decode_PS5Data (encode_PS5DataFull d) = decode_PS5Data (encode_PS5Data d)"
    using l by (simp add: encode_PS5DataFull_def decode_PS5Data_def byte_range_def nth_append)
  then show ?thesis
    using decode_encode_PS5Data [OF assms] l
    by (simp add: decode_PS5DataFull_def encode_PS5DataFull_def byte_range_def nth_append PS5Data.extend_def
      PS5DataFull.fields_def PS5Data.truncate_def)
qed

subsection \<open>Parsing, trimming, printing\<close>

definition ds5_from_hid_report :: "cptr \<Rightarrow> u16 \<Rightarrow> cptr \<Rightarrow> (bool \<times> cptr) option" where
  "ds5_from_hid_report buf len out =
     (case (buf, out) of
        (Some b, Some o') \<Rightarrow>
          if len < 2 then Some (False, out)
          else if b = [] then None
          else if b ! 0 = 0x01 then
            if len < 1 + of_nat sizeof_PS5DataFull then Some (False, out)
            else if 1 + sizeof_PS5DataFull \<le> length b \<and> sizeof_PS5DataFull \<le> length o'
            then Some (True, Some (mem_write 0 (byte_range 1 sizeof_PS5DataFull b) o'))
            else None
          else Some (False, out)
      | _ \<Rightarrow> Some (False, out))"

definition convert_to_trimmed :: "cptr \<Rightarrow> cptr \<Rightarrow> cptr option" where
  "convert_to_trimmed full trimmed =
     (case (full, trimmed) of
        (Some f, Some t) \<Rightarrow>
          if sizeof_PS5Data \<le> length f \<and> sizeof_PS5Data \<le> length t
          then Some (Some (mem_write 0 (take sizeof_PS5Data f) t))
          else None
      | _ \<Rightarrow> Some trimmed)"

text \<open>Console output: the format (without newlines) and its arguments.\<close>

datatype print_arg = AStr string | ANat nat

type_synonym console_line = "string \<times> print_arg list"

abbreviation u8_arg :: "u8 \<Rightarrow> print_arg" where "u8_arg b \<equiv> ANat (unat b)"

definition buttons_val :: "PS5Buttons \<Rightarrow> nat" where
  "buttons_val b = (case encode_buttons b of [x, y, z] \<Rightarrow> unat x + 256 * unat y + 65536 * unat z | _ \<Rightarrow> 0)"

definition print_ps5data_hex :: "cptr \<Rightarrow> string \<Rightarrow> console_line list" where
  "print_ps5data_hex data label =
     (case data of None \<Rightarrow> []
      | Some bytes \<Rightarrow>
        let d = decode_PS5Data bytes in
        [(''=== %s ==='', [AStr label]), (''Size: %zu bytes'', [ANat sizeof_PS5Data])] @
        concat (map (\<lambda>i. (if i mod 16 = 0 then [(''%04zX: '', [ANat i])] else []) @
                      [(''%02X '', [u8_arg (bytes ! i)])]) [0..<sizeof_PS5Data]) @
        [('''', []), (''Field breakdown:'', []),
         (''hatValue[0-3]:     %02X %02X %02X %02X'', map u8_arg (hatValue d)),
         (''trigger[0-1]:      %02X %02X'', map u8_arg (trigger d)),
         (''sequence_number:   %02X'', [u8_arg (sequence_number d)]),
         (''btn.val:           %06X'', [ANat (buttons_val (btn d))]),
         (''reserved[0-4]:     %02X %02X %02X %02X %02X'', map u8_arg (reserved d)),
         (''gyroX,gyroZ,gyroY: %04X %04X %04X'', [ANat (unat (gyroX d)), ANat (unat (gyroZ d)), ANat (unat (gyroY d))]),
         (''accX,accZ,accY:    %04X %04X %04X'', [ANat (unat (accX d)), ANat (unat (accZ d)), ANat (unat (accY d))]),
         (''sensor_timestamp:  %08X'', [ANat (unat (sensor_timestamp d))]),
         (''=================='', [])])"

lemma ds5_from_hid_report_iff:
  assumes "unat len \<le> length b" and "length t = 40"
  shows "ds5_from_hid_report (Some b) len (Some t) =
    Some (41 \<le> unat len \<and> b ! 0 = 0x01, Some (if 41 \<le> unat len \<and> b ! 0 = 0x01 then byte_range 1 40 b else t))"
proof -
  have l: "len < 41 \<longleftrightarrow> unat len < 41" "len < 2 \<longleftrightarrow> unat len < 2" by (simp_all add: word_less_nat_alt)
  show ?thesis
    using assms by (cases b) (auto simp: ds5_from_hid_report_def l not_less byte_range_def)
qed

lemma convert_to_trimmed_eq:
  "31 \<le> length f \<Longrightarrow> length t = 31 \<Longrightarrow> convert_to_trimmed (Some f) (Some t) = Some (Some (take 31 f))"
  by (simp add: convert_to_trimmed_def)

lemma trimmed_view:
  assumes "length f = 40"
  shows "decode_PS5Data (take 31 f) = PS5Data.truncate (decode_PS5DataFull f)"
  using assms
  by (simp add: decode_PS5Data_def decode_PS5DataFull_def byte_range_def drop_take PS5Data.extend_def PS5Data.truncate_def)

subsection \<open>Properties\<close>

text \<open>The packed layout of PS5DataFull loses nothing: decoding any 40 bytes and encoding the
  structure gives the same bytes, and decoding the encoding of any well-formed structure gives
  the structure.\<close>

theorem ps5_layout_round_trip:
  "(wf_PS5Data d \<longrightarrow> length (encode_PS5DataFull d) = sizeof_PS5DataFull \<and>
      decode_PS5DataFull (encode_PS5DataFull d) = d) \<and>
   (length bs = sizeof_PS5DataFull \<longrightarrow> encode_PS5DataFull (decode_PS5DataFull bs) = bs)"
  using decode_encode_PS5DataFull encode_decode_PS5DataFull by simp

theorem ps5_layout_round_trip_witness:
  "encode_PS5DataFull (decode_PS5DataFull (map of_nat [0..<40])) = map of_nat [0..<40]"
  using ps5_layout_round_trip [of undefined "map of_nat [0..<40]"] by simp

text \<open>ds5_from_hid_report accepts a report exactly when it has report id 1 and at least 41
  bytes, copies bytes 1 to 40 then, and leaves the output alone otherwise.\<close>

theorem hid_report_accepted:
  assumes "unat len \<le> length b" and "length t = sizeof_PS5DataFull"
  shows "ds5_from_hid_report (Some b) len (Some t) =
    Some (41 \<le> unat len \<and> b ! 0 = 0x01,
      Some (if 41 \<le> unat len \<and> b ! 0 = 0x01 then byte_range 1 40 b else t))"
  using assms by (rule ds5_from_hid_report_iff)

theorem hid_report_accepted_witness:
  "ds5_from_hid_report (Some (1 # replicate 63 7)) 64 (Some (replicate 40 0)) =
     Some (True, Some (replicate 40 7))"
  using hid_report_accepted [of 64 "1 # replicate 63 7" "replicate 40 0"] by (simp add: byte_range_def)

theorem trimmed_is_prefix_view:
  assumes "length f = sizeof_PS5DataFull" and "length t = sizeof_PS5Data"
  shows "\<exists>bs. convert_to_trimmed (Some f) (Some t) = Some (Some bs) \<and> length bs = sizeof_PS5Data \<and>
    decode_PS5Data bs = PS5Data.truncate (decode_PS5DataFull f)"
  using assms convert_to_trimmed_eq [of f t] trimmed_view [of f] by simp

theorem trimmed_is_prefix_view_witness:
  "\<exists>bs. convert_to_trimmed (Some (replicate 40 3)) (Some (replicate 31 0)) = Some (Some bs) \<and>
     length bs = 31 \<and> decode_PS5Data bs = PS5Data.truncate (decode_PS5DataFull (replicate 40 3))"
  by (rule trimmed_is_prefix_view) simp_all

end
