(* ===== verification/Ch_Events.thy ===== *)
theory Ch_Events
  imports Prelude "HOL-Library.Monad_Syntax"
begin

text \<open>
  The ChibiOS event sources the application uses (os/rt/src/chevents.c, os/rt/include/chevents.h
  under src/ChibiOS_21.11.x): a source is the head of a linked list of listeners that ends with
  a pointer back to the source. Sources, listeners and threads are addressed by numbers and live
  in the store \<open>ev_mem\<close>, so the order in which threads initialise a source and register on it
  matters as it does in the code. A broadcast follows the list; \<open>Some None\<close> is a dereference of
  \<open>NULL\<close>, and that the loop returns at all is proved for every properly terminated list.

  The locale \<open>event_bus\<close> is what the application relies on: a registered thread is notified, and
  initialising a source forgets its listeners.
\<close>

datatype evt_ptr = P_null | P_source nat | P_listener nat

datatype tstate = CH_STATE_READY | CH_STATE_CURRENT | CH_STATE_WTOREVT | CH_STATE_WTANDEVT
  | CH_STATE_OTHER

record event_listener =
  el_next :: evt_ptr
  el_listener :: nat
  el_events :: u32
  el_flags :: u32
  el_wflags :: u32

record thread =
  tstate :: tstate
  epending :: u32
  ewmask :: u32

record ev_mem =
  sources :: "nat \<Rightarrow> evt_ptr"
  listeners :: "nat \<Rightarrow> event_listener"
  threads :: "nat \<Rightarrow> thread"

definition chEvtObjectInit :: "nat \<Rightarrow> ev_mem \<Rightarrow> ev_mem" where
  "chEvtObjectInit esp m = m\<lparr>sources := (sources m)(esp := P_source esp)\<rparr>"

definition chEvtRegisterMaskWithFlagsI :: "nat \<Rightarrow> nat \<Rightarrow> nat \<Rightarrow> u32 \<Rightarrow> u32 \<Rightarrow> ev_mem \<Rightarrow> ev_mem" where
  "chEvtRegisterMaskWithFlagsI currtp esp elp events wflags m =
     m\<lparr>listeners := (listeners m)(elp := \<lparr>el_next = sources m esp, el_listener = currtp,
          el_events = events, el_flags = 0, el_wflags = wflags\<rparr>),
       sources := (sources m)(esp := P_listener elp)\<rparr>"

definition chEvtRegisterMask :: "nat \<Rightarrow> nat \<Rightarrow> nat \<Rightarrow> u32 \<Rightarrow> ev_mem \<Rightarrow> ev_mem" where
  "chEvtRegisterMask currtp esp elp events m =
     chEvtRegisterMaskWithFlagsI currtp esp elp events (- 1) m"

definition signal_thread :: "u32 \<Rightarrow> thread \<Rightarrow> thread" where
  "signal_thread events t =
     (let t = t\<lparr>epending := epending t OR events\<rparr> in
      if tstate t = CH_STATE_WTOREVT \<and> epending t AND ewmask t \<noteq> 0 \<or>
         tstate t = CH_STATE_WTANDEVT \<and> epending t AND ewmask t = ewmask t
      then t\<lparr>tstate := CH_STATE_READY\<rparr> else t)"

definition chEvtSignalI :: "nat \<Rightarrow> u32 \<Rightarrow> ev_mem \<Rightarrow> ev_mem" where
  "chEvtSignalI tp events m = m\<lparr>threads := (threads m)(tp := signal_thread events (threads m tp))\<rparr>"

definition signal_listener :: "u32 \<Rightarrow> nat \<Rightarrow> ev_mem \<Rightarrow> ev_mem" where
  "signal_listener flags elp m =
     (let l = (listeners m elp)\<lparr>el_flags := el_flags (listeners m elp) OR flags\<rparr>;
          m = m\<lparr>listeners := (listeners m)(elp := l)\<rparr> in
      if flags = 0 \<or> flags AND el_wflags l \<noteq> 0 then chEvtSignalI (el_listener l) (el_events l) m
      else m)"

partial_function (option) broadcast_loop ::
  "nat \<Rightarrow> u32 \<Rightarrow> evt_ptr \<Rightarrow> ev_mem \<Rightarrow> ev_mem option option" where
  "broadcast_loop esp flags elp m =
     (if elp = P_source esp then Some (Some m)
      else case elp of
        P_listener x \<Rightarrow>
          let m = signal_listener flags x m in broadcast_loop esp flags (el_next (listeners m x)) m
      | _ \<Rightarrow> Some None)"

definition chEvtBroadcastFlagsI :: "nat \<Rightarrow> u32 \<Rightarrow> ev_mem \<Rightarrow> ev_mem option option" where
  "chEvtBroadcastFlagsI esp flags m = broadcast_loop esp flags (sources m esp) m"

definition chEvtBroadcastI :: "nat \<Rightarrow> ev_mem \<Rightarrow> ev_mem option option" where
  "chEvtBroadcastI esp m = chEvtBroadcastFlagsI esp 0 m"

text \<open>
  \<open>chEvtWaitOne\<close> up to the point where it returns or goes to sleep, and its rest after waking.
\<close>

definition wait_take :: "u32 \<Rightarrow> thread \<Rightarrow> u32 \<times> thread" where
  "wait_take events t =
     (let m = epending t AND events; m = m XOR (m AND (m - 1))
      in (m, t\<lparr>epending := epending t AND NOT m\<rparr>))"

definition chEvtWaitOne :: "nat \<Rightarrow> u32 \<Rightarrow> ev_mem \<Rightarrow> u32 option \<times> ev_mem" where
  "chEvtWaitOne currtp events m =
     (let t = threads m currtp in
      if epending t AND events = 0
      then (None, m\<lparr>threads := (threads m)(currtp := t\<lparr>ewmask := events, tstate := CH_STATE_WTOREVT\<rparr>)\<rparr>)
      else let (r, t) = wait_take events t in (Some r, m\<lparr>threads := (threads m)(currtp := t)\<rparr>))"

definition chEvtWaitOne_resume :: "nat \<Rightarrow> u32 \<Rightarrow> ev_mem \<Rightarrow> u32 \<times> ev_mem" where
  "chEvtWaitOne_resume currtp events m =
     (let (r, t) = wait_take events (threads m currtp)
      in (r, m\<lparr>threads := (threads m)(currtp := t\<lparr>tstate := CH_STATE_CURRENT\<rparr>)\<rparr>))"

text \<open>The listeners reached from pointer \<open>p\<close>, in order, up to the end of the list of \<open>esp\<close>.\<close>

fun chain :: "ev_mem \<Rightarrow> nat \<Rightarrow> evt_ptr \<Rightarrow> nat list \<Rightarrow> bool" where
  "chain m esp p [] \<longleftrightarrow> p = P_source esp"
| "chain m esp p (x # xs) \<longleftrightarrow> p = P_listener x \<and> chain m esp (el_next (listeners m x)) xs"

lemma signal_listener_next [simp]: "el_next (listeners (signal_listener fl x m) y) = el_next (listeners m y)"
  by (simp add: signal_listener_def chEvtSignalI_def Let_def)

lemma signal_listener_sources [simp]: "sources (signal_listener fl x m) = sources m"
  by (simp add: signal_listener_def chEvtSignalI_def Let_def)

lemma chain_cong: "(\<And>x. x \<in> set xs \<Longrightarrow> el_next (listeners m' x) = el_next (listeners m x)) \<Longrightarrow> chain m' e p xs = chain m e p xs"
  by (induction xs arbitrary: p) simp_all

lemma broadcast_loop_chain:
  "chain m esp p xs \<Longrightarrow> broadcast_loop esp fl p m = Some (Some (fold (signal_listener fl) xs m))"
proof (induction xs arbitrary: p m)
  case Nil
  then show ?case by (simp add: broadcast_loop.simps)
next
  case (Cons x xs)
  then have p: "p = P_listener x" and c: "chain m esp (el_next (listeners m x)) xs" by simp_all
  have "chain (signal_listener fl x m) esp (el_next (listeners m x)) xs"
    using c chain_cong [of xs "signal_listener fl x m" m] by simp
  from Cons.IH [OF this] p show ?case by (subst broadcast_loop.simps) (simp add: Let_def)
qed

text \<open>The events a broadcast adds to a thread: those of all its listeners on the source.\<close>

fun listener_mask :: "ev_mem \<Rightarrow> nat \<Rightarrow> nat list \<Rightarrow> u32" where
  "listener_mask m t [] = 0"
| "listener_mask m t (x # xs) =
     (if el_listener (listeners m x) = t then el_events (listeners m x) else 0) OR listener_mask m t xs"

lemma signal_listener_fields [simp]:
  "el_listener (listeners (signal_listener fl x m) y) = el_listener (listeners m y)"
  "el_events (listeners (signal_listener fl x m) y) = el_events (listeners m y)"
  by (simp_all add: signal_listener_def chEvtSignalI_def Let_def)

lemma listener_mask_signal [simp]: "listener_mask (signal_listener fl x m) t xs = listener_mask m t xs"
  by (induction xs) simp_all

lemma signal_thread_pending [simp]: "epending (signal_thread ev t) = epending t OR ev"
  by (simp add: signal_thread_def Let_def)

lemma pending_signal_listener:
  "epending (threads (signal_listener 0 x m) t) =
     epending (threads m t) OR (if el_listener (listeners m x) = t then el_events (listeners m x) else 0)"
  by (simp add: signal_listener_def chEvtSignalI_def Let_def)

lemma pending_fold:
  "epending (threads (fold (signal_listener 0) xs m) t) = epending (threads m t) OR listener_mask m t xs"
  by (induction xs arbitrary: m) (simp_all add: pending_signal_listener or.assoc)

lemma signal_thread_state:
  "tstate (signal_thread ev t) = tstate t \<or> tstate (signal_thread ev t) = CH_STATE_READY"
  by (simp add: signal_thread_def Let_def)

lemma signal_wakes:
  "tstate t = CH_STATE_WTOREVT \<Longrightarrow> ev AND ewmask t \<noteq> 0 \<Longrightarrow> tstate (signal_thread ev t) = CH_STATE_READY"
proof -
  assume w: "tstate t = CH_STATE_WTOREVT" and e: "ev AND ewmask t \<noteq> 0"
  have "(epending t OR ev) AND ewmask t \<noteq> 0"
    using e by (auto simp: and.commute bit.conj_disj_distrib or_eq_0_iff)
  with w show ?thesis by (simp add: signal_thread_def Let_def)
qed

text \<open>\<open>m ^= m & (m - 1)\<close> leaves the lowest set bit.\<close>

lemma m_and_pred:
  fixes m :: u32
  assumes "m \<noteq> 0"
  obtains k where "k < 32" "bit m k" "\<And>j. j < k \<Longrightarrow> \<not> bit m j" "m XOR (m AND (m - 1)) = 2 ^ k"
proof -
  obtain n where n: "bit m n" using assms by (auto simp: bit_eq_iff)
  define k where "k = (LEAST n. bit m n)"
  have k: "bit m k" "\<And>j. j < k \<Longrightarrow> \<not> bit m j"
    unfolding k_def using LeastI [of "bit m", OF n] not_less_Least [of _ "bit m"] by blast+
  have k32: "k < 32" using bit_imp_le_length [OF k(1)] by simp
  define q where "q = drop_bit (Suc k) m"
  have m: "m = push_bit (Suc k) q OR push_bit k 1"
  proof (rule bit_word_eqI)
    fix n :: nat
    assume n: "n < LENGTH(32)"
    consider "n < k" | "n = k" | "k < n" by linarith
    then show "bit m n = bit (push_bit (Suc k) q OR push_bit k 1) n"
      using n k by cases (auto simp: q_def bit_simps simp del: push_bit_Suc drop_bit_Suc)
  qed
  have "m = push_bit (Suc k) q + push_bit k 1"
    unfolding m by (subst disjunctive_add_eq_or) (auto simp: bit_simps simp del: push_bit_Suc intro!: bit_word_eqI)
  then have "m - 1 = push_bit (Suc k) q + mask k"
    by (simp add: mask_eq_exp_minus_1 push_bit_eq_mult)
  also have "\<dots> = push_bit (Suc k) q OR mask k"
    by (subst disjunctive_add_eq_or) (auto simp: bit_simps simp del: push_bit_Suc intro!: bit_word_eqI)
  finally have p: "m - 1 = push_bit (Suc k) q OR mask k" .
  have "m XOR (m AND (m - 1)) = push_bit k 1"
    unfolding p by (subst (1 2) m, rule bit_word_eqI) (auto simp: bit_simps simp del: push_bit_Suc)
  then show thesis using that k k32 by simp
qed

subsection \<open>The contract of an event source\<close>

locale event_bus =
  fixes init :: "nat \<Rightarrow> 'm \<Rightarrow> 'm"
    and register :: "nat \<Rightarrow> nat \<Rightarrow> nat \<Rightarrow> u32 \<Rightarrow> 'm \<Rightarrow> 'm"
    and broadcast :: "nat \<Rightarrow> 'm \<Rightarrow> 'm option option"
    and pending :: "'m \<Rightarrow> nat \<Rightarrow> u32"
    and listens :: "'m \<Rightarrow> nat \<Rightarrow> nat list \<Rightarrow> bool"
    and mask_of :: "'m \<Rightarrow> nat \<Rightarrow> nat list \<Rightarrow> u32"
  assumes init_listens: "listens (init e m) e []"
    and init_pending: "pending (init e m) = pending m"
    and register_listens: "listens m e xs \<Longrightarrow> x \<notin> set xs \<Longrightarrow> listens (register t e x k m) e (x # xs)"
    and register_pending: "pending (register t e x k m) = pending m"
    and mask_none: "mask_of m u [] = 0"
    and register_mask: "x \<notin> set xs \<Longrightarrow>
      mask_of (register t e x k m) u (x # xs) = (if t = u then k else 0) OR mask_of m u xs"
    and broadcast_delivers: "listens m e xs \<Longrightarrow>
      \<exists>m'. broadcast e m = Some (Some m') \<and> listens m' e xs \<and>
        (\<forall>u. pending m' u = pending m u OR mask_of m u xs)"
begin

lemma registered_is_notified:
  assumes "listens m e xs" and "x \<notin> set xs"
  obtains m' where "broadcast e (register t e x k m) = Some (Some m')" and "pending m' t AND k = k"
proof -
  obtain m' where b: "broadcast e (register t e x k m) = Some (Some m')"
    and p: "\<forall>u. pending m' u = pending (register t e x k m) u OR mask_of (register t e x k m) u (x # xs)"
    using broadcast_delivers [OF register_listens [OF assms]] by blast
  have "pending m' t AND k = k"
    using p assms(2) by (simp add: register_mask register_pending)
      (rule bit_word_eqI, auto simp: bit_simps)
  with b show thesis by (rule that)
qed

lemma init_drops_listeners:
  obtains m' where "broadcast e (init e m) = Some (Some m')" and "pending m' = pending m"
proof -
  obtain m' where "broadcast e (init e m) = Some (Some m')" "\<forall>u. pending m' u = pending m u"
    using broadcast_delivers [OF init_listens [of e m]] by (auto simp: mask_none init_pending)
  then show thesis by (intro that) (auto simp: fun_eq_iff)
qed

end

lemma fold_chain: "chain (fold (signal_listener fl) ys m) e p xs = chain m e p xs"
proof (induction ys arbitrary: m)
  case (Cons y ys)
  then show ?case using chain_cong [of xs "signal_listener fl y m" m] by simp
qed simp

lemma fold_sources: "sources (fold (signal_listener fl) ys m) = sources m"
  by (induction ys arbitrary: m) simp_all

definition on_source :: "ev_mem \<Rightarrow> nat \<Rightarrow> nat list \<Rightarrow> bool" where
  "on_source m e xs \<longleftrightarrow> chain m e (sources m e) xs"

definition pending_of :: "ev_mem \<Rightarrow> nat \<Rightarrow> u32" where
  "pending_of m t = epending (threads m t)"

lemma chain_other:
  "x \<notin> set xs \<Longrightarrow> chain (m\<lparr>listeners := (listeners m)(x := l), sources := s\<rparr>) e p xs = chain m e p xs"
  by (induction xs arbitrary: p) auto

lemma listener_mask_other:
  "x \<notin> set xs \<Longrightarrow> listener_mask (m\<lparr>listeners := (listeners m)(x := l), sources := s\<rparr>) t xs = listener_mask m t xs"
  by (induction xs) auto

interpretation ch_events: event_bus chEvtObjectInit chEvtRegisterMask chEvtBroadcastI pending_of on_source listener_mask
proof
  fix m e xs x t k
  assume "on_source m e xs" "x \<notin> set xs"
  then show "on_source (chEvtRegisterMask t e x k m) e (x # xs)"
    by (simp add: on_source_def chEvtRegisterMask_def chEvtRegisterMaskWithFlagsI_def chain_other)
next
  fix x :: nat and xs t e k m u
  assume "x \<notin> set xs"
  then show "listener_mask (chEvtRegisterMask t e x k m) u (x # xs) = (if t = u then k else 0) OR listener_mask m u xs"
    by (simp add: chEvtRegisterMask_def chEvtRegisterMaskWithFlagsI_def listener_mask_other)
next
  fix m e xs
  assume "on_source m e xs"
  then show "\<exists>m'. chEvtBroadcastI e m = Some (Some m') \<and> on_source m' e xs \<and>
    (\<forall>u. pending_of m' u = pending_of m u OR listener_mask m u xs)"
    using broadcast_loop_chain [of m e "sources m e" xs 0]
    by (auto simp: on_source_def chEvtBroadcastI_def chEvtBroadcastFlagsI_def pending_of_def pending_fold
        fold_chain fold_sources)
qed (simp_all add: on_source_def pending_of_def fun_eq_iff chEvtObjectInit_def chEvtRegisterMask_def
    chEvtRegisterMaskWithFlagsI_def)

text \<open>A broadcast wakes every thread that waits for one of the events of its listeners.\<close>

lemma signal_listener_thread:
  "threads (signal_listener 0 x m) t = (if el_listener (listeners m x) = t
     then signal_thread (el_events (listeners m x)) (threads m t) else threads m t)"
  by (simp add: signal_listener_def chEvtSignalI_def Let_def)

lemma signal_thread_ready [simp]: "tstate t = CH_STATE_READY \<Longrightarrow> tstate (signal_thread ev t) = CH_STATE_READY"
  by (simp add: signal_thread_def Let_def)

lemma signal_thread_ewmask [simp]: "ewmask (signal_thread ev t) = ewmask t"
  by (simp add: signal_thread_def Let_def)

lemma fold_ready:
  "tstate (threads m t) = CH_STATE_READY \<Longrightarrow> tstate (threads (fold (signal_listener 0) xs m) t) = CH_STATE_READY"
  by (induction xs arbitrary: m) (simp_all add: signal_listener_thread)

lemma fold_wakes:
  assumes "x \<in> set xs" and "el_listener (listeners m x) = t"
    and "tstate (threads m t) = CH_STATE_WTOREVT" and "el_events (listeners m x) AND ewmask (threads m t) \<noteq> 0"
  shows "tstate (threads (fold (signal_listener 0) xs m) t) = CH_STATE_READY"
  using assms
proof (induction xs arbitrary: m)
  case (Cons y ys)
  let ?m = "signal_listener 0 y m"
  show ?case
  proof (cases "tstate (threads ?m t) = CH_STATE_READY")
    case True
    then show ?thesis by (simp add: fold_ready)
  next
    case False
    then have w: "tstate (threads ?m t) = CH_STATE_WTOREVT"
      using Cons.prems(3) signal_thread_state [of "el_events (listeners m y)" "threads m t"]
      by (auto simp: signal_listener_thread split: if_splits)
    have "y \<noteq> x"
      using False Cons.prems(2-4) signal_wakes [of "threads m t"] by (auto simp: signal_listener_thread)
    then have "x \<in> set ys" using Cons.prems(1) by simp
    from Cons.IH [OF this _ w] Cons.prems(2,4) show ?thesis by (simp add: signal_listener_thread)
  qed
qed simp

subsection \<open>Properties\<close>

text \<open>Broadcasting an event source terminates for every well-terminated listener list, adds the
  events of every listener to its thread, and makes every waiting thread that listens for one of
  them ready.\<close>

theorem broadcast_notifies_all:
  assumes "on_source m e xs"
  shows "\<exists>m'. chEvtBroadcastI e m = Some (Some m') \<and> on_source m' e xs \<and>
    (\<forall>t. pending_of m' t = pending_of m t OR listener_mask m t xs) \<and>
    (\<forall>x\<in>set xs. let t = el_listener (listeners m x) in
       tstate (threads m t) = CH_STATE_WTOREVT \<longrightarrow>
       el_events (listeners m x) AND ewmask (threads m t) \<noteq> 0 \<longrightarrow>
       tstate (threads m' t) = CH_STATE_READY)"
proof -
  have "chEvtBroadcastI e m = Some (Some (fold (signal_listener 0) xs m))"
    using assms broadcast_loop_chain [of m e "sources m e" xs 0]
    by (simp add: on_source_def chEvtBroadcastI_def chEvtBroadcastFlagsI_def)
  with ch_events.broadcast_delivers [OF assms] fold_wakes [of _ xs m] show ?thesis
    by (auto simp: Let_def)
qed

definition ev_mem0 :: ev_mem where
  "ev_mem0 = \<lparr>sources = (\<lambda>_. P_null),
     listeners = (\<lambda>_. \<lparr>el_next = P_null, el_listener = 0, el_events = 0, el_flags = 0, el_wflags = 0\<rparr>),
     threads = (\<lambda>_. \<lparr>tstate = CH_STATE_WTOREVT, epending = 0, ewmask = 2\<rparr>)\<rparr>"

theorem broadcast_notifies_all_witness:
  "\<exists>m'. chEvtBroadcastI 7 (chEvtRegisterMask 3 7 5 2 (chEvtObjectInit 7 ev_mem0)) = Some (Some m') \<and>
     pending_of m' 3 = 2 \<and> tstate (threads m' 3) = CH_STATE_READY"
proof -
  let ?m = "chEvtRegisterMask 3 7 5 2 (chEvtObjectInit 7 ev_mem0)"
  have o: "on_source ?m 7 [5]"
    by (rule ch_events.register_listens [OF ch_events.init_listens]) simp
  have f: "el_listener (listeners ?m 5) = 3" "el_events (listeners ?m 5) = 2"
    "threads ?m 3 = \<lparr>tstate = CH_STATE_WTOREVT, epending = 0, ewmask = 2\<rparr>"
    by (simp_all add: chEvtRegisterMask_def chEvtRegisterMaskWithFlagsI_def chEvtObjectInit_def ev_mem0_def)
  obtain m' where m': "chEvtBroadcastI 7 ?m = Some (Some m')" "pending_of m' 3 = pending_of ?m 3 OR listener_mask ?m 3 [5]"
    "tstate (threads m' 3) = CH_STATE_READY"
    using broadcast_notifies_all [OF o] f by (auto simp: Let_def)
  then show ?thesis using f by (intro exI [of _ m']) (simp add: pending_of_def)
qed

theorem registration_before_init_is_lost:
  "\<exists>m'. chEvtBroadcastI es (chEvtObjectInit es (chEvtRegisterMask t es el k m)) = Some (Some m') \<and>
     pending_of m' = pending_of m"
  by (rule ch_events.init_drops_listeners [of es "chEvtRegisterMask t es el k m"])
    (simp add: ch_events.register_pending)

theorem registration_after_init_is_notified:
  "\<exists>m'. chEvtBroadcastI es (chEvtRegisterMask t es el k (chEvtObjectInit es m)) = Some (Some m') \<and>
     pending_of m' t AND k = k"
  by (rule ch_events.registered_is_notified [OF ch_events.init_listens, of el]) auto

text \<open>A broadcast on a zero-initialised source with one registered listener follows the list to
  a null pointer: registering before chEvtObjectInit is not safe.\<close>

theorem broadcast_on_uninitialised_source:
  assumes "sources m es = P_null"
  shows "chEvtBroadcastI es (chEvtRegisterMask t es el k m) = Some None"
  using assms
  by (simp add: chEvtBroadcastI_def chEvtBroadcastFlagsI_def chEvtRegisterMask_def
      chEvtRegisterMaskWithFlagsI_def broadcast_loop.simps [of _ _ "P_listener _"]
      broadcast_loop.simps [of _ _ P_null] Let_def)

theorem broadcast_on_uninitialised_source_witness:
  "chEvtBroadcastI 7 (chEvtRegisterMask 3 7 5 2 ev_mem0) = Some None"
  by (rule broadcast_on_uninitialised_source) (simp add: ev_mem0_def)

text \<open>chEvtWaitOne with an event pending returns exactly the lowest pending event of its mask
  and clears only that event.\<close>

theorem wait_one_serves_lowest:
  assumes "epending (threads m t) AND events \<noteq> 0"
  shows "\<exists>k<32. bit (epending (threads m t) AND events) k \<and>
    (\<forall>j<k. \<not> bit (epending (threads m t) AND events) j) \<and>
    chEvtWaitOne t events m = (Some (2 ^ k), m\<lparr>threads := (threads m)(t := (threads m t)
      \<lparr>epending := epending (threads m t) AND NOT (2 ^ k)\<rparr>)\<rparr>)"
proof -
  define x where "x = epending (threads m t) AND events"
  obtain k where k: "k < 32" "bit x k" "\<And>j. j < k \<Longrightarrow> \<not> bit x j" and e: "x XOR (x AND (x - 1)) = 2 ^ k"
    using m_and_pred [OF assms [folded x_def]] by blast
  have "chEvtWaitOne t events m = (Some (2 ^ k), m\<lparr>threads := (threads m)(t := (threads m t)
      \<lparr>epending := epending (threads m t) AND NOT (2 ^ k)\<rparr>)\<rparr>)"
    using assms unfolding chEvtWaitOne_def wait_take_def Let_def x_def [symmetric] e by simp
  with k show ?thesis unfolding x_def by blast
qed

theorem wait_one_serves_lowest_witness:
  "\<exists>k<32. bit (6 :: u32) k \<and> (\<forall>j<k. \<not> bit (6 :: u32) j) \<and>
     fst (chEvtWaitOne 0 7 (ev_mem0\<lparr>threads := (\<lambda>_. \<lparr>tstate = CH_STATE_CURRENT, epending = 6, ewmask = 0\<rparr>)\<rparr>)) = Some (2 ^ k)"
  using wait_one_serves_lowest [of "ev_mem0\<lparr>threads := (\<lambda>_. \<lparr>tstate = CH_STATE_CURRENT, epending = 6, ewmask = 0\<rparr>)\<rparr>" 0 7]
  by auto

end
