(* ===== verification/App_Publish.thy ===== *)
theory App_Publish
  imports App_Ps5 Ch_Events
begin

text \<open>
  The hand-over of controller reports in \<^verbatim>\<open>src/main.c\<close>: the double buffer
  \<^verbatim>\<open>ds5Buf\<close> with its published index and generation counter, the USB report
  callback that fills the back buffer and publishes it, and the byte-wise copy with which a
  consumer thread takes its snapshot.  The callback is a function on the shared state (None is a
  memory error); its contract is a latest-only register.  The interleaving of callbacks with the
  bytes of a copy is a step relation.
\<close>

section \<open>The shared state and the report callback\<close>

text \<open>The globals \<^verbatim>\<open>ds5Buf\<close>, \<^verbatim>\<open>ds5PublishedIndex\<close>,
  \<^verbatim>\<open>ds5Generation\<close>, and the store of the event objects.  A buffer is the bytes of a
  \<^verbatim>\<open>PS5DataFull\<close>.\<close>

record ds5_state =
  ds5Buf :: "u8 list list"
  ds5PublishedIndex :: u8
  ds5Generation :: u32
  ds5_events :: ev_mem

abbreviation (input) esDS5Ready :: nat where "esDS5Ready \<equiv> 0"
abbreviation (input) esNRF24Interrupt :: nat where "esNRF24Interrupt \<equiv> 1"
abbreviation (input) EVT_DS5_READY :: u32 where "EVT_DS5_READY \<equiv> 1"
abbreviation (input) EVT_NRF24_INTERRUPT :: u32 where "EVT_NRF24_INTERRUPT \<equiv> 2"

definition hid_report_callback :: "u8 list \<Rightarrow> u16 \<Rightarrow> ds5_state \<Rightarrow> ds5_state option" where
  "hid_report_callback report len s =
     (let next = ds5PublishedIndex s XOR 1 in
      if unat next < length (ds5Buf s) then
        case ds5_from_hid_report (Some report) len (Some (ds5Buf s ! unat next)) of
          Some (True, Some b) \<Rightarrow>
            (case chEvtBroadcastI esDS5Ready (ds5_events s) of
               Some (Some ev) \<Rightarrow>
                 Some (s\<lparr>ds5Buf := (ds5Buf s)[unat next := b], ds5PublishedIndex := next,
                         ds5Generation := ds5Generation s + 1, ds5_events := ev\<rparr>)
             | _ \<Rightarrow> None)
        | Some (False, _) \<Rightarrow> Some s
        | _ \<Rightarrow> None
      else None)"

definition ds5_ok :: "ds5_state \<Rightarrow> bool" where
  "ds5_ok s \<longleftrightarrow> length (ds5Buf s) = 2 \<and> (\<forall>b\<in>set (ds5Buf s). length b = 40) \<and> ds5PublishedIndex s < 2 \<and>
     (\<exists>xs. on_source (ds5_events s) esDS5Ready xs)"

definition published :: "ds5_state \<Rightarrow> u8 list" where
  "published s = ds5Buf s ! unat (ds5PublishedIndex s)"

text \<open>A report that is taken: USB report 0x01 with the whole structure.\<close>

definition accepted :: "u8 list \<Rightarrow> u16 \<Rightarrow> bool" where
  "accepted report len \<longleftrightarrow> 41 \<le> unat len \<and> report ! 0 = 0x01"

lemma index_cases:
  assumes "ds5_ok s"
  shows "ds5PublishedIndex s = 0 \<or> ds5PublishedIndex s = 1"
proof -
  have "unat (ds5PublishedIndex s) < 2" using assms by (simp add: ds5_ok_def word_less_nat_alt)
  then have "unat (ds5PublishedIndex s) = 0 \<or> unat (ds5PublishedIndex s) = 1" by linarith
  then show ?thesis by (simp add: word_unat_eq_iff)
qed

lemma hid_report_callback_spec:
  assumes ok: "ds5_ok s" and len: "unat len \<le> length report"
  obtains s' where "hid_report_callback report len s = Some s'" "ds5_ok s'"
    "published s' = (if accepted report len then byte_range 1 40 report else published s)"
    "ds5Buf s' ! unat (ds5PublishedIndex s) = ds5Buf s ! unat (ds5PublishedIndex s)"
    "ds5Generation s' = (if accepted report len then ds5Generation s + 1 else ds5Generation s)"
    "ds5PublishedIndex s' = (if accepted report len then ds5PublishedIndex s XOR 1 else ds5PublishedIndex s)"
    "\<not> accepted report len \<Longrightarrow> s' = s"
    "accepted report len \<Longrightarrow> chEvtBroadcastI esDS5Ready (ds5_events s) = Some (Some (ds5_events s'))"
proof -
  let ?n = "ds5PublishedIndex s XOR 1"
  have n: "unat ?n < 2" "?n < 2" "unat ?n \<noteq> unat (ds5PublishedIndex s)" using index_cases [OF ok] by auto
  have l: "length (ds5Buf s) = 2" "length (ds5Buf s ! unat ?n) = 40"
    using ok n by (auto simp: ds5_ok_def)
  note r = ds5_from_hid_report_iff [OF len l(2)]
  obtain xs where xs: "on_source (ds5_events s) 0 xs" using ok by (auto simp: ds5_ok_def)
  obtain ev where ev: "chEvtBroadcastI 0 (ds5_events s) = Some (Some ev)" "on_source ev 0 xs"
    using ch_events.broadcast_delivers [OF xs] by blast
  show thesis
  proof (cases "accepted report len")
    case False
    then have "hid_report_callback report len s = Some s"
      using n l r by (auto simp: hid_report_callback_def accepted_def Let_def)
    with False ok show ?thesis by (intro that) simp_all
  next
    case True
    let ?s = "s\<lparr>ds5Buf := (ds5Buf s)[unat ?n := byte_range 1 40 report], ds5PublishedIndex := ?n,
                         ds5Generation := ds5Generation s + 1, ds5_events := ev\<rparr>"
    have c: "hid_report_callback report len s = Some ?s"
      using True n l r ev by (simp add: hid_report_callback_def accepted_def Let_def)
    have "length (byte_range 1 40 report) = 40" using True len by (simp add: accepted_def)
    then have "ds5_ok ?s" using ok n l ev by (auto simp: ds5_ok_def dest!: set_update_subset_insert [THEN subsetD])
    with c True n l ev show ?thesis by (intro that [of ?s]) (simp_all add: published_def)
  qed
qed
definition ds5_0 :: ds5_state where
  "ds5_0 = \<lparr>ds5Buf = [replicate 40 0, replicate 40 0], ds5PublishedIndex = 0, ds5Generation = 0,
     ds5_events = chEvtObjectInit 0 ev_mem0\<rparr>"

lemma ds5_ok_0: "ds5_ok ds5_0"
  using ch_events.init_listens [of 0 ev_mem0] by (auto simp: ds5_ok_def ds5_0_def)


section \<open>The contract: a latest-only register\<close>

text \<open>The callback run on a sequence of reports.\<close>

fun publish_all :: "(u8 list \<times> u16) list \<Rightarrow> ds5_state \<Rightarrow> ds5_state option" where
  "publish_all [] s = Some s"
| "publish_all ((report, len) # rs) s =
     (case hid_report_callback report len s of None \<Rightarrow> None | Some s' \<Rightarrow> publish_all rs s')"

text \<open>What a latest-only register holds: the payload of the last accepted report.\<close>

fun latest :: "(u8 list \<times> u16) list \<Rightarrow> u8 list \<Rightarrow> u8 list" where
  "latest [] b = b"
| "latest ((report, len) # rs) b = latest rs (if accepted report len then byte_range 1 40 report else b)"

definition accepted_count :: "(u8 list \<times> u16) list \<Rightarrow> nat" where
  "accepted_count rs = length (filter (\<lambda>(report, len). accepted report len) rs)"

lemma publish_all_spec:
  assumes "ds5_ok s" and "\<forall>(report, len)\<in>set rs. unat len \<le> length report"
  shows "\<exists>s'. publish_all rs s = Some s' \<and> ds5_ok s' \<and> published s' = latest rs (published s) \<and>
    ds5Generation s' = ds5Generation s + of_nat (accepted_count rs)"
  using assms
proof (induction rs arbitrary: s)
  case Nil
  then show ?case by (simp add: accepted_count_def)
next
  case (Cons r rs)
  obtain report len where r: "r = (report, len)" by (cases r)
  have len: "unat len \<le> length report" using Cons.prems(2) r by simp
  obtain s1 where s1: "hid_report_callback report len s = Some s1" "ds5_ok s1"
    "published s1 = (if accepted report len then byte_range 1 40 report else published s)"
    "ds5Generation s1 = (if accepted report len then ds5Generation s + 1 else ds5Generation s)"
    by (rule hid_report_callback_spec [OF Cons.prems(1) len]) auto
  obtain s2 where "publish_all rs s1 = Some s2" "ds5_ok s2" "published s2 = latest rs (published s1)"
    "ds5Generation s2 = ds5Generation s1 + of_nat (accepted_count rs)"
    using Cons.IH [OF s1(2)] Cons.prems(2) by auto
  with s1 r show ?case by (simp add: accepted_count_def)
qed

text \<open>C11. The report callback implements a latest-only register: after any sequence of reports the
  published buffer holds the payload of the last accepted one, and the generation counter has
  advanced (modulo 2 to the 32) by the number of accepted reports.\<close>

theorem publish_latest_only:
  assumes "ds5_ok s" and "\<forall>(report, len)\<in>set rs. unat len \<le> length report"
  shows "\<exists>s'. publish_all rs s = Some s' \<and> ds5_ok s' \<and> published s' = latest rs (published s) \<and>
    ds5Generation s' = ds5Generation s + of_nat (accepted_count rs)"
  using assms by (rule publish_all_spec)

theorem publish_latest_only_witness:
  "\<exists>s'. publish_all [(1 # replicate 63 7, 64), (2 # replicate 63 9, 64), (1 # replicate 9 5, 10)] ds5_0 = Some s' \<and>
    published s' = replicate 40 7 \<and> ds5Generation s' = 1"
proof -
  let ?rs = "[(1 # replicate 63 7, 64), (2 # replicate 63 9, 64), (1 # replicate 9 5, 10)] :: (u8 list \<times> u16) list"
  have l: "latest ?rs (published ds5_0) = replicate 40 7" by code_simp
  have c: "accepted_count ?rs = 1" by code_simp
  have r: "\<forall>(report, len)\<in>set ?rs. unat len \<le> length report" by code_simp
  show ?thesis using publish_latest_only [OF ds5_ok_0 r] unfolding l c by (auto simp: ds5_0_def)
qed

section \<open>Snapshots under interleaving\<close>

text \<open>A consumer thread reads \<^verbatim>\<open>ds5PublishedIndex\<close> and then copies the first 31 bytes of that
  buffer (\<^verbatim>\<open>convert_to_trimmed\<close>) outside any lock, while the callback may run between any two
  bytes.  The fields \<^verbatim>\<open>pubs\<close> and \<^verbatim>\<open>taken\<close> are ghosts: the publications since the index was read and the buffer
  that was published at that moment.\<close>

record snap_state =
  shared :: ds5_state
  src_idx :: nat
  pos :: nat
  snap :: "u8 list"
  pubs :: nat
  taken :: "u8 list"

inductive snap_step :: "snap_state \<Rightarrow> snap_state \<Rightarrow> bool" where
  publish: "unat len \<le> length report \<Longrightarrow> hid_report_callback report len (shared s) = Some sh \<Longrightarrow>
    snap_step s (s\<lparr>shared := sh, pubs := pubs s + (if accepted report len then 1 else 0)\<rparr>)"
| start: "pos s = 31 \<Longrightarrow> snap_step s (s\<lparr>src_idx := unat (ds5PublishedIndex (shared s)), pos := 0,
    pubs := 0, taken := published (shared s)\<rparr>)"
| copy: "pos s < 31 \<Longrightarrow> snap_step s (s\<lparr>snap := (snap s)[pos s := ds5Buf (shared s) ! src_idx s ! pos s],
    pos := pos s + 1\<rparr>)"

inductive_cases snap_stepE: "snap_step s s'"

definition snap_init :: "snap_state \<Rightarrow> bool" where
  "snap_init s \<longleftrightarrow> ds5_ok (shared s) \<and> length (snap s) = 31 \<and> pos s = 0 \<and> pubs s = 0 \<and>
     src_idx s = unat (ds5PublishedIndex (shared s)) \<and> taken s = published (shared s)"

inductive snap_reachable :: "snap_state \<Rightarrow> bool" where
  init: "snap_init s \<Longrightarrow> snap_reachable s"
| step: "snap_reachable s \<Longrightarrow> snap_step s s' \<Longrightarrow> snap_reachable s'"

definition snap_inv :: "snap_state \<Rightarrow> bool" where
  "snap_inv s \<longleftrightarrow> ds5_ok (shared s) \<and> length (snap s) = 31 \<and> pos s \<le> 31 \<and> src_idx s < 2 \<and>
     (pubs s \<le> 1 \<longrightarrow> take (pos s) (snap s) = take (pos s) (taken s) \<and> ds5Buf (shared s) ! src_idx s = taken s \<and>
        (pubs s = 0 \<longleftrightarrow> src_idx s = unat (ds5PublishedIndex (shared s))))"

lemma published_index_less: "ds5_ok s \<Longrightarrow> unat (ds5PublishedIndex s) < 2"
  by (simp add: ds5_ok_def word_less_nat_alt)

lemma buf_length: "ds5_ok s \<Longrightarrow> i < 2 \<Longrightarrow> length (ds5Buf s ! i) = 40"
  by (auto simp: ds5_ok_def)

lemma snap_inv_init: "snap_init s \<Longrightarrow> snap_inv s"
  using published_index_less [of "shared s"] by (simp add: snap_init_def snap_inv_def published_def)

lemma snap_inv_publish:
  assumes inv: "snap_inv s" and len: "unat len \<le> length report"
    and cb: "hid_report_callback report len (shared s) = Some sh"
  shows "snap_inv (s\<lparr>shared := sh, pubs := pubs s + (if accepted report len then 1 else 0)\<rparr>)"
proof -
  have ok: "ds5_ok (shared s)" using inv by (simp add: snap_inv_def)
  obtain s' where "hid_report_callback report len (shared s) = Some s'" and sp: "ds5_ok s'"
    "ds5Buf s' ! unat (ds5PublishedIndex (shared s)) = ds5Buf (shared s) ! unat (ds5PublishedIndex (shared s))"
    "ds5PublishedIndex s' = (if accepted report len then ds5PublishedIndex (shared s) XOR 1 else ds5PublishedIndex (shared s))"
    and un: "\<not> accepted report len \<Longrightarrow> s' = shared s"
    by (rule hid_report_callback_spec [OF ok len]) auto
  with cb have sh: "sh = s'" by simp
  show ?thesis
  proof (cases "accepted report len")
    case False
    then show ?thesis using un inv sh by simp
  next
    case True
    have x: "ds5PublishedIndex s' = ds5PublishedIndex (shared s) XOR 1" using sp True by simp
    have "unat (ds5PublishedIndex (shared s) XOR 1) \<noteq> unat (ds5PublishedIndex (shared s))"
      using index_cases [OF ok] by auto
    then show ?thesis using inv sp(1,2) True x by (auto simp: snap_inv_def sh)
  qed
qed

lemma snap_inv_copy:
  assumes inv: "snap_inv s" and p: "pos s < 31"
  shows "snap_inv (s\<lparr>snap := (snap s)[pos s := ds5Buf (shared s) ! src_idx s ! pos s], pos := pos s + 1\<rparr>)"
proof -
  have l: "length (ds5Buf (shared s) ! src_idx s) = 40" using inv buf_length by (simp add: snap_inv_def)
  have "take (Suc (pos s)) ((snap s)[pos s := taken s ! pos s]) = take (Suc (pos s)) (taken s)"
    if "take (pos s) (snap s) = take (pos s) (taken s)" "length (taken s) = 40"
    using that inv p by (simp add: take_Suc_conv_app_nth snap_inv_def)
  with inv p l show ?thesis by (auto simp: snap_inv_def)
qed

lemma snap_inv_start:
  assumes inv: "snap_inv s"
  shows "snap_inv (s\<lparr>src_idx := unat (ds5PublishedIndex (shared s)), pos := 0, pubs := 0, taken := published (shared s)\<rparr>)"
  using assms published_index_less [of "shared s"] by (simp add: snap_inv_def published_def)

lemma snap_inv_reachable: "snap_reachable s \<Longrightarrow> snap_inv s"
proof (induction rule: snap_reachable.induct)
  case (step s s')
  from step.hyps(2) step.IH show ?case
    by (cases rule: snap_step.cases) (simp_all only: snap_inv_publish snap_inv_copy snap_inv_start)
qed (rule snap_inv_init)

lemma snap_finish:
  assumes "snap_reachable s" and "pos s \<le> 31"
  obtains s' where "snap_reachable s'" "pos s' = 31" "shared s' = shared s" "pubs s' = pubs s" "taken s' = taken s"
    "\<And>j. j < pos s \<Longrightarrow> snap s' ! j = snap s ! j"
    "\<And>j. pos s \<le> j \<Longrightarrow> j < 31 \<Longrightarrow> snap s' ! j = ds5Buf (shared s) ! src_idx s ! j"
proof -
  have "\<exists>s'. snap_reachable s' \<and> pos s' = 31 \<and> shared s' = shared s \<and> pubs s' = pubs s \<and> taken s' = taken s \<and>
    (\<forall>j<pos s. snap s' ! j = snap s ! j) \<and>
    (\<forall>j. pos s \<le> j \<and> j < 31 \<longrightarrow> snap s' ! j = ds5Buf (shared s) ! src_idx s ! j)"
    using assms
  proof (induction "31 - pos s" arbitrary: s)
    case 0
    then show ?case by (intro exI [of _ s]) auto
  next
    case (Suc n)
    let ?t = "s\<lparr>snap := (snap s)[pos s := ds5Buf (shared s) ! src_idx s ! pos s], pos := pos s + 1\<rparr>"
    have p: "pos s < 31" using Suc.hyps(2) by simp
    have l: "length (snap s) = 31" using snap_inv_reachable [OF Suc.prems(1)] by (simp add: snap_inv_def)
    have r: "snap_reachable ?t" using Suc.prems(1) copy [OF p] by (rule snap_reachable.step)
    have n: "n = 31 - pos ?t" and le: "pos ?t \<le> 31" using Suc.hyps(2) p by simp_all
    obtain s' where s': "snap_reachable s'" "pos s' = 31" "shared s' = shared s" "pubs s' = pubs s" "taken s' = taken s"
      "\<forall>j<Suc (pos s). snap s' ! j = snap ?t ! j"
      "\<forall>j. Suc (pos s) \<le> j \<and> j < 31 \<longrightarrow> snap s' ! j = ds5Buf (shared s) ! src_idx s ! j"
      using Suc.hyps(1) [OF n r le] by auto
    have "snap s' ! j = ds5Buf (shared s) ! src_idx s ! j" if "pos s \<le> j" "j < 31" for j
      using s'(6,7) that l by (cases "j = pos s") auto
    with s' show ?case by (intro exI [of _ s']) auto
  qed
  with that show thesis by blast
qed

text \<open>C12. A consumer that copies the published buffer byte by byte while report callbacks
  interleave gets the buffer that was published when it read the index, provided at most one
  report is published during the copy.\<close>

theorem snapshot_consistent:
  assumes "snap_reachable s" and "pos s = 31" and "pubs s \<le> 1"
  shows "snap s = take 31 (taken s)"
proof -
  have "take 31 (snap s) = take 31 (taken s)" "length (snap s) = 31"
    using snap_inv_reachable [OF assms(1)] assms(2,3) by (simp_all add: snap_inv_def)
  then show ?thesis by simp
qed

definition snap0 :: snap_state where
  "snap0 = \<lparr>shared = ds5_0, src_idx = 0, pos = 0, snap = replicate 31 9, pubs = 0, taken = replicate 40 0\<rparr>"

lemma snap_init_0: "snap_init snap0"
  using ds5_ok_0 by (simp add: snap_init_def snap0_def published_def ds5_0_def)

theorem snapshot_consistent_witness:
  "\<exists>s. snap_reachable s \<and> pos s = 31 \<and> pubs s \<le> 1 \<and> snap s = replicate 31 0"
proof -
  have r: "snap_reachable snap0" using snap_init_0 by (rule snap_reachable.init)
  obtain s where s: "snap_reachable s" "pos s = 31" "pubs s = pubs snap0" "taken s = taken snap0"
    by (rule snap_finish [OF r]) (auto simp: snap0_def)
  have "snap s = take 31 (taken s)"
    by (rule snapshot_consistent) (use s in \<open>simp_all add: snap0_def\<close>)
  with s show ?thesis by (intro exI [of _ s]) (simp add: snap0_def)
qed

text \<open>Two publications during one copy can tear the snapshot: the second one reuses the buffer being read.\<close>

lemma publish_run:
  assumes "snap_reachable s" and "ds5_ok (shared s)"
  obtains sh where "snap_reachable (s\<lparr>shared := sh, pubs := pubs s + 1\<rparr>)" "ds5_ok sh"
    "published sh = replicate 40 x"
    "ds5Buf sh ! unat (ds5PublishedIndex (shared s)) = ds5Buf (shared s) ! unat (ds5PublishedIndex (shared s))"
    "ds5PublishedIndex sh = ds5PublishedIndex (shared s) XOR 1"
proof -
  let ?r = "1 # replicate 63 x"
  have l: "unat (64 :: u16) \<le> length ?r" and a: "accepted ?r 64" by (simp_all add: accepted_def)
  obtain sh where sh: "hid_report_callback ?r 64 (shared s) = Some sh" "ds5_ok sh"
    "published sh = (if accepted ?r 64 then byte_range 1 40 ?r else published (shared s))"
    "ds5Buf sh ! unat (ds5PublishedIndex (shared s)) = ds5Buf (shared s) ! unat (ds5PublishedIndex (shared s))"
    "ds5PublishedIndex sh = (if accepted ?r 64 then ds5PublishedIndex (shared s) XOR 1 else ds5PublishedIndex (shared s))"
    by (rule hid_report_callback_spec [OF assms(2) l]) auto
  have "snap_reachable (s\<lparr>shared := sh, pubs := pubs s + (if accepted ?r 64 then 1 else 0)\<rparr>)"
    using assms(1) snap_step.publish [OF l sh(1)] by (rule snap_reachable.step)
  with sh a show thesis by (intro that [of sh]) (simp_all add: byte_range_def)
qed

text \<open>Two reports published during one copy can tear the snapshot: there is a reachable state
  with a finished copy whose first byte is from the buffer that was published at the start and
  whose second byte is from a later report.\<close>

theorem snapshot_can_tear:
  "\<exists>s. snap_reachable s \<and> pos s = 31 \<and> pubs s = 2 \<and> snap s ! 0 = 0 \<and> snap s ! 1 = 2"
proof -
  let ?c = "snap0\<lparr>snap := (snap snap0)[0 := 0], pos := 1\<rparr>"
  have r0: "snap_reachable snap0" using snap_init_0 by (rule snap_reachable.init)
  have rc: "snap_reachable ?c"
    using snap_reachable.step [OF r0 copy [of snap0]] by (simp add: snap0_def ds5_0_def)
  obtain sh1 where 1: "snap_reachable (?c\<lparr>shared := sh1, pubs := 1\<rparr>)" "ds5_ok sh1" "ds5PublishedIndex sh1 = 1"
    by (rule publish_run [OF rc, of 1]) (use ds5_ok_0 in \<open>auto simp: snap0_def ds5_0_def\<close>)
  obtain sh2 where 2: "snap_reachable (?c\<lparr>shared := sh2, pubs := 2\<rparr>)" "published sh2 = replicate 40 2"
    "ds5PublishedIndex sh2 = 0"
    by (rule publish_run [OF 1(1), of 2]) (use 1 in \<open>auto simp: numeral_2_eq_2\<close>)
  obtain s where "snap_reachable s" "pos s = 31" "pubs s = 2" "snap s ! 0 = 0" "snap s ! 1 = replicate 40 2 ! 1"
    by (rule snap_finish [OF 2(1)]) (use 2 in \<open>auto simp: snap0_def published_def\<close>)
  then show ?thesis by auto
qed

end
