(* ===== verification/App_Monitor.thy ===== *)
theory App_Monitor
  imports Prelude
begin

text \<open>
  The thread monitor of \<^verbatim>\<open>src/main.c\<close>: the table of at most ten monitored threads, the
  registration of a thread, and the two calls with which a thread marks the start and the end of
  its loop.  System times and intervals are 32-bit words and wrap, as \<^verbatim>\<open>systime_t\<close>
  does in this configuration; the current time (\<^verbatim>\<open>chVTGetSystemTime()\<close>) is an argument
  of each operation.  An access outside the table would be the value None.
\<close>

section \<open>The table and its operations\<close>

record thread_monitor =
  mon_name :: string
  thread_ptr :: nat
  last_loop_time :: u32
  current_loop_time :: u32
  loop_duration :: u32
  loop_count :: u32
  min_loop_time :: u32
  max_loop_time :: u32
  total_loop_time :: u32
  first_loop_time :: u32
  last_wake_time :: u32
  wake_count :: u32
  is_active :: bool

record monitor_state =
  thread_monitors :: "thread_monitor list"
  monitor_count :: u8

abbreviation MAX_MONITORED_THREADS :: nat where
  "MAX_MONITORED_THREADS \<equiv> 10"

definition register_thread_monitor ::
  "string \<Rightarrow> nat \<Rightarrow> u32 \<Rightarrow> monitor_state \<Rightarrow> (bool \<times> monitor_state) option" where
  "register_thread_monitor name tp now s =
     (if unat (monitor_count s) \<ge> MAX_MONITORED_THREADS then Some (False, s)
      else if unat (monitor_count s) < length (thread_monitors s) then
        Some (True, s\<lparr>thread_monitors := (thread_monitors s)[unat (monitor_count s) :=
            \<lparr>mon_name = name, thread_ptr = tp, last_loop_time = now, current_loop_time = now,
             loop_duration = 0, loop_count = 0, min_loop_time = 0xFFFFFFFF, max_loop_time = 0,
             total_loop_time = 0, first_loop_time = 0, last_wake_time = 0, wake_count = 0,
             is_active = True\<rparr>],
          monitor_count := monitor_count s + 1\<rparr>)
      else None)"

lemma unat_next: "i < c \<Longrightarrow> unat (i + 1) = unat i + 1" for i c :: u8
  using unsigned_less [of c, where 'a = nat] by (simp add: word_less_nat_alt unat_word_ariths)

text \<open>The search loop of the two update functions, from index \<open>i\<close>: the first active entry with this
  name.\<close>

function find_monitor :: "string \<Rightarrow> u8 \<Rightarrow> monitor_state \<Rightarrow> nat option option" where
  "find_monitor name i s =
     (if i < monitor_count s then
        if unat i < length (thread_monitors s) then
          if is_active (thread_monitors s ! unat i) \<and> mon_name (thread_monitors s ! unat i) = name
          then Some (Some (unat i))
          else find_monitor name (i + 1) s
        else None
      else Some None)"
  by pat_completeness auto

termination
  by (relation "measure (\<lambda>(_, i, s). unat (monitor_count s) - unat i)")
    (auto simp: unat_next word_less_nat_alt intro: diff_less_mono2)

declare find_monitor.simps [simp del]

definition on_monitor ::
  "string \<Rightarrow> (thread_monitor \<Rightarrow> thread_monitor) \<Rightarrow> monitor_state \<Rightarrow> monitor_state option" where
  "on_monitor name f s =
     (case find_monitor name 0 s of
        None \<Rightarrow> None
      | Some None \<Rightarrow> Some s
      | Some (Some k) \<Rightarrow> Some (s\<lparr>thread_monitors := (thread_monitors s)[k := f (thread_monitors s ! k)]\<rparr>))"

definition mark_start :: "u32 \<Rightarrow> thread_monitor \<Rightarrow> thread_monitor" where
  "mark_start now m =
     m\<lparr>current_loop_time := now,
       wake_count := wake_count m + 1,
       first_loop_time := (if first_loop_time m = 0 then now else first_loop_time m),
       last_wake_time := now\<rparr>"

definition update_thread_loop_start :: "string \<Rightarrow> u32 \<Rightarrow> monitor_state \<Rightarrow> monitor_state option" where
  "update_thread_loop_start name now s = on_monitor name (mark_start now) s"

definition mark_end :: "u32 \<Rightarrow> thread_monitor \<Rightarrow> thread_monitor" where
  "mark_end now m =
     (let d = now - current_loop_time m in
      m\<lparr>loop_duration := d,
        loop_count := loop_count m + 1,
        total_loop_time := total_loop_time m + d,
        min_loop_time := (if d < min_loop_time m then d else min_loop_time m),
        max_loop_time := (if d > max_loop_time m then d else max_loop_time m),
        last_loop_time := now\<rparr>)"

definition update_thread_loop_end :: "string \<Rightarrow> u32 \<Rightarrow> monitor_state \<Rightarrow> monitor_state option" where
  "update_thread_loop_end name now s = on_monitor name (mark_end now) s"

text \<open>The average that the display thread prints.\<close>

definition avg_loop_time :: "thread_monitor \<Rightarrow> u32" where
  "avg_loop_time m = (if loop_count m > 0 then total_loop_time m div loop_count m else 0)"

section \<open>The invariant of the table\<close>

definition monitor_ok :: "monitor_state \<Rightarrow> bool" where
  "monitor_ok s \<longleftrightarrow> length (thread_monitors s) = MAX_MONITORED_THREADS \<and>
     unat (monitor_count s) \<le> MAX_MONITORED_THREADS \<and>
     (\<forall>i < unat (monitor_count s). is_active (thread_monitors s ! i)) \<and>
     distinct (map mon_name (take (unat (monitor_count s)) (thread_monitors s)))"

text \<open>What the table stands for: a map from names to statistics.\<close>

definition lookup_monitor :: "monitor_state \<Rightarrow> string \<Rightarrow> thread_monitor option" where
  "lookup_monitor s = map_of (map (\<lambda>m. (mon_name m, m)) (take (unat (monitor_count s)) (thread_monitors s)))"

lemma find_monitor_from:
  assumes "monitor_ok s"
  shows "find_monitor name i s = Some None \<and>
      (\<forall>k. unat i \<le> k \<and> k < unat (monitor_count s) \<longrightarrow> mon_name (thread_monitors s ! k) \<noteq> name) \<or>
    (\<exists>k < unat (monitor_count s). find_monitor name i s = Some (Some k) \<and> mon_name (thread_monitors s ! k) = name)"
  using assms
proof (induction name i s rule: find_monitor.induct)
  case (1 name i s)
  consider "\<not> i < monitor_count s"
    | "i < monitor_count s" "mon_name (thread_monitors s ! unat i) = name"
    | "i < monitor_count s" "mon_name (thread_monitors s ! unat i) \<noteq> name"
    by blast
  then show ?case
  proof cases
    case 1
    then show ?thesis by (subst find_monitor.simps) (auto simp: word_less_nat_alt find_monitor.simps)
  next
    case 2
    then show ?thesis using "1.prems"
      by (intro disjI2 exI [of _ "unat i"]) (simp add: find_monitor.simps [of name i] monitor_ok_def word_less_nat_alt)
  next
    case 3
    then have l: "unat i < length (thread_monitors s)" and n: "\<not> (is_active (thread_monitors s ! unat i) \<and> mon_name (thread_monitors s ! unat i) = name)"
      using "1.prems" by (auto simp: monitor_ok_def word_less_nat_alt)
    have e: "find_monitor name i s = find_monitor name (i + 1) s" 
      using 3 l by (subst find_monitor.simps) simp
    have s: "unat i \<le> k \<longleftrightarrow> k = unat i \<or> unat (i + 1) \<le> k" for k using unat_next [OF 3(1)] by auto
    show ?thesis using "1.IH" [OF 3(1) l n "1.prems"] 3(2) unfolding e s by auto
  qed
qed

lemma lookup_nth:
  assumes "monitor_ok s" and "k < unat (monitor_count s)"
  shows "lookup_monitor s (mon_name (thread_monitors s ! k)) = Some (thread_monitors s ! k)"
proof -
  let ?ms = "take (unat (monitor_count s)) (thread_monitors s)"
  have "?ms ! k \<in> set ?ms" using assms by (intro nth_mem) (simp add: monitor_ok_def)
  then have "(mon_name (?ms ! k), ?ms ! k) \<in> set (map (\<lambda>m. (mon_name m, m)) ?ms)" by force
  then show ?thesis using assms unfolding lookup_monitor_def
    by (subst map_of_eq_Some_iff) (simp_all add: monitor_ok_def comp_def)
qed

lemma lookup_None:
  assumes "monitor_ok s" and "\<forall>k < unat (monitor_count s). mon_name (thread_monitors s ! k) \<noteq> name"
  shows "lookup_monitor s name = None"
  using assms by (fastforce simp: lookup_monitor_def monitor_ok_def map_of_eq_None_iff in_set_conv_nth)

text \<open>A field update of the entry of a thread, as the two update functions make it, is an update of
  the map.\<close>

lemma on_monitor_spec:
  assumes ok: "monitor_ok s" and f: "\<And>m. mon_name (f m) = mon_name m" "\<And>m. is_active (f m) = is_active m"
  shows "\<exists>s'. on_monitor name f s = Some s' \<and> monitor_ok s' \<and>
    lookup_monitor s' = (lookup_monitor s)(name := map_option f (lookup_monitor s name))"
proof (cases "\<exists>k < unat (monitor_count s). mon_name (thread_monitors s ! k) = name")
  case False
  then have "on_monitor name f s = Some s" using find_monitor_from [OF ok, of name 0] by (auto simp: on_monitor_def)
  then show ?thesis using lookup_None [OF ok, of name] False ok by (auto simp: fun_upd_idem)
next
  case True
  then obtain k where k: "k < unat (monitor_count s)" "mon_name (thread_monitors s ! k) = name" "find_monitor name 0 s = Some (Some k)"
    using find_monitor_from [OF ok, of name 0] by auto
  let ?ms = "thread_monitors s" and ?n = "unat (monitor_count s)"
  let ?s = "s\<lparr>thread_monitors := ?ms[k := f (?ms ! k)]\<rparr>"
  have l: "length ?ms = 10" "?n \<le> 10" using ok by (auto simp: monitor_ok_def)
  have names: "map mon_name (take ?n (?ms[k := f (?ms ! k)])) = map mon_name (take ?n ?ms)"
    using k l by (intro nth_equalityI) (auto simp: nth_list_update f)
  have ok': "monitor_ok ?s"
    using ok k l by (auto simp: monitor_ok_def names nth_list_update f)
  have nm: "mon_name (thread_monitors ?s ! j) = mon_name (?ms ! j)" if "j < ?n" for j
    using that l k by (simp add: nth_list_update f)
  have "lookup_monitor ?s x = ((lookup_monitor s)(name := map_option f (lookup_monitor s name))) x" for x
  proof (cases "\<exists>j < ?n. mon_name (?ms ! j) = x")
    case True
    then obtain j where j: "j < ?n" "mon_name (?ms ! j) = x" by blast
    have "j = k \<longleftrightarrow> x = name"
      using ok j k l by (auto simp: monitor_ok_def distinct_conv_nth)
    then show ?thesis using lookup_nth [OF ok' , of j] lookup_nth [OF ok j(1)] nm [OF j(1)] j k l
      by (auto simp: nth_list_update)
  next
    case False
    then show ?thesis using lookup_None [OF ok, of x] lookup_None [OF ok', of x] k nm by auto
  qed
  then show ?thesis using ok' k by (intro exI [of _ ?s]) (simp add: on_monitor_def fun_eq_iff)
qed

lemma register_spec:
  assumes ok: "monitor_ok s" and fresh: "lookup_monitor s name = None"
  shows "\<exists>r s'. register_thread_monitor name tp now s = Some (r, s') \<and> monitor_ok s' \<and>
    (r \<longleftrightarrow> unat (monitor_count s) < MAX_MONITORED_THREADS) \<and>
    (if r then \<exists>m. lookup_monitor s' = (lookup_monitor s)(name \<mapsto> m) \<and> loop_count m = 0 \<and> wake_count m = 0 \<and>
                  total_loop_time m = 0 \<and> min_loop_time m = 0xFFFFFFFF \<and> max_loop_time m = 0
     else s' = s)"
proof (cases "unat (monitor_count s) < MAX_MONITORED_THREADS")
  case False
  with ok show ?thesis by (intro exI [of _ False] exI [of _ s]) (simp add: register_thread_monitor_def)
next
  case True
  let ?n = "unat (monitor_count s)"
  let ?m = "\<lparr>mon_name = name, thread_ptr = tp, last_loop_time = now, current_loop_time = now,
             loop_duration = 0, loop_count = 0, min_loop_time = 0xFFFFFFFF, max_loop_time = 0,
             total_loop_time = 0, first_loop_time = 0, last_wake_time = 0, wake_count = 0,
             is_active = True\<rparr>"
  let ?s = "s\<lparr>thread_monitors := (thread_monitors s)[?n := ?m], monitor_count := monitor_count s + 1\<rparr>"
  have l: "length (thread_monitors s) = 10" using ok by (simp add: monitor_ok_def)
  have n: "unat (monitor_count s + 1) = Suc ?n" using unat_next [of "monitor_count s" 10] True
    by (simp add: word_less_nat_alt)
  have t: "take (Suc ?n) ((thread_monitors s)[?n := ?m]) = take ?n (thread_monitors s) @ [?m]"
    using True l by (simp add: take_Suc_conv_app_nth)
  have new: "name \<notin> mon_name ` set (take ?n (thread_monitors s))"
    using fresh by (force simp: lookup_monitor_def map_of_eq_None_iff)
  have ok': "monitor_ok ?s"
    using ok True l n new by (auto simp: monitor_ok_def t nth_list_update less_Suc_eq)
  have "lookup_monitor ?s = (lookup_monitor s)(name \<mapsto> ?m)"
    by (rule ext) (simp add: lookup_monitor_def n t map_add_def fresh [unfolded lookup_monitor_def] split: option.splits)
  then show ?thesis using True l ok'
    by (intro exI [of _ True] exI [of _ ?s]) (auto simp: register_thread_monitor_def intro!: exI [of _ ?m])
qed

section \<open>Statistics of a monitored loop\<close>

text \<open>What a client of the table relies on: an update of the entry of one thread, and of no other.\<close>

locale monitor_table =
  fixes ok :: "'s \<Rightarrow> bool" and look :: "'s \<Rightarrow> string \<Rightarrow> thread_monitor option"
    and loop_start loop_end :: "string \<Rightarrow> u32 \<Rightarrow> 's \<Rightarrow> 's option"
  assumes start: "ok s \<Longrightarrow> \<exists>s'. loop_start name now s = Some s' \<and> ok s' \<and>
      look s' = (look s)(name := map_option (mark_start now) (look s name))"
    and finish: "ok s \<Longrightarrow> \<exists>s'. loop_end name now s = Some s' \<and> ok s' \<and>
      look s' = (look s)(name := map_option (mark_end now) (look s name))"
begin

fun loops :: "string \<Rightarrow> (u32 \<times> u32) list \<Rightarrow> 's \<Rightarrow> 's option" where
  "loops name [] s = Some s"
| "loops name ((a, b) # ts) s = Option.bind (loop_start name a s) (\<lambda>s. Option.bind (loop_end name b s) (loops name ts))"

lemma loops_look:
  "ok s \<Longrightarrow> \<exists>s'. loops name ts s = Some s' \<and> ok s' \<and>
    look s' = (look s)(name := map_option (\<lambda>m. fold (\<lambda>(a, b) m. mark_end b (mark_start a m)) ts m) (look s name))"
proof (induction ts arbitrary: s)
  case Nil
  then show ?case by (simp add: option.map_id0 [unfolded id_def] fun_upd_idem)
next
  case (Cons t ts)
  obtain a b where t: "t = (a, b)" by (cases t)
  obtain s1 where 1: "loop_start name a s = Some s1" "ok s1"
    "look s1 = (look s)(name := map_option (mark_start a) (look s name))" using start [OF Cons.prems] by blast
  obtain s2 where 2: "loop_end name b s1 = Some s2" "ok s2"
    "look s2 = (look s1)(name := map_option (mark_end b) (look s1 name))" using finish [OF 1(2)] by blast
  show ?case using Cons.IH [OF 2(2)] 1 2 t by (auto simp: option.map_comp comp_def fun_eq_iff)
qed

end

interpretation monitor: monitor_table monitor_ok lookup_monitor update_thread_loop_start update_thread_loop_end
  by unfold_locales
    (simp_all only: update_thread_loop_start_def update_thread_loop_end_def,
     (rule on_monitor_spec; simp add: mark_start_def mark_end_def Let_def)+)

text \<open>The thread loop: a run of a monitored thread through the given start and end times.\<close>

fun run_loops :: "string \<Rightarrow> (u32 \<times> u32) list \<Rightarrow> monitor_state \<Rightarrow> monitor_state option" where
  "run_loops name [] s = Some s"
| "run_loops name ((a, b) # ts) s =
     Option.bind (update_thread_loop_start name a s)
       (\<lambda>s. Option.bind (update_thread_loop_end name b s) (run_loops name ts))"

lemma run_loops_eq: "run_loops name ts s = monitor.loops name ts s"
proof (induction ts arbitrary: s)
  case (Cons t ts)
  then have "run_loops name ts = monitor.loops name ts" by blast
  then show ?case by (cases t) simp
qed simp

abbreviation durations :: "(u32 \<times> u32) list \<Rightarrow> u32 list" where
  "durations \<equiv> map (\<lambda>(a, b). b - a)"

lemma fold_marks:
  fixes ts m
  defines "m' \<equiv> fold (\<lambda>(a, b) m. mark_end b (mark_start a m)) ts m"
  shows "loop_count m' = loop_count m + of_nat (length ts)"
    "wake_count m' = wake_count m + of_nat (length ts)"
    "total_loop_time m' = total_loop_time m + sum_list (durations ts)"
    "min_loop_time m' = fold min (durations ts) (min_loop_time m)"
    "max_loop_time m' = fold max (durations ts) (max_loop_time m)"
  unfolding m'_def
  by (induction ts arbitrary: m)
    (auto simp: mark_start_def mark_end_def Let_def min_def max_def not_less fold_append
      intro!: arg_cong [where f = "fold _ _"])

text \<open>A monitored thread that goes through any sequence of loop starts and ends has the number
  of loops, the sum, the minimum and the maximum of the wrapped durations in its entry, and no
  other entry has changed.\<close>

theorem monitored_loop_statistics:
  assumes "monitor_ok s" and "lookup_monitor s name = Some m"
  shows "\<exists>s' m'. run_loops name ts s = Some s' \<and> monitor_ok s' \<and>
    lookup_monitor s' = (lookup_monitor s)(name \<mapsto> m') \<and>
    loop_count m' = loop_count m + of_nat (length ts) \<and>
    wake_count m' = wake_count m + of_nat (length ts) \<and>
    total_loop_time m' = total_loop_time m + sum_list (durations ts) \<and>
    min_loop_time m' = fold min (durations ts) (min_loop_time m) \<and>
    max_loop_time m' = fold max (durations ts) (max_loop_time m)"
proof -
  let ?m = "fold (\<lambda>(a, b) m. mark_end b (mark_start a m)) ts m"
  obtain s' where "run_loops name ts s = Some s'" "monitor_ok s'" "lookup_monitor s' = (lookup_monitor s)(name \<mapsto> ?m)"
    using monitor.loops_look [OF assms(1), of name ts] assms(2) by (auto simp: run_loops_eq)
  then show ?thesis using fold_marks [where ts = ts and m = m] by blast
qed

text \<open>A table with the threads of the application and nothing measured yet.\<close>

definition monitors0 :: monitor_state where
  "monitors0 = \<lparr>thread_monitors = replicate 10 \<lparr>mon_name = [], thread_ptr = 0, last_loop_time = 0,
     current_loop_time = 0, loop_duration = 0, loop_count = 0, min_loop_time = 0, max_loop_time = 0,
     total_loop_time = 0, first_loop_time = 0, last_wake_time = 0, wake_count = 0, is_active = False\<rparr>,
     monitor_count = 0\<rparr>"

lemma monitors0_ok: "monitor_ok monitors0"
  by (simp add: monitor_ok_def monitors0_def)

theorem monitored_loop_statistics_witness:
  "\<exists>s s' m'. register_thread_monitor ''blinker'' 1 7 monitors0 = Some (True, s) \<and>
    run_loops ''blinker'' [(10, 30), (0xFFFFFFFE, 3)] s = Some s' \<and> lookup_monitor s' ''blinker'' = Some m' \<and>
    loop_count m' = 2 \<and> total_loop_time m' = 25 \<and> min_loop_time m' = 5 \<and> max_loop_time m' = 20"
proof -
  have "lookup_monitor monitors0 ''blinker'' = None" by (simp add: lookup_monitor_def monitors0_def)
  from register_spec [OF monitors0_ok this, of 1 7] obtain s m where
    s: "register_thread_monitor ''blinker'' 1 7 monitors0 = Some (True, s)" "monitor_ok s"
    "lookup_monitor s ''blinker'' = Some m" "loop_count m = 0" "total_loop_time m = 0"
    "min_loop_time m = 0xFFFFFFFF" "max_loop_time m = 0"
    by (fastforce simp: monitors0_def)
  show ?thesis
    using monitored_loop_statistics [OF s(2,3), of "[(10, 30), (0xFFFFFFFE, 3)]"] s
    by (elim exE conjE) (rule exI [of _ s], auto)
qed

end
