(* ===== verification/Lwip_Addr.thy ===== *)
theory Lwip_Addr
  imports Prelude
begin

text \<open>
  IPv4 addresses as text: \<^verbatim>\<open>ip4addr_aton\<close> (called \<^verbatim>\<open>inet_aton\<close> by the application),
  \<^verbatim>\<open>ip4addr_ntoa_r\<close> and the netmask check of lwIP (\<^verbatim>\<open>core/ipv4/ip4_addr.c\<close>), with the
  byte order macros and character classes they use.  A C string is the list of its characters
  without the terminator.  Values are 32-bit words: a number that is too large wraps, as in the
  code.  The parser reads a number by recursion on the text and at most four numbers, so that all
  functions are total.
\<close>

section \<open>Byte order and character classes\<close>

definition lwip_htonl :: "u32 \<Rightarrow> u32" where
  "lwip_htonl n =
     push_bit 24 (n AND 0x000000FF) OR push_bit 8 (n AND 0x0000FF00) OR
     drop_bit 8 (n AND 0x00FF0000) OR drop_bit 24 (n AND 0xFF000000)"

text \<open>Byte \<open>idx\<close> of the address in memory, on a little-endian machine.\<close>

definition ip4_addr_get_byte :: "u32 \<Rightarrow> nat \<Rightarrow> u8" where
  "ip4_addr_get_byte addr idx = ucast (drop_bit (8 * idx) addr)"

definition lwip_in_range :: "char \<Rightarrow> nat \<Rightarrow> nat \<Rightarrow> bool" where
  "lwip_in_range c lo up \<longleftrightarrow> lo \<le> of_char c \<and> of_char c \<le> up"

definition lwip_isdigit :: "char \<Rightarrow> bool" where
  "lwip_isdigit c = lwip_in_range c 48 57"

definition lwip_isxdigit :: "char \<Rightarrow> bool" where
  "lwip_isxdigit c \<longleftrightarrow> lwip_isdigit c \<or> lwip_in_range c 97 102 \<or> lwip_in_range c 65 70"

definition lwip_islower :: "char \<Rightarrow> bool" where
  "lwip_islower c = lwip_in_range c 97 122"

definition lwip_isspace :: "char \<Rightarrow> bool" where
  "lwip_isspace c \<longleftrightarrow> of_char c \<in> {32, 12, 10, 13, 9, 11 :: nat}"

section \<open>Parsing\<close>

abbreviation digit_value :: "char \<Rightarrow> u32" where
  "digit_value c \<equiv> of_nat (of_char c - 48)"

abbreviation hex_value :: "char \<Rightarrow> u32" where
  "hex_value c \<equiv> of_nat (of_char c + 10 - (if lwip_islower c then 97 else 65))"

text \<open>The digits of one number: the inner loop, from the value so far.  It returns the value and the
  text at which it stopped.\<close>

fun aton_digits :: "u32 \<Rightarrow> u32 \<Rightarrow> string \<Rightarrow> u32 \<times> string" where
  "aton_digits base val [] = (val, [])"
| "aton_digits base val (c # cp) =
     (if lwip_isdigit c then
        if base = 8 \<and> digit_value c \<ge> 8 then (val, c # cp)
        else aton_digits base (val * base + digit_value c) cp
      else if base = 16 \<and> lwip_isxdigit c then
        aton_digits base (push_bit 4 val OR hex_value c) cp
      else (val, c # cp))"

text \<open>The prefix of a number: 0x for hexadecimal, 0 for octal.\<close>

fun aton_base :: "string \<Rightarrow> u32 \<times> string" where
  "aton_base (CHR ''0'' # cp) =
     (case cp of
        c # cp' \<Rightarrow> if c = CHR ''x'' \<or> c = CHR ''X'' then (16, cp') else (8, cp)
      | [] \<Rightarrow> (8, []))"
| "aton_base cp = (10, cp)"

text \<open>The outer loop: the numbers before a dot, the last number, and the rest of the text; None is
  the early return.\<close>

function aton_parts :: "u32 list \<Rightarrow> string \<Rightarrow> (u32 list \<times> u32 \<times> string) option" where
  "aton_parts parts cp =
     (if cp = [] \<or> \<not> lwip_isdigit (hd cp) then None
      else
        let (base, cp) = aton_base cp;
            (val, cp) = aton_digits base 0 cp
        in if cp \<noteq> [] \<and> hd cp = CHR ''.'' then
             if length parts \<ge> 3 then None
             else aton_parts (parts @ [val]) (tl cp)
           else Some (parts, val, cp))"
  by pat_completeness auto

termination
  by (relation "measure (\<lambda>(parts, _). 3 - length parts)") auto

declare aton_parts.simps [simp del]

text \<open>The address from the number of parts: a, a.b (24 bits), a.b.c (16 bits), a.b.c.d.\<close>

definition aton_value :: "u32 list \<Rightarrow> u32 \<Rightarrow> u32 option" where
  "aton_value parts val =
     (case parts of
        [] \<Rightarrow> Some val
      | [a] \<Rightarrow>
          if val > 0xFFFFFF then None
          else if a > 0xFF then None
          else Some (val OR push_bit 24 a)
      | [a, b] \<Rightarrow>
          if val > 0xFFFF then None
          else if a > 0xFF \<or> b > 0xFF then None
          else Some (val OR (push_bit 24 a OR push_bit 16 b))
      | [a, b, c] \<Rightarrow>
          if val > 0xFF then None
          else if a > 0xFF \<or> b > 0xFF \<or> c > 0xFF then None
          else Some (val OR (push_bit 24 a OR push_bit 16 b OR push_bit 8 c))
      | _ \<Rightarrow> Some val)"

definition ip4addr_aton :: "string \<Rightarrow> u32 option" where
  "ip4addr_aton cp =
     (case aton_parts [] cp of
        None \<Rightarrow> None
      | Some (parts, val, rest) \<Rightarrow>
          if rest \<noteq> [] \<and> \<not> lwip_isspace (hd rest) then None
          else (case aton_value parts val of None \<Rightarrow> None | Some v \<Rightarrow> Some (lwip_htonl v)))"

section \<open>Printing\<close>

text \<open>The do-while loop: the digits of a byte, least significant first (the array \<^verbatim>\<open>inv\<close>).\<close>

function inv_digits :: "u8 \<Rightarrow> string" where
  "inv_digits ap =
     char_of (48 + unat (ap mod 10)) # (if ap div 10 \<noteq> 0 then inv_digits (ap div 10) else [])"
  by pat_completeness auto

termination
proof (relation "measure unat")
  fix ap :: u8
  assume "ap div 10 \<noteq> 0"
  then have "unat ap div 10 \<noteq> 0" by (simp add: word_unat_eq_iff unat_div_distrib)
  then show "(ap div 10, ap) \<in> measure unat" by (simp add: unat_div_distrib)
qed simp

declare inv_digits.simps [simp del]

text \<open>Storing characters while the buffer lasts; None is the return of \<^verbatim>\<open>NULL\<close>.\<close>

fun put_chars :: "nat \<Rightarrow> string \<Rightarrow> string \<Rightarrow> string option" where
  "put_chars buflen [] out = Some out"
| "put_chars buflen (c # cs) out =
     (if length out \<ge> buflen then None else put_chars buflen cs (out @ [c]))"

fun ntoa_bytes :: "nat \<Rightarrow> u8 list \<Rightarrow> string \<Rightarrow> string option" where
  "ntoa_bytes buflen [] out = Some out"
| "ntoa_bytes buflen (ap # rest) out =
     (case put_chars buflen (rev (inv_digits ap)) out of
        None \<Rightarrow> None
      | Some out \<Rightarrow>
          (case put_chars buflen [CHR ''.''] out of
             None \<Rightarrow> None
           | Some out \<Rightarrow> ntoa_bytes buflen rest out))"

text \<open>The last dot becomes the terminator.\<close>

definition ip4addr_ntoa_r :: "u32 \<Rightarrow> nat \<Rightarrow> string option" where
  "ip4addr_ntoa_r addr buflen =
     map_option butlast (ntoa_bytes buflen (map (ip4_addr_get_byte addr) [0, 1, 2, 3]) [])"

abbreviation IP4ADDR_STRLEN_MAX :: nat where
  "IP4ADDR_STRLEN_MAX \<equiv> 16"

definition ip4addr_ntoa :: "u32 \<Rightarrow> string option" where
  "ip4addr_ntoa addr = ip4addr_ntoa_r addr IP4ADDR_STRLEN_MAX"

section \<open>Netmasks\<close>

lemma drop_bit_1_less: "mk \<noteq> 0 \<Longrightarrow> unat (drop_bit (Suc 0) mk) < unat mk" for mk :: u32
  by (simp add: drop_bit_Suc word_unat_eq_iff unat_div_distrib)

text \<open>The two loops over the mask bit: it moves right until it is shifted out.\<close>

function first_zero :: "u32 \<Rightarrow> u32 \<Rightarrow> u32" where
  "first_zero nm mk = (if mk = 0 \<or> nm AND mk = 0 then mk else first_zero nm (drop_bit 1 mk))"
  by pat_completeness auto

termination
  by (relation "measure (\<lambda>(_, mk). unat mk)") (auto intro: drop_bit_1_less)

function no_one_after :: "u32 \<Rightarrow> u32 \<Rightarrow> bool" where
  "no_one_after nm mk =
     (if mk = 0 then True else if nm AND mk \<noteq> 0 then False else no_one_after nm (drop_bit 1 mk))"
  by pat_completeness auto

termination
  by (relation "measure (\<lambda>(_, mk). unat mk)") (auto intro: drop_bit_1_less)

declare first_zero.simps [simp del] no_one_after.simps [simp del]

definition ip4_addr_netmask_valid :: "u32 \<Rightarrow> bool" where
  "ip4_addr_netmask_valid netmask =
     (let nm_hostorder = lwip_htonl netmask
      in no_one_after nm_hostorder (first_zero nm_hostorder (push_bit 31 1)))"

section \<open>The round trip\<close>

lemma byte_masks:
  "(0x000000FF :: u32) = mask 8" "(0x0000FF00 :: u32) = push_bit 8 (mask 8)"
  "(0x00FF0000 :: u32) = push_bit 16 (mask 8)" "(0xFF000000 :: u32) = push_bit 24 (mask 8)"
  by (simp_all add: mask_eq_exp_minus_1 push_bit_eq_mult)

lemma u32_byte_cases:
  assumes "n < LENGTH(32)"
  obtains "n < 8" | "8 \<le> n" "n < 16" | "16 \<le> n" "n < 24" | "24 \<le> n" "n < 32"
  using assms that by simp linarith

lemma lwip_htonl_bytes:
  "lwip_htonl (ucast d OR (push_bit 24 (ucast a) OR push_bit 16 (ucast b) OR push_bit 8 (ucast c))) =
     ucast a OR push_bit 8 (ucast b) OR push_bit 16 (ucast c) OR push_bit 24 (ucast d)"
  for a b c d :: u8
  unfolding lwip_htonl_def byte_masks
proof (rule bit_word_eqI)
  fix n :: nat
  assume "n < LENGTH(32)"
  then show "bit (push_bit 24 ((ucast d OR (push_bit 24 (ucast a) OR push_bit 16 (ucast b) OR push_bit 8 (ucast c))) AND mask 8) OR
      push_bit 8 ((ucast d OR (push_bit 24 (ucast a) OR push_bit 16 (ucast b) OR push_bit 8 (ucast c))) AND push_bit 8 (mask 8)) OR
      drop_bit 8 ((ucast d OR (push_bit 24 (ucast a) OR push_bit 16 (ucast b) OR push_bit 8 (ucast c))) AND push_bit 16 (mask 8)) OR
      drop_bit 24 ((ucast d OR (push_bit 24 (ucast a) OR push_bit 16 (ucast b) OR push_bit 8 (ucast c))) AND push_bit 24 (mask 8)) :: u32) n =
    bit (ucast a OR push_bit 8 (ucast b) OR push_bit 16 (ucast c) OR push_bit 24 (ucast d) :: u32) n"
    by (rule u32_byte_cases) (auto simp: bit_simps dest: bit_imp_le_length)
qed

lemma addr_bytes:
  "ucast (ip4_addr_get_byte x 0) OR push_bit 8 (ucast (ip4_addr_get_byte x 1)) OR
   push_bit 16 (ucast (ip4_addr_get_byte x 2)) OR push_bit 24 (ucast (ip4_addr_get_byte x 3)) = (x :: u32)"
proof (rule bit_word_eqI)
  fix n :: nat
  assume "n < LENGTH(32)"
  then show "bit (ucast (ip4_addr_get_byte x 0) OR push_bit 8 (ucast (ip4_addr_get_byte x 1)) OR
   push_bit 16 (ucast (ip4_addr_get_byte x 2)) OR push_bit 24 (ucast (ip4_addr_get_byte x 3)) :: u32) n = bit x n"
    by (rule u32_byte_cases) (auto simp: bit_simps ip4_addr_get_byte_def)
qed

text \<open>A decimal number is read back: its digits accumulate to the byte.\<close>

lemma aton_digits_append:
  assumes "list_all lwip_isdigit ds" and "rest = [] \<or> \<not> lwip_isdigit (hd rest)"
  shows "aton_digits 10 val (ds @ rest) = (fold (\<lambda>c v. v * 10 + digit_value c) ds val, rest)"
  using assms by (induction ds arbitrary: val) (cases rest; auto)+

lemma char_of_48: "char_of (48 :: nat) = CHR ''0''"
  by code_simp

lemma digit_char:
  assumes "k < 10"
  shows "lwip_isdigit (char_of (48 + k))" "digit_value (char_of (48 + k)) = of_nat k"
    "char_of (48 + k) = CHR ''0'' \<longleftrightarrow> k = 0"
proof -
  have "of_char (char_of (48 + k)) = 48 + k" using assms by simp
  then show "lwip_isdigit (char_of (48 + k))" "digit_value (char_of (48 + k)) = of_nat k"
    using assms by (auto simp: lwip_isdigit_def lwip_in_range_def)
  have "char_of (48 + k) = (char_of (48 :: nat) :: char) \<longleftrightarrow> k = 0" using assms by (simp add: char_of_eq_iff take_bit_nat_eq_self)
  then show "char_of (48 + k) = CHR ''0'' \<longleftrightarrow> k = 0" unfolding char_of_48 .
qed

lemma div_mod_10: "unat (w div 10) = unat w div 10" "unat (w mod 10) = unat w mod 10" for w :: u8
  by (simp_all add: unat_div_distrib unat_mod_distrib)

lemma inv_digits_facts:
  "list_all lwip_isdigit (inv_digits w) \<and> inv_digits w \<noteq> [] \<and>
   foldr (\<lambda>c v. v * 10 + digit_value c) (inv_digits w) 0 = (word_of_nat (unat w) :: u32) \<and>
   (last (inv_digits w) = CHR ''0'' \<longleftrightarrow> w = 0)"
proof (induction w rule: inv_digits.induct)
  case (1 w)
  have k: "unat (w mod 10) < 10" by (simp add: div_mod_10)
  note d = digit_char [OF k]
  show ?case
  proof (cases "w div 10 = 0")
    case True
    then have "unat w div 10 = 0" by (simp add: word_unat_eq_iff div_mod_10)
    then show ?thesis using d True by (simp add: inv_digits.simps [of w] div_mod_10 word_unat_eq_iff)
  next
    case False
    have "(of_nat (unat w div 10) * 10 + of_nat (unat w mod 10) :: u32) = of_nat (unat w)"
      by (metis div_mult_mod_eq of_nat_add of_nat_mult of_nat_numeral)
    moreover have "w \<noteq> 0" using False by auto
    ultimately show ?thesis using d 1 [OF False] False by (simp add: inv_digits.simps [of w] div_mod_10)
  qed
qed

lemma inv_digits_length: "length (inv_digits w) \<le> 3"
proof -
  have z: "v div 10 = 0 \<longleftrightarrow> unat v < 10" for v :: u8
    by (simp add: word_unat_eq_iff div_mod_10 div_eq_0_iff)
  have 1: "length (inv_digits v) = 1" if "unat v < 10" for v :: u8
    using that by (simp add: inv_digits.simps [of v] z)
  have 2: "length (inv_digits v) \<le> 2" if "unat v < 100" for v :: u8
    using that 1 [of "v div 10"] by (simp add: inv_digits.simps [of v] z div_mod_10)
  have "unat (w div 10) < 100" using unsigned_less [of w, where 'a = nat] by (simp add: div_mod_10)
  then show ?thesis using 2 [of "w div 10"] by (simp add: inv_digits.simps [of w])
qed

lemma aton_base_decimal: "hd cp \<noteq> CHR ''0'' \<Longrightarrow> aton_base cp = (10, cp)"
  by (cases cp rule: aton_base.cases) auto

lemma isdigit_dot [simp]: "\<not> lwip_isdigit CHR ''.''"
  by code_simp

lemma aton_number:
  assumes rest: "rest = [] \<or> hd rest = CHR ''.''"
  shows "\<exists>base cp. aton_base (rev (inv_digits w) @ rest) = (base, cp) \<and> aton_digits base 0 cp = (ucast w, rest)"
proof (cases "w = 0")
  case True
  have "inv_digits 0 = ''0''" by (simp add: inv_digits.simps char_of_48)
  then show ?thesis using True rest by (cases rest) auto
next
  case False
  let ?ds = "rev (inv_digits w)"
  note f = inv_digits_facts [of w]
  have h: "hd (?ds @ rest) \<noteq> CHR ''0''" using f False by (simp add: hd_rev)
  have "list_all lwip_isdigit ?ds" using f by (simp add: list_all_iff)
  then have "aton_digits 10 0 (?ds @ rest) = (ucast w, rest)"
    using aton_digits_append [of ?ds rest 0] f rest by (auto simp: foldr_conv_fold)
  then show ?thesis using aton_base_decimal [OF h] by blast
qed

lemma aton_parts_number:
  assumes rest: "rest = [] \<or> hd rest = CHR ''.''"
  shows "aton_parts parts (rev (inv_digits w) @ rest) =
    (if rest = [] then Some (parts, ucast w, [])
     else if length parts \<ge> 3 then None else aton_parts (parts @ [ucast w]) (tl rest))"
proof -
  have "lwip_isdigit (hd (rev (inv_digits w) @ rest))" "rev (inv_digits w) @ rest \<noteq> []"
    using inv_digits_facts [of w] by (auto simp: hd_rev list_all_iff)
  then show ?thesis using aton_number [OF rest, of w] rest
    by (subst aton_parts.simps) auto
qed

lemma byte_small: "\<not> 0xFF < (ucast b :: u32)" for b :: u8
proof -
  have "unat (ucast b :: u32) < 256" using unsigned_less [of b, where 'a = nat]
    by (simp add: unsigned_ucast_eq take_bit_nat_eq_self)
  then show ?thesis by (simp add: word_less_nat_alt)
qed

lemma put_chars_fit:
  "length out + length cs \<le> buflen \<Longrightarrow> put_chars buflen cs out = Some (out @ cs)"
  by (induction cs arbitrary: out) auto

lemma ntoa_bytes_fit:
  "length out + 4 * length bs \<le> buflen \<Longrightarrow>
    ntoa_bytes buflen bs out = Some (out @ concat (map (\<lambda>b. rev (inv_digits b) @ ''.'') bs))"
proof (induction bs arbitrary: out)
  case (Cons b bs)
  have "length (inv_digits b) \<le> 3" by (rule inv_digits_length)
  then show ?case using Cons.prems
    by (simp add: put_chars_fit) (subst Cons.IH, simp_all)
qed simp

lemma ntoa_parses:
  "\<exists>str. ip4addr_ntoa addr = Some str \<and> length str < IP4ADDR_STRLEN_MAX \<and> ip4addr_aton str = Some addr"
proof -
  let ?b = "ip4_addr_get_byte addr" and ?d = "\<lambda>b. rev (inv_digits b)"
  let ?str = "?d (?b 0) @ ''.'' @ ?d (?b 1) @ ''.'' @ ?d (?b 2) @ ''.'' @ ?d (?b 3)"
  have "ip4addr_ntoa addr = Some ?str"
    using ntoa_bytes_fit [of "[]" "map ?b [0, 1, 2, 3]" 16]
    by (simp add: ip4addr_ntoa_def ip4addr_ntoa_r_def butlast_append del: ntoa_bytes.simps One_nat_def)
  moreover have "length ?str < 16"
    using inv_digits_length [of "?b 0"] inv_digits_length [of "?b 1"] inv_digits_length [of "?b 2"]
      inv_digits_length [of "?b 3"] by simp
  moreover have "ip4addr_aton ?str = Some addr"
    using addr_bytes [of addr]
    by (simp add: ip4addr_aton_def aton_parts_number aton_parts_number [where rest = "[]", simplified]
        aton_value_def byte_small lwip_htonl_bytes del: One_nat_def)
  ultimately show ?thesis by blast
qed

text \<open>C33. Every IPv4 address is printed by ip4addr_ntoa in less than 16 characters, and
  ip4addr_aton reads the text back to the same address.\<close>

theorem ntoa_aton_round_trip:
  "\<exists>str. ip4addr_ntoa addr = Some str \<and> length str < IP4ADDR_STRLEN_MAX \<and> ip4addr_aton str = Some addr"
  by (rule ntoa_parses)

text \<open>The parser does not notice a number above 32 bits: it wraps, and the text is taken as another
  address.\<close>

theorem aton_number_wraps:
  "ip4addr_aton ''4294967297'' = ip4addr_aton ''0.0.0.1'' \<and> ip4addr_aton ''4294967297'' \<noteq> None"
  by code_simp

section \<open>Netmasks: the bit loop decides prefix masks\<close>

definition prefix_mask :: "nat \<Rightarrow> u32" where
  "prefix_mask n = push_bit (32 - n) (mask n)"

lemma drop_bit_exp: "drop_bit 1 (push_bit k 1 :: u32) = (if k = 0 then 0 else push_bit (k - 1) 1)" if "k < 32"
  using that by (intro bit_word_eqI) (auto simp: bit_simps)

lemma and_exp: "nm AND push_bit k 1 = 0 \<longleftrightarrow> \<not> bit nm k" if "k < 32" for nm :: u32
  by (simp add: push_bit_of_1 and_exp_eq_0_iff_not_bit)

lemma exp_nonzero: "push_bit k 1 \<noteq> (0 :: u32)" if "k < 32"
proof -
  have "bit (push_bit k 1 :: u32) k" using that by (simp add: bit_simps)
  then show ?thesis using that by auto
qed

lemma no_one_after_iff: "k < 32 \<Longrightarrow> no_one_after nm (push_bit k 1) \<longleftrightarrow> (\<forall>j \<le> k. \<not> bit nm j)"
proof (induction k)
  case 0
  then show ?case
    using exp_nonzero [of 0] and_exp [of 0 nm] by (simp add: no_one_after.simps [of nm 1] no_one_after.simps [of nm 0])
next
  case (Suc k)
  then show ?case
    using exp_nonzero [of "Suc k"] and_exp [of "Suc k" nm] drop_bit_exp [of "Suc k"]
    by (subst no_one_after.simps) (auto simp: le_Suc_eq simp del: push_bit_Suc drop_bit_Suc)
qed

lemma first_zero_cases:
  assumes "k < 32"
  obtains "\<forall>j \<le> k. bit nm j" "first_zero nm (push_bit k 1) = 0"
    | j where "j \<le> k" "\<not> bit nm j" "\<forall>i. j < i \<and> i \<le> k \<longrightarrow> bit nm i" "first_zero nm (push_bit k 1) = push_bit j 1"
proof -
  have "(\<forall>j \<le> k. bit nm j) \<and> first_zero nm (push_bit k 1) = 0 \<or>
    (\<exists>j \<le> k. \<not> bit nm j \<and> (\<forall>i. j < i \<and> i \<le> k \<longrightarrow> bit nm i) \<and> first_zero nm (push_bit k 1) = push_bit j 1)"
    using assms
  proof (induction k)
    case 0
    then show ?case using and_exp [of 0 nm] by (auto simp: first_zero.simps [of nm 1] first_zero.simps [of nm 0])
  next
    case (Suc k)
    have e: "first_zero nm (push_bit (Suc k) 1) = (if bit nm (Suc k) then first_zero nm (push_bit k 1) else push_bit (Suc k) 1)"
      using Suc.prems exp_nonzero [of "Suc k"] and_exp [of "Suc k" nm] drop_bit_exp [of "Suc k"]
      by (subst first_zero.simps) (auto simp del: push_bit_Suc drop_bit_Suc)
    show ?case
    proof (cases "bit nm (Suc k)")
      case False
      then show ?thesis using e by (intro disjI2 exI [of _ "Suc k"]) auto
    next
      case True
      then show ?thesis using Suc.IH Suc.prems unfolding e by (auto simp: le_Suc_eq simp del: push_bit_Suc)
    qed
  qed
  with that show thesis by blast
qed

lemma bit_prefix_mask: "n \<le> 32 \<Longrightarrow> i < 32 \<Longrightarrow> bit (prefix_mask n) i \<longleftrightarrow> 32 - n \<le> i"
  by (auto simp: prefix_mask_def bit_simps)

text \<open>The two bit loops of ip4_addr_netmask_valid accept exactly the masks that consist of a
  run of ones followed by zeros, including the empty and the full mask.\<close>

theorem netmask_valid_iff_prefix:
  "ip4_addr_netmask_valid netmask \<longleftrightarrow> (\<exists>n \<le> 32. lwip_htonl netmask = prefix_mask n)"
proof -
  define nm where "nm = lwip_htonl netmask"
  have v: "ip4_addr_netmask_valid netmask = no_one_after nm (first_zero nm (push_bit 31 1))"
    by (simp add: ip4_addr_netmask_valid_def nm_def Let_def)
  show ?thesis
  proof (rule first_zero_cases [of 31 nm])
    assume a: "\<forall>j \<le> 31. bit nm j" and z: "first_zero nm (push_bit 31 1) = 0"
    have "nm = prefix_mask 32" using a by (intro bit_word_eqI) (simp add: bit_prefix_mask)
    then show ?thesis unfolding v z nm_def [symmetric] by (auto simp: no_one_after.simps)
  next
    fix j
    assume j: "j \<le> 31" "\<not> bit nm j" "\<forall>i. j < i \<and> i \<le> 31 \<longrightarrow> bit nm i" and z: "first_zero nm (push_bit 31 1) = push_bit j 1"
    have "(\<forall>i \<le> j. \<not> bit nm i) \<longleftrightarrow> (\<exists>n \<le> 32. nm = prefix_mask n)"
    proof
      assume "\<forall>i \<le> j. \<not> bit nm i"
      with j have "nm = prefix_mask (31 - j)"
        by (intro bit_word_eqI) (auto simp: bit_prefix_mask not_le less_Suc_eq_le intro: leI)
      then show "\<exists>n \<le> 32. nm = prefix_mask n" by (intro exI [of _ "31 - j"]) simp
    next
      assume "\<exists>n \<le> 32. nm = prefix_mask n"
      with j show "\<forall>i \<le> j. \<not> bit nm i" by (auto simp: bit_prefix_mask)
    qed
    then show ?thesis using j no_one_after_iff [of j nm] unfolding v z nm_def [symmetric] by simp
  qed simp
qed

end
