(* ===== verification/App_Net.thy ===== *)
theory App_Net
  imports Lwip_Addr App_Ps5
begin

text \<open>
  The network settings: the addresses of the interface in lwIP (\<^verbatim>\<open>core/netif.c\<close>), the
  reconfiguration callback of the lwIP thread (\<^verbatim>\<open>lwipthread.c\<close>), and the functions of
  \<^verbatim>\<open>src/main.c\<close> that change the interface and the UDP destination.  The calls into the rest
  of the stack (connections told of the new address, gratuitous ARP) are recorded in order;
  starting and stopping DHCP is a parameter.  Console output is a list of formats with arguments.
\<close>

section \<open>The interface in lwIP\<close>

record netif =
  nif_ip_addr :: u32
  nif_netmask :: u32
  nif_gw :: u32
  nif_hwaddr :: "u8 list"
  nif_flags :: u8
  nif_name :: string
  nif_num :: u8

datatype stack_call =
    IpAddrChanged u32 u32
  | GratuitousArp u32

abbreviation NETIF_FLAG_UP :: u8 where "NETIF_FLAG_UP \<equiv> 0x01"
abbreviation NETIF_FLAG_LINK_UP :: u8 where "NETIF_FLAG_LINK_UP \<equiv> 0x04"
abbreviation NETIF_FLAG_ETHARP :: u8 where "NETIF_FLAG_ETHARP \<equiv> 0x08"

definition netif_is_up :: "netif \<Rightarrow> bool" where
  "netif_is_up n \<longleftrightarrow> nif_flags n AND NETIF_FLAG_UP \<noteq> 0"

definition netif_is_link_up :: "netif \<Rightarrow> bool" where
  "netif_is_link_up n \<longleftrightarrow> nif_flags n AND NETIF_FLAG_LINK_UP \<noteq> 0"

definition netif_issue_reports :: "netif \<Rightarrow> stack_call list" where
  "netif_issue_reports n =
     (if \<not> netif_is_link_up n \<or> \<not> netif_is_up n then []
      else if nif_ip_addr n \<noteq> 0 \<and> nif_flags n AND NETIF_FLAG_ETHARP \<noteq> 0
      then [GratuitousArp (nif_ip_addr n)] else [])"

type_synonym netif_log = "netif \<times> stack_call list"

definition netif_set_ipaddr :: "u32 \<Rightarrow> netif_log \<Rightarrow> netif_log" where
  "netif_set_ipaddr ipaddr = (\<lambda>(n, log).
     if ipaddr \<noteq> nif_ip_addr n then
       let log = log @ [IpAddrChanged (nif_ip_addr n) ipaddr];
           n = n\<lparr>nif_ip_addr := ipaddr\<rparr>
       in (n, log @ netif_issue_reports n)
     else (n, log))"

definition netif_set_netmask :: "u32 \<Rightarrow> netif_log \<Rightarrow> netif_log" where
  "netif_set_netmask nm = (\<lambda>(n, log).
     if nm \<noteq> nif_netmask n then (n\<lparr>nif_netmask := nm\<rparr>, log) else (n, log))"

definition netif_set_gw :: "u32 \<Rightarrow> netif_log \<Rightarrow> netif_log" where
  "netif_set_gw gw = (\<lambda>(n, log).
     if gw \<noteq> nif_gw n then (n\<lparr>nif_gw := gw\<rparr>, log) else (n, log))"

section \<open>Reconfiguration in the lwIP thread\<close>

datatype net_addr_mode = NET_ADDRESS_DHCP | NET_ADDRESS_STATIC

record lwipreconf_opts =
  opt_address :: u32
  opt_netmask :: u32
  opt_gateway :: u32
  opt_addrMode :: net_addr_mode

text \<open>The globals of the lwIP thread.\<close>

record lwip_state =
  thisif :: netif
  cfg_ip :: u32
  cfg_gateway :: u32
  cfg_netmask :: u32
  addressMode :: net_addr_mode
  stack_log :: "stack_call list"

record dhcp_ops =
  dhcp_start :: "netif_log \<Rightarrow> netif_log"
  dhcp_stop :: "netif_log \<Rightarrow> netif_log"

definition do_reconfigure :: "dhcp_ops \<Rightarrow> lwipreconf_opts \<Rightarrow> lwip_state \<Rightarrow> lwip_state" where
  "do_reconfigure dhcp opts s =
     (let n = (thisif s, stack_log s);
          n = (case addressMode s of
                 NET_ADDRESS_DHCP \<Rightarrow> if netif_is_up (fst n) then dhcp_stop dhcp n else n
               | NET_ADDRESS_STATIC \<Rightarrow> netif_set_gw 0 (netif_set_netmask 0 (netif_set_ipaddr 0 n)));
          s = s\<lparr>cfg_ip := opt_address opts, cfg_gateway := opt_gateway opts, cfg_netmask := opt_netmask opts,
                addressMode := opt_addrMode opts\<rparr>;
          n = (case addressMode s of
                 NET_ADDRESS_DHCP \<Rightarrow> if netif_is_up (fst n) then dhcp_start dhcp n else n
               | NET_ADDRESS_STATIC \<Rightarrow>
                   netif_set_gw (cfg_gateway s) (netif_set_netmask (cfg_netmask s) (netif_set_ipaddr (cfg_ip s) n)))
      in s\<lparr>thisif := fst n, stack_log := snd n\<rparr>)"

text \<open>The caller of \<^verbatim>\<open>lwipReconfigure\<close> waits on a semaphore until the callback has run.\<close>

definition lwipReconfigure :: "dhcp_ops \<Rightarrow> lwipreconf_opts \<Rightarrow> lwip_state \<Rightarrow> lwip_state" where
  "lwipReconfigure dhcp opts s = do_reconfigure dhcp opts s"

section \<open>The functions of the application\<close>

record net_state =
  lwip :: lwip_state
  udp_dest_ip :: string
  net_console :: "console_line list"

definition say :: "string \<Rightarrow> print_arg list \<Rightarrow> net_state \<Rightarrow> net_state" where
  "say fmt args s = s\<lparr>net_console := net_console s @ [(fmt, args)]\<rparr>"

definition network_reconfigure ::
  "dhcp_ops \<Rightarrow> string option \<Rightarrow> string option \<Rightarrow> string option \<Rightarrow> net_state \<Rightarrow> bool \<times> net_state" where
  "network_reconfigure dhcp ip_str gateway_str netmask_str s =
     (case (ip_str, gateway_str, netmask_str) of
        (Some ip, Some gateway, Some netmask) \<Rightarrow>
          (case ip4addr_aton ip of
             None \<Rightarrow> (False, say ''Error: Invalid IP address format: %s'' [AStr ip] s)
           | Some ip_addr \<Rightarrow>
          (case ip4addr_aton gateway of
             None \<Rightarrow> (False, say ''Error: Invalid gateway address format: %s'' [AStr gateway] s)
           | Some gateway_addr \<Rightarrow>
          (case ip4addr_aton netmask of
             None \<Rightarrow> (False, say ''Error: Invalid netmask format: %s'' [AStr netmask] s)
           | Some netmask_addr \<Rightarrow>
               let reconf_opts = \<lparr>opt_address = ip_addr, opt_netmask = netmask_addr,
                     opt_gateway = gateway_addr, opt_addrMode = NET_ADDRESS_STATIC\<rparr>;
                   s = s\<lparr>lwip := lwipReconfigure dhcp reconf_opts (lwip s)\<rparr>
               in (True, say ''Network reconfigured to: IP: %s Gateway: %s Netmask: %s''
                     [AStr ip, AStr gateway, AStr netmask] s))))
      | _ \<Rightarrow> (False, say ''Error: All parameters (IP, gateway, netmask) are required'' [] s))"

text \<open>A character array holds a C string: the characters before the first terminator.\<close>

abbreviation NUL :: char where "NUL \<equiv> char_of (0 :: nat)"

definition cstr :: "string \<Rightarrow> string" where
  "cstr buf = takeWhile (\<lambda>c. c \<noteq> NUL) buf"

text \<open>\<^verbatim>\<open>strncpy\<close> copies at most \<open>n\<close> characters and fills up with terminators.\<close>

definition strncpy :: "string \<Rightarrow> string \<Rightarrow> nat \<Rightarrow> string" where
  "strncpy dst src n = take n (src @ replicate n NUL) @ drop n dst"

abbreviation sizeof_udp_dest_ip :: nat where "sizeof_udp_dest_ip \<equiv> 16"

definition udp_set_destination :: "string option \<Rightarrow> net_state \<Rightarrow> bool \<times> net_state" where
  "udp_set_destination dest_ip s =
     (case dest_ip of
        None \<Rightarrow> (False, s)
      | Some ip \<Rightarrow>
          if length ip = 0 \<or> length ip \<ge> sizeof_udp_dest_ip then (False, s)
          else if ip4addr_aton ip = None then (False, say ''Error: Invalid IP address format: %s'' [AStr ip] s)
          else
            let s = s\<lparr>udp_dest_ip := (strncpy (udp_dest_ip s) ip (sizeof_udp_dest_ip - 1))
                        [sizeof_udp_dest_ip - 1 := NUL]\<rparr>
            in (True, say ''UDP destination IP updated to: %s'' [AStr ip] s))"

text \<open>The outer None is a write past the caller's buffer; the inner None is the null pointer.\<close>

definition udp_get_destination :: "string option \<Rightarrow> nat \<Rightarrow> net_state \<Rightarrow> string option option" where
  "udp_get_destination dest_ip buf_size s =
     (case dest_ip of
        None \<Rightarrow> Some None
      | Some buf \<Rightarrow>
          if buf_size = 0 then Some (Some buf)
          else if length buf < buf_size then None
          else Some (Some ((strncpy buf (cstr (udp_dest_ip s)) (buf_size - 1))[buf_size - 1 := NUL])))"

section \<open>Setting the UDP destination\<close>

text \<open>The invariant of the destination: a terminated string in its array that parses as an address.\<close>

definition net_ok :: "net_state \<Rightarrow> bool" where
  "net_ok s \<longleftrightarrow> length (udp_dest_ip s) = sizeof_udp_dest_ip \<and> udp_dest_ip s ! 15 = NUL \<and>
     ip4addr_aton (cstr (udp_dest_ip s)) \<noteq> None"

lemma length_cstr:
  assumes "net_ok s"
  shows "length (cstr (udp_dest_ip s)) \<le> 15"
proof (rule ccontr)
  assume "\<not> ?thesis"
  then have l: "15 < length (takeWhile (\<lambda>c. c \<noteq> NUL) (udp_dest_ip s))" by (simp add: cstr_def)
  then have "takeWhile (\<lambda>c. c \<noteq> NUL) (udp_dest_ip s) ! 15 \<noteq> NUL" using nth_mem set_takeWhileD by fast
  then show False using l assms by (simp add: takeWhile_nth net_ok_def)
qed

lemma cstr_strncpy:
  assumes "NUL \<notin> set src" and "length src \<le> n" and "n < length dst"
  shows "cstr ((strncpy dst src n)[n := NUL]) = src"
proof -
  have "(strncpy dst src n)[n := NUL] = src @ replicate (n - length src) NUL @ NUL # drop (Suc n) dst"
    using assms by (simp add: strncpy_def list_update_append upd_conv_take_nth_drop Cons_nth_drop_Suc [symmetric])
  moreover have "takeWhile (\<lambda>c. c \<noteq> NUL) (replicate (n - length src) NUL @ NUL # drop (Suc n) dst) = []"
    by (cases "n - length src") simp_all
  ultimately show ?thesis using assms(1) by (simp add: cstr_def takeWhile_append takeWhile_eq_all_conv)
qed

lemma NUL_cstr: "NUL \<notin> set (cstr buf)"
  by (auto simp: cstr_def dest: set_takeWhileD)

lemma get_destination:
  assumes "net_ok s" and "16 \<le> length buf"
  obtains b where "udp_get_destination (Some buf) 16 s = Some (Some b)" "cstr b = cstr (udp_dest_ip s)"
  using assms cstr_strncpy [OF NUL_cstr length_cstr [OF assms(1)], of buf]
  by (simp add: udp_get_destination_def)

lemma set_destination:
  assumes ok: "net_ok s" and nul: "NUL \<notin> set ip"
  obtains r s' where "udp_set_destination (Some ip) s = (r, s')" "net_ok s'"
    "r \<longleftrightarrow> 0 < length ip \<and> length ip < 16 \<and> ip4addr_aton ip \<noteq> None"
    "cstr (udp_dest_ip s') = (if r then ip else cstr (udp_dest_ip s))" "lwip s' = lwip s"
proof (cases "0 < length ip \<and> length ip < 16 \<and> ip4addr_aton ip \<noteq> None")
  case True
  let ?b = "(strncpy (udp_dest_ip s) ip 15)[15 := NUL]"
  have c: "cstr ?b = ip" using True ok nul by (intro cstr_strncpy) (auto simp: net_ok_def)
  have l: "length ?b = 16" using ok by (simp add: net_ok_def strncpy_def)
  let ?s = "say ''UDP destination IP updated to: %s'' [AStr ip] (s\<lparr>udp_dest_ip := ?b\<rparr>)"
  have "udp_set_destination (Some ip) s = (True, ?s)" using True by (auto simp: udp_set_destination_def Let_def)
  moreover have "net_ok ?s" using l c True by (auto simp: net_ok_def say_def)
  ultimately show ?thesis using True c by (intro that [of True ?s]) (simp_all add: say_def)
next
  case False
  define r where "r = udp_set_destination (Some ip) s"
  have "fst r = False \<and> udp_dest_ip (snd r) = udp_dest_ip s \<and> lwip (snd r) = lwip s"
    using False by (auto simp: r_def udp_set_destination_def say_def)
  then show ?thesis using False ok by (intro that [of False "snd r"]) (simp_all add: r_def net_ok_def prod_eq_iff)
qed

text \<open>udp_set_destination succeeds exactly for a parsable address of 1 to 15 characters, keeps
  the destination a terminated valid address, and udp_get_destination returns the new address on
  success and the old one otherwise.\<close>

theorem udp_destination_round_trip:
  assumes "net_ok s" and "NUL \<notin> set ip" and "16 \<le> length buf"
  shows "\<exists>r s' b. udp_set_destination (Some ip) s = (r, s') \<and> net_ok s' \<and>
    (r \<longleftrightarrow> 0 < length ip \<and> length ip < 16 \<and> ip4addr_aton ip \<noteq> None) \<and>
    udp_get_destination (Some buf) 16 s' = Some (Some b) \<and> cstr b = (if r then ip else cstr (udp_dest_ip s))"
proof (rule set_destination [OF assms(1,2)])
  fix r s'
  assume s': "udp_set_destination (Some ip) s = (r, s')" "net_ok s'"
    "r \<longleftrightarrow> 0 < length ip \<and> length ip < 16 \<and> ip4addr_aton ip \<noteq> None"
    "cstr (udp_dest_ip s') = (if r then ip else cstr (udp_dest_ip s))"
  obtain b where "udp_get_destination (Some buf) 16 s' = Some (Some b)" "cstr b = cstr (udp_dest_ip s')"
    using get_destination [OF s'(2) assms(3)] by blast
  with s' show ?thesis by auto
qed

section \<open>Reconfiguring the interface\<close>

lemma netif_set_ipaddr_fst: "fst (netif_set_ipaddr a n) = (fst n)\<lparr>nif_ip_addr := a\<rparr>"
  by (cases n) (simp add: netif_set_ipaddr_def Let_def)

lemma netif_set_netmask_fst: "fst (netif_set_netmask a n) = (fst n)\<lparr>nif_netmask := a\<rparr>"
  by (cases n) (simp add: netif_set_netmask_def)

lemma netif_set_gw_fst: "fst (netif_set_gw a n) = (fst n)\<lparr>nif_gw := a\<rparr>"
  by (cases n) (simp add: netif_set_gw_def)

lemmas netif_fst = netif_set_ipaddr_fst netif_set_netmask_fst netif_set_gw_fst

lemma netif_log_keep [simp]:
  "snd (netif_set_netmask a n) = snd n" "snd (netif_set_gw a n) = snd n"
  by (cases n; simp add: netif_set_netmask_def netif_set_gw_def)+

lemma do_reconfigure_static:
  assumes "opt_addrMode opts = NET_ADDRESS_STATIC" and "addressMode s = NET_ADDRESS_STATIC"
  shows "thisif (do_reconfigure dhcp opts s) =
      (thisif s)\<lparr>nif_ip_addr := opt_address opts, nif_netmask := opt_netmask opts, nif_gw := opt_gateway opts\<rparr>"
    "addressMode (do_reconfigure dhcp opts s) = NET_ADDRESS_STATIC"
  using assms by (simp_all add: do_reconfigure_def Let_def netif_fst)

text \<open>network_reconfigure applied to the printed form of any three addresses succeeds and gives
  the interface exactly these addresses.\<close>

theorem net_config_applies:
  assumes "addressMode (lwip s) = NET_ADDRESS_STATIC"
  shows "\<exists>ip gw nm s'. ip4addr_ntoa ip_addr = Some ip \<and> ip4addr_ntoa gateway_addr = Some gw \<and>
    ip4addr_ntoa netmask_addr = Some nm \<and>
    network_reconfigure dhcp (Some ip) (Some gw) (Some nm) s = (True, s') \<and>
    thisif (lwip s') = (thisif (lwip s))\<lparr>nif_ip_addr := ip_addr, nif_netmask := netmask_addr, nif_gw := gateway_addr\<rparr> \<and>
    addressMode (lwip s') = NET_ADDRESS_STATIC \<and> udp_dest_ip s' = udp_dest_ip s"
proof -
  obtain ip where ip: "ip4addr_ntoa ip_addr = Some ip" "ip4addr_aton ip = Some ip_addr"
    using ntoa_parses [of ip_addr] by blast
  obtain gw where gw: "ip4addr_ntoa gateway_addr = Some gw" "ip4addr_aton gw = Some gateway_addr"
    using ntoa_parses [of gateway_addr] by blast
  obtain nm where nm: "ip4addr_ntoa netmask_addr = Some nm" "ip4addr_aton nm = Some netmask_addr"
    using ntoa_parses [of netmask_addr] by blast
  show ?thesis using assms ip gw nm
    by (simp add: network_reconfigure_def lwipReconfigure_def do_reconfigure_static Let_def say_def)
qed

text \<open>The stack hears of a static change in two steps: the old address is withdrawn, then the new one
  announced (with a gratuitous ARP when the interface and its link are up).\<close>

text \<open>A static reconfiguration of an interface that is up tells the stack first that the old
  address is gone and then of the new address, followed by a gratuitous ARP for it.\<close>

theorem reconfigure_withdraws_first:
  assumes "addressMode s = NET_ADDRESS_STATIC" and "opt_addrMode opts = NET_ADDRESS_STATIC"
    and "nif_ip_addr (thisif s) \<noteq> 0" and "opt_address opts \<noteq> 0"
    and "netif_is_up (thisif s)" and "netif_is_link_up (thisif s)" and "nif_flags (thisif s) AND NETIF_FLAG_ETHARP \<noteq> 0"
  shows "stack_log (do_reconfigure dhcp opts s) = stack_log s @
    [IpAddrChanged (nif_ip_addr (thisif s)) 0, IpAddrChanged 0 (opt_address opts), GratuitousArp (opt_address opts)]"
  using assms
  by (simp add: do_reconfigure_def Let_def netif_set_ipaddr_def netif_set_netmask_def netif_set_gw_def
      netif_issue_reports_def netif_is_up_def netif_is_link_up_def split: prod.splits)

text \<open>A rejected argument leaves the interface alone.\<close>

theorem net_config_rejects:
  assumes "ip4addr_aton ip = None \<or> ip4addr_aton gw = None \<or> ip4addr_aton nm = None"
  shows "\<exists>s'. network_reconfigure dhcp (Some ip) (Some gw) (Some nm) s = (False, s') \<and> lwip s' = lwip s \<and>
    udp_dest_ip s' = udp_dest_ip s"
  using assms by (auto simp: network_reconfigure_def say_def Let_def split: option.splits)

section \<open>The settings the application starts with\<close>

definition netif0 :: netif where
  "netif0 = \<lparr>nif_ip_addr = 0x6400A8C0, nif_netmask = 0x00FFFFFF, nif_gw = 0x0100A8C0,
     nif_hwaddr = [0x02, 0x12, 0x13, 0x10, 0x15, 0x05], nif_flags = 0x0F, nif_name = ''ms'', nif_num = 0\<rparr>"

definition net0 :: net_state where
  "net0 = \<lparr>lwip = \<lparr>thisif = netif0, cfg_ip = 0x6400A8C0, cfg_gateway = 0x0100A8C0, cfg_netmask = 0x00FFFFFF,
       addressMode = NET_ADDRESS_STATIC, stack_log = []\<rparr>,
     udp_dest_ip = ''192.168.0.10'' @ replicate 4 NUL, net_console = []\<rparr>"

definition no_dhcp :: dhcp_ops where
  "no_dhcp = \<lparr>dhcp_start = id, dhcp_stop = id\<rparr>"

lemma net_ok_0: "net_ok net0"
  unfolding net_ok_def by code_simp

theorem udp_destination_round_trip_witness:
  "\<exists>s' b. udp_set_destination (Some ''10.0.0.7'') net0 = (True, s') \<and>
    udp_get_destination (Some (replicate 16 CHR ''?'')) 16 s' = Some (Some b) \<and> cstr b = ''10.0.0.7''"
proof -
  have n: "NUL \<notin> set ''10.0.0.7''" by code_simp
  have a: "ip4addr_aton ''10.0.0.7'' \<noteq> None" by code_simp
  show ?thesis
    using udp_destination_round_trip [OF net_ok_0 n, of "replicate 16 CHR ''?''"] a by auto
qed

theorem net_config_applies_witness:
  "\<exists>s'. network_reconfigure no_dhcp (Some ''10.0.0.7'') (Some ''10.0.0.1'') (Some ''255.0.0.0'') net0 = (True, s') \<and>
    nif_ip_addr (thisif (lwip s')) = 0x0700000A \<and> nif_gw (thisif (lwip s')) = 0x0100000A"
proof -
  have n: "ip4addr_ntoa 0x0700000A = Some ''10.0.0.7''" "ip4addr_ntoa 0x0100000A = Some ''10.0.0.1''"
    "ip4addr_ntoa 0x000000FF = Some ''255.0.0.0''" by code_simp+
  show ?thesis
    using net_config_applies [of net0 "0x0700000A" "0x0100000A" "0x000000FF" no_dhcp] n
    by (auto simp: net0_def)
qed

theorem reconfigure_withdraws_first_witness:
  "stack_log (do_reconfigure no_dhcp
      \<lparr>opt_address = 0x0700000A, opt_netmask = 0x000000FF, opt_gateway = 0x0100000A, opt_addrMode = NET_ADDRESS_STATIC\<rparr>
      (lwip net0)) =
    [IpAddrChanged 0x6400A8C0 0, IpAddrChanged 0 0x0700000A, GratuitousArp 0x0700000A]"
  using reconfigure_withdraws_first [of "lwip net0"
      "\<lparr>opt_address = 0x0700000A, opt_netmask = 0x000000FF, opt_gateway = 0x0100000A, opt_addrMode = NET_ADDRESS_STATIC\<rparr>" no_dhcp]
  by (simp add: net0_def netif0_def netif_is_up_def netif_is_link_up_def)

theorem net_config_rejects_witness:
  "\<exists>s'. network_reconfigure no_dhcp (Some ''10.0.0.256'') (Some ''10.0.0.1'') (Some ''255.0.0.0'') net0 = (False, s') \<and>
    lwip s' = lwip net0"
proof -
  have "ip4addr_aton ''10.0.0.256'' = None" by code_simp
  then show ?thesis using net_config_rejects [of "''10.0.0.256''" "''10.0.0.1''" "''255.0.0.0''" no_dhcp net0] by auto
qed

end
