(* ===== verification/Ch_Shell.thy ===== *)
theory Ch_Shell
  imports App_Ps5
begin

text \<open>
  The command interpreter of ChibiOS (\<^verbatim>\<open>os/various/shell/shell.c\<close>) in the configuration of
  this program: the tokenizer \<^verbatim>\<open>parse_arguments\<close>, the argument loop and dispatch of
  \<^verbatim>\<open>shellThread\<close> for one input line, and the completion table that the Tab key fills.
  A line is its characters before the terminator; the terminator that the tokenizer writes over a
  delimiter becomes the end of the returned token.  A command is a function from its arguments and
  the state of the program to the new state, and the output channel is a parameter.
\<close>

section \<open>Tokens\<close>

abbreviation is_blank :: "char \<Rightarrow> bool" where
  "is_blank c \<equiv> c = CHR '' '' \<or> c = CHR 0x09"

abbreviation is_quote :: "char \<Rightarrow> bool" where
  "is_quote c \<equiv> c = CHR 0x22"

text \<open>The end of a token: the token itself and the new save pointer.\<close>

definition cut_token :: "(char \<Rightarrow> bool) \<Rightarrow> string \<Rightarrow> string \<times> string option" where
  "cut_token delim p =
     (takeWhile (\<lambda>c. \<not> delim c) p,
      case dropWhile (\<lambda>c. \<not> delim c) p of [] \<Rightarrow> None | _ # rest \<Rightarrow> Some rest)"

definition parse_arguments :: "string option \<Rightarrow> string option \<Rightarrow> string option \<times> string option" where
  "parse_arguments str saveptr =
     (let saveptr = (case str of Some p \<Rightarrow> Some p | None \<Rightarrow> saveptr) in
      case saveptr of
        None \<Rightarrow> (None, saveptr)
      | Some p \<Rightarrow>
          (let p = dropWhile is_blank p;
               (tok, saveptr) =
                 (if p \<noteq> [] \<and> is_quote (hd p) then cut_token is_quote (tl p) else cut_token is_blank p)
           in (if tok \<noteq> [] then Some tok else None, saveptr)))"

lemma cut_token_shorter: "cut_token delim p = (tok, Some rest) \<Longrightarrow> length rest < length p"
proof -
  assume "cut_token delim p = (tok, Some rest)"
  then obtain c where "dropWhile (\<lambda>c. \<not> delim c) p = c # rest"
    by (auto simp: cut_token_def split: list.splits)
  then show ?thesis using length_dropWhile_le [of "\<lambda>c. \<not> delim c" p] by simp
qed

lemma parse_shorter:
  assumes "parse_arguments None (Some p) = (tok, Some rest)"
  shows "length rest < length p"
  using assms cut_token_shorter [of is_quote "tl (dropWhile is_blank p)" _ rest]
    cut_token_shorter [of is_blank "dropWhile is_blank p" _ rest] length_dropWhile_le [of is_blank p]
  by (auto simp: parse_arguments_def Let_def split: prod.splits if_splits)

abbreviation SHELL_MAX_ARGUMENTS :: nat where
  "SHELL_MAX_ARGUMENTS \<equiv> 4"

text \<open>The argument loop: the arguments, or None after \<^verbatim>\<open>too many arguments\<close>.\<close>

function collect_args :: "string list \<Rightarrow> string option \<Rightarrow> string list option" where
  "collect_args args tokp =
     (case parse_arguments None tokp of
        (None, _) \<Rightarrow> Some args
      | (Some lp, tokp') \<Rightarrow>
          if length args \<ge> SHELL_MAX_ARGUMENTS then None
          else collect_args (args @ [lp]) tokp')"
  by pat_completeness auto

termination
  by (relation "measure (\<lambda>(args, _). SHELL_MAX_ARGUMENTS - length args)") auto

declare collect_args.simps [simp del]

section \<open>Dispatch\<close>

type_synonym 's command = "string list \<Rightarrow> 's \<Rightarrow> 's"

type_synonym 's channel = "string \<Rightarrow> print_arg list \<Rightarrow> 's \<Rightarrow> 's"

fun list_commands :: "'s channel \<Rightarrow> (string \<times> 's command) list \<Rightarrow> 's \<Rightarrow> 's" where
  "list_commands out [] s = s"
| "list_commands out ((sc_name, _) # scp) s = list_commands out scp (out ''%s '' [AStr sc_name] s)"

text \<open>The flag is true when no command has this name.\<close>

fun cmdexec :: "(string \<times> 's command) list \<Rightarrow> string \<Rightarrow> string list \<Rightarrow> 's \<Rightarrow> bool \<times> 's" where
  "cmdexec [] name argv s = (True, s)"
| "cmdexec ((sc_name, sc_function) # scp) name argv s =
     (if sc_name = name then (False, sc_function argv s) else cmdexec scp name argv s)"

definition SHELL_NEWLINE_STR :: string where "SHELL_NEWLINE_STR = [CHR 0x0D, CHR 0x0A]"

text \<open>The body of the loop of \<^verbatim>\<open>shellThread\<close> once a line has been read; \<open>locals\<close> are the
  commands of the shell itself and \<open>scp\<close> those of the program.\<close>

definition shell_line ::
  "'s channel \<Rightarrow> (string \<times> 's command) list \<Rightarrow> (string \<times> 's command) list \<Rightarrow> string \<Rightarrow> 's \<Rightarrow> 's" where
  "shell_line out locals scp line s =
     (let (cmd, tokp) = parse_arguments (Some line) None in
      case collect_args [] tokp of
        None \<Rightarrow> out (''too many arguments'' @ SHELL_NEWLINE_STR) [] s
      | Some args \<Rightarrow>
          (case cmd of
             None \<Rightarrow> s
           | Some cmd \<Rightarrow>
               if cmd = ''help'' then
                 if length args > 0 then out (''Usage: %s'' @ SHELL_NEWLINE_STR) [AStr ''help''] s
                 else out SHELL_NEWLINE_STR [] (list_commands out scp (list_commands out locals (out ''Commands: help '' [] s)))
               else
                 (case cmdexec locals cmd args s of
                    (False, s) \<Rightarrow> s
                  | (True, s) \<Rightarrow>
                      (case cmdexec scp cmd args s of
                         (False, s) \<Rightarrow> s
                       | (True, s) \<Rightarrow> out ('' ?'' @ SHELL_NEWLINE_STR) [] (out ''%s'' [AStr cmd] s)))))"

section \<open>Completions\<close>

text \<open>\<^verbatim>\<open>get_completions\<close> stores every name that starts with the line, and a final null pointer, in
  the completion array of the program.\<close>

definition completion_entries :: "string list \<Rightarrow> string list \<Rightarrow> string \<Rightarrow> string list" where
  "completion_entries locals scp line = filter (\<lambda>n. take (length line) n = line) (''help'' # locals @ scp)"

abbreviation SHELL_MAX_COMPLETIONS :: nat where
  "SHELL_MAX_COMPLETIONS \<equiv> 8"

text \<open>None is a write past the array.\<close>

definition get_completions :: "string list \<Rightarrow> string list \<Rightarrow> string \<Rightarrow> string option list \<Rightarrow> string option list option" where
  "get_completions locals scp line sc_completion =
     (let entries = map Some (completion_entries locals scp line) @ [None] in
      if length entries \<le> length sc_completion
      then Some (mem_write 0 entries sc_completion) else None)"

section \<open>What the tokenizer returns\<close>

text \<open>A word: a token that needs no quotes.\<close>

definition word_token :: "string \<Rightarrow> bool" where
  "word_token w \<longleftrightarrow> w \<noteq> [] \<and> \<not> is_quote (hd w) \<and> list_all (\<lambda>c. \<not> is_blank c) w"

fun join_words :: "string list \<Rightarrow> string" where
  "join_words [] = []"
| "join_words [w] = w"
| "join_words (w # ws) = w @ '' '' @ join_words ws"

lemma parse_word:
  assumes "word_token w"
  shows "parse_arguments None (Some w) = (Some w, None)"
    "is_blank c \<Longrightarrow> parse_arguments None (Some (w @ c # rest)) = (Some w, Some rest)"
proof -
  obtain x xs where w: "w = x # xs" "\<not> is_blank x" "\<not> is_quote x" using assms
    by (cases w) (auto simp: word_token_def)
  have all: "\<forall>c \<in> set w. \<not> is_blank c" using assms by (simp add: word_token_def list_all_iff)
  have t: "takeWhile (\<lambda>c. \<not> is_blank c) (w @ r) = w @ takeWhile (\<lambda>c. \<not> is_blank c) r"
    "dropWhile (\<lambda>c. \<not> is_blank c) (w @ r) = dropWhile (\<lambda>c. \<not> is_blank c) r" for r
    using all by (auto simp: takeWhile_append dropWhile_append)
  have q: "parse_arguments None (Some (w @ r)) = (Some (fst (cut_token is_blank (w @ r))), snd (cut_token is_blank (w @ r)))"
    if "fst (cut_token is_blank (w @ r)) \<noteq> []" for r
    using w that by (simp add: parse_arguments_def Let_def split_beta)
  show "parse_arguments None (Some (w @ c # rest)) = (Some w, Some rest)" if "is_blank c"
  proof -
    have "cut_token is_blank (w @ c # rest) = (w, Some rest)" using that unfolding cut_token_def t by auto
    then show ?thesis using q [of "c # rest"] w by simp
  qed
  have "cut_token is_blank (w @ []) = (w, None)" unfolding cut_token_def t by simp
  then show "parse_arguments None (Some w) = (Some w, None)" using q [of "[]"] w by simp
qed

lemma parse_start: "parse_arguments (Some p) save = parse_arguments None (Some p)"
  by (simp add: parse_arguments_def)

lemma parse_end: "parse_arguments None None = (None, None)"
  by (simp add: parse_arguments_def)

lemma collect_words:
  assumes "list_all word_token ws" and "length args \<le> SHELL_MAX_ARGUMENTS"
  shows "collect_args args (if ws = [] then None else Some (join_words ws)) =
    (if length args + length ws \<le> SHELL_MAX_ARGUMENTS then Some (args @ ws) else None)"
  using assms
proof (induction ws arbitrary: args)
  case Nil
  then show ?case by (simp add: collect_args.simps [of args None] parse_end)
next
  case (Cons w ws)
  have w: "word_token w" using Cons.prems by simp
  have p: "parse_arguments None (Some (join_words (w # ws))) = (Some w, if ws = [] then None else Some (join_words ws))"
    using parse_word [OF w] by (cases ws) auto
  show ?case
  proof (cases "length args < SHELL_MAX_ARGUMENTS")
    case False
    then show ?thesis using Cons.prems by (simp add: collect_args.simps [of args "Some _"] p)
  next
    case True
    then show ?thesis using Cons.IH [of "args @ [w]"] Cons.prems
      by (simp add: collect_args.simps [of args "Some _"] p)
  qed
qed

lemma cmdexec_map_of:
  "cmdexec l name argv s = (case map_of l name of None \<Rightarrow> (True, s) | Some f \<Rightarrow> (False, f argv s))"
  by (induction l name argv s rule: cmdexec.induct) simp_all

text \<open>What the shell does with a line of blank-separated words.\<close>

lemma shell_line_cases:
  assumes "list_all word_token (cmd # ws)"
  shows "shell_line out locals scp (join_words (cmd # ws)) s =
    (if SHELL_MAX_ARGUMENTS < length ws then out (''too many arguments'' @ SHELL_NEWLINE_STR) [] s
     else if cmd = ''help'' then
       (if ws \<noteq> [] then out (''Usage: %s'' @ SHELL_NEWLINE_STR) [AStr ''help''] s
        else out SHELL_NEWLINE_STR [] (list_commands out scp (list_commands out locals (out ''Commands: help '' [] s))))
     else (case map_of locals cmd of Some f \<Rightarrow> f ws s
           | None \<Rightarrow> (case map_of scp cmd of Some f \<Rightarrow> f ws s
                    | None \<Rightarrow> out ('' ?'' @ SHELL_NEWLINE_STR) [] (out ''%s'' [AStr cmd] s))))"
proof -
  have c: "word_token cmd" using assms by simp
  have p: "parse_arguments None (Some (join_words (cmd # ws))) = (Some cmd, if ws = [] then None else Some (join_words ws))"
    using parse_word [OF c] by (cases ws) auto
  show ?thesis using collect_words [of ws "[]"] assms
    by (auto simp: shell_line_def parse_start p cmdexec_map_of split: option.splits)
qed

text \<open>A command line of blank-separated words reaches the command with exactly these arguments.\<close>

lemma shell_line_words:
  assumes "list_all word_token (cmd # ws)" and "length ws \<le> SHELL_MAX_ARGUMENTS"
    and "cmd \<noteq> ''help''" and "map_of locals cmd = None" and "map_of scp cmd = Some f"
  shows "shell_line out locals scp (join_words (cmd # ws)) s = f ws s"
  using assms(2-5) by (simp add: shell_line_cases [OF assms(1)])

lemma collect_args_bound: "collect_args args tokp = Some args' \<Longrightarrow> length args \<le> SHELL_MAX_ARGUMENTS \<Longrightarrow> length args' \<le> SHELL_MAX_ARGUMENTS"
proof (induction args tokp rule: collect_args.induct)
  case (1 args tokp)
  show ?case using "1.prems" "1.IH" unfolding collect_args.simps [of args tokp]
    by (auto split: prod.splits option.splits if_splits)
qed

end
