(* ===== verification/App_Shell.thy ===== *)
theory App_Shell
  imports Ch_Shell App_Net Nrf24_Properties
begin

text \<open>
  The shell commands of \<^verbatim>\<open>src/main.c\<close>: the radio channel and address, the network
  settings and the UDP destination, with the number parsing of the C library they use.  A command
  acts on the radio state of the application layer and on the network state; what it prints on the
  shell channel goes to the console of the network state, each text without the carriage return and
  line feed that end it in the source.  The radio calls run over an arbitrary
  HAL.
\<close>

section \<open>Number parsing of the C library\<close>

text \<open>\<^verbatim>\<open>strtol\<close>: leading white space, a sign, the prefix of base 0, digits; values outside
  the 32-bit range of \<^verbatim>\<open>long\<close> are clamped.  The second result is the rest of the text, the
  whole text when there are no digits.\<close>

definition c_isspace :: "char \<Rightarrow> bool" where
  "c_isspace c \<longleftrightarrow> of_char c \<in> {32, 9, 10, 11, 12, 13 :: nat}"

definition digit_of :: "char \<Rightarrow> nat option" where
  "digit_of c =
     (let n = of_char c :: nat in
      if 48 \<le> n \<and> n \<le> 57 then Some (n - 48)
      else if 97 \<le> n \<and> n \<le> 122 then Some (n - 97 + 10)
      else if 65 \<le> n \<and> n \<le> 90 then Some (n - 65 + 10)
      else None)"

definition digit_in :: "nat \<Rightarrow> char \<Rightarrow> bool" where
  "digit_in base c = (case digit_of c of None \<Rightarrow> False | Some d \<Rightarrow> d < base)"

fun strtol_digits :: "nat \<Rightarrow> int \<Rightarrow> string \<Rightarrow> int \<times> string" where
  "strtol_digits base acc [] = (acc, [])"
| "strtol_digits base acc (c # cs) =
     (if digit_in base c then strtol_digits base (acc * int base + int (the (digit_of c))) cs
      else (acc, c # cs))"

definition strtol_sign :: "string \<Rightarrow> bool \<times> string" where
  "strtol_sign s =
     (case s of
        c # cs \<Rightarrow> if c = CHR ''-'' then (True, cs) else if c = CHR ''+'' then (False, cs) else (False, s)
      | [] \<Rightarrow> (False, s))"

definition strtol_base :: "nat \<Rightarrow> string \<Rightarrow> nat \<times> string" where
  "strtol_base base s =
     (if base = 0 \<or> base = 16 then
        (case s of
           z # x # d # rest \<Rightarrow>
             if z = CHR ''0'' \<and> (x = CHR ''x'' \<or> x = CHR ''X'') \<and> digit_in 16 d then (16, d # rest)
             else if base = 0 then (if z = CHR ''0'' then 8 else 10, s) else (base, s)
         | z # _ \<Rightarrow> if base = 0 then (if z = CHR ''0'' then 8 else 10, s) else (base, s)
         | [] \<Rightarrow> (if base = 0 then 10 else base, s))
      else (base, s))"

definition clamp_long :: "int \<Rightarrow> int" where
  "clamp_long v = (if v > 2147483647 then 2147483647 else if v < - 2147483648 then - 2147483648 else v)"

definition strtol :: "string \<Rightarrow> nat \<Rightarrow> int \<times> string" where
  "strtol nptr base =
     (let s = dropWhile c_isspace nptr;
          (neg, s) = strtol_sign s;
          (base, s) = strtol_base base s;
          (v, rest) = strtol_digits base 0 s
      in if s = [] \<or> \<not> digit_in base (hd s) then (0, nptr)
         else (clamp_long (if neg then - v else v), rest))"

definition atoi :: "string \<Rightarrow> int" where
  "atoi s = fst (strtol s 10)"

section \<open>The commands\<close>

text \<open>\<open>has_default\<close>: \<^verbatim>\<open>netif_default\<close> is not null; it is then the only interface.
  \<open>shell_fault\<close> records the use of a value that no call has stored, or a write past a buffer.\<close>

record 'e shell_state =
  radio :: "'e basic_state"
  net :: net_state
  has_default :: bool
  shell_fault :: bool

abbreviation faulty :: "'e shell_state \<Rightarrow> 'e shell_state" where
  "faulty s \<equiv> s\<lparr>shell_fault := True\<rparr>"

definition chprintf :: "'e shell_state channel" where
  "chprintf fmt args s = s\<lparr>net := say fmt args (net s)\<rparr>"

fun chprint_lines :: "string list \<Rightarrow> 'e shell_state \<Rightarrow> 'e shell_state" where
  "chprint_lines [] s = s"
| "chprint_lines (l # ls) s = chprint_lines ls (chprintf l [] s)"

definition on_radio :: "('e basic_state, 'a) state \<Rightarrow> 'e shell_state \<Rightarrow> 'a \<times> 'e shell_state" where
  "on_radio m s = (let (x, r) = run_state m (radio s) in (x, s\<lparr>radio := r\<rparr>))"

definition cmd_nrf_channel :: "'e hal \<Rightarrow> 'e shell_state command" where
  "cmd_nrf_channel H argv s =
     (if length argv \<noteq> 1 then
        chprint_lines [''Usage: nrf_channel <freq>'', ''  freq: Channel frequency (0-127)'',
          ''  Actual frequency = 2400 MHz + freq MHz'', ''Example: nrf_channel 94  (sets to 2494 MHz)''] s
      else
        let freq = atoi (argv ! 0) in
        if freq < 0 \<or> freq > 127 then chprintf ''Error: Frequency must be between 0 and 127'' [] s
        else
          let (result, s) = on_radio (nrf24l01_basic_set_frequency H (word_of_int freq)) s in
          if result = 0 then
            chprintf ''nRF24L01 channel set to %d (frequency: %d MHz)'' [ANat (nat freq), ANat (nat (2400 + freq))] s
          else chprintf ''Error: Failed to set nRF24L01 channel'' [] s)"

definition cmd_nrf_channel_get :: "'e hal \<Rightarrow> 'e shell_state command" where
  "cmd_nrf_channel_get H argv s =
     (if length argv \<noteq> 0 then
        chprint_lines [''Usage: nrf_channel_get'', ''  Displays the current nRF24L01 channel frequency''] s
      else
        let ((result, freq), s) = on_radio (nrf24l01_basic_get_frequency H) s in
        if result = 0 then
          (case freq of
             Some f \<Rightarrow> chprintf ''Current nRF24L01 channel: %d (frequency: %d MHz)''
                         [ANat (unat f), ANat (2400 + unat f)] s
           | None \<Rightarrow> faulty s)
        else chprintf ''Error: Failed to get nRF24L01 channel'' [] s)"

text \<open>The loop over the five arguments: the bytes, or the index of the first bad one.\<close>

fun parse_addr_bytes :: "nat \<Rightarrow> string list \<Rightarrow> nat + u8 list" where
  "parse_addr_bytes i [] = Inr []"
| "parse_addr_bytes i (a # as) =
     (let (val, endptr) = strtol a 0 in
      if endptr \<noteq> [] \<or> val < 0 \<or> val > 255 then Inl i
      else (case parse_addr_bytes (Suc i) as of Inl k \<Rightarrow> Inl k | Inr bs \<Rightarrow> Inr (word_of_int val # bs)))"

definition cmd_nrf_addr :: "'e hal \<Rightarrow> 'e shell_state command" where
  "cmd_nrf_addr H argv s =
     (if length argv \<noteq> 5 then
        chprint_lines [''Usage: nrf_addr <byte0> <byte1> <byte2> <byte3> <byte4>'',
          ''  Sets the nRF24L01 TX address (5 bytes in hex)'', ''Example: nrf_addr 0x65 0x64 0x6F 0x4E 0x32'',
          ''         nrf_addr 0xE7 0xE7 0xE7 0xE7 0xE7''] s
      else
        (case parse_addr_bytes 0 argv of
           Inl i \<Rightarrow> chprintf ''Error: Invalid byte %d: %s (must be 0x00-0xFF)'' [ANat i, AStr (argv ! i)] s
         | Inr addr \<Rightarrow>
             let (result, s) = on_radio (nrf24l01_basic_set_tx_address H (Some addr)) s in
             if result = 0 then
               chprintf ''nRF24L01 TX address set to: 0x%02X 0x%02X 0x%02X 0x%02X 0x%02X'' (map u8_arg addr) s
             else chprintf ''Error: Failed to set nRF24L01 TX address'' [] s))"

definition all_printable :: "u8 list \<Rightarrow> bool" where
  "all_printable addr = list_all (\<lambda>b. \<not> (b < 32 \<or> b > 126)) addr"

text \<open>The local array \<^verbatim>\<open>addr\<close> and the flag start with arbitrary contents, here zeros; the
  call overwrites them.\<close>

definition cmd_nrf_addr_get :: "'e shell_state command" where
  "cmd_nrf_addr_get argv s =
     (if length argv \<noteq> 0 then
        chprint_lines [''Usage: nrf_addr_get'', ''  Displays the current nRF24L01 TX address''] s
      else
        let ((result, addr, is_set), s) = on_radio (nrf24l01_basic_get_tx_address (Some [0, 0, 0, 0, 0]) (Some [0])) s in
        if result = 0 then
          (case (addr, is_set) of
             (Some a, Some [f]) \<Rightarrow>
               if f \<noteq> 0 then
                 let s = chprintf ''Current nRF24L01 TX address: 0x%02X 0x%02X 0x%02X 0x%02X 0x%02X'' (map u8_arg a) s in
                 if all_printable a then chprintf ''                     (ASCII: '%c%c%c%c%c')'' (map u8_arg a) s
                 else s
               else chprintf ''nRF24L01 TX address has not been set yet'' [] s
           | _ \<Rightarrow> faulty s)
        else chprintf ''Error: Failed to get nRF24L01 TX address'' [] s)"

definition on_net :: "(net_state \<Rightarrow> 'a \<times> net_state) \<Rightarrow> 'e shell_state \<Rightarrow> 'a \<times> 'e shell_state" where
  "on_net f s = (let (x, n) = f (net s) in (x, s\<lparr>net := n\<rparr>))"

definition cmd_net_config :: "dhcp_ops \<Rightarrow> 'e shell_state command" where
  "cmd_net_config dhcp argv s =
     (if length argv \<noteq> 3 then
        chprint_lines [''Usage: net_config <ip> <gateway> <netmask>'',
          ''Example: net_config 192.168.0.150 192.168.0.1 255.255.255.0'',
          ''         net_config 10.0.0.50 10.0.0.1 255.255.255.0''] s
      else
        let s = chprintf ''Configuring network to:'' [] s;
            s = chprintf ''  IP:      %s'' [AStr (argv ! 0)] s;
            s = chprintf ''  Gateway: %s'' [AStr (argv ! 1)] s;
            s = chprintf ''  Netmask: %s'' [AStr (argv ! 2)] s;
            (result, s) = on_net (network_reconfigure dhcp (Some (argv ! 0)) (Some (argv ! 1)) (Some (argv ! 2))) s
        in if result then
             chprint_lines [''Network configuration applied successfully!'',
               ''Note: Existing connections may need to be reestablished.''] s
           else chprintf ''Error: Failed to configure network (check IP format)'' [] s)"

definition ip_args :: "u32 \<Rightarrow> print_arg list" where
  "ip_args a = map (\<lambda>i. u8_arg (ip4_addr_get_byte a i)) [0, 1, 2, 3]"

definition cmd_net_info :: "'e shell_state command" where
  "cmd_net_info argv s =
     (if length argv \<noteq> 0 then
        chprint_lines [''Usage: net_info'', ''  Displays the current network configuration''] s
      else if \<not> has_default s then chprintf ''Error: Network interface not initialized'' [] s
      else
        let netif = thisif (lwip (net s));
            s = chprintf ''Current Network Configuration:'' [] s;
            s = chprintf ''  Interface:  %c%c%d'' [AStr (nif_name netif), u8_arg (nif_num netif)] s;
            s = chprintf ''  IP Address: %d.%d.%d.%d'' (ip_args (nif_ip_addr netif)) s;
            s = chprintf ''  Gateway:    %d.%d.%d.%d'' (ip_args (nif_gw netif)) s;
            s = chprintf ''  Netmask:    %d.%d.%d.%d'' (ip_args (nif_netmask netif)) s;
            s = chprintf ''  MAC:        %02X:%02X:%02X:%02X:%02X:%02X'' (map u8_arg (nif_hwaddr netif)) s;
            s = chprintf ''  Link:       %s'' [AStr (if netif_is_link_up netif then ''UP'' else ''DOWN'')] s
        in chprintf ''  Status:     %s'' [AStr (if netif_is_up netif then ''UP'' else ''DOWN'')] s)"

abbreviation JOY_STREAM_PORT :: nat where "JOY_STREAM_PORT \<equiv> 12346"

definition cmd_udp_dest :: "'e shell_state command" where
  "cmd_udp_dest argv s =
     (if length argv \<noteq> 1 then
        chprint_lines [''Usage: udp_dest <ip>'', ''  Sets the UDP destination IP address'',
          ''Example: udp_dest 192.168.0.50    (unicast to specific device)'',
          ''         udp_dest 192.168.0.255   (subnet broadcast)'',
          ''         udp_dest 255.255.255.255 (global broadcast)''] s
      else
        let (result, s) = on_net (udp_set_destination (Some (argv ! 0))) s in
        if result then
          chprintf ''PS5 controller data will now be sent to %s:%d'' [AStr (argv ! 0), ANat JOY_STREAM_PORT]
            (chprintf ''UDP destination set to: %s'' [AStr (argv ! 0)] s)
        else chprintf ''Error: Failed to set UDP destination (invalid IP format)'' [] s)"

definition cmd_udp_dest_get :: "'e shell_state command" where
  "cmd_udp_dest_get argv s =
     (if length argv \<noteq> 0 then
        chprint_lines [''Usage: udp_dest_get'', ''  Displays the current UDP destination IP address''] s
      else
        (case udp_get_destination (Some (replicate 16 NUL)) 16 (net s) of
           Some (Some b) \<Rightarrow> chprintf ''Current UDP destination: %s:%d'' [AStr (cstr b), ANat JOY_STREAM_PORT] s
         | _ \<Rightarrow> faulty s))"

definition commands :: "'e hal \<Rightarrow> dhcp_ops \<Rightarrow> (string \<times> 'e shell_state command) list" where
  "commands H dhcp =
     [(''nrf_channel'', cmd_nrf_channel H),
      (''nrf_channel_get'', cmd_nrf_channel_get H),
      (''nrf_addr'', cmd_nrf_addr H),
      (''nrf_addr_get'', cmd_nrf_addr_get),
      (''net_config'', cmd_net_config dhcp),
      (''net_info'', cmd_net_info),
      (''udp_dest'', cmd_udp_dest),
      (''udp_dest_get'', cmd_udp_dest_get)]"

text \<open>The names of the commands of the shell itself that this configuration enables.\<close>

definition shell_local_names :: "string list" where
  "shell_local_names = [''exit'', ''info'', ''echo'', ''systime'', ''mem'', ''threads'']"

section \<open>Lemmas on output\<close>

lemma chprintf_simps [simp]:
  "radio (chprintf f a s) = radio s" "lwip (net (chprintf f a s)) = lwip (net s)"
  "udp_dest_ip (net (chprintf f a s)) = udp_dest_ip (net s)" "has_default (chprintf f a s) = has_default s"
  "shell_fault (chprintf f a s) = shell_fault s"
  "net_console (net (chprintf f a s)) = net_console (net s) @ [(f, a)]"
  "net_ok (net (chprintf f a s)) = net_ok (net s)"
  by (simp_all add: chprintf_def say_def net_ok_def)

lemma chprint_lines_simps [simp]:
  "radio (chprint_lines ls s) = radio s" "lwip (net (chprint_lines ls s)) = lwip (net s)"
  "udp_dest_ip (net (chprint_lines ls s)) = udp_dest_ip (net s)" "has_default (chprint_lines ls s) = has_default s"
  "shell_fault (chprint_lines ls s) = shell_fault s" "net_ok (net (chprint_lines ls s)) = net_ok (net s)"
  by (induction ls arbitrary: s) simp_all

section \<open>The UDP destination from the shell\<close>

text \<open>C32. The shell line udp_dest with a valid address of less than 16 characters makes it the UDP
  destination, and udp_dest_get then prints the same address with port 12346, without touching
  the radio.\<close>

theorem udp_dest_command:
  assumes "word_token ip" and "NUL \<notin> set ip" and "length ip < 16" and "ip4addr_aton ip \<noteq> None"
    and "net_ok (net s)" and "map_of locals ''udp_dest'' = None" and "map_of locals ''udp_dest_get'' = None"
    and s1_def: "s1 = shell_line chprintf locals (commands H dhcp) (join_words [''udp_dest'', ip]) s"
    and s2_def: "s2 = shell_line chprintf locals (commands H dhcp) ''udp_dest_get'' s1"
  shows "net_ok (net s1) \<and> cstr (udp_dest_ip (net s1)) = ip \<and> radio s2 = radio s \<and>
    shell_fault s2 = shell_fault s \<and>
    net_console (net s2) = net_console (net s1) @
      [(''Current UDP destination: %s:%d'', [AStr ip, ANat JOY_STREAM_PORT])]"
proof -
  have w: "word_token ''udp_dest''" "word_token ''udp_dest_get''" by code_simp+
  have s1: "s1 = cmd_udp_dest [ip] s" unfolding s1_def
    using w assms(1,6) by (intro shell_line_words) (simp_all add: commands_def)
  have s2: "s2 = cmd_udp_dest_get [] s1" unfolding s2_def
    using shell_line_words [of "''udp_dest_get''" "[]" locals "commands H dhcp" cmd_udp_dest_get chprintf s1] w assms(7)
    by (simp add: commands_def)
  obtain n where n: "udp_set_destination (Some ip) (net s) = (True, n)" "net_ok n" "cstr (udp_dest_ip n) = ip"
    by (rule set_destination [OF assms(5,2)]) (use assms(1,3,4) in \<open>auto simp: word_token_def\<close>)
  have e: "net_ok (net s1)" "udp_dest_ip (net s1) = udp_dest_ip n" "radio s1 = radio s" "shell_fault s1 = shell_fault s"
    using n unfolding s1 by (simp_all add: cmd_udp_dest_def on_net_def)
  obtain b where "udp_get_destination (Some (replicate 16 NUL)) 16 (net s1) = Some (Some b)" "cstr b = ip"
    by (rule get_destination [OF e(1), of "replicate 16 NUL"]) (use e n in auto)
  then show ?thesis using e n unfolding s2 by (simp add: cmd_udp_dest_get_def)
qed

section \<open>The interface settings from the shell\<close>

text \<open>The shell line net_config with three parsable addresses sets exactly the address, gateway
  and netmask of the interface, and nothing else of the radio or the UDP destination.\<close>

theorem net_config_command:
  assumes "word_token ip" "word_token gw" "word_token nm"
    and "ip4addr_aton ip = Some ip_addr" "ip4addr_aton gw = Some gw_addr" "ip4addr_aton nm = Some nm_addr"
    and "addressMode (lwip (net s)) = NET_ADDRESS_STATIC" and "map_of locals ''net_config'' = None"
    and s1_def: "s1 = shell_line chprintf locals (commands H dhcp) (join_words [''net_config'', ip, gw, nm]) s"
  shows "thisif (lwip (net s1)) = (thisif (lwip (net s)))
      \<lparr>nif_ip_addr := ip_addr, nif_netmask := nm_addr, nif_gw := gw_addr\<rparr> \<and>
    radio s1 = radio s \<and> udp_dest_ip (net s1) = udp_dest_ip (net s)"
proof -
  have w: "word_token ''net_config''" by code_simp
  have s1: "s1 = cmd_net_config dhcp [ip, gw, nm] s" unfolding s1_def
    using w assms(1-3,8) by (intro shell_line_words) (simp_all add: commands_def)
  show ?thesis unfolding s1 using assms(4-7)
    by (simp add: cmd_net_config_def on_net_def network_reconfigure_def lwipReconfigure_def do_reconfigure_static
        Let_def say_def numeral_2_eq_2)
qed

section \<open>The radio address from the shell\<close>

text \<open>The shell passes at most four arguments, the command wants five: it can only print its usage.\<close>

text \<open>Whatever line is typed, the command nrf_addr never changes the radio: the shell passes at
  most four arguments and the command insists on five.\<close>

theorem nrf_addr_never_runs:
  assumes "fst (parse_arguments (Some line) None) = Some ''nrf_addr''" and "map_of locals ''nrf_addr'' = None"
  shows "radio (shell_line chprintf locals (commands H dhcp) line s) = radio s"
proof -
  obtain tokp where p: "parse_arguments (Some line) None = (Some ''nrf_addr'', tokp)"
    using assms(1) by (cases "parse_arguments (Some line) None") simp
  have no: "cmdexec l c ws t = (True, t)" if "map_of l c = None" for l :: "(string \<times> 'a shell_state command) list" and c ws t
    using that by (induction l) (auto split: if_splits)
  show ?thesis
  proof (cases "collect_args [] tokp")
    case None
    then show ?thesis by (simp add: shell_line_def p)
  next
    case (Some args)
    then have "length args \<noteq> 5" using collect_args_bound [of "[]" tokp args] by simp
    then show ?thesis using Some no [OF assms(2)]
      by (simp add: shell_line_def p commands_def cmd_nrf_addr_def)
  qed
qed

section \<open>The radio channel from the shell\<close>

lemma frequency_round_trip:
  assumes chip: "nrf_chip H cfg loaded" and h: "gs_handle r = link_handle H cb" and i: "inited (nrf r) = 1"
    and f: "f \<le> 0x7F" and set: "run_state (nrf24l01_basic_set_frequency H f) r = (0, ra)"
    and get: "run_state (nrf24l01_basic_get_frequency H) ra = ((0, out), rb)"
  shows "out = Some f"
proof -
  note B = nrf_chip.interface_bus [OF chip, of cb]
  obtain res1 n1 where s1: "run_state (set_call (Some (link_handle H cb)) (SetChannelFrequency f)) (nrf r) = (res1, n1)"
    by (metis prod.exhaust)
  have q1: "res1 = 0" "nrf ra = n1" "gs_handle ra = link_handle H cb"
    using set s1 h by (auto simp: nrf24l01_basic_set_frequency_def split: if_splits)
  note S = nrf_bus.set_call_spec [OF B s1 i]
  obtain res2 o2 n2 where s2: "run_state (get_call (Some (link_handle H cb)) (SetChannelFrequency f)) n1 = ((res2, o2), n2)"
    by (metis prod.exhaust)
  have q2: "res2 = 0" "out = o2"
    using get s2 q1 by (auto simp: nrf24l01_basic_get_frequency_def split: if_splits)
  have x: "set_in_range (SetChannelFrequency f)" using f by simp
  obtain v where "cfg (env (nrf r)) 0x05 = [v]" "cfg (env n1) 0x05 = [put_field 0x7F f v]"
    using S(4) q1(1) x by (auto simp: reg_written_def)
  then show ?thesis
    using nrf_bus.get_call_spec(3) [OF B s2 S(1) [OF x] q2(1)] get_value_put [OF x, of v] q2(2) by simp
qed

text \<open>The shell line nrf_channel with a number up to 127, followed by nrf_channel_get, prints
  the number it was given when both radio calls succeed.\<close>

theorem nrf_channel_command:
  assumes "nrf_chip H cfg loaded" and "gs_handle (radio s) = link_handle H cb" and "inited (nrf (radio s)) = 1"
    and "word_token a" and "atoi a = int n" and "n \<le> 127"
    and "run_state (nrf24l01_basic_set_frequency H (of_nat n)) (radio s) = (0, ra)"
    and "run_state (nrf24l01_basic_get_frequency H) ra = ((0, out), rb)"
    and "map_of locals ''nrf_channel'' = None" and "map_of locals ''nrf_channel_get'' = None"
    and s1_def: "s1 = shell_line chprintf locals (commands H dhcp) (join_words [''nrf_channel'', a]) s"
    and s2_def: "s2 = shell_line chprintf locals (commands H dhcp) ''nrf_channel_get'' s1"
  shows "net_console (net s2) = net_console (net s) @
      [(''nRF24L01 channel set to %d (frequency: %d MHz)'', [ANat n, ANat (2400 + n)]),
       (''Current nRF24L01 channel: %d (frequency: %d MHz)'', [ANat n, ANat (2400 + n)])] \<and>
    radio s2 = rb \<and> shell_fault s2 = shell_fault s"
proof -
  have w: "word_token ''nrf_channel''" "word_token ''nrf_channel_get''" by code_simp+
  have s1: "s1 = cmd_nrf_channel H [a] s" unfolding s1_def
    using w assms(4,9) by (intro shell_line_words) (simp_all add: commands_def)
  have s2: "s2 = cmd_nrf_channel_get H [] s1" unfolding s2_def
    using shell_line_words [of "''nrf_channel_get''" "[]" locals "commands H dhcp" "cmd_nrf_channel_get H" chprintf s1] w assms(10)
    by (simp add: commands_def)
  have n: "(of_nat n :: u8) \<le> 0x7F" "unat (of_nat n :: u8) = n"
    using assms(6) by (simp_all add: word_le_nat_alt unat_of_nat)
  have out: "out = Some (of_nat n)" by (rule frequency_round_trip [OF assms(1-3) n(1) assms(7,8)])
  have c1: "s1 = chprintf ''nRF24L01 channel set to %d (frequency: %d MHz)'' [ANat n, ANat (2400 + n)] (s\<lparr>radio := ra\<rparr>)"
    unfolding s1 using assms(5-7) by (simp add: cmd_nrf_channel_def on_radio_def nat_add_distrib)
  show ?thesis unfolding s2 using assms(8) out n(2) by (simp add: cmd_nrf_channel_get_def on_radio_def c1)
qed

text \<open>A word that is not a number is taken as channel 0.\<close>

theorem nrf_channel_takes_any_word:
  assumes "digit_in 10 (hd a) = False" and "a \<noteq> []" and "\<not> c_isspace (hd a)" and "hd a \<noteq> CHR ''-''" and "hd a \<noteq> CHR ''+''"
  shows "radio (cmd_nrf_channel H [a] s) = snd (run_state (nrf24l01_basic_set_frequency H 0) (radio s))"
proof -
  obtain c cs where a: "a = c # cs" using assms(2) by (cases a) auto
  have "atoi a = 0" using assms unfolding a by (simp add: atoi_def strtol_def strtol_sign_def strtol_base_def Let_def)
  then show ?thesis by (simp add: cmd_nrf_channel_def on_radio_def split_beta)
qed

section \<open>Completion\<close>

lemma same_first:
  assumes "take (length line) n = line" and "line \<noteq> []"
  shows "n \<noteq> [] \<and> hd n = hd line"
  using assms by (cases line; cases n) auto

lemma length_filter_mono:
  "(\<And>x. P x \<Longrightarrow> Q x) \<Longrightarrow> length (filter P xs) \<le> length (filter Q xs)"
  by (induction xs) (auto simp: le_SucI)

text \<open>Tab on an empty line stores sixteen pointers in an array of eight; on any other line they fit.\<close>

lemma completions_fit:
  assumes "length arr = SHELL_MAX_COMPLETIONS"
  shows "get_completions shell_local_names (map fst (commands H dhcp)) line arr = None \<longleftrightarrow> line = []"
proof -
  let ?names = "''help'' # shell_local_names @ map fst (commands H dhcp)"
  have names: "?names = [''help'', ''exit'', ''info'', ''echo'', ''systime'', ''mem'', ''threads'', ''nrf_channel'',
    ''nrf_channel_get'', ''nrf_addr'', ''nrf_addr_get'', ''net_config'', ''net_info'', ''udp_dest'', ''udp_dest_get'']"
    by (simp add: shell_local_names_def commands_def)
  have "length (completion_entries shell_local_names (map fst (commands H dhcp)) line) \<le> 7" if "line \<noteq> []"
  proof -
    have "length (filter (\<lambda>n. hd n = hd line) ?names) \<le> 7"
      unfolding names by (cases "hd line = CHR ''n''"; cases "hd line = CHR ''e''"; cases "hd line = CHR ''u''") auto
    moreover have "length (filter (\<lambda>n. take (length line) n = line) ?names) \<le> length (filter (\<lambda>n. hd n = hd line) ?names)"
      by (rule length_filter_mono) (use that same_first in auto)
    ultimately show ?thesis unfolding completion_entries_def by linarith
  qed
  moreover have "length (completion_entries shell_local_names (map fst (commands H dhcp)) []) = 15"
    unfolding completion_entries_def names by simp
  ultimately show ?thesis using assms by (cases "line = []") (auto simp: get_completions_def Let_def)
qed

text \<open>Completing a line with Tab writes past the eight entries of the completion array exactly
  when the line is empty.\<close>

theorem completion_overflow_iff_empty:
  assumes "length arr = SHELL_MAX_COMPLETIONS"
  shows "get_completions shell_local_names (map fst (commands H dhcp)) line arr = None \<longleftrightarrow> line = []"
  by (rule completions_fit [OF assms])

section \<open>A concrete shell\<close>

definition shell0 :: "chip shell_state" where
  "shell0 = \<lparr>radio = basic0, net = net0, has_default = True, shell_fault = False\<rparr>"

definition locals0 :: "(string \<times> chip shell_state command) list" where
  "locals0 = map (\<lambda>n. (n, \<lambda>_ s. s)) shell_local_names"

lemma locals0_free: "c \<in> set (map fst (commands H dhcp)) \<Longrightarrow> map_of locals0 c = None"
  by (auto simp: locals0_def shell_local_names_def commands_def)

theorem udp_dest_command_witness:
  "cstr (udp_dest_ip (net (shell_line chprintf locals0 (commands chip_hal no_dhcp) ''udp_dest 10.0.0.7'' shell0))) = ''10.0.0.7''"
proof -
  have c: "word_token ''10.0.0.7''" "NUL \<notin> set ''10.0.0.7''" "ip4addr_aton ''10.0.0.7'' \<noteq> None" by code_simp+
  have n: "net_ok (net shell0)" using net_ok_0 by (simp add: shell0_def)
  have l: "map_of locals0 ''udp_dest'' = None" "map_of locals0 ''udp_dest_get'' = None"
    by (simp_all add: locals0_free commands_def)
  show ?thesis
    using udp_dest_command [OF c(1,2) _ c(3) n l refl refl, of chip_hal no_dhcp] by simp
qed

theorem net_config_command_witness:
  "nif_ip_addr (thisif (lwip (net (shell_line chprintf locals0 (commands chip_hal no_dhcp)
     ''net_config 10.0.0.7 10.0.0.1 255.0.0.0'' shell0)))) = 0x0700000A"
proof -
  have c: "word_token ''10.0.0.7''" "word_token ''10.0.0.1''" "word_token ''255.0.0.0''"
    "ip4addr_aton ''10.0.0.7'' = Some 0x0700000A" "ip4addr_aton ''10.0.0.1'' = Some 0x0100000A"
    "ip4addr_aton ''255.0.0.0'' = Some 0xFF" by code_simp+
  have m: "addressMode (lwip (net shell0)) = NET_ADDRESS_STATIC" by (simp add: shell0_def net0_def)
  have l: "map_of locals0 ''net_config'' = None" by (simp add: locals0_free commands_def)
  show ?thesis
    using net_config_command [OF c m l refl, of chip_hal no_dhcp] by simp
qed

theorem nrf_addr_never_runs_witness:
  "radio (shell_line chprintf locals0 (commands chip_hal no_dhcp) ''nrf_addr 0x65 0x64 0x6F 0x4E 0x32'' shell0) = basic0"
proof -
  have p: "fst (parse_arguments (Some ''nrf_addr 0x65 0x64 0x6F 0x4E 0x32'') None) = Some ''nrf_addr''" by code_simp
  have l: "map_of locals0 ''nrf_addr'' = None" by (simp add: locals0_free commands_def)
  show ?thesis using nrf_addr_never_runs [OF p l, of chip_hal no_dhcp shell0] by (simp add: shell0_def)
qed

theorem nrf_channel_command_witness:
  "\<exists>s2. s2 = shell_line chprintf locals0 (commands chip_hal no_dhcp) ''nrf_channel_get''
       (shell_line chprintf locals0 (commands chip_hal no_dhcp) ''nrf_channel 76'' shell0) \<and>
     last (net_console (net s2)) = (''Current nRF24L01 channel: %d (frequency: %d MHz)'', [ANat 76, ANat 2476])"
proof -
  let ?set = "run_state (nrf24l01_basic_set_frequency chip_hal (of_nat 76)) (radio shell0)"
  let ?get = "run_state (nrf24l01_basic_get_frequency chip_hal) (snd ?set)"
  have z: "fst ?set = 0" "fst (fst ?get) = 0" by code_simp+
  have 1: "?set = (0, snd ?set)" and 2: "?get = ((0, snd (fst ?get)), snd ?get)" using z by (simp_all add: prod_eq_iff)
  have h: "gs_handle (radio shell0) = dev0" "inited (nrf (radio shell0)) = 1"
    by (simp_all add: shell0_def basic0_def nrf0_def)
  have w: "word_token ''76''" "atoi ''76'' = int 76" by code_simp+
  have l: "map_of locals0 ''nrf_channel'' = None" "map_of locals0 ''nrf_channel_get'' = None"
    by (simp_all add: locals0_free commands_def)
  show ?thesis
    using nrf_channel_command [OF sim.nrf_chip_axioms h w _ 1 2 l refl refl, of no_dhcp] by simp
qed

theorem nrf_channel_takes_any_word_witness:
  "radio (cmd_nrf_channel chip_hal [''abc''] shell0) = snd (run_state (nrf24l01_basic_set_frequency chip_hal 0) basic0)"
proof -
  have "digit_in 10 (hd ''abc'') = False" "\<not> c_isspace (hd ''abc'')" by code_simp+
  then show ?thesis using nrf_channel_takes_any_word [of "''abc''" chip_hal shell0] by (simp add: shell0_def)
qed

theorem completion_overflow_iff_empty_witness:
  "get_completions shell_local_names (map fst (commands chip_hal no_dhcp)) [] (replicate 8 None) = None"
  using completion_overflow_iff_empty [of "replicate 8 None" chip_hal no_dhcp "[]"] by simp

end
