(* ===== verification/App_Threads.thy ===== *)
theory App_Threads
  imports App_Shell App_Publish App_Monitor
begin

text \<open>
  The threads of \<^verbatim>\<open>src/main.c\<close> that consume controller data: one iteration of the UDP
  thread, of the radio thread and of the radio interrupt thread, with their calls of the thread
  monitor and of the event system, the interrupt service routine of the radio's IRQ line and the
  receive callback.  An iteration ends in the event wait when nothing is pending (Blocked), or runs
  to its end (Done); Fault is a memory error.
\<close>

section \<open>State and iterations\<close>

record 'e app =
  ds5 :: ds5_state
  sh :: "'e shell_state"
  mon :: monitor_state
  datagrams :: "(u32 \<times> nat \<times> u8 list) list"

datatype 'a step_result = Blocked 'a | Done 'a | Fault

abbreviation events :: "'e app \<Rightarrow> ev_mem" where "events s \<equiv> ds5_events (ds5 s)"

abbreviation set_events :: "ev_mem \<Rightarrow> 'e app \<Rightarrow> 'e app" where
  "set_events ev s \<equiv> s\<lparr>ds5 := (ds5 s)\<lparr>ds5_events := ev\<rparr>\<rparr>"

text \<open>The frame that all these threads share: mark the start, wait for the event, run the body,
  mark the end.\<close>

definition iteration ::
  "string \<Rightarrow> nat \<Rightarrow> u32 \<Rightarrow> u32 \<Rightarrow> u32 \<Rightarrow> (u32 \<Rightarrow> 'e app \<Rightarrow> 'e app option) \<Rightarrow> 'e app \<Rightarrow> 'e app step_result" where
  "iteration name tp evmask t0 t1 body s =
     (case update_thread_loop_start name t0 (mon s) of
        None \<Rightarrow> Fault
      | Some m \<Rightarrow>
          let s = s\<lparr>mon := m\<rparr> in
          (case chEvtWaitOne tp evmask (events s) of
             (None, ev) \<Rightarrow> Blocked (set_events ev s)
           | (Some evt, ev) \<Rightarrow>
               (case body evt (set_events ev s) of
                  None \<Rightarrow> Fault
                | Some s \<Rightarrow>
                    (case update_thread_loop_end name t1 (mon s) of
                       None \<Rightarrow> Fault
                     | Some m \<Rightarrow> Done (s\<lparr>mon := m\<rparr>)))))"

text \<open>The snapshot both consumers take: the first 31 bytes of the published buffer.\<close>

definition take_snapshot :: "'e app \<Rightarrow> u8 list option" where
  "take_snapshot s =
     (let idx = unat (ds5PublishedIndex (ds5 s)) in
      if idx < length (ds5Buf (ds5 s)) then
        (case convert_to_trimmed (Some (ds5Buf (ds5 s) ! idx)) (Some (replicate sizeof_PS5Data 0)) of
           Some (Some data) \<Rightarrow> Some data
         | _ \<Rightarrow> None)
      else None)"

definition udp_body :: "u32 \<Rightarrow> 'e app \<Rightarrow> 'e app option" where
  "udp_body evt s =
     (case take_snapshot s of
        None \<Rightarrow> None
      | Some data \<Rightarrow>
          (case udp_get_destination (Some (replicate 16 NUL)) 16 (net (sh s)) of
             Some (Some current_dest_ip) \<Rightarrow>
               (case ip4addr_aton (cstr current_dest_ip) of
                  None \<Rightarrow> Some s
                | Some addr \<Rightarrow> Some (s\<lparr>datagrams := datagrams s @ [(addr, JOY_STREAM_PORT, data)]\<rparr>))
           | _ \<Rightarrow> None))"

definition UdpServerThread_iteration :: "nat \<Rightarrow> u32 \<Rightarrow> u32 \<Rightarrow> 'e app \<Rightarrow> 'e app step_result" where
  "UdpServerThread_iteration tp t0 t1 = iteration ''udp_server'' tp EVT_DS5_READY t0 t1 udp_body"

definition nrf_tx_addr :: "u8 list" where
  "nrf_tx_addr = [0x65, 0x64, 0x6F, 0x4E, 0x32]"

definition nrf_tx_body :: "'e hal \<Rightarrow> u32 \<Rightarrow> 'e app \<Rightarrow> 'e app option" where
  "nrf_tx_body H evt s =
     (case take_snapshot s of
        None \<Rightarrow> None
      | Some trimmed_data \<Rightarrow>
          let (_, shell) = on_radio (nrf24l01_basic_send H (Some nrf_tx_addr) (Some trimmed_data)
                (of_nat sizeof_PS5Data) NRF24L01_BOOL_FALSE) (sh s)
          in Some (s\<lparr>sh := shell\<rparr>))"

definition NRF24TxThread_iteration :: "'e hal \<Rightarrow> nat \<Rightarrow> u32 \<Rightarrow> u32 \<Rightarrow> 'e app \<Rightarrow> 'e app step_result" where
  "NRF24TxThread_iteration H tp t0 t1 = iteration ''nrf24_tx'' tp EVT_DS5_READY t0 t1 (nrf_tx_body H)"

definition nrf_irq_body :: "'e hal \<Rightarrow> u32 \<Rightarrow> 'e app \<Rightarrow> 'e app option" where
  "nrf_irq_body H evt s =
     (if evt AND EVT_NRF24_INTERRUPT \<noteq> 0 then
        let (result, shell) = on_radio nrf24l01_interrupt_irq_handler (sh s) in
        if result \<noteq> 0 then
          Some (s\<lparr>sh := snd (on_radio
            (basic_print H ''nrf24l01: interrupt handler failed with code %d'' [result]) shell)\<rparr>)
        else Some (s\<lparr>sh := shell\<rparr>)
      else Some s)"

definition NRF24InterruptThread_iteration :: "'e hal \<Rightarrow> nat \<Rightarrow> u32 \<Rightarrow> u32 \<Rightarrow> 'e app \<Rightarrow> 'e app step_result" where
  "NRF24InterruptThread_iteration H tp t0 t1 =
     iteration ''nrf24_irq'' tp EVT_NRF24_INTERRUPT t0 t1 (nrf_irq_body H)"

text \<open>The interrupt service routine of the IRQ line.\<close>

definition nrf24l01_interface_gpio_interrupt_callback :: "'e app \<Rightarrow> 'e app option" where
  "nrf24l01_interface_gpio_interrupt_callback s =
     (case chEvtBroadcastI esNRF24Interrupt (events s) of
        Some (Some ev) \<Rightarrow> Some (set_events ev s)
      | _ \<Rightarrow> None)"

text \<open>The receive callback prints a received packet and ignores the other interrupts.\<close>

fun print_bytes :: "'e hal \<Rightarrow> u8 list \<Rightarrow> ('e nrf_state, unit) state" where
  "print_bytes H [] = ret ()"
| "print_bytes H (b # bs) = do { nrf24l01_interface_debug_print H ''0x%02X '' [b]; print_bytes H bs }"

definition interrupt_callback :: "'e hal \<Rightarrow> 'e callback" where
  "interrupt_callback H type num buf len =
     (if unat type = interrupt_val NRF24L01_INTERRUPT_RX_DR then do {
        nrf24l01_interface_debug_print H ''nrf24l01: irq receive with pipe %d with %d.'' [num, len];
        (case buf of
           Some b \<Rightarrow> if unat len \<le> length b then print_bytes H (take (unat len) b) else ub ()
         | None \<Rightarrow> if len = 0 then ret () else ub ());
        nrf24l01_interface_debug_print H ''.'' [] }
      else ret ())"

section \<open>Subscribers\<close>

text \<open>A thread that has registered for the event of new controller data.\<close>

definition subscribed :: "nat \<Rightarrow> ev_mem \<Rightarrow> bool" where
  "subscribed tp ev \<longleftrightarrow> (\<exists>xs. on_source ev esDS5Ready xs \<and> listener_mask ev tp xs AND EVT_DS5_READY \<noteq> 0)"

lemma fold_listener_mask: "listener_mask (fold (signal_listener fl) ys m) t xs = listener_mask m t xs"
  by (induction ys arbitrary: m) simp_all

lemma broadcast_subscribed:
  assumes "subscribed tp ev" and "chEvtBroadcastI esDS5Ready ev = Some (Some ev')"
  shows "subscribed tp ev'" "pending_of ev' tp AND EVT_DS5_READY \<noteq> 0"
proof -
  obtain xs where xs: "on_source ev 0 xs" "listener_mask ev tp xs AND 1 \<noteq> 0"
    using assms(1) by (auto simp: subscribed_def)
  have ev': "ev' = fold (signal_listener 0) xs ev"
    using assms(2) xs(1) broadcast_loop_chain [of ev 0 "sources ev 0" xs 0]
    by (simp add: on_source_def chEvtBroadcastI_def chEvtBroadcastFlagsI_def)
  show "subscribed tp ev'"
    unfolding subscribed_def using xs
    by (intro exI [of _ xs]) (simp add: ev' on_source_def fold_chain fold_sources fold_listener_mask)
  show "pending_of ev' tp AND 1 \<noteq> 0"
    using xs(2) by (simp add: ev' pending_of_def pending_fold and.commute [of _ 1] bit.conj_disj_distrib or_eq_0_iff)
qed

lemma publish_all_subscribed:
  assumes "ds5_ok s" and "\<forall>(report, len)\<in>set rs. unat len \<le> length report" and "subscribed tp (ds5_events s)"
    and "publish_all rs s = Some s'"
    and "accepted_count rs > 0 \<or> pending_of (ds5_events s) tp AND EVT_DS5_READY \<noteq> 0"
  shows "subscribed tp (ds5_events s') \<and> pending_of (ds5_events s') tp AND EVT_DS5_READY \<noteq> 0"
  using assms
proof (induction rs arbitrary: s)
  case Nil
  then show ?case by (simp add: accepted_count_def)
next
  case (Cons r rs)
  obtain report len where r: "r = (report, len)" by (cases r)
  have len: "unat len \<le> length report" using Cons.prems(2) r by simp
  obtain sa where sa: "hid_report_callback report len s = Some sa" "ds5_ok sa"
    "\<not> accepted report len \<Longrightarrow> sa = s"
    "accepted report len \<Longrightarrow> chEvtBroadcastI esDS5Ready (ds5_events s) = Some (Some (ds5_events sa))"
    by (rule hid_report_callback_spec [OF Cons.prems(1) len]) auto
  have rest: "publish_all rs sa = Some s'" using Cons.prems(4) r sa(1) by simp
  have "subscribed tp (ds5_events sa) \<and> (accepted_count rs > 0 \<or> pending_of (ds5_events sa) tp AND 1 \<noteq> 0)"
    using broadcast_subscribed [OF Cons.prems(3)] sa(3,4) Cons.prems(3,5) r
    by (cases "accepted report len") (auto simp: accepted_count_def)
  then show ?case using Cons.IH [OF sa(2) _ _ rest] Cons.prems(2) by auto
qed

lemma wait_ready:
  assumes "pending_of ev tp AND EVT_DS5_READY \<noteq> 0"
  shows "\<exists>ev'. chEvtWaitOne tp EVT_DS5_READY ev = (Some EVT_DS5_READY, ev') \<and>
    pending_of ev' tp AND EVT_DS5_READY = 0 \<and> sources ev' = sources ev \<and> listeners ev' = listeners ev"
proof -
  have b: "epending (threads ev tp) AND 1 = 1"
    using assms by (simp add: pending_of_def and_one_eq mod_2_eq_odd)
  show ?thesis
    by (simp add: chEvtWaitOne_def wait_take_def b Let_def pending_of_def)
      (rule bit_word_eqI, auto simp: bit_simps)
qed

section \<open>The iteration of a consumer\<close>

lemma snapshot_published:
  assumes "ds5_ok (ds5 s)"
  shows "take_snapshot s = Some (take 31 (published (ds5 s)))"
proof -
  have "unat (ds5PublishedIndex (ds5 s)) < 2" "length (ds5Buf (ds5 s)) = 2"
    using assms published_index_less [of "ds5 s"] by (auto simp: ds5_ok_def)
  moreover have "length (published (ds5 s)) = 40"
    using assms buf_length [of "ds5 s"] published_index_less [of "ds5 s"] by (simp add: published_def)
  ultimately show ?thesis
    by (simp add: take_snapshot_def convert_to_trimmed_def Let_def published_def)
qed

lemma set_events_ok:
  assumes "ds5_ok d" and "sources ev = sources (ds5_events d)" and "listeners ev = listeners (ds5_events d)"
  shows "ds5_ok (d\<lparr>ds5_events := ev\<rparr>)" "published (d\<lparr>ds5_events := ev\<rparr>) = published d"
proof -
  have "chain ev e p xs = chain (ds5_events d) e p xs" for e p xs
    by (rule chain_cong) (simp add: assms(3))
  then show "ds5_ok (d\<lparr>ds5_events := ev\<rparr>)" using assms(1,2) by (auto simp: ds5_ok_def on_source_def)
qed (simp add: published_def)

lemma udp_body_sends:
  assumes "ds5_ok (ds5 s)" and "net_ok (net (sh s))"
  shows "\<exists>addr. ip4addr_aton (cstr (udp_dest_ip (net (sh s)))) = Some addr \<and>
    udp_body evt s = Some (s\<lparr>datagrams := datagrams s @ [(addr, JOY_STREAM_PORT, take 31 (published (ds5 s)))]\<rparr>)"
proof -
  obtain b where b: "udp_get_destination (Some (replicate 16 NUL)) 16 (net (sh s)) = Some (Some b)"
    "cstr b = cstr (udp_dest_ip (net (sh s)))"
    by (rule get_destination [OF assms(2), of "replicate 16 NUL"]) simp
  obtain addr where "ip4addr_aton (cstr (udp_dest_ip (net (sh s)))) = Some addr"
    using assms(2) by (auto simp: net_ok_def)
  with b show ?thesis by (simp add: udp_body_def snapshot_published [OF assms(1)])
qed

text \<open>A blocked consumer: nothing pending, so that the iteration goes to sleep in the event wait.\<close>

lemma iteration_blocks:
  assumes "monitor_ok (mon s)" and "pending_of (events s) tp AND evmask = 0"
  shows "\<exists>s'. iteration name tp evmask t0 t1 body s = Blocked s' \<and> datagrams s' = datagrams s \<and> sh s' = sh s"
  using monitor.start [OF assms(1), of name t0] assms(2)
  by (auto simp: iteration_def chEvtWaitOne_def pending_of_def Let_def)

lemma iteration_runs:
  assumes mon: "monitor_ok (mon s)" and ok: "ds5_ok (ds5 s)" and p: "pending_of (events s) tp AND EVT_DS5_READY \<noteq> 0"
    and body: "\<And>t ev. sh t = sh s \<Longrightarrow> datagrams t = datagrams s \<Longrightarrow> monitor_ok (mon t) \<Longrightarrow> ds5_ok (ds5 t) \<Longrightarrow>
      published (ds5 t) = published (ds5 s) \<Longrightarrow>
      \<exists>t'. body ev t = Some t' \<and> mon t' = mon t \<and> ds5 t' = ds5 t \<and> P (sh t') (datagrams t')"
  shows "\<exists>s'. iteration name tp EVT_DS5_READY t0 t1 body s = Done s' \<and> monitor_ok (mon s') \<and> ds5_ok (ds5 s') \<and>
    pending_of (events s') tp AND EVT_DS5_READY = 0 \<and> P (sh s') (datagrams s')"
proof -
  obtain m where m: "update_thread_loop_start name t0 (mon s) = Some m" "monitor_ok m"
    using monitor.start [OF mon] by blast
  obtain ev where ev: "chEvtWaitOne tp 1 (events s) = (Some 1, ev)" "pending_of ev tp AND 1 = 0"
    "sources ev = sources (events s)" "listeners ev = listeners (events s)"
    using wait_ready [OF p] by blast
  let ?t = "set_events ev (s\<lparr>mon := m\<rparr>)"
  obtain t' where t': "body 1 ?t = Some t'" "mon t' = m" "ds5 t' = ds5 ?t" "P (sh t') (datagrams t')"
    using body [of ?t 1] m(2) set_events_ok [OF ok ev(3,4)] by auto
  obtain m' where m': "update_thread_loop_end name t1 m = Some m'" "monitor_ok m'"
    using monitor.finish [OF m(2)] by blast
  have "iteration name tp 1 t0 t1 body s = Done (t'\<lparr>mon := m'\<rparr>)"
    using m ev t' m' by (simp add: iteration_def Let_def)
  then show ?thesis using m' t' ev set_events_ok [OF ok ev(3,4)]
    by (intro exI [of _ "t'\<lparr>mon := m'\<rparr>"]) simp
qed

section \<open>End to end: reports to datagrams and radio packets\<close>

text \<open>C1. End to end: after any sequence of USB reports of which at least one is accepted, the next
  iteration of UdpServerThread does not block, sends exactly one datagram with the first 31
  bytes of the last accepted report to the configured address and port 12346, and the iteration
  after it blocks.\<close>

theorem reports_reach_udp:
  assumes "ds5_ok (ds5 s)" and "net_ok (net (sh s))" and "monitor_ok (mon s)" and "subscribed tp (events s)"
    and "\<forall>(report, len)\<in>set rs. unat len \<le> length report" and "accepted_count rs > 0"
  shows "\<exists>d addr s' s''. publish_all rs (ds5 s) = Some d \<and>
    ip4addr_aton (cstr (udp_dest_ip (net (sh s)))) = Some addr \<and>
    UdpServerThread_iteration tp t0 t1 (s\<lparr>ds5 := d\<rparr>) = Done s' \<and>
    datagrams s' = datagrams s @ [(addr, JOY_STREAM_PORT, take 31 (latest rs (published (ds5 s))))] \<and>
    UdpServerThread_iteration tp t2 t3 s' = Blocked s'' \<and> datagrams s'' = datagrams s'"
proof -
  obtain d where d: "publish_all rs (ds5 s) = Some d" "ds5_ok d" "published d = latest rs (published (ds5 s))"
    using publish_all_spec [OF assms(1,5)] by blast
  have p: "pending_of (events (s\<lparr>ds5 := d\<rparr>)) tp AND 1 \<noteq> 0"
    using publish_all_subscribed [OF assms(1,5,4) d(1)] assms(6) by simp
  obtain addr where a: "ip4addr_aton (cstr (udp_dest_ip (net (sh s)))) = Some addr"
    using assms(2) by (auto simp: net_ok_def)
  have "\<exists>s'. iteration ''udp_server'' tp 1 t0 t1 udp_body (s\<lparr>ds5 := d\<rparr>) = Done s' \<and> monitor_ok (mon s') \<and> ds5_ok (ds5 s') \<and>
    pending_of (events s') tp AND 1 = 0 \<and>
    datagrams s' = datagrams s @ [(addr, JOY_STREAM_PORT, take 31 (published d))]"
  proof (rule iteration_runs)
    fix t :: "'a app" and ev
    assume "sh t = sh (s\<lparr>ds5 := d\<rparr>)" "datagrams t = datagrams (s\<lparr>ds5 := d\<rparr>)" "ds5_ok (ds5 t)"
      "published (ds5 t) = published (ds5 (s\<lparr>ds5 := d\<rparr>))"
    then show "\<exists>t'. udp_body ev t = Some t' \<and> mon t' = mon t \<and> ds5 t' = ds5 t \<and>
      datagrams t' = datagrams s @ [(addr, JOY_STREAM_PORT, take 31 (published d))]"
      using udp_body_sends [of t ev] assms(2) a by auto
  qed (use assms d p in auto)
  then obtain s' where s': "UdpServerThread_iteration tp t0 t1 (s\<lparr>ds5 := d\<rparr>) = Done s'" "monitor_ok (mon s')"
    "pending_of (events s') tp AND 1 = 0"
    "datagrams s' = datagrams s @ [(addr, JOY_STREAM_PORT, take 31 (published d))]"
    by (auto simp: UdpServerThread_iteration_def)
  with iteration_blocks [OF s'(2,3), of "''udp_server''" t2 t3 udp_body] d a show ?thesis
    by (auto simp: UdpServerThread_iteration_def)
qed

text \<open>C2. End to end: after any sequence of USB reports of which at least one is accepted, the next
  iteration of NRF24TxThread runs to its end without a memory error and hands the first 31 bytes
  of the last accepted report to nrf24l01_basic_send; when that returns 0 the radio has exactly
  this payload in reversed order and its transmit address is the fixed address of the thread.\<close>

theorem reports_reach_radio:
  assumes "nrf_chip H cfg loaded" and "gs_handle (radio (sh s)) = link_handle H cb" and "inited (nrf (radio (sh s))) = 1"
    and "ds5_ok (ds5 s)" and "monitor_ok (mon s)" and "subscribed tp (events s)"
    and "\<forall>(report, len)\<in>set rs. unat len \<le> length report" and "accepted_count rs > 0"
  shows "\<exists>d s' res. publish_all rs (ds5 s) = Some d \<and>
    NRF24TxThread_iteration H tp t0 t1 (s\<lparr>ds5 := d\<rparr>) = Done s' \<and>
    run_state (nrf24l01_basic_send H (Some nrf_tx_addr) (Some (take 31 (latest rs (published (ds5 s))))) 31
      NRF24L01_BOOL_FALSE) (radio (sh s)) = (res, radio (sh s')) \<and>
    fault (nrf (radio (sh s'))) = fault (nrf (radio (sh s))) \<and> res \<in> {0, 1, 2, 3} \<and>
    (res = 0 \<longrightarrow>
       loaded (env (nrf (radio (sh s')))) = loaded (env (nrf (radio (sh s)))) @
         [(payload_cmd NRF24L01_BOOL_FALSE, rev (take 31 (latest rs (published (ds5 s)))))] \<and>
       cfg (env (nrf (radio (sh s')))) 0x10 = rev nrf_tx_addr)"
proof -
  obtain d where d: "publish_all rs (ds5 s) = Some d" "ds5_ok d" "published d = latest rs (published (ds5 s))"
    using publish_all_spec [OF assms(4,7)] by blast
  have p: "pending_of (events (s\<lparr>ds5 := d\<rparr>)) tp AND 1 \<noteq> 0"
    using publish_all_subscribed [OF assms(4,7,6) d(1)] assms(8) by simp
  let ?send = "nrf24l01_basic_send H (Some nrf_tx_addr) (Some (take 31 (published d))) 31 NRF24L01_BOOL_FALSE"
  obtain res r where run: "run_state ?send (radio (sh s)) = (res, r)" by (metis prod.exhaust)
  have l: "length (take 31 (published d)) = 31"
    using buf_length [OF d(2) published_index_less [OF d(2)]] by (simp add: published_def)
  have a: "take 5 nrf_tx_addr = nrf_tx_addr" "5 \<le> length nrf_tx_addr" by (simp_all add: nrf_tx_addr_def)
  have spec: "fault (nrf r) = fault (nrf (radio (sh s)))" "res \<in> {0, 1, 2, 3}"
    "res = 0 \<Longrightarrow> loaded (env (nrf r)) = loaded (env (nrf (radio (sh s)))) @
         [(payload_cmd NRF24L01_BOOL_FALSE, rev (take 31 (published d)))]"
    "res = 0 \<Longrightarrow> cfg (env (nrf r)) 0x10 = rev nrf_tx_addr"
    using nrf_chip.basic_send_spec [OF assms(1) run assms(2,3) a(2)] l by (auto simp: a)
  have "\<exists>s'. iteration ''nrf24_tx'' tp 1 t0 t1 (nrf_tx_body H) (s\<lparr>ds5 := d\<rparr>) = Done s' \<and> monitor_ok (mon s') \<and>
    ds5_ok (ds5 s') \<and> pending_of (events s') tp AND 1 = 0 \<and> radio (sh s') = r"
  proof (rule iteration_runs)
    fix t :: "'a app" and ev
    assume "sh t = sh (s\<lparr>ds5 := d\<rparr>)" "ds5_ok (ds5 t)" "published (ds5 t) = published (ds5 (s\<lparr>ds5 := d\<rparr>))"
    then show "\<exists>t'. nrf_tx_body H ev t = Some t' \<and> mon t' = mon t \<and> ds5 t' = ds5 t \<and> radio (sh t') = r"
      using run by (simp add: nrf_tx_body_def snapshot_published on_radio_def)
  qed (use assms d p in auto)
  then obtain s' where "NRF24TxThread_iteration H tp t0 t1 (s\<lparr>ds5 := d\<rparr>) = Done s'" "radio (sh s') = r"
    by (auto simp: NRF24TxThread_iteration_def)
  with d run spec show ?thesis by (intro exI [of _ d] exI [of _ s'] exI [of _ res]) auto
qed

section \<open>The start-up order of the radio interrupt\<close>

text \<open>The interrupt thread has the highest priority and registers first; the radio thread initialises
  the event source afterwards.  No interrupt then reaches the interrupt thread.\<close>

fun gpio_interrupts :: "nat \<Rightarrow> 'e app \<Rightarrow> 'e app option" where
  "gpio_interrupts 0 s = Some s"
| "gpio_interrupts (Suc n) s = Option.bind (nrf24l01_interface_gpio_interrupt_callback s) (gpio_interrupts n)"

lemma gpio_no_listener:
  assumes "on_source (events s) esNRF24Interrupt []"
  shows "\<exists>s'. gpio_interrupts n s = Some s' \<and> pending_of (events s') = pending_of (events s) \<and> mon s' = mon s"
  using assms
proof (induction n arbitrary: s)
  case (Suc n)
  obtain ev where ev: "chEvtBroadcastI 1 (events s) = Some (Some ev)" "on_source ev 1 []" "pending_of ev = pending_of (events s)"
    using ch_events.broadcast_delivers [OF Suc.prems] by (auto simp: fun_eq_iff)
  then have c: "nrf24l01_interface_gpio_interrupt_callback s = Some (set_events ev s)"
    by (simp add: nrf24l01_interface_gpio_interrupt_callback_def)
  show ?case using Suc.IH [of "set_events ev s"] ev c by simp
qed simp

text \<open>C15. With the start-up order of main (the interrupt thread registers on the event source
  before the radio thread initialises it), no number of radio interrupts wakes
  NRF24InterruptThread: its iteration stays blocked.\<close>

theorem irq_thread_starves:
  assumes "monitor_ok (mon s)" and "pending_of (events s) tp AND EVT_NRF24_INTERRUPT = 0"
  shows "\<exists>s1 s2. gpio_interrupts n (set_events (chEvtObjectInit esNRF24Interrupt
        (chEvtRegisterMask tp esNRF24Interrupt el EVT_NRF24_INTERRUPT (events s))) s) = Some s1 \<and>
    NRF24InterruptThread_iteration H tp t0 t1 s1 = Blocked s2"
proof -
  let ?ev = "chEvtObjectInit 1 (chEvtRegisterMask tp 1 el 2 (events s))"
  obtain s1 where s1: "gpio_interrupts n (set_events ?ev s) = Some s1"
    "pending_of (events s1) = pending_of ?ev" "mon s1 = mon s"
    using gpio_no_listener [of "set_events ?ev s" n] ch_events.init_listens by auto
  have "pending_of (events s1) tp AND 2 = 0" "monitor_ok (mon s1)"
    using s1 assms by (simp_all add: ch_events.init_pending ch_events.register_pending)
  then show ?thesis using iteration_blocks [of s1 tp 2 "''nrf24_irq''" t0 t1 "nrf_irq_body H"] s1(1)
    by (auto simp: NRF24InterruptThread_iteration_def)
qed

section \<open>A concrete application\<close>

definition app0 :: "chip app" where
  "app0 = \<lparr>ds5 = ds5_0\<lparr>ds5_events := chEvtRegisterMask 3 esDS5Ready 5 EVT_DS5_READY (chEvtObjectInit esDS5Ready ev_mem0)\<rparr>,
     sh = shell0, mon = monitors0, datagrams = []\<rparr>"

definition reports0 :: "(u8 list \<times> u16) list" where
  "reports0 = [(1 # replicate 63 7, 64), (2 # replicate 63 9, 64)]"

lemma app0_facts:
  "ds5_ok (ds5 app0)" "net_ok (net (sh app0))" "monitor_ok (mon app0)" "subscribed 3 (events app0)"
  "\<forall>(report, len)\<in>set reports0. unat len \<le> length report" "accepted_count reports0 > 0"
  "latest reports0 (published (ds5 app0)) = replicate 40 7"
proof -
  have o: "on_source (events app0) 0 [5]"
    unfolding app0_def by simp (rule ch_events.register_listens [OF ch_events.init_listens], simp)
  have f: "el_listener (listeners (events app0) 5) = 3" "el_events (listeners (events app0) 5) = 1"
    by (simp_all add: app0_def chEvtRegisterMask_def chEvtRegisterMaskWithFlagsI_def)
  show "ds5_ok (ds5 app0)" using o ds5_ok_0 by (auto simp: ds5_ok_def app0_def)
  show "subscribed 3 (events app0)" using o f by (auto simp: subscribed_def intro!: exI [of _ "[5]"])
  show "net_ok (net (sh app0))" "monitor_ok (mon app0)"
    using net_ok_0 monitors0_ok by (simp_all add: app0_def shell0_def)
  show "\<forall>(report, len)\<in>set reports0. unat len \<le> length report" "accepted_count reports0 > 0"
    by code_simp+
  have "latest reports0 b = replicate 40 7" for b by (simp add: reports0_def accepted_def byte_range_def)
  then show "latest reports0 (published (ds5 app0)) = replicate 40 7" .
qed

theorem reports_reach_udp_witness:
  "\<exists>d s'. publish_all reports0 (ds5 app0) = Some d \<and>
     UdpServerThread_iteration 3 1 2 (app0\<lparr>ds5 := d\<rparr>) = Done s' \<and>
     datagrams s' = [(0x0A00A8C0, 12346, replicate 31 7)]"
proof -
  have a: "ip4addr_aton (cstr (udp_dest_ip (net (sh app0)))) = Some 0x0A00A8C0"
    unfolding app0_def shell0_def by code_simp
  show ?thesis
    using reports_reach_udp [OF app0_facts(1-6), of 1 2 1 2] a app0_facts(7) by (auto simp: app0_def)
qed

theorem reports_reach_radio_witness:
  "\<exists>d s' res. publish_all reports0 (ds5 app0) = Some d \<and>
     NRF24TxThread_iteration chip_hal 3 1 2 (app0\<lparr>ds5 := d\<rparr>) = Done s' \<and>
     run_state (nrf24l01_basic_send chip_hal (Some nrf_tx_addr) (Some (replicate 31 7)) 31 NRF24L01_BOOL_FALSE) basic0
       = (res, radio (sh s')) \<and> \<not> fault (nrf (radio (sh s')))"
proof -
  have h: "gs_handle (radio (sh app0)) = dev0" "inited (nrf (radio (sh app0))) = 1" "radio (sh app0) = basic0"
    "fault (nrf basic0) = False"
    by (simp_all add: app0_def shell0_def basic0_def nrf0_def)
  have t: "take 31 (latest reports0 (published (ds5 app0))) = replicate 31 7" by (simp add: app0_facts(7))
  show ?thesis
    using reports_reach_radio [OF sim.nrf_chip_axioms h(1,2) app0_facts(1,3,4,5,6), of 1 2, unfolded t h(3)]
    unfolding h(4) by (elim exE conjE) (intro exI conjI; simp)
qed

theorem irq_thread_starves_witness:
  "\<exists>s1 s2. gpio_interrupts 5 (set_events (chEvtObjectInit esNRF24Interrupt
        (chEvtRegisterMask 3 esNRF24Interrupt 6 EVT_NRF24_INTERRUPT (events app0))) app0) = Some s1 \<and>
    NRF24InterruptThread_iteration chip_hal 3 1 2 s1 = Blocked s2"
proof -
  have "pending_of (events app0) 3 AND 2 = 0"
    by (simp add: app0_def pending_of_def chEvtRegisterMask_def chEvtRegisterMaskWithFlagsI_def chEvtObjectInit_def ev_mem0_def)
  then show ?thesis by (rule irq_thread_starves [OF app0_facts(3)])
qed

section \<open>The receive callback\<close>

lemma print_bytes_frame:
  assumes "nrf_chip H cfg loaded"
  shows "run_state (print_bytes H bs) s = (u, s') \<Longrightarrow> same_obs cfg loaded s s'"
proof (induction bs arbitrary: s)
  case Nil
  then show ?case by (simp add: same_obs_def)
next
  case (Cons b bs)
  obtain v t where t: "run_state (nrf24l01_interface_debug_print H ''0x%02X '' [b]) s = (v, t)" by (metis prod.exhaust)
  have "same_obs cfg loaded s t"
    using nrf_chip.printf_frame [OF assms] t by (simp add: nrf24l01_interface_debug_print_def)
  moreover have "same_obs cfg loaded t s'" using Cons t by simp
  ultimately show ?case by (rule same_obs_trans)
qed

theorem interrupt_callback_harmless:
  assumes "nrf_chip H cfg loaded" and "unat len \<le> length b"
    and "run_state (interrupt_callback H type num (Some b) len) s = (u, s')"
  shows "fault s' = fault s \<and> inited s' = inited s \<and> cfg (env s') = cfg (env s) \<and> loaded (env s') = loaded (env s)"
proof (cases "unat type = interrupt_val NRF24L01_INTERRUPT_RX_DR")
  case False
  then show ?thesis using assms(3) by (simp add: interrupt_callback_def)
next
  case True
  obtain v1 s1 where 1: "run_state (nrf24l01_interface_debug_print H ''nrf24l01: irq receive with pipe %d with %d.'' [num, len]) s = (v1, s1)"
    by (metis prod.exhaust)
  obtain v2 s2 where 2: "run_state (print_bytes H (take (unat len) b)) s1 = (v2, s2)" by (metis prod.exhaust)
  have 3: "run_state (nrf24l01_interface_debug_print H ''.'' []) s2 = (u, s')"
    using assms(2,3) True 1 2 by (simp add: interrupt_callback_def)
  have f: "same_obs cfg loaded x y" if "run_state (nrf24l01_interface_debug_print H fmt as) x = (w, y)" for fmt as x w y
    using nrf_chip.printf_frame [OF assms(1)] that by (simp add: nrf24l01_interface_debug_print_def)
  show ?thesis using f [OF 1] print_bytes_frame [OF assms(1) 2] f [OF 3] by (simp add: same_obs_def)
qed

theorem interrupt_callback_harmless_witness:
  "\<not> fault (snd (run_state (interrupt_callback chip_hal 6 1 (Some [1, 2, 3]) 2) nrf0))"
  using interrupt_callback_harmless [OF sim.nrf_chip_axioms _ run_eq [of "interrupt_callback chip_hal 6 1 (Some [1, 2, 3]) 2" nrf0]]
  by (simp add: nrf0_def)

end
