(* ===== verification/Ring_Window.thy ===== *)
theory Ring_Window
  imports Prelude
begin

text \<open>
  Circular byte regions. Two components keep their data in a region addressed modulo its
  length: the ring buffers of the debug channel and the history of the command shell. A
  \<^emph>\<open>window\<close> is what such a component means: the \<open>k\<close> cells from a position on, continued at
  the start of the region. The lemmas relate the flat copies of the C code (at most two of
  them, one before and one after the end of the region) to windows.
\<close>

definition window :: "'a list \<Rightarrow> nat \<Rightarrow> nat \<Rightarrow> 'a list" where
  "window b p k = map (\<lambda>i. b ! ((p + i) mod length b)) [0..<k]"

named_theorems window_simps \<open>rewriting of windows\<close>

lemma length_window [simp]: "length (window b p k) = k"
  by (simp add: window_def)

lemma window_0 [simp]: "window b p 0 = []"
  by (simp add: window_def)

lemma nth_window [simp]: "i < k \<Longrightarrow> window b p k ! i = b ! ((p + i) mod length b)"
  by (simp add: window_def)

lemma window_mod [window_simps]: "window b (p mod length b) k = window b p k"
  by (simp add: window_def mod_add_left_eq)

text \<open>A window is consumed from the front and extended at the back.\<close>

lemma take_window: "m \<le> k \<Longrightarrow> take m (window b p k) = window b p m"
  by (rule nth_equalityI) simp_all

lemma drop_window: "drop m (window b p k) = window b (p + m) (k - m)"
  by (rule nth_equalityI) (simp_all add: ac_simps)

lemma window_add: "window b p (j + k) = window b p j @ window b (p + j) k"
  by (rule nth_equalityI) (auto simp: nth_append add.assoc)

text \<open>A window that does not pass the end of the region is one flat piece of it.\<close>

lemma window_flat:
  assumes "p + k \<le> length b"
  shows "window b p k = take k (drop p b)"
proof (rule nth_equalityI)
  show "length (window b p k) = length (take k (drop p b))" using assms by simp
  fix i assume "i < length (window b p k)"
  then show "window b p k ! i = take k (drop p b) ! i" using assms by simp
qed

text \<open>Two positions less than one round apart are different cells.\<close>

lemma mod_shift_neq:
  fixes p i j n :: nat
  assumes "i < j" and "j < i + n"
  shows "(p + i) mod n \<noteq> (p + j) mod n"
proof
  assume "(p + i) mod n = (p + j) mod n"
  then have "n dvd (p + j) - (p + i)"
    using assms by (metis less_imp_le_nat mod_eq_dvd_iff_nat nat_add_left_cancel_le)
  then have "n dvd j - i" by simp
  moreover have "0 < j - i" "j - i < n" using assms by linarith+
  ultimately show False using nat_dvd_not_less by blast
qed

text \<open>
  A flat copy to the position right after a window extends the window, as long as the window
  and the copied bytes together do not exceed one round.
\<close>

lemma window_mem_write:
  assumes room: "k + length bs \<le> length b" and flat: "w + length bs \<le> length b"
    and w: "(p + k) mod length b = w mod length b"
  shows "window (mem_write w bs b) p (k + length bs) = window b p k @ bs"
proof (rule nth_equalityI)
  show "length (window (mem_write w bs b) p (k + length bs)) = length (window b p k @ bs)"
    by simp
  let ?n = "length b" and ?m = "mem_write w bs b"
  have len: "length ?m = ?n" using flat by simp
  fix i assume "i < length (window ?m p (k + length bs))"
  then have i: "i < k + length bs" by simp
  then have n0: "0 < ?n" using room by linarith
  have cell: "(p + (k + d)) mod ?n = w + d" if "d < length bs" for d
  proof -
    have "(p + (k + d)) mod ?n = (w + d) mod ?n"
      using w by (metis add.assoc mod_add_left_eq)
    then show ?thesis using that flat by simp
  qed
  show "window ?m p (k + length bs) ! i = (window b p k @ bs) ! i"
  proof (cases "i < k")
    case True
    have "(p + i) mod ?n \<noteq> w + d" if "d < length bs" for d
      using mod_shift_neq [of i "k + d" ?n p] cell [OF that] True room that by simp
    then have "\<not> (w \<le> (p + i) mod ?n \<and> (p + i) mod ?n < w + length bs)"
      by (metis add_less_cancel_left le_iff_add)
    then show ?thesis
      using True i len n0 flat by (auto simp: nth_append nth_mem_write)
  next
    case False
    then obtain d where d: "i = k + d" "d < length bs" using i by (metis add_less_cancel_left le_iff_add not_less)
    then show ?thesis
      using cell [OF d(2)] len n0 flat by (simp add: nth_append nth_mem_write)
  qed
qed

text \<open>A copy of nothing and a copy outside the window leave it alone.\<close>

lemma window_outside:
  assumes "k + length bs \<le> length b" and "w + length bs \<le> length b"
    and "(p + k) mod length b = w mod length b"
  shows "window (mem_write w bs b) p k = window b p k"
  using arg_cong [OF window_mem_write [OF assms], of "take k"] by (simp add: take_window)

lemma window_mem_write_two:
  assumes room: "k + length bs + length cs \<le> length b" and flat: "w + length bs = length b"
    and w: "(p + k) mod length b = w mod length b"
  shows "window (mem_write 0 cs (mem_write w bs b)) p (k + length bs + length cs) =
    window b p k @ bs @ cs"
proof -
  let ?b = "mem_write w bs b"
  have len: "length ?b = length b" using flat by simp
  have "(p + (k + length bs)) mod length b = (w + length bs) mod length b"
    using w by (metis add.assoc mod_add_left_eq)
  then have "(p + (k + length bs)) mod length ?b = 0 mod length ?b"
    using flat len by simp
  then have "window (mem_write 0 cs ?b) p (k + length bs + length cs) =
      window ?b p (k + length bs) @ cs"
    using room len by (intro window_mem_write) simp_all
  also have "window ?b p (k + length bs) = window b p k @ bs"
    using room flat w by (intro window_mem_write) simp_all
  finally show ?thesis by simp
qed

text \<open>Overwriting one cell of a window, and one outside of it.\<close>

lemma window_update:
  assumes "j < k" and "k \<le> length b"
  shows "window (b[(p + j) mod length b := x]) p k = (window b p k)[j := x]"
proof (rule nth_equalityI)
  fix i assume "i < length (window (b[(p + j) mod length b := x]) p k)"
  then have i: "i < k" by simp
  have n: "0 < length b" using assms by linarith
  have "(p + i) mod length b = (p + j) mod length b \<longleftrightarrow> i = j"
    using mod_shift_neq [of i j "length b" p] mod_shift_neq [of j i "length b" p] i assms
    by (metis add.commute linorder_neqE_nat trans_less_add2 less_le_trans)
  then show "window (b[(p + j) mod length b := x]) p k ! i = (window b p k)[j := x] ! i"
    using i n by (auto simp: nth_list_update)
qed simp

lemma window_update_outside:
  assumes "k < length b"
  shows "window (b[(p + k) mod length b := x]) p k = window b p k"
proof (rule nth_equalityI)
  fix i assume "i < length (window (b[(p + k) mod length b := x]) p k)"
  then have i: "i < k" by simp
  then have "(p + i) mod length b \<noteq> (p + k) mod length b" using assms by (intro mod_shift_neq) auto
  then show "window (b[(p + k) mod length b := x]) p k ! i = window b p k ! i"
    using i by simp
qed simp

end
