(* ===== verification/Rtt_Ring.thy ===== *)
theory Rtt_Ring
  imports Ring_Window
begin

text \<open>
  The ring buffers of the debug channel, \<^verbatim>\<open>src/RTT/SEGGER_RTT.c\<close>. A ring has one
  writer and one reader: an up ring is written by the firmware and read by the debug probe, a
  down ring the other way round. This theory models the operations on one ring with the
  32-bit unsigned arithmetic of the C code and proves that each of them implements an
  operation of a bounded first-in first-out queue of bytes.

  The build uses \<^verbatim>\<open>memcpy\<close> (\<^verbatim>\<open>SEGGER_RTT_MEMCPY_USE_BYTELOOP\<close> is 0) and
  \<^verbatim>\<open>SEGGER_RTT_UNCACHED_OFF\<close> is 0. The memory barriers order the copy before the
  update of an offset, which is the order of the definitions below.
\<close>

subsection \<open>The ring\<close>

text \<open>
  \<^verbatim>\<open>SEGGER_RTT_BUFFER_UP\<close> and \<^verbatim>\<open>SEGGER_RTT_BUFFER_DOWN\<close> have the same fields and
  differ only in which offset is volatile. \<open>pBuffer\<close> is the region the ring points to.
\<close>

record ring =
  sName :: "string option"
  pBuffer :: cptr
  SizeOfBuffer :: u32
  WrOff :: u32
  RdOff :: u32
  Flags :: u32

text \<open>The bytes of the region.\<close>

definition ring_mem :: "ring \<Rightarrow> u8 list" where
  "ring_mem r = (case pBuffer r of None \<Rightarrow> [] | Some b \<Rightarrow> b)"

text \<open>\<open>memcpy(pRing->pBuffer + off, src, n)\<close> and \<open>memcpy(dst, pRing->pBuffer + off, n)\<close>.\<close>

definition memcpy_to :: "u32 \<Rightarrow> u8 list \<Rightarrow> u32 \<Rightarrow> ring \<Rightarrow> ring" where
  "memcpy_to off src n r =
     r\<lparr>pBuffer := map_option (mem_write (unat off) (take (unat n) src)) (pBuffer r)\<rparr>"

definition memcpy_from :: "u32 \<Rightarrow> u32 \<Rightarrow> ring \<Rightarrow> u8 list" where
  "memcpy_from off n r = take (unat n) (drop (unat off) (ring_mem r))"

subsection \<open>The operations\<close>

definition WriteNoCheck :: "u8 list \<Rightarrow> u32 \<Rightarrow> ring \<Rightarrow> ring" where
  "WriteNoCheck pData NumBytes r =
     (let wr = WrOff r;
          Rem = SizeOfBuffer r - wr
      in if Rem > NumBytes then
           let r = memcpy_to wr pData NumBytes r
           in r\<lparr>WrOff := wr + NumBytes\<rparr>
         else
           let r = memcpy_to wr pData Rem r;
               NumBytesAtOnce = NumBytes - Rem;
               r = memcpy_to 0 (drop (unat Rem) pData) NumBytesAtOnce r
           in r\<lparr>WrOff := NumBytesAtOnce\<rparr>)"

definition AvailWriteSpace :: "ring \<Rightarrow> u32" where
  "AvailWriteSpace r =
     (let rd = RdOff r; wr = WrOff r
      in if rd \<le> wr then SizeOfBuffer r - 1 - wr + rd else rd - wr - 1)"

text \<open>
  One round of the loop of \<open>_WriteBlocking\<close> with \<open>wr\<close> the local write offset: what it
  copies is bounded by the free space, by the end of the region and by what is left.
\<close>

definition WriteBlocking_round :: "u8 list \<Rightarrow> u32 \<Rightarrow> u32 \<Rightarrow> ring \<Rightarrow> u32 \<times> ring" where
  "WriteBlocking_round pBuf NumBytes wr r =
     (let rd = RdOff r;
          n = (if rd > wr then rd - wr - 1 else SizeOfBuffer r - (wr - rd + 1));
          n = min n (SizeOfBuffer r - wr);
          n = min n NumBytes;
          r = memcpy_to wr pBuf n r;
          wr = wr + n;
          wr = (if wr = SizeOfBuffer r then 0 else wr)
      in (n, r\<lparr>WrOff := wr\<rparr>))"

text \<open>
  The loop repeats rounds until nothing is left. Between two rounds the reader may have moved
  the read offset: \<open>host k\<close> is what the reader does to the ring before the round \<open>k\<close>. The
  loop does not end while the ring stays full, so its result is an option.
\<close>

partial_function (option) WriteBlocking_loop ::
    "(nat \<Rightarrow> ring \<Rightarrow> ring) \<Rightarrow> nat \<Rightarrow> u8 list \<Rightarrow> u32 \<Rightarrow> u32 \<Rightarrow> u32 \<Rightarrow> ring \<Rightarrow> (u32 \<times> ring) option"
  where
  [code]: "WriteBlocking_loop host k pBuf NumBytes written wr r =
     (let (n, r) = WriteBlocking_round pBuf NumBytes wr (host k r);
          written = written + n;
          left = NumBytes - n
      in if left \<noteq> 0 then
           WriteBlocking_loop host (Suc k) (drop (unat n) pBuf) left written (WrOff r) r
         else Some (written, r))"

definition WriteBlocking ::
    "(nat \<Rightarrow> ring \<Rightarrow> ring) \<Rightarrow> u8 list \<Rightarrow> u32 \<Rightarrow> ring \<Rightarrow> (u32 \<times> ring) option" where
  "WriteBlocking host pBuf NumBytes r = WriteBlocking_loop host 0 pBuf NumBytes 0 (WrOff r) r"

text \<open>
  The body shared by \<open>SEGGER_RTT_ReadUpBufferNoLock\<close> and \<open>SEGGER_RTT_ReadNoLock\<close>: the number
  of bytes read, the bytes stored through \<open>pData\<close>, and the ring.
\<close>

definition ring_read :: "u32 \<Rightarrow> ring \<Rightarrow> u32 \<times> u8 list \<times> ring" where
  "ring_read BufferSize r =
     (let rd = RdOff r; wr = WrOff r;
          (NumBytesRead, bytes, size, rd) =
            (if rd > wr then
               let n = min (SizeOfBuffer r - rd) BufferSize;
                   bytes = memcpy_from rd n r;
                   rd = rd + n
               in (n, bytes, BufferSize - n, if rd = SizeOfBuffer r then 0 else rd)
             else (0, [], BufferSize, rd));
          n = min (wr - rd) size;
          (NumBytesRead, bytes, rd) =
            (if n > 0 then (NumBytesRead + n, bytes @ memcpy_from rd n r, rd + n)
             else (NumBytesRead, bytes, rd))
      in (NumBytesRead, bytes, if NumBytesRead \<noteq> 0 then r\<lparr>RdOff := rd\<rparr> else r))"

definition SEGGER_RTT_MODE_NO_BLOCK_SKIP :: u32 where "SEGGER_RTT_MODE_NO_BLOCK_SKIP = 0"
definition SEGGER_RTT_MODE_NO_BLOCK_TRIM :: u32 where "SEGGER_RTT_MODE_NO_BLOCK_TRIM = 1"
definition SEGGER_RTT_MODE_BLOCK_IF_FIFO_FULL :: u32 where "SEGGER_RTT_MODE_BLOCK_IF_FIFO_FULL = 2"
definition SEGGER_RTT_MODE_MASK :: u32 where "SEGGER_RTT_MODE_MASK = 3"

lemmas rtt_modes = SEGGER_RTT_MODE_NO_BLOCK_SKIP_def SEGGER_RTT_MODE_NO_BLOCK_TRIM_def
  SEGGER_RTT_MODE_BLOCK_IF_FIFO_FULL_def SEGGER_RTT_MODE_MASK_def

text \<open>
  The body shared by \<open>SEGGER_RTT_WriteNoLock\<close> and \<open>SEGGER_RTT_WriteDownBufferNoLock\<close>, by the
  mode of the ring.
\<close>

definition ring_write ::
    "(nat \<Rightarrow> ring \<Rightarrow> ring) \<Rightarrow> u8 list \<Rightarrow> u32 \<Rightarrow> ring \<Rightarrow> (u32 \<times> ring) option" where
  "ring_write host pData NumBytes r =
     (if Flags r = SEGGER_RTT_MODE_NO_BLOCK_SKIP then
        let Avail = AvailWriteSpace r
        in if Avail < NumBytes then Some (0, r)
           else Some (NumBytes, WriteNoCheck pData NumBytes r)
      else if Flags r = SEGGER_RTT_MODE_NO_BLOCK_TRIM then
        let Avail = AvailWriteSpace r;
            Status = (if Avail < NumBytes then Avail else NumBytes)
        in Some (Status, WriteNoCheck pData Status r)
      else if Flags r = SEGGER_RTT_MODE_BLOCK_IF_FIFO_FULL then
        WriteBlocking host pData NumBytes r
      else Some (0, r))"

text \<open>\<open>SEGGER_RTT_WriteSkipNoLock\<close>, the variant written for speed.\<close>

definition ring_write_skip :: "u8 list \<Rightarrow> u32 \<Rightarrow> ring \<Rightarrow> u32 \<times> ring" where
  "ring_write_skip pData NumBytes r =
     (let rd = RdOff r; wr = WrOff r
      in if rd \<le> wr then
           let Avail = SizeOfBuffer r - wr - 1
           in if Avail \<ge> NumBytes then
                let r = memcpy_to wr pData NumBytes r in (1, r\<lparr>WrOff := wr + NumBytes\<rparr>)
              else
                let Avail = Avail + rd
                in if Avail \<ge> NumBytes then
                     let Rem = SizeOfBuffer r - wr;
                         r = memcpy_to wr pData Rem r;
                         NumBytes = NumBytes - Rem;
                         r = (if NumBytes \<noteq> 0 then memcpy_to 0 (drop (unat Rem) pData) NumBytes r
                              else r)
                     in (1, r\<lparr>WrOff := NumBytes\<rparr>)
                   else (0, r)
         else
           let Avail = rd - wr - 1
           in if Avail \<ge> NumBytes then
                let r = memcpy_to wr pData NumBytes r in (1, r\<lparr>WrOff := wr + NumBytes\<rparr>)
              else (0, r))"

text \<open>The single-byte writers: \<open>SEGGER_RTT_PutCharSkipNoLock\<close> and the body of the other two.\<close>

definition ring_next :: "ring \<Rightarrow> u32" where
  "ring_next r = (let wr = WrOff r + 1 in if wr = SizeOfBuffer r then 0 else wr)"

definition ring_put :: "u8 \<Rightarrow> u32 \<Rightarrow> ring \<Rightarrow> u32 \<times> ring" where
  "ring_put c wr r =
     (if wr \<noteq> RdOff r then
        let r = memcpy_to (WrOff r) [c] 1 r in (1, r\<lparr>WrOff := wr\<rparr>)
      else (0, r))"

subsection \<open>What a ring means\<close>

text \<open>
  The type invariant of a ring: the region has the recorded size and both offsets lie in it.
  The contents are the bytes from the read offset to the write offset, around the end.
\<close>

definition ring_ok :: "ring \<Rightarrow> bool" where
  "ring_ok r \<longleftrightarrow> pBuffer r \<noteq> None \<and> length (ring_mem r) = unat (SizeOfBuffer r) \<and>
     WrOff r < SizeOfBuffer r \<and> RdOff r < SizeOfBuffer r"

definition ring_used :: "ring \<Rightarrow> nat" where
  "ring_used r = (unat (WrOff r) + unat (SizeOfBuffer r) - unat (RdOff r)) mod unat (SizeOfBuffer r)"

definition contents :: "ring \<Rightarrow> u8 list" where
  "contents r = window (ring_mem r) (unat (RdOff r)) (ring_used r)"

text \<open>One cell always stays free: a ring of \<open>n\<close> bytes holds at most \<open>n - 1\<close>.\<close>

definition capacity :: "ring \<Rightarrow> nat" where
  "capacity r = unat (SizeOfBuffer r) - 1"

lemma length_contents [simp]: "length (contents r) = ring_used r"
  by (simp add: contents_def)

lemma ring_mem_simps [simp]:
  "ring_mem (r\<lparr>WrOff := w\<rparr>) = ring_mem r" "ring_mem (r\<lparr>RdOff := w\<rparr>) = ring_mem r"
  "ring_mem (r\<lparr>Flags := w\<rparr>) = ring_mem r" "ring_mem (r\<lparr>sName := nm\<rparr>) = ring_mem r"
  by (simp_all add: ring_mem_def)

lemma memcpy_to_fields [simp]:
  "sName (memcpy_to off src n r) = sName r" "SizeOfBuffer (memcpy_to off src n r) = SizeOfBuffer r"
  "WrOff (memcpy_to off src n r) = WrOff r" "RdOff (memcpy_to off src n r) = RdOff r"
  "Flags (memcpy_to off src n r) = Flags r"
  "pBuffer (memcpy_to off src n r) = None \<longleftrightarrow> pBuffer r = None"
  by (simp_all add: memcpy_to_def)

lemma ring_mem_memcpy_to:
  "pBuffer r \<noteq> None \<Longrightarrow>
    ring_mem (memcpy_to off src n r) = mem_write (unat off) (take (unat n) src) (ring_mem r)"
  by (auto simp: memcpy_to_def ring_mem_def)

lemma memcpy_to_0: "memcpy_to off src 0 r = r"
  by (cases "pBuffer r") (simp_all add: memcpy_to_def)

text \<open>The offsets of a well-formed ring as natural numbers.\<close>

lemma ring_okD:
  assumes "ring_ok r"
  shows "pBuffer r \<noteq> None" "length (ring_mem r) = unat (SizeOfBuffer r)"
    "unat (WrOff r) < unat (SizeOfBuffer r)" "unat (RdOff r) < unat (SizeOfBuffer r)"
  using assms by (simp_all add: ring_ok_def word_less_nat_alt)

lemma ring_used_cases:
  assumes "ring_ok r"
  shows "ring_used r = (if unat (RdOff r) \<le> unat (WrOff r) then unat (WrOff r) - unat (RdOff r)
    else unat (SizeOfBuffer r) - (unat (RdOff r) - unat (WrOff r)))"
proof (cases "unat (RdOff r) \<le> unat (WrOff r)")
  case True
  then have "unat (WrOff r) + unat (SizeOfBuffer r) - unat (RdOff r) =
      unat (WrOff r) - unat (RdOff r) + unat (SizeOfBuffer r)" by simp
  then have "ring_used r = (unat (WrOff r) - unat (RdOff r)) mod unat (SizeOfBuffer r)"
    by (simp only: ring_used_def mod_add_self2)
  with True ring_okD [OF assms] show ?thesis by simp
qed (use ring_okD [OF assms] in \<open>simp add: ring_used_def\<close>)

lemma ring_used_less: "ring_ok r \<Longrightarrow> ring_used r < unat (SizeOfBuffer r)"
  using ring_okD [of r] by (simp add: ring_used_def)

lemma ring_used_capacity: "ring_ok r \<Longrightarrow> ring_used r \<le> capacity r"
  using ring_used_less [of r] by (simp add: capacity_def)

lemma ring_end_position:
  assumes "ring_ok r"
  shows "(unat (RdOff r) + ring_used r) mod unat (SizeOfBuffer r) = unat (WrOff r)"
  using ring_okD [OF assms] by (auto simp: ring_used_cases [OF assms])

text \<open>
  The contents of a ring whose write offset has moved \<open>m\<close> cells, and of one whose read offset
  has moved \<open>m\<close> cells.
\<close>

lemma ring_used_mod:
  assumes "ring_ok r" and "unat (SizeOfBuffer r') = unat (SizeOfBuffer r)"
    and "unat (RdOff r') = (unat (RdOff r) + d) mod unat (SizeOfBuffer r)"
    and "unat (WrOff r') = (unat (RdOff r) + e) mod unat (SizeOfBuffer r)"
    and "d \<le> e" and "e < d + unat (SizeOfBuffer r)"
  shows "ring_used r' = e - d"
proof -
  let ?n = "unat (SizeOfBuffer r)" and ?p = "unat (RdOff r)"
  have n: "0 < ?n" using ring_okD [OF assms(1)] by linarith
  have "((?p + e) mod ?n + ?n - (?p + d) mod ?n) mod ?n = (e - d) mod ?n"
  proof -
    have "(?p + d) mod ?n < ?n" using n by simp
    then have "int (((?p + e) mod ?n + ?n - (?p + d) mod ?n) mod ?n) =
        ((int ?p + int e) mod int ?n + int ?n - (int ?p + int d) mod int ?n) mod int ?n"
      by (simp add: zmod_int of_nat_diff)
    also have "\<dots> = ((int ?p + int e) - (int ?p + int d)) mod int ?n"
      by (metis (no_types, opaque_lifting) mod_add_self2 mod_diff_eq mod_mod_trivial)
    also have "\<dots> = int ((e - d) mod ?n)"
      using assms(5) by (simp add: zmod_int of_nat_diff)
    finally show ?thesis by linarith
  qed
  also have "\<dots> = e - d" using assms(5,6) by (simp add: less_diff_conv2)
  finally show ?thesis using assms by (simp add: ring_used_def)
qed

definition same_ring :: "ring \<Rightarrow> ring \<Rightarrow> bool" where
  "same_ring r r' \<longleftrightarrow> sName r' = sName r \<and> SizeOfBuffer r' = SizeOfBuffer r \<and> Flags r' = Flags r"

lemma same_ring_refl [simp]: "same_ring r r"
  by (simp add: same_ring_def)

lemma same_ring_trans: "same_ring r s \<Longrightarrow> same_ring s t \<Longrightarrow> same_ring r t"
  by (simp add: same_ring_def)

lemma same_ring_simps [simp]:
  "same_ring r (r'\<lparr>WrOff := w\<rparr>) = same_ring r r'" "same_ring r (r'\<lparr>RdOff := w\<rparr>) = same_ring r r'"
  "same_ring r (memcpy_to off src n r') = same_ring r r'"
  by (simp_all add: same_ring_def)

lemma same_ring_capacity: "same_ring r r' \<Longrightarrow> capacity r' = capacity r"
  by (simp add: same_ring_def capacity_def)

lemma ring_extend:
  assumes ok: "ring_ok r" and room: "ring_used r + m \<le> capacity r"
    and fields: "SizeOfBuffer r' = SizeOfBuffer r" "RdOff r' = RdOff r" "pBuffer r' \<noteq> None"
      "length (ring_mem r') = length (ring_mem r)"
    and wr: "unat (WrOff r') = (unat (WrOff r) + m) mod unat (SizeOfBuffer r)"
    and win: "window (ring_mem r') (unat (RdOff r)) (ring_used r + m) = contents r @ bs"
  shows "ring_ok r' \<and> contents r' = contents r @ bs"
proof -
  note D = ring_okD [OF ok]
  have pos: "0 < unat (SizeOfBuffer r)" using D by linarith
  have wr': "unat (WrOff r') < unat (SizeOfBuffer r)" using wr pos by simp
  then have ok': "ring_ok r'"
    using D fields by (simp add: ring_ok_def word_less_nat_alt)
  have "unat (WrOff r') = (unat (RdOff r) + (ring_used r + m)) mod unat (SizeOfBuffer r)"
    using wr ring_end_position [OF ok] by (metis add.assoc mod_add_left_eq)
  then have "ring_used r' = ring_used r + m"
    using ring_used_mod [OF ok, of r' 0 "ring_used r + m"] fields room D pos
    by (simp add: capacity_def)
  then show ?thesis using ok' win fields by (simp add: contents_def)
qed

lemma ring_advance:
  assumes ok: "ring_ok r" and m: "m \<le> ring_used r"
    and rd: "unat w = (unat (RdOff r) + m) mod unat (SizeOfBuffer r)"
  shows "ring_ok (r\<lparr>RdOff := w\<rparr>) \<and> contents (r\<lparr>RdOff := w\<rparr>) = drop m (contents r)"
proof -
  note D = ring_okD [OF ok]
  let ?r = "r\<lparr>RdOff := w\<rparr>"
  have pos: "0 < unat (SizeOfBuffer r)" using D by linarith
  have used: "ring_used ?r = ring_used r - m"
    using ring_used_mod [OF ok, of ?r m "ring_used r"] ring_end_position [OF ok] rd m
      ring_used_less [OF ok] by simp
  have "ring_ok ?r" using ok rd pos by (simp add: ring_ok_def word_less_nat_alt)
  moreover have "contents ?r = drop m (contents r)"
    using used rd window_mod [of "ring_mem r" "unat (RdOff r) + m"] D(2)
    by (simp add: contents_def drop_window)
  ultimately show ?thesis by blast
qed

text \<open>Sums and differences of offsets that do not wrap.\<close>

lemma unat_add_u32: "unat a + unat b < 2 ^ 32 \<Longrightarrow> unat (a + b :: u32) = unat a + unat b"
  using unat_add_lem [of a b] by simp

lemma unat_sub_u32: "unat b \<le> unat a \<Longrightarrow> unat (a - b :: u32) = unat a - unat b"
  by (simp add: unat_sub word_le_nat_alt)

lemma unat_less_u32: "unat (a :: u32) < 2 ^ 32"
  using unsigned_less [of a, where 'a = nat] by simp

text \<open>The free space, as a number.\<close>

lemma AvailWriteSpace_eq:
  assumes "ring_ok r"
  shows "unat (AvailWriteSpace r) = capacity r - ring_used r"
proof -
  note D = ring_okD [OF assms]
  have one: "unat (SizeOfBuffer r - 1) = unat (SizeOfBuffer r) - 1"
    using D by (intro unat_minus_one) auto
  show ?thesis
  proof (cases "RdOff r \<le> WrOff r")
    case True
    have "unat (SizeOfBuffer r - 1 - WrOff r) = unat (SizeOfBuffer r) - 1 - unat (WrOff r)"
      using D one by (subst unat_sub) (auto simp: word_le_nat_alt)
    then have "unat (SizeOfBuffer r - 1 - WrOff r + RdOff r) =
        unat (SizeOfBuffer r) - 1 - unat (WrOff r) + unat (RdOff r)"
      using True D unsigned_less [of "SizeOfBuffer r", where 'a = nat]
      by (subst unat_add_u32) (auto simp: word_le_nat_alt)
    then show ?thesis
      using True D by (simp add: AvailWriteSpace_def capacity_def ring_used_cases [OF assms] word_le_nat_alt)
  next
    case False
    then have "unat (RdOff r - WrOff r) = unat (RdOff r) - unat (WrOff r)"
      by (intro unat_sub) simp
    moreover have "RdOff r - WrOff r \<noteq> 0" using False by auto
    ultimately have "unat (RdOff r - WrOff r - 1) = unat (RdOff r) - unat (WrOff r) - 1"
      by (simp add: unat_minus_one)
    then show ?thesis
      using False D by (simp add: AvailWriteSpace_def capacity_def ring_used_cases [OF assms] word_le_nat_alt)
  qed
qed

subsection \<open>Writing\<close>

text \<open>
  The two shapes of copy the writers make: one flat copy that may end exactly at the end of
  the region, and one that fills the region to its end and continues at its start.
\<close>

lemma ring_copy_flat:
  assumes ok: "ring_ok r" and src: "unat n \<le> length src"
    and room: "ring_used r + unat n \<le> capacity r"
    and flat: "unat (WrOff r) + unat n \<le> unat (SizeOfBuffer r)"
    and w: "unat w = (unat (WrOff r) + unat n) mod unat (SizeOfBuffer r)"
    and r': "r' = (memcpy_to (WrOff r) src n r)\<lparr>WrOff := w\<rparr>"
  shows "ring_ok r' \<and> contents r' = contents r @ take (unat n) src"
proof (rule ring_extend [OF ok room])
  note D = ring_okD [OF ok]
  have "ring_used r + unat n \<le> unat (SizeOfBuffer r)" using room by (simp add: capacity_def)
  then show "window (ring_mem r') (unat (RdOff r)) (ring_used r + unat n) =
      contents r @ take (unat n) src"
    using window_mem_write [of "ring_used r" "take (unat n) src" "ring_mem r" "unat (WrOff r)"
        "unat (RdOff r)"] ring_end_position [OF ok] src flat D r'
    by (simp add: ring_mem_memcpy_to contents_def)
  show "length (ring_mem r') = length (ring_mem r)"
    using D flat src r' by (simp add: ring_mem_memcpy_to)
qed (use w r' ring_okD [OF ok] in simp_all)

lemma ring_copy_two:
  assumes ok: "ring_ok r" and src: "unat m + unat n \<le> length src"
    and room: "ring_used r + (unat m + unat n) \<le> capacity r"
    and flat: "unat (WrOff r) + unat m = unat (SizeOfBuffer r)"
    and r': "r' = (memcpy_to 0 (drop (unat m) src) n (memcpy_to (WrOff r) src m r))\<lparr>WrOff := n\<rparr>"
  shows "ring_ok r' \<and> contents r' = contents r @ take (unat m + unat n) src"
proof (rule ring_extend [OF ok room])
  note D = ring_okD [OF ok]
  let ?a = "take (unat m) src" and ?b = "take (unat n) (drop (unat m) src)"
  have split: "take (unat m + unat n) src = ?a @ ?b" by (simp add: take_add)
  have le: "ring_used r + unat m + unat n \<le> unat (SizeOfBuffer r)"
    using room by (simp add: capacity_def)
  then show "window (ring_mem r') (unat (RdOff r)) (ring_used r + (unat m + unat n)) =
      contents r @ take (unat m + unat n) src"
    using window_mem_write_two [of "ring_used r" ?a ?b "ring_mem r" "unat (WrOff r)" "unat (RdOff r)"]
      ring_end_position [OF ok] src flat D r'
    by (simp add: split ring_mem_memcpy_to contents_def add.assoc del: mem_write_0)
  show "length (ring_mem r') = length (ring_mem r)"
    using D flat src r' le by (simp add: ring_mem_memcpy_to del: mem_write_0)
  have "unat n < unat (SizeOfBuffer r)" using room D by (simp add: capacity_def)
  then show "unat (WrOff r') = (unat (WrOff r) + (unat m + unat n)) mod unat (SizeOfBuffer r)"
    using flat r' by (simp add: add.assoc [symmetric])
qed (use r' ring_okD [OF ok] in simp_all)

lemma WriteNoCheck_frame:
  "same_ring r (WriteNoCheck pData n r)" "RdOff (WriteNoCheck pData n r) = RdOff r"
  by (simp_all add: WriteNoCheck_def Let_def)

lemma WriteNoCheck_ok:
  assumes ok: "ring_ok r" and src: "unat n \<le> length pData"
    and room: "ring_used r + unat n \<le> capacity r"
  shows "ring_ok (WriteNoCheck pData n r) \<and>
    contents (WriteNoCheck pData n r) = contents r @ take (unat n) pData"
proof -
  note D = ring_okD [OF ok]
  let ?rem = "SizeOfBuffer r - WrOff r"
  have rem: "unat ?rem = unat (SizeOfBuffer r) - unat (WrOff r)" using D by (simp add: unat_sub_u32)
  show ?thesis
  proof (cases "?rem > n")
    case True
    then have flat: "unat (WrOff r) + unat n < unat (SizeOfBuffer r)"
      using rem by (simp add: word_less_nat_alt)
    then have "unat (WrOff r + n) = unat (WrOff r) + unat n"
      using unat_less_u32 [of "SizeOfBuffer r"] by (simp add: unat_add_u32)
    with flat show ?thesis
      using True ring_copy_flat [OF ok src room, of "WrOff r + n"]
      by (simp add: WriteNoCheck_def Let_def)
  next
    case False
    then have le: "unat ?rem \<le> unat n" by (simp add: word_less_nat_alt)
    then have d: "unat ?rem + unat (n - ?rem) = unat n" by (simp add: unat_sub_u32)
    show ?thesis
      using False ring_copy_two [OF ok, of ?rem "n - ?rem" pData] src room rem D d
      by (simp add: WriteNoCheck_def Let_def)
  qed
qed

text \<open>A round of the blocking writer appends what it reports.\<close>

lemma WriteBlocking_round_ok:
  assumes ok: "ring_ok r" and src: "unat N \<le> length pBuf"
    and eq: "WriteBlocking_round pBuf N (WrOff r) r = (n, r')"
  shows "ring_ok r' \<and> contents r' = contents r @ take (unat n) pBuf \<and> n \<le> N \<and>
    same_ring r r' \<and> RdOff r' = RdOff r \<and>
    (ring_used r < capacity r \<longrightarrow> N \<noteq> 0 \<longrightarrow> n \<noteq> 0)"
proof -
  note D = ring_okD [OF ok]
  let ?rem = "SizeOfBuffer r - WrOff r"
  let ?free = "if RdOff r > WrOff r then RdOff r - WrOff r - 1
    else SizeOfBuffer r - (WrOff r - RdOff r + 1)"
  have free: "?free = AvailWriteSpace r"
    by (auto simp: AvailWriteSpace_def Let_def not_less algebra_simps)
  have avail: "unat ?free = capacity r - ring_used r"
    unfolding free by (rule AvailWriteSpace_eq [OF ok])
  have rem: "unat ?rem = unat (SizeOfBuffer r) - unat (WrOff r)" using D by (simp add: unat_sub_u32)
  have n: "n = min (min ?free ?rem) N"
    and r': "r' = (memcpy_to (WrOff r) pBuf n r)\<lparr>WrOff :=
      (if WrOff r + n = SizeOfBuffer r then 0 else WrOff r + n)\<rparr>"
    using eq by (auto simp: WriteBlocking_round_def Let_def)
  have un: "unat n = min (min (unat ?free) (unat ?rem)) (unat N)"
    unfolding n by (simp add: min_def word_le_nat_alt)
  have flat: "unat (WrOff r) + unat n \<le> unat (SizeOfBuffer r)"
    using un rem D by linarith
  have room: "ring_used r + unat n \<le> capacity r"
    using un avail ring_used_capacity [OF ok] by linarith
  have src': "unat n \<le> length pBuf" using un src by linarith
  have sum: "unat (WrOff r + n) = unat (WrOff r) + unat n"
    using flat unat_less_u32 [of "SizeOfBuffer r"] by (intro unat_add_u32) linarith
  have w: "unat (if WrOff r + n = SizeOfBuffer r then 0 else WrOff r + n) =
      (unat (WrOff r) + unat n) mod unat (SizeOfBuffer r)"
    using flat sum by (auto simp: word_unat_eq_iff le_less)
  have "n \<noteq> 0" if "ring_used r < capacity r" and "N \<noteq> 0"
  proof -
    have "0 < unat N" using that(2) by (simp add: unat_gt_0)
    then have "0 < unat n" using un that avail rem D by simp
    then show ?thesis by auto
  qed
  moreover have "n \<le> N" using un by (simp add: word_le_nat_alt)
  moreover note ring_copy_flat [OF ok src' room flat w r']
  ultimately show ?thesis using r' by simp
qed

subsection \<open>The variants written for speed\<close>

text \<open>
  \<open>SEGGER_RTT_WriteSkipNoLock\<close> computes the free space piecewise and copies before it knows
  whether the copy wraps; it is the same function as the generic writer in skip mode, on the
  ring as a whole and not only on its contents.
\<close>

lemma ring_write_skip_eq:
  assumes ok: "ring_ok r"
  shows "ring_write_skip pData n r =
    (if AvailWriteSpace r < n then (0, r) else (1, WriteNoCheck pData n r))"
proof -
  note D = ring_okD [OF ok]
  let ?rem = "SizeOfBuffer r - WrOff r"
  have rem: "unat ?rem = unat (SizeOfBuffer r) - unat (WrOff r)" using D by (simp add: unat_sub_u32)
  then have rem1: "unat (?rem - 1) = unat (SizeOfBuffer r) - unat (WrOff r) - 1"
    using D by (simp add: unat_sub_u32)
  have avail: "unat (AvailWriteSpace r) = capacity r - ring_used r"
    by (rule AvailWriteSpace_eq [OF ok])
  show ?thesis
  proof (cases "RdOff r \<le> WrOff r")
    case True
    have a: "AvailWriteSpace r = ?rem - 1 + RdOff r"
      using True by (simp add: AvailWriteSpace_def Let_def)
    have le: "unat (?rem - 1) \<le> unat (AvailWriteSpace r)"
      using True rem1 avail D by (simp add: capacity_def ring_used_cases [OF ok] word_le_nat_alt)
    consider (flat) "n \<le> ?rem - 1" | (two) "\<not> n \<le> ?rem - 1" "n \<le> AvailWriteSpace r"
      | (full) "\<not> n \<le> ?rem - 1" "AvailWriteSpace r < n" by fastforce
    then show ?thesis
    proof cases
      case flat
      then have "?rem > n" "\<not> AvailWriteSpace r < n"
        using rem rem1 le D by (auto simp: word_le_nat_alt word_less_nat_alt)
      then show ?thesis
        using True flat by (simp add: ring_write_skip_def WriteNoCheck_def Let_def)
    next
      case two
      then have "\<not> ?rem > n" using rem rem1 D by (auto simp: word_le_nat_alt word_less_nat_alt)
      then show ?thesis
        using True two a by (simp add: ring_write_skip_def WriteNoCheck_def Let_def memcpy_to_0)
    next
      case full
      then show ?thesis using True a by (simp add: ring_write_skip_def Let_def)
    qed
  next
    case False
    then have a: "AvailWriteSpace r = RdOff r - WrOff r - 1"
      by (simp add: AvailWriteSpace_def Let_def)
    have lt: "unat (AvailWriteSpace r) < unat ?rem"
      using False rem avail D
      by (simp add: capacity_def ring_used_cases [OF ok] word_le_nat_alt)
    show ?thesis
    proof (cases "n \<le> AvailWriteSpace r")
      case True
      then have "?rem > n" using lt by (simp add: word_le_nat_alt word_less_nat_alt)
      then show ?thesis
        using True False a by (simp add: ring_write_skip_def WriteNoCheck_def Let_def)
    next
      case full: False
      then show ?thesis using False a by (simp add: ring_write_skip_def Let_def)
    qed
  qed
qed

lemma ring_next_unat:
  assumes "ring_ok r"
  shows "unat (ring_next r) = (unat (WrOff r) + 1) mod unat (SizeOfBuffer r)"
proof -
  note D = ring_okD [OF assms]
  have "unat (WrOff r + 1) = unat (WrOff r) + 1"
    using unat_add_u32 [of "WrOff r" 1] D unat_less_u32 [of "SizeOfBuffer r"] by simp
  then show ?thesis
    using D by (auto simp: ring_next_def Let_def word_unat_eq_iff Suc_lessI)
qed

text \<open>The next write position meets the read offset exactly when the ring is full.\<close>

lemma ring_next_full:
  assumes "ring_ok r"
  shows "ring_next r = RdOff r \<longleftrightarrow> ring_used r = capacity r"
proof -
  note D = ring_okD [OF assms]
  have "ring_next r = RdOff r \<longleftrightarrow> (unat (WrOff r) + 1) mod unat (SizeOfBuffer r) = unat (RdOff r)"
    by (simp add: word_unat_eq_iff ring_next_unat [OF assms])
  also have "\<dots> \<longleftrightarrow> ring_used r = capacity r"
  proof (cases "unat (WrOff r) + 1 = unat (SizeOfBuffer r)")
    case True
    then show ?thesis using D by (auto simp: ring_used_cases [OF assms] capacity_def)
  next
    case False
    then show ?thesis using D by (auto simp: ring_used_cases [OF assms] capacity_def)
  qed
  finally show ?thesis .
qed

lemma ring_put_eq:
  assumes ok: "ring_ok r"
  shows "ring_put c (ring_next r) r =
    (if AvailWriteSpace r < 1 then (0, r) else (1, WriteNoCheck [c] 1 r))"
proof -
  note D = ring_okD [OF ok]
  let ?rem = "SizeOfBuffer r - WrOff r"
  have rem: "unat ?rem = unat (SizeOfBuffer r) - unat (WrOff r)" using D by (simp add: unat_sub_u32)
  have full: "ring_next r = RdOff r \<longleftrightarrow> AvailWriteSpace r < 1"
    using ring_next_full [OF ok] AvailWriteSpace_eq [OF ok] ring_used_capacity [OF ok]
    by (auto simp: word_less_nat_alt)
  show ?thesis
  proof (cases "AvailWriteSpace r < 1")
    case True
    then show ?thesis using full by (simp add: ring_put_def)
  next
    case False
    have "?rem > 1 \<longleftrightarrow> WrOff r + 1 \<noteq> SizeOfBuffer r"
    proof -
      have "WrOff r + 1 = SizeOfBuffer r \<longleftrightarrow> ?rem = 1" by (auto simp: algebra_simps)
      also have "\<dots> \<longleftrightarrow> \<not> ?rem > 1"
        using rem D by (simp add: word_less_nat_alt word_unat_eq_iff) linarith
      finally show ?thesis by blast
    qed
    moreover have "?rem = 1" if "WrOff r + 1 = SizeOfBuffer r"
      using that by (simp add: algebra_simps flip: that)
    ultimately show ?thesis
      using False full
      by (auto simp: ring_put_def WriteNoCheck_def ring_next_def Let_def memcpy_to_0)
  qed
qed

subsection \<open>Reading\<close>

lemma memcpy_from_window:
  assumes "ring_ok r" and "unat p + unat n \<le> unat (SizeOfBuffer r)"
  shows "memcpy_from p n r = window (ring_mem r) (unat p) (unat n)"
  using assms ring_okD [OF assms(1)] by (simp add: memcpy_from_def window_flat)

lemma u32_min: "unat (min a b :: u32) = min (unat a) (unat b)"
  by (simp add: min_def word_le_nat_alt)

text \<open>
  The two stages of a read collapse to one description: the first bytes of the contents, as
  many as there are and as fit, and the read offset moved past them.
\<close>

lemma ring_read_plain:
  assumes ok: "ring_ok r" and m: "m = min (ring_used r) (unat k)"
    and True: "RdOff r \<le> WrOff r"
  obtains w where
    "ring_read k r = (of_nat m, take m (contents r), if m = 0 then r else r\<lparr>RdOff := w\<rparr>)"
    and "unat w = (unat (RdOff r) + m) mod unat (SizeOfBuffer r)"
proof -
  note D = ring_okD [OF ok]
  let ?n = "unat (SizeOfBuffer r)" and ?rd = "unat (RdOff r)" and ?wr = "unat (WrOff r)"
  have bytes: "take m (contents r) = window (ring_mem r) ?rd m"
    using m by (simp add: contents_def take_window)
  have le: "?rd \<le> ?wr" using True by (simp add: word_le_nat_alt)
  let ?x = "min (WrOff r - RdOff r) k"
  have x: "unat ?x = m"
    using le m by (simp add: u32_min unat_sub_u32 ring_used_cases [OF ok])
  have sum: "unat (RdOff r + ?x) = ?rd + m"
    using x m le D unat_less_u32 [of "SizeOfBuffer r"]
    by (subst unat_add_u32) (auto simp: ring_used_cases [OF ok])
  have flat: "?rd + unat ?x \<le> ?n" and lt: "?rd + m < ?n"
    using x m le D by (auto simp: ring_used_cases [OF ok])
  have "ring_read k r = (of_nat m, take m (contents r), if m = 0 then r else r\<lparr>RdOff := RdOff r + ?x\<rparr>)"
  proof (cases "m = 0")
    case m0: True
    then have "?x = 0" using x by (simp add: unat_eq_0)
    then show ?thesis
      using m0 leD [OF True] by (simp add: ring_read_def Let_def del: min_less_iff_conj)
  next
    case False
    then have x0: "?x \<noteq> 0" "?x > 0" using x by (auto simp: word_neq_0_conv [symmetric])
    have "?x = of_nat m" using x by (simp flip: x)
    then show ?thesis
      using False leD [OF True] x0 memcpy_from_window [OF ok flat] x bytes
      by (simp add: ring_read_def Let_def del: min_less_iff_conj)
  qed
  then show thesis using that [of "RdOff r + ?x"] sum lt by simp
qed

lemma ring_read_short:
  assumes ok: "ring_ok r" and m: "m = min (ring_used r) (unat k)"
    and False: "\<not> RdOff r \<le> WrOff r" and True: "k < SizeOfBuffer r - RdOff r"
  obtains w where
    "ring_read k r = (of_nat m, take m (contents r), if m = 0 then r else r\<lparr>RdOff := w\<rparr>)"
    and "unat w = (unat (RdOff r) + m) mod unat (SizeOfBuffer r)"
proof -
  note D = ring_okD [OF ok]
  let ?n = "unat (SizeOfBuffer r)" and ?rd = "unat (RdOff r)" and ?wr = "unat (WrOff r)"
  have bytes: "take m (contents r) = window (ring_mem r) ?rd m"
    using m by (simp add: contents_def take_window)
  have gt: "?wr < ?rd" using False by (simp add: word_le_nat_alt)
  let ?rem = "SizeOfBuffer r - RdOff r"
  have rem: "unat ?rem = ?n - ?rd" using D by (simp add: unat_sub_u32)
  have used: "ring_used r = unat ?rem + ?wr"
    using gt rem D by (simp add: ring_used_cases [OF ok])
  have k: "unat k < ?n - ?rd" and m': "m = unat k"
    using True rem used m by (simp_all add: word_less_nat_alt)
  have sum: "unat (RdOff r + k) = ?rd + m"
    using k m' unat_less_u32 [of "SizeOfBuffer r"] by (subst unat_add_u32) auto
  have ne: "RdOff r + k \<noteq> SizeOfBuffer r" using sum k m' by auto
  have mk: "min ?rem k = k" using True by simp
  have mc: "memcpy_from (RdOff r) k r = take m (contents r)"
    using memcpy_from_window [OF ok, of "RdOff r" k] k m' bytes by simp
  have "ring_read k r = (of_nat m, take m (contents r), if m = 0 then r else r\<lparr>RdOff := RdOff r + k\<rparr>)"
    using False mk ne mc m' by (simp add: ring_read_def Let_def unat_eq_0 not_le)
  then show thesis using that [of "RdOff r + k"] sum k m' by simp
qed

lemma ring_read_wrap:
  assumes ok: "ring_ok r" and m: "m = min (ring_used r) (unat k)"
    and False: "\<not> RdOff r \<le> WrOff r" and nlt: "\<not> k < SizeOfBuffer r - RdOff r"
  obtains w where
    "ring_read k r = (of_nat m, take m (contents r), if m = 0 then r else r\<lparr>RdOff := w\<rparr>)"
    and "unat w = (unat (RdOff r) + m) mod unat (SizeOfBuffer r)"
proof -
  note D = ring_okD [OF ok]
  let ?n = "unat (SizeOfBuffer r)" and ?rd = "unat (RdOff r)" and ?wr = "unat (WrOff r)"
  have bytes: "take m (contents r) = window (ring_mem r) ?rd m"
    using m by (simp add: contents_def take_window)
  have gt: "?wr < ?rd" using False by (simp add: word_le_nat_alt)
  let ?rem = "SizeOfBuffer r - RdOff r"
  have rem: "unat ?rem = ?n - ?rd" using D by (simp add: unat_sub_u32)
  have used: "ring_used r = unat ?rem + ?wr"
    using gt rem D by (simp add: ring_used_cases [OF ok])
  have k: "?n - ?rd \<le> unat k" using nlt rem by (simp add: word_less_nat_alt)
  let ?x = "min (WrOff r) (k - ?rem)"
  have x: "unat ?x = min ?wr (unat k - (?n - ?rd))"
    using k rem by (simp add: u32_min unat_sub_u32)
  have mx: "m = unat ?rem + unat ?x" using m used x rem k by linarith
  have mk: "min ?rem k = ?rem" using nlt by simp
  have wrap: "RdOff r + ?rem = SizeOfBuffer r" by simp
  have first: "memcpy_from (RdOff r) ?rem r = window (ring_mem r) ?rd (unat ?rem)"
    using memcpy_from_window [OF ok, of "RdOff r" ?rem] rem D by simp
  have second: "memcpy_from 0 ?x r = window (ring_mem r) (?rd + unat ?rem) (unat ?x)"
    using memcpy_from_window [OF ok, of 0 ?x] x D rem
      window_mod [of "ring_mem r" "?rd + unat ?rem" "unat ?x"] by simp
  have both: "memcpy_from (RdOff r) ?rem r @ memcpy_from 0 ?x r = take m (contents r)"
    using first second bytes mx by (simp add: window_add)
  have m0: "m \<noteq> 0" using mx rem D by simp
  have nb: "?rem + ?x = of_nat m" using mx by simp
  have nz: "?rem + ?x \<noteq> 0"
  proof -
    have "unat ?rem + unat ?x < 2 ^ 32"
      using rem x D unat_less_u32 [of "SizeOfBuffer r"] gt by linarith
    then have "unat (?rem + ?x) = m" using mx by (simp add: unat_add_u32)
    then show ?thesis using m0 by auto
  qed
  have "ring_read k r = (of_nat m, take m (contents r), if m = 0 then r else r\<lparr>RdOff := ?x\<rparr>)"
  proof (cases "?x = 0")
    case True
    then show ?thesis
      using False mk wrap first bytes mx nb nz m0
      by (simp add: ring_read_def Let_def not_le del: min_less_iff_conj)
  next
    case nx: False
    then have "?x > 0" by (simp add: word_neq_0_conv)
    then show ?thesis
      using False mk wrap both nb nz m0
      by (simp add: ring_read_def Let_def not_le del: min_less_iff_conj)
  qed
  moreover have "unat ?x = (?rd + m) mod ?n"
  proof -
    have "?rd + m = ?n + unat ?x" "unat ?x < ?n" using mx rem x D gt by linarith+
    then show ?thesis by simp
  qed
  ultimately show thesis using that [of ?x] by blast
qed

lemma ring_read_eq:
  assumes "ring_ok r" and "m = min (ring_used r) (unat k)"
  obtains w where
    "ring_read k r = (of_nat m, take m (contents r), if m = 0 then r else r\<lparr>RdOff := w\<rparr>)"
    and "unat w = (unat (RdOff r) + m) mod unat (SizeOfBuffer r)"
  using assms ring_read_plain ring_read_short ring_read_wrap by metis

lemma ring_read_ok:
  assumes ok: "ring_ok r" and eq: "ring_read k r = (nb, bytes, r')"
  shows "unat nb = min (ring_used r) (unat k) \<and> bytes = take (unat nb) (contents r) \<and>
    ring_ok r' \<and> contents r' = drop (unat nb) (contents r) \<and>
    same_ring r r' \<and> WrOff r' = WrOff r \<and> pBuffer r' = pBuffer r"
proof -
  define m where "m = min (ring_used r) (unat k)"
  obtain w where rr: "ring_read k r = (of_nat m, take m (contents r), if m = 0 then r else r\<lparr>RdOff := w\<rparr>)"
    and w: "unat w = (unat (RdOff r) + m) mod unat (SizeOfBuffer r)"
    using ring_read_eq [OF ok m_def] by metis
  have "m < 2 ^ 32" using m_def unat_less_u32 [of k] by simp
  then have "unat (of_nat m :: u32) = m" by (simp add: unat_of_nat)
  moreover have "m \<le> ring_used r" by (simp add: m_def)
  ultimately show ?thesis
    using ring_advance [OF ok _ w] rr eq ok m_def by (auto split: if_splits)
qed

end
