(* ===== verification/Rtt_Block.thy ===== *)
theory Rtt_Block
  imports Rtt_Ring
begin

text \<open>
  Rings whose reader acts while the writer waits. \<open>_WriteBlocking\<close> and the wait of
  \<open>SEGGER_RTT_PutChar\<close> end only if the debug probe reads. The probe is not part of the
  sources; what they rely on is that it behaves as \<open>SEGGER_RTT_ReadUpBufferNoLock\<close>, which
  \<^emph>\<open>does the same operation that J-Link does\<close>: it takes bytes from the front and touches
  nothing else. A reader is fair when it does not stop reading for ever.
\<close>

definition drains :: "ring \<Rightarrow> ring \<Rightarrow> bool" where
  "drains r r' \<longleftrightarrow> ring_ok r' \<and> same_ring r r' \<and> WrOff r' = WrOff r \<and>
     (\<exists>d. contents r' = drop d (contents r))"

lemma u32_sub_less:
  fixes n N :: u32
  assumes "n \<noteq> 0" and "n \<le> N"
  shows "unat (N - n) < unat N"
proof -
  have "0 < unat n" using assms(1) by (simp add: unat_gt_0)
  then show ?thesis using assms(2) by (simp add: unat_sub_u32 word_le_nat_alt)
qed

lemma drains_refl: "ring_ok r \<Longrightarrow> drains r r"
  by (auto simp: drains_def intro: exI [of _ 0])

lemma drains_trans: "drains r s \<Longrightarrow> drains s t \<Longrightarrow> drains r t"
  by (auto simp: drains_def intro: same_ring_trans)

text \<open>
  What a writer achieves while the reader works: the ring holds an end piece of its old
  contents followed by the data, that is, the reader got the rest in this order.
\<close>

definition appended :: "ring \<Rightarrow> u8 list \<Rightarrow> ring \<Rightarrow> bool" where
  "appended r bs r' \<longleftrightarrow> ring_ok r' \<and> same_ring r r' \<and> (\<exists>d. contents r' = drop d (contents r @ bs))"

lemma appendedI:
  "\<lbrakk>ring_ok r'; same_ring r r'; contents r' = drop d (contents r) @ bs\<rbrakk> \<Longrightarrow> appended r bs r'"
  by (auto simp: appended_def intro!: exI [of _ "min d (length (contents r))"] split: split_min)

lemma appended_trans:
  assumes "appended r bs s" and "appended s cs t"
  shows "appended r (bs @ cs) t"
proof -
  obtain d e where d: "contents s = drop d (contents r @ bs)" and e: "contents t = drop e (contents s @ cs)"
    using assms unfolding appended_def by blast
  let ?c = "contents r @ bs"
  have "contents t = drop (e + min d (length ?c)) (?c @ cs)"
    unfolding e d drop_drop [symmetric] by (cases "d \<le> length ?c") simp_all
  then show ?thesis
    using assms same_ring_trans by (auto simp: appended_def)
qed

lemma drains_appended: "drains r r' \<Longrightarrow> appended r [] r'"
  by (auto simp: appended_def drains_def)

text \<open>The loop, from the round \<open>k\<close> on, ends and writes all of the bytes left.\<close>

definition writes_all :: "(nat \<Rightarrow> ring \<Rightarrow> ring) \<Rightarrow> nat \<Rightarrow> u8 list \<Rightarrow> u32 \<Rightarrow> ring \<Rightarrow> bool" where
  "writes_all host k pBuf N r \<longleftrightarrow> (\<forall>written. \<exists>r'.
     WriteBlocking_loop host k pBuf N written (WrOff r) r = Some (written + N, r') \<and>
     appended r (take (unat N) pBuf) r')"

locale rtt_reader =
  fixes host :: "nat \<Rightarrow> ring \<Rightarrow> ring"
  assumes host_drains: "ring_ok r \<Longrightarrow> drains r (host k r)"
begin

lemma round_safe:
  assumes "ring_ok r" and "unat N \<le> length pBuf"
    and "WriteBlocking_round pBuf N (WrOff r) (host k r) = (n, s)"
  shows "appended r (take (unat n) pBuf) s" and "n \<le> N"
    and "ring_used (host k r) < capacity r \<Longrightarrow> N \<noteq> 0 \<Longrightarrow> n \<noteq> 0"
proof -
  have h: "drains r (host k r)" by (rule host_drains [OF assms(1)])
  then have ok: "ring_ok (host k r)" and wr: "WrOff (host k r) = WrOff r"
    and same: "same_ring r (host k r)" by (simp_all add: drains_def)
  note round = WriteBlocking_round_ok [OF ok assms(2), unfolded wr, OF assms(3)]
  from round have "appended (host k r) (take (unat n) pBuf) s"
    by (intro appendedI [of _ _ 0]) simp_all
  then show "appended r (take (unat n) pBuf) s"
    using appended_trans [OF drains_appended [OF h]] by simp
  show "n \<le> N" using round by simp
  show "ring_used (host k r) < capacity r \<Longrightarrow> N \<noteq> 0 \<Longrightarrow> n \<noteq> 0"
    using round same_ring_capacity [OF same] by simp
qed

text \<open>The loop is a round and, when something is left, the loop on the rest.\<close>

lemma loop_step:
  assumes "WriteBlocking_round pBuf N (WrOff r) (host k r) = (n, s)"
  shows "WriteBlocking_loop host k pBuf N written (WrOff r) r =
    (if N = n then Some (written + N, s)
     else WriteBlocking_loop host (Suc k) (drop (unat n) pBuf) (N - n) (written + n) (WrOff s) s)"
  by (subst WriteBlocking_loop.simps) (use assms in \<open>simp add: Let_def\<close>)

lemma writes_all_step:
  assumes ok: "ring_ok r" and src: "unat N \<le> length pBuf"
    and round: "WriteBlocking_round pBuf N (WrOff r) (host k r) = (n, s)"
    and rest: "n \<noteq> N \<Longrightarrow> writes_all host (Suc k) (drop (unat n) pBuf) (N - n) s"
  shows "writes_all host k pBuf N r"
  unfolding writes_all_def
proof
  fix written
  note safe = round_safe [OF ok src round]
  show "\<exists>r'. WriteBlocking_loop host k pBuf N written (WrOff r) r = Some (written + N, r') \<and>
      appended r (take (unat N) pBuf) r'"
  proof (cases "n = N")
    case True
    then show ?thesis using loop_step [OF round] safe by simp
  next
    case False
    from rest [OF False] obtain r' where
      r': "WriteBlocking_loop host (Suc k) (drop (unat n) pBuf) (N - n) (written + n) (WrOff s) s =
        Some (written + n + (N - n), r')"
      and app: "appended s (take (unat (N - n)) (drop (unat n) pBuf)) r'"
      unfolding writes_all_def by blast
    have "take (unat n) pBuf @ take (unat (N - n)) (drop (unat n) pBuf) = take (unat N) pBuf"
      using safe(2) by (simp add: take_add [symmetric] unat_sub word_le_nat_alt)
    with appended_trans [OF safe(1) app] have "appended r (take (unat N) pBuf) r'" by simp
    then show ?thesis using loop_step [OF round] r' False by simp
  qed
qed

text \<open>If there is room for everything, the loop ends even if the reader never reads.\<close>

lemma loop_room:
  assumes "ring_ok r" and "ring_used r + unat N \<le> capacity r" and "unat N \<le> length pBuf"
  shows "writes_all host k pBuf N r"
  using assms
proof (induction "unat N" arbitrary: k pBuf N r rule: less_induct)
  case less
  obtain n s where round: "WriteBlocking_round pBuf N (WrOff r) (host k r) = (n, s)" by fastforce
  note safe = round_safe [OF less.prems(1,3) round]
  show ?case
  proof (rule writes_all_step [OF less.prems(1,3) round])
    assume "n \<noteq> N"
    then have N: "N \<noteq> 0" using safe(2) by auto
    then have "0 < unat N" by (simp add: unat_gt_0)
    have "drains r (host k r)" by (rule host_drains [OF less.prems(1)])
    then obtain d where "contents (host k r) = drop d (contents r)" by (auto simp: drains_def)
    then have "ring_used (host k r) \<le> ring_used r" by (metis diff_le_self length_contents length_drop)
    then have "n \<noteq> 0" using safe(3) [OF _ N] \<open>0 < unat N\<close> less.prems(2) by auto
    with safe(2) have lt: "unat (N - n) < unat N" by (intro u32_sub_less)
    from safe(1) obtain e where "contents s = drop e (contents r @ take (unat n) pBuf)"
      by (auto simp: appended_def)
    then have "ring_used s \<le> ring_used r + unat n"
      by (metis (no_types, lifting) add_left_mono diff_le_self length_append length_contents length_drop
          length_take min.cobounded2 order_trans)
    moreover have "unat n \<le> unat N" using safe(2) by (simp add: word_le_nat_alt)
    ultimately show "writes_all host (Suc k) (drop (unat n) pBuf) (N - n) s"
      using less.hyps [OF lt] safe(1,2) less.prems(2,3)
      by (auto simp: appended_def same_ring_capacity unat_sub_u32)
  qed
qed

end

locale fair_reader = rtt_reader +
  assumes host_fair: "\<exists>j\<ge>k. \<forall>r. ring_ok r \<longrightarrow> 0 < capacity r \<longrightarrow> ring_used (host j r) < capacity r"
begin

text \<open>
  With a fair reader the loop ends and everything has been written. The induction is on the
  bytes left and, for rounds that find the ring full, on the rounds until the reader makes
  room.
\<close>

lemma loop_total:
  assumes "ring_ok r" and "0 < capacity r" and "unat N \<le> length pBuf"
  shows "writes_all host k pBuf N r"
  using assms
proof (induction "unat N" arbitrary: k pBuf N r rule: less_induct)
  case less
  obtain j where j: "k \<le> j"
    and fair: "\<And>r. ring_ok r \<Longrightarrow> 0 < capacity r \<Longrightarrow> ring_used (host j r) < capacity r"
    using host_fair [of k] by blast
  from j less.prems(1,2) show ?case
  proof (induction "j - k" arbitrary: k r)
    case (0 k r)
    then have [simp]: "k = j" by simp
    obtain n s where round: "WriteBlocking_round pBuf N (WrOff r) (host k r) = (n, s)" by fastforce
    note safe = round_safe [OF \<open>ring_ok r\<close> less.prems(3) round]
    show ?case
    proof (rule writes_all_step [OF \<open>ring_ok r\<close> less.prems(3) round])
      assume "n \<noteq> N"
      then have "N \<noteq> 0" using safe(2) by auto
      then have "n \<noteq> 0" using safe(3) fair 0 by simp
      with safe(2) have "unat (N - n) < unat N"
        by (intro u32_sub_less)
      then show "writes_all host (Suc k) (drop (unat n) pBuf) (N - n) s"
        using less.hyps safe(1,2) 0 less.prems(3)
        by (auto simp: appended_def same_ring_capacity unat_sub word_le_nat_alt)
    qed
  next
    case (Suc x)
    obtain n s where round: "WriteBlocking_round pBuf N (WrOff r) (host k r) = (n, s)" by fastforce
    note safe = round_safe [OF \<open>ring_ok r\<close> less.prems(3) round]
    then have s: "ring_ok s" "0 < capacity s"
      using Suc.prems by (auto simp: appended_def same_ring_capacity)
    show ?case
    proof (rule writes_all_step [OF \<open>ring_ok r\<close> less.prems(3) round])
      assume "n \<noteq> N"
      show "writes_all host (Suc k) (drop (unat n) pBuf) (N - n) s"
      proof (cases "n = 0")
        case True
        then show ?thesis using Suc.hyps(1) [of "Suc k" s] Suc.hyps(2) s by simp
      next
        case False
        with safe(2) have "unat (N - n) < unat N"
          by (intro u32_sub_less)
        then show ?thesis
          using less.hyps s safe(2) less.prems(3) by (auto simp: unat_sub word_le_nat_alt)
      qed
    qed
  qed
qed

end

subsection \<open>The probe\<close>

text \<open>
  A probe that reads up to \<open>quota k\<close> bytes before the round \<open>k\<close>, with the read operation of the
  sources. It is a reader; it is fair when it asks for bytes again and again.
\<close>

definition probe :: "(nat \<Rightarrow> u32) \<Rightarrow> nat \<Rightarrow> ring \<Rightarrow> ring" where
  "probe quota k r = snd (snd (ring_read (quota k) r))"

lemma probe_drains:
  assumes "ring_ok r"
  shows "drains r (probe quota k r)"
proof -
  obtain nb bytes r' where eq: "ring_read (quota k) r = (nb, bytes, r')" by (metis prod.exhaust)
  with ring_read_ok [OF assms eq] show ?thesis by (auto simp: probe_def drains_def)
qed

lemma probe_makes_room:
  assumes "ring_ok r" and "quota k \<noteq> 0" and "0 < capacity r"
  shows "ring_used (probe quota k r) < capacity r"
proof -
  obtain nb bytes r' where eq: "ring_read (quota k) r = (nb, bytes, r')" by (metis prod.exhaust)
  note R = ring_read_ok [OF assms(1) eq]
  then have "length (contents r') = ring_used r - min (ring_used r) (unat (quota k))" by simp
  moreover have "0 < unat (quota k)" using assms(2) by (simp add: unat_gt_0)
  ultimately show ?thesis
    using eq assms(3) ring_used_capacity [OF assms(1)] by (auto simp: probe_def)
qed

interpretation probe: rtt_reader "probe quota" for quota
  by unfold_locales (rule probe_drains)

lemma fair_probe:
  assumes "\<And>k. \<exists>j\<ge>k. quota j \<noteq> 0"
  shows "fair_reader (probe quota)"
proof
  fix k
  obtain j where "j \<ge> k" "quota j \<noteq> 0" using assms by blast
  then show "\<exists>j\<ge>k. \<forall>r. ring_ok r \<longrightarrow> 0 < capacity r \<longrightarrow> ring_used (probe quota j r) < capacity r"
    using probe_makes_room by blast
qed

text \<open>
  The blocking loop together with what the probe gets: the same rounds, with the bytes that the probe
  reads before each of them collected in \<open>seen\<close>.
\<close>

partial_function (option) watched_loop ::
    "(nat \<Rightarrow> u32) \<Rightarrow> nat \<Rightarrow> u8 list \<Rightarrow> u8 list \<Rightarrow> u32 \<Rightarrow> u32 \<Rightarrow> ring \<Rightarrow> (u32 \<times> u8 list \<times> ring) option" where
  [code]: "watched_loop quota k seen pBuf NumBytes written r =
     (let (_, bytes, s) = ring_read (quota k) r;
          (n, t) = WriteBlocking_round pBuf NumBytes (WrOff r) s
      in if NumBytes - n \<noteq> 0 then
           watched_loop quota (Suc k) (seen @ bytes) (drop (unat n) pBuf) (NumBytes - n) (written + n) t
         else Some (written + n, seen @ bytes, t))"

definition watched_write :: "(nat \<Rightarrow> u32) \<Rightarrow> u8 list \<Rightarrow> u32 \<Rightarrow> ring \<Rightarrow> (u32 \<times> u8 list \<times> ring) option" where
  "watched_write quota pBuf NumBytes r = watched_loop quota 0 [] pBuf NumBytes 0 r"

lemma watched_loop_bytes:
  assumes "WriteBlocking_loop (probe quota) k pBuf N written (WrOff r) r = Some (st, r')" and "ring_ok r" and "unat N \<le> length pBuf"
  shows "\<exists>got. watched_loop quota k seen pBuf N written r = Some (st, seen @ got, r') \<and> got @ contents r' = contents r @ take (unat N) pBuf"
proof -
  let ?P = "\<lambda>h k pBuf N written wr r y. h = probe quota \<longrightarrow> wr = WrOff r \<longrightarrow> ring_ok r \<longrightarrow> unat N \<le> length pBuf \<longrightarrow>
      (\<forall>seen. \<exists>got. watched_loop quota k seen pBuf N written r = Some (fst y, seen @ got, snd y) \<and> got @ contents (snd y) = contents r @ take (unat N) pBuf)"
  have "?P (probe quota) k pBuf N written (WrOff r) r (st, r')"
  proof (rule WriteBlocking_loop.raw_induct [of ?P, OF _ assms(1)], intro impI allI)
    fix f h k pBuf N written wr r y seen
    assume IH: "\<And>h k pBuf N written wr r y. f h k pBuf N written wr r = Some y \<Longrightarrow> ?P h k pBuf N written wr r y"
      and body: "(let (n, r) = WriteBlocking_round pBuf N wr (h k r); written = written + n;
          left = N - n in if left \<noteq> 0 then f h (Suc k) (drop (unat n) pBuf) left written (WrOff r) r
          else Some (written, r)) = Some y"
      and [simp]: "h = probe quota" "wr = WrOff r" and ok: "ring_ok r" and src: "unat N \<le> length pBuf"
    obtain nb bytes s where rd: "ring_read (quota k) r = (nb, bytes, s)" by (metis prod.exhaust)
    have pr: "probe quota k r = s" by (simp add: probe_def rd)
    note R = ring_read_ok [OF ok rd]
    then have bytes: "bytes @ contents s = contents r" and s: "ring_ok s" "WrOff s = WrOff r" by simp_all
    obtain n t where round: "WriteBlocking_round pBuf N (WrOff r) s = (n, t)" by fastforce
    note W = WriteBlocking_round_ok [OF s(1) src, unfolded s(2), OF round]
    have N: "take (unat n) pBuf @ take (unat (N - n)) (drop (unat n) pBuf) = take (unat N) pBuf" "unat (N - n) \<le> length (drop (unat n) pBuf)"
      using W src by (simp_all add: take_add [symmetric] unat_sub word_le_nat_alt)
    have step: "watched_loop quota k seen pBuf N written r =
        (if N - n \<noteq> 0 then watched_loop quota (Suc k) (seen @ bytes) (drop (unat n) pBuf) (N - n) (written + n) t
         else Some (written + n, seen @ bytes, t))"
      by (subst watched_loop.simps) (simp add: rd round)
    show "\<exists>got. watched_loop quota k seen pBuf N written r = Some (fst y, seen @ got, snd y) \<and>
        got @ contents (snd y) = contents r @ take (unat N) pBuf"
    proof (cases "N - n = 0")
      case True
      then have "n = N" by simp
      then have "y = (written + n, t)" using body pr round by simp
      then show ?thesis using step True \<open>n = N\<close> W bytes by (intro exI [of _ bytes]) simp
    next
      case False
      then have "f (probe quota) (Suc k) (drop (unat n) pBuf) (N - n) (written + n) (WrOff t) t = Some y"
        using body pr round by simp
      from IH [OF this] W N(2) obtain got where
        got: "watched_loop quota (Suc k) (seen @ bytes) (drop (unat n) pBuf) (N - n) (written + n) t = Some (fst y, (seen @ bytes) @ got, snd y)"
          "got @ contents (snd y) = contents t @ take (unat (N - n)) (drop (unat n) pBuf)" by blast
      then have "(bytes @ got) @ contents (snd y) = contents r @ take (unat N) pBuf"
        using W bytes N(1) by (metis append.assoc)
      then show ?thesis using step False got(1) by (intro exI [of _ "bytes @ got"]) simp
    qed
  qed
  then show ?thesis using assms(2,3) by simp
qed

text \<open>The probe that polls for up to sixteen bytes every time.\<close>

interpretation polling: fair_reader "probe (\<lambda>_. 16)"
  by (rule fair_probe) auto

end
