(* ===== verification/Rtt_Api.thy ===== *)
theory Rtt_Api
  imports Rtt_Block
begin

text \<open>
  The control block of the debug channel and the functions the firmware calls,
  \<^verbatim>\<open>src/RTT/SEGGER_RTT.c\<close>. \<open>SEGGER_RTT_LOCK\<close> and \<open>SEGGER_RTT_UNLOCK\<close> mask interrupts
  around the body of a function, so that a function runs as one step for every other user on
  the target; they keep no state that is visible here. The debug probe is not masked: the
  functions that wait for it take its actions as an argument (see \<open>Rtt_Block\<close>), and
  \<open>Rtt_Spsc\<close> lets it act inside the others too.

  A buffer index beyond the arrays is an invalid access in C; the definitions that do not
  check their index use \<open>!\<close>, which says nothing about it, and the theorems require an index
  in range.
\<close>

subsection \<open>The control block\<close>

definition SEGGER_RTT_MAX_NUM_UP_BUFFERS :: nat where "SEGGER_RTT_MAX_NUM_UP_BUFFERS = 3"
definition SEGGER_RTT_MAX_NUM_DOWN_BUFFERS :: nat where "SEGGER_RTT_MAX_NUM_DOWN_BUFFERS = 3"
definition BUFFER_SIZE_UP :: nat where "BUFFER_SIZE_UP = 1024"
definition BUFFER_SIZE_DOWN :: nat where "BUFFER_SIZE_DOWN = 16"
definition SEGGER_RTT_MODE_DEFAULT :: u32 where
  "SEGGER_RTT_MODE_DEFAULT = SEGGER_RTT_MODE_NO_BLOCK_SKIP"

lemmas rtt_consts = SEGGER_RTT_MAX_NUM_UP_BUFFERS_def SEGGER_RTT_MAX_NUM_DOWN_BUFFERS_def
  BUFFER_SIZE_UP_def BUFFER_SIZE_DOWN_def SEGGER_RTT_MODE_DEFAULT_def

record rtt =
  acID :: "u8 list"
  MaxNumUpBuffers :: int
  MaxNumDownBuffers :: int
  aUp :: "ring list"
  aDown :: "ring list"
  ActiveTerminal :: u8

definition bytes_of :: "string \<Rightarrow> u8 list" where
  "bytes_of s = map of_char s"

definition zero_ring :: ring where
  "zero_ring = \<lparr>sName = None, pBuffer = None, SizeOfBuffer = 0, WrOff = 0, RdOff = 0, Flags = 0\<rparr>"

text \<open>The control block as the start-up code leaves it, all zero.\<close>

definition rtt_bss :: rtt where
  "rtt_bss = \<lparr>acID = replicate 16 0, MaxNumUpBuffers = 0, MaxNumDownBuffers = 0,
     aUp = replicate SEGGER_RTT_MAX_NUM_UP_BUFFERS zero_ring,
     aDown = replicate SEGGER_RTT_MAX_NUM_DOWN_BUFFERS zero_ring, ActiveTerminal = 0\<rparr>"

text \<open>
  The static arrays \<open>_acUpBuffer\<close> and \<open>_acDownBuffer\<close> are only ever reached through buffer 0,
  which points to them from the first initialisation on; before that they are zero.
\<close>

definition static_buffer :: "nat \<Rightarrow> ring list \<Rightarrow> u8 list" where
  "static_buffer n rs = (case pBuffer (rs ! 0) of Some b \<Rightarrow> b | None \<Rightarrow> replicate n 0)"

definition aInitStr :: "u8 list" where
  "aInitStr = [0, 0, 0, 0, 0, 0] @ bytes_of ''TTR REGGES''"

definition set_id :: "u8 list \<Rightarrow> u8 list" where
  "set_id a = foldl (\<lambda>a i. a[i := aInitStr ! (length aInitStr - 1 - i)]) a [0..<length aInitStr]"

definition DoInit :: "rtt \<Rightarrow> rtt" where
  "DoInit p =
     (let up = static_buffer BUFFER_SIZE_UP (aUp p);
          down = static_buffer BUFFER_SIZE_DOWN (aDown p);
          p = rtt_bss\<lparr>ActiveTerminal := ActiveTerminal p\<rparr>;
          p = p\<lparr>MaxNumUpBuffers := int SEGGER_RTT_MAX_NUM_UP_BUFFERS,
                MaxNumDownBuffers := int SEGGER_RTT_MAX_NUM_DOWN_BUFFERS\<rparr>;
          p = p\<lparr>aUp := (aUp p)[0 := \<lparr>sName = Some ''Terminal'', pBuffer = Some up,
                 SizeOfBuffer = of_nat BUFFER_SIZE_UP, WrOff = 0, RdOff = 0,
                 Flags = SEGGER_RTT_MODE_DEFAULT\<rparr>]\<rparr>;
          p = p\<lparr>aDown := (aDown p)[0 := \<lparr>sName = Some ''Terminal'', pBuffer = Some down,
                 SizeOfBuffer = of_nat BUFFER_SIZE_DOWN, WrOff = 0, RdOff = 0,
                 Flags = SEGGER_RTT_MODE_DEFAULT\<rparr>]\<rparr>
      in p\<lparr>acID := set_id (acID p)\<rparr>)"

definition INIT :: "rtt \<Rightarrow> rtt" where
  "INIT p = (if acID p ! 0 \<noteq> of_char (CHR ''S'') then DoInit p else p)"

definition SEGGER_RTT_Init :: "rtt \<Rightarrow> rtt" where
  "SEGGER_RTT_Init p = DoInit p"

abbreviation set_up :: "nat \<Rightarrow> ring \<Rightarrow> rtt \<Rightarrow> rtt" where
  "set_up i r p \<equiv> p\<lparr>aUp := (aUp p)[i := r]\<rparr>"

abbreviation set_down :: "nat \<Rightarrow> ring \<Rightarrow> rtt \<Rightarrow> rtt" where
  "set_down i r p \<equiv> p\<lparr>aDown := (aDown p)[i := r]\<rparr>"

subsection \<open>Reading\<close>

definition SEGGER_RTT_ReadUpBufferNoLock :: "nat \<Rightarrow> u32 \<Rightarrow> rtt \<Rightarrow> u32 \<times> u8 list \<times> rtt" where
  "SEGGER_RTT_ReadUpBufferNoLock i BufferSize p =
     (let p = INIT p; (n, bytes, r) = ring_read BufferSize (aUp p ! i)
      in (n, bytes, set_up i r p))"

definition SEGGER_RTT_ReadNoLock :: "nat \<Rightarrow> u32 \<Rightarrow> rtt \<Rightarrow> u32 \<times> u8 list \<times> rtt" where
  "SEGGER_RTT_ReadNoLock i BufferSize p =
     (let p = INIT p; (n, bytes, r) = ring_read BufferSize (aDown p ! i)
      in (n, bytes, set_down i r p))"

definition SEGGER_RTT_ReadUpBuffer :: "nat \<Rightarrow> u32 \<Rightarrow> rtt \<Rightarrow> u32 \<times> u8 list \<times> rtt" where
  "SEGGER_RTT_ReadUpBuffer i BufferSize p = SEGGER_RTT_ReadUpBufferNoLock i BufferSize p"

definition SEGGER_RTT_Read :: "nat \<Rightarrow> u32 \<Rightarrow> rtt \<Rightarrow> u32 \<times> u8 list \<times> rtt" where
  "SEGGER_RTT_Read i BufferSize p = SEGGER_RTT_ReadNoLock i BufferSize p"

subsection \<open>Writing\<close>

definition SEGGER_RTT_WriteSkipNoLock :: "nat \<Rightarrow> u8 list \<Rightarrow> u32 \<Rightarrow> rtt \<Rightarrow> u32 \<times> rtt" where
  "SEGGER_RTT_WriteSkipNoLock i pBuf NumBytes p =
     (let (st, r) = ring_write_skip pBuf NumBytes (aUp p ! i) in (st, set_up i r p))"

definition SEGGER_RTT_WriteDownBufferNoLock ::
    "(nat \<Rightarrow> ring \<Rightarrow> ring) \<Rightarrow> nat \<Rightarrow> u8 list \<Rightarrow> u32 \<Rightarrow> rtt \<Rightarrow> (u32 \<times> rtt) option" where
  "SEGGER_RTT_WriteDownBufferNoLock host i pBuf NumBytes p =
     map_option (\<lambda>(st, r). (st, set_down i r p)) (ring_write host pBuf NumBytes (aDown p ! i))"

definition SEGGER_RTT_WriteNoLock ::
    "(nat \<Rightarrow> ring \<Rightarrow> ring) \<Rightarrow> nat \<Rightarrow> u8 list \<Rightarrow> u32 \<Rightarrow> rtt \<Rightarrow> (u32 \<times> rtt) option" where
  "SEGGER_RTT_WriteNoLock host i pBuf NumBytes p =
     map_option (\<lambda>(st, r). (st, set_up i r p)) (ring_write host pBuf NumBytes (aUp p ! i))"

definition SEGGER_RTT_WriteDownBuffer ::
    "(nat \<Rightarrow> ring \<Rightarrow> ring) \<Rightarrow> nat \<Rightarrow> u8 list \<Rightarrow> u32 \<Rightarrow> rtt \<Rightarrow> (u32 \<times> rtt) option" where
  "SEGGER_RTT_WriteDownBuffer host i pBuf NumBytes p =
     SEGGER_RTT_WriteDownBufferNoLock host i pBuf NumBytes (INIT p)"

definition SEGGER_RTT_Write ::
    "(nat \<Rightarrow> ring \<Rightarrow> ring) \<Rightarrow> nat \<Rightarrow> u8 list \<Rightarrow> u32 \<Rightarrow> rtt \<Rightarrow> (u32 \<times> rtt) option" where
  "SEGGER_RTT_Write host i pBuf NumBytes p =
     SEGGER_RTT_WriteNoLock host i pBuf NumBytes (INIT p)"

text \<open>\<open>STRLEN\<close> of a string stops at its terminating zero byte.\<close>

definition SEGGER_RTT_WriteString ::
    "(nat \<Rightarrow> ring \<Rightarrow> ring) \<Rightarrow> nat \<Rightarrow> u8 list \<Rightarrow> rtt \<Rightarrow> (u32 \<times> rtt) option" where
  "SEGGER_RTT_WriteString host i s p =
     (let Len = of_nat (length (takeWhile (\<lambda>c. c \<noteq> 0) s))
      in SEGGER_RTT_Write host i s Len p)"

definition SEGGER_RTT_PutCharSkipNoLock :: "nat \<Rightarrow> u8 \<Rightarrow> rtt \<Rightarrow> u32 \<times> rtt" where
  "SEGGER_RTT_PutCharSkipNoLock i c p =
     (let r = aUp p ! i; wr = ring_next r; (st, r) = ring_put c wr r in (st, set_up i r p))"

definition SEGGER_RTT_PutCharSkip :: "nat \<Rightarrow> u8 \<Rightarrow> rtt \<Rightarrow> u32 \<times> rtt" where
  "SEGGER_RTT_PutCharSkip i c p =
     (let p = INIT p; r = aUp p ! i; wr = ring_next r; (st, r) = ring_put c wr r
      in (st, set_up i r p))"

text \<open>\<open>while (WrOff == pRing->RdOff) ;\<close> with the actions of the reader between two looks.\<close>

partial_function (option) wait_room ::
    "(nat \<Rightarrow> ring \<Rightarrow> ring) \<Rightarrow> nat \<Rightarrow> u32 \<Rightarrow> ring \<Rightarrow> ring option" where
  [code]: "wait_room host k wr r =
     (let r = host k r in if wr = RdOff r then wait_room host (Suc k) wr r else Some r)"

definition SEGGER_RTT_PutChar ::
    "(nat \<Rightarrow> ring \<Rightarrow> ring) \<Rightarrow> nat \<Rightarrow> u8 \<Rightarrow> rtt \<Rightarrow> (u32 \<times> rtt) option" where
  "SEGGER_RTT_PutChar host i c p =
     (let p = INIT p; r = aUp p ! i; wr = ring_next r;
          waited = (if Flags r = SEGGER_RTT_MODE_BLOCK_IF_FIFO_FULL then wait_room host 0 wr r
                    else Some r)
      in case waited of None \<Rightarrow> None
         | Some r \<Rightarrow> (let (st, r) = ring_put c wr r in Some (st, set_up i r p)))"

subsection \<open>Writing with overwrite\<close>

text \<open>\<open>while (pRing->RdOff >= pRing->SizeOfBuffer) pRing->RdOff -= pRing->SizeOfBuffer;\<close>\<close>

partial_function (option) wrap_rd :: "u32 \<Rightarrow> u32 \<Rightarrow> u32 option" where
  [code]: "wrap_rd n rd = (if rd \<ge> n then wrap_rd n (rd - n) else Some rd)"

definition overwrite_avail :: "ring \<Rightarrow> u32" where
  "overwrite_avail r =
     (if WrOff r = RdOff r then SizeOfBuffer r - 1
      else if WrOff r < RdOff r then RdOff r - WrOff r - 1
      else RdOff r - WrOff r - 1 + SizeOfBuffer r)"

definition overwrite_room :: "u32 \<Rightarrow> ring \<Rightarrow> ring option" where
  "overwrite_room NumBytes r =
     (let Avail = overwrite_avail r
      in if NumBytes > Avail then
           map_option (\<lambda>rd. r\<lparr>RdOff := rd\<rparr>) (wrap_rd (SizeOfBuffer r) (RdOff r + (NumBytes - Avail)))
         else Some r)"

text \<open>The \<open>do ... while (NumBytes)\<close> loop; its first branch leaves it with \<open>break\<close>.\<close>

partial_function (option) overwrite_loop :: "u8 list \<Rightarrow> u32 \<Rightarrow> u32 \<Rightarrow> ring \<Rightarrow> ring option" where
  [code]: "overwrite_loop pData NumBytes Avail r =
     (if Avail > NumBytes then
        let r = memcpy_to (WrOff r) pData NumBytes r in Some (r\<lparr>WrOff := WrOff r + NumBytes\<rparr>)
      else
        let r = memcpy_to (WrOff r) pData Avail r;
            pData = drop (unat Avail) pData;
            r = r\<lparr>WrOff := 0\<rparr>;
            NumBytes = NumBytes - Avail;
            Avail = SizeOfBuffer r - 1
        in if NumBytes \<noteq> 0 then overwrite_loop pData NumBytes Avail r else Some r)"

definition ring_overwrite :: "u8 list \<Rightarrow> u32 \<Rightarrow> ring \<Rightarrow> ring option" where
  "ring_overwrite pData NumBytes r =
     (case overwrite_room NumBytes r of None \<Rightarrow> None
      | Some r \<Rightarrow> overwrite_loop pData NumBytes (SizeOfBuffer r - WrOff r) r)"

definition SEGGER_RTT_WriteWithOverwriteNoLock :: "nat \<Rightarrow> u8 list \<Rightarrow> u32 \<Rightarrow> rtt \<Rightarrow> rtt option" where
  "SEGGER_RTT_WriteWithOverwriteNoLock i pBuf NumBytes p =
     map_option (\<lambda>r. set_up i r p) (ring_overwrite pBuf NumBytes (aUp p ! i))"

subsection \<open>Keys\<close>

definition SEGGER_RTT_GetKey :: "rtt \<Rightarrow> int \<times> rtt" where
  "SEGGER_RTT_GetKey p =
     (let (n, bytes, p) = SEGGER_RTT_Read 0 1 p
      in if n = 1 then (uint (bytes ! 0), p) else (- 1, p))"

text \<open>The loop of \<open>SEGGER_RTT_WaitKey\<close>; \<open>host k\<close> acts on the control block before the try \<open>k\<close>.\<close>

partial_function (option) WaitKey_loop :: "(nat \<Rightarrow> rtt \<Rightarrow> rtt) \<Rightarrow> nat \<Rightarrow> rtt \<Rightarrow> (int \<times> rtt) option"
  where
  [code]: "WaitKey_loop host k p =
     (let (r, p) = SEGGER_RTT_GetKey (host k p)
      in if r < 0 then WaitKey_loop host (Suc k) p else Some (r, p))"

definition SEGGER_RTT_WaitKey :: "(nat \<Rightarrow> rtt \<Rightarrow> rtt) \<Rightarrow> rtt \<Rightarrow> (int \<times> rtt) option" where
  "SEGGER_RTT_WaitKey host p = WaitKey_loop host 0 p"

definition SEGGER_RTT_HasKey :: "rtt \<Rightarrow> int \<times> rtt" where
  "SEGGER_RTT_HasKey p =
     (let p = INIT p; r = aDown p ! 0 in (if RdOff r \<noteq> WrOff r then 1 else 0, p))"

definition SEGGER_RTT_HasData :: "nat \<Rightarrow> rtt \<Rightarrow> u32" where
  "SEGGER_RTT_HasData i p = (let r = aDown p ! i in WrOff r - RdOff r)"

definition SEGGER_RTT_HasDataUp :: "nat \<Rightarrow> rtt \<Rightarrow> u32" where
  "SEGGER_RTT_HasDataUp i p = (let r = aUp p ! i in WrOff r - RdOff r)"

subsection \<open>Configuration at run time\<close>

text \<open>
  \<open>do { if (a[i].pBuffer == NULL) break; i++; } while (i < max);\<close> started at \<open>i\<close>.
\<close>

function find_free :: "int \<Rightarrow> ring list \<Rightarrow> nat \<Rightarrow> nat" where
  "find_free limit rs i =
     (if pBuffer (rs ! i) = None then i
      else if int (Suc i) < limit then find_free limit rs (Suc i) else Suc i)"
  by auto
termination by (relation "measure (\<lambda>(limit, rs, i). nat (limit - int i))") auto

declare find_free.simps [simp del]

definition SEGGER_RTT_AllocDownBuffer ::
    "string option \<Rightarrow> cptr \<Rightarrow> u32 \<Rightarrow> u32 \<Rightarrow> rtt \<Rightarrow> int \<times> rtt" where
  "SEGGER_RTT_AllocDownBuffer nm buf BufferSize flags p =
     (let p = INIT p; i = find_free (MaxNumDownBuffers p) (aDown p) 0
      in if int i < MaxNumDownBuffers p then
           (int i, set_down i \<lparr>sName = nm, pBuffer = buf, SizeOfBuffer = BufferSize,
              WrOff = 0, RdOff = 0, Flags = flags\<rparr> p)
         else (- 1, p))"

definition SEGGER_RTT_AllocUpBuffer ::
    "string option \<Rightarrow> cptr \<Rightarrow> u32 \<Rightarrow> u32 \<Rightarrow> rtt \<Rightarrow> int \<times> rtt" where
  "SEGGER_RTT_AllocUpBuffer nm buf BufferSize flags p =
     (let p = INIT p; i = find_free (MaxNumUpBuffers p) (aUp p) 0
      in if int i < MaxNumUpBuffers p then
           (int i, set_up i \<lparr>sName = nm, pBuffer = buf, SizeOfBuffer = BufferSize,
              WrOff = 0, RdOff = 0, Flags = flags\<rparr> p)
         else (- 1, p))"

definition config_ring :: "nat \<Rightarrow> string option \<Rightarrow> cptr \<Rightarrow> u32 \<Rightarrow> u32 \<Rightarrow> ring \<Rightarrow> ring" where
  "config_ring i nm buf BufferSize flags r =
     (let r = (if i \<noteq> 0 then r\<lparr>sName := nm, pBuffer := buf, SizeOfBuffer := BufferSize,
                 RdOff := 0, WrOff := 0\<rparr> else r)
      in r\<lparr>Flags := flags\<rparr>)"

definition SEGGER_RTT_ConfigUpBuffer ::
    "nat \<Rightarrow> string option \<Rightarrow> cptr \<Rightarrow> u32 \<Rightarrow> u32 \<Rightarrow> rtt \<Rightarrow> int \<times> rtt" where
  "SEGGER_RTT_ConfigUpBuffer i nm buf BufferSize flags p =
     (let p = INIT p
      in if i < SEGGER_RTT_MAX_NUM_UP_BUFFERS then
           (0, set_up i (config_ring i nm buf BufferSize flags (aUp p ! i)) p)
         else (- 1, p))"

definition SEGGER_RTT_ConfigDownBuffer ::
    "nat \<Rightarrow> string option \<Rightarrow> cptr \<Rightarrow> u32 \<Rightarrow> u32 \<Rightarrow> rtt \<Rightarrow> int \<times> rtt" where
  "SEGGER_RTT_ConfigDownBuffer i nm buf BufferSize flags p =
     (let p = INIT p
      in if i < SEGGER_RTT_MAX_NUM_DOWN_BUFFERS then
           (0, set_down i (config_ring i nm buf BufferSize flags (aDown p ! i)) p)
         else (- 1, p))"

definition SEGGER_RTT_SetNameUpBuffer :: "nat \<Rightarrow> string option \<Rightarrow> rtt \<Rightarrow> int \<times> rtt" where
  "SEGGER_RTT_SetNameUpBuffer i nm p =
     (let p = INIT p
      in if i < SEGGER_RTT_MAX_NUM_UP_BUFFERS then (0, set_up i ((aUp p ! i)\<lparr>sName := nm\<rparr>) p)
         else (- 1, p))"

definition SEGGER_RTT_SetNameDownBuffer :: "nat \<Rightarrow> string option \<Rightarrow> rtt \<Rightarrow> int \<times> rtt" where
  "SEGGER_RTT_SetNameDownBuffer i nm p =
     (let p = INIT p
      in if i < SEGGER_RTT_MAX_NUM_DOWN_BUFFERS then (0, set_down i ((aDown p ! i)\<lparr>sName := nm\<rparr>) p)
         else (- 1, p))"

definition SEGGER_RTT_SetFlagsUpBuffer :: "nat \<Rightarrow> u32 \<Rightarrow> rtt \<Rightarrow> int \<times> rtt" where
  "SEGGER_RTT_SetFlagsUpBuffer i flags p =
     (let p = INIT p
      in if i < SEGGER_RTT_MAX_NUM_UP_BUFFERS then (0, set_up i ((aUp p ! i)\<lparr>Flags := flags\<rparr>) p)
         else (- 1, p))"

definition SEGGER_RTT_SetFlagsDownBuffer :: "nat \<Rightarrow> u32 \<Rightarrow> rtt \<Rightarrow> int \<times> rtt" where
  "SEGGER_RTT_SetFlagsDownBuffer i flags p =
     (let p = INIT p
      in if i < SEGGER_RTT_MAX_NUM_DOWN_BUFFERS then (0, set_down i ((aDown p ! i)\<lparr>Flags := flags\<rparr>) p)
         else (- 1, p))"

subsection \<open>Terminals\<close>

definition aTerminalId :: "u8 list" where
  "aTerminalId = bytes_of ''0123456789ABCDEF''"

definition terminal_switch :: "u8 \<Rightarrow> u8 list" where
  "terminal_switch TerminalId = [0xFF, aTerminalId ! unat TerminalId]"

definition PostTerminalSwitch :: "(nat \<Rightarrow> ring \<Rightarrow> ring) \<Rightarrow> u8 \<Rightarrow> ring \<Rightarrow> ring option" where
  "PostTerminalSwitch host TerminalId r =
     map_option snd (WriteBlocking host (terminal_switch TerminalId) 2 r)"

definition SEGGER_RTT_SetTerminal :: "(nat \<Rightarrow> ring \<Rightarrow> ring) \<Rightarrow> u8 \<Rightarrow> rtt \<Rightarrow> (int \<times> rtt) option" where
  "SEGGER_RTT_SetTerminal host TerminalId p =
     (let p = INIT p
      in if unat TerminalId < length aTerminalId then
           let ac = terminal_switch TerminalId; r = aUp p ! 0
           in if Flags r AND SEGGER_RTT_MODE_MASK = SEGGER_RTT_MODE_BLOCK_IF_FIFO_FULL then
                let p = p\<lparr>ActiveTerminal := TerminalId\<rparr>
                in map_option (\<lambda>(n, r). (0, set_up 0 r p)) (WriteBlocking host ac 2 r)
              else if AvailWriteSpace r \<ge> 2 then
                let p = p\<lparr>ActiveTerminal := TerminalId\<rparr>
                in Some (0, set_up 0 (WriteNoCheck ac 2 r) p)
              else Some (- 1, p)
         else Some (- 1, p))"

text \<open>
  Switch, write, switch back: the three calls of each branch of \<open>SEGGER_RTT_TerminalOut\<close>.
  \<open>host c\<close> is the reader during the call \<open>c\<close>.
\<close>

definition switched_write ::
    "(nat \<Rightarrow> nat \<Rightarrow> ring \<Rightarrow> ring) \<Rightarrow> u8 \<Rightarrow> u8 list \<Rightarrow> u32 \<Rightarrow> u8 \<Rightarrow> ring \<Rightarrow> (u32 \<times> ring) option" where
  "switched_write host TerminalId s n active r =
     (case PostTerminalSwitch (host 0) TerminalId r of None \<Rightarrow> None
      | Some r \<Rightarrow> (case WriteBlocking (host 1) s n r of None \<Rightarrow> None
      | Some (Status, r) \<Rightarrow> (case PostTerminalSwitch (host 2) active r of None \<Rightarrow> None
      | Some r \<Rightarrow> Some (Status, r))))"

definition SEGGER_RTT_TerminalOut ::
    "(nat \<Rightarrow> nat \<Rightarrow> ring \<Rightarrow> ring) \<Rightarrow> u8 \<Rightarrow> u8 list \<Rightarrow> rtt \<Rightarrow> (int \<times> rtt) option" where
  "SEGGER_RTT_TerminalOut host TerminalId s p =
     (let p = INIT p
      in if unat TerminalId < length aTerminalId then
           let r = aUp p ! 0;
               FragLen = of_nat (length (takeWhile (\<lambda>c. c \<noteq> 0) s)) :: u32;
               Avail = AvailWriteSpace r;
               mode = Flags r AND SEGGER_RTT_MODE_MASK;
               send = (\<lambda>n. map_option (\<lambda>(st, r). (sint st, set_up 0 r p))
                             (switched_write host TerminalId s n (ActiveTerminal p) r))
           in if mode = SEGGER_RTT_MODE_NO_BLOCK_SKIP then
                (if Avail < FragLen + 4 then Some (0, p) else send FragLen)
              else if mode = SEGGER_RTT_MODE_NO_BLOCK_TRIM then
                (if Avail < 4 then Some (- 1, p)
                 else send (if FragLen < Avail - 4 then FragLen else Avail - 4))
              else if mode = SEGGER_RTT_MODE_BLOCK_IF_FIFO_FULL then send FragLen
              else Some (- 1, p)
         else Some (- 1, p))"

subsection \<open>Fill levels\<close>

definition SEGGER_RTT_GetAvailWriteSpace :: "nat \<Rightarrow> rtt \<Rightarrow> u32" where
  "SEGGER_RTT_GetAvailWriteSpace i p = AvailWriteSpace (aUp p ! i)"

definition SEGGER_RTT_GetBytesInBuffer :: "nat \<Rightarrow> rtt \<Rightarrow> u32" where
  "SEGGER_RTT_GetBytesInBuffer i p =
     (let r = aUp p ! i; rd = RdOff r; wr = WrOff r
      in if rd \<le> wr then wr - rd else SizeOfBuffer r - (wr - rd))"

end
