(* ===== verification/Rtt_Wf.thy ===== *)
theory Rtt_Wf
  imports Rtt_Api
begin

text \<open>
  The control block stays well-formed. A well-formed control block is either still zero, or
  initialised with every configured ring satisfying \<open>ring_ok\<close>; every function of the API, with
  arguments that respect its contract, keeps it so, whatever the probe does in between.
\<close>

subsection \<open>Writers that return\<close>

lemma WriteNoCheck_appended:
  assumes "ring_ok r" and "unat n \<le> length bs" and "n \<le> AvailWriteSpace r"
  shows "appended r (take (unat n) bs) (WriteNoCheck bs n r)"
proof -
  have "ring_used r + unat n \<le> capacity r"
    using assms AvailWriteSpace_eq [OF assms(1)] ring_used_capacity [OF assms(1)]
    by (simp add: word_le_nat_alt)
  then show ?thesis
    using WriteNoCheck_ok [OF assms(1,2)] WriteNoCheck_frame by (intro appendedI [of _ _ 0]) simp_all
qed

context rtt_reader
begin

lemma loop_partial:
  assumes "WriteBlocking_loop host k pBuf N written (WrOff r) r = Some (st, r')"
    and "ring_ok r" and "unat N \<le> length pBuf"
  shows "st = written + N \<and> appended r (take (unat N) pBuf) r'"
proof -
  let ?P = "\<lambda>h (k :: nat) pBuf N written wr r y. h = host \<longrightarrow> wr = WrOff r \<longrightarrow> ring_ok r \<longrightarrow>
      unat N \<le> length pBuf \<longrightarrow> fst y = written + N \<and> appended r (take (unat N) pBuf) (snd y)"
  have "?P host k pBuf N written (WrOff r) r (st, r')"
  proof (rule WriteBlocking_loop.raw_induct [of ?P, OF _ assms(1)], intro impI)
    fix f h k pBuf N written wr r y
    assume IH: "\<And>h k pBuf N written wr r y. f h k pBuf N written wr r = Some y \<Longrightarrow>
        ?P h k pBuf N written wr r y"
      and body: "(let (n, r) = WriteBlocking_round pBuf N wr (h k r); written = written + n;
          left = N - n in if left \<noteq> 0 then f h (Suc k) (drop (unat n) pBuf) left written (WrOff r) r
          else Some (written, r)) = Some y"
      and [simp]: "h = host" "wr = WrOff r" and ok: "ring_ok r" and src: "unat N \<le> length pBuf"
    obtain n s where round: "WriteBlocking_round pBuf N (WrOff r) (host k r) = (n, s)" by fastforce
    note safe = round_safe [OF ok src round]
    show "fst y = written + N \<and> appended r (take (unat N) pBuf) (snd y)"
    proof (cases "n = N")
      case True
      then show ?thesis using body round safe by auto
    next
      case False
      have "f host (Suc k) (drop (unat n) pBuf) (N - n) (written + n) (WrOff s) s = Some y"
        using body round False by simp
      moreover have "unat (N - n) \<le> length (drop (unat n) pBuf)"
        using src safe(2) by (simp add: unat_sub word_le_nat_alt)
      moreover have "ring_ok s" using safe(1) by (simp add: appended_def)
      ultimately have "fst y = written + N"
        and "appended s (take (unat (N - n)) (drop (unat n) pBuf)) (snd y)"
        using IH by fastforce+
      moreover have "take (unat n) pBuf @ take (unat (N - n)) (drop (unat n) pBuf) = take (unat N) pBuf"
        using safe(2) by (simp add: take_add [symmetric] unat_sub word_le_nat_alt)
      ultimately show ?thesis using appended_trans [OF safe(1)] by metis
    qed
  qed
  then show ?thesis using assms by simp
qed

lemma write_blocking_partial:
  assumes "WriteBlocking host pBuf N r = Some (st, r')" and "ring_ok r" and "unat N \<le> length pBuf"
  shows "st = N \<and> appended r (take (unat N) pBuf) r'"
  using loop_partial assms unfolding WriteBlocking_def by fastforce

text \<open>In every mode a write that returns has appended as many bytes as it reports.\<close>

lemma ring_write_appends:
  assumes eq: "ring_write host pBuf N r = Some (st, r')" and ok: "ring_ok r"
    and src: "unat N \<le> length pBuf"
  shows "st \<le> N \<and> appended r (take (unat st) pBuf) r'"
proof -
  have full: "appended r (take (unat m) pBuf) (WriteNoCheck pBuf m r)"
    if "m \<le> N" "m \<le> AvailWriteSpace r" for m
    using that src by (intro WriteNoCheck_appended [OF ok]) (simp_all add: word_le_nat_alt)
  have none: "appended r [] r" using ok by (intro appendedI [of _ _ 0]) simp_all
  consider "Flags r = SEGGER_RTT_MODE_NO_BLOCK_SKIP" | "Flags r = SEGGER_RTT_MODE_NO_BLOCK_TRIM"
    | "Flags r = SEGGER_RTT_MODE_BLOCK_IF_FIFO_FULL"
    | "Flags r \<noteq> SEGGER_RTT_MODE_NO_BLOCK_SKIP" "Flags r \<noteq> SEGGER_RTT_MODE_NO_BLOCK_TRIM"
      "Flags r \<noteq> SEGGER_RTT_MODE_BLOCK_IF_FIFO_FULL" by blast
  then show ?thesis
  proof cases
    case 1
    show ?thesis
    proof (cases "AvailWriteSpace r < N")
      case True
      with 1 eq have "st = 0" "r' = r" by (simp_all add: ring_write_def)
      then show ?thesis using none by simp
    next
      case False
      with 1 show ?thesis using eq full [of N] by (auto simp: ring_write_def)
    qed
  next
    case 2
    then have "st = (if AvailWriteSpace r < N then AvailWriteSpace r else N)"
      and r': "r' = WriteNoCheck pBuf st r"
      using eq by (auto simp: ring_write_def rtt_modes Let_def)
    then have "st \<le> N" "st \<le> AvailWriteSpace r" by (auto simp: not_less)
    then show ?thesis using full [of st] r' by simp
  next
    case 3
    then show ?thesis
      using write_blocking_partial [OF _ ok src] eq by (simp add: ring_write_def rtt_modes)
  next
    case 4
    then show ?thesis using eq none by (simp add: ring_write_def)
  qed
qed

end

subsection \<open>The invariant\<close>

definition rtt_ready :: "rtt \<Rightarrow> bool" where
  "rtt_ready p \<longleftrightarrow> acID p ! 0 = of_char (CHR ''S'') \<and>
     MaxNumUpBuffers p = int SEGGER_RTT_MAX_NUM_UP_BUFFERS \<and>
     MaxNumDownBuffers p = int SEGGER_RTT_MAX_NUM_DOWN_BUFFERS \<and>
     length (aUp p) = SEGGER_RTT_MAX_NUM_UP_BUFFERS \<and>
     length (aDown p) = SEGGER_RTT_MAX_NUM_DOWN_BUFFERS \<and>
     (\<forall>r\<in>set (aUp p). pBuffer r = None \<or> ring_ok r) \<and>
     (\<forall>r\<in>set (aDown p). pBuffer r = None \<or> ring_ok r) \<and>
     pBuffer (aUp p ! 0) \<noteq> None \<and> SizeOfBuffer (aUp p ! 0) = of_nat BUFFER_SIZE_UP \<and>
     pBuffer (aDown p ! 0) \<noteq> None \<and> SizeOfBuffer (aDown p ! 0) = of_nat BUFFER_SIZE_DOWN \<and>
     unat (ActiveTerminal p) < 16"

definition rtt_wf :: "rtt \<Rightarrow> bool" where
  "rtt_wf p \<longleftrightarrow> p = rtt_bss \<or> rtt_ready p"

text \<open>The rings in use, by index.\<close>

definition up_ring :: "nat \<Rightarrow> rtt \<Rightarrow> bool" where
  "up_ring i p \<longleftrightarrow> i < SEGGER_RTT_MAX_NUM_UP_BUFFERS \<and> pBuffer (aUp p ! i) \<noteq> None"

definition down_ring :: "nat \<Rightarrow> rtt \<Rightarrow> bool" where
  "down_ring i p \<longleftrightarrow> i < SEGGER_RTT_MAX_NUM_DOWN_BUFFERS \<and> pBuffer (aDown p ! i) \<noteq> None"

lemma up_ring_ok: "rtt_ready p \<Longrightarrow> up_ring i p \<Longrightarrow> ring_ok (aUp p ! i)"
  unfolding rtt_ready_def up_ring_def by (metis nth_mem)

lemma down_ring_ok: "rtt_ready p \<Longrightarrow> down_ring i p \<Longrightarrow> ring_ok (aDown p ! i)"
  unfolding rtt_ready_def down_ring_def by (metis nth_mem)

lemma ready_rings_0 [simp]: "rtt_ready p \<Longrightarrow> up_ring 0 p" "rtt_ready p \<Longrightarrow> down_ring 0 p"
  by (simp_all add: rtt_ready_def up_ring_def down_ring_def rtt_consts)

lemma set_up_ready:
  assumes "rtt_ready p" and "ring_ok r \<or> i \<noteq> 0 \<and> pBuffer r = None"
    and "i = 0 \<longrightarrow> SizeOfBuffer r = SizeOfBuffer (aUp p ! 0)"
  shows "rtt_ready (set_up i r p)"
  using assms ring_okD(1) [of r] set_update_subset_insert [of "aUp p" i r]
  by (cases "i = 0") (auto simp: rtt_ready_def rtt_consts)

lemma set_down_ready:
  assumes "rtt_ready p" and "ring_ok r \<or> i \<noteq> 0 \<and> pBuffer r = None"
    and "i = 0 \<longrightarrow> SizeOfBuffer r = SizeOfBuffer (aDown p ! 0)"
  shows "rtt_ready (set_down i r p)"
  using assms ring_okD(1) [of r] set_update_subset_insert [of "aDown p" i r]
  by (cases "i = 0") (auto simp: rtt_ready_def rtt_consts)

lemma id_set: "set_id (replicate 16 0) = bytes_of ''SEGGER RTT'' @ replicate 6 0"
  by code_simp

lemma DoInit_ready:
  assumes "length (static_buffer BUFFER_SIZE_UP (aUp p)) = BUFFER_SIZE_UP"
    and "length (static_buffer BUFFER_SIZE_DOWN (aDown p)) = BUFFER_SIZE_DOWN"
    and "unat (ActiveTerminal p) < 16"
  shows "rtt_ready (DoInit p)"
  using assms id_set
  by (auto simp: DoInit_def rtt_ready_def rtt_bss_def rtt_consts Let_def ring_ok_def ring_mem_def
      zero_ring_def bytes_of_def numeral_3_eq_3)

lemma ready_static:
  assumes "rtt_ready p"
  shows "length (static_buffer BUFFER_SIZE_UP (aUp p)) = BUFFER_SIZE_UP"
    and "length (static_buffer BUFFER_SIZE_DOWN (aDown p)) = BUFFER_SIZE_DOWN"
proof -
  have up: "ring_ok (aUp p ! 0)" and down: "ring_ok (aDown p ! 0)"
    using assms up_ring_ok down_ring_ok by simp_all
  have "unat (SizeOfBuffer (aUp p ! 0)) = BUFFER_SIZE_UP"
    "unat (SizeOfBuffer (aDown p ! 0)) = BUFFER_SIZE_DOWN"
    using assms by (simp_all add: rtt_ready_def rtt_consts)
  with ring_okD(1,2) [OF up] ring_okD(1,2) [OF down]
  show "length (static_buffer BUFFER_SIZE_UP (aUp p)) = BUFFER_SIZE_UP"
    and "length (static_buffer BUFFER_SIZE_DOWN (aDown p)) = BUFFER_SIZE_DOWN"
    by (auto simp: static_buffer_def ring_mem_def)
qed

lemma Init_ready: "rtt_wf p \<Longrightarrow> rtt_ready (DoInit p)"
proof (elim disjE [OF rtt_wf_def [THEN iffD1]])
  assume "p = rtt_bss"
  then show ?thesis
    by (intro DoInit_ready) (simp_all add: static_buffer_def rtt_bss_def rtt_consts zero_ring_def)
next
  assume "rtt_ready p"
  then show ?thesis using ready_static by (intro DoInit_ready) (auto simp: rtt_ready_def)
qed

lemma INIT_ready [simp]: "rtt_ready p \<Longrightarrow> INIT p = p"
  by (simp add: INIT_def rtt_ready_def)

lemma INIT_wf: "rtt_wf p \<Longrightarrow> rtt_ready (INIT p)"
  using Init_ready [of p] INIT_ready [of p]
  by (auto simp: INIT_def [of rtt_bss] rtt_wf_def) (simp add: rtt_bss_def)

subsection \<open>The calls\<close>

text \<open>
  One call of the API, or one transfer of the probe (which reads up rings and writes down
  rings with the operations of \<open>SEGGER_RTT_ReadUpBuffer\<close> and \<open>SEGGER_RTT_WriteDownBuffer\<close>).
  The premises are the contracts of the functions: an index of a configured ring, as many
  bytes behind a pointer as announced, a region of the announced sz for a new ring, and
  initialisation before the functions that do not initialise by themselves.
\<close>

inductive rtt_call :: "rtt \<Rightarrow> rtt \<Rightarrow> bool" where
  init: "rtt_call p (SEGGER_RTT_Init p)"
| read_up: "\<lbrakk>up_ring i (INIT p); SEGGER_RTT_ReadUpBuffer i sz p = (n, bytes, p')\<rbrakk> \<Longrightarrow> rtt_call p p'"
| read_down: "\<lbrakk>down_ring i (INIT p); SEGGER_RTT_Read i sz p = (n, bytes, p')\<rbrakk> \<Longrightarrow> rtt_call p p'"
| write_up: "\<lbrakk>rtt_reader host; up_ring i (INIT p); unat N \<le> length bs;
    SEGGER_RTT_Write host i bs N p = Some (st, p')\<rbrakk> \<Longrightarrow> rtt_call p p'"
| write_string: "\<lbrakk>rtt_reader host; up_ring i (INIT p);
    SEGGER_RTT_WriteString host i s p = Some (st, p')\<rbrakk> \<Longrightarrow> rtt_call p p'"
| write_down: "\<lbrakk>rtt_reader host; down_ring i (INIT p); unat N \<le> length bs;
    SEGGER_RTT_WriteDownBuffer host i bs N p = Some (st, p')\<rbrakk> \<Longrightarrow> rtt_call p p'"
| write_skip: "\<lbrakk>rtt_ready p; up_ring i p; unat N \<le> length bs;
    SEGGER_RTT_WriteSkipNoLock i bs N p = (st, p')\<rbrakk> \<Longrightarrow> rtt_call p p'"
| put_skip_nolock: "\<lbrakk>rtt_ready p; up_ring i p;
    SEGGER_RTT_PutCharSkipNoLock i c p = (st, p')\<rbrakk> \<Longrightarrow> rtt_call p p'"
| put_skip: "\<lbrakk>up_ring i (INIT p); SEGGER_RTT_PutCharSkip i c p = (st, p')\<rbrakk> \<Longrightarrow> rtt_call p p'"
| put: "\<lbrakk>rtt_reader host; up_ring i (INIT p);
    SEGGER_RTT_PutChar host i c p = Some (st, p')\<rbrakk> \<Longrightarrow> rtt_call p p'"
| get_key: "SEGGER_RTT_GetKey p = (c, p') \<Longrightarrow> rtt_call p p'"
| has_key: "SEGGER_RTT_HasKey p = (c, p') \<Longrightarrow> rtt_call p p'"
| alloc_up: "\<lbrakk>length b = unat sz; sz \<noteq> 0;
    SEGGER_RTT_AllocUpBuffer nm (Some b) sz flags p = (i, p')\<rbrakk> \<Longrightarrow> rtt_call p p'"
| alloc_down: "\<lbrakk>length b = unat sz; sz \<noteq> 0;
    SEGGER_RTT_AllocDownBuffer nm (Some b) sz flags p = (i, p')\<rbrakk> \<Longrightarrow> rtt_call p p'"
| config_up: "\<lbrakk>i = 0 \<or> length b = unat sz \<and> sz \<noteq> 0;
    SEGGER_RTT_ConfigUpBuffer i nm (Some b) sz flags p = (st, p')\<rbrakk> \<Longrightarrow> rtt_call p p'"
| config_down: "\<lbrakk>i = 0 \<or> length b = unat sz \<and> sz \<noteq> 0;
    SEGGER_RTT_ConfigDownBuffer i nm (Some b) sz flags p = (st, p')\<rbrakk> \<Longrightarrow> rtt_call p p'"
| name_up: "SEGGER_RTT_SetNameUpBuffer i nm p = (st, p') \<Longrightarrow> rtt_call p p'"
| name_down: "SEGGER_RTT_SetNameDownBuffer i nm p = (st, p') \<Longrightarrow> rtt_call p p'"
| flags_up: "SEGGER_RTT_SetFlagsUpBuffer i flags p = (st, p') \<Longrightarrow> rtt_call p p'"
| flags_down: "SEGGER_RTT_SetFlagsDownBuffer i flags p = (st, p') \<Longrightarrow> rtt_call p p'"
| set_terminal: "\<lbrakk>rtt_reader host; SEGGER_RTT_SetTerminal host t p = Some (st, p')\<rbrakk> \<Longrightarrow> rtt_call p p'"
| terminal_out: "\<lbrakk>\<And>c. rtt_reader (host c);
    SEGGER_RTT_TerminalOut host t s p = Some (st, p')\<rbrakk> \<Longrightarrow> rtt_call p p'"
| overwrite: "\<lbrakk>rtt_ready p; up_ring i p; unat N \<le> length bs;
    SEGGER_RTT_WriteWithOverwriteNoLock i bs N p = Some p'\<rbrakk> \<Longrightarrow> rtt_call p p'"
| read_up_nolock: "\<lbrakk>up_ring i (INIT p); SEGGER_RTT_ReadUpBufferNoLock i sz p = (n, bytes, p')\<rbrakk> \<Longrightarrow> rtt_call p p'"
| read_down_nolock: "\<lbrakk>down_ring i (INIT p); SEGGER_RTT_ReadNoLock i sz p = (n, bytes, p')\<rbrakk> \<Longrightarrow> rtt_call p p'"
| write_up_nolock: "\<lbrakk>rtt_reader host; rtt_ready p; up_ring i p; unat N \<le> length bs;
    SEGGER_RTT_WriteNoLock host i bs N p = Some (st, p')\<rbrakk> \<Longrightarrow> rtt_call p p'"
| write_down_nolock: "\<lbrakk>rtt_reader host; rtt_ready p; down_ring i p; unat N \<le> length bs;
    SEGGER_RTT_WriteDownBufferNoLock host i bs N p = Some (st, p')\<rbrakk> \<Longrightarrow> rtt_call p p'"
| wait_key: "\<lbrakk>\<And>k q. rtt_wf q \<Longrightarrow> rtt_wf (keys k q); SEGGER_RTT_WaitKey keys p = Some (c, p')\<rbrakk> \<Longrightarrow> rtt_call p p'"

text \<open>The rings a call leaves behind.\<close>

lemma appended_ready_up:
  assumes "rtt_ready p" and "appended (aUp p ! i) bs r"
  shows "rtt_ready (set_up i r p)"
  using assms by (intro set_up_ready) (auto simp: appended_def same_ring_def)

lemma appended_ready_down:
  assumes "rtt_ready p" and "appended (aDown p ! i) bs r"
  shows "rtt_ready (set_down i r p)"
  using assms by (intro set_down_ready) (auto simp: appended_def same_ring_def)

lemma ring_put_appended:
  assumes "ring_ok r" and "ring_put c (ring_next r) r = (st, r')"
  shows "\<exists>bs. appended r bs r'"
proof (cases "AvailWriteSpace r < 1")
  case True
  then show ?thesis
    using assms drains_appended [OF drains_refl] by (auto simp: ring_put_eq)
next
  case False
  then have "1 \<le> AvailWriteSpace r" by (simp only: not_less)
  then have "appended r (take (unat (1 :: u32)) [c]) (WriteNoCheck [c] 1 r)"
    by (intro WriteNoCheck_appended [OF assms(1)]) simp_all
  moreover have "r' = WriteNoCheck [c] 1 r" using assms False by (auto simp: ring_put_eq)
  ultimately show ?thesis by blast
qed

lemma wait_room_drains:
  assumes "rtt_reader host" and "wait_room host k wr r = Some r'" and "ring_ok r"
  shows "drains r r' \<and> wr \<noteq> RdOff r'"
proof -
  let ?P = "\<lambda>h (k :: nat) wr r y. h = host \<longrightarrow> ring_ok r \<longrightarrow> drains r y \<and> wr \<noteq> RdOff y"
  have "?P host k wr r r'"
  proof (rule wait_room.raw_induct [of ?P, OF _ assms(2)], intro impI)
    fix f h k wr r y
    assume IH: "\<And>h k wr r y. f h k wr r = Some y \<Longrightarrow> ?P h k wr r y"
      and body: "(let r = h k r in if wr = RdOff r then f h (Suc k) wr r else Some r) = Some y"
      and [simp]: "h = host" and ok: "ring_ok r"
    have d: "drains r (host k r)" using rtt_reader.host_drains [OF assms(1) ok] .
    show "drains r y \<and> wr \<noteq> RdOff y"
    proof (cases "wr = RdOff (host k r)")
      case True
      then have "f host (Suc k) wr (host k r) = Some y" using body by (simp add: Let_def)
      then show ?thesis using IH d drains_trans [OF d] by (auto simp: drains_def)
    next
      case False
      then show ?thesis using body d by simp
    qed
  qed
  then show ?thesis using assms by simp
qed

text \<open>Reads, writes and single bytes, on a control block that is ready.\<close>

lemma ring_read_drains:
  "\<lbrakk>ring_ok r; ring_read k r = (nb, bytes, r')\<rbrakk> \<Longrightarrow> drains r r'"
  using ring_read_ok [of r k nb bytes r'] by (auto simp: drains_def)

lemma read_up_ready:
  assumes "rtt_ready p" and "up_ring i p" and "SEGGER_RTT_ReadUpBuffer i sz p = (n, bytes, p')"
  shows "rtt_ready p'"
proof -
  obtain m bs r where rr: "ring_read sz (aUp p ! i) = (m, bs, r)" by (metis prod.exhaust)
  have "appended (aUp p ! i) [] r"
    using ring_read_drains [OF up_ring_ok [OF assms(1,2)] rr] by (rule drains_appended)
  with assms rr show ?thesis
    by (auto simp: SEGGER_RTT_ReadUpBuffer_def SEGGER_RTT_ReadUpBufferNoLock_def Let_def
        intro: appended_ready_up)
qed

lemma read_down_ready:
  assumes "rtt_ready p" and "down_ring i p" and "SEGGER_RTT_Read i sz p = (n, bytes, p')"
  shows "rtt_ready p'"
proof -
  obtain m bs r where rr: "ring_read sz (aDown p ! i) = (m, bs, r)" by (metis prod.exhaust)
  have "appended (aDown p ! i) [] r"
    using ring_read_drains [OF down_ring_ok [OF assms(1,2)] rr] by (rule drains_appended)
  with assms rr show ?thesis
    by (auto simp: SEGGER_RTT_Read_def SEGGER_RTT_ReadNoLock_def Let_def intro: appended_ready_down)
qed

lemma write_up_ready:
  assumes "rtt_reader host" and "rtt_ready p" and "up_ring i p" and "unat N \<le> length bs"
    and "SEGGER_RTT_Write host i bs N p = Some (st, p')"
  shows "rtt_ready p'"
  using assms rtt_reader.ring_write_appends [OF assms(1) _ up_ring_ok [OF assms(2,3)] assms(4)]
  by (auto simp: SEGGER_RTT_Write_def SEGGER_RTT_WriteNoLock_def intro: appended_ready_up)

lemma write_down_ready:
  assumes "rtt_reader host" and "rtt_ready p" and "down_ring i p" and "unat N \<le> length bs"
    and "SEGGER_RTT_WriteDownBuffer host i bs N p = Some (st, p')"
  shows "rtt_ready p'"
  using assms rtt_reader.ring_write_appends [OF assms(1) _ down_ring_ok [OF assms(2,3)] assms(4)]
  by (auto simp: SEGGER_RTT_WriteDownBuffer_def SEGGER_RTT_WriteDownBufferNoLock_def
      intro: appended_ready_down)

lemma strlen_le: "unat (of_nat (length (takeWhile P s)) :: u32) \<le> length s"
  by (rule order_trans [OF _ length_takeWhile_le [of P s]]) (simp add: unat_of_nat)

lemma write_string_ready:
  assumes "rtt_reader host" and "rtt_ready p" and "up_ring i p"
    and "SEGGER_RTT_WriteString host i s p = Some (st, p')"
  shows "rtt_ready p'"
  using write_up_ready [OF assms(1-3) strlen_le] assms(4) by (simp add: SEGGER_RTT_WriteString_def Let_def)

lemma write_skip_ready:
  assumes "rtt_ready p" and "up_ring i p" and "unat N \<le> length bs"
    and "SEGGER_RTT_WriteSkipNoLock i bs N p = (st, p')"
  shows "rtt_ready p'"
proof -
  note ok = up_ring_ok [OF assms(1,2)]
  have "p' = (if AvailWriteSpace (aUp p ! i) < N then p
      else set_up i (WriteNoCheck bs N (aUp p ! i)) p)"
    using assms(4) by (auto simp: SEGGER_RTT_WriteSkipNoLock_def ring_write_skip_eq [OF ok])
  then show ?thesis
    using assms(1) appended_ready_up [OF assms(1) WriteNoCheck_appended [OF ok assms(3)]]
    by (auto simp: not_less)
qed

lemma put_skip_ready:
  assumes "rtt_ready p" and "up_ring i p" and "SEGGER_RTT_PutCharSkipNoLock i c p = (st, p')"
  shows "rtt_ready p'"
proof -
  obtain r where rp: "ring_put c (ring_next (aUp p ! i)) (aUp p ! i) = (st, r)" "p' = set_up i r p"
    using assms(3) by (auto simp: SEGGER_RTT_PutCharSkipNoLock_def Let_def split: prod.splits)
  then show ?thesis
    using ring_put_appended [OF up_ring_ok [OF assms(1,2)]] appended_ready_up [OF assms(1)] by blast
qed

lemma put_ready:
  assumes host: "rtt_reader host" and p: "rtt_ready p" "up_ring i p"
    and eq: "SEGGER_RTT_PutChar host i c p = Some (st, p')"
  shows "rtt_ready p'"
proof -
  let ?r = "aUp p ! i"
  note ok = up_ring_ok [OF p]
  let ?w = "if Flags ?r = SEGGER_RTT_MODE_BLOCK_IF_FIFO_FULL then wait_room host 0 (ring_next ?r) ?r
    else Some ?r"
  obtain s where w: "?w = Some s"
    using eq p by (auto simp: SEGGER_RTT_PutChar_def Let_def split: option.splits if_splits)
  have d: "drains ?r s"
    using w wait_room_drains [OF host _ ok] drains_refl [OF ok] by (auto split: if_splits)
  then have "ring_next s = ring_next ?r" by (simp add: drains_def ring_next_def same_ring_def)
  then obtain t where t: "ring_put c (ring_next s) s = (st, t)" "p' = set_up i t p"
    using eq p w by (auto simp: SEGGER_RTT_PutChar_def Let_def split: prod.splits)
  moreover have "ring_ok s" using d by (simp add: drains_def)
  ultimately obtain bs where "appended s bs t" using ring_put_appended by blast
  then have "appended ?r ([] @ bs) t" by (rule appended_trans [OF drains_appended [OF d]])
  then show ?thesis using t(2) appended_ready_up [OF p(1)] by blast
qed

text \<open>
  The writer that overwrites: every piece it copies ends at the end of the buffer at the latest, and the
  offsets stay inside, also when it goes around several times or the sum of offset and excess wraps.
\<close>

lemma wrap_rd_less:
  assumes "wrap_rd n rd = Some w"
  shows "w < n"
proof -
  let ?P = "\<lambda>n (rd :: u32) w. w < n"
  show ?thesis
    by (rule wrap_rd.raw_induct [of ?P, OF _ assms]) (auto split: if_splits)
qed

lemma overwrite_loop_ok:
  assumes "overwrite_loop bs N Avail r = Some r'" and "ring_ok r" and "unat (WrOff r) + unat Avail \<le> unat (SizeOfBuffer r)"
  shows "ring_ok r' \<and> same_ring r r'"
proof -
  let ?P = "\<lambda>bs (N :: u32) Avail r r'. ring_ok r \<longrightarrow> unat (WrOff r) + unat Avail \<le> unat (SizeOfBuffer r) \<longrightarrow> ring_ok r' \<and> same_ring r r'"
  have "?P bs N Avail r r'"
  proof (rule overwrite_loop.raw_induct [of ?P, OF _ assms(1)], intro impI)
    fix f bs N Avail r r'
    assume IH: "\<And>bs N Avail r r'. f bs N Avail r = Some r' \<Longrightarrow> ?P bs N Avail r r'"
      and body: "(if Avail > N then let r = memcpy_to (WrOff r) bs N r in Some (r\<lparr>WrOff := WrOff r + N\<rparr>)
          else let r = memcpy_to (WrOff r) bs Avail r; bs = drop (unat Avail) bs; r = r\<lparr>WrOff := 0\<rparr>; N = N - Avail; Avail = SizeOfBuffer r - 1
            in if N \<noteq> 0 then f bs N Avail r else Some r) = Some r'"
      and ok: "ring_ok r" and inside: "unat (WrOff r) + unat Avail \<le> unat (SizeOfBuffer r)"
    note D = ring_okD [OF ok]
    have mem: "length (ring_mem (memcpy_to (WrOff r) bs n r)) = unat (SizeOfBuffer r)" "pBuffer (memcpy_to (WrOff r) bs n r) \<noteq> None"
      if "unat n \<le> unat Avail" for n
      using that ok inside by (auto simp: ring_ok_def memcpy_to_def ring_mem_def length_mem_write)
    let ?s = "(memcpy_to (WrOff r) bs Avail r)\<lparr>WrOff := 0\<rparr>"
    show "ring_ok r' \<and> same_ring r r'"
    proof (cases "Avail > N")
      case True
      have "unat (SizeOfBuffer r) < 2 ^ LENGTH(32)" by (rule unsigned_less)
      with True have "unat (WrOff r + N) = unat (WrOff r) + unat N"
        using inside by (intro unat_add_u32) (simp add: word_less_nat_alt)
      moreover have "unat N < unat Avail" using True by (simp add: word_less_nat_alt)
      ultimately have "WrOff r + N < SizeOfBuffer r" using inside by (simp add: word_less_nat_alt)
      then show ?thesis using body True ok mem [of N] by (auto simp: ring_ok_def same_ring_def memcpy_to_def ring_mem_def Let_def word_less_nat_alt)
    next
      case False
      have s: "ring_ok ?s" "same_ring r ?s" using ok D mem [of Avail]
        by (auto simp: ring_ok_def same_ring_def memcpy_to_def ring_mem_def word_neq_0_conv word_less_nat_alt)
      show ?thesis
      proof (cases "N - Avail = 0")
        case True
        then show ?thesis using body False s by (simp add: Let_def)
      next
        case more: False
        then have "f (drop (unat Avail) bs) (N - Avail) (SizeOfBuffer ?s - 1) ?s = Some r'" using body False by (simp add: Let_def)
        moreover have "unat (SizeOfBuffer ?s - 1) \<le> unat (SizeOfBuffer ?s)"
          using s(1) by (simp add: ring_ok_def unat_sub_u32 word_less_nat_alt)
        ultimately have "ring_ok r' \<and> same_ring ?s r'" using IH s by simp
        then show ?thesis using same_ring_trans [OF s(2)] by blast
      qed
    qed
  qed
  then show ?thesis using assms(2,3) by simp
qed

lemma overwrite_ready:
  assumes "rtt_ready p" and "up_ring i p" and "SEGGER_RTT_WriteWithOverwriteNoLock i bs N p = Some p'"
  shows "rtt_ready p'"
proof -
  let ?r = "aUp p ! i"
  note ok = up_ring_ok [OF assms(1,2)]
  obtain s r' where s: "overwrite_room N ?r = Some s" and r': "overwrite_loop bs N (SizeOfBuffer s - WrOff s) s = Some r'"
    and p': "p' = set_up i r' p"
    using assms(3) by (auto simp: SEGGER_RTT_WriteWithOverwriteNoLock_def ring_overwrite_def split: option.splits)
  have s_ok: "ring_ok s" and same: "same_ring ?r s"
    using s ok wrap_rd_less by (auto simp: overwrite_room_def Let_def ring_ok_def same_ring_def ring_mem_def split: if_splits)
  have "unat (SizeOfBuffer s - WrOff s) = unat (SizeOfBuffer s) - unat (WrOff s)"
    using s_ok by (intro unat_sub_u32) (simp add: ring_ok_def word_less_nat_alt)
  then have "unat (WrOff s) + unat (SizeOfBuffer s - WrOff s) \<le> unat (SizeOfBuffer s)"
    using ring_okD [OF s_ok] by simp
  from overwrite_loop_ok [OF r' s_ok this] have "ring_ok r' \<and> same_ring ?r r'" using same_ring_trans [OF same] by blast
  then show ?thesis using p' assms(1) by (auto simp: same_ring_def intro: set_up_ready)
qed

text \<open>Allocation never takes the terminal; configuration leaves its region and size alone.\<close>

lemma find_free_ge: "i \<le> find_free limit rs i"
  by (induction limit rs i rule: find_free.induct) (subst find_free.simps, auto)

lemma find_free_pos:
  assumes "pBuffer (rs ! 0) \<noteq> None"
  shows "find_free limit rs 0 \<noteq> 0"
  using assms find_free_ge [of "Suc 0" limit rs] find_free.simps [of limit rs 0] by auto

lemma fresh_ring_ok:
  assumes "length b = unat sz" and "sz \<noteq> 0"
  shows "ring_ok \<lparr>sName = nm, pBuffer = Some b, SizeOfBuffer = sz, WrOff = 0, RdOff = 0, Flags = fl\<rparr>"
  using assms by (simp add: ring_ok_def ring_mem_def word_neq_0_conv)

lemma alloc_up_ready:
  assumes "rtt_ready p" and "length b = unat sz" and "sz \<noteq> 0"
    and "SEGGER_RTT_AllocUpBuffer nm (Some b) sz flags p = (i, p')"
  shows "rtt_ready p'"
proof -
  have "pBuffer (aUp p ! 0) \<noteq> None" using assms(1) by (simp add: rtt_ready_def)
  from find_free_pos [OF this, of "MaxNumUpBuffers p"] show ?thesis
    using assms
    by (auto simp: SEGGER_RTT_AllocUpBuffer_def Let_def fresh_ring_ok intro!: set_up_ready
        split: if_splits)
qed

lemma alloc_down_ready:
  assumes "rtt_ready p" and "length b = unat sz" and "sz \<noteq> 0"
    and "SEGGER_RTT_AllocDownBuffer nm (Some b) sz flags p = (i, p')"
  shows "rtt_ready p'"
proof -
  have "pBuffer (aDown p ! 0) \<noteq> None" using assms(1) by (simp add: rtt_ready_def)
  from find_free_pos [OF this, of "MaxNumDownBuffers p"] show ?thesis
    using assms
    by (auto simp: SEGGER_RTT_AllocDownBuffer_def Let_def fresh_ring_ok intro!: set_down_ready
        split: if_splits)
qed

lemma ring_ok_labels [simp]: "ring_ok (r\<lparr>sName := nm\<rparr>) = ring_ok r" "ring_ok (r\<lparr>Flags := fl\<rparr>) = ring_ok r"
  by (simp_all add: ring_ok_def)

lemma config_ring_ok:
  assumes "i = 0 \<or> length b = unat sz \<and> sz \<noteq> 0" and "i = 0 \<Longrightarrow> ring_ok r"
  shows "ring_ok (config_ring i nm (Some b) sz flags r)"
  using assms
  by (auto simp: config_ring_def ring_ok_def [of "r\<lparr>sName := _, pBuffer := _, SizeOfBuffer := _, RdOff := _, WrOff := _\<rparr>"]
      ring_mem_def word_neq_0_conv)

lemma config_up_ready:
  assumes "rtt_ready p" and "i = 0 \<or> length b = unat sz \<and> sz \<noteq> 0"
    and "SEGGER_RTT_ConfigUpBuffer i nm (Some b) sz flags p = (st, p')"
  shows "rtt_ready p'"
proof -
  have "ring_ok (config_ring i nm (Some b) sz flags (aUp p ! i))"
    using assms(1,2) up_ring_ok by (intro config_ring_ok) auto
  with assms set_up_ready [OF assms(1)] show ?thesis
    by (auto simp: SEGGER_RTT_ConfigUpBuffer_def config_ring_def Let_def split: if_splits)
qed

lemma config_down_ready:
  assumes "rtt_ready p" and "i = 0 \<or> length b = unat sz \<and> sz \<noteq> 0"
    and "SEGGER_RTT_ConfigDownBuffer i nm (Some b) sz flags p = (st, p')"
  shows "rtt_ready p'"
proof -
  have "ring_ok (config_ring i nm (Some b) sz flags (aDown p ! i))"
    using assms(1,2) down_ring_ok by (intro config_ring_ok) auto
  with assms set_down_ready [OF assms(1)] show ?thesis
    by (auto simp: SEGGER_RTT_ConfigDownBuffer_def config_ring_def Let_def split: if_splits)
qed

text \<open>A ring whose name or mode changes, used or not.\<close>

lemma relabel_ready:
  assumes "rtt_ready p" and "i < 3"
    and "pBuffer r = pBuffer (aUp p ! i)" "SizeOfBuffer r = SizeOfBuffer (aUp p ! i)"
      "ring_ok r = ring_ok (aUp p ! i)"
    and "pBuffer d = pBuffer (aDown p ! i)" "SizeOfBuffer d = SizeOfBuffer (aDown p ! i)"
      "ring_ok d = ring_ok (aDown p ! i)"
  shows "rtt_ready (set_up i r p)" and "rtt_ready (set_down i d p)"
proof -
  have "pBuffer (aUp p ! i) = None \<and> i \<noteq> 0 \<or> ring_ok (aUp p ! i)"
    "pBuffer (aDown p ! i) = None \<and> i \<noteq> 0 \<or> ring_ok (aDown p ! i)"
    using assms(1,2) up_ring_ok [OF assms(1), of i] down_ring_ok [OF assms(1), of i]
    by (cases "i = 0"; auto simp: up_ring_def down_ring_def rtt_consts rtt_ready_def)+
  with assms show "rtt_ready (set_up i r p)" "rtt_ready (set_down i d p)"
    by (auto intro!: set_up_ready set_down_ready)
qed

lemma name_flags_ready:
  assumes "rtt_ready p"
  shows "SEGGER_RTT_SetNameUpBuffer i nm p = (st, p') \<Longrightarrow> rtt_ready p'"
    and "SEGGER_RTT_SetNameDownBuffer i nm p = (st, p') \<Longrightarrow> rtt_ready p'"
    and "SEGGER_RTT_SetFlagsUpBuffer i fl p = (st, p') \<Longrightarrow> rtt_ready p'"
    and "SEGGER_RTT_SetFlagsDownBuffer i fl p = (st, p') \<Longrightarrow> rtt_ready p'"
  using assms
  by (auto simp: SEGGER_RTT_SetNameUpBuffer_def SEGGER_RTT_SetNameDownBuffer_def
      SEGGER_RTT_SetFlagsUpBuffer_def SEGGER_RTT_SetFlagsDownBuffer_def rtt_consts
      intro: relabel_ready [of p i _ "aDown p ! i"] relabel_ready [of p i "aUp p ! i"] split: if_splits)

text \<open>Terminals.\<close>

lemma length_aTerminalId [simp]: "length aTerminalId = 16"
  by (simp add: aTerminalId_def bytes_of_def)

lemma length_terminal_switch [simp]: "length (terminal_switch t) = 2"
  by (simp add: terminal_switch_def)

lemma post_switch_partial:
  assumes "rtt_reader host" and "ring_ok r" and "PostTerminalSwitch host t r = Some r'"
  shows "appended r (terminal_switch t) r'"
  using assms rtt_reader.write_blocking_partial [OF assms(1) _ assms(2), of "terminal_switch t" 2]
  by (auto simp: PostTerminalSwitch_def)

lemma switched_write_partial:
  assumes host: "\<And>c. rtt_reader (host c)" and ok: "ring_ok r" and n: "unat n \<le> length s"
    and eq: "switched_write host t s n a r = Some (st, r')"
  shows "st = n \<and> appended r (terminal_switch t @ take (unat n) s @ terminal_switch a) r'"
proof -
  obtain r1 r2 where p1: "PostTerminalSwitch (host 0) t r = Some r1"
    and p2: "WriteBlocking (host 1) s n r1 = Some (st, r2)"
    and p3: "PostTerminalSwitch (host 2) a r2 = Some r'"
    using eq by (auto simp: switched_write_def split: option.splits prod.splits)
  have a1: "appended r (terminal_switch t) r1" by (rule post_switch_partial [OF host ok p1])
  then have ok1: "ring_ok r1" by (simp add: appended_def)
  have a2: "st = n \<and> appended r1 (take (unat n) s) r2"
    by (rule rtt_reader.write_blocking_partial [OF host p2 ok1 n])
  then have "appended r2 (terminal_switch a) r'"
    by (intro post_switch_partial [OF host _ p3]) (simp add: appended_def)
  with a1 a2 show ?thesis using appended_trans by blast
qed

lemma active_ready:
  "\<lbrakk>rtt_ready p; unat t < 16\<rbrakk> \<Longrightarrow> rtt_ready (p\<lparr>ActiveTerminal := t\<rparr>)"
  by (simp add: rtt_ready_def)

lemma set_terminal_ready:
  assumes host: "rtt_reader host" and p: "rtt_ready p"
    and eq: "SEGGER_RTT_SetTerminal host t p = Some (st, p')"
  shows "rtt_ready p'"
proof (cases "unat t < 16")
  case True
  let ?r = "aUp p ! 0" and ?q = "p\<lparr>ActiveTerminal := t\<rparr>"
  have ok: "ring_ok ?r" using p up_ring_ok by simp
  have q: "rtt_ready ?q" by (rule active_ready [OF p True])
  consider "p' = p" | r bs where "p' = set_up 0 r ?q" "appended ?r bs r"
  proof (cases "Flags ?r AND SEGGER_RTT_MODE_MASK = SEGGER_RTT_MODE_BLOCK_IF_FIFO_FULL")
    case True
    then obtain n r where wb: "WriteBlocking host (terminal_switch t) 2 ?r = Some (n, r)"
      and p': "p' = set_up 0 r ?q"
      using eq p \<open>unat t < 16\<close> by (auto simp: SEGGER_RTT_SetTerminal_def)
    from rtt_reader.write_blocking_partial [OF host wb ok] show thesis by (auto intro: that(2) [OF p'])
  next
    case False
    show thesis
    proof (cases "2 \<le> AvailWriteSpace ?r")
      case True
      then have "p' = set_up 0 (WriteNoCheck (terminal_switch t) 2 ?r) ?q"
        using eq p False \<open>unat t < 16\<close> by (simp add: SEGGER_RTT_SetTerminal_def)
      then show thesis using that WriteNoCheck_appended [OF ok _ True, of "terminal_switch t"] by simp
    next
      case room: False
      then show thesis using eq p False \<open>unat t < 16\<close> that by (simp add: SEGGER_RTT_SetTerminal_def)
    qed
  qed
  then show ?thesis
  proof cases
    case 2
    then show ?thesis using appended_ready_up [OF q, of 0 bs r] by simp
  qed (use p in simp)
qed (use p eq in \<open>simp add: SEGGER_RTT_SetTerminal_def\<close>)

lemma terminal_out_ready:
  assumes host: "\<And>c. rtt_reader (host c)" and p: "rtt_ready p"
    and eq: "SEGGER_RTT_TerminalOut host t s p = Some (st, p')"
  shows "rtt_ready p'"
proof -
  let ?r = "aUp p ! 0" and ?len = "of_nat (length (takeWhile (\<lambda>c. c \<noteq> 0) s)) :: u32"
  have ok: "ring_ok ?r" using p up_ring_ok by simp
  have "p' = p \<or> (\<exists>n r m. n \<le> ?len \<and> p' = set_up 0 r p \<and>
      switched_write host t s n (ActiveTerminal p) ?r = Some (m, r))"
    using eq p unfolding SEGGER_RTT_TerminalOut_def INIT_ready [OF p] Let_def
    by (auto split: if_splits simp: not_less intro: less_imp_le)
  moreover have "rtt_ready (set_up 0 r p)"
    if "n \<le> ?len" and "switched_write host t s n (ActiveTerminal p) ?r = Some (m, r)" for n r m
  proof -
    have "unat n \<le> length s" using that(1) strlen_le by (metis order_trans word_le_nat_alt)
    then show ?thesis
      using switched_write_partial [OF host ok _ that(2)] appended_ready_up [OF p] by blast
  qed
  ultimately show ?thesis using p by blast
qed

subsection \<open>Preservation\<close>

lemma INIT_idem: "rtt_wf p \<Longrightarrow> INIT (INIT p) = INIT p"
  by (simp add: INIT_wf)

text \<open>The functions that initialise by themselves may be run from the initialised block.\<close>

lemma init_first:
  assumes "rtt_wf p"
  shows "SEGGER_RTT_ReadUpBuffer i sz (INIT p) = SEGGER_RTT_ReadUpBuffer i sz p"
    and "SEGGER_RTT_Read i sz (INIT p) = SEGGER_RTT_Read i sz p"
    and "SEGGER_RTT_Write host i bs N (INIT p) = SEGGER_RTT_Write host i bs N p"
    and "SEGGER_RTT_WriteString host i bs (INIT p) = SEGGER_RTT_WriteString host i bs p"
    and "SEGGER_RTT_WriteDownBuffer host i bs N (INIT p) = SEGGER_RTT_WriteDownBuffer host i bs N p"
    and "SEGGER_RTT_PutCharSkip i c p = SEGGER_RTT_PutCharSkipNoLock i c (INIT p)"
    and "SEGGER_RTT_PutChar host i c (INIT p) = SEGGER_RTT_PutChar host i c p"
    and "SEGGER_RTT_AllocUpBuffer nm buf sz fl (INIT p) = SEGGER_RTT_AllocUpBuffer nm buf sz fl p"
    and "SEGGER_RTT_AllocDownBuffer nm buf sz fl (INIT p) = SEGGER_RTT_AllocDownBuffer nm buf sz fl p"
    and "SEGGER_RTT_ConfigUpBuffer i nm buf sz fl (INIT p) = SEGGER_RTT_ConfigUpBuffer i nm buf sz fl p"
    and "SEGGER_RTT_ConfigDownBuffer i nm buf sz fl (INIT p) = SEGGER_RTT_ConfigDownBuffer i nm buf sz fl p"
    and "SEGGER_RTT_SetNameUpBuffer i nm (INIT p) = SEGGER_RTT_SetNameUpBuffer i nm p"
    and "SEGGER_RTT_SetNameDownBuffer i nm (INIT p) = SEGGER_RTT_SetNameDownBuffer i nm p"
    and "SEGGER_RTT_SetFlagsUpBuffer i fl (INIT p) = SEGGER_RTT_SetFlagsUpBuffer i fl p"
    and "SEGGER_RTT_SetFlagsDownBuffer i fl (INIT p) = SEGGER_RTT_SetFlagsDownBuffer i fl p"
    and "SEGGER_RTT_SetTerminal host t (INIT p) = SEGGER_RTT_SetTerminal host t p"
    and "SEGGER_RTT_TerminalOut hosts t s (INIT p) = SEGGER_RTT_TerminalOut hosts t s p"
    and "SEGGER_RTT_GetKey (INIT p) = SEGGER_RTT_GetKey p"
  using INIT_idem [OF assms]
  by (simp_all only: SEGGER_RTT_ReadUpBuffer_def SEGGER_RTT_ReadUpBufferNoLock_def SEGGER_RTT_Read_def
      SEGGER_RTT_ReadNoLock_def SEGGER_RTT_Write_def SEGGER_RTT_WriteString_def
      SEGGER_RTT_WriteDownBuffer_def SEGGER_RTT_PutCharSkip_def SEGGER_RTT_PutCharSkipNoLock_def
      SEGGER_RTT_PutChar_def SEGGER_RTT_AllocUpBuffer_def SEGGER_RTT_AllocDownBuffer_def
      SEGGER_RTT_ConfigUpBuffer_def SEGGER_RTT_ConfigDownBuffer_def SEGGER_RTT_SetNameUpBuffer_def
      SEGGER_RTT_SetNameDownBuffer_def SEGGER_RTT_SetFlagsUpBuffer_def
      SEGGER_RTT_SetFlagsDownBuffer_def SEGGER_RTT_SetTerminal_def SEGGER_RTT_TerminalOut_def
      SEGGER_RTT_GetKey_def Let_def)

lemma get_key_ready:
  assumes "rtt_ready p" and "SEGGER_RTT_GetKey p = (c, p')"
  shows "rtt_ready p'"
proof -
  obtain n bytes q where rd: "SEGGER_RTT_Read 0 1 p = (n, bytes, q)" by (metis prod.exhaust)
  from read_down_ready [OF assms(1) _ this] assms(1) have "rtt_ready q" by simp
  with rd assms(2) show ?thesis by (auto simp: SEGGER_RTT_GetKey_def split: if_splits)
qed

lemma wait_key_ready:
  assumes "SEGGER_RTT_WaitKey keys p = Some (c, p')" and "\<And>k q. rtt_wf q \<Longrightarrow> rtt_wf (keys k q)" and "rtt_wf p"
  shows "rtt_ready p'"
proof -
  let ?P = "\<lambda>h (k :: nat) p y. h = keys \<longrightarrow> rtt_wf p \<longrightarrow> rtt_ready (snd y)"
  have "?P keys 0 p (c, p')"
  proof (rule WaitKey_loop.raw_induct [of ?P, OF _ assms(1) [unfolded SEGGER_RTT_WaitKey_def]], intro impI)
    fix f h k p y
    assume IH: "\<And>h k p y. f h k p = Some y \<Longrightarrow> ?P h k p y"
      and body: "(let (r, p) = SEGGER_RTT_GetKey (h k p) in if r < 0 then f h (Suc k) p else Some (r, p)) = Some y"
      and h: "h = keys" and wf: "rtt_wf p"
    obtain r q where g: "SEGGER_RTT_GetKey (keys k p) = (r, q)" by fastforce
    have q: "rtt_ready q" using get_key_ready [OF INIT_wf] init_first(18) g assms(2) [OF wf] by metis
    show "rtt_ready (snd y)"
    proof (cases "r < 0")
      case True
      then have "f keys (Suc k) q = Some y" using body g h by simp
      then show ?thesis using IH q by (simp add: rtt_wf_def)
    next
      case False
      then have "y = (r, q)" using body g h by simp
      then show ?thesis using q by simp
    qed
  qed
  then show ?thesis using assms(3) by simp
qed

lemma rtt_call_ready:
  assumes "rtt_call p p'" and "rtt_wf p"
  shows "rtt_ready p'"
  using assms
proof (induction rule: rtt_call.induct)
  case (init p)
  then show ?case by (simp add: SEGGER_RTT_Init_def Init_ready)
next
  case (write_skip p i N bs st p')
  then show ?case using write_skip_ready by blast
next
  case (put_skip_nolock p i c st p')
  then show ?case using put_skip_ready by blast
next
  case (overwrite p i N bs p')
  then show ?case using overwrite_ready by blast
next
  case (read_up_nolock i p sz n bytes p')
  then show ?case using read_up_ready [OF INIT_wf] init_first(1) by (metis SEGGER_RTT_ReadUpBuffer_def)
next
  case (read_down_nolock i p sz n bytes p')
  then show ?case using read_down_ready [OF INIT_wf] init_first(2) by (metis SEGGER_RTT_Read_def)
next
  case (write_up_nolock host p i N bs st p')
  then show ?case using write_up_ready [of host p i N bs st p'] by (simp add: SEGGER_RTT_Write_def)
next
  case (write_down_nolock host p i N bs st p')
  then show ?case using write_down_ready [of host p i N bs st p'] by (simp add: SEGGER_RTT_WriteDownBuffer_def)
next
  case (wait_key keys p c p')
  then show ?case using wait_key_ready by blast
next
  case (has_key p c p')
  then show ?case using INIT_wf by (auto simp: SEGGER_RTT_HasKey_def Let_def)
qed (metis INIT_wf init_first read_up_ready read_down_ready write_up_ready write_string_ready
    write_down_ready put_skip_ready put_ready get_key_ready alloc_up_ready alloc_down_ready
    config_up_ready config_down_ready name_flags_ready set_terminal_ready terminal_out_ready)+

text \<open>Any sequence of calls and probe transfers from start-up on.\<close>

text \<open>C6. From the zeroed control block, any sequence of calls that change it keeps the control
  block uninitialised or well formed: identification, buffer counts, every offset inside its
  buffer, every buffer of its declared size, and the active terminal below 16. The calls are all
  reads, writes (with and without lock, blocking, skipping and overwriting), single characters,
  keys, allocation, configuration, names, flags and terminals of SEGGER_RTT.c that return; they
  name rings that exist, pass buffers of the size they say, the variants that do not initialise
  run on an initialised block, and a debug probe that acts while the target waits only consumes.\<close>

theorem rtt_calls_keep_wf:
  assumes "rtt_call\<^sup>*\<^sup>* rtt_bss p"
  shows "rtt_wf p"
  using assms
proof (induction rule: rtranclp_induct)
  case base
  then show ?case by (simp add: rtt_wf_def)
next
  case (step q p)
  then show ?case using rtt_call_ready by (auto simp: rtt_wf_def)
qed

end
