(* ===== verification/Rtt_Fifo.thy ===== *)
theory Rtt_Fifo
  imports Rtt_Wf
begin

text \<open>
  The contract of a channel of the debug interface, as its two users see it: a bounded queue
  of bytes. The contract is stated once as a locale, its consequence for whole conversations is
  proved there, and the up and the down channels of the control block are shown to be
  instances.
\<close>

subsection \<open>What a write does when it does not wait\<close>

text \<open>The number of bytes a write stores, by the mode of the ring.\<close>

definition stored :: "u32 \<Rightarrow> nat \<Rightarrow> nat \<Rightarrow> nat" where
  "stored mode room n =
     (if mode = SEGGER_RTT_MODE_NO_BLOCK_SKIP then (if n \<le> room then n else 0)
      else if mode = SEGGER_RTT_MODE_NO_BLOCK_TRIM then min n room
      else 0)"

lemma stored_le: "stored mode room n \<le> n"
  by (simp add: stored_def)

lemma ring_write_outcome:
  assumes ok: "ring_ok r" and src: "unat N \<le> length bs"
    and mode: "Flags r \<noteq> SEGGER_RTT_MODE_BLOCK_IF_FIFO_FULL"
    and m: "m = stored (Flags r) (capacity r - ring_used r) (unat N)"
  obtains st r' where "ring_write host bs N r = Some (st, r')" and "unat st = m"
    and "ring_ok r'" and "contents r' = contents r @ take m bs" and "same_ring r r'"
    and "RdOff r' = RdOff r"
proof -
  have avail: "unat (AvailWriteSpace r) = capacity r - ring_used r" by (rule AvailWriteSpace_eq [OF ok])
  have written: "ring_ok (WriteNoCheck bs x r) \<and> contents (WriteNoCheck bs x r) = contents r @ take (unat x) bs"
    if "unat x \<le> unat N" and "unat x \<le> capacity r - ring_used r" for x
    using that src ring_used_capacity [OF ok] by (intro WriteNoCheck_ok [OF ok]) linarith+
  consider (skip) "Flags r = SEGGER_RTT_MODE_NO_BLOCK_SKIP" | (trim) "Flags r = SEGGER_RTT_MODE_NO_BLOCK_TRIM"
    | (other) "Flags r \<noteq> SEGGER_RTT_MODE_NO_BLOCK_SKIP" "Flags r \<noteq> SEGGER_RTT_MODE_NO_BLOCK_TRIM"
    by blast
  then show thesis
  proof cases
    case skip
    show thesis
    proof (cases "AvailWriteSpace r < N")
      case True
      then have "m = 0" using m avail skip by (simp add: stored_def word_less_nat_alt)
      then show thesis
        using that [of 0 r] skip True ok by (simp add: ring_write_def)
    next
      case False
      then have "m = unat N" using m avail skip by (simp add: stored_def word_less_nat_alt)
      moreover have "ring_write host bs N r = Some (N, WriteNoCheck bs N r)"
        using skip False by (simp add: ring_write_def)
      moreover have "unat N \<le> capacity r - ring_used r"
        using False avail by (simp add: word_less_nat_alt)
      ultimately show thesis
        using written [of N] by (intro that [of N "WriteNoCheck bs N r"]) (simp_all add: WriteNoCheck_frame)
    qed
  next
    case trim
    define st where "st = (if AvailWriteSpace r < N then AvailWriteSpace r else N)"
    have "unat st = m"
      using m avail trim by (simp add: st_def stored_def rtt_modes word_less_nat_alt min_def)
    moreover have "m \<le> unat N" "m \<le> capacity r - ring_used r"
      using m trim by (simp_all add: stored_def rtt_modes)
    moreover have "ring_write host bs N r = Some (st, WriteNoCheck bs st r)"
      using trim by (simp add: ring_write_def st_def rtt_modes Let_def)
    ultimately show thesis
      using written [of st] by (intro that [of st "WriteNoCheck bs st r"]) (simp_all add: WriteNoCheck_frame)
  next
    case other
    then have "m = 0" using m by (simp add: stored_def)
    then show thesis using that [of 0 r] other mode ok by (simp add: ring_write_def)
  qed
qed

subsection \<open>The contract\<close>

datatype fifo_op = Put "u8 list" | Get u32

text \<open>
  A conversation: the bytes received, the bytes accepted, and the state after it.
\<close>

primrec fifo_run ::
    "(u8 list \<Rightarrow> 's \<Rightarrow> nat \<times> 's) \<Rightarrow> (u32 \<Rightarrow> 's \<Rightarrow> u8 list \<times> 's) \<Rightarrow> fifo_op list \<Rightarrow> 's \<Rightarrow>
     u8 list \<times> u8 list \<times> 's" where
  "fifo_run put get [] s = ([], [], s)"
| "fifo_run put get (x # ops) s =
     (case x of
        Put bs \<Rightarrow> (let (n, s) = put bs s; (received, accepted, s) = fifo_run put get ops s
                   in (received, take n bs @ accepted, s))
      | Get k \<Rightarrow> (let (bs, s) = get k s; (received, accepted, s) = fifo_run put get ops s
                  in (bs @ received, accepted, s)))"

locale byte_fifo =
  fixes inv :: "'s \<Rightarrow> bool" and queue :: "'s \<Rightarrow> u8 list" and room :: "'s \<Rightarrow> nat"
    and put :: "u8 list \<Rightarrow> 's \<Rightarrow> nat \<times> 's" and get :: "u32 \<Rightarrow> 's \<Rightarrow> u8 list \<times> 's"
  assumes put_law: "\<lbrakk>inv s; put bs s = (n, s')\<rbrakk> \<Longrightarrow>
      inv s' \<and> n \<le> length bs \<and> n \<le> room s \<and> queue s' = queue s @ take n bs \<and> room s' = room s - n"
    and get_law: "\<lbrakk>inv s; get k s = (bs, s')\<rbrakk> \<Longrightarrow>
      inv s' \<and> bs = take (unat k) (queue s) \<and> queue s' = drop (unat k) (queue s) \<and>
      room s' = room s + length bs"
begin

text \<open>
  Bytes come out in the order they went in, none twice and none invented; the number of bytes
  in flight and the room always add up to the same capacity.
\<close>

lemma conversation:
  assumes "inv s" and "fifo_run put get ops s = (received, accepted, s')"
  shows "inv s' \<and> queue s @ accepted = received @ queue s' \<and>
    length (queue s') + room s' = length (queue s) + room s"
  using assms
proof (induction ops arbitrary: s received accepted)
  case Nil
  then show ?case by simp
next
  case (Cons x ops)
  show ?case
  proof (cases x)
    case (Put bs)
    obtain n t where p: "put bs s = (n, t)" by fastforce
    obtain rc ac where run: "fifo_run put get ops t = (rc, ac, s')" and rest: "received = rc" "accepted = take n bs @ ac"
      using Cons.prems(2) Put p by (auto split: prod.splits)
    note law = put_law [OF Cons.prems(1) p]
    from law Cons.IH [OF _ run] show ?thesis using rest by auto
  next
    case (Get k)
    obtain bs t where g: "get k s = (bs, t)" by fastforce
    obtain rc ac where run: "fifo_run put get ops t = (rc, ac, s')" and rest: "received = bs @ rc" "accepted = ac"
      using Cons.prems(2) Get g by (auto split: prod.splits)
    note law = get_law [OF Cons.prems(1) g]
    have "queue s = bs @ queue t" using law by simp
    with law Cons.IH [OF _ run] show ?thesis using rest by auto
  qed
qed

end

subsection \<open>The channels of the control block\<close>

text \<open>A probe that does nothing while a function of the target runs.\<close>

abbreviation idle :: "nat \<Rightarrow> ring \<Rightarrow> ring" where
  "idle \<equiv> \<lambda>_ r. r"

definition up_put :: "nat \<Rightarrow> u8 list \<Rightarrow> rtt \<Rightarrow> nat \<times> rtt" where
  "up_put i bs p = (case SEGGER_RTT_Write idle i bs (of_nat (length bs)) p of
     Some (st, p') \<Rightarrow> (unat st, p') | None \<Rightarrow> (0, p))"

definition up_get :: "nat \<Rightarrow> u32 \<Rightarrow> rtt \<Rightarrow> u8 list \<times> rtt" where
  "up_get i k p = (let (n, bs, p') = SEGGER_RTT_ReadUpBuffer i k p in (bs, p'))"

definition down_put :: "nat \<Rightarrow> u8 list \<Rightarrow> rtt \<Rightarrow> nat \<times> rtt" where
  "down_put i bs p = (case SEGGER_RTT_WriteDownBuffer idle i bs (of_nat (length bs)) p of
     Some (st, p') \<Rightarrow> (unat st, p') | None \<Rightarrow> (0, p))"

definition down_get :: "nat \<Rightarrow> u32 \<Rightarrow> rtt \<Rightarrow> u8 list \<times> rtt" where
  "down_get i k p = (let (n, bs, p') = SEGGER_RTT_Read i k p in (bs, p'))"

definition up_open :: "nat \<Rightarrow> rtt \<Rightarrow> bool" where
  "up_open i p \<longleftrightarrow> rtt_ready p \<and> up_ring i p \<and> Flags (aUp p ! i) \<noteq> SEGGER_RTT_MODE_BLOCK_IF_FIFO_FULL"

definition down_open :: "nat \<Rightarrow> rtt \<Rightarrow> bool" where
  "down_open i p \<longleftrightarrow> rtt_ready p \<and> down_ring i p \<and> Flags (aDown p ! i) \<noteq> SEGGER_RTT_MODE_BLOCK_IF_FIFO_FULL"

abbreviation ring_room :: "ring \<Rightarrow> nat" where
  "ring_room r \<equiv> capacity r - ring_used r"

text \<open>A write and a read of one ring as operations of the queue.\<close>

lemma ring_write_fifo:
  assumes ok: "ring_ok r" and mode: "Flags r \<noteq> SEGGER_RTT_MODE_BLOCK_IF_FIFO_FULL"
  obtains st r' where "ring_write idle bs (of_nat (length bs)) r = Some (st, r')"
    and "ring_ok r'" and "same_ring r r'" and "unat st \<le> length bs" and "unat st \<le> ring_room r"
    and "contents r' = contents r @ take (unat st) bs" and "ring_room r' = ring_room r - unat st"
proof -
  let ?N = "of_nat (length bs) :: u32"
  have N: "unat ?N \<le> length bs" by (simp add: unat_of_nat)
  obtain st r' where w: "ring_write idle bs ?N r = Some (st, r')"
    and st: "unat st = stored (Flags r) (ring_room r) (unat ?N)"
    and r': "ring_ok r'" "contents r' = contents r @ take (unat st) bs" "same_ring r r'"
    by (metis ring_write_outcome [OF ok N mode])
  have le: "unat st \<le> length bs" "unat st \<le> ring_room r"
    using st N stored_le [of "Flags r" "ring_room r" "unat ?N"] by (auto simp: stored_def)
  have "ring_used r' = ring_used r + unat st" using arg_cong [OF r'(2), of length] le by simp
  then have "ring_room r' = ring_room r - unat st" using same_ring_capacity [OF r'(3)] by simp
  then show thesis by (rule that [OF w r'(1,3) le r'(2)])
qed

lemma ring_read_fifo:
  assumes ok: "ring_ok r" and rr: "ring_read k r = (nb, bs, r')"
  shows "ring_ok r'" and "same_ring r r'" and "bs = take (unat k) (contents r)"
    and "contents r' = drop (unat k) (contents r)" and "ring_room r' = ring_room r + length bs"
proof -
  note R = ring_read_ok [OF ok rr]
  then show "ring_ok r'" and "same_ring r r'" by simp_all
  show c: "bs = take (unat k) (contents r)" "contents r' = drop (unat k) (contents r)"
    using R by (auto simp: min_def split: if_splits)
  have "ring_used r' = ring_used r - unat k" using c(2) by (metis length_contents length_drop)
  then show "ring_room r' = ring_room r + length bs"
    using c(1) same_ring_capacity [of r r'] R ring_used_capacity [OF ok] by auto
qed

lemma up_openD:
  assumes "up_open i p"
  shows "rtt_ready p" "ring_ok (aUp p ! i)" "i < length (aUp p)"
    "Flags (aUp p ! i) \<noteq> SEGGER_RTT_MODE_BLOCK_IF_FIFO_FULL"
  using assms up_ring_ok by (auto simp: up_open_def up_ring_def rtt_ready_def)

lemma set_up_open:
  assumes "up_open i p" and "ring_ok r" and "same_ring (aUp p ! i) r"
  shows "up_open i (set_up i r p)"
  using assms set_up_ready [of p r i] ring_okD(1) [of r] up_openD [OF assms(1)]
  by (auto simp: up_open_def up_ring_def same_ring_def)

lemma up_put_law:
  assumes p: "up_open i p" and eq: "up_put i bs p = (n, p')"
  shows "up_open i p' \<and> n \<le> length bs \<and> n \<le> ring_room (aUp p ! i) \<and>
    contents (aUp p' ! i) = contents (aUp p ! i) @ take n bs \<and>
    ring_room (aUp p' ! i) = ring_room (aUp p ! i) - n"
proof (rule ring_write_fifo [OF up_openD(2,4) [OF p], where bs = bs])
  fix st r'
  assume w: "ring_write idle bs (of_nat (length bs)) (aUp p ! i) = Some (st, r')"
    and r': "ring_ok r'" "same_ring (aUp p ! i) r'"
    and laws: "unat st \<le> length bs" "unat st \<le> ring_room (aUp p ! i)"
      "contents r' = contents (aUp p ! i) @ take (unat st) bs"
      "ring_room r' = ring_room (aUp p ! i) - unat st"
  have "n = unat st" "p' = set_up i r' p"
    using eq w up_openD(1) [OF p]
    by (simp_all add: up_put_def SEGGER_RTT_Write_def SEGGER_RTT_WriteNoLock_def)
  then show ?thesis using laws set_up_open [OF p r'] up_openD(3) [OF p] by simp
qed

lemma up_get_law:
  assumes p: "up_open i p" and eq: "up_get i k p = (bs, p')"
  shows "up_open i p' \<and> bs = take (unat k) (contents (aUp p ! i)) \<and>
    contents (aUp p' ! i) = drop (unat k) (contents (aUp p ! i)) \<and>
    ring_room (aUp p' ! i) = ring_room (aUp p ! i) + length bs"
proof -
  obtain nb r' where rr: "ring_read k (aUp p ! i) = (nb, bs, r')" and p': "p' = set_up i r' p"
    using eq up_openD(1) [OF p]
    by (auto simp: up_get_def SEGGER_RTT_ReadUpBuffer_def SEGGER_RTT_ReadUpBufferNoLock_def
        split: prod.splits)
  then show ?thesis
    using ring_read_fifo [OF up_openD(2) [OF p] rr] set_up_open [OF p] up_openD(3) [OF p] by simp
qed

interpretation up: byte_fifo "up_open i" "\<lambda>p. contents (aUp p ! i)" "\<lambda>p. ring_room (aUp p ! i)"
  "up_put i" "up_get i" for i
  by unfold_locales (auto dest: up_put_law up_get_law)

lemma down_openD:
  assumes "down_open i p"
  shows "rtt_ready p" "ring_ok (aDown p ! i)" "i < length (aDown p)"
    "Flags (aDown p ! i) \<noteq> SEGGER_RTT_MODE_BLOCK_IF_FIFO_FULL"
  using assms down_ring_ok by (auto simp: down_open_def down_ring_def rtt_ready_def)

lemma set_down_open:
  assumes "down_open i p" and "ring_ok r" and "same_ring (aDown p ! i) r"
  shows "down_open i (set_down i r p)"
  using assms set_down_ready [of p r i] ring_okD(1) [of r] down_openD [OF assms(1)]
  by (auto simp: down_open_def down_ring_def same_ring_def)

lemma down_put_law:
  assumes p: "down_open i p" and eq: "down_put i bs p = (n, p')"
  shows "down_open i p' \<and> n \<le> length bs \<and> n \<le> ring_room (aDown p ! i) \<and>
    contents (aDown p' ! i) = contents (aDown p ! i) @ take n bs \<and>
    ring_room (aDown p' ! i) = ring_room (aDown p ! i) - n"
proof (rule ring_write_fifo [OF down_openD(2,4) [OF p], where bs = bs])
  fix st r'
  assume w: "ring_write idle bs (of_nat (length bs)) (aDown p ! i) = Some (st, r')"
    and r': "ring_ok r'" "same_ring (aDown p ! i) r'"
    and laws: "unat st \<le> length bs" "unat st \<le> ring_room (aDown p ! i)"
      "contents r' = contents (aDown p ! i) @ take (unat st) bs"
      "ring_room r' = ring_room (aDown p ! i) - unat st"
  have "n = unat st" "p' = set_down i r' p"
    using eq w down_openD(1) [OF p]
    by (simp_all add: down_put_def SEGGER_RTT_WriteDownBuffer_def
        SEGGER_RTT_WriteDownBufferNoLock_def)
  then show ?thesis using laws set_down_open [OF p r'] down_openD(3) [OF p] by simp
qed

lemma down_get_law:
  assumes p: "down_open i p" and eq: "down_get i k p = (bs, p')"
  shows "down_open i p' \<and> bs = take (unat k) (contents (aDown p ! i)) \<and>
    contents (aDown p' ! i) = drop (unat k) (contents (aDown p ! i)) \<and>
    ring_room (aDown p' ! i) = ring_room (aDown p ! i) + length bs"
proof -
  obtain nb r' where rr: "ring_read k (aDown p ! i) = (nb, bs, r')" and p': "p' = set_down i r' p"
    using eq down_openD(1) [OF p]
    by (auto simp: down_get_def SEGGER_RTT_Read_def SEGGER_RTT_ReadNoLock_def
        split: prod.splits)
  then show ?thesis
    using ring_read_fifo [OF down_openD(2) [OF p] rr] set_down_open [OF p] down_openD(3) [OF p] by simp
qed

interpretation down: byte_fifo "down_open i" "\<lambda>p. contents (aDown p ! i)" "\<lambda>p. ring_room (aDown p ! i)"
  "down_put i" "down_get i" for i
  by unfold_locales (auto dest: down_put_law down_get_law)

end
