(* ===== verification/Rtt_Spsc.thy ===== *)
theory Rtt_Spsc
  imports Rtt_Fifo
begin

text \<open>
  One ring, its writer and its reader, interleaved. The interrupt mask of
  \<open>SEGGER_RTT_LOCK\<close> keeps other users of the target away, but not the debug probe, which reads
  an up ring and writes a down ring at any moment. The accesses of the two sides to the ring
  are taken apart here in the order the code makes them (the data before the offset that
  publishes it, which is what the memory barriers are for) and arbitrary interleavings of
  them are shown to behave like the queue.
\<close>

subsection \<open>The accesses of the writer and of the reader\<close>

definition copy_first :: "u8 list \<Rightarrow> u32 \<Rightarrow> ring \<Rightarrow> ring" where
  "copy_first bs n r =
     (let wr = WrOff r; Rem = SizeOfBuffer r - wr
      in if Rem > n then memcpy_to wr bs n r else memcpy_to wr bs Rem r)"

definition copy_second :: "u8 list \<Rightarrow> u32 \<Rightarrow> ring \<Rightarrow> ring" where
  "copy_second bs n r =
     (let wr = WrOff r; Rem = SizeOfBuffer r - wr
      in if Rem > n then r else memcpy_to 0 (drop (unat Rem) bs) (n - Rem) r)"

definition new_wr :: "u32 \<Rightarrow> ring \<Rightarrow> u32" where
  "new_wr n r =
     (let wr = WrOff r; Rem = SizeOfBuffer r - wr in if Rem > n then wr + n else n - Rem)"

text \<open>Without a reader in between they are the write of the code.\<close>

lemma WriteNoCheck_accesses:
  "WriteNoCheck bs n r = (copy_second bs n (copy_first bs n r))\<lparr>WrOff := new_wr n r\<rparr>"
  by (simp add: WriteNoCheck_def copy_first_def copy_second_def new_wr_def Let_def)

subsection \<open>The interleaved system\<close>

datatype writer = W_idle | W_room "u8 list" u32 | W_first "u8 list" u32 | W_second "u8 list" u32

datatype reader = R_idle | R_seen u32 | R_copied "u8 list" u32

record spsc =
  shared_ring :: ring
  writer :: writer
  reader :: reader
  sent :: "u8 list"
  got :: "u8 list"

text \<open>
  The steps. The writer looks at the free space and settles on a number of bytes (all of them
  in skip mode, what fits in trim mode), copies at most twice, and publishes the write offset.
  The reader looks at the write offset, copies, and publishes the read offset; its copy uses
  the write offset it has seen, whatever the writer has done since.
\<close>

inductive spsc_step :: "spsc \<Rightarrow> spsc \<Rightarrow> bool" where
  w_check: "\<lbrakk>writer s = W_idle; unat n \<le> length bs; n \<le> AvailWriteSpace (shared_ring s)\<rbrakk> \<Longrightarrow>
    spsc_step s (s\<lparr>writer := W_room bs n\<rparr>)"
| w_first: "writer s = W_room bs n \<Longrightarrow>
    spsc_step s (s\<lparr>shared_ring := copy_first bs n (shared_ring s), writer := W_first bs n\<rparr>)"
| w_second: "writer s = W_first bs n \<Longrightarrow>
    spsc_step s (s\<lparr>shared_ring := copy_second bs n (shared_ring s), writer := W_second bs n\<rparr>)"
| w_publish: "writer s = W_second bs n \<Longrightarrow>
    spsc_step s (s\<lparr>shared_ring := (shared_ring s)\<lparr>WrOff := new_wr n (shared_ring s)\<rparr>,
      writer := W_idle, sent := sent s @ take (unat n) bs\<rparr>)"
| r_look: "reader s = R_idle \<Longrightarrow>
    spsc_step s (s\<lparr>reader := R_seen (WrOff (shared_ring s))\<rparr>)"
| r_copy: "\<lbrakk>reader s = R_seen wr;
    ring_read k ((shared_ring s)\<lparr>WrOff := wr\<rparr>) = (nb, bytes, r')\<rbrakk> \<Longrightarrow>
    spsc_step s (s\<lparr>reader := R_copied bytes (RdOff r')\<rparr>)"
| r_publish: "reader s = R_copied bytes rd \<Longrightarrow>
    spsc_step s (s\<lparr>shared_ring := (shared_ring s)\<lparr>RdOff := rd\<rparr>, reader := R_idle,
      got := got s @ bytes\<rparr>)"

inductive_cases spsc_stepE: "spsc_step s t"

subsection \<open>The invariant\<close>

text \<open>What each side may rely on, whatever the other does.\<close>

definition pending :: "ring \<Rightarrow> u8 list \<Rightarrow> u32 \<Rightarrow> nat \<Rightarrow> bool" where
  "pending r bs n m \<longleftrightarrow> unat n \<le> length bs \<and> ring_used r + unat n \<le> capacity r \<and> m \<le> unat n \<and>
     window (ring_mem r) (unat (WrOff r)) m = take m bs"

definition first_part :: "u32 \<Rightarrow> ring \<Rightarrow> nat" where
  "first_part n r = min (unat n) (unat (SizeOfBuffer r) - unat (WrOff r))"

fun writer_ok :: "ring \<Rightarrow> writer \<Rightarrow> bool" where
  "writer_ok r W_idle = True"
| "writer_ok r (W_room bs n) = pending r bs n 0"
| "writer_ok r (W_first bs n) = pending r bs n (first_part n r)"
| "writer_ok r (W_second bs n) = pending r bs n (unat n)"

definition ahead :: "ring \<Rightarrow> u32 \<Rightarrow> nat \<Rightarrow> bool" where
  "ahead r off m \<longleftrightarrow> m \<le> ring_used r \<and> unat off = (unat (RdOff r) + m) mod unat (SizeOfBuffer r)"

fun reader_ok :: "ring \<Rightarrow> reader \<Rightarrow> bool" where
  "reader_ok r R_idle = True"
| "reader_ok r (R_seen wr) = (\<exists>m. ahead r wr m)"
| "reader_ok r (R_copied bytes rd) = (\<exists>m. ahead r rd m \<and> bytes = take m (contents r))"

definition spsc_inv :: "u8 list \<Rightarrow> spsc \<Rightarrow> bool" where
  "spsc_inv start s \<longleftrightarrow> ring_ok (shared_ring s) \<and> writer_ok (shared_ring s) (writer s) \<and>
     reader_ok (shared_ring s) (reader s) \<and>
     start @ sent s = got s @ contents (shared_ring s)"

text \<open>A copy behind the published bytes is invisible to the reader.\<close>

lemma pending_room: "pending r bs n m \<Longrightarrow> ring_ok r \<Longrightarrow> ring_used r + unat n < unat (SizeOfBuffer r)"
  using ring_okD(3) [of r] by (auto simp: pending_def capacity_def)

lemma hidden_copy:
  assumes ok: "ring_ok r" and pend: "pending r bs n m" and k: "m + unat k \<le> unat n"
    and off: "unat off = (unat (WrOff r) + m) mod unat (SizeOfBuffer r)"
    and flat: "unat off + unat k \<le> unat (SizeOfBuffer r)"
    and r': "r' = memcpy_to off (drop m bs) k r"
  shows "ring_ok r' \<and> pending r' bs n (m + unat k) \<and> contents r' = contents r \<and>
    ring_used r' = ring_used r \<and> SizeOfBuffer r' = SizeOfBuffer r \<and> RdOff r' = RdOff r \<and>
    WrOff r' = WrOff r"
proof -
  note D = ring_okD [OF ok]
  let ?piece = "take (unat k) (drop m bs)" and ?len = "length (ring_mem r)"
  have n: "unat n \<le> length bs" "m \<le> unat n" and win: "window (ring_mem r) (unat (WrOff r)) m = take m bs"
    using pend by (auto simp: pending_def)
  have room: "ring_used r + unat n < ?len" using pending_room [OF pend ok] D by simp
  have len: "length ?piece = unat k" using n k by simp
  have mem: "ring_mem r' = mem_write (unat off) ?piece (ring_mem r)"
    using r' D by (simp add: ring_mem_memcpy_to)
  have pos: "(unat (RdOff r) + (ring_used r + m)) mod ?len = unat off mod ?len"
    using off ring_end_position [OF ok] D by (metis add.assoc mod_add_left_eq mod_mod_trivial)
  have "window (ring_mem r') (unat (RdOff r)) (ring_used r + m) =
      window (ring_mem r) (unat (RdOff r)) (ring_used r + m)"
    unfolding mem using room k len flat D pos by (intro window_outside) simp_all
  from arg_cong [OF this, of "take (ring_used r)"]
  have c: "window (ring_mem r') (unat (RdOff r)) (ring_used r) = contents r"
    by (simp add: take_window contents_def)
  have "window (ring_mem r') (unat (WrOff r)) (m + length ?piece) = take m bs @ ?piece"
    unfolding mem win [symmetric] using room k len flat D off
    by (intro window_mem_write) simp_all
  then have w: "window (ring_mem r') (unat (WrOff r)) (m + unat k) = take (m + unat k) bs"
    using len by (simp add: take_add)
  have "length (ring_mem r') = ?len" using mem flat len D by simp
  then show ?thesis
    using ok pend k r' c w D
    by (auto simp: ring_ok_def pending_def ring_used_def contents_def capacity_def)
qed

lemma rem_unat:
  "ring_ok r \<Longrightarrow> unat (SizeOfBuffer r - WrOff r) = unat (SizeOfBuffer r) - unat (WrOff r)"
  using ring_okD(3) [of r] by (simp add: unat_sub_u32)

lemma copy_first_ok:
  assumes ok: "ring_ok r" and pend: "pending r bs n 0" and r': "r' = copy_first bs n r"
  shows "ring_ok r' \<and> pending r' bs n (first_part n r') \<and> contents r' = contents r \<and>
    ring_used r' = ring_used r \<and> SizeOfBuffer r' = SizeOfBuffer r \<and> RdOff r' = RdOff r"
proof -
  note D = ring_okD [OF ok]
  let ?rem = "SizeOfBuffer r - WrOff r" and ?k = "min n (SizeOfBuffer r - WrOff r)"
  have k: "unat ?k = first_part n r" by (simp add: u32_min first_part_def rem_unat [OF ok])
  have r'': "r' = memcpy_to (WrOff r) (drop 0 bs) ?k r"
    unfolding r' by (auto simp: copy_first_def Let_def min_def not_less)
  have hc: "ring_ok r' \<and> pending r' bs n (0 + unat ?k) \<and> contents r' = contents r \<and>
      ring_used r' = ring_used r \<and> SizeOfBuffer r' = SizeOfBuffer r \<and> RdOff r' = RdOff r \<and> WrOff r' = WrOff r"
    by (rule hidden_copy [OF ok pend _ _ _ r'']) (use D k in \<open>auto simp: first_part_def\<close>)
  moreover from hc have "first_part n r' = unat ?k" by (simp add: k first_part_def)
  ultimately show ?thesis by simp
qed

lemma copy_second_ok:
  assumes ok: "ring_ok r" and pend: "pending r bs n (first_part n r)" and r': "r' = copy_second bs n r"
  shows "ring_ok r' \<and> pending r' bs n (unat n) \<and> contents r' = contents r \<and>
    ring_used r' = ring_used r \<and> SizeOfBuffer r' = SizeOfBuffer r \<and> RdOff r' = RdOff r"
proof (cases "SizeOfBuffer r - WrOff r > n")
  case True
  then have "r' = r" and "first_part n r = unat n"
    using r' by (auto simp: copy_second_def Let_def first_part_def word_less_nat_alt rem_unat [OF ok])
  then show ?thesis using ok pend by simp
next
  case False
  note D = ring_okD [OF ok]
  let ?rem = "SizeOfBuffer r - WrOff r"
  have fp: "first_part n r = unat ?rem" and le: "unat ?rem \<le> unat n"
    using False by (auto simp: first_part_def word_less_nat_alt rem_unat [OF ok])
  have r'': "r' = memcpy_to 0 (drop (first_part n r) bs) (n - ?rem) r"
    using False r' by (simp add: copy_second_def Let_def fp)
  have k: "first_part n r + unat (n - ?rem) = unat n"
    using fp le by (simp add: unat_sub_u32)
  have lt: "unat n < unat (SizeOfBuffer r)" using pending_room [OF pend ok] by simp
  have "ring_ok r' \<and> pending r' bs n (first_part n r + unat (n - ?rem)) \<and> contents r' = contents r \<and>
      ring_used r' = ring_used r \<and> SizeOfBuffer r' = SizeOfBuffer r \<and> RdOff r' = RdOff r \<and> WrOff r' = WrOff r"
    by (rule hidden_copy [OF ok pend _ _ _ r'']) (use k lt D fp rem_unat [OF ok] in auto)
  then show ?thesis by (simp add: k)
qed

text \<open>Publishing appends what was copied.\<close>

lemma new_wr_unat:
  assumes ok: "ring_ok r" and n: "unat n < unat (SizeOfBuffer r)"
  shows "unat (new_wr n r) = (unat (WrOff r) + unat n) mod unat (SizeOfBuffer r)"
proof (cases "SizeOfBuffer r - WrOff r > n")
  case True
  then have "unat (WrOff r) + unat n < unat (SizeOfBuffer r)"
    by (simp add: word_less_nat_alt rem_unat [OF ok])
  with True show ?thesis
    using unat_less_u32 [of "SizeOfBuffer r"] by (simp add: new_wr_def Let_def unat_add_u32)
next
  case False
  then have le: "unat (SizeOfBuffer r) - unat (WrOff r) \<le> unat n"
    by (simp add: word_less_nat_alt rem_unat [OF ok])
  then have "unat (n - (SizeOfBuffer r - WrOff r)) = unat (WrOff r) + unat n - unat (SizeOfBuffer r)"
    using ring_okD [OF ok] by (simp add: unat_sub_u32 rem_unat [OF ok])
  then show ?thesis
    using False le n ring_okD [OF ok] by (simp add: new_wr_def Let_def le_mod_geq)
qed

lemma publish_ok:
  assumes ok: "ring_ok r" and pend: "pending r bs n (unat n)" and r': "r' = r\<lparr>WrOff := new_wr n r\<rparr>"
  shows "ring_ok r' \<and> contents r' = contents r @ take (unat n) bs"
proof (rule ring_extend [OF ok])
  have "window (ring_mem r) (unat (RdOff r) + ring_used r) (unat n) = take (unat n) bs"
    using pend ring_end_position [OF ok] window_mod [of "ring_mem r" "unat (RdOff r) + ring_used r"]
      ring_okD(2) [OF ok] by (simp add: pending_def)
  then show "window (ring_mem r') (unat (RdOff r)) (ring_used r + unat n) = contents r @ take (unat n) bs"
    using r' by (simp add: window_add contents_def)
  show "unat (WrOff r') = (unat (WrOff r) + unat n) mod unat (SizeOfBuffer r)"
    using new_wr_unat [OF ok] pending_room [OF pend ok] r' by simp
qed (use pend r' ring_okD [OF ok] in \<open>auto simp: pending_def\<close>)

text \<open>The reader sees an earlier write offset, hence a front part of the contents.\<close>

lemma seen_contents:
  assumes ok: "ring_ok r" and a: "ahead r wr m"
  shows "ring_ok (r\<lparr>WrOff := wr\<rparr>) \<and> contents (r\<lparr>WrOff := wr\<rparr>) = take m (contents r)"
proof -
  let ?r = "r\<lparr>WrOff := wr\<rparr>"
  have m: "m \<le> ring_used r" and wr: "unat wr = (unat (RdOff r) + m) mod unat (SizeOfBuffer r)"
    using a by (simp_all add: ahead_def)
  have "0 < unat (SizeOfBuffer r)" using ring_okD(3) [OF ok] by linarith
  then have "ring_ok ?r" using ok wr by (simp add: ring_ok_def word_less_nat_alt)
  moreover have "ring_used ?r = m"
    using ring_used_mod [OF ok, of ?r 0 m] wr m ring_used_less [OF ok] ring_okD(4) [OF ok] by simp
  ultimately show ?thesis using m by (simp add: contents_def take_window)
qed

lemma copied_ahead:
  assumes ok: "ring_ok r" and a: "ahead r wr m"
    and rr: "ring_read k (r\<lparr>WrOff := wr\<rparr>) = (nb, bytes, r')"
  shows "\<exists>j. ahead r (RdOff r') j \<and> bytes = take j (contents r)"
proof -
  let ?r = "r\<lparr>WrOff := wr\<rparr>"
  note seen = seen_contents [OF ok a]
  have used: "ring_used ?r = m"
    using seen a by (metis ahead_def length_contents length_take min.absorb2)
  define j where "j = min (ring_used ?r) (unat k)"
  obtain w where rr': "ring_read k ?r = (of_nat j, take j (contents ?r), if j = 0 then ?r else ?r\<lparr>RdOff := w\<rparr>)"
    and w: "unat w = (unat (RdOff ?r) + j) mod unat (SizeOfBuffer ?r)"
    using ring_read_eq [OF conjunct1 [OF seen] j_def] by metis
  have j: "j \<le> m" using used by (simp add: j_def)
  then have "ahead r (RdOff r') j"
    using rr rr' w a ring_okD(4) [OF ok] by (auto simp: ahead_def split: if_splits)
  moreover have "bytes = take j (contents r)"
    using rr rr' seen j by (auto simp: min_def)
  ultimately show ?thesis by blast
qed

text \<open>Each side's knowledge survives the steps of the other.\<close>

lemma reader_ok_frame:
  assumes "contents r' = contents r @ bs" and "SizeOfBuffer r' = SizeOfBuffer r" and "RdOff r' = RdOff r"
    and "reader_ok r x"
  shows "reader_ok r' x"
proof -
  have "ring_used r' = ring_used r + length bs" using arg_cong [OF assms(1), of length] by simp
  then have "ahead r off m \<Longrightarrow> ahead r' off m \<and> take m (contents r') = take m (contents r)" for off m
    using assms(1-3) by (auto simp: ahead_def)
  then show ?thesis using assms(4) by (cases x) fastforce+
qed

lemma writer_ok_frame:
  assumes "ring_used (r\<lparr>RdOff := rd\<rparr>) \<le> ring_used r" and "writer_ok r x"
  shows "writer_ok (r\<lparr>RdOff := rd\<rparr>) x"
proof -
  let ?r = "r\<lparr>RdOff := rd\<rparr>"
  have "pending ?r bs n m" if "pending r bs n m" for bs n m
  proof -
    have "ring_used ?r + unat n \<le> capacity ?r"
      using that assms(1) by (simp add: pending_def capacity_def)
    then show ?thesis using that by (simp add: pending_def)
  qed
  moreover have "first_part n ?r = first_part n r" for n by (simp add: first_part_def)
  ultimately show ?thesis using assms(2) by (cases x) auto
qed

lemma spsc_step_inv:
  assumes "spsc_step s t" and inv: "spsc_inv start s"
  shows "spsc_inv start t"
  using assms(1)
proof (cases rule: spsc_step.cases)
  case (w_check n bs)
  have "unat n \<le> capacity (shared_ring s) - ring_used (shared_ring s)"
    using w_check(4) AvailWriteSpace_eq inv by (simp add: spsc_inv_def word_le_nat_alt)
  then have "pending (shared_ring s) bs n 0"
    using w_check(3) inv ring_used_capacity by (fastforce simp: spsc_inv_def pending_def)
  then show ?thesis using w_check(1) inv by (simp add: spsc_inv_def)
next
  case (w_first bs n)
  let ?r = "shared_ring s" and ?r' = "copy_first bs n (shared_ring s)"
  have "ring_ok ?r' \<and> pending ?r' bs n (first_part n ?r') \<and> contents ?r' = contents ?r \<and>
      ring_used ?r' = ring_used ?r \<and> SizeOfBuffer ?r' = SizeOfBuffer ?r \<and> RdOff ?r' = RdOff ?r"
    using w_first(2) inv by (intro copy_first_ok) (auto simp: spsc_inv_def)
  then show ?thesis
    using w_first(1) inv reader_ok_frame [of ?r' ?r "[]" "reader s"] by (simp add: spsc_inv_def)
next
  case (w_second bs n)
  let ?r = "shared_ring s" and ?r' = "copy_second bs n (shared_ring s)"
  have "ring_ok ?r' \<and> pending ?r' bs n (unat n) \<and> contents ?r' = contents ?r \<and>
      ring_used ?r' = ring_used ?r \<and> SizeOfBuffer ?r' = SizeOfBuffer ?r \<and> RdOff ?r' = RdOff ?r"
    using w_second(2) inv by (intro copy_second_ok) (auto simp: spsc_inv_def)
  then show ?thesis
    using w_second(1) inv reader_ok_frame [of ?r' ?r "[]" "reader s"] by (simp add: spsc_inv_def)
next
  case (w_publish bs n)
  let ?r = "shared_ring s" and ?r' = "(shared_ring s)\<lparr>WrOff := new_wr n (shared_ring s)\<rparr>"
  have "ring_ok ?r' \<and> contents ?r' = contents ?r @ take (unat n) bs"
    using w_publish(2) inv by (intro publish_ok) (auto simp: spsc_inv_def)
  then show ?thesis
    using w_publish(1) inv reader_ok_frame [of ?r' ?r "take (unat n) bs" "reader s"]
    by (simp add: spsc_inv_def flip: append_assoc)
next
  case r_look
  have "ahead (shared_ring s) (WrOff (shared_ring s)) (ring_used (shared_ring s))"
    using inv ring_end_position by (simp add: spsc_inv_def ahead_def)
  then show ?thesis using r_look(1) inv by (auto simp: spsc_inv_def)
next
  case (r_copy wr k nb bytes r')
  then obtain m where "ahead (shared_ring s) wr m" using inv by (auto simp: spsc_inv_def)
  then show ?thesis
    using copied_ahead [OF _ _ r_copy(3)] r_copy(1) inv by (auto simp: spsc_inv_def)
next
  case (r_publish bytes rd)
  let ?r = "shared_ring s" and ?r' = "(shared_ring s)\<lparr>RdOff := rd\<rparr>"
  obtain m where a: "ahead ?r rd m" and bytes: "bytes = take m (contents ?r)"
    using r_publish(2) inv by (auto simp: spsc_inv_def)
  have adv: "ring_ok ?r' \<and> contents ?r' = drop m (contents ?r)"
    using a inv by (intro ring_advance) (auto simp: ahead_def spsc_inv_def)
  then have "ring_used ?r' \<le> ring_used ?r" by (metis diff_le_self length_contents length_drop)
  then show ?thesis
    using r_publish(1) inv adv bytes writer_ok_frame [of rd ?r "writer s"]
    by (auto simp: spsc_inv_def)
qed

definition spsc0 :: "ring \<Rightarrow> spsc" where
  "spsc0 r = \<lparr>shared_ring = r, writer = W_idle, reader = R_idle, sent = [], got = []\<rparr>"

text \<open>C5. A ring shared by one writer (room check, the two copies, publication of the write offset)
  and one reader (look at the write offset, copy, publication of the read offset) without a
  lock, these accesses interleaved in any order, delivers the bytes in the order they were sent,
  none lost, none twice and none read before it was stored.\<close>

theorem spsc_fifo:
  assumes "ring_ok r" and "spsc_step\<^sup>*\<^sup>* (spsc0 r) s"
  shows "ring_ok (shared_ring s) \<and> contents r @ sent s = got s @ contents (shared_ring s)"
proof -
  have "spsc_inv (contents r) s"
    using assms(2)
  proof (induction rule: rtranclp_induct)
    case base
    then show ?case using assms(1) by (simp add: spsc_inv_def spsc0_def)
  next
    case (step s t)
    then show ?case using spsc_step_inv by blast
  qed
  then show ?thesis by (simp add: spsc_inv_def)
qed

end
