(* ===== verification/Rtt_Channel.thy ===== *)
theory Rtt_Channel
  imports Rtt_Fifo
begin

text \<open>
  The stream over the debug channel, \<^verbatim>\<open>src/RTT/SEGGER_RTT_Channel.c\<close>: the methods of
  \<open>RTTChannel\<close>, through which the shell reads commands and every part of the firmware prints.
  The methods that wait poll the control block every 50 ms; \<open>host k\<close> is what the probe does to
  it before the poll \<open>k\<close>. A method that may wait for ever returns an option.
\<close>

definition STM_OK :: int where "STM_OK = 0"
definition STM_RESET :: int where "STM_RESET = - 2"
definition rtt_MSG_TIMEOUT :: int where "rtt_MSG_TIMEOUT = - 1"
definition HAL_RET_SUCCESS :: int where "HAL_RET_SUCCESS = 0"
definition HAL_RET_UNKNOWN_CTL :: int where "HAL_RET_UNKNOWN_CTL = - 20"
definition CHN_CTL_NOP :: u32 where "CHN_CTL_NOP = 1"
definition rtt_TIME_IMMEDIATE :: u32 where "rtt_TIME_IMMEDIATE = 0"
definition rtt_TIME_INFINITE :: u32 where "rtt_TIME_INFINITE = - 1"

text \<open>
  The channel is configured for skip mode by \<open>RTTchannelObjectInit\<close>, so that a write does not
  wait; in the other modes \<open>host\<close> acts as in \<open>SEGGER_RTT_Write\<close>.
\<close>

definition RTTchannelObjectInit :: "rtt \<Rightarrow> rtt" where
  "RTTchannelObjectInit p =
     snd (SEGGER_RTT_ConfigUpBuffer 0 None None 0 SEGGER_RTT_MODE_NO_BLOCK_SKIP p)"

definition rtt_writes :: "(nat \<Rightarrow> ring \<Rightarrow> ring) \<Rightarrow> u8 list \<Rightarrow> u32 \<Rightarrow> rtt \<Rightarrow> (u32 \<times> rtt) option" where
  "rtt_writes host bp n p = SEGGER_RTT_Write host 0 bp n p"

text \<open>
  The loop of \<open>__reads\<close>: \<open>r\<close> counts the bytes in 16 bits, the bytes of each poll go to
  \<open>bp + r\<close>.
\<close>

partial_function (option) rtt_reads_loop ::
    "(nat \<Rightarrow> rtt \<Rightarrow> rtt) \<Rightarrow> nat \<Rightarrow> u16 \<Rightarrow> u8 list \<Rightarrow> u32 \<Rightarrow> rtt \<Rightarrow> (u32 \<times> u8 list \<times> rtt) option" where
  [code]: "rtt_reads_loop host k r bp n p =
     (let (m, bytes, p) = SEGGER_RTT_Read 0 (n - ucast r) (host k p);
          bp = mem_write (unat r) bytes bp;
          r = ucast (ucast r + m)
      in if ucast r = n then Some (n, bp, p) else rtt_reads_loop host (Suc k) r bp n p)"

definition rtt_reads :: "(nat \<Rightarrow> rtt \<Rightarrow> rtt) \<Rightarrow> u8 list \<Rightarrow> u32 \<Rightarrow> rtt \<Rightarrow> (u32 \<times> u8 list \<times> rtt) option" where
  "rtt_reads host bp n p = rtt_reads_loop host 0 0 bp n p"

definition rtt_put :: "(nat \<Rightarrow> ring \<Rightarrow> ring) \<Rightarrow> u8 \<Rightarrow> rtt \<Rightarrow> (int \<times> rtt) option" where
  "rtt_put host b p = map_option (\<lambda>(n, p). (if n \<noteq> 0 then STM_OK else STM_RESET, p))
     (SEGGER_RTT_Write host 0 [b] 1 p)"

partial_function (option) rtt_get_loop :: "(nat \<Rightarrow> rtt \<Rightarrow> rtt) \<Rightarrow> nat \<Rightarrow> rtt \<Rightarrow> (int \<times> rtt) option" where
  [code]: "rtt_get_loop host k p =
     (let (b, p) = SEGGER_RTT_GetKey (host k p)
      in if b < 0 then rtt_get_loop host (Suc k) p else Some (b, p))"

definition rtt_get :: "(nat \<Rightarrow> rtt \<Rightarrow> rtt) \<Rightarrow> rtt \<Rightarrow> (int \<times> rtt) option" where
  "rtt_get host p = rtt_get_loop host 0 p"

definition rtt_putt :: "(nat \<Rightarrow> ring \<Rightarrow> ring) \<Rightarrow> u8 \<Rightarrow> u32 \<Rightarrow> rtt \<Rightarrow> (int \<times> rtt) option" where
  "rtt_putt host b timeout p = rtt_put host b p"

text \<open>\<open>host 0\<close> acts before the first look, \<open>host (k + 1)\<close> while the thread sleeps.\<close>

definition rtt_gett :: "(nat \<Rightarrow> rtt \<Rightarrow> rtt) \<Rightarrow> u32 \<Rightarrow> rtt \<Rightarrow> (int \<times> rtt) option" where
  "rtt_gett host timeout p =
     (let (b, p) = SEGGER_RTT_GetKey (host 0 p)
      in if b \<ge> 0 then Some (b, p)
         else if timeout = rtt_TIME_IMMEDIATE then Some (rtt_MSG_TIMEOUT, p)
         else if timeout = rtt_TIME_INFINITE then rtt_get_loop host 1 p
         else let (b, p) = SEGGER_RTT_GetKey (host 1 p)
              in if b \<ge> 0 then Some (b, p) else Some (rtt_MSG_TIMEOUT, p))"

definition rtt_writet ::
    "(nat \<Rightarrow> ring \<Rightarrow> ring) \<Rightarrow> u8 list \<Rightarrow> u32 \<Rightarrow> u32 \<Rightarrow> rtt \<Rightarrow> (u32 \<times> rtt) option" where
  "rtt_writet host bp n timeout p = rtt_writes host bp n p"

definition rtt_readt ::
    "(nat \<Rightarrow> rtt \<Rightarrow> rtt) \<Rightarrow> u8 list \<Rightarrow> u32 \<Rightarrow> u32 \<Rightarrow> rtt \<Rightarrow> (u32 \<times> u8 list \<times> rtt) option" where
  "rtt_readt host bp n timeout p =
     (if timeout = rtt_TIME_INFINITE then rtt_reads_loop host 0 0 bp n p
      else
        let (m, bytes, p) = SEGGER_RTT_Read 0 n (host 0 p);
            bp = mem_write 0 bytes bp;
            r = ucast m :: u16
        in if timeout = rtt_TIME_IMMEDIATE then Some (ucast r, bp, p)
           else let (m, bytes, p) = SEGGER_RTT_Read 0 (n - ucast r) (host 1 p);
                    bp = mem_write (unat r) bytes bp;
                    r = ucast (ucast r + m) :: u16
                in Some (ucast r, bp, p))"

text \<open>\<open>osalDbgCheck\<close> compiles to nothing: \<^verbatim>\<open>CH_DBG_ENABLE_CHECKS\<close> is \<open>FALSE\<close>.\<close>

definition rtt_ctl :: "u32 \<Rightarrow> int" where
  "rtt_ctl operation = (if operation = CHN_CTL_NOP then HAL_RET_SUCCESS else HAL_RET_UNKNOWN_CTL)"

subsection \<open>Reading\<close>

text \<open>
  The 16-bit counter never equals a larger number of bytes: a read of 65536 bytes or more
  does not return, whatever arrives.
\<close>

lemma unat_u16: "unat (r :: u16) < 65536"
  using unsigned_less [of r, where 'a = nat] by simp

lemma unat_ucast_u16_u32 [simp]: "unat (ucast (r :: u16) :: u32) = unat r"
  using unat_u16 [of r] by (simp add: unsigned_ucast_eq take_bit_nat_eq_self)

text \<open>The blocking read of the stream for 65536 bytes or more never returns, because its
  counter has 16 bits.\<close>

theorem reads_wide_never_returns:
  assumes "65536 \<le> unat n"
  shows "rtt_reads host bp n p = None"
proof (rule ccontr)
  let ?P = "\<lambda>h (k :: nat) (r :: u16) (bp :: u8 list) (n :: u32) (p :: rtt) (y :: u32 \<times> u8 list \<times> rtt).
      unat n < 65536"
  assume "rtt_reads host bp n p \<noteq> None"
  then obtain y where y: "rtt_reads_loop host 0 0 bp n p = Some y" by (auto simp: rtt_reads_def)
  have "?P host 0 0 bp n p y"
  proof (rule rtt_reads_loop.raw_induct [of ?P, OF _ y])
    fix f :: "(nat \<Rightarrow> rtt \<Rightarrow> rtt) \<Rightarrow> nat \<Rightarrow> u16 \<Rightarrow> u8 list \<Rightarrow> u32 \<Rightarrow> rtt \<Rightarrow> (u32 \<times> u8 list \<times> rtt) option"
      and h k r bp n p y
    assume IH: "\<And>h k r bp n p y. f h k r bp n p = Some y \<Longrightarrow> unat n < 65536"
      and body: "(let (m, bytes, p) = SEGGER_RTT_Read 0 (n - ucast r) (h k p);
        bp = mem_write (unat r) bytes bp; r = ucast (ucast r + m)
        in if ucast r = n then Some (n, bp, p) else f h (Suc k) r bp n p) = Some y"
    obtain m bytes q where rd: "SEGGER_RTT_Read 0 (n - ucast r) (h k p) = (m, bytes, q)"
      by (metis prod.exhaust)
    show "unat n < 65536"
    proof (cases "ucast (ucast (ucast r + m :: u32) :: u16) = n")
      case True
      then show ?thesis using unat_u16 by (metis unat_ucast_u16_u32)
    next
      case False
      then show ?thesis using body rd IH by (simp add: Let_def)
    qed
  qed
  with assms show False by simp
qed

text \<open>
  Input as the shell gets it: the down channel of the terminal holds the bytes \<open>c\<close> that are
  not read yet.
\<close>

definition line_in :: "u8 list \<Rightarrow> rtt \<Rightarrow> bool" where
  "line_in c p \<longleftrightarrow> down_open 0 p \<and> Flags (aDown p ! 0) = SEGGER_RTT_MODE_NO_BLOCK_SKIP \<and>
     contents (aDown p ! 0) = c"

text \<open>What the user types while the target sleeps: the probe stores the bytes \<open>feed k\<close>.\<close>

definition typing :: "(nat \<Rightarrow> u8 list) \<Rightarrow> nat \<Rightarrow> rtt \<Rightarrow> rtt" where
  "typing feed k p = snd (down_put 0 (feed k) p)"

lemma line_in_ring:
  assumes "line_in c p"
  shows "rtt_ready p" "ring_ok (aDown p ! 0)" "capacity (aDown p ! 0) = 15"
    "ring_used (aDown p ! 0) = length c"
proof -
  show "rtt_ready p" "ring_ok (aDown p ! 0)" "capacity (aDown p ! 0) = 15"
    using assms down_openD [of 0 p]
    by (auto simp: line_in_def rtt_ready_def capacity_def BUFFER_SIZE_DOWN_def)
  show "ring_used (aDown p ! 0) = length c"
    using assms by (auto simp: line_in_def)
qed

lemma set_down_line:
  assumes "line_in c p" and "ring_ok r" and "same_ring (aDown p ! 0) r" and "contents r = d"
  shows "line_in d (set_down 0 r p)"
  using assms set_down_open [of 0 p r] down_openD(3) [of 0 p] by (auto simp: line_in_def same_ring_def)

lemma typing_line:
  assumes line: "line_in c p" and fits: "length c + length (feed k) \<le> 15"
  shows "line_in (c @ feed k) (typing feed k p)" and "aUp (typing feed k p) = aUp p"
proof -
  let ?r = "aDown p ! 0" and ?N = "of_nat (length (feed k)) :: u32"
  note L = line_in_ring [OF line]
  have N: "unat ?N = length (feed k)" using fits by (simp add: unat_of_nat)
  have mode: "Flags ?r = SEGGER_RTT_MODE_NO_BLOCK_SKIP" using line by (simp add: line_in_def)
  then have nb: "Flags ?r \<noteq> SEGGER_RTT_MODE_BLOCK_IF_FIFO_FULL" by (simp add: rtt_modes)
  have le: "unat ?N \<le> length (feed k)" using N by simp
  have m: "length (feed k) = stored (Flags ?r) (capacity ?r - ring_used ?r) (unat ?N)"
    using L fits N mode by (auto simp: stored_def)
  obtain st r' where w: "ring_write idle (feed k) ?N ?r = Some (st, r')"
    and r': "ring_ok r'" "contents r' = contents ?r @ take (length (feed k)) (feed k)" "same_ring ?r r'"
    using ring_write_outcome [OF L(2) le nb m] by metis
  have eq: "typing feed k p = set_down 0 r' p"
    using w L(1)
    by (simp add: typing_def down_put_def SEGGER_RTT_WriteDownBuffer_def SEGGER_RTT_WriteDownBufferNoLock_def)
  then show "line_in (c @ feed k) (typing feed k p)"
    using set_down_line [OF line r'(1,3)] r'(2) line by (simp add: line_in_def)
  show "aUp (typing feed k p) = aUp p" unfolding eq by simp
qed

lemma read_line:
  assumes line: "line_in c p" and rd: "SEGGER_RTT_Read 0 m p = (nb, bytes, p')"
  shows "unat nb = min (length c) (unat m)" and "bytes = take (unat m) c" and "line_in (drop (unat m) c) p'"
    and "aUp p' = aUp p"
proof -
  note L = line_in_ring [OF line]
  obtain r' where rr: "ring_read m (aDown p ! 0) = (nb, bytes, r')" and p': "p' = set_down 0 r' p"
    using rd L(1) by (auto simp: SEGGER_RTT_Read_def SEGGER_RTT_ReadNoLock_def split: prod.splits)
  note R = ring_read_ok [OF L(2) rr] and F = ring_read_fifo [OF L(2) rr]
  have c: "contents (aDown p ! 0) = c" using line by (simp add: line_in_def)
  show "unat nb = min (length c) (unat m)" using R L by simp
  show "bytes = take (unat m) c" using F(3) c by simp
  show "line_in (drop (unat m) c) p'"
    unfolding p' using F c by (intro set_down_line [OF line]) simp_all
  show "aUp p' = aUp p" unfolding p' by simp
qed

lemma mem_write_append:
  assumes "length a + length b \<le> length m"
  shows "mem_write (length a) b (mem_write 0 a m) = mem_write 0 (a @ b) m"
  using assms by (simp add: mem_write_def add.commute)

text \<open>One poll: either the bytes typed complete the request, or all of them are taken.\<close>

lemma reads_poll:
  assumes line: "line_in [] p" and feed: "length (feed k) \<le> 15"
    and r: "unat r \<le> unat n" and n: "unat n < 65536"
  obtains p' where "line_in (drop (unat n - unat r) (feed k)) p'" and "aUp p' = aUp p"
    and "unat n \<le> unat r + length (feed k) \<Longrightarrow>
      rtt_reads_loop (typing feed) k r bp n p =
        Some (n, mem_write (unat r) (take (unat n - unat r) (feed k)) bp, p')"
    and "unat r + length (feed k) < unat n \<Longrightarrow>
      \<exists>r'. unat r' = unat r + length (feed k) \<and> rtt_reads_loop (typing feed) k r bp n p =
        rtt_reads_loop (typing feed) (Suc k) r' (mem_write (unat r) (feed k) bp) n p'"
proof -
  let ?sz = "n - ucast r"
  have sz: "unat ?sz = unat n - unat r" using r by (simp add: unat_sub_u32)
  obtain m bytes p' where rd: "SEGGER_RTT_Read 0 ?sz (typing feed k p) = (m, bytes, p')"
    by (metis prod.exhaust)
  have typed: "line_in (feed k) (typing feed k p)" and up: "aUp (typing feed k p) = aUp p"
    using typing_line [OF line, of feed k] feed by simp_all
  note R = read_line [OF typed rd, unfolded sz]
  let ?r' = "ucast (ucast r + m) :: u16"
  have sum: "unat (ucast r + m) = unat r + min (length (feed k)) (unat n - unat r)"
    using R(1) n r by (subst unat_add_u32) auto
  then have r': "unat ?r' = unat r + min (length (feed k)) (unat n - unat r)"
    using n r by (simp add: unsigned_ucast_eq take_bit_nat_eq_self)
  then have "unat (ucast ?r' :: u32) = unat r + min (length (feed k)) (unat n - unat r)"
    by (simp only: unat_ucast_u16_u32)
  then have fin: "ucast ?r' = n \<longleftrightarrow> unat n \<le> unat r + length (feed k)"
    using r by (auto simp: word_unat_eq_iff)
  have step: "rtt_reads_loop (typing feed) k r bp n p =
      (if ucast ?r' = n then Some (n, mem_write (unat r) bytes bp, p')
       else rtt_reads_loop (typing feed) (Suc k) ?r' (mem_write (unat r) bytes bp) n p')"
    by (subst rtt_reads_loop.simps) (simp add: rd Let_def)
  show thesis
  proof (rule that [OF R(3) R(4) [unfolded up]])
    assume "unat r + length (feed k) < unat n"
    then show "\<exists>r'. unat r' = unat r + length (feed k) \<and> rtt_reads_loop (typing feed) k r bp n p =
        rtt_reads_loop (typing feed) (Suc k) r' (mem_write (unat r) (feed k) bp) n p'"
      using step fin r' R(2) by (intro exI [of _ ?r']) auto
  qed (use step fin R(2) in simp)
qed

text \<open>
  The loop from the poll \<open>k\<close> on: everything typed before has been read, and the typing
  reaches \<open>n\<close> bytes \<open>d\<close> polls later.
\<close>

lemma reads_loop_total:
  assumes "line_in [] p" and "\<And>j. length (feed j) \<le> 15"
    and "length (concat (map feed [0..<k])) = unat r"
    and "unat r \<le> unat n" and "unat n < 65536" and "unat n \<le> length bp"
    and "unat n \<le> length (concat (map feed [0..<Suc k + d]))"
  shows "\<exists>p'. rtt_reads_loop (typing feed) k r (mem_write 0 (concat (map feed [0..<k])) bp) n p =
    Some (n, mem_write 0 (take (unat n) (concat (map feed [0..<Suc k + d]))) bp, p')"
  using assms
proof (induction d arbitrary: k r p)
  case (0 k r p)
  let ?before = "concat (map feed [0..<k])"
  have all: "unat n \<le> unat r + length (feed k)" using 0 by simp
  obtain p' where "rtt_reads_loop (typing feed) k r (mem_write 0 ?before bp) n p =
      Some (n, mem_write (unat r) (take (unat n - unat r) (feed k)) (mem_write 0 ?before bp), p')"
    by (rule reads_poll [where feed = feed and k = k and bp = "mem_write 0 ?before bp", OF 0(1) 0(2) 0(4,5)]) (use all in blast)
  moreover have "mem_write (unat r) (take (unat n - unat r) (feed k)) (mem_write 0 ?before bp) =
      mem_write 0 (take (unat n) (?before @ feed k)) bp"
    using mem_write_append [of ?before "take (unat n - unat r) (feed k)" bp] 0 by simp
  ultimately show ?case by simp
next
  case (Suc d)
  let ?before = "concat (map feed [0..<k])" and ?after = "concat (map feed [0..<Suc k + Suc d])"
  have after: "?after = ?before @ feed k @ concat (map feed [Suc k..<Suc k + Suc d])"
    using upt_add_eq_append [of 0 k "Suc (Suc d)"] upt_conv_Cons [of k "Suc k + Suc d"]
    by (simp del: upt_Suc)
  obtain p' where p': "line_in (drop (unat n - unat r) (feed k)) p'"
    and stop: "unat n \<le> unat r + length (feed k) \<Longrightarrow>
      rtt_reads_loop (typing feed) k r (mem_write 0 ?before bp) n p =
        Some (n, mem_write (unat r) (take (unat n - unat r) (feed k)) (mem_write 0 ?before bp), p')"
    and more: "unat r + length (feed k) < unat n \<Longrightarrow>
      \<exists>r'. unat r' = unat r + length (feed k) \<and> rtt_reads_loop (typing feed) k r (mem_write 0 ?before bp) n p =
        rtt_reads_loop (typing feed) (Suc k) r' (mem_write (unat r) (feed k) (mem_write 0 ?before bp)) n p'"
    by (rule reads_poll [where feed = feed and k = k and bp = "mem_write 0 ?before bp", OF Suc.prems(1) Suc.prems(2) Suc.prems(4,5)])
      blast
  show ?case
  proof (cases "unat n \<le> unat r + length (feed k)")
    case True
    have "mem_write (unat r) (take (unat n - unat r) (feed k)) (mem_write 0 ?before bp) =
        mem_write 0 (take (unat n) ?after) bp"
      using mem_write_append [of ?before "take (unat n - unat r) (feed k)" bp] Suc.prems True
      unfolding after by simp
    then show ?thesis using stop [OF True] by simp
  next
    case False
    then obtain r' where r': "unat r' = unat r + length (feed k)"
      and loop: "rtt_reads_loop (typing feed) k r (mem_write 0 ?before bp) n p =
        rtt_reads_loop (typing feed) (Suc k) r' (mem_write (unat r) (feed k) (mem_write 0 ?before bp)) n p'"
      using more by auto
    have "mem_write (unat r) (feed k) (mem_write 0 ?before bp) = mem_write 0 (concat (map feed [0..<Suc k])) bp"
      using mem_write_append [of ?before "feed k" bp] Suc.prems False by simp
    moreover have "line_in [] p'" using p' False by simp
    ultimately show ?thesis
      using Suc.IH [of p' "Suc k" r'] Suc.prems r' False loop by simp
  qed
qed

text \<open>The blocking read of the stream for less than 65536 bytes returns as soon as the probe
  has delivered that many, in pieces of any sizes at any polls, with exactly these bytes in
  order.\<close>

theorem reads_returns_typed_bytes:
  assumes "line_in [] p" and "\<And>k. length (feed k) \<le> 15" and "unat n < 65536" and "unat n \<le> length bp"
    and "unat n \<le> length (concat (map feed [0..<K]))"
  shows "\<exists>p'. rtt_reads (typing feed) bp n p =
    Some (n, take (unat n) (concat (map feed [0..<K])) @ drop (unat n) bp, p')"
proof -
  have n: "unat n \<le> length (concat (map feed [0..<Suc 0 + K]))" using assms(5) by simp
  have "take (unat n) (concat (map feed [0..<Suc 0 + K])) = take (unat n) (concat (map feed [0..<K]))"
    using assms(5) by simp
  then show ?thesis
    using reads_loop_total [OF assms(1,2) _ _ assms(3,4) n, of 0] assms(5) by (simp add: rtt_reads_def)
qed

end
