(* ===== verification/Rtt_Properties.thy ===== *)
theory Rtt_Properties
  imports Rtt_Spsc Rtt_Channel
begin

text \<open>
  The properties of the debug channel, stated over the functions of
  \<^verbatim>\<open>src/RTT/SEGGER_RTT.c\<close>: conversations over the up channel, blocking writes, the
  equivalence of the fast writers, the frames of \<open>SEGGER_RTT_TerminalOut\<close> and the value of
  \<open>SEGGER_RTT_GetBytesInBuffer\<close>.
\<close>

subsection \<open>A ring for the examples\<close>

text \<open>A ring of four bytes in the given mode; the reader is one byte before the end.\<close>

definition ring4 :: "u32 \<Rightarrow> ring" where
  "ring4 mode = \<lparr>sName = None, pBuffer = Some [0, 0, 0, 7], SizeOfBuffer = 4, WrOff = 0, RdOff = 3, Flags = mode\<rparr>"

definition rtt4 :: "u32 \<Rightarrow> rtt" where
  "rtt4 mode = set_up 2 (ring4 mode) (SEGGER_RTT_Init rtt_bss)"

lemma ring4_ok: "ring_ok (ring4 mode)" "contents (ring4 mode) = [7]" "capacity (ring4 mode) = 3"
  "ring_used (ring4 mode) = 1"
  by (simp_all add: ring4_def ring_ok_def ring_mem_def contents_def capacity_def ring_used_def window_def)

lemma rtt4_ready: "rtt_ready (rtt4 mode)" "up_ring 2 (rtt4 mode)" "aUp (rtt4 mode) ! 2 = ring4 mode"
proof -
  have r: "rtt_ready (SEGGER_RTT_Init rtt_bss)"
    unfolding SEGGER_RTT_Init_def by (rule Init_ready) (simp add: rtt_wf_def)
  then show "rtt_ready (rtt4 mode)"
    unfolding rtt4_def using ring4_ok by (intro set_up_ready) simp_all
  show "aUp (rtt4 mode) ! 2 = ring4 mode" "up_ring 2 (rtt4 mode)"
    using r by (simp_all add: rtt4_def rtt_ready_def up_ring_def rtt_consts) (simp add: ring4_def)
qed

subsection \<open>Conversations\<close>

text \<open>C4. Any sequence of SEGGER_RTT_Write and SEGGER_RTT_ReadUpBuffer calls on a non-blocking up
  channel behaves as a bounded queue: what was in the ring and what was accepted is what came
  out and what is still there, in order, and never more than the capacity is held.\<close>

theorem up_channel_fifo:
  assumes "up_open i p" and "fifo_run (up_put i) (up_get i) ops p = (received, accepted, p')"
  shows "up_open i p' \<and> contents (aUp p ! i) @ accepted = received @ contents (aUp p' ! i) \<and>
    length (contents (aUp p' ! i)) \<le> capacity (aUp p ! i)"
proof -
  note conv = up.conversation [OF assms]
  have "length (contents (aUp p ! i)) + ring_room (aUp p ! i) = capacity (aUp p ! i)"
    using ring_used_capacity [OF up_openD(2) [OF assms(1)]] by simp
  with conv show ?thesis by linarith
qed

theorem up_channel_fifo_witness:
  "\<exists>received accepted p'. up_open 2 (rtt4 0) \<and>
    fifo_run (up_put 2) (up_get 2) [Put [1, 2], Put [3], Get 2, Put [4]] (rtt4 0) = (received, accepted, p') \<and>
    [7] @ accepted = received @ contents (aUp p' ! 2) \<and> length (contents (aUp p' ! 2)) \<le> 3"
proof -
  have o: "up_open 2 (rtt4 0)" using rtt4_ready by (simp add: up_open_def ring4_def rtt_modes)
  obtain received accepted p' where
    run: "fifo_run (up_put 2) (up_get 2) [Put [1, 2], Put [3], Get 2, Put [4]] (rtt4 0) = (received, accepted, p')"
    by (metis prod.exhaust)
  show ?thesis using up_channel_fifo [OF o run] o run by (simp add: rtt4_ready ring4_ok)
qed

subsection \<open>Blocking writes\<close>

text \<open>C35. A blocking write to an up channel whose probe reads something again and again, whatever
  the amount it takes each time, returns with all bytes written, and nothing is lost: the bytes
  the probe has read meanwhile, followed by what the ring still holds, are exactly the old
  contents of the ring followed by the data.\<close>

theorem blocking_write_delivers:
  assumes "rtt_ready p" and "up_ring i p" and "Flags (aUp p ! i) = SEGGER_RTT_MODE_BLOCK_IF_FIFO_FULL"
    and "0 < capacity (aUp p ! i)" and "\<And>k. \<exists>j\<ge>k. quota j \<noteq> 0" and "unat N \<le> length bs"
  shows "\<exists>p' got. SEGGER_RTT_Write (probe quota) i bs N p = Some (N, p') \<and> rtt_ready p' \<and>
    watched_write quota bs N (aUp p ! i) = Some (N, got, aUp p' ! i) \<and>
    got @ contents (aUp p' ! i) = contents (aUp p ! i) @ take (unat N) bs"
proof -
  let ?r = "aUp p ! i"
  have ok: "ring_ok ?r" and i: "i < length (aUp p)"
    using assms(1,2) up_ring_ok by (auto simp: up_ring_def rtt_ready_def)
  have "writes_all (probe quota) 0 bs N ?r"
    by (rule fair_reader.loop_total [OF fair_probe [OF assms(5)] ok assms(4,6)])
  then obtain r' where w: "WriteBlocking (probe quota) bs N ?r = Some (N, r')"
    and app: "appended ?r (take (unat N) bs) r'"
    unfolding writes_all_def WriteBlocking_def by (metis add_0)
  obtain got where got: "watched_write quota bs N ?r = Some (N, got, r')" "got @ contents r' = contents ?r @ take (unat N) bs"
    using watched_loop_bytes [OF w [unfolded WriteBlocking_def] ok assms(6), of "[]"] by (auto simp: watched_write_def)
  have "SEGGER_RTT_Write (probe quota) i bs N p = Some (N, set_up i r' p)"
    using w assms(1,3)
    by (simp add: SEGGER_RTT_Write_def SEGGER_RTT_WriteNoLock_def ring_write_def rtt_modes)
  moreover have "rtt_ready (set_up i r' p)" by (rule appended_ready_up [OF assms(1) app])
  ultimately show ?thesis using got i by auto
qed

theorem blocking_write_delivers_witness:
  "\<exists>p' got. SEGGER_RTT_Write (probe (\<lambda>_. 1)) 2 [1, 2, 3, 4, 5, 6] 6 (rtt4 2) = Some (6, p') \<and>
    rtt_ready p' \<and> watched_write (\<lambda>_. 1) [1, 2, 3, 4, 5, 6] 6 (aUp (rtt4 2) ! 2) = Some (6, got, aUp p' ! 2) \<and>
    got @ contents (aUp p' ! 2) = [7, 1, 2, 3, 4, 5, 6]"
  using blocking_write_delivers [of "rtt4 2" 2 "\<lambda>_. 1" 6 "[1, 2, 3, 4, 5, 6]"]
  by (simp add: rtt4_ready ring4_ok) (auto simp: ring4_def rtt_modes)

subsection \<open>The fast writers\<close>

text \<open>In skip mode SEGGER_RTT_WriteNoLock stores exactly what SEGGER_RTT_WriteSkipNoLock
  stores, and for one byte it, SEGGER_RTT_PutCharSkipNoLock and SEGGER_RTT_PutChar return the
  same status and the same control block.\<close>

theorem fast_writers_agree:
  assumes "rtt_ready p" and "up_ring i p" and "Flags (aUp p ! i) = SEGGER_RTT_MODE_NO_BLOCK_SKIP"
  shows "SEGGER_RTT_WriteNoLock host i bs n p =
      (let (st, p') = SEGGER_RTT_WriteSkipNoLock i bs n p in Some (if st = 1 then n else 0, p')) \<and>
    SEGGER_RTT_WriteNoLock host i [c] 1 p = Some (SEGGER_RTT_PutCharSkipNoLock i c p) \<and>
    SEGGER_RTT_PutChar host i c p = Some (SEGGER_RTT_PutCharSkipNoLock i c p)"
proof (intro conjI)
  note ok = up_ring_ok [OF assms(1,2)]
  have mode: "Flags (aUp p ! i) \<noteq> SEGGER_RTT_MODE_BLOCK_IF_FIFO_FULL" using assms(3) by (simp add: rtt_modes)
  show "SEGGER_RTT_WriteNoLock host i bs n p =
      (let (st, p') = SEGGER_RTT_WriteSkipNoLock i bs n p in Some (if st = 1 then n else 0, p'))"
    using assms(3)
    by (simp add: SEGGER_RTT_WriteNoLock_def SEGGER_RTT_WriteSkipNoLock_def ring_write_skip_eq [OF ok]
        ring_write_def Let_def)
  show "SEGGER_RTT_WriteNoLock host i [c] 1 p = Some (SEGGER_RTT_PutCharSkipNoLock i c p)"
    using assms(3)
    by (simp add: SEGGER_RTT_WriteNoLock_def SEGGER_RTT_PutCharSkipNoLock_def ring_put_eq [OF ok]
        ring_write_def Let_def)
  show "SEGGER_RTT_PutChar host i c p = Some (SEGGER_RTT_PutCharSkipNoLock i c p)"
    using mode assms(1)
    by (simp add: SEGGER_RTT_PutChar_def SEGGER_RTT_PutCharSkipNoLock_def Let_def split: prod.splits)
qed

theorem fast_writers_agree_witness:
  "SEGGER_RTT_WriteNoLock idle 2 [1, 2] 2 (rtt4 0) =
      (let (st, p') = SEGGER_RTT_WriteSkipNoLock 2 [1, 2] 2 (rtt4 0) in Some (if st = 1 then 2 else 0, p')) \<and>
    SEGGER_RTT_WriteNoLock idle 2 [9] 1 (rtt4 0) = Some (SEGGER_RTT_PutCharSkipNoLock 2 9 (rtt4 0)) \<and>
    SEGGER_RTT_PutChar idle 2 9 (rtt4 0) = Some (SEGGER_RTT_PutCharSkipNoLock 2 9 (rtt4 0))"
proof (rule fast_writers_agree [OF rtt4_ready(1,2)])
  show "Flags (aUp (rtt4 0) ! 2) = SEGGER_RTT_MODE_NO_BLOCK_SKIP"
    unfolding rtt4_ready(3) by (simp add: ring4_def rtt_modes)
qed

subsection \<open>Output to another terminal\<close>

lemma writes_all_blocking:
  assumes "writes_all host 0 bs n r"
  obtains r' where "WriteBlocking host bs n r = Some (n, r')" and "appended r (take (unat n) bs) r'"
  using assms unfolding writes_all_def WriteBlocking_def by (metis add_0)

lemma appended_used: "appended r bs r' \<Longrightarrow> ring_used r' \<le> ring_used r + length bs"
  unfolding appended_def
  by (metis diff_le_self length_append length_contents length_drop)

text \<open>With room for the frame, the three writes end with any reader.\<close>

lemma switched_write_room:
  assumes host: "\<And>c. rtt_reader (host c)" and ok: "ring_ok r" and n: "unat n \<le> length s"
    and room: "ring_used r + (unat n + 4) \<le> capacity r"
  obtains r' where "switched_write host t s n a r = Some (n, r')"
    and "appended r (terminal_switch t @ take (unat n) s @ terminal_switch a) r'"
proof -
  have "writes_all (host 0) 0 (terminal_switch t) 2 r"
    by (rule rtt_reader.loop_room [OF host ok]) (use room in simp_all)
  then obtain r1 where w1: "WriteBlocking (host 0) (terminal_switch t) 2 r = Some (2, r1)"
    and a1: "appended r (terminal_switch t) r1" by (rule writes_all_blocking) simp
  then have r1: "ring_ok r1" "capacity r1 = capacity r" and u1: "ring_used r1 \<le> ring_used r + 2"
    using appended_used [OF a1] by (auto simp: appended_def same_ring_capacity)
  have "writes_all (host 1) 0 s n r1"
    by (rule rtt_reader.loop_room [OF host r1(1)]) (use room n r1 u1 in simp_all)
  then obtain r2 where w2: "WriteBlocking (host 1) s n r1 = Some (n, r2)"
    and a2: "appended r1 (take (unat n) s) r2" by (rule writes_all_blocking)
  then have r2: "ring_ok r2" "capacity r2 = capacity r" and u2: "ring_used r2 \<le> ring_used r + 2 + unat n"
    using appended_used [OF a2] r1 u1 n by (auto simp: appended_def same_ring_capacity)
  have "writes_all (host 2) 0 (terminal_switch a) 2 r2"
    by (rule rtt_reader.loop_room [OF host r2(1)]) (use room r2 u2 in simp_all)
  then obtain r3 where w3: "WriteBlocking (host 2) (terminal_switch a) 2 r2 = Some (2, r3)"
    and a3: "appended r2 (terminal_switch a) r3" by (rule writes_all_blocking) simp
  have "switched_write host t s n a r = Some (n, r3)"
    using w1 w2 w3 by (simp add: switched_write_def PostTerminalSwitch_def)
  then show thesis using that appended_trans [OF a1 appended_trans [OF a2 a3]] by blast
qed

text \<open>In skip mode SEGGER_RTT_TerminalOut appends the two bytes that select the terminal, the
  text and the two bytes that select the active terminal again, and returns the length of the
  text; when the frame does not fit it returns 0 and writes nothing.\<close>

theorem terminal_out_frames:
  assumes "rtt_ready p" and "Flags (aUp p ! 0) = SEGGER_RTT_MODE_NO_BLOCK_SKIP"
    and "\<And>c. rtt_reader (host c)" and "unat t < 16" and "n = length (takeWhile (\<lambda>c. c \<noteq> 0) s)"
    and "n < 2 ^ 31"
  shows "if ring_used (aUp p ! 0) + (n + 4) \<le> 1023
    then \<exists>p'. SEGGER_RTT_TerminalOut host t s p = Some (int n, p') \<and>
      appended (aUp p ! 0) (terminal_switch t @ take n s @ terminal_switch (ActiveTerminal p)) (aUp p' ! 0)
    else SEGGER_RTT_TerminalOut host t s p = Some (0, p)"
proof -
  let ?r = "aUp p ! 0" and ?n = "of_nat n :: u32"
  have ok: "ring_ok ?r" using assms(1) up_ring_ok by simp
  have cap: "capacity ?r = 1023" and i: "0 < length (aUp p)"
    using assms(1) by (simp_all add: rtt_ready_def capacity_def rtt_consts)
  have un: "unat ?n = n" using assms(6) by (simp add: unat_of_nat)
  have n4: "unat (?n + 4) = n + 4" using un assms(6) by (subst unat_add_u32) simp_all
  have nle: "n \<le> length s" unfolding assms(5) by (rule length_takeWhile_le)
  have fits: "AvailWriteSpace ?r < ?n + 4 \<longleftrightarrow> \<not> ring_used ?r + (n + 4) \<le> 1023"
    using AvailWriteSpace_eq [OF ok] cap n4 by (auto simp: word_less_nat_alt)
  have body: "SEGGER_RTT_TerminalOut host t s p =
      (if AvailWriteSpace ?r < ?n + 4 then Some (0, p)
       else map_option (\<lambda>(st, r). (sint st, set_up 0 r p)) (switched_write host t s ?n (ActiveTerminal p) ?r))"
    using assms(1,2,4,5) by (simp add: SEGGER_RTT_TerminalOut_def Let_def rtt_modes)
  show ?thesis
  proof (cases "ring_used ?r + (n + 4) \<le> 1023")
    case True
    have le: "unat ?n \<le> length s" using un nle by simp
    have room: "ring_used ?r + (unat ?n + 4) \<le> capacity ?r" using True un cap by simp
    obtain r' where w: "switched_write host t s ?n (ActiveTerminal p) ?r = Some (?n, r')"
      and app: "appended ?r (terminal_switch t @ take (unat ?n) s @ terminal_switch (ActiveTerminal p)) r'"
      by (rule switched_write_room [OF assms(3) ok le room])
    have "sint ?n = int n" using assms(6) by (simp add: signed_of_nat signed_take_bit_int_eq_self)
    then show ?thesis using True body fits w app i un by simp
  next
    case False
    then show ?thesis using body fits by simp
  qed
qed

subsection \<open>The fill level\<close>

text \<open>SEGGER_RTT_GetBytesInBuffer returns the number of bytes in the ring when the contents are
  in one piece, and twice the size of the buffer less that number when they wrap around.\<close>

theorem bytes_in_buffer_value:
  assumes "rtt_ready p" and "up_ring i p"
  shows "SEGGER_RTT_GetBytesInBuffer i p =
    (if RdOff (aUp p ! i) \<le> WrOff (aUp p ! i) then of_nat (ring_used (aUp p ! i))
     else 2 * SizeOfBuffer (aUp p ! i) - of_nat (ring_used (aUp p ! i)))"
proof -
  let ?r = "aUp p ! i"
  note ok = up_ring_ok [OF assms] and D = ring_okD [OF up_ring_ok [OF assms]]
  have "of_nat (ring_used ?r) = (if RdOff ?r \<le> WrOff ?r then WrOff ?r - RdOff ?r
      else SizeOfBuffer ?r - (RdOff ?r - WrOff ?r))"
    using D by (simp add: ring_used_cases [OF ok] word_le_nat_alt of_nat_diff)
  then show ?thesis
    by (simp add: SEGGER_RTT_GetBytesInBuffer_def Let_def)
qed

subsection \<open>Instances\<close>

lemma idle_reader: "rtt_reader idle"
  by unfold_locales (rule drains_refl)

lemma rtt_init_ready: "rtt_ready (SEGGER_RTT_Init rtt_bss)"
  unfolding SEGGER_RTT_Init_def by (rule Init_ready) (simp add: rtt_wf_def)

lemma rtt_init_rings:
  "aUp (SEGGER_RTT_Init rtt_bss) ! 0 = \<lparr>sName = Some ''Terminal'', pBuffer = Some (replicate 1024 0),
     SizeOfBuffer = 1024, WrOff = 0, RdOff = 0, Flags = 0\<rparr>"
  "aDown (SEGGER_RTT_Init rtt_bss) ! 0 = \<lparr>sName = Some ''Terminal'', pBuffer = Some (replicate 16 0),
     SizeOfBuffer = 16, WrOff = 0, RdOff = 0, Flags = 0\<rparr>"
  by (simp_all add: SEGGER_RTT_Init_def DoInit_def Let_def rtt_bss_def rtt_consts rtt_modes static_buffer_def
      zero_ring_def numeral_3_eq_3)

theorem terminal_out_frames_witness:
  "if ring_used (aUp (SEGGER_RTT_Init rtt_bss) ! 0) + (2 + 4) \<le> 1023
    then \<exists>p'. SEGGER_RTT_TerminalOut (\<lambda>_. idle) 5 [72, 105, 0] (SEGGER_RTT_Init rtt_bss) = Some (int 2, p') \<and>
      appended (aUp (SEGGER_RTT_Init rtt_bss) ! 0) (terminal_switch 5 @ take 2 [72, 105, 0] @
        terminal_switch (ActiveTerminal (SEGGER_RTT_Init rtt_bss))) (aUp p' ! 0)
    else SEGGER_RTT_TerminalOut (\<lambda>_. idle) 5 [72, 105, 0] (SEGGER_RTT_Init rtt_bss) =
      Some (0, SEGGER_RTT_Init rtt_bss)"
  by (rule terminal_out_frames [OF rtt_init_ready _ idle_reader])
    (simp_all add: rtt_init_rings rtt_modes)

theorem bytes_in_buffer_value_witness:
  "ring_used (aUp (rtt4 0) ! 2) = 1 \<and> SEGGER_RTT_GetBytesInBuffer 2 (rtt4 0) = 7"
  using bytes_in_buffer_value [OF rtt4_ready(1,2), of 0] unfolding rtt4_ready(3)
  by (simp add: ring4_ok) (simp add: ring4_def)

theorem rtt_calls_keep_wf_witness:
  "rtt_call\<^sup>*\<^sup>* rtt_bss (snd (SEGGER_RTT_GetKey (SEGGER_RTT_Init rtt_bss))) \<and>
    rtt_wf (snd (SEGGER_RTT_GetKey (SEGGER_RTT_Init rtt_bss)))"
proof -
  have "rtt_call rtt_bss (SEGGER_RTT_Init rtt_bss)" by (rule rtt_call.init)
  moreover have "rtt_call (SEGGER_RTT_Init rtt_bss) (snd (SEGGER_RTT_GetKey (SEGGER_RTT_Init rtt_bss)))"
    by (rule rtt_call.get_key [of _ "fst (SEGGER_RTT_GetKey (SEGGER_RTT_Init rtt_bss))"]) simp
  ultimately have run: "rtt_call\<^sup>*\<^sup>* rtt_bss (snd (SEGGER_RTT_GetKey (SEGGER_RTT_Init rtt_bss)))"
    by (meson converse_rtranclp_into_rtranclp r_into_rtranclp)
  with rtt_calls_keep_wf [OF run] show ?thesis by blast
qed

lemma init_line: "line_in [] (SEGGER_RTT_Init rtt_bss)"
  unfolding line_in_def down_open_def rtt_init_rings
  using rtt_init_ready ready_rings_0(2) by (simp add: rtt_modes contents_def ring_used_def)

theorem reads_returns_typed_bytes_witness:
  "\<exists>p'. rtt_reads (typing (\<lambda>k. [of_nat k, 65])) [0, 0, 0, 0] 3 (SEGGER_RTT_Init rtt_bss) =
    Some (3, [0, 65, 1, 0], p')"
  using reads_returns_typed_bytes [OF init_line, of "\<lambda>k. [of_nat k, 65]" 3 "[0, 0, 0, 0]" 2]
  by (simp add: upt_conv_Cons)

theorem reads_wide_never_returns_witness:
  "65536 \<le> unat (65536 :: u32) \<and> rtt_reads (\<lambda>_ p. p) [] 65536 rtt_bss = None"
  using reads_wide_never_returns [of 65536] by simp

text \<open>
  An interleaving in which the reader looks before the writer publishes: it gets the old byte
  only, and the new ones stay in the ring.
\<close>

theorem spsc_fifo_witness:
  "\<exists>s. spsc_step\<^sup>*\<^sup>* (spsc0 (ring4 0)) s \<and> sent s = [1, 2] \<and> got s = [7] \<and>
    contents (ring4 0) @ sent s = got s @ contents (shared_ring s)"
proof -
  let ?s0 = "spsc0 (ring4 0)" and ?r1 = "copy_first [1, 2] 2 (ring4 0)"
  let ?r2 = "copy_second [1, 2] 2 ?r1"
  let ?s1 = "?s0\<lparr>writer := W_room [1, 2] 2\<rparr>"
  let ?s2 = "?s1\<lparr>shared_ring := ?r1, writer := W_first [1, 2] 2\<rparr>"
  let ?s3 = "?s2\<lparr>reader := R_seen 0\<rparr>"
  let ?s4 = "?s3\<lparr>shared_ring := ?r2, writer := W_second [1, 2] 2\<rparr>"
  let ?r5 = "?r2\<lparr>WrOff := new_wr 2 ?r2\<rparr>"
  let ?s5 = "?s4\<lparr>shared_ring := ?r5, writer := W_idle, sent := [1, 2]\<rparr>"
  let ?s6 = "?s5\<lparr>reader := R_copied [7] 0\<rparr>"
  let ?s7 = "?s6\<lparr>shared_ring := ?r5\<lparr>RdOff := 0\<rparr>, reader := R_idle, got := [7]\<rparr>"
  have r1: "?r1 = (ring4 0)\<lparr>pBuffer := Some [1, 2, 0, 7]\<rparr>"
    by (simp add: copy_first_def ring4_def memcpy_to_def mem_write_def)
  have r2: "?r2 = ?r1" unfolding r1 by (simp add: copy_second_def ring4_def)
  have r5: "?r5 = (ring4 0)\<lparr>pBuffer := Some [1, 2, 0, 7], WrOff := 2\<rparr>"
    unfolding r1 by (simp add: copy_second_def new_wr_def ring4_def Let_def)
  have "spsc_step ?s0 ?s1"
    by (rule spsc_step.w_check) (simp_all add: spsc0_def ring4_def AvailWriteSpace_def)
  moreover have "spsc_step ?s1 ?s2"
    using spsc_step.w_first [of ?s1 "[1, 2]" 2] by (simp add: spsc0_def)
  moreover have "spsc_step ?s2 ?s3"
    using spsc_step.r_look [of ?s2] unfolding r1 by (simp add: spsc0_def ring4_def)
  moreover have "spsc_step ?s3 ?s4"
    using spsc_step.w_second [of ?s3 "[1, 2]" 2] by (simp add: spsc0_def)
  moreover have "spsc_step ?s4 ?s5"
    using spsc_step.w_publish [of ?s4 "[1, 2]" 2] by (simp add: spsc0_def)
  moreover have "spsc_step ?s5 ?s6"
    using spsc_step.r_copy [of ?s5 0 8 1 "[7]" "?r5\<lparr>WrOff := 0, RdOff := 0\<rparr>"] unfolding r5
    by (simp add: spsc0_def ring4_def ring_read_def memcpy_from_def ring_mem_def)
  moreover have "spsc_step ?s6 ?s7"
    using spsc_step.r_publish [of ?s6 "[7]" 0] by (simp add: spsc0_def)
  ultimately have run: "spsc_step\<^sup>*\<^sup>* ?s0 ?s7"
    by (meson converse_rtranclp_into_rtranclp r_into_rtranclp)
  from spsc_fifo [OF ring4_ok(1) run] run show ?thesis by (intro exI [of _ ?s7]) simp
qed

end
