(* ===== verification/Rtt_Overwrite.thy ===== *)
theory Rtt_Overwrite
  imports Rtt_Properties
begin

text \<open>
  \<open>SEGGER_RTT_WriteWithOverwriteNoLock\<close>, the writer that makes room by moving the read offset itself. Up to the capacity of the ring it keeps the latest
  bytes; beyond it the handling of repeated wrap-arounds is off by one byte.
\<close>

subsection \<open>Up to the capacity\<close>

lemma overwrite_avail_eq: "ring_ok r \<Longrightarrow> overwrite_avail r = AvailWriteSpace r"
  by (auto simp: overwrite_avail_def AvailWriteSpace_def Let_def not_less algebra_simps)

lemma wrap_rd_eq:
  assumes "unat rd < 2 * unat n"
  shows "\<exists>w. wrap_rd n rd = Some w \<and> unat w = unat rd mod unat n"
proof (cases "rd \<ge> n")
  case True
  then have d: "unat (rd - n) = unat rd - unat n" and le: "unat n \<le> unat rd"
    by (simp_all add: unat_sub_u32 word_le_nat_alt)
  then have "\<not> rd - n \<ge> n" using assms by (simp add: word_le_nat_alt)
  then have "wrap_rd n rd = Some (rd - n)" using True by (simp add: wrap_rd.simps)
  moreover have "unat rd mod unat n = unat rd - unat n" using assms le by (simp add: le_mod_geq)
  ultimately show ?thesis using d by simp
next
  case False
  then show ?thesis by (simp add: wrap_rd.simps word_le_nat_alt)
qed

text \<open>Writing up to the capacity is the plain two-piece write.\<close>

lemma overwrite_loop_eq:
  assumes ok: "ring_ok r" and N: "unat N \<le> capacity r"
  shows "overwrite_loop bs N (SizeOfBuffer r - WrOff r) r = Some (WriteNoCheck bs N r)"
proof (cases "SizeOfBuffer r - WrOff r > N")
  case True
  then show ?thesis by (simp add: overwrite_loop.simps WriteNoCheck_def Let_def)
next
  case False
  note D = ring_okD [OF ok]
  let ?rem = "SizeOfBuffer r - WrOff r"
  have rem: "unat ?rem = unat (SizeOfBuffer r) - unat (WrOff r)" by (rule rem_unat [OF ok])
  have le: "unat ?rem \<le> unat N" using False by (simp add: word_less_nat_alt)
  have "unat (SizeOfBuffer r - 1) = unat (SizeOfBuffer r) - 1" using D by (simp add: unat_sub_u32)
  moreover have "unat (N - ?rem) = unat N - unat ?rem" using le by (simp add: unat_sub_u32)
  ultimately have lt: "N - ?rem < SizeOfBuffer r - 1"
    using N le rem D by (simp add: word_less_nat_alt capacity_def)
  show ?thesis
  proof (cases "N - ?rem = 0")
    case True
    then show ?thesis
      using False by (subst overwrite_loop.simps) (simp add: WriteNoCheck_def Let_def memcpy_to_0)
  next
    case more: False
    have "overwrite_loop bs N ?rem r = overwrite_loop (drop (unat ?rem) bs) (N - ?rem) (SizeOfBuffer r - 1)
        ((memcpy_to (WrOff r) bs ?rem r)\<lparr>WrOff := 0\<rparr>)"
      using False more by (subst overwrite_loop.simps) (simp add: Let_def)
    also have "\<dots> = Some (WriteNoCheck bs N r)"
      using False lt
      by (subst overwrite_loop.simps) (simp add: WriteNoCheck_def Let_def memcpy_to_def)
    finally show ?thesis .
  qed
qed

text \<open>C36. SEGGER_RTT_WriteWithOverwriteNoLock of at most the capacity of the ring (a buffer of at
  most 2 to the 31 bytes) returns and leaves the latest bytes: the old contents followed by the
  new bytes, cut to the capacity from the front.\<close>

theorem overwrite_keeps_latest:
  assumes "rtt_ready p" and "up_ring i p" and "unat (SizeOfBuffer (aUp p ! i)) \<le> 2 ^ 31"
    and "unat N \<le> capacity (aUp p ! i)" and "unat N \<le> length bs"
  shows "\<exists>p'. SEGGER_RTT_WriteWithOverwriteNoLock i bs N p = Some p' \<and> rtt_ready p' \<and>
    contents (aUp p' ! i) =
      drop (ring_used (aUp p ! i) + unat N - capacity (aUp p ! i)) (contents (aUp p ! i) @ take (unat N) bs)"
proof -
  let ?r = "aUp p ! i"
  let ?x = "ring_used ?r + unat N - capacity ?r"
  note ok = up_ring_ok [OF assms(1,2)]
  note D = ring_okD [OF ok]
  have avail: "unat (AvailWriteSpace ?r) = capacity ?r - ring_used ?r" by (rule AvailWriteSpace_eq [OF ok])
  have x: "?x \<le> ring_used ?r" using assms(4) by simp
  obtain s where s: "overwrite_room N ?r = Some s" and ok': "ring_ok s"
    and c: "contents s = drop ?x (contents ?r)" and same: "same_ring ?r s" and wr: "WrOff s = WrOff ?r"
  proof (cases "N > AvailWriteSpace ?r")
    case False
    then have "?x = 0" using avail ring_used_capacity [OF ok] by (simp add: word_less_nat_alt)
    then show thesis
      using that [of ?r] False ok by (simp add: overwrite_room_def overwrite_avail_eq [OF ok])
  next
    case True
    then have d: "unat (N - AvailWriteSpace ?r) = ?x"
      using avail ring_used_capacity [OF ok] by (simp add: unat_sub_u32 word_less_nat_alt)
    have sum: "unat (RdOff ?r + (N - AvailWriteSpace ?r)) = unat (RdOff ?r) + ?x"
      using D x d assms(3) ring_used_less [OF ok] by (subst unat_add_u32) auto
    have "unat (RdOff ?r + (N - AvailWriteSpace ?r)) < 2 * unat (SizeOfBuffer ?r)"
      using sum D x ring_used_less [OF ok] by linarith
    then obtain w where w: "wrap_rd (SizeOfBuffer ?r) (RdOff ?r + (N - AvailWriteSpace ?r)) = Some w"
      "unat w = (unat (RdOff ?r) + ?x) mod unat (SizeOfBuffer ?r)"
      using wrap_rd_eq sum by metis
    have "overwrite_room N ?r = Some (?r\<lparr>RdOff := w\<rparr>)"
      using True w(1) by (simp add: overwrite_room_def overwrite_avail_eq [OF ok])
    then show thesis using that ring_advance [OF ok x w(2)] by simp
  qed
  have cap: "capacity s = capacity ?r" by (rule same_ring_capacity [OF same])
  have w: "ring_overwrite bs N ?r = Some (WriteNoCheck bs N s)"
    using overwrite_loop_eq [OF ok', of N bs] assms(4) cap by (simp add: ring_overwrite_def s)
  have "ring_used s = ring_used ?r - ?x" using arg_cong [OF c, of length] by simp
  then have room: "ring_used s + unat N \<le> capacity s"
    using cap assms(4) ring_used_capacity [OF ok] by linarith
  have res: "ring_ok (WriteNoCheck bs N s)" "contents (WriteNoCheck bs N s) = contents s @ take (unat N) bs"
    using WriteNoCheck_ok [OF ok' assms(5) room] by simp_all
  have "rtt_ready (set_up i (WriteNoCheck bs N s) p)"
    using res same_ring_trans [OF same WriteNoCheck_frame(1)]
    by (intro set_up_ready [OF assms(1)]) (auto simp: same_ring_def)
  moreover have "contents s @ take (unat N) bs = drop ?x (contents ?r @ take (unat N) bs)"
    using c x by simp
  moreover have "i < length (aUp p)" using assms(1,2) by (simp add: rtt_ready_def up_ring_def)
  ultimately show ?thesis using w res by (simp add: SEGGER_RTT_WriteWithOverwriteNoLock_def)
qed

theorem overwrite_keeps_latest_witness:
  "\<exists>p'. SEGGER_RTT_WriteWithOverwriteNoLock 2 [1, 2, 3] 3 (rtt4 0) = Some p' \<and> rtt_ready p' \<and>
    contents (aUp p' ! 2) = [1, 2, 3]"
  using overwrite_keeps_latest [OF rtt4_ready(1,2), of 0 3 "[1, 2, 3]"] unfolding rtt4_ready(3)
  by (simp add: ring4_ok) (simp add: ring4_def)

subsection \<open>Beyond the capacity\<close>

text \<open>
  After the first wrap-around the loop takes \<open>SizeOfBuffer - 1\<close> for the space up to the end. If
  exactly so many bytes are left, it treats them as one more wrap-around and sets the write
  offset to the start, where the read offset has been moved: nothing is left to read.
\<close>

text \<open>A write with overwriting of four bytes to an empty ring of four whose offsets are 3
  leaves an empty ring, not the latest three bytes: after the first wrap-around the room is
  taken one byte too small.\<close>

theorem overwrite_loses_everything:
  "ring_overwrite [1, 2, 3, 4] 4 \<lparr>sName = None, pBuffer = Some [0, 0, 0, 0], SizeOfBuffer = 4,
      WrOff = 3, RdOff = 3, Flags = 0\<rparr> =
    Some \<lparr>sName = None, pBuffer = Some [2, 3, 4, 1], SizeOfBuffer = 4, WrOff = 0, RdOff = 0, Flags = 0\<rparr> \<and>
   contents \<lparr>sName = None, pBuffer = Some [2, 3, 4, 1], SizeOfBuffer = 4, WrOff = 0, RdOff = 0, Flags = 0\<rparr> = []"
  by (simp add: ring_overwrite_def overwrite_room_def overwrite_avail_def wrap_rd.simps overwrite_loop.simps
      memcpy_to_def mem_write_def contents_def ring_used_def Let_def)

end
