(* ===== verification/Rtt_Printf.thy ===== *)
theory Rtt_Printf
  imports Rtt_Properties "HOL-Library.Monad_Syntax"
begin

text \<open>
  The formatted output of the debug channel, \<^verbatim>\<open>src/RTT/SEGGER_RTT_printf.c\<close>. Characters are
  collected in a buffer of 64 bytes on the stack and written to an up channel whenever the
  buffer is full. The state is the descriptor together with the control block; a function
  returns \<open>None\<close> when a blocking write does not return, or when the behaviour of the code is
  undefined: a division by zero, an index outside the digit table, a missing argument, a read
  behind the format string or the negation of the least integer. The field \<open>ReturnValue\<close> counts
  characters and is an unbounded integer here; the code has an \<open>int\<close>, which is enough for less
  than 2147483648 characters.
\<close>

subsection \<open>The descriptor\<close>

definition SEGGER_RTT_PRINTF_BUFFER_SIZE :: nat where "SEGGER_RTT_PRINTF_BUFFER_SIZE = 64"
definition FORMAT_FLAG_LEFT_JUSTIFY :: u32 where "FORMAT_FLAG_LEFT_JUSTIFY = 1"
definition FORMAT_FLAG_PAD_ZERO :: u32 where "FORMAT_FLAG_PAD_ZERO = 2"
definition FORMAT_FLAG_PRINT_SIGN :: u32 where "FORMAT_FLAG_PRINT_SIGN = 4"
definition FORMAT_FLAG_ALTERNATE :: u32 where "FORMAT_FLAG_ALTERNATE = 8"

lemmas format_flags = FORMAT_FLAG_LEFT_JUSTIFY_def FORMAT_FLAG_PAD_ZERO_def FORMAT_FLAG_PRINT_SIGN_def
  FORMAT_FLAG_ALTERNATE_def

record printf_desc =
  pd_pBuffer :: "u8 list"
  pd_BufferSize :: u32
  pd_Cnt :: u32
  pd_ReturnValue :: int
  pd_RTTBufferIndex :: nat

type_synonym pstate = "printf_desc \<times> rtt"

text \<open>
  The probe during the write that follows the character number \<open>k\<close> is \<open>host k\<close>.
\<close>

type_synonym printf_host = "nat \<Rightarrow> nat \<Rightarrow> ring \<Rightarrow> ring"

definition flush_desc :: "printf_host \<Rightarrow> printf_desc \<Rightarrow> rtt \<Rightarrow> (u32 \<times> rtt) option" where
  "flush_desc host d p =
     SEGGER_RTT_Write (host (nat (pd_ReturnValue d))) (pd_RTTBufferIndex d) (pd_pBuffer d) (pd_Cnt d) p"

definition StoreChar :: "printf_host \<Rightarrow> char \<Rightarrow> pstate \<Rightarrow> pstate option" where
  "StoreChar host c s =
     (let (d, p) = s;
          d = (if pd_Cnt d + 1 \<le> pd_BufferSize d then
                 d\<lparr>pd_pBuffer := (pd_pBuffer d)[unat (pd_Cnt d) := of_char c], pd_Cnt := pd_Cnt d + 1,
                   pd_ReturnValue := pd_ReturnValue d + 1\<rparr>
               else d)
      in if pd_Cnt d = pd_BufferSize d then
           do {
             (n, p) \<leftarrow> flush_desc host d p;
             Some (if n \<noteq> pd_Cnt d then d\<lparr>pd_ReturnValue := - 1\<rparr> else d\<lparr>pd_Cnt := 0\<rparr>, p)
           }
         else Some (d, p))"

definition failed :: "pstate \<Rightarrow> bool" where
  "failed s \<longleftrightarrow> pd_ReturnValue (fst s) < 0"

subsection \<open>Numbers\<close>

definition aV2C :: string where "aV2C = ''0123456789ABCDEF''"

text \<open>\<open>while (Number >= Base) { Number = Number / Base; Width++; }\<close>\<close>

partial_function (option) num_width :: "u32 \<Rightarrow> u32 \<Rightarrow> u32 \<Rightarrow> u32 option" where
  [code]: "num_width Base Number Width =
     (if Number \<ge> Base then if Base = 0 then None else num_width Base (Number div Base) (Width + 1)
      else Some Width)"

text \<open>
  \<open>while ((FieldWidth != 0u) && (Width < FieldWidth)) { FieldWidth--; _StoreChar(...); ... }\<close>,
  with the field width after the loop.
\<close>

function print_pad :: "printf_host \<Rightarrow> char \<Rightarrow> u32 \<Rightarrow> u32 \<Rightarrow> pstate \<Rightarrow> (u32 \<times> pstate) option" where
  "print_pad host c Width FieldWidth s =
     (if FieldWidth \<noteq> 0 \<and> Width < FieldWidth then
        (case StoreChar host c s of
           None \<Rightarrow> None
         | Some s \<Rightarrow> if failed s then Some (FieldWidth - 1, s) else print_pad host c Width (FieldWidth - 1) s)
      else Some (FieldWidth, s))"
  by auto
termination
  by (relation "measure (\<lambda>(host, c, w, f, s). unat f)") (auto simp: measure_unat)

declare print_pad.simps [simp del]

text \<open>
  The loop that computes \<open>Digit\<close>, the weight of the first digit: the first \<open>NumDigits - 1\<close>
  rounds do not look at the value. The loop can go on for ever (\<open>None\<close>), divide by a weight that has
  become zero (\<open>Some None\<close>), or find the weight.
\<close>

partial_function (option) find_digit :: "u32 \<Rightarrow> u32 \<Rightarrow> u32 \<Rightarrow> u32 \<Rightarrow> u32 option option" where
  [code]: "find_digit v Base NumDigits Digit =
     (if NumDigits > 1 then find_digit v Base (NumDigits - 1) (Digit * Base)
      else if Digit = 0 then Some None
      else if v div Digit < Base then Some (Some Digit)
      else find_digit v Base NumDigits (Digit * Base))"

partial_function (option) put_digits :: "printf_host \<Rightarrow> u32 \<Rightarrow> u32 \<Rightarrow> u32 \<Rightarrow> pstate \<Rightarrow> pstate option" where
  [code]: "put_digits host v Base Digit s =
     (let Div = v div Digit; v = v - Div * Digit
      in if unat Div < 16 then
           (case StoreChar host (aV2C ! unat Div) s of
              None \<Rightarrow> None
            | Some s \<Rightarrow>
                if failed s then Some s
                else let Digit = Digit div Base
                     in if Digit \<noteq> 0 then put_digits host v Base Digit s else Some s)
         else None)"

definition PrintUnsigned ::
    "printf_host \<Rightarrow> u32 \<Rightarrow> u32 \<Rightarrow> u32 \<Rightarrow> u32 \<Rightarrow> u32 \<Rightarrow> pstate \<Rightarrow> pstate option" where
  "PrintUnsigned host v Base NumDigits FieldWidth FormatFlags s =
     do {
       Width \<leftarrow> num_width Base v 1;
       let Width = (if NumDigits > Width then NumDigits else Width);
       (FieldWidth, s) \<leftarrow>
         (if FormatFlags AND FORMAT_FLAG_LEFT_JUSTIFY = 0 \<and> FieldWidth \<noteq> 0 then
            print_pad host
              (if FormatFlags AND FORMAT_FLAG_PAD_ZERO = FORMAT_FLAG_PAD_ZERO \<and> NumDigits = 0
               then CHR ''0'' else CHR '' '') Width FieldWidth s
          else Some (FieldWidth, s));
       if failed s then Some s
       else do {
         found \<leftarrow> find_digit v Base NumDigits 1;
         Digit \<leftarrow> found;
         s \<leftarrow> put_digits host v Base Digit s;
         if FormatFlags AND FORMAT_FLAG_LEFT_JUSTIFY = FORMAT_FLAG_LEFT_JUSTIFY \<and> FieldWidth \<noteq> 0
         then map_option snd (print_pad host (CHR '' '') Width FieldWidth s)
         else Some s
       }
     }"

text \<open>
  The argument is an \<open>int\<close>, here the word of its bits. After the negation the number is not
  negative, so that the signed comparison and division of the width loop are the unsigned ones.
\<close>

definition PrintInt ::
    "printf_host \<Rightarrow> u32 \<Rightarrow> u32 \<Rightarrow> u32 \<Rightarrow> u32 \<Rightarrow> u32 \<Rightarrow> pstate \<Rightarrow> pstate option" where
  "PrintInt host v Base NumDigits FieldWidth FormatFlags s =
     (if v = 0x80000000 then None
      else do {
        let Number = (if sint v < 0 then - v else v);
        Width \<leftarrow> num_width Base Number 1;
        let Width = (if NumDigits > Width then NumDigits else Width);
        let FieldWidth =
          (if FieldWidth > 0 \<and> (sint v < 0 \<or> FormatFlags AND FORMAT_FLAG_PRINT_SIGN = FORMAT_FLAG_PRINT_SIGN)
           then FieldWidth - 1 else FieldWidth);
        (FieldWidth, s) \<leftarrow>
          (if (FormatFlags AND FORMAT_FLAG_PAD_ZERO = 0 \<or> NumDigits \<noteq> 0) \<and>
              FormatFlags AND FORMAT_FLAG_LEFT_JUSTIFY = 0 \<and> FieldWidth \<noteq> 0
           then print_pad host (CHR '' '') Width FieldWidth s else Some (FieldWidth, s));
        if failed s then Some s
        else do {
          s \<leftarrow> (if sint v < 0 then StoreChar host (CHR ''-'') s
               else if FormatFlags AND FORMAT_FLAG_PRINT_SIGN = FORMAT_FLAG_PRINT_SIGN
               then StoreChar host (CHR ''+'') s else Some s);
          if failed s then Some s
          else do {
            (FieldWidth, s) \<leftarrow>
              (if FormatFlags AND FORMAT_FLAG_PAD_ZERO = FORMAT_FLAG_PAD_ZERO \<and>
                  FormatFlags AND FORMAT_FLAG_LEFT_JUSTIFY = 0 \<and> NumDigits = 0 \<and> FieldWidth \<noteq> 0
               then print_pad host (CHR ''0'') Width FieldWidth s else Some (FieldWidth, s));
            if failed s then Some s
            else PrintUnsigned host Number Base NumDigits FieldWidth FormatFlags s
          }
        }
      })"

subsection \<open>Formats\<close>

text \<open>The variable arguments.\<close>

datatype va = VInt u32 | VStr "string option"

record printf_spec =
  ps_flags :: u32
  ps_width :: u32
  ps_set :: bool
  ps_precision :: u32
  ps_char :: char

fun parse_flags :: "u32 \<Rightarrow> string \<Rightarrow> u32 \<times> string" where
  "parse_flags ff [] = (ff, [])"
| "parse_flags ff (c # f) =
     (if c = CHR ''-'' then parse_flags (ff OR FORMAT_FLAG_LEFT_JUSTIFY) f
      else if c = CHR ''0'' then parse_flags (ff OR FORMAT_FLAG_PAD_ZERO) f
      else if c = CHR ''+'' then parse_flags (ff OR FORMAT_FLAG_PRINT_SIGN) f
      else if c = CHR ''#'' then parse_flags (ff OR FORMAT_FLAG_ALTERNATE) f
      else (ff, c # f))"

text \<open>The decimal number of a width or a precision, and whether it has a digit.\<close>

fun parse_number :: "bool \<Rightarrow> u32 \<Rightarrow> string \<Rightarrow> bool \<times> u32 \<times> string" where
  "parse_number b n [] = (b, n, [])"
| "parse_number b n (c # f) =
     (if (of_char c :: nat) < 48 \<or> (of_char c :: nat) > 57 then (b, n, c # f)
      else parse_number True (n * 10 + (of_char c - 48)) f)"

definition parse_precision :: "va list \<Rightarrow> string \<Rightarrow> (bool \<times> u32 \<times> va list \<times> string) option" where
  "parse_precision args f =
     (case f of
        [] \<Rightarrow> Some (False, 0, args, f)
      | c # f' \<Rightarrow>
          if c = CHR ''.'' then
            (case f' of
               [] \<Rightarrow> Some (False, 0, args, f')
             | c' # f'' \<Rightarrow>
                 if c' = CHR ''*'' then
                   (case args of VInt v # args \<Rightarrow> Some (True, v, args, f'') | _ \<Rightarrow> None)
                 else let (b, n, f) = parse_number False 0 f' in Some (b, n, args, f))
          else Some (False, 0, args, f))"

text \<open>
  A conversion, from the character after the percent sign: its parts, the arguments that are
  left and the format behind its specifier. At the end of the format the code goes on behind
  the terminator, which is undefined.
\<close>

definition parse_spec :: "va list \<Rightarrow> string \<Rightarrow> (printf_spec \<times> va list \<times> string) option" where
  "parse_spec args f =
     (let (ff, f) = parse_flags 0 f;
          (_, fw, f) = parse_number False 0 f
      in case parse_precision args f of
           None \<Rightarrow> None
         | Some (b, n, args, f) \<Rightarrow>
             (case dropWhile (\<lambda>c. c = CHR ''l'' \<or> c = CHR ''h'') f of
                [] \<Rightarrow> None
              | c # f \<Rightarrow> Some (\<lparr>ps_flags = ff, ps_width = fw, ps_set = b, ps_precision = n, ps_char = c\<rparr>, args, f)))"

fun print_str :: "printf_host \<Rightarrow> bool \<Rightarrow> u32 \<Rightarrow> string \<Rightarrow> pstate \<Rightarrow> pstate option" where
  "print_str host b n [] s = Some s"
| "print_str host b n (c # cs) s =
     (if b \<and> n = 0 then Some s
      else (case StoreChar host c s of
              None \<Rightarrow> None
            | Some s \<Rightarrow> if failed s then Some s else print_str host b (n - 1) cs s))"

text \<open>The string of the argument ends before its first zero byte.\<close>

definition str_arg :: "string option \<Rightarrow> string" where
  "str_arg x = (case x of None \<Rightarrow> ''(NULL)'' | Some t \<Rightarrow> takeWhile (\<lambda>c. c \<noteq> CHR 0x00) t)"

definition print_spec :: "printf_host \<Rightarrow> printf_spec \<Rightarrow> va list \<Rightarrow> pstate \<Rightarrow> (va list \<times> pstate) option" where
  "print_spec host sp args s =
     (let c = ps_char sp
      in if c \<in> set ''cduxXp'' then
           (case args of
              VInt v # args \<Rightarrow>
                map_option (Pair args)
                  (if c = CHR ''c'' then StoreChar host (char_of (unat v)) s
                   else if c = CHR ''d'' then PrintInt host v 10 (ps_precision sp) (ps_width sp) (ps_flags sp) s
                   else if c = CHR ''u'' then PrintUnsigned host v 10 (ps_precision sp) (ps_width sp) (ps_flags sp) s
                   else if c = CHR ''p'' then PrintUnsigned host v 16 8 8 0 s
                   else PrintUnsigned host v 16 (ps_precision sp) (ps_width sp) (ps_flags sp) s)
            | _ \<Rightarrow> None)
         else if c = CHR ''s'' then
           (case args of
              VStr x # args \<Rightarrow>
                map_option (Pair args) (print_str host (ps_set sp \<and> x \<noteq> None) (ps_precision sp) (str_arg x) s)
            | _ \<Rightarrow> None)
         else if c = CHR ''%'' then map_option (Pair args) (StoreChar host (CHR ''%'') s)
         else Some (args, s))"

lemma parse_flags_shorter: "parse_flags ff f = (ff', f') \<Longrightarrow> length f' \<le> length f"
  by (induction ff f rule: parse_flags.induct) (auto split: if_splits)

lemma parse_number_shorter: "parse_number b n f = (b', n', f') \<Longrightarrow> length f' \<le> length f"
  by (induction b n f rule: parse_number.induct) (auto split: if_splits)

lemma parse_precision_shorter: "parse_precision args f = Some (b, n, args', f') \<Longrightarrow> length f' \<le> length f"
  using parse_number_shorter [of False 0 "tl f" b n f']
  by (cases f; cases "tl f") (auto simp: parse_precision_def Let_def split: if_splits list.splits va.splits prod.splits)

lemma parse_spec_shorter:
  assumes "parse_spec args f = Some (sp, args', f')"
  shows "length f' < length f"
proof -
  obtain ff f1 where 1: "parse_flags 0 f = (ff, f1)" by fastforce
  obtain b fw f2 where 2: "parse_number False 0 f1 = (b, fw, f2)" by (metis prod.exhaust)
  obtain b' n args2 f3 where 3: "parse_precision args f2 = Some (b', n, args2, f3)"
    and 4: "\<exists>c. dropWhile (\<lambda>c. c = CHR ''l'' \<or> c = CHR ''h'') f3 = c # f'"
    using assms 1 2 by (auto simp: parse_spec_def split: option.splits list.splits)
  have "length f' < length f3" using 4 length_dropWhile_le [of _ f3] by (metis Suc_le_eq length_Cons)
  then show ?thesis
    using parse_flags_shorter [OF 1] parse_number_shorter [OF 2] parse_precision_shorter [OF 3] by linarith
qed

function vprintf_loop :: "printf_host \<Rightarrow> string \<Rightarrow> va list \<Rightarrow> pstate \<Rightarrow> pstate option" where
  "vprintf_loop host [] args s = Some s"
| "vprintf_loop host (c # f) args s =
     (if c = CHR ''%'' then
        (case parse_spec args f of
           None \<Rightarrow> None
         | Some (sp, args, f) \<Rightarrow>
             (case print_spec host sp args s of
                None \<Rightarrow> None
              | Some (args, s) \<Rightarrow> if failed s then Some s else vprintf_loop host f args s))
      else
        (case StoreChar host c s of
           None \<Rightarrow> None
         | Some s \<Rightarrow> if failed s then Some s else vprintf_loop host f args s))"
  by pat_completeness auto
termination
  by (relation "measure (\<lambda>(host, f, args, s). length f)") (auto dest: parse_spec_shorter simp: less_SucI)

text \<open>The format string ends at its first zero byte; \<open>buf\<close> is what the array \<open>acBuffer\<close> holds before.\<close>

definition c_format :: "string \<Rightarrow> string" where
  "c_format f = takeWhile (\<lambda>c. c \<noteq> CHR 0x00) f"

definition SEGGER_RTT_vprintf ::
    "printf_host \<Rightarrow> u8 list \<Rightarrow> nat \<Rightarrow> string \<Rightarrow> va list \<Rightarrow> rtt \<Rightarrow> (int \<times> rtt) option" where
  "SEGGER_RTT_vprintf host buf BufferIndex sFormat args p =
     do {
       (d, p) \<leftarrow> vprintf_loop host (c_format sFormat) args
         (\<lparr>pd_pBuffer = buf, pd_BufferSize = of_nat SEGGER_RTT_PRINTF_BUFFER_SIZE, pd_Cnt = 0,
            pd_ReturnValue = 0, pd_RTTBufferIndex = BufferIndex\<rparr>, p);
       if pd_ReturnValue d > 0 then do {
         p \<leftarrow> (if pd_Cnt d \<noteq> 0 then map_option snd (flush_desc host d p) else Some p);
         Some (pd_ReturnValue d + uint (pd_Cnt d), p)
       }
       else Some (pd_ReturnValue d, p)
     }"

definition SEGGER_RTT_printf ::
    "printf_host \<Rightarrow> u8 list \<Rightarrow> nat \<Rightarrow> string \<Rightarrow> va list \<Rightarrow> rtt \<Rightarrow> (int \<times> rtt) option" where
  "SEGGER_RTT_printf host buf BufferIndex sFormat args p = SEGGER_RTT_vprintf host buf BufferIndex sFormat args p"

end
