(* ===== verification/Rtt_Format.thy ===== *)
theory Rtt_Format
  imports Rtt_Printf
begin

text \<open>
  What the formatted output of \<open>Rtt_Printf\<close> prints: a reference text for every conversion, and
  the proof that the loops of the code emit exactly that text through their 64-byte buffer.
\<close>

subsection \<open>Reference texts\<close>

function ndigits :: "nat \<Rightarrow> nat \<Rightarrow> nat" where
  "ndigits b v = (if b < 2 \<or> v < b then 1 else Suc (ndigits b (v div b)))"
  by auto
termination by (relation "measure snd") auto

declare ndigits.simps [simp del]

primrec digits_text :: "nat \<Rightarrow> nat \<Rightarrow> nat \<Rightarrow> string" where
  "digits_text b 0 v = []"
| "digits_text b (Suc n) v = aV2C ! (v div b ^ n mod b) # digits_text b n v"

definition has_flag :: "u32 \<Rightarrow> u32 \<Rightarrow> bool" where
  "has_flag ff f \<longleftrightarrow> ff AND f = f"

text \<open>The digits of a number, at least \<open>nd\<close> of them.\<close>

definition number_text :: "nat \<Rightarrow> nat \<Rightarrow> nat \<Rightarrow> string" where
  "number_text b nd v = digits_text b (max nd (ndigits b v)) v"

text \<open>A number with its sign in a field of \<open>fw\<close> characters.\<close>

definition field_text :: "u32 \<Rightarrow> nat \<Rightarrow> nat \<Rightarrow> string \<Rightarrow> string \<Rightarrow> string" where
  "field_text ff nd fw sign t =
     (let k = fw - length sign - length t
      in if has_flag ff FORMAT_FLAG_LEFT_JUSTIFY then sign @ t @ replicate k (CHR '' '')
         else if has_flag ff FORMAT_FLAG_PAD_ZERO \<and> nd = 0 then sign @ replicate k (CHR ''0'') @ t
         else replicate k (CHR '' '') @ sign @ t)"

definition uint_text :: "nat \<Rightarrow> u32 \<Rightarrow> nat \<Rightarrow> nat \<Rightarrow> nat \<Rightarrow> string" where
  "uint_text b ff nd fw v = field_text ff nd fw [] (number_text b nd v)"

definition sign_text :: "u32 \<Rightarrow> int \<Rightarrow> string" where
  "sign_text ff v = (if v < 0 then ''-'' else if has_flag ff FORMAT_FLAG_PRINT_SIGN then ''+'' else [])"

definition int_text :: "nat \<Rightarrow> u32 \<Rightarrow> nat \<Rightarrow> nat \<Rightarrow> int \<Rightarrow> string" where
  "int_text b ff nd fw v = field_text ff nd fw (sign_text ff v) (number_text b nd (nat \<bar>v\<bar>))"

subsection \<open>Digits\<close>

lemma ndigits_pos [simp]: "0 < ndigits b v"
  by (simp add: ndigits.simps [of b v])

lemma ndigits_le_iff:
  assumes "2 \<le> b"
  shows "ndigits b v \<le> Suc j \<longleftrightarrow> v < b ^ Suc j"
proof (induction j arbitrary: v)
  case 0
  then show ?case using assms by (simp add: ndigits.simps [of b v])
next
  case (Suc j)
  show ?case
  proof (cases "v < b")
    case True
    then have "v < b ^ Suc (Suc j)" using assms by (meson less_le_trans self_le_power zero_less_Suc le_trans one_le_numeral)
    then show ?thesis using True by (simp add: ndigits.simps [of b v])
  next
    case False
    then have "ndigits b v \<le> Suc (Suc j) \<longleftrightarrow> v div b < b ^ Suc j"
      using assms Suc.IH [of "v div b"] by (simp add: ndigits.simps [of b v])
    also have "\<dots> \<longleftrightarrow> v < b ^ Suc j * b" using assms by (simp add: div_less_iff_less_mult)
    finally show ?thesis by (simp add: mult.commute)
  qed
qed

lemma ndigits_bound:
  assumes "2 \<le> b" and "v < 2 ^ 32"
  shows "ndigits b v \<le> 32"
proof -
  have "v < b ^ Suc 31" using assms power_mono [of 2 b 32] by simp
  then show ?thesis using ndigits_le_iff [OF assms(1), of v 31] by simp
qed

lemma ndigits_power_le:
  assumes "2 \<le> b" and "ndigits b v = Suc (Suc j)"
  shows "b ^ Suc j \<le> v"
  using ndigits_le_iff [OF assms(1), of v j] assms(2) by simp

lemma digit_mod:
  fixes v b :: nat
  assumes "k < n"
  shows "v mod b ^ n div b ^ k mod b = v div b ^ k mod b"
proof (cases "b = 0")
  case False
  obtain m where m: "n = k + Suc m" using assms less_imp_Suc_add by auto
  have "v mod b ^ n div b ^ k = v div b ^ k mod b ^ Suc m"
    using False unfolding m power_add by (simp add: mod_mult2_eq)
  moreover have "x mod b ^ Suc m mod b = x mod b" for x by (rule mod_mod_cancel) simp
  ultimately show ?thesis by simp
qed (use assms in \<open>simp add: power_0_left\<close>)

lemma digits_text_mod: "m \<le> n \<Longrightarrow> digits_text b m (v mod b ^ n) = digits_text b m v"
  by (induction m) (simp_all add: digit_mod)

lemma length_digits_text [simp]: "length (digits_text b n v) = n"
  by (induction n) simp_all

lemma length_number_text [simp]: "length (number_text b nd v) = max nd (ndigits b v)"
  by (simp add: number_text_def)

subsection \<open>The loops that compute\<close>

lemma num_width_eq:
  assumes "2 \<le> unat B"
  shows "num_width B v w = Some (w + of_nat (ndigits (unat B) (unat v) - 1))"
proof (induction "unat v" arbitrary: v w rule: less_induct)
  case less
  show ?case
  proof (cases "B \<le> v")
    case True
    have lt: "unat (v div B) < unat v"
      using assms True by (simp add: unat_div word_le_nat_alt)
    have nz: "B \<noteq> 0" using assms by auto
    have "ndigits (unat B) (unat v) = Suc (ndigits (unat B) (unat v div unat B))"
      using assms True by (simp add: ndigits.simps [of "unat B" "unat v"] word_le_nat_alt)
    moreover have "0 < ndigits (unat B) (unat v div unat B)" by simp
    then have "1 + of_nat (ndigits (unat B) (unat v div unat B) - 1) =
        (of_nat (ndigits (unat B) (unat v div unat B)) :: u32)"
      by (metis Suc_pred' of_nat_Suc)
    ultimately show ?thesis
      using less [OF lt, of "w + 1"] True nz
      by (subst num_width.simps) (simp add: unat_div add.assoc)
  next
    case False
    then show ?thesis
      by (subst num_width.simps) (simp add: ndigits.simps [of "unat B" "unat v"] word_le_nat_alt)
  qed
qed

lemma unat_mult_u32: "unat x * unat y < 2 ^ 32 \<Longrightarrow> unat (x * y :: u32) = unat x * unat y"
  by (simp add: unat_mult_lem [where 'a = 32, simplified])

lemma find_digit_value:
  assumes B: "unat B = b" "2 \<le> b" and nd: "nd \<le> 1" and D: "unat D = b ^ j"
  shows "\<exists>D'. find_digit v B nd D = Some (Some D') \<and> unat D' = b ^ (max (Suc j) (ndigits b (unat v)) - 1)"
  using D
proof (induction "ndigits b (unat v) - j" arbitrary: j D rule: less_induct)
  case less
  have D0: "D \<noteq> 0" using less.prems B by auto
  have nd': "\<not> nd > 1" using nd by simp
  have cond: "v div D < B \<longleftrightarrow> ndigits b (unat v) \<le> Suc j"
    using B less.prems unfolding ndigits_le_iff [OF B(2)]
    by (simp add: word_less_nat_alt unat_div div_less_iff_less_mult mult.commute)
  show ?case
  proof (cases "v div D < B")
    case True
    then show ?thesis
      using cond nd' D0 less.prems by (subst find_digit.simps) (simp add: max_absorb1)
  next
    case False
    then have gt: "Suc j < ndigits b (unat v)" using cond by simp
    then have "b ^ Suc j \<le> unat v" using ndigits_le_iff [OF B(2), of "unat v" j] by simp
    then have "b ^ Suc j < 2 ^ 32" using unsigned_less [of v, where 'a = nat] by simp
    then have DB: "unat (D * B) = b ^ Suc j"
      using less.prems B(1) by (subst unat_mult_u32) (simp_all add: mult.commute)
    have "ndigits b (unat v) - Suc j < ndigits b (unat v) - j" using gt by simp
    from less.hyps [OF this DB] False nd' D0 gt show ?thesis
      by (subst find_digit.simps) (simp add: max_def)
  qed
qed

lemma find_digit_eq:
  assumes B: "unat B = b" "2 \<le> b" and D: "unat D = b ^ j" and fits: "b ^ (j + unat nd - 1) < 2 ^ 32"
  shows "\<exists>D'. find_digit v B nd D = Some (Some D') \<and> unat D' = b ^ (max (j + max 1 (unat nd)) (ndigits b (unat v)) - 1)"
  using D fits
proof (induction "unat nd" arbitrary: j D nd rule: less_induct)
  case less
  show ?case
  proof (cases "nd > 1")
    case False
    then have nd: "nd \<le> 1" by simp
    then have "unat nd \<le> 1" by (simp add: word_le_nat_alt)
    then show ?thesis using find_digit_value [OF B nd less.prems(1)] by (simp add: max_def)
  next
    case True
    then have gt: "1 < unat nd" by (simp add: word_less_nat_alt)
    then have n1: "unat (nd - 1) = unat nd - 1" by (subst unat_sub_u32) simp_all
    have "Suc j \<le> j + unat nd - 1" using gt by simp
    then have "b ^ Suc j \<le> b ^ (j + unat nd - 1)" using B(2) by (intro power_increasing) simp_all
    then have "b ^ Suc j < 2 ^ 32" using less.prems(2) by linarith
    then have DB: "unat (D * B) = b ^ Suc j"
      using less.prems B(1) by (subst unat_mult_u32) (simp_all add: mult.commute)
    have "find_digit v B nd D = find_digit v B (nd - 1) (D * B)"
      using True by (subst find_digit.simps) simp
    moreover have "b ^ (Suc j + unat (nd - 1) - 1) < 2 ^ 32" using less.prems(2) gt n1 by simp
    moreover have "Suc j + max 1 (unat (nd - 1)) = j + max 1 (unat nd)" using gt n1 by simp
    ultimately show ?thesis
      using less.hyps [of "nd - 1" "D * B" "Suc j", OF _ DB] gt n1 by simp
  qed
qed

subsection \<open>Storing\<close>

text \<open>
  The output is going well: \<open>t\<close> has been printed so far, the full chunks of it are in the up
  channel \<open>i\<close> behind \<open>base\<close>, and the rest is in the buffer. The channel has the given capacity
  and is in skip mode.
\<close>

definition printing :: "nat \<Rightarrow> u8 list \<Rightarrow> nat \<Rightarrow> string \<Rightarrow> pstate \<Rightarrow> bool" where
  "printing i base cap t s \<longleftrightarrow>
     (let (d, p) = s; k = unat (pd_Cnt d)
      in k < SEGGER_RTT_PRINTF_BUFFER_SIZE \<and> k \<le> length t \<and> k = length t mod SEGGER_RTT_PRINTF_BUFFER_SIZE \<and>
         pd_BufferSize d = of_nat SEGGER_RTT_PRINTF_BUFFER_SIZE \<and>
         length (pd_pBuffer d) = SEGGER_RTT_PRINTF_BUFFER_SIZE \<and>
         take k (pd_pBuffer d) = bytes_of (drop (length t - k) t) \<and>
         pd_ReturnValue d = int (length t) \<and> pd_RTTBufferIndex d = i \<and>
         up_open i p \<and> Flags (aUp p ! i) = SEGGER_RTT_MODE_NO_BLOCK_SKIP \<and> capacity (aUp p ! i) = cap \<and>
         contents (aUp p ! i) = base @ bytes_of (take (length t - k) t))"

lemma printing_fine: "printing i base cap t s \<Longrightarrow> \<not> failed s"
  by (auto simp: printing_def failed_def Let_def split: prod.splits)

text \<open>A write that fits, in skip mode.\<close>

lemma skip_write_fits:
  assumes p: "up_open i p" and mode: "Flags (aUp p ! i) = SEGGER_RTT_MODE_NO_BLOCK_SKIP"
    and src: "unat N \<le> length bs" and room: "length (contents (aUp p ! i)) + unat N \<le> capacity (aUp p ! i)"
  obtains p' where "SEGGER_RTT_Write host i bs N p = Some (N, p')" and "up_open i p'"
    and "Flags (aUp p' ! i) = SEGGER_RTT_MODE_NO_BLOCK_SKIP" and "capacity (aUp p' ! i) = capacity (aUp p ! i)"
    and "contents (aUp p' ! i) = contents (aUp p ! i) @ take (unat N) bs"
proof -
  let ?r = "aUp p ! i"
  have m: "unat N = stored (Flags ?r) (capacity ?r - ring_used ?r) (unat N)"
    using mode room by (simp add: stored_def)
  obtain st r' where w: "ring_write host bs N ?r = Some (st, r')" and st: "unat st = unat N"
    and r': "ring_ok r'" "contents r' = contents ?r @ take (unat N) bs" "same_ring ?r r'"
    using ring_write_outcome [OF up_openD(2) [OF p] src up_openD(4) [OF p] m] by metis
  have "st = N" using st by (simp add: word_unat_eq_iff)
  then have "SEGGER_RTT_Write host i bs N p = Some (N, set_up i r' p)"
    using w up_openD(1) [OF p] by (simp add: SEGGER_RTT_Write_def SEGGER_RTT_WriteNoLock_def)
  then show thesis
    using that set_up_open [OF p r'(1,3)] r' up_openD(3) [OF p] mode
    by (simp add: same_ring_def capacity_def)
qed

lemma printingD:
  assumes "printing i base cap t (d, p)"
  shows "unat (pd_Cnt d) < 64" "unat (pd_Cnt d) \<le> length t" "unat (pd_Cnt d) = length t mod 64"
    "pd_BufferSize d = 64" "length (pd_pBuffer d) = 64"
    "take (unat (pd_Cnt d)) (pd_pBuffer d) = bytes_of (drop (length t - unat (pd_Cnt d)) t)"
    "pd_ReturnValue d = int (length t)" "pd_RTTBufferIndex d = i"
    "up_open i p" "Flags (aUp p ! i) = SEGGER_RTT_MODE_NO_BLOCK_SKIP" "capacity (aUp p ! i) = cap"
    "contents (aUp p ! i) = base @ bytes_of (take (length t - unat (pd_Cnt d)) t)"
  using assms unfolding printing_def Let_def SEGGER_RTT_PRINTF_BUFFER_SIZE_def prod.case of_nat_numeral
  by blast+

lemma bytes_of_simps [simp]: "bytes_of [] = []" "bytes_of (s @ t) = bytes_of s @ bytes_of t"
  "bytes_of (c # t) = of_char c # bytes_of t" "length (bytes_of t) = length t"
  by (simp_all add: bytes_of_def)

lemma printing_store:
  assumes pr: "printing i base cap t s" and room: "length base + length t < cap"
  shows "\<exists>s'. StoreChar host c s = Some s' \<and> printing i base cap (t @ [c]) s'"
proof -
  obtain d p where s: "s = (d, p)" by fastforce
  note D = printingD [OF pr [unfolded s]]
  let ?k = "unat (pd_Cnt d)"
  define d1 where "d1 = d\<lparr>pd_pBuffer := (pd_pBuffer d)[?k := of_char c], pd_Cnt := pd_Cnt d + 1,
      pd_ReturnValue := pd_ReturnValue d + 1\<rparr>"
  have k1: "unat (pd_Cnt d + 1) = Suc ?k" using D(1) by (subst unat_add_u32) simp_all
  then have fits: "pd_Cnt d + 1 \<le> pd_BufferSize d" using D(1,4) by (simp add: word_le_nat_alt)
  have chunk: "take (Suc ?k) (pd_pBuffer d1) = bytes_of (drop (length t - ?k) t @ [c])"
    using D(1,5,6) by (simp add: d1_def take_Suc_conv_app_nth)
  have full: "pd_Cnt d1 = pd_BufferSize d1 \<longleftrightarrow> Suc ?k = 64"
    using D(4) k1 by (simp add: d1_def word_unat_eq_iff)
  show ?thesis
  proof (cases "Suc ?k = 64")
    case False
    then have "StoreChar host c s = Some (d1, p)"
      using fits full by (simp add: s StoreChar_def d1_def Let_def)
    moreover have "Suc ?k < 64" using False D(1) by simp
    then have "printing i base cap (t @ [c]) (d1, p)"
      using D k1 chunk
      by (simp add: printing_def d1_def Let_def SEGGER_RTT_PRINTF_BUFFER_SIZE_def mod_Suc Suc_diff_le)
    ultimately show ?thesis by blast
  next
    case True
    have c1: "unat (pd_Cnt d1) = 64" and idx: "pd_RTTBufferIndex d1 = i" and len: "length (pd_pBuffer d1) = 64"
      using True k1 D(5,8) by (simp_all add: d1_def)
    have le: "unat (pd_Cnt d1) \<le> length (pd_pBuffer d1)" using c1 len by simp
    have fit: "length (contents (aUp p ! i)) + unat (pd_Cnt d1) \<le> capacity (aUp p ! i)"
      using D(2,11) c1 True room unfolding D(12) by simp
    obtain p' where w: "SEGGER_RTT_Write (host (nat (pd_ReturnValue d1))) i (pd_pBuffer d1) (pd_Cnt d1) p =
        Some (pd_Cnt d1, p')" and p': "up_open i p'" "Flags (aUp p' ! i) = SEGGER_RTT_MODE_NO_BLOCK_SKIP"
        "capacity (aUp p' ! i) = capacity (aUp p ! i)"
        "contents (aUp p' ! i) = contents (aUp p ! i) @ take (unat (pd_Cnt d1)) (pd_pBuffer d1)"
      by (rule skip_write_fits [OF D(9,10) le fit])
    have "contents (aUp p' ! i) = base @ bytes_of (take (length t - ?k) t @ drop (length t - ?k) t @ [c])"
      using p'(4) D(12) chunk True c1 by simp
    also have "take (length t - ?k) t @ drop (length t - ?k) t @ [c] = t @ [c]"
      by (metis append.assoc append_take_drop_id)
    finally have cont: "contents (aUp p' ! i) = base @ bytes_of (t @ [c])" .
    have "StoreChar host c s = Some (d1\<lparr>pd_Cnt := 0\<rparr>, p')"
      using fits full True w idx by (simp add: s StoreChar_def flush_desc_def d1_def Let_def)
    moreover have "printing i base cap (t @ [c]) (d1\<lparr>pd_Cnt := 0\<rparr>, p')"
      using D p' cont len True
      by (simp add: printing_def d1_def Let_def SEGGER_RTT_PRINTF_BUFFER_SIZE_def mod_Suc)
    ultimately show ?thesis by blast
  qed
qed

text \<open>A printing function that emits the text \<open>u\<close> when there is room for it.\<close>

definition emits :: "(pstate \<Rightarrow> pstate option) \<Rightarrow> string \<Rightarrow> bool" where
  "emits f u \<longleftrightarrow> (\<forall>i base cap t s. printing i base cap t s \<and> length base + length t + length u \<le> cap \<longrightarrow>
     (\<exists>s'. f s = Some s' \<and> printing i base cap (t @ u) s'))"

lemma emitsE:
  assumes "emits f u" and "printing i base cap t s" and "length base + length t + length u \<le> cap"
  obtains s' where "f s = Some s'" and "printing i base cap (t @ u) s'" and "\<not> failed s'"
  using assms printing_fine unfolding emits_def by blast

lemma emits_store: "emits (StoreChar host c) [c]"
  using printing_store by (auto simp: emits_def)

lemma emits_none: "emits Some []"
  by (simp add: emits_def)

text \<open>Sequencing, with the test for a failure that the code makes between two calls.\<close>

lemma emits_seq:
  assumes "emits f u" and "emits g w"
  shows "emits (\<lambda>s. case f s of None \<Rightarrow> None | Some s \<Rightarrow> if failed s then Some s else g s) (u @ w)"
  unfolding emits_def
proof (intro allI impI, elim conjE)
  fix i base cap t s
  assume pr: "printing i base cap t s" and room: "length base + length t + length (u @ w) \<le> cap"
  obtain s1 where s1: "f s = Some s1" "printing i base cap (t @ u) s1" "\<not> failed s1"
    by (rule emitsE [OF assms(1) pr]) (use room in simp)
  obtain s2 where "g s1 = Some s2" "printing i base cap ((t @ u) @ w) s2"
    by (rule emitsE [OF assms(2) s1(2)]) (use room in simp)
  with s1 show "\<exists>s'. (case f s of None \<Rightarrow> None | Some s \<Rightarrow> if failed s then Some s else g s) = Some s' \<and>
      printing i base cap (t @ u @ w) s'"
    by simp
qed

subsection \<open>Numbers\<close>

lemma flag_zero: "ff AND FORMAT_FLAG_LEFT_JUSTIFY = 0 \<longleftrightarrow> \<not> has_flag ff FORMAT_FLAG_LEFT_JUSTIFY"
  "ff AND FORMAT_FLAG_PAD_ZERO = 0 \<longleftrightarrow> \<not> has_flag ff FORMAT_FLAG_PAD_ZERO"
proof -
  have one: "ff AND 2 ^ n = 2 ^ n \<longleftrightarrow> bit ff n" if "n < 32" for n
  proof
    assume "ff AND 2 ^ n = 2 ^ n"
    then have "bit (ff AND 2 ^ n) n" using that by (simp add: bit_exp_iff)
    then show "bit ff n" by (simp add: bit_and_iff)
  next
    assume "bit ff n"
    then show "ff AND 2 ^ n = 2 ^ n" by (intro bit_word_eqI) (auto simp: bit_and_iff bit_exp_iff)
  qed
  show "ff AND FORMAT_FLAG_LEFT_JUSTIFY = 0 \<longleftrightarrow> \<not> has_flag ff FORMAT_FLAG_LEFT_JUSTIFY"
    using one [of 0] and_exp_eq_0_iff_not_bit [of ff 0] by (simp add: has_flag_def format_flags)
  show "ff AND FORMAT_FLAG_PAD_ZERO = 0 \<longleftrightarrow> \<not> has_flag ff FORMAT_FLAG_PAD_ZERO"
    using one [of 1] and_exp_eq_0_iff_not_bit [of ff 1] by (simp add: has_flag_def format_flags)
qed

lemma print_pad_emits:
  assumes "printing i base cap t s" and "length base + length t + (unat fw - unat w) \<le> cap"
  shows "\<exists>s'. print_pad host c w fw s = Some (min fw w, s') \<and>
    printing i base cap (t @ replicate (unat fw - unat w) c) s'"
  using assms
proof (induction "unat fw" arbitrary: fw t s rule: less_induct)
  case less
  show ?case
  proof (cases "fw \<noteq> 0 \<and> w < fw")
    case True
    then have lt: "unat w < unat fw" by (simp add: word_less_nat_alt)
    then have f1: "unat (fw - 1) = unat fw - 1" by (subst unat_sub_u32) simp_all
    obtain s1 where s1: "StoreChar host c s = Some s1" "printing i base cap (t @ [c]) s1" "\<not> failed s1"
      by (rule emitsE [OF emits_store less.prems(1)]) (use less.prems(2) lt in simp)
    have m: "min (fw - 1) w = min fw w"
      using True lt f1 by (auto simp: min_def word_le_nat_alt word_unat_eq_iff)
    have "unat fw - unat w = Suc (unat (fw - 1) - unat w)" using lt f1 by linarith
    then have "replicate (unat fw - unat w) c = c # replicate (unat (fw - 1) - unat w) c" by simp
    then show ?thesis
      using less.hyps [OF _ s1(2), of "fw - 1"] less.prems(2) lt f1 s1 True m
      by (subst print_pad.simps) simp
  next
    case False
    then have "\<not> unat w < unat fw" by (auto simp: word_less_nat_alt)
    moreover from this have "min fw w = fw" by (simp add: min_def word_le_nat_alt)
    moreover have "print_pad host c w fw s = Some (fw, s)" using False by (subst print_pad.simps) auto
    ultimately show ?thesis using less.prems(1) by (intro exI [of _ s]) simp
  qed
qed

lemma put_digits_emits:
  assumes B: "unat B = b" "2 \<le> b" "b \<le> 16" and D: "unat D = b ^ j" and v: "unat v < b ^ Suc j"
  shows "emits (put_digits host v B D) (digits_text b (Suc j) (unat v))"
  using D v
proof (induction j arbitrary: D v)
  case 0
  have d1: "D = 1" using 0 by (simp add: word_unat_eq_iff)
  have "unat (1 div B) = unat (1 :: u32) div unat B" by (rule unat_div)
  then have "unat (1 div B) = 0" using B by simp
  then have stop: "1 div B = 0" by (simp add: unat_eq_0)
  have "put_digits host v B D = (\<lambda>s. case StoreChar host (aV2C ! unat v) s of None \<Rightarrow> None
      | Some s \<Rightarrow> if failed s then Some s else Some s)"
    using 0 B stop unfolding d1 by (intro ext) (subst put_digits.simps, simp add: Let_def split: option.split)
  then show ?case
    using emits_seq [OF emits_store emits_none, of host "aV2C ! unat v"] 0 by simp
next
  case (Suc j)
  let ?Div = "v div D" and ?v = "v - v div D * D"
  have D0: "0 < b ^ Suc j" using B by simp
  have div: "unat ?Div = unat v div b ^ Suc j" using Suc.prems by (simp add: unat_div)
  have small: "unat v div b ^ Suc j < b"
    using Suc.prems(2) D0 by (simp add: div_less_iff_less_mult mult.commute)
  have rest: "?v = v mod D" by (simp add: minus_div_mult_eq_mod)
  then have v': "unat ?v = unat v mod b ^ Suc j" using Suc.prems(1) by (simp add: unat_mod)
  have D': "unat (D div B) = b ^ j" using Suc.prems(1) B by (simp add: unat_div)
  then have nz: "D div B \<noteq> 0" using B by auto
  have lt: "unat ?v < b ^ Suc j" using v' D0 by simp
  have step: "put_digits host v B D = (\<lambda>s. case StoreChar host (aV2C ! unat ?Div) s of None \<Rightarrow> None
      | Some s \<Rightarrow> if failed s then Some s else put_digits host ?v B (D div B) s)"
    using div small B(3) nz by (intro ext) (subst put_digits.simps, simp add: Let_def split: option.split)
  have "digits_text b (Suc (Suc j)) (unat v) = aV2C ! unat ?Div # digits_text b (Suc j) (unat ?v)"
    using div small v' digits_text_mod [of "Suc j" "Suc j" b "unat v"] by simp
  then show ?case
    unfolding step using emits_seq [OF emits_store Suc.IH [OF D' lt], of host "aV2C ! unat ?Div"] by simp
qed

lemma base_width:
  assumes B: "unat B = b" "2 \<le> b"
  obtains W where "num_width B v 1 = Some W" and "unat W = ndigits b (unat v)"
    and "unat (if nd > W then nd else W) = max (unat nd) (ndigits b (unat v))"
proof -
  have n: "ndigits b (unat v) \<le> 32" using ndigits_bound [OF B(2)] unsigned_less [of v, where 'a = nat] by simp
  let ?W = "of_nat (ndigits b (unat v)) :: u32"
  have "num_width B v 1 = Some (1 + of_nat (ndigits b (unat v) - 1))"
    using num_width_eq [of B v 1] B by simp
  also have "1 + of_nat (ndigits b (unat v) - 1) = ?W"
    using ndigits_pos [of b "unat v"] by (metis Suc_pred' of_nat_Suc)
  finally have "num_width B v 1 = Some ?W" .
  moreover have u: "unat ?W = ndigits b (unat v)" using n by (simp add: unat_of_nat)
  moreover from this have "unat (if nd > ?W then nd else ?W) = max (unat nd) (ndigits b (unat v))"
    by (simp add: word_less_nat_alt)
  ultimately show thesis by (rule that)
qed

lemma digits_emits:
  assumes B: "unat B = b" "2 \<le> b" "b \<le> 16" and nd: "b ^ (unat nd - 1) < 2 ^ 32"
  shows "\<exists>D. find_digit v B nd 1 = Some (Some D) \<and>
    emits (put_digits host v B D) (number_text b (unat nd) (unat v))"
proof -
  let ?n = "max (unat nd) (ndigits b (unat v))"
  obtain D where D: "find_digit v B nd 1 = Some (Some D)"
    "unat D = b ^ (max (max 1 (unat nd)) (ndigits b (unat v)) - 1)"
    using find_digit_eq [OF B(1,2), of 1 0 nd v] nd by auto
  have n: "max (max 1 (unat nd)) (ndigits b (unat v)) = ?n" "?n = Suc (?n - 1)"
    using ndigits_pos [of b "unat v"] by linarith+
  have "unat v < b ^ Suc (?n - 1)"
    using ndigits_le_iff [OF B(2), of "unat v" "?n - 1"] n(2) by simp
  from put_digits_emits [OF B _ this, of D host] D n show ?thesis
    unfolding number_text_def by metis
qed

lemma PrintUnsigned_emits:
  assumes B: "unat B = b" "2 \<le> b" "b \<le> 16" and nd: "b ^ (unat nd - 1) < 2 ^ 32"
  shows "emits (PrintUnsigned host v B nd fw ff) (uint_text b ff (unat nd) (unat fw) (unat v))"
  unfolding emits_def
proof (intro allI impI, elim conjE)
  fix i base cap t s
  let ?num = "number_text b (unat nd) (unat v)" and ?k = "unat fw - max (unat nd) (ndigits b (unat v))"
  define pad where "pad = (if has_flag ff FORMAT_FLAG_PAD_ZERO \<and> nd = 0 then CHR ''0'' else CHR '' '')"
  assume pr: "printing i base cap t s"
    and room: "length base + length t + length (uint_text b ff (unat nd) (unat fw) (unat v)) \<le> cap"
  have len: "length (uint_text b ff (unat nd) (unat fw) (unat v)) = ?k + length ?num"
    by (simp add: uint_text_def field_text_def Let_def)
  obtain W where W: "num_width B v 1 = Some W"
    "unat (if nd > W then nd else W) = max (unat nd) (ndigits b (unat v))"
    by (rule base_width [OF B(1,2)])
  let ?W = "if nd > W then nd else W"
  obtain D where D: "find_digit v B nd 1 = Some (Some D)" and emit: "emits (put_digits host v B D) ?num"
    using digits_emits [OF B nd] by blast
  show "\<exists>s'. PrintUnsigned host v B nd fw ff s = Some s' \<and>
      printing i base cap (t @ uint_text b ff (unat nd) (unat fw) (unat v)) s'"
  proof (cases "has_flag ff FORMAT_FLAG_LEFT_JUSTIFY")
    case True
    obtain s1 where s1: "put_digits host v B D s = Some s1" "printing i base cap (t @ ?num) s1"
      by (rule emitsE [OF emit pr]) (use room len in simp)
    obtain s2 where s2: "print_pad host (CHR '' '') ?W fw s1 = Some (min fw ?W, s2)"
      "printing i base cap ((t @ ?num) @ replicate ?k (CHR '' '')) s2"
      using print_pad_emits [OF s1(2), of fw ?W host "CHR '' ''"] room len W(2) by auto
    have "PrintUnsigned host v B nd fw ff s = (if fw \<noteq> 0 then Some s2 else Some s1)"
      using W(1) D True s1 s2 printing_fine [OF pr]
      by (simp add: PrintUnsigned_def flag_zero Let_def) (simp add: has_flag_def)
    moreover have "printing i base cap ((t @ ?num) @ replicate ?k (CHR '' '')) (if fw \<noteq> 0 then s2 else s1)"
      using s1 s2 by simp
    ultimately show ?thesis
      using True by (intro exI [of _ "if fw \<noteq> 0 then s2 else s1"]) (simp add: uint_text_def field_text_def Let_def)
  next
    case False
    obtain s1 where s1: "print_pad host pad ?W fw s = Some (min fw ?W, s1)"
      "printing i base cap (t @ replicate ?k pad) s1"
      using print_pad_emits [OF pr, of fw ?W host pad] room len W(2) by auto
    let ?s1 = "if fw \<noteq> 0 then s1 else s"
    have p1: "printing i base cap (t @ replicate ?k pad) ?s1" using s1(2) pr by simp
    obtain s2 where s2: "put_digits host v B D ?s1 = Some s2" "printing i base cap ((t @ replicate ?k pad) @ ?num) s2"
      by (rule emitsE [OF emit p1]) (use room len in simp)
    have "PrintUnsigned host v B nd fw ff s = Some s2"
      using W(1) D False s1 s2 printing_fine [OF p1]
      by (cases "fw = 0") (simp_all add: PrintUnsigned_def flag_zero Let_def flip: pad_def has_flag_def split del: if_split)
    moreover have "uint_text b ff (unat nd) (unat fw) (unat v) = replicate ?k pad @ ?num"
      using False by (auto simp: uint_text_def field_text_def Let_def unat_eq_0 pad_def has_flag_def)
    ultimately show ?thesis using s2(2) by simp
  qed
qed

text \<open>Signed numbers: the field without the sign is left to \<open>_PrintUnsigned\<close>.\<close>

lemma uint_nonneg:
  assumes "0 \<le> sint (v :: u32)"
  shows "uint v = sint v"
proof -
  have "sint v < 2 ^ 32" using sint_lt [of v] by simp
  then show ?thesis using assms by (simp add: uint_sint take_bit_int_eq_self)
qed

lemma abs_word:
  assumes "v \<noteq> (0x80000000 :: u32)"
  shows "unat (if sint v < 0 then - v else v) = nat \<bar>sint v\<bar>"
proof (cases "sint v < 0")
  case True
  have "sint v \<noteq> sint (0x80000000 :: u32)" using assms by (metis signed_word_eqI)
  then have "- 2147483648 < sint v" using sint_ge [of v] by simp
  then have "sint (- v) = - sint v"
    using True by (simp add: sint_word_minus signed_take_bit_int_eq_self)
  then have "uint (- v) = - sint v" using uint_nonneg [of "- v"] True by simp
  then show ?thesis using True by (simp add: unat_eq_nat_uint)
next
  case False
  then show ?thesis using uint_nonneg [of v] by (simp add: unat_eq_nat_uint)
qed

lemma uint_text_narrow: "fw \<le> max nd (ndigits b v) \<Longrightarrow> uint_text b ff nd fw v = number_text b nd v"
  by (simp add: uint_text_def field_text_def Let_def)

lemma int_text_parts:
  assumes "fw1 = fw - length (sign_text ff v)"
  shows "int_text b ff nd fw v =
    (let left = has_flag ff FORMAT_FLAG_LEFT_JUSTIFY; zero = has_flag ff FORMAT_FLAG_PAD_ZERO;
         n = max nd (ndigits b (nat \<bar>v\<bar>))
     in replicate (if (\<not> zero \<or> nd \<noteq> 0) \<and> \<not> left then fw1 - n else 0) (CHR '' '') @ sign_text ff v @
        replicate (if zero \<and> \<not> left \<and> nd = 0 then fw1 - n else 0) (CHR ''0'') @
        uint_text b ff nd (if left then fw1 else min fw1 n) (nat \<bar>v\<bar>))"
  using assms uint_text_narrow [of "min fw1 (max nd (ndigits b (nat \<bar>v\<bar>)))" nd b "nat \<bar>v\<bar>" ff]
  by (auto simp: int_text_def uint_text_def field_text_def Let_def)

lemma sign_emits:
  "emits (\<lambda>s. if sint v < 0 then StoreChar host (CHR ''-'') s
       else if has_flag ff FORMAT_FLAG_PRINT_SIGN then StoreChar host (CHR ''+'') s else Some s) (sign_text ff (sint v))"
  using emits_store [of host] emits_none by (simp add: sign_text_def)

lemma sign_width:
  "unat (if fw > 0 \<and> (sint v < 0 \<or> has_flag ff FORMAT_FLAG_PRINT_SIGN) then fw - 1 else fw :: u32) =
    unat fw - length (sign_text ff (sint v))"
proof (cases "fw > 0")
  case True
  then have "unat (fw - 1) = unat fw - 1" by (subst unat_sub_u32) (simp_all add: word_less_nat_alt)
  then show ?thesis using True by (simp add: sign_text_def)
qed (simp add: word_gt_0)

text \<open>Padding that is skipped for an empty field.\<close>

lemma pad_stage:
  assumes "printing i base cap t s" and "length base + length t + (if b then unat fw - unat w else 0) \<le> cap"
  obtains s' where "(if b \<and> fw \<noteq> 0 then print_pad host c w fw s else Some (fw, s)) = Some (if b then min fw w else fw, s')"
    and "printing i base cap (t @ replicate (if b then unat fw - unat w else 0) c) s'" and "\<not> failed s'"
proof (cases "b \<and> fw \<noteq> 0")
  case True
  obtain s' where "print_pad host c w fw s = Some (min fw w, s')"
    "printing i base cap (t @ replicate (unat fw - unat w) c) s'"
    using print_pad_emits [OF assms(1), of fw w host c] assms(2) True by auto
  then show thesis using that [of s'] True printing_fine by simp
next
  case False
  then show thesis using that [of s] assms(1) printing_fine by (cases "fw = 0") auto
qed

lemma PrintInt_emits:
  assumes B: "unat B = b" "2 \<le> b" "b \<le> 16" and nd: "b ^ (unat nd - 1) < 2 ^ 32" and v: "v \<noteq> 0x80000000"
  shows "emits (PrintInt host v B nd fw ff) (int_text b ff (unat nd) (unat fw) (sint v))"
  unfolding emits_def
proof (intro allI impI, elim conjE)
  fix i base cap t s
  define N where "N = (if sint v < 0 then - v else v)"
  have N: "unat N = nat \<bar>sint v\<bar>" unfolding N_def by (rule abs_word [OF v])
  let ?n = "max (unat nd) (ndigits b (unat N))" and ?num = "number_text b (unat nd) (unat N)"
  let ?sg = "sign_text ff (sint v)"
  define left zero where "left = has_flag ff FORMAT_FLAG_LEFT_JUSTIFY" and "zero = has_flag ff FORMAT_FLAG_PAD_ZERO"
  define fw1 where "fw1 = (if fw > 0 \<and> (sint v < 0 \<or> has_flag ff FORMAT_FLAG_PRINT_SIGN) then fw - 1 else fw)"
  have fw1: "unat fw1 = unat fw - length ?sg" unfolding fw1_def by (rule sign_width)
  let ?k = "unat fw1 - ?n"
  assume pr: "printing i base cap t s"
    and room: "length base + length t + length (int_text b ff (unat nd) (unat fw) (sint v)) \<le> cap"
  have len: "length (int_text b ff (unat nd) (unat fw) (sint v)) = ?k + length ?sg + length ?num"
    using N fw1 by (simp add: int_text_def field_text_def Let_def)
  then have r: "length base + length t + (?k + length ?sg + length ?num) \<le> cap" using room by simp
  obtain W0 where W0: "num_width B N 1 = Some W0" "unat (if nd > W0 then nd else W0) = ?n"
    by (rule base_width [OF B(1,2)])
  define W where "W = (if nd > W0 then nd else W0)"
  have W: "unat W = ?n" using W0(2) by (simp add: W_def)
  define sp zp where "sp = ((\<not> zero \<or> nd \<noteq> 0) \<and> \<not> left)" and "zp = (zero \<and> \<not> left \<and> nd = 0)"
  obtain s1 where s1: "(if sp \<and> fw1 \<noteq> 0 then print_pad host (CHR '' '') W fw1 s else Some (fw1, s)) =
      Some (if sp then min fw1 W else fw1, s1)"
    "printing i base cap (t @ replicate (if sp then unat fw1 - unat W else 0) (CHR '' '')) s1" "\<not> failed s1"
    by (rule pad_stage [OF pr, where b = sp and fw = fw1 and w = W]) (use r W in auto)
  obtain s2 where s2: "(if sint v < 0 then StoreChar host (CHR ''-'') s1
      else if has_flag ff FORMAT_FLAG_PRINT_SIGN then StoreChar host (CHR ''+'') s1 else Some s1) = Some s2"
    "printing i base cap ((t @ replicate (if sp then unat fw1 - unat W else 0) (CHR '' '')) @ ?sg) s2" "\<not> failed s2"
    by (rule emitsE [OF sign_emits s1(2)]) (use r W in auto)
  define fw2 where "fw2 = (if sp then min fw1 W else fw1)"
  have zk: "(if zp then unat fw2 - unat W else 0) = (if zp then ?k else 0)"
    using W by (simp add: fw2_def sp_def zp_def)
  obtain s3 where s3: "(if zp \<and> fw2 \<noteq> 0 then print_pad host (CHR ''0'') W fw2 s2 else Some (fw2, s2)) =
      Some (if zp then min fw2 W else fw2, s3)"
    "printing i base cap (((t @ replicate (if sp then unat fw1 - unat W else 0) (CHR '' '')) @ ?sg) @
       replicate (if zp then unat fw2 - unat W else 0) (CHR ''0'')) s3" "\<not> failed s3"
    by (rule pad_stage [OF s2(2), where b = zp and fw = fw2 and w = W])
      (use r W zk in \<open>auto simp: sp_def zp_def\<close>)
  define fw3 where "fw3 = (if zp then min fw2 W else fw2)"
  define rest where "rest = uint_text b ff (unat nd) (unat fw3) (unat N)"
  have text_eq: "int_text b ff (unat nd) (unat fw) (sint v) =
      replicate (if sp then ?k else 0) (CHR '' '') @ ?sg @ replicate (if zp then ?k else 0) (CHR ''0'') @ rest"
  proof -
    have "unat fw3 = (if left then unat fw1 else min (unat fw1) ?n)"
      using W by (auto simp: fw3_def fw2_def sp_def zp_def min_def word_le_nat_alt)
    then show ?thesis
      using int_text_parts [OF fw1, of b "unat nd"] N
      by (simp add: rest_def sp_def zp_def left_def zero_def unat_eq_0 Let_def)
  qed
  have room4: "length base + length (((t @ replicate (if sp then unat fw1 - unat W else 0) (CHR '' '')) @ ?sg) @
      replicate (if zp then unat fw2 - unat W else 0) (CHR ''0'')) + length rest \<le> cap"
    using room unfolding text_eq zk unfolding W by (simp add: algebra_simps split del: if_split)
  obtain s4 where s4: "PrintUnsigned host N B nd fw3 ff s3 = Some s4"
    "printing i base cap ((((t @ replicate (if sp then unat fw1 - unat W else 0) (CHR '' '')) @ ?sg) @
       replicate (if zp then unat fw2 - unat W else 0) (CHR ''0'')) @ rest) s4"
    unfolding rest_def
    by (rule emitsE [OF PrintUnsigned_emits [OF B nd] s3(2) room4 [unfolded rest_def]])
  have a: "(if (\<not> zero \<or> nd \<noteq> 0) \<and> \<not> left \<and> fw1 \<noteq> 0 then print_pad host (CHR '' '') W fw1 s else Some (fw1, s)) =
      Some (fw2, s1)"
    using s1(1) by (simp add: sp_def fw2_def split del: if_split)
  have c: "(if zero \<and> \<not> left \<and> nd = 0 \<and> fw2 \<noteq> 0 then print_pad host (CHR ''0'') W fw2 s2 else Some (fw2, s2)) =
      Some (fw3, s3)"
    using s3(1) by (simp add: zp_def fw3_def split del: if_split)
  have "PrintInt host v B nd fw ff s = Some s4"
    unfolding PrintInt_def N_def [symmetric] has_flag_def [symmetric] Let_def flag_zero
      left_def [symmetric] zero_def [symmetric] fw1_def [symmetric] W0(1)
    unfolding Option.bind.simps W_def [symmetric] a prod.case
    using v s1(3) s2(1,3) c s3(3) s4(1) by (simp split del: if_split)
  then show "\<exists>s'. PrintInt host v B nd fw ff s = Some s' \<and>
      printing i base cap (t @ int_text b ff (unat nd) (unat fw) (sint v)) s'"
    using s4(2) unfolding text_eq zk unfolding W by (simp split del: if_split)
qed

subsection \<open>Formats\<close>

lemma print_str_emits: "emits (print_str host b n cs) (if b then take (unat n) cs else cs)"
proof (induction cs arbitrary: n)
  case Nil
  then show ?case using emits_none by simp
next
  case (Cons c cs)
  show ?case
  proof (cases "b \<and> n = 0")
    case True
    then show ?thesis using emits_none by simp
  next
    case False
    have "print_str host b n (c # cs) = (\<lambda>s. case StoreChar host c s of None \<Rightarrow> None
        | Some s \<Rightarrow> if failed s then Some s else print_str host b (n - 1) cs s)"
      using False by (intro ext) auto
    moreover have "(if b then take (unat n) (c # cs) else c # cs) = [c] @ (if b then take (unat (n - 1)) cs else cs)"
    proof (cases b)
      case True
      then have "0 < unat n" using False by (simp add: unat_gt_0)
      then show ?thesis using True by (simp add: take_Cons' unat_sub_u32)
    qed simp
    ultimately show ?thesis using emits_seq [OF emits_store Cons.IH [of "n - 1"], of host c] by simp
  qed
qed

text \<open>
  The text of a conversion, where the behaviour is defined, and the arguments it leaves.
\<close>

definition conv_text :: "printf_spec \<Rightarrow> va list \<Rightarrow> (string \<times> va list) option" where
  "conv_text sp args =
     (let c = ps_char sp; nd = unat (ps_precision sp); fw = unat (ps_width sp); ff = ps_flags sp
      in if c \<in> set ''cduxXp'' then
           (case args of
              VInt v # args \<Rightarrow>
                if c = CHR ''c'' then Some ([char_of (unat v)], args)
                else if c = CHR ''d'' then
                  if v \<noteq> 0x80000000 \<and> nd \<le> 10 then Some (int_text 10 ff nd fw (sint v), args) else None
                else if c = CHR ''u'' then
                  if nd \<le> 10 then Some (uint_text 10 ff nd fw (unat v), args) else None
                else if c = CHR ''p'' then Some (uint_text 16 0 8 8 (unat v), args)
                else if nd \<le> 8 then Some (uint_text 16 ff nd fw (unat v), args) else None
            | _ \<Rightarrow> None)
         else if c = CHR ''s'' then
           (case args of
              VStr x # args \<Rightarrow> Some (if ps_set sp \<and> x \<noteq> None then take nd (str_arg x) else str_arg x, args)
            | _ \<Rightarrow> None)
         else if c = CHR ''%'' then Some (''%'', args)
         else Some ([], args))"

function render :: "string \<Rightarrow> va list \<Rightarrow> string option" where
  "render [] args = Some []"
| "render (c # f) args =
     (if c = CHR ''%'' then
        (case parse_spec args f of
           None \<Rightarrow> None
         | Some (sp, args, f) \<Rightarrow>
             (case conv_text sp args of
                None \<Rightarrow> None
              | Some (t, args) \<Rightarrow> map_option (\<lambda>u. t @ u) (render f args)))
      else map_option (Cons c) (render f args))"
  by pat_completeness auto
termination
  by (relation "measure (\<lambda>(f, args). length f)") (auto dest: parse_spec_shorter simp: less_SucI)

lemma digits_fit: "nd \<le> 10 \<Longrightarrow> (10 :: nat) ^ (nd - 1) < 2 ^ 32" "nd \<le> 8 \<Longrightarrow> (16 :: nat) ^ (nd - 1) < 2 ^ 32"
proof -
  show "(10 :: nat) ^ (nd - 1) < 2 ^ 32" if "nd \<le> 10"
    using power_increasing [of "nd - 1" 9 "10 :: nat"] that by fastforce
  show "(16 :: nat) ^ (nd - 1) < 2 ^ 32" if "nd \<le> 8"
    using power_increasing [of "nd - 1" 7 "16 :: nat"] that by fastforce
qed

lemma number_emits:
  "unat nd \<le> 10 \<Longrightarrow> v \<noteq> 0x80000000 \<Longrightarrow> emits (PrintInt host v 10 nd fw ff) (int_text 10 ff (unat nd) (unat fw) (sint v))"
  "unat nd \<le> 10 \<Longrightarrow> emits (PrintUnsigned host v 10 nd fw ff) (uint_text 10 ff (unat nd) (unat fw) (unat v))"
  "unat nd \<le> 8 \<Longrightarrow> emits (PrintUnsigned host v 16 nd fw ff) (uint_text 16 ff (unat nd) (unat fw) (unat v))"
  using PrintInt_emits [of 10 10 nd v host fw ff] PrintUnsigned_emits [of 10 10 nd host v fw ff]
    PrintUnsigned_emits [of 16 16 nd host v fw ff] digits_fit [of "unat nd"]
  by simp_all

text \<open>A conversion is one emission, with the arguments beside it.\<close>

lemma conv_emits:
  assumes "conv_text sp args = Some (u, args')"
  obtains f where "emits f u" and "\<And>s. print_spec host sp args s = map_option (Pair args') (f s)"
proof -
  let ?f = "\<lambda>s. map_option snd (print_spec host sp args s)"
  let ?c = "ps_char sp"
  consider (num) v where "?c \<in> set ''cduxXp''" "args = VInt v # args'" | (str) x where "?c = CHR ''s''" "args = VStr x # args'"
    | (per) "?c = CHR ''%''" "args' = args" | (other) "?c \<notin> set ''cduxXps%''" "args' = args"
    using assms by (auto simp: conv_text_def Let_def split: if_splits list.splits va.splits)
  then show thesis
  proof cases
    case num
    let ?f = "if ?c = CHR ''c'' then StoreChar host (char_of (unat v))
      else if ?c = CHR ''d'' then PrintInt host v 10 (ps_precision sp) (ps_width sp) (ps_flags sp)
      else if ?c = CHR ''u'' then PrintUnsigned host v 10 (ps_precision sp) (ps_width sp) (ps_flags sp)
      else if ?c = CHR ''p'' then PrintUnsigned host v 16 8 8 0
      else PrintUnsigned host v 16 (ps_precision sp) (ps_width sp) (ps_flags sp)"
    have "emits ?f u"
      using assms num emits_store number_emits [of "ps_precision sp"] number_emits(3) [of 8 host v 8 0]
      by (auto simp: conv_text_def Let_def split: if_splits)
    moreover have "print_spec host sp args s = map_option (Pair args') (?f s)" for s
      using num by (simp add: print_spec_def Let_def)
    ultimately show thesis by (rule that)
  next
    case str
    have "emits (print_str host (ps_set sp \<and> x \<noteq> None) (ps_precision sp) (str_arg x)) u"
      using assms str print_str_emits [of host "ps_set sp \<and> x \<noteq> None" "ps_precision sp" "str_arg x"]
      by (simp add: conv_text_def Let_def split: if_splits)
    moreover have "print_spec host sp args s =
        map_option (Pair args') (print_str host (ps_set sp \<and> x \<noteq> None) (ps_precision sp) (str_arg x) s)" for s
      using str by (simp add: print_spec_def Let_def)
    ultimately show thesis by (rule that)
  next
    case per
    then have "u = ''%''" using assms by (simp add: conv_text_def Let_def)
    then show thesis
      using that [of "StoreChar host (CHR ''%'')"] emits_store per by (simp add: print_spec_def Let_def)
  next
    case other
    then have "u = []" using assms by (auto simp: conv_text_def Let_def)
    then show thesis using that [of Some] emits_none other by (auto simp: print_spec_def Let_def)
  qed
qed

lemma vprintf_loop_emits: "render f args = Some u \<Longrightarrow> emits (vprintf_loop host f args) u"
proof (induction f args arbitrary: u rule: render.induct)
  case (1 args)
  then show ?case using emits_none by simp
next
  case (2 c f args)
  show ?case
  proof (cases "c = CHR ''%''")
    case True
    obtain sp args1 f1 t args2 w where sp: "parse_spec args f = Some (sp, args1, f1)"
      and t: "conv_text sp args1 = Some (t, args2)" and w: "render f1 args2 = Some w" and u: "u = t @ w"
      using "2.prems" True by (auto split: option.splits)
    obtain g where g: "emits g t" "\<And>s. print_spec host sp args1 s = map_option (Pair args2) (g s)"
      by (rule conv_emits [OF t, of host]) blast
    have "vprintf_loop host (c # f) args =
        (\<lambda>s. case g s of None \<Rightarrow> None | Some s \<Rightarrow> if failed s then Some s else vprintf_loop host f1 args2 s)"
      using True sp g(2) by (intro ext) (simp split: option.split)
    then show ?thesis
      using emits_seq [OF g(1) "2.IH"(1) [OF True sp refl refl t refl w]] u by simp
  next
    case False
    obtain w where w: "render f args = Some w" and u: "u = [c] @ w" using "2.prems" False by auto
    have "vprintf_loop host (c # f) args =
        (\<lambda>s. case StoreChar host c s of None \<Rightarrow> None | Some s \<Rightarrow> if failed s then Some s else vprintf_loop host f args s)"
      using False by (intro ext) simp
    then show ?thesis using emits_seq [OF emits_store "2.IH"(2) [OF False w], of host c] u by simp
  qed
qed

subsection \<open>What is printed\<close>


text \<open>The reference text of a number denotes it.\<close>

definition digit_index :: "char \<Rightarrow> nat" where
  "digit_index c = length (takeWhile (\<lambda>x. x \<noteq> c) aV2C)"

definition text_value :: "nat \<Rightarrow> string \<Rightarrow> nat" where
  "text_value b t = foldl (\<lambda>a c. a * b + digit_index c) 0 t"

lemma digit_index_nth: "d < 16 \<Longrightarrow> digit_index (aV2C ! d) = d"
proof -
  have "\<forall>d\<in>set [0..<16]. digit_index (aV2C ! d) = d" by code_simp
  then show "d < 16 \<Longrightarrow> digit_index (aV2C ! d) = d" by simp
qed

lemma digits_text_value:
  assumes "2 \<le> b" and "b \<le> 16"
  shows "foldl (\<lambda>a c. a * b + digit_index c) a (digits_text b n v) = a * b ^ n + v mod b ^ n"
proof (induction n arbitrary: a)
  case (Suc n)
  have "digit_index (aV2C ! (v div b ^ n mod b)) = v div b ^ n mod b"
    using assms by (intro digit_index_nth) (meson less_le_trans mod_less_divisor zero_less_numeral)
  moreover have split: "v mod b ^ Suc n = (v div b ^ n mod b) * b ^ n + v mod b ^ n"
    using mod_mult2_eq [of v "b ^ n" b] by (simp add: mult.commute)
  ultimately have "foldl (\<lambda>a c. a * b + digit_index c) a (digits_text b (Suc n) v) =
      (a * b + v div b ^ n mod b) * b ^ n + v mod b ^ n" by (simp add: Suc)
  with split show ?case by (simp add: algebra_simps)
qed simp

lemma number_text_value:
  assumes "2 \<le> b" and "b \<le> 16"
  shows "text_value b (number_text b nd v) = v"
proof -
  let ?n = "max nd (ndigits b v)"
  have "?n = Suc (?n - 1)" using ndigits_pos [of b v] by linarith
  then have "v < b ^ ?n" using ndigits_le_iff [OF assms(1), of v "?n - 1"] by (metis max.cobounded2)
  then show ?thesis using digits_text_value [OF assms, of 0 ?n v] by (simp add: text_value_def number_text_def)
qed

text \<open>
  A precision of nine or more hexadecimal digits makes the weight of the first digit wrap to
  zero, and the code divides by it.
\<close>

lemma find_digit_skip:
  "find_digit v B nd D = find_digit v B (if nd > 1 then 1 else nd) (D * B ^ (unat nd - 1))"
proof (induction "unat nd" arbitrary: nd D rule: less_induct)
  case less
  show ?case
  proof (cases "nd > 1")
    case True
    then have gt: "1 < unat nd" by (simp add: word_less_nat_alt)
    then have n1: "unat (nd - 1) = unat nd - 1" by (subst unat_sub_u32) simp_all
    have "find_digit v B nd D = find_digit v B (nd - 1) (D * B)" using True by (subst find_digit.simps) simp
    also have "\<dots> = find_digit v B (if nd - 1 > 1 then 1 else nd - 1) (D * B * B ^ (unat (nd - 1) - 1))"
      using less [of "nd - 1" "D * B"] gt n1 by simp
    also have "(if nd - 1 > 1 then 1 else nd - 1) = 1"
      using gt n1 by (auto simp: word_less_nat_alt word_unat_eq_iff)
    also have "D * B * B ^ (unat (nd - 1) - 1) = D * B ^ (unat nd - 1)"
      using gt n1 by (metis Suc_diff_1 mult.assoc power_Suc zero_less_diff)
    finally show ?thesis using True by simp
  next
    case False
    then have "unat nd - 1 = 0" by (simp add: word_less_nat_alt)
    then show ?thesis using False by simp
  qed
qed

lemma hex_weight_wraps: "8 \<le> n \<Longrightarrow> (16 :: u32) ^ n = 0"
proof -
  assume "8 \<le> n"
  then obtain k where "n = 8 + k" using le_Suc_ex by blast
  moreover have "(16 :: u32) ^ 8 = 0" by code_simp
  ultimately show ?thesis by (simp add: power_add del: power_numeral)
qed

text \<open>C40. A hexadecimal conversion (x or X) of an integer with a precision of nine or more, written
  in the format or taken from the arguments, has no defined result when its field is
  left-justified or not wider than the precision, whatever flags it has and whatever follows, as
  long as the output before it has not failed: the weight of the first digit wraps to zero and
  the code divides by it.\<close>

theorem printf_precision_divides_by_zero:
  assumes "parse_spec args f = Some (sp, VInt v # args', f')" and "ps_char sp \<in> {CHR ''x'', CHR ''X''}" and "9 \<le> unat (ps_precision sp)"
    and "ps_flags sp AND FORMAT_FLAG_LEFT_JUSTIFY \<noteq> 0 \<or> ps_width sp \<le> ps_precision sp" and "\<not> failed s"
  shows "find_digit v 16 (ps_precision sp) 1 = Some None \<and> vprintf_loop host (CHR ''%'' # f) args s = None"
proof -
  let ?nd = "ps_precision sp" and ?fw = "ps_width sp" and ?ff = "ps_flags sp"
  have "?nd > 1" using assms(3) by (simp add: word_less_nat_alt)
  then have "find_digit v 16 ?nd 1 = find_digit v 16 1 0"
    using find_digit_skip [of v 16 ?nd 1] hex_weight_wraps [of "unat ?nd - 1"] assms(3) by simp
  also have "\<dots> = Some None" by (subst find_digit.simps) simp
  finally have zero: "find_digit v 16 ?nd 1 = Some None" .
  obtain W where W: "num_width 16 v 1 = Some W" "unat (if ?nd > W then ?nd else W) = max (unat ?nd) (ndigits 16 (unat v))"
    by (rule base_width [of 16 16 v ?nd]) simp_all
  have pad: "print_pad host c (if ?nd > W then ?nd else W) ?fw s = Some (?fw, s)" if "?fw \<le> ?nd" for c
  proof -
    have "\<not> (if ?nd > W then ?nd else W) < ?fw" using that W(2) by (simp add: word_less_nat_alt word_le_nat_alt not_less del: if_split_asm)
    then show ?thesis by (simp add: print_pad.simps)
  qed
  then have "(if ?ff AND FORMAT_FLAG_LEFT_JUSTIFY = 0 \<and> ?fw \<noteq> 0 then print_pad host c (if ?nd > W then ?nd else W) ?fw s else Some (?fw, s)) =
      Some (?fw, s)" for c using assms(4) by auto
  then have "PrintUnsigned host v 16 ?nd ?fw ?ff s = None"
    using W(1) zero assms(5) by (simp add: PrintUnsigned_def Let_def split del: if_split)
  then have "print_spec host sp (VInt v # args') s = None"
    using assms(2) by (auto simp: print_spec_def Let_def)
  then show ?thesis using zero assms(1) by simp
qed

lemma render_example: "render ''ch %03d/%-4u|%s'' [VInt 76, VInt 5, VStr (Some ''ok'')] = Some ''ch 076/5   |ok''"
  by code_simp

lemma format_example: "c_format ''ch %03d/%-4u|%s'' = ''ch %03d/%-4u|%s''"
  by (simp add: c_format_def)


theorem printf_precision_divides_by_zero_witness:
  "find_digit 5 16 9 1 = Some None \<and> SEGGER_RTT_printf (\<lambda>_. idle) (replicate 64 0) 0 ''%.9x'' [VInt 5] rtt_bss = None"
proof -
  let ?sp = "\<lparr>ps_flags = 0, ps_width = 0, ps_set = True, ps_precision = 9, ps_char = CHR ''x''\<rparr>"
  let ?s = "(\<lparr>pd_pBuffer = replicate 64 0, pd_BufferSize = 64, pd_Cnt = 0, pd_ReturnValue = 0, pd_RTTBufferIndex = 0\<rparr>, rtt_bss)"
  have "parse_spec [VInt 5] ''.9x'' = Some (?sp, [VInt 5], [])" by code_simp
  then have "find_digit 5 16 9 1 = Some None \<and> vprintf_loop (\<lambda>_. idle) (CHR ''%'' # ''.9x'') [VInt 5] ?s = None"
    using printf_precision_divides_by_zero [of "[VInt 5]" "''.9x''" ?sp 5 "[]" "[]" ?s "\<lambda>_. idle"] by (simp add: failed_def)
  moreover have "c_format ''%.9x'' = CHR ''%'' # ''.9x''" by (simp add: c_format_def)
  ultimately show ?thesis by (simp add: SEGGER_RTT_printf_def SEGGER_RTT_vprintf_def SEGGER_RTT_PRINTF_BUFFER_SIZE_def del: vprintf_loop.simps)
qed

text \<open>The last write is not checked: three characters are lost, and the result is six.\<close>

theorem printf_reports_lost_text:
  "\<exists>p'. SEGGER_RTT_printf (\<lambda>_. idle) (replicate 64 0) 2 ''abc'' [] (rtt4 0) = Some (6, p') \<and> contents (aUp p' ! 2) = [7]"
proof -
  let ?d = "\<lparr>pd_pBuffer = bytes_of ''abc'' @ replicate 61 0, pd_BufferSize = 64, pd_Cnt = 3, pd_ReturnValue = 3, pd_RTTBufferIndex = 2\<rparr>"
  have loop: "vprintf_loop (\<lambda>_. idle) ''abc'' []
      (\<lparr>pd_pBuffer = replicate 64 0, pd_BufferSize = 64, pd_Cnt = 0, pd_ReturnValue = 0, pd_RTTBufferIndex = 2\<rparr>, rtt4 0) =
      Some (?d, rtt4 0)"
  proof -
    have "replicate 64 (0 :: u8) = [0, 0, 0] @ replicate 61 0" by (simp add: numeral_eq_Suc)
    moreover have "(1 :: u32) \<le> 64" "(2 :: u32) \<le> 64" "(3 :: u32) \<le> 64" by (simp_all add: word_le_nat_alt)
    ultimately show ?thesis by (simp add: StoreChar_def failed_def Let_def)
  qed
  have "ring_write idle (bytes_of ''abc'' @ replicate 61 0) 3 (ring4 0) = Some (0, ring4 0)"
    by (simp add: ring_write_def ring4_def AvailWriteSpace_def rtt_modes)
  then have "SEGGER_RTT_Write idle 2 (bytes_of ''abc'' @ replicate 61 0) 3 (rtt4 0) = Some (0, set_up 2 (ring4 0) (rtt4 0))"
    using rtt4_ready by (simp add: SEGGER_RTT_Write_def SEGGER_RTT_WriteNoLock_def)
  moreover have "2 < length (aUp (rtt4 0))" using rtt4_ready(1) by (simp add: rtt_ready_def rtt_consts)
  ultimately show ?thesis
    using loop ring4_ok(2)
    by (simp add: SEGGER_RTT_printf_def SEGGER_RTT_vprintf_def flush_desc_def SEGGER_RTT_PRINTF_BUFFER_SIZE_def c_format_def)
qed

end
