(* ===== verification/Ch_History.thy ===== *)
theory Ch_History
  imports Ring_Window Ch_Shell
begin

text \<open>
  The line history of the shell, \<^verbatim>\<open>os/various/shell/shell.c\<close>: a circular buffer of lines,
  each stored as a length byte followed by its characters, with a zero length byte after the
  last one. \<open>save_history\<close> drops the oldest lines until a new one fits; \<open>get_history\<close> walks
  through the buffer from the oldest line. The theory shows that the buffer implements a
  list of lines.

  The fields of \<open>ShellHistory\<close> are C integers. The offsets are never negative and are natural
  numbers here; differences are taken on integers as in the code. The shell always passes its
  history, so the tests for a null pointer are left out.
\<close>

subsection \<open>The buffer\<close>

record ShellHistory =
  sh_buffer :: string
  sh_size :: nat
  sh_beg :: nat
  sh_end :: nat
  sh_cur :: int

definition SHELL_MAX_LINE_LENGTH :: nat where "SHELL_MAX_LINE_LENGTH = 64"
definition SHELL_MAX_HIST_BUFF :: nat where "SHELL_MAX_HIST_BUFF = 8 * SHELL_MAX_LINE_LENGTH"

text \<open>The entry after the one at \<open>idx\<close>, as computed in three places.\<close>

definition next_entry :: "ShellHistory \<Rightarrow> nat \<Rightarrow> nat" where
  "next_entry shp idx =
     (let pos = idx + of_char (sh_buffer shp ! idx) + 1
      in if pos \<ge> sh_size shp then pos - sh_size shp else pos)"

definition del_histbuff_entry :: "ShellHistory \<Rightarrow> ShellHistory" where
  "del_histbuff_entry shp = shp\<lparr>sh_beg := next_entry shp (sh_beg shp)\<rparr>"

definition is_histbuff_space :: "ShellHistory \<Rightarrow> nat \<Rightarrow> bool" where
  "is_histbuff_space shp len =
     (if sh_end shp \<ge> sh_beg shp
      then int len < int (sh_size shp) - (int (sh_end shp) - int (sh_beg shp) + 1)
      else int len < int (sh_beg shp) - int (sh_end shp) - 1)"

text \<open>\<open>while (!is_histbuff_space(shp, length)) del_histbuff_entry(shp);\<close>\<close>

partial_function (option) make_space :: "nat \<Rightarrow> ShellHistory \<Rightarrow> ShellHistory option" where
  [code]: "make_space len shp =
     (if is_histbuff_space shp len then Some shp else make_space len (del_histbuff_entry shp))"

text \<open>
  \<open>while ((*(line + length - 1) == ' ') && (length > 0)) length--;\<close> The character is looked at
  before the length is tested: for an empty line that is the byte before the buffer, whose value
  has no influence.
\<close>

primrec strip_len :: "string \<Rightarrow> nat \<Rightarrow> nat" where
  "strip_len line 0 = 0"
| "strip_len line (Suc n) = (if line ! n = CHR '' '' then strip_len line n else Suc n)"

text \<open>The copy of the characters behind the place of the length byte, in one or two pieces.\<close>

definition store_chars :: "ShellHistory \<Rightarrow> string \<Rightarrow> nat \<Rightarrow> string" where
  "store_chars shp line len =
     (let n = sh_size shp; e = sh_end shp; buf = sh_buffer shp
      in if int len < int n - int e - 1 then mem_write (e + 1) (take len line) buf
         else let part_len = n - e - 1; buf = mem_write (e + 1) (take part_len line) buf
              in mem_write 0 (take (len - part_len) (drop part_len line)) buf)"

definition save_history :: "string \<Rightarrow> nat \<Rightarrow> ShellHistory \<Rightarrow> ShellHistory option" where
  "save_history line len shp =
     (if int len > int (sh_size shp) - 2 then Some shp
      else
        let len = strip_len line len
        in if len = 0 then Some shp
           else (case make_space len shp of None \<Rightarrow> None
             | Some shp \<Rightarrow>
                 let n = sh_size shp; e = sh_end shp;
                     buf = store_chars shp line len;
                     buf = buf[e := char_of len];
                     e = e + (len + 1);
                     e = (if e \<ge> n then e - n else e);
                     buf = buf[e := CHR 0x00]
                 in Some (shp\<lparr>sh_buffer := buf, sh_end := e, sh_cur := 0\<rparr>)))"

datatype hist_dir = SHELL_HIST_DIR_BK | SHELL_HIST_DIR_FW

partial_function (option) count_entries :: "ShellHistory \<Rightarrow> nat \<Rightarrow> int \<Rightarrow> int option" where
  [code]: "count_entries shp idx count =
     (if idx \<noteq> sh_end shp then count_entries shp (next_entry shp idx) (count + 1) else Some count)"

partial_function (option) find_entry :: "ShellHistory \<Rightarrow> int \<Rightarrow> nat \<Rightarrow> int \<Rightarrow> nat option" where
  [code]: "find_entry shp count idx i =
     (if idx \<noteq> sh_end shp \<and> sh_cur shp \<noteq> count - i - 1
      then find_entry shp count (next_entry shp idx) (i + 1) else Some idx)"

text \<open>The copy of the entry at \<open>idx\<close> to the start of the line buffer.\<close>

definition fetch_entry :: "ShellHistory \<Rightarrow> nat \<Rightarrow> nat \<Rightarrow> string \<Rightarrow> string" where
  "fetch_entry shp idx len line =
     (let buf = sh_buffer shp; line = mem_write 0 (replicate SHELL_MAX_LINE_LENGTH (CHR 0x00)) line
      in if idx + len < sh_size shp then mem_write 0 (take len (drop (idx + 1) buf)) line
         else let part_len = sh_size shp - idx - 1;
                  line = mem_write 0 (take part_len (drop (idx + 1) buf)) line
              in mem_write part_len (take (len - part_len) buf) line)"

definition get_history :: "string \<Rightarrow> hist_dir \<Rightarrow> ShellHistory \<Rightarrow> (int \<times> string \<times> ShellHistory) option" where
  "get_history line dir shp =
     (case count_entries shp (sh_beg shp) 0 of None \<Rightarrow> None
      | Some count \<Rightarrow>
          if dir = SHELL_HIST_DIR_FW \<and> \<not> sh_cur shp > 0 then Some (0, line, shp)
          else
            let shp = (if dir = SHELL_HIST_DIR_FW then shp\<lparr>sh_cur := sh_cur shp - 2\<rparr> else shp)
            in if count \<ge> sh_cur shp then
                 (case find_entry shp count (sh_beg shp) 0 of None \<Rightarrow> None
                  | Some idx \<Rightarrow>
                      let len = of_char (sh_buffer shp ! idx) :: nat
                      in if len > 0 then
                           Some (int len, fetch_entry shp idx len line, shp\<lparr>sh_cur := sh_cur shp + 1\<rparr>)
                         else if dir = SHELL_HIST_DIR_FW then Some (0, line, shp\<lparr>sh_cur := sh_cur shp + 1\<rparr>)
                         else Some (- 1, line, shp))
               else Some (- 1, line, shp))"

subsection \<open>Meaning\<close>

definition encode_line :: "string \<Rightarrow> string" where
  "encode_line l = char_of (length l) # l"

definition encode :: "string list \<Rightarrow> string" where
  "encode ls = concat (map encode_line ls)"

text \<open>The buffer holds the lines \<open>ls\<close>, the oldest first, and \<open>c\<close> of them have been recalled.\<close>

definition hist_rep :: "ShellHistory \<Rightarrow> string list \<Rightarrow> bool" where
  "hist_rep shp ls \<longleftrightarrow> length (sh_buffer shp) = sh_size shp \<and> sh_beg shp < sh_size shp \<and>
     sh_end shp = (sh_beg shp + length (encode ls)) mod sh_size shp \<and>
     length (encode ls) < sh_size shp \<and>
     window (sh_buffer shp) (sh_beg shp) (length (encode ls)) = encode ls \<and>
     sh_buffer shp ! sh_end shp = CHR 0x00 \<and>
     (\<forall>l\<in>set ls. l \<noteq> [] \<and> length l < SHELL_MAX_LINE_LENGTH) \<and>
     0 \<le> sh_cur shp \<and> sh_cur shp \<le> int (length ls)"

text \<open>The abstract operations.\<close>

fun drop_old :: "nat \<Rightarrow> string list \<Rightarrow> nat \<Rightarrow> string list" where
  "drop_old n [] len = []"
| "drop_old n (l # ls) len = (if length (encode (l # ls)) + len + 1 < n then l # ls else drop_old n ls len)"

definition remember :: "nat \<Rightarrow> string list \<Rightarrow> string \<Rightarrow> string list" where
  "remember n ls l = (if l = [] then ls else drop_old n ls (length l) @ [l])"

lemma encode_simps [simp]: "encode [] = []" "encode (l # ls) = encode_line l @ encode ls"
  "encode (ls @ ms) = encode ls @ encode ms"
  by (simp_all add: encode_def)

lemma length_encode_line [simp]: "length (encode_line l) = Suc (length l)"
  by (simp add: encode_line_def)

lemma of_char_char_of: "n < 256 \<Longrightarrow> (of_char (char_of n :: char) :: nat) = n"
  by simp

subsection \<open>Where the entries are\<close>

definition entry_pos :: "ShellHistory \<Rightarrow> string list \<Rightarrow> nat \<Rightarrow> nat" where
  "entry_pos shp ls j = (sh_beg shp + length (encode (take j ls))) mod sh_size shp"

lemma hist_repD:
  assumes "hist_rep shp ls"
  shows "length (sh_buffer shp) = sh_size shp" "sh_beg shp < sh_size shp"
    "sh_end shp = entry_pos shp ls (length ls)" "length (encode ls) < sh_size shp"
    "window (sh_buffer shp) (sh_beg shp) (length (encode ls)) = encode ls"
    "sh_buffer shp ! sh_end shp = CHR 0x00"
    "l \<in> set ls \<Longrightarrow> l \<noteq> [] \<and> length l < SHELL_MAX_LINE_LENGTH"
    "0 \<le> sh_cur shp" "sh_cur shp \<le> int (length ls)" "entry_pos shp ls 0 = sh_beg shp"
  using assms by (auto simp: hist_rep_def entry_pos_def)

lemma encode_split:
  "j < length ls \<Longrightarrow> encode ls = encode (take j ls) @ encode_line (ls ! j) @ encode (drop (Suc j) ls)"
  by (metis append.assoc encode_simps(2,3) id_take_nth_drop)

lemma entry_window:
  assumes rep: "hist_rep shp ls" and j: "j < length ls"
  shows "window (sh_buffer shp) (entry_pos shp ls j) (Suc (length (ls ! j))) = encode_line (ls ! j)"
proof -
  note D = hist_repD [OF rep]
  let ?a = "length (encode (take j ls))" and ?b = "Suc (length (ls ! j))"
  have le: "?a + ?b \<le> length (encode ls)" using encode_split [OF j] by simp
  have "window (sh_buffer shp) (entry_pos shp ls j) ?b = window (sh_buffer shp) (sh_beg shp + ?a) ?b"
    unfolding entry_pos_def using D(1) window_mod by metis
  also have "\<dots> = take ?b (drop ?a (encode ls))"
    using D(5) le by (metis add_le_imp_le_diff add.commute drop_window take_window)
  also have "\<dots> = encode_line (ls ! j)" using encode_split [OF j] by simp
  finally show ?thesis .
qed

lemma entry_pos_less: "hist_rep shp ls \<Longrightarrow> entry_pos shp ls j < sh_size shp"
  using hist_repD(2) [of shp ls] by (simp add: entry_pos_def)

lemma entry_byte:
  assumes rep: "hist_rep shp ls" and j: "j < length ls"
  shows "(of_char (sh_buffer shp ! entry_pos shp ls j) :: nat) = length (ls ! j)"
proof -
  have "sh_buffer shp ! entry_pos shp ls j = encode_line (ls ! j) ! 0"
    using arg_cong [OF entry_window [OF rep j], of "\<lambda>w. w ! 0"] entry_pos_less [OF rep, of j]
      hist_repD(1) [OF rep] by simp
  moreover have "length (ls ! j) < 256" using hist_repD(7) [OF rep, of "ls ! j"] j
    by (simp add: SHELL_MAX_LINE_LENGTH_def)
  ultimately show ?thesis by (simp add: encode_line_def of_char_char_of)
qed

lemma next_entry_pos:
  assumes rep: "hist_rep shp ls" and j: "j < length ls"
  shows "next_entry shp (entry_pos shp ls j) = entry_pos shp ls (Suc j)"
proof -
  let ?n = "sh_size shp" and ?p = "entry_pos shp ls j" and ?d = "length (ls ! j) + 1"
  have d: "?d \<le> length (encode ls)" using encode_split [OF j] by simp
  have lt: "?p < ?n" "?d < ?n" using entry_pos_less [OF rep] hist_repD(4) [OF rep] d by auto
  have "length (encode (take (Suc j) ls)) = length (encode (take j ls)) + ?d"
    using j by (simp add: take_Suc_conv_app_nth)
  then have "entry_pos shp ls (Suc j) = (?p + ?d) mod ?n"
    unfolding entry_pos_def by (metis add.assoc mod_add_left_eq)
  also have "\<dots> = (if ?p + ?d \<ge> ?n then ?p + ?d - ?n else ?p + ?d)"
    using lt by (simp add: le_mod_geq)
  finally show ?thesis
    by (simp add: next_entry_def entry_byte [OF rep j] Let_def)
qed

lemma entry_pos_neq_end:
  assumes rep: "hist_rep shp ls" and j: "j < length ls"
  shows "entry_pos shp ls j \<noteq> sh_end shp"
proof -
  have "length (encode (take j ls)) < length (encode ls)" using encode_split [OF j] by simp
  then show ?thesis
    using mod_shift_neq [of "length (encode (take j ls))" "length (encode ls)" "sh_size shp" "sh_beg shp"]
      hist_repD(3,4) [OF rep] by (simp add: entry_pos_def)
qed

lemma count_entries_eq:
  assumes "hist_rep shp ls" and "j \<le> length ls"
  shows "count_entries shp (entry_pos shp ls j) c = Some (c + int (length ls - j))"
  using assms
proof (induction "length ls - j" arbitrary: j c)
  case 0
  then show ?case using hist_repD(3) [OF 0(2)] by (subst count_entries.simps) simp
next
  case (Suc x)
  then have j: "j < length ls" by linarith
  have "count_entries shp (entry_pos shp ls j) c = count_entries shp (entry_pos shp ls (Suc j)) (c + 1)"
    using entry_pos_neq_end [OF Suc(3) j] next_entry_pos [OF Suc(3) j]
    by (subst count_entries.simps) simp
  then show ?case using Suc(1) [of "Suc j"] Suc(2,3) j by simp
qed

text \<open>The search stops at the entry with \<open>sh_cur\<close> younger ones, or at the end.\<close>

lemma find_entry_eq:
  assumes "hist_rep (shp\<lparr>sh_cur := c\<rparr>) ls" and "j \<le> length ls"
    and "m = (if 0 \<le> sh_cur shp \<and> sh_cur shp < int (length ls) then length ls - 1 - nat (sh_cur shp) else length ls)"
    and "j \<le> m"
  shows "find_entry shp (int (length ls)) (entry_pos shp ls j) (int j) = Some (entry_pos shp ls m)"
proof -
  have pos: "entry_pos (shp\<lparr>sh_cur := c\<rparr>) ls = entry_pos shp ls" by (rule ext) (simp add: entry_pos_def)
  have nxt: "next_entry (shp\<lparr>sh_cur := c\<rparr>) = next_entry shp" by (rule ext) (simp add: next_entry_def)
  show ?thesis
    using assms(2,4)
  proof (induction "m - j" arbitrary: j)
    case 0
    then have "j = m" by simp
    then show ?case
      using assms(3) hist_repD(3) [OF assms(1)] by (subst find_entry.simps) (auto simp: pos split: if_splits)
  next
    case (Suc x)
    then have j: "j < m" "j < length ls" using assms(3) by (auto split: if_splits)
    then have "sh_cur shp \<noteq> int (length ls) - int j - 1" using assms(3) by (auto split: if_splits)
    moreover have "entry_pos shp ls j \<noteq> sh_end shp"
      using entry_pos_neq_end [OF assms(1) j(2)] by (simp add: pos)
    ultimately have "find_entry shp (int (length ls)) (entry_pos shp ls j) (int j) =
        find_entry shp (int (length ls)) (entry_pos shp ls (Suc j)) (int (Suc j))"
      using next_entry_pos [OF assms(1) j(2)]
      by (subst find_entry.simps) (simp add: pos nxt add.commute)
    then show ?case using Suc(1) [of "Suc j"] Suc(2) j by simp
  qed
qed

subsection \<open>Recalling a line\<close>

text \<open>A line as it stands in the line buffer: its characters and zeros up to the end.\<close>

definition padded :: "string \<Rightarrow> string" where
  "padded l = l @ replicate (SHELL_MAX_LINE_LENGTH - length l) (CHR 0x00)"

lemma length_padded: "length l \<le> SHELL_MAX_LINE_LENGTH \<Longrightarrow> length (padded l) = SHELL_MAX_LINE_LENGTH"
  by (simp add: padded_def)

lemma take_padded: "take (length l) (padded l) = l"
  by (simp add: padded_def)

lemma fetch_entry_eq:
  assumes rep: "hist_rep shp ls" and j: "j < length ls" and line: "length line = SHELL_MAX_LINE_LENGTH"
  shows "fetch_entry shp (entry_pos shp ls j) (length (ls ! j)) line = padded (ls ! j)"
proof -
  let ?p = "entry_pos shp ls j" and ?l = "ls ! j" and ?buf = "sh_buffer shp"
  let ?zero = "mem_write 0 (replicate SHELL_MAX_LINE_LENGTH (CHR 0x00)) line"
  have len: "length ?buf = sh_size shp" and p: "?p < sh_size shp" and l: "length ?l < SHELL_MAX_LINE_LENGTH"
    and fits: "length ?l < sh_size shp"
    using hist_repD(1) [OF rep] entry_pos_less [OF rep] hist_repD(7) [OF rep, of ?l] j
      encode_split [OF j] hist_repD(4) [OF rep] by auto
  have zero: "?zero = replicate SHELL_MAX_LINE_LENGTH (CHR 0x00)" using line by simp
  have win: "window ?buf (?p + 1) (length ?l) = ?l"
    using arg_cong [OF entry_window [OF rep j], of "drop 1"] by (simp add: drop_window encode_line_def)
  show ?thesis
  proof (cases "?p + length ?l < sh_size shp")
    case True
    then have "take (length ?l) (drop (?p + 1) ?buf) = ?l" using win window_flat [of "?p + 1" "length ?l" ?buf] len by simp
    then have "fetch_entry shp ?p (length ?l) line = mem_write 0 ?l ?zero"
      using True by (simp add: fetch_entry_def Let_def del: mem_write_0)
    then show ?thesis unfolding zero using l by (simp add: padded_def)
  next
    case False
    let ?k = "sh_size shp - ?p - 1"
    have k: "?k \<le> length ?l" using False by simp
    have "window ?buf (?p + 1) (?k + (length ?l - ?k)) = window ?buf (?p + 1) ?k @ window ?buf (?p + 1 + ?k) (length ?l - ?k)"
      by (rule window_add)
    moreover have "window ?buf (?p + 1 + ?k) (length ?l - ?k) = take (length ?l - ?k) ?buf"
      using window_mod [of ?buf "?p + 1 + ?k" "length ?l - ?k"] window_flat [of 0 "length ?l - ?k" ?buf] len p fits
      by simp
    moreover have "window ?buf (?p + 1) ?k = take ?k (drop (?p + 1) ?buf)"
      using window_flat [of "?p + 1" ?k ?buf] len p by simp
    ultimately have parts: "take ?k (drop (?p + 1) ?buf) @ take (length ?l - ?k) ?buf = ?l"
      using win k by simp
    have "fetch_entry shp ?p (length ?l) line =
        mem_write ?k (take (length ?l - ?k) ?buf) (mem_write 0 (take ?k (drop (?p + 1) ?buf)) ?zero)"
      using False by (simp add: fetch_entry_def Let_def)
    also have "\<dots> = padded ?l"
    proof -
      let ?a = "take ?k (drop (?p + 1) ?buf)" and ?b = "take (length ?l - ?k) ?buf"
      have la: "length ?a = ?k" and lb: "length ?b = length ?l - ?k" using len p fits by auto
      have "mem_write ?k ?b (mem_write 0 ?a (replicate SHELL_MAX_LINE_LENGTH (CHR 0x00))) =
          ?a @ ?b @ replicate (SHELL_MAX_LINE_LENGTH - length ?l) (CHR 0x00)"
        using la lb k l by (simp add: mem_write_def del: take_append)  simp
      then show ?thesis unfolding zero using parts by (simp add: padded_def)
    qed
    finally show ?thesis .
  qed
qed

text \<open>What the two directions return, on the list of lines.\<close>

definition recall :: "hist_dir \<Rightarrow> string list \<Rightarrow> nat \<Rightarrow> string option \<times> int \<times> nat" where
  "recall dir ls c =
     (case dir of
        SHELL_HIST_DIR_BK \<Rightarrow>
          (if c < length ls then (let l = rev ls ! c in (Some l, int (length l), c + 1)) else (None, - 1, c))
      | SHELL_HIST_DIR_FW \<Rightarrow>
          (if c \<ge> 2 then (let l = rev ls ! (c - 2) in (Some l, int (length l), c - 1)) else (None, 0, 0)))"

lemma find_youngest:
  assumes rep: "hist_rep shp ls" and line: "length line = SHELL_MAX_LINE_LENGTH"
    and k: "0 \<le> k" "k < int (length ls)" and shp': "shp' = shp\<lparr>sh_cur := k\<rparr>"
  obtains idx where "find_entry shp' (int (length ls)) (sh_beg shp') 0 = Some idx"
    and "(of_char (sh_buffer shp' ! idx) :: nat) = length (rev ls ! nat k)"
    and "fetch_entry shp' idx (length (rev ls ! nat k)) line = padded (rev ls ! nat k)"
    and "rev ls ! nat k \<noteq> []"
proof -
  let ?m = "length ls - 1 - nat k"
  have m: "?m < length ls" and r: "rev ls ! nat k = ls ! ?m" using k by (auto simp: rev_nth)
  have rep': "hist_rep (shp'\<lparr>sh_cur := sh_cur shp\<rparr>) ls" using rep shp' by simp
  have pos: "entry_pos shp' ls = entry_pos shp ls" by (rule ext) (simp add: entry_pos_def shp')
  have fe: "fetch_entry shp' = fetch_entry shp" by (intro ext) (simp add: fetch_entry_def shp' Let_def)
  have "find_entry shp' (int (length ls)) (entry_pos shp' ls 0) (int 0) = Some (entry_pos shp' ls ?m)"
    by (rule find_entry_eq [OF rep']) (use k shp' in auto)
  then have "find_entry shp' (int (length ls)) (sh_beg shp') 0 = Some (entry_pos shp ls ?m)"
    using hist_repD(10) [OF rep] by (simp add: pos) (simp add: shp')
  moreover have "rev ls ! nat k \<noteq> []" using hist_repD(7) [OF rep, of "ls ! ?m"] m r by simp
  ultimately show thesis
    using that entry_byte [OF rep m] fetch_entry_eq [OF rep m line] r shp' fe by simp
qed

lemma find_none:
  assumes rep: "hist_rep shp ls" and k: "k < 0 \<or> int (length ls) \<le> k" and shp': "shp' = shp\<lparr>sh_cur := k\<rparr>"
  shows "find_entry shp' (int (length ls)) (sh_beg shp') 0 = Some (sh_end shp')"
    and "sh_buffer shp' ! sh_end shp' = CHR 0x00"
proof -
  have rep': "hist_rep (shp'\<lparr>sh_cur := sh_cur shp\<rparr>) ls" using rep shp' by simp
  have pos: "entry_pos shp' ls = entry_pos shp ls" by (rule ext) (simp add: entry_pos_def shp')
  have "find_entry shp' (int (length ls)) (entry_pos shp' ls 0) (int 0) = Some (entry_pos shp' ls (length ls))"
    by (rule find_entry_eq [OF rep']) (use k shp' in auto)
  then show "find_entry shp' (int (length ls)) (sh_beg shp') 0 = Some (sh_end shp')"
    using hist_repD(3,10) [OF rep] by (simp add: pos) (simp add: shp')
  show "sh_buffer shp' ! sh_end shp' = CHR 0x00" using hist_repD(6) [OF rep] shp' by simp
qed

lemma get_history_BK:
  assumes rep: "hist_rep shp ls" and line: "length line = SHELL_MAX_LINE_LENGTH"
    and rc: "recall SHELL_HIST_DIR_BK ls (nat (sh_cur shp)) = (found, res, c)"
  shows "get_history line SHELL_HIST_DIR_BK shp =
    Some (res, case found of None \<Rightarrow> line | Some l \<Rightarrow> padded l, shp\<lparr>sh_cur := int c\<rparr>)"
proof -
  note D = hist_repD [OF rep]
  have cnt: "count_entries shp (sh_beg shp) 0 = Some (int (length ls))"
    using count_entries_eq [OF rep, of 0 0] D(10) by simp
  have same: "shp = shp\<lparr>sh_cur := sh_cur shp\<rparr>" by simp
  show ?thesis
  proof (cases "sh_cur shp < int (length ls)")
    case True
    obtain idx where idx: "find_entry shp (int (length ls)) (sh_beg shp) 0 = Some idx"
      "(of_char (sh_buffer shp ! idx) :: nat) = length (rev ls ! nat (sh_cur shp))"
      "fetch_entry shp idx (length (rev ls ! nat (sh_cur shp))) line = padded (rev ls ! nat (sh_cur shp))"
      "rev ls ! nat (sh_cur shp) \<noteq> []"
      by (rule find_youngest [OF rep line D(8) True same])
    then show ?thesis
      using cnt True D(8) rc by (auto simp: get_history_def recall_def Let_def split: if_splits)
  next
    case False
    then have k: "sh_cur shp < 0 \<or> int (length ls) \<le> sh_cur shp" by simp
    then show ?thesis
      using find_none [OF rep k same] cnt False D(8,9) rc
      by (auto simp: get_history_def recall_def split: if_splits)
  qed
qed

lemma get_history_FW:
  assumes rep: "hist_rep shp ls" and line: "length line = SHELL_MAX_LINE_LENGTH"
    and rc: "recall SHELL_HIST_DIR_FW ls (nat (sh_cur shp)) = (found, res, c)"
  shows "get_history line SHELL_HIST_DIR_FW shp =
    Some (res, case found of None \<Rightarrow> line | Some l \<Rightarrow> padded l, shp\<lparr>sh_cur := int c\<rparr>)"
proof -
  note D = hist_repD [OF rep]
  let ?shp = "shp\<lparr>sh_cur := sh_cur shp - 2\<rparr>"
  have cnt: "count_entries shp (sh_beg shp) 0 = Some (int (length ls))"
    using count_entries_eq [OF rep, of 0 0] D(10) by simp
  consider "sh_cur shp = 0" | "sh_cur shp = 1" | "2 \<le> sh_cur shp" using D(8) by linarith
  then show ?thesis
  proof cases
    case 1
    then show ?thesis using cnt rc by (auto simp: get_history_def recall_def)
  next
    case 2
    then have k: "sh_cur shp - 2 < 0 \<or> int (length ls) \<le> sh_cur shp - 2" by simp
    show ?thesis
      using find_none [OF rep k refl] cnt 2 rc
      by (auto simp: get_history_def recall_def Let_def)
  next
    case 3
    then have k: "0 \<le> sh_cur shp - 2" "sh_cur shp - 2 < int (length ls)" using D(9) by auto
    obtain idx where idx: "find_entry ?shp (int (length ls)) (sh_beg ?shp) 0 = Some idx"
      "(of_char (sh_buffer ?shp ! idx) :: nat) = length (rev ls ! nat (sh_cur shp - 2))"
      "fetch_entry ?shp idx (length (rev ls ! nat (sh_cur shp - 2))) line = padded (rev ls ! nat (sh_cur shp - 2))"
      "rev ls ! nat (sh_cur shp - 2) \<noteq> []"
      by (rule find_youngest [OF rep line k refl])
    moreover have "nat (sh_cur shp - 2) = nat (sh_cur shp) - 2" using 3 by simp
    moreover have "int (nat (sh_cur shp) - 1) = sh_cur shp - 1" "int (length ls) \<ge> sh_cur shp - 2"
      using 3 D(9) by auto
    ultimately show ?thesis
      using cnt 3 rc by (auto simp: get_history_def recall_def Let_def split: if_splits)
  qed
qed

lemma get_history_eq:
  assumes rep: "hist_rep shp ls" and line: "length line = SHELL_MAX_LINE_LENGTH"
    and rc: "recall dir ls (nat (sh_cur shp)) = (found, res, c)"
  shows "get_history line dir shp =
    Some (res, case found of None \<Rightarrow> line | Some l \<Rightarrow> padded l, shp\<lparr>sh_cur := int c\<rparr>)"
  using assms get_history_BK get_history_FW by (cases dir) blast+

lemma recall_rep:
  assumes rep: "hist_rep shp ls" and rc: "recall dir ls (nat (sh_cur shp)) = (found, res, c)"
  shows "hist_rep (shp\<lparr>sh_cur := int c\<rparr>) ls"
proof -
  have "c \<le> length ls"
    using rc hist_repD(8,9) [OF rep] by (auto simp: recall_def Let_def split: hist_dir.splits if_splits)
  then show ?thesis using rep by (auto simp: hist_rep_def)
qed

subsection \<open>Saving a line\<close>

lemma is_histbuff_space_iff:
  assumes rep: "hist_rep shp ls"
  shows "is_histbuff_space shp len \<longleftrightarrow> length (encode ls) + len + 1 < sh_size shp"
proof -
  note D = hist_repD [OF rep]
  have e: "sh_end shp = (if sh_beg shp + length (encode ls) < sh_size shp then sh_beg shp + length (encode ls)
      else sh_beg shp + length (encode ls) - sh_size shp)"
    using D(2,3,4) by (simp add: entry_pos_def le_mod_geq not_less)
  then show ?thesis
    using D(2,4) by (auto simp: is_histbuff_space_def split: if_splits)
qed

lemma del_histbuff_entry_rep:
  assumes rep: "hist_rep shp (l # ls)"
  shows "hist_rep (del_histbuff_entry shp\<lparr>sh_cur := 0\<rparr>) ls"
proof -
  note D = hist_repD [OF rep]
  let ?b = "next_entry shp (sh_beg shp)" and ?d = "Suc (length l)" and ?n = "sh_size shp"
  have b: "?b = (sh_beg shp + ?d) mod ?n"
    using next_entry_pos [OF rep, of 0] D(10) by (simp add: entry_pos_def)
  have "window (sh_buffer shp) ?b (length (encode ls)) = drop ?d (window (sh_buffer shp) (sh_beg shp) (length (encode (l # ls))))"
    unfolding b using window_mod [of "sh_buffer shp" "sh_beg shp + ?d"] D(1) by (simp add: drop_window)
  also have "\<dots> = encode ls" unfolding D(5) by simp
  finally have w: "window (sh_buffer shp) ?b (length (encode ls)) = encode ls" .
  have "(?b + length (encode ls)) mod ?n = sh_end shp"
    unfolding b D(3) entry_pos_def by (simp add: mod_simps ac_simps)
  with w show ?thesis
    using rep b D(2) by (auto simp: hist_rep_def del_histbuff_entry_def)
qed

lemma cur_frame [simp]:
  "is_histbuff_space (shp\<lparr>sh_cur := c\<rparr>) len = is_histbuff_space shp len"
  "del_histbuff_entry (shp\<lparr>sh_cur := c\<rparr>) = del_histbuff_entry shp\<lparr>sh_cur := c\<rparr>"
  by (simp_all add: is_histbuff_space_def del_histbuff_entry_def next_entry_def)

lemma rep_cur_0: "hist_rep shp ls \<Longrightarrow> hist_rep (shp\<lparr>sh_cur := 0\<rparr>) ls"
  by (auto simp: hist_rep_def)

text \<open>The loop drops old lines until there is room, and always finds room in the end.\<close>

lemma make_space_rep:
  assumes "hist_rep (shp\<lparr>sh_cur := 0\<rparr>) ls" and "len + 2 \<le> sh_size shp"
  shows "\<exists>t. make_space len shp = Some t \<and> hist_rep (t\<lparr>sh_cur := 0\<rparr>) (drop_old (sh_size shp) ls len) \<and>
    sh_size t = sh_size shp \<and> length (encode (drop_old (sh_size shp) ls len)) + len + 1 < sh_size shp"
  using assms
proof (induction ls arbitrary: shp)
  case Nil
  then have "is_histbuff_space shp len" using is_histbuff_space_iff [OF Nil(1), of len] by simp
  then show ?case using Nil by (simp add: make_space.simps)
next
  case (Cons l ls)
  have space: "is_histbuff_space shp len \<longleftrightarrow> length (encode (l # ls)) + len + 1 < sh_size shp"
    using is_histbuff_space_iff [OF Cons.prems(1), of len] by simp
  show ?case
  proof (cases "is_histbuff_space shp len")
    case True
    then show ?thesis using space Cons.prems by (simp add: make_space.simps)
  next
    case False
    have "hist_rep ((del_histbuff_entry shp)\<lparr>sh_cur := 0\<rparr>) ls"
      using del_histbuff_entry_rep [OF Cons.prems(1)] by simp
    moreover have "sh_size (del_histbuff_entry shp) = sh_size shp" by (simp add: del_histbuff_entry_def)
    moreover have "make_space len shp = make_space len (del_histbuff_entry shp)"
      using False by (subst make_space.simps) simp
    moreover have "drop_old (sh_size shp) (l # ls) len = drop_old (sh_size shp) ls len"
      using False space by simp
    ultimately show ?thesis using Cons.IH [of "del_histbuff_entry shp"] Cons.prems(2) by simp
  qed
qed

lemma drop_old_suffix: "\<exists>k. drop_old n ls len = drop k ls"
proof (induction ls)
  case (Cons l ls)
  then obtain k where "drop_old n ls len = drop k ls" by blast
  then show ?case by (auto intro: exI [of _ 0] exI [of _ "Suc k"])
qed simp

lemma store_chars_window:
  assumes len: "length (sh_buffer shp) = sh_size shp" and e: "sh_end shp = (sh_beg shp + u) mod sh_size shp"
    and room: "u + m + 1 < sh_size shp" and m: "m \<le> length line" and e': "sh_end shp < sh_size shp"
  shows "window (store_chars shp line m) (sh_beg shp) (u + 1 + m) =
      window (sh_buffer shp) (sh_beg shp) (u + 1) @ take m line"
    and "length (store_chars shp line m) = sh_size shp"
proof -
  let ?n = "sh_size shp" and ?e = "sh_end shp" and ?buf = "sh_buffer shp"
  have pos: "(sh_beg shp + (u + 1)) mod length ?buf = (?e + 1) mod length ?buf"
    unfolding len e by (simp add: mod_Suc_eq)
  have both: "window (store_chars shp line m) (sh_beg shp) (u + 1 + m) = window ?buf (sh_beg shp) (u + 1) @ take m line \<and>
      length (store_chars shp line m) = ?n"
  proof (cases "int m < int ?n - int ?e - 1")
    case True
    then have "store_chars shp line m = mem_write (?e + 1) (take m line) ?buf" by (simp add: store_chars_def Let_def)
    moreover have "window (mem_write (?e + 1) (take m line) ?buf) (sh_beg shp) (u + 1 + length (take m line)) =
        window ?buf (sh_beg shp) (u + 1) @ take m line"
      using True room m len pos by (intro window_mem_write) simp_all
    ultimately show ?thesis using True m len by simp
  next
    case False
    let ?k = "?n - ?e - 1"
    let ?a = "take ?k line" and ?b = "take (m - ?k) (drop ?k line)"
    have k: "?k \<le> m" and lens: "length ?a = ?k" "length ?b = m - ?k" using False m by auto
    have "store_chars shp line m = mem_write 0 ?b (mem_write (?e + 1) ?a ?buf)"
      using False by (simp add: store_chars_def Let_def del: mem_write_0)
    moreover have "window (mem_write 0 ?b (mem_write (?e + 1) ?a ?buf)) (sh_beg shp) (u + 1 + length ?a + length ?b) =
        window ?buf (sh_beg shp) (u + 1) @ ?a @ ?b"
      using room lens len pos k e' by (intro window_mem_write_two) simp_all
    moreover have "?a @ ?b = take m line" using k by (simp add: take_add [symmetric])
    moreover have "length (mem_write 0 ?b (mem_write (?e + 1) ?a ?buf)) = ?n"
      using lens len k room e' by (simp del: mem_write_0)
    moreover have "u + 1 + length ?a + length ?b = u + 1 + m" using lens k by simp
    ultimately show ?thesis by (simp only: simp_thms)
  qed
  then show "window (store_chars shp line m) (sh_beg shp) (u + 1 + m) = window ?buf (sh_beg shp) (u + 1) @ take m line"
    and "length (store_chars shp line m) = ?n" by blast+
qed

lemma store_entry_rep:
  assumes rep: "hist_rep (t\<lparr>sh_cur := 0\<rparr>) ks" and m: "0 < m" "m \<le> length line" "m < SHELL_MAX_LINE_LENGTH"
    and room: "length (encode ks) + m + 1 < sh_size t"
    and e: "e = (if sh_end t + (m + 1) \<ge> sh_size t then sh_end t + (m + 1) - sh_size t else sh_end t + (m + 1))"
    and buf: "buf = (store_chars t line m)[sh_end t := char_of m]"
  shows "hist_rep (t\<lparr>sh_buffer := buf[e := CHR 0x00], sh_end := e, sh_cur := 0\<rparr>) (ks @ [take m line])"
proof -
  let ?n = "sh_size t" and ?u = "length (encode ks)" and ?b = "sh_beg t"
  have D: "length (sh_buffer t) = ?n" "?b < ?n" "sh_end t = (?b + ?u) mod ?n" "sh_end t < ?n"
    "window (sh_buffer t) ?b ?u = encode ks"
    and lines: "\<forall>l\<in>set ks. l \<noteq> [] \<and> length l < SHELL_MAX_LINE_LENGTH"
    using rep by (auto simp: hist_rep_def)
  have e': "e = (?b + (?u + (m + 1))) mod ?n"
  proof -
    have "e = (sh_end t + (m + 1)) mod ?n" unfolding e using D(4) room by (simp add: le_mod_geq)
    then show ?thesis unfolding D(3) by (metis add.assoc mod_add_left_eq)
  qed
  note S = store_chars_window [OF D(1,3) room m(2) D(4)]
  let ?c = "store_chars t line m" and ?k = "?u + 1 + m"
  have first: "window (sh_buffer t) ?b (?u + 1) = encode ks @ [sh_buffer t ! ((?b + ?u) mod ?n)]"
    using D(1,5) window_add [of "sh_buffer t" ?b ?u 1] by (simp add: window_def)
  have "window buf ?b ?k = (window ?c ?b ?k)[?u := char_of m]"
    unfolding buf D(3) using window_update [of ?u ?k ?c ?b "char_of m"] S(2) room by simp
  also have "\<dots> = encode ks @ [char_of m] @ take m line"
    unfolding S(1) first by (simp add: list_update_append)
  finally have w: "window buf ?b ?k = encode (ks @ [take m line])"
    using m by (simp add: encode_line_def min_def)
  have "length buf = ?n" using buf S(2) by simp
  then have "window (buf[e := CHR 0x00]) ?b ?k = window buf ?b ?k"
    using window_update_outside [of ?k buf ?b "CHR 0x00"] room e' by (simp add: add.assoc)
  then have w': "window (buf[e := CHR 0x00]) ?b ?k = encode (ks @ [take m line])" using w by simp
  have len: "length (encode (ks @ [take m line])) = ?k" using m by (simp add: min_def)
  have "e < ?n" using e' D(2) by simp
  then show ?thesis
    unfolding hist_rep_def len
    using w' \<open>length buf = ?n\<close> D(2) e' room lines m by (auto simp: add.assoc)
qed

lemma strip_len_le: "strip_len line n \<le> n"
  by (induction n) auto

text \<open>Saving a line adds it to the list of lines, without the blanks at its end.\<close>

lemma save_history_refines:
  assumes rep: "hist_rep shp ls" and line: "length line = SHELL_MAX_LINE_LENGTH"
    and len: "len < SHELL_MAX_LINE_LENGTH" and sz: "SHELL_MAX_LINE_LENGTH < sh_size shp"
  shows "\<exists>shp'. save_history line len shp = Some shp' \<and> sh_size shp' = sh_size shp \<and>
    hist_rep shp' (remember (sh_size shp) ls (take (strip_len line len) line))"
proof -
  let ?m = "strip_len line len" and ?n = "sh_size shp"
  have m: "?m \<le> len" by (rule strip_len_le)
  have guard: "\<not> int len > int ?n - 2" using len sz by linarith
  show ?thesis
  proof (cases "?m = 0")
    case True
    then show ?thesis using guard rep by (simp add: save_history_def remember_def)
  next
    case False
    have l: "length (take ?m line) = ?m" using m len line by simp
    obtain t where t: "make_space ?m shp = Some t" "hist_rep (t\<lparr>sh_cur := 0\<rparr>) (drop_old ?n ls ?m)"
      "sh_size t = ?n" "length (encode (drop_old ?n ls ?m)) + ?m + 1 < ?n"
      using make_space_rep [OF rep_cur_0 [OF rep], of ?m] m len sz by fastforce
    let ?e = "if sh_end t + (?m + 1) \<ge> sh_size t then sh_end t + (?m + 1) - sh_size t else sh_end t + (?m + 1)"
    let ?buf = "(store_chars t line ?m)[sh_end t := char_of ?m]"
    have "save_history line len shp = Some (t\<lparr>sh_buffer := ?buf[?e := CHR 0x00], sh_end := ?e, sh_cur := 0\<rparr>)"
      using guard False t(1) unfolding save_history_def Let_def by (simp only: if_False option.case not_not)
    moreover have "hist_rep (t\<lparr>sh_buffer := ?buf[?e := CHR 0x00], sh_end := ?e, sh_cur := 0\<rparr>)
        (drop_old ?n ls ?m @ [take ?m line])"
      by (rule store_entry_rep [OF t(2)]) (use False m len line t in auto)
    moreover have "remember ?n ls (take ?m line) = drop_old ?n ls ?m @ [take ?m line]"
      using False l by (auto simp: remember_def)
    ultimately show ?thesis using t(3) by simp
  qed
qed

subsection \<open>The interface of the history\<close>

text \<open>The lines that \<open>n\<close> presses of the up key show, on a line buffer \<open>buf\<close>.\<close>

primrec steps_back :: "(string \<Rightarrow> hist_dir \<Rightarrow> 'h \<Rightarrow> (int \<times> string \<times> 'h) option) \<Rightarrow> string \<Rightarrow> nat \<Rightarrow> 'h \<Rightarrow> (string list \<times> 'h) option" where
  "steps_back recalled buf 0 h = Some ([], h)"
| "steps_back recalled buf (Suc n) h =
     (case recalled buf SHELL_HIST_DIR_BK h of None \<Rightarrow> None
      | Some (res, buf, h) \<Rightarrow> map_option (\<lambda>(ls, h). (take (nat res) buf # ls, h)) (steps_back recalled buf n h))"

text \<open>
  What the line editor relies on: a history represents the lines entered so far, the oldest
  first, and the number of lines the user has stepped back.
\<close>

locale line_history =
  fixes rep :: "'h \<Rightarrow> string list \<Rightarrow> nat \<Rightarrow> bool"
    and save :: "string \<Rightarrow> nat \<Rightarrow> 'h \<Rightarrow> 'h option"
    and recalled :: "string \<Rightarrow> hist_dir \<Rightarrow> 'h \<Rightarrow> (int \<times> string \<times> 'h) option"
    and cap :: nat
  assumes save_law: "\<lbrakk>rep h ls c; length line = SHELL_MAX_LINE_LENGTH; len < SHELL_MAX_LINE_LENGTH\<rbrakk> \<Longrightarrow>
      \<exists>h'. save line len h = Some h' \<and>
        rep h' (remember cap ls (take (strip_len line len) line)) (if strip_len line len = 0 then c else 0)"
    and recall_law: "\<lbrakk>rep h ls c; length line = SHELL_MAX_LINE_LENGTH; recall dir ls c = (found, res, c')\<rbrakk> \<Longrightarrow>
      \<exists>h'. recalled line dir h = Some (res, case found of None \<Rightarrow> line | Some l \<Rightarrow> padded l, h') \<and> rep h' ls c'"
begin

text \<open>The line that was just entered is the first one recalled.\<close>

lemma recall_saved:
  assumes "rep h ls c" and "length line = SHELL_MAX_LINE_LENGTH" and "len < SHELL_MAX_LINE_LENGTH"
    and "0 < strip_len line len" and "length buf = SHELL_MAX_LINE_LENGTH"
  shows "\<exists>h' h''. save line len h = Some h' \<and>
    recalled buf SHELL_HIST_DIR_BK h' =
      Some (int (strip_len line len), padded (take (strip_len line len) line), h'')"
proof -
  let ?l = "take (strip_len line len) line"
  have l: "length ?l = strip_len line len" using strip_len_le [of line len] assms(2,3) by simp
  obtain h' where h': "save line len h = Some h'" "rep h' (remember cap ls ?l) 0"
    using save_law [OF assms(1-3)] assms(4) by auto
  have "recall SHELL_HIST_DIR_BK (remember cap ls ?l) 0 = (Some ?l, int (strip_len line len), 1)"
    using l assms(4) by (auto simp: recall_def remember_def)
  from recall_law [OF h'(2) assms(5) this] show ?thesis using h'(1) by auto
qed

text \<open>Stepping back through the history meets every line once, the youngest first.\<close>

lemma steps_back_all:
  assumes "rep h ls c" and "length buf = SHELL_MAX_LINE_LENGTH" and "c + n \<le> length ls"
    and "\<forall>l\<in>set ls. length l < SHELL_MAX_LINE_LENGTH"
  shows "\<exists>h'. steps_back recalled buf n h = Some (take n (drop c (rev ls)), h')"
  using assms(1-3)
proof (induction n arbitrary: buf h c)
  case (Suc n)
  let ?l = "rev ls ! c"
  have c: "c < length (rev ls)" using Suc.prems by simp
  then have l: "length ?l < SHELL_MAX_LINE_LENGTH" using assms(4) nth_mem [OF c] by simp
  have "recall SHELL_HIST_DIR_BK ls c = (Some ?l, int (length ?l), c + 1)"
    using c by (simp add: recall_def Let_def)
  from recall_law [OF Suc.prems(1,2) this] obtain h' where
    h': "recalled buf SHELL_HIST_DIR_BK h = Some (int (length ?l), padded ?l, h')" "rep h' ls (c + 1)" by auto
  obtain h'' where "steps_back recalled (padded ?l) n h' = Some (take n (drop (c + 1) (rev ls)), h'')"
    using Suc.IH [OF h'(2), of "padded ?l"] Suc.prems(3) l by (auto simp: length_padded)
  moreover have "take (Suc n) (drop c (rev ls)) = ?l # take n (drop (c + 1) (rev ls))"
    using c by (metis Cons_nth_drop_Suc Suc_eq_plus1 take_Suc_Cons)
  ultimately show ?case using h'(1) by (simp add: take_padded)
qed simp

end

text \<open>The circular buffer of the shell is such a history.\<close>

definition buffer_rep :: "ShellHistory \<Rightarrow> string list \<Rightarrow> nat \<Rightarrow> bool" where
  "buffer_rep shp ls c \<longleftrightarrow> hist_rep shp ls \<and> sh_cur shp = int c \<and> sh_size shp = SHELL_MAX_HIST_BUFF"

interpretation hist: line_history buffer_rep save_history get_history SHELL_MAX_HIST_BUFF
proof
  fix h ls c and line :: string and len
  assume rep: "buffer_rep h ls c" and line: "length line = SHELL_MAX_LINE_LENGTH" "len < SHELL_MAX_LINE_LENGTH"
  have "SHELL_MAX_LINE_LENGTH < sh_size h"
    using rep by (simp add: buffer_rep_def SHELL_MAX_HIST_BUFF_def SHELL_MAX_LINE_LENGTH_def)
  moreover have "sh_cur h' = (if strip_len line len = 0 then sh_cur h else 0)"
    if "save_history line len h = Some h'" for h'
    using that line rep
    by (auto simp: save_history_def Let_def buffer_rep_def SHELL_MAX_HIST_BUFF_def SHELL_MAX_LINE_LENGTH_def
        split: option.splits if_splits)
  ultimately show "\<exists>h'. save_history line len h = Some h' \<and>
      buffer_rep h' (remember SHELL_MAX_HIST_BUFF ls (take (strip_len line len) line)) (if strip_len line len = 0 then c else 0)"
    using save_history_refines [of h ls line len] rep line by (auto simp: buffer_rep_def)
next
  fix h ls c and line :: string and dir found res c'
  assume rep: "buffer_rep h ls c" and line: "length line = SHELL_MAX_LINE_LENGTH"
    and rc: "recall dir ls c = (found, res, c')"
  have "recall dir ls (nat (sh_cur h)) = (found, res, c')" using rep rc by (simp add: buffer_rep_def)
  from get_history_eq [OF _ line this] recall_rep [OF _ this] rep
  show "\<exists>h'. get_history line dir h = Some (res, case found of None \<Rightarrow> line | Some l \<Rightarrow> padded l, h') \<and> buffer_rep h' ls c'"
    by (auto simp: buffer_rep_def)
qed

subsection \<open>Entering lines and recalling them\<close>

text \<open>The history as \<open>shellThread\<close> sets it up: empty, on a buffer whose first byte is zero.\<close>

definition hist0 :: "string \<Rightarrow> ShellHistory" where
  "hist0 sc_histbuf = \<lparr>sh_buffer = sc_histbuf[0 := CHR 0x00], sh_size = length sc_histbuf,
     sh_beg = 0, sh_end = 0, sh_cur = 0\<rparr>"

primrec save_lines :: "string list \<Rightarrow> ShellHistory \<Rightarrow> ShellHistory option" where
  "save_lines [] h = Some h"
| "save_lines (w # ws) h =
     (case save_history (padded w) (length w) h of None \<Rightarrow> None | Some h \<Rightarrow> save_lines ws h)"

lemma hist0_rep: "length b = SHELL_MAX_HIST_BUFF \<Longrightarrow> buffer_rep (hist0 b) [] 0"
  by (simp add: buffer_rep_def hist_rep_def hist0_def SHELL_MAX_HIST_BUFF_def SHELL_MAX_LINE_LENGTH_def)

text \<open>A line as the user finishes it: not empty, not too long, no blank at the end.\<close>

definition entered :: "string \<Rightarrow> bool" where
  "entered w \<longleftrightarrow> w \<noteq> [] \<and> length w < SHELL_MAX_LINE_LENGTH \<and> last w \<noteq> CHR '' ''"

lemma strip_entered:
  assumes "entered w"
  shows "strip_len (padded w) (length w) = length w"
proof -
  obtain n where n: "length w = Suc n" using assms by (cases w) (auto simp: entered_def)
  then have "padded w ! n = last w" using assms by (simp add: padded_def nth_append last_conv_nth entered_def)
  then show ?thesis using n assms by (simp add: entered_def)
qed

lemma drop_old_subset: "set (drop_old n ls len) \<subseteq> set ls"
  using drop_old_suffix [of n ls len] set_drop_subset by fastforce

lemma save_lines_rep:
  assumes "buffer_rep h ls c" and "\<forall>w\<in>set ws. entered w" and "\<forall>l\<in>set ls. entered l"
    and "c = 0"
  shows "\<exists>h'. save_lines ws h = Some h' \<and> buffer_rep h' (foldl (remember SHELL_MAX_HIST_BUFF) ls ws) 0 \<and>
    (\<forall>l\<in>set (foldl (remember SHELL_MAX_HIST_BUFF) ls ws). entered l)"
  using assms
proof (induction ws arbitrary: h ls c)
  case (Cons w ws)
  let ?ls = "remember SHELL_MAX_HIST_BUFF ls w"
  have w: "entered w" "length w < SHELL_MAX_LINE_LENGTH" using Cons.prems by (simp_all add: entered_def)
  have "length (padded w) = SHELL_MAX_LINE_LENGTH" using w by (simp add: length_padded)
  from hist.save_law [OF Cons.prems(1) this w(2)] obtain h' where
    h': "save_history (padded w) (length w) h = Some h'" "buffer_rep h' ?ls 0"
    using Cons.prems(4) by (auto simp: strip_entered [OF w(1)] take_padded split: if_splits)
  have "\<forall>l\<in>set ?ls. entered l"
    using w(1) Cons.prems(3) drop_old_subset [of SHELL_MAX_HIST_BUFF ls "length w"]
    by (auto simp: remember_def)
  from Cons.IH [OF h'(2) _ this] h'(1) Cons.prems(2) show ?case by simp
qed simp

text \<open>After any sequence of entered lines, saved one after the other, stepping back through the
  history returns them, the latest first: the circular buffer of length-prefixed lines
  implements the list of the latest lines that fit.\<close>

text \<open>C34. After any sequence of entered lines (not empty, not ending in a blank, up to 63
  characters), saved one after the other in the empty history of the shell, stepping back
  through the history returns the latest lines that fit its buffer, the latest first: the
  circular buffer of length-prefixed lines implements a list that drops its oldest lines when a
  new one needs the room.\<close>

theorem history_recalls_lines:
  assumes "length b = SHELL_MAX_HIST_BUFF" and "\<forall>w\<in>set ws. entered w"
    and "ls = foldl (remember SHELL_MAX_HIST_BUFF) [] ws" and "n \<le> length ls"
    and "length buf = SHELL_MAX_LINE_LENGTH"
  shows "\<exists>h h'. save_lines ws (hist0 b) = Some h \<and>
    steps_back get_history buf n h = Some (take n (rev ls), h')"
proof -
  obtain h where h: "save_lines ws (hist0 b) = Some h" "buffer_rep h ls 0" "\<forall>l\<in>set ls. entered l"
    using save_lines_rep [OF hist0_rep [OF assms(1)] assms(2)] assms(3) by auto
  have "\<exists>h'. steps_back get_history buf n h = Some (take n (drop 0 (rev ls)), h')"
    by (rule hist.steps_back_all [OF h(2) assms(5)]) (use assms(4) h(3) in \<open>auto simp: entered_def\<close>)
  with h(1) show ?thesis by auto
qed

text \<open>As long as everything fits, no line is dropped.\<close>

lemma remember_all:
  assumes "length (encode ls) + length (encode ws) < n" and "\<forall>w\<in>set ws. w \<noteq> []"
  shows "foldl (remember n) ls ws = ls @ ws"
  using assms
proof (induction ws arbitrary: ls)
  case (Cons w ws)
  have "drop_old n ls (length w) = ls" using Cons.prems(1) by (cases ls) auto
  then show ?case using Cons by (auto simp: remember_def)
qed simp

theorem history_recalls_lines_witness:
  "\<exists>h h'. save_lines [''ps5'', ''nrf status''] (hist0 (replicate 512 (CHR ''x''))) = Some h \<and>
    steps_back get_history (replicate 64 (CHR ''y'')) 2 h = Some ([''nrf status'', ''ps5''], h')"
proof -
  have "foldl (remember SHELL_MAX_HIST_BUFF) [] [''ps5'', ''nrf status''] = [''ps5'', ''nrf status'']"
    by (subst remember_all) (simp_all add: SHELL_MAX_HIST_BUFF_def SHELL_MAX_LINE_LENGTH_def)
  then show ?thesis
    using history_recalls_lines [of "replicate 512 (CHR ''x'')" "[''ps5'', ''nrf status'']" _ 2 "replicate 64 (CHR ''y'')"]
    by (simp add: SHELL_MAX_HIST_BUFF_def SHELL_MAX_LINE_LENGTH_def entered_def)
qed

end
