(* ===== verification/Ch_Line.thy ===== *)
theory Ch_Line
  imports Ch_History
begin

text \<open>
  The line editor of the shell, \<open>shellGetLine\<close> of \<^verbatim>\<open>os/various/shell/shell.c\<close>: a state machine
  driven by the characters of the stream, with escape sequences, history keys, completion and
  a line buffer of 64 characters. One step is the body of the endless loop for one character.
  A write outside an object, or a loop that does not end, is the outcome \<open>Bad\<close>.
\<close>

subsection \<open>State\<close>

record editor =
  ed_line :: string
  ed_p :: nat
  ed_escape :: bool
  ed_bracket :: bool
  ed_hist :: ShellHistory
  ed_cmp :: "string option list"
  ed_out :: string

datatype outcome = More editor | Return bool editor | Bad

abbreviation NUL :: char where "NUL \<equiv> CHR 0x00"

definition c_str :: "string \<Rightarrow> string" where
  "c_str s = takeWhile (\<lambda>c. c \<noteq> NUL) s"

definition SHELL_PROMPT_STR :: string where "SHELL_PROMPT_STR = ''ch> ''"

definition print :: "string \<Rightarrow> editor \<Rightarrow> editor" where
  "print s ed = ed\<lparr>ed_out := ed_out ed @ s\<rparr>"

text \<open>\<open>_shell_reset_cur\<close> and \<open>_shell_clr_line\<close>: 64 + 4 + 2 columns left, 4 right, clear.\<close>

definition redraw :: "editor \<Rightarrow> editor" where
  "redraw ed = print (c_str (ed_line ed)) (print (CHR 0x1B # ''[K'')
     (print (CHR 0x1B # ''[70D'' @ CHR 0x1B # ''[4C'') ed))"

subsection \<open>Completion\<close>

definition char_at :: "string \<Rightarrow> nat \<Rightarrow> char" where
  "char_at s i = (if i < length s then s ! i else NUL)"

text \<open>\<open>while ((c < line + clen) && (c < line + size - 1)) *c++ = *(*scmp + i++);\<close>\<close>

function copy_rest :: "string \<Rightarrow> nat \<Rightarrow> nat \<Rightarrow> nat \<Rightarrow> nat \<Rightarrow> string \<Rightarrow> nat \<times> string" where
  "copy_rest name clen sz c i line =
     (if c < clen \<and> c < sz - 1 then copy_rest name clen sz (c + 1) (i + 1) (line[c := char_at name i])
      else (c, line))"
  by auto
termination by (relation "measure (\<lambda>(name, clen, sz, c, i, line). sz - c)") auto

declare copy_rest.simps [simp del]

text \<open>
  The loop over the common characters of several completions: \<open>others\<close> are the entries after
  the first. The inner loop of the code stops at the null pointer after the last entry, having
  looked at the character behind that null pointer first; its value has no influence.
\<close>

function common_loop :: "string \<Rightarrow> string list \<Rightarrow> nat \<Rightarrow> nat \<Rightarrow> nat \<Rightarrow> nat \<Rightarrow> string \<Rightarrow> nat \<times> string" where
  "common_loop name others len sz c clen line =
     (if char_at name clen \<noteq> NUL then
        (case dropWhile (\<lambda>s. char_at name clen = char_at s clen \<and> char_at s clen \<noteq> NUL) others of
           [] \<Rightarrow> (let (c, line) = (if c < sz - 1 \<and> clen \<ge> len then (c + 1, line[c := char_at name clen])
                                  else (c, line))
                 in common_loop name others len sz c (clen + 1) line)
         | _ # _ \<Rightarrow> (clen, line))
      else (clen, line))"
  by auto
termination
  by (relation "measure (\<lambda>(name, others, len, sz, c, clen, line). length name - clen)")
    (auto simp: char_at_def split: if_splits)

declare common_loop.simps [simp del]

text \<open>The entries of the completion array up to its null pointer.\<close>

fun entries :: "string option list \<Rightarrow> string list" where
  "entries (Some n # xs) = n # entries xs"
| "entries xs = []"

text \<open>The result is the length of the line, or \<open>None\<close> when the terminator misses the buffer.\<close>

definition process_completions :: "string option list \<Rightarrow> string \<Rightarrow> nat \<Rightarrow> nat \<Rightarrow> (nat \<times> string) option" where
  "process_completions sc_completion line len sz =
     (case entries sc_completion of
        [] \<Rightarrow> Some (0, line)
      | name # others \<Rightarrow>
          (let (clen, line) =
             (if others = [] then
                let clen = length name;
                    (c, line) = copy_rest name clen sz len len line
                in if c < sz - 1 then (clen + 1, line[c := CHR '' '']) else (clen, line)
              else common_loop name others len sz len 0 line)
           in if clen < length line then Some (clen, line[clen := NUL]) else None))"

definition write_completions :: "nat \<Rightarrow> editor \<Rightarrow> editor" where
  "write_completions pos ed =
     (let names = entries (ed_cmp ed)
      in if length names > 1 then
           print (c_str (ed_line ed)) (print SHELL_PROMPT_STR (print SHELL_NEWLINE_STR
             (print (concat (map (\<lambda>n. '' '' @ n) names)) (print SHELL_NEWLINE_STR ed))))
         else print (c_str (drop pos (ed_line ed))) ed)"

subsection \<open>One character\<close>

text \<open>The reaction to a history key; the same statements stand at four places of the code.\<close>

definition history_key :: "hist_dir \<Rightarrow> editor \<Rightarrow> outcome" where
  "history_key dir ed =
     (case get_history (ed_line ed) dir (ed_hist ed) of
        None \<Rightarrow> Bad
      | Some (len, line, hist) \<Rightarrow>
          (let line = (if dir = SHELL_HIST_DIR_FW \<and> len = 0 then line[0 := NUL] else line);
               ed = ed\<lparr>ed_line := line, ed_hist := hist\<rparr>
           in if (if dir = SHELL_HIST_DIR_FW then len \<ge> 0 else len > 0)
              then More ((redraw ed)\<lparr>ed_p := nat len\<rparr>) else More ed))"

definition erase_key :: "editor \<Rightarrow> editor" where
  "erase_key ed =
     (if ed_p ed \<noteq> 0 then (print [CHR 0x08, CHR '' '', CHR 0x08] ed)\<lparr>ed_p := ed_p ed - 1\<rparr> else ed)"

definition enter_key :: "editor \<Rightarrow> outcome" where
  "enter_key ed =
     (let ed = print SHELL_NEWLINE_STR ed
      in case save_history (ed_line ed) (ed_p ed) (ed_hist ed) of
           None \<Rightarrow> Bad
         | Some hist \<Rightarrow> Return False (ed\<lparr>ed_hist := hist, ed_line := (ed_line ed)[ed_p ed := NUL]\<rparr>))"

definition tab_key :: "string list \<Rightarrow> string list \<Rightarrow> editor \<Rightarrow> outcome" where
  "tab_key locals scp ed =
     (if ed_p ed < SHELL_MAX_LINE_LENGTH - 1 then
        let line = (ed_line ed)[ed_p ed := NUL]
        in case get_completions locals scp (c_str line) (ed_cmp ed) of
             None \<Rightarrow> Bad
           | Some cmp \<Rightarrow>
               (case process_completions cmp line (ed_p ed) SHELL_MAX_LINE_LENGTH of
                  None \<Rightarrow> Bad
                | Some (len, line) \<Rightarrow>
                    let ed = ed\<lparr>ed_cmp := cmp, ed_line := line\<rparr>
                    in if len > 0 then More ((write_completions (ed_p ed) ed)\<lparr>ed_p := len\<rparr>) else More ed)
      else More ed)"

definition getline_char :: "string list \<Rightarrow> string list \<Rightarrow> char \<Rightarrow> editor \<Rightarrow> outcome" where
  "getline_char locals scp c ed =
     (if c = CHR 0x1B then More (ed\<lparr>ed_escape := True\<rparr>)
      else if ed_escape ed then
        let ed = ed\<lparr>ed_escape := False\<rparr>
        in if c = CHR ''['' then More (ed\<lparr>ed_escape := True, ed_bracket := True\<rparr>)
           else if ed_bracket ed then
             let ed = ed\<lparr>ed_bracket := False\<rparr>
             in if c = CHR ''A'' then history_key SHELL_HIST_DIR_BK ed
                else if c = CHR ''B'' then history_key SHELL_HIST_DIR_FW ed
                else More ed
           else More ed
      else if c = CHR 0x04 then Return True (print ''^D'' ed)
      else if c = CHR 0x08 \<or> c = CHR 0x7F then More (erase_key ed)
      else if c = CHR 0x0D then enter_key ed
      else if c = CHR 0x09 then tab_key locals scp ed
      else if c = CHR 0x0E then history_key SHELL_HIST_DIR_FW ed
      else if c = CHR 0x10 then history_key SHELL_HIST_DIR_BK ed
      else if (of_char c :: nat) < 0x20 then More ed
      else if ed_p ed < SHELL_MAX_LINE_LENGTH - 1 then
        More ((print [c] ed)\<lparr>ed_line := (ed_line ed)[ed_p ed := c], ed_p := ed_p ed + 1\<rparr>)
      else More ed)"

text \<open>
  The loop over the characters read from the stream: the outcome of the first character that
  leaves it, with the characters not read yet. With a stream that delivers one character per
  read (see \<open>Rtt_Channel\<close>) the return on an empty read is never taken.
\<close>

fun getline_loop :: "string list \<Rightarrow> string list \<Rightarrow> string \<Rightarrow> editor \<Rightarrow> outcome \<times> string" where
  "getline_loop locals scp [] ed = (More ed, [])"
| "getline_loop locals scp (c # cs) ed =
     (case getline_char locals scp c ed of
        More ed \<Rightarrow> getline_loop locals scp cs ed
      | r \<Rightarrow> (r, cs))"

text \<open>\<open>shellGetLine\<close> starts with an empty line and no escape sequence.\<close>

definition shellGetLine :: "string list \<Rightarrow> string list \<Rightarrow> string \<Rightarrow> editor \<Rightarrow> outcome \<times> string" where
  "shellGetLine locals scp input ed =
     getline_loop locals scp input (ed\<lparr>ed_p := 0, ed_escape := False, ed_bracket := False\<rparr>)"

subsection \<open>Safety\<close>

text \<open>
  The invariant of the editor: the cursor is inside the buffer, the characters before it are
  not terminators, and the history holds proper lines.
\<close>

definition editor_ok :: "editor \<Rightarrow> bool" where
  "editor_ok ed \<longleftrightarrow> length (ed_line ed) = SHELL_MAX_LINE_LENGTH \<and> ed_p ed < SHELL_MAX_LINE_LENGTH \<and>
     NUL \<notin> set (take (ed_p ed) (ed_line ed)) \<and> length (ed_cmp ed) = SHELL_MAX_COMPLETIONS \<and>
     (\<exists>ls c. buffer_rep (ed_hist ed) ls c \<and> (\<forall>l\<in>set ls. NUL \<notin> set l))"

definition names_ok :: "string list \<Rightarrow> bool" where
  "names_ok ns \<longleftrightarrow> (\<forall>n\<in>set ns. length n < SHELL_MAX_LINE_LENGTH - 1 \<and> NUL \<notin> set n)"

lemma print_simps [simp]:
  "ed_line (print s ed) = ed_line ed" "ed_p (print s ed) = ed_p ed" "ed_hist (print s ed) = ed_hist ed"
  "ed_cmp (print s ed) = ed_cmp ed" "ed_out (print s ed) = ed_out ed @ s"
  "ed_escape (print s ed) = ed_escape ed" "ed_bracket (print s ed) = ed_bracket ed"
  "ed_line (redraw ed) = ed_line ed" "ed_p (redraw ed) = ed_p ed" "ed_hist (redraw ed) = ed_hist ed"
  "ed_cmp (redraw ed) = ed_cmp ed"
  "ed_line (write_completions k ed) = ed_line ed" "ed_hist (write_completions k ed) = ed_hist ed"
  "ed_cmp (write_completions k ed) = ed_cmp ed"
  by (simp_all add: print_def redraw_def write_completions_def Let_def)

lemma editor_ok_flags [simp]:
  "editor_ok (ed\<lparr>ed_escape := b\<rparr>) = editor_ok ed" "editor_ok (ed\<lparr>ed_bracket := b\<rparr>) = editor_ok ed"
  "editor_ok (print s ed) = editor_ok ed"
  by (simp_all add: editor_ok_def)

lemma c_str_terminated: "NUL \<notin> set a \<Longrightarrow> c_str (a @ NUL # b) = a"
  by (induction a) (auto simp: c_str_def)

lemma c_str_cut:
  assumes "p < length line" and "NUL \<notin> set (take p line)"
  shows "c_str (line[p := NUL]) = take p line"
  using assms c_str_terminated by (simp add: upd_conv_take_nth_drop)

lemma recall_found:
  assumes "recall dir ls c = (found, res, c')" and "c \<le> length ls"
  shows "(\<exists>l\<in>set ls. found = Some l \<and> res = int (length l)) \<or> found = None \<and> res \<le> 0"
proof -
  have mem: "rev ls ! j \<in> set ls" if "j < length ls" for j
    using that by (metis length_rev nth_mem set_rev)
  show ?thesis
    using assms mem [of c] mem [of "c - 2"]
    by (cases dir) (auto simp: recall_def Let_def split: if_splits)
qed

lemma history_key_ok:
  assumes "editor_ok ed"
  shows "\<exists>ed'. history_key dir ed = More ed' \<and> editor_ok ed'"
proof -
  obtain ls c where rep: "buffer_rep (ed_hist ed) ls c" and nul: "\<forall>l\<in>set ls. NUL \<notin> set l"
    and line: "length (ed_line ed) = SHELL_MAX_LINE_LENGTH" and p: "ed_p ed < SHELL_MAX_LINE_LENGTH"
    using assms by (auto simp: editor_ok_def)
  obtain found res c' where rc: "recall dir ls c = (found, res, c')" by (metis prod.exhaust)
  obtain h' where gh: "get_history (ed_line ed) dir (ed_hist ed) =
      Some (res, case found of None \<Rightarrow> ed_line ed | Some l \<Rightarrow> padded l, h')" and rep': "buffer_rep h' ls c'"
    using hist.recall_law [OF rep line rc] by blast
  have "c \<le> length ls" and lens: "\<forall>l\<in>set ls. length l < SHELL_MAX_LINE_LENGTH"
    using rep by (auto simp: buffer_rep_def hist_rep_def)
  with recall_found [OF rc] consider (hit) l where "l \<in> set ls" "found = Some l" "res = int (length l)"
    | (miss) "found = None" "res \<le> 0" by blast
  then show ?thesis
  proof cases
    case hit
    then have "length l < SHELL_MAX_LINE_LENGTH" "NUL \<notin> set l" "l \<noteq> []"
      using lens nul rep by (auto simp: buffer_rep_def hist_rep_def)
    then show ?thesis
      using assms gh hit rep' nul
      by (auto simp: history_key_def Let_def editor_ok_def length_padded take_padded SHELL_MAX_LINE_LENGTH_def)
  next
    case miss
    then show ?thesis
      using assms gh rep' nul by (auto simp: history_key_def Let_def editor_ok_def)
  qed
qed

lemma enter_key_ok:
  assumes "editor_ok ed"
  shows "\<exists>ed'. enter_key ed = Return False ed' \<and> editor_ok ed' \<and>
    c_str (ed_line ed') = take (ed_p ed) (ed_line ed)"
proof -
  obtain ls c where rep: "buffer_rep (ed_hist ed) ls c" and nul: "\<forall>l\<in>set ls. NUL \<notin> set l"
    and line: "length (ed_line ed) = SHELL_MAX_LINE_LENGTH" and p: "ed_p ed < SHELL_MAX_LINE_LENGTH"
    and plain: "NUL \<notin> set (take (ed_p ed) (ed_line ed))"
    using assms by (auto simp: editor_ok_def)
  let ?l = "take (strip_len (ed_line ed) (ed_p ed)) (ed_line ed)"
  obtain h' d where sv: "save_history (ed_line ed) (ed_p ed) (ed_hist ed) = Some h'"
    and rep': "buffer_rep h' (remember SHELL_MAX_HIST_BUFF ls ?l) d"
    using hist.save_law [OF rep line p] by blast
  have "set ?l \<subseteq> set (take (ed_p ed) (ed_line ed))"
    using strip_len_le by (rule set_take_subset_set_take)
  then have nul': "\<forall>l\<in>set (remember SHELL_MAX_HIST_BUFF ls ?l). NUL \<notin> set l"
    using nul plain drop_old_subset [of SHELL_MAX_HIST_BUFF ls "length ?l"] by (auto simp: remember_def)
  have "c_str ((ed_line ed)[ed_p ed := NUL]) = take (ed_p ed) (ed_line ed)"
    using p line plain by (intro c_str_cut) simp_all
  then show ?thesis
    using assms sv rep' nul' by (auto simp: enter_key_def Let_def editor_ok_def)
qed

text \<open>Completion writes inside the buffer and leaves a proper line.\<close>

lemma entries_filled: "entries (map Some ns @ None # xs) = ns"
  by (induction ns) simp_all

lemma update_prefix:
  assumes "c < length line" and "c < length name" and "take c line = take c name"
  shows "take (Suc c) (line[c := name ! c]) = take (Suc c) name"
  using assms by (simp add: take_Suc_conv_app_nth)

lemma copy_rest_prefix:
  assumes "copy_rest name clen sz c i line = (c', line')" and "clen = length name" and "length name < sz - 1"
    and "length line = sz" and "i = c" and "c \<le> length name" and "take c line = take c name"
  shows "c' = length name \<and> length line' = sz \<and> take (length name) line' = name"
  using assms
proof (induction name clen sz c i line rule: copy_rest.induct)
  case (1 name clen sz c i line)
  show ?case
  proof (cases "c < clen \<and> c < sz - 1")
    case True
    then have eq: "copy_rest name clen sz (c + 1) (i + 1) (line[c := char_at name i]) = (c', line')"
      using 1(2) by (subst (asm) copy_rest.simps) simp
    have "c < length line" "c < length name" using True 1(3,5) by linarith+
    then have "take (c + 1) (line[c := char_at name i]) = take (c + 1) name"
      using update_prefix [of c line name] 1(6,8) by (simp add: char_at_def)
    then show ?thesis using 1(1) [OF True eq 1(3,4)] 1(5-7) True 1(3) by simp
  next
    case False
    then have "c' = c" "line' = line" "c = length name" using 1(2-8) by (auto simp: copy_rest.simps)
    then show ?thesis using 1(5,8) by simp
  qed
qed

lemma common_loop_prefix:
  assumes "common_loop name others len sz c clen line = (k, line')" and "length name < sz - 1"
    and "length line = sz" and "c = max len clen" and "clen \<le> length name" and "len \<le> length name"
    and "take c line = take c name" and "NUL \<notin> set name"
  shows "k \<le> length name \<and> length line' = sz \<and> take k line' = take k name"
  using assms
proof (induction "length name - clen" arbitrary: c clen line rule: less_induct)
  case less
  let ?rest = "dropWhile (\<lambda>s. char_at name clen = char_at s clen \<and> char_at s clen \<noteq> NUL) others"
  have c: "c < sz - 1" "c < length line" using less.prems(2-6) by auto
  have pre: "take clen line = take clen name"
  proof -
    have "take clen (take c line) = take clen (take c name)" using less.prems(7) by simp
    then show ?thesis using less.prems(4) by (simp add: min_def split: if_splits)
  qed
  show ?case
  proof (cases "char_at name clen \<noteq> NUL \<and> ?rest = []")
    case True
    then have clen: "clen < length name" by (auto simp: char_at_def split: if_splits)
    let ?c = "if clen \<ge> len then c + 1 else c" and ?line = "if clen \<ge> len then line[c := char_at name clen] else line"
    have eq: "common_loop name others len sz ?c (clen + 1) ?line = (k, line')"
      using less.prems(1) True c by (subst (asm) common_loop.simps) (simp split: if_splits)
    have "take ?c ?line = take ?c name"
    proof (cases "clen \<ge> len")
      case True
      then have "c = clen" using less.prems(4) by simp
      then show ?thesis using update_prefix [of c line name] c clen less.prems(7) True by (simp add: char_at_def)
    qed (use less.prems(7) in simp)
    moreover have "?c = max len (clen + 1)" "length ?line = sz" using less.prems(3,4) by (auto simp: max_def)
    ultimately show ?thesis
      using less.hyps [OF _ eq] less.prems(2,6,8) clen by simp
  next
    case False
    then have "k = clen" "line' = line"
      using less.prems(1) by (auto simp: common_loop.simps [of name] split: list.splits if_splits)
    then show ?thesis using less.prems(3,5) pre by simp
  qed
qed

lemma common_loop_mono: "common_loop name others len sz c clen line = (k, line') \<Longrightarrow> clen \<le> k"
proof (induction "length name - clen" arbitrary: c clen line rule: less_induct)
  case less
  show ?case
  proof (cases "clen < length name")
    case True
    then have "length name - (clen + 1) < length name - clen" by simp
    note IH = less.hyps [OF this]
    show ?thesis
      using less.prems IH
      by (subst (asm) common_loop.simps) (force split: if_splits list.splits)
  next
    case False
    then show ?thesis using less.prems by (subst (asm) common_loop.simps) (simp add: char_at_def)
  qed
qed

text \<open>The part that was typed is common to all completions.\<close>

lemma common_loop_progress:
  assumes "common_loop name others len sz c 0 line = (k, line')" and "0 < len"
    and "\<forall>n\<in>set (name # others). take len n = take len typed \<and> len \<le> length n \<and> NUL \<notin> set n"
  shows "0 < k"
proof -
  have first: "char_at n 0 = typed ! 0 \<and> char_at n 0 \<noteq> NUL" if "n \<in> set (name # others)" for n
  proof -
    have n: "take len n = take len typed" "len \<le> length n" "NUL \<notin> set n" using assms(3) that by auto
    then have "n ! 0 = typed ! 0" using assms(2) by (metis nth_take)
    moreover have "n ! 0 \<in> set n" using n(2) assms(2) by (intro nth_mem) linarith
    ultimately show ?thesis using n assms(2) by (auto simp: char_at_def)
  qed
  then have ne: "typed ! 0 \<noteq> NUL" "char_at name 0 = typed ! 0" "\<forall>n\<in>set others. char_at n 0 = typed ! 0"
    by (metis list.set_intros(1), simp_all)
  then have dw: "dropWhile (\<lambda>s. char_at name 0 = char_at s 0 \<and> char_at s 0 \<noteq> NUL) others = []" by simp
  have "common_loop name others len sz c (0 + 1) line = (k, line')"
    using assms(1,2) ne unfolding common_loop.simps [of name others len sz c 0 line] dw by simp
  from common_loop_mono [OF this] show ?thesis by simp
qed

lemma process_completions_ok:
  assumes names: "\<forall>n\<in>set ns. take len n = take len line \<and> len \<le> length n \<and> length n < sz - 1 \<and> NUL \<notin> set n"
    and cmp: "entries cmp = ns" and line: "length line = sz"
  obtains k line' where "process_completions cmp line len sz = Some (k, line')" and "length line' = sz"
    and "0 < k \<Longrightarrow> k < sz \<and> NUL \<notin> set (take k line')" and "k = 0 \<Longrightarrow> ns = [] \<or> len = 0"
    and "ns = [] \<Longrightarrow> line' = line"
proof (cases ns)
  case Nil
  then show thesis using that [of 0 line] cmp line by (simp add: process_completions_def)
next
  case (Cons name others)
  have n: "take len line = take len name" "len \<le> length name" "length name < sz - 1" "NUL \<notin> set name"
    using names Cons by auto
  show thesis
  proof (cases "others = []")
    case True
    obtain c line1 where cr: "copy_rest name (length name) sz len len line = (c, line1)" by fastforce
    have c: "c = length name" "length line1 = sz" "take (length name) line1 = name"
      using copy_rest_prefix [OF cr refl n(3) line refl n(2,1)] by auto
    let ?line = "line1[length name := CHR '' '']"
    have pc: "process_completions cmp line len sz = Some (length name + 1, ?line[length name + 1 := NUL])"
      using cmp Cons True cr c n(3) by (simp add: process_completions_def Let_def)
    have "take (Suc (length name)) ?line = name @ '' ''"
      using c n(3) by (simp add: take_Suc_conv_app_nth)
    then have "NUL \<notin> set (take (length name + 1) (?line[length name + 1 := NUL]))" using n(4) by simp
    then show thesis using c n(3) Cons by (intro that [OF pc]) auto
  next
    case False
    obtain k line1 where cl: "common_loop name others len sz len 0 line = (k, line1)" by fastforce
    have k: "k \<le> length name" "length line1 = sz" "take k line1 = take k name"
      using common_loop_prefix [OF cl n(3) line _ _ n(2) _ n(4)] n(1) by auto
    have pc: "process_completions cmp line len sz = Some (k, line1[k := NUL])"
      using cmp Cons False cl k n(3) by (simp add: process_completions_def)
    have "NUL \<notin> set (take k (line1[k := NUL]))"
      using k n(4) by (auto dest: in_set_takeD)
    moreover have "len = 0" if "k = 0"
    proof (rule ccontr)
      assume "len \<noteq> 0"
      then show False
        using common_loop_progress [OF cl, of line] names that Cons by auto
    qed
    ultimately show thesis using k n(3) Cons by (intro that [OF pc]) auto
  qed
qed

lemma tab_key_ok:
  assumes ok: "editor_ok ed" and names: "names_ok (''help'' # locals @ scp)"
  shows "case tab_key locals scp ed of
      More ed' \<Rightarrow> editor_ok ed'
    | Return b ed' \<Rightarrow> False
    | Bad \<Rightarrow> get_completions locals scp (take (ed_p ed) (ed_line ed)) (ed_cmp ed) = None"
proof (cases "ed_p ed < SHELL_MAX_LINE_LENGTH - 1")
  case True
  let ?p = "ed_p ed" and ?line = "(ed_line ed)[ed_p ed := NUL]"
  have line: "length (ed_line ed) = SHELL_MAX_LINE_LENGTH" and p: "?p < SHELL_MAX_LINE_LENGTH"
    and plain: "NUL \<notin> set (take ?p (ed_line ed))" and cmp: "length (ed_cmp ed) = SHELL_MAX_COMPLETIONS"
    using ok by (auto simp: editor_ok_def)
  have str: "c_str ?line = take ?p (ed_line ed)" using p line plain by (intro c_str_cut) simp_all
  show ?thesis
  proof (cases "get_completions locals scp (take ?p (ed_line ed)) (ed_cmp ed)")
    case None
    then show ?thesis using True str by (simp add: tab_key_def)
  next
    case (Some cmp')
    let ?ns = "completion_entries locals scp (take ?p (ed_line ed))"
    have cmp': "cmp' = mem_write 0 (map Some ?ns @ [None]) (ed_cmp ed)" and len: "length cmp' = SHELL_MAX_COMPLETIONS"
      using Some cmp by (auto simp: get_completions_def Let_def split: if_splits)
    have es: "entries cmp' = ?ns" unfolding cmp' by (simp add: entries_filled)
    have pl: "length (take ?p (ed_line ed)) = ?p" using p line by simp
    have le: "?p \<le> length n" if "take ?p n = take ?p (ed_line ed)" for n
      using arg_cong [OF that, of length] pl by simp
    have nm: "\<forall>n\<in>set ?ns. take ?p n = take ?p ?line \<and> ?p \<le> length n \<and>
        length n < SHELL_MAX_LINE_LENGTH - 1 \<and> NUL \<notin> set n"
      using names le le [of "''help''"] unfolding completion_entries_def names_ok_def pl by auto
    have ll: "length ?line = SHELL_MAX_LINE_LENGTH" using line by simp
    obtain k line' where pc: "process_completions cmp' ?line ?p SHELL_MAX_LINE_LENGTH = Some (k, line')"
      and l': "length line' = SHELL_MAX_LINE_LENGTH"
      and k: "0 < k \<Longrightarrow> k < SHELL_MAX_LINE_LENGTH \<and> NUL \<notin> set (take k line')"
      and k0: "k = 0 \<Longrightarrow> ?ns = [] \<or> ?p = 0" and nil: "?ns = [] \<Longrightarrow> line' = ?line"
      by (rule process_completions_ok [OF nm es ll]) blast
    have tk: "tab_key locals scp ed = (let ed = ed\<lparr>ed_cmp := cmp', ed_line := line'\<rparr>
        in if k > 0 then More ((write_completions ?p ed)\<lparr>ed_p := k\<rparr>) else More ed)"
      using True str Some pc by (simp add: tab_key_def Let_def)
    show ?thesis
    proof (cases "0 < k")
      case True
      then show ?thesis using tk ok l' len k by (simp add: editor_ok_def)
    next
      case False
      then have "NUL \<notin> set (take ?p line')" using k0 nil plain by auto
      then show ?thesis using False tk ok l' len by (simp add: editor_ok_def)
    qed
  qed
qed (use ok in \<open>simp add: tab_key_def\<close>)

lemma plain_char_ok:
  assumes ok: "editor_ok ed" and c: "c \<noteq> NUL" and p: "ed_p ed < SHELL_MAX_LINE_LENGTH - 1"
  shows "editor_ok ((print [c] ed)\<lparr>ed_line := (ed_line ed)[ed_p ed := c], ed_p := ed_p ed + 1\<rparr>)"
proof -
  have "length (ed_line ed) = SHELL_MAX_LINE_LENGTH" "ed_p ed < SHELL_MAX_LINE_LENGTH" using ok by (auto simp: editor_ok_def)
  then have "take (ed_p ed + 1) ((ed_line ed)[ed_p ed := c]) = take (ed_p ed) (ed_line ed) @ [c]"
    by (simp add: take_Suc_conv_app_nth)
  then show ?thesis using ok c p by (auto simp: editor_ok_def)
qed

lemma erase_key_ok:
  assumes "editor_ok ed"
  shows "editor_ok (erase_key ed)"
proof -
  have "set (take (ed_p ed - 1) (ed_line ed)) \<subseteq> set (take (ed_p ed) (ed_line ed))"
    by (rule set_take_subset_set_take) simp
  then show ?thesis using assms by (auto simp: erase_key_def editor_ok_def)
qed

text \<open>No key damages the editor, except Tab when the completions do not fit their array.\<close>

lemma getline_char_ok:
  assumes ok: "editor_ok ed" and names: "names_ok (''help'' # locals @ scp)"
  shows "case getline_char locals scp c ed of
      More ed' \<Rightarrow> editor_ok ed'
    | Return b ed' \<Rightarrow> editor_ok ed'
    | Bad \<Rightarrow> c = CHR 0x09 \<and> \<not> ed_escape ed \<and>
        get_completions locals scp (take (ed_p ed) (ed_line ed)) (ed_cmp ed) = None"
proof -
  have hist: "\<exists>e'. history_key dir e = More e' \<and> editor_ok e'" if "editor_ok e" for dir e
    by (rule history_key_ok [OF that])
  have hist': "case history_key dir e of More ed' \<Rightarrow> editor_ok ed' | Return b ed' \<Rightarrow> editor_ok ed' | Bad \<Rightarrow> X"
    if "editor_ok e" for dir e X
    using hist [OF that, of dir] by auto
  have c0: "c \<noteq> NUL" if "\<not> (of_char c :: nat) < 32" using that by auto
  show ?thesis
    unfolding getline_char_def Let_def
    using ok hist' enter_key_ok [OF ok] tab_key_ok [OF ok names] plain_char_ok [OF ok] erase_key_ok [OF ok] c0
    by (auto split: outcome.splits)
qed

text \<open>C37. No key damages the line editor: the cursor, the line, the history and the completion
  array stay well formed, unless Tab is pressed and the completions do not fit their array.\<close>

theorem line_editor_safe:
  assumes "editor_ok ed" and "names_ok (''help'' # locals @ scp)"
  shows "case getline_char locals scp c ed of
      More ed' \<Rightarrow> editor_ok ed'
    | Return b ed' \<Rightarrow> editor_ok ed'
    | Bad \<Rightarrow> c = CHR 0x09 \<and> \<not> ed_escape ed \<and>
        get_completions locals scp (take (ed_p ed) (ed_line ed)) (ed_cmp ed) = None"
  by (rule getline_char_ok [OF assms])

subsection \<open>Editing\<close>

text \<open>
  What the editor does with ordinary characters and the erase keys, on the text before the
  cursor.
\<close>

definition SHELL_LINE_MAX :: nat where "SHELL_LINE_MAX = SHELL_MAX_LINE_LENGTH - 1"

definition edit :: "string \<Rightarrow> char \<Rightarrow> string" where
  "edit t c =
     (if c = CHR 0x08 \<or> c = CHR 0x7F then butlast t
      else if length t < SHELL_LINE_MAX then t @ [c] else t)"

definition text_key :: "char \<Rightarrow> bool" where
  "text_key c \<longleftrightarrow> c = CHR 0x08 \<or> c = CHR 0x7F \<or> 0x20 \<le> (of_char c :: nat)"

definition typed_text :: "editor \<Rightarrow> string" where
  "typed_text ed = take (ed_p ed) (ed_line ed)"

lemma text_key_plain:
  assumes "text_key c"
  shows "c \<noteq> CHR 0x1B" "c \<noteq> CHR 0x04" "c \<noteq> CHR 0x0D" "c \<noteq> CHR 0x09" "c \<noteq> CHR 0x0E" "c \<noteq> CHR 0x10" "c \<noteq> NUL"
  using assms by (auto simp: text_key_def)

lemma getline_char_text:
  assumes ok: "editor_ok ed" and esc: "\<not> ed_escape ed" and key: "text_key c"
  obtains ed' where "getline_char locals scp c ed = More ed'" and "editor_ok ed'" and "\<not> ed_escape ed'"
    and "typed_text ed' = edit (typed_text ed) c"
proof -
  note k = text_key_plain [OF key]
  have line: "length (ed_line ed) = SHELL_MAX_LINE_LENGTH" and p: "ed_p ed < SHELL_MAX_LINE_LENGTH"
    using ok by (auto simp: editor_ok_def)
  have len: "length (typed_text ed) = ed_p ed" using line p by (simp add: typed_text_def)
  consider (erase) "c = CHR 0x08 \<or> c = CHR 0x7F"
    | (store) "c \<noteq> CHR 0x08" "c \<noteq> CHR 0x7F" "ed_p ed < SHELL_MAX_LINE_LENGTH - 1"
    | (full) "c \<noteq> CHR 0x08" "c \<noteq> CHR 0x7F" "\<not> ed_p ed < SHELL_MAX_LINE_LENGTH - 1" by blast
  then show thesis
  proof cases
    case erase
    have "typed_text (erase_key ed) = butlast (typed_text ed)"
      using line p by (simp add: erase_key_def typed_text_def butlast_take)
    then show thesis
      using that [of "erase_key ed"] erase k erase_key_ok [OF ok] esc
      by (auto simp: getline_char_def edit_def erase_key_def)
  next
    case store
    let ?ed = "(print [c] ed)\<lparr>ed_line := (ed_line ed)[ed_p ed := c], ed_p := ed_p ed + 1\<rparr>"
    have "getline_char locals scp c ed = More ?ed"
      using store k esc key by (simp add: getline_char_def text_key_def)
    moreover have "typed_text ?ed = edit (typed_text ed) c"
      using store line p len by (simp add: typed_text_def edit_def take_Suc_conv_app_nth SHELL_LINE_MAX_def)
    ultimately show thesis using that plain_char_ok [OF ok k(7) store(3)] esc by simp
  next
    case full
    then have "getline_char locals scp c ed = More ed" using k esc key by (simp add: getline_char_def text_key_def)
    moreover have "edit (typed_text ed) c = typed_text ed" using full len by (simp add: edit_def SHELL_LINE_MAX_def)
    ultimately show thesis using that ok esc by simp
  qed
qed

lemma getline_loop_text:
  assumes "editor_ok ed" and "\<not> ed_escape ed" and "\<forall>c\<in>set cs. text_key c"
  obtains ed' where "getline_loop locals scp (cs @ rest) ed = getline_loop locals scp rest ed'"
    and "editor_ok ed'" and "\<not> ed_escape ed'" and "typed_text ed' = foldl edit (typed_text ed) cs"
  using assms
proof (induction cs arbitrary: ed thesis)
  case Nil
  then show ?case by simp
next
  case (Cons c cs)
  obtain ed1 where ed1: "getline_char locals scp c ed = More ed1" "editor_ok ed1" "\<not> ed_escape ed1"
    "typed_text ed1 = edit (typed_text ed) c"
    using getline_char_text [OF Cons.prems(2,3), of c locals scp] Cons.prems(4) by auto
  obtain ed' where "getline_loop locals scp (cs @ rest) ed1 = getline_loop locals scp rest ed'"
    "editor_ok ed'" "\<not> ed_escape ed'" "typed_text ed' = foldl edit (typed_text ed1) cs"
    using Cons.IH [OF _ ed1(2,3)] Cons.prems(4) by auto
  then show ?case using Cons.prems(1) ed1 by simp
qed

lemma enter_returns:
  assumes "editor_ok ed" and "\<not> ed_escape ed"
  obtains ed' where "getline_char locals scp (CHR 0x0D) ed = Return False ed'" and "editor_ok ed'"
    and "c_str (ed_line ed') = typed_text ed"
  using enter_key_ok [OF assms(1)] assms(2) by (auto simp: getline_char_def typed_text_def)

text \<open>A line of ordinary characters and erase keys, finished by the return key.\<close>

theorem line_editor_edits:
  assumes "editor_ok ed" and "\<forall>c\<in>set cs. text_key c"
  shows "\<exists>ed'. shellGetLine locals scp (cs @ CHR 0x0D # rest) ed = (Return False ed', rest) \<and>
    editor_ok ed' \<and> c_str (ed_line ed') = foldl edit [] cs"
proof -
  let ?ed = "ed\<lparr>ed_p := 0, ed_escape := False, ed_bracket := False\<rparr>"
  have ok: "editor_ok ?ed" and esc: "\<not> ed_escape ?ed" and empty: "typed_text ?ed = []"
    using assms(1) by (auto simp: editor_ok_def typed_text_def SHELL_MAX_LINE_LENGTH_def)
  obtain ed1 where ed1: "getline_loop locals scp (cs @ CHR 0x0D # rest) ?ed = getline_loop locals scp (CHR 0x0D # rest) ed1"
    "editor_ok ed1" "\<not> ed_escape ed1" "typed_text ed1 = foldl edit [] cs"
    using getline_loop_text [OF ok esc assms(2)] empty by metis
  obtain ed' where "getline_char locals scp (CHR 0x0D) ed1 = Return False ed'" "editor_ok ed'"
    "c_str (ed_line ed') = typed_text ed1"
    by (rule enter_returns [OF ed1(2,3)])
  then show ?thesis using ed1 by (simp add: shellGetLine_def)
qed

lemma foldl_edit_plain:
  assumes "\<forall>c\<in>set w. c \<noteq> CHR 0x08 \<and> c \<noteq> CHR 0x7F" and "length t + length w \<le> SHELL_LINE_MAX"
  shows "foldl edit t w = t @ w"
  using assms by (induction w arbitrary: t) (auto simp: edit_def)

definition editor0 :: editor where
  "editor0 = \<lparr>ed_line = replicate SHELL_MAX_LINE_LENGTH NUL, ed_p = 0, ed_escape = False, ed_bracket = False,
     ed_hist = hist0 (replicate SHELL_MAX_HIST_BUFF NUL), ed_cmp = replicate SHELL_MAX_COMPLETIONS None, ed_out = []\<rparr>"

lemma editor0_ok: "editor_ok editor0"
proof -
  have "buffer_rep (ed_hist editor0) [] 0" unfolding editor0_def by (simp add: hist0_rep)
  then show ?thesis unfolding editor_ok_def
    by (auto simp: editor0_def SHELL_MAX_LINE_LENGTH_def intro!: exI [of _ "[]"] exI [of _ 0])
qed

theorem line_editor_edits_witness:
  "\<exists>ed'. shellGetLine [] [] (''hellp'' @ [CHR 0x08, CHR 0x7F] @ ''lo'' @ CHR 0x0D # ''x'') editor0 = (Return False ed', ''x'') \<and>
    editor_ok ed' \<and> c_str (ed_line ed') = ''hello''"
  using line_editor_edits [OF editor0_ok, of "''hellp'' @ [CHR 0x08, CHR 0x7F] @ ''lo''" "[]" "[]" "''x''"]
  by (simp add: text_key_def edit_def SHELL_LINE_MAX_def SHELL_MAX_LINE_LENGTH_def)

theorem line_editor_safe_witness:
  "case getline_char [''exit''] [''ps5''] (CHR ''a'') editor0 of
      More ed' \<Rightarrow> editor_ok ed'
    | Return b ed' \<Rightarrow> editor_ok ed'
    | Bad \<Rightarrow> CHR ''a'' = CHR 0x09 \<and> \<not> ed_escape editor0 \<and>
        get_completions [''exit''] [''ps5''] (take (ed_p editor0) (ed_line editor0)) (ed_cmp editor0) = None"
  by (rule line_editor_safe [OF editor0_ok]) (simp add: names_ok_def SHELL_MAX_LINE_LENGTH_def)

end
