(* ===== verification/App_Console.thy ===== *)
theory App_Console
  imports Rtt_Properties Ch_Line App_Shell
begin

text \<open>
  The command console of the program: the loop of \<open>shellThread\<close> in
  \<^verbatim>\<open>os/various/shell/shell.c\<close> over the stream of \<^verbatim>\<open>src/RTT/SEGGER_RTT_Channel.c\<close>. The line
  editor of \<open>Ch_Line\<close> gets its characters from the down channel, its echo goes to the up
  channel, and the finished line goes to the interpreter of \<open>Ch_Shell\<close> with the commands of
  \<open>App_Shell\<close>. \<open>host j k\<close> is what the probe does before the poll \<open>k\<close> of the read \<open>j\<close>.
\<close>

subsection \<open>The stream and the editor\<close>

text \<open>Printing: one \<open>streamPut\<close> per character, its result is not looked at.\<close>

fun echo :: "string \<Rightarrow> rtt \<Rightarrow> rtt option" where
  "echo [] p = Some p"
| "echo (c # cs) p = (case rtt_put idle (of_char c) p of None \<Rightarrow> None | Some (_, p) \<Rightarrow> echo cs p)"

text \<open>What the editor has printed between two of its states.\<close>

definition printed :: "editor \<Rightarrow> editor \<Rightarrow> string" where
  "printed ed ed' = drop (length (ed_out ed)) (ed_out ed')"

partial_function (option) console_loop ::
    "(nat \<Rightarrow> nat \<Rightarrow> rtt \<Rightarrow> rtt) \<Rightarrow> string list \<Rightarrow> string list \<Rightarrow> nat \<Rightarrow> editor \<Rightarrow> rtt \<Rightarrow> (outcome \<times> rtt) option" where
  [code]: "console_loop host locals scp j ed p =
     (case rtt_reads (host j) [0] 1 p of
        None \<Rightarrow> None
      | Some (n, bp, p) \<Rightarrow>
          if n = 0 then Some (Return True ed, p)
          else
            (case getline_char locals scp (char_of (unat (hd bp))) ed of
               More ed' \<Rightarrow>
                 (case echo (printed ed ed') p of
                    None \<Rightarrow> None
                  | Some p \<Rightarrow> console_loop host locals scp (Suc j) ed' p)
             | Return b ed' \<Rightarrow> map_option (\<lambda>p. (Return b ed', p)) (echo (printed ed ed') p)
             | Bad \<Rightarrow> Some (Bad, p)))"

definition console_getline ::
    "(nat \<Rightarrow> nat \<Rightarrow> rtt \<Rightarrow> rtt) \<Rightarrow> string list \<Rightarrow> string list \<Rightarrow> editor \<Rightarrow> rtt \<Rightarrow> (outcome \<times> rtt) option" where
  "console_getline host locals scp ed p =
     console_loop host locals scp 0 (ed\<lparr>ed_p := 0, ed_escape := False, ed_bracket := False\<rparr>) p"

text \<open>
  One iteration of the loop of \<open>shellThread\<close>: \<open>More\<close> goes on with the next line, \<open>Return\<close>
  ends the shell, \<open>Bad\<close> is a write outside an object.
\<close>

definition shell_iteration ::
    "(nat \<Rightarrow> nat \<Rightarrow> rtt \<Rightarrow> rtt) \<Rightarrow> 's channel \<Rightarrow> (string \<times> 's command) list \<Rightarrow> (string \<times> 's command) list \<Rightarrow>
     editor \<Rightarrow> rtt \<Rightarrow> 's \<Rightarrow> (outcome \<times> rtt \<times> 's) option" where
  "shell_iteration host out locals scp ed p s =
     (case echo SHELL_PROMPT_STR p of
        None \<Rightarrow> None
      | Some p \<Rightarrow>
          (case console_getline host (map fst locals) (map fst scp) ed p of
             None \<Rightarrow> None
           | Some (Return logout ed, p) \<Rightarrow>
               if logout then
                 map_option (\<lambda>p. (Return True ed, p, s)) (echo (SHELL_NEWLINE_STR @ ''logout'') p)
               else Some (More ed, p, shell_line out locals scp (c_str (ed_line ed)) s)
           | Some (r, p) \<Rightarrow> Some (r, p, s)))"

subsection \<open>The two directions\<close>

text \<open>
  The terminal waits for input, and its up channel holds the text \<open>t\<close> that the probe has not
  fetched yet.
\<close>

definition console :: "string \<Rightarrow> rtt \<Rightarrow> bool" where
  "console t p \<longleftrightarrow> line_in [] p \<and> up_open 0 p \<and> Flags (aUp p ! 0) = SEGGER_RTT_MODE_NO_BLOCK_SKIP \<and>
     contents (aUp p ! 0) = map of_char t"

lemma console_up:
  assumes "console t p"
  shows "rtt_ready p" "ring_ok (aUp p ! 0)" "capacity (aUp p ! 0) = 1023" "ring_used (aUp p ! 0) = length t"
proof -
  show "rtt_ready p" "ring_ok (aUp p ! 0)" "capacity (aUp p ! 0) = 1023"
    using assms up_openD [of 0 p] by (auto simp: console_def rtt_ready_def capacity_def BUFFER_SIZE_UP_def)
  have "length (contents (aUp p ! 0)) = length t" using assms by (simp add: console_def)
  then show "ring_used (aUp p ! 0) = length t" by simp
qed

lemma console_put:
  assumes con: "console t p" and fits: "length t < 1023"
  shows "\<exists>st p'. rtt_put idle (of_char c) p = Some (st, p') \<and> console (t @ [c]) p'"
proof -
  let ?r = "aUp p ! 0" and ?b = "of_char c :: u8"
  note C = console_up [OF con]
  have mode: "Flags ?r = SEGGER_RTT_MODE_NO_BLOCK_SKIP" using con by (simp add: console_def)
  then have nb: "Flags ?r \<noteq> SEGGER_RTT_MODE_BLOCK_IF_FIFO_FULL" by (simp add: rtt_modes)
  have m: "1 = stored (Flags ?r) (capacity ?r - ring_used ?r) (unat (1 :: u32))"
    using C fits mode by (simp add: stored_def)
  have le: "unat (1 :: u32) \<le> length [?b]" by simp
  obtain st r' where w: "ring_write idle [?b] 1 ?r = Some (st, r')"
    and r': "ring_ok r'" "contents r' = contents ?r @ take 1 [?b]" "same_ring ?r r'"
    using ring_write_outcome [OF C(2) le nb m] by metis
  let ?p = "set_up 0 r' p"
  have "SEGGER_RTT_Write idle 0 [?b] 1 p = Some (st, ?p)"
    using w C(1) by (simp add: SEGGER_RTT_Write_def SEGGER_RTT_WriteNoLock_def)
  then have "rtt_put idle ?b p = Some (if st \<noteq> 0 then STM_OK else STM_RESET, ?p)" by (simp add: rtt_put_def)
  moreover have up: "up_open 0 ?p"
    using con r' by (intro set_up_open) (simp_all add: console_def)
  moreover have "line_in [] ?p"
    using con up by (auto simp: console_def line_in_def down_open_def up_open_def down_ring_def)
  ultimately show ?thesis
    using con r' up_openD(3) [of 0 p] by (auto simp: console_def same_ring_def)
qed

lemma console_echo:
  assumes "console t p" and "length t + length cs \<le> 1023"
  shows "\<exists>p'. echo cs p = Some p' \<and> console (t @ cs) p'"
  using assms
proof (induction cs arbitrary: t p)
  case (Cons c cs)
  obtain st q where put: "rtt_put idle (of_char c) p = Some (st, q)" and q: "console (t @ [c]) q"
    using console_put [OF Cons.prems(1)] Cons.prems(2) by force
  from Cons.IH [OF q] Cons.prems(2) put show ?case by simp
qed simp

lemma char_byte [simp]: "char_of (unat (of_char c :: u8)) = c"
proof -
  have "unat (of_nat (of_char c :: nat) :: u8) = (of_char c :: nat)"
    using nat_of_char_less_256 [of c] by (simp add: unat_of_nat take_bit_nat_eq_self)
  then have "unat (of_char c :: u8) = (of_char c :: nat)" by (simp only: of_nat_of_char)
  then show ?thesis by simp
qed

lemma char_return [simp]: "char_of (13 :: nat) = CHR 0x0D"
  by code_simp

lemma console_keep:
  assumes "console t p" and "line_in [] p'" and "aUp p' = aUp p"
  shows "console t p'"
  using assms by (auto simp: console_def up_open_def up_ring_def line_in_def down_open_def)

text \<open>A key pressed \<open>d\<close> polls after the read has started.\<close>

definition key_after :: "nat \<Rightarrow> char \<Rightarrow> nat \<Rightarrow> rtt \<Rightarrow> rtt" where
  "key_after d c = typing (\<lambda>k. if k = d then [of_char c] else [])"

lemma console_read:
  assumes "console t p" and "k \<le> d"
  shows "\<exists>p'. rtt_reads_loop (key_after d c) k 0 [0] 1 p = Some (1, [of_char c], p') \<and> console t p'"
  using assms
proof (induction "d - k" arbitrary: k p)
  case less: 0
  let ?feed = "\<lambda>k. if k = d then [of_char c] else [] :: u8 list"
  have k: "k = d" and line: "line_in [] p" using less by (simp_all add: console_def)
  obtain p' where "line_in (drop (unat (1 :: u32) - unat (0 :: u16)) (?feed k)) p'" "aUp p' = aUp p"
    "rtt_reads_loop (typing ?feed) k 0 [0] 1 p =
        Some (1, mem_write (unat (0 :: u16)) (take (unat (1 :: u32) - unat (0 :: u16)) (?feed k)) [0], p')"
    by (rule reads_poll [where feed = ?feed and k = k and bp = "[0]" and r = 0 and n = 1, OF line])
      (use k in simp_all)
  then show ?case
    using console_keep [OF less(2)] k by (simp add: key_after_def mem_write_def)
next
  case (Suc x)
  let ?feed = "\<lambda>k. if k = d then [of_char c] else [] :: u8 list"
  have k: "k \<noteq> d" and line: "line_in [] p" using Suc by (auto simp: console_def)
  obtain p' r' where p': "line_in (drop (unat (1 :: u32) - unat (0 :: u16)) (?feed k)) p'" "aUp p' = aUp p"
    and r': "unat r' = unat (0 :: u16) + length (?feed k)"
    and loop: "rtt_reads_loop (typing ?feed) k 0 [0] 1 p =
      rtt_reads_loop (typing ?feed) (Suc k) r' (mem_write (unat (0 :: u16)) (?feed k) [0]) 1 p'"
    by (rule reads_poll [where feed = ?feed and k = k and bp = "[0]" and r = 0 and n = 1, OF line])
      (use k in auto)
  have "r' = 0" using r' k by (simp add: unat_eq_0)
  moreover have "console t p'"
    using p' k by (intro console_keep [OF Suc.prems(1)]) simp_all
  ultimately show ?case
    using Suc.hyps(1) [of "Suc k" p'] Suc.hyps(2) Suc.prems(2) k loop by (simp add: key_after_def mem_write_def)
qed

lemma console_reads:
  assumes "console t p"
  shows "\<exists>p'. rtt_reads (key_after d c) [0] 1 p = Some (1, [of_char c], p') \<and> console t p'"
  unfolding rtt_reads_def by (rule console_read [OF assms]) simp

subsection \<open>A line at any pace\<close>

text \<open>The keys \<open>cs\<close>, the key \<open>j\<close> pressed \<open>d j\<close> polls after the shell waits for it.\<close>

definition keys :: "(nat \<Rightarrow> nat) \<Rightarrow> string \<Rightarrow> nat \<Rightarrow> nat \<Rightarrow> rtt \<Rightarrow> rtt" where
  "keys d cs j = key_after (d j) (cs ! j)"

definition printable :: "char \<Rightarrow> bool" where
  "printable c \<longleftrightarrow> 0x20 \<le> (of_char c :: nat) \<and> c \<noteq> CHR 0x7F"

lemma getline_char_printable:
  assumes ok: "editor_ok ed" and esc: "\<not> ed_escape ed" and key: "printable c" and room: "ed_p ed < SHELL_LINE_MAX"
  obtains ed' where "getline_char locals scp c ed = More ed'" and "editor_ok ed'" and "\<not> ed_escape ed'"
    and "typed_text ed' = typed_text ed @ [c]" and "ed_p ed' = Suc (ed_p ed)" and "ed_out ed' = ed_out ed @ [c]"
proof -
  let ?ed = "(print [c] ed)\<lparr>ed_line := (ed_line ed)[ed_p ed := c], ed_p := ed_p ed + 1\<rparr>"
  have tk: "text_key c" and bs: "c \<noteq> CHR 0x08" "c \<noteq> CHR 0x7F" using key by (auto simp: text_key_def printable_def)
  have eq: "getline_char locals scp c ed = More ?ed"
    using key room esc text_key_plain [OF tk] bs by (simp add: getline_char_def SHELL_LINE_MAX_def printable_def)
  obtain ed' where ed': "getline_char locals scp c ed = More ed'" "editor_ok ed'" "\<not> ed_escape ed'"
    "typed_text ed' = edit (typed_text ed) c"
    by (rule getline_char_text [OF ok esc tk])
  have "length (typed_text ed) = ed_p ed" using ok by (simp add: typed_text_def editor_ok_def)
  then have "edit (typed_text ed) c = typed_text ed @ [c]" using bs room by (simp add: edit_def)
  moreover have "ed' = ?ed" using ed'(1) eq by simp
  ultimately show thesis using that [OF ed'(1-3)] ed'(4) by simp
qed

lemma console_key:
  assumes con: "console t p" and key: "getline_char locals scp c ed = More ed'"
    and echo: "ed_out ed' = ed_out ed @ cs" and fits: "length t + length cs \<le> 1023" and j: "host j = key_after d c"
  shows "\<exists>p'. console_loop host locals scp j ed p = console_loop host locals scp (Suc j) ed' p' \<and> console (t @ cs) p'"
proof -
  obtain q where q: "rtt_reads (key_after d c) [0] 1 p = Some (1, [of_char c], q)" "console t q"
    using console_reads [OF con] by blast
  obtain p' where p': "echo cs q = Some p'" "console (t @ cs) p'"
    using console_echo [OF q(2) fits] by blast
  have "console_loop host locals scp j ed p = console_loop host locals scp (Suc j) ed' p'"
    by (subst console_loop.simps) (simp add: j q key printed_def echo p')
  with p' show ?thesis by blast
qed

lemma console_printable:
  assumes "console t p" and "editor_ok ed" and "\<not> ed_escape ed" and "\<forall>c\<in>set cs. printable c"
    and "ed_p ed + length cs \<le> SHELL_LINE_MAX" and "length t + length cs \<le> 1023"
    and "\<And>i. i < length cs \<Longrightarrow> host (j + i) = key_after (d (j + i)) (cs ! i)"
  shows "\<exists>ed' p'. console_loop host locals scp j ed p = console_loop host locals scp (j + length cs) ed' p' \<and>
    console (t @ cs) p' \<and> editor_ok ed' \<and> \<not> ed_escape ed' \<and> typed_text ed' = typed_text ed @ cs"
  using assms
proof (induction cs arbitrary: t p ed j)
  case (Cons c cs)
  have "printable c" and room: "ed_p ed < SHELL_LINE_MAX" using Cons.prems(4,5) by simp_all
  then obtain ed1 where e: "getline_char locals scp c ed = More ed1" "editor_ok ed1" "\<not> ed_escape ed1"
    "typed_text ed1 = typed_text ed @ [c]" "ed_p ed1 = Suc (ed_p ed)" "ed_out ed1 = ed_out ed @ [c]"
    using getline_char_printable [OF Cons.prems(2,3)] by metis
  have "host j = key_after (d j) c" using Cons.prems(7) [of 0] by simp
  with console_key [OF Cons.prems(1) e(1,6)] Cons.prems(6) obtain p1 where
    p1: "console_loop host locals scp j ed p = console_loop host locals scp (Suc j) ed1 p1" "console (t @ [c]) p1"
    by fastforce
  have hosts: "host (Suc j + i) = key_after (d (Suc j + i)) (cs ! i)" if "i < length cs" for i
    using Cons.prems(7) [of "Suc i"] that by simp
  show ?case
    using Cons.IH [OF p1(2) e(2,3) _ _ _ hosts] Cons.prems(4-6) e(4,5) p1(1) by simp
qed auto

lemma console_getline_typed:
  assumes con: "console t p" and ok: "editor_ok ed" and cs: "\<forall>c\<in>set cs. printable c"
    and len: "length cs \<le> SHELL_LINE_MAX" and fits: "length t + length cs + 2 \<le> 1023"
  shows "\<exists>ed' p'. console_getline (keys d (cs @ [CHR 0x0D])) locals scp ed p = Some (Return False ed', p') \<and>
    console (t @ cs @ SHELL_NEWLINE_STR) p' \<and> editor_ok ed' \<and> c_str (ed_line ed') = cs"
proof -
  let ?ed = "ed\<lparr>ed_p := 0, ed_escape := False, ed_bracket := False\<rparr>" and ?host = "keys d (cs @ [CHR 0x0D])"
  have ok0: "editor_ok ?ed" "\<not> ed_escape ?ed" "ed_p ?ed = 0" "typed_text ?ed = []"
    using ok by (auto simp: editor_ok_def typed_text_def SHELL_MAX_LINE_LENGTH_def)
  have hosts: "?host (0 + i) = key_after (d (0 + i)) (cs ! i)" if "i < length cs" for i
    using that by (simp add: keys_def nth_append)
  obtain ed1 q where q: "console_loop ?host locals scp 0 ?ed p = console_loop ?host locals scp (length cs) ed1 q"
    "console (t @ cs) q" "editor_ok ed1" "\<not> ed_escape ed1" "typed_text ed1 = cs"
    using console_printable [OF con ok0(1,2) cs _ _ hosts, of locals scp] ok0(3,4) len fits by auto
  obtain ed' where ed': "enter_key ed1 = Return False ed'" "editor_ok ed'" "c_str (ed_line ed') = cs"
    using enter_key_ok [OF q(3)] q(5) by (auto simp: typed_text_def)
  have out: "printed ed1 ed' = SHELL_NEWLINE_STR"
    using ed'(1) by (auto simp: printed_def enter_key_def Let_def split: option.splits)
  obtain u where u: "rtt_reads (key_after (d (length cs)) (CHR 0x0D)) [0] 1 q = Some (1, [of_char (CHR 0x0D)], u)"
    "console (t @ cs) u"
    using console_reads [OF q(2)] by blast
  obtain p' where p': "echo SHELL_NEWLINE_STR u = Some p'" "console ((t @ cs) @ SHELL_NEWLINE_STR) p'"
    using console_echo [OF u(2), of SHELL_NEWLINE_STR] fits by (auto simp: SHELL_NEWLINE_STR_def)
  have key: "getline_char locals scp (CHR 0x0D) ed1 = Return False ed'"
    using ed'(1) q(4) by (simp add: getline_char_def)
  have "console_loop ?host locals scp (length cs) ed1 q = Some (Return False ed', p')"
    by (subst console_loop.simps) (simp add: keys_def u(1) key out p'(1))
  then show ?thesis using q(1) p'(2) ed' by (simp add: console_getline_def)
qed

subsection \<open>A command typed at the terminal\<close>

text \<open>C3. A line of words without quotes separated by single blanks, of at most 63 printable
  characters, typed at the debug terminal and finished with return, each key pressed any number
  of polls after the shell waits for it, with room for the echo in the up channel, makes one
  iteration of the shell thread return. With more than four arguments the shell answers too many
  arguments and runs nothing; help lists the commands, or its usage when it has arguments; any
  other first word runs the built-in command or else the command of the program of that name,
  exactly once and with exactly the typed arguments, and an unknown word is answered with a
  question mark. The editor stays well formed, all input is consumed and the terminal shows the
  prompt, the typed line and a line feed.\<close>

theorem typed_command_runs:
  assumes "console t p" and "editor_ok ed" and "list_all word_token (cmd # ws)"
    and line: "line = join_words (cmd # ws)" and "\<forall>c\<in>set line. printable c" and "length line \<le> SHELL_LINE_MAX"
    and "length t + length line + 6 \<le> 1023"
  shows "\<exists>ed' p'. shell_iteration (keys d (line @ [CHR 0x0D])) out locals scp ed p s =
      Some (More ed', p',
        if SHELL_MAX_ARGUMENTS < length ws then out (''too many arguments'' @ SHELL_NEWLINE_STR) [] s
        else if cmd = ''help'' then
          (if ws \<noteq> [] then out (''Usage: %s'' @ SHELL_NEWLINE_STR) [AStr ''help''] s
           else out SHELL_NEWLINE_STR [] (list_commands out scp (list_commands out locals (out ''Commands: help '' [] s))))
        else (case map_of locals cmd of Some f \<Rightarrow> f ws s
              | None \<Rightarrow> (case map_of scp cmd of Some f \<Rightarrow> f ws s
                       | None \<Rightarrow> out ('' ?'' @ SHELL_NEWLINE_STR) [] (out ''%s'' [AStr cmd] s)))) \<and>
    editor_ok ed' \<and> console (t @ SHELL_PROMPT_STR @ line @ SHELL_NEWLINE_STR) p'"
proof -
  obtain q where q: "echo SHELL_PROMPT_STR p = Some q" "console (t @ SHELL_PROMPT_STR) q"
    using console_echo [OF assms(1), of SHELL_PROMPT_STR] assms(7) by (auto simp: SHELL_PROMPT_STR_def)
  have "length (t @ SHELL_PROMPT_STR) + length line + 2 \<le> 1023" using assms(7) by (simp add: SHELL_PROMPT_STR_def)
  from console_getline_typed [OF q(2) assms(2,5,6) this, of d "map fst locals" "map fst scp"]
  obtain ed' p' where r: "console_getline (keys d (line @ [CHR 0x0D])) (map fst locals) (map fst scp) ed q =
      Some (Return False ed', p')" "console ((t @ SHELL_PROMPT_STR) @ line @ SHELL_NEWLINE_STR) p'"
      "editor_ok ed'" "c_str (ed_line ed') = line" by blast
  have "shell_iteration (keys d (line @ [CHR 0x0D])) out locals scp ed p s = Some (More ed', p', shell_line out locals scp line s)"
    using q(1) r by (simp add: shell_iteration_def)
  then show ?thesis using r unfolding line shell_line_cases [OF assms(3)] by (intro exI [of _ ed'] exI [of _ p']) simp
qed

lemma init_console: "console [] (SEGGER_RTT_Init rtt_bss)"
proof -
  have "up_open 0 (SEGGER_RTT_Init rtt_bss)"
    using rtt_init_ready by (simp add: up_open_def rtt_init_rings rtt_modes)
  then show ?thesis using init_line by (simp add: console_def rtt_init_rings contents_def ring_used_def rtt_modes)
qed

theorem typed_command_runs_witness:
  "\<exists>ed' p'. shell_iteration (keys (\<lambda>j. 7 * j) (''udp_dest 10.0.0.7'' @ [CHR 0x0D])) chprintf locals0
      (commands chip_hal no_dhcp) editor0 (SEGGER_RTT_Init rtt_bss) shell0 =
        Some (More ed', p', cmd_udp_dest [''10.0.0.7''] shell0) \<and>
    editor_ok ed' \<and> console ([] @ SHELL_PROMPT_STR @ ''udp_dest 10.0.0.7'' @ SHELL_NEWLINE_STR) p'"
proof -
  have "list_all word_token [''udp_dest'', ''10.0.0.7'']" by code_simp
  moreover have "\<forall>c\<in>set ''udp_dest 10.0.0.7''. printable c" by (simp add: printable_def)
  moreover have "map_of locals0 ''udp_dest'' = None" by (simp add: locals0_free commands_def)
  moreover have "length ''udp_dest 10.0.0.7'' \<le> SHELL_LINE_MAX" by (simp add: SHELL_LINE_MAX_def SHELL_MAX_LINE_LENGTH_def)
  ultimately show ?thesis
    using typed_command_runs [OF init_console editor0_ok, of "''udp_dest''" "[''10.0.0.7'']" "''udp_dest 10.0.0.7''" "\<lambda>j. 7 * j" chprintf
        locals0 "commands chip_hal no_dhcp" shell0]
    by (simp add: commands_def)
qed

text \<open>The only key that can damage the console of this program.\<close>

lemma program_names_ok: "names_ok (''help'' # shell_local_names @ map fst (commands H dhcp))"
  by (simp add: names_ok_def shell_local_names_def commands_def SHELL_MAX_LINE_LENGTH_def)

lemma tab_bad:
  assumes "editor_ok ed" and "\<not> ed_escape ed" and "ed_p ed = 0"
  shows "getline_char shell_local_names (map fst (commands H dhcp)) (CHR 0x09) ed = Bad"
proof -
  have "length (ed_line ed) = SHELL_MAX_LINE_LENGTH" "length (ed_cmp ed) = SHELL_MAX_COMPLETIONS"
    using assms(1) by (simp_all add: editor_ok_def)
  moreover from this have "c_str ((ed_line ed)[ed_p ed := CHR 0x00]) = []"
    using assms(3) by (cases "ed_line ed") (simp_all add: c_str_def SHELL_MAX_LINE_LENGTH_def)
  ultimately show ?thesis
    using assms(2,3) completions_fit [of "ed_cmp ed" H dhcp "[]"]
    by (simp add: getline_char_def tab_key_def SHELL_MAX_LINE_LENGTH_def Let_def)
qed

text \<open>C38. With the commands of this program a key makes the line editor write outside an object
  exactly when it is Tab on an empty line: fifteen names and a null pointer go to an array of
  eight.\<close>

theorem only_tab_on_empty_line_overflows:
  assumes "editor_ok ed"
  shows "getline_char shell_local_names (map fst (commands H dhcp)) c ed = Bad \<longleftrightarrow>
    c = CHR 0x09 \<and> \<not> ed_escape ed \<and> ed_p ed = 0"
proof
  assume bad: "getline_char shell_local_names (map fst (commands H dhcp)) c ed = Bad"
  let ?typed = "take (ed_p ed) (ed_line ed)"
  have arr: "length (ed_cmp ed) = SHELL_MAX_COMPLETIONS" and line: "length (ed_line ed) = SHELL_MAX_LINE_LENGTH"
    using assms by (simp_all add: editor_ok_def)
  have key: "c = CHR 0x09" "\<not> ed_escape ed"
    and full: "get_completions shell_local_names (map fst (commands H dhcp)) ?typed (ed_cmp ed) = None"
    using getline_char_ok [OF assms program_names_ok, of c H dhcp] unfolding bad by simp_all
  have "?typed = []" using full unfolding completions_fit [OF arr] .
  then show "c = CHR 0x09 \<and> \<not> ed_escape ed \<and> ed_p ed = 0"
    using key line by (auto simp: SHELL_MAX_LINE_LENGTH_def)
qed (use tab_bad [OF assms] in blast)

theorem only_tab_on_empty_line_overflows_witness:
  "getline_char shell_local_names (map fst (commands chip_hal no_dhcp)) (CHR 0x09) editor0 = Bad"
  by (rule only_tab_on_empty_line_overflows [OF editor0_ok, THEN iffD2]) (simp add: editor0_def)

end
