(* ===== verification/Ch_Sched.thy ===== *)
theory Ch_Sched
  imports Prelude
begin

text \<open>
  The scheduler of ChibiOS/RT, \<^verbatim>\<open>os/rt/src/chschd.c\<close>, in the configuration of this program: one
  core and no time quantum, so that threads of the same priority do not preempt each other. The
  ready list is the list of its threads from the head on. The header element of the circular
  list has priority 0, which is below every thread and ends the scans. Hooks, tracing and the
  context switch itself have no counterpart.
\<close>

subsection \<open>The ready list\<close>

datatype thd_state =
    ST_READY | ST_CURRENT | ST_WTSTART | ST_SUSPENDED | ST_QUEUED | ST_WTSEM | ST_WTMTX | ST_WTCOND | ST_SLEEPING
  | ST_WTEXIT | ST_WTOREVT | ST_WTANDEVT | ST_SNDMSGQ | ST_SNDMSG | ST_WTMSG | ST_FINAL

record sched =
  ready :: "nat list"
  current :: nat
  prio :: "nat \<Rightarrow> nat"
  thd_state :: "nat \<Rightarrow> thd_state"
  rdymsg :: "nat \<Rightarrow> int"

text \<open>\<open>tp->state = x\<close>; and the thread that becomes the current one.\<close>

definition set_state :: "nat \<Rightarrow> thd_state \<Rightarrow> sched \<Rightarrow> sched" where
  "set_state tp x s = s\<lparr>thd_state := (thd_state s)(tp := x)\<rparr>"

definition make_current :: "nat \<Rightarrow> sched \<Rightarrow> sched" where
  "make_current ntp s = (set_state ntp ST_CURRENT s)\<lparr>current := ntp\<rparr>"

definition pqueue_insert_behind :: "(nat \<Rightarrow> nat) \<Rightarrow> nat \<Rightarrow> nat list \<Rightarrow> nat list" where
  "pqueue_insert_behind pr t q = takeWhile (\<lambda>x. pr x \<ge> pr t) q @ t # dropWhile (\<lambda>x. pr x \<ge> pr t) q"

definition pqueue_insert_ahead :: "(nat \<Rightarrow> nat) \<Rightarrow> nat \<Rightarrow> nat list \<Rightarrow> nat list" where
  "pqueue_insert_ahead pr t q = takeWhile (\<lambda>x. pr x > pr t) q @ t # dropWhile (\<lambda>x. pr x > pr t) q"

definition firstprio :: "sched \<Rightarrow> nat" where
  "firstprio s = (case ready s of [] \<Rightarrow> 0 | t # _ \<Rightarrow> prio s t)"

definition sch_ready_behind :: "nat \<Rightarrow> sched \<Rightarrow> sched" where
  "sch_ready_behind t s = (set_state t ST_READY s)\<lparr>ready := pqueue_insert_behind (prio s) t (ready s)\<rparr>"

definition sch_ready_ahead :: "nat \<Rightarrow> sched \<Rightarrow> sched" where
  "sch_ready_ahead t s = (set_state t ST_READY s)\<lparr>ready := pqueue_insert_ahead (prio s) t (ready s)\<rparr>"

text \<open>\<open>ch_pqueue_remove_highest\<close>; \<open>None\<close> for an empty list, where the code takes the header for a thread.\<close>

definition remove_highest :: "sched \<Rightarrow> (nat \<times> sched) option" where
  "remove_highest s = (case ready s of [] \<Rightarrow> None | t # q \<Rightarrow> Some (t, s\<lparr>ready := q\<rparr>))"

subsection \<open>Operations\<close>

definition sch_reschedule_behind :: "sched \<Rightarrow> sched option" where
  "sch_reschedule_behind s =
     map_option (\<lambda>(ntp, s'). sch_ready_behind (current s) (make_current ntp s')) (remove_highest s)"

definition sch_reschedule_ahead :: "sched \<Rightarrow> sched option" where
  "sch_reschedule_ahead s =
     map_option (\<lambda>(ntp, s'). sch_ready_ahead (current s) (make_current ntp s')) (remove_highest s)"

definition chSchReadyI :: "nat \<Rightarrow> sched \<Rightarrow> sched" where
  "chSchReadyI tp s = sch_ready_behind tp s"

definition chSchGoSleepS :: "thd_state \<Rightarrow> sched \<Rightarrow> sched option" where
  "chSchGoSleepS newstate s =
     map_option (\<lambda>(ntp, s'). make_current ntp s') (remove_highest (set_state (current s) newstate s))"

definition chSchWakeupS :: "nat \<Rightarrow> int \<Rightarrow> sched \<Rightarrow> sched" where
  "chSchWakeupS ntp msg s =
     (let s = s\<lparr>rdymsg := (rdymsg s)(ntp := msg)\<rparr> in
      if prio s ntp \<le> prio s (current s) then sch_ready_behind ntp s
      else make_current ntp (sch_ready_ahead (current s) s))"

definition chSchRescheduleS :: "sched \<Rightarrow> sched option" where
  "chSchRescheduleS s = (if firstprio s > prio s (current s) then sch_reschedule_ahead s else Some s)"

definition chSchIsPreemptionRequired :: "sched \<Rightarrow> bool" where
  "chSchIsPreemptionRequired s \<longleftrightarrow> firstprio s > prio s (current s)"

definition chSchDoPreemption :: "sched \<Rightarrow> sched option" where
  "chSchDoPreemption s =
     map_option (\<lambda>(ntp, s'). sch_ready_ahead (current s) (make_current ntp s')) (remove_highest s)"

definition chSchPreemption :: "sched \<Rightarrow> sched option" where
  "chSchPreemption s = (if firstprio s > prio s (current s) then sch_reschedule_ahead s else Some s)"

definition chSchDoYieldS :: "sched \<Rightarrow> sched option" where
  "chSchDoYieldS s = (if firstprio s \<ge> prio s (current s) then sch_reschedule_behind s else Some s)"

subsection \<open>The order of the ready list\<close>

text \<open>
  \<open>ready_ok\<close> holds inside a critical section, \<open>sched_ok\<close> outside: it has the assertion of the
  code that no ready thread has a higher priority than the current one.
\<close>

definition list_ok :: "sched \<Rightarrow> bool" where
  "list_ok s \<longleftrightarrow> sorted_wrt (\<lambda>x y. prio s x \<ge> prio s y) (ready s) \<and> distinct (current s # ready s) \<and>
     (\<forall>t. 0 < prio s t)"

definition states_ok :: "sched \<Rightarrow> bool" where
  "states_ok s \<longleftrightarrow> (\<forall>t. (thd_state s t = ST_READY \<longleftrightarrow> t \<in> set (ready s)) \<and> (thd_state s t = ST_CURRENT \<longleftrightarrow> t = current s))"

definition ready_ok :: "sched \<Rightarrow> bool" where
  "ready_ok s \<longleftrightarrow> list_ok s \<and> states_ok s"

definition sched_ok :: "sched \<Rightarrow> bool" where
  "sched_ok s \<longleftrightarrow> ready_ok s \<and> (\<forall>t\<in>set (ready s). prio s t \<le> prio s (current s))"

definition runnable :: "sched \<Rightarrow> nat set" where
  "runnable s = insert (current s) (set (ready s))"

text \<open>
  What the scheduler relies on in the insertions: they add one thread and keep a descending list
  descending.
\<close>

locale ready_insert =
  fixes ins :: "(nat \<Rightarrow> nat) \<Rightarrow> nat \<Rightarrow> nat list \<Rightarrow> nat list"
  assumes set_ins: "set (ins pr t q) = insert t (set q)"
    and distinct_ins: "distinct (ins pr t q) \<longleftrightarrow> t \<notin> set q \<and> distinct q"
    and sorted_ins: "sorted_wrt (\<lambda>x y. pr x \<ge> pr y) q \<Longrightarrow> sorted_wrt (\<lambda>x y. pr x \<ge> pr y) (ins pr t q)"
begin

lemma list_ok_ins:
  assumes "list_ok s" and "t \<notin> runnable s"
  shows "list_ok (s\<lparr>ready := ins (prio s) t (ready s)\<rparr>)"
  using assms sorted_ins by (auto simp: list_ok_def runnable_def set_ins distinct_ins)

end

text \<open>Insertion at the first place where a predicate fails.\<close>

lemma set_insert_pq: "set (takeWhile P q @ t # dropWhile P q) = insert t (set q)"
proof -
  have "set (takeWhile P q) \<union> set (dropWhile P q) = set q"
    by (metis set_append takeWhile_dropWhile_id)
  then show ?thesis by auto
qed

lemma distinct_insert_pq:
  fixes t :: nat
  shows "distinct (takeWhile P q @ t # dropWhile P q) \<longleftrightarrow> t \<notin> set q \<and> distinct q"
proof -
  have "distinct (a @ t # b) \<longleftrightarrow> t \<notin> set (a @ b) \<and> distinct (a @ b)" for a b :: "nat list" by auto
  from this [of "takeWhile P q" "dropWhile P q"] show ?thesis by simp
qed

lemma sorted_insert_pq:
  assumes "sorted_wrt (\<lambda>x y. pr x \<ge> pr y) q" and "\<And>x. P x \<Longrightarrow> pr x \<ge> pr t" and "\<And>x. \<not> P x \<Longrightarrow> pr t \<ge> (pr x :: nat)"
  shows "sorted_wrt (\<lambda>x y. pr x \<ge> pr y) (takeWhile P q @ t # dropWhile P q)"
  using assms(1)
proof (induction q)
  case (Cons a q)
  show ?case
  proof (cases "P a")
    case True
    have "\<forall>y\<in>set (takeWhile P q @ t # dropWhile P q). pr y \<le> pr a"
      using Cons.prems assms(2) [OF True] by (auto dest: set_takeWhileD set_dropWhileD)
    then show ?thesis using Cons True by simp
  next
    case False
    have "\<forall>y\<in>set (a # q). pr y \<le> pr t" using Cons.prems assms(3) [OF False] by force
    then show ?thesis using False Cons.prems by simp
  qed
qed simp

lemmas insert_defs = pqueue_insert_behind_def pqueue_insert_ahead_def

interpretation behind: ready_insert pqueue_insert_behind
  by unfold_locales (simp_all only: insert_defs set_insert_pq distinct_insert_pq, rule sorted_insert_pq, auto)

interpretation ahead: ready_insert pqueue_insert_ahead
  by unfold_locales (simp_all only: insert_defs set_insert_pq distinct_insert_pq, rule sorted_insert_pq, auto)

declare behind.set_ins [simp] ahead.set_ins [simp]

lemma set_state_simps [simp]:
  "ready (set_state t x s) = ready s" "current (set_state t x s) = current s" "prio (set_state t x s) = prio s"
  "rdymsg (set_state t x s) = rdymsg s" "thd_state (set_state t x s) = (thd_state s)(t := x)"
  "runnable (set_state t x s) = runnable s" "list_ok (set_state t x s) = list_ok s"
  by (simp_all add: set_state_def runnable_def list_ok_def)

lemma make_current_simps [simp]:
  "ready (make_current t s) = ready s" "current (make_current t s) = t" "prio (make_current t s) = prio s"
  "rdymsg (make_current t s) = rdymsg s" "thd_state (make_current t s) = (thd_state s)(t := ST_CURRENT)"
  by (simp_all add: make_current_def)

lemma sched_simps [simp]:
  "prio (sch_ready_behind t s) = prio s" "current (sch_ready_behind t s) = current s"
  "prio (sch_ready_ahead t s) = prio s" "current (sch_ready_ahead t s) = current s"
  "set (ready (sch_ready_behind t s)) = insert t (set (ready s))"
  "set (ready (sch_ready_ahead t s)) = insert t (set (ready s))"
  "thd_state (sch_ready_behind t s) = (thd_state s)(t := ST_READY)"
  "thd_state (sch_ready_ahead t s) = (thd_state s)(t := ST_READY)"
  by (simp_all add: sch_ready_behind_def sch_ready_ahead_def)

lemma list_ok_ready:
  assumes "list_ok s" and "t \<notin> runnable s"
  shows "list_ok (sch_ready_behind t s)" "list_ok (sch_ready_ahead t s)"
  using assms behind.list_ok_ins [of "set_state t ST_READY s" t] ahead.list_ok_ins [of "set_state t ST_READY s" t]
  by (simp_all add: sch_ready_behind_def sch_ready_ahead_def)

lemma ready_ok_ready:
  assumes "ready_ok s" and "t \<notin> runnable s"
  shows "ready_ok (chSchReadyI t s)"
  using assms list_ok_ready(1) [of s t] by (auto simp: ready_ok_def states_ok_def runnable_def chSchReadyI_def)

subsection \<open>Every operation keeps the order\<close>

text \<open>The first ready thread becomes the current one, which is put back into the list by \<open>put\<close>.\<close>

lemma switch_ok:
  assumes "ready_ok s" and q: "ready s = t # q" and "prio s (current s) \<le> prio s t"
    and put: "put \<in> {sch_ready_behind, sch_ready_ahead}"
  shows "sched_ok (put (current s) (make_current t (s\<lparr>ready := q\<rparr>)))"
    "runnable (put (current s) (make_current t (s\<lparr>ready := q\<rparr>))) = runnable s"
    "prio (put (current s) (make_current t (s\<lparr>ready := q\<rparr>))) = prio s"
proof -
  let ?s = "make_current t (s\<lparr>ready := q\<rparr>)"
  have ok: "list_ok ?s" "current s \<notin> runnable ?s" using assms(1) q by (auto simp: ready_ok_def list_ok_def runnable_def)
  have "\<forall>x\<in>set q. prio s x \<le> prio s t" "t \<noteq> current s" "t \<notin> set q" "current s \<notin> set q"
    using assms(1) q by (auto simp: ready_ok_def list_ok_def)
  moreover have st: "thd_state (put (current s) ?s) = (thd_state s)(t := ST_CURRENT, current s := ST_READY)"
    "set (ready (put (current s) ?s)) = insert (current s) (set q)" "current (put (current s) ?s) = t"
    "prio (put (current s) ?s) = prio s"
    using put by auto
  moreover have "states_ok (put (current s) ?s)"
    using assms(1) q calculation(2-4) unfolding states_ok_def st ready_ok_def by simp
  ultimately show "sched_ok (put (current s) ?s)"
    using list_ok_ready [OF ok] put assms(3) by (auto simp: sched_ok_def ready_ok_def simp del: sched_simps)
  show "runnable (put (current s) ?s) = runnable s" using st q by (auto simp: runnable_def)
  show "prio (put (current s) ?s) = prio s" by (rule st)
qed

lemma reschedule_ok:
  assumes "ready_ok s"
  obtains s' where "chSchRescheduleS s = Some s'" and "sched_ok s'" and "runnable s' = runnable s" and "prio s' = prio s"
proof (cases "firstprio s > prio s (current s)")
  case True
  then obtain t q where q: "ready s = t # q" "prio s (current s) \<le> prio s t"
    by (auto simp: firstprio_def split: list.splits)
  show thesis
    using switch_ok [OF assms q, of sch_ready_ahead] True q(1)
    by (intro that [of "sch_ready_ahead (current s) (make_current t (s\<lparr>ready := q\<rparr>))"]) (auto simp: chSchRescheduleS_def sch_reschedule_ahead_def remove_highest_def)
next
  case False
  have "prio s t \<le> prio s (current s)" if "t \<in> set (ready s)" for t
    using that False assms by (cases "ready s") (auto simp: firstprio_def ready_ok_def list_ok_def)
  then show thesis using that [of s] False assms by (simp add: chSchRescheduleS_def sched_ok_def)
qed

lemma preemption_eq: "chSchPreemption s = chSchRescheduleS s"
  "chSchIsPreemptionRequired s \<Longrightarrow> chSchDoPreemption s = chSchPreemption s"
  by (simp_all add: chSchPreemption_def chSchRescheduleS_def chSchIsPreemptionRequired_def chSchDoPreemption_def
      sch_reschedule_ahead_def)

lemma yield_ok:
  assumes "sched_ok s"
  obtains s' where "chSchDoYieldS s = Some s'" and "sched_ok s'" and "runnable s' = runnable s" and "prio s' = prio s"
proof (cases "firstprio s \<ge> prio s (current s)")
  case True
  have ok: "ready_ok s" "0 < prio s (current s)" using assms by (simp_all add: sched_ok_def ready_ok_def list_ok_def)
  then obtain t q where q: "ready s = t # q" "prio s (current s) \<le> prio s t"
    using True by (auto simp: firstprio_def split: list.splits)
  show thesis
    using switch_ok [OF ok(1) q, of sch_ready_behind] True q(1)
    by (intro that [of "sch_ready_behind (current s) (make_current t (s\<lparr>ready := q\<rparr>))"]) (auto simp: chSchDoYieldS_def sch_reschedule_behind_def remove_highest_def)
next
  case False
  then show thesis using that [of s] assms by (simp add: chSchDoYieldS_def)
qed

text \<open>A thread goes to sleep in a state of its own.\<close>

lemma go_sleep_ok:
  assumes "sched_ok s" and "ready s \<noteq> []" and "x \<notin> {ST_READY, ST_CURRENT}"
  obtains s' where "chSchGoSleepS x s = Some s'" and "sched_ok s'" and "runnable s' = runnable s - {current s}"
    and "prio s' = prio s"
proof -
  obtain t q where q: "ready s = t # q" using assms(2) by (cases "ready s") auto
  let ?s = "make_current t ((set_state (current s) x s)\<lparr>ready := q\<rparr>)"
  have "list_ok ?s" "states_ok ?s" "\<forall>y\<in>set q. prio s y \<le> prio s t"
    using assms(1,3) q by (auto simp: sched_ok_def ready_ok_def list_ok_def states_ok_def)
  moreover have "runnable ?s = runnable s - {current s}"
    using assms(1) q by (auto simp: sched_ok_def ready_ok_def list_ok_def runnable_def)
  ultimately show thesis
    using q by (intro that [of ?s]) (auto simp: chSchGoSleepS_def remove_highest_def sched_ok_def ready_ok_def)
qed

lemma insert_above:
  assumes "\<forall>x\<in>set q. pr x < pr t"
  shows "pqueue_insert_behind pr t q = t # q"
  using assms by (cases q) (auto simp: pqueue_insert_behind_def)

text \<open>\<open>chSchWakeupS\<close> is the fast version of making a thread ready and rescheduling.\<close>

lemma wakeup_eq:
  assumes "sched_ok s" and "ntp \<notin> runnable s"
  shows "chSchRescheduleS (chSchReadyI ntp (s\<lparr>rdymsg := (rdymsg s)(ntp := msg)\<rparr>)) = Some (chSchWakeupS ntp msg s)"
proof (cases "prio s ntp \<le> prio s (current s)")
  case True
  let ?s = "s\<lparr>rdymsg := (rdymsg s)(ntp := msg)\<rparr>"
  have "firstprio (sch_ready_behind ntp ?s) \<le> prio s (current s)"
  proof (cases "ready (sch_ready_behind ntp ?s)")
    case (Cons t q)
    then have "t \<in> insert ntp (set (ready ?s))" by (metis list.set_intros(1) sched_simps(5))
    then show ?thesis using True assms(1) Cons by (auto simp: firstprio_def sched_ok_def)
  qed (simp add: firstprio_def)
  then show ?thesis using True by (simp add: chSchRescheduleS_def chSchReadyI_def chSchWakeupS_def)
next
  case False
  let ?s = "s\<lparr>rdymsg := (rdymsg s)(ntp := msg)\<rparr>"
  have "\<forall>x\<in>set (ready s). prio s x < prio s ntp" using False assms(1) by (fastforce simp: sched_ok_def)
  then have "sch_ready_behind ntp ?s = (set_state ntp ST_READY ?s)\<lparr>ready := ntp # ready s\<rparr>"
    by (simp add: sch_ready_behind_def insert_above)
  moreover have "ntp \<noteq> current s" using assms(2) by (simp add: runnable_def)
  ultimately show ?thesis
    using False by (simp add: chSchRescheduleS_def chSchReadyI_def chSchWakeupS_def firstprio_def
        sch_reschedule_ahead_def remove_highest_def sch_ready_ahead_def set_state_def make_current_def fun_upd_twist)
qed

lemma rdymsg_irrelevant [simp]:
  "sched_ok (s\<lparr>rdymsg := f\<rparr>) = sched_ok s" "ready_ok (s\<lparr>rdymsg := f\<rparr>) = ready_ok s" "runnable (s\<lparr>rdymsg := f\<rparr>) = runnable s"
  by (simp_all add: sched_ok_def ready_ok_def list_ok_def states_ok_def runnable_def)

lemma wakeup_ok:
  assumes "sched_ok s" and "ntp \<notin> runnable s"
  shows "sched_ok (chSchWakeupS ntp msg s)" "runnable (chSchWakeupS ntp msg s) = insert ntp (runnable s)"
    "prio (chSchWakeupS ntp msg s) = prio s"
proof -
  let ?s = "s\<lparr>rdymsg := (rdymsg s)(ntp := msg)\<rparr>"
  have "ready_ok (chSchReadyI ntp ?s)" using assms by (intro ready_ok_ready) (simp_all add: sched_ok_def)
  then obtain s' where "chSchRescheduleS (chSchReadyI ntp ?s) = Some s'" "sched_ok s'"
    "runnable s' = runnable (chSchReadyI ntp ?s)" "prio s' = prio (chSchReadyI ntp ?s)"
    by (rule reschedule_ok)
  then show "sched_ok (chSchWakeupS ntp msg s)" "runnable (chSchWakeupS ntp msg s) = insert ntp (runnable s)"
    "prio (chSchWakeupS ntp msg s) = prio s"
    using wakeup_eq [OF assms] by (auto simp: chSchReadyI_def runnable_def)
qed

text \<open>
  The kernel as a step relation: the current thread sleeps, wakes another thread or yields, or an
  interrupt makes some threads ready and reschedules on its exit.
\<close>

inductive kernel_step :: "sched \<Rightarrow> sched \<Rightarrow> bool" where
  sleep: "\<lbrakk>x \<notin> {ST_READY, ST_CURRENT}; chSchGoSleepS x s = Some s'\<rbrakk> \<Longrightarrow> kernel_step s s'"
| wakeup: "t \<notin> runnable s \<Longrightarrow> kernel_step s (chSchWakeupS t msg s)"
| yield: "chSchDoYieldS s = Some s' \<Longrightarrow> kernel_step s s'"
| interrupt: "\<lbrakk>distinct ts; set ts \<inter> runnable s = {}; chSchPreemption (fold chSchReadyI ts s) = Some s'\<rbrakk> \<Longrightarrow>
    kernel_step s s'"

lemma ready_list_ok:
  assumes "ready_ok s" and "distinct ts" and "set ts \<inter> runnable s = {}"
  shows "ready_ok (fold chSchReadyI ts s)"
  using assms
proof (induction ts arbitrary: s)
  case (Cons t ts)
  have "ready_ok (chSchReadyI t s)" using Cons.prems ready_ok_ready by simp
  moreover have "set ts \<inter> runnable (chSchReadyI t s) = {}"
    using Cons.prems by (auto simp: runnable_def chSchReadyI_def)
  ultimately show ?case using Cons by simp
qed simp

lemma kernel_step_ok:
  assumes "kernel_step s s'" and "sched_ok s"
  shows "sched_ok s'"
  using assms
proof cases
  case (sleep x)
  then have "ready s \<noteq> []" by (auto simp: chSchGoSleepS_def remove_highest_def)
  from go_sleep_ok [OF assms(2) this sleep(1)] sleep(2) show ?thesis by (metis option.inject)
next
  case (wakeup t)
  then show ?thesis using wakeup_ok [OF assms(2)] by simp
next
  case yield
  from yield_ok [OF assms(2)] yield show ?thesis by (metis option.inject)
next
  case (interrupt ts)
  have "ready_ok (fold chSchReadyI ts s)"
    using interrupt assms(2) by (intro ready_list_ok) (simp_all add: sched_ok_def)
  from reschedule_ok [OF this] interrupt(3) show ?thesis by (metis option.inject preemption_eq(1))
qed

lemma kernel_steps_ok: "kernel_step\<^sup>*\<^sup>* s s' \<Longrightarrow> sched_ok s \<Longrightarrow> sched_ok s'"
  by (induction rule: rtranclp_induct) (auto intro: kernel_step_ok)

text \<open>C17. Any sequence of scheduler calls (sleep, wake-up, yield, interrupts that make threads
  ready) keeps the ready list ordered by priority without duplicates, in agreement with the
  states of the threads, and the running thread has the highest priority of all ready threads.\<close>

theorem kernel_keeps_order:
  assumes "kernel_step\<^sup>*\<^sup>* s s'" and "sched_ok s"
  shows "sched_ok s' \<and> thd_state s' (current s') = ST_CURRENT \<and>
    (\<forall>t. thd_state s' t = ST_READY \<longrightarrow> t \<in> set (ready s') \<and> prio s' t \<le> prio s' (current s'))"
  using kernel_steps_ok [OF assms] by (auto simp: sched_ok_def ready_ok_def states_ok_def)

text \<open>
  A ready list with two threads; a third one wakes up, and then the current one goes to sleep.
\<close>

definition sched_example :: sched where
  "sched_example = \<lparr>ready = [2, 3], current = 1, prio = (\<lambda>t. if t = 3 then 1 else if t = 1 then 4 else if t = 2 then 3 else 2),
     thd_state = (\<lambda>t. if t = 1 then ST_CURRENT else if t = 2 \<or> t = 3 then ST_READY else ST_SLEEPING), rdymsg = (\<lambda>_. 0)\<rparr>"

lemma sched_example_ok: "sched_ok sched_example" "0 \<notin> runnable sched_example"
  by (auto simp: sched_example_def sched_ok_def ready_ok_def list_ok_def states_ok_def runnable_def)

theorem kernel_keeps_order_witness:
  "let s = the (chSchGoSleepS ST_SLEEPING (chSchWakeupS 0 7 sched_example)) in
     sched_ok s \<and> current s = 2 \<and> ready s = [0, 3] \<and> thd_state s 0 = ST_READY"
proof -
  have "chSchGoSleepS ST_SLEEPING (chSchWakeupS 0 7 sched_example) \<noteq> None"
    by (simp add: chSchGoSleepS_def remove_highest_def chSchWakeupS_def sched_example_def sch_ready_behind_def
        pqueue_insert_behind_def)
  then obtain s where s: "chSchGoSleepS ST_SLEEPING (chSchWakeupS 0 7 sched_example) = Some s" by blast
  have "kernel_step sched_example (chSchWakeupS 0 7 sched_example)" by (intro kernel_step.wakeup sched_example_ok)
  moreover have "kernel_step (chSchWakeupS 0 7 sched_example) s" using s by (intro kernel_step.sleep) auto
  ultimately have "kernel_step\<^sup>*\<^sup>* sched_example s" by simp
  from kernel_keeps_order [OF this sched_example_ok(1)] s show ?thesis
    by (auto simp: chSchGoSleepS_def remove_highest_def chSchWakeupS_def sched_example_def sch_ready_behind_def
        pqueue_insert_behind_def Let_def)
qed

text \<open>chSchWakeupS is equivalent to storing the message, chSchReadyI and chSchRescheduleS, as
  its comment says: for a sleeping thread and an ordered ready list both leave the same
  scheduler state.\<close>

theorem wakeup_is_ready_and_reschedule:
  assumes "sched_ok s" and "ntp \<notin> runnable s"
  shows "Some (chSchWakeupS ntp msg s) = chSchRescheduleS (chSchReadyI ntp (s\<lparr>rdymsg := (rdymsg s)(ntp := msg)\<rparr>))"
  using wakeup_eq [OF assms] by simp

theorem wakeup_is_ready_and_reschedule_witness:
  "Some (chSchWakeupS 0 7 sched_example) =
     chSchRescheduleS (chSchReadyI 0 (sched_example\<lparr>rdymsg := (rdymsg sched_example)(0 := 7)\<rparr>))"
  by (rule wakeup_is_ready_and_reschedule [OF sched_example_ok])

subsection \<open>A thread is not overtaken by its peers\<close>

text \<open>
  The thread \<open>m\<close> runs, or only threads of a higher priority are in front of it.
\<close>

definition front :: "nat \<Rightarrow> sched \<Rightarrow> bool" where
  "front m s \<longleftrightarrow> current s = m \<or>
     prio s m < prio s (current s) \<and> (\<exists>A B. ready s = A @ m # B \<and> (\<forall>x\<in>set A. prio s m < prio s x))"

lemma frontI:
  "\<lbrakk>prio s m < prio s (current s); ready s = A @ m # B; \<forall>x\<in>set A. prio s m < prio s x\<rbrakk> \<Longrightarrow> front m s"
  by (auto simp: front_def)

lemma insert_before:
  "pr m < pr t \<Longrightarrow> pqueue_insert_behind pr t (A @ m # B) = pqueue_insert_behind pr t A @ m # B"
  "pr m \<le> pr t \<Longrightarrow> pqueue_insert_ahead pr t (A @ m # B) = pqueue_insert_ahead pr t A @ m # B"
  by (simp_all add: insert_defs takeWhile_tail dropWhile_append3)

lemma insert_after:
  "pr t \<le> pr m \<Longrightarrow> \<forall>x\<in>set A. pr m < pr x \<Longrightarrow>
    pqueue_insert_behind pr t (A @ m # B) = A @ m # pqueue_insert_behind pr t B"
  by (induction A) (auto simp: pqueue_insert_behind_def)

lemma front_sleep:
  assumes "front m s" and "current s \<noteq> m" and "chSchGoSleepS x s = Some s'"
  shows "front m s'"
proof -
  obtain A B where r: "ready s = A @ m # B" "\<forall>x\<in>set A. prio s m < prio s x"
    using assms(1,2) by (auto simp: front_def)
  show ?thesis
  proof (cases A)
    case Nil
    then show ?thesis using assms(3) r by (auto simp: front_def chSchGoSleepS_def remove_highest_def)
  next
    case (Cons a A')
    then have "ready s' = A' @ m # B" "current s' = a" "prio s' = prio s"
      using assms(3) r by (auto simp: chSchGoSleepS_def remove_highest_def)
    then show ?thesis using r(2) Cons by (auto simp: front_def)
  qed
qed

lemma wakeup_fields:
  "ready (chSchWakeupS t msg s) =
     (if prio s t \<le> prio s (current s) then pqueue_insert_behind (prio s) t (ready s)
      else pqueue_insert_ahead (prio s) (current s) (ready s))"
  "current (chSchWakeupS t msg s) = (if prio s t \<le> prio s (current s) then current s else t)"
  "prio (chSchWakeupS t msg s) = prio s"
  by (simp_all add: chSchWakeupS_def sch_ready_behind_def sch_ready_ahead_def Let_def)

lemma front_wakeup:
  assumes "front m s"
  shows "front m (chSchWakeupS t msg s)"
proof (cases "current s = m")
  case True
  have "\<forall>x\<in>set (takeWhile (\<lambda>x. prio s m < prio s x) (ready s)). prio s m < prio s x" by (auto dest: set_takeWhileD)
  then show ?thesis
    using True by (auto simp: front_def wakeup_fields pqueue_insert_ahead_def)
next
  case False
  then obtain A B where r: "ready s = A @ m # B" "\<forall>x\<in>set A. prio s m < prio s x"
    and c: "prio s m < prio s (current s)"
    using assms by (auto simp: front_def)
  show ?thesis
  proof (cases "prio s t \<le> prio s (current s)")
    case True
    then show ?thesis
    proof (cases "prio s t \<le> prio s m")
      case True
      then show ?thesis
        using c r \<open>prio s t \<le> prio s (current s)\<close> insert_after [of "prio s" t m A B]
        by (auto simp: front_def wakeup_fields)
    next
      case False
      then show ?thesis
        using c r \<open>prio s t \<le> prio s (current s)\<close> insert_before(1) [of "prio s" m t A B]
        by (intro frontI [where A = "pqueue_insert_behind (prio s) t A" and B = B])
          (auto simp: wakeup_fields)
    qed
  next
    case False
    then show ?thesis
      using c r insert_before(2) [of "prio s" m "current s" A B]
      by (intro frontI [where A = "pqueue_insert_ahead (prio s) (current s) A" and B = B])
        (auto simp: wakeup_fields)
  qed
qed

end
