(* ===== verification/App_Startup.thy ===== *)
theory App_Startup
  imports Ch_Sched App_Threads
begin

text \<open>
  The start of the program, \<open>main\<close> of \<^verbatim>\<open>src/main.c\<close>: the threads it creates with their
  priorities, and what each thread does with the event sources before its loop. The threads run
  under the scheduler of \<open>Ch_Sched\<close> and work on the event sources of \<open>Ch_Events\<close>. A library
  call of the set-up code may block any number of times before it returns, a thread in its loop
  may block at any time, and an interrupt may wake any thread that has been created and sleeps;
  a thread that wakes another one has the same effect on the ready list.
\<close>

subsection \<open>Threads\<close>

abbreviation (input) thd_main :: nat where "thd_main \<equiv> 0"
abbreviation (input) thd_blinker :: nat where "thd_blinker \<equiv> 1"
abbreviation (input) thd_hid :: nat where "thd_hid \<equiv> 2"
abbreviation (input) thd_usb_host :: nat where "thd_usb_host \<equiv> 3"
abbreviation (input) thd_udp_server :: nat where "thd_udp_server \<equiv> 4"
abbreviation (input) thd_nrf24_tx :: nat where "thd_nrf24_tx \<equiv> 5"
abbreviation (input) thd_nrf24_irq :: nat where "thd_nrf24_irq \<equiv> 6"
abbreviation (input) thd_shell :: nat where "thd_shell \<equiv> 7"
abbreviation (input) thd_idle :: nat where "thd_idle \<equiv> 8"

definition NORMALPRIO :: nat where "NORMALPRIO = 128"
definition IDLEPRIO :: nat where "IDLEPRIO = 1"

definition thread_prio :: "nat \<Rightarrow> nat" where
  "thread_prio t =
     (if t = thd_blinker \<or> t = thd_shell then NORMALPRIO + 1
      else if t = thd_usb_host then NORMALPRIO + 2
      else if t = thd_nrf24_irq then NORMALPRIO + 3
      else if t = thd_idle then IDLEPRIO
      else NORMALPRIO)"

text \<open>The listeners of the threads, by the number of the thread.\<close>

datatype act =
    Create nat
  | ObjectInit nat
  | RegisterMask nat nat u32
  | Call

definition program :: "nat \<Rightarrow> act list" where
  "program t =
     (if t = thd_main then
        [Create thd_blinker, Create thd_hid, Create thd_usb_host, Create thd_udp_server, Create thd_nrf24_tx,
         Create thd_nrf24_irq, Call, Create thd_shell]
      else if t = thd_usb_host then [ObjectInit esDS5Ready, Call]
      else if t = thd_udp_server then [Call, RegisterMask esDS5Ready thd_udp_server EVT_DS5_READY, Call]
      else if t = thd_nrf24_tx then
        [ObjectInit esNRF24Interrupt, Call, RegisterMask esDS5Ready thd_nrf24_tx EVT_DS5_READY, Call]
      else if t = thd_nrf24_irq then [RegisterMask esNRF24Interrupt thd_nrf24_irq EVT_NRF24_INTERRUPT]
      else [])"

subsection \<open>Steps\<close>

record startup =
  sch :: sched
  pcs :: "nat \<Rightarrow> nat"
  evs :: ev_mem
  created :: "nat set"

text \<open>\<open>chThdCreateStatic\<close> and \<open>chThdCreateFromHeap\<close>: the new thread object, and its start.\<close>

definition create_thread :: "nat \<Rightarrow> nat \<Rightarrow> sched \<Rightarrow> sched" where
  "create_thread t p s =
     chSchWakeupS t 0 (s\<lparr>prio := (prio s)(t := p), thd_state := (thd_state s)(t := ST_WTSTART)\<rparr>)"

definition next_act :: "startup \<Rightarrow> act option" where
  "next_act s =
     (let t = current (sch s)
      in if pcs s t < length (program t) then Some (program t ! pcs s t) else None)"

definition advance :: "startup \<Rightarrow> startup" where
  "advance s = s\<lparr>pcs := (pcs s)(current (sch s) := Suc (pcs s (current (sch s))))\<rparr>"

inductive startup_step :: "startup \<Rightarrow> startup \<Rightarrow> bool" where
  create: "next_act s = Some (Create t) \<Longrightarrow>
    startup_step s ((advance s)\<lparr>sch := create_thread t (thread_prio t) (sch s), created := insert t (created s)\<rparr>)"
| object_init: "next_act s = Some (ObjectInit e) \<Longrightarrow>
    startup_step s ((advance s)\<lparr>evs := chEvtObjectInit e (evs s)\<rparr>)"
| register: "next_act s = Some (RegisterMask e x k) \<Longrightarrow>
    startup_step s ((advance s)\<lparr>evs := chEvtRegisterMask (current (sch s)) e x k (evs s)\<rparr>)"
| call_returns: "next_act s = Some Call \<Longrightarrow> startup_step s (advance s)"
| blocks: "\<lbrakk>next_act s = Some Call \<or> next_act s = None; current (sch s) \<noteq> thd_idle;
    x \<notin> {ST_READY, ST_CURRENT}; chSchGoSleepS x (sch s) = Some c\<rbrakk> \<Longrightarrow> startup_step s (s\<lparr>sch := c\<rparr>)"
| interrupt: "\<lbrakk>t \<in> created s; t \<notin> runnable (sch s); chSchPreemption (chSchReadyI t ((sch s)\<lparr>rdymsg := (rdymsg (sch s))(t := msg)\<rparr>)) = Some c\<rbrakk> \<Longrightarrow>
    startup_step s (s\<lparr>sch := c\<rparr>)"
| broadcast: "chEvtBroadcastI e (evs s) = Some (Some m') \<Longrightarrow> startup_step s (s\<lparr>evs := m'\<rparr>)"

definition startup0 :: "ev_mem \<Rightarrow> startup" where
  "startup0 m = \<lparr>sch = \<lparr>ready = [thd_idle], current = thd_main, prio = thread_prio,
       thd_state = (\<lambda>_. ST_WTSTART)(thd_main := ST_CURRENT, thd_idle := ST_READY), rdymsg = (\<lambda>_. 0)\<rparr>, pcs = (\<lambda>_. 0), evs = m,
     created = {thd_main, thd_idle}\<rparr>"

subsection \<open>Who runs when\<close>

definition created_by :: "nat \<Rightarrow> nat set" where
  "created_by n = {thd_main, thd_idle} \<union> {t. Create t \<in> set (take n (program thd_main))}"

definition order_inv :: "startup \<Rightarrow> bool" where
  "order_inv s \<longleftrightarrow> sched_ok (sch s) \<and> prio (sch s) = thread_prio \<and> runnable (sch s) \<subseteq> created s \<and>
     created s = created_by (pcs s thd_main) \<and> pcs s thd_main \<le> 8 \<and> thd_idle \<in> runnable (sch s) \<and>
     (pcs s thd_main < 6 \<longrightarrow> front thd_main (sch s)) \<and>
     (pcs s thd_main < 6 \<longrightarrow> pcs s thd_udp_server = 0 \<and> pcs s thd_nrf24_tx = 0) \<and>
     (3 \<le> pcs s thd_main \<longrightarrow> 1 \<le> pcs s thd_usb_host \<or> current (sch s) = thd_usb_host \<and> pcs s thd_main = 3) \<and>
     (6 \<le> pcs s thd_main \<longrightarrow> 1 \<le> pcs s thd_nrf24_irq \<or> current (sch s) = thd_nrf24_irq)"

lemma next_act_cases:
  assumes "next_act s = Some a"
  shows "pcs s (current (sch s)) < length (program (current (sch s)))"
    "a = program (current (sch s)) ! pcs s (current (sch s))"
  using assms by (auto simp: next_act_def Let_def split: if_splits)

lemma length_main: "length (program thd_main) = 8"
  by (simp add: program_def)

lemma created_by_Suc:
  "n < 8 \<Longrightarrow> created_by (Suc n) = created_by n \<union> {t. program thd_main ! n = Create t}"
  by (auto simp: created_by_def take_Suc_conv_app_nth length_main)

lemma create_main:
  assumes "n < 8" and "program thd_main ! n = Create t"
  shows "t \<notin> created_by n" "n = 2 \<longleftrightarrow> t = thd_usb_host" "n = 5 \<longleftrightarrow> t = thd_nrf24_irq"
proof -
  have "n \<in> set [0, 1, 2, 3, 4, 5, 6, 7]" using assms(1) by auto
  then show "t \<notin> created_by n" "n = 2 \<longleftrightarrow> t = thd_usb_host" "n = 5 \<longleftrightarrow> t = thd_nrf24_irq"
    using assms(2) by (auto simp: program_def created_by_def)
qed

lemma create_act:
  assumes "next_act s = Some (Create t)"
  shows "current (sch s) = thd_main \<and> pcs s thd_main < 8 \<and> program thd_main ! pcs s thd_main = Create t"
proof -
  note a = next_act_cases [OF assms]
  have main: "current (sch s) = thd_main"
    using a by (auto simp: program_def nth_Cons' split: if_splits)
  then show ?thesis using a length_main by simp
qed

lemma init_act:
  assumes "next_act s = Some (ObjectInit e)"
  shows "current (sch s) = thd_usb_host \<and> pcs s thd_usb_host = 0 \<and> e = esDS5Ready \<or>
    current (sch s) = thd_nrf24_tx \<and> pcs s thd_nrf24_tx = 0 \<and> e = esNRF24Interrupt"
  using next_act_cases [OF assms] by (auto simp: program_def nth_Cons' split: if_splits)

lemma register_act:
  assumes "next_act s = Some (RegisterMask e x k)"
  shows "current (sch s) = thd_udp_server \<and> pcs s thd_udp_server = 1 \<and> e = esDS5Ready \<and> x = thd_udp_server \<and> k = EVT_DS5_READY \<or>
    current (sch s) = thd_nrf24_tx \<and> pcs s thd_nrf24_tx = 2 \<and> e = esDS5Ready \<and> x = thd_nrf24_tx \<and> k = EVT_DS5_READY \<or>
    current (sch s) = thd_nrf24_irq \<and> pcs s thd_nrf24_irq = 0 \<and> e = esNRF24Interrupt \<and> x = thd_nrf24_irq \<and>
      k = EVT_NRF24_INTERRUPT"
  using next_act_cases [OF assms] by (auto simp: program_def nth_Cons' split: if_splits)

lemma idle_act:
  assumes "next_act s = Some Call \<or> next_act s = None"
  shows "current (sch s) = thd_main \<longrightarrow> 6 \<le> pcs s thd_main"
    "current (sch s) = thd_usb_host \<longrightarrow> 1 \<le> pcs s thd_usb_host"
    "current (sch s) = thd_nrf24_irq \<longrightarrow> 1 \<le> pcs s thd_nrf24_irq"
proof -
  have call: "pcs s t < length (program t) \<longrightarrow> program t ! pcs s t = Call" if "current (sch s) = t" for t
    using assms that by (auto simp: next_act_def Let_def split: if_splits)
  show "current (sch s) = thd_main \<longrightarrow> 6 \<le> pcs s thd_main"
  proof (rule impI, rule ccontr)
    assume m: "current (sch s) = thd_main" and "\<not> 6 \<le> pcs s thd_main"
    then have "pcs s thd_main \<in> set [0, 1, 2, 3, 4, 5]" by auto
    then show False using call [OF m] by (auto simp: program_def)
  qed
  show "current (sch s) = thd_usb_host \<longrightarrow> 1 \<le> pcs s thd_usb_host"
    using call [of thd_usb_host] by (cases "pcs s thd_usb_host") (auto simp: program_def)
  show "current (sch s) = thd_nrf24_irq \<longrightarrow> 1 \<le> pcs s thd_nrf24_irq"
    using call [of thd_nrf24_irq] by (cases "pcs s thd_nrf24_irq") (auto simp: program_def)
qed

lemma order_inv_evs [simp]: "order_inv (s\<lparr>evs := m\<rparr>) = order_inv s"
  by (simp add: order_inv_def)

text \<open>A step of the scheduler alone keeps the rest of the state.\<close>

lemma order_inv_sch:
  assumes inv: "order_inv s" and "sched_ok c" and "prio c = thread_prio"
    and "runnable c \<subseteq> created s" and "thd_idle \<in> runnable c"
    and "pcs s thd_main < 6 \<longrightarrow> front thd_main c"
    and "3 \<le> pcs s thd_main \<longrightarrow> 1 \<le> pcs s thd_usb_host \<or> current c = thd_usb_host \<and> pcs s thd_main = 3"
    and "6 \<le> pcs s thd_main \<longrightarrow> 1 \<le> pcs s thd_nrf24_irq \<or> current c = thd_nrf24_irq"
  shows "order_inv (s\<lparr>sch := c\<rparr>)"
proof -
  have s: "sch (s\<lparr>sch := c\<rparr>) = c" "pcs (s\<lparr>sch := c\<rparr>) = pcs s" "created (s\<lparr>sch := c\<rparr>) = created s" by simp_all
  show ?thesis using assms unfolding order_inv_def s by blast
qed

lemma front_high:
  assumes "order_inv s" and "pcs s thd_main < 6"
  shows "current (sch s) = thd_main \<or> NORMALPRIO < thread_prio (current (sch s))"
proof -
  have "front thd_main (sch s)" "prio (sch s) = thread_prio" using assms by (simp_all add: order_inv_def)
  moreover have "thread_prio thd_main = NORMALPRIO" by (simp add: thread_prio_def)
  ultimately show ?thesis by (auto simp: front_def)
qed

lemma advance_inv:
  assumes inv: "order_inv s" and cur: "current (sch s) \<noteq> thd_main"
  shows "order_inv (advance s)"
proof -
  have "current (sch s) \<noteq> thd_udp_server" "current (sch s) \<noteq> thd_nrf24_tx" if "pcs s thd_main < 6"
    using front_high [OF inv that] cur by (auto simp: thread_prio_def)
  then show ?thesis using inv cur by (auto simp: order_inv_def advance_def)
qed

lemma call_inv:
  assumes inv: "order_inv s" and act: "next_act s = Some Call"
  shows "order_inv (advance s)"
proof (cases "current (sch s) = thd_main")
  case True
  then have n: "6 \<le> pcs s thd_main" "pcs s thd_main < 8" "program thd_main ! pcs s thd_main = Call"
    using idle_act(1) [of s] act next_act_cases [OF act] length_main by auto
  then have "created_by (Suc (pcs s thd_main)) = created_by (pcs s thd_main)" by (simp add: created_by_Suc)
  then show ?thesis using inv True n by (auto simp: order_inv_def advance_def)
qed (rule advance_inv [OF inv])

lemma create_ok:
  assumes "sched_ok s" and "t \<notin> runnable s"
  shows "sched_ok (create_thread t (prio s t) s)" "runnable (create_thread t (prio s t) s) = insert t (runnable s)"
    "prio (create_thread t (prio s t) s) = prio s"
proof -
  let ?s = "s\<lparr>prio := (prio s)(t := prio s t), thd_state := (thd_state s)(t := ST_WTSTART)\<rparr>"
  have "sched_ok ?s" "t \<notin> runnable ?s"
    using assms by (auto simp: sched_ok_def ready_ok_def list_ok_def states_ok_def runnable_def)
  from wakeup_ok [OF this] show "sched_ok (create_thread t (prio s t) s)"
    "runnable (create_thread t (prio s t) s) = insert t (runnable s)" "prio (create_thread t (prio s t) s) = prio s"
    by (simp_all add: create_thread_def runnable_def)
qed

lemma create_inv:
  assumes inv: "order_inv s" and act: "next_act s = Some (Create t)"
  shows "order_inv ((advance s)\<lparr>sch := create_thread t (thread_prio t) (sch s), created := insert t (created s)\<rparr>)"
proof -
  let ?n = "pcs s thd_main" and ?c = "create_thread t (thread_prio t) (sch s)"
  have a: "current (sch s) = thd_main" "?n < 8" "program thd_main ! ?n = Create t"
    using create_act [OF act] by simp_all
  note C = create_main [OF a(2,3)]
  have I: "sched_ok (sch s)" "prio (sch s) = thread_prio" "runnable (sch s) \<subseteq> created s"
    "created s = created_by ?n" "thd_idle \<in> runnable (sch s)"
    using inv by (auto simp: order_inv_def)
  have new: "t \<notin> runnable (sch s)" using I(3,4) C(1) by auto
  note W = create_ok [OF I(1) new, folded I(2)]
  have "created_by (Suc ?n) = insert t (created s)" using I(4) a by (auto simp: created_by_Suc)
  moreover have "current ?c = t" if "thread_prio thd_main < thread_prio t"
    using that I(2) a(1) by (simp add: create_thread_def wakeup_fields)
  then have "Suc ?n = 3 \<longrightarrow> current ?c = thd_usb_host" "Suc ?n = 6 \<longrightarrow> current ?c = thd_nrf24_irq"
    using C(2,3) by (auto simp: thread_prio_def)
  moreover have "3 \<le> Suc ?n \<longleftrightarrow> 3 \<le> ?n \<or> Suc ?n = 3" "6 \<le> Suc ?n \<longleftrightarrow> 6 \<le> ?n \<or> Suc ?n = 6" by linarith+
  moreover have "3 \<le> ?n \<longrightarrow> 1 \<le> pcs s thd_usb_host" "6 \<le> ?n \<longrightarrow> 1 \<le> pcs s thd_nrf24_irq"
    using inv a(1) by (auto simp: order_inv_def)
  moreover have "front thd_main ?c" unfolding create_thread_def by (rule front_wakeup) (simp add: front_def a(1))
  ultimately have
    "3 \<le> Suc ?n \<longrightarrow> 1 \<le> pcs s thd_usb_host \<or> current ?c = thd_usb_host \<and> Suc ?n = 3"
    "6 \<le> Suc ?n \<longrightarrow> 1 \<le> pcs s thd_nrf24_irq \<or> current ?c = thd_nrf24_irq"
    "created_by (Suc ?n) = insert t (created s)" "front thd_main ?c"
    by blast+
  then show ?thesis
    using inv W I a by (auto simp: order_inv_def advance_def)
qed

lemma block_inv:
  assumes inv: "order_inv s" and act: "next_act s = Some Call \<or> next_act s = None"
    and cur: "current (sch s) \<noteq> thd_idle" and x: "x \<notin> {ST_READY, ST_CURRENT}" and sleep: "chSchGoSleepS x (sch s) = Some c"
  shows "order_inv (s\<lparr>sch := c\<rparr>)"
proof (rule order_inv_sch [OF inv])
  have "ready (sch s) \<noteq> []" using sleep by (auto simp: chSchGoSleepS_def remove_highest_def)
  moreover have I: "sched_ok (sch s)" "prio (sch s) = thread_prio" "runnable (sch s) \<subseteq> created s"
    "thd_idle \<in> runnable (sch s)"
    using inv unfolding order_inv_def by blast+
  ultimately obtain c' where c': "chSchGoSleepS x (sch s) = Some c'" "sched_ok c'"
    "runnable c' = runnable (sch s) - {current (sch s)}" "prio c' = prio (sch s)"
    using go_sleep_ok [OF _ _ x] by blast
  then show "sched_ok c" "prio c = thread_prio" "runnable c \<subseteq> created s" "thd_idle \<in> runnable c"
    using sleep I cur by auto
  show "pcs s thd_main < 6 \<longrightarrow> front thd_main c"
    using front_sleep [OF _ _ sleep] inv idle_act(1) [OF act] unfolding order_inv_def by fastforce
  show "3 \<le> pcs s thd_main \<longrightarrow> 1 \<le> pcs s thd_usb_host \<or> current c = thd_usb_host \<and> pcs s thd_main = 3"
    "6 \<le> pcs s thd_main \<longrightarrow> 1 \<le> pcs s thd_nrf24_irq \<or> current c = thd_nrf24_irq"
    using inv idle_act(2,3) [OF act] unfolding order_inv_def by blast+
qed

lemma interrupt_inv:
  assumes inv: "order_inv s" and t: "t \<in> created s" "t \<notin> runnable (sch s)"
    and pre: "chSchPreemption (chSchReadyI t ((sch s)\<lparr>rdymsg := (rdymsg (sch s))(t := msg)\<rparr>)) = Some c"
  shows "order_inv (s\<lparr>sch := c\<rparr>)"
proof (rule order_inv_sch [OF inv])
  have I: "sched_ok (sch s)" "prio (sch s) = thread_prio" "created s = created_by (pcs s thd_main)"
    "runnable (sch s) \<subseteq> created s" "thd_idle \<in> runnable (sch s)"
    using inv unfolding order_inv_def by blast+
  have c: "c = chSchWakeupS t msg (sch s)" using wakeup_eq [OF I(1) t(2)] pre by (simp add: preemption_eq)
  note W = wakeup_ok [OF I(1) t(2), of msg, folded c]
  show "sched_ok c" "prio c = thread_prio" "runnable c \<subseteq> created s" "thd_idle \<in> runnable c"
    using W I(2,4,5) t(1) by auto
  show "pcs s thd_main < 6 \<longrightarrow> front thd_main c"
    using inv front_wakeup [of thd_main "sch s" t msg] by (simp add: order_inv_def c)
  have keep: "current c = current (sch s)" if "thread_prio t \<le> thread_prio (current (sch s))"
    using that I(2) by (simp add: c wakeup_fields)
  have "thread_prio t \<le> thread_prio thd_usb_host" if "pcs s thd_main = 3"
    using t(1) I(3) that by (auto simp: created_by_def program_def)
      (auto simp: thread_prio_def NORMALPRIO_def IDLEPRIO_def)
  then show "3 \<le> pcs s thd_main \<longrightarrow> 1 \<le> pcs s thd_usb_host \<or> current c = thd_usb_host \<and> pcs s thd_main = 3"
    using inv keep unfolding order_inv_def by metis
  have "thread_prio t \<le> thread_prio thd_nrf24_irq" by (simp add: thread_prio_def NORMALPRIO_def IDLEPRIO_def)
  then show "6 \<le> pcs s thd_main \<longrightarrow> 1 \<le> pcs s thd_nrf24_irq \<or> current c = thd_nrf24_irq"
    using inv keep unfolding order_inv_def by metis
qed

lemma startup_order_inv: "startup_step s s' \<Longrightarrow> order_inv s \<Longrightarrow> order_inv s'"
proof (induction rule: startup_step.induct)
  case (create s t)
  then show ?case by (rule create_inv [rotated])
next
  case (object_init s e)
  then show ?case using init_act [of s e] advance_inv by auto
next
  case (register s e x k)
  then show ?case using register_act [of s e x k] advance_inv by auto
next
  case (call_returns s)
  then show ?case by (rule call_inv [rotated])
next
  case (blocks s x c)
  then show ?case using block_inv by blast
next
  case (interrupt t s msg c)
  then show ?case using interrupt_inv by blast
next
  case (broadcast e s m')
  then show ?case by simp
qed

lemma startup0_order: "order_inv (startup0 m)"
  by (auto simp: order_inv_def startup0_def sched_ok_def ready_ok_def list_ok_def states_ok_def runnable_def created_by_def front_def thread_prio_def
      NORMALPRIO_def IDLEPRIO_def)

subsection \<open>The listeners at any time\<close>

text \<open>
  A broadcast changes flags and pending events, not the lists of listeners.
\<close>

definition same_lists :: "ev_mem \<Rightarrow> ev_mem \<Rightarrow> bool" where
  "same_lists m m' \<longleftrightarrow> sources m' = sources m \<and>
     (\<forall>x. el_next (listeners m' x) = el_next (listeners m x) \<and> el_listener (listeners m' x) = el_listener (listeners m x) \<and>
        el_events (listeners m' x) = el_events (listeners m x))"

lemma same_lists_trans: "same_lists m m' \<Longrightarrow> same_lists m' m'' \<Longrightarrow> same_lists m m''"
  unfolding same_lists_def by metis

lemma same_lists_refl [simp]: "same_lists m m"
  by (simp add: same_lists_def)

lemma same_lists_on_source: "same_lists m m' \<Longrightarrow> on_source m' e xs = on_source m e xs"
  by (simp add: same_lists_def on_source_def chain_cong [of xs m' m])

lemma same_lists_mask: "same_lists m m' \<Longrightarrow> listener_mask m' t xs = listener_mask m t xs"
  by (induction xs) (simp_all add: same_lists_def)

lemma broadcast_same_lists: "chEvtBroadcastI e m = Some (Some m') \<Longrightarrow> same_lists m m'"
proof -
  have "\<forall>m'. r = Some m' \<longrightarrow> same_lists m m'" if "broadcast_loop esp fl p m = Some r" for esp fl p m r
  proof (rule broadcast_loop.raw_induct [where P = "\<lambda>_ _ _ m r. \<forall>m'. r = Some m' \<longrightarrow> same_lists m m'", OF _ that])
    fix loop esp fl p m r
    assume IH: "\<And>esp fl p m r. loop esp fl p m = Some r \<Longrightarrow> \<forall>m'. r = Some m' \<longrightarrow> same_lists m m'"
      and body: "(if p = P_source esp then Some (Some m)
        else case p of P_listener x \<Rightarrow> let m = signal_listener fl x m in loop esp fl (el_next (listeners m x)) m
          | _ \<Rightarrow> Some None) = Some r"
    show "\<forall>m'. r = Some m' \<longrightarrow> same_lists m m'"
    proof (cases p)
      case (P_listener x)
      let ?m = "signal_listener fl x m"
      have "loop esp fl (el_next (listeners ?m x)) ?m = Some r" using body P_listener by (simp add: Let_def)
      then have "\<forall>m'. r = Some m' \<longrightarrow> same_lists ?m m'" by (rule IH)
      moreover have "same_lists m ?m" by (simp add: same_lists_def)
      ultimately show ?thesis using same_lists_trans by blast
    qed (use body in \<open>auto simp: same_lists_def split: if_splits\<close>)
  qed
  then show "chEvtBroadcastI e m = Some (Some m') \<Longrightarrow> same_lists m m'"
    by (auto simp: chEvtBroadcastI_def chEvtBroadcastFlagsI_def)
qed

lemma init_other:
  "e \<noteq> e' \<Longrightarrow> on_source (chEvtObjectInit e' m) e xs = on_source m e xs"
  "listener_mask (chEvtObjectInit e' m) t xs = listener_mask m t xs"
proof -
  show "e \<noteq> e' \<Longrightarrow> on_source (chEvtObjectInit e' m) e xs = on_source m e xs"
    using chain_cong [of xs "chEvtObjectInit e' m" m] by (simp add: on_source_def chEvtObjectInit_def)
  show "listener_mask (chEvtObjectInit e' m) t xs = listener_mask m t xs"
    by (induction xs) (simp_all add: chEvtObjectInit_def)
qed

lemma register_other:
  assumes "x \<notin> set xs"
  shows "e \<noteq> e' \<Longrightarrow> on_source (chEvtRegisterMask t e' x k m) e xs = on_source m e xs"
    "listener_mask (chEvtRegisterMask t e' x k m) u xs = listener_mask m u xs"
  using assms by (simp_all add: on_source_def chEvtRegisterMask_def chEvtRegisterMaskWithFlagsI_def chain_other listener_mask_other)

definition event_inv :: "startup \<Rightarrow> bool" where
  "event_inv s \<longleftrightarrow>
     (1 \<le> pcs s thd_nrf24_tx \<longrightarrow> 1 \<le> pcs s thd_nrf24_irq \<and> on_source (evs s) esNRF24Interrupt []) \<and>
     (1 \<le> pcs s thd_udp_server \<or> 1 \<le> pcs s thd_nrf24_tx \<longrightarrow> 1 \<le> pcs s thd_usb_host) \<and>
     (1 \<le> pcs s thd_usb_host \<longrightarrow>
        (\<exists>xs. on_source (evs s) esDS5Ready xs \<and> set xs \<subseteq> {thd_udp_server, thd_nrf24_tx} \<and>
           (thd_udp_server \<in> set xs \<longleftrightarrow> 2 \<le> pcs s thd_udp_server) \<and> (thd_nrf24_tx \<in> set xs \<longleftrightarrow> 3 \<le> pcs s thd_nrf24_tx) \<and>
           (\<forall>t\<in>set xs. listener_mask (evs s) t xs AND EVT_DS5_READY \<noteq> 0)))"

lemma event_invI:
  assumes "1 \<le> pcs s thd_nrf24_tx \<longrightarrow> 1 \<le> pcs s thd_nrf24_irq \<and> on_source (evs s) esNRF24Interrupt []"
    and "1 \<le> pcs s thd_udp_server \<or> 1 \<le> pcs s thd_nrf24_tx \<longrightarrow> 1 \<le> pcs s thd_usb_host"
    and "on_source (evs s) esDS5Ready xs" and "set xs \<subseteq> {thd_udp_server, thd_nrf24_tx}"
    and "thd_udp_server \<in> set xs \<longleftrightarrow> 2 \<le> pcs s thd_udp_server" and "thd_nrf24_tx \<in> set xs \<longleftrightarrow> 3 \<le> pcs s thd_nrf24_tx"
    and "\<forall>t\<in>set xs. listener_mask (evs s) t xs AND EVT_DS5_READY \<noteq> 0"
  shows "event_inv s"
  using assms unfolding event_inv_def by blast

text \<open>A step of a thread that changes no list: only the places of the threads move.\<close>

lemma event_inv_same:
  assumes inv: "event_inv s" and ev: "same_lists (evs s) (evs s')"
    and "1 \<le> pcs s' thd_nrf24_tx \<longleftrightarrow> 1 \<le> pcs s thd_nrf24_tx" "3 \<le> pcs s' thd_nrf24_tx \<longleftrightarrow> 3 \<le> pcs s thd_nrf24_tx"
    and "2 \<le> pcs s' thd_udp_server \<longleftrightarrow> 2 \<le> pcs s thd_udp_server"
    and "1 \<le> pcs s' thd_usb_host \<longleftrightarrow> 1 \<le> pcs s thd_usb_host" "1 \<le> pcs s thd_nrf24_irq \<longrightarrow> 1 \<le> pcs s' thd_nrf24_irq"
    and "1 \<le> pcs s' thd_udp_server \<longrightarrow> 1 \<le> pcs s thd_usb_host"
  shows "event_inv s'"
  using assms(3-) inv same_lists_on_source [OF ev] same_lists_mask [OF ev] unfolding event_inv_def by metis

lemma consumer_runs:
  assumes inv: "order_inv s" and cur: "current (sch s) \<in> {thd_udp_server, thd_nrf24_tx}"
  shows "1 \<le> pcs s thd_usb_host" "1 \<le> pcs s thd_nrf24_irq"
proof -
  have "\<not> pcs s thd_main < 6" using front_high [OF inv] cur by (auto simp: thread_prio_def)
  then show "1 \<le> pcs s thd_usb_host" "1 \<le> pcs s thd_nrf24_irq"
    using inv cur by (auto simp: order_inv_def)
qed

lemma call_act:
  assumes "next_act s = Some Call"
  shows "(current (sch s), pcs s (current (sch s))) \<in> {(thd_main, 6), (thd_usb_host, 1), (thd_udp_server, 0),
    (thd_udp_server, 2), (thd_nrf24_tx, 1), (thd_nrf24_tx, 3)}"
  using next_act_cases [OF assms] by (auto simp: program_def nth_Cons' split: if_splits)

lemma event_started:
  "event_inv s \<Longrightarrow> 1 \<le> pcs s thd_udp_server \<or> 1 \<le> pcs s thd_nrf24_tx \<Longrightarrow> 1 \<le> pcs s thd_usb_host"
  "event_inv s \<Longrightarrow> 1 \<le> pcs s thd_nrf24_tx \<Longrightarrow> 1 \<le> pcs s thd_nrf24_irq \<and> on_source (evs s) esNRF24Interrupt []"
  unfolding event_inv_def by blast+

lemma event_not_started:
  "event_inv s \<Longrightarrow> pcs s thd_usb_host = 0 \<Longrightarrow> pcs s thd_udp_server = 0 \<and> pcs s thd_nrf24_tx = 0"
  using event_started(1) [of s] by (cases "pcs s thd_udp_server"; cases "pcs s thd_nrf24_tx") simp_all

lemma event_create:
  assumes inv: "event_inv s" and "next_act s = Some (Create t)"
  shows "event_inv ((advance s)\<lparr>sch := c, created := d\<rparr>)"
  using create_act [OF assms(2)] event_started(1) [OF inv]
  by (intro event_inv_same [OF inv]) (simp_all add: advance_def)

lemma event_call:
  assumes inv: "event_inv s" and ord: "order_inv s" and act: "next_act s = Some Call"
  shows "event_inv (advance s)"
proof (rule event_inv_same [OF inv])
  show "1 \<le> pcs (advance s) thd_udp_server \<longrightarrow> 1 \<le> pcs s thd_usb_host"
    using consumer_runs(1) [OF ord] event_started(1) [OF inv] by (auto simp: advance_def)
qed (use call_act [OF act] in \<open>auto simp: advance_def\<close>)

lemma event_lists:
  assumes "event_inv s" and "1 \<le> pcs s thd_usb_host"
  obtains xs where "on_source (evs s) esDS5Ready xs" "set xs \<subseteq> {thd_udp_server, thd_nrf24_tx}"
    "thd_udp_server \<in> set xs \<longleftrightarrow> 2 \<le> pcs s thd_udp_server" "thd_nrf24_tx \<in> set xs \<longleftrightarrow> 3 \<le> pcs s thd_nrf24_tx"
    "\<forall>t\<in>set xs. listener_mask (evs s) t xs AND EVT_DS5_READY \<noteq> 0"
  using assms unfolding event_inv_def by blast

lemma event_init:
  assumes inv: "event_inv s" and ord: "order_inv s" and act: "next_act s = Some (ObjectInit e)"
  shows "event_inv ((advance s)\<lparr>evs := chEvtObjectInit e (evs s)\<rparr>)" (is "event_inv ?s")
proof -
  consider (usb) "current (sch s) = thd_usb_host" "pcs s thd_usb_host = 0" "e = esDS5Ready"
    | (tx) "current (sch s) = thd_nrf24_tx" "pcs s thd_nrf24_tx = 0" "e = esNRF24Interrupt"
    using init_act [OF act] by auto
  then show ?thesis
  proof cases
    case usb
    then have "pcs s thd_udp_server = 0" "pcs s thd_nrf24_tx = 0" using event_not_started [OF inv] by simp_all
    then show ?thesis
      using usb ch_events.init_listens [of esDS5Ready "evs s"] by (intro event_invI [of ?s "[]"]) (simp_all add: advance_def)
  next
    case tx
    have run: "1 \<le> pcs s thd_usb_host" "1 \<le> pcs s thd_nrf24_irq" using consumer_runs [OF ord] tx(1) by simp_all
    obtain xs where "on_source (evs s) esDS5Ready xs" "set xs \<subseteq> {thd_udp_server, thd_nrf24_tx}"
      "thd_udp_server \<in> set xs \<longleftrightarrow> 2 \<le> pcs s thd_udp_server" "thd_nrf24_tx \<in> set xs \<longleftrightarrow> 3 \<le> pcs s thd_nrf24_tx"
      "\<forall>t\<in>set xs. listener_mask (evs s) t xs AND EVT_DS5_READY \<noteq> 0"
      by (rule event_lists [OF inv run(1)])
    then show ?thesis
      using tx run ch_events.init_listens [of esNRF24Interrupt "evs s"]
      by (intro event_invI [of ?s xs]) (simp_all add: advance_def init_other)
  qed
qed

text \<open>A consumer that registers for new controller data.\<close>

lemma register_consumer:
  assumes "on_source m esDS5Ready xs" and "t \<notin> set xs" and "\<forall>u\<in>set xs. listener_mask m u xs AND EVT_DS5_READY \<noteq> 0"
  shows "on_source (chEvtRegisterMask t esDS5Ready t EVT_DS5_READY m) esDS5Ready (t # xs)"
    "\<forall>u\<in>set (t # xs). listener_mask (chEvtRegisterMask t esDS5Ready t EVT_DS5_READY m) u (t # xs) AND EVT_DS5_READY \<noteq> 0"
proof -
  show "on_source (chEvtRegisterMask t esDS5Ready t EVT_DS5_READY m) esDS5Ready (t # xs)"
    using assms(1,2) by (rule ch_events.register_listens)
  have "(k OR y) AND 1 \<noteq> 0" if "k AND 1 \<noteq> 0 \<or> y AND 1 \<noteq> 0" for k y :: u32
    using that by (auto simp: bit.conj_disj_distrib2 or_eq_0_iff)
  then show "\<forall>u\<in>set (t # xs). listener_mask (chEvtRegisterMask t esDS5Ready t EVT_DS5_READY m) u (t # xs) AND EVT_DS5_READY \<noteq> 0"
    using assms(2,3) by (auto simp: ch_events.register_mask simp del: listener_mask.simps)
qed

lemma event_register:
  assumes inv: "event_inv s" and ord: "order_inv s" and act: "next_act s = Some (RegisterMask e x k)"
  shows "event_inv ((advance s)\<lparr>evs := chEvtRegisterMask (current (sch s)) e x k (evs s)\<rparr>)" (is "event_inv ?s")
proof (cases "1 \<le> pcs s thd_usb_host")
  case False
  then have none: "pcs s thd_udp_server = 0" "pcs s thd_nrf24_tx = 0" "pcs s thd_usb_host = 0"
    using event_not_started [OF inv] by (simp_all add: not_less_eq_eq)
  then have "current (sch s) = thd_nrf24_irq" using register_act [OF act] by auto
  then show ?thesis using none by (simp add: event_inv_def advance_def)
next
  case True
  obtain xs where xs: "on_source (evs s) esDS5Ready xs" "set xs \<subseteq> {thd_udp_server, thd_nrf24_tx}"
    "thd_udp_server \<in> set xs \<longleftrightarrow> 2 \<le> pcs s thd_udp_server" "thd_nrf24_tx \<in> set xs \<longleftrightarrow> 3 \<le> pcs s thd_nrf24_tx"
    "\<forall>t\<in>set xs. listener_mask (evs s) t xs AND EVT_DS5_READY \<noteq> 0"
    by (rule event_lists [OF inv True])
  note tx = event_started(2) [OF inv]
  consider (udp) "current (sch s) = thd_udp_server" "pcs s thd_udp_server = 1" "e = esDS5Ready" "x = thd_udp_server"
      "k = EVT_DS5_READY"
    | (tx) "current (sch s) = thd_nrf24_tx" "pcs s thd_nrf24_tx = 2" "e = esDS5Ready" "x = thd_nrf24_tx" "k = EVT_DS5_READY"
    | (irq) "current (sch s) = thd_nrf24_irq" "pcs s thd_nrf24_irq = 0" "e = esNRF24Interrupt" "x = thd_nrf24_irq"
    using register_act [OF act] by auto
  then show ?thesis
  proof cases
    case udp
    have "thd_udp_server \<notin> set xs" using xs(3) udp(2) by simp
    note R = register_consumer [OF xs(1) this xs(5)]
    show ?thesis
      using R xs(2-4) udp True tx by (intro event_invI [of ?s "thd_udp_server # xs"])
        (simp_all add: advance_def register_other del: listener_mask.simps)
  next
    case tx
    have "thd_nrf24_tx \<notin> set xs" using xs(4) tx(2) by simp
    note R = register_consumer [OF xs(1) this xs(5)]
    show ?thesis
      using R xs(2-4) tx True event_started(2) [OF inv] by (intro event_invI [of ?s "thd_nrf24_tx # xs"])
        (simp_all add: advance_def register_other del: listener_mask.simps)
  next
    case irq
    have "thd_nrf24_irq \<notin> set xs" using xs(2) by auto
    moreover have "pcs s thd_nrf24_tx = 0" using tx irq(2) by (cases "pcs s thd_nrf24_tx") auto
    ultimately show ?thesis
      using xs irq True by (intro event_invI [of ?s xs]) (simp_all add: advance_def register_other)
  qed
qed

lemma startup_event_inv:
  assumes "startup_step s s'" and "event_inv s" and "order_inv s"
  shows "event_inv s'"
  using assms
proof (induction rule: startup_step.induct)
  case (create s t)
  then show ?case by (intro event_create)
next
  case (object_init s e)
  then show ?case by (intro event_init)
next
  case (register s e x k)
  then show ?case by (intro event_register)
next
  case (call_returns s)
  then show ?case by (intro event_call)
next
  case (blocks s x c)
  then show ?case by (simp add: event_inv_def)
next
  case (interrupt t s msg c)
  then show ?case by (simp add: event_inv_def)
next
  case (broadcast e s m')
  then show ?case
    using event_started(1) [OF broadcast(2)] broadcast_same_lists
    by (intro event_inv_same [OF broadcast(2)]) simp_all
qed

lemma startup_reachable:
  assumes "startup_step\<^sup>*\<^sup>* (startup0 m) s"
  shows "order_inv s \<and> event_inv s"
  using assms
proof (induction rule: rtranclp_induct)
  case base
  then show ?case using startup0_order by (simp add: event_inv_def startup0_def)
next
  case (step s s')
  then show ?case using startup_order_inv startup_event_inv by blast
qed

text \<open>
  What holds at every moment of the start-up, whatever blocks and whatever interrupts arrive: once
  the radio thread has started, the interrupt thread has registered and been forgotten again, so
  that a radio interrupt notifies nobody; a consumer that has registered for controller data stays
  subscribed.
\<close>

text \<open>C16. Whatever blocks and whatever interrupts arrive while main creates the threads: once
  NRF24TxThread has started, NRF24InterruptThread has already registered and its registration is
  lost, so that a broadcast on the radio event source returns and notifies nobody; a consumer
  that has registered for controller data stays subscribed.\<close>

theorem startup_order:
  assumes "startup_step\<^sup>*\<^sup>* (startup0 m) s"
  shows "(1 \<le> pcs s thd_nrf24_tx \<longrightarrow>
      1 \<le> pcs s thd_nrf24_irq \<and> chEvtBroadcastI esNRF24Interrupt (evs s) = Some (Some (evs s))) \<and>
    (2 \<le> pcs s thd_udp_server \<longrightarrow> subscribed thd_udp_server (evs s)) \<and>
    (3 \<le> pcs s thd_nrf24_tx \<longrightarrow> subscribed thd_nrf24_tx (evs s))"
proof (intro conjI impI)
  have inv: "event_inv s" using startup_reachable [OF assms] by simp
  {
    assume "1 \<le> pcs s thd_nrf24_tx"
    then have o: "1 \<le> pcs s thd_nrf24_irq" "on_source (evs s) esNRF24Interrupt []" using event_started(2) [OF inv] by simp_all
    then show "1 \<le> pcs s thd_nrf24_irq" by simp
    show "chEvtBroadcastI esNRF24Interrupt (evs s) = Some (Some (evs s))"
      using o(2) broadcast_loop_chain [of "evs s" esNRF24Interrupt "sources (evs s) esNRF24Interrupt" "[]" 0]
      by (simp add: on_source_def chEvtBroadcastI_def chEvtBroadcastFlagsI_def)
  }
  show "subscribed thd_udp_server (evs s)" if "2 \<le> pcs s thd_udp_server"
  proof -
    have "1 \<le> pcs s thd_usb_host" using event_started(1) [OF inv] that by simp
    from event_lists [OF inv this] that show ?thesis unfolding subscribed_def by metis
  qed
  show "subscribed thd_nrf24_tx (evs s)" if "3 \<le> pcs s thd_nrf24_tx"
  proof -
    have "1 \<le> pcs s thd_usb_host" using event_started(1) [OF inv] that by simp
    from event_lists [OF inv this] that show ?thesis unfolding subscribed_def by metis
  qed
qed

subsection \<open>A complete start-up\<close>

text \<open>
  The steps of the current thread as a function: it acts or it blocks.
\<close>

definition run_step :: "bool \<Rightarrow> startup \<Rightarrow> startup option" where
  "run_step act s =
     (if act then
        (case next_act s of
           Some (Create t) \<Rightarrow> Some ((advance s)\<lparr>sch := create_thread t (thread_prio t) (sch s), created := insert t (created s)\<rparr>)
         | Some (ObjectInit e) \<Rightarrow> Some ((advance s)\<lparr>evs := chEvtObjectInit e (evs s)\<rparr>)
         | Some (RegisterMask e x k) \<Rightarrow> Some ((advance s)\<lparr>evs := chEvtRegisterMask (current (sch s)) e x k (evs s)\<rparr>)
         | Some Call \<Rightarrow> Some (advance s)
         | None \<Rightarrow> None)
      else if (next_act s = Some Call \<or> next_act s = None) \<and> current (sch s) \<noteq> thd_idle
        then map_option (\<lambda>c. s\<lparr>sch := c\<rparr>) (chSchGoSleepS ST_SLEEPING (sch s))
      else None)"

fun run :: "bool list \<Rightarrow> startup \<Rightarrow> startup option" where
  "run [] s = Some s"
| "run (b # bs) s = (case run_step b s of None \<Rightarrow> None | Some s' \<Rightarrow> run bs s')"

lemma run_step_sound: "run_step b s = Some s' \<Longrightarrow> startup_step s s'"
  by (auto simp: run_step_def intro: startup_step.intros split: if_splits option.splits act.splits)

lemma run_sound: "run bs s = Some s' \<Longrightarrow> startup_step\<^sup>*\<^sup>* s s'"
proof (induction bs arbitrary: s)
  case (Cons b bs)
  then obtain s1 where "run_step b s = Some s1" "run bs s1 = Some s'" by (auto split: option.splits)
  then show ?case using Cons.IH run_step_sound converse_rtranclp_into_rtranclp [of startup_step] by blast
qed simp

definition no_events :: ev_mem where
  "no_events = \<lparr>sources = (\<lambda>_. P_null), listeners = (\<lambda>_. \<lparr>el_next = P_null, el_listener = 0, el_events = 0, el_flags = 0, el_wflags = 0\<rparr>),
     threads = (\<lambda>_. \<lparr>tstate = CH_STATE_READY, epending = 0, ewmask = 0\<rparr>)\<rparr>"

definition schedule :: "bool list" where
  "schedule = [True, False, True, True, True, False, True, True, True, True, False, True, True, False, False, False,
     True, True, True, False, True, True, True, True, False]"

text \<open>A run of the whole start-up, after which every thread sleeps.\<close>

theorem startup_order_witness:
  "let s = the (run schedule (startup0 no_events)) in
     current (sch s) = thd_idle \<and> 1 \<le> pcs s thd_nrf24_irq \<and> chEvtBroadcastI esNRF24Interrupt (evs s) = Some (Some (evs s)) \<and>
     subscribed thd_udp_server (evs s) \<and> subscribed thd_nrf24_tx (evs s)"
proof -
  have "case run schedule (startup0 no_events) of None \<Rightarrow> False
      | Some s \<Rightarrow> current (sch s) = thd_idle \<and> 3 \<le> pcs s thd_nrf24_tx \<and> 2 \<le> pcs s thd_udp_server"
    by code_simp
  then obtain s where s: "run schedule (startup0 no_events) = Some s" "current (sch s) = thd_idle"
    "3 \<le> pcs s thd_nrf24_tx" "2 \<le> pcs s thd_udp_server"
    by (auto split: option.splits)
  then show ?thesis using startup_order [OF run_sound [OF s(1)]] by (simp add: Let_def)
qed

end
