(* ===== verification/Ch_Mutex.thy ===== *)
theory Ch_Mutex
  imports Ch_Sched
begin

text \<open>
  The mutexes of ChibiOS/RT, \<^verbatim>\<open>os/rt/src/chmtx.c\<close>, not recursive and with condition variables, as
  \<^verbatim>\<open>cfg/chconf.h\<close> sets it. The state extends the scheduler by the owners of the mutexes, their wait
  queues, the lists of owned mutexes as the code links them (\<open>mtxlist\<close> and \<open>mtx_next\<close>), the priorities
  without inheritance and the object a thread waits for. The locking of the kernel is the
  atomicity of the definitions; \<open>None\<close> is the use of a null pointer, or the end of all threads.
\<close>

subsection \<open>State and operations\<close>

record mtx_kernel =
  kern :: sched
  mtx_owner :: "nat \<Rightarrow> nat option"
  wait_queue :: "nat \<Rightarrow> nat list"
  cond_queue :: "nat \<Rightarrow> nat list"
  mtx_next :: "nat \<Rightarrow> nat option"
  mtxlist :: "nat \<Rightarrow> nat option"
  realprio :: "nat \<Rightarrow> nat"
  wtobj :: "nat \<Rightarrow> nat"

definition ch_sch_prio_insert :: "(nat \<Rightarrow> nat) \<Rightarrow> nat \<Rightarrow> nat list \<Rightarrow> nat list" where
  "ch_sch_prio_insert pr tp q = takeWhile (\<lambda>cp. pr cp \<ge> pr tp) q @ tp # dropWhile (\<lambda>cp. pr cp \<ge> pr tp) q"

definition set_prio :: "nat \<Rightarrow> nat \<Rightarrow> mtx_kernel \<Rightarrow> mtx_kernel" where
  "set_prio tp p k = k\<lparr>kern := (kern k)\<lparr>prio := (prio (kern k))(tp := p)\<rparr>\<rparr>"

definition chMtxObjectInit :: "nat \<Rightarrow> mtx_kernel \<Rightarrow> mtx_kernel" where
  "chMtxObjectInit mp k = k\<lparr>wait_queue := (wait_queue k)(mp := []), mtx_owner := (mtx_owner k)(mp := None)\<rparr>"

text \<open>\<open>ch_queue_dequeue\<close> and \<open>ch_sch_prio_insert\<close> on the queue of the object a thread waits for.\<close>

definition requeue :: "(nat \<Rightarrow> nat) \<Rightarrow> nat \<Rightarrow> nat \<Rightarrow> (nat \<Rightarrow> nat list) \<Rightarrow> nat \<Rightarrow> nat list" where
  "requeue pr tp m q = q(m := ch_sch_prio_insert pr tp (remove1 tp (q m)))"

partial_function (option) inherit_prio :: "nat \<Rightarrow> nat \<Rightarrow> mtx_kernel \<Rightarrow> mtx_kernel option" where
  "inherit_prio p tp k =
     (if prio (kern k) tp < p then
        let k = set_prio tp p k in
        (case thd_state (kern k) tp of
           ST_WTMTX \<Rightarrow>
             (let k = k\<lparr>wait_queue := requeue (prio (kern k)) tp (wtobj k tp) (wait_queue k)\<rparr> in
              case mtx_owner k (wtobj k tp) of None \<Rightarrow> None | Some ow \<Rightarrow> inherit_prio p ow k)
         | ST_WTCOND \<Rightarrow> Some (k\<lparr>cond_queue := requeue (prio (kern k)) tp (wtobj k tp) (cond_queue k)\<rparr>)
         | ST_READY \<Rightarrow> Some (k\<lparr>kern := chSchReadyI tp ((kern k)\<lparr>ready := remove1 tp (ready (kern k))\<rparr>)\<rparr>)
         | _ \<Rightarrow> Some k)
      else Some k)"

definition take_mutex :: "nat \<Rightarrow> mtx_kernel \<Rightarrow> mtx_kernel" where
  "take_mutex mp k = (let currtp = current (kern k) in
     k\<lparr>mtx_owner := (mtx_owner k)(mp := Some currtp), mtx_next := (mtx_next k)(mp := mtxlist k currtp),
       mtxlist := (mtxlist k)(currtp := Some mp)\<rparr>)"

definition chMtxLockS :: "nat \<Rightarrow> mtx_kernel \<Rightarrow> mtx_kernel option" where
  "chMtxLockS mp k = (let currtp = current (kern k) in
     case mtx_owner k mp of
       Some tp \<Rightarrow> do {
         k \<leftarrow> inherit_prio (prio (kern k) currtp) tp k;
         let k = k\<lparr>wait_queue := (wait_queue k)(mp := ch_sch_prio_insert (prio (kern k)) currtp (wait_queue k mp)),
                   wtobj := (wtobj k)(currtp := mp)\<rparr>;
         s \<leftarrow> chSchGoSleepS ST_WTMTX (kern k);
         Some (k\<lparr>kern := s\<rparr>) }
     | None \<Rightarrow> Some (take_mutex mp k))"

definition chMtxTryLockS :: "nat \<Rightarrow> mtx_kernel \<Rightarrow> bool \<times> mtx_kernel" where
  "chMtxTryLockS mp k = (case mtx_owner k mp of Some _ \<Rightarrow> (False, k) | None \<Rightarrow> (True, take_mutex mp k))"

partial_function (option) waiting_prio :: "mtx_kernel \<Rightarrow> nat option \<Rightarrow> nat \<Rightarrow> nat option" where
  "waiting_prio k lmp newprio =
     (case lmp of
        None \<Rightarrow> Some newprio
      | Some m \<Rightarrow> waiting_prio k (mtx_next k m)
          (case wait_queue k m of
             [] \<Rightarrow> newprio
           | w # _ \<Rightarrow> if prio (kern k) w > newprio then prio (kern k) w else newprio))"

definition pop_mutex :: "nat \<Rightarrow> mtx_kernel \<Rightarrow> mtx_kernel" where
  "pop_mutex mp k = k\<lparr>mtxlist := (mtxlist k)(current (kern k) := mtx_next k mp)\<rparr>"

definition hand_over :: "nat \<Rightarrow> nat \<Rightarrow> nat list \<Rightarrow> mtx_kernel \<Rightarrow> mtx_kernel" where
  "hand_over mp tp q k = (let k =
     k\<lparr>wait_queue := (wait_queue k)(mp := q), mtx_owner := (mtx_owner k)(mp := Some tp),
       mtx_next := (mtx_next k)(mp := mtxlist k tp), mtxlist := (mtxlist k)(tp := Some mp)\<rparr> in
     k\<lparr>kern := chSchReadyI tp (kern k)\<rparr>)"

definition drop_mutex :: "nat \<Rightarrow> mtx_kernel \<Rightarrow> mtx_kernel" where
  "drop_mutex mp k = k\<lparr>mtx_owner := (mtx_owner k)(mp := None)\<rparr>"

text \<open>The common part of the two unlock functions; the result tells whether a thread got the mutex.\<close>

definition release_mutex :: "nat \<Rightarrow> mtx_kernel \<Rightarrow> (bool \<times> mtx_kernel) option" where
  "release_mutex mp k = (let currtp = current (kern k); k = pop_mutex mp k in
     case wait_queue k mp of
       [] \<Rightarrow> Some (False, drop_mutex mp k)
     | tp # q \<Rightarrow> do {
         newprio \<leftarrow> waiting_prio k (mtxlist k currtp) (realprio k currtp);
         Some (True, hand_over mp tp q (set_prio currtp newprio k)) })"

definition chMtxUnlockS :: "nat \<Rightarrow> mtx_kernel \<Rightarrow> mtx_kernel option" where
  "chMtxUnlockS mp k = map_option snd (release_mutex mp k)"

definition chMtxUnlock :: "nat \<Rightarrow> mtx_kernel \<Rightarrow> mtx_kernel option" where
  "chMtxUnlock mp k = do {
     (handed, k) \<leftarrow> release_mutex mp k;
     if handed then do { s \<leftarrow> chSchRescheduleS (kern k); Some (k\<lparr>kern := s\<rparr>) } else Some k }"

partial_function (option) unlock_all_loop :: "mtx_kernel \<Rightarrow> mtx_kernel option" where
  "unlock_all_loop k =
     (case mtxlist k (current (kern k)) of
        None \<Rightarrow> Some k
      | Some mp \<Rightarrow> let k = pop_mutex mp k in
          unlock_all_loop (case wait_queue k mp of [] \<Rightarrow> drop_mutex mp k | tp # q \<Rightarrow> hand_over mp tp q k))"

definition chMtxUnlockAllS :: "mtx_kernel \<Rightarrow> mtx_kernel option" where
  "chMtxUnlockAllS k =
     (case mtxlist k (current (kern k)) of
        None \<Rightarrow> Some k
      | Some _ \<Rightarrow> do {
          k \<leftarrow> unlock_all_loop k;
          let k = set_prio (current (kern k)) (realprio k (current (kern k))) k;
          s \<leftarrow> chSchRescheduleS (kern k);
          Some (k\<lparr>kern := s\<rparr>) })"

subsection \<open>Priorities\<close>

text \<open>
  \<open>inherits\<close>: a priority is the highest of the own one and those of the threads that wait for the
  thread, where \<open>R w t\<close> says that \<open>w\<close> waits for a mutex of \<open>t\<close>. While the locking thread of priority
  \<open>p\<close> boosts the owner \<open>o0\<close> of its mutex, the owner of that owner's mutex and so on, the thread
  \<open>tp\<close> that comes next is the only exception (\<open>boosting\<close>).
\<close>

definition inherits :: "(nat \<Rightarrow> nat \<Rightarrow> bool) \<Rightarrow> (nat \<Rightarrow> nat) \<Rightarrow> (nat \<Rightarrow> nat) \<Rightarrow> bool" where
  "inherits R rp pr \<longleftrightarrow> (\<forall>t. rp t \<le> pr t) \<and> (\<forall>w t. R w t \<longrightarrow> pr w \<le> pr t) \<and>
     (\<forall>t. pr t = rp t \<or> (\<exists>w. R w t \<and> pr w = pr t))"

definition boosting :: "(nat \<Rightarrow> nat \<Rightarrow> bool) \<Rightarrow> (nat \<Rightarrow> nat) \<Rightarrow> nat \<Rightarrow> nat \<Rightarrow> nat \<Rightarrow> (nat \<Rightarrow> nat) \<Rightarrow> bool" where
  "boosting R rp p o0 tp pr \<longleftrightarrow> (\<forall>t. rp t \<le> pr t) \<and> (\<forall>w t. R w t \<longrightarrow> pr w \<le> pr t \<or> t = tp \<and> pr w = p) \<and>
     (\<forall>t. pr t = rp t \<or> (\<exists>w. R w t \<and> pr w = pr t) \<or> t = o0 \<and> pr t = p \<or> t = tp \<and> pr t < p) \<and>
     (tp = o0 \<or> pr o0 \<ge> p \<and> (\<exists>w. R w tp \<and> pr w = p))"

definition boosted :: "(nat \<Rightarrow> nat \<Rightarrow> bool) \<Rightarrow> (nat \<Rightarrow> nat) \<Rightarrow> nat \<Rightarrow> nat \<Rightarrow> (nat \<Rightarrow> nat) \<Rightarrow> bool" where
  "boosted R rp p o0 pr \<longleftrightarrow> (\<forall>t. rp t \<le> pr t) \<and> (\<forall>w t. R w t \<longrightarrow> pr w \<le> pr t) \<and>
     (\<forall>t. pr t = rp t \<or> (\<exists>w. R w t \<and> pr w = pr t) \<or> t = o0 \<and> pr t = p) \<and> pr o0 \<ge> p"

lemma boosting_start: "inherits R rp pr \<Longrightarrow> boosting R rp p o0 o0 pr"
  by (simp add: inherits_def boosting_def) blast

lemma boosting_next:
  assumes "boosting R rp p o0 tp pr" and "pr tp < p" and "\<And>t. R tp t \<longleftrightarrow> t = ow"
  shows "boosting R rp p o0 ow (pr(tp := p))"
proof -
  have up: "\<And>w t. R w t \<Longrightarrow> pr w \<le> pr t \<or> t = tp \<and> pr w = p" and low: "\<And>t. rp t \<le> pr t"
    and just: "\<And>t. pr t = rp t \<or> (\<exists>w. R w t \<and> pr w = pr t) \<or> t = o0 \<and> pr t = p \<or> t = tp \<and> pr t < p"
    and src: "tp = o0 \<or> pr o0 \<ge> p \<and> (\<exists>w. R w tp \<and> pr w = p)"
    using assms(1) unfolding boosting_def by blast+
  have "rp t \<le> (pr(tp := p)) t" for t using low [of t] assms(2) by auto
  moreover have "(pr(tp := p)) w \<le> (pr(tp := p)) t \<or> t = ow \<and> (pr(tp := p)) w = p" if "R w t" for w t
  proof (cases "w = tp")
    case True
    then show ?thesis using that assms(3) by simp
  next
    case False
    then show ?thesis using up [OF that] assms(2) by (cases "t = tp") auto
  qed
  moreover have "(pr(tp := p)) t = rp t \<or> (\<exists>w. R w t \<and> (pr(tp := p)) w = (pr(tp := p)) t) \<or> t = o0 \<and> (pr(tp := p)) t = p \<or>
      t = ow \<and> (pr(tp := p)) t < p" for t
  proof (cases "t = tp")
    case True
    then show ?thesis using src assms(2) by auto
  next
    case False
    then have e: "(pr(tp := p)) t = pr t" by simp
    have "(\<exists>w. R w t \<and> (pr(tp := p)) w = pr t) \<or> t = ow \<and> pr t < p" if "R w t" "pr w = pr t" for w
      using that assms(2,3) by (cases "w = tp") auto
    then show ?thesis unfolding e using just [of t] False by blast
  qed
  moreover have "ow = o0 \<or> (pr(tp := p)) o0 \<ge> p \<and> (\<exists>w. R w ow \<and> (pr(tp := p)) w = p)"
    using src assms(2,3) by auto
  ultimately show ?thesis unfolding boosting_def by blast
qed

lemma boosting_last:
  assumes "boosting R rp p o0 tp pr" and "pr tp < p" and "\<And>t. \<not> R tp t"
  shows "boosted R rp p o0 (pr(tp := p))"
proof -
  have up: "\<And>w t. R w t \<Longrightarrow> pr w \<le> pr t \<or> t = tp \<and> pr w = p" and low: "\<And>t. rp t \<le> pr t"
    and just: "\<And>t. pr t = rp t \<or> (\<exists>w. R w t \<and> pr w = pr t) \<or> t = o0 \<and> pr t = p \<or> t = tp \<and> pr t < p"
    and src: "tp = o0 \<or> pr o0 \<ge> p \<and> (\<exists>w. R w tp \<and> pr w = p)"
    using assms(1) unfolding boosting_def by blast+
  have "rp t \<le> (pr(tp := p)) t" for t using low [of t] assms(2) by auto
  moreover have "(pr(tp := p)) w \<le> (pr(tp := p)) t" if "R w t" for w t
    using up [OF that] that assms(2,3) by (cases "t = tp") auto
  moreover have "(pr(tp := p)) t = rp t \<or> (\<exists>w. R w t \<and> (pr(tp := p)) w = (pr(tp := p)) t) \<or> t = o0 \<and> (pr(tp := p)) t = p" for t
  proof (cases "t = tp")
    case True
    then show ?thesis using src assms(3) by (metis fun_upd_apply)
  next
    case False
    then show ?thesis using just [of t] assms(3) by (metis fun_upd_apply)
  qed
  moreover have "(pr(tp := p)) o0 \<ge> p" using src by auto
  ultimately show ?thesis unfolding boosted_def by blast
qed

lemma boosting_stop: "boosting R rp p o0 tp pr \<Longrightarrow> \<not> pr tp < p \<Longrightarrow> boosted R rp p o0 pr"
proof -
  assume b: "boosting R rp p o0 tp pr" "\<not> pr tp < p"
  have "\<forall>w t. R w t \<longrightarrow> pr w \<le> pr t" using b unfolding boosting_def by fastforce
  moreover have "\<forall>t. pr t = rp t \<or> (\<exists>w. R w t \<and> pr w = pr t) \<or> t = o0 \<and> pr t = p" using b unfolding boosting_def by blast
  moreover have "pr o0 \<ge> p" "\<forall>t. rp t \<le> pr t" using b unfolding boosting_def by auto
  ultimately show ?thesis unfolding boosted_def by blast
qed

text \<open>The locking thread \<open>c\<close> joins the waiting threads of \<open>o0\<close>.\<close>

lemma boosted_joins:
  assumes "boosted R rp (pr c) o0 pr"
  shows "inherits (\<lambda>w t. R w t \<or> w = c \<and> t = o0) rp pr"
  using assms unfolding boosted_def inherits_def by metis

subsection \<open>The invariant\<close>

text \<open>\<open>w\<close> waits for a mutex of \<open>t\<close>.\<close>

definition waits :: "mtx_kernel \<Rightarrow> nat \<Rightarrow> nat \<Rightarrow> bool" where
  "waits k w t \<longleftrightarrow> (\<exists>m. w \<in> set (wait_queue k m) \<and> mtx_owner k m = Some t)"

definition queue_ok :: "(nat \<Rightarrow> nat) \<Rightarrow> nat list \<Rightarrow> bool" where
  "queue_ok pr q \<longleftrightarrow> sorted_wrt (\<lambda>x y. pr x \<ge> pr y) q \<and> distinct q"

definition queues_ok :: "mtx_kernel \<Rightarrow> bool" where
  "queues_ok k \<longleftrightarrow> (\<forall>m. queue_ok (prio (kern k)) (wait_queue k m)) \<and> (\<forall>m. queue_ok (prio (kern k)) (cond_queue k m)) \<and>
     (\<forall>m t. t \<in> set (wait_queue k m) \<longleftrightarrow> thd_state (kern k) t = ST_WTMTX \<and> wtobj k t = m) \<and>
     (\<forall>m t. t \<in> set (cond_queue k m) \<longleftrightarrow> thd_state (kern k) t = ST_WTCOND \<and> wtobj k t = m) \<and>
     (\<forall>m. mtx_owner k m = None \<longrightarrow> wait_queue k m = []) \<and> finite {t. thd_state (kern k) t = ST_WTMTX}"

text \<open>The linked list from \<open>h\<close> on.\<close>

primrec chain :: "(nat \<Rightarrow> nat option) \<Rightarrow> nat option \<Rightarrow> nat list \<Rightarrow> bool" where
  "chain nx h [] \<longleftrightarrow> h = None"
| "chain nx h (m # ms) \<longleftrightarrow> h = Some m \<and> chain nx (nx m) ms"

definition owners_ok :: "mtx_kernel \<Rightarrow> bool" where
  "owners_ok k \<longleftrightarrow> (\<forall>t. \<exists>ms. chain (mtx_next k) (mtxlist k t) ms \<and> distinct ms \<and> set ms = {m. mtx_owner k m = Some t})"

definition mutex_ok :: "mtx_kernel \<Rightarrow> bool" where
  "mutex_ok k \<longleftrightarrow> sched_ok (kern k) \<and> queues_ok k \<and> owners_ok k \<and> inherits (waits k) (realprio k) (prio (kern k)) \<and>
     (\<forall>t. 0 < realprio k t)"

lemma chain_upd [simp]: "m \<notin> set ms \<Longrightarrow> chain (nx(m := v)) h ms = chain nx h ms"
  by (induction ms arbitrary: h) auto

interpretation waiting: ready_insert ch_sch_prio_insert
  by unfold_locales (simp_all only: ch_sch_prio_insert_def set_insert_pq distinct_insert_pq, rule sorted_insert_pq, auto)

declare waiting.set_ins [simp]

lemma queue_ok_upd: "t \<notin> set q \<Longrightarrow> queue_ok (pr(t := p)) q = queue_ok pr q"
proof -
  assume "t \<notin> set q"
  then have "sorted_wrt (\<lambda>x y. (pr(t := p)) x \<ge> (pr(t := p)) y) q = sorted_wrt (\<lambda>x y. pr x \<ge> pr y) q"
    by (induction q) auto
  then show ?thesis by (simp add: queue_ok_def)
qed

lemma queue_ok_insert: "queue_ok pr q \<Longrightarrow> t \<notin> set q \<Longrightarrow> queue_ok pr (ch_sch_prio_insert pr t q)"
  by (simp add: queue_ok_def waiting.sorted_ins waiting.distinct_ins)

lemma queue_ok_remove: "queue_ok pr q \<Longrightarrow> queue_ok pr (remove1 t q)"
  unfolding queue_ok_def by (metis distinct_remove1 distinct_remove1_removeAll removeAll_filter_not_eq sorted_wrt_filter)

text \<open>A thread moves to its place when its priority changes.\<close>

lemma queue_ok_requeue:
  assumes "queue_ok pr (q m)" and "tp \<in> set (q m)"
  shows "queue_ok (pr(tp := p)) (requeue (pr(tp := p)) tp m q m)" "set (requeue (pr(tp := p)) tp m q n) = set (q n)"
    "n \<noteq> m \<Longrightarrow> requeue (pr(tp := p)) tp m q n = q n"
proof -
  have "distinct (q m)" using assms(1) by (simp add: queue_ok_def)
  then have "tp \<notin> set (remove1 tp (q m))" "set (remove1 tp (q m)) = set (q m) - {tp}" by simp_all
  then show "queue_ok (pr(tp := p)) (requeue (pr(tp := p)) tp m q m)" "set (requeue (pr(tp := p)) tp m q n) = set (q n)"
    using queue_ok_remove [OF assms(1)] assms(2) by (auto simp: requeue_def queue_ok_insert queue_ok_upd)
  show "n \<noteq> m \<Longrightarrow> requeue (pr(tp := p)) tp m q n = q n" by (simp add: requeue_def)
qed

lemma queues_ok_requeue:
  assumes "\<forall>n. queue_ok pr (q n)" and "tp \<in> set (q m)" and "\<forall>n. n \<noteq> m \<longrightarrow> tp \<notin> set (q n)"
  shows "\<forall>n. queue_ok (pr(tp := p)) (requeue (pr(tp := p)) tp m q n)"
proof
  fix n
  show "queue_ok (pr(tp := p)) (requeue (pr(tp := p)) tp m q n)"
    using queue_ok_requeue(1) [of pr q m tp p] queue_ok_requeue(3) [of pr q m tp n p] assms
    by (cases "n = m") (auto simp: queue_ok_upd)
qed

subsection \<open>Boosting keeps the invariant\<close>

lemma sched_ok_iff:
  "sched_ok s \<longleftrightarrow> queue_ok (prio s) (ready s) \<and> current s \<notin> set (ready s) \<and> (\<forall>t. 0 < prio s t) \<and> states_ok s \<and>
     (\<forall>t\<in>set (ready s). prio s t \<le> prio s (current s))"
  by (auto simp: sched_ok_def ready_ok_def list_ok_def queue_ok_def)

lemma ready_ok_iff:
  "ready_ok s \<longleftrightarrow> queue_ok (prio s) (ready s) \<and> current s \<notin> set (ready s) \<and> (\<forall>t. 0 < prio s t) \<and> states_ok s"
  by (auto simp: ready_ok_def list_ok_def queue_ok_def)

lemma boost_ready:
  assumes "sched_ok s" and "t \<in> set (ready s)" and "p \<le> prio s (current s)" and "0 < p"
  defines "s' \<equiv> chSchReadyI t (s\<lparr>prio := (prio s)(t := p), ready := remove1 t (ready s)\<rparr>)"
  shows "sched_ok s'" "set (ready s') = set (ready s)" "current s' = current s" "thd_state s' = thd_state s"
    "prio s' = (prio s)(t := p)"
proof -
  have q: "queue_ok (prio s) (ready s)" "distinct (ready s)" and st: "states_ok s" and c: "current s \<notin> set (ready s)"
    using assms(1) by (simp_all add: sched_ok_iff queue_ok_def)
  show s: "current s' = current s" "prio s' = (prio s)(t := p)" "set (ready s') = set (ready s)"
    using assms(2) q(2) by (auto simp: s'_def chSchReadyI_def)
  have "thd_state s t = ST_READY" using assms(2) st unfolding states_ok_def by metis
  then show "thd_state s' = thd_state s" by (auto simp: s'_def chSchReadyI_def)
  then have "states_ok s'" using st by (simp add: states_ok_def s)
  moreover have "queue_ok ((prio s)(t := p)) (ready s')"
  proof -
    have "queue_ok ((prio s)(t := p)) (remove1 t (ready s))"
      using q by (subst queue_ok_upd) (simp_all add: queue_ok_remove)
    then have "queue_ok ((prio s)(t := p)) (pqueue_insert_behind ((prio s)(t := p)) t (remove1 t (ready s)))"
      using q(2) unfolding queue_ok_def behind.distinct_ins by (intro conjI behind.sorted_ins) simp_all
    then show ?thesis by (simp add: s'_def chSchReadyI_def sch_ready_behind_def)
  qed
  moreover have "t \<noteq> current s" using assms(2) c by auto
  ultimately show "sched_ok s'" using assms(1,3,4) c by (auto simp: sched_ok_iff s)
qed

lemma boost_other:
  assumes "sched_ok s" and "t \<notin> set (ready s)" and "t \<noteq> current s" and "0 < p"
  shows "sched_ok (s\<lparr>prio := (prio s)(t := p)\<rparr>)"
proof -
  have "states_ok (s\<lparr>prio := (prio s)(t := p)\<rparr>)" using assms(1) by (simp add: sched_ok_iff states_ok_def)
  then show ?thesis using assms by (auto simp: sched_ok_iff queue_ok_upd)
qed

text \<open>What boosting leaves alone.\<close>

definition same_owners :: "mtx_kernel \<Rightarrow> mtx_kernel \<Rightarrow> bool" where
  "same_owners k k' \<longleftrightarrow> mtx_owner k' = mtx_owner k \<and> mtx_next k' = mtx_next k \<and> mtxlist k' = mtxlist k \<and> realprio k' = realprio k \<and>
     wtobj k' = wtobj k \<and> (\<forall>m. set (wait_queue k' m) = set (wait_queue k m)) \<and> (\<forall>m. set (cond_queue k' m) = set (cond_queue k m)) \<and>
     thd_state (kern k') = thd_state (kern k) \<and> current (kern k') = current (kern k) \<and> set (ready (kern k')) = set (ready (kern k))"

lemma same_owners_trans: "same_owners k k' \<Longrightarrow> same_owners k' k'' \<Longrightarrow> same_owners k k''"
  by (simp add: same_owners_def)

lemma same_waits: "same_owners k k' \<Longrightarrow> waits k' = waits k"
  by (simp add: same_owners_def waits_def fun_eq_iff)

text \<open>One thread of the chain is boosted; only a thread that waits for a mutex is followed by another one.\<close>

definition boost_step :: "nat \<Rightarrow> nat \<Rightarrow> mtx_kernel \<Rightarrow> mtx_kernel" where
  "boost_step p tp k =
     (let k = set_prio tp p k in
      case thd_state (kern k) tp of
        ST_WTMTX \<Rightarrow> k\<lparr>wait_queue := requeue (prio (kern k)) tp (wtobj k tp) (wait_queue k)\<rparr>
      | ST_WTCOND \<Rightarrow> k\<lparr>cond_queue := requeue (prio (kern k)) tp (wtobj k tp) (cond_queue k)\<rparr>
      | ST_READY \<Rightarrow> k\<lparr>kern := chSchReadyI tp ((kern k)\<lparr>ready := remove1 tp (ready (kern k))\<rparr>)\<rparr>
      | _ \<Rightarrow> k)"

lemma inherit_unfold:
  "inherit_prio p tp k =
     (if prio (kern k) tp < p then
        if thd_state (kern k) tp = ST_WTMTX then
          (case mtx_owner k (wtobj k tp) of None \<Rightarrow> None | Some ow \<Rightarrow> inherit_prio p ow (boost_step p tp k))
        else Some (boost_step p tp k)
      else Some k)"
  by (subst inherit_prio.simps) (simp add: boost_step_def set_prio_def Let_def split: thd_state.split option.split)

lemma boost_step_ok:
  assumes "queues_ok k" and "sched_ok (kern k)" and "p = prio (kern k) (current (kern k))" and "prio (kern k) tp < p"
  shows "queues_ok (boost_step p tp k)" "sched_ok (kern (boost_step p tp k))" "same_owners k (boost_step p tp k)"
    "prio (kern (boost_step p tp k)) = (prio (kern k))(tp := p)"
proof -
  let ?s = "kern k" and ?pr = "(prio (kern k))(tp := p)"
  have c: "tp \<noteq> current ?s" "0 < p" using assms(3,4) by auto
  have rd: "t \<in> set (ready ?s) \<longleftrightarrow> thd_state ?s t = ST_READY" for t
    using assms(2) unfolding sched_ok_iff states_ok_def by metis
  have mq: "\<And>m. queue_ok (prio ?s) (wait_queue k m)" "\<And>m t. t \<in> set (wait_queue k m) \<longleftrightarrow> thd_state ?s t = ST_WTMTX \<and> wtobj k t = m"
    and cq: "\<And>m. queue_ok (prio ?s) (cond_queue k m)" "\<And>m t. t \<in> set (cond_queue k m) \<longleftrightarrow> thd_state ?s t = ST_WTCOND \<and> wtobj k t = m"
    and un: "\<And>m. mtx_owner k m = None \<Longrightarrow> wait_queue k m = []" and fin: "finite {t. thd_state ?s t = ST_WTMTX}"
    using assms(1) unfolding queues_ok_def by blast+
  consider (mtx) "thd_state ?s tp = ST_WTMTX" | (cond) "thd_state ?s tp = ST_WTCOND" | (rdy) "thd_state ?s tp = ST_READY"
    | (other) "thd_state ?s tp \<notin> {ST_WTMTX, ST_WTCOND, ST_READY}" by auto
  then have "queues_ok (boost_step p tp k) \<and> sched_ok (kern (boost_step p tp k)) \<and> same_owners k (boost_step p tp k) \<and>
    prio (kern (boost_step p tp k)) = ?pr"
  proof cases
    case mtx
    let ?m = "wtobj k tp"
    have k': "boost_step p tp k = k\<lparr>kern := ?s\<lparr>prio := ?pr\<rparr>, wait_queue := requeue ?pr tp ?m (wait_queue k)\<rparr>"
      using mtx by (simp add: boost_step_def set_prio_def Let_def)
    have tp: "tp \<in> set (wait_queue k ?m)" "tp \<notin> set (ready ?s)" using mtx mq(2) rd by auto
    have q: "\<forall>n. queue_ok ?pr (requeue ?pr tp ?m (wait_queue k) n)" using mq tp by (intro queues_ok_requeue) auto
    have set_q: "set (requeue ?pr tp ?m (wait_queue k) n) = set (wait_queue k n)" for n
      by (rule queue_ok_requeue(2) [of _ "wait_queue k", OF mq(1) tp(1)])
    have empty: "requeue ?pr tp ?m (wait_queue k) n = []" if "mtx_owner k n = None" for n
      using un [OF that] set_q [of n] by simp
    have "queue_ok ?pr (cond_queue k n)" for n using cq mtx by (simp add: queue_ok_upd)
    then have "queues_ok (boost_step p tp k)"
      using q mq(2) cq(2) empty fin unfolding queues_ok_def k' by (simp add: set_q)
    then show ?thesis using boost_other [OF assms(2) tp(2) c] by (simp add: k' same_owners_def set_q)
  next
    case cond
    let ?m = "wtobj k tp"
    have k': "boost_step p tp k = k\<lparr>kern := ?s\<lparr>prio := ?pr\<rparr>, cond_queue := requeue ?pr tp ?m (cond_queue k)\<rparr>"
      using cond by (simp add: boost_step_def set_prio_def Let_def)
    have tp: "tp \<in> set (cond_queue k ?m)" "tp \<notin> set (ready ?s)" using cond cq(2) rd by auto
    have q: "\<forall>n. queue_ok ?pr (requeue ?pr tp ?m (cond_queue k) n)" using cq tp by (intro queues_ok_requeue) auto
    have set_q: "set (requeue ?pr tp ?m (cond_queue k) n) = set (cond_queue k n)" for n
      by (rule queue_ok_requeue(2) [of _ "cond_queue k", OF cq(1) tp(1)])
    have "queue_ok ?pr (wait_queue k n)" for n using mq cond by (simp add: queue_ok_upd)
    then have "queues_ok (boost_step p tp k)"
      using q mq(2) cq(2) un fin unfolding queues_ok_def k' by (simp add: set_q)
    then show ?thesis using boost_other [OF assms(2) tp(2) c] by (simp add: k' same_owners_def set_q)
  next
    case rdy
    let ?s' = "chSchReadyI tp (?s\<lparr>prio := ?pr, ready := remove1 tp (ready ?s)\<rparr>)"
    have k': "boost_step p tp k = k\<lparr>kern := ?s'\<rparr>"
      using rdy by (simp add: boost_step_def set_prio_def Let_def)
    have tp: "tp \<in> set (ready ?s)" "p \<le> prio ?s (current ?s)" using rdy rd assms(3) by auto
    note r = boost_ready [OF assms(2) tp c(2)]
    have "queue_ok ?pr (wait_queue k n)" "queue_ok ?pr (cond_queue k n)" for n
      using mq cq rdy by (simp_all add: queue_ok_upd)
    then have "queues_ok (boost_step p tp k)"
      using mq(2) cq(2) un fin unfolding queues_ok_def k' by (simp add: r)
    then show ?thesis using r by (simp add: k' same_owners_def)
  next
    case other
    have k': "boost_step p tp k = k\<lparr>kern := ?s\<lparr>prio := ?pr\<rparr>\<rparr>"
      using other by (auto simp: boost_step_def set_prio_def Let_def split: thd_state.split)
    have tp: "tp \<notin> set (ready ?s)" using other rd by auto
    have "queue_ok ?pr (wait_queue k n)" "queue_ok ?pr (cond_queue k n)" for n
      using mq cq other by (simp_all add: queue_ok_upd)
    then have "queues_ok (boost_step p tp k)"
      using mq(2) cq(2) un fin unfolding queues_ok_def k' by simp
    then show ?thesis using boost_other [OF assms(2) tp c] by (simp add: k' same_owners_def)
  qed
  then show "queues_ok (boost_step p tp k)" "sched_ok (kern (boost_step p tp k))" "same_owners k (boost_step p tp k)"
    "prio (kern (boost_step p tp k)) = (prio (kern k))(tp := p)" by blast+
qed

lemma waits_of:
  assumes "queues_ok k"
  shows "thd_state (kern k) tp \<noteq> ST_WTMTX \<Longrightarrow> \<not> waits k tp t"
    and "thd_state (kern k) tp = ST_WTMTX \<Longrightarrow> \<exists>ow. mtx_owner k (wtobj k tp) = Some ow \<and> (\<forall>t. waits k tp t \<longleftrightarrow> t = ow)"
proof -
  have q: "\<And>m t. t \<in> set (wait_queue k m) \<longleftrightarrow> thd_state (kern k) t = ST_WTMTX \<and> wtobj k t = m"
    and un: "\<And>m. mtx_owner k m = None \<Longrightarrow> wait_queue k m = []"
    using assms unfolding queues_ok_def by blast+
  show "thd_state (kern k) tp \<noteq> ST_WTMTX \<Longrightarrow> \<not> waits k tp t" by (simp add: waits_def q)
  assume "thd_state (kern k) tp = ST_WTMTX"
  then have "tp \<in> set (wait_queue k (wtobj k tp))" by (simp add: q)
  then obtain ow where "mtx_owner k (wtobj k tp) = Some ow" using un by fastforce
  then show "\<exists>ow. mtx_owner k (wtobj k tp) = Some ow \<and> (\<forall>t. waits k tp t \<longleftrightarrow> t = ow)"
    using \<open>thd_state (kern k) tp = ST_WTMTX\<close> by (auto simp: waits_def q)
qed

lemma inherit_ok:
  assumes "queues_ok k" and "sched_ok (kern k)" and "p = prio (kern k) (current (kern k))"
    and "boosting (waits k) (realprio k) p o0 tp (prio (kern k))"
  shows "\<exists>k'. inherit_prio p tp k = Some k' \<and> queues_ok k' \<and> sched_ok (kern k') \<and> same_owners k k' \<and>
    boosted (waits k) (realprio k) p o0 (prio (kern k')) \<and> prio (kern k') (current (kern k)) = p"
  using assms
proof (induction "card {t. thd_state (kern k) t = ST_WTMTX \<and> prio (kern k) t < p}" arbitrary: k tp rule: less_induct)
  case less
  let ?k = "boost_step p tp k"
  show ?case
  proof (cases "prio (kern k) tp < p")
    case False
    then have "inherit_prio p tp k = Some k" by (simp add: inherit_unfold [of p tp k])
    moreover have "same_owners k k" by (simp add: same_owners_def)
    ultimately show ?thesis using less.prems boosting_stop [OF less.prems(4) False] by auto
  next
    case True
    note st = boost_step_ok [OF less.prems(1-3) True]
    have same: "waits ?k = waits k" "realprio ?k = realprio k" "current (kern ?k) = current (kern k)" "thd_state (kern ?k) = thd_state (kern k)"
      using same_waits [OF st(3)] st(3) by (simp_all add: same_owners_def)
    have "current (kern k) \<noteq> tp" using True less.prems(3) by auto
    then have c: "prio (kern ?k) (current (kern k)) = p" unfolding st(4) using less.prems(3) by simp
    show ?thesis
    proof (cases "thd_state (kern k) tp = ST_WTMTX")
      case False
      then have "inherit_prio p tp k = Some ?k" using True by (simp add: inherit_unfold [of p tp k])
      moreover have "boosted (waits k) (realprio k) p o0 (prio (kern ?k))"
        unfolding st(4) using boosting_last [OF less.prems(4) True] waits_of(1) [OF less.prems(1) False] by blast
      ultimately show ?thesis using st c by blast
    next
      case wt: True
      obtain ow where ow: "mtx_owner k (wtobj k tp) = Some ow" "\<forall>t. waits k tp t \<longleftrightarrow> t = ow"
        using waits_of(2) [OF less.prems(1) wt] by blast
      have run: "inherit_prio p tp k = inherit_prio p ow ?k" using True wt ow(1) by (simp add: inherit_unfold [of p tp k])
      have b: "boosting (waits ?k) (realprio ?k) p o0 ow (prio (kern ?k))"
        unfolding same st(4) using boosting_next [OF less.prems(4) True] ow(2) by blast
      have "finite {t. thd_state (kern k) t = ST_WTMTX \<and> prio (kern k) t < p}"
        using less.prems(1) unfolding queues_ok_def by (blast intro: rev_finite_subset)
      then have "card {t. thd_state (kern ?k) t = ST_WTMTX \<and> prio (kern ?k) t < p} < card {t. thd_state (kern k) t = ST_WTMTX \<and> prio (kern k) t < p}"
        using True wt by (intro psubset_card_mono) (auto simp: same st(4))
      from less.hyps [OF this st(1,2) _ b] c obtain k' where k': "inherit_prio p ow ?k = Some k'" "queues_ok k'" "sched_ok (kern k')"
        "same_owners ?k k'" "boosted (waits ?k) (realprio ?k) p o0 (prio (kern k'))" "prio (kern k') (current (kern ?k)) = p"
        by (auto simp: same)
      then show ?thesis using same_owners_trans [OF st(3) k'(4)] unfolding run same by blast
    qed
  qed
qed

subsection \<open>Every operation keeps the invariant\<close>

lemma owners_chain:
  assumes "owners_ok k"
  obtains ms where "chain (mtx_next k) (mtxlist k t) ms" and "distinct ms" and "set ms = {m. mtx_owner k m = Some t}"
  using assms unfolding owners_ok_def by blast

text \<open>The owner of a mutex nobody waits for does not matter.\<close>

lemma queue_empty_owner:
  "q mp = [] \<Longrightarrow> (\<exists>m. w \<in> set (q m) \<and> (own(mp := x)) m = Some t) \<longleftrightarrow> (\<exists>m. w \<in> set (q m) \<and> own m = Some t)"
  by (metis emptyE fun_upd_apply list.set(1))

lemma take_ok:
  assumes "mutex_ok k" and "mtx_owner k mp = None"
  shows "mutex_ok (take_mutex mp k)"
proof -
  let ?c = "current (kern k)" and ?k = "take_mutex mp k"
  have o: "owners_ok k" and q: "queues_ok k" and e: "wait_queue k mp = []" using assms unfolding mutex_ok_def queues_ok_def by blast+
  have "\<exists>ms. chain (mtx_next ?k) (mtxlist ?k t) ms \<and> distinct ms \<and> set ms = {m. mtx_owner ?k m = Some t}" for t
  proof -
    obtain ms where ms: "chain (mtx_next k) (mtxlist k t) ms" "distinct ms" "set ms = {m. mtx_owner k m = Some t}"
      by (rule owners_chain [OF o])
    have mp: "mp \<notin> set ms" using ms(3) assms(2) by auto
    show ?thesis
    proof (cases "t = ?c")
      case True
      then have "chain (mtx_next ?k) (mtxlist ?k t) (mp # ms) \<and> distinct (mp # ms) \<and> set (mp # ms) = {m. mtx_owner ?k m = Some t}"
        using ms mp by (auto simp: take_mutex_def Let_def)
      then show ?thesis by blast
    next
      case False
      then have "chain (mtx_next ?k) (mtxlist ?k t) ms \<and> distinct ms \<and> set ms = {m. mtx_owner ?k m = Some t}"
        using ms mp assms(2) by (auto simp: take_mutex_def Let_def)
      then show ?thesis by blast
    qed
  qed
  then have "owners_ok ?k" unfolding owners_ok_def by blast
  moreover have "queues_ok ?k" using q by (auto simp: queues_ok_def take_mutex_def Let_def)
  moreover have "waits ?k = waits k" by (simp add: waits_def take_mutex_def Let_def queue_empty_owner [of "wait_queue k", OF e] fun_eq_iff del: fun_upd_apply)
  ultimately show ?thesis using assms(1) by (simp add: mutex_ok_def take_mutex_def Let_def)
qed

lemma trylock_ok: "mutex_ok k \<Longrightarrow> mutex_ok (snd (chMtxTryLockS mp k))"
  by (auto simp: chMtxTryLockS_def take_ok split: option.split)

text \<open>The current thread is in no queue.\<close>

lemma sleep_state:
  "chSchGoSleepS x s = Some s' \<Longrightarrow> ready s = t # q \<Longrightarrow> s' = make_current t ((set_state (current s) x s)\<lparr>ready := q\<rparr>)"
  by (simp add: chSchGoSleepS_def remove_highest_def)

lemma sleep_on_mutex:
  assumes "queues_ok k" and "sched_ok (kern k)" and "mtx_owner k mp = Some ow" and "ready (kern k) \<noteq> []"
  defines "c \<equiv> current (kern k)"
  defines "k1 \<equiv> k\<lparr>wait_queue := (wait_queue k)(mp := ch_sch_prio_insert (prio (kern k)) c (wait_queue k mp)), wtobj := (wtobj k)(c := mp)\<rparr>"
  shows "\<exists>s'. chSchGoSleepS ST_WTMTX (kern k) = Some s' \<and> queues_ok (k1\<lparr>kern := s'\<rparr>) \<and> sched_ok s' \<and> prio s' = prio (kern k)"
    "waits (k1\<lparr>kern := s2\<rparr>) = (\<lambda>w t. waits k w t \<or> w = c \<and> t = ow)"
proof -
  let ?s = "kern k"
  obtain s' where s': "chSchGoSleepS ST_WTMTX ?s = Some s'" "sched_ok s'" "prio s' = prio ?s"
    using go_sleep_ok [OF assms(2,4), of ST_WTMTX] by auto
  obtain t q where rq: "ready ?s = t # q" using assms(4) by (cases "ready ?s") auto
  have st: "thd_state s' = ((thd_state ?s)(c := ST_WTMTX))(t := ST_CURRENT)"
    using sleep_state [OF s'(1) rq] by (simp add: c_def)
  have rd: "thd_state ?s t = ST_READY" "thd_state ?s c = ST_CURRENT" "t \<noteq> c"
    using assms(2) rq unfolding c_def sched_ok_iff states_ok_def by (metis list.set_intros(1))+
  have mq: "\<And>m. queue_ok (prio ?s) (wait_queue k m)" "\<And>m t. t \<in> set (wait_queue k m) \<longleftrightarrow> thd_state ?s t = ST_WTMTX \<and> wtobj k t = m"
    and cq: "\<And>m. queue_ok (prio ?s) (cond_queue k m)" "\<And>m t. t \<in> set (cond_queue k m) \<longleftrightarrow> thd_state ?s t = ST_WTCOND \<and> wtobj k t = m"
    and un: "\<And>m. mtx_owner k m = None \<Longrightarrow> wait_queue k m = []" and fin: "finite {t. thd_state ?s t = ST_WTMTX}"
    using assms(1) unfolding queues_ok_def by blast+
  have "c \<notin> set (wait_queue k mp)" using mq(2) rd(2) by simp
  then have "queue_ok (prio ?s) (ch_sch_prio_insert (prio ?s) c (wait_queue k mp))" by (simp add: queue_ok_insert mq(1))
  then have "queue_ok (prio ?s) (wait_queue k1 m)" for m using mq(1) by (simp add: k1_def)
  moreover have "x \<in> set (wait_queue k1 m) \<longleftrightarrow> thd_state s' x = ST_WTMTX \<and> wtobj k1 x = m" for x m
    using mq(2) rd by (auto simp: k1_def st)
  moreover have "x \<in> set (cond_queue k1 m) \<longleftrightarrow> thd_state s' x = ST_WTCOND \<and> wtobj k1 x = m" for x m
    using cq(2) rd by (auto simp: k1_def st)
  moreover have "mtx_owner k1 m = None \<longrightarrow> wait_queue k1 m = []" for m using un assms(3) by (auto simp: k1_def)
  moreover have "{x. thd_state s' x = ST_WTMTX} = insert c {x. thd_state ?s x = ST_WTMTX}" using rd by (auto simp: st)
  ultimately have "queues_ok (k1\<lparr>kern := s'\<rparr>)"
    using cq(1) fin unfolding queues_ok_def by (simp add: s'(3)) (simp add: k1_def)
  then show "\<exists>s'. chSchGoSleepS ST_WTMTX ?s = Some s' \<and> queues_ok (k1\<lparr>kern := s'\<rparr>) \<and> sched_ok s' \<and> prio s' = prio ?s"
    using s' by blast
  show "waits (k1\<lparr>kern := s2\<rparr>) = (\<lambda>w t. waits k w t \<or> w = c \<and> t = ow)"
    using assms(3) by (auto simp: waits_def k1_def fun_eq_iff)
qed

lemma lock_ok:
  assumes "mutex_ok k" and "ready (kern k) \<noteq> []"
  shows "\<exists>k'. chMtxLockS mp k = Some k' \<and> mutex_ok k' \<and>
    (if mtx_owner k mp = None then mtx_owner k' mp = Some (current (kern k)) \<and> current (kern k') = current (kern k)
     else mtx_owner k' mp = mtx_owner k mp \<and> current (kern k) \<in> set (wait_queue k' mp))"
proof (cases "mtx_owner k mp")
  case None
  then show ?thesis using take_ok [OF assms(1)] by (auto simp: chMtxLockS_def Let_def take_mutex_def)
next
  case (Some ow)
  let ?c = "current (kern k)" and ?p = "prio (kern k) (current (kern k))"
  have ok: "queues_ok k" "sched_ok (kern k)" "owners_ok k" "inherits (waits k) (realprio k) (prio (kern k))" "\<forall>t. 0 < realprio k t"
    using assms(1) unfolding mutex_ok_def by blast+
  obtain k1 where run1: "inherit_prio ?p ow k = Some k1" and k1: "queues_ok k1" "sched_ok (kern k1)" "same_owners k k1"
    "boosted (waits k) (realprio k) ?p ow (prio (kern k1))" "prio (kern k1) ?c = ?p"
    using inherit_ok [OF ok(1,2) refl boosting_start [OF ok(4)]] by blast
  have same: "mtx_owner k1 = mtx_owner k" "realprio k1 = realprio k" "current (kern k1) = ?c" "waits k1 = waits k"
    "thd_state (kern k1) = thd_state (kern k)" "set (ready (kern k1)) = set (ready (kern k))"
    using k1(3) same_waits [OF k1(3)] by (simp_all add: same_owners_def)
  have "mtx_owner k1 mp = Some ow" "ready (kern k1) \<noteq> []" using Some assms(2) same by (metis, metis list.set(1) set_empty)
  note sl = sleep_on_mutex [OF k1(1,2) this, unfolded same(3)]
  let ?k2 = "k1\<lparr>wait_queue := (wait_queue k1)(mp := ch_sch_prio_insert (prio (kern k1)) ?c (wait_queue k1 mp)), wtobj := (wtobj k1)(?c := mp)\<rparr>"
  obtain s' where s': "chSchGoSleepS ST_WTMTX (kern k1) = Some s'" "queues_ok (?k2\<lparr>kern := s'\<rparr>)" "sched_ok s'" "prio s' = prio (kern k1)"
    using sl(1) by blast
  let ?k' = "?k2\<lparr>kern := s'\<rparr>"
  have run: "chMtxLockS mp k = Some ?k'" using Some run1 s'(1) same(3) by (simp add: chMtxLockS_def Let_def)
  have "inherits (waits ?k') (realprio ?k') (prio (kern ?k'))"
    using boosted_joins [of "waits k" "realprio k" "prio (kern k1)" ?c ow] k1(4,5) unfolding sl(2) by (simp add: same s'(4))
  moreover have "owners_ok ?k'" using ok(3) k1(3) by (simp add: owners_ok_def same_owners_def)
  ultimately have "mutex_ok ?k'" using s'(2,3) ok(5) by (simp add: mutex_ok_def same)
  then show ?thesis using run Some by (simp add: same)
qed

text \<open>The priority that an unlocking thread is left with.\<close>

definition top_prio :: "(nat \<Rightarrow> nat) \<Rightarrow> (nat \<Rightarrow> nat list) \<Rightarrow> nat list \<Rightarrow> nat \<Rightarrow> nat" where
  "top_prio pr q ms np = foldl (\<lambda>np m. case q m of [] \<Rightarrow> np | w # _ \<Rightarrow> max np (pr w)) np ms"

lemma waiting_prio_eq:
  "chain (mtx_next k) h ms \<Longrightarrow> waiting_prio k h np = Some (top_prio (prio (kern k)) (wait_queue k) ms np)"
proof (induction ms arbitrary: h np)
  case Nil
  then show ?case by (subst waiting_prio.simps) (simp add: top_prio_def)
next
  case (Cons m ms)
  have "(if np < a then a else np) = max np a" for a :: nat by (simp add: max_def)
  then show ?case using Cons by (subst waiting_prio.simps) (simp add: top_prio_def split: list.split)
qed

lemma top_prio_is_highest:
  assumes "\<forall>m. queue_ok pr (q m)"
  shows "np \<le> top_prio pr q ms np" "m \<in> set ms \<Longrightarrow> w \<in> set (q m) \<Longrightarrow> pr w \<le> top_prio pr q ms np"
    "top_prio pr q ms np = np \<or> (\<exists>m\<in>set ms. \<exists>w\<in>set (q m). pr w = top_prio pr q ms np)"
proof -
  have "np \<le> top_prio pr q ms np \<and> (\<forall>m\<in>set ms. \<forall>w\<in>set (q m). pr w \<le> top_prio pr q ms np) \<and>
    (top_prio pr q ms np = np \<or> (\<exists>m\<in>set ms. \<exists>w\<in>set (q m). pr w = top_prio pr q ms np))"
  proof (induction ms arbitrary: np)
    case Nil
    then show ?case by (simp add: top_prio_def)
  next
    case (Cons a ms)
    show ?case
    proof (cases "q a")
      case Nil
      then show ?thesis using Cons [of np] by (simp add: top_prio_def)
    next
      case (Cons w ws)
      have e: "top_prio pr q (a # ms) np = top_prio pr q ms (max np (pr w))" by (simp add: top_prio_def Cons)
      have "\<forall>x\<in>set (q a). pr x \<le> pr w" using assms [rule_format, of a] by (auto simp: queue_ok_def Cons)
      moreover note Cons.IH [of "max np (pr w)"]
      moreover have "w \<in> set (q a)" by (simp add: Cons)
      ultimately show ?thesis unfolding e by (auto simp: max_def split: if_splits)
    qed
  qed
  then show "np \<le> top_prio pr q ms np" "m \<in> set ms \<Longrightarrow> w \<in> set (q m) \<Longrightarrow> pr w \<le> top_prio pr q ms np"
    "top_prio pr q ms np = np \<or> (\<exists>m\<in>set ms. \<exists>w\<in>set (q m). pr w = top_prio pr q ms np)" by blast+
qed

text \<open>The mutexes of the current thread, the one to unlock first.\<close>

lemma own_chain:
  assumes "owners_ok k" and "mtxlist k c = Some mp"
  obtains ms where "chain (mtx_next k) (mtx_next k mp) ms" and "distinct ms" and "mp \<notin> set ms" and "mtx_owner k mp = Some c"
    and "\<forall>m. mtx_owner k m = Some c \<longleftrightarrow> m = mp \<or> m \<in> set ms"
proof -
  obtain ms' where ms': "chain (mtx_next k) (mtxlist k c) ms'" "distinct ms'" "set ms' = {m. mtx_owner k m = Some c}"
    by (rule owners_chain [OF assms(1)])
  then obtain ms where "ms' = mp # ms" using assms(2) by (cases ms') auto
  then show thesis using that [of ms] ms' by auto
qed

text \<open>
  \<open>locks_ok\<close> holds while mutexes are released: the priority of the releasing thread is wrong until it
  is computed anew, and the thread may have to be rescheduled.
\<close>

definition locks_ok :: "mtx_kernel \<Rightarrow> bool" where
  "locks_ok k \<longleftrightarrow> ready_ok (kern k) \<and> queues_ok k \<and> owners_ok k \<and> (\<forall>t. 0 < realprio k t)"

lemma mutex_ok_iff:
  "mutex_ok k \<longleftrightarrow> locks_ok k \<and> inherits (waits k) (realprio k) (prio (kern k)) \<and>
     (\<forall>t\<in>set (ready (kern k)). prio (kern k) t \<le> prio (kern k) (current (kern k)))"
  by (auto simp: mutex_ok_def locks_ok_def sched_ok_def)

lemma current_waits_not:
  assumes "locks_ok k"
  shows "current (kern k) \<notin> set (wait_queue k m)" "current (kern k) \<notin> set (cond_queue k m)" "\<not> waits k (current (kern k)) t"
proof -
  have "thd_state (kern k) (current (kern k)) = ST_CURRENT" using assms unfolding locks_ok_def ready_ok_iff states_ok_def by blast
  then show "current (kern k) \<notin> set (wait_queue k m)" "current (kern k) \<notin> set (cond_queue k m)" "\<not> waits k (current (kern k)) t"
    using assms by (simp_all add: locks_ok_def queues_ok_def waits_def)
qed

lemma set_prio_locks:
  assumes "locks_ok k" and "0 < p"
  shows "locks_ok (set_prio (current (kern k)) p k)"
proof -
  let ?k = "set_prio (current (kern k)) p k"
  note nq = current_waits_not [OF assms(1)]
  have "ready_ok (kern ?k)" using assms by (auto simp: locks_ok_def ready_ok_iff queue_ok_upd states_ok_def set_prio_def)
  moreover have "queues_ok ?k" using assms(1) unfolding locks_ok_def queues_ok_def
    by (simp add: set_prio_def queue_ok_upd [OF nq(1)] queue_ok_upd [OF nq(2)])
  ultimately show ?thesis using assms(1) by (simp add: locks_ok_def owners_ok_def set_prio_def)
qed

text \<open>The lists of owned mutexes when \<open>mp\<close> leaves the current thread.\<close>

lemma owners_drop:
  assumes "owners_ok k" and "mtxlist k (current (kern k)) = Some mp"
  shows "owners_ok (drop_mutex mp (pop_mutex mp k))"
proof -
  let ?c = "current (kern k)" and ?k = "drop_mutex mp (pop_mutex mp k)"
  obtain ms where ms: "chain (mtx_next k) (mtx_next k mp) ms" "distinct ms" "mp \<notin> set ms" "mtx_owner k mp = Some ?c"
    "\<forall>m. mtx_owner k m = Some ?c \<longleftrightarrow> m = mp \<or> m \<in> set ms"
    by (rule own_chain [OF assms])
  have "\<exists>l. chain (mtx_next ?k) (mtxlist ?k t) l \<and> distinct l \<and> set l = {m. mtx_owner ?k m = Some t}" for t
  proof (cases "t = ?c")
    case True
    then have "chain (mtx_next ?k) (mtxlist ?k t) ms \<and> distinct ms \<and> set ms = {m. mtx_owner ?k m = Some t}"
      using ms by (auto simp: drop_mutex_def pop_mutex_def)
    then show ?thesis by blast
  next
    case False
    obtain l where "chain (mtx_next k) (mtxlist k t) l" "distinct l" "set l = {m. mtx_owner k m = Some t}" by (rule owners_chain [OF assms(1)])
    then have "chain (mtx_next ?k) (mtxlist ?k t) l \<and> distinct l \<and> set l = {m. mtx_owner ?k m = Some t}"
      using False ms(4) by (auto simp: drop_mutex_def pop_mutex_def)
    then show ?thesis by blast
  qed
  then show ?thesis unfolding owners_ok_def by blast
qed

lemma owners_hand_over:
  assumes "owners_ok k" and "mtxlist k (current (kern k)) = Some mp" and "tp \<noteq> current (kern k)"
  shows "owners_ok (hand_over mp tp q (pop_mutex mp k))"
proof -
  let ?c = "current (kern k)" and ?k = "hand_over mp tp q (pop_mutex mp k)"
  obtain ms where ms: "chain (mtx_next k) (mtx_next k mp) ms" "distinct ms" "mp \<notin> set ms" "mtx_owner k mp = Some ?c"
    "\<forall>m. mtx_owner k m = Some ?c \<longleftrightarrow> m = mp \<or> m \<in> set ms"
    by (rule own_chain [OF assms(1,2)])
  have "\<exists>l. chain (mtx_next ?k) (mtxlist ?k t) l \<and> distinct l \<and> set l = {m. mtx_owner ?k m = Some t}" for t
  proof -
    obtain l where l: "chain (mtx_next k) (mtxlist k t) l" "distinct l" "set l = {m. mtx_owner k m = Some t}" by (rule owners_chain [OF assms(1)])
    have mp: "mp \<in> set l \<longleftrightarrow> t = ?c" using l(3) ms(4) by auto
    let ?l = "if t = ?c then ms else if t = tp then mp # l else l"
    have "chain (mtx_next ?k) (mtxlist ?k t) ?l \<and> distinct ?l \<and> set ?l = {m. mtx_owner ?k m = Some t}"
    proof (cases "t = ?c")
      case True
      then show ?thesis using ms assms(3) by (auto simp: hand_over_def pop_mutex_def Let_def)
    next
      case False
      then have "mp \<notin> set l" using mp by simp
      with False show ?thesis using l(1,2) ms(4) by (auto simp: hand_over_def pop_mutex_def Let_def l(3))
    qed
    then show ?thesis by blast
  qed
  then show ?thesis unfolding owners_ok_def by blast
qed

lemma drop_ok:
  assumes "locks_ok k" and "mtxlist k (current (kern k)) = Some mp" and "wait_queue k mp = []"
  shows "locks_ok (drop_mutex mp (pop_mutex mp k))" "waits (drop_mutex mp (pop_mutex mp k)) = waits k"
proof -
  let ?k = "drop_mutex mp (pop_mutex mp k)"
  have "queues_ok k" "owners_ok k" using assms(1) unfolding locks_ok_def by blast+
  then have "queues_ok ?k" "owners_ok ?k"
    using assms(3) owners_drop [OF _ assms(2)] by (auto simp: queues_ok_def drop_mutex_def pop_mutex_def)
  then show "locks_ok ?k" using assms(1) by (simp add: locks_ok_def drop_mutex_def pop_mutex_def)
  show "waits ?k = waits k"
    by (simp add: waits_def drop_mutex_def pop_mutex_def queue_empty_owner [of "wait_queue k", OF assms(3)] fun_eq_iff del: fun_upd_apply)
qed

text \<open>The first thread that waits for the mutex, and the rest.\<close>

lemma first_waiting:
  assumes "locks_ok k" and "wait_queue k mp = tp # q"
  shows "thd_state (kern k) tp = ST_WTMTX" "wtobj k tp = mp" "tp \<noteq> current (kern k)" "tp \<notin> set q" "queue_ok (prio (kern k)) q"
    "\<forall>w\<in>set q. prio (kern k) w \<le> prio (kern k) tp" "tp \<notin> runnable (kern k)"
proof -
  have mq: "queue_ok (prio (kern k)) (wait_queue k mp)" "tp \<in> set (wait_queue k mp) \<longleftrightarrow> thd_state (kern k) tp = ST_WTMTX \<and> wtobj k tp = mp"
    using assms(1) unfolding locks_ok_def queues_ok_def by blast+
  then show tp: "thd_state (kern k) tp = ST_WTMTX" "wtobj k tp = mp" "tp \<notin> set q" "queue_ok (prio (kern k)) q"
    "\<forall>w\<in>set q. prio (kern k) w \<le> prio (kern k) tp"
    by (auto simp: assms(2) queue_ok_def)
  have "\<And>t. thd_state (kern k) t = ST_READY \<longleftrightarrow> t \<in> set (ready (kern k))" "thd_state (kern k) (current (kern k)) = ST_CURRENT"
    using assms(1) unfolding locks_ok_def ready_ok_iff states_ok_def by blast+
  then show "tp \<noteq> current (kern k)" "tp \<notin> runnable (kern k)" using tp(1) unfolding runnable_def by force+
qed

lemma queues_hand_over:
  assumes "locks_ok k" and "wait_queue k mp = tp # q"
  shows "queues_ok (hand_over mp tp q (pop_mutex mp k))"
proof -
  let ?k = "hand_over mp tp q (pop_mutex mp k)" and ?s = "kern k"
  note f = first_waiting [OF assms]
  have mq: "\<And>m. queue_ok (prio ?s) (wait_queue k m)" "\<And>m t. t \<in> set (wait_queue k m) \<longleftrightarrow> thd_state ?s t = ST_WTMTX \<and> wtobj k t = m"
    and cq: "\<And>m. queue_ok (prio ?s) (cond_queue k m)" "\<And>m t. t \<in> set (cond_queue k m) \<longleftrightarrow> thd_state ?s t = ST_WTCOND \<and> wtobj k t = m"
    and un: "\<And>m. mtx_owner k m = None \<Longrightarrow> wait_queue k m = []" and fin: "finite {t. thd_state ?s t = ST_WTMTX}"
    using assms(1) unfolding locks_ok_def queues_ok_def by blast+
  have k: "wait_queue ?k = (wait_queue k)(mp := q)" "cond_queue ?k = cond_queue k" "mtx_owner ?k = (mtx_owner k)(mp := Some tp)"
    "wtobj ?k = wtobj k" "thd_state (kern ?k) = (thd_state ?s)(tp := ST_READY)" "prio (kern ?k) = prio ?s"
    by (simp_all add: hand_over_def pop_mutex_def Let_def chSchReadyI_def)
  have "x \<in> set (wait_queue ?k m) \<longleftrightarrow> thd_state (kern ?k) x = ST_WTMTX \<and> wtobj ?k x = m" for x m
  proof (cases "m = mp")
    case True
    have "x \<in> set q \<longleftrightarrow> x \<noteq> tp \<and> x \<in> set (wait_queue k mp)" using f(4) by (auto simp: assms(2))
    then show ?thesis using mq(2) [of x mp] True by (auto simp: k)
  next
    case False
    then show ?thesis using mq(2) [of x m] f(1,2) by (auto simp: k)
  qed
  moreover have "x \<in> set (cond_queue ?k m) \<longleftrightarrow> thd_state (kern ?k) x = ST_WTCOND \<and> wtobj ?k x = m" for x m
    using cq(2) [of x m] f(1,2) by (auto simp: k)
  moreover have "finite {x. thd_state (kern ?k) x = ST_WTMTX}" by (rule finite_subset [OF _ fin]) (auto simp: k)
  moreover have "queue_ok (prio ?s) (wait_queue ?k m)" "mtx_owner ?k m = None \<longrightarrow> wait_queue ?k m = []" for m
    using mq(1) [of m] f(5) un by (simp_all add: k)
  ultimately show ?thesis unfolding queues_ok_def by (simp add: k cq(1))
qed

lemma hand_over_ok:
  assumes "locks_ok k" and "mtxlist k (current (kern k)) = Some mp" and "wait_queue k mp = tp # q"
  shows "locks_ok (hand_over mp tp q (pop_mutex mp k))"
proof -
  note f = first_waiting [OF assms(1,3)]
  have "ready_ok (chSchReadyI tp (kern k))" using assms(1) f(7) by (intro ready_ok_ready) (simp_all add: locks_ok_def)
  then show ?thesis
    using assms(1) owners_hand_over [OF _ assms(2) f(3)] queues_hand_over [OF assms(1,3)]
    by (simp add: locks_ok_def) (simp add: hand_over_def pop_mutex_def Let_def)
qed

lemma hand_over_fields:
  fixes mp tp :: nat and q :: "nat list"
  assumes "tp \<noteq> current (kern k)"
  defines "k' \<equiv> hand_over mp tp q (pop_mutex mp k)"
  shows "prio (kern k') = prio (kern k)" "current (kern k') = current (kern k)" "realprio k' = realprio k"
    "mtx_owner k' = (mtx_owner k)(mp := Some tp)" "wait_queue k' = (wait_queue k)(mp := q)" "thd_state (kern k') tp = ST_READY"
    "mtxlist k' (current (kern k)) = mtx_next k mp" "mtx_next k' = (mtx_next k)(mp := mtxlist k tp)"
  using assms(1) by (simp_all add: k'_def hand_over_def pop_mutex_def Let_def chSchReadyI_def)

text \<open>The waiting relation after the mutex \<open>mp\<close> of the current thread went to \<open>tp\<close>.\<close>

lemma waits_hand_over:
  assumes "mtx_owner k mp = Some c" and "tp \<noteq> c" and "mtx_owner k' = (mtx_owner k)(mp := Some tp)" and "wait_queue k' = (wait_queue k)(mp := q)"
  shows "waits k' w t \<longleftrightarrow> (if t = c then \<exists>m. m \<noteq> mp \<and> mtx_owner k m = Some c \<and> w \<in> set (wait_queue k m) else waits k w t \<or> t = tp \<and> w \<in> set q)"
proof (cases "t = c")
  case True
  then show ?thesis using assms(1,2) by (auto simp: waits_def assms(3,4))
next
  case False
  then have "mtx_owner k m = Some t \<Longrightarrow> m \<noteq> mp" for m using assms(1) by auto
  then have "waits k' w t \<longleftrightarrow> waits k w t \<or> t = tp \<and> w \<in> set q"
    unfolding waits_def assms(3,4) by (metis fun_upd_apply option.inject)
  then show ?thesis using False by simp
qed

text \<open>\<open>c\<close> may have a priority that is too high.\<close>

definition inherits_but :: "nat \<Rightarrow> (nat \<Rightarrow> nat \<Rightarrow> bool) \<Rightarrow> (nat \<Rightarrow> nat) \<Rightarrow> (nat \<Rightarrow> nat) \<Rightarrow> bool" where
  "inherits_but c R rp pr \<longleftrightarrow> (\<forall>t. rp t \<le> pr t) \<and> (\<forall>w t. R w t \<longrightarrow> pr w \<le> pr t) \<and>
     (\<forall>t. t \<noteq> c \<longrightarrow> pr t = rp t \<or> (\<exists>w. R w t \<and> pr w = pr t))"

lemma inherits_weaken: "inherits R rp pr \<Longrightarrow> inherits_but c R rp pr"
  by (simp add: inherits_def inherits_but_def)

lemma inherits_handover:
  assumes "inherits_but c R rp pr" and "c \<noteq> tp" and "\<And>w. w \<in> Q \<Longrightarrow> pr w \<le> pr tp"
    and "\<And>w t. R' w t \<longleftrightarrow> (if t = c then S w else R w t \<or> t = tp \<and> w \<in> Q)" and "\<And>w. S w \<Longrightarrow> R w c"
  shows "inherits_but c R' rp pr"
  using assms(1) unfolding inherits_but_def assms(4) using assms(2,3,5) by auto

lemma inherits_set:
  assumes "inherits_but c R rp pr" and "\<And>t. \<not> R c t" and "rp c \<le> np" and "\<And>w. R w c \<Longrightarrow> pr w \<le> np"
    and "np = rp c \<or> (\<exists>w. R w c \<and> pr w = np)"
  shows "inherits R rp (pr(c := np))"
proof -
  have i: "\<And>t. rp t \<le> pr t" "\<And>w t. R w t \<Longrightarrow> pr w \<le> pr t" "\<And>t. t \<noteq> c \<Longrightarrow> pr t = rp t \<or> (\<exists>w. R w t \<and> pr w = pr t)"
    using assms(1) unfolding inherits_but_def by blast+
  have "(pr(c := np)) t = rp t \<or> (\<exists>w. R w t \<and> (pr(c := np)) w = (pr(c := np)) t)" for t
    using i(3) [of t] assms(2,5) by (cases "t = c") (metis fun_upd_apply)+
  moreover have "(pr(c := np)) w \<le> (pr(c := np)) t" if "R w t" for w t using that i(2) assms(2,4) by auto
  ultimately show ?thesis using i(1) assms(3) unfolding inherits_def by auto
qed

lemma hand_over_inherits:
  assumes "locks_ok k" and "mtxlist k (current (kern k)) = Some mp" and "wait_queue k mp = tp # q"
    and "inherits_but (current (kern k)) (waits k) rp (prio (kern k))"
    and "mtx_owner k' = (mtx_owner k)(mp := Some tp)" and "wait_queue k' = (wait_queue k)(mp := q)"
  shows "inherits_but (current (kern k)) (waits k') rp (prio (kern k))"
proof -
  note f = first_waiting [OF assms(1,3)]
  have ow: "mtx_owner k mp = Some (current (kern k))" using assms(1,2) own_chain unfolding locks_ok_def by blast
  show ?thesis
    by (rule inherits_handover [OF assms(4) f(3) [symmetric] _ waits_hand_over [OF ow f(3) assms(5,6)]])
      (use f(6) in \<open>auto simp: waits_def\<close>)
qed

text \<open>Releasing one mutex.\<close>

lemma release_free:
  assumes "mutex_ok k" and "mtxlist k (current (kern k)) = Some mp" and "wait_queue k mp = []"
  shows "\<exists>k'. release_mutex mp k = Some (False, k') \<and> mutex_ok k' \<and> mtx_owner k' mp = None \<and> kern k' = kern k"
proof -
  let ?k = "drop_mutex mp (pop_mutex mp k)"
  have "locks_ok k" using assms(1) by (simp add: mutex_ok_iff)
  from drop_ok [OF this assms(2,3)] have "mutex_ok ?k" using assms(1) unfolding mutex_ok_iff by (simp add: drop_mutex_def pop_mutex_def)
  then show ?thesis using assms(3) by (simp add: release_mutex_def Let_def) (simp add: drop_mutex_def pop_mutex_def)
qed

lemma release_handover:
  assumes "mutex_ok k" and "mtxlist k (current (kern k)) = Some mp" and "wait_queue k mp = tp # q"
  obtains k' where "release_mutex mp k = Some (True, k')" and "locks_ok k'"
    and "inherits (waits k') (realprio k') (prio (kern k'))"
    and "mtx_owner k' = (mtx_owner k)(mp := Some tp)" and "wait_queue k' = (wait_queue k)(mp := q)"
    and "thd_state (kern k') tp = ST_READY" and "current (kern k') = current (kern k)"
proof -
  let ?c = "current (kern k)" and ?pr = "prio (kern k)"
  have ok: "locks_ok k" and i: "inherits_but ?c (waits k) (realprio k) ?pr" using assms(1) inherits_weaken unfolding mutex_ok_iff by blast+
  note f = first_waiting [OF ok assms(3)]
  have l: "owners_ok k" "\<forall>m. queue_ok ?pr (wait_queue k m)" "\<forall>t. 0 < realprio k t" using ok unfolding locks_ok_def queues_ok_def by blast+
  obtain ms where ms: "chain (mtx_next k) (mtx_next k mp) ms" "mp \<notin> set ms" "mtx_owner k mp = Some ?c"
    "\<forall>m. mtx_owner k m = Some ?c \<longleftrightarrow> m = mp \<or> m \<in> set ms"
    by (rule own_chain [OF l(1) assms(2)])
  define np where "np = top_prio ?pr (wait_queue k) ms (realprio k ?c)"
  note top = top_prio_is_highest [OF l(2), where ms = ms and np = "realprio k ?c", folded np_def]
  define k1 where "k1 = set_prio ?c np k"
  have k1: "locks_ok k1" using set_prio_locks [OF ok, of np] top(1) l(3) unfolding k1_def by (metis less_le_trans)
  have same: "current (kern k1) = ?c" "mtxlist k1 = mtxlist k" "wait_queue k1 = wait_queue k" "mtx_owner k1 = mtx_owner k"
    "realprio k1 = realprio k" "prio (kern k1) = ?pr(?c := np)" by (simp_all add: k1_def set_prio_def)
  let ?k = "hand_over mp tp q (pop_mutex mp k1)"
  note h = hand_over_fields [of tp k1 mp q, unfolded same, OF f(3)]
  have wp: "waiting_prio (pop_mutex mp k) (mtx_next k mp) (realprio k ?c) = Some np"
    using waiting_prio_eq [of "pop_mutex mp k" "mtx_next k mp" ms] ms(1) by (simp add: pop_mutex_def np_def)
  have "set_prio ?c np (pop_mutex mp k) = pop_mutex mp k1" by (simp add: k1_def set_prio_def pop_mutex_def)
  then have run: "release_mutex mp k = Some (True, ?k)"
    using wp assms(3) by (simp add: release_mutex_def Let_def) (simp add: pop_mutex_def)
  have lo: "locks_ok ?k" by (rule hand_over_ok [OF k1]) (simp_all add: same assms(2,3))
  have "inherits (waits ?k) (realprio k) (?pr(?c := np))"
  proof (rule inherits_set [OF hand_over_inherits [OF ok assms(2,3) i h(4,5)]])
    show "\<not> waits ?k ?c t" for t using current_waits_not(3) [OF lo] by (simp add: h)
    have w: "waits ?k w ?c \<longleftrightarrow> (\<exists>m\<in>set ms. w \<in> set (wait_queue k m))" for w
      using waits_hand_over [OF ms(3) f(3) h(4,5), of w ?c] ms(2,4) by auto
    show "np = realprio k ?c \<or> (\<exists>w. waits ?k w ?c \<and> ?pr w = np)" using top(3) unfolding w by blast
    show "?pr w \<le> np" if "waits ?k w ?c" for w using that top(2) unfolding w by blast
  qed (rule top(1))
  then show thesis using that [OF run lo] by (simp add: h)
qed

lemma reschedule_states:
  assumes "chSchRescheduleS s = Some s'" and "t \<notin> runnable s"
  shows "thd_state s' t = thd_state s t"
  using assms by (auto simp: chSchRescheduleS_def sch_reschedule_ahead_def remove_highest_def runnable_def split: if_splits list.splits)

text \<open>The queues only depend on the priorities and on who waits.\<close>

lemma queues_ok_kern:
  assumes "queues_ok k" and "prio s' = prio (kern k)"
    and "\<And>t. thd_state s' t = ST_WTMTX \<longleftrightarrow> thd_state (kern k) t = ST_WTMTX" and "\<And>t. thd_state s' t = ST_WTCOND \<longleftrightarrow> thd_state (kern k) t = ST_WTCOND"
  shows "queues_ok (k\<lparr>kern := s'\<rparr>)"
  using assms(1) unfolding queues_ok_def by (simp add: assms(2-4))

lemma runnable_states:
  assumes "ready_ok s" and "t \<in> runnable s"
  shows "thd_state s t \<in> {ST_READY, ST_CURRENT}"
  using assms unfolding ready_ok_def states_ok_def runnable_def by blast

lemma reschedule_mutex:
  assumes "locks_ok k" and "inherits (waits k) (realprio k) (prio (kern k))"
  obtains s' where "chSchRescheduleS (kern k) = Some s'" and "mutex_ok (k\<lparr>kern := s'\<rparr>)"
    and "runnable s' = runnable (kern k)" and "prio s' = prio (kern k)"
proof -
  have k: "ready_ok (kern k)" "queues_ok k" using assms(1) by (simp_all add: locks_ok_def)
  obtain s' where s': "chSchRescheduleS (kern k) = Some s'" "sched_ok s'" "runnable s' = runnable (kern k)" "prio s' = prio (kern k)"
    by (rule reschedule_ok [OF k(1)])
  have ro: "ready_ok s'" using s'(2) by (simp add: sched_ok_def)
  have same: "thd_state s' t = x \<longleftrightarrow> thd_state (kern k) t = x" if "x \<notin> {ST_READY, ST_CURRENT}" for t x
  proof (cases "t \<in> runnable (kern k)")
    case True
    then show ?thesis using that runnable_states [OF k(1) True] runnable_states [OF ro] s'(3) by auto
  next
    case False
    then show ?thesis using reschedule_states [OF s'(1)] by simp
  qed
  have "queues_ok (k\<lparr>kern := s'\<rparr>)" using k(2) s'(4) by (rule queues_ok_kern) (simp_all add: same)
  moreover have "waits (k\<lparr>kern := s'\<rparr>) = waits k" by (simp add: waits_def fun_eq_iff)
  ultimately have "mutex_ok (k\<lparr>kern := s'\<rparr>)"
    using assms s'(2,4) by (simp add: mutex_ok_def locks_ok_def owners_ok_def)
  then show thesis using that [OF s'(1)] s' by blast
qed

lemma unlock_ok:
  assumes "mutex_ok k" and "mtxlist k (current (kern k)) = Some mp"
  shows "\<exists>k'. chMtxUnlock mp k = Some k' \<and> mutex_ok k' \<and>
    (case wait_queue k mp of
       [] \<Rightarrow> mtx_owner k' mp = None \<and> kern k' = kern k
     | tp # q \<Rightarrow> mtx_owner k' mp = Some tp \<and> wait_queue k' mp = q \<and> tp \<in> runnable (kern k'))"
proof (cases "wait_queue k mp")
  case Nil
  from release_free [OF assms Nil] show ?thesis using Nil by (auto simp: chMtxUnlock_def)
next
  case (Cons tp q)
  obtain k1 where rel: "release_mutex mp k = Some (True, k1)" and k1: "locks_ok k1"
    "inherits (waits k1) (realprio k1) (prio (kern k1))"
    "mtx_owner k1 = (mtx_owner k)(mp := Some tp)" "wait_queue k1 = (wait_queue k)(mp := q)" "thd_state (kern k1) tp = ST_READY"
    by (rule release_handover [OF assms Cons])
  obtain s' where s': "chSchRescheduleS (kern k1) = Some s'" "mutex_ok (k1\<lparr>kern := s'\<rparr>)" "runnable s' = runnable (kern k1)"
    by (rule reschedule_mutex [OF k1(1,2)])
  have "tp \<in> runnable (kern k1)" using k1(1,5) unfolding locks_ok_def ready_ok_def states_ok_def runnable_def by blast
  then show ?thesis using Cons rel s' k1(3,4) by (simp add: chMtxUnlock_def)
qed

text \<open>Releasing all mutexes: the loop ends, and the priority is computed once.\<close>

lemma unlock_all_loop_ok:
  assumes "chain (mtx_next k) (mtxlist k (current (kern k))) ms" and "distinct ms"
    and "locks_ok k" and "inherits_but (current (kern k)) (waits k) (realprio k) (prio (kern k))"
  shows "\<exists>k'. unlock_all_loop k = Some k' \<and> locks_ok k' \<and> mtxlist k' (current (kern k)) = None \<and> current (kern k') = current (kern k) \<and>
    inherits_but (current (kern k)) (waits k') (realprio k') (prio (kern k')) \<and> realprio k' = realprio k"
  using assms
proof (induction ms arbitrary: k)
  case Nil
  then show ?case by (subst unlock_all_loop.simps) simp
next
  case (Cons mp ms)
  let ?c = "current (kern k)"
  have top: "mtxlist k ?c = Some mp" and rest: "chain (mtx_next k) (mtx_next k mp) ms" and d: "distinct ms" "mp \<notin> set ms" using Cons.prems by simp_all
  define k1 where "k1 = (case wait_queue k mp of [] \<Rightarrow> drop_mutex mp (pop_mutex mp k) | tp # q \<Rightarrow> hand_over mp tp q (pop_mutex mp k))"
  have wq: "wait_queue (pop_mutex mp k) = wait_queue k" by (simp add: pop_mutex_def)
  have step: "unlock_all_loop k = unlock_all_loop k1"
    by (subst unlock_all_loop.simps) (simp add: top k1_def Let_def wq)
  have "locks_ok k1 \<and> inherits_but ?c (waits k1) (realprio k1) (prio (kern k1)) \<and> chain (mtx_next k1) (mtxlist k1 ?c) ms \<and>
    current (kern k1) = ?c \<and> realprio k1 = realprio k"
  proof (cases "wait_queue k mp")
    case Nil
    then show ?thesis
      using drop_ok [OF Cons.prems(3) top Nil] Cons.prems(4) rest by (simp add: k1_def) (simp add: drop_mutex_def pop_mutex_def)
  next
    case q: (Cons tp q)
    note f = first_waiting [OF Cons.prems(3) q]
    note h = hand_over_fields [of tp k mp q, OF f(3)]
    show ?thesis
      using hand_over_ok [OF Cons.prems(3) top q] hand_over_inherits [OF Cons.prems(3) top q Cons.prems(4) h(4,5)] rest d(2)
      by (simp add: k1_def q h)
  qed
  then show ?case using Cons.IH [of k1] d(1) step by auto
qed

lemma unlock_all_ok:
  assumes "mutex_ok k"
  shows "\<exists>k'. chMtxUnlockAllS k = Some k' \<and> mutex_ok k' \<and> (\<forall>m. mtx_owner k' m \<noteq> Some (current (kern k))) \<and>
    prio (kern k') (current (kern k)) = realprio k (current (kern k))"
proof -
  let ?c = "current (kern k)"
  have lo: "locks_ok k" and i: "inherits (waits k) (realprio k) (prio (kern k))" using assms by (simp_all add: mutex_ok_iff)
  then have ow: "owners_ok k" by (simp add: locks_ok_def)
  have none: "mtx_owner k0 m \<noteq> Some ?c" "\<not> waits k0 w ?c" if ow0: "owners_ok k0" and end0: "mtxlist k0 ?c = None" for k0 m w
  proof -
    obtain ms where "chain (mtx_next k0) (mtxlist k0 ?c) ms" "distinct ms" "set ms = {m. mtx_owner k0 m = Some ?c}" by (rule owners_chain [OF ow0])
    then have "{m. mtx_owner k0 m = Some ?c} = {}" using end0 by (cases ms) auto
    then show "mtx_owner k0 m \<noteq> Some ?c" "\<not> waits k0 w ?c" by (auto simp: waits_def)
  qed
  show ?thesis
  proof (cases "mtxlist k ?c")
    case None
    then have "prio (kern k) ?c = realprio k ?c" using none(2) [OF ow] i unfolding inherits_def by blast
    then show ?thesis using None none(1) [OF ow] assms by (simp add: chMtxUnlockAllS_def)
  next
    case (Some mp)
    obtain ms where "chain (mtx_next k) (mtxlist k ?c) ms" "distinct ms" by (rule owners_chain [OF ow])
    from unlock_all_loop_ok [OF this lo inherits_weaken [OF i]] obtain k1 where run: "unlock_all_loop k = Some k1"
      and k1: "locks_ok k1" "mtxlist k1 ?c = None" "current (kern k1) = ?c" "inherits_but ?c (waits k1) (realprio k1) (prio (kern k1))"
        "realprio k1 = realprio k" by blast
    have o1: "owners_ok k1" "0 < realprio k ?c" using k1(1,5) by (simp_all add: locks_ok_def)
    define k2 where "k2 = set_prio ?c (realprio k ?c) k1"
    have k2: "waits k2 = waits k1" "realprio k2 = realprio k" "prio (kern k2) = (prio (kern k1))(?c := realprio k ?c)" "mtx_owner k2 = mtx_owner k1"
      by (simp_all add: k2_def set_prio_def waits_def fun_eq_iff k1(5))
    have "locks_ok k2" using set_prio_locks [OF k1(1) o1(2)] by (simp add: k2_def k1(3))
    moreover have "inherits (waits k2) (realprio k2) (prio (kern k2))"
      unfolding k2 using k1(4) current_waits_not(3) [OF k1(1)] none(2) [OF o1(1) k1(2)] by (intro inherits_set) (simp_all add: k1(3,5))
    ultimately obtain s' where "chSchRescheduleS (kern k2) = Some s'" "mutex_ok (k2\<lparr>kern := s'\<rparr>)" "prio s' = prio (kern k2)"
      by (rule reschedule_mutex)
    then show ?thesis using Some run none(1) [OF o1(1) k1(2)] by (simp add: chMtxUnlockAllS_def k1(3,5) k2 flip: k2_def)
  qed
qed

subsection \<open>Sequences of calls\<close>

text \<open>
  Mutexes are unlocked in the reverse order of locking. The other calls of the kernel leave the
  threads alone that wait for a mutex or a condition.
\<close>

inductive mtx_step :: "mtx_kernel \<Rightarrow> mtx_kernel \<Rightarrow> bool" where
  lock: "chMtxLockS mp k = Some k' \<Longrightarrow> mtx_step k k'"
| trylock: "mtx_step k (snd (chMtxTryLockS mp k))"
| unlock: "\<lbrakk>mtxlist k (current (kern k)) = Some mp; chMtxUnlock mp k = Some k'\<rbrakk> \<Longrightarrow> mtx_step k k'"
| unlock_all: "chMtxUnlockAllS k = Some k' \<Longrightarrow> mtx_step k k'"
| init: "mtx_owner k mp = None \<Longrightarrow> mtx_step k (chMtxObjectInit mp k)"
| other: "\<lbrakk>kernel_step (kern k) s'; \<forall>t. \<forall>x\<in>{ST_WTMTX, ST_WTCOND}. thd_state s' t = x \<longleftrightarrow> thd_state (kern k) t = x\<rbrakk> \<Longrightarrow>
    mtx_step k (k\<lparr>kern := s'\<rparr>)"

lemma fold_ready_prio [simp]: "prio (fold chSchReadyI ts s) = prio s"
  by (induction ts arbitrary: s) (simp_all add: chSchReadyI_def)

lemma kernel_step_prio: "kernel_step s s' \<Longrightarrow> prio s' = prio s"
  by (induction rule: kernel_step.induct)
    (auto simp: chSchGoSleepS_def chSchWakeupS_def chSchDoYieldS_def chSchPreemption_def sch_reschedule_behind_def
      sch_reschedule_ahead_def remove_highest_def Let_def split: if_splits list.splits)

lemma mtx_step_ok:
  assumes "mtx_step k k'" and "mutex_ok k"
  shows "mutex_ok k'"
  using assms
proof cases
  case (lock mp)
  show ?thesis
  proof (cases "mtx_owner k mp = None \<or> ready (kern k) \<noteq> []")
    case True
    then show ?thesis
      using lock take_ok [OF assms(2)] lock_ok [OF assms(2), of mp] by (auto simp: chMtxLockS_def Let_def)
  next
    case False
    then obtain ow where ow: "mtx_owner k mp = Some ow" "ready (kern k) = []" by auto
    have ok: "queues_ok k" "sched_ok (kern k)" "inherits (waits k) (realprio k) (prio (kern k))"
      using assms(2) unfolding mutex_ok_def by blast+
    obtain k1 where "inherit_prio (prio (kern k) (current (kern k))) ow k = Some k1" "same_owners k k1"
      using inherit_ok [OF ok(1,2) refl boosting_start [OF ok(3)]] by blast
    moreover from this(2) ow(2) have "ready (kern k1) = []" by (simp add: same_owners_def)
    ultimately show ?thesis using lock ow(1) by (simp add: chMtxLockS_def Let_def chSchGoSleepS_def remove_highest_def)
  qed
next
  case (trylock mp)
  then show ?thesis using trylock_ok [OF assms(2)] by simp
next
  case (unlock mp)
  from unlock_ok [OF assms(2) unlock(1)] unlock(2) show ?thesis by auto
next
  case unlock_all
  then show ?thesis using unlock_all_ok [OF assms(2)] by auto
next
  case (init mp)
  then have "(wait_queue k)(mp := []) = wait_queue k" "(mtx_owner k)(mp := None) = mtx_owner k"
    using assms(2) by (auto simp: mutex_ok_def queues_ok_def)
  then show ?thesis using init(1) assms(2) by (simp add: chMtxObjectInit_def)
next
  case (other s')
  have "queues_ok k'" unfolding other(1)
    using assms(2) other(3) kernel_step_prio [OF other(2)] by (intro queues_ok_kern) (simp_all add: mutex_ok_def)
  moreover have "sched_ok s'" using kernel_step_ok [OF other(2)] assms(2) by (simp add: mutex_ok_def)
  moreover have "waits k' = waits k" "owners_ok k' = owners_ok k" by (simp_all add: other(1) waits_def owners_ok_def fun_eq_iff)
  ultimately show ?thesis using assms(2) kernel_step_prio [OF other(2)] by (simp add: mutex_ok_def other(1))
qed

lemma mtx_steps_ok: "mtx_step\<^sup>*\<^sup>* k k' \<Longrightarrow> mutex_ok k \<Longrightarrow> mutex_ok k'"
  by (induction rule: rtranclp_induct) (auto intro: mtx_step_ok)

text \<open>The current thread 1 of \<open>sched_example\<close> locks the mutex 0 that the thread 2 of a lower priority has.\<close>

definition mtx_example :: mtx_kernel where
  "mtx_example = \<lparr>kern = sched_example, mtx_owner = (\<lambda>m. if m = 0 then Some 2 else None), wait_queue = (\<lambda>_. []), cond_queue = (\<lambda>_. []),
     mtx_next = (\<lambda>_. None), mtxlist = (\<lambda>t. if t = 2 then Some 0 else None), realprio = prio sched_example, wtobj = (\<lambda>_. 0)\<rparr>"

lemma mtx_example_ok: "mutex_ok mtx_example"
proof -
  have "\<exists>ms. chain (mtx_next mtx_example) (mtxlist mtx_example t) ms \<and> distinct ms \<and> set ms = {m. mtx_owner mtx_example m = Some t}" for t
    by (rule exI [of _ "if t = 2 then [0] else []"]) (auto simp: mtx_example_def)
  then show ?thesis
    using sched_example_ok(1)
    by (auto simp: mutex_ok_def owners_ok_def queues_ok_def queue_ok_def inherits_def waits_def mtx_example_def sched_example_def)
qed

lemma mtx_example_lock:
  "chMtxLockS 0 mtx_example \<noteq> None" "prio (kern (the (chMtxLockS 0 mtx_example))) 2 = 4"
  "wait_queue (the (chMtxLockS 0 mtx_example)) 0 = [1]" "mtx_owner (the (chMtxLockS 0 mtx_example)) 0 = Some 2"
  "current (kern (the (chMtxLockS 0 mtx_example))) = 2" "mtxlist (the (chMtxLockS 0 mtx_example)) 2 = Some 0"
  by (simp_all add: chMtxLockS_def mtx_example_def sched_example_def inherit_prio.simps set_prio_def Let_def chSchGoSleepS_def
      remove_highest_def chSchReadyI_def ch_sch_prio_insert_def sch_ready_behind_def pqueue_insert_behind_def)

text \<open>C18. Priority inheritance is exact: after any sequence of lock, try, unlock (in reverse order
  of locking), unlock-all and other kernel calls no thread that waits for a mutex has a higher
  priority than its owner, every priority is the own one of the thread or that of a thread
  waiting for it, the wait queues and the lists of owned mutexes are in order, and the thread of
  the highest priority runs.\<close>

theorem mutex_priorities:
  assumes "mtx_step\<^sup>*\<^sup>* k k'" and "mutex_ok k"
  shows "mutex_ok k' \<and>
    (\<forall>m w t. w \<in> set (wait_queue k' m) \<and> mtx_owner k' m = Some t \<longrightarrow> prio (kern k') w \<le> prio (kern k') t) \<and>
    (\<forall>t. prio (kern k') t = realprio k' t \<or>
      (\<exists>m w. w \<in> set (wait_queue k' m) \<and> mtx_owner k' m = Some t \<and> prio (kern k') t = prio (kern k') w)) \<and>
    (\<forall>t\<in>set (ready (kern k')). prio (kern k') t \<le> prio (kern k') (current (kern k')))"
proof -
  have ok: "mutex_ok k'" by (rule mtx_steps_ok [OF assms])
  then have i: "inherits (waits k') (realprio k') (prio (kern k'))" and s: "sched_ok (kern k')" unfolding mutex_ok_def by blast+
  show ?thesis
    using ok i s unfolding inherits_def waits_def sched_ok_iff by metis
qed

theorem mutex_priorities_witness:
  "let k = the (chMtxLockS 0 mtx_example) in
   prio (kern k) 2 = 4 \<and> realprio mtx_example 2 = 3 \<and> prio (kern k) 1 \<le> prio (kern k) 2"
proof -
  let ?k = "the (chMtxLockS 0 mtx_example)"
  have "mtx_step mtx_example ?k" using mtx_example_lock(1) by (intro mtx_step.lock) auto
  then have "mtx_step\<^sup>*\<^sup>* mtx_example ?k" by blast
  from mutex_priorities [OF this mtx_example_ok]
  have "\<forall>m w t. w \<in> set (wait_queue ?k m) \<and> mtx_owner ?k m = Some t \<longrightarrow> prio (kern ?k) w \<le> prio (kern ?k) t" by blast
  from this [rule_format, of 1 0 2] have "prio (kern ?k) 1 \<le> prio (kern ?k) 2" using mtx_example_lock(3,4) by simp
  moreover have "realprio mtx_example 2 = 3" by (simp add: mtx_example_def sched_example_def)
  ultimately show ?thesis using mtx_example_lock(2) unfolding Let_def by blast
qed

text \<open>C19. chMtxUnlock of the mutex that was locked last always returns: the mutex goes to the first
  of its queue, which has the highest priority of all waiting threads and becomes runnable, or
  is free if nobody waits, and then no thread is switched.\<close>

theorem unlock_serves_highest:
  assumes "mutex_ok k" and "mtxlist k (current (kern k)) = Some mp"
  shows "\<exists>k'. chMtxUnlock mp k = Some k' \<and> mutex_ok k' \<and>
    (case wait_queue k mp of
       [] \<Rightarrow> mtx_owner k' mp = None \<and> kern k' = kern k
     | tp # q \<Rightarrow> mtx_owner k' mp = Some tp \<and> wait_queue k' mp = q \<and> tp \<in> runnable (kern k') \<and>
         (\<forall>w\<in>set q. prio (kern k) w \<le> prio (kern k) tp))"
proof -
  have "queue_ok (prio (kern k)) (wait_queue k mp)" using assms(1) by (simp add: mutex_ok_def queues_ok_def)
  then show ?thesis using unlock_ok [OF assms] by (auto simp: queue_ok_def split: list.splits)
qed

theorem unlock_serves_highest_witness:
  "\<exists>k'. chMtxUnlock 0 (the (chMtxLockS 0 mtx_example)) = Some k' \<and> mtx_owner k' 0 = Some 1 \<and> 1 \<in> runnable (kern k')"
proof -
  let ?k = "the (chMtxLockS 0 mtx_example)"
  have "mtx_step mtx_example ?k" using mtx_example_lock(1) by (intro mtx_step.lock) auto
  then have "mutex_ok ?k" by (rule mtx_step_ok [OF _ mtx_example_ok])
  moreover have "mtxlist ?k (current (kern ?k)) = Some 0" using mtx_example_lock(5,6) by simp
  ultimately show ?thesis using unlock_serves_highest [of ?k 0] mtx_example_lock(3) by auto
qed

end
