(* ===== verification/W25_Driver.thy ===== *)
theory W25_Driver
  imports Prelude
begin

text \<open>
  The serial flash driver \<^verbatim>\<open>src/w25qxx/w25qxx.c\<close>: reading, page programming, sector erase and the
  write of arbitrary data that saves, erases and restores a sector where it has to. The driver
  has three variants of every transfer: single SPI, dual or quad SPI on one line, and QSPI on four
  lines. They differ in how a command is put on the bus, which is \<open>bus_lines\<close> here.

  A pointer and a length are the list of the bytes of the region; a null pointer of length 0 is
  the empty list. The handle is split into the linked functions and the mutable part
  \<open>w25_state\<close>, which holds the environment of the bus as well. Messages are written without
  their final newline.
\<close>

text \<open>The parameters of a transfer; the alternate bytes of the bus are not used by any call.\<close>

record xfer =
  instruction :: u8
  instruction_line :: u8
  address :: u32
  address_line :: u8
  address_len :: u8
  dummy_cycles :: u8
  data_line :: u8

record 'e w25_bus =
  spi_qspi_write_read :: "xfer \<Rightarrow> u8 list \<Rightarrow> u8 list \<Rightarrow> ('e, u8 \<times> u8 list) state"
  w25_delay_ms :: "u32 \<Rightarrow> ('e, unit) state"
  w25_delay_us :: "u32 \<Rightarrow> ('e, unit) state"
  w25_debug_print :: "string \<Rightarrow> ('e, unit) state"

record 'e w25_state =
  w25_inited :: u8
  w25_type :: u16
  w25_address_mode :: u8
  w25_param :: u8
  w25_dummy :: u8
  dual_quad_spi_enable :: u8
  spi_qspi :: u8
  w25_buf :: "u8 list"
  buf_4k :: "u8 list"
  w25_env :: 'e

abbreviation (input) W25Q64 :: u16 where "W25Q64 \<equiv> 0xEF16"
abbreviation (input) W25Q256 :: u16 where "W25Q256 \<equiv> 0xEF18"
abbreviation (input) W25QXX_INTERFACE_SPI :: u8 where "W25QXX_INTERFACE_SPI \<equiv> 0"
abbreviation (input) W25QXX_ADDRESS_MODE_3_BYTE :: u8 where "W25QXX_ADDRESS_MODE_3_BYTE \<equiv> 0"
abbreviation (input) W25QXX_ADDRESS_MODE_4_BYTE :: u8 where "W25QXX_ADDRESS_MODE_4_BYTE \<equiv> 1"
abbreviation (input) W25QXX_COMMAND_WRITE_ENABLE :: u8 where "W25QXX_COMMAND_WRITE_ENABLE \<equiv> 0x06"
abbreviation (input) W25QXX_COMMAND_READ_STATUS_REG1 :: u8 where "W25QXX_COMMAND_READ_STATUS_REG1 \<equiv> 0x05"
abbreviation (input) W25QXX_COMMAND_PAGE_PROGRAM :: u8 where "W25QXX_COMMAND_PAGE_PROGRAM \<equiv> 0x02"
abbreviation (input) W25QXX_COMMAND_SECTOR_ERASE_4K :: u8 where "W25QXX_COMMAND_SECTOR_ERASE_4K \<equiv> 0x20"
abbreviation (input) W25QXX_COMMAND_FAST_READ :: u8 where "W25QXX_COMMAND_FAST_READ \<equiv> 0x0B"
abbreviation (input) W25QXX_ERASE_4K_TIMEOUT_MS :: nat where "W25QXX_ERASE_4K_TIMEOUT_MS \<equiv> 400"
abbreviation (input) W25QXX_PAGE_PROGRAM_TIMEOUT_MS :: nat where "W25QXX_PAGE_PROGRAM_TIMEOUT_MS \<equiv> 3"

subsection \<open>Transfers\<close>

definition on_bus :: "('e, 'a) state \<Rightarrow> ('e w25_state, 'a) state" where
  "on_bus m = State (\<lambda>s. let (a, e) = run_state m (w25_env s) in (a, s\<lparr>w25_env := e\<rparr>))"

definition w25_print :: "'e w25_bus \<Rightarrow> string \<Rightarrow> ('e w25_state, unit) state" where
  "w25_print h msg = on_bus (w25_debug_print h msg)"

definition spi_xfer :: xfer where
  "spi_xfer = \<lparr>instruction = 0, instruction_line = 0, address = 0, address_line = 0, address_len = 0,
     dummy_cycles = 0, data_line = 1\<rparr>"

definition a_w25qxx_spi_write_read :: "'e w25_bus \<Rightarrow> u8 list \<Rightarrow> u8 list \<Rightarrow> ('e w25_state, u8 \<times> u8 list) state" where
  "a_w25qxx_spi_write_read h in_buf out_buf = do {
     (res, out_buf) \<leftarrow> on_bus (spi_qspi_write_read h spi_xfer in_buf out_buf);
     if res \<noteq> 0 then ret (1, out_buf) else ret (0, out_buf) }"

definition a_w25qxx_qspi_write_read ::
  "'e w25_bus \<Rightarrow> xfer \<Rightarrow> u8 list \<Rightarrow> u8 list \<Rightarrow> ('e w25_state, u8 \<times> u8 list) state" where
  "a_w25qxx_qspi_write_read h x in_buf out_buf = do {
     (res, out_buf) \<leftarrow> on_bus (spi_qspi_write_read h x in_buf out_buf);
     if res \<noteq> 0 then ret (1, out_buf) else ret (0, out_buf) }"

text \<open>\<open>None\<close> is single SPI, \<open>Some n\<close> a command on \<open>n\<close> lines.\<close>

definition bus_lines :: "'e w25_state \<Rightarrow> u8 option" where
  "bus_lines s =
     (if spi_qspi s = W25QXX_INTERFACE_SPI then (if dual_quad_spi_enable s \<noteq> 0 then Some 1 else None) else Some 4)"

text \<open>A failed transfer prints a message and ends the function with an error value.\<close>

definition w25_try ::
  "'e w25_bus \<Rightarrow> string \<Rightarrow> 'a \<Rightarrow> ('e w25_state, u8) state \<Rightarrow> ('e w25_state, 'a) state \<Rightarrow> ('e w25_state, 'a) state" where
  "w25_try h msg err m k = do {
     res \<leftarrow> m;
     if res \<noteq> 0 then do { w25_print h msg; ret err } else k }"

definition write_enable :: "'e w25_bus \<Rightarrow> ('e w25_state, u8) state" where
  "write_enable h = do {
     s \<leftarrow> getst;
     (res, _) \<leftarrow> (case bus_lines s of
        None \<Rightarrow> a_w25qxx_spi_write_read h [W25QXX_COMMAND_WRITE_ENABLE] []
      | Some n \<Rightarrow> a_w25qxx_qspi_write_read h
          \<lparr>instruction = W25QXX_COMMAND_WRITE_ENABLE, instruction_line = n, address = 0, address_line = 0, address_len = 0,
           dummy_cycles = 0, data_line = 0\<rparr> [] []);
     ret res }"

definition addr_byte :: "nat \<Rightarrow> u32 \<Rightarrow> u8" where
  "addr_byte k addr = ucast (drop_bit (8 * k) addr AND 0xFF)"

definition write_extended_addr :: "'e w25_bus \<Rightarrow> u32 \<Rightarrow> ('e w25_state, u8) state" where
  "write_extended_addr h addr = do {
     s \<leftarrow> getst;
     (res, _) \<leftarrow> (case bus_lines s of
        None \<Rightarrow> a_w25qxx_spi_write_read h [0xC5, addr_byte 3 addr] []
      | Some n \<Rightarrow> a_w25qxx_qspi_write_read h
          \<lparr>instruction = 0xC5, instruction_line = n, address = 0, address_line = 0, address_len = 0,
           dummy_cycles = 0, data_line = n\<rparr> [addr_byte 3 addr] []);
     ret res }"

text \<open>The bytes of an address of three or four bytes.\<close>

definition addr_list :: "nat \<Rightarrow> u32 \<Rightarrow> u8 list" where
  "addr_list n addr = map (\<lambda>k. addr_byte k addr) (rev [0..<n])"

subsection \<open>Reading\<close>

definition fast_read :: "'e w25_bus \<Rightarrow> nat \<Rightarrow> u32 \<Rightarrow> u8 list \<Rightarrow> ('e w25_state, u8 \<times> u8 list) state" where
  "fast_read h alen addr data = do {
     s \<leftarrow> getst;
     (res, data) \<leftarrow> (case bus_lines s of
        None \<Rightarrow> a_w25qxx_spi_write_read h (W25QXX_COMMAND_FAST_READ # addr_list alen addr @ [0x00]) data
      | Some n \<Rightarrow> a_w25qxx_qspi_write_read h
          \<lparr>instruction = W25QXX_COMMAND_FAST_READ, instruction_line = n, address = addr, address_line = n,
           address_len = of_nat alen, dummy_cycles = (if n = 1 then 8 else w25_dummy s), data_line = n\<rparr> [] data);
     if res \<noteq> 0 then do { w25_print h ''w25qxx: fast read failed.''; ret (1, data) } else ret (0, data) }"

definition read_with :: "u8 \<Rightarrow> 'e w25_bus \<Rightarrow> u32 \<Rightarrow> u8 list \<Rightarrow> ('e w25_state, u8 \<times> u8 list) state" where
  "read_with invalid h addr data = do {
     s \<leftarrow> getst;
     if w25_address_mode s = W25QXX_ADDRESS_MODE_3_BYTE then
       if w25_type s \<ge> W25Q256 then
         w25_try h ''w25qxx: write enable failed.'' (1, data) (write_enable h)
           (w25_try h ''w25qxx: write extended addr register failed.'' (1, data) (write_extended_addr h addr)
             (fast_read h 3 addr data))
       else fast_read h 3 addr data
     else if w25_address_mode s = W25QXX_ADDRESS_MODE_4_BYTE \<and> w25_type s \<ge> W25Q256 then fast_read h 4 addr data
     else do { w25_print h ''w25qxx: address mode is invalid.''; ret (invalid, data) } }"

definition a_w25qxx_read :: "'e w25_bus \<Rightarrow> u32 \<Rightarrow> u8 list \<Rightarrow> ('e w25_state, u8 \<times> u8 list) state" where
  "a_w25qxx_read = read_with 1"

definition w25qxx_read :: "'e w25_bus option \<Rightarrow> u32 \<Rightarrow> u8 list \<Rightarrow> ('e w25_state, u8 \<times> u8 list) state" where
  "w25qxx_read handle addr data =
     (case handle of
        None \<Rightarrow> ret (2, data)
      | Some h \<Rightarrow> do {
          s \<leftarrow> getst;
          if w25_inited s \<noteq> 1 then ret (3, data) else read_with 4 h addr data })"

subsection \<open>Erasing and programming\<close>

definition read_status1 :: "'e w25_bus \<Rightarrow> ('e w25_state, u8 \<times> u8) state" where
  "read_status1 h = do {
     s \<leftarrow> getst;
     (res, out) \<leftarrow> (case bus_lines s of
        None \<Rightarrow> a_w25qxx_spi_write_read h [W25QXX_COMMAND_READ_STATUS_REG1] [0]
      | Some n \<Rightarrow> a_w25qxx_qspi_write_read h
          \<lparr>instruction = W25QXX_COMMAND_READ_STATUS_REG1, instruction_line = n, address = 0, address_line = 0, address_len = 0,
           dummy_cycles = 0, data_line = n\<rparr> [] [0]);
     ret (res, hd out) }"

fun wait_ready :: "'e w25_bus \<Rightarrow> string \<Rightarrow> string \<Rightarrow> u8 \<Rightarrow> ('e, unit) state \<Rightarrow> nat \<Rightarrow> ('e w25_state, u8) state" where
  "wait_ready h failed late late_code delay 0 = do { w25_print h late; ret late_code }"
| "wait_ready h failed late late_code delay (Suc timeout) = do {
     (res, status) \<leftarrow> read_status1 h;
     if res \<noteq> 0 then do { w25_print h failed; ret 1 }
     else if status AND 0x01 = 0x00 then ret 0
     else do { on_bus delay; wait_ready h failed late late_code delay timeout } }"

text \<open>
  The common course of an erase and of a page program: enable writing, select the upper address
  byte of a large chip, send the command with three or four address bytes.
\<close>

definition modify_command ::
  "'e w25_bus \<Rightarrow> u8 \<Rightarrow> u32 \<Rightarrow> (nat \<Rightarrow> ('e w25_state, u8) state) \<Rightarrow> ('e w25_state, u8) state \<Rightarrow> ('e w25_state, u8) state" where
  "modify_command h invalid addr command k =
     w25_try h ''w25qxx: write enable failed.'' 1 (write_enable h) (do {
       s \<leftarrow> getst;
       if w25_address_mode s = W25QXX_ADDRESS_MODE_3_BYTE then
         if w25_type s \<ge> W25Q256 then
           w25_try h ''w25qxx: write extended addr register failed.'' 1 (write_extended_addr h addr)
             (w25_try h ''w25qxx: write enable failed.'' 1 (write_enable h)
               (do { res \<leftarrow> command 3; if res \<noteq> 0 then ret res else k }))
         else do { res \<leftarrow> command 3; if res \<noteq> 0 then ret res else k }
       else if w25_address_mode s = W25QXX_ADDRESS_MODE_4_BYTE \<and> w25_type s \<ge> W25Q256 then
         do { res \<leftarrow> command 4; if res \<noteq> 0 then ret res else k }
       else do { w25_print h ''w25qxx: address mode is invalid.''; ret invalid } })"

definition erase_command :: "'e w25_bus \<Rightarrow> u32 \<Rightarrow> nat \<Rightarrow> ('e w25_state, u8) state" where
  "erase_command h addr alen = do {
     s \<leftarrow> getst;
     (res, _) \<leftarrow> (case bus_lines s of
        None \<Rightarrow> a_w25qxx_spi_write_read h (W25QXX_COMMAND_SECTOR_ERASE_4K # addr_list alen addr) []
      | Some n \<Rightarrow> a_w25qxx_qspi_write_read h
          \<lparr>instruction = W25QXX_COMMAND_SECTOR_ERASE_4K, instruction_line = n, address = addr, address_line = n,
           address_len = of_nat alen, dummy_cycles = 0, data_line = 0\<rparr> [] []);
     if res \<noteq> 0 then do { w25_print h ''w25qxx: sector erase 4k failed.''; ret 1 } else ret 0 }"

definition erase_with :: "u8 \<Rightarrow> u8 \<Rightarrow> 'e w25_bus \<Rightarrow> u32 \<Rightarrow> ('e w25_state, u8) state" where
  "erase_with invalid late h addr =
     modify_command h invalid addr (erase_command h addr)
       (wait_ready h ''w25qxx: get status1 failed.'' ''w25qxx: sector erase 4k timeout.'' late (w25_delay_ms h 1)
         W25QXX_ERASE_4K_TIMEOUT_MS)"

definition a_w25qxx_erase_sector :: "'e w25_bus \<Rightarrow> u32 \<Rightarrow> ('e w25_state, u8) state" where
  "a_w25qxx_erase_sector = erase_with 1 1"

definition w25qxx_sector_erase_4k :: "'e w25_bus option \<Rightarrow> u32 \<Rightarrow> ('e w25_state, u8) state" where
  "w25qxx_sector_erase_4k handle addr =
     (case handle of
        None \<Rightarrow> ret 2
      | Some h \<Rightarrow> do {
          s \<leftarrow> getst;
          if w25_inited s \<noteq> 1 then ret 3
          else if addr mod 4096 \<noteq> 0 then do { w25_print h ''w25qxx: addr is invalid.''; ret 4 }
          else erase_with 5 6 h addr })"

text \<open>In single SPI the command and the data are assembled in the inner buffer of the handle.\<close>

definition program_command :: "'e w25_bus \<Rightarrow> u32 \<Rightarrow> u8 list \<Rightarrow> nat \<Rightarrow> ('e w25_state, u8) state" where
  "program_command h addr data alen = do {
     s \<leftarrow> getst;
     (res, _) \<leftarrow> (case bus_lines s of
        None \<Rightarrow> (let bytes = W25QXX_COMMAND_PAGE_PROGRAM # addr_list alen addr @ data in do {
          modify (\<lambda>s. s\<lparr>w25_buf := mem_write 0 bytes (w25_buf s)\<rparr>);
          a_w25qxx_spi_write_read h bytes [] })
      | Some n \<Rightarrow> a_w25qxx_qspi_write_read h
          \<lparr>instruction = W25QXX_COMMAND_PAGE_PROGRAM, instruction_line = n, address = addr, address_line = n,
           address_len = of_nat alen, dummy_cycles = 0, data_line = n\<rparr> data []);
     if res \<noteq> 0 then do { w25_print h ''w25qxx: page program failed.''; ret 1 } else ret 0 }"

definition a_w25qxx_page_program :: "'e w25_bus \<Rightarrow> u32 \<Rightarrow> u8 list \<Rightarrow> ('e w25_state, u8) state" where
  "a_w25qxx_page_program h addr data = do {
     s \<leftarrow> getst;
     modify_command h 1 addr (program_command h addr data)
       (wait_ready h
         (if bus_lines s = None then ''w25qxx: get status1 failed.'' else ''w25qxx: page program failed.'')
         ''w25qxx: page program timeout.'' 1 (w25_delay_us h 10) (W25QXX_PAGE_PROGRAM_TIMEOUT_MS * 100)) }"

subsection \<open>Writing\<close>

text \<open>
  The loops of \<open>a_w25qxx_write_no_check\<close> and \<open>w25qxx_write\<close>, with the number of bytes of the
  current page or sector as an argument. It never exceeds the length of the data, and it is
  0 only for empty data.
\<close>

function write_pages :: "'e w25_bus \<Rightarrow> u32 \<Rightarrow> u8 list \<Rightarrow> nat \<Rightarrow> ('e w25_state, u8) state" where
  "write_pages h addr data page_remain =
     (let rest =
        (if length data \<le> page_remain \<or> page_remain = 0 then ret 0
         else write_pages h (addr + of_nat page_remain) (drop page_remain data) (min 256 (length data - page_remain)))
      in w25_try h ''w25qxx: page program failed.'' 1 (a_w25qxx_page_program h addr (take page_remain data)) rest)"
  by pat_completeness auto

termination
  by (relation "measure (\<lambda>(h, addr, data, n). length data)") auto

declare write_pages.simps [simp del]

definition a_w25qxx_write_no_check :: "'e w25_bus \<Rightarrow> u32 \<Rightarrow> u8 list \<Rightarrow> ('e w25_state, u8) state" where
  "a_w25qxx_write_no_check h addr data = write_pages h addr data (min (256 - unat addr mod 256) (length data))"

definition write_sector :: "'e w25_bus \<Rightarrow> u32 \<Rightarrow> nat \<Rightarrow> u32 \<Rightarrow> u8 list \<Rightarrow> ('e w25_state, u8) state \<Rightarrow> ('e w25_state, u8) state" where
  "write_sector h sec_pos sec_off addr data rest = do {
     s \<leftarrow> getst;
     (res, sector) \<leftarrow> a_w25qxx_read h (sec_pos * 4096) (take 4096 (buf_4k s));
     modify (\<lambda>s. s\<lparr>buf_4k := mem_write 0 sector (buf_4k s)\<rparr>);
     if res \<noteq> 0 then do { w25_print h ''w25qxx: read failed.''; ret 4 }
     else do {
       s \<leftarrow> getst;
       if list_ex (\<lambda>b. b \<noteq> 0xFF) (take (length data) (drop sec_off (buf_4k s))) then
         w25_try h ''w25qxx: erase sector failed.'' 5 (a_w25qxx_erase_sector h (sec_pos * 4096)) (do {
           modify (\<lambda>s. s\<lparr>buf_4k := mem_write sec_off data (buf_4k s)\<rparr>);
           s \<leftarrow> getst;
           w25_try h ''w25qxx: write failed.'' 1
             (a_w25qxx_write_no_check h (sec_pos * 4096) (take 4096 (buf_4k s))) rest })
       else w25_try h ''w25qxx: write failed.'' 1 (a_w25qxx_write_no_check h addr data) rest } }"

function write_sectors :: "'e w25_bus \<Rightarrow> u32 \<Rightarrow> nat \<Rightarrow> u32 \<Rightarrow> u8 list \<Rightarrow> nat \<Rightarrow> ('e w25_state, u8) state" where
  "write_sectors h sec_pos sec_off addr data sec_remain =
     (let rest =
        (if length data \<le> sec_remain \<or> sec_remain = 0 then ret 0
         else write_sectors h (sec_pos + 1) 0 (addr + of_nat sec_remain) (drop sec_remain data)
           (min 4096 (length data - sec_remain)))
      in write_sector h sec_pos sec_off addr (take sec_remain data) rest)"
  by pat_completeness auto

termination
  by (relation "measure (\<lambda>(h, pos, off, addr, data, n). length data)") auto

declare write_sectors.simps [simp del]

definition w25qxx_write :: "'e w25_bus option \<Rightarrow> u32 \<Rightarrow> u8 list \<Rightarrow> ('e w25_state, u8) state" where
  "w25qxx_write handle addr data =
     (case handle of
        None \<Rightarrow> ret 2
      | Some h \<Rightarrow> do {
          s \<leftarrow> getst;
          if w25_inited s \<noteq> 1 then ret 3
          else write_sectors h (addr div 4096) (unat addr mod 4096) addr data
            (min (4096 - unat addr mod 4096) (length data)) })"

end
