(* ===== verification/W25_Interface.thy ===== *)
theory W25_Interface
  imports W25_Driver
begin

text \<open>
  The board's side of the flash driver, \<^verbatim>\<open>src/w25qxx/w25qxx_interface.c\<close>, over the HAL calls it makes
  (record \<open>flash_hal\<close>), and the functions of \<^verbatim>\<open>src/flashdb/fdb_port.c\<close> that the flash abstraction
  layer calls. The transfer function is defined for any size of its static buffers; the code
  has 64 bytes, so that no transfer of more bytes, command included, reaches the chip.
\<close>

record 'e flash_hal =
  flash_spiStart :: "('e, int) state"
  flash_spiStop :: "('e, unit) state"
  flash_spiAcquireBus :: "('e, unit) state"
  flash_spiSelect :: "('e, unit) state"
  flash_spiExchange :: "u8 list \<Rightarrow> ('e, u8 list) state"
  flash_spiUnselect :: "('e, unit) state"
  flash_spiReleaseBus :: "('e, unit) state"
  flash_sleep_ms :: "u32 \<Rightarrow> ('e, unit) state"
  flash_sleep_us :: "u32 \<Rightarrow> ('e, unit) state"
  flash_print :: "string \<Rightarrow> ('e, unit) state"
  flash_chprintf :: "string \<Rightarrow> int list \<Rightarrow> ('e, unit) state"

definition FLASH_SPI_BUFFER_SIZE :: nat where
  "FLASH_SPI_BUFFER_SIZE = 64"

definition w25qxx_interface_spi_qspi_init :: "'e flash_hal \<Rightarrow> ('e, u8) state" where
  "w25qxx_interface_spi_qspi_init H = do {
     msg \<leftarrow> flash_spiStart H;
     if msg \<noteq> 0 then ret 1 else ret 0 }"

definition w25qxx_interface_spi_qspi_deinit :: "'e flash_hal \<Rightarrow> ('e, u8) state" where
  "w25qxx_interface_spi_qspi_deinit H = do { flash_spiStop H; ret 0 }"

definition write_read_sized ::
  "nat \<Rightarrow> 'e flash_hal \<Rightarrow> xfer \<Rightarrow> cptr \<Rightarrow> u32 \<Rightarrow> cptr \<Rightarrow> u32 \<Rightarrow> ('e, u8 \<times> cptr) state" where
  "write_read_sized bsize H x in_buf in_len out_buf out_len =
     (let total_len = in_len + out_len in
      if in_buf = None \<and> in_len > 0 then ret (1, out_buf)
      else if out_buf = None \<and> out_len > 0 then ret (1, out_buf)
      else if unat total_len > bsize then ret (1, out_buf)
      else do {
        let spi_tx_buffer = replicate bsize 0;
        let spi_tx_buffer = (case in_buf of
            Some b \<Rightarrow> if in_len > 0 then mem_write 0 (take (unat in_len) b) spi_tx_buffer else spi_tx_buffer
          | None \<Rightarrow> spi_tx_buffer);
        flash_spiAcquireBus H;
        flash_spiSelect H;
        spi_rx_buffer \<leftarrow> flash_spiExchange H (take (unat total_len) spi_tx_buffer);
        let out_buf = (case out_buf of
            Some b \<Rightarrow> if out_len > 0 then Some (mem_write 0 (take (unat out_len) (drop (unat in_len) spi_rx_buffer)) b) else Some b
          | None \<Rightarrow> None);
        flash_spiUnselect H;
        flash_spiReleaseBus H;
        ret (0, out_buf) })"

definition w25qxx_interface_spi_qspi_write_read ::
  "'e flash_hal \<Rightarrow> xfer \<Rightarrow> cptr \<Rightarrow> u32 \<Rightarrow> cptr \<Rightarrow> u32 \<Rightarrow> ('e, u8 \<times> cptr) state" where
  "w25qxx_interface_spi_qspi_write_read = write_read_sized FLASH_SPI_BUFFER_SIZE"

definition w25qxx_interface_delay_ms :: "'e flash_hal \<Rightarrow> u32 \<Rightarrow> ('e, unit) state" where
  "w25qxx_interface_delay_ms H ms = flash_sleep_ms H ms"

definition w25qxx_interface_delay_us :: "'e flash_hal \<Rightarrow> u32 \<Rightarrow> ('e, unit) state" where
  "w25qxx_interface_delay_us H us = flash_sleep_us H us"

text \<open>
  The links of \<open>w25q_init\<close>. The driver's regions become pointers with a length; an empty region
  is a null pointer.
\<close>

definition region :: "u8 list \<Rightarrow> cptr" where
  "region bs = (if bs = [] then None else Some bs)"

definition link_sized :: "nat \<Rightarrow> 'e flash_hal \<Rightarrow> 'e w25_bus" where
  "link_sized bsize H =
     \<lparr>spi_qspi_write_read = (\<lambda>x in_buf out_buf. do {
        (res, out) \<leftarrow> write_read_sized bsize H x (region in_buf) (of_nat (length in_buf)) (region out_buf)
          (of_nat (length out_buf));
        ret (res, case out of None \<Rightarrow> [] | Some bs \<Rightarrow> bs) }),
      w25_delay_ms = w25qxx_interface_delay_ms H,
      w25_delay_us = w25qxx_interface_delay_us H,
      w25_debug_print = flash_print H\<rparr>"

definition link_w25 :: "'e flash_hal \<Rightarrow> 'e w25_bus" where
  "link_w25 H = link_sized FLASH_SPI_BUFFER_SIZE H"

subsection \<open>The port of the flash abstraction layer\<close>

definition port_read :: "nat \<Rightarrow> 'e flash_hal \<Rightarrow> u32 \<Rightarrow> u8 list \<Rightarrow> ('e w25_state, int \<times> u8 list) state" where
  "port_read bsize H addr buf = do {
     on_bus (flash_chprintf H ''w25q_read: addr: %ld, size: %ld'' [sint addr, int (length buf)]);
     (_, buf) \<leftarrow> w25qxx_read (Some (link_sized bsize H)) addr buf;
     ret (0, buf) }"

definition port_write :: "nat \<Rightarrow> 'e flash_hal \<Rightarrow> u32 \<Rightarrow> u8 list \<Rightarrow> ('e w25_state, int) state" where
  "port_write bsize H addr buf = do {
     on_bus (flash_chprintf H ''w25q_write: addr: %ld, size: %ld'' [sint addr, int (length buf)]);
     _ \<leftarrow> w25qxx_write (Some (link_sized bsize H)) addr buf;
     ret 0 }"

definition w25q_read :: "'e flash_hal \<Rightarrow> u32 \<Rightarrow> u8 list \<Rightarrow> ('e w25_state, int \<times> u8 list) state" where
  "w25q_read = port_read FLASH_SPI_BUFFER_SIZE"

definition w25q_write :: "'e flash_hal \<Rightarrow> u32 \<Rightarrow> u8 list \<Rightarrow> ('e w25_state, int) state" where
  "w25q_write = port_write FLASH_SPI_BUFFER_SIZE"

text \<open>The loop counts bytes in 32 bits; sizes of the last sector of the address space, where it wraps, are left out.\<close>

fun erase_sectors :: "'e w25_bus \<Rightarrow> u32 \<Rightarrow> nat \<Rightarrow> ('e w25_state, unit) state" where
  "erase_sectors h addr 0 = ret ()"
| "erase_sectors h addr (Suc n) = do {
     _ \<leftarrow> w25qxx_sector_erase_4k (Some h) addr;
     erase_sectors h (addr + 4096) n }"

definition port_erase :: "nat \<Rightarrow> 'e flash_hal \<Rightarrow> u32 \<Rightarrow> nat \<Rightarrow> ('e w25_state, int) state" where
  "port_erase bsize H addr n = do {
     erase_sectors (link_sized bsize H) addr ((n + 4095) div 4096);
     ret 0 }"

definition w25q_erase :: "'e flash_hal \<Rightarrow> u32 \<Rightarrow> nat \<Rightarrow> ('e w25_state, int) state" where
  "w25q_erase = port_erase FLASH_SPI_BUFFER_SIZE"

subsection \<open>Transfers that do not fit\<close>

lemma run_on_bus [simp]:
  "run_state (on_bus m) s = (fst (run_state m (w25_env s)), s\<lparr>w25_env := snd (run_state m (w25_env s))\<rparr>)"
  by (simp add: on_bus_def case_prod_beta Let_def)

lemma run_print: "run_state (w25_print h msg) s = ((), s\<lparr>w25_env := snd (run_state (w25_debug_print h msg) (w25_env s))\<rparr>)"
  by (simp add: w25_print_def)

lemma region_cases: "region bs = None \<longleftrightarrow> bs = []" "bs \<noteq> [] \<Longrightarrow> region bs = Some bs"
  by (simp_all add: region_def)

lemma link_fields [simp]:
  "w25_debug_print (link_sized bsize H) = flash_print H" "w25_delay_ms (link_sized bsize H) = flash_sleep_ms H"
  "w25_delay_us (link_sized bsize H) = flash_sleep_us H"
  by (simp_all add: link_sized_def w25qxx_interface_delay_ms_def w25qxx_interface_delay_us_def fun_eq_iff)

lemma link_refuses:
  assumes "bsize < length tx + length out" and "length tx + length out < 2 ^ 32"
  shows "run_state (spi_qspi_write_read (link_sized bsize H) x tx out) e = ((1, out), e)"
proof -
  have "unat (of_nat (length tx) + of_nat (length out) :: u32) = length tx + length out"
    using assms(2) by (simp add: unat_of_nat take_bit_nat_eq_self_iff flip: of_nat_add)
  then show ?thesis
    using assms(1) by (auto simp: link_sized_def write_read_sized_def region_def Let_def)
qed

text \<open>The configuration of this board: one data line, a chip with three address bytes.\<close>

definition board :: "'e w25_state \<Rightarrow> bool" where
  "board s \<longleftrightarrow> spi_qspi s = W25QXX_INTERFACE_SPI \<and> dual_quad_spi_enable s = 0 \<and>
     w25_address_mode s = W25QXX_ADDRESS_MODE_3_BYTE \<and> w25_type s < W25Q256 \<and> length (buf_4k s) = 4097 \<and> length (w25_buf s) = 262"

lemma board_env [simp]: "board (s\<lparr>w25_env := e\<rparr>) = board s"
  by (simp add: board_def)

lemma fast_read_refused:
  assumes "bsize < length data" and "length data + 10 < 2 ^ 32" and "alen \<le> 4"
  shows "run_state (fast_read (link_sized bsize H) alen addr data) s =
    ((1, data), s\<lparr>w25_env := snd (run_state (flash_print H ''w25qxx: fast read failed.'') (w25_env s))\<rparr>)"
proof -
  have "bsize < length (0x0B # addr_list alen addr @ [0x00]) + length data"
    "length (0x0B # addr_list alen addr @ [0x00]) + length data < 2 ^ 32"
    using assms by (simp_all add: addr_list_def)
  note r = link_refuses [OF this] link_refuses [of bsize "[]" data]
  show ?thesis
    using assms by (auto simp: fast_read_def a_w25qxx_spi_write_read_def a_w25qxx_qspi_write_read_def r run_print
        split: option.split)
qed

lemma run_try:
  "run_state (w25_try h msg err m k) s =
     (let (res, t) = run_state m s in
      if res \<noteq> 0 then (err, t\<lparr>w25_env := snd (run_state (w25_debug_print h msg) (w25_env t))\<rparr>) else run_state k t)"
  by (simp add: w25_try_def run_print case_prod_beta Let_def)

lemma read_refused:
  assumes "bsize < length data" and "length data + 10 < 2 ^ 32" and "c \<noteq> 0"
  shows "fst (fst (run_state (read_with c (link_sized bsize H) addr data) s)) \<noteq> 0"
  using assms by (auto simp: read_with_def run_try run_print fast_read_refused Let_def split: prod.split)

text \<open>With the buffer of the board no write reaches the chip, because every write starts with a read of 4096 bytes.\<close>

lemma write_sectors_refused:
  assumes "bsize < 4096" and "length (buf_4k s) = 4097"
  shows "fst (run_state (write_sectors (link_sized bsize H) pos off addr data n) s) = 4"
proof -
  have "fst (fst (run_state (a_w25qxx_read (link_sized bsize H) (pos * 4096) (take 4096 (buf_4k s))) s)) \<noteq> 0"
    unfolding a_w25qxx_read_def using assms by (intro read_refused) simp_all
  then show ?thesis
    by (subst write_sectors.simps) (auto simp: write_sector_def run_print Let_def case_prod_beta)
qed

lemma write_sectors_refused_board:
  assumes "bsize < 4096" and "board s"
  shows "run_state (write_sectors (link_sized bsize H) pos off addr data n) s =
    (4, s\<lparr>w25_env := snd (run_state (flash_print H ''w25qxx: read failed.'')
       (snd (run_state (flash_print H ''w25qxx: fast read failed.'') (w25_env s))))\<rparr>)"
proof -
  let ?d = "take 4096 (buf_4k s)"
  have b: "length (buf_4k s) = 4097" "w25_address_mode s = 0" "\<not> w25_type s \<ge> W25Q256"
    using assms(2) by (auto simp: board_def not_le)
  have "run_state (a_w25qxx_read (link_sized bsize H) (pos * 4096) ?d) s =
    ((1, ?d), s\<lparr>w25_env := snd (run_state (flash_print H ''w25qxx: fast read failed.'') (w25_env s))\<rparr>)"
    using b assms(1) by (simp add: a_w25qxx_read_def read_with_def fast_read_refused)
  moreover have "mem_write 0 ?d (buf_4k s) = buf_4k s" using b(1) by (simp add: mem_write_def)
  ultimately show ?thesis
    by (subst write_sectors.simps) (simp add: write_sector_def run_print Let_def)
qed

subsection \<open>Transfers that fit\<close>

text \<open>
  What the transfer function needs of the HAL: an exchange returns as many bytes as it sends.
  A transfer that fits the buffer is one exchange between select and unselect.
\<close>

definition flash_transfer :: "'e flash_hal \<Rightarrow> u8 list \<Rightarrow> ('e, u8 list) state" where
  "flash_transfer H tx = do {
     flash_spiAcquireBus H;
     flash_spiSelect H;
     rx \<leftarrow> flash_spiExchange H tx;
     flash_spiUnselect H;
     flash_spiReleaseBus H;
     ret rx }"

lemma bus_lines_env [simp]: "bus_lines (s\<lparr>w25_env := e\<rparr>) = bus_lines s"
  by (simp add: bus_lines_def)

lemma board_lines: "board s \<Longrightarrow> bus_lines s = None" "board s \<Longrightarrow> w25_address_mode s = 0" "board s \<Longrightarrow> \<not> w25_type s \<ge> W25Q256"
  by (auto simp: board_def bus_lines_def not_le)

locale flash_link =
  fixes H :: "'e flash_hal"
  assumes transfer_length: "run_state (flash_transfer H tx) e = (rx, e') \<Longrightarrow> length rx = length tx"
begin

lemma link_accepts:
  assumes "length tx + length out \<le> bsize" and "length tx + length out < 2 ^ 32"
  obtains rx e' where "run_state (flash_transfer H (tx @ replicate (length out) 0)) e = (rx, e')"
    and "run_state (spi_qspi_write_read (link_sized bsize H) x tx out) e = ((0, drop (length tx) rx), e')"
proof -
  obtain rx e' where t: "run_state (flash_transfer H (tx @ replicate (length out) 0)) e = (rx, e')" by fastforce
  have len: "length rx = length tx + length out" using transfer_length [OF t] by simp
  have u: "unat (of_nat (length tx) :: u32) = length tx" "unat (of_nat (length out) :: u32) = length out"
    "unat (of_nat (length tx) + of_nat (length out) :: u32) = length tx + length out"
    using assms(2) by (simp_all add: unat_of_nat take_bit_nat_eq_self_iff flip: of_nat_add)
  have pos: "(0 :: u32) < of_nat (length bs) \<longleftrightarrow> bs \<noteq> []" if "length bs < 2 ^ 32" for bs :: "u8 list"
    using that by (simp add: word_less_nat_alt unat_of_nat take_bit_nat_eq_self_iff)
  have "replicate bsize 0 = replicate (length tx) 0 @ replicate (length out) 0 @ replicate (bsize - length tx - length out) (0 :: u8)"
    using assms(1) by (simp flip: replicate_add)
  then have buf: "take (length tx + length out)
      (case region tx of Some b \<Rightarrow> if (0 :: u32) < of_nat (length tx) then mem_write 0 (take (length tx) b) (replicate bsize 0)
         else replicate bsize 0 | None \<Rightarrow> replicate bsize 0) = tx @ replicate (length out) 0"
    using assms pos [of tx] by (auto simp: region_def mem_write_def simp del: replicate_add)
  have r: "run_state (spi_qspi_write_read (link_sized bsize H) x tx out) e = ((0, drop (length tx) rx), e')"
    using t assms len buf pos [of out] u
    by (auto simp: link_sized_def write_read_sized_def flash_transfer_def region_def Let_def mem_write_def
        split: prod.splits)
  show thesis using that t r by blast
qed

text \<open>A transfer on one data line.\<close>

lemma spi_accepts:
  assumes "length tx + length out \<le> bsize" and "length tx + length out < 2 ^ 32"
  obtains rx e' where "run_state (flash_transfer H (tx @ replicate (length out) 0)) (w25_env s) = (rx, e')"
    and "run_state (a_w25qxx_spi_write_read (link_sized bsize H) tx out) s = ((0, drop (length tx) rx), s\<lparr>w25_env := e'\<rparr>)"
proof -
  obtain rx e' where "run_state (flash_transfer H (tx @ replicate (length out) 0)) (w25_env s) = (rx, e')"
    "run_state (spi_qspi_write_read (link_sized bsize H) spi_xfer tx out) (w25_env s) = ((0, drop (length tx) rx), e')"
    by (rule link_accepts [OF assms])
  then show thesis using that by (simp add: a_w25qxx_spi_write_read_def)
qed

end

end
