(* ===== verification/W25_Chip.thy ===== *)
theory W25_Chip
  imports W25_Interface
begin

text \<open>
  What the HAL and the flash chip promise about single transfers (locale \<open>flash_chip\<close>), and what
  the driver makes of it on this board: reads return the cells, a page program can only clear
  bits, a sector erase sets them, and a write stores exactly its data, provided the transfer
  buffer of the interface is large enough for a sector.
\<close>

text \<open>Programming clears bits of the cells from \<open>a\<close> on; storing replaces them.\<close>

definition program_cells :: "(nat \<Rightarrow> u8) \<Rightarrow> nat \<Rightarrow> u8 list \<Rightarrow> nat \<Rightarrow> u8" where
  "program_cells m a bs i = (if a \<le> i \<and> i < a + length bs then m i AND bs ! (i - a) else m i)"

definition store_cells :: "(nat \<Rightarrow> u8) \<Rightarrow> nat \<Rightarrow> u8 list \<Rightarrow> nat \<Rightarrow> u8" where
  "store_cells m a bs i = (if a \<le> i \<and> i < a + length bs then bs ! (i - a) else m i)"

definition erase_cells :: "(nat \<Rightarrow> u8) \<Rightarrow> nat \<Rightarrow> nat \<Rightarrow> u8" where
  "erase_cells m a i = (if a \<le> i \<and> i < a + 4096 then 0xFF else m i)"

definition cells :: "(nat \<Rightarrow> u8) \<Rightarrow> nat \<Rightarrow> nat \<Rightarrow> u8 list" where
  "cells m a n = map (\<lambda>i. m (a + i)) [0..<n]"

lemma length_cells [simp]: "length (cells m a n) = n"
  by (simp add: cells_def)

lemma nth_cells [simp]: "i < n \<Longrightarrow> cells m a n ! i = m (a + i)"
  by (simp add: cells_def)

lemma program_Nil [simp]: "program_cells m a [] = m"
  by (rule ext) (auto simp: program_cells_def)

lemma program_append: "program_cells (program_cells m a xs) (a + length xs) ys = program_cells m a (xs @ ys)"
  by (rule ext) (auto simp: program_cells_def nth_append)

lemma store_append: "store_cells (store_cells m a xs) (a + length xs) ys = store_cells m a (xs @ ys)"
  by (rule ext) (auto simp: store_cells_def nth_append)

lemma program_erased: "(\<And>i. a \<le> i \<Longrightarrow> i < a + length bs \<Longrightarrow> m i = 0xFF) \<Longrightarrow> program_cells m a bs = store_cells m a bs"
proof (rule ext)
  fix i
  assume "\<And>i. a \<le> i \<Longrightarrow> i < a + length bs \<Longrightarrow> m i = 0xFF"
  moreover have "0xFF AND x = x" for x :: u8
    using take_bit_word_eq_self [of 8 x] by (simp add: take_bit_eq_mask mask_eq_exp_minus_1 and.commute)
  ultimately show "program_cells m a bs i = store_cells m a bs i" by (simp add: program_cells_def store_cells_def)
qed

text \<open>Erasing a sector and programming its old contents with some bytes replaced stores these bytes.\<close>

lemma rewrite_sector:
  assumes "off + length bs \<le> 4096"
  shows "program_cells (erase_cells m a) a (mem_write off bs (cells m a 4096)) = store_cells m (a + off) bs"
proof -
  let ?s = "mem_write off bs (cells m a 4096)"
  have len: "length ?s = 4096" using assms by simp
  have "program_cells (erase_cells m a) a ?s = store_cells (erase_cells m a) a ?s"
    by (rule program_erased) (simp add: erase_cells_def len)
  also have "\<dots> = store_cells m (a + off) bs"
    using assms len by (auto simp: store_cells_def erase_cells_def nth_mem_write fun_eq_iff)
  finally show ?thesis .
qed

text \<open>What the operations of the driver leave alone in the handle.\<close>

definition frame :: "'e w25_state \<Rightarrow> 'e w25_state \<Rightarrow> bool" where
  "frame s s' \<longleftrightarrow> board s' \<and> buf_4k s' = buf_4k s \<and> w25_inited s' = w25_inited s"

lemma frame_trans: "frame s s' \<Longrightarrow> frame s' s'' \<Longrightarrow> frame s s''"
  by (simp add: frame_def)

lemma unat_add_of_nat: "unat a + n < 2 ^ 32 \<Longrightarrow> unat (a + of_nat n :: u32) = unat a + n"
  by (simp add: unat_word_ariths unat_of_nat)

locale flash_chip = flash_link H
  for H :: "'e flash_hal" +
  fixes cell :: "'e \<Rightarrow> nat \<Rightarrow> u8"
    and idle :: "'e \<Rightarrow> bool"
    and latched :: "'e \<Rightarrow> bool"
    and chip_size :: nat
  assumes chip_bound: "chip_size \<le> 2 ^ 24"
    and chip_sectors: "chip_size mod 4096 = 0"
    and read_transfer:
      "\<lbrakk>idle e; unat a + n \<le> chip_size;
        run_state (flash_transfer H (0x0B # addr_list 3 a @ [0] @ replicate n 0)) e = (rx, e')\<rbrakk> \<Longrightarrow>
        drop 5 rx = cells (cell e) (unat a) n \<and> cell e' = cell e \<and> idle e'"
    and enable_transfer:
      "\<lbrakk>idle e; run_state (flash_transfer H [0x06]) e = (rx, e')\<rbrakk> \<Longrightarrow> cell e' = cell e \<and> idle e' \<and> latched e'"
    and program_transfer:
      "\<lbrakk>idle e; latched e; unat a + length bs \<le> chip_size; unat a mod 256 + length bs \<le> 256;
        run_state (flash_transfer H (0x02 # addr_list 3 a @ bs)) e = (rx, e')\<rbrakk> \<Longrightarrow>
        cell e' = program_cells (cell e) (unat a) bs"
    and erase_transfer:
      "\<lbrakk>idle e; latched e; unat a + 4096 \<le> chip_size; unat a mod 4096 = 0;
        run_state (flash_transfer H (0x20 # addr_list 3 a)) e = (rx, e')\<rbrakk> \<Longrightarrow> cell e' = erase_cells (cell e) (unat a)"
    and status_transfer:
      "run_state (flash_transfer H [0x05, 0]) e = (rx, e') \<Longrightarrow> cell e' = cell e \<and> (rx ! 1 AND 1 = 0 \<longrightarrow> idle e')"
    and print_keeps: "run_state (flash_print H msg) e = ((), e') \<Longrightarrow> cell e' = cell e \<and> (idle e \<longrightarrow> idle e')"
    and sleep_ms_keeps: "run_state (flash_sleep_ms H t) e = ((), e') \<Longrightarrow> cell e' = cell e"
    and sleep_us_keeps: "run_state (flash_sleep_us H t) e = ((), e') \<Longrightarrow> cell e' = cell e"
begin

lemma length_addr_list [simp]: "length (addr_list n a) = n"
  by (simp add: addr_list_def)

lemma fast_read_ok:
  assumes "board s" and "idle (w25_env s)" and "unat addr + length data \<le> chip_size"
    and "length data + 5 \<le> bsize"
  obtains e' where "run_state (fast_read (link_sized bsize H) 3 addr data) s =
      ((0, cells (cell (w25_env s)) (unat addr) (length data)), s\<lparr>w25_env := e'\<rparr>)"
    and "cell e' = cell (w25_env s)" and "idle e'"
proof -
  let ?tx = "0x0B # addr_list 3 addr @ [0]"
  have "length ?tx + length data \<le> bsize" "length ?tx + length data < 2 ^ 32"
    using assms(3,4) chip_bound by simp_all
  then obtain rx e' where t: "run_state (flash_transfer H (?tx @ replicate (length data) 0)) (w25_env s) = (rx, e')"
    and r: "run_state (a_w25qxx_spi_write_read (link_sized bsize H) ?tx data) s = ((0, drop (length ?tx) rx), s\<lparr>w25_env := e'\<rparr>)"
    by (rule spi_accepts)
  have "drop 5 rx = cells (cell (w25_env s)) (unat addr) (length data)" "cell e' = cell (w25_env s)" "idle e'"
    using read_transfer [OF assms(2,3)] t by simp_all
  then show thesis using that r board_lines [OF assms(1)] by (simp add: fast_read_def)
qed

lemma read_ok:
  assumes "board s" and "idle (w25_env s)" and "unat addr + length data \<le> chip_size" and "length data + 5 \<le> bsize"
  obtains e' where "run_state (read_with c (link_sized bsize H) addr data) s =
      ((0, cells (cell (w25_env s)) (unat addr) (length data)), s\<lparr>w25_env := e'\<rparr>)"
    and "cell e' = cell (w25_env s)" and "idle e'"
  using fast_read_ok [OF assms] board_lines [OF assms(1)] by (auto simp: read_with_def)

lemma write_enable_ok:
  assumes "board s" and "idle (w25_env s)" and "1 \<le> bsize"
  obtains e' where "run_state (write_enable (link_sized bsize H)) s = (0, s\<lparr>w25_env := e'\<rparr>)"
    and "cell e' = cell (w25_env s)" and "idle e'" and "latched e'"
proof -
  obtain rx e' where "run_state (flash_transfer H ([0x06] @ replicate (length []) 0)) (w25_env s) = (rx, e')"
    "run_state (a_w25qxx_spi_write_read (link_sized bsize H) [0x06] []) s = ((0, drop (length [0x06 :: u8]) rx), s\<lparr>w25_env := e'\<rparr>)"
    using spi_accepts [of "[0x06]" "[]" bsize s] assms(3) by auto
  then show thesis using that enable_transfer [OF assms(2)] board_lines [OF assms(1)] by (auto simp: write_enable_def)
qed

lemma wait_ready_ok:
  assumes "board s" and "2 \<le> bsize" and "\<And>e e'. run_state delay e = ((), e') \<Longrightarrow> cell e' = cell e"
    and "run_state (wait_ready (link_sized bsize H) failed late c delay n) s = (r, s')"
  shows "\<exists>e'. s' = s\<lparr>w25_env := e'\<rparr> \<and> cell e' = cell (w25_env s) \<and> (r = 0 \<and> c \<noteq> 0 \<longrightarrow> idle e')"
  using assms(1,4)
proof (induction n arbitrary: s)
  case 0
  then show ?case using print_keeps by (auto simp: run_print) (metis prod.collapse unit_eq)
next
  case (Suc n)
  obtain rx e1 where t: "run_state (flash_transfer H ([0x05] @ replicate (length [0 :: u8]) 0)) (w25_env s) = (rx, e1)"
    and r: "run_state (a_w25qxx_spi_write_read (link_sized bsize H) [0x05] [0]) s = ((0, drop (length [0x05 :: u8]) rx), s\<lparr>w25_env := e1\<rparr>)"
    using spi_accepts [of "[0x05]" "[0]" bsize s] assms(2) by auto
  have c1: "cell e1 = cell (w25_env s)" "rx ! 1 AND 1 = 0 \<longrightarrow> idle e1" "length rx = 2"
    using status_transfer [of "w25_env s" rx e1] transfer_length t by auto
  then have hd: "hd (drop 1 rx) = rx ! 1" by (simp add: hd_drop_conv_nth)
  have st: "run_state (read_status1 (link_sized bsize H)) s = ((0, rx ! 1), s\<lparr>w25_env := e1\<rparr>)"
    using r board_lines [OF Suc.prems(1)] hd by (simp add: read_status1_def)
  show ?case
  proof (cases "rx ! 1 AND 1 = 0")
    case True
    then show ?thesis using Suc.prems(2) st c1 by auto
  next
    case False
    obtain e2 where d: "run_state delay e1 = ((), e2)" by (metis prod.collapse unit_eq)
    have "run_state (wait_ready (link_sized bsize H) failed late c delay n) (s\<lparr>w25_env := e2\<rparr>) = (r, s')"
      using Suc.prems(2) st False d by simp
    from Suc.IH [OF _ this] Suc.prems(1) have
      "\<exists>e'. s' = s\<lparr>w25_env := e2\<rparr>\<lparr>w25_env := e'\<rparr> \<and> cell e' = cell e2 \<and> (r = 0 \<and> c \<noteq> 0 \<longrightarrow> idle e')" by simp
    then show ?thesis using assms(3) [OF d] c1(1) by auto
  qed
qed

text \<open>On this board a modifying command is enabled and sent with three address bytes.\<close>

lemma modify_step:
  assumes "board s" and "idle (w25_env s)" and "1 \<le> bsize"
  obtains e1 where "cell e1 = cell (w25_env s)" and "idle e1" and "latched e1"
    and "\<forall>c addr command k. run_state (modify_command (link_sized bsize H) c addr command k) s =
      run_state (do { res \<leftarrow> command 3; if res \<noteq> 0 then ret res else k }) (s\<lparr>w25_env := e1\<rparr>)"
proof -
  obtain e1 where "run_state (write_enable (link_sized bsize H)) s = (0, s\<lparr>w25_env := e1\<rparr>)"
    "cell e1 = cell (w25_env s)" "idle e1" "latched e1"
    by (rule write_enable_ok [OF assms])
  then show thesis using that board_lines [OF assms(1)] by (simp add: modify_command_def run_try)
qed

abbreviation program_wait :: "nat \<Rightarrow> ('e w25_state, u8) state" where
  "program_wait bsize \<equiv> wait_ready (link_sized bsize H) ''w25qxx: get status1 failed.'' ''w25qxx: page program timeout.'' 1
     (flash_sleep_us H 10) (3 * 100)"

lemma program_step:
  assumes "board s" and "idle (w25_env s)" and "unat addr + length data \<le> chip_size"
    and "unat addr mod 256 + length data \<le> 256" and "260 \<le> bsize"
  obtains e1 rx t where "idle e1" and "latched e1" and "run_state (flash_transfer H (0x02 # addr_list 3 addr @ data)) e1 = (rx, w25_env t)"
    and "frame s t" and "cell (w25_env t) = program_cells (cell (w25_env s)) (unat addr) data"
    and "run_state (a_w25qxx_page_program (link_sized bsize H) addr data) s = run_state (program_wait bsize) t"
proof -
  let ?tx = "0x02 # addr_list 3 addr @ data" and ?h = "link_sized bsize H"
  have one: "1 \<le> bsize" using assms(5) by simp
  obtain e1 where e1: "cell e1 = cell (w25_env s)" "idle e1" "latched e1"
    and m: "\<forall>c addr command k. run_state (modify_command ?h c addr command k) s =
      run_state (do { res \<leftarrow> command 3; if res \<noteq> 0 then ret res else k }) (s\<lparr>w25_env := e1\<rparr>)"
    by (rule modify_step [OF assms(1,2) one])
  let ?s1 = "s\<lparr>w25_env := e1, w25_buf := mem_write 0 ?tx (w25_buf s)\<rparr>"
  have "length ?tx + length ([] :: u8 list) \<le> bsize" "length ?tx + length ([] :: u8 list) < 2 ^ 32" using assms(4,5) by simp_all
  then obtain rx e2 where t: "run_state (flash_transfer H (?tx @ replicate (length ([] :: u8 list)) 0)) (w25_env ?s1) = (rx, e2)"
    and sp: "run_state (a_w25qxx_spi_write_read ?h ?tx []) ?s1 = ((0, drop (length ?tx) rx), ?s1\<lparr>w25_env := e2\<rparr>)"
    by (rule spi_accepts)
  let ?t = "?s1\<lparr>w25_env := e2\<rparr>"
  have "length ?tx \<le> length (w25_buf s)" using assms(1,4) by (simp add: board_def)
  then have f: "frame s ?t" using assms(1) by (simp add: frame_def board_def)
  have c: "cell (w25_env ?t) = program_cells (cell (w25_env s)) (unat addr) data"
    using program_transfer [OF e1(2,3) assms(3,4)] t e1(1) by simp
  have "run_state (program_command ?h addr data 3) (s\<lparr>w25_env := e1\<rparr>) = (0, ?t)"
    using sp board_lines [OF assms(1)] by (simp add: program_command_def Let_def)
  then have "run_state (a_w25qxx_page_program ?h addr data) s = run_state (program_wait bsize) ?t"
    using m board_lines [OF assms(1)] by (simp add: a_w25qxx_page_program_def)
  with that [OF e1(2,3), of rx ?t] show thesis using t f c by simp
qed

lemma program_ok:
  assumes "board s" and "idle (w25_env s)" and "unat addr + length data \<le> chip_size"
    and "unat addr mod 256 + length data \<le> 256" and "260 \<le> bsize"
    and "run_state (a_w25qxx_page_program (link_sized bsize H) addr data) s = (r, s')"
  shows "frame s s'" "cell (w25_env s') = program_cells (cell (w25_env s)) (unat addr) data" "r = 0 \<Longrightarrow> idle (w25_env s')"
proof -
  obtain t where t: "frame s t" "cell (w25_env t) = program_cells (cell (w25_env s)) (unat addr) data"
    and "run_state (a_w25qxx_page_program (link_sized bsize H) addr data) s = run_state (program_wait bsize) t"
    by (rule program_step [OF assms(1-5)])
  then have w: "run_state (program_wait bsize) t = (r, s')" using assms(6) by simp
  have b: "board t" "2 \<le> bsize" using t(1) assms(5) by (simp_all add: frame_def)
  have k: "\<And>e e'. run_state (flash_sleep_us H 10) e = ((), e') \<Longrightarrow> cell e' = cell e" by (rule sleep_us_keeps)
  obtain e' where "s' = t\<lparr>w25_env := e'\<rparr>" "cell e' = cell (w25_env t)" "r = 0 \<longrightarrow> idle e'"
    using wait_ready_ok [OF b k w] by auto
  then show "frame s s'" "cell (w25_env s') = program_cells (cell (w25_env s)) (unat addr) data" "r = 0 \<Longrightarrow> idle (w25_env s')"
    using t by (simp_all add: frame_def)
qed

abbreviation erase_wait :: "u8 \<Rightarrow> nat \<Rightarrow> ('e w25_state, u8) state" where
  "erase_wait late bsize \<equiv> wait_ready (link_sized bsize H) ''w25qxx: get status1 failed.'' ''w25qxx: sector erase 4k timeout.'' late
     (flash_sleep_ms H 1) 400"

lemma erase_step:
  assumes "board s" and "idle (w25_env s)" and "unat addr + 4096 \<le> chip_size" and "unat addr mod 4096 = 0" and "4 \<le> bsize"
  obtains e1 rx t where "idle e1" and "latched e1" and "run_state (flash_transfer H (0x20 # addr_list 3 addr)) e1 = (rx, w25_env t)"
    and "frame s t" and "cell (w25_env t) = erase_cells (cell (w25_env s)) (unat addr)"
    and "\<forall>c l. run_state (erase_with c l (link_sized bsize H) addr) s = run_state (erase_wait l bsize) t"
proof -
  let ?tx = "0x20 # addr_list 3 addr" and ?h = "link_sized bsize H"
  have one: "1 \<le> bsize" using assms(5) by simp
  obtain e1 where e1: "cell e1 = cell (w25_env s)" "idle e1" "latched e1"
    and m: "\<forall>c addr command k. run_state (modify_command ?h c addr command k) s =
      run_state (do { res \<leftarrow> command 3; if res \<noteq> 0 then ret res else k }) (s\<lparr>w25_env := e1\<rparr>)"
    by (rule modify_step [OF assms(1,2) one])
  let ?s1 = "s\<lparr>w25_env := e1\<rparr>"
  have "length ?tx + length ([] :: u8 list) \<le> bsize" "length ?tx + length ([] :: u8 list) < 2 ^ 32" using assms(5) by simp_all
  then obtain rx e2 where t: "run_state (flash_transfer H (?tx @ replicate (length ([] :: u8 list)) 0)) (w25_env ?s1) = (rx, e2)"
    and sp: "run_state (a_w25qxx_spi_write_read ?h ?tx []) ?s1 = ((0, drop (length ?tx) rx), ?s1\<lparr>w25_env := e2\<rparr>)"
    by (rule spi_accepts)
  let ?t = "s\<lparr>w25_env := e2\<rparr>"
  have c: "cell (w25_env ?t) = erase_cells (cell (w25_env s)) (unat addr)"
    using erase_transfer [OF e1(2,3) assms(3,4)] t e1(1) by simp
  have "run_state (erase_command ?h addr 3) ?s1 = (0, ?t)"
    using sp board_lines [OF assms(1)] by (simp add: erase_command_def)
  then have "run_state (erase_with c l ?h addr) s = run_state (erase_wait l bsize) ?t" for c l
    using m by (simp add: erase_with_def)
  moreover have "frame s ?t" using assms(1) by (simp add: frame_def)
  ultimately show thesis using that [OF e1(2,3), of rx ?t] t c by simp
qed

lemma erase_ok:
  assumes "board s" and "idle (w25_env s)" and "unat addr + 4096 \<le> chip_size" and "unat addr mod 4096 = 0" and "4 \<le> bsize"
    and "run_state (erase_with c l (link_sized bsize H) addr) s = (r, s')" and "l \<noteq> 0"
  shows "frame s s'" "cell (w25_env s') = erase_cells (cell (w25_env s)) (unat addr)" "r = 0 \<Longrightarrow> idle (w25_env s')"
proof -
  obtain t where t: "frame s t" "cell (w25_env t) = erase_cells (cell (w25_env s)) (unat addr)"
    and run: "\<forall>c l. run_state (erase_with c l (link_sized bsize H) addr) s = run_state (erase_wait l bsize) t"
    by (rule erase_step [OF assms(1-5)])
  have w: "run_state (erase_wait l bsize) t = (r, s')" using run assms(6) by simp
  have b: "board t" "2 \<le> bsize" using t(1) assms(5) by (simp_all add: frame_def)
  have k: "\<And>e e'. run_state (flash_sleep_ms H 1) e = ((), e') \<Longrightarrow> cell e' = cell e" by (rule sleep_ms_keeps)
  obtain e' where "s' = t\<lparr>w25_env := e'\<rparr>" "cell e' = cell (w25_env t)" "r = 0 \<longrightarrow> idle e'"
    using wait_ready_ok [OF b k w] assms(7) by auto
  then show "frame s s'" "cell (w25_env s') = erase_cells (cell (w25_env s)) (unat addr)" "r = 0 \<Longrightarrow> idle (w25_env s')"
    using t by (simp_all add: frame_def)
qed

text \<open>
  The chip is prompt if no page program and no sector erase runs into its time limit; \<open>timed_chip\<close> below has
  chips that are. A call that fails is then impossible.
\<close>

definition prompt :: "nat \<Rightarrow> bool" where
  "prompt bsize \<longleftrightarrow>
    (\<forall>s addr data. board s \<and> idle (w25_env s) \<and> unat addr + length data \<le> chip_size \<and> unat addr mod 256 + length data \<le> 256 \<longrightarrow>
      fst (run_state (a_w25qxx_page_program (link_sized bsize H) addr data) s) = 0) \<and>
    (\<forall>s addr. board s \<and> idle (w25_env s) \<and> unat addr + 4096 \<le> chip_size \<and> unat addr mod 4096 = 0 \<longrightarrow>
      fst (run_state (erase_with 1 1 (link_sized bsize H) addr) s) = 0)"

lemma prompt_program:
  "\<lbrakk>prompt bsize; board s; idle (w25_env s); unat addr + length data \<le> chip_size; unat addr mod 256 + length data \<le> 256;
    run_state (a_w25qxx_page_program (link_sized bsize H) addr data) s = (c, t)\<rbrakk> \<Longrightarrow> c = 0"
  unfolding prompt_def by (metis fst_conv)

lemma prompt_erase:
  "\<lbrakk>prompt bsize; board s; idle (w25_env s); unat addr + 4096 \<le> chip_size; unat addr mod 4096 = 0;
    run_state (erase_with 1 1 (link_sized bsize H) addr) s = (c, t)\<rbrakk> \<Longrightarrow> c = 0"
  unfolding prompt_def by (metis fst_conv)

lemma try_cases:
  assumes "run_state (w25_try h msg err m k) s = (r, s')"
  obtains (failed) c t where "run_state m s = (c, t)" and "c \<noteq> 0" and "r = err"
  | (passed) t where "run_state m s = (0, t)" and "run_state k t = (r, s')"
  using assms by (auto simp: run_try Let_def split: prod.splits if_splits)

lemma write_pages_ok:
  assumes "board s" and "idle (w25_env s)" and "unat addr + length data \<le> chip_size" and "260 \<le> bsize"
    and "n \<le> length data" and "n = 0 \<longrightarrow> data = []" and "unat addr mod 256 + n \<le> 256"
    and "n < length data \<longrightarrow> (unat addr + n) mod 256 = 0"
    and "run_state (write_pages (link_sized bsize H) addr data n) s = (r, s')"
  shows "(r = 0 \<longrightarrow> frame s s' \<and> cell (w25_env s') = program_cells (cell (w25_env s)) (unat addr) data \<and> idle (w25_env s')) \<and>
    (prompt bsize \<longrightarrow> r = 0)"
  using assms(1-3,5-9)
proof (induction data arbitrary: addr n s rule: measure_induct_rule [of length])
  case (less data)
  let ?h = "link_sized bsize H" and ?rest = "drop n data"
  let ?k = "if length data \<le> n \<or> n = 0 then ret 0
        else write_pages ?h (addr + of_nat n) ?rest (min 256 (length data - n))"
  have fit: "unat addr + length (take n data) \<le> chip_size" "unat addr mod 256 + length (take n data) \<le> 256"
    using less.prems(3,4,6) by simp_all
  have "run_state (w25_try ?h ''w25qxx: page program failed.'' 1 (a_w25qxx_page_program ?h addr (take n data)) ?k) s = (r, s')"
    using less.prems(8) by (subst (asm) write_pages.simps) (simp add: Let_def)
  then show ?case
  proof (cases rule: try_cases)
    case (failed c t)
    then show ?thesis using prompt_program [OF _ less.prems(1,2) fit failed(1)] by auto
  next
    case (passed t)
    have t: "frame s t" "cell (w25_env t) = program_cells (cell (w25_env s)) (unat addr) (take n data)" "idle (w25_env t)"
      using program_ok [OF less.prems(1,2) fit assms(4) passed(1)] by simp_all
    show ?thesis
    proof (cases "length data \<le> n")
      case True
      then show ?thesis using t passed(2) by simp
    next
      case False
      then have n: "0 < n" "n < length data" using less.prems(5) by auto
      have u: "unat (addr + of_nat n) = unat addr + n"
        using less.prems(3) n chip_bound by (intro unat_add_of_nat) simp
      have m: "(unat addr + n) mod 256 = 0" using less.prems(7) n by simp
      have "run_state (write_pages ?h (addr + of_nat n) ?rest (min 256 (length data - n))) t = (r, s')" using passed(2) n by simp
      then have "(r = 0 \<longrightarrow> frame t s' \<and> cell (w25_env s') = program_cells (cell (w25_env t)) (unat addr + n) ?rest \<and> idle (w25_env s')) \<and>
    (prompt bsize \<longrightarrow> r = 0)"
        using less.IH [of ?rest t "addr + of_nat n" "min 256 (length data - n)"] n u m t less.prems(3)
        by (auto simp: frame_def min_def)
      then show ?thesis
        using t n frame_trans program_append [of "cell (w25_env s)" "unat addr" "take n data" ?rest] by auto
    qed
  qed
qed

lemma write_no_check_ok:
  assumes "board s" and "idle (w25_env s)" and "unat addr + length data \<le> chip_size" and "260 \<le> bsize"
    and "run_state (a_w25qxx_write_no_check (link_sized bsize H) addr data) s = (r, s')"
  shows "r = 0 \<Longrightarrow> frame s s'" and "r = 0 \<Longrightarrow> cell (w25_env s') = program_cells (cell (w25_env s)) (unat addr) data"
    and "r = 0 \<Longrightarrow> idle (w25_env s')" and "prompt bsize \<Longrightarrow> r = 0"
proof -
  let ?n = "min (256 - unat addr mod 256) (length data)"
  have "(unat addr + (256 - unat addr mod 256)) mod 256 = 0"
    by (metis add_diff_inverse_nat add.commute le_add_diff_inverse less_imp_le_nat mod_add_left_eq mod_less_divisor mod_self zero_less_numeral)
  then have n4: "?n < length data \<longrightarrow> (unat addr + ?n) mod 256 = 0" by (auto simp: min_def)
  have n: "?n \<le> length data" "?n = 0 \<longrightarrow> data = []" "unat addr mod 256 + ?n \<le> 256"
    using mod_less_divisor [of 256 "unat addr"] by (auto simp: min_def)
  have "(r = 0 \<longrightarrow> frame s s' \<and> cell (w25_env s') = program_cells (cell (w25_env s)) (unat addr) data \<and> idle (w25_env s')) \<and>
    (prompt bsize \<longrightarrow> r = 0)"
    by (rule write_pages_ok [OF assms(1-4) n n4 assms(5) [unfolded a_w25qxx_write_no_check_def]])
  then show "r = 0 \<Longrightarrow> frame s s'" "r = 0 \<Longrightarrow> cell (w25_env s') = program_cells (cell (w25_env s)) (unat addr) data"
    "r = 0 \<Longrightarrow> idle (w25_env s')" "prompt bsize \<Longrightarrow> r = 0"
    by blast+
qed

text \<open>
  One round of the write stores its part of the data and goes on with \<open>rest\<close>; the result of a
  round that fails is not 0, and a prompt chip has no such round.
\<close>

definition stored :: "nat \<Rightarrow> 'e w25_state \<Rightarrow> u32 \<Rightarrow> u8 list \<Rightarrow> ('e w25_state, u8) state \<Rightarrow> u8 \<Rightarrow> 'e w25_state \<Rightarrow> bool" where
  "stored bsize s addr data rest r s' \<longleftrightarrow>
    r \<noteq> 0 \<and> \<not> prompt bsize \<or>
    (\<exists>t. board t \<and> w25_inited t = w25_inited s \<and> idle (w25_env t) \<and> cell (w25_env t) = store_cells (cell (w25_env s)) (unat addr) data \<and>
      run_state rest t = (r, s'))"

text \<open>The sector is erased already where the data go.\<close>

lemma store_fresh:
  assumes "board u" and "idle (w25_env u)" and "cell (w25_env u) = cell (w25_env s) \<and> w25_inited u = w25_inited s"
    and "\<forall>j<length data. cell (w25_env s) (unat addr + j) = 0xFF" and "unat addr + length data \<le> chip_size" and "260 \<le> bsize"
    and "run_state (w25_try h msg 1 (a_w25qxx_write_no_check (link_sized bsize H) addr data) rest) u = (r, s')"
  shows "stored bsize s addr data rest r s'"
  using assms(7)
proof (cases rule: try_cases)
  case (failed c t)
  then show ?thesis using write_no_check_ok(4) [OF assms(1,2,5,6) failed(1)] by (auto simp: stored_def)
next
  case (passed t)
  have "cell (w25_env s) i = 0xFF" if "unat addr \<le> i" "i < unat addr + length data" for i
    using assms(4) that by (metis add_diff_inverse_nat nat_add_left_cancel_less not_le)
  then have "program_cells (cell (w25_env s)) (unat addr) data = store_cells (cell (w25_env s)) (unat addr) data"
    by (rule program_erased)
  then have "board t" "w25_inited t = w25_inited s" "idle (w25_env t)" "cell (w25_env t) = store_cells (cell (w25_env s)) (unat addr) data"
    using write_no_check_ok(1-3) [OF assms(1,2,5,6) passed(1)] assms(3) by (simp_all add: frame_def)
  then show ?thesis using passed(2) unfolding stored_def by blast
qed

text \<open>The sector is saved, erased and written back with the data in it.\<close>

lemma store_rewrite:
  assumes "board u" and "idle (w25_env u)" and "cell (w25_env u) = cell (w25_env s) \<and> w25_inited u = w25_inited s" and "unat a mod 4096 = 0"
    and "unat a + 4096 \<le> chip_size" and "unat a + off = unat addr" and "off + length data \<le> 4096" and "260 \<le> bsize"
    and "take 4096 (buf_4k u) = cells (cell (w25_env s)) (unat a) 4096"
    and "run_state (w25_try h msg 5 (erase_with 1 1 (link_sized bsize H) a) (do {
           modify (\<lambda>s. s\<lparr>buf_4k := mem_write off data (buf_4k s)\<rparr>);
           s \<leftarrow> getst;
           w25_try h msg' 1 (a_w25qxx_write_no_check (link_sized bsize H) a (take 4096 (buf_4k s))) rest })) u = (r, s')"
  shows "stored bsize s addr data rest r s'"
  using assms(10)
proof (cases rule: try_cases)
  case (failed c t)
  then show ?thesis using prompt_erase [OF _ assms(1,2,5,4) failed(1)] by (auto simp: stored_def)
next
  case (passed t1)
  let ?t1 = "t1\<lparr>buf_4k := mem_write off data (buf_4k t1)\<rparr>" and ?sector = "cells (cell (w25_env s)) (unat a) 4096"
  have four: "4 \<le> bsize" using assms(8) by simp
  have t1: "frame u t1" "cell (w25_env t1) = erase_cells (cell (w25_env s)) (unat a)" "idle (w25_env t1)"
    using erase_ok [OF assms(1,2,5,4) four passed(1)] assms(3) by simp_all
  have len: "length (buf_4k t1) = 4097" "buf_4k t1 = buf_4k u" using t1(1) unfolding frame_def board_def by blast+
  have new: "take 4096 (buf_4k ?t1) = mem_write off data ?sector"
    using assms(7) len by (simp add: mem_write_def take_drop flip: assms(9))
  have b1: "board ?t1" using t1(1) assms(7) len by (simp add: frame_def board_def)
  have i1: "idle (w25_env ?t1)" and fit: "unat a + length (mem_write off data ?sector) \<le> chip_size" using t1(3) assms(5,7) by simp_all
  from passed(2) have "run_state (w25_try h msg' 1 (a_w25qxx_write_no_check (link_sized bsize H) a (mem_write off data ?sector)) rest) ?t1 = (r, s')"
    using new by simp
  then show ?thesis
  proof (cases rule: try_cases)
    case (failed c t)
    then show ?thesis using write_no_check_ok(4) [OF b1 i1 fit assms(8) failed(1)] by (auto simp: stored_def)
  next
    case (passed t2)
    have "board t2" "w25_inited t2 = w25_inited s" "idle (w25_env t2)" "cell (w25_env t2) = store_cells (cell (w25_env s)) (unat addr) data"
      using write_no_check_ok(1-3) [OF b1 i1 fit assms(8) passed(1)] t1(1,2) assms(3) rewrite_sector [OF assms(7)] assms(6) by (simp_all add: frame_def)
    then show ?thesis using passed(2) unfolding stored_def by blast
  qed
qed

lemma write_sector_ok:
  assumes "board s" and "idle (w25_env s)" and "unat (pos * 4096) mod 4096 = 0" and "unat (pos * 4096) + 4096 \<le> chip_size"
    and "unat (pos * 4096) + off = unat addr" and "off + length data \<le> 4096" and "4101 \<le> bsize"
    and "run_state (write_sector (link_sized bsize H) pos off addr data rest) s = (r, s')"
  shows "stored bsize s addr data rest r s'"
proof -
  let ?h = "link_sized bsize H" and ?a = "unat (pos * 4096)" and ?c = "cell (w25_env s)"
  let ?sector = "cells ?c ?a 4096"
  have len: "length (buf_4k s) = 4097" using assms(1) by (simp add: board_def)
  have fit: "?a + length (take 4096 (buf_4k s)) \<le> chip_size" "length (take 4096 (buf_4k s)) + 5 \<le> bsize"
    using assms(4,7) len by simp_all
  obtain e1 where rd: "run_state (a_w25qxx_read ?h (pos * 4096) (take 4096 (buf_4k s))) s = ((0, ?sector), s\<lparr>w25_env := e1\<rparr>)"
    and e1: "cell e1 = ?c" "idle e1"
    using read_ok [OF assms(1,2) fit, of 1] len by (auto simp: a_w25qxx_read_def)
  let ?u = "s\<lparr>w25_env := e1, buf_4k := ?sector @ drop 4096 (buf_4k s)\<rparr>"
  have u: "board ?u" "idle (w25_env ?u)" "cell (w25_env ?u) = ?c \<and> w25_inited ?u = w25_inited s" "take 4096 (buf_4k ?u) = ?sector"
    using assms(1) len e1 by (simp_all add: board_def)
  have big: "260 \<le> bsize" using assms(7) by simp
  have in_sector: "take (length data) (drop off (?sector @ drop 4096 (buf_4k s))) = take (length data) (drop off ?sector)"
    using assms(6) by simp
  have run: "run_state (if list_ex (\<lambda>b. b \<noteq> 0xFF) (take (length data) (drop off (?sector @ drop 4096 (buf_4k s)))) then
       w25_try ?h ''w25qxx: erase sector failed.'' 5 (a_w25qxx_erase_sector ?h (pos * 4096)) (do {
         modify (\<lambda>s. s\<lparr>buf_4k := mem_write off data (buf_4k s)\<rparr>);
         s \<leftarrow> getst;
         w25_try ?h ''w25qxx: write failed.'' 1 (a_w25qxx_write_no_check ?h (pos * 4096) (take 4096 (buf_4k s))) rest })
     else w25_try ?h ''w25qxx: write failed.'' 1 (a_w25qxx_write_no_check ?h addr data) rest) ?u = (r, s')"
    using assms(8) rd by (simp add: write_sector_def split del: if_split del: take_append drop_append)
  note run = run [unfolded in_sector a_w25qxx_erase_sector_def]
  show ?thesis
  proof (cases "list_ex (\<lambda>b. b \<noteq> 0xFF) (take (length data) (drop off ?sector))")
    case True
    with run show ?thesis by (intro store_rewrite [OF u(1-3) assms(3-6) big u(4)]) (simp only: if_True)
  next
    case False
    have "\<forall>j<length data. ?c (unat addr + j) = 0xFF"
      using False assms(6) by (auto simp: list_ex_length add.assoc simp flip: assms(5))
    moreover have "unat addr + length data \<le> chip_size" using assms(4-6) by simp
    ultimately show ?thesis using run False by (intro store_fresh [OF u(1-3) _ _ big]) (simp_all only: if_False)
  qed
qed

lemma sector_bound: "unat addr < chip_size \<Longrightarrow> unat addr div 4096 * 4096 + 4096 \<le> chip_size"
proof -
  assume "unat addr < chip_size"
  moreover have "chip_size = chip_size div 4096 * 4096" using chip_sectors by (simp add: mult.commute minus_mod_eq_mult_div [symmetric])
  moreover have "unat addr div 4096 * 4096 \<le> unat addr" by simp
  ultimately have "unat addr div 4096 < chip_size div 4096" by (metis less_mult_imp_div_less)
  then have "(unat addr div 4096 + 1) * 4096 \<le> chip_size div 4096 * 4096" by (intro mult_le_mono1) simp
  then show ?thesis using \<open>chip_size = _\<close> by simp
qed

lemma sector_start: "unat (addr div 4096 * 4096 :: u32) = unat addr div 4096 * 4096"
proof -
  have "unat addr div 4096 * 4096 < 2 ^ 32"
    by (rule le_less_trans [OF div_times_less_eq_dividend]) (use unsigned_less [of addr] in simp)
  then show ?thesis by (simp add: unat_word_ariths unat_div)
qed

lemma write_sectors_ok:
  assumes "board s" and "idle (w25_env s)" and "unat addr < chip_size" and "unat addr + length data \<le> chip_size" and "4101 \<le> bsize"
    and "n \<le> length data" and "n = 0 \<longrightarrow> data = []" and "unat addr mod 4096 + n \<le> 4096"
    and "n < length data \<longrightarrow> unat addr mod 4096 + n = 4096"
    and "run_state (write_sectors (link_sized bsize H) (addr div 4096) (unat addr mod 4096) addr data n) s = (r, s')"
  shows "(r = 0 \<longrightarrow> board s' \<and> w25_inited s' = w25_inited s \<and> cell (w25_env s') = store_cells (cell (w25_env s)) (unat addr) data \<and> idle (w25_env s')) \<and>
    (prompt bsize \<longrightarrow> r = 0)"
  using assms(1-4,6-10)
proof (induction data arbitrary: addr n s rule: measure_induct_rule [of length])
  case (less data)
  let ?h = "link_sized bsize H" and ?rest = "drop n data"
  let ?k = "if length data \<le> n \<or> n = 0 then ret 0
        else write_sectors ?h (addr div 4096 + 1) 0 (addr + of_nat n) ?rest (min 4096 (length data - n))"
  have run: "run_state (write_sector ?h (addr div 4096) (unat addr mod 4096) addr (take n data) ?k) s = (r, s')"
    using less.prems(9) by (subst (asm) write_sectors.simps) (simp add: Let_def)
  have fit: "unat (addr div 4096 * 4096) mod 4096 = 0" "unat (addr div 4096 * 4096) + 4096 \<le> chip_size"
    "unat (addr div 4096 * 4096) + unat addr mod 4096 = unat addr" "unat addr mod 4096 + length (take n data) \<le> 4096"
    using sector_start [of addr] sector_bound [OF less.prems(3)] less.prems(5,7) by simp_all
  have "stored bsize s addr (take n data) ?k r s'"
    by (rule write_sector_ok [OF less.prems(1,2) fit assms(5) run])
  then show ?case
  proof (cases "r \<noteq> 0 \<and> \<not> prompt bsize")
    case True
    then show ?thesis by simp
  next
    case False
    with \<open>stored _ _ _ _ _ _ _\<close> obtain t where t: "board t" "idle (w25_env t)"
      "cell (w25_env t) = store_cells (cell (w25_env s)) (unat addr) (take n data)" "w25_inited t = w25_inited s" and k: "run_state ?k t = (r, s')"
      unfolding stored_def by blast
    show ?thesis
    proof (cases "length data \<le> n")
      case True
      then show ?thesis using t k by simp
    next
      case False
      then have n: "0 < n" "n < length data" using less.prems(6) by auto
      have e: "unat addr mod 4096 + n = 4096" using less.prems(8) n by simp
      have u: "unat (addr + of_nat n) = unat addr + n"
        using less.prems(4) n chip_bound by (intro unat_add_of_nat) simp
      have next_sector: "unat addr + n = (unat addr div 4096 + 1) * 4096"
      proof -
        have "q * 4096 + m = a \<Longrightarrow> m + n = 4096 \<Longrightarrow> a + n = (q + 1) * 4096" for q m a :: nat by simp
        from this [OF div_mult_mod_eq e] show ?thesis .
      qed
      have p: "addr div 4096 + 1 = (addr + of_nat n) div 4096"
      proof (rule word_unat_eq_iff [THEN iffD2])
        have "unat addr div 4096 + 1 < 2 ^ 32" using next_sector less.prems(4) n chip_bound by simp
        then have "unat (addr div 4096 + 1) = unat addr div 4096 + 1" by (simp add: unat_word_ariths unat_div)
        moreover have "unat ((addr + of_nat n) div 4096) = (unat addr + n) div 4096" by (simp add: unat_div u)
        ultimately show "unat (addr div 4096 + 1) = unat ((addr + of_nat n) div 4096)" by (simp add: next_sector)
      qed
      have m: "unat (addr + of_nat n) mod 4096 = 0" by (simp add: u next_sector)
      have "run_state (write_sectors ?h ((addr + of_nat n) div 4096) (unat (addr + of_nat n) mod 4096) (addr + of_nat n) ?rest
          (min 4096 (length data - n))) t = (r, s')" using k n p m by simp
      then have "(r = 0 \<longrightarrow> board s' \<and> w25_inited s' = w25_inited t \<and> cell (w25_env s') = store_cells (cell (w25_env t)) (unat addr + n) ?rest \<and> idle (w25_env s')) \<and>
        (prompt bsize \<longrightarrow> r = 0)"
        using less.IH [of ?rest t "addr + of_nat n" "min 4096 (length data - n)"] n u m t less.prems(4) by (auto simp: min_def)
      then show ?thesis
        using t(3,4) n store_append [of "cell (w25_env s)" "unat addr" "take n data" ?rest] by auto
    qed
  qed
qed

lemma write_ok:
  assumes "board s" and "w25_inited s = 1" and "idle (w25_env s)" and "unat addr < chip_size" and "unat addr + length data \<le> chip_size"
    and "4101 \<le> bsize" and "run_state (w25qxx_write (Some (link_sized bsize H)) addr data) s = (r, s')"
  shows "(r = 0 \<longrightarrow> board s' \<and> w25_inited s' = w25_inited s \<and> cell (w25_env s') = store_cells (cell (w25_env s)) (unat addr) data \<and> idle (w25_env s')) \<and>
    (prompt bsize \<longrightarrow> r = 0)"
proof -
  let ?n = "min (4096 - unat addr mod 4096) (length data)"
  have lt: "unat addr mod 4096 < 4096" by simp
  have "run_state (write_sectors (link_sized bsize H) (addr div 4096) (unat addr mod 4096) addr data ?n) s = (r, s')"
    using assms(2,7) by (simp add: w25qxx_write_def)
  note run = this
  have n: "?n \<le> length data" "?n = 0 \<longrightarrow> data = []" "unat addr mod 4096 + ?n \<le> 4096"
    "?n < length data \<longrightarrow> unat addr mod 4096 + ?n = 4096"
    using lt by (auto simp: min_def)
  show ?thesis by (rule write_sectors_ok [OF assms(1,3-6) n run])
qed

end

end
