(* ===== verification/W25_Timed.thy ===== *)
theory W25_Timed
  imports W25_Chip
begin

text \<open>
  A chip that finishes in the time the driver allows it: the locale \<open>timed_chip\<close> extends
  \<open>flash_chip\<close> by the time \<open>due\<close>, in microseconds, that the chip stays busy. On such a chip a write
  within the chip always returns 0, so that together with the exactness of a write that returns
  0 it stores its data.
\<close>

lemma try_zero: "run_state m s = (0, t) \<Longrightarrow> run_state (w25_try h msg err m k) s = run_state k t"
  by (simp add: run_try)

locale timed_chip = flash_chip H cell idle latched chip_size
  for H :: "'e flash_hal" and cell :: "'e \<Rightarrow> nat \<Rightarrow> u8" and idle :: "'e \<Rightarrow> bool" and latched :: "'e \<Rightarrow> bool"
    and chip_size :: nat +
  fixes due :: "'e \<Rightarrow> nat"
  assumes program_time: "\<lbrakk>idle e; latched e; run_state (flash_transfer H (0x02 # bs)) e = (rx, e')\<rbrakk> \<Longrightarrow> due e' \<le> 2990"
    and erase_time: "\<lbrakk>idle e; latched e; run_state (flash_transfer H (0x20 # bs)) e = (rx, e')\<rbrakk> \<Longrightarrow> due e' \<le> 399000"
    and status_time: "run_state (flash_transfer H [0x05, 0]) e = (rx, e') \<Longrightarrow> due e' \<le> due e \<and> (due e = 0 \<longrightarrow> rx ! 1 AND 1 = 0)"
    and us_time: "run_state (flash_sleep_us H t) e = ((), e') \<Longrightarrow> due e' \<le> due e - unat t"
    and ms_time: "run_state (flash_sleep_ms H t) e = ((), e') \<Longrightarrow> due e' \<le> due e - 1000 * unat t"
begin

lemma status_read:
  assumes "board s" and "2 \<le> bsize"
  obtains st e' where "run_state (read_status1 (link_sized bsize H)) s = ((0, st), s\<lparr>w25_env := e'\<rparr>)"
    and "due e' \<le> due (w25_env s)" and "due (w25_env s) = 0 \<longrightarrow> st AND 1 = 0"
proof -
  obtain rx e1 where t: "run_state (flash_transfer H ([0x05] @ replicate (length [0 :: u8]) 0)) (w25_env s) = (rx, e1)"
    and r: "run_state (a_w25qxx_spi_write_read (link_sized bsize H) [0x05] [0]) s = ((0, drop (length [0x05 :: u8]) rx), s\<lparr>w25_env := e1\<rparr>)"
    using spi_accepts [of "[0x05]" "[0]" bsize s] assms(2) by auto
  have "length rx = 2" using transfer_length t by fastforce
  then have "hd (drop 1 rx) = rx ! 1" by (simp add: hd_drop_conv_nth)
  then show thesis
    using that [of "rx ! 1" e1] r board_lines [OF assms(1)] status_time [of "w25_env s" rx e1] t by (simp add: read_status1_def)
qed

lemma wait_ready_zero:
  assumes "board s" and "2 \<le> bsize" and "\<And>e e'. run_state delay e = ((), e') \<Longrightarrow> due e' \<le> due e - d"
    and "due (w25_env s) \<le> n * d"
  shows "\<exists>s'. run_state (wait_ready (link_sized bsize H) failed late c delay (Suc n)) s = (0, s')"
  using assms(1,4)
proof (induction n arbitrary: s)
  case 0
  obtain st e' where "run_state (read_status1 (link_sized bsize H)) s = ((0, st), s\<lparr>w25_env := e'\<rparr>)" "st AND 1 = 0"
    using status_read [OF 0(1) assms(2)] 0(2) by (metis le_zero_eq mult_zero_left)
  then show ?case by simp
next
  case (Suc n)
  obtain st e' where r: "run_state (read_status1 (link_sized bsize H)) s = ((0, st), s\<lparr>w25_env := e'\<rparr>)"
    and e': "due e' \<le> due (w25_env s)"
    by (rule status_read [OF Suc.prems(1) assms(2)])
  obtain e2 where d: "run_state delay e' = ((), e2)" by (metis prod.collapse unit_eq)
  have "due e2 \<le> n * d" using assms(3) [OF d] e' Suc.prems(2) by simp
  then have "\<exists>s'. run_state (wait_ready (link_sized bsize H) failed late c delay (Suc n)) (s\<lparr>w25_env := e2\<rparr>) = (0, s')"
    using Suc.IH [of "s\<lparr>w25_env := e2\<rparr>"] Suc.prems(1) by simp
  then show ?case using r d by (auto simp del: wait_ready.simps simp: wait_ready.simps(2) [of _ _ _ _ _ "Suc n"])
qed

lemma program_zero:
  assumes "board s" and "idle (w25_env s)" and "unat addr + length data \<le> chip_size"
    and "unat addr mod 256 + length data \<le> 256" and "260 \<le> bsize"
  obtains s' where "run_state (a_w25qxx_page_program (link_sized bsize H) addr data) s = (0, s')"
proof -
  obtain e1 rx t where e1: "idle e1" "latched e1" "run_state (flash_transfer H (0x02 # addr_list 3 addr @ data)) e1 = (rx, w25_env t)"
    and "frame s t"
    and w: "run_state (a_w25qxx_page_program (link_sized bsize H) addr data) s = run_state (program_wait bsize) t"
    by (rule program_step [OF assms])
  then have "board t" "2 \<le> bsize" "due (w25_env t) \<le> 299 * 10"
    using program_time [OF e1] assms(5) by (simp_all add: frame_def)
  moreover have "\<And>e e'. run_state (flash_sleep_us H 10) e = ((), e') \<Longrightarrow> due e' \<le> due e - 10" using us_time by fastforce
  ultimately have "\<exists>s'. run_state (wait_ready (link_sized bsize H) ''w25qxx: get status1 failed.'' ''w25qxx: page program timeout.'' 1
     (flash_sleep_us H 10) (Suc 299)) t = (0, s')"
    by (intro wait_ready_zero)
  then show thesis using that w by auto
qed

lemma erase_zero:
  assumes "board s" and "idle (w25_env s)" and "unat addr + 4096 \<le> chip_size" and "unat addr mod 4096 = 0" and "4 \<le> bsize"
  obtains s' where "run_state (erase_with c l (link_sized bsize H) addr) s = (0, s')"
proof -
  obtain e1 rx t where e1: "idle e1" "latched e1" "run_state (flash_transfer H (0x20 # addr_list 3 addr)) e1 = (rx, w25_env t)"
    and "frame s t"
    and w: "\<forall>c l. run_state (erase_with c l (link_sized bsize H) addr) s = run_state (erase_wait l bsize) t"
    by (rule erase_step [OF assms])
  then have "board t" "2 \<le> bsize" "due (w25_env t) \<le> 399 * 1000"
    using erase_time [OF e1] assms(5) by (simp_all add: frame_def)
  moreover have "\<And>e e'. run_state (flash_sleep_ms H 1) e = ((), e') \<Longrightarrow> due e' \<le> due e - 1000" using ms_time by fastforce
  ultimately have "\<exists>s'. run_state (wait_ready (link_sized bsize H) ''w25qxx: get status1 failed.'' ''w25qxx: sector erase 4k timeout.'' l
     (flash_sleep_ms H 1) (Suc 399)) t = (0, s')"
    by (intro wait_ready_zero)
  then show thesis using that w by auto
qed

lemma prompt_ok: "260 \<le> bsize \<Longrightarrow> prompt bsize"
proof -
  assume b: "260 \<le> bsize"
  then have four: "4 \<le> bsize" by simp
  have "fst (run_state (a_w25qxx_page_program (link_sized bsize H) addr data) s) = 0"
    if "board s" "idle (w25_env s)" "unat addr + length data \<le> chip_size" "unat addr mod 256 + length data \<le> 256" for s addr data
    using program_zero [OF that b] by (metis fst_conv)
  moreover have "fst (run_state (erase_with 1 1 (link_sized bsize H) addr) s) = 0"
    if "board s" "idle (w25_env s)" "unat addr + 4096 \<le> chip_size" "unat addr mod 4096 = 0" for s addr
    using erase_zero [OF that four] by (metis fst_conv)
  ultimately show ?thesis by (simp add: prompt_def)
qed

lemma write_stores:
  assumes "board s" and "w25_inited s = 1" and "idle (w25_env s)" and "unat addr < chip_size" and "unat addr + length data \<le> chip_size"
    and "4101 \<le> bsize"
  shows "\<exists>s'. run_state (w25qxx_write (Some (link_sized bsize H)) addr data) s = (0, s') \<and> board s' \<and> w25_inited s' = 1 \<and>
    cell (w25_env s') = store_cells (cell (w25_env s)) (unat addr) data \<and> idle (w25_env s')"
proof -
  obtain r s' where run: "run_state (w25qxx_write (Some (link_sized bsize H)) addr data) s = (r, s')" by fastforce
  have "prompt bsize" using assms(6) by (intro prompt_ok) simp
  then show ?thesis using write_ok [OF assms run] run assms(2) by auto
qed

text \<open>Erasing works with any buffer that takes the command.\<close>

lemma erase_sectors_ok:
  assumes "board s" and "w25_inited s = 1" and "idle (w25_env s)" and "unat addr mod 4096 = 0"
    and "unat addr + 4096 * k \<le> chip_size" and "4 \<le> bsize"
  shows "\<exists>s'. run_state (erase_sectors (link_sized bsize H) addr k) s = ((), s') \<and> frame s s' \<and> idle (w25_env s') \<and>
    cell (w25_env s') = store_cells (cell (w25_env s)) (unat addr) (replicate (4096 * k) 0xFF)"
  using assms(1-5)
proof (induction k arbitrary: s addr)
  case 0
  then show ?case by (auto simp: frame_def store_cells_def fun_eq_iff)
next
  case (Suc k)
  have fit: "unat addr + 4096 \<le> chip_size" using Suc.prems(5) by simp
  obtain t where run: "run_state (erase_with 5 6 (link_sized bsize H) addr) s = (0, t)"
    by (rule erase_zero [OF Suc.prems(1,3) fit Suc.prems(4) assms(6)])
  have t: "frame s t" "cell (w25_env t) = erase_cells (cell (w25_env s)) (unat addr)" "idle (w25_env t)"
    using erase_ok [OF Suc.prems(1,3) fit Suc.prems(4) assms(6) run] by simp_all
  have aligned: "addr mod 4096 = 0" using Suc.prems(4) by (simp add: word_unat_eq_iff unat_mod)
  have one: "run_state (w25qxx_sector_erase_4k (Some (link_sized bsize H)) addr) s = (0, t)"
    using run aligned Suc.prems(2) by (simp add: w25qxx_sector_erase_4k_def)
  show ?case
  proof (cases "k = 0")
    case True
    have "cell (w25_env t) = store_cells (cell (w25_env s)) (unat addr) (replicate 4096 0xFF)"
      by (rule ext) (auto simp: t(2) erase_cells_def store_cells_def)
    then show ?thesis using True one t by simp
  next
    case False
    then have u: "unat (addr + 4096) = unat addr + 4096"
      using unat_add_of_nat [of addr 4096] Suc.prems(5) chip_bound by simp
    have next_sector: "unat (addr + 4096) mod 4096 = 0" using Suc.prems(4) by (simp add: u)
    have "board t" "w25_inited t = 1" "unat (addr + 4096) + 4096 * k \<le> chip_size" using t(1) Suc.prems(2,5) u by (simp_all add: frame_def)
    with Suc.IH [of t "addr + 4096"] t(3) next_sector obtain s' where
      s': "run_state (erase_sectors (link_sized bsize H) (addr + 4096) k) t = ((), s')" "frame t s'" "idle (w25_env s')"
        "cell (w25_env s') = store_cells (cell (w25_env t)) (unat addr + 4096) (replicate (4096 * k) 0xFF)"
      using u by auto
    have "cell (w25_env s') = store_cells (cell (w25_env s)) (unat addr) (replicate (4096 * Suc k) 0xFF)"
      by (rule ext) (auto simp: s'(4) t(2) erase_cells_def store_cells_def)
    then show ?thesis using one s' frame_trans [OF t(1) s'(2)] by simp
  qed
qed

end

text \<open>Reads on this board: the interface takes the five bytes of the command and at most 59 more.\<close>

context flash_chip begin

lemma long_read_refused:
  assumes "board s" and "bsize < length data + 5" and "length data + 5 < 2 ^ 32"
  shows "run_state (read_with c (link_sized bsize H) addr data) s =
    ((1, data), s\<lparr>w25_env := snd (run_state (flash_print H ''w25qxx: fast read failed.'') (w25_env s))\<rparr>)"
proof -
  let ?tx = "0x0B # addr_list 3 addr @ [0]"
  have "run_state (spi_qspi_write_read (link_sized bsize H) x ?tx data) e = ((1, data), e)" for x e
    using assms(2,3) by (intro link_refuses) simp_all
  then show ?thesis
    using board_lines [OF assms(1)] by (simp add: read_with_def fast_read_def a_w25qxx_spi_write_read_def run_print)
qed

end

end
