(* ===== verification/W25_Init.thy ===== *)
theory W25_Init
  imports W25_Interface
begin

text \<open>
  Opening and closing the flash driver (\<open>w25qxx_init\<close>, \<open>w25qxx_deinit\<close>, the setters and
  \<open>w25qxx_get_jedec_id\<close> of \<^verbatim>\<open>src/w25qxx/w25qxx.c\<close>) and \<open>w25q_init\<close> of \<^verbatim>\<open>src/flashdb/fdb_port.c\<close>, which
  links and opens it. The functions linked to the handle may be missing, as \<open>w25qxx_init\<close> tests.
\<close>

record 'e w25_links =
  spi_qspi_init :: "('e, u8) state option"
  spi_qspi_deinit :: "('e, u8) state option"
  link_write_read :: "(xfer \<Rightarrow> u8 list \<Rightarrow> u8 list \<Rightarrow> ('e, u8 \<times> u8 list) state) option"
  link_delay_ms :: "(u32 \<Rightarrow> ('e, unit) state) option"
  link_delay_us :: "(u32 \<Rightarrow> ('e, unit) state) option"
  link_debug_print :: "(string \<Rightarrow> ('e, unit) state) option"

definition w25qxx_set_type :: "'e w25_state option \<Rightarrow> u16 \<Rightarrow> u8 \<times> 'e w25_state option" where
  "w25qxx_set_type handle type = (case handle of None \<Rightarrow> (2, None) | Some s \<Rightarrow> (0, Some (s\<lparr>w25_type := type\<rparr>)))"

definition w25qxx_get_type :: "'e w25_state option \<Rightarrow> u16 \<Rightarrow> u8 \<times> u16" where
  "w25qxx_get_type handle type = (case handle of None \<Rightarrow> (2, type) | Some s \<Rightarrow> (0, w25_type s))"

definition w25qxx_set_interface :: "'e w25_state option \<Rightarrow> u8 \<Rightarrow> u8 \<times> 'e w25_state option" where
  "w25qxx_set_interface handle interface = (case handle of None \<Rightarrow> (2, None) | Some s \<Rightarrow> (0, Some (s\<lparr>spi_qspi := interface\<rparr>)))"

definition w25qxx_get_interface :: "'e w25_state option \<Rightarrow> u8 \<Rightarrow> u8 \<times> u8" where
  "w25qxx_get_interface handle interface = (case handle of None \<Rightarrow> (2, interface) | Some s \<Rightarrow> (0, spi_qspi s))"

definition w25qxx_set_dual_quad_spi :: "'e w25_state option \<Rightarrow> u8 \<Rightarrow> u8 \<times> 'e w25_state option" where
  "w25qxx_set_dual_quad_spi handle enable =
     (case handle of None \<Rightarrow> (2, None) | Some s \<Rightarrow> (0, Some (s\<lparr>dual_quad_spi_enable := enable\<rparr>)))"

definition w25qxx_get_dual_quad_spi :: "'e w25_state option \<Rightarrow> u8 \<Rightarrow> u8 \<times> u8" where
  "w25qxx_get_dual_quad_spi handle enable = (case handle of None \<Rightarrow> (2, enable) | Some s \<Rightarrow> (0, dual_quad_spi_enable s))"

subsection \<open>Opening\<close>

text \<open>A step of the opening sequence: a failure prints, closes the bus and ends with a code.\<close>

definition init_try ::
  "'e w25_bus \<Rightarrow> ('e, u8) state \<Rightarrow> string \<Rightarrow> u8 \<Rightarrow> ('e w25_state, u8 \<times> 'b) state \<Rightarrow> ('b \<Rightarrow> ('e w25_state, u8) state) \<Rightarrow>
   ('e w25_state, u8) state" where
  "init_try h deinit msg code m k = do {
     (res, v) \<leftarrow> m;
     if res \<noteq> 0 then do { w25_print h msg; on_bus deinit; ret code } else k v }"

text \<open>A command without address on \<open>n\<close> lines.\<close>

definition qspi_command :: "'e w25_bus \<Rightarrow> u8 \<Rightarrow> u8 \<Rightarrow> u8 \<Rightarrow> u8 \<Rightarrow> u8 list \<Rightarrow> u8 list \<Rightarrow> ('e w25_state, u8 \<times> u8 list) state" where
  "qspi_command h op n cycles dline in_buf out_buf = a_w25qxx_qspi_write_read h
     \<lparr>instruction = op, instruction_line = n, address = 0, address_line = 0, address_len = 0,
      dummy_cycles = cycles, data_line = dline\<rparr> in_buf out_buf"

definition read_manufacturer :: "'e w25_bus \<Rightarrow> u8 \<Rightarrow> ('e w25_state, u8 \<times> u8 list) state" where
  "read_manufacturer h n = a_w25qxx_qspi_write_read h
     \<lparr>instruction = 0x90, instruction_line = n, address = 0, address_line = n, address_len = 3,
      dummy_cycles = 0, data_line = n\<rparr> [] [0, 0]"

definition id_of :: "u8 list \<Rightarrow> u16" where
  "id_of out = push_bit 8 (ucast (out ! 0)) OR ucast (out ! 1)"

definition check_id :: "'e w25_bus \<Rightarrow> ('e, u8) state \<Rightarrow> u8 list \<Rightarrow> ('e w25_state, u8) state \<Rightarrow> ('e w25_state, u8) state" where
  "check_id h deinit out k = do {
     s \<leftarrow> getst;
     if id_of out \<noteq> w25_type s then do { w25_print h ''w25qxx: id is invalid.''; on_bus deinit; ret 6 } else k }"

definition init_single :: "'e w25_bus \<Rightarrow> ('e, u8) state \<Rightarrow> ('e w25_state, u8) state" where
  "init_single h deinit =
     init_try h deinit ''w25qxx: release power down failed.'' 1 (a_w25qxx_spi_write_read h [0xAB, 0xFF, 0xFF, 0xFF] [0]) (\<lambda>_.
     init_try h deinit ''w25qxx: enable reset failed.'' 7 (a_w25qxx_spi_write_read h [0x66] []) (\<lambda>_.
     init_try h deinit ''w25qxx: reset device failed.'' 7 (a_w25qxx_spi_write_read h [0x99] []) (\<lambda>_. do {
     on_bus (w25_delay_ms h 10);
     init_try h deinit ''w25qxx: get manufacturer device id failed.'' 4 (a_w25qxx_spi_write_read h [0x90, 0, 0, 0] [0, 0]) (\<lambda>out.
     check_id h deinit out (do {
     s \<leftarrow> getst;
     if w25_type s \<ge> W25Q256 then
       init_try h deinit ''w25qxx: set address mode failed.'' 8 (a_w25qxx_spi_write_read h [0xE9] []) (\<lambda>_. ret 0)
     else ret 0 })) })))"

definition init_reset :: "'e w25_bus \<Rightarrow> ('e, u8) state \<Rightarrow> ('e w25_state, u8) state \<Rightarrow> ('e w25_state, u8) state" where
  "init_reset h deinit k =
     init_try h deinit ''w25qxx: release power down failed.'' 1 (qspi_command h 0xAB 1 (3 * 8) 1 [] [0]) (\<lambda>_.
     init_try h deinit ''w25qxx: enable reset failed.'' 7 (qspi_command h 0x66 1 0 0 [] []) (\<lambda>_.
     init_try h deinit ''w25qxx: reset device failed.'' 7 (qspi_command h 0x99 1 0 0 [] []) (\<lambda>_. do {
     on_bus (w25_delay_ms h 10);
     k })))"

definition init_identify :: "'e w25_bus \<Rightarrow> ('e, u8) state \<Rightarrow> u8 \<Rightarrow> ('e w25_state, u8) state" where
  "init_identify h deinit n =
     init_try h deinit ''w25qxx: get manufacturer device id failed.'' 1 (read_manufacturer h n) (\<lambda>out.
     check_id h deinit out (do {
     s \<leftarrow> getst;
     if w25_type s \<ge> W25Q256 then
       init_try h deinit ''w25qxx: enter 3 byte mode failed.'' 1 (qspi_command h 0xE9 n 0 0 [] []) (\<lambda>_. ret 0)
     else ret 0 }))"

definition init_qspi :: "'e w25_bus \<Rightarrow> ('e, u8) state \<Rightarrow> ('e w25_state, u8) state" where
  "init_qspi h deinit =
     init_reset h deinit (
     init_try h deinit ''w25qxx: read status 2 failed.'' 5 (qspi_command h 0x35 1 0 1 [] [0]) (\<lambda>status.
     (let enter =
        init_try h deinit ''w25qxx: enter qspi failed.'' 5 (qspi_command h 0x38 1 0 0 [] []) (\<lambda>_. do {
          on_bus (w25_delay_ms h 10);
          modify (\<lambda>s. s\<lparr>w25_param := 0x30, w25_dummy := 8\<rparr>);
          init_try h deinit ''w25qxx: set read parameters failed.'' 5 (qspi_command h 0xC0 4 0 4 [0x30] []) (\<lambda>_.
            init_identify h deinit 4) })
      in if hd status AND 0x02 = 0 then
           init_try h deinit ''w25qxx: set sr write enable failed.'' 5 (qspi_command h 0x50 1 0 0 [] []) (\<lambda>_.
           init_try h deinit ''w25qxx: write status 2 failed.'' 5 (qspi_command h 0x31 1 0 0 [] []) (\<lambda>_. enter))
         else enter)))"

definition init_bus :: "'e w25_bus \<Rightarrow> ('e, u8) state \<Rightarrow> ('e, u8) state \<Rightarrow> ('e w25_state, u8) state" where
  "init_bus h init deinit = do {
     s \<leftarrow> getst;
     res \<leftarrow> on_bus init;
     if res \<noteq> 0 then do {
       w25_print h (if spi_qspi s = W25QXX_INTERFACE_SPI then ''w25qxx: spi init failed.'' else ''w25qxx: qspi init failed.'');
       ret 1 }
     else do {
       res \<leftarrow> (case bus_lines s of
          None \<Rightarrow> init_single h deinit
        | Some n \<Rightarrow> if n = 1 then init_reset h deinit (init_identify h deinit 1) else init_qspi h deinit);
       if res \<noteq> 0 then ret res
       else do {
         modify (\<lambda>s. s\<lparr>w25_address_mode := W25QXX_ADDRESS_MODE_3_BYTE, w25_inited := 1\<rparr>);
         ret 0 } } }"

definition w25qxx_init :: "'e w25_links option \<Rightarrow> ('e w25_state, u8) state" where
  "w25qxx_init handle =
     (case handle of
        None \<Rightarrow> ret 2
      | Some l \<Rightarrow>
     (case link_debug_print l of
        None \<Rightarrow> ret 3
      | Some print \<Rightarrow>
     (case spi_qspi_init l of
        None \<Rightarrow> do { on_bus (print ''w25qxx: spi_qspi_init is null.''); ret 3 }
      | Some init \<Rightarrow>
     (case spi_qspi_deinit l of
        None \<Rightarrow> do { on_bus (print ''w25qxx: spi_qspi_deinit is null.''); ret 3 }
      | Some deinit \<Rightarrow>
     (case link_write_read l of
        None \<Rightarrow> do { on_bus (print ''w25qxx: spi_qspi_write_read is null.''); ret 3 }
      | Some write_read \<Rightarrow>
     (case link_delay_us l of
        None \<Rightarrow> do { on_bus (print ''w25qxx: delay_us is null.''); ret 3 }
      | Some us \<Rightarrow>
     (case link_delay_ms l of
        None \<Rightarrow> do { on_bus (print ''w25qxx: delay_ms is null.''); ret 3 }
      | Some ms \<Rightarrow>
          init_bus \<lparr>spi_qspi_write_read = write_read, w25_delay_ms = ms, w25_delay_us = us, w25_debug_print = print\<rparr>
            init deinit)))))))"

definition w25qxx_deinit :: "('e w25_bus \<times> ('e, u8) state) option \<Rightarrow> ('e w25_state, u8) state" where
  "w25qxx_deinit handle =
     (case handle of
        None \<Rightarrow> ret 2
      | Some (h, deinit) \<Rightarrow> do {
          s \<leftarrow> getst;
          if w25_inited s \<noteq> 1 then ret 3
          else (let close = do {
              res \<leftarrow> on_bus deinit;
              if res \<noteq> 0 then do { w25_print h ''w25qxx: spi or qspi deinit failed.''; ret 1 } else ret 0 }
            in case bus_lines s of
                 None \<Rightarrow> do {
                   (res, _) \<leftarrow> a_w25qxx_spi_write_read h [0xB9] [];
                   if res \<noteq> 0 then do { w25_print h ''w25qxx: power down failed.''; ret 4 } else close }
               | Some n \<Rightarrow>
                   if n = 1 then do {
                     (res, _) \<leftarrow> qspi_command h 0xB9 1 0 0 [] [];
                     if res \<noteq> 0 then do { w25_print h ''w25qxx: power down failed.''; ret 4 } else close }
                   else do {
                     (res, _) \<leftarrow> qspi_command h 0xFF 4 0 0 [] [];
                     if res \<noteq> 0 then do { w25_print h ''w25qxx: exit qspi mode failed.''; ret 1 }
                     else do {
                       on_bus (w25_delay_ms h 10);
                       (res, _) \<leftarrow> qspi_command h 0xB9 1 0 0 [] [];
                       if res \<noteq> 0 then do { w25_print h ''w25qxx: power down failed.''; ret 4 } else close } }) })"

definition w25qxx_get_jedec_id :: "'e w25_bus option \<Rightarrow> u8 list \<Rightarrow> ('e w25_state, u8 \<times> u8 list) state" where
  "w25qxx_get_jedec_id handle ids =
     (case handle of
        None \<Rightarrow> ret (2, ids)
      | Some h \<Rightarrow> do {
          s \<leftarrow> getst;
          if w25_inited s \<noteq> 1 then ret (3, ids)
          else do {
            (res, out) \<leftarrow> (case bus_lines s of
                None \<Rightarrow> a_w25qxx_spi_write_read h [0x9F] [0, 0, 0]
              | Some n \<Rightarrow> qspi_command h 0x9F n 0 n [] [0, 0, 0]);
            if res \<noteq> 0 then do { w25_print h ''w25qxx: get jedec id failed.''; ret (1, ids) } else ret (0, out) } })"

text \<open>The port links the board's functions to a cleared handle; \<open>ids\<close> are its uninitialised locals.\<close>

definition w25q_links :: "'e flash_hal \<Rightarrow> 'e w25_links" where
  "w25q_links H = (let h = link_w25 H in
     \<lparr>spi_qspi_init = Some (w25qxx_interface_spi_qspi_init H), spi_qspi_deinit = Some (w25qxx_interface_spi_qspi_deinit H),
      link_write_read = Some (spi_qspi_write_read h), link_delay_ms = Some (w25_delay_ms h), link_delay_us = Some (w25_delay_us h),
      link_debug_print = Some (w25_debug_print h)\<rparr>)"

definition cleared :: "'e \<Rightarrow> 'e w25_state" where
  "cleared e = \<lparr>w25_inited = 0, w25_type = 0, w25_address_mode = 0, w25_param = 0, w25_dummy = 0, dual_quad_spi_enable = 0, spi_qspi = 0,
     w25_buf = replicate 262 0, buf_4k = replicate 4097 0, w25_env = e\<rparr>"

definition w25q_init :: "'e flash_hal \<Rightarrow> u8 list \<Rightarrow> ('e w25_state, int) state" where
  "w25q_init H ids = do {
     modify (\<lambda>s. cleared (w25_env s));
     modify (\<lambda>s. the (snd (w25qxx_set_interface (Some s) W25QXX_INTERFACE_SPI)));
     modify (\<lambda>s. the (snd (w25qxx_set_type (Some s) W25Q64)));
     _ \<leftarrow> w25qxx_init (Some (w25q_links H));
     (_, ids) \<leftarrow> w25qxx_get_jedec_id (Some (link_w25 H)) ids;
     on_bus (flash_chprintf H ''Manufacturer: 0x%02x, Manufacturer ID: 0x%02x%02x'' (map uint ids));
     ret 0 }"

subsection \<open>Opening the flash of this board\<close>

text \<open>What \<open>w25qxx_init\<close> sends to the chip.\<close>

definition open_frames :: "'e flash_hal \<Rightarrow> ('e, u8 list) state" where
  "open_frames H = do {
     _ \<leftarrow> flash_transfer H [0xAB, 0xFF, 0xFF, 0xFF, 0];
     _ \<leftarrow> flash_transfer H [0x66];
     _ \<leftarrow> flash_transfer H [0x99];
     flash_sleep_ms H 10;
     flash_transfer H [0x90, 0, 0, 0, 0, 0] }"

text \<open>How it ends: in \<open>e\<close>, from the handle \<open>s\<close> that the port has prepared.\<close>

definition open_outcome :: "'e flash_hal \<Rightarrow> 'e w25_state \<Rightarrow> u8 \<times> 'e w25_state" where
  "open_outcome H s =
     (let (msg, e1) = run_state (flash_spiStart H) (w25_env s) in
      if msg \<noteq> 0 then (1, s\<lparr>w25_env := snd (run_state (flash_print H ''w25qxx: spi init failed.'') e1)\<rparr>)
      else let (rx, e2) = run_state (open_frames H) e1 in
        if rx ! 4 = 0xEF \<and> rx ! 5 = 0x16 then (0, s\<lparr>w25_env := e2, w25_address_mode := 0, w25_inited := 1\<rparr>)
        else (6, s\<lparr>w25_env := snd (run_state (do { flash_print H ''w25qxx: id is invalid.''; flash_spiStop H }) e2)\<rparr>))"

lemma id_of_w25q64: "id_of [a, b] = W25Q64 \<longleftrightarrow> a = 0xEF \<and> b = 0x16"
proof -
  have *: "uint (id_of [a, b]) = uint a * 256 + uint b"
  proof -
    have "push_bit 8 (ucast a) AND ucast b = (0 :: u16)"
      by (rule bit_eqI) (auto simp: bit_simps dest: bit_imp_le_length)
    then have "id_of [a, b] = push_bit 8 (ucast a) + ucast b"
      by (simp add: id_of_def disjunctive_add_eq_or)
    moreover have "uint a < 256" "uint b < 256" using uint_lt2p [of a] uint_lt2p [of b] by simp_all
    ultimately show ?thesis by (simp add: push_bit_eq_mult uint_word_ariths unsigned_ucast_eq take_bit_eq_mod)
  qed
  have "uint a < 256" "uint b < 256" using uint_lt2p [of a] uint_lt2p [of b] by simp_all
  moreover have "0 \<le> uint a" "0 \<le> uint b" by simp_all
  ultimately have "uint a * 256 + uint b = 0xEF16 \<longleftrightarrow> uint a = 0xEF \<and> uint b = 0x16" by presburger
  then show ?thesis using * by (simp add: word_uint_eq_iff)
qed

text \<open>The handle as the port prepares it for \<open>w25qxx_init\<close>.\<close>

abbreviation prepared :: "'e \<Rightarrow> 'e w25_state" where
  "prepared e \<equiv> (cleared e)\<lparr>w25_type := W25Q64\<rparr>"

context flash_link begin

lemma single_transfer:
  assumes "length tx + length out \<le> FLASH_SPI_BUFFER_SIZE"
  shows "run_state (a_w25qxx_spi_write_read (link_w25 H) tx out) s =
    (let (rx, e') = run_state (flash_transfer H (tx @ replicate (length out) 0)) (w25_env s) in
     ((0, drop (length tx) rx), s\<lparr>w25_env := e'\<rparr>))"
proof -
  have "length tx + length out < 2 ^ 32" using assms by (simp add: FLASH_SPI_BUFFER_SIZE_def)
  then obtain rx e' where "run_state (flash_transfer H (tx @ replicate (length out) 0)) (w25_env s) = (rx, e')"
    "run_state (a_w25qxx_spi_write_read (link_w25 H) tx out) s = ((0, drop (length tx) rx), s\<lparr>w25_env := e'\<rparr>)"
    unfolding link_w25_def by (rule spi_accepts [OF assms])
  then show ?thesis by simp
qed

lemma init_single_board:
  assumes "w25_type s = W25Q64"
  shows "run_state (init_single (link_w25 H) (w25qxx_interface_spi_qspi_deinit H)) s =
    (let (rx, e2) = run_state (open_frames H) (w25_env s) in
     if rx ! 4 = 0xEF \<and> rx ! 5 = 0x16 then (0, s\<lparr>w25_env := e2\<rparr>)
     else (6, s\<lparr>w25_env := snd (run_state (do { flash_print H ''w25qxx: id is invalid.''; flash_spiStop H }) e2)\<rparr>))"
proof -
  obtain rx1 e1 where 1: "run_state (flash_transfer H [0xAB, 0xFF, 0xFF, 0xFF, 0]) (w25_env s) = (rx1, e1)" by fastforce
  obtain rx2 e2 where 2: "run_state (flash_transfer H [0x66]) e1 = (rx2, e2)" by fastforce
  obtain rx3 e3 where 3: "run_state (flash_transfer H [0x99]) e2 = (rx3, e3)" by fastforce
  obtain e4 where 4: "run_state (flash_sleep_ms H 10) e3 = ((), e4)" by (metis old.unit.exhaust surj_pair)
  obtain rx e5 where 5: "run_state (flash_transfer H [0x90, 0, 0, 0, 0, 0]) e4 = (rx, e5)" by fastforce
  have "length rx = 6" using transfer_length [OF 5] by simp
  then have id: "id_of (drop (Suc (Suc (Suc (Suc 0)))) rx) = id_of [rx ! 4, rx ! 5]" by (simp add: id_of_def eval_nat_numeral)
  have ms: "w25_delay_ms (link_w25 H) = flash_sleep_ms H" "w25_debug_print (link_w25 H) = flash_print H" by (simp_all add: link_w25_def)
  have fits: "4 + 1 \<le> FLASH_SPI_BUFFER_SIZE" "1 + 0 \<le> FLASH_SPI_BUFFER_SIZE" "4 + 2 \<le> FLASH_SPI_BUFFER_SIZE"
    by (simp_all add: FLASH_SPI_BUFFER_SIZE_def)
  show ?thesis
    using assms fits id 1 2 3 4 5
    by (simp add: init_single_def init_try_def check_id_def single_transfer open_frames_def ms run_print id_of_w25q64
        w25qxx_interface_spi_qspi_deinit_def case_prod_beta)
qed

lemma init_bus_board:
  "run_state (init_bus (link_w25 H) (w25qxx_interface_spi_qspi_init H) (w25qxx_interface_spi_qspi_deinit H)) (prepared e) =
   open_outcome H (prepared e)"
proof -
  have "bus_lines (prepared e) = None" "spi_qspi (prepared e) = 0" by (simp_all add: cleared_def bus_lines_def)
  moreover obtain msg e1 where "run_state (flash_spiStart H) (w25_env (prepared e)) = (msg, e1)" by fastforce
  moreover obtain rx e2 where "run_state (open_frames H) e1 = (rx, e2)" by fastforce
  ultimately show ?thesis
    by (simp add: init_bus_def open_outcome_def init_single_board w25qxx_interface_spi_qspi_init_def run_print)
      (simp add: link_w25_def)
qed

lemma links_bus: "\<lparr>spi_qspi_write_read = spi_qspi_write_read h, w25_delay_ms = w25_delay_ms h, w25_delay_us = w25_delay_us h,
    w25_debug_print = w25_debug_print h\<rparr> = h"
  by (rule w25_bus.equality) simp_all

lemma driver_init: "run_state (w25qxx_init (Some (w25q_links H))) (prepared e) = open_outcome H (prepared e)"
  by (simp add: w25qxx_init_def w25q_links_def Let_def links_bus init_bus_board)

lemma transfer_env:
  "\<exists>r out' e'. run_state (a_w25qxx_spi_write_read h tx out) s = ((r, out'), s\<lparr>w25_env := e'\<rparr>)"
  "\<exists>r out' e'. run_state (a_w25qxx_qspi_write_read h x tx out) s = ((r, out'), s\<lparr>w25_env := e'\<rparr>)"
  by (auto simp: a_w25qxx_spi_write_read_def a_w25qxx_qspi_write_read_def case_prod_beta)

lemma jedec_env: "\<exists>e'. snd (run_state (w25qxx_get_jedec_id (Some (link_w25 H)) ids) s) = s\<lparr>w25_env := e'\<rparr>"
proof (cases "w25_inited s = 1")
  case True
  have "\<exists>r out' e'. run_state (case bus_lines s of None \<Rightarrow> a_w25qxx_spi_write_read (link_w25 H) [0x9F] [0, 0, 0]
      | Some n \<Rightarrow> qspi_command (link_w25 H) 0x9F n 0 n [] [0, 0, 0]) s = ((r, out'), s\<lparr>w25_env := e'\<rparr>)"
    by (cases "bus_lines s") (simp_all add: qspi_command_def transfer_env)
  then show ?thesis using True by (auto simp: w25qxx_get_jedec_id_def run_print)
next
  case False
  then show ?thesis by (auto simp: w25qxx_get_jedec_id_def intro: exI [of _ "w25_env s"])
qed

lemma port_init:
  "\<exists>e'. run_state (w25q_init H ids) s = (0, (snd (open_outcome H (prepared (w25_env s))))\<lparr>w25_env := e'\<rparr>)"
proof -
  obtain e' where "snd (run_state (w25qxx_get_jedec_id (Some (link_w25 H)) ids) (snd (open_outcome H (prepared (w25_env s))))) =
     (snd (open_outcome H (prepared (w25_env s))))\<lparr>w25_env := e'\<rparr>"
    using jedec_env by blast
  moreover have "(cleared (w25_env s))\<lparr>spi_qspi := 0, w25_type := W25Q64\<rparr> = prepared (w25_env s)" by (simp add: cleared_def)
  ultimately show ?thesis
    by (auto simp: w25q_init_def w25qxx_set_interface_def w25qxx_set_type_def driver_init case_prod_beta)
qed

lemma open_outcome_handle:
  assumes "open_outcome H (prepared e) = (r, s')"
  shows "board s'" "w25_inited s' = (if r = 0 then 1 else 0)"
  using assms by (auto simp: open_outcome_def board_def cleared_def Let_def split: prod.splits if_splits)

end

end
