(* ===== verification/W25_Sim.thy ===== *)
theory W25_Sim
  imports W25_Timed W25_Init
begin

text \<open>
  A W25Q64 as the driver meets it: 8 MiB of cells, a write enable latch, and a busy time after
  programming and erasing. It interprets the locales of the flash driver, and the properties of
  the driver on any such chip follow, with this one as their witness.
\<close>

record sim_chip =
  mem_cells :: "nat \<Rightarrow> u8"
  wel :: bool
  busy :: nat

definition sim_addr :: "u8 \<Rightarrow> u8 \<Rightarrow> u8 \<Rightarrow> nat" where
  "sim_addr a2 a1 a0 = unat a2 * 65536 + unat a1 * 256 + unat a0"

definition zeros :: "nat \<Rightarrow> u8 list" where
  "zeros n = replicate n 0"

text \<open>A busy chip answers only the status command; a page program stays within its page.\<close>

definition sim_command :: "u8 \<Rightarrow> u8 list \<Rightarrow> sim_chip \<Rightarrow> u8 list \<times> sim_chip" where
  "sim_command op args c =
     (if op = 0x05 then (0 # replicate (length args) (if busy c = 0 then 0 else 1), c)
      else if busy c \<noteq> 0 then (zeros (Suc (length args)), c)
      else if op = 0x90 then (zeros 4 @ [0xEF, 0x16], c)
      else if op = 0x9F then ([0, 0xEF, 0x40, 0x17], c)
      else if op = 0x06 then (zeros (Suc (length args)), c\<lparr>wel := True\<rparr>)
      else (case args of
          a2 # a1 # a0 # bs \<Rightarrow>
            (let a = sim_addr a2 a1 a0 in
             if op = 0x0B then (zeros 5 @ cells (mem_cells c) a (length bs - 1), c)
             else if op = 0x02 \<and> wel c then
               (zeros (Suc (length args)),
                \<lparr>mem_cells = program_cells (mem_cells c) a (take (256 - a mod 256) bs), wel = False, busy = 700\<rparr>)
             else if op = 0x20 \<and> wel c then
               (zeros (Suc (length args)),
                \<lparr>mem_cells = erase_cells (mem_cells c) (a - a mod 4096), wel = False, busy = 45000\<rparr>)
             else (zeros (Suc (length args)), c))
        | _ \<Rightarrow> (zeros (Suc (length args)), c)))"

definition sim_exchange :: "u8 list \<Rightarrow> (sim_chip, u8 list) state" where
  "sim_exchange tx = State (\<lambda>c. case tx of [] \<Rightarrow> ([], c) | op # args \<Rightarrow>
     let (rx, c') = sim_command op args c in (take (length tx) (rx @ zeros (length tx)), c'))"

definition sim_hal :: "sim_chip flash_hal" where
  "sim_hal = \<lparr>flash_spiStart = ret 0, flash_spiStop = ret (), flash_spiAcquireBus = ret (), flash_spiSelect = ret (),
     flash_spiExchange = sim_exchange, flash_spiUnselect = ret (), flash_spiReleaseBus = ret (),
     flash_sleep_ms = (\<lambda>t. modify (\<lambda>c. c\<lparr>busy := busy c - 1000 * unat t\<rparr>)),
     flash_sleep_us = (\<lambda>t. modify (\<lambda>c. c\<lparr>busy := busy c - unat t\<rparr>)),
     flash_print = (\<lambda>msg. ret ()), flash_chprintf = (\<lambda>fmt args. ret ())\<rparr>"

lemma sim_transfer: "run_state (flash_transfer sim_hal tx) c = run_state (sim_exchange tx) c"
  by (simp add: flash_transfer_def sim_hal_def case_prod_beta)

lemma length_sim_exchange: "run_state (sim_exchange tx) c = (rx, c') \<Longrightarrow> length rx = length tx"
  by (auto simp: sim_exchange_def zeros_def Let_def case_prod_beta split: list.splits)

lemma sim_addr_list:
  assumes "unat a < 2 ^ 24"
  shows "sim_addr (addr_byte 2 a) (addr_byte (Suc 0) a) (addr_byte 0 a) = unat a"
proof -
  have b: "unat (addr_byte k a) = unat a div 2 ^ (8 * k) mod 256" for k
  proof -
    have lt: "unat a < 4294967296" using unsigned_less [of a] by simp
    have "(0xFF :: u32) = mask 8" by (simp add: mask_eq_exp_minus_1)
    then have "addr_byte k a = ucast (take_bit 8 (drop_bit (8 * k) a))" by (simp add: addr_byte_def take_bit_eq_mask)
    then show ?thesis
      by (simp only: unsigned_ucast_eq unsigned_take_bit_eq unsigned_drop_bit_eq)
        (use lt in \<open>simp add: take_bit_eq_mod drop_bit_eq_div\<close>)
  qed
  have "x * 256 + y = q \<Longrightarrow> q * 256 + z = n \<Longrightarrow> x * 65536 + y * 256 + z = n" for x y z q n :: nat by simp
  from this [OF div_mult_mod_eq div_mult_mod_eq]
  have "unat a div 256 div 256 * 65536 + unat a div 256 mod 256 * 256 + unat a mod 256 = unat a" .
  moreover have "unat a div 256 div 256 = unat a div 65536 mod 256"
    using assms by (simp add: div_mult2_eq [symmetric])
  ultimately show ?thesis by (simp add: sim_addr_def b)
qed

lemma addr_list_3: "addr_list 3 a = [addr_byte 2 a, addr_byte (Suc 0) a, addr_byte 0 a]"
  by (simp add: addr_list_def numeral_3_eq_3 numeral_2_eq_2)

abbreviation sim_idle :: "sim_chip \<Rightarrow> bool" where "sim_idle c \<equiv> busy c = 0"

text \<open>Three address bytes reach 16 MiB; the cells of a W25Q64 are the first 8 MiB.\<close>

interpretation w25q64: flash_link sim_hal
  by unfold_locales (simp add: sim_transfer length_sim_exchange)

interpretation w25q64: flash_chip sim_hal mem_cells sim_idle wel "2 ^ 23"
proof unfold_locales
  fix e e' :: sim_chip and a n rx and bs :: "u8 list"
  show "(2 :: nat) ^ 23 \<le> 2 ^ 24" "(2 :: nat) ^ 23 mod 4096 = 0" by simp_all
  have addr: "sim_addr (addr_byte 2 a) (addr_byte (Suc 0) a) (addr_byte 0 a) = unat a" if "unat a + k \<le> 2 ^ 23" for k
    using that by (intro sim_addr_list) simp
  show "drop 5 rx = cells (mem_cells e) (unat a) n \<and> mem_cells e' = mem_cells e \<and> sim_idle e'"
    if "sim_idle e" "unat a + n \<le> 2 ^ 23" "run_state (flash_transfer sim_hal (0x0B # addr_list 3 a @ [0] @ replicate n 0)) e = (rx, e')"
    using that addr by (auto simp: sim_transfer sim_exchange_def sim_command_def addr_list_3 zeros_def)
  show "mem_cells e' = mem_cells e \<and> sim_idle e' \<and> wel e'"
    if "sim_idle e" "run_state (flash_transfer sim_hal [0x06]) e = (rx, e')"
    using that by (auto simp: sim_transfer sim_exchange_def sim_command_def)
  show "mem_cells e' = program_cells (mem_cells e) (unat a) bs"
    if "sim_idle e" "wel e" "unat a + length bs \<le> 2 ^ 23" "unat a mod 256 + length bs \<le> 256"
      "run_state (flash_transfer sim_hal (0x02 # addr_list 3 a @ bs)) e = (rx, e')"
    using that addr by (auto simp: sim_transfer sim_exchange_def sim_command_def addr_list_3 Let_def)
  show "mem_cells e' = erase_cells (mem_cells e) (unat a)"
    if "sim_idle e" "wel e" "unat a + 4096 \<le> 2 ^ 23" "unat a mod 4096 = 0"
      "run_state (flash_transfer sim_hal (0x20 # addr_list 3 a)) e = (rx, e')"
    using that addr [OF that(3)] by (auto simp: sim_transfer sim_exchange_def sim_command_def addr_list_3 Let_def)
  show "mem_cells e' = mem_cells e \<and> (rx ! 1 AND 1 = 0 \<longrightarrow> sim_idle e')"
    if "run_state (flash_transfer sim_hal [0x05, 0]) e = (rx, e')"
    using that by (auto simp: sim_transfer sim_exchange_def sim_command_def zeros_def split: if_splits)
qed (auto simp: sim_hal_def)

interpretation w25q64: timed_chip sim_hal mem_cells sim_idle wel "2 ^ 23" busy
proof unfold_locales
  fix e e' :: sim_chip and rx and bs :: "u8 list"
  show "busy e' \<le> 2990" if "sim_idle e" "wel e" "run_state (flash_transfer sim_hal (0x02 # bs)) e = (rx, e')"
    using that by (auto simp: sim_transfer sim_exchange_def sim_command_def Let_def split: list.splits)
  show "busy e' \<le> 399000" if "sim_idle e" "wel e" "run_state (flash_transfer sim_hal (0x20 # bs)) e = (rx, e')"
    using that by (auto simp: sim_transfer sim_exchange_def sim_command_def Let_def split: list.splits)
  show "busy e' \<le> busy e \<and> (busy e = 0 \<longrightarrow> rx ! 1 AND 1 = 0)"
    if "run_state (flash_transfer sim_hal [0x05, 0]) e = (rx, e')"
    using that by (auto simp: sim_transfer sim_exchange_def sim_command_def zeros_def)
qed (auto simp: sim_hal_def)

definition sim_state :: "sim_chip w25_state" where
  "sim_state = \<lparr>w25_inited = 1, w25_type = W25Q64, w25_address_mode = 0, w25_param = 0, w25_dummy = 0, dual_quad_spi_enable = 0, spi_qspi = 0,
     w25_buf = zeros 262, buf_4k = zeros 4097, w25_env = \<lparr>mem_cells = (\<lambda>i. 0xFF), wel = False, busy = 0\<rparr>\<rparr>"

lemma sim_state_board: "board sim_state" "w25_inited sim_state = 1" "sim_idle (w25_env sim_state)" "length (buf_4k sim_state) = 4097"
  by (simp_all add: sim_state_def board_def zeros_def)

section \<open>Properties\<close>

text \<open>C20. On a chip that keeps its promises about single transfers and finishes in the time the
  driver waits, and with a transfer buffer that holds a sector, w25qxx_write returns 0 for every
  range inside the chip and stores exactly its data: the sectors it has to erase are read,
  erased and written back, page by page, and no other cell changes.\<close>

theorem flash_write_stores:
  assumes "timed_chip H cell idle latched n due" and "4101 \<le> bsize"
    and "board s" and "w25_inited s = 1" and "idle (w25_env s)" and "unat addr < n" and "unat addr + length data \<le> n"
  shows "\<exists>s'. run_state (w25qxx_write (Some (link_sized bsize H)) addr data) s = (0, s') \<and> board s' \<and>
    cell (w25_env s') = store_cells (cell (w25_env s)) (unat addr) data \<and> idle (w25_env s')"
  using timed_chip.write_stores [OF assms(1,3-7,2)] by blast

theorem flash_write_stores_witness:
  "\<exists>s'. run_state (w25qxx_write (Some (link_sized 4101 sim_hal)) 4094 [1, 2, 3, 4]) sim_state = (0, s') \<and> board s' \<and>
    mem_cells (w25_env s') = store_cells (\<lambda>i. 0xFF) 4094 [1, 2, 3, 4] \<and> sim_idle (w25_env s')"
  using flash_write_stores [OF w25q64.timed_chip_axioms, of 4101 sim_state 4094 "[1, 2, 3, 4]"] sim_state_board
  by (simp add: sim_state_def)

text \<open>C21. With the transfer buffer of 64 bytes that this board has no write reaches the flash:
  w25qxx_write returns 4 on an open handle and 3 on one that is not open, for any address and
  data, because it starts with a read of 4096 bytes; on an open handle of this board it only
  prints two messages. w25q_write reports 0 all the same.\<close>

theorem flash_write_never_succeeds:
  assumes "length (buf_4k s) = 4097"
  shows "fst (run_state (w25qxx_write (Some (link_w25 H)) addr data) s) = (if w25_inited s = 1 then 4 else 3) \<and>
    fst (run_state (w25q_write H addr data) s) = 0 \<and>
    (board s \<and> w25_inited s = 1 \<longrightarrow>
      snd (run_state (w25qxx_write (Some (link_w25 H)) addr data) s) =
        s\<lparr>w25_env := snd (run_state (flash_print H ''w25qxx: read failed.'')
          (snd (run_state (flash_print H ''w25qxx: fast read failed.'') (w25_env s))))\<rparr>)"
  using write_sectors_refused [of 64 s H] write_sectors_refused_board [of 64 s H] assms
  by (simp add: w25qxx_write_def w25q_write_def port_write_def link_w25_def FLASH_SPI_BUFFER_SIZE_def case_prod_beta)

theorem flash_write_never_succeeds_witness:
  "fst (run_state (w25qxx_write (Some (link_w25 sim_hal)) 4094 [1, 2, 3, 4]) sim_state) = 4 \<and>
    fst (run_state (w25q_write sim_hal 4094 [1, 2, 3, 4]) sim_state) = 0 \<and>
    mem_cells (w25_env (snd (run_state (w25qxx_write (Some (link_w25 sim_hal)) 4094 [1, 2, 3, 4]) sim_state))) = (\<lambda>i. 0xFF)"
  using flash_write_never_succeeds [of sim_state sim_hal 4094 "[1, 2, 3, 4]"] sim_state_board
  by (simp add: sim_hal_def) (simp add: sim_state_def)

text \<open>C22. On this board w25qxx_read returns the cells of the flash for up to 59 bytes and fails
  without touching the buffer for more: the command takes five of the 64 bytes of a transfer.
  w25q_read reports 0 in both cases, and no read changes a cell.\<close>

theorem flash_read_window:
  assumes "flash_chip H cell idle latched n" and "board s" and "w25_inited s = 1" and "idle (w25_env s)"
    and "unat addr + length data \<le> n"
  shows "fst (run_state (w25qxx_read (Some (link_w25 H)) addr data) s) =
      (if length data \<le> 59 then (0, cells (cell (w25_env s)) (unat addr) (length data)) else (1, data)) \<and>
    cell (w25_env (snd (run_state (w25qxx_read (Some (link_w25 H)) addr data) s))) = cell (w25_env s) \<and>
    idle (w25_env (snd (run_state (w25qxx_read (Some (link_w25 H)) addr data) s))) \<and>
    fst (fst (run_state (w25q_read H addr data) s)) = 0"
proof (cases "length data \<le> 59")
  case True
  then have "length data + 5 \<le> FLASH_SPI_BUFFER_SIZE" by (simp add: FLASH_SPI_BUFFER_SIZE_def)
  then obtain e' where "run_state (read_with 4 (link_w25 H) addr data) s =
      ((0, cells (cell (w25_env s)) (unat addr) (length data)), s\<lparr>w25_env := e'\<rparr>)"
    and "cell e' = cell (w25_env s)" and "idle e'"
    unfolding link_w25_def by (rule flash_chip.read_ok [OF assms(1,2,4,5)])
  then show ?thesis
    using True assms(3) by (simp add: w25qxx_read_def w25q_read_def port_read_def case_prod_beta)
next
  case False
  have "n \<le> 2 ^ 24" by (rule flash_chip.chip_bound [OF assms(1)])
  then have "FLASH_SPI_BUFFER_SIZE < length data + 5" "length data + 5 < 2 ^ 32"
    using False assms(5) by (simp_all add: FLASH_SPI_BUFFER_SIZE_def)
  then have "run_state (read_with 4 (link_w25 H) addr data) s =
      ((1, data), s\<lparr>w25_env := snd (run_state (flash_print H ''w25qxx: fast read failed.'') (w25_env s))\<rparr>)"
    unfolding link_w25_def by (rule flash_chip.long_read_refused [OF assms(1,2)])
  moreover obtain e' where "run_state (flash_print H ''w25qxx: fast read failed.'') (w25_env s) = ((), e')"
    by (cases "run_state (flash_print H ''w25qxx: fast read failed.'') (w25_env s)") simp
  moreover from this have "cell e' = cell (w25_env s)" "idle e'"
    using flash_chip.print_keeps [OF assms(1)] assms(4) by blast+
  ultimately show ?thesis
    using False assms(3) by (simp add: w25qxx_read_def w25q_read_def port_read_def case_prod_beta)
qed

theorem flash_read_window_witness:
  "fst (run_state (w25qxx_read (Some (link_w25 sim_hal)) 4096 (zeros 4)) sim_state) = (0, [0xFF, 0xFF, 0xFF, 0xFF])"
  using flash_read_window [OF w25q64.flash_chip_axioms, of sim_state 4096 "zeros 4"] sim_state_board
  by (simp add: sim_state_def zeros_def cells_def upt_rec)

text \<open>C23. On this board w25q_erase of a range that starts at a sector erases exactly the sectors
  the range touches and returns 0: their cells are 0xFF afterwards, every other cell keeps its
  value.\<close>

theorem flash_erase_exact:
  assumes "timed_chip H cell idle latched n due" and "board s" and "w25_inited s = 1" and "idle (w25_env s)"
    and "unat addr mod 4096 = 0" and "unat addr + 4096 * ((len + 4095) div 4096) \<le> n"
  shows "\<exists>s'. run_state (w25q_erase H addr len) s = (0, s') \<and> board s' \<and> idle (w25_env s') \<and>
    cell (w25_env s') = store_cells (cell (w25_env s)) (unat addr) (replicate (4096 * ((len + 4095) div 4096)) 0xFF)"
proof -
  have "4 \<le> FLASH_SPI_BUFFER_SIZE" by (simp add: FLASH_SPI_BUFFER_SIZE_def)
  from timed_chip.erase_sectors_ok [OF assms this] show ?thesis
    by (auto simp: w25q_erase_def port_erase_def link_w25_def frame_def)
qed

theorem flash_erase_exact_witness:
  "\<exists>s'. run_state (w25q_erase sim_hal 8192 5000) sim_state = (0, s') \<and> board s' \<and> sim_idle (w25_env s') \<and>
    mem_cells (w25_env s') = store_cells (mem_cells (w25_env sim_state)) 8192 (replicate (4096 * ((5000 + 4095) div 4096)) 0xFF)"
  using flash_erase_exact [OF w25q64.timed_chip_axioms, of sim_state 8192 5000] sim_state_board by simp

lemma sim_frames: "busy c = 0 \<Longrightarrow> run_state (open_frames sim_hal) c = ([0, 0, 0, 0, 0xEF, 0x16], c)"
proof -
  assume b: "busy c = 0"
  then have "run_state (flash_sleep_ms sim_hal 10) c = ((), c)" by (cases c) (simp add: sim_hal_def)
  moreover have "zeros 4 = [0, 0, 0, 0]" by (simp add: zeros_def numeral_eq_Suc)
  ultimately show ?thesis using b by (simp add: open_frames_def sim_transfer sim_exchange_def sim_command_def)
qed

lemma sim_opens: "fst (open_outcome sim_hal (prepared (w25_env sim_state))) = 0"
proof -
  have "run_state (flash_spiStart sim_hal) c = (0, c)" for c by (simp add: sim_hal_def)
  then show ?thesis by (simp add: open_outcome_def sim_frames sim_state_def cleared_def)
qed

text \<open>C24. w25q_init always reports 0. The driver is open afterwards exactly if the SPI peripheral
  starts and the chip answers the identification of a W25Q64; then the handle is in the
  configuration of this board. Otherwise the bus is closed again, and every later read and write
  returns 3.\<close>

theorem flash_init_outcome:
  assumes "flash_link H"
  shows "run_state (w25qxx_init (Some (w25q_links H))) (prepared (w25_env s)) = open_outcome H (prepared (w25_env s)) \<and>
    fst (run_state (w25q_init H ids) s) = 0 \<and>
    (let s' = snd (run_state (w25q_init H ids) s); r = fst (open_outcome H (prepared (w25_env s))) in
      board s' \<and> w25_inited s' = (if r = 0 then 1 else 0) \<and>
      (r \<noteq> 0 \<longrightarrow> fst (run_state (w25qxx_write (Some (link_w25 H)) addr data) s') = 3 \<and>
        fst (run_state (w25qxx_read (Some (link_w25 H)) addr data) s') = (3, data)))"
proof -
  obtain r t where t: "open_outcome H (prepared (w25_env s)) = (r, t)" by fastforce
  obtain e' where run: "run_state (w25q_init H ids) s = (0, t\<lparr>w25_env := e'\<rparr>)"
    using flash_link.port_init [OF assms, of ids s] t by auto
  have "board (t\<lparr>w25_env := e'\<rparr>)" "w25_inited (t\<lparr>w25_env := e'\<rparr>) = (if r = 0 then 1 else 0)"
    using flash_link.open_outcome_handle [OF assms t] by simp_all
  then show ?thesis
    using flash_link.driver_init [OF assms] run t by (simp add: w25qxx_write_def w25qxx_read_def Let_def)
qed

theorem flash_init_outcome_witness:
  "fst (run_state (w25q_init sim_hal [0, 0, 0]) sim_state) = 0 \<and>
    board (snd (run_state (w25q_init sim_hal [0, 0, 0]) sim_state)) \<and>
    w25_inited (snd (run_state (w25q_init sim_hal [0, 0, 0]) sim_state)) = 1"
  using flash_init_outcome [OF w25q64.flash_link_axioms, of sim_state "[0, 0, 0]"] unfolding Let_def sim_opens by simp

end
