(* ===== verification/Fdb_Crc.thy ===== *)
theory Fdb_Crc
  imports Prelude
begin

text \<open>
  The checksum of the key-value store, \<open>fdb_calc_crc32\<close> of \<^verbatim>\<open>src/flashdb/src/fdb_utils.c\<close>: the
  table-driven routine, the bitwise definition of the reflected CRC-32 polynomial as its
  reference, and the proof that they agree. The checksum of a record is accumulated over
  several calls; a sequence of calls computes the checksum of the concatenation.
\<close>

definition crc32_table :: "u32 list" where
  "crc32_table =
    [0x00000000, 0x77073096, 0xee0e612c, 0x990951ba, 0x076dc419, 0x706af48f, 0xe963a535, 0x9e6495a3,
     0x0edb8832, 0x79dcb8a4, 0xe0d5e91e, 0x97d2d988, 0x09b64c2b, 0x7eb17cbd, 0xe7b82d07, 0x90bf1d91,
     0x1db71064, 0x6ab020f2, 0xf3b97148, 0x84be41de, 0x1adad47d, 0x6ddde4eb, 0xf4d4b551, 0x83d385c7,
     0x136c9856, 0x646ba8c0, 0xfd62f97a, 0x8a65c9ec, 0x14015c4f, 0x63066cd9, 0xfa0f3d63, 0x8d080df5,
     0x3b6e20c8, 0x4c69105e, 0xd56041e4, 0xa2677172, 0x3c03e4d1, 0x4b04d447, 0xd20d85fd, 0xa50ab56b,
     0x35b5a8fa, 0x42b2986c, 0xdbbbc9d6, 0xacbcf940, 0x32d86ce3, 0x45df5c75, 0xdcd60dcf, 0xabd13d59,
     0x26d930ac, 0x51de003a, 0xc8d75180, 0xbfd06116, 0x21b4f4b5, 0x56b3c423, 0xcfba9599, 0xb8bda50f,
     0x2802b89e, 0x5f058808, 0xc60cd9b2, 0xb10be924, 0x2f6f7c87, 0x58684c11, 0xc1611dab, 0xb6662d3d,
     0x76dc4190, 0x01db7106, 0x98d220bc, 0xefd5102a, 0x71b18589, 0x06b6b51f, 0x9fbfe4a5, 0xe8b8d433,
     0x7807c9a2, 0x0f00f934, 0x9609a88e, 0xe10e9818, 0x7f6a0dbb, 0x086d3d2d, 0x91646c97, 0xe6635c01,
     0x6b6b51f4, 0x1c6c6162, 0x856530d8, 0xf262004e, 0x6c0695ed, 0x1b01a57b, 0x8208f4c1, 0xf50fc457,
     0x65b0d9c6, 0x12b7e950, 0x8bbeb8ea, 0xfcb9887c, 0x62dd1ddf, 0x15da2d49, 0x8cd37cf3, 0xfbd44c65,
     0x4db26158, 0x3ab551ce, 0xa3bc0074, 0xd4bb30e2, 0x4adfa541, 0x3dd895d7, 0xa4d1c46d, 0xd3d6f4fb,
     0x4369e96a, 0x346ed9fc, 0xad678846, 0xda60b8d0, 0x44042d73, 0x33031de5, 0xaa0a4c5f, 0xdd0d7cc9,
     0x5005713c, 0x270241aa, 0xbe0b1010, 0xc90c2086, 0x5768b525, 0x206f85b3, 0xb966d409, 0xce61e49f,
     0x5edef90e, 0x29d9c998, 0xb0d09822, 0xc7d7a8b4, 0x59b33d17, 0x2eb40d81, 0xb7bd5c3b, 0xc0ba6cad,
     0xedb88320, 0x9abfb3b6, 0x03b6e20c, 0x74b1d29a, 0xead54739, 0x9dd277af, 0x04db2615, 0x73dc1683,
     0xe3630b12, 0x94643b84, 0x0d6d6a3e, 0x7a6a5aa8, 0xe40ecf0b, 0x9309ff9d, 0x0a00ae27, 0x7d079eb1,
     0xf00f9344, 0x8708a3d2, 0x1e01f268, 0x6906c2fe, 0xf762575d, 0x806567cb, 0x196c3671, 0x6e6b06e7,
     0xfed41b76, 0x89d32be0, 0x10da7a5a, 0x67dd4acc, 0xf9b9df6f, 0x8ebeeff9, 0x17b7be43, 0x60b08ed5,
     0xd6d6a3e8, 0xa1d1937e, 0x38d8c2c4, 0x4fdff252, 0xd1bb67f1, 0xa6bc5767, 0x3fb506dd, 0x48b2364b,
     0xd80d2bda, 0xaf0a1b4c, 0x36034af6, 0x41047a60, 0xdf60efc3, 0xa867df55, 0x316e8eef, 0x4669be79,
     0xcb61b38c, 0xbc66831a, 0x256fd2a0, 0x5268e236, 0xcc0c7795, 0xbb0b4703, 0x220216b9, 0x5505262f,
     0xc5ba3bbe, 0xb2bd0b28, 0x2bb45a92, 0x5cb36a04, 0xc2d7ffa7, 0xb5d0cf31, 0x2cd99e8b, 0x5bdeae1d,
     0x9b64c2b0, 0xec63f226, 0x756aa39c, 0x026d930a, 0x9c0906a9, 0xeb0e363f, 0x72076785, 0x05005713,
     0x95bf4a82, 0xe2b87a14, 0x7bb12bae, 0x0cb61b38, 0x92d28e9b, 0xe5d5be0d, 0x7cdcefb7, 0x0bdbdf21,
     0x86d3d2d4, 0xf1d4e242, 0x68ddb3f8, 0x1fda836e, 0x81be16cd, 0xf6b9265b, 0x6fb077e1, 0x18b74777,
     0x88085ae6, 0xff0f6a70, 0x66063bca, 0x11010b5c, 0x8f659eff, 0xf862ae69, 0x616bffd3, 0x166ccf45,
     0xa00ae278, 0xd70dd2ee, 0x4e048354, 0x3903b3c2, 0xa7672661, 0xd06016f7, 0x4969474d, 0x3e6e77db,
     0xaed16a4a, 0xd9d65adc, 0x40df0b66, 0x37d83bf0, 0xa9bcae53, 0xdebb9ec5, 0x47b2cf7f, 0x30b5ffe9,
     0xbdbdf21c, 0xcabac28a, 0x53b39330, 0x24b4a3a6, 0xbad03605, 0xcdd70693, 0x54de5729, 0x23d967bf,
     0xb3667a2e, 0xc4614ab8, 0x5d681b02, 0x2a6f2b94, 0xb40bbe37, 0xc30c8ea1, 0x5a05df1b, 0x2d02ef8d]"

fun crc_loop :: "u32 \<Rightarrow> u8 list \<Rightarrow> u32" where
  "crc_loop crc [] = crc"
| "crc_loop crc (p # ps) =
     crc_loop (crc32_table ! unat ((crc XOR ucast p) AND 0xFF) XOR drop_bit 8 crc) ps"

definition fdb_calc_crc32 :: "u32 \<Rightarrow> u8 list \<Rightarrow> u32" where
  "fdb_calc_crc32 crc buf = crc_loop (crc XOR NOT 0) buf XOR NOT 0"

subsection \<open>The reference\<close>

text \<open>One bit of the division by the reflected polynomial; a byte is eight of them.\<close>

definition crc_bit :: "u32 \<Rightarrow> u32" where
  "crc_bit x = (if bit x 0 then 0xEDB88320 XOR drop_bit 1 x else drop_bit 1 x)"

definition crc_byte :: "u32 \<Rightarrow> u32" where
  "crc_byte x = (crc_bit ^^ 8) x"

definition crc32 :: "u8 list \<Rightarrow> u32" where
  "crc32 bs = NOT (fold (\<lambda>b crc. crc_byte (crc XOR ucast b)) bs (NOT 0))"

lemma crc_bit_xor: "crc_bit (x XOR y) = crc_bit x XOR crc_bit y"
  by (auto simp: crc_bit_def bit_xor_iff drop_bit_xor intro!: bit_word_eqI)

lemma crc_pow_xor: "(crc_bit ^^ n) (x XOR y) = (crc_bit ^^ n) x XOR (crc_bit ^^ n) y"
  by (induction n) (simp_all add: crc_bit_xor)

lemma crc_byte_xor: "crc_byte (x XOR y) = crc_byte x XOR crc_byte y"
  by (simp add: crc_byte_def crc_pow_xor)

text \<open>Bits that are shifted out as zeros only move.\<close>

lemma crc_pow_shift:
  "(\<And>i. i < n \<Longrightarrow> \<not> bit x i) \<Longrightarrow> (crc_bit ^^ n) x = drop_bit n x"
proof (induction n)
  case (Suc n)
  have "(crc_bit ^^ Suc n) x = crc_bit (drop_bit n x)" using Suc by simp
  also have "\<dots> = drop_bit 1 (drop_bit n x)"
    using Suc.prems [of n] by (simp add: crc_bit_def bit_drop_bit_eq)
  finally show ?case by (simp add: drop_bit_drop_bit)
qed simp

subsection \<open>The table\<close>

text \<open>
  The table entry of a power of two is a few steps of the polynomial, and the entries are
  linear in the index, so the table doubles.
\<close>

lemma crc_bit_values:
  "crc_bit 0 = 0" "crc_bit 128 = 64" "crc_bit 64 = 32" "crc_bit 32 = 16" "crc_bit 16 = 8" "crc_bit 8 = 4" "crc_bit 4 = 2"
  "crc_bit 2 = 1" "crc_bit 1 = 0xEDB88320" "crc_bit 0xEDB88320 = 0x76DC4190" "crc_bit 0x76DC4190 = 0x3B6E20C8"
  "crc_bit 0x3B6E20C8 = 0x1DB71064" "crc_bit 0x1DB71064 = 0x0EDB8832" "crc_bit 0x0EDB8832 = 0x076DC419"
  "crc_bit 0x076DC419 = 0xEE0E612C" "crc_bit 0xEE0E612C = 0x77073096"
  by (simp_all add: crc_bit_def bit_numeral_rec)

lemma crc_byte_unfold: "crc_byte x = crc_bit (crc_bit (crc_bit (crc_bit (crc_bit (crc_bit (crc_bit (crc_bit x)))))))"
  by (simp add: crc_byte_def eval_nat_numeral)

lemma crc_byte_powers:
  "crc_byte 128 = 0xEDB88320" "crc_byte 64 = 0x76DC4190" "crc_byte 32 = 0x3B6E20C8" "crc_byte 16 = 0x1DB71064"
  "crc_byte 8 = 0x0EDB8832" "crc_byte 4 = 0x076DC419" "crc_byte 2 = 0xEE0E612C" "crc_byte 1 = 0x77073096" "crc_byte 0 = 0"
  by (simp_all add: crc_byte_unfold crc_bit_values)

definition table :: "nat \<Rightarrow> u32 list" where
  "table n = map (\<lambda>i. crc_byte (of_nat i)) [0..<n]"

lemma of_nat_disjoint:
  assumes "i < 2 ^ k" "k < 32"
  shows "(of_nat (2 ^ k + i) :: u32) = of_nat (2 ^ k) XOR of_nat i"
proof -
  have "bit (of_nat i :: u32) n \<Longrightarrow> n < k" for n
  proof (rule ccontr)
    assume "bit (of_nat i :: u32) n" "\<not> n < k"
    then have "bit i n" by (simp add: bit_simps)
    moreover have "i < 2 ^ n" using assms(1) \<open>\<not> n < k\<close> by (meson less_le_trans linorder_not_le one_le_numeral power_increasing)
    ultimately show False by (simp add: bit_iff_odd)
  qed
  then have "(of_nat (2 ^ k) :: u32) AND of_nat i = 0"
    by (auto intro!: bit_word_eqI simp: bit_simps) blast
  then show ?thesis by (simp add: disjunctive_xor_eq_or disjunctive_add_eq_or flip: disjunctive_xor_eq_or)
qed

lemma table_double:
  assumes "k < 8"
  shows "table (2 ^ k + 2 ^ k) = table (2 ^ k) @ map (\<lambda>x. crc_byte (2 ^ k) XOR x) (table (2 ^ k))"
proof -
  have "crc_byte (of_nat (2 ^ k + i)) = crc_byte (2 ^ k) XOR crc_byte (of_nat i)" if "i < 2 ^ k" for i
    using that assms by (simp only: of_nat_disjoint crc_byte_xor) simp
  moreover have "[0..<2 ^ k + 2 ^ k] = [0..<2 ^ k] @ map (\<lambda>i. 2 ^ k + i) [0..<2 ^ k]"
    by (simp add: upt_add_eq_append map_add_upt [symmetric] add.commute)
  ultimately show ?thesis by (simp add: table_def)
qed

lemma crc32_table_eq: "crc32_table = table 256"
proof -
  have "table (Suc 0) = [0]" by (simp add: table_def crc_byte_powers)
  then have "table 2 = [0, 0x77073096]" using table_double [of 0] by (simp add: crc_byte_powers numeral_2_eq_2)
  then have t16: "table 16 = take 16 crc32_table"
    using table_double [of 1] table_double [of 2] table_double [of 3] by (simp add: crc_byte_powers crc32_table_def)
  then have t64: "table 64 = take 64 crc32_table"
    using table_double [of 4] table_double [of 5] by (simp add: crc_byte_powers crc32_table_def)
  then show ?thesis
    using table_double [of 6] table_double [of 7] by (simp add: crc_byte_powers crc32_table_def)
qed

subsection \<open>The routine computes the reference\<close>

lemma crc_step: "crc32_table ! unat ((crc XOR ucast b) AND 0xFF) XOR drop_bit 8 crc = crc_byte (crc XOR ucast (b :: u8))"
proof -
  let ?x = "crc XOR ucast b"
  let ?lo = "?x AND 0xFF"
  have lo: "?lo = take_bit 8 ?x" by (simp add: take_bit_eq_mask mask_eq_exp_minus_1)
  have "unat (take_bit 8 y) < 256" for y :: u32
    using take_bit_nat_less_exp [of 8 "unat y"] by (simp add: unsigned_take_bit_eq)
  then have "unat ?lo < 256" unfolding lo .
  then have t: "crc32_table ! unat ?lo = crc_byte ?lo" by (simp add: crc32_table_eq table_def)
  let ?hi = "push_bit 8 (drop_bit 8 ?x)"
  have "?x = ?hi XOR ?lo" unfolding lo by (rule bit_word_eqI) (auto simp: bit_simps)
  then have "crc_byte ?x = crc_byte ?hi XOR crc_byte ?lo" by (metis crc_byte_xor)
  also have "crc_byte ?hi = drop_bit 8 ?hi"
    unfolding crc_byte_def by (rule crc_pow_shift) (simp add: bit_simps)
  also have "\<dots> = drop_bit 8 crc"
    by (rule bit_word_eqI) (auto simp: bit_simps dest: bit_imp_le_length)
  finally show ?thesis using t by (simp add: xor.commute)
qed

lemma crc_loop_fold: "crc_loop crc bs = fold (\<lambda>b crc. crc_byte (crc XOR ucast b)) bs crc"
  by (induction bs arbitrary: crc) (simp_all add: crc_step)

lemma xor_ones [simp]: "x XOR NOT 0 = NOT (x :: u32)"
  by (rule bit_word_eqI) (simp add: bit_simps)

lemma fdb_crc_append: "fdb_calc_crc32 (fdb_calc_crc32 crc xs) ys = fdb_calc_crc32 crc (xs @ ys)"
  by (simp add: fdb_calc_crc32_def crc_loop_fold)

lemma fdb_crc_reference: "fdb_calc_crc32 0 bs = crc32 bs"
  by (simp add: fdb_calc_crc32_def crc32_def crc_loop_fold)

text \<open>
  The pieces of a record, checksummed one after the other.
\<close>

text \<open>C31. The table-driven fdb_calc_crc32, applied piece by piece with the accumulated value from 0
  on, computes the CRC-32 of the concatenation as it is defined bit by bit by the reflected
  polynomial.\<close>

theorem crc_of_pieces: "fold (\<lambda>bs crc. fdb_calc_crc32 crc bs) pieces 0 = crc32 (concat pieces)"
proof -
  have "fold (\<lambda>bs crc. fdb_calc_crc32 crc bs) pieces (fdb_calc_crc32 0 xs) = fdb_calc_crc32 0 (xs @ concat pieces)" for xs
    by (induction pieces arbitrary: xs) (simp_all add: fdb_crc_append)
  from this [of "[]"] show ?thesis by (simp add: fdb_crc_reference) (simp add: crc32_def)
qed

end
