(* ===== verification/Fal.thy ===== *)
theory Fal
  imports W25_Sim
begin

text \<open>
  The flash abstraction layer under \<^verbatim>\<open>src/flashdb/fal/\<close>: the table of flash devices, the table of
  partitions with its cache of devices, and reading, writing and erasing relative to a partition.
  A device is a record of its operations on a state \<open>'s\<close>; the only device of this program is the
  W25Q64 with the operations of \<^verbatim>\<open>src/flashdb/fdb_port.c\<close>. The assertions of the layer are compiled out
  (\<^verbatim>\<open>FAL_DEBUG\<close> is 0), messages are left out.
\<close>

record 's fal_flash_dev =
  dev_name :: string
  dev_addr :: u32
  dev_len :: u32
  blk_size :: u32
  dev_init :: "('s, int) state"
  dev_read :: "u32 \<Rightarrow> u8 list \<Rightarrow> ('s, int \<times> u8 list) state"
  dev_write :: "u32 \<Rightarrow> u8 list \<Rightarrow> ('s, int) state"
  dev_erase :: "u32 \<Rightarrow> u32 \<Rightarrow> ('s, int) state"

record fal_partition =
  part_name :: string
  flash_name :: string
  part_offset :: u32
  part_len :: u32

record 's fal =
  partition_table :: "fal_partition list"
  partition_table_len :: nat
  part_flash_cache :: "'s fal_flash_dev option list"
  flash_init_ok :: bool
  part_init_ok :: bool
  fal_init_ok :: bool

definition FAL_DEV_NAME_MAX :: nat where
  "FAL_DEV_NAME_MAX = 24"

text \<open>\<open>strncmp(a, b, n) == 0\<close> for strings without an embedded zero.\<close>

definition strn_eq :: "nat \<Rightarrow> string \<Rightarrow> string \<Rightarrow> bool" where
  "strn_eq n a b \<longleftrightarrow> take n (a @ [CHR 0x00]) = take n (b @ [CHR 0x00])"

lemma strn_eq_refl [simp]: "strn_eq n a a"
  by (simp add: strn_eq_def)

subsection \<open>Devices\<close>

definition fal_flash_device_find :: "'s fal_flash_dev list \<Rightarrow> string \<Rightarrow> 's fal_flash_dev option" where
  "fal_flash_device_find device_table name = List.find (\<lambda>d. strn_eq FAL_DEV_NAME_MAX name (dev_name d)) device_table"

fun init_devices :: "'s fal_flash_dev list \<Rightarrow> ('s, unit) state" where
  "init_devices [] = ret ()"
| "init_devices (d # ds) = do { _ \<leftarrow> dev_init d; init_devices ds }"

definition fal_flash_init :: "'s fal_flash_dev list \<Rightarrow> 's fal \<Rightarrow> ('s, int \<times> 's fal) state" where
  "fal_flash_init device_table F =
     (if flash_init_ok F then ret (0, F)
      else do { init_devices device_table; ret (0, F\<lparr>flash_init_ok := True\<rparr>) })"

subsection \<open>Partitions\<close>

fun update_part_cache :: "'s fal_flash_dev list \<Rightarrow> fal_partition list \<Rightarrow> nat \<Rightarrow> 's fal \<Rightarrow> int \<times> 's fal" where
  "update_part_cache devs [] i F = (0, F)"
| "update_part_cache devs (p # ps) i F =
     (case fal_flash_device_find devs (flash_name p) of
        None \<Rightarrow> update_part_cache devs ps (Suc i) F
      | Some d \<Rightarrow>
          if sint (dev_len d) \<le> sint (part_offset p) then (- 1, F\<lparr>partition_table_len := 0\<rparr>)
          else update_part_cache devs ps (Suc i) (F\<lparr>part_flash_cache := (part_flash_cache F)[i := Some d]\<rparr>))"

definition check_and_update_part_cache :: "'s fal_flash_dev list \<Rightarrow> fal_partition list \<Rightarrow> 's fal \<Rightarrow> int \<times> 's fal" where
  "check_and_update_part_cache devs table F = update_part_cache devs table 0 F"

definition fal_partition_init :: "'s fal_flash_dev list \<Rightarrow> fal_partition list \<Rightarrow> 's fal \<Rightarrow> int \<times> 's fal" where
  "fal_partition_init devs partition_table_def F =
     (if part_init_ok F then (int (partition_table_len F), F)
      else
        let F = F\<lparr>partition_table := partition_table_def, partition_table_len := length partition_table_def\<rparr>;
            (r, F) = check_and_update_part_cache devs partition_table_def F
        in if r \<noteq> 0 then (int (partition_table_len F), F)
           else (int (partition_table_len F), F\<lparr>part_init_ok := True\<rparr>))"

definition fal_init :: "'s fal_flash_dev list \<Rightarrow> fal_partition list \<Rightarrow> 's fal \<Rightarrow> ('s, int \<times> 's fal) state" where
  "fal_init devs table F = do {
     (result, F) \<leftarrow> fal_flash_init devs F;
     let (result, F) = (if result < 0 then (result, F) else fal_partition_init devs table F);
     if result > 0 \<and> \<not> fal_init_ok F then ret (result, F\<lparr>fal_init_ok := True\<rparr>)
     else if result \<le> 0 then ret (result, F\<lparr>fal_init_ok := False\<rparr>)
     else ret (result, F) }"

text \<open>A partition is named by its index in the table.\<close>

definition fal_partition_find :: "string \<Rightarrow> 's fal \<Rightarrow> nat option" where
  "fal_partition_find name F = List.find (\<lambda>i. part_name (partition_table F ! i) = name) [0..<partition_table_len F]"

definition flash_device_find_by_part :: "'s fal \<Rightarrow> nat \<Rightarrow> 's fal_flash_dev option" where
  "flash_device_find_by_part F i = part_flash_cache F ! i"

text \<open>The sum of address and size is computed in 32 bits.\<close>

definition out_of_bound :: "'s fal \<Rightarrow> nat \<Rightarrow> u32 \<Rightarrow> u32 \<Rightarrow> bool" where
  "out_of_bound F i addr n \<longleftrightarrow> part_len (partition_table F ! i) < addr + n"

definition fal_partition_read :: "'s fal \<Rightarrow> nat \<Rightarrow> u32 \<Rightarrow> u8 list \<Rightarrow> ('s, int \<times> u8 list) state" where
  "fal_partition_read F part addr buf =
     (if out_of_bound F part addr (of_nat (length buf)) then ret (- 1, buf)
      else case flash_device_find_by_part F part of
        None \<Rightarrow> ret (- 1, buf)
      | Some flash_dev \<Rightarrow> dev_read flash_dev (part_offset (partition_table F ! part) + addr) buf)"

definition fal_partition_write :: "'s fal \<Rightarrow> nat \<Rightarrow> u32 \<Rightarrow> u8 list \<Rightarrow> ('s, int) state" where
  "fal_partition_write F part addr buf =
     (if out_of_bound F part addr (of_nat (length buf)) then ret (- 1)
      else case flash_device_find_by_part F part of
        None \<Rightarrow> ret (- 1)
      | Some flash_dev \<Rightarrow> dev_write flash_dev (part_offset (partition_table F ! part) + addr) buf)"

definition fal_partition_erase :: "'s fal \<Rightarrow> nat \<Rightarrow> u32 \<Rightarrow> u32 \<Rightarrow> ('s, int) state" where
  "fal_partition_erase F part addr n =
     (if out_of_bound F part addr n then ret (- 1)
      else case flash_device_find_by_part F part of
        None \<Rightarrow> ret (- 1)
      | Some flash_dev \<Rightarrow> dev_erase flash_dev (part_offset (partition_table F ! part) + addr) n)"

definition fal_partition_erase_all :: "'s fal \<Rightarrow> nat \<Rightarrow> ('s, int) state" where
  "fal_partition_erase_all F part = fal_partition_erase F part 0 (part_len (partition_table F ! part))"

subsection \<open>The configuration of this program\<close>

definition flash_dev_sized :: "nat \<Rightarrow> 'e flash_hal \<Rightarrow> u8 list \<Rightarrow> 'e w25_state fal_flash_dev" where
  "flash_dev_sized bsize H ids =
     \<lparr>dev_name = ''w25q64'', dev_addr = 0, dev_len = 8 * 1024 * 1024, blk_size = 4 * 1024, dev_init = w25q_init H ids,
      dev_read = port_read bsize H, dev_write = port_write bsize H, dev_erase = (\<lambda>addr n. port_erase bsize H addr (unat n))\<rparr>"

definition w25q64_flash :: "'e flash_hal \<Rightarrow> u8 list \<Rightarrow> 'e w25_state fal_flash_dev" where
  "w25q64_flash = flash_dev_sized FLASH_SPI_BUFFER_SIZE"

definition FAL_PART_TABLE :: "fal_partition list" where
  "FAL_PART_TABLE = [\<lparr>part_name = ''kvdb1'', flash_name = ''w25q64'', part_offset = 0, part_len = 1 * 1024 * 1024\<rparr>]"

definition fal_start :: "'s fal" where
  "fal_start = \<lparr>partition_table = [], partition_table_len = 0, part_flash_cache = [None], flash_init_ok = False,
     part_init_ok = False, fal_init_ok = False\<rparr>"

subsection \<open>Where the accesses go\<close>

text \<open>After the initialisation the partition of the program is found and has the flash chip behind it.\<close>

definition fal_ready :: "nat \<Rightarrow> 'e flash_hal \<Rightarrow> u8 list \<Rightarrow> 'e w25_state fal" where
  "fal_ready bsize H ids = \<lparr>partition_table = FAL_PART_TABLE, partition_table_len = 1, part_flash_cache = [Some (flash_dev_sized bsize H ids)],
     flash_init_ok = True, part_init_ok = True, fal_init_ok = True\<rparr>"

lemma fal_init_ready:
  assumes "run_state (w25q_init H ids) s = (r, s')"
  shows "run_state (fal_init [flash_dev_sized bsize H ids] FAL_PART_TABLE fal_start) s = ((1, fal_ready bsize H ids), s')"
  using assms
  by (simp add: fal_init_def fal_flash_init_def fal_partition_init_def check_and_update_part_cache_def fal_start_def fal_ready_def
      FAL_PART_TABLE_def fal_flash_device_find_def flash_dev_sized_def Let_def)

lemma partition_of_program: "fal_partition_find ''kvdb1'' (fal_ready bsize H ids) = Some 0"
  by (simp add: fal_partition_find_def fal_ready_def FAL_PART_TABLE_def)

lemma out_of_bound_iff:
  assumes "unat addr + n < 2 ^ 32"
  shows "out_of_bound F i addr (of_nat n) \<longleftrightarrow> unat (part_len (partition_table F ! i)) < unat addr + n"
  using unat_add_of_nat [OF assms] by (simp add: out_of_bound_def word_less_nat_alt)

end
