(* ===== verification/Fdb_Low.thy ===== *)
theory Fdb_Low
  imports Fal Fdb_Crc
begin

text \<open>
  The lower layer of FlashDB, \<^verbatim>\<open>src/flashdb/src/fdb_utils.c\<close> with the macros of \<^verbatim>\<open>fdb_low_lvl.h\<close> for the
  write granularity of one bit that \<^verbatim>\<open>fdb_cfg.h\<close> sets: status tables, access to the partition of a
  database, and the search for the erased end of a range. The fixed part of a database (its
  partition, sector size and size) is the record \<open>fdb_db\<close>; the flash is the state. The assertions on
  status indices always hold for the constants that the code passes.
\<close>

datatype fdb_err_t =
    FDB_NO_ERR | FDB_ERASE_ERR | FDB_READ_ERR | FDB_WRITE_ERR | FDB_PART_NOT_FOUND | FDB_KV_NAME_ERR
  | FDB_KV_NAME_EXIST | FDB_SAVED_FULL | FDB_INIT_FAILED

record 's fdb_db =
  db_fal :: "'s fal"
  db_part :: nat
  db_sec_size :: u32
  db_max_size :: u32
  file_mode :: bool
  not_formatable :: bool

subsection \<open>Access to the partition\<close>

definition fdb_flash_read :: "'s fdb_db \<Rightarrow> u32 \<Rightarrow> u8 list \<Rightarrow> ('s, fdb_err_t \<times> u8 list) state" where
  "fdb_flash_read db addr buf =
     (if file_mode db then ret (FDB_READ_ERR, buf)
      else do {
        (r, buf) \<leftarrow> fal_partition_read (db_fal db) (db_part db) addr buf;
        ret (if r < 0 then FDB_READ_ERR else FDB_NO_ERR, buf) })"

definition fdb_flash_erase :: "'s fdb_db \<Rightarrow> u32 \<Rightarrow> u32 \<Rightarrow> ('s, fdb_err_t) state" where
  "fdb_flash_erase db addr n =
     (if file_mode db then ret FDB_ERASE_ERR
      else do {
        r \<leftarrow> fal_partition_erase (db_fal db) (db_part db) addr n;
        ret (if r < 0 then FDB_ERASE_ERR else FDB_NO_ERR) })"

definition fdb_flash_write :: "'s fdb_db \<Rightarrow> u32 \<Rightarrow> u8 list \<Rightarrow> ('s, fdb_err_t) state" where
  "fdb_flash_write db addr buf =
     (if file_mode db then ret FDB_WRITE_ERR
      else do {
        r \<leftarrow> fal_partition_write (db_fal db) (db_part db) addr buf;
        ret (if r < 0 then FDB_WRITE_ERR else FDB_NO_ERR) })"

subsection \<open>Status tables\<close>

definition FDB_BYTE_ERASED :: u8 where
  "FDB_BYTE_ERASED = 0xFF"

definition FDB_BYTE_WRITTEN :: u8 where
  "FDB_BYTE_WRITTEN = 0x00"

definition FDB_STATUS_TABLE_SIZE :: "nat \<Rightarrow> nat" where
  "FDB_STATUS_TABLE_SIZE status_number = (status_number * 1 + 7) div 8"

text \<open>The result has the table and the index of the byte to write; \<open>None\<close> is \<^verbatim>\<open>SIZE_MAX\<close>.\<close>

definition fdb_set_status :: "nat \<Rightarrow> nat \<Rightarrow> u8 list \<times> nat option" where
  "fdb_set_status status_num status_index =
     (let status_table = replicate (FDB_STATUS_TABLE_SIZE status_num) FDB_BYTE_ERASED in
      if status_index > 0 then
        let byte_index = (status_index - 1) div 8
        in (status_table[byte_index := status_table ! byte_index AND drop_bit (status_index mod 8) 0xFF], Some byte_index)
      else (status_table, None))"

fun get_status_loop :: "u8 list \<Rightarrow> nat \<Rightarrow> nat \<Rightarrow> nat" where
  "get_status_loop status_table 0 i = i"
| "get_status_loop status_table (Suc n) i =
     (if status_table ! (n div 8) AND drop_bit (n mod 8) 0x80 = 0 then i else get_status_loop status_table n (Suc i))"

definition fdb_get_status :: "u8 list \<Rightarrow> nat \<Rightarrow> nat" where
  "fdb_get_status status_table status_num = status_num - 1 - get_status_loop status_table (status_num - 1) 0"

definition fdb_write_status :: "'s fdb_db \<Rightarrow> u32 \<Rightarrow> nat \<Rightarrow> nat \<Rightarrow> ('s, fdb_err_t) state" where
  "fdb_write_status db addr status_num status_index =
     (let (status_table, byte_index) = fdb_set_status status_num status_index in
      case byte_index of
        None \<Rightarrow> ret FDB_NO_ERR
      | Some i \<Rightarrow> fdb_flash_write db (addr + of_nat i) [status_table ! i])"

text \<open>The table that is read into; its old contents stay when the read fails.\<close>

definition fdb_read_status :: "'s fdb_db \<Rightarrow> u32 \<Rightarrow> u8 list \<Rightarrow> nat \<Rightarrow> ('s, nat \<times> u8 list) state" where
  "fdb_read_status db addr status_table total_num = do {
     (_, buf) \<leftarrow> fdb_flash_read db addr (take (FDB_STATUS_TABLE_SIZE total_num) status_table);
     let status_table = mem_write 0 buf status_table;
     ret (fdb_get_status status_table total_num, status_table) }"

subsection \<open>The erased end of a range\<close>

fun scan_ff :: "u32 \<Rightarrow> u8 list \<Rightarrow> u32 \<times> u8 \<Rightarrow> u32 \<times> u8" where
  "scan_ff a [] (addr, last_data) = (addr, last_data)"
| "scan_ff a (b # bs) (addr, last_data) =
     scan_ff (a + 1) bs (if last_data \<noteq> FDB_BYTE_ERASED \<and> b = FDB_BYTE_ERASED then a else addr, b)"

text \<open>The first argument bounds the rounds; \<open>fdb_continue_ff_addr\<close> allows one per started block of 32 bytes and one more.\<close>

fun ff_loop :: "nat \<Rightarrow> 's fdb_db \<Rightarrow> u32 \<Rightarrow> u32 \<Rightarrow> u8 list \<Rightarrow> u32 \<times> u8 \<Rightarrow> ('s, u32 \<times> u8) state" where
  "ff_loop 0 db start fin buf st = ret st"
| "ff_loop (Suc n) db start fin buf st =
     (if start < fin then do {
        let read_size = (if start + 32 < fin then 32 else unat (fin - start));
        (_, bs) \<leftarrow> fdb_flash_read db start (take read_size buf);
        let buf = mem_write 0 bs buf;
        ff_loop n db (start + 32) fin buf (scan_ff start (take read_size buf) st) }
      else ret st)"

text \<open>\<open>FDB_WG_ALIGN\<close> is the identity for a granularity of one bit.\<close>

definition fdb_continue_ff_addr :: "'s fdb_db \<Rightarrow> u8 list \<Rightarrow> u32 \<Rightarrow> u32 \<Rightarrow> ('s, u32) state" where
  "fdb_continue_ff_addr db buf start fin = do {
     (addr, last_data) \<leftarrow> ff_loop (unat (fin - start) div 32 + 2) db start fin buf (start, FDB_BYTE_WRITTEN);
     ret (if last_data = FDB_BYTE_ERASED then addr else fin) }"

subsection \<open>Status codes\<close>

lemma status_byte:
  assumes "k < num" and "num \<le> 8"
  shows "fst (fdb_set_status num k) = [drop_bit k 0xFF]" and "snd (fdb_set_status num k) = (if k = 0 then None else Some 0)"
proof -
  have "(num + 7) div 8 = 1" using assms by presburger
  moreover have "(0xFF :: u8) AND x = x" for x using take_bit_word_eq_self [of 8 x] by (simp add: take_bit_eq_mask mask_eq_exp_minus_1 and.commute)
  ultimately show "fst (fdb_set_status num k) = [drop_bit k 0xFF]" "snd (fdb_set_status num k) = (if k = 0 then None else Some 0)"
    using assms by (auto simp: fdb_set_status_def FDB_STATUS_TABLE_SIZE_def FDB_BYTE_ERASED_def Let_def)
qed

lemma bit_ff: "bit (drop_bit k (0xFF :: u8)) i \<longleftrightarrow> k + i < 8"
proof -
  have "bit (0xFF :: u8) j \<longleftrightarrow> j < 8" for j
    using bit_mask_iff [where 'a = u8, of 8 j] by (auto simp: mask_eq_exp_minus_1)
  then show ?thesis by (simp add: bit_drop_bit_eq)
qed

lemma status_bit: "n < 8 \<Longrightarrow> (drop_bit k 0xFF :: u8) AND drop_bit n 0x80 = 0 \<longleftrightarrow> n < k"
proof -
  assume n: "n < 8"
  have "bit (0x80 :: u8) i \<longleftrightarrow> i = 7" for i
    using bit_exp_iff [where 'a = u8, of 7 i] by auto
  then have b: "bit (drop_bit n (0x80 :: u8)) i \<longleftrightarrow> n + i = 7" for i by (simp add: bit_drop_bit_eq)
  have "x = 0 \<longleftrightarrow> (\<forall>i. \<not> bit x i)" for x :: u8 by (auto intro: bit_eqI)
  then have "(drop_bit k 0xFF :: u8) AND drop_bit n 0x80 = 0 \<longleftrightarrow> (\<forall>i. \<not> (k + i < 8 \<and> n + i = 7))"
    by (simp only: bit_and_iff bit_ff b)
  also have "\<dots> \<longleftrightarrow> n < k"
  proof
    assume "\<forall>i. \<not> (k + i < 8 \<and> n + i = 7)"
    then have "\<not> (k + (7 - n) < 8 \<and> n + (7 - n) = 7)" by blast
    then show "n < k" using n by simp
  qed auto
  finally show ?thesis .
qed

lemma get_status_loop_eq:
  "n \<le> 8 \<Longrightarrow> get_status_loop (drop_bit k 0xFF # rest) n i = i + (n - k)"
proof (induction n arbitrary: i)
  case (Suc n)
  have "drop_bit k 0xFF AND drop_bit (n mod 8) (0x80 :: u8) = 0 \<longleftrightarrow> n < k" using Suc.prems by (simp add: status_bit)
  then show ?case using Suc by (cases "n < k") auto
qed simp

lemma get_status_eq: "k < num \<Longrightarrow> num \<le> 8 \<Longrightarrow> fdb_get_status (drop_bit k 0xFF # rest) num = k"
  by (simp add: fdb_get_status_def get_status_loop_eq)

lemma status_and: "(drop_bit i 0xFF :: u8) AND drop_bit j 0xFF = drop_bit (max i j) 0xFF"
proof (rule bit_eqI)
  show "bit (drop_bit i 0xFF AND drop_bit j 0xFF :: u8) n = bit (drop_bit (max i j) 0xFF :: u8) n" for n
    by (simp only: bit_and_iff bit_ff) auto
qed

end
