(* ===== verification/Fdb_Flash.thy ===== *)
theory Fdb_Flash
  imports Fdb_Low
begin

text \<open>
  The contract between the database and its flash: inside the partition reads of up to \<open>window\<close> bytes
  return the cells (locale \<open>flash_reader\<close>), writes store and erasing sets a sector to ones (locale
  \<open>flash_store\<close>). The flash driver meets it on every chip that keeps its promises, through the port and
  the flash abstraction layer, when the transfer buffer of the interface holds a sector (locale
  \<open>wide_flash\<close> and its sublocale). On the board, with its buffer of 64 bytes, reads have a window of 59
  bytes, and writes are accepted and do nothing (locale \<open>deaf_flash\<close>).
\<close>

locale flash_reader =
  fixes db :: "'s fdb_db" and content :: "'s \<Rightarrow> nat \<Rightarrow> u8" and ok :: "'s \<Rightarrow> bool" and store_size :: nat and window :: nat
  assumes store_bound: "store_size \<le> 2 ^ 24" and store_sectors: "store_size mod 4096 = 0"
    and db_sizes: "unat (db_max_size db) = store_size" "db_sec_size db = 4096"
    and read_law: "\<lbrakk>ok s; unat a + length buf \<le> store_size; length buf \<le> window\<rbrakk> \<Longrightarrow>
      \<exists>s'. run_state (fdb_flash_read db a buf) s = ((FDB_NO_ERR, cells (content s) (unat a) (length buf)), s') \<and>
        ok s' \<and> content s' = content s"
    and erase_law: "\<lbrakk>ok s; unat a mod 4096 = 0; unat a + 4096 \<le> store_size\<rbrakk> \<Longrightarrow>
      \<exists>s'. run_state (fdb_flash_erase db a 4096) s = (FDB_NO_ERR, s') \<and> ok s' \<and> content s' = store_cells (content s) (unat a) (replicate 4096 0xFF)"

locale flash_store = flash_reader db content ok store_size 4096
  for db :: "'s fdb_db" and content :: "'s \<Rightarrow> nat \<Rightarrow> u8" and ok :: "'s \<Rightarrow> bool" and store_size :: nat +
  assumes write_law: "\<lbrakk>ok s; unat a < store_size; unat a + length bs \<le> store_size\<rbrakk> \<Longrightarrow>
      \<exists>s'. run_state (fdb_flash_write db a bs) s = (FDB_NO_ERR, s') \<and> ok s' \<and> content s' = store_cells (content s) (unat a) bs"

text \<open>A flash that takes writes and ignores them.\<close>

locale deaf_flash = flash_reader +
  assumes deaf_law: "ok s \<Longrightarrow> \<exists>r s'. run_state (fdb_flash_write db a bs) s = (r, s') \<and> ok s' \<and> content s' = content s \<and>
      (unat a + length bs \<le> store_size \<longrightarrow> r = FDB_NO_ERR)"

text \<open>The database of the program once its partition is found, for any size of the transfer buffer.\<close>

definition program_db :: "nat \<Rightarrow> 'e flash_hal \<Rightarrow> u8 list \<Rightarrow> 'e w25_state fdb_db" where
  "program_db bsize H ids = \<lparr>db_fal = fal_ready bsize H ids, db_part = 0, db_sec_size = 4096, db_max_size = 0x100000,
     file_mode = False, not_formatable = False\<rparr>"

lemma program_partition:
  "partition_table (db_fal (program_db bsize H ids)) ! db_part (program_db bsize H ids) = hd FAL_PART_TABLE"
  "flash_device_find_by_part (db_fal (program_db bsize H ids)) (db_part (program_db bsize H ids)) = Some (flash_dev_sized bsize H ids)"
  by (simp_all add: program_db_def fal_ready_def FAL_PART_TABLE_def flash_device_find_by_part_def)

lemma program_bound:
  assumes "unat a + n \<le> 2 ^ 20"
  shows "\<not> out_of_bound (db_fal (program_db bsize H ids)) (db_part (program_db bsize H ids)) a (of_nat n)"
proof -
  have "unat (0x100000 :: u32) = 2 ^ 20" by simp
  then show ?thesis
    using assms by (subst out_of_bound_iff) (simp_all add: program_partition FAL_PART_TABLE_def)
qed

lemma program_sizes: "unat (db_max_size (program_db bsize H ids)) = 2 ^ 20" "db_sec_size (program_db bsize H ids) = 4096"
  by (simp_all add: program_db_def)

lemma program_offset: "part_offset (hd FAL_PART_TABLE) + a = a"
  by (simp add: FAL_PART_TABLE_def)

lemma program_mode: "\<not> file_mode (program_db bsize H ids)"
  by (simp add: program_db_def)

text \<open>The driver is open and the chip is not busy.\<close>

definition flash_open :: "('e \<Rightarrow> bool) \<Rightarrow> 'e w25_state \<Rightarrow> bool" where
  "flash_open idle s \<longleftrightarrow> board s \<and> w25_inited s = 1 \<and> idle (w25_env s)"

locale port_flash = timed_chip H cell idle latched chip_size due
  for H :: "'e flash_hal" and cell :: "'e \<Rightarrow> nat \<Rightarrow> u8" and idle latched :: "'e \<Rightarrow> bool" and chip_size :: nat and due :: "'e \<Rightarrow> nat" +
  fixes bsize :: nat and ids :: "u8 list"
  assumes buffer: "37 \<le> bsize" and partition_fits: "2 ^ 20 \<le> chip_size"
    and trace_keeps: "run_state (flash_chprintf H fmt args) e = ((), e') \<Longrightarrow> cell e' = cell e \<and> (idle e \<longrightarrow> idle e')"
begin

lemma traced:
  assumes "flash_open idle s"
  shows "flash_open idle (s\<lparr>w25_env := snd (run_state (flash_chprintf H fmt args) (w25_env s))\<rparr>)"
    "cell (snd (run_state (flash_chprintf H fmt args) (w25_env s))) = cell (w25_env s)"
proof -
  obtain e' where e: "run_state (flash_chprintf H fmt args) (w25_env s) = ((), e')" by (cases "run_state (flash_chprintf H fmt args) (w25_env s)") simp
  show "flash_open idle (s\<lparr>w25_env := snd (run_state (flash_chprintf H fmt args) (w25_env s))\<rparr>)"
    "cell (snd (run_state (flash_chprintf H fmt args) (w25_env s))) = cell (w25_env s)"
    using assms trace_keeps [OF e] by (simp_all add: e flash_open_def)
qed

lemma port_read_ok:
  assumes "flash_open idle s" and "unat a + length buf \<le> chip_size" and "length buf + 5 \<le> bsize"
  obtains s' where "run_state (port_read bsize H a buf) s = ((0, cells (cell (w25_env s)) (unat a) (length buf)), s')"
    and "flash_open idle s'" and "cell (w25_env s') = cell (w25_env s)"
proof -
  define t where "t = s\<lparr>w25_env := snd (run_state (flash_chprintf H ''w25q_read: addr: %ld, size: %ld'' [sint a, int (length buf)]) (w25_env s))\<rparr>"
  have t: "flash_open idle t" "cell (w25_env t) = cell (w25_env s)" unfolding t_def using traced [OF assms(1)] by simp_all
  have "board t" "idle (w25_env t)" using t(1) by (simp_all add: flash_open_def)
  then obtain e' where "run_state (read_with 4 (link_sized bsize H) a buf) t = ((0, cells (cell (w25_env t)) (unat a) (length buf)), t\<lparr>w25_env := e'\<rparr>)"
    and "cell e' = cell (w25_env t)" and "idle e'" using read_ok [OF _ _ assms(2,3)] by blast
  then show thesis
    using that [of "t\<lparr>w25_env := e'\<rparr>"] t by (simp add: port_read_def w25qxx_read_def flash_open_def flip: t_def)
qed

lemma port_erase_ok:
  assumes "flash_open idle s" and "unat a mod 4096 = 0" and "unat a + 4096 \<le> chip_size"
  obtains s' where "run_state (port_erase bsize H a 4096) s = (0, s')"
    and "flash_open idle s'" and "cell (w25_env s') = store_cells (cell (w25_env s)) (unat a) (replicate 4096 0xFF)"
proof -
  have "board s" "w25_inited s = 1" "idle (w25_env s)" "4 \<le> bsize" using assms(1) buffer by (simp_all add: flash_open_def)
  from erase_sectors_ok [OF this(1-3) assms(2) _ this(4), of 1] assms(3) obtain s' where
    "run_state (erase_sectors (link_sized bsize H) a 1) s = ((), s')" "frame s s'" "idle (w25_env s')"
    "cell (w25_env s') = store_cells (cell (w25_env s)) (unat a) (replicate 4096 0xFF)" by auto
  then show thesis using that [of s'] \<open>w25_inited s = 1\<close> by (auto simp: port_erase_def flash_open_def frame_def split: prod.splits)
qed

lemma partition_read:
  assumes "flash_open idle s" and "unat a + length buf \<le> 2 ^ 20" and "length buf + 5 \<le> bsize"
  shows "\<exists>s'. run_state (fdb_flash_read (program_db bsize H ids) a buf) s =
      ((FDB_NO_ERR, cells (cell (w25_env s)) (unat a) (length buf)), s') \<and> flash_open idle s' \<and> cell (w25_env s') = cell (w25_env s)"
proof -
  have "unat a + length buf \<le> chip_size" using assms(2) partition_fits by simp
  from port_read_ok [OF assms(1) this assms(3)] obtain s' where
    "run_state (port_read bsize H a buf) s = ((0, cells (cell (w25_env s)) (unat a) (length buf)), s')"
    "flash_open idle s'" "cell (w25_env s') = cell (w25_env s)" by blast
  then show ?thesis
    using program_bound [OF assms(2), of bsize H ids]
    by (simp add: fdb_flash_read_def fal_partition_read_def program_partition flash_dev_sized_def program_offset program_mode)
qed

lemma partition_erase:
  assumes "flash_open idle s" and "unat a mod 4096 = 0" and "unat a + 4096 \<le> 2 ^ 20"
  shows "\<exists>s'. run_state (fdb_flash_erase (program_db bsize H ids) a 4096) s = (FDB_NO_ERR, s') \<and> flash_open idle s' \<and>
      cell (w25_env s') = store_cells (cell (w25_env s)) (unat a) (replicate 4096 0xFF)"
proof -
  have "unat a + 4096 \<le> chip_size" using assms(3) partition_fits by simp
  from port_erase_ok [OF assms(1,2) this] obtain s' where "run_state (port_erase bsize H a 4096) s = (0, s')"
    "flash_open idle s'" "cell (w25_env s') = store_cells (cell (w25_env s)) (unat a) (replicate 4096 0xFF)" by blast
  then show ?thesis
    using program_bound [OF assms(3), of bsize H ids]
    by (simp add: fdb_flash_erase_def fal_partition_erase_def program_partition flash_dev_sized_def program_offset program_mode)
qed

sublocale reader: flash_reader "program_db bsize H ids" "\<lambda>s. cell (w25_env s)" "flash_open idle" "2 ^ 20" "bsize - 5"
  using buffer by unfold_locales (auto simp: program_sizes intro!: partition_read partition_erase)

end

locale wide_flash = port_flash +
  assumes wide: "4101 \<le> bsize"
begin

lemma port_write_ok:
  assumes "flash_open idle s" and "unat a < chip_size" and "unat a + length bs \<le> chip_size"
  obtains s' where "run_state (port_write bsize H a bs) s = (0, s')"
    and "flash_open idle s'" and "cell (w25_env s') = store_cells (cell (w25_env s)) (unat a) bs"
proof -
  define t where "t = s\<lparr>w25_env := snd (run_state (flash_chprintf H ''w25q_write: addr: %ld, size: %ld'' [sint a, int (length bs)]) (w25_env s))\<rparr>"
  have t: "flash_open idle t" "cell (w25_env t) = cell (w25_env s)" unfolding t_def using traced [OF assms(1)] by simp_all
  have "board t" "w25_inited t = 1" "idle (w25_env t)" using t(1) by (simp_all add: flash_open_def)
  from write_stores [OF this assms(2,3) wide] obtain s' where
    "run_state (w25qxx_write (Some (link_sized bsize H)) a bs) t = (0, s')" "board s'" "w25_inited s' = 1"
    "cell (w25_env s') = store_cells (cell (w25_env t)) (unat a) bs" "idle (w25_env s')" by blast
  then show thesis using that [of s'] t by (simp add: port_write_def flash_open_def flip: t_def)
qed

sublocale store: flash_store "program_db bsize H ids" "\<lambda>s. cell (w25_env s)" "flash_open idle" "2 ^ 20"
proof unfold_locales
  fix s :: "'a w25_state" and a :: u32 and bs :: "u8 list"
  assume pre: "flash_open idle s" "unat a < 2 ^ 20" "unat a + length bs \<le> 2 ^ 20"
  have "unat a < chip_size" "unat a + length bs \<le> chip_size" using pre(2,3) partition_fits by simp_all
  from port_write_ok [OF pre(1) this] obtain s' where "run_state (port_write bsize H a bs) s = (0, s')"
    "flash_open idle s'" "cell (w25_env s') = store_cells (cell (w25_env s)) (unat a) bs" by blast
  then show "\<exists>s'. run_state (fdb_flash_write (program_db bsize H ids) a bs) s = (FDB_NO_ERR, s') \<and> flash_open idle s' \<and>
      cell (w25_env s') = store_cells (cell (w25_env s)) (unat a) bs"
    using program_bound [OF pre(3), of bsize H ids]
    by (simp add: fdb_flash_write_def fal_partition_write_def program_partition flash_dev_sized_def program_offset program_mode)
qed (use wide in \<open>auto simp: program_sizes intro!: partition_read partition_erase\<close>)

end

text \<open>The buffer of the board.\<close>

locale board_flash = port_flash H cell idle latched chip_size due 64 ids
  for H :: "'e flash_hal" and cell :: "'e \<Rightarrow> nat \<Rightarrow> u8" and idle latched :: "'e \<Rightarrow> bool" and chip_size :: nat and due :: "'e \<Rightarrow> nat"
    and ids :: "u8 list"
begin

lemma printed:
  assumes "flash_open idle s"
  shows "flash_open idle (s\<lparr>w25_env := snd (run_state (flash_print H msg) (w25_env s))\<rparr>)"
    "cell (snd (run_state (flash_print H msg) (w25_env s))) = cell (w25_env s)"
proof -
  obtain e' where e: "run_state (flash_print H msg) (w25_env s) = ((), e')" by (cases "run_state (flash_print H msg) (w25_env s)") simp
  show "flash_open idle (s\<lparr>w25_env := snd (run_state (flash_print H msg) (w25_env s))\<rparr>)"
    "cell (snd (run_state (flash_print H msg) (w25_env s))) = cell (w25_env s)"
    using assms print_keeps [OF e] by (simp_all add: e flash_open_def)
qed

lemma port_write_deaf:
  assumes "flash_open idle s"
  obtains s' where "run_state (port_write 64 H a bs) s = (0, s')" and "flash_open idle s'" and "cell (w25_env s') = cell (w25_env s)"
proof -
  define t where "t = s\<lparr>w25_env := snd (run_state (flash_chprintf H ''w25q_write: addr: %ld, size: %ld'' [sint a, int (length bs)]) (w25_env s))\<rparr>"
  define u where "u = t\<lparr>w25_env := snd (run_state (flash_print H ''w25qxx: fast read failed.'') (w25_env t))\<rparr>"
  define v where "v = u\<lparr>w25_env := snd (run_state (flash_print H ''w25qxx: read failed.'') (w25_env u))\<rparr>"
  have t: "flash_open idle t" "cell (w25_env t) = cell (w25_env s)" unfolding t_def using traced [OF assms(1)] by simp_all
  have u: "flash_open idle u" "cell (w25_env u) = cell (w25_env t)" unfolding u_def using printed [OF t(1)] by simp_all
  have v: "flash_open idle v" "cell (w25_env v) = cell (w25_env u)" unfolding v_def using printed [OF u(1)] by simp_all
  have "board t" "w25_inited t = 1" using t(1) by (simp_all add: flash_open_def)
  then have "run_state (w25qxx_write (Some (link_sized 64 H)) a bs) t = (4, v)"
    using write_sectors_refused_board [of 64 t H] by (simp add: w25qxx_write_def u_def v_def)
  then show thesis using that [of v] t u v by (simp add: port_write_def flip: t_def)
qed

sublocale deaf: deaf_flash "program_db 64 H ids" "\<lambda>s. cell (w25_env s)" "flash_open idle" "2 ^ 20" 59
proof unfold_locales
  fix s :: "'e w25_state" and a :: u32 and bs :: "u8 list"
  assume ok: "flash_open idle s"
  obtain s' where "run_state (port_write 64 H a bs) s = (0, s')" "flash_open idle s'" "cell (w25_env s') = cell (w25_env s)"
    by (rule port_write_deaf [OF ok])
  then show "\<exists>r s'. run_state (fdb_flash_write (program_db 64 H ids) a bs) s = (r, s') \<and> flash_open idle s' \<and>
      cell (w25_env s') = cell (w25_env s) \<and> (unat a + length bs \<le> 2 ^ 20 \<longrightarrow> r = FDB_NO_ERR)"
    using ok program_bound [of a "length bs" 64 H ids]
    by (auto simp: fdb_flash_write_def fal_partition_write_def program_partition flash_dev_sized_def program_offset program_mode)
qed (auto simp: program_sizes intro!: partition_read partition_erase)

end

text \<open>The simulated chip with a transfer buffer that takes a sector and the read command, and with the buffer of the board.\<close>

interpretation sim_flash: wide_flash sim_hal mem_cells sim_idle wel "2 ^ 23" busy 4101 "[0, 0, 0]"
  by unfold_locales (auto simp: sim_hal_def)

interpretation sim_board: board_flash sim_hal mem_cells sim_idle wel "2 ^ 23" busy "[0, 0, 0]"
  by unfold_locales (auto simp: sim_hal_def)

end
