(* ===== verification/Fdb_Record.thy ===== *)
theory Fdb_Record
  imports Fdb_Flash
begin

text \<open>
  One record of the key-value store of \<^verbatim>\<open>src/flashdb/src/fdb_kvdb.c\<close>: its header as it lies in the flash,
  reading it with the check of its length and checksum, and writing it. The layout is that of the
  compiler for this target: the status byte, three bytes of padding, four-byte fields in little
  endian, and three bytes of padding after the length of the name. What an uninitialised local
  buffer holds before a read is an argument.
\<close>

definition FDB_KV_NAME_MAX :: nat where
  "FDB_KV_NAME_MAX = 64"

definition KV_MAGIC_WORD :: u32 where
  "KV_MAGIC_WORD = 0x3030564B"

definition KV_HDR_DATA_SIZE :: nat where
  "KV_HDR_DATA_SIZE = 24"

definition KV_MAGIC_OFFSET :: nat where
  "KV_MAGIC_OFFSET = 4"

definition FAILED_ADDR :: u32 where
  "FAILED_ADDR = 0xFFFFFFFF"

text \<open>The states of a record, in the order of their numbers.\<close>

datatype fdb_kv_status = FDB_KV_UNUSED | FDB_KV_PRE_WRITE | FDB_KV_WRITE | FDB_KV_PRE_DELETE | FDB_KV_DELETED | FDB_KV_ERR_HDR

definition kv_statuses :: "fdb_kv_status list" where
  "kv_statuses = [FDB_KV_UNUSED, FDB_KV_PRE_WRITE, FDB_KV_WRITE, FDB_KV_PRE_DELETE, FDB_KV_DELETED, FDB_KV_ERR_HDR]"

definition FDB_KV_STATUS_NUM :: nat where
  "FDB_KV_STATUS_NUM = 6"

primrec kv_code :: "fdb_kv_status \<Rightarrow> nat" where
  "kv_code FDB_KV_UNUSED = 0"
| "kv_code FDB_KV_PRE_WRITE = 1"
| "kv_code FDB_KV_WRITE = 2"
| "kv_code FDB_KV_PRE_DELETE = 3"
| "kv_code FDB_KV_DELETED = 4"
| "kv_code FDB_KV_ERR_HDR = 5"

lemma kv_code_less: "kv_code st < 6"
  by (cases st) simp_all

lemma kv_statuses_code [simp]: "kv_statuses ! kv_code st = st"
  by (cases st) (simp_all add: kv_statuses_def)

subsection \<open>Header\<close>

record kv_hdr_data =
  hdr_status :: u8
  hdr_status_pad :: "u8 list"
  hdr_magic :: u32
  hdr_len :: u32
  hdr_crc32 :: u32
  hdr_name_len :: u8
  hdr_name_pad :: "u8 list"
  hdr_value_len :: u32

definition kv_hdr_bytes :: "kv_hdr_data \<Rightarrow> u8 list" where
  "kv_hdr_bytes h = hdr_status h # hdr_status_pad h @ le32 (hdr_magic h) @ le32 (hdr_len h) @ le32 (hdr_crc32 h) @
     hdr_name_len h # hdr_name_pad h @ le32 (hdr_value_len h)"

definition kv_hdr_of :: "u8 list \<Rightarrow> kv_hdr_data" where
  "kv_hdr_of bs = \<lparr>hdr_status = bs ! 0, hdr_status_pad = take 3 (drop 1 bs), hdr_magic = un_le32 (take 4 (drop 4 bs)),
     hdr_len = un_le32 (take 4 (drop 8 bs)), hdr_crc32 = un_le32 (take 4 (drop 12 bs)), hdr_name_len = bs ! 16,
     hdr_name_pad = take 3 (drop 17 bs), hdr_value_len = un_le32 (take 4 (drop 20 bs))\<rparr>"

text \<open>The four bytes from the length of the name on, and those of the length of the value.\<close>

definition crc_of_lengths :: "kv_hdr_data \<Rightarrow> u32" where
  "crc_of_lengths h = fdb_calc_crc32 (fdb_calc_crc32 0 (hdr_name_len h # hdr_name_pad h)) (le32 (hdr_value_len h))"

subsection \<open>Reading\<close>

record fdb_kv =
  kv_status :: fdb_kv_status
  crc_is_ok :: bool
  kv_name_len :: u8
  kv_len :: u32
  kv_value_len :: u32
  kv_name :: "u8 list"
  addr_start :: u32
  addr_value :: u32
  name_overrun :: bool

text \<open>
  The checksum over the name and the value, in blocks of 32 bytes through the local buffer \<open>buf\<close>.
  The first argument bounds the rounds.
\<close>

fun crc_data_loop :: "nat \<Rightarrow> 's fdb_db \<Rightarrow> u32 \<Rightarrow> u32 \<Rightarrow> u32 \<Rightarrow> u8 list \<Rightarrow> u32 \<Rightarrow> ('s, u32) state" where
  "crc_data_loop 0 db addr len crc_data_len buf crc = ret crc"
| "crc_data_loop (Suc n) db addr len crc_data_len buf crc =
     (if len < crc_data_len then do {
        let sz = (if len + 32 < crc_data_len then 32 else unat (crc_data_len - len));
        (_, bs) \<leftarrow> fdb_flash_read db (addr + len) (take sz buf);
        let buf = mem_write 0 bs buf;
        crc_data_loop n db addr (len + of_nat sz) crc_data_len buf (fdb_calc_crc32 crc (take sz buf)) }
      else ret crc)"

text \<open>
  \<open>name\<close> has 64 bytes. A record with a longer name and a valid checksum is read past its end; that is the
  flag \<open>name_overrun\<close>, and the bytes beyond are dropped.
\<close>

definition read_name :: "'s fdb_db \<Rightarrow> nat \<Rightarrow> fdb_kv \<Rightarrow> ('s, fdb_kv) state" where
  "read_name db n kv = do {
     (_, bs) \<leftarrow> fdb_flash_read db (addr_start kv + of_nat KV_HDR_DATA_SIZE) (take n (kv_name kv @ replicate (n - FDB_KV_NAME_MAX) 0));
     ret (kv\<lparr>kv_name := take FDB_KV_NAME_MAX (mem_write 0 bs (kv_name kv)), name_overrun := name_overrun kv \<or> n > FDB_KV_NAME_MAX\<rparr>) }"

record stack_data =
  stk_hdr :: "u8 list"
  stk_buf :: "u8 list"

definition read_kv :: "'s fdb_db \<Rightarrow> 'z stack_data_scheme \<Rightarrow> fdb_kv \<Rightarrow> ('s, fdb_err_t \<times> fdb_kv) state" where
  "read_kv db stk kv = do {
     (_, raw) \<leftarrow> fdb_flash_read db (addr_start kv) (stk_hdr stk);
     let kv_hdr = kv_hdr_of raw;
     let kv = kv\<lparr>kv_status := kv_statuses ! fdb_get_status [hdr_status kv_hdr] FDB_KV_STATUS_NUM, kv_len := hdr_len kv_hdr\<rparr>;
     if kv_len kv = 0xFFFFFFFF \<or> kv_len kv > db_max_size db \<or> kv_len kv < of_nat KV_HDR_DATA_SIZE then do {
       let kv = kv\<lparr>kv_len := of_nat KV_HDR_DATA_SIZE, crc_is_ok := False\<rparr>;
       if kv_status kv \<noteq> FDB_KV_ERR_HDR then do {
         _ \<leftarrow> fdb_write_status db (addr_start kv) FDB_KV_STATUS_NUM (kv_code FDB_KV_ERR_HDR);
         ret (FDB_READ_ERR, kv\<lparr>kv_status := FDB_KV_ERR_HDR\<rparr>) }
       else ret (FDB_READ_ERR, kv) }
     else do {
       let crc_data_len = kv_len kv - of_nat KV_HDR_DATA_SIZE;
       calc_crc32 \<leftarrow> crc_data_loop (unat crc_data_len div 32 + 2) db (addr_start kv + of_nat KV_HDR_DATA_SIZE) 0 crc_data_len (stk_buf stk)
         (crc_of_lengths kv_hdr);
       if calc_crc32 \<noteq> hdr_crc32 kv_hdr then do {
         kv \<leftarrow> read_name db (min FDB_KV_NAME_MAX (unat (hdr_name_len kv_hdr))) (kv\<lparr>crc_is_ok := False\<rparr>);
         ret (FDB_READ_ERR, kv) }
       else do {
         kv \<leftarrow> read_name db (unat (hdr_name_len kv_hdr)) (kv\<lparr>crc_is_ok := True\<rparr>);
         let name_len = min (FDB_KV_NAME_MAX - 1) (unat (hdr_name_len kv_hdr));
         ret (FDB_NO_ERR, kv\<lparr>addr_value := addr_start kv + of_nat KV_HDR_DATA_SIZE + ucast (hdr_name_len kv_hdr),
           kv_value_len := hdr_value_len kv_hdr, kv_name_len := hdr_name_len kv_hdr, kv_name := (kv_name kv)[name_len := 0]\<rparr>) } } }"

subsection \<open>Writing\<close>

definition write_kv_hdr :: "'s fdb_db \<Rightarrow> u32 \<Rightarrow> kv_hdr_data \<Rightarrow> ('s, fdb_err_t) state" where
  "write_kv_hdr db addr kv_hdr = do {
     result \<leftarrow> fdb_write_status db addr FDB_KV_STATUS_NUM (kv_code FDB_KV_PRE_WRITE);
     if result \<noteq> FDB_NO_ERR then ret result
     else fdb_flash_write db (addr + of_nat KV_MAGIC_OFFSET) (drop KV_MAGIC_OFFSET (kv_hdr_bytes kv_hdr)) }"

text \<open>With a granularity of one bit nothing remains to be filled up.\<close>

definition align_write :: "'s fdb_db \<Rightarrow> u32 \<Rightarrow> u8 list \<Rightarrow> ('s, fdb_err_t) state" where
  "align_write db addr buf = (if length buf > 0 then fdb_flash_write db addr buf else ret FDB_NO_ERR)"

text \<open>The header of a new record, before and after its checksum is known.\<close>

definition new_kv_hdr :: "u8 list \<Rightarrow> u8 list \<Rightarrow> kv_hdr_data" where
  "new_kv_hdr key val = \<lparr>hdr_status = 0xFF, hdr_status_pad = replicate 3 0xFF, hdr_magic = KV_MAGIC_WORD,
     hdr_len = of_nat (KV_HDR_DATA_SIZE + length key + length val), hdr_crc32 = 0xFFFFFFFF, hdr_name_len = of_nat (length key),
     hdr_name_pad = replicate 3 0xFF, hdr_value_len = of_nat (length val)\<rparr>"

definition kv_hdr_crc :: "u8 list \<Rightarrow> u8 list \<Rightarrow> u32" where
  "kv_hdr_crc key val = fdb_calc_crc32 (fdb_calc_crc32 (crc_of_lengths (new_kv_hdr key val)) key) val"

definition kv_hdr_for :: "u8 list \<Rightarrow> u8 list \<Rightarrow> kv_hdr_data" where
  "kv_hdr_for key val = (new_kv_hdr key val)\<lparr>hdr_crc32 := kv_hdr_crc key val\<rparr>"

subsection \<open>The bytes of a record\<close>

lemma cells_add: "cells c a (m + n) = cells c a m @ cells c (a + m) n"
  by (rule nth_equalityI) (auto simp: nth_append)

lemma cells_split: "m \<le> n \<Longrightarrow> cells c a n = cells c a m @ cells c (a + m) (n - m)"
  using cells_add [of c a m "n - m"] by simp

lemma take_drop_cells: "i + n \<le> m \<Longrightarrow> take n (drop i (cells c a m)) = cells c (a + i) n"
  by (rule nth_equalityI) (auto simp: add.assoc)

lemma unat_of_nat_u32: "n \<le> 2 ^ 24 \<Longrightarrow> unat (of_nat n :: u32) = n"
  by (simp add: unat_of_nat take_bit_nat_eq_self_iff)

lemma ucast_of_nat_u8: "n < 256 \<Longrightarrow> (ucast (of_nat n :: u8) :: u32) = of_nat n"
  by (simp add: word_unat_eq_iff unsigned_ucast_eq unat_of_nat take_bit_nat_eq_self_iff)

lemma fdb_crc_Nil [simp]: "fdb_calc_crc32 crc [] = crc"
  by (simp add: fdb_calc_crc32_def)

definition record_len :: "u8 list \<Rightarrow> u8 list \<Rightarrow> nat" where
  "record_len key val = KV_HDR_DATA_SIZE + length key + length val"

definition record_body :: "u8 list \<Rightarrow> u8 list \<Rightarrow> u8 list" where
  "record_body key val = drop KV_MAGIC_OFFSET (kv_hdr_bytes (kv_hdr_for key val)) @ key @ val"

text \<open>A complete record at \<open>a\<close>; the padding behind the status byte does not matter.\<close>

definition record_at :: "(nat \<Rightarrow> u8) \<Rightarrow> nat \<Rightarrow> fdb_kv_status \<Rightarrow> u8 list \<Rightarrow> u8 list \<Rightarrow> bool" where
  "record_at c a st key val \<longleftrightarrow> c a = drop_bit (kv_code st) 0xFF \<and> cells c (a + KV_MAGIC_OFFSET) (length (record_body key val)) = record_body key val"

lemma record_body_eq:
  "record_body key val = le32 KV_MAGIC_WORD @ le32 (of_nat (record_len key val)) @ le32 (kv_hdr_crc key val) @
     of_nat (length key) # replicate 3 0xFF @ le32 (of_nat (length val)) @ key @ val"
  by (simp add: record_body_def kv_hdr_bytes_def kv_hdr_for_def new_kv_hdr_def KV_MAGIC_OFFSET_def record_len_def eval_nat_numeral)

lemma length_record_body: "length (record_body key val) + 4 = record_len key val"
  by (simp add: record_body_eq record_len_def KV_HDR_DATA_SIZE_def)

lemma record_cells:
  assumes "record_at c a st key val" and "i + n \<le> length (record_body key val)"
  shows "cells c (a + 4 + i) n = take n (drop i (record_body key val))"
  using assms take_drop_cells [OF assms(2), of c "a + 4"] by (simp add: record_at_def KV_MAGIC_OFFSET_def)

lemma record_header:
  assumes "record_at c a st key val"
  shows "kv_hdr_of (cells c a 24) = (kv_hdr_for key val)\<lparr>hdr_status := drop_bit (kv_code st) 0xFF, hdr_status_pad := cells c (a + 1) 3\<rparr>"
proof -
  let ?h = "cells c a 24"
  have len: "20 \<le> length (record_body key val)" using length_record_body [of key val] by (simp add: record_len_def KV_HDR_DATA_SIZE_def)
  have body: "take n (drop (4 + i) ?h) = take n (drop i (record_body key val))" if "i + n \<le> 20" for i n
    using record_cells [OF assms, of i n] that len take_drop_cells [of "4 + i" n 24 c a] by (simp add: add.assoc)
  have b: "take 4 (drop 4 ?h) = le32 KV_MAGIC_WORD" "take 4 (drop 8 ?h) = le32 (of_nat (record_len key val))"
    "take 4 (drop 12 ?h) = le32 (kv_hdr_crc key val)" "take 3 (drop 17 ?h) = replicate 3 0xFF"
    "take 4 (drop 20 ?h) = le32 (of_nat (length val))" "take 1 (drop 16 ?h) = [of_nat (length key)]"
    using body [of 0 4] body [of 4 4] body [of 8 4] body [of 13 3] body [of 16 4] body [of 12 1] by (simp_all add: record_body_eq)
  have n16: "?h ! 16 = hd (take 1 (drop 16 ?h))" by (simp add: hd_drop_conv_nth)
  have "?h ! 0 = drop_bit (kv_code st) 0xFF" using assms by (simp add: record_at_def)
  moreover have "take 3 (drop 1 ?h) = cells c (a + 1) 3" by (rule take_drop_cells) simp
  ultimately show ?thesis
    unfolding kv_hdr_of_def n16 b by (simp add: kv_hdr_for_def new_kv_hdr_def record_len_def)
qed

lemma record_data:
  assumes "record_at c a st key val"
  shows "cells c (a + 24) (length key) = key" "cells c (a + 24) (length key + length val) = key @ val"
    "cells c (a + 24 + length key) (length val) = val"
proof -
  have d: "drop 20 (record_body key val) = key @ val" by (simp add: record_body_eq)
  have len: "length (record_body key val) = 20 + length key + length val"
    using length_record_body [of key val] by (simp add: record_len_def KV_HDR_DATA_SIZE_def)
  show kv: "cells c (a + 24) (length key + length val) = key @ val"
    using record_cells [OF assms, of 20 "length key + length val"] len d by (simp add: add.commute [of 24 a])
  then show "cells c (a + 24) (length key) = key" "cells c (a + 24 + length key) (length val) = val"
    unfolding cells_add by simp_all
qed

subsection \<open>Reading a complete record\<close>

text \<open>What \<open>read_kv\<close> returns for a complete record.\<close>

definition kv_read :: "fdb_kv_status \<Rightarrow> u8 list \<Rightarrow> u8 list \<Rightarrow> fdb_kv \<Rightarrow> fdb_kv" where
  "kv_read st key val kv = kv\<lparr>kv_status := st, crc_is_ok := True, kv_name_len := of_nat (length key), kv_len := of_nat (record_len key val),
     kv_value_len := of_nat (length val), kv_name := (key @ drop (length key) (kv_name kv))[min 63 (length key) := 0],
     addr_value := addr_start kv + of_nat (24 + length key)\<rparr>"

declare crc_data_loop.simps [simp del]

context flash_store begin

lemma crc_data_ok:
  assumes "ok s" and "unat addr + unat len_all \<le> store_size" and "unat len \<le> unat len_all" and "unat len_all - unat len \<le> 32 * n"
    and "length buf = 32"
  shows "\<exists>s'. run_state (crc_data_loop n db addr len len_all buf crc) s =
      (fdb_calc_crc32 crc (cells (content s) (unat addr + unat len) (unat len_all - unat len)), s') \<and> ok s' \<and> content s' = content s"
  using assms
proof (induction n arbitrary: s len buf crc)
  case (Suc n)
  show ?case
  proof (cases "len < len_all")
    case False
    then have "unat len_all - unat len = 0" using Suc.prems(3) by (simp add: word_less_nat_alt)
    then show ?thesis using False Suc.prems(1) by (simp add: cells_def crc_data_loop.simps)
  next
    case True
    let ?sz = "if len + 32 < len_all then 32 else unat (len_all - len)" and ?c = "content s"
    have small: "unat len_all \<le> 2 ^ 24" using Suc.prems(2) store_bound by simp
    have l32: "unat (len + 32) = unat len + 32" using Suc.prems(3) small unat_add_of_nat [of len 32] by simp
    have sub: "unat (len_all - len) = unat len_all - unat len" using True by (intro unat_sub) simp
    have sz: "?sz = min 32 (unat len_all - unat len)" using l32 sub by (auto simp: word_less_nat_alt)
    have next_len: "unat (len + of_nat ?sz) = unat len + ?sz" using sz Suc.prems(3) small by (intro unat_add_of_nat) simp
    have al: "unat (addr + len) = unat addr + unat len" using Suc.prems(2,3) store_bound unat_add_of_nat [of addr "unat len"] by simp
    have "unat (addr + len) + length (take ?sz buf) \<le> store_size" "length (take ?sz buf) \<le> 4096" "length (take ?sz buf) = ?sz"
      using Suc.prems(2,3,5) sz al True by (auto simp: word_less_nat_alt)
    with read_law [OF Suc.prems(1), of "addr + len" "take ?sz buf"] obtain t where
      rd: "run_state (fdb_flash_read db (addr + len) (take ?sz buf)) s = ((FDB_NO_ERR, cells ?c (unat addr + unat len) ?sz), t)"
      and t: "ok t" "content t = ?c" using al by auto
    let ?buf = "mem_write 0 (cells ?c (unat addr + unat len) ?sz) buf"
    have b: "take ?sz ?buf = cells ?c (unat addr + unat len) ?sz" "length ?buf = 32" using sz Suc.prems(5) by auto
    have "unat (len + of_nat ?sz) \<le> unat len_all" "unat len_all - unat (len + of_nat ?sz) \<le> 32 * n"
      unfolding next_len using sz Suc.prems(3,4) by (auto simp: min_def)
    from Suc.IH [OF t(1) Suc.prems(2) this b(2), of "fdb_calc_crc32 crc (take ?sz ?buf)"] obtain s' where
      rest: "run_state (crc_data_loop n db addr (len + of_nat ?sz) len_all ?buf (fdb_calc_crc32 crc (take ?sz ?buf))) t =
        (fdb_calc_crc32 (fdb_calc_crc32 crc (take ?sz ?buf)) (cells ?c (unat addr + unat (len + of_nat ?sz)) (unat len_all - unat (len + of_nat ?sz))), s')"
      and s': "ok s'" "content s' = ?c" using t(2) by auto
    have "cells ?c (unat addr + unat len) (unat len_all - unat len) =
        cells ?c (unat addr + unat len) ?sz @ cells ?c (unat addr + unat (len + of_nat ?sz)) (unat len_all - unat (len + of_nat ?sz))"
      using cells_split [of ?sz "unat len_all - unat len" ?c "unat addr + unat len"] sz next_len by (simp add: add.assoc)
    then have "fdb_calc_crc32 (fdb_calc_crc32 crc (take ?sz ?buf)) (cells ?c (unat addr + unat (len + of_nat ?sz)) (unat len_all - unat (len + of_nat ?sz))) =
        fdb_calc_crc32 crc (cells ?c (unat addr + unat len) (unat len_all - unat len))" unfolding b(1) fdb_crc_append by simp
    moreover have "run_state (crc_data_loop (Suc n) db addr len len_all buf crc) s =
        run_state (crc_data_loop n db addr (len + of_nat ?sz) len_all ?buf (fdb_calc_crc32 crc (take ?sz ?buf))) t"
      using True rd by (simp add: crc_data_loop.simps Let_def del: mem_write_0 split del: if_split)
    ultimately show ?thesis using rest s' by simp
  qed
qed (simp add: cells_def crc_data_loop.simps)

lemma read_name_ok:
  assumes "ok s" and "n \<le> 64" and "unat (addr_start kv) + 24 + n \<le> store_size" and "length (kv_name kv) = 64"
  shows "\<exists>s'. run_state (read_name db n kv) s =
      (kv\<lparr>kv_name := cells (content s) (unat (addr_start kv) + 24) n @ drop n (kv_name kv)\<rparr>, s') \<and> ok s' \<and> content s' = content s"
proof -
  have a: "unat (addr_start kv + 24) = unat (addr_start kv) + 24"
    using assms(3) store_bound unat_add_of_nat [of "addr_start kv" 24] by simp
  have l: "take n (kv_name kv @ replicate (n - FDB_KV_NAME_MAX) 0) = take n (kv_name kv)" "length (take n (kv_name kv)) = n"
    using assms(2,4) by (simp_all add: FDB_KV_NAME_MAX_def)
  with read_law [OF assms(1), of "addr_start kv + 24" "take n (kv_name kv)"] a assms(2,3) obtain s' where
    "run_state (fdb_flash_read db (addr_start kv + 24) (take n (kv_name kv))) s = ((FDB_NO_ERR, cells (content s) (unat (addr_start kv) + 24) n), s')"
    "ok s'" "content s' = content s" by auto
  then show ?thesis
    using l assms(2,4) by (simp add: read_name_def KV_HDR_DATA_SIZE_def FDB_KV_NAME_MAX_def)
qed

lemma read_kv_ok:
  assumes "ok s" and "record_at (content s) (unat (addr_start kv)) st key val" and "length key \<le> 64"
    and "unat (addr_start kv) + record_len key val \<le> store_size"
    and "length (stk_hdr stk) = 24" and "length (stk_buf stk) = 32" and "length (kv_name kv) = 64"
  shows "\<exists>s'. run_state (read_kv db stk kv) s = ((FDB_NO_ERR, kv_read st key val kv), s') \<and> ok s' \<and> content s' = content s"
proof -
  let ?a = "unat (addr_start kv)" and ?c = "content s"
  have len: "record_len key val = 24 + length key + length val" by (simp add: record_len_def KV_HDR_DATA_SIZE_def)
  have small: "record_len key val \<le> 2 ^ 24" using assms(4) store_bound by simp
  have ul: "unat (of_nat (record_len key val) :: u32) = record_len key val" "unat (of_nat (length val) :: u32) = length val"
    using unat_of_nat_u32 [OF small] unat_of_nat_u32 [of "length val"] small len by simp_all
  have un: "unat (of_nat (length key) :: u8) = length key" using assms(3) by (simp add: unat_of_nat take_bit_nat_eq_self_iff)
  obtain s1 where s1: "run_state (fdb_flash_read db (addr_start kv) (stk_hdr stk)) s = ((FDB_NO_ERR, cells ?c ?a 24), s1)"
    "ok s1" "content s1 = ?c" using read_law [OF assms(1), of "addr_start kv" "stk_hdr stk"] assms(4,5) len by auto
  note hdr = record_header [OF assms(2)]
  have st: "kv_statuses ! fdb_get_status [drop_bit (kv_code st) 0xFF] 6 = st"
    using get_status_eq [OF kv_code_less, of st "[]"] by simp
  let ?l = "of_nat (record_len key val) :: u32"
  have valid: "\<not> (?l = 0xFFFFFFFF \<or> ?l > db_max_size db \<or> ?l < of_nat KV_HDR_DATA_SIZE)"
  proof -
    have "?l \<noteq> 0xFFFFFFFF"
    proof
      assume "?l = 0xFFFFFFFF"
      then have "unat ?l = 4294967295" by simp
      then show False using ul(1) small by simp
    qed
    then show ?thesis using ul(1) db_sizes(1) assms(4) len by (auto simp: word_less_nat_alt KV_HDR_DATA_SIZE_def)
  qed
  have d: "unat (?l - of_nat KV_HDR_DATA_SIZE) = length key + length val"
    using small len unat_sub [of "of_nat KV_HDR_DATA_SIZE" ?l] ul(1) by (simp add: KV_HDR_DATA_SIZE_def word_le_nat_alt)
  have a24: "unat (addr_start kv + of_nat KV_HDR_DATA_SIZE) = ?a + 24"
    using assms(4) store_bound len unat_add_of_nat [of "addr_start kv" 24] by (simp add: KV_HDR_DATA_SIZE_def)
  define h where "h = (kv_hdr_for key val)\<lparr>hdr_status := drop_bit (kv_code st) 0xFF, hdr_status_pad := cells ?c (?a + 1) 3\<rparr>"
  have h: "hdr_len h = ?l" "hdr_name_len h = of_nat (length key)" "hdr_value_len h = of_nat (length val)" "hdr_crc32 h = kv_hdr_crc key val"
    "hdr_status h = drop_bit (kv_code st) 0xFF" "crc_of_lengths h = crc_of_lengths (new_kv_hdr key val)"
    by (simp_all add: h_def kv_hdr_for_def new_kv_hdr_def record_len_def crc_of_lengths_def)
  have "unat (addr_start kv + of_nat KV_HDR_DATA_SIZE) + unat (?l - of_nat KV_HDR_DATA_SIZE) \<le> store_size"
    using a24 d assms(4) len by simp
  moreover have "(length key + length val) \<le> 64 + 32 * ((length key + length val) div 32)"
    using mult_div_mod_eq [of 32 "length key + length val"] mod_less_divisor [of 32 "length key + length val"] by linarith
  ultimately obtain s2 where
    s2: "run_state (crc_data_loop (unat (?l - of_nat KV_HDR_DATA_SIZE) div 32 + 2) db (addr_start kv + of_nat KV_HDR_DATA_SIZE) 0
      (?l - of_nat KV_HDR_DATA_SIZE) (stk_buf stk) (crc_of_lengths h)) s1 = (kv_hdr_crc key val, s2)" "ok s2" "content s2 = ?c"
    using crc_data_ok [OF s1(2), of "addr_start kv + of_nat KV_HDR_DATA_SIZE" "?l - of_nat KV_HDR_DATA_SIZE" 0
        "unat (?l - of_nat KV_HDR_DATA_SIZE) div 32 + 2" "stk_buf stk" "crc_of_lengths h"]
      assms(6) record_data(2) [OF assms(2)] a24 s1(3) d h(6) by (auto simp: kv_hdr_crc_def fdb_crc_append)
  let ?kv = "kv\<lparr>kv_status := st, kv_len := ?l, crc_is_ok := True\<rparr>"
  have "unat (addr_start ?kv) + 24 + length key \<le> store_size" "length (kv_name ?kv) = 64" using assms(4,7) len by simp_all
  from read_name_ok [OF s2(2) assms(3) this] obtain s3 where
    s3: "run_state (read_name db (length key) ?kv) s2 = (?kv\<lparr>kv_name := key @ drop (length key) (kv_name kv)\<rparr>, s3)" "ok s3" "content s3 = ?c"
    using record_data(1) [OF assms(2)] s2(3) by auto
  have v: "(ucast (of_nat (length key) :: u8) :: u32) = of_nat (length key)" by (rule ucast_of_nat_u8) (use assms(3) in simp)
  have "run_state (read_kv db stk kv) s = ((FDB_NO_ERR, kv_read st key val kv), s3)"
    unfolding read_kv_def using s1(1) s2(1) s3(1) valid un v
    by (simp add: hdr [folded h_def] h st Let_def FDB_KV_STATUS_NUM_def FDB_KV_NAME_MAX_def kv_read_def) (simp add: KV_HDR_DATA_SIZE_def)
  then show ?thesis using s3 by blast
qed

end

end
