(* ===== verification/Fdb_Kv.thy ===== *)
theory Fdb_Kv
  imports Fdb_Record
begin

text \<open>
  The key-value store \<^verbatim>\<open>src/flashdb/src/fdb_kvdb.c\<close>, one definition per function, with its two caches. A
  pointer to a record or to the information on a sector that a function fills in is an argument
  and a result. The values of uninitialised locals are the argument \<open>stk\<close>. A search in a sector stops
  after as many rounds as the sector has bytes, one over all sectors after as many as there are
  sectors, as every round of the code advances. The messages of the store are left out; the
  assertions it makes hold for the addresses it computes.
\<close>

datatype fdb_sector_store_status = FDB_SECTOR_STORE_UNUSED | FDB_SECTOR_STORE_EMPTY | FDB_SECTOR_STORE_USING | FDB_SECTOR_STORE_FULL

datatype fdb_sector_dirty_status = FDB_SECTOR_DIRTY_UNUSED | FDB_SECTOR_DIRTY_FALSE | FDB_SECTOR_DIRTY_TRUE | FDB_SECTOR_DIRTY_GC

primrec store_code :: "fdb_sector_store_status \<Rightarrow> nat" where
  "store_code FDB_SECTOR_STORE_UNUSED = 0"
| "store_code FDB_SECTOR_STORE_EMPTY = 1"
| "store_code FDB_SECTOR_STORE_USING = 2"
| "store_code FDB_SECTOR_STORE_FULL = 3"

primrec dirty_code :: "fdb_sector_dirty_status \<Rightarrow> nat" where
  "dirty_code FDB_SECTOR_DIRTY_UNUSED = 0"
| "dirty_code FDB_SECTOR_DIRTY_FALSE = 1"
| "dirty_code FDB_SECTOR_DIRTY_TRUE = 2"
| "dirty_code FDB_SECTOR_DIRTY_GC = 3"

definition store_of :: "nat \<Rightarrow> fdb_sector_store_status" where
  "store_of n = [FDB_SECTOR_STORE_UNUSED, FDB_SECTOR_STORE_EMPTY, FDB_SECTOR_STORE_USING, FDB_SECTOR_STORE_FULL] ! n"

definition dirty_of :: "nat \<Rightarrow> fdb_sector_dirty_status" where
  "dirty_of n = [FDB_SECTOR_DIRTY_UNUSED, FDB_SECTOR_DIRTY_FALSE, FDB_SECTOR_DIRTY_TRUE, FDB_SECTOR_DIRTY_GC] ! n"

definition FDB_SECTOR_STATUS_NUM :: nat where
  "FDB_SECTOR_STATUS_NUM = 4"

definition SECTOR_MAGIC_WORD :: u32 where
  "SECTOR_MAGIC_WORD = 0x30424446"

definition SECTOR_HDR_DATA_SIZE :: u32 where
  "SECTOR_HDR_DATA_SIZE = 16"

definition SECTOR_DIRTY_OFFSET :: u32 where
  "SECTOR_DIRTY_OFFSET = 1"

definition SECTOR_NOT_COMBINED :: u32 where
  "SECTOR_NOT_COMBINED = 0xFFFFFFFF"

definition SECTOR_COMBINED :: u32 where
  "SECTOR_COMBINED = 0"

definition FDB_DATA_UNUSED :: u32 where
  "FDB_DATA_UNUSED = 0xFFFFFFFF"

definition FDB_SEC_REMAIN_THRESHOLD :: u32 where
  "FDB_SEC_REMAIN_THRESHOLD = 88"

definition FDB_GC_EMPTY_SEC_THRESHOLD :: nat where
  "FDB_GC_EMPTY_SEC_THRESHOLD = 1"

definition FDB_KV_CACHE_TABLE_SIZE :: nat where
  "FDB_KV_CACHE_TABLE_SIZE = 64"

definition FDB_SECTOR_CACHE_TABLE_SIZE :: nat where
  "FDB_SECTOR_CACHE_TABLE_SIZE = 8"

record kvdb_sec_info =
  check_ok :: bool
  store_status :: fdb_sector_store_status
  dirty_status :: fdb_sector_dirty_status
  sec_addr :: u32
  sec_magic :: u32
  combined :: u32
  remain :: u32
  empty_kv :: u32

definition zero_sector :: kvdb_sec_info where
  "zero_sector = \<lparr>check_ok = False, store_status = FDB_SECTOR_STORE_UNUSED, dirty_status = FDB_SECTOR_DIRTY_UNUSED, sec_addr = 0,
     sec_magic = 0, combined = 0, remain = 0, empty_kv = 0\<rparr>"

record kv_cache_node =
  name_crc :: u16
  active :: u16
  node_addr :: u32

record default_kv =
  def_key :: "u8 list"
  def_value :: "u8 list"
  def_value_len :: nat

record 's kvdb =
  gc_request :: bool
  in_recovery_check :: bool
  last_is_complete_del :: bool
  cur_kv :: fdb_kv
  cur_sector :: kvdb_sec_info
  kv_cache_table :: "kv_cache_node list"
  sector_cache_table :: "kvdb_sec_info list"
  oldest_addr :: u32
  db_init_ok :: bool
  default_kvs :: "default_kv list"
  kv_env :: 's

record kv_stack = stack_data +
  stk_kv :: fdb_kv
  stk_sector :: kvdb_sec_info

definition on_flash :: "('s, 'a) state \<Rightarrow> ('s kvdb, 'a) state" where
  "on_flash m = State (\<lambda>k. let (a, e) = run_state m (kv_env k) in (a, k\<lparr>kv_env := e\<rparr>))"

definition align_down :: "u32 \<Rightarrow> u32 \<Rightarrow> u32" where
  "align_down a b = a div b * b"

subsection \<open>Sector cache\<close>

fun find_sector :: "nat \<Rightarrow> kvdb_sec_info list \<Rightarrow> u32 \<Rightarrow> nat option \<Rightarrow> nat option \<times> nat option" where
  "find_sector i [] addr empty_index = (None, empty_index)"
| "find_sector i (c # cs) addr empty_index =
     (if sec_addr c = addr then (Some i, empty_index)
      else find_sector (Suc i) cs addr (if sec_addr c = FDB_DATA_UNUSED then Some i else empty_index))"

definition update_sector_cache :: "kvdb_sec_info \<Rightarrow> ('s kvdb, unit) state" where
  "update_sector_cache sector = modify (\<lambda>k.
     let table = sector_cache_table k in
     case find_sector 0 table (sec_addr sector) None of
       (Some i, _) \<Rightarrow>
         if check_ok sector then k\<lparr>sector_cache_table := table[i := sector]\<rparr>
         else k\<lparr>sector_cache_table := table[i := (table ! i)\<lparr>sec_addr := FDB_DATA_UNUSED\<rparr>]\<rparr>
     | (None, Some i) \<Rightarrow> if check_ok sector then k\<lparr>sector_cache_table := table[i := sector]\<rparr> else k
     | (None, None) \<Rightarrow> k)"

definition get_sector_from_cache :: "'s kvdb \<Rightarrow> u32 \<Rightarrow> nat option" where
  "get_sector_from_cache k addr = fst (find_sector 0 (sector_cache_table k) addr None)"

definition with_cached_sector :: "u32 \<Rightarrow> (kvdb_sec_info \<Rightarrow> kvdb_sec_info) \<Rightarrow> ('s kvdb, unit) state" where
  "with_cached_sector addr f = modify (\<lambda>k. case get_sector_from_cache k addr of
       None \<Rightarrow> k
     | Some i \<Rightarrow> k\<lparr>sector_cache_table := (sector_cache_table k)[i := f (sector_cache_table k ! i)]\<rparr>)"

definition update_sector_empty_addr_cache :: "'s fdb_db \<Rightarrow> u32 \<Rightarrow> u32 \<Rightarrow> ('s kvdb, unit) state" where
  "update_sector_empty_addr_cache db addr empty_addr =
     with_cached_sector addr (\<lambda>c. c\<lparr>empty_kv := empty_addr, remain := db_sec_size db - (empty_addr - sec_addr c)\<rparr>)"

definition update_sector_status_store_cache :: "u32 \<Rightarrow> fdb_sector_store_status \<Rightarrow> ('s kvdb, unit) state" where
  "update_sector_status_store_cache addr st = with_cached_sector addr (\<lambda>c. c\<lparr>store_status := st\<rparr>)"

subsection \<open>Record cache\<close>

definition crc_of_name :: "u8 list \<Rightarrow> u16" where
  "crc_of_name name = ucast (drop_bit 16 (fdb_calc_crc32 0 name))"

text \<open>
  The loop of \<open>update_kv_cache\<close> on the rest of the table: the changed rest, whether an entry for the name was
  found, the first free index and that of the least active entry with its activity.
\<close>

fun update_kv_loop ::
  "u16 \<Rightarrow> u32 \<Rightarrow> nat \<Rightarrow> kv_cache_node list \<Rightarrow> nat option \<Rightarrow> nat option \<Rightarrow> u16 \<Rightarrow> kv_cache_node list \<times> bool \<times> nat option \<times> nat option" where
  "update_kv_loop crc addr i [] empty_index min_index min_activity = ([], False, empty_index, min_index)"
| "update_kv_loop crc addr i (c # cs) empty_index min_index min_activity =
     (if addr \<noteq> FDB_DATA_UNUSED then
        if name_crc c = crc then (c\<lparr>node_addr := addr\<rparr> # cs, True, empty_index, min_index)
        else if node_addr c = FDB_DATA_UNUSED \<and> empty_index = None then
          (let (cs, r) = update_kv_loop crc addr (Suc i) cs (Some i) min_index min_activity in (c # cs, r))
        else if node_addr c \<noteq> FDB_DATA_UNUSED then
          (let c = (if active c > 0 then c\<lparr>active := active c - 1\<rparr> else c);
               (cs, r) = (if active c < min_activity then update_kv_loop crc addr (Suc i) cs empty_index (Some i) (active c)
                          else update_kv_loop crc addr (Suc i) cs empty_index min_index min_activity)
           in (c # cs, r))
        else (let (cs, r) = update_kv_loop crc addr (Suc i) cs empty_index min_index min_activity in (c # cs, r))
      else if name_crc c = crc then (c\<lparr>node_addr := FDB_DATA_UNUSED, active := 0\<rparr> # cs, True, empty_index, min_index)
      else (let (cs, r) = update_kv_loop crc addr (Suc i) cs empty_index min_index min_activity in (c # cs, r)))"

definition cached_node :: "u16 \<Rightarrow> u32 \<Rightarrow> kv_cache_node" where
  "cached_node crc addr = \<lparr>name_crc = crc, active = of_nat FDB_KV_CACHE_TABLE_SIZE, node_addr = addr\<rparr>"

definition update_kv_cache :: "u8 list \<Rightarrow> u32 \<Rightarrow> ('s kvdb, unit) state" where
  "update_kv_cache name addr = modify (\<lambda>k.
     let crc = crc_of_name name;
         (table, found, empty_index, min_index) = update_kv_loop crc addr 0 (kv_cache_table k) None None 0xFFFF;
         table = (if found then table else case empty_index of
             Some i \<Rightarrow> table[i := cached_node crc addr]
           | None \<Rightarrow> (case min_index of Some i \<Rightarrow> table[i := cached_node crc addr] | None \<Rightarrow> table))
     in k\<lparr>kv_cache_table := table\<rparr>)"

definition more_active :: "kv_cache_node \<Rightarrow> kv_cache_node" where
  "more_active c = c\<lparr>active := if active c \<ge> 0xFFFF - of_nat FDB_KV_CACHE_TABLE_SIZE then 0xFFFF
     else active c + of_nat FDB_KV_CACHE_TABLE_SIZE\<rparr>"

text \<open>
  The search in the table from an index on. Names longer than the local buffer of 64 bytes are never
  equal to it here; the code reads past its end if the first 64 characters agree.
\<close>

fun search_kv_cache :: "'s fdb_db \<Rightarrow> u8 list \<Rightarrow> nat list \<Rightarrow> ('s kvdb, u32 option) state" where
  "search_kv_cache db name [] = ret None"
| "search_kv_cache db name (i # is) = do {
     k \<leftarrow> getst;
     let c = kv_cache_table k ! i;
     if node_addr c \<noteq> FDB_DATA_UNUSED \<and> name_crc c = crc_of_name name then do {
       (_, saved_name) \<leftarrow> on_flash (fdb_flash_read db (node_addr c + of_nat KV_HDR_DATA_SIZE) (replicate FDB_KV_NAME_MAX 0));
       if take (length name) saved_name = name then do {
         modify (\<lambda>k. k\<lparr>kv_cache_table := (kv_cache_table k)[i := more_active c]\<rparr>);
         ret (Some (node_addr c)) }
       else search_kv_cache db name is }
     else search_kv_cache db name is }"

definition get_kv_from_cache :: "'s fdb_db \<Rightarrow> u8 list \<Rightarrow> ('s kvdb, u32 option) state" where
  "get_kv_from_cache db name = search_kv_cache db name [0..<FDB_KV_CACHE_TABLE_SIZE]"

subsection \<open>Walking through the flash\<close>

text \<open>Four bytes of the buffer from an index on, as the code adds them up.\<close>

definition magic_at :: "u8 list \<Rightarrow> nat \<Rightarrow> u32" where
  "magic_at buf i = ucast (buf ! i) + push_bit 8 (ucast (buf ! (i + 1))) + push_bit 16 (ucast (buf ! (i + 2))) +
     push_bit 24 (ucast (buf ! (i + 3)))"

definition find_magic :: "u8 list \<Rightarrow> u32 \<Rightarrow> u32 \<Rightarrow> u32 \<Rightarrow> nat option" where
  "find_magic buf start start_bak fin =
     List.find (\<lambda>i. magic_at buf i = KV_MAGIC_WORD \<and> start + of_nat i - of_nat KV_MAGIC_OFFSET \<ge> start_bak)
       (takeWhile (\<lambda>i. start + of_nat i < fin) [0..<28])"

fun next_kv_loop :: "nat \<Rightarrow> 's fdb_db \<Rightarrow> u8 list \<Rightarrow> u32 \<Rightarrow> u32 \<Rightarrow> u32 \<Rightarrow> ('s, u32) state" where
  "next_kv_loop 0 db buf start start_bak fin = ret FAILED_ADDR"
| "next_kv_loop (Suc n) db buf start start_bak fin =
     (if start < fin \<and> start + 32 < fin then do {
        (r, buf) \<leftarrow> fdb_flash_read db start buf;
        if r \<noteq> FDB_NO_ERR then ret FAILED_ADDR
        else case find_magic buf start start_bak fin of
          Some i \<Rightarrow> ret (start + of_nat i - of_nat KV_MAGIC_OFFSET)
        | None \<Rightarrow> next_kv_loop n db buf (start + 28) start_bak fin }
      else ret FAILED_ADDR)"

definition find_next_kv_addr :: "'s fdb_db \<Rightarrow> kv_stack \<Rightarrow> u32 \<Rightarrow> u32 \<Rightarrow> ('s kvdb, u32) state" where
  "find_next_kv_addr db stk start fin = do {
     k \<leftarrow> getst;
     case get_sector_from_cache k (align_down start (db_sec_size db)) of
       Some i \<Rightarrow>
         if start = empty_kv (sector_cache_table k ! i) then ret FAILED_ADDR
         else on_flash (next_kv_loop (unat (fin - start) div 28 + 2) db (stk_buf stk) start start fin)
     | None \<Rightarrow> on_flash (next_kv_loop (unat (fin - start) div 28 + 2) db (stk_buf stk) start start fin) }"

definition get_next_kv_addr :: "'s fdb_db \<Rightarrow> kv_stack \<Rightarrow> kvdb_sec_info \<Rightarrow> fdb_kv \<Rightarrow> ('s kvdb, u32) state" where
  "get_next_kv_addr db stk sector pre_kv =
     (if store_status sector = FDB_SECTOR_STORE_EMPTY then ret FAILED_ADDR
      else if addr_start pre_kv = FAILED_ADDR then ret (sec_addr sector + SECTOR_HDR_DATA_SIZE)
      else if addr_start pre_kv \<le> sec_addr sector + db_sec_size db then do {
        let addr = (if crc_is_ok pre_kv then addr_start pre_kv + kv_len pre_kv else addr_start pre_kv + 1);
        addr \<leftarrow> find_next_kv_addr db stk addr (sec_addr sector + db_sec_size db - SECTOR_HDR_DATA_SIZE);
        if addr = FAILED_ADDR \<or> addr > sec_addr sector + db_sec_size db \<or> kv_len pre_kv = 0 then ret FAILED_ADDR
        else ret addr }
      else ret FAILED_ADDR)"

text \<open>The loop over the records of a sector that computes its free space; the third argument bounds the rounds.\<close>

fun measure_loop :: "'s fdb_db \<Rightarrow> kv_stack \<Rightarrow> nat \<Rightarrow> fdb_kv \<Rightarrow> kvdb_sec_info \<Rightarrow> ('s kvdb, fdb_err_t \<times> kvdb_sec_info) state" where
  "measure_loop db stk 0 kv_obj sector = ret (FDB_NO_ERR, sector)"
| "measure_loop db stk (Suc n) kv_obj sector = do {
     (_, kv_obj) \<leftarrow> on_flash (read_kv db stk kv_obj);
     if \<not> crc_is_ok kv_obj \<and> kv_status kv_obj \<noteq> FDB_KV_PRE_WRITE \<and> kv_status kv_obj \<noteq> FDB_KV_ERR_HDR then
       ret (FDB_READ_ERR, sector\<lparr>remain := 0\<rparr>)
     else do {
       let sector = sector\<lparr>empty_kv := empty_kv sector + kv_len kv_obj, remain := remain sector - kv_len kv_obj\<rparr>;
       addr \<leftarrow> get_next_kv_addr db stk sector kv_obj;
       if addr \<noteq> FAILED_ADDR then measure_loop db stk n (kv_obj\<lparr>addr_start := addr\<rparr>) sector
       else ret (FDB_NO_ERR, sector) } }"

definition measure_sector :: "'s fdb_db \<Rightarrow> kv_stack \<Rightarrow> kvdb_sec_info \<Rightarrow> ('s kvdb, fdb_err_t \<times> kvdb_sec_info) state" where
  "measure_sector db stk sector = do {
     let sector = sector\<lparr>remain := 0, empty_kv := sec_addr sector + SECTOR_HDR_DATA_SIZE\<rparr>;
     if store_status sector = FDB_SECTOR_STORE_EMPTY then
       ret (FDB_NO_ERR, sector\<lparr>remain := db_sec_size db - SECTOR_HDR_DATA_SIZE\<rparr>)
     else if store_status sector = FDB_SECTOR_STORE_USING then do {
       (result, sector) \<leftarrow> measure_loop db stk (unat (db_sec_size db)) ((stk_kv stk)\<lparr>addr_start := sec_addr sector + SECTOR_HDR_DATA_SIZE\<rparr>)
         (sector\<lparr>remain := db_sec_size db - SECTOR_HDR_DATA_SIZE\<rparr>);
       ff_addr \<leftarrow> on_flash (fdb_continue_ff_addr db (stk_buf stk) (empty_kv sector) (sec_addr sector + db_sec_size db));
       if empty_kv sector \<noteq> ff_addr then
         ret (result, sector\<lparr>empty_kv := ff_addr, remain := db_sec_size db - (ff_addr - sec_addr sector)\<rparr>)
       else ret (result, sector) }
     else ret (FDB_NO_ERR, sector) }"

text \<open>The part of \<open>read_sector_info\<close> that is run unless the cache has the sector.\<close>

definition read_sector_header :: "'s fdb_db \<Rightarrow> kv_stack \<Rightarrow> u32 \<Rightarrow> kvdb_sec_info \<Rightarrow> bool \<Rightarrow> ('s kvdb, fdb_err_t \<times> kvdb_sec_info) state" where
  "read_sector_header db stk addr sector traversal = do {
     (_, sec_hdr) \<leftarrow> on_flash (fdb_flash_read db addr (replicate 16 0));
     let hdr_combined = un_le32 (take 4 (drop 8 sec_hdr));
     let sector = sector\<lparr>store_status := FDB_SECTOR_STORE_UNUSED, dirty_status := FDB_SECTOR_DIRTY_UNUSED, sec_addr := addr,
       sec_magic := un_le32 (take 4 (drop 4 sec_hdr))\<rparr>;
     if sec_magic sector \<noteq> SECTOR_MAGIC_WORD \<or> hdr_combined \<noteq> SECTOR_NOT_COMBINED \<and> hdr_combined \<noteq> SECTOR_COMBINED then
       ret (FDB_INIT_FAILED, sector\<lparr>check_ok := False, combined := SECTOR_NOT_COMBINED\<rparr>)
     else do {
       let sector = sector\<lparr>check_ok := True, combined := hdr_combined,
         store_status := store_of (fdb_get_status [sec_hdr ! 0] FDB_SECTOR_STATUS_NUM),
         dirty_status := dirty_of (fdb_get_status [sec_hdr ! 1] FDB_SECTOR_STATUS_NUM)\<rparr>;
       if traversal then do {
         (result, sector) \<leftarrow> measure_sector db stk sector;
         update_sector_cache sector;
         ret (result, sector) }
       else do {
         k \<leftarrow> getst;
         if get_sector_from_cache k (sec_addr sector) = None then do {
           let sector = sector\<lparr>empty_kv := FAILED_ADDR, remain := 0\<rparr>;
           update_sector_cache sector;
           ret (FDB_NO_ERR, sector) }
         else ret (FDB_NO_ERR, sector) } } }"

definition read_sector_info :: "'s fdb_db \<Rightarrow> kv_stack \<Rightarrow> u32 \<Rightarrow> kvdb_sec_info \<Rightarrow> bool \<Rightarrow> ('s kvdb, fdb_err_t \<times> kvdb_sec_info) state" where
  "read_sector_info db stk addr sector traversal = do {
     k \<leftarrow> getst;
     let cached = get_sector_from_cache k addr;
     case cached of
       Some i \<Rightarrow>
         if \<not> traversal \<or> empty_kv (sector_cache_table k ! i) \<noteq> FAILED_ADDR then ret (FDB_NO_ERR, sector_cache_table k ! i)
         else read_sector_header db stk addr sector traversal
     | None \<Rightarrow> read_sector_header db stk addr sector traversal }"

definition get_next_sector_addr :: "'s fdb_db \<Rightarrow> kvdb_sec_info \<Rightarrow> u32 \<Rightarrow> u32" where
  "get_next_sector_addr db pre_sec traversed_len =
     (let cur_block_size = (if combined pre_sec = SECTOR_NOT_COMBINED then db_sec_size db else combined pre_sec * db_sec_size db) in
      if traversed_len + cur_block_size \<le> db_max_size db then
        if sec_addr pre_sec + cur_block_size < db_max_size db then sec_addr pre_sec + cur_block_size else 0
      else FAILED_ADDR)"

text \<open>The records of a sector, until the callback returns true; the argument \<open>acc\<close> is what the callback works on.\<close>

fun kv_loop ::
  "'s fdb_db \<Rightarrow> kv_stack \<Rightarrow> kvdb_sec_info \<Rightarrow> (fdb_kv \<Rightarrow> 'a \<Rightarrow> ('s kvdb, bool \<times> 'a) state) \<Rightarrow> nat \<Rightarrow> fdb_kv \<Rightarrow> 'a \<Rightarrow>
    ('s kvdb, bool \<times> fdb_kv \<times> 'a) state" where
  "kv_loop db stk sector callback 0 kv acc = ret (False, kv, acc)"
| "kv_loop db stk sector callback (Suc n) kv acc = do {
     (_, kv) \<leftarrow> on_flash (read_kv db stk kv);
     (stop, acc) \<leftarrow> callback kv acc;
     if stop then ret (True, kv, acc)
     else do {
       addr \<leftarrow> get_next_kv_addr db stk sector kv;
       let kv = kv\<lparr>addr_start := addr\<rparr>;
       if addr \<noteq> FAILED_ADDR then kv_loop db stk sector callback n kv acc else ret (False, kv, acc) } }"

definition kv_in_sector ::
  "'s fdb_db \<Rightarrow> kv_stack \<Rightarrow> kvdb_sec_info \<Rightarrow> (fdb_kv \<Rightarrow> 'a \<Rightarrow> ('s kvdb, bool \<times> 'a) state) \<Rightarrow> fdb_kv \<Rightarrow> 'a \<Rightarrow>
    ('s kvdb, bool \<times> fdb_kv \<times> 'a) state" where
  "kv_in_sector db stk sector callback kv acc =
     (if store_status sector = FDB_SECTOR_STORE_USING \<or> store_status sector = FDB_SECTOR_STORE_FULL then
        kv_loop db stk sector callback (unat (db_sec_size db)) (kv\<lparr>addr_start := sec_addr sector + SECTOR_HDR_DATA_SIZE\<rparr>) acc
      else ret (False, kv, acc))"

fun kv_iterator_loop ::
  "nat \<Rightarrow> 's fdb_db \<Rightarrow> kv_stack \<Rightarrow> (fdb_kv \<Rightarrow> 'a \<Rightarrow> ('s kvdb, bool \<times> 'a) state) \<Rightarrow> u32 \<Rightarrow> u32 \<Rightarrow> kvdb_sec_info \<Rightarrow> fdb_kv \<Rightarrow> 'a \<Rightarrow>
    ('s kvdb, fdb_kv \<times> 'a) state" where
  "kv_iterator_loop 0 db stk callback addr traversed_len sector kv acc = ret (kv, acc)"
| "kv_iterator_loop (Suc n) db stk callback addr traversed_len sector kv acc = do {
     let traversed_len = traversed_len + db_sec_size db;
     (r, sector) \<leftarrow> read_sector_info db stk addr sector False;
     (stop, kv, acc) \<leftarrow> (if r \<noteq> FDB_NO_ERR then ret (False, kv, acc) else kv_in_sector db stk sector callback kv acc);
     let addr = get_next_sector_addr db sector traversed_len;
     if stop \<or> addr = FAILED_ADDR then ret (kv, acc)
     else kv_iterator_loop n db stk callback addr traversed_len sector kv acc }"

definition sector_num :: "'s fdb_db \<Rightarrow> nat" where
  "sector_num db = unat (db_max_size db div db_sec_size db)"

definition kv_iterator ::
  "'s fdb_db \<Rightarrow> kv_stack \<Rightarrow> fdb_kv \<Rightarrow> (fdb_kv \<Rightarrow> 'a \<Rightarrow> ('s kvdb, bool \<times> 'a) state) \<Rightarrow> 'a \<Rightarrow> ('s kvdb, fdb_kv \<times> 'a) state" where
  "kv_iterator db stk kv callback acc = do {
     k \<leftarrow> getst;
     kv_iterator_loop (sector_num db + 1) db stk callback (oldest_addr k) 0 (stk_sector stk) kv acc }"

subsection \<open>Finding and reading\<close>

text \<open>\<open>strncmp(kv->name, key, key_len)\<close>; the name buffer ends with a zero.\<close>

definition find_kv_cb :: "u8 list \<Rightarrow> fdb_kv \<Rightarrow> bool \<Rightarrow> ('s kvdb, bool \<times> bool) state" where
  "find_kv_cb key kv find_ok =
     (if length key \<noteq> unat (kv_name_len kv) then ret (False, find_ok)
      else if crc_is_ok kv \<and> kv_status kv = FDB_KV_WRITE \<and> take (length key) (kv_name kv) = key then ret (True, True)
      else ret (False, find_ok))"

definition find_kv_no_cache :: "'s fdb_db \<Rightarrow> kv_stack \<Rightarrow> u8 list \<Rightarrow> fdb_kv \<Rightarrow> ('s kvdb, bool \<times> fdb_kv) state" where
  "find_kv_no_cache db stk key kv = do {
     (kv, find_ok) \<leftarrow> kv_iterator db stk kv (find_kv_cb key) False;
     ret (find_ok, kv) }"

definition find_kv :: "'s fdb_db \<Rightarrow> kv_stack \<Rightarrow> u8 list \<Rightarrow> fdb_kv \<Rightarrow> ('s kvdb, bool \<times> fdb_kv) state" where
  "find_kv db stk key kv = do {
     hit \<leftarrow> get_kv_from_cache db key;
     case hit of
       Some addr \<Rightarrow> do {
         (_, kv) \<leftarrow> on_flash (read_kv db stk (kv\<lparr>addr_start := addr\<rparr>));
         ret (True, kv) }
     | None \<Rightarrow> do {
         (find_ok, kv) \<leftarrow> find_kv_no_cache db stk key kv;
         if find_ok then do { update_kv_cache key (addr_start kv); ret (True, kv) }
         else ret (False, kv) } }"

text \<open>The result: the bytes read into the buffer, their number and the length of the value.\<close>

definition get_kv :: "'s fdb_db \<Rightarrow> kv_stack \<Rightarrow> u8 list \<Rightarrow> u8 list \<Rightarrow> ('s kvdb, nat \<times> u8 list \<times> nat) state" where
  "get_kv db stk key value_buf = do {
     (found, kv) \<leftarrow> find_kv db stk key (stk_kv stk);
     if found then do {
       let read_len = (if length value_buf > unat (kv_value_len kv) then unat (kv_value_len kv) else length value_buf);
       (_, bs) \<leftarrow> on_flash (fdb_flash_read db (addr_value kv) (take read_len value_buf));
       ret (read_len, mem_write 0 bs value_buf, unat (kv_value_len kv)) }
     else ret (0, value_buf, 0) }"

definition fdb_kv_get_blob :: "'s fdb_db \<Rightarrow> kv_stack \<Rightarrow> u8 list \<Rightarrow> u8 list \<Rightarrow> nat \<Rightarrow> ('s kvdb, nat \<times> u8 list \<times> nat) state" where
  "fdb_kv_get_blob db stk key buf saved_len = do {
     k \<leftarrow> getst;
     if \<not> db_init_ok k then ret (0, buf, saved_len) else get_kv db stk key buf }"

definition fdb_kv_get_obj :: "'s fdb_db \<Rightarrow> kv_stack \<Rightarrow> u8 list \<Rightarrow> fdb_kv \<Rightarrow> ('s kvdb, bool \<times> fdb_kv) state" where
  "fdb_kv_get_obj db stk key kv = do {
     k \<leftarrow> getst;
     if \<not> db_init_ok k then ret (False, kv) else find_kv db stk key kv }"

definition FDB_STR_KV_VALUE_MAX_SIZE :: nat where
  "FDB_STR_KV_VALUE_MAX_SIZE = 128"

definition fdb_is_str :: "u8 list \<Rightarrow> bool" where
  "fdb_is_str val \<longleftrightarrow> list_all (\<lambda>ch. 32 \<le> unat ch \<and> unat ch < 127) val"

text \<open>The static buffer \<open>value\<close> has 129 bytes; the result is the string or a null pointer, and the buffer.\<close>

definition fdb_kv_get :: "'s fdb_db \<Rightarrow> kv_stack \<Rightarrow> u8 list \<Rightarrow> u8 list \<Rightarrow> nat \<Rightarrow> ('s kvdb, u8 list option \<times> u8 list) state" where
  "fdb_kv_get db stk key val saved_len = do {
     (get_size, bs, _) \<leftarrow> fdb_kv_get_blob db stk key (take FDB_STR_KV_VALUE_MAX_SIZE val) saved_len;
     let val = mem_write 0 bs val;
     if get_size > 0 \<and> fdb_is_str (take get_size val) then
       ret (Some (take get_size val), val[get_size := 0])
     else ret (None, val) }"

subsection \<open>Iteration and check\<close>

record fdb_kv_iterator =
  curr_kv :: fdb_kv
  iterated_cnt :: u32
  iterated_obj_bytes :: u32
  iterated_value_bytes :: u32
  sector_addr :: u32
  itr_traversed_len :: u32

definition fdb_kv_iterator_init :: "'s kvdb \<Rightarrow> fdb_kv_iterator \<Rightarrow> fdb_kv_iterator" where
  "fdb_kv_iterator_init k itr = itr\<lparr>curr_kv := (curr_kv itr)\<lparr>addr_start := 0\<rparr>, iterated_cnt := 0, iterated_obj_bytes := 0,
     iterated_value_bytes := 0, itr_traversed_len := 0, sector_addr := oldest_addr k\<rparr>"

definition count_kv :: "fdb_kv \<Rightarrow> fdb_kv_iterator \<Rightarrow> fdb_kv_iterator" where
  "count_kv kv itr = itr\<lparr>curr_kv := kv, iterated_cnt := iterated_cnt itr + 1,
     iterated_obj_bytes := iterated_obj_bytes itr + kv_len kv, iterated_value_bytes := iterated_value_bytes itr + kv_value_len kv\<rparr>"

definition valid_kv_cb :: "fdb_kv \<Rightarrow> unit \<Rightarrow> ('s kvdb, bool \<times> unit) state" where
  "valid_kv_cb kv acc = ret (kv_status kv = FDB_KV_WRITE \<and> crc_is_ok kv, ())"

definition iterate_sector :: "'s fdb_db \<Rightarrow> kv_stack \<Rightarrow> kvdb_sec_info \<Rightarrow> fdb_kv \<Rightarrow> ('s kvdb, bool \<times> fdb_kv) state" where
  "iterate_sector db stk sector kv = do {
     addr \<leftarrow> (if addr_start kv = 0 then ret (sec_addr sector + SECTOR_HDR_DATA_SIZE) else get_next_kv_addr db stk sector kv);
     if addr = FAILED_ADDR then ret (False, kv)
     else do {
       (found, kv, _) \<leftarrow> kv_loop db stk sector valid_kv_cb (unat (db_sec_size db)) (kv\<lparr>addr_start := addr\<rparr>) ();
       ret (found, kv) } }"

fun kv_iterate_loop :: "nat \<Rightarrow> 's fdb_db \<Rightarrow> kv_stack \<Rightarrow> kvdb_sec_info \<Rightarrow> fdb_kv_iterator \<Rightarrow> ('s kvdb, bool \<times> fdb_kv_iterator) state" where
  "kv_iterate_loop 0 db stk sector itr = ret (False, itr)"
| "kv_iterate_loop (Suc n) db stk sector itr = do {
     (r, sector) \<leftarrow> read_sector_info db stk (sector_addr itr) sector False;
     (found, kv) \<leftarrow>
       (if r = FDB_NO_ERR \<and> (store_status sector = FDB_SECTOR_STORE_USING \<or> store_status sector = FDB_SECTOR_STORE_FULL)
        then iterate_sector db stk sector (curr_kv itr) else ret (False, curr_kv itr));
     if found then ret (True, count_kv kv itr)
     else do {
       let itr = itr\<lparr>curr_kv := kv\<lparr>addr_start := 0\<rparr>, itr_traversed_len := itr_traversed_len itr + db_sec_size db\<rparr>;
       let itr = itr\<lparr>sector_addr := get_next_sector_addr db sector (itr_traversed_len itr)\<rparr>;
       if sector_addr itr \<noteq> FAILED_ADDR then kv_iterate_loop n db stk sector itr else ret (False, itr) } }"

definition fdb_kv_iterate :: "'s fdb_db \<Rightarrow> kv_stack \<Rightarrow> fdb_kv_iterator \<Rightarrow> ('s kvdb, bool \<times> fdb_kv_iterator) state" where
  "fdb_kv_iterate db stk itr = kv_iterate_loop (sector_num db + 1) db stk (stk_sector stk) itr"

text \<open>The next address is computed before the result is tested.\<close>

fun check_kv_loop :: "'s fdb_db \<Rightarrow> kv_stack \<Rightarrow> kvdb_sec_info \<Rightarrow> nat \<Rightarrow> fdb_kv \<Rightarrow> ('s kvdb, fdb_err_t \<times> fdb_kv) state" where
  "check_kv_loop db stk sector 0 kv = ret (FDB_NO_ERR, kv)"
| "check_kv_loop db stk sector (Suc n) kv = do {
     (result, kv) \<leftarrow> on_flash (read_kv db stk kv);
     addr \<leftarrow> get_next_kv_addr db stk sector kv;
     let kv = kv\<lparr>addr_start := addr\<rparr>;
     if addr \<noteq> FAILED_ADDR \<and> result = FDB_NO_ERR then check_kv_loop db stk sector n kv else ret (result, kv) }"

fun check_loop :: "nat \<Rightarrow> 's fdb_db \<Rightarrow> kv_stack \<Rightarrow> u32 \<Rightarrow> u32 \<Rightarrow> kvdb_sec_info \<Rightarrow> fdb_kv \<Rightarrow> ('s kvdb, fdb_err_t) state" where
  "check_loop 0 db stk addr traversed_len sector kv = ret FDB_NO_ERR"
| "check_loop (Suc n) db stk addr traversed_len sector kv = do {
     let traversed_len = traversed_len + db_sec_size db;
     (result, sector) \<leftarrow> read_sector_info db stk addr sector False;
     (result, kv) \<leftarrow>
       (if result = FDB_NO_ERR \<and> (store_status sector = FDB_SECTOR_STORE_USING \<or> store_status sector = FDB_SECTOR_STORE_FULL)
        then check_kv_loop db stk sector (unat (db_sec_size db)) (kv\<lparr>addr_start := sec_addr sector + SECTOR_HDR_DATA_SIZE\<rparr>)
        else ret (result, kv));
     let addr = get_next_sector_addr db sector traversed_len;
     if addr \<noteq> FAILED_ADDR \<and> result = FDB_NO_ERR then check_loop n db stk addr traversed_len sector kv else ret result }"

definition fdb_kvdb_check :: "'s fdb_db \<Rightarrow> kv_stack \<Rightarrow> ('s kvdb, fdb_err_t) state" where
  "fdb_kvdb_check db stk = do {
     k \<leftarrow> getst;
     if \<not> db_init_ok k then ret FDB_INIT_FAILED
     else check_loop (sector_num db + 1) db stk (oldest_addr k) 0 (stk_sector stk) (stk_kv stk) }"

end
