(* ===== verification/Fdb_Set.thy ===== *)
theory Fdb_Set
  imports Fdb_Kv
begin

text \<open>
  The part of \<^verbatim>\<open>src/flashdb/src/fdb_kvdb.c\<close> that changes the store: formatting, allocation, deletion, garbage
  collection and creating records.
\<close>

subsection \<open>Sectors\<close>

definition sector_hdr_bytes :: "u32 \<Rightarrow> u8 list" where
  "sector_hdr_bytes combined_value =
     fst (fdb_set_status FDB_SECTOR_STATUS_NUM (store_code FDB_SECTOR_STORE_EMPTY)) @
     fst (fdb_set_status FDB_SECTOR_STATUS_NUM (dirty_code FDB_SECTOR_DIRTY_FALSE)) @ replicate 2 FDB_BYTE_ERASED @
     le32 SECTOR_MAGIC_WORD @ le32 combined_value @ le32 FDB_DATA_UNUSED"

definition format_sector :: "'s fdb_db \<Rightarrow> u32 \<Rightarrow> u32 \<Rightarrow> ('s kvdb, fdb_err_t) state" where
  "format_sector db addr combined_value = do {
     result \<leftarrow> on_flash (fdb_flash_erase db addr (db_sec_size db));
     if result = FDB_NO_ERR then do {
       result \<leftarrow> on_flash (fdb_flash_write db addr (sector_hdr_bytes combined_value));
       update_sector_cache (zero_sector\<lparr>sec_addr := addr, empty_kv := FAILED_ADDR\<rparr>);
       ret result }
     else ret result }"

definition update_sec_status :: "'s fdb_db \<Rightarrow> kvdb_sec_info \<Rightarrow> u32 \<Rightarrow> bool \<Rightarrow> ('s kvdb, fdb_err_t \<times> bool) state" where
  "update_sec_status db sector new_kv_len is_full =
     (if store_status sector = FDB_SECTOR_STORE_EMPTY then do {
        result \<leftarrow> on_flash (fdb_write_status db (sec_addr sector) FDB_SECTOR_STATUS_NUM (store_code FDB_SECTOR_STORE_USING));
        update_sector_status_store_cache (sec_addr sector) FDB_SECTOR_STORE_USING;
        ret (result, is_full) }
      else if store_status sector = FDB_SECTOR_STORE_USING then
        if remain sector < FDB_SEC_REMAIN_THRESHOLD \<or> remain sector - new_kv_len < FDB_SEC_REMAIN_THRESHOLD then do {
          result \<leftarrow> on_flash (fdb_write_status db (sec_addr sector) FDB_SECTOR_STATUS_NUM (store_code FDB_SECTOR_STORE_FULL));
          update_sector_status_store_cache (sec_addr sector) FDB_SECTOR_STORE_FULL;
          ret (result, True) }
        else ret (FDB_NO_ERR, False)
      else ret (FDB_NO_ERR, is_full))"

fun sector_iterator_loop ::
  "nat \<Rightarrow> 's fdb_db \<Rightarrow> kv_stack \<Rightarrow> fdb_sector_store_status \<Rightarrow> (kvdb_sec_info \<Rightarrow> 'a \<Rightarrow> ('s kvdb, bool \<times> 'a) state) \<Rightarrow> bool \<Rightarrow>
    u32 \<Rightarrow> u32 \<Rightarrow> kvdb_sec_info \<Rightarrow> 'a \<Rightarrow> ('s kvdb, kvdb_sec_info \<times> 'a) state" where
  "sector_iterator_loop 0 db stk status callback traversal_kv addr traversed_len sector acc = ret (sector, acc)"
| "sector_iterator_loop (Suc n) db stk status callback traversal_kv addr traversed_len sector acc = do {
     let traversed_len = traversed_len + db_sec_size db;
     (_, sector) \<leftarrow> read_sector_info db stk addr sector False;
     (stop, sector, acc) \<leftarrow>
       (if status = FDB_SECTOR_STORE_UNUSED \<or> status = store_status sector then do {
          sector \<leftarrow> (if traversal_kv then do { (_, sector) \<leftarrow> read_sector_info db stk addr sector True; ret sector } else ret sector);
          (stop, acc) \<leftarrow> callback sector acc;
          ret (stop, sector, acc) }
        else ret (False, sector, acc));
     let addr = get_next_sector_addr db sector traversed_len;
     if stop \<or> addr = FAILED_ADDR then ret (sector, acc)
     else sector_iterator_loop n db stk status callback traversal_kv addr traversed_len sector acc }"

definition sector_iterator ::
  "'s fdb_db \<Rightarrow> kv_stack \<Rightarrow> kvdb_sec_info \<Rightarrow> fdb_sector_store_status \<Rightarrow> (kvdb_sec_info \<Rightarrow> 'a \<Rightarrow> ('s kvdb, bool \<times> 'a) state) \<Rightarrow> bool \<Rightarrow> 'a \<Rightarrow>
    ('s kvdb, kvdb_sec_info \<times> 'a) state" where
  "sector_iterator db stk sector status callback traversal_kv acc = do {
     k \<leftarrow> getst;
     sector_iterator_loop (sector_num db + 1) db stk status callback traversal_kv (oldest_addr k) 0 sector acc }"

subsection \<open>Allocation\<close>

definition sector_statistics_cb :: "kvdb_sec_info \<Rightarrow> nat \<times> nat \<Rightarrow> ('s kvdb, bool \<times> nat \<times> nat) state" where
  "sector_statistics_cb sector acc = (case acc of (empty_sector, using_sector) \<Rightarrow>
     if check_ok sector \<and> store_status sector = FDB_SECTOR_STORE_EMPTY then ret (False, empty_sector + 1, using_sector)
     else if check_ok sector \<and> store_status sector = FDB_SECTOR_STORE_USING then ret (False, empty_sector, using_sector + 1)
     else ret (False, empty_sector, using_sector))"

definition alloc_kv_cb :: "u32 \<Rightarrow> kvdb_sec_info \<Rightarrow> u32 \<Rightarrow> ('s kvdb, bool \<times> u32) state" where
  "alloc_kv_cb kv_size sector found = do {
     k \<leftarrow> getst;
     if check_ok sector \<and> remain sector > kv_size + FDB_SEC_REMAIN_THRESHOLD \<and>
        (dirty_status sector = FDB_SECTOR_DIRTY_FALSE \<or> dirty_status sector = FDB_SECTOR_DIRTY_TRUE \<and> \<not> gc_request k) then
       ret (True, empty_kv sector)
     else ret (False, found) }"

definition alloc_kv :: "'s fdb_db \<Rightarrow> kv_stack \<Rightarrow> kvdb_sec_info \<Rightarrow> u32 \<Rightarrow> ('s kvdb, u32 \<times> kvdb_sec_info) state" where
  "alloc_kv db stk sector kv_size = do {
     (sector, empty_sector, using_sector) \<leftarrow> sector_iterator db stk sector FDB_SECTOR_STORE_UNUSED sector_statistics_cb False (0, 0);
     (sector, addr) \<leftarrow>
       (if using_sector > 0 then sector_iterator db stk sector FDB_SECTOR_STORE_USING (alloc_kv_cb kv_size) True FAILED_ADDR
        else ret (sector, FAILED_ADDR));
     k \<leftarrow> getst;
     if empty_sector > 0 \<and> addr = FAILED_ADDR then
       if empty_sector > FDB_GC_EMPTY_SEC_THRESHOLD \<or> gc_request k then do {
         (sector, addr) \<leftarrow> sector_iterator db stk sector FDB_SECTOR_STORE_EMPTY (alloc_kv_cb kv_size) True addr;
         ret (addr, sector) }
       else do { modify (\<lambda>k. k\<lparr>gc_request := True\<rparr>); ret (addr, sector) }
     else ret (addr, sector) }"

subsection \<open>Deletion\<close>

text \<open>The record to delete is given or searched by its key; a key is \<open>None\<close> when a record is moved.\<close>

definition mark_dirty :: "'s fdb_db \<Rightarrow> u8 list \<Rightarrow> u32 \<Rightarrow> ('s kvdb, fdb_err_t) state" where
  "mark_dirty db status_table start = do {
     let dirty_status_addr = align_down start (db_sec_size db) + SECTOR_DIRTY_OFFSET;
     (st, _) \<leftarrow> on_flash (fdb_read_status db dirty_status_addr status_table FDB_SECTOR_STATUS_NUM);
     if dirty_of st = FDB_SECTOR_DIRTY_FALSE then do {
       result \<leftarrow> on_flash (fdb_write_status db dirty_status_addr FDB_SECTOR_STATUS_NUM (dirty_code FDB_SECTOR_DIRTY_TRUE));
       with_cached_sector (align_down start (db_sec_size db)) (\<lambda>c. c\<lparr>dirty_status := FDB_SECTOR_DIRTY_TRUE\<rparr>);
       ret result }
     else ret FDB_NO_ERR }"

definition del_found :: "'s fdb_db \<Rightarrow> u8 list option \<Rightarrow> fdb_kv \<Rightarrow> bool \<Rightarrow> ('s kvdb, fdb_err_t) state" where
  "del_found db key old_kv complete_del =
     (if \<not> complete_del then do {
        result \<leftarrow> on_flash (fdb_write_status db (addr_start old_kv) FDB_KV_STATUS_NUM (kv_code FDB_KV_PRE_DELETE));
        modify (\<lambda>k. k\<lparr>last_is_complete_del := True\<rparr>);
        if result = FDB_NO_ERR then mark_dirty db (fst (fdb_set_status FDB_KV_STATUS_NUM (kv_code FDB_KV_PRE_DELETE))) (addr_start old_kv)
        else ret result }
      else do {
        result \<leftarrow> on_flash (fdb_write_status db (addr_start old_kv) FDB_KV_STATUS_NUM (kv_code FDB_KV_DELETED));
        k \<leftarrow> getst;
        (if \<not> last_is_complete_del k \<and> result = FDB_NO_ERR then
           (case key of
              Some name \<Rightarrow> update_kv_cache name FDB_DATA_UNUSED
            | None \<Rightarrow> update_kv_cache (take (unat (kv_name_len old_kv)) (kv_name old_kv)) FDB_DATA_UNUSED)
         else ret ());
        modify (\<lambda>k. k\<lparr>last_is_complete_del := False\<rparr>);
        if result = FDB_NO_ERR then mark_dirty db (fst (fdb_set_status FDB_KV_STATUS_NUM (kv_code FDB_KV_DELETED))) (addr_start old_kv)
        else ret result })"

text \<open>The local record of \<open>del_kv\<close> starts zeroed.\<close>

definition zero_kv :: fdb_kv where
  "zero_kv = \<lparr>kv_status = FDB_KV_UNUSED, crc_is_ok = False, kv_name_len = 0, kv_len = 0, kv_value_len = 0,
     kv_name = replicate FDB_KV_NAME_MAX 0, addr_start = 0, addr_value = 0, name_overrun = False\<rparr>"

definition del_kv :: "'s fdb_db \<Rightarrow> kv_stack \<Rightarrow> u8 list option \<Rightarrow> fdb_kv option \<Rightarrow> bool \<Rightarrow> ('s kvdb, fdb_err_t) state" where
  "del_kv db stk key old_kv complete_del =
     (case old_kv of
        Some kv \<Rightarrow> del_found db key kv complete_del
      | None \<Rightarrow> do {
          (found, kv) \<leftarrow> find_kv db stk (the key) zero_kv;
          if found then del_found db key kv complete_del else ret FDB_KV_NAME_ERR })"

subsection \<open>Garbage collection\<close>

text \<open>The copy of a record behind its status, in blocks of 32 bytes; the result is that of the last write.\<close>

fun move_loop :: "nat \<Rightarrow> 's fdb_db \<Rightarrow> u32 \<Rightarrow> u32 \<Rightarrow> u32 \<Rightarrow> u32 \<Rightarrow> u8 list \<Rightarrow> fdb_err_t \<Rightarrow> ('s, fdb_err_t) state" where
  "move_loop 0 db src dst len kv_size buf result = ret result"
| "move_loop (Suc n) db src dst len kv_size buf result =
     (if len < kv_size then do {
        let sz = (if len + 32 < kv_size then 32 else unat (kv_size - len));
        (_, bs) \<leftarrow> fdb_flash_read db (src + of_nat KV_MAGIC_OFFSET + len) (take sz buf);
        let buf = mem_write 0 bs buf;
        result \<leftarrow> fdb_flash_write db (dst + of_nat KV_MAGIC_OFFSET + len) (take sz buf);
        move_loop n db src dst (len + of_nat sz) kv_size buf result }
      else ret result)"

definition move_data :: "'s fdb_db \<Rightarrow> kv_stack \<Rightarrow> fdb_kv \<Rightarrow> u32 \<Rightarrow> kvdb_sec_info \<Rightarrow> ('s kvdb, fdb_err_t) state" where
  "move_data db stk kv kv_addr sector = do {
     _ \<leftarrow> update_sec_status db sector (kv_len kv) False;
     _ \<leftarrow> on_flash (fdb_write_status db kv_addr FDB_KV_STATUS_NUM (kv_code FDB_KV_PRE_WRITE));
     let kv_size = kv_len kv - of_nat KV_MAGIC_OFFSET;
     result \<leftarrow> on_flash (move_loop (unat kv_size div 32 + 2) db (addr_start kv) kv_addr 0 kv_size (stk_buf stk) FDB_NO_ERR);
     _ \<leftarrow> on_flash (fdb_write_status db kv_addr FDB_KV_STATUS_NUM (kv_code FDB_KV_WRITE));
     update_sector_empty_addr_cache db (align_down kv_addr (db_sec_size db))
       (kv_addr + of_nat KV_HDR_DATA_SIZE + ucast (kv_name_len kv) + kv_value_len kv);
     update_kv_cache (take (unat (kv_name_len kv)) (kv_name kv)) kv_addr;
     ret result }"

definition move_kv :: "'s fdb_db \<Rightarrow> kv_stack \<Rightarrow> fdb_kv \<Rightarrow> ('s kvdb, fdb_err_t) state" where
  "move_kv db stk kv = do {
     (if kv_status kv = FDB_KV_WRITE then do { _ \<leftarrow> del_kv db stk None (Some kv) False; ret () } else ret ());
     (kv_addr, sector) \<leftarrow> alloc_kv db stk (stk_sector stk) (kv_len kv);
     if kv_addr = FAILED_ADDR then ret FDB_SAVED_FULL
     else do {
       k \<leftarrow> getst;
       already \<leftarrow> (if in_recovery_check k \<and> kv_status kv = FDB_KV_PRE_DELETE then do {
           (found, _) \<leftarrow> find_kv_no_cache db stk (takeWhile (\<lambda>b. b \<noteq> 0) (take (unat (kv_name_len kv)) (kv_name kv))) (stk_kv stk);
           ret found }
         else ret False);
       result \<leftarrow> (if already then ret FDB_NO_ERR else move_data db stk kv kv_addr sector);
       _ \<leftarrow> del_kv db stk None (Some kv) True;
       ret result } }"

text \<open>The records of a sector that are still needed are moved away.\<close>

definition gc_kv_cb :: "'s fdb_db \<Rightarrow> kv_stack \<Rightarrow> fdb_kv \<Rightarrow> unit \<Rightarrow> ('s kvdb, bool \<times> unit) state" where
  "gc_kv_cb db stk kv acc =
     (if crc_is_ok kv \<and> (kv_status kv = FDB_KV_WRITE \<or> kv_status kv = FDB_KV_PRE_DELETE) then do {
        _ \<leftarrow> move_kv db stk kv;
        ret (False, ()) }
      else ret (False, ()))"

definition do_gc :: "'s fdb_db \<Rightarrow> kv_stack \<Rightarrow> u32 \<Rightarrow> kvdb_sec_info \<Rightarrow> u32 \<Rightarrow> ('s kvdb, bool \<times> u32) state" where
  "do_gc db stk setting_free_size sector last_gc_sec_addr =
     (if check_ok sector \<and> (dirty_status sector = FDB_SECTOR_DIRTY_TRUE \<or> dirty_status sector = FDB_SECTOR_DIRTY_GC) then do {
        _ \<leftarrow> on_flash (fdb_write_status db (sec_addr sector + SECTOR_DIRTY_OFFSET) FDB_SECTOR_STATUS_NUM (dirty_code FDB_SECTOR_DIRTY_GC));
        _ \<leftarrow> kv_loop db stk sector (gc_kv_cb db stk) (unat (db_sec_size db))
          ((stk_kv stk)\<lparr>addr_start := sec_addr sector + SECTOR_HDR_DATA_SIZE\<rparr>) ();
        _ \<leftarrow> format_sector db (sec_addr sector) SECTOR_NOT_COMBINED;
        modify (\<lambda>k. k\<lparr>oldest_addr := get_next_sector_addr db sector 0\<rparr>);
        (r, last_gc_sector) \<leftarrow> read_sector_info db stk last_gc_sec_addr (stk_sector stk) True;
        ret (r = FDB_NO_ERR \<and> remain last_gc_sector > setting_free_size, sec_addr sector) }
      else ret (False, last_gc_sec_addr))"

definition gc_check_cb :: "kvdb_sec_info \<Rightarrow> nat \<times> u32 \<Rightarrow> ('s kvdb, bool \<times> nat \<times> u32) state" where
  "gc_check_cb sector acc = (case acc of (empty_sec_num, empty_sec_addr) \<Rightarrow>
     if check_ok sector then ret (False, empty_sec_num + 1, sec_addr sector) else ret (False, empty_sec_num, empty_sec_addr))"

definition gc_collect_by_free_size :: "'s fdb_db \<Rightarrow> kv_stack \<Rightarrow> u32 \<Rightarrow> ('s kvdb, unit) state" where
  "gc_collect_by_free_size db stk free_size = do {
     (sector, empty_sec_num, empty_sec_addr) \<leftarrow> sector_iterator db stk (stk_sector stk) FDB_SECTOR_STORE_EMPTY gc_check_cb False (0, 0);
     (if empty_sec_num \<le> FDB_GC_EMPTY_SEC_THRESHOLD then do {
        _ \<leftarrow> sector_iterator db stk sector FDB_SECTOR_STORE_UNUSED (do_gc db stk free_size) False empty_sec_addr;
        ret () }
      else ret ());
     modify (\<lambda>k. k\<lparr>gc_request := False\<rparr>) }"

definition gc_collect :: "'s fdb_db \<Rightarrow> kv_stack \<Rightarrow> ('s kvdb, unit) state" where
  "gc_collect db stk = gc_collect_by_free_size db stk (db_max_size db)"

subsection \<open>New records\<close>

definition new_kv :: "'s fdb_db \<Rightarrow> kv_stack \<Rightarrow> kvdb_sec_info \<Rightarrow> u32 \<Rightarrow> ('s kvdb, u32 \<times> kvdb_sec_info) state" where
  "new_kv db stk sector kv_size = do {
     (addr, sector) \<leftarrow> alloc_kv db stk sector kv_size;
     k \<leftarrow> getst;
     if addr = FAILED_ADDR \<and> gc_request k then do {
       gc_collect_by_free_size db stk kv_size;
       (addr, sector) \<leftarrow> alloc_kv db stk sector kv_size;
       (if addr = FAILED_ADDR then modify (\<lambda>k. k\<lparr>gc_request := False\<rparr>) else ret ());
       ret (addr, sector) }
     else ret (addr, sector) }"

definition new_kv_ex :: "'s fdb_db \<Rightarrow> kv_stack \<Rightarrow> kvdb_sec_info \<Rightarrow> nat \<Rightarrow> nat \<Rightarrow> ('s kvdb, u32 \<times> kvdb_sec_info) state" where
  "new_kv_ex db stk sector key_len buf_len = new_kv db stk sector (of_nat (KV_HDR_DATA_SIZE + key_len + buf_len))"

text \<open>
  The writes of \<open>create_kv_blob\<close> once the space is allocated, in its order: header, name, the caches, value,
  status. An error ends the sequence.
\<close>

definition write_new_kv :: "'s fdb_db \<Rightarrow> kvdb_sec_info \<Rightarrow> u8 list \<Rightarrow> u8 list \<Rightarrow> u32 \<Rightarrow> bool \<Rightarrow> ('s kvdb, fdb_err_t) state" where
  "write_new_kv db sector key val kv_addr is_full = do {
     result \<leftarrow> on_flash (write_kv_hdr db kv_addr (kv_hdr_for key val));
     if result \<noteq> FDB_NO_ERR then ret result
     else do {
       result \<leftarrow> on_flash (align_write db (kv_addr + of_nat KV_HDR_DATA_SIZE) key);
       (if \<not> is_full then update_sector_empty_addr_cache db (sec_addr sector)
          (kv_addr + of_nat KV_HDR_DATA_SIZE + of_nat (length key) + of_nat (length val)) else ret ());
       update_kv_cache key kv_addr;
       if result \<noteq> FDB_NO_ERR then ret result
       else do {
         result \<leftarrow> on_flash (align_write db (kv_addr + of_nat KV_HDR_DATA_SIZE + of_nat (length key)) val);
         if result \<noteq> FDB_NO_ERR then ret result
         else do {
           result \<leftarrow> on_flash (fdb_write_status db kv_addr FDB_KV_STATUS_NUM (kv_code FDB_KV_WRITE));
           if result = FDB_NO_ERR \<and> is_full then do { modify (\<lambda>k. k\<lparr>gc_request := True\<rparr>); ret result }
           else ret result } } } }"

definition create_kv_blob :: "'s fdb_db \<Rightarrow> kv_stack \<Rightarrow> kvdb_sec_info \<Rightarrow> u8 list \<Rightarrow> u8 list \<Rightarrow> ('s kvdb, fdb_err_t \<times> kvdb_sec_info) state" where
  "create_kv_blob db stk sector key val =
     (if length key > FDB_KV_NAME_MAX then ret (FDB_KV_NAME_ERR, sector)
      else if hdr_len (new_kv_hdr key val) > db_sec_size db - SECTOR_HDR_DATA_SIZE then ret (FDB_SAVED_FULL, sector)
      else do {
        (kv_addr, sector) \<leftarrow> (if empty_kv sector \<noteq> FAILED_ADDR then ret (empty_kv sector, sector)
          else new_kv db stk sector (hdr_len (new_kv_hdr key val)));
        if kv_addr = FAILED_ADDR then ret (FDB_SAVED_FULL, sector)
        else do {
          (result, is_full) \<leftarrow> update_sec_status db sector (hdr_len (new_kv_hdr key val)) False;
          if result \<noteq> FDB_NO_ERR then ret (result, sector)
          else do {
            result \<leftarrow> write_new_kv db sector key val kv_addr is_full;
            ret (result, sector) } } })"

subsection \<open>The interface\<close>

definition fdb_kv_del :: "'s fdb_db \<Rightarrow> kv_stack \<Rightarrow> u8 list \<Rightarrow> ('s kvdb, fdb_err_t) state" where
  "fdb_kv_del db stk key = do {
     k \<leftarrow> getst;
     if \<not> db_init_ok k then ret FDB_INIT_FAILED else del_kv db stk (Some key) None True }"

text \<open>A value is \<open>None\<close> for a null pointer.\<close>

definition set_kv :: "'s fdb_db \<Rightarrow> kv_stack \<Rightarrow> u8 list \<Rightarrow> u8 list option \<Rightarrow> ('s kvdb, fdb_err_t) state" where
  "set_kv db stk key value_buf = (case value_buf of
     None \<Rightarrow> del_kv db stk (Some key) None True
   | Some val \<Rightarrow> do {
       k \<leftarrow> getst;
       (addr, sector) \<leftarrow> new_kv_ex db stk (cur_sector k) (length key) (length val);
       modify (\<lambda>k. k\<lparr>cur_sector := sector\<rparr>);
       if addr = FAILED_ADDR then ret FDB_SAVED_FULL
       else do {
         k \<leftarrow> getst;
         (kv_is_found, kv) \<leftarrow> find_kv db stk key (cur_kv k);
         modify (\<lambda>k. k\<lparr>cur_kv := kv\<rparr>);
         result \<leftarrow> (if kv_is_found then del_kv db stk (Some key) (Some kv) False else ret FDB_NO_ERR);
         result \<leftarrow> (if result = FDB_NO_ERR then do {
             (result, sector) \<leftarrow> create_kv_blob db stk sector key val;
             modify (\<lambda>k. k\<lparr>cur_sector := sector\<rparr>);
             ret result }
           else ret result);
         result \<leftarrow> (if kv_is_found \<and> result = FDB_NO_ERR then del_kv db stk (Some key) (Some kv) True else ret result);
         k \<leftarrow> getst;
         (if gc_request k then gc_collect_by_free_size db stk (of_nat (KV_HDR_DATA_SIZE + length key + length val)) else ret ());
         ret result } })"

definition fdb_kv_set_blob :: "'s fdb_db \<Rightarrow> kv_stack \<Rightarrow> u8 list \<Rightarrow> u8 list option \<Rightarrow> ('s kvdb, fdb_err_t) state" where
  "fdb_kv_set_blob db stk key blob = do {
     k \<leftarrow> getst;
     if \<not> db_init_ok k then ret FDB_INIT_FAILED else set_kv db stk key blob }"

text \<open>A string is its characters without the zero; the header of the store counts no zero either.\<close>

definition fdb_kv_set :: "'s fdb_db \<Rightarrow> kv_stack \<Rightarrow> u8 list \<Rightarrow> u8 list option \<Rightarrow> ('s kvdb, fdb_err_t) state" where
  "fdb_kv_set db stk key val = (case val of
     Some v \<Rightarrow> fdb_kv_set_blob db stk key (Some v)
   | None \<Rightarrow> fdb_kv_del db stk key)"

end
