(* ===== verification/Fdb_Commit.thy ===== *)
theory Fdb_Commit
  imports Fdb_Set
begin

text \<open>
  Writing a record and finding it again. A new record is a fixed sequence of flash writes, on every
  device; its status byte says that it is complete only after the last of them, whatever a loss of
  power leaves of a write of several bytes. Once written it is found through the record cache and
  read back.
\<close>

subsection \<open>The writes of a record\<close>

fun write_all :: "'s fdb_db \<Rightarrow> (u32 \<times> u8 list) list \<Rightarrow> ('s, fdb_err_t) state" where
  "write_all db [] = ret FDB_NO_ERR"
| "write_all db ((a, bs) # ws) = do {
     r \<leftarrow> fdb_flash_write db a bs;
     if r \<noteq> FDB_NO_ERR then ret r else write_all db ws }"

definition record_writes :: "u32 \<Rightarrow> u8 list \<Rightarrow> u8 list \<Rightarrow> (u32 \<times> u8 list) list" where
  "record_writes a key val =
     [(a, [0x7F]), (a + 4, drop 4 (kv_hdr_bytes (kv_hdr_for key val)))] @ (if key = [] then [] else [(a + 24, key)]) @
     (if val = [] then [] else [(a + 24 + of_nat (length key), val)]) @ [(a, [0x3F])]"

definition store_all :: "(u32 \<times> u8 list) list \<Rightarrow> (nat \<Rightarrow> u8) \<Rightarrow> nat \<Rightarrow> u8" where
  "store_all ws c = fold (\<lambda>(a, bs) c. store_cells c (unat a) bs) ws c"

text \<open>
  What the flash may hold when the power fails during a sequence of writes: some writes are done; of the next
  one, if it has several bytes, any of its cells may have any value.
\<close>

definition crash_states :: "(u32 \<times> u8 list) list \<Rightarrow> (nat \<Rightarrow> u8) \<Rightarrow> (nat \<Rightarrow> u8) set" where
  "crash_states ws c = {c'. \<exists>j < length ws.
     c' = store_all (take j ws) c \<or>
     1 < length (snd (ws ! j)) \<and>
       (\<forall>x. \<not> (unat (fst (ws ! j)) \<le> x \<and> x < unat (fst (ws ! j)) + length (snd (ws ! j))) \<longrightarrow> c' x = store_all (take j ws) c x)}"

lemma write_all_append:
  "run_state (write_all db (xs @ ys)) s =
     (let (r, s') = run_state (write_all db xs) s in if r \<noteq> FDB_NO_ERR then (r, s') else run_state (write_all db ys) s')"
  by (induction db xs arbitrary: s rule: write_all.induct) (auto simp: Let_def split: prod.splits)

lemma run_on_flash [simp]:
  "run_state (on_flash m) k = (fst (run_state m (kv_env k)), k\<lparr>kv_env := snd (run_state m (kv_env k))\<rparr>)"
  by (simp add: on_flash_def case_prod_beta Let_def)

text \<open>A step of the store whose results and flash accesses are those of a computation on the flash.\<close>

definition flash_part :: "('s kvdb, 'a) state \<Rightarrow> ('s, 'a) state \<Rightarrow> bool" where
  "flash_part m w \<longleftrightarrow> (\<forall>k. fst (run_state m k) = fst (run_state w (kv_env k)) \<and> kv_env (snd (run_state m k)) = snd (run_state w (kv_env k)))"

lemma flash_part_ret: "flash_part (ret r) (ret r)"
  by (simp add: flash_part_def)

lemma on_flash_bind: "(\<And>r. flash_part (f r) (g r)) \<Longrightarrow> flash_part (State_Monad.bind (on_flash m) f) (State_Monad.bind m g)"
  by (simp add: flash_part_def case_prod_beta)

lemma flash_part_silent:
  "\<lbrakk>\<And>k. kv_env (snd (run_state u k)) = kv_env k; \<And>r. flash_part (f r) w\<rbrakk> \<Longrightarrow> flash_part (State_Monad.bind u f) w"
  by (simp add: flash_part_def case_prod_beta)

lemma flash_part_if:
  "\<lbrakk>b \<Longrightarrow> flash_part m w; \<not> b \<Longrightarrow> flash_part n w'\<rbrakk> \<Longrightarrow> flash_part (if b then m else n) (if b then w else w')"
  by simp

lemma env_caches:
  "kv_env (snd (run_state (update_sector_empty_addr_cache db a e) k)) = kv_env k"
  "kv_env (snd (run_state (update_kv_cache name a) k)) = kv_env k"
  "kv_env (snd (run_state (if b then update_sector_empty_addr_cache db a e else ret ()) k)) = kv_env k"
  by (simp_all add: update_sector_empty_addr_cache_def with_cached_sector_def update_kv_cache_def Let_def case_prod_beta split: option.splits)

lemma write_status_eq:
  "k < num \<Longrightarrow> num \<le> 8 \<Longrightarrow> 0 < k \<Longrightarrow> fdb_write_status db a num k = fdb_flash_write db a [drop_bit k 0xFF]"
  using status_byte [of k num] by (cases "fdb_set_status num k") (simp add: fdb_write_status_def)

lemma kv_write_status:
  "fdb_write_status db a FDB_KV_STATUS_NUM (kv_code FDB_KV_PRE_WRITE) = fdb_flash_write db a [0x7F]"
  "fdb_write_status db a FDB_KV_STATUS_NUM (kv_code FDB_KV_WRITE) = fdb_flash_write db a [0x3F]"
  by (simp_all add: write_status_eq FDB_KV_STATUS_NUM_def)

text \<open>On every device a new record is exactly these writes, in this order, up to the first that fails.\<close>

lemma write_all_if:
  "write_all db ((if b then [] else [w]) @ ws) = do {
     r \<leftarrow> (if b then ret FDB_NO_ERR else fdb_flash_write db (fst w) (snd w));
     if r \<noteq> FDB_NO_ERR then ret r else write_all db ws }"
  by (cases w) simp

lemma new_record_writes: "flash_part (write_new_kv db sector key val a full) (write_all db (record_writes a key val))"
proof -
  have header: "write_all db ([(a, [0x7F]), (a + 4, drop 4 (kv_hdr_bytes h))] @ ws) =
      do { r \<leftarrow> write_kv_hdr db a h; if r \<noteq> FDB_NO_ERR then ret r else write_all db ws }" for h ws
    unfolding write_kv_hdr_def kv_write_status
    by (simp add: KV_MAGIC_OFFSET_def if_distrib [where f = "\<lambda>m. State_Monad.bind m _"] cong: if_cong)
  have align: "(if bs = [] then ret FDB_NO_ERR else fdb_flash_write db x bs) = align_write db x bs" for x bs
    by (simp add: align_write_def)
  have last: "write_all db [(a, [0x3F])] =
      do { r \<leftarrow> fdb_write_status db a FDB_KV_STATUS_NUM (kv_code FDB_KV_WRITE); ret r }"
  proof -
    have eq: "(\<lambda>r. if r \<noteq> FDB_NO_ERR then ret r else ret FDB_NO_ERR) = ret" by (rule ext) simp
    show ?thesis unfolding kv_write_status write_all.simps eq ..
  qed
  have size: "of_nat KV_HDR_DATA_SIZE = (24 :: u32)" by (simp add: KV_HDR_DATA_SIZE_def)
  show ?thesis
    unfolding record_writes_def header write_all_if fst_conv snd_conv align last write_new_kv_def size
    by (rule on_flash_bind flash_part_if flash_part_ret flash_part_silent [OF env_caches(3)] flash_part_silent [OF env_caches(2)])+
      (auto simp: flash_part_def)
qed

subsection \<open>What the writes leave in the flash\<close>

definition record_mid :: "u32 \<Rightarrow> u8 list \<Rightarrow> u8 list \<Rightarrow> (u32 \<times> u8 list) list" where
  "record_mid a key val = (a + 4, drop 4 (kv_hdr_bytes (kv_hdr_for key val))) # (if key = [] then [] else [(a + 24, key)]) @
     (if val = [] then [] else [(a + 24 + of_nat (length key), val)])"

lemma record_writes_eq: "record_writes a key val = (a, [0x7F]) # record_mid a key val @ [(a, [0x3F])]"
  by (simp add: record_writes_def record_mid_def)

lemma store_Nil [simp]: "store_cells c x [] = c"
  by (rule ext) (auto simp: store_cells_def)

lemma store_all_simps [simp]:
  "store_all [] c = c" "store_all ((a, bs) # ws) c = store_all ws (store_cells c (unat a) bs)"
  "store_all (xs @ ys) c = store_all ys (store_all xs c)"
  by (simp_all add: store_all_def)

definition within :: "nat \<Rightarrow> u32 \<times> u8 list \<Rightarrow> bool" where
  "within i w \<longleftrightarrow> unat (fst w) \<le> i \<and> i < unat (fst w) + length (snd w)"

lemma store_all_other: "(\<And>w. w \<in> set ws \<Longrightarrow> \<not> within i w) \<Longrightarrow> store_all ws c i = c i"
proof (induction ws arbitrary: c)
  case (Cons w ws)
  then have "store_all ws (store_cells c (unat (fst w)) (snd w)) i = store_cells c (unat (fst w)) (snd w) i" by simp
  also have "\<dots> = c i" using Cons.prems [of w] by (auto simp: store_cells_def within_def)
  finally show ?case by (cases w) simp
qed simp

lemma record_mid_inside:
  assumes "unat a + record_len key val < 2 ^ 32" and "w \<in> set (record_mid a key val)"
  shows "unat a + 4 \<le> unat (fst w)" and "unat (fst w) + length (snd w) \<le> unat a + record_len key val" and "0 < length (snd w)"
proof -
  have len: "record_len key val = 24 + length key + length val" by (simp add: record_len_def KV_HDR_DATA_SIZE_def)
  have l20: "length (drop 4 (kv_hdr_bytes (kv_hdr_for key val))) = 20"
    by (simp add: kv_hdr_bytes_def kv_hdr_for_def new_kv_hdr_def)
  have u: "unat (a + 4) = unat a + 4" "unat (a + 24) = unat a + 24" "unat (a + 24 + of_nat (length key)) = unat a + 24 + length key"
    using assms(1) len unat_add_of_nat [of a 4] unat_add_of_nat [of a 24] unat_add_of_nat [of a "24 + length key"]
    by (simp_all add: add.assoc)
  show "unat a + 4 \<le> unat (fst w)" "unat (fst w) + length (snd w) \<le> unat a + record_len key val" "0 < length (snd w)"
    using assms(2) l20 u len by (auto simp: record_mid_def split: if_splits)
qed

lemma record_writes_inside:
  assumes "unat a + record_len key val < 2 ^ 32" and "w \<in> set (record_writes a key val)"
  shows "unat a \<le> unat (fst w) \<and> unat (fst w) + length (snd w) \<le> unat a + record_len key val \<and> 0 < length (snd w)"
proof -
  have "24 \<le> record_len key val" by (simp add: record_len_def KV_HDR_DATA_SIZE_def)
  then show ?thesis using assms(2) record_mid_inside [OF assms(1), of w] by (auto simp: record_writes_eq)
qed

lemma store_record:
  assumes "unat a + record_len key val < 2 ^ 32"
  shows "store_all (record_mid a key val) c = store_cells c (unat a + 4) (record_body key val)"
proof -
  let ?h = "drop 4 (kv_hdr_bytes (kv_hdr_for key val))"
  have len: "record_len key val = 24 + length key + length val" by (simp add: record_len_def KV_HDR_DATA_SIZE_def)
  have l20: "length ?h = 20" by (simp add: kv_hdr_bytes_def kv_hdr_for_def new_kv_hdr_def)
  have u: "unat (a + 4) = unat a + 4" "unat (a + 24) = unat a + 4 + length ?h"
    "unat (a + 24 + of_nat (length key)) = unat a + 4 + length (?h @ key)"
    using assms len l20 unat_add_of_nat [of a 4] unat_add_of_nat [of a 24] unat_add_of_nat [of a "24 + length key"]
    by (simp_all add: add.assoc)
  have step: "store_all (if bs = [] then [] else [(x, bs)]) m = store_cells m (unat x) bs" for x bs m by simp
  show ?thesis
    unfolding record_mid_def record_body_def KV_MAGIC_OFFSET_def store_all_simps step u store_append append_assoc ..
qed

lemma record_stored:
  assumes "unat a + record_len key val < 2 ^ 32"
  shows "record_at (store_all (record_writes a key val) c) (unat a) FDB_KV_WRITE key val"
    and "i < unat a \<or> unat a + record_len key val \<le> i \<Longrightarrow> store_all (record_writes a key val) c i = c i"
proof -
  have eq: "store_all (record_writes a key val) c =
      store_cells (store_cells (store_cells c (unat a) [0x7F]) (unat a + 4) (record_body key val)) (unat a) [0x3F]"
    unfolding record_writes_eq by (simp add: store_record [OF assms])
  have len: "length (record_body key val) + 4 = record_len key val" by (rule length_record_body)
  show "record_at (store_all (record_writes a key val) c) (unat a) FDB_KV_WRITE key val"
    unfolding record_at_def eq by (auto simp: store_cells_def KV_MAGIC_OFFSET_def cells_def intro!: nth_equalityI)
  show "i < unat a \<or> unat a + record_len key val \<le> i \<Longrightarrow> store_all (record_writes a key val) c i = c i"
    unfolding eq using len by (auto simp: store_cells_def)
qed

lemma crash_status:
  assumes "unat a + record_len key val < 2 ^ 32" and "c (unat a) = 0xFF" and "c' \<in> crash_states (record_writes a key val) c"
  shows "c' (unat a) \<in> {0xFF, 0x7F}"
    and "i < unat a \<or> unat a + record_len key val \<le> i \<Longrightarrow> c' i = c i"
proof -
  let ?ws = "record_writes a key val" and ?mid = "record_mid a key val"
  from assms(3) obtain j where j: "j < length ?ws"
    and c': "c' = store_all (take j ?ws) c \<or> 1 < length (snd (?ws ! j)) \<and> (\<forall>x. \<not> within x (?ws ! j) \<longrightarrow> c' x = store_all (take j ?ws) c x)"
    by (auto simp: crash_states_def within_def)
  have outside: "\<not> within i w" if "w \<in> set ?mid" "i < unat a + 4 \<or> unat a + record_len key val \<le> i" for i w
    using record_mid_inside [OF assms(1) that(1)] that(2) by (auto simp: within_def)
  have len4: "4 \<le> record_len key val" using length_record_body [of key val] by simp
  have st: "store_all (take j ?ws) c (unat a) \<in> {0xFF, 0x7F}"
    and out: "i < unat a \<or> unat a + record_len key val \<le> i \<Longrightarrow> store_all (take j ?ws) c i = c i" for i
  proof -
    have "take j ?ws = [] \<or> (\<exists>n. take j ?ws = (a, [0x7F]) # take n ?mid)"
      using j by (cases j) (auto simp: record_writes_eq)
    moreover have "store_all (take n ?mid) m i = m i" if "i < unat a + 4 \<or> unat a + record_len key val \<le> i" for n m i
      using outside that by (intro store_all_other) (meson in_set_takeD)
    ultimately show "store_all (take j ?ws) c (unat a) \<in> {0xFF, 0x7F}"
      "i < unat a \<or> unat a + record_len key val \<le> i \<Longrightarrow> store_all (take j ?ws) c i = c i"
      using assms(2) len4 by (auto simp: store_cells_def)
  qed
  have torn: "?ws ! j \<in> set ?mid" if "1 < length (snd (?ws ! j))"
    using j that by (auto simp: record_writes_eq nth_Cons' nth_append split: if_splits)
  show "c' (unat a) \<in> {0xFF, 0x7F}" using c' st torn outside [of "?ws ! j" "unat a"] by auto
  show "c' i = c i" if "i < unat a \<or> unat a + record_len key val \<le> i"
    using c' out [OF that] torn outside [of "?ws ! j" i] that by auto
qed

text \<open>C26. A new record is, on every device, a fixed sequence of flash writes up to the first that
  fails. On a flash that writes in place, after all of them the record is complete with status
  FDB_KV_WRITE; if the power fails before that, even inside a write of several bytes whatever
  this leaves in the cells written, the status of the record reads as unused or
  FDB_KV_PRE_WRITE, and no cell outside the record has changed in either case.\<close>

theorem record_commit:
  assumes "unat a + record_len key val < 2 ^ 32" and "c (unat a) = 0xFF"
  shows "flash_part (write_new_kv db sector key val a full) (write_all db (record_writes a key val)) \<and>
     record_at (store_all (record_writes a key val) c) (unat a) FDB_KV_WRITE key val \<and>
     (\<forall>c' \<in> crash_states (record_writes a key val) c.
        fdb_get_status [c' (unat a)] FDB_KV_STATUS_NUM \<in> {kv_code FDB_KV_UNUSED, kv_code FDB_KV_PRE_WRITE}) \<and>
     (\<forall>c' \<in> insert (store_all (record_writes a key val) c) (crash_states (record_writes a key val) c).
        \<forall>i. i < unat a \<or> unat a + record_len key val \<le> i \<longrightarrow> c' i = c i)"
proof -
  have st: "fdb_get_status [c' (unat a)] FDB_KV_STATUS_NUM \<in> {kv_code FDB_KV_UNUSED, kv_code FDB_KV_PRE_WRITE}"
    if "c' \<in> crash_states (record_writes a key val) c" for c'
    using crash_status(1) [of a key val c, OF assms that] get_status_eq [of 0 6 "[]"] get_status_eq [of 1 6 "[]"] by (auto simp: FDB_KV_STATUS_NUM_def)
  show ?thesis
    using new_record_writes record_stored [OF assms(1)] crash_status(2) [of a key val c, OF assms] st by blast
qed

theorem record_commit_witness:
  "\<exists>c'. c' \<in> crash_states (record_writes 16 [65, 66] [1, 2, 3]) (\<lambda>_. 0xFF) \<and>
     fdb_get_status [c' 16] FDB_KV_STATUS_NUM \<in> {kv_code FDB_KV_UNUSED, kv_code FDB_KV_PRE_WRITE}"
proof -
  have in_c: "store_all (take 3 (record_writes 16 [65, 66] [1, 2, 3])) (\<lambda>_. 0xFF) \<in> crash_states (record_writes 16 [65, 66] [1, 2, 3]) (\<lambda>_. 0xFF)"
    unfolding crash_states_def by (rule CollectI, rule exI [of _ 3]) (simp add: record_writes_def)
  have "unat (16 :: u32) + record_len [65, 66] [1, 2, 3] < 2 ^ 32" by (simp add: record_len_def KV_HDR_DATA_SIZE_def)
  from record_commit [OF this, of "\<lambda>_. 0xFF"] in_c
  have "fdb_get_status [store_all (take 3 (record_writes 16 [65, 66] [1, 2, 3])) (\<lambda>_. 0xFF) (unat (16 :: u32))] FDB_KV_STATUS_NUM
      \<in> {kv_code FDB_KV_UNUSED, kv_code FDB_KV_PRE_WRITE}" by blast
  with in_c show ?thesis by (intro exI [of _ "store_all (take 3 (record_writes 16 [65, 66] [1, 2, 3])) (\<lambda>_. 0xFF)"]) simp
qed

end
