(* ===== verification/Fdb_Lookup.thy ===== *)
theory Fdb_Lookup
  imports Fdb_Commit
begin

text \<open>
  The record cache. After an update the table has an entry for the name with the new address, and no
  earlier entry has the same checksum; a lookup follows it if the flash has the name there.
\<close>

subsection \<open>Updating the cache\<close>

text \<open>The first entry with the checksum has the address.\<close>

definition cache_hit :: "u16 \<Rightarrow> u32 \<Rightarrow> kv_cache_node list \<Rightarrow> bool" where
  "cache_hit crc addr tab \<longleftrightarrow> (\<exists>i < length tab. name_crc (tab ! i) = crc \<and> node_addr (tab ! i) = addr \<and>
     (\<forall>j < i. name_crc (tab ! j) \<noteq> crc))"

lemma update_loop_length: "length (fst (update_kv_loop crc addr i cs e m a)) = length cs"
  by (induction crc addr i cs e m a rule: update_kv_loop.induct) (auto simp: Let_def split: prod.splits)

lemma update_loop_found:
  assumes "addr \<noteq> FDB_DATA_UNUSED" and "update_kv_loop crc addr i cs e m a = (cs', True, e', m')"
  shows "cache_hit crc addr cs'"
  using assms
proof (induction crc addr i cs e m a arbitrary: cs' e' m' rule: update_kv_loop.induct)
  case (2 crc addr i c cs e m a)
  have ext: "cache_hit crc addr (d # ds)" if "cache_hit crc addr ds" "name_crc d \<noteq> crc" for d ds
  proof -
    from that(1) obtain n where "n < length ds" "name_crc (ds ! n) = crc" "node_addr (ds ! n) = addr" "\<forall>j < n. name_crc (ds ! j) \<noteq> crc"
      by (auto simp: cache_hit_def)
    with that(2) show ?thesis unfolding cache_hit_def by (intro exI [of _ "Suc n"]) (auto simp: nth_Cons split: nat.splits)
  qed
  show ?case
  proof (cases "name_crc c = crc")
    case True
    then show ?thesis using "2.prems" by (auto simp: cache_hit_def)
  next
    case False
    then show ?thesis using "2.prems" "2.IH" by (auto simp: Let_def split: if_splits prod.splits intro!: ext)
  qed
qed simp

text \<open>If no entry has the checksum, an entry to replace is found unless the table is empty.\<close>

lemma less_active: "0 < x \<Longrightarrow> x - 1 < 0xFFFF" for x :: u16
proof -
  assume "0 < x"
  then have "unat (x - 1) = unat x - 1" "unat x < 2 ^ 16" using unat_minus_one [of x] unsigned_less [of x] by auto
  then show ?thesis by (simp add: word_less_nat_alt)
qed

lemma update_loop_new:
  assumes "addr \<noteq> FDB_DATA_UNUSED" and "update_kv_loop crc addr i cs e m a = (cs', False, e', m')"
  shows "(\<forall>c \<in> set cs'. name_crc c \<noteq> crc) \<and>
    (e' = None \<and> m' = None \<longrightarrow> e = None \<and> m = None \<and> (cs = [] \<or> a \<noteq> 0xFFFF)) \<and>
    (\<forall>n. e' = Some n \<longrightarrow> e = Some n \<or> i \<le> n \<and> n < i + length cs) \<and> (\<forall>n. m' = Some n \<longrightarrow> m = Some n \<or> i \<le> n \<and> n < i + length cs)"
  using assms
proof (induction crc addr i cs e m a arbitrary: cs' e' m' rule: update_kv_loop.induct)
  case (2 crc addr i c cs e m a)
  have ne: "name_crc c \<noteq> crc" using "2.prems" by auto
  consider (free) "node_addr c = FDB_DATA_UNUSED" "e = None" | (used) "node_addr c \<noteq> FDB_DATA_UNUSED" | (skip) "node_addr c = FDB_DATA_UNUSED" "e \<noteq> None"
    by blast
  then show ?case
  proof cases
    case free
    obtain ds where "update_kv_loop crc addr (Suc i) cs (Some i) m a = (ds, False, e', m')" "cs' = c # ds"
      using "2.prems" ne free by (auto split: prod.splits)
    from "2.IH"(1) [OF "2.prems"(1) ne _ "2.prems"(1) this(1)] this(2) free ne show ?thesis by fastforce
  next
    case used
    define d where "d = (if active c > 0 then c\<lparr>active := active c - 1\<rparr> else c)"
    have d: "active d < 0xFFFF" "name_crc d \<noteq> crc" using ne less_active [of "active c"] by (auto simp: d_def word_gt_0)
    show ?thesis
    proof (cases "active d < a")
      case True
      obtain ds where "update_kv_loop crc addr (Suc i) cs e (Some i) (active d) = (ds, False, e', m')" "cs' = d # ds"
        using "2.prems" ne used True by (auto simp: d_def Let_def split: prod.splits if_splits)
      from "2.IH"(2) [OF "2.prems"(1) ne _ _ d_def True "2.prems"(1) this(1)] this(2) used d show ?thesis by fastforce
    next
      case False
      then have "a \<noteq> 0xFFFF" using d(1) by auto
      moreover obtain ds where r: "update_kv_loop crc addr (Suc i) cs e m a = (ds, False, e', m')" "cs' = d # ds"
        using "2.prems" ne used False by (auto simp: d_def Let_def split: prod.splits if_splits)
      moreover note "2.IH"(3) [OF "2.prems"(1) ne _ _ d_def False "2.prems"(1) r(1)]
      ultimately show ?thesis using used d by fastforce
    qed
  next
    case skip
    obtain ds where "update_kv_loop crc addr (Suc i) cs e m a = (ds, False, e', m')" "cs' = c # ds"
      using "2.prems" ne skip by (auto split: prod.splits)
    from "2.IH"(4) [OF "2.prems"(1) ne _ _ "2.prems"(1) this(1)] this(2) skip ne show ?thesis by fastforce
  qed
qed auto

lemma update_hits:
  assumes "addr \<noteq> FDB_DATA_UNUSED" and "kv_cache_table k \<noteq> []"
  shows "cache_hit (crc_of_name name) addr (kv_cache_table (snd (run_state (update_kv_cache name addr) k)))"
    and "length (kv_cache_table (snd (run_state (update_kv_cache name addr) k))) = length (kv_cache_table k)"
proof -
  let ?crc = "crc_of_name name" and ?cs = "kv_cache_table k"
  obtain cs' f e m where r: "update_kv_loop ?crc addr 0 ?cs None None 0xFFFF = (cs', f, e, m)" by (metis prod_cases4)
  have len: "length cs' = length ?cs" by (metis r fst_conv update_loop_length)
  show "length (kv_cache_table (snd (run_state (update_kv_cache name addr) k))) = length ?cs"
    using len by (simp add: update_kv_cache_def r Let_def split: option.splits)
  show "cache_hit ?crc addr (kv_cache_table (snd (run_state (update_kv_cache name addr) k)))"
  proof (cases f)
    case True
    then show ?thesis using update_loop_found [OF assms(1)] r by (simp add: update_kv_cache_def Let_def)
  next
    case False
    then have "update_kv_loop ?crc addr 0 ?cs None None 0xFFFF = (cs', False, e, m)" using r by simp
    note new = update_loop_new [OF assms(1) this]
    have put: "cache_hit ?crc addr (cs'[n := cached_node ?crc addr])" if "n < length cs'" for n
      unfolding cache_hit_def using that new by (intro exI [of _ n]) (auto simp: cached_node_def)
    from new assms(2) len have "(\<exists>n. e = Some n \<and> n < length cs') \<or> e = None \<and> (\<exists>n. m = Some n \<and> n < length cs')" by (cases e; cases m) auto
    then show ?thesis using r False put by (auto simp: update_kv_cache_def Let_def)
  qed
qed

subsection \<open>Looking up\<close>

lemma search_skip:
  "\<forall>j \<in> set js. name_crc (kv_cache_table k ! j) \<noteq> crc_of_name name \<Longrightarrow>
     run_state (search_kv_cache db name (js @ is)) k = run_state (search_kv_cache db name is) k"
  by (induction js) simp_all

lemma lookup_none:
  assumes "\<forall>c \<in> set (kv_cache_table k). node_addr c = FDB_DATA_UNUSED" and "length (kv_cache_table k) = 64"
  shows "run_state (get_kv_from_cache db name) k = (None, k)"
proof -
  have "run_state (search_kv_cache db name is) k = (None, k)" if "\<forall>i \<in> set is. i < 64" for "is"
    using that assms by (induction "is") (auto simp: Let_def)
  then show ?thesis by (simp add: get_kv_from_cache_def FDB_KV_CACHE_TABLE_SIZE_def)
qed

text \<open>Sizes of the uninitialised locals.\<close>

definition stack_sized :: "kv_stack \<Rightarrow> bool" where
  "stack_sized stk \<longleftrightarrow> length (stk_hdr stk) = 24 \<and> length (stk_buf stk) = 32 \<and> length (kv_name (stk_kv stk)) = 64"

text \<open>The rest of the store after writing a record.\<close>

lemma cache_frames:
  "kv_cache_table (snd (run_state (if b then update_sector_empty_addr_cache db a e else ret ()) k)) = kv_cache_table k"
  "db_init_ok (snd (run_state (if b then update_sector_empty_addr_cache db a e else ret ()) k)) = db_init_ok k"
  "gc_request (snd (run_state (if b then update_sector_empty_addr_cache db a e else ret ()) k)) = gc_request k"
  "db_init_ok (snd (run_state (update_kv_cache name a) k)) = db_init_ok k"
  "gc_request (snd (run_state (update_kv_cache name a) k)) = gc_request k"
  by (simp_all add: update_sector_empty_addr_cache_def with_cached_sector_def update_kv_cache_def Let_def case_prod_beta split: option.splits)

lemma update_kv_cache_cong:
  "kv_cache_table k = kv_cache_table l \<Longrightarrow> kv_cache_table (snd (run_state (update_kv_cache n a) k)) = kv_cache_table (snd (run_state (update_kv_cache n a) l))"
  by (auto simp: update_kv_cache_def Let_def split: prod.splits option.splits)

lemma write_new_kv_frame:
  assumes "fst (run_state (write_new_kv db sector key val a full) k) = FDB_NO_ERR"
  defines "k' \<equiv> snd (run_state (write_new_kv db sector key val a full) k)"
  shows "kv_cache_table k' = kv_cache_table (snd (run_state (update_kv_cache key a) k)) \<and> db_init_ok k' = db_init_ok k \<and>
    (gc_request k' \<longleftrightarrow> gc_request k \<or> full)"
proof -
  define m where "m = (if \<not> full then update_sector_empty_addr_cache db (sec_addr sector)
    (a + of_nat KV_HDR_DATA_SIZE + of_nat (length key) + of_nat (length val)) else ret ())"
  obtain r1 k1 where 1: "run_state (on_flash (write_kv_hdr db a (kv_hdr_for key val))) k = (r1, k1)" by fastforce
  obtain r2 k2 where 2: "run_state (on_flash (align_write db (a + of_nat KV_HDR_DATA_SIZE) key)) k1 = (r2, k2)" by fastforce
  obtain k3 where 3: "run_state m k2 = ((), k3)" by (metis old.unit.exhaust surj_pair)
  obtain k4 where 4: "run_state (update_kv_cache key a) k3 = ((), k4)" by (metis old.unit.exhaust surj_pair)
  obtain r5 k5 where 5: "run_state (on_flash (align_write db (a + of_nat KV_HDR_DATA_SIZE + of_nat (length key)) val)) k4 = (r5, k5)" by fastforce
  obtain r6 k6 where 6: "run_state (on_flash (fdb_write_status db a FDB_KV_STATUS_NUM (kv_code FDB_KV_WRITE))) k5 = (r6, k6)" by fastforce
  have run: "run_state (write_new_kv db sector key val a full) k =
      (if r1 \<noteq> FDB_NO_ERR then (r1, k1) else if r2 \<noteq> FDB_NO_ERR then (r2, k4) else if r5 \<noteq> FDB_NO_ERR then (r5, k5)
       else if r6 = FDB_NO_ERR \<and> full then (r6, k6\<lparr>gc_request := True\<rparr>) else (r6, k6))"
    unfolding write_new_kv_def m_def [symmetric] using 1 2 3 4 5 6 by (simp del: run_on_flash)
  have "kv_cache_table k3 = kv_cache_table k" "db_init_ok k3 = db_init_ok k" "gc_request k3 = gc_request k"
    using 1 2 3 cache_frames(1-3) [of "\<not> full" db "sec_addr sector" "a + of_nat KV_HDR_DATA_SIZE + of_nat (length key) + of_nat (length val)" k2, folded m_def]
    by auto
  moreover have "kv_cache_table k4 = kv_cache_table k6" "db_init_ok k6 = db_init_ok k4" "gc_request k6 = gc_request k4" using 5 6 by auto
  moreover have "db_init_ok k4 = db_init_ok k3" "gc_request k4 = gc_request k3" using 4 cache_frames(4,5) [of key a k3] by simp_all
  ultimately show ?thesis
    using run assms(1) 4 update_kv_cache_cong [of k3 k key a] unfolding k'_def by (auto split: if_splits)
qed

context flash_store begin

lemma write_all_ok:
  assumes "ok s" and "\<forall>w \<in> set ws. unat (fst w) < store_size \<and> unat (fst w) + length (snd w) \<le> store_size"
  shows "\<exists>s'. run_state (write_all db ws) s = (FDB_NO_ERR, s') \<and> ok s' \<and> content s' = store_all ws (content s)"
  using assms
proof (induction ws arbitrary: s)
  case (Cons w ws)
  obtain s1 where s1: "run_state (fdb_flash_write db (fst w) (snd w)) s = (FDB_NO_ERR, s1)" "ok s1"
    "content s1 = store_cells (content s) (unat (fst w)) (snd w)" using write_law [OF Cons.prems(1)] Cons.prems(2) by force
  from Cons.IH [OF s1(2)] Cons.prems(2) s1 show ?case by (cases w) auto
qed simp

lemma write_new_ok:
  assumes "ok (kv_env k)" and "unat a + record_len key val \<le> store_size"
  shows "\<exists>k'. run_state (write_new_kv db sector key val a full) k = (FDB_NO_ERR, k') \<and> ok (kv_env k') \<and>
    content (kv_env k') = store_all (record_writes a key val) (content (kv_env k)) \<and>
    kv_cache_table k' = kv_cache_table (snd (run_state (update_kv_cache key a) k)) \<and> db_init_ok k' = db_init_ok k \<and>
    (gc_request k' \<longleftrightarrow> gc_request k \<or> full)"
proof -
  have small: "unat a + record_len key val < 2 ^ 32" using assms(2) store_bound by simp
  have "\<forall>w \<in> set (record_writes a key val). unat (fst w) < store_size \<and> unat (fst w) + length (snd w) \<le> store_size"
  proof
    fix w assume "w \<in> set (record_writes a key val)"
    from record_writes_inside [OF small this] assms(2)
    show "unat (fst w) < store_size \<and> unat (fst w) + length (snd w) \<le> store_size" by linarith
  qed
  from write_all_ok [OF assms(1) this] obtain s' where
    s': "run_state (write_all db (record_writes a key val)) (kv_env k) = (FDB_NO_ERR, s')" "ok s'"
    "content s' = store_all (record_writes a key val) (content (kv_env k))" by blast
  obtain r k' where k': "run_state (write_new_kv db sector key val a full) k = (r, k')" by fastforce
  have "r = FDB_NO_ERR" "kv_env k' = s'" using new_record_writes [of db sector key val a full] k' s'(1) by (auto simp: flash_part_def dest: spec [of _ k])
  then show ?thesis using k' s' write_new_kv_frame [of db sector key val a full k] by simp
qed

lemma cache_finds:
  assumes "ok (kv_env k)" and "length (kv_cache_table k) = 64" and "cache_hit (crc_of_name name) addr (kv_cache_table k)"
    and "addr \<noteq> FDB_DATA_UNUSED" and "unat addr + 88 \<le> store_size" and "length name \<le> 64"
    and "cells (content (kv_env k)) (unat addr + 24) (length name) = name"
  shows "\<exists>k'. run_state (get_kv_from_cache db name) k = (Some addr, k') \<and> ok (kv_env k') \<and> content (kv_env k') = content (kv_env k)"
proof -
  from assms(2,3) obtain i where i: "i < 64" "name_crc (kv_cache_table k ! i) = crc_of_name name" "node_addr (kv_cache_table k ! i) = addr"
    and before: "\<forall>j < i. name_crc (kv_cache_table k ! j) \<noteq> crc_of_name name" by (auto simp: cache_hit_def)
  have "[0..<64] = [0..<i] @ i # [Suc i..<64]" using i(1) upt_add_eq_append [of 0 i "64 - i"] by (simp add: upt_rec [of i])
  then have skip: "run_state (get_kv_from_cache db name) k = run_state (search_kv_cache db name (i # [Suc i..<64])) k"
    using search_skip [of "[0..<i]" k name db "i # [Suc i..<64]"] before by (simp add: get_kv_from_cache_def FDB_KV_CACHE_TABLE_SIZE_def)
  have a24: "unat (addr + 24) = unat addr + 24" using assms(5) store_bound unat_add_of_nat [of addr 24] by simp
  obtain s' where s': "run_state (fdb_flash_read db (addr + 24) (replicate 64 0)) (kv_env k) =
      ((FDB_NO_ERR, cells (content (kv_env k)) (unat addr + 24) 64), s')" "ok s'" "content s' = content (kv_env k)"
    using read_law [OF assms(1), of "addr + 24" "replicate 64 0"] assms(5) a24 by auto
  have "take (length name) (cells (content (kv_env k)) (unat addr + 24) 64) = name"
    using take_drop_cells [of 0 "length name" 64 "content (kv_env k)" "unat addr + 24"] assms(6,7) by simp
  then show ?thesis
    using i assms(4) s' by (simp add: skip Let_def FDB_KV_NAME_MAX_def KV_HDR_DATA_SIZE_def)
qed

lemma get_cached:
  assumes "ok (kv_env k)" and "length (kv_cache_table k) = 64" and "cache_hit (crc_of_name name) a (kv_cache_table k)"
    and "record_at (content (kv_env k)) (unat a) st key val" and "take (length name) key = name" and "length key \<le> 64"
    and "unat a + 88 \<le> store_size" and "unat a + record_len key val \<le> store_size" and "length val \<le> 4096" and "stack_sized stk"
  shows "\<exists>k'. run_state (get_kv db stk name buf) k =
      ((min (length val) (length buf), mem_write 0 (take (length buf) val) buf, length val), k') \<and> content (kv_env k') = content (kv_env k)"
proof -
  let ?c = "content (kv_env k)"
  have small: "unat a + record_len key val \<le> 2 ^ 24" using assms(8) store_bound by simp
  have len: "record_len key val = 24 + length key + length val" by (simp add: record_len_def KV_HDR_DATA_SIZE_def)
  have used: "a \<noteq> FDB_DATA_UNUSED"
  proof
    assume "a = FDB_DATA_UNUSED"
    then have "unat a = 4294967295" by (simp add: FDB_DATA_UNUSED_def)
    then show False using small by simp
  qed
  have n: "length name \<le> length key" using arg_cong [OF assms(5), of length] by simp
  have "cells ?c (unat a + 24) (length name) = name"
    using record_data(1) [OF assms(4)] take_drop_cells [of 0 "length name" "length key" ?c "unat a + 24"] n assms(5) by simp
  from cache_finds [OF assms(1-3) used assms(7) _ this] n assms(6) obtain k1 where
    k1: "run_state (get_kv_from_cache db name) k = (Some a, k1)" "ok (kv_env k1)" "content (kv_env k1) = ?c" by auto
  let ?kv = "(stk_kv stk)\<lparr>addr_start := a\<rparr>"
  from read_kv_ok [OF k1(2), of ?kv st key val stk] k1(3) assms(4,6,8,10) obtain s2 where
    s2: "run_state (read_kv db stk ?kv) (kv_env k1) = ((FDB_NO_ERR, kv_read st key val ?kv), s2)" "ok s2" "content s2 = ?c"
    by (auto simp: stack_sized_def)
  have uv: "unat (of_nat (length val) :: u32) = length val" using unat_of_nat_u32 [of "length val"] small len by simp
  define m where "m = (if length val < length buf then length val else length buf)"
  have m: "m \<le> length val" "m \<le> length buf" by (auto simp: m_def)
  have av: "unat (a + of_nat (24 + length key)) = unat a + 24 + length key" using small len unat_add_of_nat [of a "24 + length key"] by simp
  obtain s3 where s3: "run_state (fdb_flash_read db (a + of_nat (24 + length key)) (take m buf)) s2 =
      ((FDB_NO_ERR, cells ?c (unat a + 24 + length key) m), s3)" "content s3 = ?c"
    using read_law [OF s2(2), of "a + of_nat (24 + length key)" "take m buf"] assms(8,9) len s2(3) av m by auto
  have bs: "cells ?c (unat a + 24 + length key) m = take (length buf) val"
    using record_data(3) [OF assms(4)] take_drop_cells [of 0 m "length val" ?c "unat a + 24 + length key"] m by (auto simp: m_def)
  have "run_state (get_kv db stk name buf) k =
      ((min (length val) (length buf), mem_write 0 (take (length buf) val) buf, length val), k1\<lparr>kv_env := s3\<rparr>)"
  proof -
    define r where "r = kv_read st key val ?kv"
    have r: "(if unat (kv_value_len r) < length buf then unat (kv_value_len r) else length buf) = m"
      "addr_value r = a + of_nat (24 + length key)" "unat (kv_value_len r) = length val"
      using uv by (simp_all add: r_def kv_read_def m_def)
    have "min (length val) (length buf) = m" by (simp add: m_def)
    with k1(1) s2(1) [folded r_def] s3(1) r show ?thesis unfolding bs
      by (simp add: get_kv_def find_kv_def Let_def del: mem_write_0 split del: if_split)
  qed
  then show ?thesis using s3(2) by auto
qed

end

end
