(* ===== verification/Fdb_Init.thy ===== *)
theory Fdb_Init
  imports Fdb_Set
begin

text \<open>
  Opening the key-value store: \<open>fdb_kvdb_init\<close> with the recovery of \<open>fdb_kv_load\<close>, the common part of \<^verbatim>\<open>src/flashdb/src/fdb.c\<close>, and
  the functions of \<^verbatim>\<open>src/flashdb/fdb_port.c\<close> that the application calls. \<open>None\<close> is a loop that does not end, a failed
  assertion (which loops), or the use of a null pointer.
\<close>

subsection \<open>Default contents\<close>

fun format_all :: "nat \<Rightarrow> 's fdb_db \<Rightarrow> u32 \<Rightarrow> ('s kvdb, fdb_err_t) state" where
  "format_all 0 db addr = ret FDB_NO_ERR"
| "format_all (Suc n) db addr =
     (if addr < db_max_size db then do {
        result \<leftarrow> format_sector db addr SECTOR_NOT_COMBINED;
        if result \<noteq> FDB_NO_ERR then ret result else format_all n db (addr + db_sec_size db) }
      else ret FDB_NO_ERR)"

definition default_value :: "default_kv \<Rightarrow> u8 list" where
  "default_value d = take (if def_value_len d = 0 then length (takeWhile (\<lambda>b. b \<noteq> 0) (def_value d)) else def_value_len d) (def_value d)"

text \<open>The results of \<open>create_kv_blob\<close> are not used.\<close>

fun create_defaults :: "'s fdb_db \<Rightarrow> kv_stack \<Rightarrow> default_kv list \<Rightarrow> kvdb_sec_info \<Rightarrow> ('s kvdb, unit) state" where
  "create_defaults db stk [] sector = ret ()"
| "create_defaults db stk (d # ds) sector = do {
     (_, sector) \<leftarrow> create_kv_blob db stk (sector\<lparr>empty_kv := FAILED_ADDR\<rparr>) (def_key d) (default_value d);
     create_defaults db stk ds sector }"

definition fdb_kv_set_default :: "'s fdb_db \<Rightarrow> kv_stack \<Rightarrow> ('s kvdb, fdb_err_t) state" where
  "fdb_kv_set_default db stk = do {
     modify (\<lambda>k. k\<lparr>kv_cache_table := map (\<lambda>c. c\<lparr>node_addr := FDB_DATA_UNUSED\<rparr>) (kv_cache_table k)\<rparr>);
     result \<leftarrow> format_all (sector_num db + 1) db 0;
     (if result = FDB_NO_ERR then do { k \<leftarrow> getst; create_defaults db stk (default_kvs k) (stk_sector stk) } else ret ());
     modify (\<lambda>k. k\<lparr>oldest_addr := 0\<rparr>);
     ret result }"

subsection \<open>Recovery\<close>

definition check_oldest_addr_cb ::
  "kvdb_sec_info \<Rightarrow> u32 \<times> fdb_sector_store_status \<Rightarrow> ('s kvdb, bool \<times> u32 \<times> fdb_sector_store_status) state" where
  "check_oldest_addr_cb sector acc = (case acc of (sector_oldest_addr, last_sector_status) \<Rightarrow>
     ret (False,
       if last_sector_status = FDB_SECTOR_STORE_EMPTY \<and>
          (store_status sector = FDB_SECTOR_STORE_FULL \<or> store_status sector = FDB_SECTOR_STORE_USING)
       then sec_addr sector else sector_oldest_addr,
       store_status sector))"

definition check_sec_hdr_cb :: "'s fdb_db \<Rightarrow> kvdb_sec_info \<Rightarrow> nat \<Rightarrow> ('s kvdb, bool \<times> nat) state" where
  "check_sec_hdr_cb db sector failed_count =
     (if \<not> check_ok sector then
        if not_formatable db then ret (True, failed_count + 1)
        else do {
          _ \<leftarrow> format_sector db (sec_addr sector) SECTOR_NOT_COMBINED;
          ret (False, failed_count + 1) }
      else ret (False, failed_count))"

definition check_and_recovery_gc_cb :: "'s fdb_db \<Rightarrow> kv_stack \<Rightarrow> kvdb_sec_info \<Rightarrow> unit \<Rightarrow> ('s kvdb, bool \<times> unit) state" where
  "check_and_recovery_gc_cb db stk sector acc =
     (if check_ok sector \<and> dirty_status sector = FDB_SECTOR_DIRTY_GC then do {
        modify (\<lambda>k. k\<lparr>gc_request := True\<rparr>);
        gc_collect db stk;
        ret (False, ()) }
      else ret (False, ()))"

definition check_and_recovery_kv_cb :: "'s fdb_db \<Rightarrow> kv_stack \<Rightarrow> fdb_kv \<Rightarrow> unit \<Rightarrow> ('s kvdb, bool \<times> unit) state" where
  "check_and_recovery_kv_cb db stk kv acc =
     (if crc_is_ok kv \<and> kv_status kv = FDB_KV_PRE_DELETE then do {
        r \<leftarrow> move_kv db stk kv;
        ret (r \<noteq> FDB_NO_ERR, ()) }
      else if kv_status kv = FDB_KV_PRE_WRITE then do {
        _ \<leftarrow> on_flash (fdb_write_status db (addr_start kv) FDB_KV_STATUS_NUM (kv_code FDB_KV_ERR_HDR));
        ret (True, ()) }
      else if crc_is_ok kv \<and> kv_status kv = FDB_KV_WRITE then do {
        update_kv_cache (take (unat (kv_name_len kv)) (kv_name kv)) (addr_start kv);
        ret (False, ()) }
      else ret (False, ()))"

partial_function (option) load_retry :: "'s fdb_db \<Rightarrow> kv_stack \<Rightarrow> 's kvdb \<Rightarrow> 's kvdb option" where
  "load_retry db stk k =
     (let k = snd (run_state (kv_iterator db stk (stk_kv stk) (check_and_recovery_kv_cb db stk) ()) k) in
      if gc_request k then load_retry db stk (snd (run_state (gc_collect db stk) k)) else Some k)"

definition fdb_kv_load :: "'s fdb_db \<Rightarrow> kv_stack \<Rightarrow> 's kvdb \<Rightarrow> (fdb_err_t \<times> 's kvdb) option" where
  "fdb_kv_load db stk k =
     (let k = k\<lparr>in_recovery_check := True\<rparr>;
          ((sector, check_failed_count), k) =
            run_state (sector_iterator db stk (stk_sector stk) FDB_SECTOR_STORE_UNUSED (check_sec_hdr_cb db) False 0) k
      in if not_formatable db \<and> check_failed_count > 0 then Some (FDB_READ_ERR, k)
         else
           let k = (if check_failed_count = sector_num db then snd (run_state (fdb_kv_set_default db stk) k) else k);
               k = snd (run_state (sector_iterator db stk sector FDB_SECTOR_STORE_UNUSED (check_and_recovery_gc_cb db stk) False ()) k)
           in map_option (\<lambda>k. (FDB_NO_ERR, k\<lparr>in_recovery_check := False\<rparr>)) (load_retry db stk k))"

subsection \<open>Initialisation\<close>

definition fdb_init_ex ::
  "'s fal_flash_dev list \<Rightarrow> fal_partition list \<Rightarrow> string \<Rightarrow> bool \<Rightarrow> 's fdb_db \<Rightarrow> ('s, (fdb_err_t \<times> 's fdb_db) option) state" where
  "fdb_init_ex devs parts path init_ok db =
     (if init_ok then ret (Some (FDB_NO_ERR, db))
      else do {
        found \<leftarrow> (if file_mode db then ret (Some (FDB_NO_ERR, db))
          else do {
            (_, F) \<leftarrow> fal_init devs parts (db_fal db);
            let db = db\<lparr>db_fal := F\<rparr>;
            ret (case fal_partition_find path F of
                None \<Rightarrow> Some (FDB_PART_NOT_FOUND, db)
              | Some i \<Rightarrow>
                  (case fal_flash_device_find devs (flash_name (partition_table F ! i)) of
                     None \<Rightarrow> None
                   | Some dev \<Rightarrow>
                       let db = db\<lparr>db_part := i\<rparr> in
                       if db_sec_size db = 0 then
                         Some (FDB_NO_ERR, db\<lparr>db_sec_size := blk_size dev, db_max_size := part_len (partition_table F ! i)\<rparr>)
                       else if db_sec_size db mod blk_size dev \<noteq> 0 then Some (FDB_INIT_FAILED, db)
                       else Some (FDB_NO_ERR, db\<lparr>db_max_size := part_len (partition_table F ! i)\<rparr>))) });
        ret (case found of
            None \<Rightarrow> None
          | Some (r, db) \<Rightarrow>
              if r \<noteq> FDB_NO_ERR then Some (r, db)
              else if db_sec_size db AND (db_sec_size db - 1) \<noteq> 0 then None
              else if db_max_size db mod db_sec_size db \<noteq> 0 then Some (FDB_INIT_FAILED, db)
              else if db_max_size db div db_sec_size db < 2 then Some (FDB_INIT_FAILED, db)
              else Some (FDB_NO_ERR, db)) })"

text \<open>The search for the oldest sector comes before the caches are cleared.\<close>

definition find_oldest :: "'s fdb_db \<Rightarrow> kv_stack \<Rightarrow> ('s kvdb, unit) state" where
  "find_oldest db stk = do {
     modify (\<lambda>k. k\<lparr>oldest_addr := 0\<rparr>);
     (_, sector_oldest_addr, _) \<leftarrow> sector_iterator db stk (stk_sector stk) FDB_SECTOR_STORE_UNUSED check_oldest_addr_cb False
       (0, FDB_SECTOR_STORE_UNUSED);
     modify (\<lambda>k. k\<lparr>oldest_addr := sector_oldest_addr\<rparr>) }"

definition clear_caches :: "('s kvdb, unit) state" where
  "clear_caches = modify (\<lambda>k. k\<lparr>
     sector_cache_table := map (\<lambda>c. c\<lparr>check_ok := False, empty_kv := FAILED_ADDR, sec_addr := FDB_DATA_UNUSED\<rparr>) (sector_cache_table k),
     kv_cache_table := map (\<lambda>c. c\<lparr>node_addr := FDB_DATA_UNUSED\<rparr>) (kv_cache_table k)\<rparr>)"

text \<open>The state of the flash is part of the store; the device operations run on it.\<close>

definition fdb_kvdb_init ::
  "'s fal_flash_dev list \<Rightarrow> fal_partition list \<Rightarrow> string \<Rightarrow> default_kv list \<Rightarrow> kv_stack \<Rightarrow> 's fdb_db \<Rightarrow> 's kvdb \<Rightarrow>
    (fdb_err_t \<times> 's fdb_db \<times> 's kvdb) option" where
  "fdb_kvdb_init devs parts path default_kv stk db k =
     (let (opened, k) = run_state (on_flash (fdb_init_ex devs parts path (db_init_ok k) db)) k in
      case opened of
        None \<Rightarrow> None
      | Some (result, db) \<Rightarrow>
          if result \<noteq> FDB_NO_ERR then Some (result, db, k)
          else
            let k = k\<lparr>gc_request := False, in_recovery_check := False, default_kvs := default_kv\<rparr>;
                k = snd (run_state (find_oldest db stk) k)
            in if \<not> FDB_GC_EMPTY_SEC_THRESHOLD < sector_num db then None
               else
                 let k = snd (run_state clear_caches k) in
                 map_option (\<lambda>(result, k). (result, db, if result = FDB_NO_ERR then k\<lparr>db_init_ok := True\<rparr> else k))
                   (fdb_kv_load db stk k))"

definition fdb_kvdb_deinit :: "'s kvdb \<Rightarrow> fdb_err_t \<times> 's kvdb" where
  "fdb_kvdb_deinit k = (FDB_NO_ERR, k\<lparr>db_init_ok := False\<rparr>)"

subsection \<open>The port\<close>

text \<open>The static database starts zeroed.\<close>

definition zero_db :: "'s fdb_db" where
  "zero_db = \<lparr>db_fal = fal_start, db_part = 0, db_sec_size = 0, db_max_size = 0, file_mode = False, not_formatable = False\<rparr>"

definition zero_kvdb :: "'s \<Rightarrow> 's kvdb" where
  "zero_kvdb e = \<lparr>gc_request = False, in_recovery_check = False, last_is_complete_del = False, cur_kv = zero_kv,
     cur_sector = zero_sector, kv_cache_table = replicate FDB_KV_CACHE_TABLE_SIZE \<lparr>name_crc = 0, active = 0, node_addr = 0\<rparr>,
     sector_cache_table = replicate FDB_SECTOR_CACHE_TABLE_SIZE zero_sector, oldest_addr = 0, db_init_ok = False, default_kvs = [], kv_env = e\<rparr>"

definition c_bytes :: "string \<Rightarrow> u8 list" where
  "c_bytes s = map of_char s"

definition default_kv_table :: "default_kv list" where
  "default_kv_table = [\<lparr>def_key = c_bytes ''device_name'', def_value = c_bytes ''ds-eth-comm'' @ [0], def_value_len = 0\<rparr>]"

text \<open>The mutex of the port and its functions to lock and unlock are left out; so is the final message.\<close>

definition flashdb_init ::
  "'e flash_hal \<Rightarrow> u8 list \<Rightarrow> kv_stack \<Rightarrow> 'e w25_state fdb_db \<Rightarrow> 'e w25_state kvdb \<Rightarrow> (int \<times> 'e w25_state fdb_db \<times> 'e w25_state kvdb) option" where
  "flashdb_init H ids stk db k =
     (let k = snd (run_state (on_flash (w25q_init H ids)) k) in
      map_option (\<lambda>(result, db, k). (if result \<noteq> FDB_NO_ERR then - 1 else 0, db, k))
        (fdb_kvdb_init [w25q64_flash H ids] FAL_PART_TABLE ''kvdb1'' default_kv_table stk db k))"

text \<open>\<open>saved_len\<close> is what the uninitialised field \<open>saved.len\<close> of the local blob holds.\<close>

definition flashdb_get_kv_value :: "'s fdb_db \<Rightarrow> kv_stack \<Rightarrow> u8 list \<Rightarrow> u8 list \<Rightarrow> nat \<Rightarrow> ('s kvdb, u8 \<times> u8 list) state" where
  "flashdb_get_kv_value db stk key val saved_len = do {
     (_, val, saved_len) \<leftarrow> fdb_kv_get_blob db stk key val saved_len;
     ret (if saved_len > 0 then 0 else 1, val) }"

definition flashdb_set_kv_value :: "'s fdb_db \<Rightarrow> kv_stack \<Rightarrow> u8 list \<Rightarrow> u8 list \<Rightarrow> nat \<Rightarrow> ('s kvdb, u8) state" where
  "flashdb_set_kv_value db stk key val saved_len = do {
     _ \<leftarrow> fdb_kv_set_blob db stk key (Some val);
     ret (if saved_len > 0 then 0 else 1) }"

definition flashdb_del_kv_value :: "'s fdb_db \<Rightarrow> kv_stack \<Rightarrow> u8 list \<Rightarrow> ('s kvdb, u8) state" where
  "flashdb_del_kv_value db stk key = do {
     r \<leftarrow> fdb_kv_del db stk key;
     ret (if r = FDB_NO_ERR then 0 else 1) }"

end
