(* ===== verification/Fdb_Walk.thy ===== *)
theory Fdb_Walk
  imports Fdb_Init
begin

text \<open>
  The walks through the flash end by themselves within the rounds that the definitions allow, whatever
  the flash holds and whatever its operations return: more rounds give the same result.
\<close>

declare sector_iterator_loop.simps [simp del] kv_iterator_loop.simps [simp del] kv_loop.simps [simp del] next_kv_loop.simps [simp del]
  kv_iterate_loop.simps [simp del] check_loop.simps [simp del]

subsection \<open>The records of a sector\<close>

lemma read_kv_frame:
  assumes "run_state (read_kv db stk kv) s = ((r, kv'), s')"
  shows "addr_start kv' = addr_start kv" and "crc_is_ok kv' \<Longrightarrow> 24 \<le> unat (kv_len kv') \<and> unat (kv_len kv') \<le> unat (db_max_size db)"
proof -
  have size: "of_nat KV_HDR_DATA_SIZE = (24 :: u32)" by (simp add: KV_HDR_DATA_SIZE_def)
  have name: "fst (run_state (read_name db n x) t) = x\<lparr>kv_name := kv_name (fst (run_state (read_name db n x) t)),
      name_overrun := name_overrun (fst (run_state (read_name db n x) t))\<rparr>" for n x t
    by (simp add: read_name_def case_prod_beta)
  have name': "addr_start (fst (run_state (read_name db n x) t)) = addr_start x" "kv_len (fst (run_state (read_name db n x) t)) = kv_len x"
    "crc_is_ok (fst (run_state (read_name db n x) t)) = crc_is_ok x" for n x t
    by (subst name, simp)+
  show "addr_start kv' = addr_start kv" "crc_is_ok kv' \<Longrightarrow> 24 \<le> unat (kv_len kv') \<and> unat (kv_len kv') \<le> unat (db_max_size db)"
    using assms by (auto simp: read_kv_def size Let_def name' case_prod_beta word_less_nat_alt split: if_splits)
qed

lemma next_kv_loop_ge: "fst (run_state (next_kv_loop n db buf start bak fin) s) = FAILED_ADDR \<or> bak \<le> fst (run_state (next_kv_loop n db buf start bak fin) s)"
proof (induction n arbitrary: buf start s)
  case (Suc n)
  have "bak \<le> start + of_nat i - of_nat KV_MAGIC_OFFSET" if "find_magic buf start bak fin = Some i" for buf i
    using that by (auto simp: find_magic_def find_Some_iff)
  then show ?case using Suc.IH by (auto simp: next_kv_loop.simps case_prod_beta split: option.splits)
qed (simp add: next_kv_loop.simps)

lemma find_next_ge: "fst (run_state (find_next_kv_addr db stk start fin) k) = FAILED_ADDR \<or> start \<le> fst (run_state (find_next_kv_addr db stk start fin) k)"
  using next_kv_loop_ge [of "Suc (Suc (unat (fin - start) div 28))" db "stk_buf stk" start start fin "kv_env k"]
  by (auto simp: find_next_kv_addr_def on_flash_def case_prod_beta Let_def split: option.splits)

text \<open>The next record starts behind this one, in the sector.\<close>

lemma next_kv_greater:
  assumes "run_state (get_next_kv_addr db stk sector kv) k = (addr, k')" and "addr \<noteq> FAILED_ADDR"
    and "unat (sec_addr sector) + unat (db_sec_size db) + unat (db_max_size db) + 1 < 2 ^ 32"
    and "crc_is_ok kv \<Longrightarrow> 24 \<le> unat (kv_len kv) \<and> unat (kv_len kv) \<le> unat (db_max_size db)"
    and "unat (addr_start kv) \<le> unat (sec_addr sector) + unat (db_sec_size db)"
  shows "unat (addr_start kv) < unat addr \<and> unat addr \<le> unat (sec_addr sector) + unat (db_sec_size db)"
proof -
  let ?d = "if crc_is_ok kv then kv_len kv else 1" and ?fin = "sec_addr sector + db_sec_size db"
  have fin: "unat ?fin = unat (sec_addr sector) + unat (db_sec_size db)" using assms(3) unat_add_of_nat [of "sec_addr sector" "unat (db_sec_size db)"] by simp
  have d: "0 < unat ?d" "unat (addr_start kv + ?d) = unat (addr_start kv) + unat ?d"
    using assms(3-5) unat_add_of_nat [of "addr_start kv" "unat ?d"] by auto
  have "addr_start kv \<noteq> FAILED_ADDR"
  proof
    assume "addr_start kv = FAILED_ADDR"
    then have "unat (addr_start kv) = 4294967295" by (simp add: FAILED_ADDR_def)
    then show False using assms(3,5) by simp
  qed
  moreover have "addr_start kv \<le> ?fin" using assms(5) fin by (simp add: word_le_nat_alt)
  ultimately have "addr = fst (run_state (find_next_kv_addr db stk (addr_start kv + ?d) (?fin - SECTOR_HDR_DATA_SIZE)) k)" "\<not> addr > ?fin"
    using assms(1,2) by (auto simp: get_next_kv_addr_def Let_def case_prod_beta split: if_splits)
  then have "addr_start kv + ?d \<le> addr" "addr \<le> ?fin" using find_next_ge assms(2) by (metis, simp)
  then have "unat (addr_start kv) + unat ?d \<le> unat addr" "unat addr \<le> unat ?fin" using d(2) by (simp_all only: word_le_nat_alt)
  then show ?thesis using d(1) fin by linarith
qed

text \<open>The record after this one, for a loop that has just read it.\<close>

lemma read_then_next:
  assumes "run_state (read_kv db stk kv) e = ((r, kv1), e1)" and "run_state (get_next_kv_addr db stk sector kv1) k = (addr, k')"
    and "addr \<noteq> FAILED_ADDR" and "unat (sec_addr sector) + unat (db_sec_size db) + unat (db_max_size db) + 1 < 2 ^ 32"
    and "unat (addr_start kv) \<le> unat (sec_addr sector) + unat (db_sec_size db)"
  shows "unat (addr_start kv) < unat addr" and "unat addr \<le> unat (sec_addr sector) + unat (db_sec_size db)"
proof -
  note fr = read_kv_frame [OF assms(1)]
  have "unat (addr_start kv1) \<le> unat (sec_addr sector) + unat (db_sec_size db)" using assms(5) fr(1) by simp
  from next_kv_greater [OF assms(2-4) fr(2) this] fr(1)
  show "unat (addr_start kv) < unat addr" and "unat addr \<le> unat (sec_addr sector) + unat (db_sec_size db)" by simp_all
qed

lemma kv_loop_enough:
  assumes "unat (sec_addr sector) + unat (db_sec_size db) + unat (db_max_size db) + 1 < 2 ^ 32"
    and "unat (addr_start kv) \<le> unat (sec_addr sector) + unat (db_sec_size db)"
    and "unat (sec_addr sector) + unat (db_sec_size db) - unat (addr_start kv) < n"
  shows "run_state (kv_loop db stk sector callback (n + m) kv acc) k = run_state (kv_loop db stk sector callback n kv acc) k"
  using assms(2,3)
proof (induction n arbitrary: kv acc k)
  case (Suc n)
  obtain r kv1 e1 where 1: "run_state (read_kv db stk kv) (kv_env k) = ((r, kv1), e1)" by (metis prod.exhaust)
  obtain stop acc1 k2 where 2: "run_state (callback kv1 acc) (k\<lparr>kv_env := e1\<rparr>) = ((stop, acc1), k2)" by (metis prod.exhaust)
  obtain addr k3 where 3: "run_state (get_next_kv_addr db stk sector kv1) k2 = (addr, k3)" by fastforce
  have run: "run_state (kv_loop db stk sector callback (Suc x) kv acc) k =
      (if stop then ((True, kv1, acc1), k2) else if addr = FAILED_ADDR then ((False, kv1\<lparr>addr_start := addr\<rparr>, acc1), k3)
       else run_state (kv_loop db stk sector callback x (kv1\<lparr>addr_start := addr\<rparr>) acc1) k3)" for x
    using 1 2 3 by (simp add: kv_loop.simps on_flash_def Let_def)
  show ?case
  proof (cases "addr = FAILED_ADDR")
    case False
    note nx = read_then_next [OF 1 3 False assms(1) Suc.prems(1)]
    then have "run_state (kv_loop db stk sector callback (n + m) (kv1\<lparr>addr_start := addr\<rparr>) acc1) k3 =
        run_state (kv_loop db stk sector callback n (kv1\<lparr>addr_start := addr\<rparr>) acc1) k3"
      using Suc.prems by (intro Suc.IH) simp_all
    then show ?thesis using run [of n] run [of "n + m"] by simp
  qed (use run [of n] run [of "n + m"] in simp)
qed simp

lemma measure_loop_enough:
  assumes "unat (sec_addr sector) + unat (db_sec_size db) + unat (db_max_size db) + 1 < 2 ^ 32"
    and "unat (addr_start kv) \<le> unat (sec_addr sector) + unat (db_sec_size db)"
    and "unat (sec_addr sector) + unat (db_sec_size db) - unat (addr_start kv) < n"
  shows "run_state (measure_loop db stk (n + m) kv sector) k = run_state (measure_loop db stk n kv sector) k"
  using assms
proof (induction n arbitrary: kv sector k)
  case (Suc n)
  obtain r kv1 e1 where 1: "run_state (read_kv db stk kv) (kv_env k) = ((r, kv1), e1)" by (metis prod.exhaust)
  define bad where "bad \<longleftrightarrow> \<not> crc_is_ok kv1 \<and> kv_status kv1 \<noteq> FDB_KV_PRE_WRITE \<and> kv_status kv1 \<noteq> FDB_KV_ERR_HDR"
  define sec where "sec = sector\<lparr>empty_kv := empty_kv sector + kv_len kv1, remain := remain sector - kv_len kv1\<rparr>"
  obtain addr k3 where 3: "run_state (get_next_kv_addr db stk sec kv1) (k\<lparr>kv_env := e1\<rparr>) = (addr, k3)" by fastforce
  have run: "run_state (measure_loop db stk (Suc x) kv sector) k =
      (if bad then ((FDB_READ_ERR, sector\<lparr>remain := 0\<rparr>), k\<lparr>kv_env := e1\<rparr>) else if addr = FAILED_ADDR then ((FDB_NO_ERR, sec), k3)
       else run_state (measure_loop db stk x (kv1\<lparr>addr_start := addr\<rparr>) sec) k3)" for x
    using 1 3 by (simp add: on_flash_def Let_def bad_def sec_def)
  have sec: "sec_addr sec = sec_addr sector" by (simp add: sec_def)
  show ?case
  proof (cases "addr = FAILED_ADDR")
    case False
    have small: "unat (sec_addr sec) + unat (db_sec_size db) + unat (db_max_size db) + 1 < 2 ^ 32"
      and start: "unat (addr_start kv) \<le> unat (sec_addr sec) + unat (db_sec_size db)" using Suc.prems(1,2) sec by simp_all
    note nx = read_then_next [OF 1 3 False small start]
    have "run_state (measure_loop db stk (n + m) (kv1\<lparr>addr_start := addr\<rparr>) sec) k3 =
        run_state (measure_loop db stk n (kv1\<lparr>addr_start := addr\<rparr>) sec) k3"
      using Suc.prems nx sec small by (intro Suc.IH) simp_all
    then show ?thesis using run [of n] run [of "n + m"] by simp
  qed (use run [of n] run [of "n + m"] in simp)
qed simp

lemma check_kv_loop_enough:
  assumes "unat (sec_addr sector) + unat (db_sec_size db) + unat (db_max_size db) + 1 < 2 ^ 32"
    and "unat (addr_start kv) \<le> unat (sec_addr sector) + unat (db_sec_size db)"
    and "unat (sec_addr sector) + unat (db_sec_size db) - unat (addr_start kv) < n"
  shows "run_state (check_kv_loop db stk sector (n + m) kv) k = run_state (check_kv_loop db stk sector n kv) k"
  using assms(2,3)
proof (induction n arbitrary: kv k)
  case (Suc n)
  obtain r kv1 e1 where 1: "run_state (read_kv db stk kv) (kv_env k) = ((r, kv1), e1)" by (metis prod.exhaust)
  obtain addr k3 where 3: "run_state (get_next_kv_addr db stk sector kv1) (k\<lparr>kv_env := e1\<rparr>) = (addr, k3)" by fastforce
  have run: "run_state (check_kv_loop db stk sector (Suc x) kv) k =
      (if addr \<noteq> FAILED_ADDR \<and> r = FDB_NO_ERR then run_state (check_kv_loop db stk sector x (kv1\<lparr>addr_start := addr\<rparr>)) k3
       else ((r, kv1\<lparr>addr_start := addr\<rparr>), k3))" for x
    using 1 3 by (simp add: on_flash_def Let_def)
  show ?case
  proof (cases "addr = FAILED_ADDR")
    case False
    note nx = read_then_next [OF 1 3 False assms(1) Suc.prems(1)]
    have "run_state (check_kv_loop db stk sector (n + m) (kv1\<lparr>addr_start := addr\<rparr>)) k3 =
        run_state (check_kv_loop db stk sector n (kv1\<lparr>addr_start := addr\<rparr>)) k3"
      using Suc.prems nx by (intro Suc.IH) simp_all
    then show ?thesis using run [of n] run [of "n + m"] by simp
  qed (use run [of n] run [of "n + m"] in simp)
qed simp

subsection \<open>What the sector cache says about combined sectors\<close>

definition combined_ok :: "'s kvdb \<Rightarrow> bool" where
  "combined_ok k \<longleftrightarrow> (\<forall>c \<in> set (sector_cache_table k). combined c \<in> {SECTOR_NOT_COMBINED, SECTOR_COMBINED})"

definition keeps :: "('s kvdb, 'a) state \<Rightarrow> bool" where
  "keeps m \<longleftrightarrow> (\<forall>k. combined_ok k \<longrightarrow> combined_ok (snd (run_state m k)))"

named_theorems keeps_rules

lemma keeps_ret [keeps_rules]: "keeps (ret r)"
  by (simp add: keeps_def)

lemma keeps_get [keeps_rules]: "keeps getst"
  by (simp add: keeps_def)

lemma keeps_bind [keeps_rules]: "keeps m \<Longrightarrow> (\<And>r. keeps (f r)) \<Longrightarrow> keeps (State_Monad.bind m f)"
  by (simp add: keeps_def case_prod_beta)

lemma keeps_if [keeps_rules]: "(b \<Longrightarrow> keeps m) \<Longrightarrow> (\<not> b \<Longrightarrow> keeps n) \<Longrightarrow> keeps (if b then m else n)"
  by simp

lemma keeps_prod [keeps_rules]: "(\<And>x y. p = (x, y) \<Longrightarrow> keeps (f x y)) \<Longrightarrow> keeps (case p of (x, y) \<Rightarrow> f x y)"
  by (cases p) simp

lemma keeps_option [keeps_rules]: "keeps m \<Longrightarrow> (\<And>x. keeps (f x)) \<Longrightarrow> keeps (case q of None \<Rightarrow> m | Some x \<Rightarrow> f x)"
  by (cases q) simp_all

lemma keeps_let [keeps_rules]: "keeps (f x) \<Longrightarrow> keeps (let y = x in f y)"
  by simp

lemma keeps_on_flash [keeps_rules]: "keeps (on_flash m)"
  by (simp add: keeps_def on_flash_def combined_ok_def case_prod_beta Let_def)

lemma keeps_modify: "(\<And>k. sector_cache_table (f k) = sector_cache_table k) \<Longrightarrow> keeps (modify f)"
  by (simp add: keeps_def combined_ok_def)

lemma find_sector_some: "fst (find_sector i cs a e) = Some j \<Longrightarrow> i \<le> j \<and> j < i + length cs \<and> sec_addr (cs ! (j - i)) = a"
proof (induction i cs a e arbitrary: j rule: find_sector.induct)
  case (2 i c cs a e)
  then show ?case by (cases "sec_addr c = a") (auto simp: Suc_le_eq nth_Cons' dest!: 2(1))
qed simp

lemma cached_combined:
  assumes "combined_ok k" and "get_sector_from_cache k a = Some i"
  shows "combined (sector_cache_table k ! i) \<in> {SECTOR_NOT_COMBINED, SECTOR_COMBINED}"
  using find_sector_some [of 0 "sector_cache_table k" a None i] assms by (auto simp: combined_ok_def get_sector_from_cache_def)

lemma combined_update:
  assumes "combined_ok k" and "combined sec \<in> {SECTOR_NOT_COMBINED, SECTOR_COMBINED}"
  shows "combined_ok (k\<lparr>sector_cache_table := (sector_cache_table k)[i := sec]\<rparr>)"
  using assms set_update_subset_insert [of "sector_cache_table k" i sec] by (auto simp: combined_ok_def)

lemma keeps_with_cached [keeps_rules]:
  assumes "\<And>c. combined (f c) = combined c"
  shows "keeps (with_cached_sector a f)"
  unfolding keeps_def
proof (intro allI impI)
  fix k :: "'a kvdb" assume k: "combined_ok k"
  show "combined_ok (snd (run_state (with_cached_sector a f) k))"
  proof (cases "get_sector_from_cache k a")
    case (Some i)
    then show ?thesis using combined_update [OF k, of "f (sector_cache_table k ! i)" i] cached_combined [OF k Some] assms
      by (simp add: with_cached_sector_def)
  qed (use k in \<open>simp add: with_cached_sector_def\<close>)
qed

lemma keeps_update_sector:
  assumes "check_ok sec \<longrightarrow> combined sec \<in> {SECTOR_NOT_COMBINED, SECTOR_COMBINED}"
  shows "keeps (update_sector_cache sec)"
  unfolding keeps_def
proof (intro allI impI)
  fix k :: "'a kvdb" assume k: "combined_ok k"
  obtain q e where q: "find_sector 0 (sector_cache_table k) (sec_addr sec) None = (q, e)" by fastforce
  have c: "combined (sector_cache_table k ! i) \<in> {SECTOR_NOT_COMBINED, SECTOR_COMBINED}" if "q = Some i" for i
    using cached_combined [OF k, of "sec_addr sec" i] q that by (simp add: get_sector_from_cache_def)
  show "combined_ok (snd (run_state (update_sector_cache sec) k))"
    using k q assms c combined_update [OF k, of sec] combined_update [OF k, of "(sector_cache_table k ! _)\<lparr>sec_addr := FDB_DATA_UNUSED\<rparr>"]
    by (auto simp: update_sector_cache_def Let_def split: option.splits)
qed

lemma keeps_next_kv [keeps_rules]: "keeps (get_next_kv_addr db stk sector kv)"
  unfolding get_next_kv_addr_def find_next_kv_addr_def by (intro keeps_rules)

lemma keeps_measure_loop [keeps_rules]: "keeps (measure_loop db stk n kv sector)"
  by (induction db stk n kv sector rule: measure_loop.induct) (auto intro!: keeps_rules simp: Let_def)

lemma measure_loop_combined: "combined (snd (fst (run_state (measure_loop db stk n kv sector) k))) = combined sector"
proof (induction db stk n kv sector arbitrary: k rule: measure_loop.induct)
  case (2 db stk n kv sector)
  then show ?case by (simp add: Let_def case_prod_beta)
qed simp

lemma measure_combined: "combined (snd (fst (run_state (measure_sector db stk sector) k))) = combined sector"
  by (simp add: measure_sector_def Let_def case_prod_beta measure_loop_combined)

lemma keeps_measure [keeps_rules]: "keeps (measure_sector db stk sector)"
  unfolding measure_sector_def by (intro keeps_rules)

lemma header_combined:
  assumes "combined_ok k"
  shows "combined (snd (fst (run_state (read_sector_header db stk a sec b) k))) \<in> {SECTOR_NOT_COMBINED, SECTOR_COMBINED} \<and>
    combined_ok (snd (run_state (read_sector_header db stk a sec b) k))"
proof -
  obtain r hdr e where 1: "run_state (fdb_flash_read db a (replicate 16 0)) (kv_env k) = ((r, hdr), e)" by (metis prod.exhaust)
  let ?comb = "un_le32 (take 4 (drop 8 hdr))" and ?k = "k\<lparr>kv_env := e\<rparr>"
  define sec0 where "sec0 = sec\<lparr>store_status := FDB_SECTOR_STORE_UNUSED, dirty_status := FDB_SECTOR_DIRTY_UNUSED, sec_addr := a,
    sec_magic := un_le32 (take 4 (drop 4 hdr))\<rparr>"
  have k: "combined_ok ?k" using assms by (simp add: combined_ok_def)
  have upd: "combined_ok (snd (run_state (update_sector_cache x) l))" if "combined_ok l" "combined x \<in> {SECTOR_NOT_COMBINED, SECTOR_COMBINED}" for x l
    using keeps_update_sector [of x] that by (auto simp: keeps_def)
  define bad where "bad \<longleftrightarrow> sec_magic sec0 \<noteq> SECTOR_MAGIC_WORD \<or> ?comb \<noteq> SECTOR_NOT_COMBINED \<and> ?comb \<noteq> SECTOR_COMBINED"
  define sec1 where "sec1 = sec0\<lparr>check_ok := True, combined := ?comb, store_status := store_of (fdb_get_status [hdr ! 0] FDB_SECTOR_STATUS_NUM),
    dirty_status := dirty_of (fdb_get_status [hdr ! 1] FDB_SECTOR_STATUS_NUM)\<rparr>"
  have run: "run_state (read_sector_header db stk a sec b) k =
      (if bad then ((FDB_INIT_FAILED, sec0\<lparr>check_ok := False, combined := SECTOR_NOT_COMBINED\<rparr>), ?k)
       else if b then (let ((result, sec2), k2) = run_state (measure_sector db stk sec1) ?k in ((result, sec2), snd (run_state (update_sector_cache sec2) k2)))
       else if get_sector_from_cache ?k (sec_addr sec1) = None
         then ((FDB_NO_ERR, sec1\<lparr>empty_kv := FAILED_ADDR, remain := 0\<rparr>), snd (run_state (update_sector_cache (sec1\<lparr>empty_kv := FAILED_ADDR, remain := 0\<rparr>)) ?k))
         else ((FDB_NO_ERR, sec1), ?k))"
    using 1 unfolding bad_def sec1_def sec0_def by (simp add: read_sector_header_def on_flash_def Let_def case_prod_beta)
  have c1: "combined sec1 \<in> {SECTOR_NOT_COMBINED, SECTOR_COMBINED}" if "\<not> bad" using that by (auto simp: bad_def sec1_def)
  obtain result sec2 k2 where m: "run_state (measure_sector db stk sec1) ?k = ((result, sec2), k2)" by (metis prod.exhaust)
  have k2: "combined_ok k2" "combined sec2 = combined sec1"
    using keeps_measure [of db stk sec1] k m measure_combined [of db stk sec1 ?k] by (simp_all add: keeps_def) (metis snd_conv)
  show ?thesis
  proof (cases "bad \<or> \<not> b")
    case True
    then show ?thesis using run c1 k upd [OF k, of "sec1\<lparr>empty_kv := FAILED_ADDR, remain := 0\<rparr>"] by auto
  next
    case False
    then show ?thesis using run m c1 k2 upd [OF k2(1), of sec2] by simp
  qed
qed

lemma read_sector_combined:
  assumes "combined_ok k"
  shows "combined (snd (fst (run_state (read_sector_info db stk a sec b) k))) \<in> {SECTOR_NOT_COMBINED, SECTOR_COMBINED} \<and>
    combined_ok (snd (run_state (read_sector_info db stk a sec b) k))"
  using header_combined [OF assms, of db stk a sec b] assms cached_combined [OF assms]
  by (auto simp: read_sector_info_def split: option.splits)

lemma keeps_read_sector [keeps_rules]: "keeps (read_sector_info db stk a sec b)"
  unfolding keeps_def using read_sector_combined by blast

subsection \<open>All sectors\<close>

lemma next_sector_ends:
  assumes "combined sec \<in> {SECTOR_NOT_COMBINED, SECTOR_COMBINED}" and "get_next_sector_addr db sec t \<noteq> FAILED_ADDR"
    and "unat t + unat (db_sec_size db) < 2 ^ 32"
  shows "unat t \<le> unat (db_max_size db)"
proof -
  have "unat (t + db_sec_size db) = unat t + unat (db_sec_size db)" using assms(3) unat_add_of_nat [of t "unat (db_sec_size db)"] by simp
  then show ?thesis using assms(1,2)
    by (auto simp: get_next_sector_addr_def SECTOR_COMBINED_def SECTOR_NOT_COMBINED_def Let_def word_le_nat_alt split: if_splits)
qed

lemma sector_walk_enough:
  assumes "unat (db_max_size db) + 2 * unat (db_sec_size db) < 2 ^ 32" and "\<And>sec acc. keeps (callback sec acc)"
    and "combined_ok k" and "unat t \<le> unat (db_max_size db)" and "unat (db_max_size db) < unat t + n * unat (db_sec_size db)"
  shows "run_state (sector_iterator_loop (n + m) db stk status callback b a t sec acc) k = run_state (sector_iterator_loop n db stk status callback b a t sec acc) k"
  using assms(3-5)
proof (induction n arbitrary: a t sec acc k)
  case (Suc n)
  have t: "unat (t + db_sec_size db) = unat t + unat (db_sec_size db)"
    using assms(1) Suc.prems(2) unat_add_of_nat [of t "unat (db_sec_size db)"] by simp
  obtain r1 sec1 k1 where 1: "run_state (read_sector_info db stk a sec False) k = ((r1, sec1), k1)" by (metis prod.exhaust)
  have c1: "combined sec1 \<in> {SECTOR_NOT_COMBINED, SECTOR_COMBINED}" "combined_ok k1" using read_sector_combined [OF Suc.prems(1), of db stk a sec False] 1 by simp_all
  define visit where "visit = (if status = FDB_SECTOR_STORE_UNUSED \<or> status = store_status sec1 then do {
      sector \<leftarrow> (if b then do { (_, sector) \<leftarrow> read_sector_info db stk a sec1 True; ret sector } else ret sec1);
      (stop, acc) \<leftarrow> callback sector acc;
      ret (stop, sector, acc) }
    else ret (False, sec1, acc))"
  obtain stop sec2 acc2 k2 where 2: "run_state visit k1 = ((stop, sec2, acc2), k2)" by (metis prod.exhaust)
  have "keeps visit" unfolding visit_def by (intro keeps_rules assms(2))
  then have k2: "combined_ok k2" using c1(2) 2 by (metis keeps_def snd_conv)
  have c2: "combined sec2 \<in> {SECTOR_NOT_COMBINED, SECTOR_COMBINED}"
    using 2 c1 read_sector_combined [OF c1(2), of db stk a sec1 True] by (auto simp: visit_def case_prod_beta split: if_splits)
  define a' where "a' = get_next_sector_addr db sec2 (t + db_sec_size db)"
  have run: "run_state (sector_iterator_loop (Suc x) db stk status callback b a t sec acc) k =
      (if stop \<or> a' = FAILED_ADDR then ((sec2, acc2), k2)
       else run_state (sector_iterator_loop x db stk status callback b a' (t + db_sec_size db) sec2 acc2) k2)" for x
    using 1 2 by (simp add: sector_iterator_loop.simps visit_def a'_def Let_def)
  show ?case
  proof (cases "a' = FAILED_ADDR")
    case False
    have "unat (t + db_sec_size db) + unat (db_sec_size db) < 2 ^ 32" using assms(1) Suc.prems(2) t by simp
    from next_sector_ends [OF c2 False [unfolded a'_def] this]
    have "run_state (sector_iterator_loop (n + m) db stk status callback b a' (t + db_sec_size db) sec2 acc2) k2 =
        run_state (sector_iterator_loop n db stk status callback b a' (t + db_sec_size db) sec2 acc2) k2"
      using Suc.prems(3) t by (intro Suc.IH [OF k2]) simp_all
    then show ?thesis using run [of n] run [of "n + m"] by simp
  qed (use run [of n] run [of "n + m"] in simp)
qed simp

subsection \<open>Every operation of the store keeps this\<close>

lemma keeps_kv_cache [keeps_rules]: "keeps (update_kv_cache name a)"
  unfolding update_kv_cache_def by (rule keeps_modify) (simp add: Let_def case_prod_beta)

lemma keeps_sector_caches [keeps_rules]: "keeps (update_sector_empty_addr_cache db a e)" "keeps (update_sector_status_store_cache a st)"
  unfolding update_sector_empty_addr_cache_def update_sector_status_store_cache_def by (intro keeps_rules; simp)+

lemma keeps_kv_loop: "(\<And>kv acc. keeps (callback kv acc)) \<Longrightarrow> keeps (kv_loop db stk sector callback n kv acc)"
proof (induction n arbitrary: kv acc)
  case (Suc n)
  show ?case unfolding kv_loop.simps by (intro keeps_rules Suc)
qed (simp add: kv_loop.simps keeps_rules)

lemma keeps_kv_iterator_loop: "(\<And>kv acc. keeps (callback kv acc)) \<Longrightarrow> keeps (kv_iterator_loop n db stk callback a t sector kv acc)"
proof (induction n arbitrary: a t sector kv acc)
  case (Suc n)
  show ?case unfolding kv_iterator_loop.simps kv_in_sector_def by (intro keeps_rules keeps_kv_loop Suc)
qed (simp add: kv_iterator_loop.simps keeps_rules)

lemma keeps_sector_loop: "(\<And>sec acc. keeps (callback sec acc)) \<Longrightarrow> keeps (sector_iterator_loop n db stk status callback b a t sector acc)"
proof (induction n arbitrary: a t sector acc)
  case (Suc n)
  show ?case unfolding sector_iterator_loop.simps by (intro keeps_rules Suc)
qed (simp add: sector_iterator_loop.simps keeps_rules)

lemma keeps_search [keeps_rules]: "keeps (search_kv_cache db name is)"
proof (induction "is")
  case (Cons i "is")
  show ?case unfolding search_kv_cache.simps by (intro keeps_rules Cons keeps_modify) simp
qed (simp add: keeps_rules)

lemma keeps_find [keeps_rules]: "keeps (find_kv_no_cache db stk key kv)" "keeps (find_kv db stk key kv)"
  unfolding find_kv_def find_kv_no_cache_def kv_iterator_def get_kv_from_cache_def find_kv_cb_def
  by (intro keeps_rules keeps_kv_iterator_loop)+

lemma keeps_format [keeps_rules]: "keeps (format_sector db a c)"
  unfolding format_sector_def by (intro keeps_rules keeps_update_sector) (simp add: zero_sector_def)

lemma keeps_sec_status [keeps_rules]: "keeps (update_sec_status db sector n b)"
  unfolding update_sec_status_def by (intro keeps_rules)

lemma keeps_iterator: "(\<And>sec acc. keeps (callback sec acc)) \<Longrightarrow> keeps (sector_iterator db stk sector status callback b acc)"
  unfolding sector_iterator_def by (intro keeps_rules keeps_sector_loop)

lemma keeps_alloc [keeps_rules]: "keeps (alloc_kv db stk sector n)"
  unfolding alloc_kv_def sector_statistics_cb_def alloc_kv_cb_def by (intro keeps_rules keeps_iterator keeps_modify) simp

lemma keeps_del_found [keeps_rules]: "keeps (del_found db key kv b)"
  unfolding del_found_def mark_dirty_def by (intro keeps_rules keeps_modify) simp_all

lemma keeps_del [keeps_rules]: "keeps (del_kv db stk key old b)"
  unfolding del_kv_def by (intro keeps_rules)

lemma keeps_move [keeps_rules]: "keeps (move_kv db stk kv)"
  unfolding move_kv_def move_data_def by (intro keeps_rules)

lemma keeps_gc_cb [keeps_rules]: "keeps (do_gc db stk n sec acc)"
proof -
  have "keeps (gc_kv_cb db stk kv u)" for kv u unfolding gc_kv_cb_def by (intro keeps_rules)
  then show ?thesis unfolding do_gc_def by (intro keeps_rules keeps_kv_loop keeps_modify) simp_all
qed

lemma keeps_gc [keeps_rules]: "keeps (gc_collect_by_free_size db stk n)"
  unfolding gc_collect_by_free_size_def gc_check_cb_def by (intro keeps_rules keeps_iterator keeps_modify) simp

lemma keeps_new [keeps_rules]: "keeps (new_kv db stk sector n)" "keeps (new_kv_ex db stk sector p q)"
  unfolding new_kv_ex_def new_kv_def by (intro keeps_rules keeps_modify; simp)+

lemma keeps_create [keeps_rules]: "keeps (create_kv_blob db stk sector key val)"
  unfolding create_kv_blob_def write_new_kv_def by (intro keeps_rules keeps_modify) simp

lemma keeps_set: "keeps (fdb_kv_set_blob db stk key val)" "keeps (fdb_kv_del db stk key)" "keeps (fdb_kv_get_blob db stk key buf n)"
  unfolding fdb_kv_set_blob_def set_kv_def fdb_kv_del_def fdb_kv_get_blob_def get_kv_def by (intro keeps_rules keeps_modify; simp)+

lemma kv_walk_enough:
  assumes "unat (db_max_size db) + 2 * unat (db_sec_size db) < 2 ^ 32" and "\<And>kv acc. keeps (callback kv acc)"
    and "combined_ok k" and "unat t \<le> unat (db_max_size db)" and "unat (db_max_size db) < unat t + n * unat (db_sec_size db)"
  shows "run_state (kv_iterator_loop (n + m) db stk callback a t sec kv acc) k = run_state (kv_iterator_loop n db stk callback a t sec kv acc) k"
  using assms(3-5)
proof (induction n arbitrary: a t sec kv acc k)
  case (Suc n)
  have t: "unat (t + db_sec_size db) = unat t + unat (db_sec_size db)"
    using assms(1) Suc.prems(2) unat_add_of_nat [of t "unat (db_sec_size db)"] by simp
  obtain r1 sec1 k1 where 1: "run_state (read_sector_info db stk a sec False) k = ((r1, sec1), k1)" by (metis prod.exhaust)
  have c1: "combined sec1 \<in> {SECTOR_NOT_COMBINED, SECTOR_COMBINED}" "combined_ok k1" using read_sector_combined [OF Suc.prems(1), of db stk a sec False] 1 by simp_all
  define visit where "visit = (if r1 \<noteq> FDB_NO_ERR then ret (False, kv, acc) else kv_in_sector db stk sec1 callback kv acc)"
  obtain stop kv2 acc2 k2 where 2: "run_state visit k1 = ((stop, kv2, acc2), k2)" by (metis prod.exhaust)
  have "keeps visit" unfolding visit_def kv_in_sector_def by (intro keeps_rules keeps_kv_loop assms(2))
  then have k2: "combined_ok k2" using c1(2) 2 by (metis keeps_def snd_conv)
  define a' where "a' = get_next_sector_addr db sec1 (t + db_sec_size db)"
  have run: "run_state (kv_iterator_loop (Suc x) db stk callback a t sec kv acc) k =
      (if stop \<or> a' = FAILED_ADDR then ((kv2, acc2), k2)
       else run_state (kv_iterator_loop x db stk callback a' (t + db_sec_size db) sec1 kv2 acc2) k2)" for x
    using 1 2 by (simp add: kv_iterator_loop.simps visit_def a'_def Let_def)
  show ?case
  proof (cases "a' = FAILED_ADDR")
    case False
    have "unat (t + db_sec_size db) + unat (db_sec_size db) < 2 ^ 32" using assms(1) Suc.prems(2) t by simp
    from next_sector_ends [OF c1(1) False [unfolded a'_def] this]
    have "run_state (kv_iterator_loop (n + m) db stk callback a' (t + db_sec_size db) sec1 kv2 acc2) k2 =
        run_state (kv_iterator_loop n db stk callback a' (t + db_sec_size db) sec1 kv2 acc2) k2"
      using Suc.prems(3) t by (intro Suc.IH [OF k2]) simp_all
    then show ?thesis using run [of n] run [of "n + m"] by simp
  qed (use run [of n] run [of "n + m"] in simp)
qed simp

lemma keeps_check_kv_loop [keeps_rules]: "keeps (check_kv_loop db stk sector n kv)"
proof (induction n arbitrary: kv)
  case (Suc n)
  show ?case unfolding check_kv_loop.simps by (intro keeps_rules Suc)
qed (simp add: keeps_rules)

lemma check_walk_enough:
  assumes "unat (db_max_size db) + 2 * unat (db_sec_size db) < 2 ^ 32" and "combined_ok k"
    and "unat t \<le> unat (db_max_size db)" and "unat (db_max_size db) < unat t + n * unat (db_sec_size db)"
  shows "run_state (check_loop (n + m) db stk a t sec kv) k = run_state (check_loop n db stk a t sec kv) k"
  using assms(2-4)
proof (induction n arbitrary: a t sec kv k)
  case (Suc n)
  have t: "unat (t + db_sec_size db) = unat t + unat (db_sec_size db)"
    using assms(1) Suc.prems(2) unat_add_of_nat [of t "unat (db_sec_size db)"] by simp
  obtain r1 sec1 k1 where 1: "run_state (read_sector_info db stk a sec False) k = ((r1, sec1), k1)" by (metis prod.exhaust)
  have c1: "combined sec1 \<in> {SECTOR_NOT_COMBINED, SECTOR_COMBINED}" "combined_ok k1" using read_sector_combined [OF Suc.prems(1), of db stk a sec False] 1 by simp_all
  define visit where "visit = (if r1 = FDB_NO_ERR \<and> (store_status sec1 = FDB_SECTOR_STORE_USING \<or> store_status sec1 = FDB_SECTOR_STORE_FULL)
    then check_kv_loop db stk sec1 (unat (db_sec_size db)) (kv\<lparr>addr_start := sec_addr sec1 + SECTOR_HDR_DATA_SIZE\<rparr>) else ret (r1, kv))"
  obtain r2 kv2 k2 where 2: "run_state visit k1 = ((r2, kv2), k2)" by (metis prod.exhaust)
  have "keeps visit" unfolding visit_def by (intro keeps_rules)
  then have k2: "combined_ok k2" using c1(2) 2 by (metis keeps_def snd_conv)
  define a' where "a' = get_next_sector_addr db sec1 (t + db_sec_size db)"
  have run: "run_state (check_loop (Suc x) db stk a t sec kv) k =
      (if a' \<noteq> FAILED_ADDR \<and> r2 = FDB_NO_ERR then run_state (check_loop x db stk a' (t + db_sec_size db) sec1 kv2) k2 else (r2, k2))" for x
    using 1 2 by (simp add: check_loop.simps visit_def a'_def Let_def)
  show ?case
  proof (cases "a' = FAILED_ADDR")
    case False
    have "unat (t + db_sec_size db) + unat (db_sec_size db) < 2 ^ 32" using assms(1) Suc.prems(2) t by simp
    from next_sector_ends [OF c1(1) False [unfolded a'_def] this]
    have "run_state (check_loop (n + m) db stk a' (t + db_sec_size db) sec1 kv2) k2 =
        run_state (check_loop n db stk a' (t + db_sec_size db) sec1 kv2) k2"
      using Suc.prems(3) t by (intro Suc.IH [OF k2]) simp_all
    then show ?thesis using run [of n] run [of "n + m"] by simp
  qed (use run [of n] run [of "n + m"] in simp)
qed simp

lemma keeps_iterate_sector [keeps_rules]: "keeps (iterate_sector db stk sector kv)"
  unfolding iterate_sector_def valid_kv_cb_def by (intro keeps_rules keeps_kv_loop)

lemma iterate_walk_enough:
  assumes "unat (db_max_size db) + 2 * unat (db_sec_size db) < 2 ^ 32" and "combined_ok k"
    and "unat (itr_traversed_len itr) \<le> unat (db_max_size db)"
    and "unat (db_max_size db) < unat (itr_traversed_len itr) + n * unat (db_sec_size db)"
  shows "run_state (kv_iterate_loop (n + m) db stk sec itr) k = run_state (kv_iterate_loop n db stk sec itr) k"
  using assms(2-4)
proof (induction n arbitrary: sec itr k)
  case (Suc n)
  let ?t = "itr_traversed_len itr"
  have t: "unat (?t + db_sec_size db) = unat ?t + unat (db_sec_size db)"
    using assms(1) Suc.prems(2) unat_add_of_nat [of ?t "unat (db_sec_size db)"] by simp
  obtain r1 sec1 k1 where 1: "run_state (read_sector_info db stk (sector_addr itr) sec False) k = ((r1, sec1), k1)" by (metis prod.exhaust)
  have c1: "combined sec1 \<in> {SECTOR_NOT_COMBINED, SECTOR_COMBINED}" "combined_ok k1"
    using read_sector_combined [OF Suc.prems(1), of db stk "sector_addr itr" sec False] 1 by simp_all
  define visit where "visit = (if r1 = FDB_NO_ERR \<and> (store_status sec1 = FDB_SECTOR_STORE_USING \<or> store_status sec1 = FDB_SECTOR_STORE_FULL)
    then iterate_sector db stk sec1 (curr_kv itr) else ret (False, curr_kv itr))"
  obtain found kv2 k2 where 2: "run_state visit k1 = ((found, kv2), k2)" by (metis prod.exhaust)
  have "keeps visit" unfolding visit_def by (intro keeps_rules)
  then have k2: "combined_ok k2" using c1(2) 2 by (metis keeps_def snd_conv)
  define a' where "a' = get_next_sector_addr db sec1 (?t + db_sec_size db)"
  define itr' where "itr' = itr\<lparr>curr_kv := kv2\<lparr>addr_start := 0\<rparr>, itr_traversed_len := ?t + db_sec_size db, sector_addr := a'\<rparr>"
  have run: "run_state (kv_iterate_loop (Suc x) db stk sec itr) k =
      (if found then ((True, count_kv kv2 itr), k2) else if a' \<noteq> FAILED_ADDR then run_state (kv_iterate_loop x db stk sec1 itr') k2
       else ((False, itr'), k2))" for x
    using 1 2 by (simp add: kv_iterate_loop.simps visit_def a'_def itr'_def Let_def)
  show ?case
  proof (cases "a' = FAILED_ADDR")
    case False
    have "unat (?t + db_sec_size db) + unat (db_sec_size db) < 2 ^ 32" using assms(1) Suc.prems(2) t by simp
    from next_sector_ends [OF c1(1) False [unfolded a'_def] this]
    have "run_state (kv_iterate_loop (n + m) db stk sec1 itr') k2 = run_state (kv_iterate_loop n db stk sec1 itr') k2"
      using Suc.prems(3) t by (intro Suc.IH [OF k2]) (simp_all add: itr'_def)
    then show ?thesis using run [of n] run [of "n + m"] by simp
  qed (use run [of n] run [of "n + m"] in simp)
qed simp

lemma sector_num_covers:
  assumes "db_sec_size db \<noteq> 0"
  shows "unat (db_max_size db) < (sector_num db + 1) * unat (db_sec_size db)"
proof -
  have "0 < unat (db_sec_size db)" using assms by (simp add: unat_gt_0)
  then show ?thesis using dividend_less_div_times [of "unat (db_sec_size db)" "unat (db_max_size db)"]
    by (simp add: sector_num_def unat_div_distrib add.commute)
qed

definition any_stack :: kv_stack where
  "any_stack = \<lparr>stk_hdr = replicate 24 0, stk_buf = replicate 32 0, stk_kv = zero_kv, stk_sector = zero_sector\<rparr>"

end
