(* ===== verification/Fdb_Sectors.thy ===== *)
theory Fdb_Sectors
  imports Fdb_Lookup Fdb_Walk
begin

text \<open>
  The walk over all sectors, for a flash in which every sector is in the same situation: the
  iterator visits each sector once and the callback sees what \<open>read_sector_info\<close> finds there.
\<close>

definition sector_start :: "nat \<Rightarrow> u32 \<Rightarrow> bool" where
  "sector_start n a \<longleftrightarrow> unat a mod 4096 = 0 \<and> unat a < n"

declare sector_iterator_loop.simps [simp del] kv_iterator_loop.simps [simp del] kv_loop.simps [simp del] next_kv_loop.simps [simp del] format_all.simps [simp del]

context flash_reader begin

lemma sector_inside:
  assumes "sector_start store_size a"
  shows "unat a + 4096 \<le> store_size"
proof -
  have "4096 dvd unat a" and "4096 dvd store_size" using assms store_sectors by (simp_all add: sector_start_def dvd_eq_mod_eq_0)
  then obtain i j where "unat a = 4096 * i" and "store_size = 4096 * j" by (auto elim!: dvdE)
  then show ?thesis using assms by (simp add: sector_start_def)
qed

lemma max_less: "x \<le> db_max_size db \<longleftrightarrow> unat x \<le> store_size" "x < db_max_size db \<longleftrightarrow> unat x < store_size"
  using db_sizes(1) by (simp_all add: word_le_nat_alt word_less_nat_alt)

lemma max_num: "sector_num db * 4096 = store_size"
proof -
  have "unat (db_max_size db div db_sec_size db) = store_size div 4096" using db_sizes by (simp add: unat_div_distrib)
  then show ?thesis using store_sectors dvd_div_mult_self [of 4096 store_size] by (simp add: sector_num_def dvd_eq_mod_eq_0)
qed

lemma next_sector:
  assumes "sector_start store_size (sec_addr sec)" and "combined sec = SECTOR_NOT_COMBINED" and "unat t \<le> store_size"
  shows "unat t + 4096 \<le> store_size \<Longrightarrow> sector_start store_size (get_next_sector_addr db sec t) \<and> get_next_sector_addr db sec t \<noteq> FAILED_ADDR"
    and "store_size < unat t + 4096 \<Longrightarrow> get_next_sector_addr db sec t = FAILED_ADDR"
proof -
  have u: "unat (t + 4096) = unat t + 4096" "unat (sec_addr sec + 4096) = unat (sec_addr sec) + 4096"
    using assms(1,3) store_bound unat_add_of_nat [of t 4096] unat_add_of_nat [of "sec_addr sec" 4096]
    by (simp_all add: sector_start_def)
  have nf: "x \<noteq> FAILED_ADDR" if "unat x < store_size" for x :: u32
  proof
    assume "x = FAILED_ADDR"
    then have "unat x = 4294967295" by (simp add: FAILED_ADDR_def)
    then show False using that store_bound by simp
  qed
  show "store_size < unat t + 4096 \<Longrightarrow> get_next_sector_addr db sec t = FAILED_ADDR"
    using assms(2) u by (simp add: get_next_sector_addr_def db_sizes max_less)
  assume "unat t + 4096 \<le> store_size"
  then have "get_next_sector_addr db sec t = (if unat (sec_addr sec) + 4096 < store_size then sec_addr sec + 4096 else 0)"
    using assms(2) u by (simp add: get_next_sector_addr_def db_sizes max_less)
  moreover have "0 < store_size" using assms(1) by (simp add: sector_start_def)
  moreover have "(unat (sec_addr sec) + 4096) mod 4096 = 0" using assms(1) by (simp add: sector_start_def)
  ultimately have "sector_start store_size (get_next_sector_addr db sec t)" using u by (auto simp: sector_start_def)
  then show "sector_start store_size (get_next_sector_addr db sec t) \<and> get_next_sector_addr db sec t \<noteq> FAILED_ADDR"
    using nf by (simp add: sector_start_def)
qed

lemma sector_loop:
  assumes read: "\<And>a sec k. sector_start store_size a \<Longrightarrow> Inv k \<Longrightarrow>
      \<exists>r sec' k'. run_state (read_sector_info db stk a sec False) k = ((r, sec'), k') \<and> Inv k' \<and> P a sec'"
    and P: "\<And>a sec. P a sec \<Longrightarrow> sec_addr sec = a \<and> combined sec = SECTOR_NOT_COMBINED"
    and visit: "\<And>a sec k acc. sector_start store_size a \<Longrightarrow> Inv k \<Longrightarrow> P a sec \<Longrightarrow>
      \<exists>k'. run_state (callback sec acc) k = ((False, f acc), k') \<and> Inv k'"
    and "0 < m" and "m \<le> n" and "unat t + m * 4096 = store_size" and "sector_start store_size a" and "Inv k"
  shows "\<exists>sec' k'. run_state (sector_iterator_loop n db stk FDB_SECTOR_STORE_UNUSED callback False a t sec acc) k = ((sec', (f ^^ m) acc), k') \<and> Inv k'"
  using assms(4-8)
proof (induction m arbitrary: n t a sec acc k)
  case (Suc m)
  obtain n' where n: "n = Suc n'" using Suc.prems(2) by (cases n) auto
  obtain r sec' k1 where r: "run_state (read_sector_info db stk a sec False) k = ((r, sec'), k1)" "Inv k1" "P a sec'"
    using read [OF Suc.prems(4,5)] by blast
  obtain k2 where k2: "run_state (callback sec' acc) k1 = ((False, f acc), k2)" "Inv k2" using visit [OF Suc.prems(4) r(2,3)] by blast
  have t: "unat (t + 4096) = unat t + 4096" using Suc.prems(3) store_bound unat_add_of_nat [of t 4096] by simp
  have sec': "sec_addr sec' = a" "combined sec' = SECTOR_NOT_COMBINED" using P [OF r(3)] by simp_all
  have start: "sector_start store_size (sec_addr sec')" using Suc.prems(4) sec' by simp
  define a' where "a' = get_next_sector_addr db sec' (t + 4096)"
  have step: "run_state (sector_iterator_loop n db stk FDB_SECTOR_STORE_UNUSED callback False a t sec acc) k =
      (if a' = FAILED_ADDR then ((sec', f acc), k2)
       else run_state (sector_iterator_loop n' db stk FDB_SECTOR_STORE_UNUSED callback False a' (t + 4096) sec' (f acc)) k2)"
    using r(1) k2(1) by (simp add: n sector_iterator_loop.simps db_sizes a'_def Let_def)
  show ?case
  proof (cases "m = 0")
    case True
    then have "a' = FAILED_ADDR" unfolding a'_def using next_sector(2) [OF start sec'(2)] Suc.prems(3) t by simp
    then show ?thesis using step k2(2) True by simp
  next
    case False
    have "unat (t + 4096) + 4096 \<le> store_size" "unat (t + 4096) \<le> store_size" using False Suc.prems(3) t by auto
    then have a': "sector_start store_size a'" "a' \<noteq> FAILED_ADDR" unfolding a'_def using next_sector(1) [OF start sec'(2)] by auto
    have "unat (t + 4096) + m * 4096 = store_size" using Suc.prems(3) t by simp
    from Suc.IH [OF _ _ this a'(1) k2(2), of n' sec' "f acc"] False Suc.prems(2) n obtain sec'' k' where
      "run_state (sector_iterator_loop n' db stk FDB_SECTOR_STORE_UNUSED callback False a' (t + 4096) sec' (f acc)) k2 = ((sec'', (f ^^ m) (f acc)), k')"
      "Inv k'" by auto
    then show ?thesis using step a'(2) by (simp add: funpow_swap1)
  qed
qed simp

text \<open>No sector has records to visit.\<close>

lemma kv_walk_empty:
  assumes read: "\<And>a sec k. sector_start store_size a \<Longrightarrow> Inv k \<Longrightarrow>
      \<exists>r sec' k'. run_state (read_sector_info db stk a sec False) k = ((r, sec'), k') \<and> Inv k' \<and> P a sec' \<and>
        (r = FDB_NO_ERR \<longrightarrow> store_status sec' \<noteq> FDB_SECTOR_STORE_USING \<and> store_status sec' \<noteq> FDB_SECTOR_STORE_FULL)"
    and P: "\<And>a sec. P a sec \<Longrightarrow> sec_addr sec = a \<and> combined sec = SECTOR_NOT_COMBINED"
    and "unat t + m * 4096 = store_size" and "sector_start store_size a" and "Inv k"
  shows "\<exists>k'. run_state (kv_iterator_loop n db stk callback a t sec kv acc) k = ((kv, acc), k') \<and> Inv k'"
  using assms(3-5)
proof (induction n arbitrary: m t a sec k)
  case (Suc n)
  obtain r sec' k1 where r: "run_state (read_sector_info db stk a sec False) k = ((r, sec'), k1)" "Inv k1" "P a sec'"
    and none: "r = FDB_NO_ERR \<longrightarrow> store_status sec' \<noteq> FDB_SECTOR_STORE_USING \<and> store_status sec' \<noteq> FDB_SECTOR_STORE_FULL"
    using read [OF Suc.prems(2,3)] by blast
  define a' where "a' = get_next_sector_addr db sec' (t + 4096)"
  have step: "run_state (kv_iterator_loop (Suc n) db stk callback a t sec kv acc) k =
      (if a' = FAILED_ADDR then ((kv, acc), k1) else run_state (kv_iterator_loop n db stk callback a' (t + 4096) sec' kv acc) k1)"
    using r(1) none by (simp add: kv_iterator_loop.simps kv_in_sector_def db_sizes a'_def Let_def)
  have sec': "sec_addr sec' = a" "combined sec' = SECTOR_NOT_COMBINED" using P [OF r(3)] by simp_all
  have start: "sector_start store_size (sec_addr sec')" using Suc.prems(2) sec' by simp
  show ?case
  proof (cases m)
    case 0
    have "unat (t + 4096) = store_size + 4096" using Suc.prems(1) 0 store_bound unat_add_of_nat [of t 4096] by simp
    then have "a' = FAILED_ADDR"
      unfolding a'_def using sec' unat_add_of_nat [of "t + 4096" 4096] store_bound by (simp add: get_next_sector_addr_def db_sizes max_less)
    then show ?thesis using step r(2) by simp
  next
    case (Suc m')
    have t: "unat (t + 4096) = unat t + 4096" using Suc.prems(1) Suc store_bound unat_add_of_nat [of t 4096] by simp
    have m': "unat (t + 4096) + m' * 4096 = store_size" using Suc.prems(1) Suc t by simp
    show ?thesis
    proof (cases "m' = 0")
      case True
      then have "a' = FAILED_ADDR" unfolding a'_def using next_sector(2) [OF start sec'(2)] m' by simp
      then show ?thesis using step r(2) by simp
    next
      case False
      have "unat (t + 4096) + 4096 \<le> store_size" "unat (t + 4096) \<le> store_size" using False m' by auto
      then have "sector_start store_size a'" unfolding a'_def using next_sector(1) [OF start sec'(2)] by blast
      from Suc.IH [OF m' this r(2)] show ?thesis using step r(2) by simp
    qed
  qed
qed (simp add: kv_iterator_loop.simps)

end

end
