(* ===== verification/Fdb_Board.thy ===== *)
theory Fdb_Board
  imports Fdb_Sectors
begin

text \<open>
  The store on a flash that takes writes and ignores them, as that of the board does: as long as no
  sector has the magic word of the store, none ever gets one; opening the store reports success,
  and every value is refused.
\<close>

definition cache_empty :: "'s kvdb \<Rightarrow> bool" where
  "cache_empty k \<longleftrightarrow> (\<forall>c \<in> set (sector_cache_table k). sec_addr c = FDB_DATA_UNUSED)"

definition no_magic :: "nat \<Rightarrow> (nat \<Rightarrow> u8) \<Rightarrow> bool" where
  "no_magic n c \<longleftrightarrow> (\<forall>a. a mod 4096 = 0 \<and> a < n \<longrightarrow> un_le32 (cells c (a + 4) 4) \<noteq> SECTOR_MAGIC_WORD)"

definition blank_sector :: "u32 \<Rightarrow> kvdb_sec_info \<Rightarrow> bool" where
  "blank_sector a sec \<longleftrightarrow> sec_addr sec = a \<and> combined sec = SECTOR_NOT_COMBINED \<and> \<not> check_ok sec \<and> store_status sec = FDB_SECTOR_STORE_UNUSED"

lemma find_sector_empty:
  "\<forall>c \<in> set cs. sec_addr c = FDB_DATA_UNUSED \<Longrightarrow> a \<noteq> FDB_DATA_UNUSED \<Longrightarrow> fst (find_sector i cs a e) = None"
  by (induction i cs a e rule: find_sector.induct) auto

lemma erase_no_magic:
  assumes "no_magic n c" and "b mod 4096 = 0"
  shows "no_magic n (store_cells c b (replicate 4096 0xFF))"
  unfolding no_magic_def
proof (intro allI impI)
  fix a assume a: "a mod 4096 = 0 \<and> a < n"
  show "un_le32 (cells (store_cells c b (replicate 4096 0xFF)) (a + 4) 4) \<noteq> SECTOR_MAGIC_WORD"
  proof (cases "a = b")
    case True
    then have "cells (store_cells c b (replicate 4096 0xFF)) (a + 4) 4 = replicate 4 0xFF"
      by (intro nth_equalityI) (simp_all add: store_cells_def)
    also have "replicate 4 0xFF = [0xFF, 0xFF, 0xFF, 0xFF :: u8]" by (simp add: eval_nat_numeral)
    finally have cells: "cells (store_cells c b (replicate 4096 0xFF)) (a + 4) 4 = [0xFF, 0xFF, 0xFF, 0xFF]" .
    have "un_le32 [0xFF, 0xFF, 0xFF, 0xFF] = 0xFFFFFFFF" by code_simp
    then show ?thesis unfolding cells by (simp add: SECTOR_MAGIC_WORD_def)
  next
    case False
    moreover obtain x y where "a = 4096 * x" "b = 4096 * y" using a assms(2) by (auto simp: mod_eq_0_iff_dvd elim!: dvdE)
    ultimately have "a + 4096 \<le> b \<or> b + 4096 \<le> a" by auto
    then have "cells (store_cells c b (replicate 4096 0xFF)) (a + 4) 4 = cells c (a + 4) 4"
      by (auto simp: cells_def store_cells_def)
    then show ?thesis using assms(1) a by (simp add: no_magic_def)
  qed
qed

context deaf_flash begin

text \<open>Only the flash may differ from \<open>k\<close>; no sector has the magic word.\<close>

definition blank :: "'a kvdb \<Rightarrow> 'a kvdb \<Rightarrow> bool" where
  "blank k l \<longleftrightarrow> (\<exists>e. l = k\<lparr>kv_env := e\<rparr> \<and> ok e \<and> no_magic store_size (content e))"

lemma start_used: "sector_start store_size a \<Longrightarrow> a \<noteq> FDB_DATA_UNUSED"
proof
  assume "sector_start store_size a" "a = FDB_DATA_UNUSED"
  then have "unat a < store_size" "unat a = 4294967295" by (simp_all add: sector_start_def FDB_DATA_UNUSED_def)
  then show False using store_bound by simp
qed

lemma read_blank:
  assumes "16 \<le> window" and "cache_empty k" and "sector_start store_size a" and "blank k l"
  shows "\<exists>sec' l'. run_state (read_sector_info db stk a sec b) l = ((FDB_INIT_FAILED, sec'), l') \<and> blank k l' \<and> blank_sector a sec'"
proof -
  obtain e where l: "l = k\<lparr>kv_env := e\<rparr>" "ok e" "no_magic store_size (content e)" using assms(4) by (auto simp: blank_def)
  have "sector_cache_table l = sector_cache_table k" by (simp add: l(1))
  then have miss: "get_sector_from_cache l a = None"
    using find_sector_empty [OF _ start_used [OF assms(3)]] assms(2) by (simp add: get_sector_from_cache_def cache_empty_def)
  obtain s' where s': "run_state (fdb_flash_read db a (replicate 16 0)) e = ((FDB_NO_ERR, cells (content e) (unat a) 16), s')"
    "ok s'" "content s' = content e"
    using read_law [OF l(2), of a "replicate 16 0"] assms(1) sector_inside [OF assms(3)] by auto
  have "take 4 (drop 4 (cells (content e) (unat a) 16)) = cells (content e) (unat a + 4) 4" by (rule take_drop_cells) simp
  then have "un_le32 (take 4 (drop 4 (cells (content e) (unat a) 16))) \<noteq> SECTOR_MAGIC_WORD"
    using l(3) assms(3) by (simp add: no_magic_def sector_start_def)
  then have "run_state (read_sector_info db stk a sec b) l =
      ((FDB_INIT_FAILED, sec\<lparr>store_status := FDB_SECTOR_STORE_UNUSED, dirty_status := FDB_SECTOR_DIRTY_UNUSED, sec_addr := a,
         sec_magic := un_le32 (take 4 (drop 4 (cells (content e) (unat a) 16))), check_ok := False, combined := SECTOR_NOT_COMBINED\<rparr>),
       l\<lparr>kv_env := s'\<rparr>)"
    using miss s'(1) l(1) by (simp add: read_sector_info_def read_sector_header_def Let_def)
  moreover have "blank k (l\<lparr>kv_env := s'\<rparr>)" unfolding blank_def using l s'(2,3) by auto
  ultimately show ?thesis by (simp add: blank_sector_def)
qed

lemma blank_env: "blank k l \<Longrightarrow> ok e \<Longrightarrow> no_magic store_size (content e) \<Longrightarrow> blank k (l\<lparr>kv_env := e\<rparr>)"
  by (auto simp: blank_def)

lemma blank_self: "blank k k \<longleftrightarrow> ok (kv_env k) \<and> no_magic store_size (content (kv_env k))"
proof
  assume "blank k k"
  then obtain e where "k = k\<lparr>kv_env := e\<rparr>" "ok e" "no_magic store_size (content e)" by (auto simp: blank_def)
  moreover from this(1) have "kv_env k = e" by (metis kvdb.select_convs(11) kvdb.surjective kvdb.update_convs(11))
  ultimately show "ok (kv_env k) \<and> no_magic store_size (content (kv_env k))" by simp
qed (auto simp: blank_def intro!: exI [of _ "kv_env k"])

text \<open>A walk with a callback that does not stop.\<close>

definition visits :: "'a kvdb \<Rightarrow> (kvdb_sec_info \<Rightarrow> 'b \<Rightarrow> ('a kvdb, bool \<times> 'b) state) \<Rightarrow> ('b \<Rightarrow> 'b) \<Rightarrow> bool" where
  "visits k callback f \<longleftrightarrow> (\<forall>a sec l acc. sector_start store_size a \<longrightarrow> blank k l \<longrightarrow> blank_sector a sec \<longrightarrow>
     (\<exists>l'. run_state (callback sec acc) l = ((False, f acc), l') \<and> blank k l'))"

lemma blank_walk:
  assumes "16 \<le> window" and "cache_empty k" and "sector_start store_size (oldest_addr k)" and "blank k l"
    and "visits k callback f"
  shows "\<exists>sec' l'. run_state (sector_iterator db stk sec FDB_SECTOR_STORE_UNUSED callback False acc) l = ((sec', (f ^^ sector_num db) acc), l') \<and> blank k l'"
proof -
  have old: "oldest_addr l = oldest_addr k" using assms(4) by (auto simp: blank_def)
  have "0 < store_size" using assms(3) by (simp add: sector_start_def)
  then have num: "0 < sector_num db" using max_num by (cases "sector_num db") auto
  have P: "sec_addr sec = a \<and> combined sec = SECTOR_NOT_COMBINED" if "blank_sector a sec" for a sec using that by (simp add: blank_sector_def)
  have read: "\<exists>r sec' l'. run_state (read_sector_info db stk a sec False) l = ((r, sec'), l') \<and> blank k l' \<and> blank_sector a sec'"
    if "sector_start store_size a" "blank k l" for a sec l
    using read_blank [OF assms(1,2) that] by blast
  have visit: "\<exists>l'. run_state (callback sec acc) l = ((False, f acc), l') \<and> blank k l'"
    if "sector_start store_size a" "blank k l" "blank_sector a sec" for a sec l acc
    using assms(5) that by (simp add: visits_def)
  show ?thesis
    using sector_loop [where Inv = "blank k" and P = blank_sector and stk = stk and callback = callback and f = f and m = "sector_num db"
        and n = "sector_num db + 1" and t = 0 and a = "oldest_addr k" and k = l and sec = sec and acc = acc, OF read P visit num _ _ assms(3,4)]
      max_num old by (simp add: sector_iterator_def)
qed

lemma alloc_blank:
  assumes "16 \<le> window" and "cache_empty k" and "sector_start store_size (oldest_addr k)" and "blank k l"
  shows "\<exists>sec' l'. run_state (alloc_kv db stk sec n) l = ((FAILED_ADDR, sec'), l') \<and> blank k l'"
proof -
  have "visits k sector_statistics_cb id" by (auto simp: visits_def sector_statistics_cb_def blank_sector_def)
  from blank_walk [OF assms this, of stk sec "(0, 0)"] show ?thesis
    by (auto simp: alloc_kv_def id_def [symmetric])
qed

lemma new_kv_blank:
  assumes "16 \<le> window" and "cache_empty k" and "sector_start store_size (oldest_addr k)" and "\<not> gc_request k" and "blank k l"
  shows "\<exists>sec' l'. run_state (new_kv db stk sec n) l = ((FAILED_ADDR, sec'), l') \<and> blank k l'"
proof -
  obtain sec' l' where l': "run_state (alloc_kv db stk sec n) l = ((FAILED_ADDR, sec'), l')" "blank k l'" using alloc_blank [OF assms(1-3,5)] by blast
  moreover have "\<not> gc_request l'" using l'(2) assms(4) by (auto simp: blank_def)
  ultimately show ?thesis by (simp add: new_kv_def)
qed

lemma set_refused:
  assumes "16 \<le> window" and "cache_empty k" and "sector_start store_size (oldest_addr k)" and "\<not> gc_request k" and "db_init_ok k" and "blank k k"
  shows "\<exists>sec' l'. run_state (fdb_kv_set_blob db stk key (Some val)) k = (FDB_SAVED_FULL, l'\<lparr>cur_sector := sec'\<rparr>) \<and> blank k l'"
proof -
  from new_kv_blank [OF assms(1-4,6)] obtain sec' l' where
    "run_state (new_kv db stk (cur_sector k) (of_nat (KV_HDR_DATA_SIZE + length key + length val))) k = ((FAILED_ADDR, sec'), l')" "blank k l'"
    by blast
  then show ?thesis using assms(5) by (auto simp: fdb_kv_set_blob_def set_kv_def new_kv_ex_def)
qed

subsection \<open>Opening the store\<close>

lemma update_cache_none:
  assumes "cache_empty l" and "\<not> check_ok sec" and "sec_addr sec \<noteq> FDB_DATA_UNUSED"
  shows "run_state (update_sector_cache sec) l = ((), l)"
proof -
  have "fst (find_sector 0 (sector_cache_table l) (sec_addr sec) None) = None"
    using find_sector_empty assms(1,3) by (simp add: cache_empty_def)
  then show ?thesis using assms(2)
    by (cases "find_sector 0 (sector_cache_table l) (sec_addr sec) None") (simp add: update_sector_cache_def Let_def split: option.splits)
qed

lemma format_blank:
  assumes "cache_empty k" and "sector_start store_size a" and "blank k l"
  shows "\<exists>l'. run_state (format_sector db a c) l = (FDB_NO_ERR, l') \<and> blank k l'"
proof -
  obtain e where l: "l = k\<lparr>kv_env := e\<rparr>" "ok e" "no_magic store_size (content e)" using assms(3) by (auto simp: blank_def)
  have a: "unat a mod 4096 = 0" "unat a + 4096 \<le> store_size" using assms(2) sector_inside by (simp_all add: sector_start_def)
  obtain e1 where e1: "run_state (fdb_flash_erase db a 4096) e = (FDB_NO_ERR, e1)" "ok e1"
    "content e1 = store_cells (content e) (unat a) (replicate 4096 0xFF)" using erase_law [OF l(2) a] by blast
  have "length (sector_hdr_bytes c) = 16" by (simp add: sector_hdr_bytes_def status_byte FDB_SECTOR_STATUS_NUM_def)
  then obtain e2 where e2: "run_state (fdb_flash_write db a (sector_hdr_bytes c)) e1 = (FDB_NO_ERR, e2)" "ok e2" "content e2 = content e1"
    using deaf_law [OF e1(2), of a "sector_hdr_bytes c"] a by auto
  have "no_magic store_size (content e2)" using erase_no_magic [OF l(3) a(1)] e1(3) e2(3) by simp
  then have "blank k (l\<lparr>kv_env := e2\<rparr>)" by (rule blank_env [OF assms(3) e2(2)])
  moreover have "cache_empty (l\<lparr>kv_env := e2\<rparr>)" using assms(1) l(1) by (simp add: cache_empty_def)
  then have "run_state (update_sector_cache (zero_sector\<lparr>sec_addr := a, empty_kv := FAILED_ADDR\<rparr>)) (l\<lparr>kv_env := e2\<rparr>) = ((), l\<lparr>kv_env := e2\<rparr>)"
    using start_used [OF assms(2)] by (intro update_cache_none) (simp_all add: zero_sector_def)
  ultimately show ?thesis using e1(1) e2(1) l(1) by (simp add: format_sector_def db_sizes)
qed

lemma format_all_blank:
  assumes "cache_empty k" and "blank k l" and "unat a mod 4096 = 0" and "unat a \<le> store_size"
  shows "\<exists>l'. run_state (format_all n db a) l = (FDB_NO_ERR, l') \<and> blank k l'"
  using assms
proof (induction n arbitrary: a l)
  case (Suc n)
  show ?case
  proof (cases "a < db_max_size db")
    case True
    then have a: "sector_start store_size a" using Suc.prems(3) max_less by (simp add: sector_start_def)
    obtain l1 where l1: "run_state (format_sector db a SECTOR_NOT_COMBINED) l = (FDB_NO_ERR, l1)" "blank k l1"
      using format_blank [OF Suc.prems(1) a Suc.prems(2)] by blast
    have "unat (a + 4096) = unat a + 4096" using Suc.prems(4) store_bound unat_add_of_nat [of a 4096] by simp
    then have "unat (a + 4096) mod 4096 = 0" "unat (a + 4096) \<le> store_size" using sector_inside [OF a] Suc.prems(3) by simp_all
    from Suc.IH [OF Suc.prems(1) l1(2) this] show ?thesis using True l1(1) by (simp add: format_all.simps db_sizes)
  qed (use Suc.prems(2) in \<open>simp add: format_all.simps\<close>)
qed (simp add: format_all.simps)

lemma create_blank:
  assumes "16 \<le> window" and "cache_empty k" and "sector_start store_size (oldest_addr k)" and "\<not> gc_request k" and "blank k l"
  shows "\<exists>r sec' l'. run_state (create_kv_blob db stk (sec\<lparr>empty_kv := FAILED_ADDR\<rparr>) key val) l = ((r, sec'), l') \<and> blank k l'"
proof -
  from new_kv_blank [OF assms] obtain sec' l' where
    "run_state (new_kv db stk (sec\<lparr>empty_kv := FAILED_ADDR\<rparr>) (hdr_len (new_kv_hdr key val))) l = ((FAILED_ADDR, sec'), l')" "blank k l'" by blast
  then show ?thesis using assms(5) by (auto simp: create_kv_blob_def)
qed

lemma defaults_blank:
  assumes "16 \<le> window" and "cache_empty k" and "sector_start store_size (oldest_addr k)" and "\<not> gc_request k" and "blank k l"
  shows "\<exists>l'. run_state (create_defaults db stk ds sec) l = ((), l') \<and> blank k l'"
  using assms(5)
proof (induction ds arbitrary: sec l)
  case (Cons d ds)
  obtain r sec' l1 where "run_state (create_kv_blob db stk (sec\<lparr>empty_kv := FAILED_ADDR\<rparr>) (def_key d) (default_value d)) l = ((r, sec'), l1)" "blank k l1"
    using create_blank [OF assms(1-4) Cons.prems] by blast
  then show ?case using Cons.IH [of l1 sec'] by auto
qed simp

definition no_records :: "'a kvdb \<Rightarrow> bool" where
  "no_records k \<longleftrightarrow> (\<forall>c \<in> set (kv_cache_table k). node_addr c = FDB_DATA_UNUSED)"

lemma set_default_blank:
  assumes "16 \<le> window" and "cache_empty k" and "oldest_addr k = 0" and "0 < store_size" and "\<not> gc_request k" and "no_records k" and "blank k l"
  shows "\<exists>l'. run_state (fdb_kv_set_default db stk) l = (FDB_NO_ERR, l') \<and> blank k l'"
proof -
  have old: "sector_start store_size (oldest_addr k)" using assms(3,4) by (simp add: sector_start_def)
  have "map (\<lambda>c. c\<lparr>node_addr := FDB_DATA_UNUSED\<rparr>) (kv_cache_table l) = kv_cache_table l"
    using assms(6,7) by (auto simp: no_records_def blank_def intro!: map_idI)
  then have same: "l\<lparr>kv_cache_table := map (\<lambda>c. c\<lparr>node_addr := FDB_DATA_UNUSED\<rparr>) (kv_cache_table l)\<rparr> = l" by simp
  obtain l1 where l1: "run_state (format_all (sector_num db + 1) db 0) l = (FDB_NO_ERR, l1)" "blank k l1"
    using format_all_blank [OF assms(2,7), of 0] by auto
  obtain l2 where l2: "run_state (create_defaults db stk (default_kvs l1) (stk_sector stk)) l1 = ((), l2)" "blank k l2"
    using defaults_blank [OF assms(1,2) old assms(5) l1(2)] by blast
  have "l2\<lparr>oldest_addr := 0\<rparr> = l2" using l2(2) assms(3) by (auto simp: blank_def)
  then show ?thesis using l1(1) l2 same by (simp add: fdb_kv_set_default_def)
qed

lemma walk_blank:
  assumes "16 \<le> window" and "cache_empty k" and "sector_start store_size (oldest_addr k)" and "blank k l"
  shows "\<exists>l'. run_state (kv_iterator db stk kv callback acc) l = ((kv, acc), l') \<and> blank k l'"
proof -
  have old: "oldest_addr l = oldest_addr k" using assms(4) by (auto simp: blank_def)
  have P: "sec_addr sec = a \<and> combined sec = SECTOR_NOT_COMBINED" if "blank_sector a sec" for a sec using that by (simp add: blank_sector_def)
  have read: "\<exists>r sec' l'. run_state (read_sector_info db stk a sec False) l = ((r, sec'), l') \<and> blank k l' \<and> blank_sector a sec' \<and>
      (r = FDB_NO_ERR \<longrightarrow> store_status sec' \<noteq> FDB_SECTOR_STORE_USING \<and> store_status sec' \<noteq> FDB_SECTOR_STORE_FULL)"
    if "sector_start store_size a" "blank k l" for a sec l
    using read_blank [OF assms(1,2) that] by blast
  show ?thesis
    using kv_walk_empty [where Inv = "blank k" and P = blank_sector and stk = stk and t = 0 and m = "sector_num db" and a = "oldest_addr k" and k = l,
        OF read P _ assms(3,4)] max_num old by (simp add: kv_iterator_def)
qed

lemma load_blank:
  assumes "16 \<le> window" and "\<not> not_formatable db" and "cache_empty k" and "oldest_addr k = 0" and "0 < store_size"
    and "\<not> gc_request k" and "no_records k" and "blank k k"
  shows "\<exists>l. fdb_kv_load db stk k = Some (FDB_NO_ERR, l\<lparr>in_recovery_check := False\<rparr>) \<and> blank k (l\<lparr>in_recovery_check := in_recovery_check k\<rparr>)"
proof -
  define j where "j = k\<lparr>in_recovery_check := True\<rparr>"
  have j: "cache_empty j" "oldest_addr j = 0" "\<not> gc_request j" "no_records j" "blank j j"
    using assms(3,4,6-8) by (simp_all add: j_def cache_empty_def no_records_def blank_self)
  have old: "sector_start store_size (oldest_addr j)" using j(2) assms(5) by (simp add: sector_start_def)
  have "visits j (check_sec_hdr_cb db) (\<lambda>n. n + 1)"
    unfolding visits_def
  proof (intro allI impI)
    fix a sec l and acc :: nat
    assume h: "sector_start store_size a" "blank j l" "blank_sector a sec"
    obtain l' where "run_state (format_sector db a SECTOR_NOT_COMBINED) l = (FDB_NO_ERR, l')" "blank j l'"
      using format_blank [OF j(1) h(1,2)] by blast
    then show "\<exists>l'. run_state (check_sec_hdr_cb db sec acc) l = ((False, acc + 1), l') \<and> blank j l'"
      using h(3) assms(2) by (simp add: check_sec_hdr_cb_def blank_sector_def)
  qed
  from blank_walk [OF assms(1) j(1) old j(5) this, of stk "stk_sector stk" 0] obtain sec1 l1 where
    1: "run_state (sector_iterator db stk (stk_sector stk) FDB_SECTOR_STORE_UNUSED (check_sec_hdr_cb db) False 0) j = ((sec1, sector_num db), l1)"
    "blank j l1" by (auto simp: Suc_funpow)
  obtain l2 where 2: "run_state (fdb_kv_set_default db stk) l1 = (FDB_NO_ERR, l2)" "blank j l2"
    using set_default_blank [OF assms(1) j(1,2) assms(5) j(3,4) 1(2)] by blast
  have "visits j (check_and_recovery_gc_cb db stk) (\<lambda>u. u)" by (auto simp: visits_def check_and_recovery_gc_cb_def blank_sector_def)
  from blank_walk [OF assms(1) j(1) old 2(2) this, of stk sec1 "()"] obtain sec3 l3 where
    3: "run_state (sector_iterator db stk sec1 FDB_SECTOR_STORE_UNUSED (check_and_recovery_gc_cb db stk) False ()) l2 = ((sec3, ()), l3)" "blank j l3"
    by auto
  obtain l4 where 4: "run_state (kv_iterator db stk (stk_kv stk) (check_and_recovery_kv_cb db stk) ()) l3 = ((stk_kv stk, ()), l4)" "blank j l4"
    using walk_blank [OF assms(1) j(1) old 3(2), of stk "stk_kv stk" "check_and_recovery_kv_cb db stk" "()"] by blast
  have "\<not> gc_request l4" using 4(2) j(3) by (auto simp: blank_def)
  then have "load_retry db stk l3 = Some l4" using 4(1) by (subst load_retry.simps) (simp add: Let_def)
  then have "fdb_kv_load db stk k = Some (FDB_NO_ERR, l4\<lparr>in_recovery_check := False\<rparr>)"
    using 1(1) 2(1) 3(1) assms(2) by (simp add: fdb_kv_load_def Let_def flip: j_def)
  moreover have "blank k (l4\<lparr>in_recovery_check := in_recovery_check k\<rparr>)" using 4(2) by (auto simp: blank_def j_def)
  ultimately show ?thesis by blast
qed

lemma get_blank:
  assumes "16 \<le> window" and "cache_empty k" and "sector_start store_size (oldest_addr k)" and "no_records k"
    and "length (kv_cache_table k) = 64" and "db_init_ok k" and "blank k k"
  shows "\<exists>l. run_state (fdb_kv_get_blob db stk key buf saved_len) k = ((0, buf, 0), l) \<and> blank k l"
proof -
  have "run_state (get_kv_from_cache db key) k = (None, k)" using assms(4,5) by (intro lookup_none) (simp_all add: no_records_def)
  moreover obtain l where "run_state (kv_iterator db stk (stk_kv stk) (find_kv_cb key) False) k = ((stk_kv stk, False), l)" "blank k l"
    using walk_blank [OF assms(1-3,7), of stk "stk_kv stk" "find_kv_cb key" False] by blast
  ultimately show ?thesis using assms(6) by (simp add: fdb_kv_get_blob_def get_kv_def find_kv_def find_kv_no_cache_def)
qed

subsection \<open>Every value is refused\<close>

definition rejecting :: "'a kvdb \<Rightarrow> bool" where
  "rejecting k \<longleftrightarrow> cache_empty k \<and> oldest_addr k = 0 \<and> \<not> gc_request k \<and> no_records k \<and> length (kv_cache_table k) = 64 \<and> db_init_ok k \<and> blank k k"

lemma rejecting_set:
  assumes "16 \<le> window" and "0 < store_size" and "rejecting k"
  shows "\<exists>l. run_state (fdb_kv_set_blob db stk key (Some val)) k = (FDB_SAVED_FULL, l) \<and> rejecting l"
proof -
  have k: "cache_empty k" "sector_start store_size (oldest_addr k)" "\<not> gc_request k" "db_init_ok k" "blank k k"
    using assms(2,3) by (auto simp: rejecting_def sector_start_def)
  obtain sec' l' where l': "run_state (fdb_kv_set_blob db stk key (Some val)) k = (FDB_SAVED_FULL, l'\<lparr>cur_sector := sec'\<rparr>)" "blank k l'"
    using set_refused [OF assms(1) k] by blast
  have "rejecting (l'\<lparr>cur_sector := sec'\<rparr>)"
    using l'(2) assms(3) by (auto simp: rejecting_def blank_self cache_empty_def no_records_def) (auto simp: blank_def)
  then show ?thesis using l'(1) by blast
qed

lemma rejecting_get:
  assumes "16 \<le> window" and "0 < store_size" and "rejecting k"
  shows "fst (run_state (fdb_kv_get_blob db stk key buf saved_len) k) = (0, buf, 0)"
proof -
  have k: "cache_empty k" "sector_start store_size (oldest_addr k)" "no_records k" "length (kv_cache_table k) = 64" "db_init_ok k" "blank k k"
    using assms(2,3) by (auto simp: rejecting_def sector_start_def)
  show ?thesis using get_blank [OF assms(1) k, of stk key buf saved_len] by auto
qed

end

text \<open>The results of storing a list of values, one after the other.\<close>

fun set_values :: "'s fdb_db \<Rightarrow> kv_stack \<Rightarrow> (u8 list \<times> u8 list) list \<Rightarrow> ('s kvdb, fdb_err_t list) state" where
  "set_values db stk [] = ret []"
| "set_values db stk ((key, val) # kvs) = do {
     r \<leftarrow> fdb_kv_set_blob db stk key (Some val);
     rs \<leftarrow> set_values db stk kvs;
     ret (r # rs) }"

context deaf_flash begin

lemma rejecting_values:
  assumes "16 \<le> window" and "0 < store_size" and "rejecting k"
  shows "\<exists>l. run_state (set_values db stk kvs) k = (replicate (length kvs) FDB_SAVED_FULL, l) \<and> rejecting l"
  using assms(3)
proof (induction kvs arbitrary: k)
  case (Cons kv kvs)
  obtain l where l: "run_state (fdb_kv_set_blob db stk (fst kv) (Some (snd kv))) k = (FDB_SAVED_FULL, l)" "rejecting l"
    using rejecting_set [OF assms(1,2) Cons.prems] by blast
  from Cons.IH [OF l(2)] l(1) show ?case by (cases kv) auto
qed simp

end

end
