(* ===== verification/Fdb_Store.thy ===== *)
theory Fdb_Store
  imports Fdb_Sectors
begin

text \<open>
  Storing a value in a formatted store and reading it back, on a flash that stores: allocation finds
  the first sector, the record goes behind its header, and the record cache leads to it.
\<close>

definition formatted :: "nat \<Rightarrow> (nat \<Rightarrow> u8) \<Rightarrow> bool" where
  "formatted n c \<longleftrightarrow> (\<forall>a. a mod 4096 = 0 \<and> a < n \<longrightarrow> cells c a 16 = sector_hdr_bytes SECTOR_NOT_COMBINED)"

definition fresh_sector :: "u32 \<Rightarrow> kvdb_sec_info \<Rightarrow> bool" where
  "fresh_sector a sec \<longleftrightarrow> sec_addr sec = a \<and> combined sec = SECTOR_NOT_COMBINED \<and> check_ok sec \<and>
     store_status sec = FDB_SECTOR_STORE_EMPTY \<and> dirty_status sec = FDB_SECTOR_DIRTY_FALSE"

definition measured_sector :: "u32 \<Rightarrow> kvdb_sec_info \<Rightarrow> bool" where
  "measured_sector a sec \<longleftrightarrow> fresh_sector a sec \<and> empty_kv sec = a + 16 \<and> remain sec = 4080"

text \<open>What the sector cache may hold: sectors as they are in a formatted flash.\<close>

definition fresh_entry :: "nat \<Rightarrow> kvdb_sec_info \<Rightarrow> bool" where
  "fresh_entry n sec \<longleftrightarrow> sec_addr sec = FDB_DATA_UNUSED \<or> sector_start n (sec_addr sec) \<and> fresh_sector (sec_addr sec) sec \<and>
     (empty_kv sec = FAILED_ADDR \<or> measured_sector (sec_addr sec) sec)"

lemma far_from_failed: "unat a < 2 ^ 24 \<Longrightarrow> a + 16 \<noteq> FAILED_ADDR"
proof
  assume a: "unat a < 2 ^ 24" "a + 16 = FAILED_ADDR"
  then have "unat (a + 16) = 4294967295" by (simp add: FAILED_ADDR_def)
  then show False using a(1) unat_add_of_nat [of a 16] by simp
qed

lemma header_bytes:
  "sector_hdr_bytes SECTOR_NOT_COMBINED = [0x7F, 0x7F, 0xFF, 0xFF] @ le32 SECTOR_MAGIC_WORD @ le32 SECTOR_NOT_COMBINED @ le32 FDB_DATA_UNUSED"
proof -
  have "replicate 2 b = [b, b]" for b :: u8 by (simp add: numeral_2_eq_2)
  then show ?thesis by (simp add: sector_hdr_bytes_def status_byte FDB_SECTOR_STATUS_NUM_def FDB_BYTE_ERASED_def)
qed

lemma header_fields:
  assumes "hdr = sector_hdr_bytes SECTOR_NOT_COMBINED"
  shows "un_le32 (take 4 (drop 4 hdr)) = SECTOR_MAGIC_WORD" "un_le32 (take 4 (drop 8 hdr)) = SECTOR_NOT_COMBINED"
    "store_of (fdb_get_status [hdr ! 0] FDB_SECTOR_STATUS_NUM) = FDB_SECTOR_STORE_EMPTY"
    "dirty_of (fdb_get_status [hdr ! 1] FDB_SECTOR_STATUS_NUM) = FDB_SECTOR_DIRTY_FALSE"
  using get_status_eq [of 1 4 "[]"] unfolding assms header_bytes
  by (simp_all add: FDB_SECTOR_STATUS_NUM_def store_of_def dirty_of_def)

text \<open>An open store in a formatted flash: no record is cached, and what is cached of the sectors is true.\<close>

definition empty_store :: "nat \<Rightarrow> (nat \<Rightarrow> u8) \<Rightarrow> 's kvdb \<Rightarrow> bool" where
  "empty_store n c k \<longleftrightarrow> formatted n c \<and> sector_start n (oldest_addr k) \<and> (\<forall>sec \<in> set (sector_cache_table k). fresh_entry n sec) \<and>
     (\<forall>node \<in> set (kv_cache_table k). node_addr node = FDB_DATA_UNUSED) \<and> length (kv_cache_table k) = 64 \<and> db_init_ok k \<and> \<not> gc_request k"

context flash_store begin

definition fresh :: "'s kvdb \<Rightarrow> 's kvdb \<Rightarrow> bool" where
  "fresh k l \<longleftrightarrow> (\<exists>e tab. l = k\<lparr>kv_env := e, sector_cache_table := tab\<rparr> \<and> ok e \<and> content e = content (kv_env k) \<and>
     (\<forall>c \<in> set tab. fresh_entry store_size c))"

lemma fresh_update:
  assumes "fresh k l" and "fresh_entry store_size sec" and "check_ok sec"
  shows "\<exists>l'. run_state (update_sector_cache sec) l = ((), l') \<and> fresh k l'"
proof -
  obtain e tab where l: "l = k\<lparr>kv_env := e, sector_cache_table := tab\<rparr>" "ok e" "content e = content (kv_env k)"
    "\<forall>c \<in> set tab. fresh_entry store_size c" using assms(1) by (auto simp: fresh_def)
  have put: "fresh k (k\<lparr>kv_env := e, sector_cache_table := tab[i := sec]\<rparr>)" for i
    unfolding fresh_def using l(2-4) assms(2) set_update_subset_insert [of tab i sec]
    by (intro exI [of _ e] exI [of _ "tab[i := sec]"]) auto
  show ?thesis
    using assms(1,3) put by (auto simp: update_sector_cache_def l(1) Let_def split: prod.splits option.splits)
qed

lemma read_fresh:
  assumes "formatted store_size (content (kv_env k))" and "sector_start store_size a" and "fresh k l"
  shows "\<exists>sec' l'. run_state (read_sector_info db stk a sec b) l = ((FDB_NO_ERR, sec'), l') \<and> fresh k l' \<and>
    fresh_sector a sec' \<and> (b \<longrightarrow> measured_sector a sec')"
proof -
  obtain e tab where l: "l = k\<lparr>kv_env := e, sector_cache_table := tab\<rparr>" "ok e" "content e = content (kv_env k)"
    "\<forall>c \<in> set tab. fresh_entry store_size c" using assms(3) by (auto simp: fresh_def)
  have used: "a \<noteq> FDB_DATA_UNUSED"
  proof
    assume "a = FDB_DATA_UNUSED"
    then have "unat a = 4294967295" by (simp add: FDB_DATA_UNUSED_def)
    then show False using assms(2) store_bound by (simp add: sector_start_def)
  qed
  have cached: "fresh_entry store_size (tab ! i) \<and> sec_addr (tab ! i) = a" if "get_sector_from_cache l a = Some i" for i
    using find_sector_some [of 0 tab a None i] that l(1,4) by (simp add: get_sector_from_cache_def)
  obtain s' where s': "run_state (fdb_flash_read db a (replicate 16 0)) e = ((FDB_NO_ERR, cells (content e) (unat a) 16), s')"
    "ok s'" "content s' = content e"
    using read_law [OF l(2), of a "replicate 16 0"] sector_inside [OF assms(2)] by auto
  have hdr: "cells (content e) (unat a) 16 = sector_hdr_bytes SECTOR_NOT_COMBINED"
    using assms(1,2) l(3) by (simp add: formatted_def sector_start_def)
  note f = header_fields [OF refl]
  define l1 where "l1 = l\<lparr>kv_env := s'\<rparr>"
  have l1: "fresh k l1" unfolding fresh_def l1_def using l s'(2,3) by (intro exI [of _ s'] exI [of _ tab]) simp
  define sec1 where "sec1 = sec\<lparr>sec_addr := a, sec_magic := SECTOR_MAGIC_WORD, check_ok := True, combined := SECTOR_NOT_COMBINED,
    store_status := FDB_SECTOR_STORE_EMPTY, dirty_status := FDB_SECTOR_DIRTY_FALSE\<rparr>"
  define sec2 where "sec2 = (if b then sec1\<lparr>empty_kv := a + 16, remain := 4080\<rparr> else sec1\<lparr>empty_kv := FAILED_ADDR, remain := 0\<rparr>)"
  have fs: "fresh_sector a sec1" "fresh_sector a sec2" "b \<longrightarrow> measured_sector a sec2"
    by (simp_all add: sec1_def sec2_def fresh_sector_def measured_sector_def)
  have entry: "fresh_entry store_size sec2" "check_ok sec2"
    using assms(2) fs by (auto simp: fresh_entry_def sec2_def sec1_def)
  obtain l2 where l2: "run_state (update_sector_cache sec2) l1 = ((), l2)" "fresh k l2" using fresh_update [OF l1 entry] by blast
  have read: "run_state (read_sector_header db stk a sec b) l =
      (if b then ((FDB_NO_ERR, sec2), l2) else if get_sector_from_cache l1 a = None then ((FDB_NO_ERR, sec2), l2) else ((FDB_NO_ERR, sec1), l1))"
  proof -
    have le: "kv_env l = e" by (simp add: l(1))
    show ?thesis using s'(1) hdr l2(1) f
      by (cases b) (simp_all add: le read_sector_header_def measure_sector_def Let_def sec2_def sec1_def l1_def db_sizes SECTOR_HDR_DATA_SIZE_def)
  qed
  have miss: ?thesis if "run_state (read_sector_info db stk a sec b) l = run_state (read_sector_header db stk a sec b) l"
    using that read fs l1 l2(2) by (cases b) auto
  show ?thesis
  proof (cases "get_sector_from_cache l a")
    case None
    then show ?thesis by (intro miss) (simp add: read_sector_info_def)
  next
    case (Some i)
    show ?thesis
    proof (cases "\<not> b \<or> empty_kv (tab ! i) \<noteq> FAILED_ADDR")
      case True
      then have "run_state (read_sector_info db stk a sec b) l = ((FDB_NO_ERR, tab ! i), l)" using Some l(1) by (auto simp: read_sector_info_def)
      moreover have "fresh_sector a (tab ! i) \<and> (b \<longrightarrow> measured_sector a (tab ! i))"
        using cached [OF Some] used True by (auto simp: fresh_entry_def)
      ultimately show ?thesis using assms(3) by blast
    next
      case False
      then show ?thesis using Some l(1) by (intro miss) (simp add: read_sector_info_def)
    qed
  qed
qed

lemma fresh_visits:
  assumes "formatted store_size (content (kv_env k))" and "sector_start store_size (oldest_addr k)" and "fresh k l"
  shows "\<exists>sec' l'. run_state (sector_iterator db stk sec FDB_SECTOR_STORE_UNUSED sector_statistics_cb False (0, 0)) l = ((sec', sector_num db, 0), l') \<and> fresh k l'"
proof -
  have old: "oldest_addr l = oldest_addr k" using assms(3) by (auto simp: fresh_def)
  have "0 < store_size" using assms(2) by (simp add: sector_start_def)
  then have num: "0 < sector_num db" using max_num by (cases "sector_num db") auto
  have P: "sec_addr sec = a \<and> combined sec = SECTOR_NOT_COMBINED" if "fresh_sector a sec" for a sec using that by (simp add: fresh_sector_def)
  have read: "\<exists>r sec' l'. run_state (read_sector_info db stk a sec False) l = ((r, sec'), l') \<and> fresh k l' \<and> fresh_sector a sec'"
    if "sector_start store_size a" "fresh k l" for a sec l
    using read_fresh [OF assms(1) that, of stk sec False] by blast
  have visit: "\<exists>l'. run_state (sector_statistics_cb sec acc) l = ((False, map_prod Suc id acc), l') \<and> fresh k l'"
    if "sector_start store_size a" "fresh k l" "fresh_sector a sec" for a sec l acc
    using that by (cases acc) (simp add: sector_statistics_cb_def fresh_sector_def)
  have count: "(map_prod Suc id ^^ m) (0, 0) = (m, 0 :: nat)" for m by (induction m) simp_all
  show ?thesis
    using sector_loop [where Inv = "fresh k" and P = fresh_sector and stk = stk and callback = sector_statistics_cb and f = "map_prod Suc id" and m = "sector_num db"
        and n = "sector_num db + 1" and t = 0 and a = "oldest_addr k" and k = l and sec = sec and acc = "(0, 0)", OF read P visit num _ _ assms(2,3)]
      max_num old count by (simp add: sector_iterator_def)
qed

lemma alloc_fresh:
  assumes "formatted store_size (content (kv_env k))" and "sector_start store_size (oldest_addr k)" and "fresh k l"
    and "8192 \<le> store_size" and "unat n + 88 < 4080"
  shows "\<exists>sec' l'. run_state (alloc_kv db stk sec n) l = ((oldest_addr k + 16, sec'), l') \<and> fresh k l' \<and> measured_sector (oldest_addr k) sec'"
proof -
  have num: "FDB_GC_EMPTY_SEC_THRESHOLD < sector_num db"
    using max_num assms(4) by (auto simp: FDB_GC_EMPTY_SEC_THRESHOLD_def intro: ccontr)
  obtain sec1 l1 where 1: "run_state (sector_iterator db stk sec FDB_SECTOR_STORE_UNUSED sector_statistics_cb False (0, 0)) l = ((sec1, sector_num db, 0), l1)"
    "fresh k l1" using fresh_visits [OF assms(1-3)] by blast
  have old: "oldest_addr l1 = oldest_addr k" using 1(2) by (auto simp: fresh_def)
  obtain sec2 l2 where 2: "run_state (read_sector_info db stk (oldest_addr k) sec1 False) l1 = ((FDB_NO_ERR, sec2), l2)" "fresh k l2" "fresh_sector (oldest_addr k) sec2"
    using read_fresh [OF assms(1,2) 1(2)] by blast
  obtain sec3 l3 where 3: "run_state (read_sector_info db stk (oldest_addr k) sec2 True) l2 = ((FDB_NO_ERR, sec3), l3)" "fresh k l3" "measured_sector (oldest_addr k) sec3"
    using read_fresh [OF assms(1,2) 2(2), of stk sec2 True] by blast
  have "unat (n + 88) = unat n + 88" using assms(5) unat_add_of_nat [of n 88] by simp
  then have room: "n + 88 < 4080" using assms(5) by (simp add: word_less_nat_alt)
  have cb: "run_state (alloc_kv_cb n sec3 FAILED_ADDR) l3 = ((True, oldest_addr k + 16), l3)"
    using 3(3) room by (simp add: alloc_kv_cb_def measured_sector_def fresh_sector_def FDB_SEC_REMAIN_THRESHOLD_def)
  have "store_status sec2 = FDB_SECTOR_STORE_EMPTY" using 2(3) by (simp add: fresh_sector_def)
  then have "run_state (sector_iterator db stk sec1 FDB_SECTOR_STORE_EMPTY (alloc_kv_cb n) True FAILED_ADDR) l1 = ((sec3, oldest_addr k + 16), l3)"
    using 2(1) 3(1) cb old by (simp add: sector_iterator_def sector_iterator_loop.simps Let_def)
  then show ?thesis using 1(1) 3(2,3) num by (simp add: alloc_kv_def)
qed

lemma walk_fresh:
  assumes "formatted store_size (content (kv_env k))" and "sector_start store_size (oldest_addr k)" and "fresh k l"
  shows "\<exists>l'. run_state (kv_iterator db stk kv callback acc) l = ((kv, acc), l') \<and> fresh k l'"
proof -
  have old: "oldest_addr l = oldest_addr k" using assms(3) by (auto simp: fresh_def)
  have P: "sec_addr sec = a \<and> combined sec = SECTOR_NOT_COMBINED" if "fresh_sector a sec" for a sec using that by (simp add: fresh_sector_def)
  have read: "\<exists>r sec' l'. run_state (read_sector_info db stk a sec False) l = ((r, sec'), l') \<and> fresh k l' \<and> fresh_sector a sec' \<and>
      (r = FDB_NO_ERR \<longrightarrow> store_status sec' \<noteq> FDB_SECTOR_STORE_USING \<and> store_status sec' \<noteq> FDB_SECTOR_STORE_FULL)"
    if "sector_start store_size a" "fresh k l" for a sec l
    using read_fresh [OF assms(1) that, of stk sec False] by (auto simp: fresh_sector_def)
  show ?thesis
    using kv_walk_empty [where Inv = "fresh k" and P = fresh_sector and stk = stk and t = 0 and m = "sector_num db" and a = "oldest_addr k" and k = l,
        OF read P _ assms(2,3)] max_num old by (simp add: kv_iterator_def)
qed

lemma using_status:
  assumes "ok (kv_env l)" and "sector_start store_size (sec_addr sec)" and "store_status sec = FDB_SECTOR_STORE_EMPTY"
  shows "\<exists>l'. run_state (update_sec_status db sec n b) l = ((FDB_NO_ERR, b), l') \<and> ok (kv_env l') \<and>
    content (kv_env l') = store_cells (content (kv_env l)) (unat (sec_addr sec)) [0x3F] \<and>
    kv_cache_table l' = kv_cache_table l \<and> db_init_ok l' = db_init_ok l \<and> gc_request l' = gc_request l"
proof -
  have "fdb_write_status db (sec_addr sec) FDB_SECTOR_STATUS_NUM (store_code FDB_SECTOR_STORE_USING) = fdb_flash_write db (sec_addr sec) [0x3F]"
    by (simp add: write_status_eq FDB_SECTOR_STATUS_NUM_def)
  moreover obtain s' where "run_state (fdb_flash_write db (sec_addr sec) [0x3F]) (kv_env l) = (FDB_NO_ERR, s')" "ok s'"
    "content s' = store_cells (content (kv_env l)) (unat (sec_addr sec)) [0x3F]"
    using write_law [OF assms(1), of "sec_addr sec" "[0x3F]"] assms(2) sector_inside [OF assms(2)] by (auto simp: sector_start_def)
  ultimately show ?thesis using assms(3)
    by (simp add: update_sec_status_def update_sector_status_store_cache_def with_cached_sector_def split: option.splits)
qed

lemma create_fresh:
  assumes "ok (kv_env l)" and "sector_start store_size a" and "measured_sector a sec" and "length (kv_cache_table l) = 64"
    and "length key \<le> 64" and "record_len key val + 88 < 4080"
  shows "\<exists>l'. run_state (create_kv_blob db stk sec key val) l = ((FDB_NO_ERR, sec), l') \<and> ok (kv_env l') \<and>
    record_at (content (kv_env l')) (unat a + 16) FDB_KV_WRITE key val \<and> cache_hit (crc_of_name key) (a + 16) (kv_cache_table l') \<and>
    length (kv_cache_table l') = 64 \<and> db_init_ok l' = db_init_ok l \<and> gc_request l' = gc_request l"
proof -
  let ?len = "of_nat (record_len key val) :: u32"
  have ulen: "unat ?len = record_len key val" using assms(6) by (intro unat_of_nat_u32) simp
  have a16: "unat (a + 16) = unat a + 16" using assms(2) store_bound unat_add_of_nat [of a 16] by (simp add: sector_start_def)
  have nf: "a + 16 \<noteq> FAILED_ADDR" using assms(2) store_bound by (intro far_from_failed) (simp add: sector_start_def)
  have sec: "sec_addr sec = a" "store_status sec = FDB_SECTOR_STORE_EMPTY" "empty_kv sec = a + 16"
    using assms(3) by (simp_all add: measured_sector_def fresh_sector_def)
  obtain l4 where 4: "run_state (update_sec_status db sec ?len False) l = ((FDB_NO_ERR, False), l4)" "ok (kv_env l4)"
    "kv_cache_table l4 = kv_cache_table l" "db_init_ok l4 = db_init_ok l" "gc_request l4 = gc_request l"
    using using_status [OF assms(1), of sec ?len False] assms(2) sec by auto
  have inside: "unat (a + 16) + record_len key val \<le> store_size"
    using sector_inside [OF assms(2)] a16 assms(6) by simp
  obtain l5 where 5: "run_state (write_new_kv db sec key val (a + 16) False) l4 = (FDB_NO_ERR, l5)" "ok (kv_env l5)"
    "content (kv_env l5) = store_all (record_writes (a + 16) key val) (content (kv_env l4))"
    "kv_cache_table l5 = kv_cache_table (snd (run_state (update_kv_cache key (a + 16)) l4))" "db_init_ok l5 = db_init_ok l4" "gc_request l5 = gc_request l4"
    using write_new_ok [OF 4(2) inside, of sec False] by auto
  have "hdr_len (new_kv_hdr key val) = ?len" by (simp add: new_kv_hdr_def record_len_def)
  moreover have "\<not> ?len > db_sec_size db - SECTOR_HDR_DATA_SIZE"
    using assms(6) ulen by (simp add: db_sizes SECTOR_HDR_DATA_SIZE_def word_less_nat_alt)
  ultimately have "run_state (create_kv_blob db stk sec key val) l = ((FDB_NO_ERR, sec), l5)"
    using sec(3) nf 4(1) 5(1) assms(5) by (simp add: create_kv_blob_def FDB_KV_NAME_MAX_def)
  moreover have "a + 16 \<noteq> FDB_DATA_UNUSED" "kv_cache_table l4 \<noteq> []" using nf 4(3) assms(4) by (auto simp: FDB_DATA_UNUSED_def FAILED_ADDR_def)
  note hits = update_hits [OF this, of key]
  moreover have "unat (a + 16) + record_len key val < 2 ^ 32" using inside store_bound by simp
  note record_stored(1) [OF this, of "content (kv_env l4)"]
  ultimately show ?thesis using 4 5 a16 assms(4) by auto
qed

lemma set_formatted:
  assumes "empty_store store_size (content (kv_env k)) k" and "8192 \<le> store_size" and "ok (kv_env k)"
    and "length key \<le> 64" and "record_len key val + 88 < 4080"
  shows "\<exists>k1. run_state (fdb_kv_set_blob db stk key (Some val)) k = (FDB_NO_ERR, k1) \<and> ok (kv_env k1) \<and>
    record_at (content (kv_env k1)) (unat (oldest_addr k) + 16) FDB_KV_WRITE key val \<and>
    cache_hit (crc_of_name key) (oldest_addr k + 16) (kv_cache_table k1) \<and> length (kv_cache_table k1) = 64 \<and> db_init_ok k1"
proof -
  let ?a = "oldest_addr k" and ?len = "of_nat (record_len key val) :: u32"
  have k: "formatted store_size (content (kv_env k))" "sector_start store_size ?a" "\<forall>c \<in> set (sector_cache_table k). fresh_entry store_size c"
    "\<forall>c \<in> set (kv_cache_table k). node_addr c = FDB_DATA_UNUSED" "length (kv_cache_table k) = 64" "db_init_ok k" "\<not> gc_request k"
    using assms(1) by (simp_all add: empty_store_def)
  have fresh: "fresh k k" unfolding fresh_def using assms(3) k(3) by (intro exI [of _ "kv_env k"] exI [of _ "sector_cache_table k"]) simp
  have ulen: "unat ?len + 88 < 4080" using assms(5) unat_of_nat_u32 [of "record_len key val"] by simp
  obtain sec l1 where 1: "run_state (alloc_kv db stk (cur_sector k) ?len) k = ((?a + 16, sec), l1)" "fresh k l1" "measured_sector ?a sec"
    using alloc_fresh [OF k(1,2) fresh assms(2) ulen] by blast
  obtain e tab where l1: "l1 = k\<lparr>kv_env := e, sector_cache_table := tab\<rparr>" "ok e" "content e = content (kv_env k)"
    "\<forall>c \<in> set tab. fresh_entry store_size c" using 1(2) by (auto simp: fresh_def)
  define l2 where "l2 = l1\<lparr>cur_sector := sec\<rparr>"
  have l2: "fresh (k\<lparr>cur_sector := sec\<rparr>) l2" unfolding fresh_def l2_def using l1 by (intro exI [of _ e] exI [of _ tab]) simp
  have none: "run_state (get_kv_from_cache db key) l2 = (None, l2)" using l1(1) k(4,5) by (intro lookup_none) (simp_all add: l2_def)
  obtain l3 where 3: "run_state (kv_iterator db stk (cur_kv l2) (find_kv_cb key) False) l2 = ((cur_kv l2, False), l3)" "fresh (k\<lparr>cur_sector := sec\<rparr>) l3"
    using walk_fresh [OF _ _ l2, of stk "cur_kv l2" "find_kv_cb key" False] k(1,2) by auto
  have l3: "ok (kv_env l3)" "l3\<lparr>cur_kv := cur_kv l2\<rparr> = l3" "length (kv_cache_table l3) = 64" "db_init_ok l3" "\<not> gc_request l3"
    using 3(2) l2 k(5-7) by (auto simp: fresh_def)
  obtain l5 where 5: "run_state (create_kv_blob db stk sec key val) l3 = ((FDB_NO_ERR, sec), l5)" "ok (kv_env l5)" "\<not> gc_request l5" "db_init_ok l5"
    "record_at (content (kv_env l5)) (unat ?a + 16) FDB_KV_WRITE key val" "cache_hit (crc_of_name key) (?a + 16) (kv_cache_table l5)" "length (kv_cache_table l5) = 64"
    using create_fresh [OF l3(1) k(2) 1(3) l3(3) assms(4,5)] l3(4,5) by auto
  have nf: "?a + 16 \<noteq> FAILED_ADDR" using k(2) store_bound by (intro far_from_failed) (simp add: sector_start_def)
  have "run_state (new_kv_ex db stk (cur_sector k) (length key) (length val)) k = ((?a + 16, sec), l1)"
    using 1(1) nf by (simp add: new_kv_ex_def new_kv_def record_len_def)
  then have "run_state (fdb_kv_set_blob db stk key (Some val)) k = (FDB_NO_ERR, l5\<lparr>cur_sector := sec\<rparr>)"
    using nf none 3(1) l3(2) 5(1,3) k(6)
    by (simp add: fdb_kv_set_blob_def set_kv_def find_kv_def find_kv_no_cache_def flip: l2_def)
  then show ?thesis using 5 by auto
qed

lemma set_then_get:
  assumes "empty_store store_size (content (kv_env k)) k" and "8192 \<le> store_size" and "ok (kv_env k)"
    and "length key \<le> 64" and "record_len key val + 88 < 4080" and "stack_sized stk"
    and "take (length name) key = name" and "crc_of_name name = crc_of_name key"
  shows "\<exists>k1 k2. run_state (fdb_kv_set_blob db stk key (Some val)) k = (FDB_NO_ERR, k1) \<and>
    run_state (fdb_kv_get_blob db stk name buf m) k1 = ((min (length val) (length buf), mem_write 0 (take (length buf) val) buf, length val), k2) \<and>
    record_at (content (kv_env k1)) (unat (oldest_addr k) + 16) FDB_KV_WRITE key val"
proof -
  let ?a = "oldest_addr k"
  obtain k1 where k1: "run_state (fdb_kv_set_blob db stk key (Some val)) k = (FDB_NO_ERR, k1)" "ok (kv_env k1)"
    "record_at (content (kv_env k1)) (unat ?a + 16) FDB_KV_WRITE key val" "cache_hit (crc_of_name key) (?a + 16) (kv_cache_table k1)"
    "length (kv_cache_table k1) = 64" "db_init_ok k1" using set_formatted [OF assms(1-5)] by blast
  have a: "sector_start store_size ?a" using assms(1) by (simp add: empty_store_def)
  then have a16: "unat (?a + 16) = unat ?a + 16" using store_bound unat_add_of_nat [of ?a 16] by (simp add: sector_start_def)
  have inside: "unat (?a + 16) + 88 \<le> store_size" "unat (?a + 16) + record_len key val \<le> store_size"
    using sector_inside [OF a] a16 assms(5) by simp_all
  have v: "length val \<le> 4096" using assms(5) by (simp add: record_len_def KV_HDR_DATA_SIZE_def)
  have rec: "record_at (content (kv_env k1)) (unat (?a + 16)) FDB_KV_WRITE key val" using k1(3) a16 by simp
  from get_cached [OF k1(2,5) k1(4) [folded assms(8)] rec assms(7,4) inside v assms(6), of buf] obtain k2 where
    "run_state (get_kv db stk name buf) k1 = ((min (length val) (length buf), mem_write 0 (take (length buf) val) buf, length val), k2)" by blast
  then have "run_state (fdb_kv_get_blob db stk name buf m) k1 =
      ((min (length val) (length buf), mem_write 0 (take (length buf) val) buf, length val), k2)"
    using k1(6) by (simp add: fdb_kv_get_blob_def del: mem_write_0)
  then show ?thesis using k1(1,3) by blast
qed

end

end
