(* ===== verification/Fdb_Properties.thy ===== *)
theory Fdb_Properties
  imports Fdb_Board Fdb_Store
begin

text \<open>
  Properties of the key-value store and the layers below it.
\<close>

subsection \<open>Bounds of a partition\<close>

text \<open>C30. Reads, writes and erasures of a partition reach the device, at the offset of the
  partition, exactly if they stay inside it, and are refused with -1 and without an access
  otherwise, as long as the sum of address and size does not wrap in 32 bits; a write at
  0xFFFFFFFF passes the test and goes to the cell before the partition.\<close>

theorem partition_bounds:
  assumes "flash_device_find_by_part F part = Some dev" and "unat addr + length buf < 2 ^ 32"
  shows "run_state (fal_partition_read F part addr buf) s =
      (if unat addr + length buf \<le> unat (part_len (partition_table F ! part))
       then run_state (dev_read dev (part_offset (partition_table F ! part) + addr) buf) s else ((- 1, buf), s)) \<and>
    run_state (fal_partition_write F part addr buf) s =
      (if unat addr + length buf \<le> unat (part_len (partition_table F ! part))
       then run_state (dev_write dev (part_offset (partition_table F ! part) + addr) buf) s else (- 1, s)) \<and>
    run_state (fal_partition_erase F part addr (of_nat (length buf))) s =
      (if unat addr + length buf \<le> unat (part_len (partition_table F ! part))
       then run_state (dev_erase dev (part_offset (partition_table F ! part) + addr) (of_nat (length buf))) s else (- 1, s)) \<and>
    fal_partition_write F part 0xFFFFFFFF [b] = dev_write dev (part_offset (partition_table F ! part) - 1) [b]"
proof -
  have top: "(0xFFFFFFFF :: u32) = - 1" by simp
  have "fal_partition_write F part 0xFFFFFFFF [b] = dev_write dev (part_offset (partition_table F ! part) - 1) [b]"
    unfolding top using assms(1) by (simp add: fal_partition_write_def out_of_bound_def)
  then show ?thesis
    using out_of_bound_iff [OF assms(2), of F part] assms(1)
    by (auto simp: fal_partition_read_def fal_partition_write_def fal_partition_erase_def not_less)
qed

theorem partition_bounds_witness:
  "run_state (fal_partition_write (fal_ready 64 sim_hal [0, 0, 0]) 0 0xFFFFF [1, 2]) sim_state = (- 1, sim_state)"
  using partition_bounds [where F = "fal_ready 64 sim_hal [0, 0, 0]" and part = 0 and dev = "flash_dev_sized 64 sim_hal [0, 0, 0]" and addr = "0xFFFFF"
      and buf = "[1, 2]" and s = sim_state]
  by (simp add: fal_ready_def flash_device_find_by_part_def FAL_PART_TABLE_def)

subsection \<open>Opening the store on the board\<close>

text \<open>With the zeroed caches every sector seems to be the cached one.\<close>

lemma oldest_loop:
  assumes "get_sector_from_cache k 0 = Some i" and "sector_cache_table k ! i = zero_sector"
  shows "\<exists>sec. run_state (sector_iterator_loop n db stk FDB_SECTOR_STORE_UNUSED check_oldest_addr_cb False 0 t sec0 (0, FDB_SECTOR_STORE_UNUSED)) k =
    ((sec, 0, FDB_SECTOR_STORE_UNUSED), k)"
proof (induction n arbitrary: t sec0)
  case (Suc n)
  have "get_next_sector_addr db zero_sector (t + db_sec_size db) \<in> {0, FAILED_ADDR}"
    by (simp add: get_next_sector_addr_def zero_sector_def SECTOR_NOT_COMBINED_def)
  moreover have "store_status zero_sector = FDB_SECTOR_STORE_UNUSED" by (simp add: zero_sector_def)
  ultimately show ?case
    using assms Suc.IH [of "t + db_sec_size db" zero_sector]
    by (auto simp: sector_iterator_loop.simps read_sector_info_def check_oldest_addr_cb_def Let_def FAILED_ADDR_def)
qed (simp add: sector_iterator_loop.simps)

lemma zero_cache: "sector_cache_table k = replicate FDB_SECTOR_CACHE_TABLE_SIZE zero_sector \<Longrightarrow>
    get_sector_from_cache k 0 = Some 0 \<and> sector_cache_table k ! 0 = zero_sector"
  by (simp add: get_sector_from_cache_def FDB_SECTOR_CACHE_TABLE_SIZE_def numeral_eq_Suc zero_sector_def)

lemma find_oldest_zero:
  assumes "sector_cache_table k = replicate FDB_SECTOR_CACHE_TABLE_SIZE zero_sector"
  shows "run_state (find_oldest db stk) k = ((), k\<lparr>oldest_addr := 0\<rparr>)"
proof -
  have "get_sector_from_cache (k\<lparr>oldest_addr := 0\<rparr>) 0 = Some 0" "sector_cache_table (k\<lparr>oldest_addr := 0\<rparr>) ! 0 = zero_sector"
    using zero_cache [of "k\<lparr>oldest_addr := 0\<rparr>"] assms by auto
  from oldest_loop [OF this, of "sector_num db + 1" db stk 0 "stk_sector stk"] show ?thesis
    by (auto simp: find_oldest_def sector_iterator_def)
qed

lemma program_opens:
  assumes "run_state (w25q_init H ids) e = (r, s)"
  shows "run_state (fdb_init_ex [w25q64_flash H ids] FAL_PART_TABLE ''kvdb1'' False zero_db) e = (Some (FDB_NO_ERR, program_db 64 H ids), s)"
proof -
  have dev: "w25q64_flash H ids = flash_dev_sized 64 H ids" by (simp add: w25q64_flash_def FLASH_SPI_BUFFER_SIZE_def)
  have "run_state (fal_init [flash_dev_sized 64 H ids] FAL_PART_TABLE fal_start) e = ((1, fal_ready 64 H ids), s)"
    by (rule fal_init_ready [OF assms])
  then show ?thesis
    using partition_of_program [of 64 H ids]
    by (simp add: fdb_init_ex_def dev zero_db_def program_db_def)
      (simp add: fal_ready_def FAL_PART_TABLE_def fal_flash_device_find_def flash_dev_sized_def)
qed

text \<open>The store as it is when its flash is loaded: everything zeroed or cleared.\<close>

definition cleared_kvdb :: "'s \<Rightarrow> 's kvdb" where
  "cleared_kvdb e = snd (run_state clear_caches ((zero_kvdb e)\<lparr>default_kvs := default_kv_table\<rparr>))"

lemma cleared_fields:
  "cache_empty (cleared_kvdb e)" "oldest_addr (cleared_kvdb e) = 0" "\<not> gc_request (cleared_kvdb e)" "kv_env (cleared_kvdb e) = e"
  "length (kv_cache_table (cleared_kvdb e)) = 64" "\<forall>c \<in> set (kv_cache_table (cleared_kvdb e)). node_addr c = FDB_DATA_UNUSED"
  by (auto simp: cleared_kvdb_def clear_caches_def zero_kvdb_def cache_empty_def FDB_KV_CACHE_TABLE_SIZE_def)

lemma init_loads:
  assumes "run_state (w25q_init H ids) e = (r, s)" and "fdb_kv_load (program_db 64 H ids) stk (cleared_kvdb s) = Some (FDB_NO_ERR, l)"
  shows "fdb_kvdb_init [w25q64_flash H ids] FAL_PART_TABLE ''kvdb1'' default_kv_table stk zero_db (zero_kvdb e) =
    Some (FDB_NO_ERR, program_db 64 H ids, l\<lparr>db_init_ok := True\<rparr>)"
proof -
  let ?k = "(zero_kvdb s)\<lparr>default_kvs := default_kv_table\<rparr>"
  have "sector_cache_table ?k = replicate FDB_SECTOR_CACHE_TABLE_SIZE zero_sector" by (simp add: zero_kvdb_def)
  from find_oldest_zero [OF this, of "program_db 64 H ids" stk]
  have old: "run_state (find_oldest (program_db 64 H ids) stk) ?k = ((), ?k)" by (simp add: zero_kvdb_def)
  have num: "FDB_GC_EMPTY_SEC_THRESHOLD < sector_num (program_db 64 H ids)"
    by (simp add: sector_num_def program_db_def FDB_GC_EMPTY_SEC_THRESHOLD_def)
  have "run_state (on_flash (fdb_init_ex [w25q64_flash H ids] FAL_PART_TABLE ''kvdb1'' (db_init_ok (zero_kvdb e)) zero_db)) (zero_kvdb e) =
      (Some (FDB_NO_ERR, program_db 64 H ids), zero_kvdb s)"
    using program_opens [OF assms(1)] by (simp add: zero_kvdb_def)
  moreover have "(zero_kvdb s)\<lparr>gc_request := False, in_recovery_check := False, default_kvs := default_kv_table\<rparr> = ?k" by (simp add: zero_kvdb_def)
  ultimately show ?thesis
    using old num assms(2) by (simp add: fdb_kvdb_init_def Let_def flip: cleared_kvdb_def)
qed

context board_flash begin

lemma board_loads:
  assumes "flash_open idle s" and "no_magic (2 ^ 20) (cell (w25_env s))"
  shows "\<exists>l. fdb_kv_load (program_db 64 H ids) stk (cleared_kvdb s) = Some (FDB_NO_ERR, l) \<and> deaf.rejecting (l\<lparr>db_init_ok := True\<rparr>)"
proof -
  let ?k = "cleared_kvdb s"
  have k: "deaf.no_records ?k" "deaf.blank ?k ?k" "\<not> not_formatable (program_db 64 H ids)"
    unfolding deaf.no_records_def deaf.blank_self using cleared_fields(4,6) [of s] assms by (simp_all add: program_db_def)
  from deaf.load_blank [OF _ k(3) cleared_fields(1,2) _ cleared_fields(3) k(1,2), of stk] obtain l where
    l: "fdb_kv_load (program_db 64 H ids) stk ?k = Some (FDB_NO_ERR, l\<lparr>in_recovery_check := False\<rparr>)"
    "deaf.blank ?k (l\<lparr>in_recovery_check := in_recovery_check ?k\<rparr>)" by auto
  from l(2) obtain e where e: "l\<lparr>in_recovery_check := in_recovery_check ?k\<rparr> = ?k\<lparr>kv_env := e\<rparr>" "flash_open idle e"
    "no_magic (2 ^ 20) (cell (w25_env e))" unfolding deaf.blank_def by blast
  have "l\<lparr>in_recovery_check := False, db_init_ok := True\<rparr> = ?k\<lparr>kv_env := e, in_recovery_check := False, db_init_ok := True\<rparr>"
    using arg_cong [OF e(1), of "\<lambda>k. k\<lparr>in_recovery_check := False, db_init_ok := True\<rparr>"] by simp
  moreover have "deaf.rejecting (?k\<lparr>kv_env := e, in_recovery_check := False, db_init_ok := True\<rparr>)"
    unfolding deaf.rejecting_def deaf.no_records_def deaf.blank_self using cleared_fields [of s] e(2,3) by (simp add: cache_empty_def)
  ultimately show ?thesis using l(1) by auto
qed

lemma board_refuses:
  assumes "run_state (do { _ \<leftarrow> w25q_init H ids; w25q_init H ids }) e = (r, s)" and "flash_open idle s" and "no_magic (2 ^ 20) (cell (w25_env s))"
  shows "\<exists>db k. flashdb_init H ids stk zero_db (zero_kvdb e) = Some (0, db, k) \<and>
    (\<forall>kvs. \<exists>k'. run_state (set_values db stk kvs) k = (replicate (length kvs) FDB_SAVED_FULL, k') \<and>
       (\<forall>key buf m. fst (run_state (fdb_kv_get_blob db stk key buf m) k') = (0, buf, 0)))"
proof -
  obtain r' s1 where s1: "run_state (w25q_init H ids) e = (r', s1)" "run_state (w25q_init H ids) s1 = (r, s)"
    using assms(1) by (auto split: prod.splits)
  obtain l where l: "fdb_kv_load (program_db 64 H ids) stk (cleared_kvdb s) = Some (FDB_NO_ERR, l)" "deaf.rejecting (l\<lparr>db_init_ok := True\<rparr>)"
    using board_loads [OF assms(2,3)] by blast
  have "(zero_kvdb e)\<lparr>kv_env := s1\<rparr> = zero_kvdb s1" by (simp add: zero_kvdb_def)
  moreover have "kv_env (zero_kvdb e) = e" by (simp add: zero_kvdb_def)
  ultimately have "flashdb_init H ids stk zero_db (zero_kvdb e) = Some (0, program_db 64 H ids, l\<lparr>db_init_ok := True\<rparr>)"
    using init_loads [OF s1(2) l(1)] s1(1) by (simp add: flashdb_init_def)
  moreover have "\<exists>k'. run_state (set_values (program_db 64 H ids) stk kvs) (l\<lparr>db_init_ok := True\<rparr>) = (replicate (length kvs) FDB_SAVED_FULL, k') \<and>
      (\<forall>key buf m. fst (run_state (fdb_kv_get_blob (program_db 64 H ids) stk key buf m) k') = (0, buf, 0))" for kvs
    using deaf.rejecting_values [OF _ _ l(2), of stk kvs] deaf.rejecting_get by fastforce
  ultimately show ?thesis by blast
qed

end

text \<open>The simulated chip opens and keeps its cells.\<close>

lemma sim_init:
  assumes "busy (w25_env st) = 0"
  shows "\<exists>s. run_state (w25q_init sim_hal [0, 0, 0]) st = (0, s) \<and> flash_open sim_idle s \<and> w25_env s = w25_env st"
proof -
  let ?c = "w25_env st"
  define o1 where "o1 = (prepared ?c)\<lparr>w25_address_mode := 0, w25_inited := 1\<rparr>"
  have "run_state (flash_spiStart sim_hal) c = (0, c)" for c by (simp add: sim_hal_def)
  then have out: "open_outcome sim_hal (prepared ?c) = (0, o1)"
    using sim_frames [OF assms] by (simp add: open_outcome_def o1_def cleared_def)
  have env: "w25_env o1 = ?c" "w25_inited o1 = 1" "bus_lines o1 = None" by (simp_all add: o1_def cleared_def bus_lines_def)
  have "run_state (flash_transfer sim_hal [0x9F, 0, 0, 0]) ?c = ([0, 0xEF, 0x40, 0x17], ?c)"
    using assms by (simp add: sim_transfer sim_exchange_def sim_command_def)
  then have id: "run_state (a_w25qxx_spi_write_read (link_w25 sim_hal) [0x9F] [0, 0, 0]) o1 = ((0, [0xEF, 0x40, 0x17]), o1)"
    using w25q64.single_transfer [of "[0x9F]" "[0, 0, 0]" o1] env(1)
    by (simp add: FLASH_SPI_BUFFER_SIZE_def numeral_eq_Suc)
  have "(cleared ?c)\<lparr>spi_qspi := 0, w25_type := W25Q64\<rparr> = prepared ?c" by (simp add: cleared_def)
  then have "run_state (w25q_init sim_hal [0, 0, 0]) st = (0, o1)"
    using out id env w25q64.driver_init [of ?c]
    by (simp add: w25q_init_def w25qxx_set_interface_def w25qxx_set_type_def w25qxx_get_jedec_id_def) (simp add: sim_hal_def o1_def cleared_def)
  moreover have "flash_open sim_idle o1" using assms env by (simp add: flash_open_def) (simp add: o1_def board_def cleared_def)
  ultimately show ?thesis using env(1) by simp
qed

text \<open>C27. On this board, where the transfer buffer has 64 bytes, flashdb_init reports success on a
  flash without a formatted store, but no value is ever stored: every fdb_kv_set_blob of any
  sequence returns FDB_SAVED_FULL, and fdb_kv_get_blob finds nothing afterwards, not even the
  default values.\<close>

theorem board_never_stores:
  assumes "board_flash H cell idle latched n due"
    and "run_state (do { _ \<leftarrow> w25q_init H ids; w25q_init H ids }) e = (r, s)" and "flash_open idle s" and "no_magic (2 ^ 20) (cell (w25_env s))"
  shows "\<exists>db k. flashdb_init H ids stk zero_db (zero_kvdb e) = Some (0, db, k) \<and>
    (\<forall>kvs. \<exists>k'. run_state (set_values db stk kvs) k = (replicate (length kvs) FDB_SAVED_FULL, k') \<and>
       (\<forall>key buf m. fst (run_state (fdb_kv_get_blob db stk key buf m) k') = (0, buf, 0)))"
  by (rule board_flash.board_refuses [OF assms])

theorem board_never_stores_witness:
  "\<exists>db k. flashdb_init sim_hal [0, 0, 0] any_stack zero_db (zero_kvdb sim_state) = Some (0, db, k) \<and>
    fst (run_state (set_values db any_stack [(c_bytes ''boot_count'', [1])]) k) = [FDB_SAVED_FULL]"
proof -
  have "busy (w25_env sim_state) = 0" by (simp add: sim_state_def)
  then obtain s1 where s1: "run_state (w25q_init sim_hal [0, 0, 0]) sim_state = (0, s1)" "w25_env s1 = w25_env sim_state"
    using sim_init by blast
  then obtain s where s: "run_state (w25q_init sim_hal [0, 0, 0]) s1 = (0, s)" "flash_open sim_idle s" "w25_env s = w25_env sim_state"
    using sim_init [of s1] by (auto simp: sim_state_def)
  have "cells (\<lambda>i. 0xFF) (a + 4) 4 = [0xFF, 0xFF, 0xFF, 0xFF :: u8]" for a by (simp add: cells_def upt_rec)
  moreover have "un_le32 [0xFF, 0xFF, 0xFF, 0xFF] \<noteq> SECTOR_MAGIC_WORD" by code_simp
  ultimately have "no_magic (2 ^ 20) (mem_cells (w25_env s))" by (simp add: no_magic_def s(3) sim_state_def)
  moreover have "run_state (do { _ \<leftarrow> w25q_init sim_hal [0, 0, 0]; w25q_init sim_hal [0, 0, 0] }) sim_state = (0, s)" using s1(1) s(1) by simp
  ultimately obtain db k where "flashdb_init sim_hal [0, 0, 0] any_stack zero_db (zero_kvdb sim_state) = Some (0, db, k)"
    and "\<forall>kvs. \<exists>k'. run_state (set_values db any_stack kvs) k = (replicate (length kvs) FDB_SAVED_FULL, k') \<and>
       (\<forall>key buf m. fst (run_state (fdb_kv_get_blob db any_stack key buf m) k') = (0, buf, 0))"
    using board_never_stores [OF sim_board.board_flash_axioms _ s(2)] by blast
  moreover from this(2) have "fst (run_state (set_values db any_stack [(c_bytes ''boot_count'', [1])]) k) = replicate 1 FDB_SAVED_FULL"
    by (metis fst_conv length_Cons list.size(3) One_nat_def)
  ultimately show ?thesis by auto
qed

subsection \<open>Storing and reading on a flash that stores\<close>

context wide_flash begin

lemma program_round_trip:
  assumes "flash_open idle (kv_env k)" and "empty_store (2 ^ 20) (cell (w25_env (kv_env k))) k" and "length key \<le> 64"
    and "record_len key val + 88 < 4080" and "stack_sized stk" and "take (length name) key = name" and "crc_of_name name = crc_of_name key"
  shows "\<exists>k1 k2. run_state (fdb_kv_set_blob (program_db bsize H ids) stk key (Some val)) k = (FDB_NO_ERR, k1) \<and>
    run_state (fdb_kv_get_blob (program_db bsize H ids) stk name buf m) k1 =
      ((min (length val) (length buf), mem_write 0 (take (length buf) val) buf, length val), k2) \<and>
    record_at (cell (w25_env (kv_env k1))) (unat (oldest_addr k) + 16) FDB_KV_WRITE key val"
  by (rule store.set_then_get [OF assms(2) _ assms(1,3-7)]) simp

end

text \<open>C25. In a formatted store on a flash that stores (the driver on any chip that keeps its
  promises, through the port and the partition, with a transfer buffer that holds a sector)
  fdb_kv_set_blob returns FDB_NO_ERR for every key of up to 64 bytes and every value that fits,
  leaves a complete record behind the header of the oldest sector, and fdb_kv_get_blob of that
  key then returns the value and its length.\<close>

theorem stored_value_is_read:
  assumes "wide_flash H cell idle latched n due bsize" and "flash_open idle (kv_env k)" and "empty_store (2 ^ 20) (cell (w25_env (kv_env k))) k"
    and "length key \<le> 64" and "record_len key val + 88 < 4080" and "stack_sized stk"
  shows "\<exists>k1 k2. run_state (fdb_kv_set_blob (program_db bsize H ids) stk key (Some val)) k = (FDB_NO_ERR, k1) \<and>
    run_state (fdb_kv_get_blob (program_db bsize H ids) stk key buf m) k1 =
      ((min (length val) (length buf), mem_write 0 (take (length buf) val) buf, length val), k2) \<and>
    record_at (cell (w25_env (kv_env k1))) (unat (oldest_addr k) + 16) FDB_KV_WRITE key val"
  by (rule wide_flash.program_round_trip [OF assms]) simp_all

text \<open>A formatted flash, and the open store on it.\<close>

definition formatted_cells :: "nat \<Rightarrow> u8" where
  "formatted_cells i = (if i mod 4096 < 16 then sector_hdr_bytes SECTOR_NOT_COMBINED ! (i mod 4096) else 0xFF)"

definition sim_store :: "sim_chip w25_state kvdb" where
  "sim_store = (cleared_kvdb (sim_state\<lparr>w25_env := \<lparr>mem_cells = formatted_cells, wel = False, busy = 0\<rparr>\<rparr>))\<lparr>db_init_ok := True\<rparr>"

lemma sim_store_empty:
  "flash_open sim_idle (kv_env sim_store)" "empty_store (2 ^ 20) (mem_cells (w25_env (kv_env sim_store))) sim_store" "stack_sized any_stack"
proof -
  have env: "kv_env sim_store = sim_state\<lparr>w25_env := \<lparr>mem_cells = formatted_cells, wel = False, busy = 0\<rparr>\<rparr>"
    by (simp add: sim_store_def cleared_fields)
  show "flash_open sim_idle (kv_env sim_store)" using sim_state_board by (simp add: env flash_open_def board_def)
  have len: "length (sector_hdr_bytes SECTOR_NOT_COMBINED) = 16" by (simp add: header_bytes)
  have "cells formatted_cells a 16 = sector_hdr_bytes SECTOR_NOT_COMBINED" if "a mod 4096 = 0" for a
  proof (rule nth_equalityI)
    fix i assume "i < length (cells formatted_cells a 16)"
    then have i: "i < 16" by simp
    then have "(a + i) mod 4096 = i" using that by (simp add: mod_add_left_eq [symmetric] flip: mod_add_left_eq)
    then show "cells formatted_cells a 16 ! i = sector_hdr_bytes SECTOR_NOT_COMBINED ! i" using i by (simp add: formatted_cells_def)
  qed (simp add: len)
  then show "empty_store (2 ^ 20) (mem_cells (w25_env (kv_env sim_store))) sim_store"
    using cleared_fields [of "kv_env sim_store"] unfolding env
    by (auto simp: empty_store_def formatted_def sim_store_def sector_start_def fresh_entry_def cache_empty_def)
  show "stack_sized any_stack" by (simp add: stack_sized_def any_stack_def zero_kv_def FDB_KV_NAME_MAX_def)
qed

theorem stored_value_is_read_witness:
  "\<exists>k1. run_state (fdb_kv_set_blob (program_db 4101 sim_hal [0, 0, 0]) any_stack (c_bytes ''boot_count'') (Some [1])) sim_store = (FDB_NO_ERR, k1) \<and>
    fst (run_state (fdb_kv_get_blob (program_db 4101 sim_hal [0, 0, 0]) any_stack (c_bytes ''boot_count'') [0] 0) k1) = (1, [1], 1)"
proof -
  have "length (c_bytes ''boot_count'') \<le> 64" "record_len (c_bytes ''boot_count'') [1] + 88 < 4080"
    by (simp_all add: c_bytes_def record_len_def KV_HDR_DATA_SIZE_def)
  from stored_value_is_read [OF sim_flash.wide_flash_axioms sim_store_empty(1,2) this sim_store_empty(3), of "[0, 0, 0]" "[0]" 0]
  show ?thesis by auto
qed

text \<open>C29. A lookup through the record cache compares only as many characters as the key has, and 16
  bits of a checksum: on a flash whose transfer buffer holds a sector and its command (at least
  4101 bytes, not the 64 bytes of this board, where nothing is stored), in a formatted store
  whose only value is that of boot_countoe1, fdb_kv_get_blob of the key boot_count, which was
  never set, returns this value.\<close>

theorem cache_confuses_keys:
  assumes "wide_flash H cell idle latched n due bsize" and "flash_open idle (kv_env k)" and "empty_store (2 ^ 20) (cell (w25_env (kv_env k))) k"
    and "length val \<le> 3900" and "stack_sized stk"
  shows "\<exists>k1 k2. run_state (fdb_kv_set_blob (program_db bsize H ids) stk (c_bytes ''boot_countoe1'') (Some val)) k = (FDB_NO_ERR, k1) \<and>
    run_state (fdb_kv_get_blob (program_db bsize H ids) stk (c_bytes ''boot_count'') buf m) k1 =
      ((min (length val) (length buf), mem_write 0 (take (length buf) val) buf, length val), k2)"
proof -
  have crc: "crc_of_name (c_bytes ''boot_count'') = crc_of_name (c_bytes ''boot_countoe1'')" by code_simp
  have "length (c_bytes ''boot_countoe1'') \<le> 64" "record_len (c_bytes ''boot_countoe1'') val + 88 < 4080"
    "take (length (c_bytes ''boot_count'')) (c_bytes ''boot_countoe1'') = c_bytes ''boot_count''"
    using assms(4) by (simp_all add: c_bytes_def record_len_def KV_HDR_DATA_SIZE_def)
  from wide_flash.program_round_trip [OF assms(1-3) this(1,2) assms(5) this(3) crc, of ids buf m] show ?thesis by blast
qed

theorem cache_confuses_keys_witness:
  "\<exists>k1. run_state (fdb_kv_set_blob (program_db 4101 sim_hal [0, 0, 0]) any_stack (c_bytes ''boot_countoe1'') (Some [7])) sim_store = (FDB_NO_ERR, k1) \<and>
    fst (run_state (fdb_kv_get_blob (program_db 4101 sim_hal [0, 0, 0]) any_stack (c_bytes ''boot_count'') [0] 0) k1) = (1, [7], 1)"
proof -
  have "length [7 :: u8] \<le> 3900" by simp
  from cache_confuses_keys [OF sim_flash.wide_flash_axioms sim_store_empty(1,2) this sim_store_empty(3), of "[0, 0, 0]" "[0]" 0]
  show ?thesis by auto
qed

end
