(* ===== verification/Fdb_Loops.thy ===== *)
theory Fdb_Loops
  imports Fdb_Walk
begin

text \<open>
  The bounds of all loops of the key-value store are enough. The loops that handle a range in pieces
  are shown first, then the iterator of the application, whose position stays inside its sector from
  one call to the next; the property collects every walk. A larger bound gives the same result on
  every device, also on one that counts the accesses, so that no loop is cut off by its bound.
\<close>

declare sector_iterator_loop.simps [simp del] kv_iterator_loop.simps [simp del] kv_loop.simps [simp del] next_kv_loop.simps [simp del]
  kv_iterate_loop.simps [simp del] check_loop.simps [simp del] crc_data_loop.simps [simp del]

subsection \<open>Ranges in pieces\<close>

lemma unat_add_32: "unat (x :: u32) + 32 < 2 ^ 32 \<Longrightarrow> unat (x + 32) = unat x + 32"
  using unat_add_of_nat [of x 32] by simp

lemma ff_loop_enough:
  assumes "unat fin + 32 < 2 ^ 32" and "unat fin < unat start + 32 * n"
  shows "run_state (ff_loop (n + m) db start fin buf st) s = run_state (ff_loop n db start fin buf st) s"
  using assms(2)
proof (induction n arbitrary: start buf st s)
  case 0
  then show ?case by (cases m) (simp_all add: word_less_nat_alt)
next
  case (Suc n)
  show ?case
  proof (cases "start < fin")
    case True
    then have "unat (start + 32) = unat start + 32" using assms(1) by (intro unat_add_32) (simp add: word_less_nat_alt)
    then have "unat fin < unat (start + 32) + 32 * n" using Suc.prems by simp
    from Suc.IH [OF this] True show ?thesis by (simp add: case_prod_beta Let_def del: mem_write_0)
  qed simp
qed

text \<open>The length of the next piece of the range from \<open>len\<close> to \<open>fin\<close>, and what is left after it.\<close>

lemma piece_left:
  assumes "unat fin + 32 < 2 ^ 32" and "len < (fin :: u32)" and "sz = (if len + 32 < fin then 32 else unat (fin - len))"
    and "unat fin \<le> unat len + 32 * n"
  shows "unat fin \<le> unat (len + of_nat sz) + 32 * (n - 1)"
proof (cases "len + 32 < fin")
  case True
  have "unat (len + 32) = unat len + 32" using assms(1,2) by (intro unat_add_32) (simp add: word_less_nat_alt)
  then show ?thesis using True assms(3,4) by (cases n) simp_all
qed (use assms(3) in simp)

lemma crc_data_loop_enough:
  assumes "unat fin + 32 < 2 ^ 32" and "unat fin \<le> unat len + 32 * n"
  shows "run_state (crc_data_loop (n + m) db a len fin buf crc) s = run_state (crc_data_loop n db a len fin buf crc) s"
  using assms(2)
proof (induction n arbitrary: len buf crc s)
  case 0
  then show ?case by (cases m) (simp_all add: crc_data_loop.simps word_less_nat_alt)
next
  case (Suc n)
  define sz where "sz = (if len + 32 < fin then 32 else unat (fin - len))"
  show ?case
  proof (cases "len < fin")
    case True
    from piece_left [OF assms(1) this sz_def Suc.prems] have "unat fin \<le> unat (len + of_nat sz) + 32 * n" by simp
    from Suc.IH [OF this] True show ?thesis
      by (simp add: crc_data_loop.simps(2) sz_def [symmetric] case_prod_beta Let_def del: mem_write_0 split del: if_split)
  qed (simp add: crc_data_loop.simps)
qed

lemma move_loop_enough:
  assumes "unat fin + 32 < 2 ^ 32" and "unat fin \<le> unat len + 32 * n"
  shows "run_state (move_loop (n + m) db src dst len fin buf r) s = run_state (move_loop n db src dst len fin buf r) s"
  using assms(2)
proof (induction n arbitrary: len buf r s)
  case 0
  then show ?case by (cases m) (simp_all add: word_less_nat_alt)
next
  case (Suc n)
  define sz where "sz = (if len + 32 < fin then 32 else unat (fin - len))"
  show ?case
  proof (cases "len < fin")
    case True
    from piece_left [OF assms(1) this sz_def Suc.prems] have "unat fin \<le> unat (len + of_nat sz) + 32 * n" by simp
    from Suc.IH [OF this] True show ?thesis
      by (simp add: move_loop.simps(2) sz_def [symmetric] case_prod_beta Let_def del: mem_write_0 split del: if_split)
  qed simp
qed

text \<open>The loop that formats all sectors.\<close>

lemma format_all_enough:
  assumes "unat (db_max_size db) + unat (db_sec_size db) < 2 ^ 32" and "unat (db_max_size db) \<le> unat addr + unat (db_sec_size db) * n"
  shows "run_state (format_all (n + m) db addr) k = run_state (format_all n db addr) k"
  using assms(2)
proof (induction n arbitrary: addr k)
  case 0
  then show ?case by (cases m) (simp_all add: word_less_nat_alt)
next
  case (Suc n)
  show ?case
  proof (cases "addr < db_max_size db")
    case True
    then have "unat (addr + db_sec_size db) = unat addr + unat (db_sec_size db)"
      using assms(1) by (subst unat_add_lem [THEN iffD1]) (simp_all add: word_less_nat_alt)
    then have "unat (db_max_size db) \<le> unat (addr + db_sec_size db) + unat (db_sec_size db) * n" using Suc.prems by simp
    from Suc.IH [OF this] True show ?thesis by (simp add: case_prod_beta)
  qed simp
qed

lemma next_kv_loop_enough:
  assumes "unat fin + 32 < 2 ^ 32" and "unat fin \<le> unat start + 28 * n"
  shows "run_state (next_kv_loop (n + m) db buf start bak fin) s = run_state (next_kv_loop n db buf start bak fin) s"
  using assms(2)
proof (induction n arbitrary: buf start s)
  case 0
  then show ?case by (cases m) (simp_all add: next_kv_loop.simps word_less_nat_alt)
next
  case (Suc n)
  show ?case
  proof (cases "start < fin")
    case True
    then have "unat (start + 28) = unat start + 28" using assms(1) unat_add_of_nat [of start 28] by (simp add: word_less_nat_alt)
    then have "unat fin \<le> unat (start + 28) + 28 * n" using Suc.prems by simp
    from Suc.IH [OF this] show ?thesis by (simp add: next_kv_loop.simps case_prod_beta split: option.splits)
  qed (simp add: next_kv_loop.simps)
qed

text \<open>The rounds of the callers.\<close>

lemma range_rounds:
  assumes "0 < d"
  shows "unat fin < unat (start :: u32) + d * (unat (fin - start) div d + 2)"
proof (cases "start \<le> fin")
  case True
  then have "unat fin = unat start + unat (fin - start)" by (simp add: unat_sub word_le_nat_alt)
  moreover have "unat (fin - start) < d * (unat (fin - start) div d + 2)"
    using mult_div_mod_eq [of d "unat (fin - start)"] mod_less_divisor [OF assms, of "unat (fin - start)"]
    unfolding distrib_left by linarith
  ultimately show ?thesis by linarith
next
  case False
  then have "unat fin < unat start" by (simp add: word_le_nat_alt)
  then show ?thesis by simp
qed

subsection \<open>The iterator of the application\<close>

text \<open>
  An iterator between two calls: it has not visited all sectors, and its record is none yet, or one that
  was read inside the sector it points to.
\<close>

definition in_sector :: "'s fdb_db \<Rightarrow> u32 \<Rightarrow> fdb_kv \<Rightarrow> bool" where
  "in_sector db a kv \<longleftrightarrow> unat a + 16 \<le> unat (addr_start kv) \<and> unat (addr_start kv) \<le> unat a + unat (db_sec_size db) \<and>
     (crc_is_ok kv \<longrightarrow> 24 \<le> unat (kv_len kv) \<and> unat (kv_len kv) \<le> unat (db_max_size db))"

definition itr_ok :: "'s fdb_db \<Rightarrow> fdb_kv_iterator \<Rightarrow> bool" where
  "itr_ok db itr \<longleftrightarrow> unat (itr_traversed_len itr) \<le> unat (db_max_size db) \<and> unat (sector_addr itr) \<le> unat (db_max_size db) \<and>
     (addr_start (curr_kv itr) = 0 \<or> in_sector db (sector_addr itr) (curr_kv itr))"

lemma kv_loop_found:
  assumes "run_state (kv_loop db stk sector callback n kv acc) k = ((True, kv', acc'), k')"
    and "unat (sec_addr sector) + unat (db_sec_size db) + unat (db_max_size db) + 1 < 2 ^ 32"
    and "unat (sec_addr sector) + 16 \<le> unat (addr_start kv)" and "unat (addr_start kv) \<le> unat (sec_addr sector) + unat (db_sec_size db)"
  shows "in_sector db (sec_addr sector) kv'"
  using assms(1,3,4)
proof (induction n arbitrary: kv acc k)
  case 0
  then show ?case by (simp add: kv_loop.simps)
next
  case (Suc n)
  obtain r kv1 e1 where 1: "run_state (read_kv db stk kv) (kv_env k) = ((r, kv1), e1)" by (metis prod.exhaust)
  obtain stop acc1 k2 where 2: "run_state (callback kv1 acc) (k\<lparr>kv_env := e1\<rparr>) = ((stop, acc1), k2)" by (metis prod.exhaust)
  obtain addr k3 where 3: "run_state (get_next_kv_addr db stk sector kv1) k2 = (addr, k3)" by fastforce
  have run: "run_state (kv_loop db stk sector callback (Suc n) kv acc) k =
      (if stop then ((True, kv1, acc1), k2) else if addr = FAILED_ADDR then ((False, kv1\<lparr>addr_start := addr\<rparr>, acc1), k3)
       else run_state (kv_loop db stk sector callback n (kv1\<lparr>addr_start := addr\<rparr>) acc1) k3)"
    using 1 2 3 by (simp add: kv_loop.simps on_flash_def Let_def)
  show ?case
  proof (cases "stop \<or> addr = FAILED_ADDR")
    case True
    then have "kv' = kv1" using run Suc.prems(1) by (auto split: if_splits)
    then show ?thesis using read_kv_frame [OF 1] Suc.prems(2,3) by (simp add: in_sector_def)
  next
    case False
    then have rest: "run_state (kv_loop db stk sector callback n (kv1\<lparr>addr_start := addr\<rparr>) acc1) k3 = ((True, kv', acc'), k')"
      using run Suc.prems(1) by simp
    note nx = read_then_next [OF 1 3 _ assms(2) Suc.prems(3)]
    show ?thesis using Suc.IH [OF rest] nx False Suc.prems(2) by simp
  qed
qed

lemma read_sector_addr: "sec_addr (snd (fst (run_state (read_sector_info db stk a sec False) k))) = a"
  using find_sector_some [of 0 "sector_cache_table k" a None]
  by (auto simp: read_sector_info_def read_sector_header_def get_sector_from_cache_def case_prod_beta Let_def split: option.splits)

text \<open>The record that the search in a sector starts with, if any, and the record it finds.\<close>

lemma iterate_sector_found:
  assumes "run_state (iterate_sector db stk sector kv) k = ((True, kv'), k')"
    and "unat (sec_addr sector) + unat (db_sec_size db) + unat (db_max_size db) + 1 < 2 ^ 32" and "16 \<le> unat (db_sec_size db)"
    and "addr_start kv = 0 \<or> in_sector db (sec_addr sector) kv"
  shows "in_sector db (sec_addr sector) kv'"
proof -
  obtain addr k1 where 1: "run_state (if addr_start kv = 0 then ret (sec_addr sector + SECTOR_HDR_DATA_SIZE) else get_next_kv_addr db stk sector kv) k = (addr, k1)"
    by fastforce
  obtain f kv2 acc k2 where 2: "run_state (kv_loop db stk sector valid_kv_cb (unat (db_sec_size db)) (kv\<lparr>addr_start := addr\<rparr>) ()) k1 = ((f, kv2, acc), k2)"
    by (metis prod.exhaust)
  have "run_state (iterate_sector db stk sector kv) k = (if addr = FAILED_ADDR then ((False, kv), k1) else ((f, kv2), k2))"
    using 1 2 by (simp add: iterate_sector_def)
  then have run: "addr \<noteq> FAILED_ADDR"
    "run_state (kv_loop db stk sector valid_kv_cb (unat (db_sec_size db)) (kv\<lparr>addr_start := addr\<rparr>) ()) k1 = ((True, kv', acc), k')"
    using assms(1) 2 by (auto split: if_splits)
  have "unat (sec_addr sector) + 16 \<le> unat addr \<and> unat addr \<le> unat (sec_addr sector) + unat (db_sec_size db)"
  proof (cases "addr_start kv = 0")
    case True
    then have "addr = sec_addr sector + 16" using 1 by (simp add: SECTOR_HDR_DATA_SIZE_def)
    then show ?thesis using assms(2,3) unat_add_of_nat [of "sec_addr sector" 16] by simp
  next
    case False
    then have in_s: "in_sector db (sec_addr sector) kv" using assms(4) by simp
    have "run_state (get_next_kv_addr db stk sector kv) k = (addr, k1)" using 1 False by simp
    from next_kv_greater [OF this run(1) assms(2)] in_s show ?thesis by (simp add: in_sector_def)
  qed
  then show ?thesis using kv_loop_found [OF run(2) assms(2)] by simp
qed

lemma next_sector_small:
  "get_next_sector_addr db sec t \<noteq> FAILED_ADDR \<Longrightarrow> unat (get_next_sector_addr db sec t) \<le> unat (db_max_size db)"
  by (auto simp: get_next_sector_addr_def Let_def word_less_nat_alt split: if_splits)

lemma iterate_keeps_ok:
  assumes "run_state (kv_iterate_loop n db stk sec itr) k = ((True, itr'), k')" and "itr_ok db itr" and "combined_ok k"
    and "2 * unat (db_max_size db) + 2 * unat (db_sec_size db) + 1 < 2 ^ 32" and "16 \<le> unat (db_sec_size db)"
  shows "itr_ok db itr' \<and> addr_start (curr_kv itr') \<noteq> 0"
  using assms(1-3)
proof (induction n arbitrary: sec itr k)
  case 0
  then show ?case by (simp add: kv_iterate_loop.simps)
next
  case (Suc n)
  let ?t = "itr_traversed_len itr"
  have small: "unat ?t \<le> unat (db_max_size db)" "unat (sector_addr itr) \<le> unat (db_max_size db)" using Suc.prems(2) by (simp_all add: itr_ok_def)
  have t: "unat (?t + db_sec_size db) = unat ?t + unat (db_sec_size db)"
    using assms(4) small(1) unat_add_of_nat [of ?t "unat (db_sec_size db)"] by simp
  obtain r1 sec1 k1 where 1: "run_state (read_sector_info db stk (sector_addr itr) sec False) k = ((r1, sec1), k1)" by (metis prod.exhaust)
  have c1: "combined sec1 \<in> {SECTOR_NOT_COMBINED, SECTOR_COMBINED}" "combined_ok k1" "sec_addr sec1 = sector_addr itr"
    using read_sector_combined [OF Suc.prems(3), of db stk "sector_addr itr" sec False] read_sector_addr [of db stk "sector_addr itr" sec k] 1 by simp_all
  define visit where "visit = (if r1 = FDB_NO_ERR \<and> (store_status sec1 = FDB_SECTOR_STORE_USING \<or> store_status sec1 = FDB_SECTOR_STORE_FULL)
    then iterate_sector db stk sec1 (curr_kv itr) else ret (False, curr_kv itr))"
  obtain found kv2 k2 where 2: "run_state visit k1 = ((found, kv2), k2)" by (metis prod.exhaust)
  have "keeps visit" unfolding visit_def by (intro keeps_rules)
  then have k2: "combined_ok k2" using c1(2) 2 by (metis keeps_def snd_conv)
  define a' where "a' = get_next_sector_addr db sec1 (?t + db_sec_size db)"
  define itr2 where "itr2 = itr\<lparr>curr_kv := kv2\<lparr>addr_start := 0\<rparr>, itr_traversed_len := ?t + db_sec_size db, sector_addr := a'\<rparr>"
  have run: "run_state (kv_iterate_loop (Suc n) db stk sec itr) k =
      (if found then ((True, count_kv kv2 itr), k2) else if a' \<noteq> FAILED_ADDR then run_state (kv_iterate_loop n db stk sec1 itr2) k2
       else ((False, itr2), k2))"
    using 1 2 by (simp add: kv_iterate_loop.simps visit_def a'_def itr2_def Let_def)
  show ?case
  proof (cases found)
    case True
    then have it: "run_state (iterate_sector db stk sec1 (curr_kv itr)) k1 = ((True, kv2), k2)"
      using 2 by (auto simp: visit_def split: if_splits)
    have "in_sector db (sector_addr itr) kv2"
      using iterate_sector_found [OF it] Suc.prems(2) assms(4,5) c1(3) small(2) by (simp add: itr_ok_def)
    then show ?thesis using True run Suc.prems(1,2) by (auto simp: itr_ok_def count_kv_def in_sector_def)
  next
    case False
    then have a': "a' \<noteq> FAILED_ADDR" and rest: "run_state (kv_iterate_loop n db stk sec1 itr2) k2 = ((True, itr'), k')"
      using run Suc.prems(1) by (auto split: if_splits)
    have "unat (?t + db_sec_size db) + unat (db_sec_size db) < 2 ^ 32" using assms(4) small(1) t by simp
    from next_sector_ends [OF c1(1) a' [unfolded a'_def] this] next_sector_small [OF a' [unfolded a'_def]]
    have "itr_ok db itr2" by (simp add: itr_ok_def itr2_def a'_def)
    from Suc.IH [OF rest this k2] show ?thesis .
  qed
qed

lemma keeps_iterate_loop: "keeps (kv_iterate_loop n db stk sec itr)"
proof (induction n arbitrary: sec itr)
  case (Suc n)
  show ?case unfolding kv_iterate_loop.simps by (intro keeps_rules Suc)
qed (simp add: kv_iterate_loop.simps keeps_rules)

subsection \<open>Every walk ends\<close>

text \<open>C28. Whatever the flash holds and its operations return, every loop of the key-value store
  that carries a bound in the model ends by itself within it, so that more rounds change
  nothing: the walks over all sectors in sector_iterator, kv_iterator, fdb_kvdb_check and
  fdb_kv_iterate, the walks over the records of a sector in kv_iterator, read_sector_info and
  fdb_kvdb_check, the search for the next record, the search for the erased end of a range, the
  loops over the pieces of a value in read_kv and move_kv, and the formatting of all sectors.
  The sectors have at least 32 bytes, twice the store and a sector fit 32 bits, ranges and
  values end inside the store, the walk of a sector starts behind its header, the cached sectors
  are combined with none and the position of an iterator is inside its sector; setting, reading,
  deleting, garbage collection and iterating keep the last two.\<close>

theorem walks_end:
  assumes "32 \<le> unat (db_sec_size db)" and "2 * unat (db_max_size db) + 2 * unat (db_sec_size db) + 1 < 2 ^ 32"
    and "unat (sec_addr sector) \<le> unat (db_max_size db)" and "unat fin \<le> unat (db_max_size db) + unat (db_sec_size db)"
    and "unat (sec_addr sector) + 16 \<le> unat (addr_start kv)" and "unat (addr_start kv) \<le> unat (sec_addr sector) + unat (db_sec_size db)"
    and "combined_ok k" and "\<And>sec acc. keeps (callback sec acc)" and "\<And>kv acc. keeps (kv_callback kv acc)" and "itr_ok db itr"
  shows "run_state (sector_iterator_loop (sector_num db + 1 + m) db stk status callback b a 0 sec acc) k =
      run_state (sector_iterator_loop (sector_num db + 1) db stk status callback b a 0 sec acc) k \<and>
    run_state (kv_iterator_loop (sector_num db + 1 + m) db stk kv_callback a 0 sec kv0 kv_acc) k =
      run_state (kv_iterator_loop (sector_num db + 1) db stk kv_callback a 0 sec kv0 kv_acc) k \<and>
    run_state (check_loop (sector_num db + 1 + m) db stk a 0 sec kv0) k = run_state (check_loop (sector_num db + 1) db stk a 0 sec kv0) k \<and>
    run_state (kv_iterate_loop (sector_num db + 1 + m) db stk sec itr) k = run_state (kv_iterate_loop (sector_num db + 1) db stk sec itr) k \<and>
    run_state (kv_loop db stk sector kv_callback (unat (db_sec_size db) + m) kv kv_acc) k =
      run_state (kv_loop db stk sector kv_callback (unat (db_sec_size db)) kv kv_acc) k \<and>
    run_state (measure_loop db stk (unat (db_sec_size db) + m) kv sector) k = run_state (measure_loop db stk (unat (db_sec_size db)) kv sector) k \<and>
    run_state (check_kv_loop db stk sector (unat (db_sec_size db) + m) kv) k = run_state (check_kv_loop db stk sector (unat (db_sec_size db)) kv) k \<and>
    run_state (next_kv_loop (unat (fin - start) div 28 + 2 + m) db bytes start bak fin) e =
      run_state (next_kv_loop (unat (fin - start) div 28 + 2) db bytes start bak fin) e \<and>
    run_state (ff_loop (unat (fin - start) div 32 + 2 + m) db start fin bytes st) e = run_state (ff_loop (unat (fin - start) div 32 + 2) db start fin bytes st) e \<and>
    run_state (crc_data_loop (unat fin div 32 + 2 + m) db start 0 fin bytes crc) e = run_state (crc_data_loop (unat fin div 32 + 2) db start 0 fin bytes crc) e \<and>
    run_state (move_loop (unat fin div 32 + 2 + m) db start dst 0 fin bytes r) e = run_state (move_loop (unat fin div 32 + 2) db start dst 0 fin bytes r) e \<and>
    run_state (format_all (sector_num db + 1 + m) db 0) k = run_state (format_all (sector_num db + 1) db 0) k \<and>
    (\<forall>itr' k'. run_state (fdb_kv_iterate db stk itr) k = ((True, itr'), k') \<longrightarrow> itr_ok db itr' \<and> addr_start (curr_kv itr') \<noteq> 0) \<and>
    keeps (do_gc db stk n sec gc_acc) \<and> keeps (fdb_kv_set_blob db stk key val) \<and> keeps (fdb_kv_del db stk key) \<and>
    keeps (fdb_kv_get_blob db stk key buf p) \<and> keeps (fdb_kv_iterate db stk itr)"
proof (intro conjI)
  have size: "unat (db_max_size db) + 2 * unat (db_sec_size db) < 2 ^ 32" using assms(2) by simp
  have cover: "unat (db_max_size db) < unat (0 :: u32) + (sector_num db + 1) * unat (db_sec_size db)"
    "unat (db_max_size db) < unat (itr_traversed_len itr) + (sector_num db + 1) * unat (db_sec_size db)"
    using sector_num_covers [of db] assms(1) by force+
  have small: "unat (sec_addr sector) + unat (db_sec_size db) + unat (db_max_size db) + 1 < 2 ^ 32"
    "unat (sec_addr sector) + unat (db_sec_size db) - unat (addr_start kv) < unat (db_sec_size db)" using assms(1-3,5) by simp_all
  have fin: "unat fin + 32 < 2 ^ 32" using assms(1,2,4) by simp
  show "run_state (sector_iterator_loop (sector_num db + 1 + m) db stk status callback b a 0 sec acc) k =
      run_state (sector_iterator_loop (sector_num db + 1) db stk status callback b a 0 sec acc) k"
    by (rule sector_walk_enough [OF size assms(8,7) _ cover(1)]) simp
  show "run_state (kv_iterator_loop (sector_num db + 1 + m) db stk kv_callback a 0 sec kv0 kv_acc) k =
      run_state (kv_iterator_loop (sector_num db + 1) db stk kv_callback a 0 sec kv0 kv_acc) k"
    by (rule kv_walk_enough [OF size assms(9,7) _ cover(1)]) simp
  show "run_state (check_loop (sector_num db + 1 + m) db stk a 0 sec kv0) k = run_state (check_loop (sector_num db + 1) db stk a 0 sec kv0) k"
    by (rule check_walk_enough [OF size assms(7) _ cover(1)]) simp
  show "run_state (kv_iterate_loop (sector_num db + 1 + m) db stk sec itr) k = run_state (kv_iterate_loop (sector_num db + 1) db stk sec itr) k"
    using assms(10) by (intro iterate_walk_enough [OF size assms(7) _ cover(2)]) (simp add: itr_ok_def)
  show "run_state (next_kv_loop (unat (fin - start) div 28 + 2 + m) db bytes start bak fin) e =
      run_state (next_kv_loop (unat (fin - start) div 28 + 2) db bytes start bak fin) e"
    using range_rounds [of 28 fin start] by (intro next_kv_loop_enough [OF fin]) simp
  show "run_state (ff_loop (unat (fin - start) div 32 + 2 + m) db start fin bytes st) e = run_state (ff_loop (unat (fin - start) div 32 + 2) db start fin bytes st) e"
    using range_rounds [of 32 fin start] by (intro ff_loop_enough [OF fin]) simp
  have "unat fin < unat (0 :: u32) + 32 * (unat (fin - 0) div 32 + 2)" by (rule range_rounds) simp
  then have rounds: "unat fin \<le> unat (0 :: u32) + 32 * (unat fin div 32 + 2)" by simp
  show "run_state (crc_data_loop (unat fin div 32 + 2 + m) db start 0 fin bytes crc) e = run_state (crc_data_loop (unat fin div 32 + 2) db start 0 fin bytes crc) e"
    by (rule crc_data_loop_enough [OF fin rounds])
  show "run_state (move_loop (unat fin div 32 + 2 + m) db start dst 0 fin bytes r) e = run_state (move_loop (unat fin div 32 + 2) db start dst 0 fin bytes r) e"
    by (rule move_loop_enough [OF fin rounds])
  show "run_state (format_all (sector_num db + 1 + m) db 0) k = run_state (format_all (sector_num db + 1) db 0) k"
    using cover(1) assms(2) by (intro format_all_enough) (simp_all add: algebra_simps)
  show "\<forall>itr' k'. run_state (fdb_kv_iterate db stk itr) k = ((True, itr'), k') \<longrightarrow> itr_ok db itr' \<and> addr_start (curr_kv itr') \<noteq> 0"
    unfolding fdb_kv_iterate_def using iterate_keeps_ok [OF _ assms(10,7,2)] assms(1) by fastforce
  show "keeps (fdb_kv_iterate db stk itr)" unfolding fdb_kv_iterate_def by (rule keeps_iterate_loop)
  note enough = small(1) assms(6) small(2)
  show "run_state (kv_loop db stk sector kv_callback (unat (db_sec_size db) + m) kv kv_acc) k =
      run_state (kv_loop db stk sector kv_callback (unat (db_sec_size db)) kv kv_acc) k" by (rule kv_loop_enough [OF enough])
  show "run_state (measure_loop db stk (unat (db_sec_size db) + m) kv sector) k = run_state (measure_loop db stk (unat (db_sec_size db)) kv sector) k"
    by (rule measure_loop_enough [OF enough])
  show "run_state (check_kv_loop db stk sector (unat (db_sec_size db) + m) kv) k = run_state (check_kv_loop db stk sector (unat (db_sec_size db)) kv) k"
    by (rule check_kv_loop_enough [OF enough])
qed (intro keeps_rules keeps_set)+

theorem walks_end_witness:
  "run_state (sector_iterator_loop 1000 (program_db 64 sim_hal []) any_stack FDB_SECTOR_STORE_UNUSED
      (do_gc (program_db 64 sim_hal []) any_stack 100) False 0 0 zero_sector 0) (zero_kvdb sim_state) =
   run_state (sector_iterator_loop 257 (program_db 64 sim_hal []) any_stack FDB_SECTOR_STORE_UNUSED
      (do_gc (program_db 64 sim_hal []) any_stack 100) False 0 0 zero_sector 0) (zero_kvdb sim_state)"
proof -
  let ?db = "program_db 64 sim_hal []" and ?kv = "zero_kv\<lparr>addr_start := 16\<rparr>"
  let ?itr = "fdb_kv_iterator_init (zero_kvdb sim_state)
    \<lparr>curr_kv = zero_kv, iterated_cnt = 0, iterated_obj_bytes = 0, iterated_value_bytes = 0, sector_addr = 0, itr_traversed_len = 0\<rparr>"
  have num: "sector_num ?db = 256" by (simp add: sector_num_def program_db_def)
  have sizes: "32 \<le> unat (db_sec_size ?db)" "2 * unat (db_max_size ?db) + 2 * unat (db_sec_size ?db) + 1 < 2 ^ 32"
    "unat (sec_addr zero_sector) \<le> unat (db_max_size ?db)" "unat (4096 :: u32) \<le> unat (db_max_size ?db) + unat (db_sec_size ?db)"
    "unat (sec_addr zero_sector) + 16 \<le> unat (addr_start ?kv)" "unat (addr_start ?kv) \<le> unat (sec_addr zero_sector) + unat (db_sec_size ?db)"
    by (simp_all add: program_db_def zero_sector_def)
  have ok: "combined_ok (zero_kvdb sim_state)" by (simp add: combined_ok_def zero_kvdb_def zero_sector_def SECTOR_COMBINED_def)
  have cb: "keeps (do_gc ?db any_stack 100 sec acc)" for sec acc by (rule keeps_gc_cb)
  have kv: "keeps (gc_kv_cb ?db any_stack kv acc)" for kv acc unfolding gc_kv_cb_def by (intro keeps_rules)
  have itr: "itr_ok ?db ?itr" by (simp add: itr_ok_def fdb_kv_iterator_init_def zero_kvdb_def)
  show ?thesis
    using walks_end [where callback = "do_gc ?db any_stack 100" and kv_callback = "gc_kv_cb ?db any_stack" and m = 743 and stk = any_stack and b = False
        and a = 0 and sec = zero_sector and acc = 0 and status = FDB_SECTOR_STORE_UNUSED, OF sizes ok cb kv itr]
    unfolding num by (simp only: numeral_plus_numeral numeral_plus_one add_One add_num_simps) simp
qed

end
