(* ===== verification/Spec2Isabelle.thy ===== *)
theory Spec2Isabelle
  imports Nrf24_Properties App_Ps5 Ch_Events App_Publish App_Monitor Lwip_Addr App_Net Ch_Shell App_Shell App_Threads
    Rtt_Overwrite Rtt_Format App_Console Ch_Sched App_Startup Ch_Mutex W25_Sim Fdb_Crc Fdb_Properties Fdb_Loops
begin

text \<open>
  A verification development of the DualSense communicator: firmware for an STM32H7 board under
  ChibiOS that takes reports of a DualSense game controller from a USB host port and forwards
  them over UDP and over an nRF24L01 radio, with a command shell on the SEGGER RTT debug channel.
  Paths below are relative to \<^verbatim>\<open>src/\<close>; the operating system and the libraries live under
  \<^verbatim>\<open>src/ChibiOS_21.11.x/\<close>.

  \<^bold>\<open>The program and how its parts interact.\<close> The USB host library calls
  \<^verbatim>\<open>_hid_report_callback\<close> of \<^verbatim>\<open>main.c\<close> for every report. It parses the report into the back
  buffer of a double buffer, publishes the buffer by its index and broadcasts the event source
  \<^verbatim>\<open>esDS5Ready\<close>. Two consumer threads wait for that event: \<^verbatim>\<open>UdpServerThread\<close> copies the published
  buffer and sends it to the UDP destination, \<^verbatim>\<open>NRF24TxThread\<close> trims it and sends it with
  \<^verbatim>\<open>nrf24l01_basic_send\<close>. A radio interrupt broadcasts a second event source for
  \<^verbatim>\<open>NRF24InterruptThread\<close>, which runs the interrupt handler of the driver. The shell thread reads
  characters from the down channel of the debug interface, edits a line, and runs a command
  that changes the radio channel, the radio address, the network addresses or the UDP
  destination. A thread monitor records the duration of the loops. A key-value store on an
  external flash is part of the sources, from the flash driver over a partition layer to the
  functions of \<^verbatim>\<open>fdb_port.c\<close> for the application; at this commit its start is commented out in
  \<^verbatim>\<open>main.c\<close> and its makefile is not included.

  \<^bold>\<open>Theories and sources.\<close>

  \<^item> \<open>Prelude\<close>: the C integers as words, byte pointers with null, the state monad of the C functions,
    byte copies, in-place reversal, and the lemma collections shared by the components.
    \<open>Ring_Window\<close>: the bytes of a circular memory from an offset, used by the debug channel and
    the shell history.
  \<^item> \<open>Nrf24_Base\<close>, \<open>Nrf24_Config\<close>, \<open>Nrf24_Address\<close>, \<open>Nrf24_Payload\<close>: the driver
    \<^verbatim>\<open>src/nrf24l01/nrf24l01.c\<close> and its header, one definition per function; the handle is split into
    the linked functions and the mutable part \<open>nrf_state\<close>. \<open>Nrf24_Spec\<close> observes the chip as a map
    from registers to bytes and the list of loaded payloads. \<open>Nrf24_Bus\<close> is the contract of the
    linked functions (locale \<open>nrf_bus\<close>), with the lemmas on setters and getters;
    \<open>Nrf24_Address_Bus\<close> and \<open>Nrf24_Send_Bus\<close> continue it for addresses and sending.
  \<^item> \<open>Nrf24_Interface\<close>: \<^verbatim>\<open>src/nrf24l01/nrf24l01_interface.c\<close> over the HAL calls it makes, which are the
    fields of the record \<open>hal\<close>. \<open>Nrf24_Chip\<close> states what HAL and chip promise about single transfers
    (locale \<open>nrf_chip\<close>) and shows that the interface then meets \<open>nrf_bus\<close> (a sublocale);
    \<open>Nrf24_Irq\<close> adds the status register and the receive FIFO (locale \<open>nrf_irq_chip\<close>).
    \<open>Nrf24_Sim\<close> interprets both locales on a simulated chip, on which the witnesses run.
  \<^item> \<open>Nrf24_Basic\<close>, \<open>Nrf24_Basic_Bus\<close>: \<^verbatim>\<open>src/nrf24l01/nrf24l01_basic.c\<close>, the start-up sequence as a list
    of steps with their error messages, and sending to an address. \<open>Nrf24_Setters\<close>: all functions that
    write registers and their effects on the register file. \<open>Nrf24_Properties\<close> holds the properties of
    the radio stack.
  \<^item> \<open>App_Ps5\<close>: the packed structures of \<^verbatim>\<open>main.c\<close> with their bit layout, and the parsing and
    trimming of reports. \<open>Ch_Events\<close>: the event sources of \<^verbatim>\<open>os/rt/src/chevents.c\<close> as linked lists in
    a store, with the locale \<open>event_bus\<close>. \<open>App_Publish\<close>: the report callback, the double buffer and
    the interleaving of publications with the copy of a consumer. \<open>App_Monitor\<close>: the thread monitor,
    with the locale \<open>monitor_table\<close>. \<open>App_Threads\<close>: one iteration of the three consumer threads
    over all the state above.
  \<^item> \<open>Ch_Sched\<close>: the ready list and the operations of the scheduler, \<^verbatim>\<open>os/rt/src/chschd.c\<close>, without
    time quantum as \<^verbatim>\<open>cfg/chconf.h\<close> sets it, with the locale \<open>ready_insert\<close> for its two insertions.
    \<open>Ch_Mutex\<close>: the mutexes of \<^verbatim>\<open>os/rt/src/chmtx.c\<close> over the scheduler.
    \<open>App_Startup\<close>: \<^verbatim>\<open>main\<close> with the threads it creates as a step relation over the scheduler and the
    event sources; blocking calls, interrupts and broadcasts happen at any time.
  \<^item> \<open>Lwip_Addr\<close>: address text and netmask check of lwIP (\<^verbatim>\<open>core/ipv4/ip4_addr.c\<close>).
    \<open>App_Net\<close>: interface addresses (\<^verbatim>\<open>core/netif.c\<close>), their reconfiguration
    (\<^verbatim>\<open>lwip_bindings/lwipthread.c\<close>) and the UDP destination.
  \<^item> \<open>Rtt_Ring\<close>, \<open>Rtt_Block\<close>, \<open>Rtt_Api\<close>: \<^verbatim>\<open>src/RTT/SEGGER_RTT.c\<close>, first the operations on one ring, then the
    control block and the functions of the interface. The debug probe is
    a function that acts on the ring while the target waits (locales \<open>rtt_reader\<close> and
    \<open>fair_reader\<close>). \<open>Rtt_Wf\<close>: all calls as a step relation and the invariant of the control block.
    \<open>Rtt_Overwrite\<close>: the properties of the writer that overwrites.
    \<open>Rtt_Fifo\<close>: the contract of a byte queue (locale \<open>byte_fifo\<close>), met by the up and the down
    channels. \<open>Rtt_Spsc\<close>: writer and probe interleaved on one ring. \<open>Rtt_Channel\<close>: the stream
    methods of \<^verbatim>\<open>src/RTT/SEGGER_RTT_Channel.c\<close>. \<open>Rtt_Properties\<close>: the properties of the channel.
    \<open>Rtt_Printf\<close>: the formatted output of \<^verbatim>\<open>src/RTT/SEGGER_RTT_printf.c\<close>; \<open>Rtt_Format\<close>: its reference
    texts and the proof that the code prints them.
  \<^item> \<open>Ch_Shell\<close>, \<open>Ch_History\<close>, \<open>Ch_Line\<close>: \<^verbatim>\<open>os/various/shell/shell.c\<close>, the tokenizer and dispatch, the
    line history (locale \<open>line_history\<close>) and the line editor. \<open>App_Shell\<close>: the commands of
    \<^verbatim>\<open>main.c\<close>. \<open>App_Console\<close>: the shell thread on the stream of the debug channel.
  \<^item> \<open>W25_Driver\<close>, \<open>W25_Init\<close>: the flash driver \<^verbatim>\<open>src/w25qxx/w25qxx.c\<close> as far as the program calls it, on
    all its bus variants. \<open>W25_Interface\<close>: \<^verbatim>\<open>src/w25qxx/w25qxx_interface.c\<close> over its HAL calls (locale
    \<open>flash_link\<close>), with the size of the transfer buffer as a parameter, and the flash operations of
    \<^verbatim>\<open>src/flashdb/fdb_port.c\<close>. \<open>W25_Chip\<close>, \<open>W25_Timed\<close>: what the chip promises about single transfers
    and their duration (locales \<open>flash_chip\<close> and \<open>timed_chip\<close>). \<open>W25_Sim\<close>: a simulated W25Q64 that
    interprets them, and the properties. \<open>Fdb_Crc\<close>: the checksum of \<^verbatim>\<open>src/flashdb/src/fdb_utils.c\<close>.
  \<^item> \<open>Fal\<close>: the devices and partitions of \<^verbatim>\<open>src/flashdb/fal/\<close>, with the device and the table of
    \<^verbatim>\<open>fdb_port.c\<close> and \<^verbatim>\<open>fal_cfg.h\<close>. \<open>Fdb_Low\<close>: the rest of \<^verbatim>\<open>fdb_utils.c\<close>, status tables and access to the
    partition. \<open>Fdb_Record\<close>, \<open>Fdb_Kv\<close>, \<open>Fdb_Set\<close>, \<open>Fdb_Init\<close>: \<^verbatim>\<open>src/flashdb/src/fdb_kvdb.c\<close>, in this order
    the layout, reading and writing of one record; sectors, caches, lookup and iteration; allocation,
    deletion, garbage collection and setting; recovery and initialisation, with \<^verbatim>\<open>fdb.c\<close> and the
    functions of \<^verbatim>\<open>fdb_port.c\<close>. The record \<open>kvdb\<close> is \<^verbatim>\<open>struct fdb_kvdb\<close> with the state of the driver below
    it; what uninitialised locals hold is a parameter (\<open>kv_stack\<close>).
    \<open>Fdb_Flash\<close> holds the contracts of the layer below the store: a flash that can be read
    (\<open>flash_reader\<close>), one that stores (\<open>flash_store\<close>), one that erases but refuses every write
    (\<open>deaf_flash\<close>), and the port over a chip that keeps its promises, which meets the second with a
    transfer buffer of at least a sector (\<open>wide_flash\<close>) and the third with that of this board
    (\<open>board_flash\<close>); the simulated chip interprets them. \<open>Fdb_Commit\<close> and \<open>Fdb_Lookup\<close>: the writes of a
    record and finding it through the cache. \<open>Fdb_Walk\<close> and \<open>Fdb_Sectors\<close>: the walks over records and
    sectors. \<open>Fdb_Loops\<close>: the bounds of all loops. \<open>Fdb_Store\<close>: setting in a formatted store. \<open>Fdb_Board\<close>: the store on a flash that refuses
    writes. \<open>Fdb_Properties\<close>: the properties of the program's store.

  \<^bold>\<open>What is shown.\<close>

  \<^item> End to end: an accepted report reaches the UDP socket and the radio as the bytes of the
    latest report, once, when the consumers run; a line typed at the terminal at any pace is echoed
    and runs its command once with its arguments, or gets the answer of the shell to too many
    arguments, help or an unknown word.
  \<^item> Radio: start-up leaves the register values of the default macros; sending hands over exactly
    the reversed payload; every register setter refines an update of the register file, and the field
    settings and addresses are read back by their getters;
    the interrupt handler stays inside its buffer for every status and width, calls the receive
    callback for exactly the flags that are set, and leaves the configuration alone.
  \<^item> Start-up: the scheduler keeps the ready list ordered and runs a thread of the highest
    priority; in every interleaving of the start-up the consumers of controller data stay
    subscribed once they have registered, and the interrupt thread of the radio has lost its
    registration before the radio works.
  \<^item> Mutexes: priority inheritance is exact after any sequence of calls, also along chains of
    owners that wait themselves; unlocking returns and serves the waiting thread of the highest
    priority.
  \<^item> Publication: consumers see the latest report; a snapshot is consistent while at most one
    publication happens during the copy, and can mix two reports with two.
  \<^item> Debug channel: the control block stays well formed under every call; a channel is a
    bounded first-in first-out queue, also without a lock between target and probe; blocking
    writes return and lose nothing when the probe goes on reading; the fast writers agree with the general one;
    overwriting keeps the latest bytes up to the capacity; formatted output appends the
    reference text of its format.
  \<^item> Shell: no key damages the editor except Tab on an empty line; the history buffer implements
    a list of lines; the commands change exactly what they name.
  \<^item> Network: printed addresses are read back, the netmask check accepts exactly the prefix
    masks, reconfiguration changes exactly the three addresses.
  \<^item> External flash (switched off in \<^verbatim>\<open>main\<close> and in the Makefile at this commit): a write of any range
    stores exactly its data when the transfer buffer holds a sector, and no write ever succeeds
    with the buffer of this board; reads return the cells up to 59 bytes and fail beyond; erasing
    is exact; opening ends as the chip answers. The checksum is the CRC-32 of its input.
  \<^item> Key-value store: in a formatted store a value that is set is read back; a record becomes
    valid only with its last write, also when the power fails in between; all loops over
    records, sectors and pieces of values end by themselves on every content of the flash; a partition is accessed inside
    its bounds, unless the sum of address and size wraps. On this board nothing is ever
    stored, although the initialisation reports success.
  \<^item> Findings proved as theorems: the interrupt thread never wakes up because its event source
    is initialised again after it registered; the command \<^verbatim>\<open>nrf_addr\<close> can never run; the completion
    array overflows; the byte count of a wrapped ring is wrong; overwriting more than the
    capacity loses data; a blocking read of 65536 bytes or more never returns; formatted output
    divides by zero for a long hexadecimal precision and reports text it has lost; a lookup
    through the record cache can return the value of another key.

  \<^bold>\<open>Loops, bounds and fuel.\<close> Loops over data are structural recursions or have a measure. Loops whose
  end depends on the environment (the blocking writes, reads and key waits of the debug channel,
  the console) or on an invariant of the data (the history buffer) are partial functions into
  option, and that they return is proved from a fair environment or from the invariant. The wait
  of \<^verbatim>\<open>nrf24l01_send\<close> is bounded by the counter 5000 of the code. The loops of the key-value store
  carry a bound, one round per byte of a sector for records, one more than the sectors for sectors
  and two more than the pieces for the data they read piece by piece, and \<open>walks_end\<close> in \<open>Fdb_Loops\<close>
  shows for each of them that a larger bound changes nothing; the retry after a recovery is a
  partial function. The machine integers are words of
  their width: 32-bit ring offsets, the 16-bit counter of \<^verbatim>\<open>__reads\<close>, the wrapping durations of
  the thread monitor. Writes outside an object are values (\<open>None\<close>, \<open>Bad\<close> or a fault flag) and are
  shown not to occur, or to occur exactly under the stated condition.

  \<^bold>\<open>Not modelled, and why.\<close> The USB host library, the remaining kernel and HAL code, and
  the lwIP stack beyond addresses, are vendored; what the program calls of them is a parameter or
  is modelled as far as it is used (event sources, scheduler, mutexes, interface addresses). \<^verbatim>\<open>nrf24l01_info\<close> fills in
  constants of the chip with floating-point limits. The loops of the LED thread and of the
  threads that poll the USB stack only call the kernel and the HAL, and threads that libraries
  create (lwIP) do not appear in the start-up; the display thread of the monitor is disabled. The assembler version of \<^verbatim>\<open>SEGGER_RTT_WriteSkipNoLock\<close> is not modelled;
  the C version is, although this target compiles the assembler one. Of FlashDB the
  time series store and the file mode are left out, which this program does not use, and in the
  key-value store printing, the control options and locking; of FAL, replacing and printing the
  partition table. The functions of the flash driver that nothing here calls (status registers,
  block erase, power modes) are left out too. The formatting of \<^verbatim>\<open>chprintf\<close> in command output is not modelled: output is recorded as the
  format and its arguments, while the echo of the line editor goes to the channel byte by byte.
  The built-in shell commands of \<^verbatim>\<open>shell_cmd.c\<close> are a parameter of the interpreter.

  \<^bold>\<open>Extensions.\<close> The round trip of the store is shown for the first value of a formatted store; a store
  that already holds records, and garbage collection preserving their values, are the next steps
  over the same contracts.
\<close>

end
